(* ===== verification/GoPrelude.thy ===== *)
theory GoPrelude
  imports Main "HOL-Library.Word" "HOL-Library.AList"
begin

section \<open>Prelude: the Go values, slices, maps and byte strings the models share\<close>

text \<open>
  Shared vocabulary of the development.

  \<^item> A Go call that may panic returns \<open>'a go\<close>: \<open>Inl p\<close> is a run-time panic of
    kind \<open>p\<close>, \<open>Inr x\<close> a normal return.  A Go \<open>error\<close> value is not a
    panic: it is part of the returned value.
  \<^item> Slices are lists; \<open>go_slice\<close>, \<open>go_make\<close> and \<open>go_copy\<close> follow the
    bounds rules of the language.  A machine word is a \<open>word\<close> of its width.
  \<^item> A Go map is an association list (\<open>gomap\<close>).  The order of a \<open>range\<close>
    over a map is not determined by the language: operations whose result depends on it take
    the order as an explicit argument, constrained by \<open>map_order\<close>.
  \<^item> Big-endian byte strings and the operations of \<open>math/big.Int\<close> the code uses.
  \<^item> The interfaces (locales) several components share: register-like stores, trimmed logs,
    fixed-width codecs and transition systems with an invariant.
\<close>

named_theorems go_simps \<open>computation rules of the panic type\<close>
named_theorems gomap_simps \<open>lookup after update\<close>
named_theorems bytes_simps \<open>big-endian byte strings\<close>

type_synonym byte = "8 word"
type_synonym u64 = "64 word"

subsection \<open>Panics\<close>

datatype go_panic =
    NilDeref | IndexOutOfRange | SliceBounds | MakeSliceLen | NilMapWrite
  | ClosedChannel | DivideByZero | ExplicitPanic

type_synonym 'a go = "go_panic + 'a"

definition go_bind :: "'a go \<Rightarrow> ('a \<Rightarrow> 'b go) \<Rightarrow> 'b go" where
  "go_bind m f = (case m of Inl p \<Rightarrow> Inl p | Inr x \<Rightarrow> f x)"

lemma go_bind_Inl [simp, go_simps]: "go_bind (Inl p) f = Inl p"
  by (simp add: go_bind_def)

lemma go_bind_Inr [simp, go_simps]: "go_bind (Inr x) f = f x"
  by (simp add: go_bind_def)

lemma go_bind_eq_Inr: "go_bind m f = Inr y \<longleftrightarrow> (\<exists>x. m = Inr x \<and> f x = Inr y)"
  by (cases m) auto

lemma go_bind_assoc: "go_bind (go_bind m f) g = go_bind m (\<lambda>x. go_bind (f x) g)"
  by (cases m) auto

lemma go_bindE:
  assumes "go_bind m f = Inr y"
  obtains x where "m = Inr x" and "f x = Inr y"
  using assms by (auto simp: go_bind_eq_Inr)

text \<open>Dereferencing a pointer that may be nil.\<close>

definition go_deref :: "'a option \<Rightarrow> 'a go" where
  "go_deref p = (case p of None \<Rightarrow> Inl NilDeref | Some x \<Rightarrow> Inr x)"

lemma go_deref_simps [simp, go_simps]:
  "go_deref None = Inl NilDeref" "go_deref (Some x) = Inr x"
  by (simp_all add: go_deref_def)

lemma go_deref_eq_Inr [simp]: "go_deref p = Inr x \<longleftrightarrow> p = Some x"
  by (cases p) auto

subsection \<open>Slices\<close>

text \<open>
  \<open>xs[a:b]\<close> on a slice whose capacity is its length: the bounds must satisfy
  \<open>a <= b <= len(xs)\<close>.
\<close>

definition go_slice :: "'a list \<Rightarrow> nat \<Rightarrow> nat \<Rightarrow> 'a list go" where
  "go_slice xs a b =
     (if a \<le> b \<and> b \<le> length xs then Inr (take (b - a) (drop a xs)) else Inl SliceBounds)"

lemma go_slice_eq_Inr:
  "go_slice xs a b = Inr ys \<longleftrightarrow> a \<le> b \<and> b \<le> length xs \<and> ys = take (b - a) (drop a xs)"
  by (auto simp: go_slice_def)

text \<open>\<open>copy(dst, src)\<close>: the shorter length is copied.\<close>

definition go_copy :: "'a list \<Rightarrow> 'a list \<Rightarrow> 'a list" where
  "go_copy dst src = take (length dst) src @ drop (length src) dst"

lemma length_go_copy [simp]: "length (go_copy dst src) = length dst"
  by (simp add: go_copy_def)

lemma go_copy_same_length [simp]: "length src = length dst \<Longrightarrow> go_copy dst src = src"
  by (simp add: go_copy_def)

text \<open>\<open>copy(dst[a:], src)\<close> for \<open>a <= len(dst)\<close>.\<close>

definition go_copy_at :: "'a list \<Rightarrow> nat \<Rightarrow> 'a list \<Rightarrow> 'a list" where
  "go_copy_at dst a src = take a dst @ go_copy (drop a dst) src"

lemma length_go_copy_at [simp]: "length (go_copy_at dst a src) = length dst"
  by (simp add: go_copy_at_def)

text \<open>
  \<open>make([]byte, n)\<close>.  The run time panics when the length is beyond what the
  allocator can address, 2 to the 48 on 64-bit targets; running out of physical memory below
  that is not modelled.
\<close>

definition max_alloc :: nat where
  "max_alloc = 2 ^ 48"

definition go_make :: "nat \<Rightarrow> byte list go" where
  "go_make n = (if n \<le> max_alloc then Inr (replicate n 0) else Inl MakeSliceLen)"

lemma go_make_eq_Inr: "go_make n = Inr bs \<longleftrightarrow> n \<le> max_alloc \<and> bs = replicate n 0"
  by (auto simp: go_make_def)

text \<open>Keeping the last \<open>n\<close> entries, the way the event buffers are trimmed.\<close>

definition keep_last :: "nat \<Rightarrow> 'a list \<Rightarrow> 'a list" where
  "keep_last n xs = drop (length xs - n) xs"

lemma length_keep_last [simp]: "length (keep_last n xs) = min n (length xs)"
  by (simp add: keep_last_def)

lemma keep_last_all [simp]: "length xs \<le> n \<Longrightarrow> keep_last n xs = xs"
  by (simp add: keep_last_def)

lemma keep_last_keep_last_append:
  "keep_last n (keep_last n xs @ ys) = keep_last n (xs @ ys)"
proof (cases "length xs \<le> n")
  case False
  then have "length (keep_last n xs) = n" by simp
  with False show ?thesis by (simp add: keep_last_def add.commute)
qed simp

lemma set_keep_last: "set (keep_last n xs) \<subseteq> set xs"
  by (simp add: keep_last_def set_drop_subset)

lemma keep_last_suffix: "\<exists>ys. xs = ys @ keep_last n xs"
  by (metis append_take_drop_id keep_last_def)

subsection \<open>Maps\<close>

type_synonym ('k, 'v) gomap = "('k \<times> 'v) list"

definition go_get :: "('k, 'v) gomap \<Rightarrow> 'k \<Rightarrow> 'v option" where
  "go_get m k = map_of m k"

definition go_put :: "'k \<Rightarrow> 'v \<Rightarrow> ('k, 'v) gomap \<Rightarrow> ('k, 'v) gomap" where
  "go_put k v m = AList.update k v m"

definition go_del :: "'k \<Rightarrow> ('k, 'v) gomap \<Rightarrow> ('k, 'v) gomap" where
  "go_del k m = AList.delete k m"

definition go_keys :: "('k, 'v) gomap \<Rightarrow> 'k list" where
  "go_keys m = map fst m"

definition go_wf :: "('k, 'v) gomap \<Rightarrow> bool" where
  "go_wf m \<longleftrightarrow> distinct (go_keys m)"

text \<open>\<open>ks\<close> is a possible order of a \<open>range\<close> over \<open>m\<close>.\<close>

definition map_order :: "('k, 'v) gomap \<Rightarrow> 'k list \<Rightarrow> bool" where
  "map_order m ks \<longleftrightarrow> distinct ks \<and> set ks = set (go_keys m)"

lemma go_get_Nil [simp, gomap_simps]: "go_get [] k = None"
  by (simp add: go_get_def)

lemma go_get_put [simp, gomap_simps]:
  "go_get (go_put k v m) k' = (if k' = k then Some v else go_get m k')"
  by (simp add: go_get_def go_put_def AList.update_conv')

lemma go_get_del [simp, gomap_simps]:
  "go_get (go_del k m) k' = (if k' = k then None else go_get m k')"
  by (simp add: go_get_def go_del_def AList.delete_conv')

lemma set_go_keys_put [simp]: "set (go_keys (go_put k v m)) = insert k (set (go_keys m))"
  by (auto simp: go_keys_def go_put_def dom_update)

lemma set_go_keys_del [simp]: "set (go_keys (go_del k m)) = set (go_keys m) - {k}"
  by (auto simp: go_keys_def go_del_def delete_keys)

lemma go_wf_Nil [simp, intro]: "go_wf []"
  by (simp add: go_wf_def go_keys_def)

lemma go_wf_put [simp, intro]: "go_wf m \<Longrightarrow> go_wf (go_put k v m)"
  by (simp add: go_wf_def go_put_def go_keys_def distinct_update)

lemma go_wf_del [simp, intro]: "go_wf m \<Longrightarrow> go_wf (go_del k m)"
  by (simp add: go_wf_def go_del_def go_keys_def distinct_delete)

lemma go_get_None_iff: "go_get m k = None \<longleftrightarrow> k \<notin> set (go_keys m)"
  by (simp add: go_get_def go_keys_def map_of_eq_None_iff)

lemma go_get_Some_key: "go_get m k = Some v \<Longrightarrow> k \<in> set (go_keys m)"
  by (metis go_get_None_iff option.distinct(1))

lemma go_len_card: "go_wf m \<Longrightarrow> length m = card (set (go_keys m))"
  by (metis distinct_card go_keys_def go_wf_def length_map)

lemma length_go_put:
  assumes "go_wf m"
  shows "length (go_put k v m) = (if k \<in> set (go_keys m) then length m else Suc (length m))"
  using assms go_wf_put [OF assms, of k v]
  by (simp add: go_len_card insert_absorb)

lemma length_go_del:
  assumes "go_wf m"
  shows "length (go_del k m) = (if k \<in> set (go_keys m) then length m - 1 else length m)"
  using assms go_wf_del [OF assms, of k]
  by (simp add: go_len_card)

lemma map_order_keys [simp, intro]: "go_wf m \<Longrightarrow> map_order m (go_keys m)"
  by (simp add: map_order_def go_wf_def)

subsection \<open>Big-endian byte strings\<close>

fun be_bytes :: "nat \<Rightarrow> byte list" where
  "be_bytes n = (if n = 0 then [] else be_bytes (n div 256) @ [of_nat (n mod 256)])"

declare be_bytes.simps [simp del]

lemma be_bytes_0 [simp, bytes_simps]: "be_bytes 0 = []"
  by (simp add: be_bytes.simps)

lemma be_bytes_pos:
  "0 < n \<Longrightarrow> be_bytes n = be_bytes (n div 256) @ [of_nat (n mod 256)]"
  by (subst be_bytes.simps) simp

definition be_nat :: "byte list \<Rightarrow> nat" where
  "be_nat bs = foldl (\<lambda>a b. a * 256 + unat b) 0 bs"

lemma be_nat_Nil [simp, bytes_simps]: "be_nat [] = 0"
  by (simp add: be_nat_def)

lemma be_nat_snoc [simp, bytes_simps]: "be_nat (bs @ [b]) = be_nat bs * 256 + unat b"
  by (simp add: be_nat_def)

lemma be_nat_append: "be_nat (as @ bs) = be_nat as * 256 ^ length bs + be_nat bs"
proof (induction bs rule: rev_induct)
  case (snoc b bs)
  have "be_nat (as @ bs @ [b]) = be_nat (as @ bs) * 256 + unat b"
    by (simp flip: append_assoc)
  with snoc show ?case by (simp add: algebra_simps)
qed simp

lemma be_nat_Cons: "be_nat (b # bs) = unat b * 256 ^ length bs + be_nat bs"
  using be_nat_append [of "[b]" bs] by (simp add: be_nat_def)

lemma unat_byte_lt [simp]: "unat (b :: byte) < 256"
  using unsigned_less [of b, where ?'a = nat] by simp

lemma be_nat_lt: "be_nat bs < 256 ^ length bs"
proof (induction bs rule: rev_induct)
  case (snoc b bs)
  have "unat b < 256" by simp
  with snoc have "be_nat bs * 256 + unat b < (be_nat bs + 1) * 256" by simp
  also from snoc have "(be_nat bs + 1) * 256 \<le> 256 ^ length bs * 256"
    by (intro mult_le_mono1) simp
  finally show ?case by simp
qed simp

lemma unat_of_nat_byte [simp]: "unat (of_nat (n mod 256) :: byte) = n mod 256"
  by (simp add: unat_of_nat)

lemma be_nat_be_bytes [simp, bytes_simps]: "be_nat (be_bytes n) = n"
proof (induction n rule: be_bytes.induct)
  case (1 n)
  show ?case
  proof (cases "n = 0")
    case False
    then show ?thesis using 1 by (simp add: be_bytes_pos)
  qed simp
qed

lemma be_nat_replicate_0 [simp]: "be_nat (replicate k 0 @ bs) = be_nat bs"
  by (induction k) (simp_all add: be_nat_Cons)

lemma be_nat_zeros [simp]: "be_nat (replicate k 0) = 0"
  using be_nat_replicate_0 [of k "[]"] by simp

lemma length_be_bytes_le: "length (be_bytes n) \<le> k \<longleftrightarrow> n < 256 ^ k"
proof (induction n arbitrary: k rule: be_bytes.induct)
  case (1 n)
  show ?case
  proof (cases "n = 0")
    case False
    show ?thesis
    proof (cases k)
      case 0
      with False show ?thesis by (simp add: be_bytes_pos)
    next
      case (Suc j)
      have "n div 256 < 256 ^ j \<longleftrightarrow> n < 256 ^ Suc j"
        by (simp add: div_less_iff_less_mult mult.commute)
      with 1 [of j] False Suc show ?thesis by (simp add: be_bytes_pos)
    qed
  qed simp
qed

text \<open>The low-order bytes: the last \<open>k\<close> bytes are the value modulo \<open>256 ^ k\<close>.\<close>

lemma be_nat_last: "be_nat (drop (length bs - k) bs) = be_nat bs mod 256 ^ k"
proof (cases "k \<le> length bs")
  case True
  let ?hi = "take (length bs - k) bs" and ?lo = "drop (length bs - k) bs"
  have lo: "length ?lo = k" using True by simp
  have "be_nat bs = be_nat (?hi @ ?lo)" by simp
  also have "\<dots> = be_nat ?hi * 256 ^ k + be_nat ?lo"
    by (simp only: be_nat_append lo)
  finally have "be_nat bs = be_nat ?hi * 256 ^ k + be_nat ?lo" .
  moreover have "be_nat ?lo < 256 ^ k" using be_nat_lt [of ?lo] lo by simp
  ultimately show ?thesis by simp
next
  case False
  have "be_nat bs < 256 ^ length bs" by (rule be_nat_lt)
  also have "\<dots> \<le> 256 ^ k" using False by (intro power_increasing) auto
  finally show ?thesis using False by simp
qed

lemma be_nat_inject: "length as = length bs \<Longrightarrow> be_nat as = be_nat bs \<Longrightarrow> as = bs"
proof (induction as bs rule: list_induct2)
  case (Cons a as b bs)
  have la: "be_nat as < 256 ^ length bs" and lb: "be_nat bs < 256 ^ length bs"
    using be_nat_lt [of as] be_nat_lt [of bs] Cons.hyps by simp_all
  have "unat a * 256 ^ length bs + be_nat as = unat b * 256 ^ length bs + be_nat bs"
    using Cons.prems Cons.hyps by (simp add: be_nat_Cons)
  then have eq: "(unat a * 256 ^ length bs + be_nat as) div 256 ^ length bs =
      (unat b * 256 ^ length bs + be_nat bs) div 256 ^ length bs" by simp
  from eq la lb have "unat a = unat b" by simp
  with Cons la lb show ?case by (simp add: be_nat_Cons word_unat_eq_iff)
qed simp

text \<open>Left-padding with zero bytes: the \<open>copy(dst[n-len(bs):], bs)\<close> idiom on a fresh array.\<close>

definition pad_left :: "nat \<Rightarrow> byte list \<Rightarrow> byte list" where
  "pad_left n bs = replicate (n - length bs) 0 @ bs"

lemma be_nat_pad_left [simp, bytes_simps]: "be_nat (pad_left n bs) = be_nat bs"
  by (simp add: pad_left_def)

lemma length_pad_left [simp, bytes_simps]: "length bs \<le> n \<Longrightarrow> length (pad_left n bs) = n"
  by (simp add: pad_left_def)

text \<open>
  The array conversions of the code keep the low-order \<open>n\<close> bytes of a byte string and
  pad it on the left: \<open>if len(bytes) > n { bytes = bytes[len(bytes)-n:] }\<close> followed by
  \<open>copy(arr[n-len(bytes):], bytes)\<close>.
\<close>

definition fit_array :: "nat \<Rightarrow> byte list \<Rightarrow> byte list" where
  "fit_array n bs = pad_left n (if n < length bs then drop (length bs - n) bs else bs)"

lemma length_fit_array [simp, bytes_simps]: "length (fit_array n bs) = n"
  by (simp add: fit_array_def)

lemma be_nat_fit_array [simp, bytes_simps]: "be_nat (fit_array n bs) = be_nat bs mod 256 ^ n"
proof (cases "n < length bs")
  case False
  then have "be_nat bs < 256 ^ n"
    by (intro less_le_trans [OF be_nat_lt power_increasing]) auto
  with False show ?thesis by (simp add: fit_array_def)
qed (simp add: fit_array_def be_nat_last)

lemma fit_array_be_nat: "length bs = n \<Longrightarrow> fit_array n (be_bytes (be_nat bs)) = bs"
  by (rule be_nat_inject) (use be_nat_lt [of bs] in simp_all)

end
