(* ===== verification/GoBigInt.thy ===== *)
theory GoBigInt
  imports GoPrelude
begin

section \<open>The operations of \<open>math/big.Int\<close> the code uses\<close>

text \<open>
  A \<open>*big.Int\<close> is an \<open>int\<close>; a pointer that may be nil is an \<open>int option\<close>.
  \<open>Div\<close> and \<open>Mod\<close> are Euclidean, \<open>And\<close>, \<open>Or\<close>, \<open>Xor\<close> and the
  shifts act on the two's complement, \<open>Bytes\<close> gives the big-endian absolute value,
  \<open>Uint64\<close> its low 64 bits, and \<open>Exp\<close> with a modulus inverts the base for a
  negative exponent and returns nil when that is impossible.
\<close>

unbundle bit_operations_syntax

definition big_bytes :: "int \<Rightarrow> byte list" where
  "big_bytes x = be_bytes (nat \<bar>x\<bar>)"

definition big_of_bytes :: "byte list \<Rightarrow> int" where
  "big_of_bytes bs = int (be_nat bs)"

definition big_uint64 :: "int \<Rightarrow> u64" where
  "big_uint64 x = word_of_int \<bar>x\<bar>"

definition big_div :: "int \<Rightarrow> int \<Rightarrow> int" where
  "big_div x y = (x - x mod \<bar>y\<bar>) div y"

definition big_mod :: "int \<Rightarrow> int \<Rightarrow> int" where
  "big_mod x y = x mod \<bar>y\<bar>"

fun egcd :: "nat \<Rightarrow> nat \<Rightarrow> nat \<times> int \<times> int" where
  "egcd a b = (if b = 0 then (a, 1, 0)
     else (case egcd b (a mod b) of (g, s, t) \<Rightarrow> (g, t, s - int (a div b) * t)))"

declare egcd.simps [simp del]

definition big_mod_inverse :: "int \<Rightarrow> int \<Rightarrow> int option" where
  "big_mod_inverse x m =
     (case egcd (nat (x mod m)) (nat m) of (g, s, t) \<Rightarrow> if g = 1 then Some (s mod m) else None)"

definition big_exp :: "int \<Rightarrow> int \<Rightarrow> int \<Rightarrow> int option" where
  "big_exp x y m =
     (if y < 0 then map_option (\<lambda>i. i ^ nat (- y) mod m) (big_mod_inverse x m)
      else Some (x ^ nat y mod m))"

text \<open>
  The range of an unsigned 256-bit value.  The modulus is kept as a constant, so that the
  simplifier does not expand it.
\<close>

definition two256 :: int where
  "two256 = 2 ^ 256"

definition u256 :: "int \<Rightarrow> bool" where
  "u256 v \<longleftrightarrow> 0 \<le> v \<and> v < two256"

definition u256_mask :: int where
  "u256_mask = two256 - 1"

lemma two256_gt_1 [simp]: "1 < two256"
  by (simp add: two256_def)

lemma two256_pos [simp]: "0 < two256" "0 \<le> two256" "two256 \<noteq> 0"
  by (simp_all add: two256_def)

lemma u256_0 [simp, intro]: "u256 0"
  and u256_1 [simp, intro]: "u256 1"
  by (simp_all add: u256_def)

lemma u256_nonneg: "u256 v \<Longrightarrow> 0 \<le> v"
  by (simp add: u256_def)

lemma take_bit_256: "take_bit 256 (x :: int) = x mod two256"
  by (simp only: take_bit_eq_mod two256_def)

lemma and_u256_mask: "x AND u256_mask = x mod two256"
proof -
  have "u256_mask = mask 256" by (simp add: u256_mask_def two256_def mask_eq_exp_minus_1)
  moreover have "x AND mask 256 = x mod two256"
    by (simp only: flip: take_bit_eq_mask take_bit_256)
  ultimately show ?thesis by simp
qed

lemma u256_mod [simp, intro]: "u256 (x mod two256)"
  by (simp add: u256_def)

lemma uint_lt_two256 [simp]: "uint (w :: 256 word) < two256"
  using uint_lt2p [of w] by (simp add: two256_def)

lemma u256_uint [simp, intro]: "u256 (uint (w :: 256 word))"
  by (simp add: u256_def)

lemma u256_iff_uint: "u256 v \<longleftrightarrow> (\<exists>w :: 256 word. v = uint w)"
proof
  assume "u256 v"
  then have "v = uint (word_of_int v :: 256 word)"
    by (simp add: u256_def uint_word_of_int two256_def)
  then show "\<exists>w :: 256 word. v = uint w" ..
qed auto

text \<open>The operations of 256-bit words, on their unsigned values.\<close>

lemma uint_add_u256: "uint ((a :: 256 word) + b) = (uint a + uint b) mod two256"
  by (simp add: uint_word_ariths two256_def)

lemma uint_sub_u256: "uint ((a :: 256 word) - b) = (uint a - uint b) mod two256"
  by (simp add: uint_word_ariths two256_def)

lemma uint_mult_u256: "uint ((a :: 256 word) * b) = (uint a * uint b) mod two256"
  by (simp add: uint_word_ariths two256_def)

lemma uint_power_u256: "uint ((w :: 256 word) ^ n) = uint w ^ n mod two256"
proof (induction n)
  case (Suc n)
  then show ?case by (simp add: uint_mult_u256 mod_mult_right_eq)
qed (simp add: two256_def)

lemma uint_not_u256: "uint (NOT (w :: 256 word)) = uint w XOR u256_mask"
proof -
  have "NOT w = w XOR (- 1)" by simp
  then have "uint (NOT w) = uint w XOR uint (- 1 :: 256 word)"
    by (simp only: uint_xor)
  also have "uint (- 1 :: 256 word) = u256_mask"
    by (simp add: u256_mask_def two256_def unsigned_minus_1_eq_mask mask_eq_exp_minus_1)
  finally show ?thesis .
qed

lemma uint_push_bit_u256: "uint (push_bit n (w :: 256 word)) = push_bit n (uint w) mod two256"
  by (simp add: unsigned_push_bit_eq take_bit_256)

lemma uint_drop_bit_u256: "uint (drop_bit n (w :: 256 word)) = drop_bit n (uint w)"
  by (rule bit_eqI) (auto simp: bit_simps dest: bit_imp_le_length)

lemma u256_and [intro]: "u256 a \<Longrightarrow> u256 b \<Longrightarrow> u256 (a AND b)"
  by (auto simp: u256_iff_uint simp flip: uint_and)

lemma u256_or [intro]: "u256 a \<Longrightarrow> u256 b \<Longrightarrow> u256 (a OR b)"
  by (auto simp: u256_iff_uint simp flip: uint_or)

lemma u256_xor [intro]: "u256 a \<Longrightarrow> u256 b \<Longrightarrow> u256 (a XOR b)"
  by (auto simp: u256_iff_uint simp flip: uint_xor)

lemma u256_not [intro]: "u256 a \<Longrightarrow> u256 (a XOR u256_mask)"
  by (auto simp: u256_iff_uint simp flip: uint_not_u256)

lemma u256_drop_bit [intro]: "u256 a \<Longrightarrow> u256 (drop_bit n a)"
  by (auto simp: u256_iff_uint simp flip: uint_drop_bit_u256)

text \<open>Division on non-negative values is the usual one.\<close>

lemma big_div_nonneg: "0 \<le> a \<Longrightarrow> 0 < b \<Longrightarrow> big_div a b = a div b"
  by (simp add: big_div_def minus_mod_eq_mult_div)

lemma big_mod_nonneg: "0 \<le> b \<Longrightarrow> big_mod a b = a mod b"
  by (simp add: big_mod_def)

lemma u256_big_div [intro]: "u256 a \<Longrightarrow> u256 b \<Longrightarrow> b \<noteq> 0 \<Longrightarrow> u256 (big_div a b)"
  by (auto simp: u256_iff_uint uint_div intro: exI [of _ "(_ :: 256 word) div _"]
    simp add: big_div_nonneg simp flip: uint_div)
     (metis big_div_nonneg less_le uint_div uint_ge_0)

lemma u256_big_mod [intro]: "u256 a \<Longrightarrow> u256 b \<Longrightarrow> b \<noteq> 0 \<Longrightarrow> u256 (big_mod a b)"
  by (auto simp: u256_def big_mod_nonneg intro: order.strict_trans [OF pos_mod_bound])

lemma u256_big_exp: "big_exp x y two256 = Some v \<Longrightarrow> u256 v"
  by (auto simp: big_exp_def split: if_splits)

lemma big_exp_nonneg: "0 \<le> y \<Longrightarrow> big_exp x y m = Some (x ^ nat y mod m)"
  by (simp add: big_exp_def)

text \<open>Bytes and their value.\<close>

lemma big_of_bytes_bytes: "big_of_bytes (big_bytes x) = \<bar>x\<bar>"
  by (simp add: big_of_bytes_def big_bytes_def)

lemma length_big_bytes_le: "length (big_bytes x) \<le> k \<longleftrightarrow> \<bar>x\<bar> < 256 ^ k"
  by (simp add: big_bytes_def length_be_bytes_le nat_less_iff)

lemma u256_of_bytes: "length bs \<le> 32 \<Longrightarrow> u256 (big_of_bytes bs)"
proof -
  assume "length bs \<le> 32"
  then have "256 ^ length bs \<le> (256 :: nat) ^ 32" by (intro power_increasing) auto
  then have "be_nat bs < 256 ^ 32" using be_nat_lt [of bs] by (rule less_le_trans [rotated])
  then show ?thesis by (simp add: u256_def big_of_bytes_def two256_def)
qed

lemma unat_big_uint64: "0 \<le> x \<Longrightarrow> unat (big_uint64 x) = nat x mod 2 ^ 64"
  by (simp add: big_uint64_def unsigned_of_int take_bit_eq_mod nat_mod_distrib)

subsection \<open>Evaluation\<close>

text \<open>Code equations that keep large values in the type \<open>int\<close>.\<close>

fun bytes_of_int :: "int \<Rightarrow> byte list" where
  "bytes_of_int n = (if n \<le> 0 then [] else bytes_of_int (n div 256) @ [word_of_int (n mod 256)])"

declare bytes_of_int.simps [simp del]

lemma bytes_of_int_nat: "bytes_of_int (int n) = be_bytes n"
proof (induction n rule: be_bytes.induct)
  case (1 n)
  show ?case
  proof (cases "n = 0")
    case False
    have d: "int n div 256 = int (n div 256)" and m: "int n mod 256 = int (n mod 256)"
      by (simp_all add: zdiv_int zmod_int)
    have "bytes_of_int (int n) = bytes_of_int (int (n div 256)) @ [of_nat (n mod 256)]"
      using False unfolding bytes_of_int.simps [of "int n"] d m by (simp del: of_nat_mod)
    with 1 False show ?thesis by (simp add: be_bytes_pos)
  qed (simp add: bytes_of_int.simps)
qed

lemma big_bytes_code [code]: "big_bytes x = bytes_of_int \<bar>x\<bar>"
  using bytes_of_int_nat [of "nat \<bar>x\<bar>"] by (simp add: big_bytes_def)

lemma big_of_bytes_code [code]: "big_of_bytes bs = foldl (\<lambda>a b. a * 256 + uint b) 0 bs"
  by (induction bs rule: rev_induct) (simp_all add: big_of_bytes_def)

lemma go_make_code [code]:
  "go_make n = (if int n \<le> 281474976710656 then Inr (replicate n 0) else Inl MakeSliceLen)"
proof -
  have "max_alloc = 281474976710656" by (simp add: max_alloc_def)
  moreover have "int n \<le> 281474976710656 \<longleftrightarrow> n \<le> 281474976710656" by linarith
  ultimately show ?thesis by (simp only: go_make_def)
qed

end
