(* ===== verification/GoInterfaces.thy ===== *)
theory GoInterfaces
  imports GoBigInt
begin

section \<open>Interfaces\<close>

text \<open>
  The contracts several components share, as locales.  Each is interpreted in the theories of
  the components that provide it.

  \<^item> \<open>store\<close>: a state read and written by key (contract storage, account balances and
    storage of the state database, Go maps, parameters).
  \<^item> \<open>trimmed_log\<close>: a buffer that keeps the most recent entries (event bus, event logger,
    state history, the events of a simulator).
  \<^item> \<open>byte_codec\<close>: a fixed-width encoding that decodes back (the ABI words).
  \<^item> \<open>step_system\<close>: a transition system with an invariant, and \<open>measured_system\<close>,
    its extension by a measure that every step decreases.
\<close>

subsection \<open>Register-like stores\<close>

locale store =
  fixes rd :: "'s \<Rightarrow> 'k \<Rightarrow> 'v"
    and wr :: "'k \<Rightarrow> 'v \<Rightarrow> 's \<Rightarrow> 's"
  assumes rd_wr: "rd (wr k v s) k' = (if k' = k then v else rd s k')"
begin

lemma rd_wr_same: "rd (wr k v s) k = v"
  by (simp add: rd_wr)

lemma rd_wr_other: "k' \<noteq> k \<Longrightarrow> rd (wr k v s) k' = rd s k'"
  by (simp add: rd_wr)

lemma rd_overwrite: "rd (wr k v (wr k u s)) = rd (wr k v s)"
  by (simp add: fun_eq_iff rd_wr)

lemma rd_commute: "k \<noteq> k' \<Longrightarrow> rd (wr k v (wr k' v' s)) = rd (wr k' v' (wr k v s))"
  by (auto simp: fun_eq_iff rd_wr)

text \<open>A sequence of writes: the last write of a key wins.\<close>

lemma rd_writes:
  "rd (fold (\<lambda>(k, v). wr k v) kvs s) k =
     (case map_of (rev kvs) k of None \<Rightarrow> rd s k | Some v \<Rightarrow> v)"
proof (induction kvs arbitrary: s)
  case (Cons kv kvs)
  then show ?case
    by (cases kv) (auto simp: rd_wr map_add_def split: option.splits)
qed simp

end

text \<open>Go maps: storing a value, or deleting the key when there is none.\<close>

definition go_set :: "'k \<Rightarrow> 'v option \<Rightarrow> ('k, 'v) gomap \<Rightarrow> ('k, 'v) gomap" where
  "go_set k ov m = (case ov of None \<Rightarrow> go_del k m | Some v \<Rightarrow> go_put k v m)"

interpretation gomap: store go_get go_set
  by unfold_locales (simp add: go_set_def split: option.splits)

subsection \<open>Trimmed logs\<close>

locale trimmed_log =
  fixes items :: "'s \<Rightarrow> 'e list"
    and cap :: "'s \<Rightarrow> nat"
    and push :: "'e \<Rightarrow> 's \<Rightarrow> 's"
    and ok :: "'s \<Rightarrow> bool"
  assumes items_push: "ok s \<Longrightarrow> items (push e s) = keep_last (cap s) (items s @ [e])"
    and cap_push: "cap (push e s) = cap s"
    and ok_push: "ok s \<Longrightarrow> ok (push e s)"
begin

lemma cap_pushes: "cap (fold push es s) = cap s"
  by (induction es arbitrary: s) (simp_all add: cap_push)

lemma ok_pushes: "ok s \<Longrightarrow> ok (fold push es s)"
  by (induction es arbitrary: s) (simp_all add: ok_push)

text \<open>After any number of pushes the buffer holds the most recent entries, in order.\<close>

lemma items_pushes:
  assumes "ok s" and "length (items s) \<le> cap s"
  shows "items (fold push es s) = keep_last (cap s) (items s @ es)"
  using assms
proof (induction es arbitrary: s)
  case (Cons e es)
  have "length (items (push e s)) \<le> cap (push e s)"
    using Cons.prems by (simp add: items_push cap_push)
  then have "items (fold push es (push e s)) = keep_last (cap s) (items (push e s) @ es)"
    using Cons by (simp add: ok_push cap_push)
  also have "\<dots> = keep_last (cap s) (items s @ e # es)"
    using Cons.prems by (simp add: items_push keep_last_keep_last_append)
  finally show ?case by simp
qed simp

lemma items_bounded:
  "ok s \<Longrightarrow> length (items s) \<le> cap s \<Longrightarrow> length (items (fold push es s)) \<le> cap s"
  by (simp add: items_pushes)

end

subsection \<open>Fixed-width codecs\<close>

locale byte_codec =
  fixes enc :: "'a \<Rightarrow> byte list"
    and dec :: "byte list \<Rightarrow> 'a"
    and enc_ok :: "'a \<Rightarrow> bool"
    and width :: nat
  assumes dec_enc: "enc_ok a \<Longrightarrow> dec (enc a @ rest) = a"
    and length_enc: "enc_ok a \<Longrightarrow> length (enc a) = width"
begin

lemma dec_enc_exact: "enc_ok a \<Longrightarrow> dec (enc a) = a"
  using dec_enc [of a "[]"] by simp

lemma enc_inj: "enc_ok a \<Longrightarrow> enc_ok b \<Longrightarrow> enc a = enc b \<Longrightarrow> a = b"
  by (metis dec_enc_exact)

text \<open>Decoding the \<open>i\<close>-th slot of a sequence of encodings.\<close>

lemma dec_slot:
  assumes "list_all enc_ok as" and "i < length as"
  shows "dec (drop (i * width) (concat (map enc as) @ rest)) = as ! i"
  using assms
proof (induction as arbitrary: i)
  case (Cons a as)
  then have a: "enc_ok a" by simp
  show ?case
  proof (cases i)
    case 0
    with a show ?thesis by (simp add: dec_enc)
  next
    case (Suc j)
    with Cons a show ?thesis by (simp add: length_enc drop_append flip: drop_drop)
  qed
qed simp

lemma length_encs: "list_all enc_ok as \<Longrightarrow> length (concat (map enc as)) = length as * width"
  by (induction as) (simp_all add: length_enc)

end

subsection \<open>Transition systems\<close>

locale step_system =
  fixes init :: "'s \<Rightarrow> bool"
    and step :: "'s \<Rightarrow> 's \<Rightarrow> bool"
    and inv :: "'s \<Rightarrow> bool"
  assumes init_inv: "init s \<Longrightarrow> inv s"
    and step_inv: "inv s \<Longrightarrow> step s t \<Longrightarrow> inv t"
begin

lemma steps_inv: "step\<^sup>*\<^sup>* s t \<Longrightarrow> inv s \<Longrightarrow> inv t"
  by (induction rule: rtranclp_induct) (auto intro: step_inv)

lemma reachable_inv: "init s \<Longrightarrow> step\<^sup>*\<^sup>* s t \<Longrightarrow> inv t"
  by (blast intro: steps_inv init_inv)

end

locale measured_system = step_system +
  fixes rank :: "'s \<Rightarrow> nat"
  assumes step_rank: "inv s \<Longrightarrow> step s t \<Longrightarrow> rank t < rank s"
begin

text \<open>A run from a state is no longer than the state's rank, so every run ends.\<close>

lemma run_length:
  assumes "inv s" and "(step ^^ n) s t"
  shows "n + rank t \<le> rank s"
  using assms
proof (induction n arbitrary: t)
  case (Suc n)
  then obtain u where u: "(step ^^ n) s u" and ut: "step u t" by auto
  from u have "step\<^sup>*\<^sup>* s u" by (rule relpowp_imp_rtranclp)
  with Suc.prems(1) have "inv u" by (blast intro: steps_inv)
  with ut have "rank t < rank u" by (rule step_rank [rotated])
  with Suc.IH [OF Suc.prems(1) u] show ?case by simp
qed simp

lemma no_long_run: "inv s \<Longrightarrow> rank s < n \<Longrightarrow> \<not> (step ^^ n) s t"
  using run_length by fastforce

end

end
