(* ===== verification/GoText.thy ===== *)
theory GoText
  imports GoBigInt
begin

section \<open>Text: hexadecimal and decimal representations\<close>

text \<open>
  The parts of \<open>encoding/hex\<close>, \<open>strconv\<close> and \<open>fmt\<close> the code uses.  A Go
  string is a list of bytes, written as a \<open>string\<close>.  \<open>hex_decode\<close> returns the
  bytes decoded before the first problem together with a flag for the error, as
  \<open>hex.DecodeString\<close> does.
\<close>

definition hex_digit :: "nat \<Rightarrow> char" where
  "hex_digit n = ''0123456789abcdef'' ! n"

definition hex_val :: "char \<Rightarrow> nat option" where
  "hex_val c = (let k = of_char c :: nat in
     if 48 \<le> k \<and> k \<le> 57 then Some (k - 48)
     else if 97 \<le> k \<and> k \<le> 102 then Some (k - 87)
     else if 65 \<le> k \<and> k \<le> 70 then Some (k - 55)
     else None)"

fun hex_encode :: "byte list \<Rightarrow> string" where
  "hex_encode [] = []"
| "hex_encode (b # bs) =
     hex_digit (unat b div 16) # hex_digit (unat b mod 16) # hex_encode bs"

fun hex_decode :: "string \<Rightarrow> byte list \<times> bool" where
  "hex_decode [] = ([], False)"
| "hex_decode [c] = ([], True)"
| "hex_decode (c # d # cs) =
     (case (hex_val c, hex_val d) of
        (Some a, Some b) \<Rightarrow> (case hex_decode cs of (bs, e) \<Rightarrow> (of_nat (16 * a + b) # bs, e))
      | _ \<Rightarrow> ([], True))"

lemma hex_val_digit [simp]: "n < 16 \<Longrightarrow> hex_val (hex_digit n) = Some n"
proof -
  assume "n < 16"
  then have "n \<in> set [0..<16]" by simp
  moreover have "\<forall>m \<in> set [0..<16]. hex_val (hex_digit m) = Some m"
    by (simp add: hex_digit_def hex_val_def upt_rec numeral_nat)
  ultimately show ?thesis by blast
qed

lemma length_hex_encode [simp]: "length (hex_encode bs) = 2 * length bs"
  by (induction bs) simp_all

lemma hex_decode_encode [simp]: "hex_decode (hex_encode bs) = (bs, False)"
proof (induction bs)
  case (Cons b bs)
  have "unat b div 16 < 16" by (simp add: div_less_iff_less_mult)
  moreover have "(of_nat (16 * (unat b div 16) + unat b mod 16) :: byte) = b" by simp
  ultimately show ?case using Cons by simp
qed simp

lemma hex_encode_inj: "hex_encode x = hex_encode y \<longleftrightarrow> x = y"
  by (metis fst_conv hex_decode_encode)

text \<open>A text of one list and a different one of another have the same hash.\<close>

definition collision :: "('a \<Rightarrow> 'b) \<Rightarrow> 'a list \<Rightarrow> 'a list \<Rightarrow> bool" where
  "collision f xs ys \<longleftrightarrow> (\<exists>x\<in>set xs. \<exists>y\<in>set ys. x \<noteq> y \<and> f x = f y)"

lemma collision_head: "x \<noteq> y \<Longrightarrow> f x = f y \<Longrightarrow> collision f (x # xs) (y # ys)"
  by (simp add: collision_def)

lemma collision_tail: "collision f xs ys \<Longrightarrow> collision f (x # xs) (y # ys)"
  by (auto simp: collision_def)

lemma collision_mono: "collision f xs ys \<Longrightarrow> set xs \<subseteq> set xs' \<Longrightarrow> set ys \<subseteq> set ys' \<Longrightarrow> collision f xs' ys'"
  unfolding collision_def by blast

text \<open>\<open>if len(s) > 2 && s[:2] == "0x" { s = s[2:] }\<close>\<close>

definition strip_0x :: "string \<Rightarrow> string" where
  "strip_0x s = (if 2 < length s \<and> take 2 s = ''0x'' then drop 2 s else s)"

subsection \<open>Numbers in a base\<close>

fun nat_digits :: "nat \<Rightarrow> nat \<Rightarrow> nat list" where
  "nat_digits b n = (if n < b \<or> b < 2 then [n] else nat_digits b (n div b) @ [n mod b])"

declare nat_digits.simps [simp del]

definition int_text :: "nat \<Rightarrow> int \<Rightarrow> string" where
  "int_text b x =
     (if x < 0 then ''-'' else []) @ map hex_digit (nat_digits b (nat \<bar>x\<bar>))"

definition itoa :: "nat \<Rightarrow> string" where
  "itoa n = int_text 10 (int n)"

definition digits_value :: "nat \<Rightarrow> nat list \<Rightarrow> nat" where
  "digits_value b ds = foldl (\<lambda>a d. a * b + d) 0 ds"

lemma digits_value_digits: "2 \<le> b \<Longrightarrow> digits_value b (nat_digits b n) = n"
proof (induction b n rule: nat_digits.induct)
  case (1 b n)
  then show ?case
    by (subst nat_digits.simps) (auto simp: digits_value_def)
qed

lemma nat_digits_lt: "2 \<le> b \<Longrightarrow> d \<in> set (nat_digits b n) \<Longrightarrow> d < b"
proof (induction b n rule: nat_digits.induct)
  case (1 b n)
  show ?case
  proof (cases "n < b")
    case True
    with 1 show ?thesis by (simp add: nat_digits.simps [of b n])
  next
    case False
    with 1 show ?thesis by (auto simp: nat_digits.simps [of b n])
  qed
qed

lemma hex_digit_inj: "m < 16 \<Longrightarrow> n < 16 \<Longrightarrow> hex_digit m = hex_digit n \<Longrightarrow> m = n"
  by (metis hex_val_digit option.inject)

lemma itoa_inj: "itoa m = itoa n \<longleftrightarrow> m = n"
proof
  assume "itoa m = itoa n"
  then have "map hex_digit (nat_digits 10 m) = map hex_digit (nat_digits 10 n)"
    by (simp add: itoa_def int_text_def)
  moreover have "inj_on hex_digit (set (nat_digits 10 m) \<union> set (nat_digits 10 n))"
    by (rule inj_onI) (auto dest!: nat_digits_lt [rotated] intro: hex_digit_inj)
  ultimately have "nat_digits 10 m = nat_digits 10 n"
    by (simp add: inj_on_map_eq_map)
  then have "digits_value 10 (nat_digits 10 m) = digits_value 10 (nat_digits 10 n)" by simp
  then show "m = n" by (simp add: digits_value_digits)
qed simp

subsection \<open>Reading a number\<close>

text \<open>\<open>big.Int.SetString\<close> in a fixed base: an optional sign and at least one digit.\<close>

definition big_set_string :: "nat \<Rightarrow> string \<Rightarrow> int option" where
  "big_set_string base s =
     (let (neg, ds) =
        (case s of [] \<Rightarrow> (False, [])
         | c # cs \<Rightarrow> if c = CHR ''-'' then (True, cs) else if c = CHR ''+'' then (False, cs)
             else (False, s))
      in if ds = [] \<or> \<not> list_all (\<lambda>c. case hex_val c of None \<Rightarrow> False | Some d \<Rightarrow> d < base) ds
         then None
         else
           let n = int (digits_value base (map (\<lambda>c. case hex_val c of None \<Rightarrow> 0 | Some d \<Rightarrow> d) ds))
           in Some (if neg then - n else n))"

lemma hex_digit_no_sign: "d < 16 \<Longrightarrow> hex_digit d \<noteq> CHR ''-''" "d < 16 \<Longrightarrow> hex_digit d \<noteq> CHR ''+''"
proof -
  have s: "hex_val CHR ''-'' = None" "hex_val CHR ''+'' = None" by code_simp+
  show "d < 16 \<Longrightarrow> hex_digit d \<noteq> CHR ''-''" "d < 16 \<Longrightarrow> hex_digit d \<noteq> CHR ''+''"
    using s hex_val_digit [of d] by (metis option.distinct(1))+
qed

lemma nat_digits_nonempty [simp]: "nat_digits b n \<noteq> []"
  by (subst nat_digits.simps) simp

text \<open>Reading inverts writing.\<close>

lemma big_set_string_int_text:
  assumes "2 \<le> b" and "b \<le> 16"
  shows "big_set_string b (int_text b x) = Some x"
proof -
  define ns where "ns = nat_digits b (nat \<bar>x\<bar>)"
  have lt: "d < b \<and> d < 16" if "d \<in> set ns" for d
    using nat_digits_lt [OF assms(1)] that assms(2) unfolding ns_def by (meson less_le_trans)
  have ok: "list_all (\<lambda>c. case hex_val c of None \<Rightarrow> False | Some d \<Rightarrow> d < b) (map hex_digit ns)"
    using lt by (auto simp: list_all_iff)
  have val: "map (\<lambda>c. case hex_val c of None \<Rightarrow> 0 | Some d \<Rightarrow> d) (map hex_digit ns) = ns"
    using lt by (auto intro!: map_idI)
  have dv: "digits_value b ns = nat \<bar>x\<bar>"
    unfolding ns_def by (rule digits_value_digits [OF assms(1)])
  have "ns \<noteq> []" by (simp add: ns_def)
  then obtain c cs where c: "map hex_digit ns = c # cs" by (cases ns) auto
  have sign: "c \<noteq> CHR ''-''" "c \<noteq> CHR ''+''"
    using c lt hex_digit_no_sign by (cases ns; auto)+
  have it: "int_text b x = (if x < 0 then ''-'' else []) @ (c # cs)"
    unfolding int_text_def c [symmetric] ns_def by (rule refl)
  have "digits_value b (map (\<lambda>c. case hex_val c of None \<Rightarrow> 0 | Some d \<Rightarrow> d) (c # cs)) = nat \<bar>x\<bar>"
    using val dv unfolding c by simp
  moreover have "list_all (\<lambda>c. case hex_val c of None \<Rightarrow> False | Some d \<Rightarrow> d < b) (c # cs)"
    using ok unfolding c .
  ultimately show ?thesis
    unfolding it big_set_string_def using sign by (cases "x < 0") simp_all
qed

end
