(* ===== verification/EvmVm.thy ===== *)
theory EvmVm
  imports GoInterfaces GoText
begin

section \<open>The virtual machine's data: \<open>simulations/pkg/evm/vm.go\<close>\<close>

text \<open>
  Stack, memory, contract storage, accounts, the execution context and the state database.

  \<^item> \<open>Address\<close> and \<open>Hash\<close> are byte lists; the arrays of the code have 20 and 32
    bytes, which \<open>addr_wf\<close> and \<open>hash_wf\<close> state and every constructor here gives.
  \<^item> A stack is an \<open>int list\<close> whose head is the last element of the Go slice, the top.
  \<^item> Offsets and sizes are 64-bit words, and their additions wrap.
  \<^item> The pointers to accounts that the database hands out are modelled by updating the
    account in the map.
\<close>

type_synonym Hash = "byte list"
type_synonym Address = "byte list"

definition zero_hash :: Hash where
  "zero_hash = replicate 32 0"

definition zero_addr :: Address where
  "zero_addr = replicate 20 0"

definition hash_wf :: "Hash \<Rightarrow> bool" where
  "hash_wf h \<longleftrightarrow> length h = 32"

definition addr_wf :: "Address \<Rightarrow> bool" where
  "addr_wf a \<longleftrightarrow> length a = 20"

datatype EvmError =
    StackOverflow | StackUnderflow | StackEmpty | InvalidJumpDest | ExecutionReverted
  | InvalidOpcode | UnimplementedOpcode string | InvalidOpcodeAt byte u64 | OutOfGas

subsection \<open>Stack\<close>

type_synonym Stack = "int list"

definition NewStack :: Stack where
  "NewStack = []"

definition Stack_Push :: "int \<Rightarrow> Stack \<Rightarrow> Stack \<times> EvmError option" where
  "Stack_Push val s =
     (if 1024 \<le> length s then (s, Some StackOverflow) else (val # s, None))"

text \<open>An empty stack gives a nil pointer and an error.\<close>

fun Stack_Pop :: "Stack \<Rightarrow> (int option \<times> EvmError option) \<times> Stack" where
  "Stack_Pop [] = ((None, Some StackUnderflow), [])"
| "Stack_Pop (v # s) = ((Some v, None), s)"

fun Stack_Peek :: "Stack \<Rightarrow> int option \<times> EvmError option" where
  "Stack_Peek [] = (None, Some StackEmpty)"
| "Stack_Peek (v # s) = (Some v, None)"

text \<open>The index arguments are Go integers: a negative one indexes out of range.\<close>

definition Stack_PeekN :: "int \<Rightarrow> Stack \<Rightarrow> (int option \<times> EvmError option) go" where
  "Stack_PeekN n s =
     (if int (length s) \<le> n then Inr (None, Some StackUnderflow)
      else if n < 0 then Inl IndexOutOfRange
      else Inr (Some (s ! nat n), None))"

definition Stack_Swap :: "int \<Rightarrow> Stack \<Rightarrow> (Stack \<times> EvmError option) go" where
  "Stack_Swap n s =
     (if int (length s) \<le> n then Inr (s, Some StackUnderflow)
      else if n < 0 then Inl IndexOutOfRange
      else Inr (s[0 := s ! nat n, nat n := s ! 0], None))"

definition Stack_Dup :: "int \<Rightarrow> Stack \<Rightarrow> (Stack \<times> EvmError option) go" where
  "Stack_Dup n s =
     (if int (length s) < n then Inr (s, Some StackUnderflow)
      else if n \<le> 0 then Inl IndexOutOfRange
      else Inr (Stack_Push (s ! nat (n - 1)) s))"

definition Stack_Len :: "Stack \<Rightarrow> nat" where
  "Stack_Len s = length s"

text \<open>The copy lists the elements in the order of the slice, bottom first.\<close>

definition Stack_Data :: "Stack \<Rightarrow> int list" where
  "Stack_Data s = rev s"

subsection \<open>Memory\<close>

type_synonym Memory = "byte list"

definition NewMemory :: Memory where
  "NewMemory = []"

definition Memory_Resize :: "u64 \<Rightarrow> Memory \<Rightarrow> Memory go" where
  "Memory_Resize sz m =
     (if length m < unat sz then
        (let newSize = ((sz + 31) div 32) * 32
         in go_bind (go_make (unat newSize)) (\<lambda>newData. Inr (go_copy newData m)))
      else Inr m)"

text \<open>\<open>copy(m.data[a:b], value)\<close>\<close>

definition Memory_copy :: "u64 \<Rightarrow> u64 \<Rightarrow> byte list \<Rightarrow> Memory \<Rightarrow> Memory go" where
  "Memory_copy a b value m =
     go_bind (go_slice m (unat a) (unat b))
       (\<lambda>dst. Inr (take (unat a) m @ go_copy dst value @ drop (unat b) m))"

definition Memory_Set :: "u64 \<Rightarrow> u64 \<Rightarrow> byte list \<Rightarrow> Memory \<Rightarrow> Memory go" where
  "Memory_Set offset sz value m =
     (if sz = 0 then Inr m
      else go_bind (Memory_Resize (offset + sz) m) (Memory_copy offset (offset + sz) value))"

text \<open>\<open>for i := a; i < b; i++ { m.data[i] = 0 }\<close>\<close>

definition Memory_zero :: "u64 \<Rightarrow> u64 \<Rightarrow> Memory \<Rightarrow> Memory go" where
  "Memory_zero a b m =
     (if b \<le> a then Inr m
      else if length m < unat b then Inl IndexOutOfRange
      else Inr (take (unat a) m @ replicate (unat b - unat a) 0 @ drop (unat b) m))"

definition Memory_Set32 :: "u64 \<Rightarrow> int \<Rightarrow> Memory \<Rightarrow> Memory go" where
  "Memory_Set32 offset val m =
     go_bind (Memory_Resize (offset + 32) m) (\<lambda>m.
       let data = big_bytes val;
           start = offset + 32 - of_nat (length data)
       in go_bind (Memory_zero offset start m) (Memory_copy start (offset + 32) data))"

definition Memory_Get :: "u64 \<Rightarrow> u64 \<Rightarrow> Memory \<Rightarrow> (byte list \<times> Memory) go" where
  "Memory_Get offset sz m =
     (if sz = 0 then Inr ([], m)
      else go_bind (Memory_Resize (offset + sz) m) (\<lambda>m.
        go_bind (go_slice m (unat offset) (unat (offset + sz))) (\<lambda>src.
          go_bind (go_make (unat sz)) (\<lambda>result. Inr (go_copy result src, m)))))"

text \<open>The window itself, without a copy: its contents and the resized memory.\<close>

definition Memory_GetPtr :: "u64 \<Rightarrow> u64 \<Rightarrow> Memory \<Rightarrow> (byte list \<times> Memory) go" where
  "Memory_GetPtr offset sz m =
     go_bind (Memory_Resize (offset + sz) m) (\<lambda>m.
       go_bind (go_slice m (unat offset) (unat (offset + sz))) (\<lambda>win. Inr (win, m)))"

definition Memory_Len :: "Memory \<Rightarrow> nat" where
  "Memory_Len m = length m"

definition Memory_Data :: "Memory \<Rightarrow> byte list" where
  "Memory_Data m = m"

subsection \<open>Contract storage\<close>

type_synonym Storage = "(Hash, Hash) gomap"

definition NewStorage :: Storage where
  "NewStorage = []"

definition Storage_Get :: "Storage \<Rightarrow> Hash \<Rightarrow> Hash" where
  "Storage_Get s key = (case go_get s key of None \<Rightarrow> zero_hash | Some v \<Rightarrow> v)"

definition Storage_Set :: "Hash \<Rightarrow> Hash \<Rightarrow> Storage \<Rightarrow> Storage" where
  "Storage_Set key value s = (if value = zero_hash then go_del key s else go_put key value s)"

definition Storage_GetAll :: "Storage \<Rightarrow> (Hash, Hash) gomap" where
  "Storage_GetAll s = fold (\<lambda>(k, v). go_put k v) s []"

subsection \<open>Accounts\<close>

record Account =
  acc_Address :: Address
  acc_Balance :: int
  acc_Nonce :: u64
  acc_Code :: "byte list"
  acc_CodeHash :: Hash
  acc_Storage :: "Storage option"

definition NewAccount :: "Address \<Rightarrow> Account" where
  "NewAccount addr = \<lparr>acc_Address = addr, acc_Balance = 0, acc_Nonce = 0, acc_Code = [],
     acc_CodeHash = zero_hash, acc_Storage = Some NewStorage\<rparr>"

definition IsContract :: "Account \<Rightarrow> bool" where
  "IsContract a \<longleftrightarrow> 0 < length (acc_Code a)"

subsection \<open>Execution context\<close>

text \<open>The fields of type \<open>*big.Int\<close> may be nil, which is \<open>None\<close>.\<close>

record ExecutionContext =
  cx_BlockNumber :: "int option"
  cx_BlockTimestamp :: u64
  cx_BlockGasLimit :: u64
  cx_Coinbase :: Address
  cx_Difficulty :: "int option"
  cx_BaseFee :: "int option"
  cx_Origin :: Address
  cx_GasPrice :: "int option"
  cx_Caller :: Address
  cx_Value :: "int option"
  cx_Address :: Address
  cx_Input :: "byte list"
  cx_Gas :: u64
  cx_Stack :: Stack
  cx_Memory :: Memory
  cx_ReturnData :: "byte list"
  cx_PC :: u64
  cx_Depth :: int

definition NewExecutionContext :: ExecutionContext where
  "NewExecutionContext =
     \<lparr>cx_BlockNumber = Some 1, cx_BlockTimestamp = 0, cx_BlockGasLimit = 30000000,
      cx_Coinbase = zero_addr, cx_Difficulty = Some 1, cx_BaseFee = Some 1000000000,
      cx_Origin = zero_addr, cx_GasPrice = Some 1000000000, cx_Caller = zero_addr,
      cx_Value = Some 0, cx_Address = zero_addr, cx_Input = [], cx_Gas = 1000000,
      cx_Stack = NewStack, cx_Memory = NewMemory, cx_ReturnData = [], cx_PC = 0,
      cx_Depth = 0\<rparr>"

subsection \<open>State database\<close>

record Log =
  log_Address :: Address
  log_Topics :: "Hash list"
  log_Data :: "byte list"

record StateDB =
  db_accounts :: "(Address, Account) gomap"
  db_logs :: "Log list"

definition NewStateDB :: StateDB where
  "NewStateDB = \<lparr>db_accounts = [], db_logs = []\<rparr>"

definition GetAccount :: "StateDB \<Rightarrow> Address \<Rightarrow> Account option" where
  "GetAccount db addr = go_get (db_accounts db) addr"

definition GetOrCreateAccount :: "Address \<Rightarrow> StateDB \<Rightarrow> Account \<times> StateDB" where
  "GetOrCreateAccount addr db =
     (case go_get (db_accounts db) addr of
        Some acc \<Rightarrow> (acc, db)
      | None \<Rightarrow> (let acc = NewAccount addr
                 in (acc, db\<lparr>db_accounts := go_put addr acc (db_accounts db)\<rparr>)))"

text \<open>Writing through the pointer \<open>GetOrCreateAccount\<close> returned.\<close>

definition modify_account :: "Address \<Rightarrow> (Account \<Rightarrow> Account) \<Rightarrow> StateDB \<Rightarrow> StateDB" where
  "modify_account addr f db =
     (case GetOrCreateAccount addr db of
        (acc, db) \<Rightarrow> db\<lparr>db_accounts := go_put addr (f acc) (db_accounts db)\<rparr>)"

definition SetBalance :: "Address \<Rightarrow> int \<Rightarrow> StateDB \<Rightarrow> StateDB" where
  "SetBalance addr balance = modify_account addr (\<lambda>acc. acc\<lparr>acc_Balance := balance\<rparr>)"

definition GetBalance :: "StateDB \<Rightarrow> Address \<Rightarrow> int" where
  "GetBalance db addr =
     (case GetAccount db addr of None \<Rightarrow> 0 | Some acc \<Rightarrow> acc_Balance acc)"

definition SetCode :: "Address \<Rightarrow> byte list \<Rightarrow> StateDB \<Rightarrow> StateDB" where
  "SetCode addr code = modify_account addr (\<lambda>acc. acc\<lparr>acc_Code := code\<rparr>)"

definition GetCode :: "StateDB \<Rightarrow> Address \<Rightarrow> byte list" where
  "GetCode db addr =
     (case GetAccount db addr of None \<Rightarrow> [] | Some acc \<Rightarrow> acc_Code acc)"

definition GetStorage :: "StateDB \<Rightarrow> Address \<Rightarrow> Hash \<Rightarrow> Hash" where
  "GetStorage db addr key =
     (case GetAccount db addr of
        None \<Rightarrow> zero_hash
      | Some acc \<Rightarrow>
          (case acc_Storage acc of None \<Rightarrow> zero_hash | Some st \<Rightarrow> Storage_Get st key))"

definition SetStorage :: "Address \<Rightarrow> Hash \<Rightarrow> Hash \<Rightarrow> StateDB \<Rightarrow> StateDB" where
  "SetStorage addr key value = modify_account addr
     (\<lambda>acc. let st = (case acc_Storage acc of None \<Rightarrow> NewStorage | Some st \<Rightarrow> st)
            in acc\<lparr>acc_Storage := Some (Storage_Set key value st)\<rparr>)"

definition AddLog :: "Log \<Rightarrow> StateDB \<Rightarrow> StateDB" where
  "AddLog lg db = db\<lparr>db_logs := db_logs db @ [lg]\<rparr>"

definition GetLogs :: "StateDB \<Rightarrow> Log list" where
  "GetLogs db = db_logs db"

subsection \<open>Conversions\<close>

definition HexToAddress :: "string \<Rightarrow> Address" where
  "HexToAddress s = fit_array 20 (fst (hex_decode (strip_0x s)))"

definition HexToHash :: "string \<Rightarrow> Hash" where
  "HexToHash s = fit_array 32 (fst (hex_decode (strip_0x s)))"

definition AddressToHex :: "Address \<Rightarrow> string" where
  "AddressToHex addr = ''0x'' @ hex_encode addr"

definition HashToHex :: "Hash \<Rightarrow> string" where
  "HashToHex h = ''0x'' @ hex_encode h"

definition BigIntToHash :: "int \<Rightarrow> Hash" where
  "BigIntToHash val = fit_array 32 (big_bytes val)"

definition HashToBigInt :: "Hash \<Rightarrow> int" where
  "HashToBigInt h = big_of_bytes h"

end
