(* ===== verification/EvmOpcodes.thy ===== *)
theory EvmOpcodes
  imports EvmVm
begin

section \<open>Operation codes: \<open>simulations/pkg/evm/opcodes.go\<close>\<close>

text \<open>
  An operation code is a byte.  The constants carry the prefix \<open>OP_\<close>; \<open>OpCodeInfoMap\<close>
  is the table of names, stack effects, gas costs and control-flow flags, and the classifiers
  below it compute on the byte as the code does.
\<close>

type_synonym OpCode = byte

subsection \<open>The constants\<close>

abbreviation OP_STOP :: OpCode where "OP_STOP \<equiv> 0x00"
abbreviation OP_ADD :: OpCode where "OP_ADD \<equiv> 0x01"
abbreviation OP_MUL :: OpCode where "OP_MUL \<equiv> 0x02"
abbreviation OP_SUB :: OpCode where "OP_SUB \<equiv> 0x03"
abbreviation OP_DIV :: OpCode where "OP_DIV \<equiv> 0x04"
abbreviation OP_SDIV :: OpCode where "OP_SDIV \<equiv> 0x05"
abbreviation OP_MOD :: OpCode where "OP_MOD \<equiv> 0x06"
abbreviation OP_SMOD :: OpCode where "OP_SMOD \<equiv> 0x07"
abbreviation OP_ADDMOD :: OpCode where "OP_ADDMOD \<equiv> 0x08"
abbreviation OP_MULMOD :: OpCode where "OP_MULMOD \<equiv> 0x09"
abbreviation OP_EXP :: OpCode where "OP_EXP \<equiv> 0x0a"
abbreviation OP_SIGNEXTEND :: OpCode where "OP_SIGNEXTEND \<equiv> 0x0b"
abbreviation OP_LT :: OpCode where "OP_LT \<equiv> 0x10"
abbreviation OP_GT :: OpCode where "OP_GT \<equiv> 0x11"
abbreviation OP_SLT :: OpCode where "OP_SLT \<equiv> 0x12"
abbreviation OP_SGT :: OpCode where "OP_SGT \<equiv> 0x13"
abbreviation OP_EQ :: OpCode where "OP_EQ \<equiv> 0x14"
abbreviation OP_ISZERO :: OpCode where "OP_ISZERO \<equiv> 0x15"
abbreviation OP_AND :: OpCode where "OP_AND \<equiv> 0x16"
abbreviation OP_OR :: OpCode where "OP_OR \<equiv> 0x17"
abbreviation OP_XOR :: OpCode where "OP_XOR \<equiv> 0x18"
abbreviation OP_NOT :: OpCode where "OP_NOT \<equiv> 0x19"
abbreviation OP_BYTE :: OpCode where "OP_BYTE \<equiv> 0x1a"
abbreviation OP_SHL :: OpCode where "OP_SHL \<equiv> 0x1b"
abbreviation OP_SHR :: OpCode where "OP_SHR \<equiv> 0x1c"
abbreviation OP_SAR :: OpCode where "OP_SAR \<equiv> 0x1d"
abbreviation OP_KECCAK256 :: OpCode where "OP_KECCAK256 \<equiv> 0x20"
abbreviation OP_ADDRESS :: OpCode where "OP_ADDRESS \<equiv> 0x30"
abbreviation OP_BALANCE :: OpCode where "OP_BALANCE \<equiv> 0x31"
abbreviation OP_ORIGIN :: OpCode where "OP_ORIGIN \<equiv> 0x32"
abbreviation OP_CALLER :: OpCode where "OP_CALLER \<equiv> 0x33"
abbreviation OP_CALLVALUE :: OpCode where "OP_CALLVALUE \<equiv> 0x34"
abbreviation OP_CALLDATALOAD :: OpCode where "OP_CALLDATALOAD \<equiv> 0x35"
abbreviation OP_CALLDATASIZE :: OpCode where "OP_CALLDATASIZE \<equiv> 0x36"
abbreviation OP_CALLDATACOPY :: OpCode where "OP_CALLDATACOPY \<equiv> 0x37"
abbreviation OP_CODESIZE :: OpCode where "OP_CODESIZE \<equiv> 0x38"
abbreviation OP_CODECOPY :: OpCode where "OP_CODECOPY \<equiv> 0x39"
abbreviation OP_GASPRICE :: OpCode where "OP_GASPRICE \<equiv> 0x3a"
abbreviation OP_EXTCODESIZE :: OpCode where "OP_EXTCODESIZE \<equiv> 0x3b"
abbreviation OP_EXTCODECOPY :: OpCode where "OP_EXTCODECOPY \<equiv> 0x3c"
abbreviation OP_RETURNDATASIZE :: OpCode where "OP_RETURNDATASIZE \<equiv> 0x3d"
abbreviation OP_RETURNDATACOPY :: OpCode where "OP_RETURNDATACOPY \<equiv> 0x3e"
abbreviation OP_EXTCODEHASH :: OpCode where "OP_EXTCODEHASH \<equiv> 0x3f"
abbreviation OP_BLOCKHASH :: OpCode where "OP_BLOCKHASH \<equiv> 0x40"
abbreviation OP_COINBASE :: OpCode where "OP_COINBASE \<equiv> 0x41"
abbreviation OP_TIMESTAMP :: OpCode where "OP_TIMESTAMP \<equiv> 0x42"
abbreviation OP_NUMBER :: OpCode where "OP_NUMBER \<equiv> 0x43"
abbreviation OP_DIFFICULTY :: OpCode where "OP_DIFFICULTY \<equiv> 0x44"
abbreviation OP_GASLIMIT :: OpCode where "OP_GASLIMIT \<equiv> 0x45"
abbreviation OP_CHAINID :: OpCode where "OP_CHAINID \<equiv> 0x46"
abbreviation OP_SELFBALANCE :: OpCode where "OP_SELFBALANCE \<equiv> 0x47"
abbreviation OP_BASEFEE :: OpCode where "OP_BASEFEE \<equiv> 0x48"
abbreviation OP_POP :: OpCode where "OP_POP \<equiv> 0x50"
abbreviation OP_MLOAD :: OpCode where "OP_MLOAD \<equiv> 0x51"
abbreviation OP_MSTORE :: OpCode where "OP_MSTORE \<equiv> 0x52"
abbreviation OP_MSTORE8 :: OpCode where "OP_MSTORE8 \<equiv> 0x53"
abbreviation OP_SLOAD :: OpCode where "OP_SLOAD \<equiv> 0x54"
abbreviation OP_SSTORE :: OpCode where "OP_SSTORE \<equiv> 0x55"
abbreviation OP_JUMP :: OpCode where "OP_JUMP \<equiv> 0x56"
abbreviation OP_JUMPI :: OpCode where "OP_JUMPI \<equiv> 0x57"
abbreviation OP_PC :: OpCode where "OP_PC \<equiv> 0x58"
abbreviation OP_MSIZE :: OpCode where "OP_MSIZE \<equiv> 0x59"
abbreviation OP_GAS :: OpCode where "OP_GAS \<equiv> 0x5a"
abbreviation OP_JUMPDEST :: OpCode where "OP_JUMPDEST \<equiv> 0x5b"
abbreviation OP_PUSH0 :: OpCode where "OP_PUSH0 \<equiv> 0x5f"
abbreviation OP_PUSH1 :: OpCode where "OP_PUSH1 \<equiv> 0x60"
abbreviation OP_PUSH2 :: OpCode where "OP_PUSH2 \<equiv> 0x61"
abbreviation OP_PUSH3 :: OpCode where "OP_PUSH3 \<equiv> 0x62"
abbreviation OP_PUSH4 :: OpCode where "OP_PUSH4 \<equiv> 0x63"
abbreviation OP_PUSH5 :: OpCode where "OP_PUSH5 \<equiv> 0x64"
abbreviation OP_PUSH6 :: OpCode where "OP_PUSH6 \<equiv> 0x65"
abbreviation OP_PUSH7 :: OpCode where "OP_PUSH7 \<equiv> 0x66"
abbreviation OP_PUSH8 :: OpCode where "OP_PUSH8 \<equiv> 0x67"
abbreviation OP_PUSH9 :: OpCode where "OP_PUSH9 \<equiv> 0x68"
abbreviation OP_PUSH10 :: OpCode where "OP_PUSH10 \<equiv> 0x69"
abbreviation OP_PUSH11 :: OpCode where "OP_PUSH11 \<equiv> 0x6a"
abbreviation OP_PUSH12 :: OpCode where "OP_PUSH12 \<equiv> 0x6b"
abbreviation OP_PUSH13 :: OpCode where "OP_PUSH13 \<equiv> 0x6c"
abbreviation OP_PUSH14 :: OpCode where "OP_PUSH14 \<equiv> 0x6d"
abbreviation OP_PUSH15 :: OpCode where "OP_PUSH15 \<equiv> 0x6e"
abbreviation OP_PUSH16 :: OpCode where "OP_PUSH16 \<equiv> 0x6f"
abbreviation OP_PUSH17 :: OpCode where "OP_PUSH17 \<equiv> 0x70"
abbreviation OP_PUSH18 :: OpCode where "OP_PUSH18 \<equiv> 0x71"
abbreviation OP_PUSH19 :: OpCode where "OP_PUSH19 \<equiv> 0x72"
abbreviation OP_PUSH20 :: OpCode where "OP_PUSH20 \<equiv> 0x73"
abbreviation OP_PUSH21 :: OpCode where "OP_PUSH21 \<equiv> 0x74"
abbreviation OP_PUSH22 :: OpCode where "OP_PUSH22 \<equiv> 0x75"
abbreviation OP_PUSH23 :: OpCode where "OP_PUSH23 \<equiv> 0x76"
abbreviation OP_PUSH24 :: OpCode where "OP_PUSH24 \<equiv> 0x77"
abbreviation OP_PUSH25 :: OpCode where "OP_PUSH25 \<equiv> 0x78"
abbreviation OP_PUSH26 :: OpCode where "OP_PUSH26 \<equiv> 0x79"
abbreviation OP_PUSH27 :: OpCode where "OP_PUSH27 \<equiv> 0x7a"
abbreviation OP_PUSH28 :: OpCode where "OP_PUSH28 \<equiv> 0x7b"
abbreviation OP_PUSH29 :: OpCode where "OP_PUSH29 \<equiv> 0x7c"
abbreviation OP_PUSH30 :: OpCode where "OP_PUSH30 \<equiv> 0x7d"
abbreviation OP_PUSH31 :: OpCode where "OP_PUSH31 \<equiv> 0x7e"
abbreviation OP_PUSH32 :: OpCode where "OP_PUSH32 \<equiv> 0x7f"
abbreviation OP_DUP1 :: OpCode where "OP_DUP1 \<equiv> 0x80"
abbreviation OP_DUP2 :: OpCode where "OP_DUP2 \<equiv> 0x81"
abbreviation OP_DUP3 :: OpCode where "OP_DUP3 \<equiv> 0x82"
abbreviation OP_DUP4 :: OpCode where "OP_DUP4 \<equiv> 0x83"
abbreviation OP_DUP5 :: OpCode where "OP_DUP5 \<equiv> 0x84"
abbreviation OP_DUP6 :: OpCode where "OP_DUP6 \<equiv> 0x85"
abbreviation OP_DUP7 :: OpCode where "OP_DUP7 \<equiv> 0x86"
abbreviation OP_DUP8 :: OpCode where "OP_DUP8 \<equiv> 0x87"
abbreviation OP_DUP9 :: OpCode where "OP_DUP9 \<equiv> 0x88"
abbreviation OP_DUP10 :: OpCode where "OP_DUP10 \<equiv> 0x89"
abbreviation OP_DUP11 :: OpCode where "OP_DUP11 \<equiv> 0x8a"
abbreviation OP_DUP12 :: OpCode where "OP_DUP12 \<equiv> 0x8b"
abbreviation OP_DUP13 :: OpCode where "OP_DUP13 \<equiv> 0x8c"
abbreviation OP_DUP14 :: OpCode where "OP_DUP14 \<equiv> 0x8d"
abbreviation OP_DUP15 :: OpCode where "OP_DUP15 \<equiv> 0x8e"
abbreviation OP_DUP16 :: OpCode where "OP_DUP16 \<equiv> 0x8f"
abbreviation OP_SWAP1 :: OpCode where "OP_SWAP1 \<equiv> 0x90"
abbreviation OP_SWAP2 :: OpCode where "OP_SWAP2 \<equiv> 0x91"
abbreviation OP_SWAP3 :: OpCode where "OP_SWAP3 \<equiv> 0x92"
abbreviation OP_SWAP4 :: OpCode where "OP_SWAP4 \<equiv> 0x93"
abbreviation OP_SWAP5 :: OpCode where "OP_SWAP5 \<equiv> 0x94"
abbreviation OP_SWAP6 :: OpCode where "OP_SWAP6 \<equiv> 0x95"
abbreviation OP_SWAP7 :: OpCode where "OP_SWAP7 \<equiv> 0x96"
abbreviation OP_SWAP8 :: OpCode where "OP_SWAP8 \<equiv> 0x97"
abbreviation OP_SWAP9 :: OpCode where "OP_SWAP9 \<equiv> 0x98"
abbreviation OP_SWAP10 :: OpCode where "OP_SWAP10 \<equiv> 0x99"
abbreviation OP_SWAP11 :: OpCode where "OP_SWAP11 \<equiv> 0x9a"
abbreviation OP_SWAP12 :: OpCode where "OP_SWAP12 \<equiv> 0x9b"
abbreviation OP_SWAP13 :: OpCode where "OP_SWAP13 \<equiv> 0x9c"
abbreviation OP_SWAP14 :: OpCode where "OP_SWAP14 \<equiv> 0x9d"
abbreviation OP_SWAP15 :: OpCode where "OP_SWAP15 \<equiv> 0x9e"
abbreviation OP_SWAP16 :: OpCode where "OP_SWAP16 \<equiv> 0x9f"
abbreviation OP_LOG0 :: OpCode where "OP_LOG0 \<equiv> 0xa0"
abbreviation OP_LOG1 :: OpCode where "OP_LOG1 \<equiv> 0xa1"
abbreviation OP_LOG2 :: OpCode where "OP_LOG2 \<equiv> 0xa2"
abbreviation OP_LOG3 :: OpCode where "OP_LOG3 \<equiv> 0xa3"
abbreviation OP_LOG4 :: OpCode where "OP_LOG4 \<equiv> 0xa4"
abbreviation OP_CREATE :: OpCode where "OP_CREATE \<equiv> 0xf0"
abbreviation OP_CALL :: OpCode where "OP_CALL \<equiv> 0xf1"
abbreviation OP_CALLCODE :: OpCode where "OP_CALLCODE \<equiv> 0xf2"
abbreviation OP_RETURN :: OpCode where "OP_RETURN \<equiv> 0xf3"
abbreviation OP_DELEGATECALL :: OpCode where "OP_DELEGATECALL \<equiv> 0xf4"
abbreviation OP_CREATE2 :: OpCode where "OP_CREATE2 \<equiv> 0xf5"
abbreviation OP_STATICCALL :: OpCode where "OP_STATICCALL \<equiv> 0xfa"
abbreviation OP_REVERT :: OpCode where "OP_REVERT \<equiv> 0xfd"
abbreviation OP_INVALID :: OpCode where "OP_INVALID \<equiv> 0xfe"
abbreviation OP_SELFDESTRUCT :: OpCode where "OP_SELFDESTRUCT \<equiv> 0xff"

subsection \<open>The table\<close>

record OpCodeInfo =
  oi_Name :: string
  oi_StackPop :: nat
  oi_StackPush :: nat
  oi_Gas :: u64
  oi_ImmSize :: nat
  oi_IsJump :: bool
  oi_IsTerminal :: bool

definition op_info :: "string \<Rightarrow> nat \<Rightarrow> nat \<Rightarrow> u64 \<Rightarrow> nat \<Rightarrow> bool \<Rightarrow> bool \<Rightarrow> OpCodeInfo" where
  "op_info name pops pushes gas imm jump terminal =
     \<lparr>oi_Name = name, oi_StackPop = pops, oi_StackPush = pushes, oi_Gas = gas, oi_ImmSize = imm,
      oi_IsJump = jump, oi_IsTerminal = terminal\<rparr>"

definition OpCodeInfoMap :: "(OpCode \<times> OpCodeInfo) list" where
  "OpCodeInfoMap = [
     (OP_STOP, op_info ''STOP'' 0 0 0 0 False True),
     (OP_ADD, op_info ''ADD'' 2 1 3 0 False False),
     (OP_MUL, op_info ''MUL'' 2 1 5 0 False False),
     (OP_SUB, op_info ''SUB'' 2 1 3 0 False False),
     (OP_DIV, op_info ''DIV'' 2 1 5 0 False False),
     (OP_SDIV, op_info ''SDIV'' 2 1 5 0 False False),
     (OP_MOD, op_info ''MOD'' 2 1 5 0 False False),
     (OP_SMOD, op_info ''SMOD'' 2 1 5 0 False False),
     (OP_ADDMOD, op_info ''ADDMOD'' 3 1 8 0 False False),
     (OP_MULMOD, op_info ''MULMOD'' 3 1 8 0 False False),
     (OP_EXP, op_info ''EXP'' 2 1 10 0 False False),
     (OP_SIGNEXTEND, op_info ''SIGNEXTEND'' 2 1 5 0 False False),
     (OP_LT, op_info ''LT'' 2 1 3 0 False False),
     (OP_GT, op_info ''GT'' 2 1 3 0 False False),
     (OP_SLT, op_info ''SLT'' 2 1 3 0 False False),
     (OP_SGT, op_info ''SGT'' 2 1 3 0 False False),
     (OP_EQ, op_info ''EQ'' 2 1 3 0 False False),
     (OP_ISZERO, op_info ''ISZERO'' 1 1 3 0 False False),
     (OP_AND, op_info ''AND'' 2 1 3 0 False False),
     (OP_OR, op_info ''OR'' 2 1 3 0 False False),
     (OP_XOR, op_info ''XOR'' 2 1 3 0 False False),
     (OP_NOT, op_info ''NOT'' 1 1 3 0 False False),
     (OP_BYTE, op_info ''BYTE'' 2 1 3 0 False False),
     (OP_SHL, op_info ''SHL'' 2 1 3 0 False False),
     (OP_SHR, op_info ''SHR'' 2 1 3 0 False False),
     (OP_SAR, op_info ''SAR'' 2 1 3 0 False False),
     (OP_KECCAK256, op_info ''KECCAK256'' 2 1 30 0 False False),
     (OP_ADDRESS, op_info ''ADDRESS'' 0 1 2 0 False False),
     (OP_BALANCE, op_info ''BALANCE'' 1 1 100 0 False False),
     (OP_ORIGIN, op_info ''ORIGIN'' 0 1 2 0 False False),
     (OP_CALLER, op_info ''CALLER'' 0 1 2 0 False False),
     (OP_CALLVALUE, op_info ''CALLVALUE'' 0 1 2 0 False False),
     (OP_CALLDATALOAD, op_info ''CALLDATALOAD'' 1 1 3 0 False False),
     (OP_CALLDATASIZE, op_info ''CALLDATASIZE'' 0 1 2 0 False False),
     (OP_CALLDATACOPY, op_info ''CALLDATACOPY'' 3 0 3 0 False False),
     (OP_CODESIZE, op_info ''CODESIZE'' 0 1 2 0 False False),
     (OP_CODECOPY, op_info ''CODECOPY'' 3 0 3 0 False False),
     (OP_GASPRICE, op_info ''GASPRICE'' 0 1 2 0 False False),
     (OP_EXTCODESIZE, op_info ''EXTCODESIZE'' 1 1 100 0 False False),
     (OP_EXTCODECOPY, op_info ''EXTCODECOPY'' 4 0 100 0 False False),
     (OP_RETURNDATASIZE, op_info ''RETURNDATASIZE'' 0 1 2 0 False False),
     (OP_RETURNDATACOPY, op_info ''RETURNDATACOPY'' 3 0 3 0 False False),
     (OP_EXTCODEHASH, op_info ''EXTCODEHASH'' 1 1 100 0 False False),
     (OP_BLOCKHASH, op_info ''BLOCKHASH'' 1 1 20 0 False False),
     (OP_COINBASE, op_info ''COINBASE'' 0 1 2 0 False False),
     (OP_TIMESTAMP, op_info ''TIMESTAMP'' 0 1 2 0 False False),
     (OP_NUMBER, op_info ''NUMBER'' 0 1 2 0 False False),
     (OP_DIFFICULTY, op_info ''DIFFICULTY'' 0 1 2 0 False False),
     (OP_GASLIMIT, op_info ''GASLIMIT'' 0 1 2 0 False False),
     (OP_CHAINID, op_info ''CHAINID'' 0 1 2 0 False False),
     (OP_SELFBALANCE, op_info ''SELFBALANCE'' 0 1 5 0 False False),
     (OP_BASEFEE, op_info ''BASEFEE'' 0 1 2 0 False False),
     (OP_POP, op_info ''POP'' 1 0 2 0 False False),
     (OP_MLOAD, op_info ''MLOAD'' 1 1 3 0 False False),
     (OP_MSTORE, op_info ''MSTORE'' 2 0 3 0 False False),
     (OP_MSTORE8, op_info ''MSTORE8'' 2 0 3 0 False False),
     (OP_SLOAD, op_info ''SLOAD'' 1 1 100 0 False False),
     (OP_SSTORE, op_info ''SSTORE'' 2 0 100 0 False False),
     (OP_JUMP, op_info ''JUMP'' 1 0 8 0 True False),
     (OP_JUMPI, op_info ''JUMPI'' 2 0 10 0 True False),
     (OP_PC, op_info ''PC'' 0 1 2 0 False False),
     (OP_MSIZE, op_info ''MSIZE'' 0 1 2 0 False False),
     (OP_GAS, op_info ''GAS'' 0 1 2 0 False False),
     (OP_JUMPDEST, op_info ''JUMPDEST'' 0 0 1 0 False False),
     (OP_PUSH0, op_info ''PUSH0'' 0 1 2 0 False False),
     (OP_PUSH1, op_info ''PUSH1'' 0 1 3 1 False False),
     (OP_PUSH2, op_info ''PUSH2'' 0 1 3 2 False False),
     (OP_PUSH3, op_info ''PUSH3'' 0 1 3 3 False False),
     (OP_PUSH4, op_info ''PUSH4'' 0 1 3 4 False False),
     (OP_PUSH5, op_info ''PUSH5'' 0 1 3 5 False False),
     (OP_PUSH6, op_info ''PUSH6'' 0 1 3 6 False False),
     (OP_PUSH7, op_info ''PUSH7'' 0 1 3 7 False False),
     (OP_PUSH8, op_info ''PUSH8'' 0 1 3 8 False False),
     (OP_PUSH9, op_info ''PUSH9'' 0 1 3 9 False False),
     (OP_PUSH10, op_info ''PUSH10'' 0 1 3 10 False False),
     (OP_PUSH11, op_info ''PUSH11'' 0 1 3 11 False False),
     (OP_PUSH12, op_info ''PUSH12'' 0 1 3 12 False False),
     (OP_PUSH13, op_info ''PUSH13'' 0 1 3 13 False False),
     (OP_PUSH14, op_info ''PUSH14'' 0 1 3 14 False False),
     (OP_PUSH15, op_info ''PUSH15'' 0 1 3 15 False False),
     (OP_PUSH16, op_info ''PUSH16'' 0 1 3 16 False False),
     (OP_PUSH17, op_info ''PUSH17'' 0 1 3 17 False False),
     (OP_PUSH18, op_info ''PUSH18'' 0 1 3 18 False False),
     (OP_PUSH19, op_info ''PUSH19'' 0 1 3 19 False False),
     (OP_PUSH20, op_info ''PUSH20'' 0 1 3 20 False False),
     (OP_PUSH21, op_info ''PUSH21'' 0 1 3 21 False False),
     (OP_PUSH22, op_info ''PUSH22'' 0 1 3 22 False False),
     (OP_PUSH23, op_info ''PUSH23'' 0 1 3 23 False False),
     (OP_PUSH24, op_info ''PUSH24'' 0 1 3 24 False False),
     (OP_PUSH25, op_info ''PUSH25'' 0 1 3 25 False False),
     (OP_PUSH26, op_info ''PUSH26'' 0 1 3 26 False False),
     (OP_PUSH27, op_info ''PUSH27'' 0 1 3 27 False False),
     (OP_PUSH28, op_info ''PUSH28'' 0 1 3 28 False False),
     (OP_PUSH29, op_info ''PUSH29'' 0 1 3 29 False False),
     (OP_PUSH30, op_info ''PUSH30'' 0 1 3 30 False False),
     (OP_PUSH31, op_info ''PUSH31'' 0 1 3 31 False False),
     (OP_PUSH32, op_info ''PUSH32'' 0 1 3 32 False False),
     (OP_DUP1, op_info ''DUP1'' 1 2 3 0 False False),
     (OP_DUP2, op_info ''DUP2'' 2 3 3 0 False False),
     (OP_DUP3, op_info ''DUP3'' 3 4 3 0 False False),
     (OP_DUP4, op_info ''DUP4'' 4 5 3 0 False False),
     (OP_DUP5, op_info ''DUP5'' 5 6 3 0 False False),
     (OP_DUP6, op_info ''DUP6'' 6 7 3 0 False False),
     (OP_DUP7, op_info ''DUP7'' 7 8 3 0 False False),
     (OP_DUP8, op_info ''DUP8'' 8 9 3 0 False False),
     (OP_DUP9, op_info ''DUP9'' 9 10 3 0 False False),
     (OP_DUP10, op_info ''DUP10'' 10 11 3 0 False False),
     (OP_DUP11, op_info ''DUP11'' 11 12 3 0 False False),
     (OP_DUP12, op_info ''DUP12'' 12 13 3 0 False False),
     (OP_DUP13, op_info ''DUP13'' 13 14 3 0 False False),
     (OP_DUP14, op_info ''DUP14'' 14 15 3 0 False False),
     (OP_DUP15, op_info ''DUP15'' 15 16 3 0 False False),
     (OP_DUP16, op_info ''DUP16'' 16 17 3 0 False False),
     (OP_SWAP1, op_info ''SWAP1'' 2 2 3 0 False False),
     (OP_SWAP2, op_info ''SWAP2'' 3 3 3 0 False False),
     (OP_SWAP3, op_info ''SWAP3'' 4 4 3 0 False False),
     (OP_SWAP4, op_info ''SWAP4'' 5 5 3 0 False False),
     (OP_SWAP5, op_info ''SWAP5'' 6 6 3 0 False False),
     (OP_SWAP6, op_info ''SWAP6'' 7 7 3 0 False False),
     (OP_SWAP7, op_info ''SWAP7'' 8 8 3 0 False False),
     (OP_SWAP8, op_info ''SWAP8'' 9 9 3 0 False False),
     (OP_SWAP9, op_info ''SWAP9'' 10 10 3 0 False False),
     (OP_SWAP10, op_info ''SWAP10'' 11 11 3 0 False False),
     (OP_SWAP11, op_info ''SWAP11'' 12 12 3 0 False False),
     (OP_SWAP12, op_info ''SWAP12'' 13 13 3 0 False False),
     (OP_SWAP13, op_info ''SWAP13'' 14 14 3 0 False False),
     (OP_SWAP14, op_info ''SWAP14'' 15 15 3 0 False False),
     (OP_SWAP15, op_info ''SWAP15'' 16 16 3 0 False False),
     (OP_SWAP16, op_info ''SWAP16'' 17 17 3 0 False False),
     (OP_LOG0, op_info ''LOG0'' 2 0 375 0 False False),
     (OP_LOG1, op_info ''LOG1'' 3 0 750 0 False False),
     (OP_LOG2, op_info ''LOG2'' 4 0 1125 0 False False),
     (OP_LOG3, op_info ''LOG3'' 5 0 1500 0 False False),
     (OP_LOG4, op_info ''LOG4'' 6 0 1875 0 False False),
     (OP_CREATE, op_info ''CREATE'' 3 1 32000 0 False False),
     (OP_CALL, op_info ''CALL'' 7 1 100 0 False False),
     (OP_CALLCODE, op_info ''CALLCODE'' 7 1 100 0 False False),
     (OP_RETURN, op_info ''RETURN'' 2 0 0 0 False True),
     (OP_DELEGATECALL, op_info ''DELEGATECALL'' 6 1 100 0 False False),
     (OP_CREATE2, op_info ''CREATE2'' 4 1 32000 0 False False),
     (OP_STATICCALL, op_info ''STATICCALL'' 6 1 100 0 False False),
     (OP_REVERT, op_info ''REVERT'' 2 0 0 0 False True),
     (OP_INVALID, op_info ''INVALID'' 0 0 0 0 False True),
     (OP_SELFDESTRUCT, op_info ''SELFDESTRUCT'' 1 0 5000 0 False True)]"

definition GetOpCodeInfo :: "OpCode \<Rightarrow> OpCodeInfo option" where
  "GetOpCodeInfo op = map_of OpCodeInfoMap op"

definition GetOpCodeName :: "OpCode \<Rightarrow> string" where
  "GetOpCodeName op =
     (case map_of OpCodeInfoMap op of Some info \<Rightarrow> oi_Name info | None \<Rightarrow> ''UNKNOWN'')"

subsection \<open>Families of operation codes\<close>

definition IsPush :: "OpCode \<Rightarrow> bool" where
  "IsPush op \<longleftrightarrow> OP_PUSH1 \<le> op \<and> op \<le> OP_PUSH32"

definition IsDup :: "OpCode \<Rightarrow> bool" where
  "IsDup op \<longleftrightarrow> OP_DUP1 \<le> op \<and> op \<le> OP_DUP16"

definition IsSwap :: "OpCode \<Rightarrow> bool" where
  "IsSwap op \<longleftrightarrow> OP_SWAP1 \<le> op \<and> op \<le> OP_SWAP16"

definition IsLog :: "OpCode \<Rightarrow> bool" where
  "IsLog op \<longleftrightarrow> OP_LOG0 \<le> op \<and> op \<le> OP_LOG4"

text \<open>The differences below are computed on bytes, as in the code.\<close>

definition GetPushSize :: "OpCode \<Rightarrow> nat" where
  "GetPushSize op =
     (if op = OP_PUSH0 then 0 else if IsPush op then unat (op - OP_PUSH1 + 1) else 0)"

definition GetDupN :: "OpCode \<Rightarrow> nat" where
  "GetDupN op = (if IsDup op then unat (op - OP_DUP1 + 1) else 0)"

definition GetSwapN :: "OpCode \<Rightarrow> nat" where
  "GetSwapN op = (if IsSwap op then unat (op - OP_SWAP1 + 1) else 0)"

definition GetLogTopics :: "OpCode \<Rightarrow> nat" where
  "GetLogTopics op = (if IsLog op then unat (op - OP_LOG0) else 0)"

subsection \<open>Facts about the table\<close>

lemma GetOpCodeInfo_mem: "GetOpCodeInfo op = Some i \<Longrightarrow> (op, i) \<in> set OpCodeInfoMap"
  by (simp add: GetOpCodeInfo_def map_of_SomeD)

text \<open>The table lists no operation code twice, and every entry is found by its code.\<close>

lemma distinct_OpCodeInfoMap: "distinct (map fst OpCodeInfoMap)"
proof -
  have "successively (<) (map fst OpCodeInfoMap)" by code_simp
  then have "sorted_wrt (<) (map fst OpCodeInfoMap)"
    by (simp add: successively_conv_sorted_wrt)
  then show ?thesis by (simp add: strict_sorted_iff)
qed

lemma GetOpCodeInfo_iff: "GetOpCodeInfo op = Some i \<longleftrightarrow> (op, i) \<in> set OpCodeInfoMap"
  by (simp add: GetOpCodeInfo_def map_of_eq_Some_iff distinct_OpCodeInfoMap)

text \<open>A property of every entry, checked on the table.\<close>

lemma OpCodeInfoMap_all:
  "list_all (\<lambda>(op, i). P op i) OpCodeInfoMap \<Longrightarrow> GetOpCodeInfo op = Some i \<Longrightarrow> P op i"
  by (auto simp: list_all_iff dest: GetOpCodeInfo_mem)

text \<open>Every instruction that lets the execution go on costs gas.\<close>

lemma non_terminal_costs_gas:
  "GetOpCodeInfo op = Some i \<Longrightarrow> \<not> oi_IsTerminal i \<Longrightarrow> 0 < oi_Gas i"
proof -
  have "list_all (\<lambda>(op, i). \<not> oi_IsTerminal i \<longrightarrow> 0 < oi_Gas i) OpCodeInfoMap"
    by code_simp
  then show "GetOpCodeInfo op = Some i \<Longrightarrow> \<not> oi_IsTerminal i \<Longrightarrow> 0 < oi_Gas i"
    by (drule_tac op = op in OpCodeInfoMap_all) blast+
qed

text \<open>
  Immediate data belong to the PUSH family only, and their size is the one the classifier
  computes.
\<close>

lemma ImmSize_GetPushSize: "GetOpCodeInfo op = Some i \<Longrightarrow> oi_ImmSize i = GetPushSize op"
proof -
  have "list_all (\<lambda>(op, i). oi_ImmSize i = GetPushSize op) OpCodeInfoMap"
    by code_simp
  then show "GetOpCodeInfo op = Some i \<Longrightarrow> oi_ImmSize i = GetPushSize op"
    by (rule OpCodeInfoMap_all)
qed

text \<open>The loop leaves the program counter to \<open>JUMP\<close> and \<open>JUMPI\<close> only.\<close>

lemma GetOpCodeInfo_jump:
  "GetOpCodeInfo op = Some i \<Longrightarrow> oi_IsJump i \<longleftrightarrow> op = OP_JUMP \<or> op = OP_JUMPI"
proof -
  have "list_all (\<lambda>(op, i). oi_IsJump i \<longleftrightarrow> op = OP_JUMP \<or> op = OP_JUMPI) OpCodeInfoMap"
    by code_simp
  then show "GetOpCodeInfo op = Some i \<Longrightarrow> oi_IsJump i \<longleftrightarrow> op = OP_JUMP \<or> op = OP_JUMPI"
    by (rule OpCodeInfoMap_all)
qed

end
