(* ===== verification/EvmVmFacts.thy ===== *)
theory EvmVmFacts
  imports EvmVm
begin

section \<open>Facts about stack, memory, storage and the state database\<close>

text \<open>
  Memory refines an infinite byte array that is zero where nothing was written
  (\<open>mem_at\<close>): resizing is invisible, a write changes its window, a read returns its window,
  as long as the offsets do not wrap.  Contract storage and the fields of the state database are
  register-like stores.
\<close>

subsection \<open>Stores\<close>

interpretation evm_storage: store Storage_Get Storage_Set
  by unfold_locales (auto simp: Storage_Get_def Storage_Set_def)

lemma Storage_Get_New [simp]: "Storage_Get NewStorage k = zero_hash"
  by (simp add: Storage_Get_def NewStorage_def)

lemma GetAccount_modify [simp]:
  "GetAccount (modify_account a f db) b =
     (if b = a then Some (f (case GetAccount db a of None \<Rightarrow> NewAccount a | Some acc \<Rightarrow> acc))
      else GetAccount db b)"
  by (auto simp: modify_account_def GetOrCreateAccount_def GetAccount_def Let_def
      split: option.splits)

lemma GetLogs_modify [simp]: "GetLogs (modify_account a f db) = GetLogs db"
  by (auto simp: modify_account_def GetOrCreateAccount_def GetLogs_def Let_def
      split: option.splits)

lemma GetAccount_AddLog [simp]: "GetAccount (AddLog l db) a = GetAccount db a"
  by (simp add: GetAccount_def AddLog_def)

lemma GetLogs_AddLog [simp]: "GetLogs (AddLog l db) = GetLogs db @ [l]"
  by (simp add: GetLogs_def AddLog_def)

lemma NewAccount_fields [simp]:
  "acc_Balance (NewAccount a) = 0" "acc_Code (NewAccount a) = []"
  "acc_Storage (NewAccount a) = Some NewStorage"
  by (simp_all add: NewAccount_def)

definition db_write :: "Address \<times> Hash \<Rightarrow> Hash \<Rightarrow> StateDB \<Rightarrow> StateDB" where
  "db_write ak v = SetStorage (fst ak) (snd ak) v"

definition db_read :: "StateDB \<Rightarrow> Address \<times> Hash \<Rightarrow> Hash" where
  "db_read db ak = GetStorage db (fst ak) (snd ak)"

interpretation db_storage: store db_read db_write
  by unfold_locales
    (auto simp: db_read_def db_write_def GetStorage_def SetStorage_def Let_def
      evm_storage.rd_wr split: option.splits)

lemma GetStorage_SetStorage:
  "GetStorage (SetStorage a k v db) b j = (if b = a \<and> j = k then v else GetStorage db b j)"
  using db_storage.rd_wr [of "(a, k)" v db "(b, j)"] by (simp add: db_read_def db_write_def)

interpretation db_balance: store GetBalance SetBalance
  by unfold_locales (simp add: GetBalance_def SetBalance_def)

interpretation db_code: store GetCode SetCode
  by unfold_locales (simp add: GetCode_def SetCode_def)

lemma GetStorage_simps [simp]:
  "GetStorage (AddLog l db) a k = GetStorage db a k"
  "GetStorage (SetBalance b v db) a k = GetStorage db a k"
  "GetStorage (SetCode b c db) a k = GetStorage db a k"
  by (auto simp: GetStorage_def SetBalance_def SetCode_def split: option.splits)

lemma GetBalance_simps [simp]:
  "GetBalance (AddLog l db) a = GetBalance db a"
  "GetBalance (SetStorage b k v db) a = GetBalance db a"
  "GetBalance (SetCode b c db) a = GetBalance db a"
  by (auto simp: GetBalance_def SetStorage_def SetCode_def Let_def split: option.splits)

lemma GetCode_simps [simp]:
  "GetCode (AddLog l db) a = GetCode db a"
  "GetCode (SetStorage b k v db) a = GetCode db a"
  "GetCode (SetBalance b v' db) a = GetCode db a"
  by (auto simp: GetCode_def SetStorage_def SetBalance_def Let_def split: option.splits)

lemma GetLogs_SetStorage [simp]: "GetLogs (SetStorage a k v db) = GetLogs db"
  by (simp add: SetStorage_def)

lemma GetAccount_SetStorage_other [simp]:
  "b \<noteq> a \<Longrightarrow> GetAccount (SetStorage a k v db) b = GetAccount db b"
  by (simp add: SetStorage_def)

subsection \<open>Conversions\<close>

lemma hash_wf_BigIntToHash [simp, intro]: "hash_wf (BigIntToHash v)"
  by (simp add: hash_wf_def BigIntToHash_def)

lemma HashToBigInt_BigIntToHash: "HashToBigInt (BigIntToHash v) = \<bar>v\<bar> mod two256"
  by (simp add: HashToBigInt_def BigIntToHash_def big_of_bytes_def big_bytes_def two256_def
      zmod_int)

lemma BigIntToHash_HashToBigInt: "hash_wf h \<Longrightarrow> BigIntToHash (HashToBigInt h) = h"
  by (simp add: HashToBigInt_def BigIntToHash_def big_of_bytes_def big_bytes_def hash_wf_def
      fit_array_be_nat)

lemma u256_HashToBigInt: "hash_wf h \<Longrightarrow> u256 (HashToBigInt h)"
  by (simp add: HashToBigInt_def hash_wf_def u256_of_bytes)

lemma u256_address: "addr_wf a \<Longrightarrow> u256 (big_of_bytes a)"
  by (simp add: addr_wf_def u256_of_bytes)

lemma fit_array_id: "length bs = n \<Longrightarrow> fit_array n bs = bs"
  by (simp add: fit_array_def pad_left_def)

lemma HexToAddress_AddressToHex: "addr_wf a \<Longrightarrow> HexToAddress (AddressToHex a) = a"
  by (simp add: HexToAddress_def AddressToHex_def strip_0x_def addr_wf_def fit_array_id)

lemma HexToHash_HashToHex: "hash_wf h \<Longrightarrow> HexToHash (HashToHex h) = h"
  by (simp add: HexToHash_def HashToHex_def strip_0x_def hash_wf_def fit_array_id)

subsection \<open>Memory as an infinite array of bytes\<close>

definition mem_at :: "Memory \<Rightarrow> nat \<Rightarrow> byte" where
  "mem_at m i = (if i < length m then m ! i else 0)"

definition mem_ceil :: "nat \<Rightarrow> nat" where
  "mem_ceil n = (n + 31) div 32 * 32"

text \<open>An access window is addressable when it ends, rounded up, within the allocator's reach.\<close>

definition addressable :: "u64 \<Rightarrow> u64 \<Rightarrow> bool" where
  "addressable off sz \<longleftrightarrow> unat off + unat sz + 31 \<le> max_alloc"

text \<open>\<open>m'\<close> extends \<open>m\<close>, keeps it a whole number of words and holds \<open>f\<close>.\<close>

definition mem_to :: "Memory \<Rightarrow> (nat \<Rightarrow> byte) \<Rightarrow> Memory \<Rightarrow> bool" where
  "mem_to m f m' \<longleftrightarrow> mem_at m' = f \<and> length m \<le> length m' \<and>
     (length m mod 32 = 0 \<longrightarrow> length m' mod 32 = 0)"

lemma mem_to_refl [simp]: "mem_to m (mem_at m) m"
  by (simp add: mem_to_def)

lemma mem_ceil_ge: "n \<le> mem_ceil n"
  unfolding mem_ceil_def by presburger

lemma mem_ceil_le: "mem_ceil n \<le> n + 31"
  unfolding mem_ceil_def by presburger

lemma mem_at_append_zeros [simp]: "mem_at (m @ replicate k 0) = mem_at m"
  by (auto simp: mem_at_def fun_eq_iff nth_append)

lemma unat_round_up:
  assumes "unat (sz :: u64) + 31 \<le> max_alloc"
  shows "unat ((sz + 31) div 32 * 32) = mem_ceil (unat sz)"
proof -
  have s: "unat (sz + 31) = unat sz + 31"
    using assms by (simp add: unat_word_ariths max_alloc_def)
  have "unat ((sz + 31) div 32) = (unat sz + 31) div 32"
    by (simp add: unat_div s)
  moreover have "(unat sz + 31) div 32 * 32 \<le> unat sz + 31"
    by (rule div_times_less_eq_dividend)
  then have "(unat sz + 31) div 32 * 32 < 2 ^ 64"
    using assms by (simp add: max_alloc_def)
  ultimately show ?thesis by (simp add: unat_word_ariths mem_ceil_def)
qed

lemma Memory_Resize_ok:
  assumes "unat sz + 31 \<le> max_alloc"
  shows "Memory_Resize sz m =
    Inr (m @ replicate (if length m < unat sz then mem_ceil (unat sz) - length m else 0) 0)"
proof (cases "length m < unat sz")
  case True
  have "mem_ceil (unat sz) \<le> max_alloc"
    using mem_ceil_le [of "unat sz"] assms by simp
  moreover have "length m < mem_ceil (unat sz)"
    using True mem_ceil_ge [of "unat sz"] by simp
  ultimately show ?thesis
    using True by (simp add: Memory_Resize_def Let_def unat_round_up [OF assms] go_make_def
        go_copy_def)
qed (simp add: Memory_Resize_def)

lemma Memory_Resize_spec:
  assumes "unat sz + 31 \<le> max_alloc"
  obtains m' where "Memory_Resize sz m = Inr m'" and "mem_to m (mem_at m) m'"
    and "unat sz \<le> length m'"
proof
  let ?m' = "m @ replicate (if length m < unat sz then mem_ceil (unat sz) - length m else 0) 0"
  show "Memory_Resize sz m = Inr ?m'" using assms by (rule Memory_Resize_ok)
  show "unat sz \<le> length ?m'" using mem_ceil_ge [of "unat sz"] by simp
  show "mem_to m (mem_at m) ?m'"
    using mem_ceil_ge [of "unat sz"] by (simp add: mem_to_def mem_ceil_def)
qed

lemma unat_add_addressable:
  "addressable off sz \<Longrightarrow> unat (off + sz) = unat off + unat sz"
  by (simp add: addressable_def unat_word_ariths max_alloc_def)

lemma take_drop_mem_at:
  "a + n \<le> length m \<Longrightarrow> take n (drop a m) = map (mem_at m) [a..<a + n]"
  by (rule nth_equalityI) (simp_all add: mem_at_def)

lemma Memory_Get_spec:
  assumes "addressable off sz"
  obtains m' where
    "Memory_Get off sz m = Inr (map (mem_at m) [unat off..<unat off + unat sz], m')"
    and "mem_to m (mem_at m) m'"
proof (cases "sz = 0")
  case True
  then show ?thesis by (intro that [of m]) (simp_all add: Memory_Get_def)
next
  case False
  have e: "unat (off + sz) = unat off + unat sz" using assms by (rule unat_add_addressable)
  have "unat (off + sz) + 31 \<le> max_alloc" using assms by (simp add: e addressable_def)
  then obtain m' where m': "Memory_Resize (off + sz) m = Inr m'" "mem_to m (mem_at m) m'"
    "unat (off + sz) \<le> length m'"
    by (rule Memory_Resize_spec [where m = m])
  have "unat sz \<le> max_alloc" using assms by (simp add: addressable_def)
  with m' False have
    "Memory_Get off sz m = Inr (map (mem_at m) [unat off..<unat off + unat sz], m')"
    by (simp add: Memory_Get_def go_slice_def go_make_def e take_drop_mem_at mem_to_def)
  with m' show ?thesis by (intro that)
qed

definition mem_write :: "nat \<Rightarrow> byte list \<Rightarrow> (nat \<Rightarrow> byte) \<Rightarrow> nat \<Rightarrow> byte" where
  "mem_write a value f i =
     (if a \<le> i \<and> i < a + length value then value ! (i - a) else f i)"

lemma mem_at_splice:
  assumes "a + length value \<le> length m"
  shows "mem_at (take a m @ value @ drop (a + length value) m) = mem_write a value (mem_at m)"
  using assms by (auto simp: mem_at_def mem_write_def fun_eq_iff nth_append min_def)

lemma mem_to_splice:
  assumes "mem_to m (mem_at m) m1" and "a + length value \<le> length m1"
  shows "mem_to m (mem_write a value (mem_at m)) (take a m1 @ value @ drop (a + length value) m1)"
  using assms mem_at_splice [OF assms(2)] by (simp add: mem_to_def)

lemma Memory_copy_ok:
  assumes "unat b = unat a + length value" and "unat b \<le> length m"
  shows "Memory_copy a b value m =
    Inr (take (unat a) m @ value @ drop (unat a + length value) m)"
  using assms by (simp add: Memory_copy_def go_slice_def)

lemma Memory_Set_spec:
  assumes "addressable off sz" and "length value = unat sz"
  obtains m' where "Memory_Set off sz value m = Inr m'"
    and "mem_to m (mem_write (unat off) value (mem_at m)) m'"
proof (cases "sz = 0")
  case True
  with assms(2) show ?thesis
    by (intro that [of m]) (auto simp: Memory_Set_def fun_eq_iff mem_write_def mem_to_def)
next
  case False
  have e: "unat (off + sz) = unat off + unat sz" using assms(1) by (rule unat_add_addressable)
  have "unat (off + sz) + 31 \<le> max_alloc" using assms by (simp add: e addressable_def)
  then obtain m1 where m1: "Memory_Resize (off + sz) m = Inr m1" "mem_to m (mem_at m) m1"
    "unat (off + sz) \<le> length m1"
    by (rule Memory_Resize_spec [where m = m])
  show ?thesis
  proof (rule that)
    show "Memory_Set off sz value m =
        Inr (take (unat off) m1 @ value @ drop (unat off + length value) m1)"
      using False m1 assms(2) e by (simp add: Memory_Set_def Memory_copy_ok)
  qed (rule mem_to_splice, use m1 e assms(2) in simp_all)
qed

text \<open>A 32-byte store writes the big-endian value, padded with zero bytes on the left.\<close>

lemma Memory_Set32_spec:
  assumes "addressable off 32" and "u256 v"
  obtains m' where "Memory_Set32 off v m = Inr m'"
    and "mem_to m (mem_write (unat off) (BigIntToHash v) (mem_at m)) m'"
proof -
  let ?d = "big_bytes v" and ?s = "off + 32 - of_nat (length (big_bytes v)) :: u64"
  have len: "length ?d \<le> 32"
    using assms(2) by (simp add: length_big_bytes_le u256_def two256_def)
  have e: "unat (off + 32) = unat off + 32"
    using unat_add_addressable [OF assms(1)] by simp
  have s: "unat ?s = unat off + (32 - length ?d)"
    using len e by (simp add: unat_sub_if_size unat_of_nat word_le_nat_alt word_size)
  have "unat (off + 32) + 31 \<le> max_alloc"
    using assms(1) by (simp add: e addressable_def)
  then obtain m1 where m1: "Memory_Resize (off + 32) m = Inr m1" "mem_to m (mem_at m) m1"
    "unat (off + 32) \<le> length m1"
    by (rule Memory_Resize_spec [where m = m])
  let ?m2 = "take (unat off) m1 @ replicate (32 - length ?d) 0 @
    drop (unat off + (32 - length ?d)) m1"
  have z: "Memory_zero off ?s m1 = Inr ?m2"
  proof (cases "length ?d = 32")
    case False
    then have "unat off < unat ?s" "unat ?s \<le> length m1"
      using m1(3) len e unfolding s by linarith+
    then show ?thesis by (auto simp: Memory_zero_def word_le_nat_alt s)
  qed (simp add: Memory_zero_def word_le_nat_alt s)
  have fit: "BigIntToHash v = pad_left 32 ?d" "length (BigIntToHash v) = 32"
    using len by (simp_all add: BigIntToHash_def fit_array_def)
  have c: "Memory_copy ?s (off + 32) ?d ?m2 =
      Inr (take (unat off) m1 @ BigIntToHash v @ drop (unat off + length (BigIntToHash v)) m1)"
    using m1(3) len s e
    by (cases "length ?d = 32") (auto simp: Memory_copy_ok fit pad_left_def min_def)
  show ?thesis
  proof (rule that)
    show "Memory_Set32 off v m =
        Inr (take (unat off) m1 @ BigIntToHash v @ drop (unat off + length (BigIntToHash v)) m1)"
      using m1(1) z c by (simp add: Memory_Set32_def Let_def)
  qed (rule mem_to_splice, use m1 e fit in simp_all)
qed

text \<open>A 32-byte load of the word just stored gives the value back.\<close>

lemma mem_write_read:
  "n = length value \<Longrightarrow> map (mem_write a value f) [a..<a + n] = value"
  by (rule nth_equalityI) (simp_all add: mem_write_def)

lemma length_BigIntToHash [simp]: "length (BigIntToHash v) = 32"
  by (simp add: BigIntToHash_def)

text \<open>Memory.  After storing a 256-bit value at an addressable offset, the 32-byte read at that
  offset gives the big-endian bytes of the value, and the read does not change the contents.\<close>

theorem Memory_store_load:
  assumes "addressable off 32" and "u256 v"
  shows "\<exists>m' m''. Memory_Set32 off v m = Inr m' \<and>
    Memory_Get off 32 m' = Inr (BigIntToHash v, m'') \<and> mem_at m'' = mem_at m'"
proof -
  obtain m' where m': "Memory_Set32 off v m = Inr m'"
    "mem_to m (mem_write (unat off) (BigIntToHash v) (mem_at m)) m'"
    using assms by (rule Memory_Set32_spec)
  obtain m'' where m'':
    "Memory_Get off 32 m' = Inr (map (mem_at m') [unat off..<unat off + unat (32 :: u64)], m'')"
    "mem_to m' (mem_at m') m''"
    using assms(1) by (rule Memory_Get_spec)
  from m' have "mem_at m' = mem_write (unat off) (BigIntToHash v) (mem_at m)"
    by (simp add: mem_to_def)
  with m'' have "Memory_Get off 32 m' = Inr (BigIntToHash v, m'')"
    by (simp add: mem_write_read)
  with m' m'' show ?thesis by (auto simp: mem_to_def)
qed

theorem Memory_store_load_witness:
  "\<exists>m' m''. Memory_Set32 5 7 NewMemory = Inr m' \<and> Memory_Get 5 32 m' = Inr (BigIntToHash 7, m'')"
  using Memory_store_load [of 5 7 NewMemory]
  by (auto simp: addressable_def max_alloc_def u256_def two256_def)

end
