(* ===== verification/EvmExecutor.thy ===== *)
theory EvmExecutor
  imports EvmOpcodes EvmVmFacts
begin

section \<open>The bytecode interpreter: \<open>simulations/pkg/evm/executor.go\<close>\<close>

text \<open>
  The executor holds the state database, the code, the execution context and the traces.  An
  instruction gives the executor after it and the Go error it returned, or a panic
  (\<open>op_result\<close>): the code ignores the error of \<open>Stack.Pop\<close> and goes on with the nil
  pointer it got, so an instruction on a short stack panics when it uses the operand.

  The \<open>switch\<close> over the operation code is written as one definition per group of cases,
  each taking what the remaining cases give, in the order of the source.  The hash function
  \<open>keccak256\<close> (golang.org/x/crypto/sha3) is the parameter \<open>kec\<close>.
\<close>

unbundle bit_operations_syntax

subsection \<open>State\<close>

record ExecutionResult =
  er_Success :: bool
  er_ReturnData :: "byte list"
  er_GasUsed :: u64
  er_GasLeft :: u64
  er_Logs :: "Log list"
  er_Error :: "EvmError option"

record ExecutionTrace =
  tr_PC :: u64
  tr_OpCode :: string
  tr_Gas :: u64
  tr_GasCost :: u64
  tr_Depth :: int
  tr_Stack :: "string list"
  tr_Memory :: string
  tr_Error :: string

record Executor =
  ex_state :: StateDB
  ex_code :: "byte list"
  ex_ctx :: ExecutionContext
  ex_traces :: "ExecutionTrace list"
  ex_tracing :: bool

definition NewExecutor :: "StateDB \<Rightarrow> Executor" where
  "NewExecutor state = \<lparr>ex_state = state, ex_code = [], ex_ctx = NewExecutionContext,
     ex_traces = [], ex_tracing = False\<rparr>"

definition EnableTracing :: "Executor \<Rightarrow> Executor" where
  "EnableTracing e = e\<lparr>ex_tracing := True\<rparr>"

definition GetTraces :: "Executor \<Rightarrow> ExecutionTrace list" where
  "GetTraces e = ex_traces e"

type_synonym op_result = "(Executor \<times> EvmError option) go"

definition maxUint256 :: int where
  "maxUint256 = u256_mask"

definition bigIntToAddress :: "int \<Rightarrow> Address" where
  "bigIntToAddress val = fit_array 20 (big_bytes val)"

definition stackToStrings :: "Executor \<Rightarrow> string list" where
  "stackToStrings e = map (\<lambda>v. ''0x'' @ int_text 16 v) (Stack_Data (cx_Stack (ex_ctx e)))"

subsection \<open>Operands\<close>

abbreviation ex_stack :: "Executor \<Rightarrow> Stack" where
  "ex_stack e \<equiv> cx_Stack (ex_ctx e)"

abbreviation ex_mem :: "Executor \<Rightarrow> Memory" where
  "ex_mem e \<equiv> cx_Memory (ex_ctx e)"

definition set_stack :: "Stack \<Rightarrow> Executor \<Rightarrow> Executor" where
  "set_stack s e = e\<lparr>ex_ctx := (ex_ctx e)\<lparr>cx_Stack := s\<rparr>\<rparr>"

definition set_mem :: "Memory \<Rightarrow> Executor \<Rightarrow> Executor" where
  "set_mem m e = e\<lparr>ex_ctx := (ex_ctx e)\<lparr>cx_Memory := m\<rparr>\<rparr>"

definition set_pc :: "u64 \<Rightarrow> Executor \<Rightarrow> Executor" where
  "set_pc p e = e\<lparr>ex_ctx := (ex_ctx e)\<lparr>cx_PC := p\<rparr>\<rparr>"

text \<open>\<open>return stack.Push(v)\<close>, and the same with a pointer that is read first.\<close>

definition ex_push :: "int \<Rightarrow> Executor \<Rightarrow> op_result" where
  "ex_push v e = (case Stack_Push v (ex_stack e) of (s, err) \<Rightarrow> Inr (set_stack s e, err))"

definition ex_push_ptr :: "int option \<Rightarrow> Executor \<Rightarrow> op_result" where
  "ex_push_ptr p e = go_bind (go_deref p) (\<lambda>v. ex_push v e)"

text \<open>\<open>v, _ := stack.Pop()\<close>, and the same for operands that are used afterwards.\<close>

definition ex_pop :: "Executor \<Rightarrow> int option \<times> Executor" where
  "ex_pop e = (case Stack_Pop (ex_stack e) of ((v, _), s) \<Rightarrow> (v, set_stack s e))"

definition ex_pop1 :: "Executor \<Rightarrow> (int \<Rightarrow> Executor \<Rightarrow> 'r go) \<Rightarrow> 'r go" where
  "ex_pop1 e k = (case ex_pop e of (v, e) \<Rightarrow> go_bind (go_deref v) (\<lambda>v. k v e))"

definition ex_pop2 :: "Executor \<Rightarrow> (int \<Rightarrow> int \<Rightarrow> Executor \<Rightarrow> 'r go) \<Rightarrow> 'r go" where
  "ex_pop2 e k = ex_pop1 e (\<lambda>a e. ex_pop1 e (\<lambda>b e. k a b e))"

definition ex_pop3 :: "Executor \<Rightarrow> (int \<Rightarrow> int \<Rightarrow> int \<Rightarrow> Executor \<Rightarrow> 'r go) \<Rightarrow> 'r go" where
  "ex_pop3 e k = ex_pop1 e (\<lambda>a e. ex_pop2 e (\<lambda>b c e. k a b c e))"

text \<open>\<open>ctx.Memory.Get\<close> on an executor.\<close>

definition ex_mem_get ::
  "int \<Rightarrow> int \<Rightarrow> Executor \<Rightarrow> (byte list \<Rightarrow> Executor \<Rightarrow> 'r go) \<Rightarrow> 'r go" where
  "ex_mem_get offset sz e k =
     go_bind (Memory_Get (big_uint64 offset) (big_uint64 sz) (ex_mem e))
       (\<lambda>(data, m). k data (set_mem m e))"

text \<open>
  The three copy instructions: a window of \<open>src\<close>, zero-padded, is written to memory.
\<close>

definition ex_copy_to_mem :: "byte list \<Rightarrow> Executor \<Rightarrow> op_result" where
  "ex_copy_to_mem src e = ex_pop3 e (\<lambda>destOffset offset sz e.
     go_bind (go_make (unat (big_uint64 sz))) (\<lambda>data.
       let off = unat (big_uint64 offset);
           data = (if off < length src then go_copy data (drop off src) else data)
       in go_bind (Memory_Set (big_uint64 destOffset) (big_uint64 sz) data (ex_mem e))
            (\<lambda>m. Inr (set_mem m e, None))))"

subsection \<open>The instructions, group by group\<close>

definition exec_arith :: "OpCode \<Rightarrow> Executor \<Rightarrow> op_result \<Rightarrow> op_result" where
  "exec_arith op e otherwise =
     (if op = OP_ADD then ex_pop2 e (\<lambda>a b. ex_push ((a + b) AND maxUint256))
      else if op = OP_MUL then ex_pop2 e (\<lambda>a b. ex_push ((a * b) AND maxUint256))
      else if op = OP_SUB then ex_pop2 e (\<lambda>a b.
        let result = a - b
        in ex_push (if result < 0 then result + (maxUint256 + 1) else result))
      else if op = OP_DIV then ex_pop2 e (\<lambda>a b.
        if b = 0 then ex_push 0 else ex_push (big_div a b))
      else if op = OP_MOD then ex_pop2 e (\<lambda>a b.
        if b = 0 then ex_push 0 else ex_push (big_mod a b))
      else if op = OP_EXP then ex_pop2 e (\<lambda>base ex.
        ex_push_ptr (big_exp base ex (maxUint256 + 1)))
      else otherwise)"

text \<open>
  \<open>a.Cmp(b)\<close> on two popped pointers.  Equal pointers compare as equal before anything is read,
  so two operands missing from an empty stack do not panic; one missing operand does.
\<close>

definition big_cmp :: "int option \<Rightarrow> int option \<Rightarrow> int go" where
  "big_cmp a b =
     (case (a, b) of
        (None, None) \<Rightarrow> Inr 0
      | (Some x, Some y) \<Rightarrow> Inr (if x < y then -1 else if x = y then 0 else 1)
      | _ \<Rightarrow> Inl NilDeref)"

definition ex_cmp :: "Executor \<Rightarrow> (int \<Rightarrow> Executor \<Rightarrow> 'r go) \<Rightarrow> 'r go" where
  "ex_cmp e k = (case ex_pop e of (a, e) \<Rightarrow> case ex_pop e of (b, e) \<Rightarrow>
     go_bind (big_cmp a b) (\<lambda>c. k c e))"

definition exec_compare :: "OpCode \<Rightarrow> Executor \<Rightarrow> op_result \<Rightarrow> op_result" where
  "exec_compare op e otherwise =
     (if op = OP_LT then ex_cmp e (\<lambda>c. if c < 0 then ex_push 1 else ex_push 0)
      else if op = OP_GT then ex_cmp e (\<lambda>c. if c > 0 then ex_push 1 else ex_push 0)
      else if op = OP_EQ then ex_cmp e (\<lambda>c. if c = 0 then ex_push 1 else ex_push 0)
      else if op = OP_ISZERO then ex_pop1 e (\<lambda>a. if a = 0 then ex_push 1 else ex_push 0)
      else otherwise)"

definition exec_bitwise :: "OpCode \<Rightarrow> Executor \<Rightarrow> op_result \<Rightarrow> op_result" where
  "exec_bitwise op e otherwise =
     (if op = OP_AND then ex_pop2 e (\<lambda>a b. ex_push (a AND b))
      else if op = OP_OR then ex_pop2 e (\<lambda>a b. ex_push (a OR b))
      else if op = OP_XOR then ex_pop2 e (\<lambda>a b. ex_push (a XOR b))
      else if op = OP_NOT then ex_pop1 e (\<lambda>a. ex_push (a XOR maxUint256))
      else if op = OP_SHL then ex_pop2 e (\<lambda>shift value.
        if 256 \<le> shift then ex_push 0
        else ex_push (push_bit (unat (big_uint64 shift)) value AND maxUint256))
      else if op = OP_SHR then ex_pop2 e (\<lambda>shift value.
        if 256 \<le> shift then ex_push 0
        else ex_push (drop_bit (unat (big_uint64 shift)) value))
      else otherwise)"

definition exec_hash ::
  "(byte list \<Rightarrow> byte list) \<Rightarrow> OpCode \<Rightarrow> Executor \<Rightarrow> op_result \<Rightarrow> op_result" where
  "exec_hash kec op e otherwise =
     (if op = OP_KECCAK256 then ex_pop2 e (\<lambda>offset sz e.
        ex_mem_get offset sz e (\<lambda>data. ex_push (big_of_bytes (kec data))))
      else otherwise)"

definition exec_env :: "OpCode \<Rightarrow> Executor \<Rightarrow> op_result \<Rightarrow> op_result" where
  "exec_env op e otherwise =
     (let ctx = ex_ctx e in
      if op = OP_ADDRESS then ex_push (big_of_bytes (cx_Address ctx)) e
      else if op = OP_BALANCE then ex_pop1 e (\<lambda>addr e.
        ex_push (GetBalance (ex_state e) (bigIntToAddress addr)) e)
      else if op = OP_ORIGIN then ex_push (big_of_bytes (cx_Origin ctx)) e
      else if op = OP_CALLER then ex_push (big_of_bytes (cx_Caller ctx)) e
      else if op = OP_CALLVALUE then ex_push_ptr (cx_Value ctx) e
      else if op = OP_CALLDATALOAD then ex_pop1 e (\<lambda>offset.
        let off = unat (big_uint64 offset);
            data = replicate 32 0;
            data = (if off < length (cx_Input ctx) then go_copy data (drop off (cx_Input ctx))
                    else data)
        in ex_push (big_of_bytes data))
      else if op = OP_CALLDATASIZE then ex_push (int (length (cx_Input ctx))) e
      else if op = OP_CALLDATACOPY then ex_copy_to_mem (cx_Input ctx) e
      else if op = OP_CODESIZE then ex_push (int (length (ex_code e))) e
      else if op = OP_CODECOPY then ex_copy_to_mem (ex_code e) e
      else if op = OP_GASPRICE then ex_push_ptr (cx_GasPrice ctx) e
      else if op = OP_RETURNDATASIZE then ex_push (int (length (cx_ReturnData ctx))) e
      else if op = OP_RETURNDATACOPY then ex_copy_to_mem (cx_ReturnData ctx) e
      else otherwise)"

text \<open>
  \<open>big.NewInt(int64(x))\<close> of an unsigned 64-bit value reads it as signed.  The operand of
  \<open>BLOCKHASH\<close> is popped and not used.
\<close>

definition exec_block :: "OpCode \<Rightarrow> Executor \<Rightarrow> op_result \<Rightarrow> op_result" where
  "exec_block op e otherwise =
     (let ctx = ex_ctx e in
      if op = OP_BLOCKHASH then (case ex_pop e of (num, e) \<Rightarrow> ex_push 0 e)
      else if op = OP_COINBASE then ex_push (big_of_bytes (cx_Coinbase ctx)) e
      else if op = OP_TIMESTAMP then ex_push (sint (cx_BlockTimestamp ctx)) e
      else if op = OP_NUMBER then ex_push_ptr (cx_BlockNumber ctx) e
      else if op = OP_DIFFICULTY then ex_push_ptr (cx_Difficulty ctx) e
      else if op = OP_GASLIMIT then ex_push (sint (cx_BlockGasLimit ctx)) e
      else if op = OP_CHAINID then ex_push 1 e
      else if op = OP_SELFBALANCE then ex_push (GetBalance (ex_state e) (cx_Address ctx)) e
      else if op = OP_BASEFEE then ex_push_ptr (cx_BaseFee ctx) e
      else otherwise)"

definition exec_memory :: "OpCode \<Rightarrow> Executor \<Rightarrow> op_result \<Rightarrow> op_result" where
  "exec_memory op e otherwise =
     (if op = OP_POP then Inr (snd (ex_pop e), None)
      else if op = OP_MLOAD then ex_pop1 e (\<lambda>offset e.
        ex_mem_get offset 32 e (\<lambda>data. ex_push (big_of_bytes data)))
      else if op = OP_MSTORE then ex_pop2 e (\<lambda>offset value e.
        go_bind (Memory_Set32 (big_uint64 offset) value (ex_mem e))
          (\<lambda>m. Inr (set_mem m e, None)))
      else if op = OP_MSTORE8 then ex_pop2 e (\<lambda>offset value e.
        go_bind (Memory_Set (big_uint64 offset) 1 [ucast (big_uint64 value AND 0xFF)] (ex_mem e))
          (\<lambda>m. Inr (set_mem m e, None)))
      else if op = OP_MSIZE then ex_push (int (Memory_Len (ex_mem e))) e
      else otherwise)"

definition exec_storage :: "OpCode \<Rightarrow> Executor \<Rightarrow> op_result \<Rightarrow> op_result" where
  "exec_storage op e otherwise =
     (if op = OP_SLOAD then ex_pop1 e (\<lambda>key e.
        ex_push (HashToBigInt
          (GetStorage (ex_state e) (cx_Address (ex_ctx e)) (BigIntToHash key))) e)
      else if op = OP_SSTORE then ex_pop2 e (\<lambda>key value e.
        Inr (e\<lparr>ex_state := SetStorage (cx_Address (ex_ctx e)) (BigIntToHash key)
                 (BigIntToHash value) (ex_state e)\<rparr>, None))
      else otherwise)"

text \<open>\<open>ctx.PC = dest.Uint64()\<close> followed by the check of the target.\<close>

definition ex_jump :: "int \<Rightarrow> Executor \<Rightarrow> op_result" where
  "ex_jump dest e =
     (let pc = big_uint64 dest; e = set_pc pc e in
      if length (ex_code e) \<le> unat pc \<or> ex_code e ! unat pc \<noteq> OP_JUMPDEST
      then Inr (e, Some InvalidJumpDest)
      else Inr (e, None))"

definition exec_flow :: "OpCode \<Rightarrow> Executor \<Rightarrow> op_result \<Rightarrow> op_result" where
  "exec_flow op e otherwise =
     (if op = OP_JUMP then ex_pop1 e ex_jump
      else if op = OP_JUMPI then ex_pop2 e (\<lambda>dest cond e.
        if cond \<noteq> 0 then ex_jump dest e
        else Inr (set_pc (cx_PC (ex_ctx e) + 1) e, None))
      else if op = OP_PC then ex_push (sint (cx_PC (ex_ctx e))) e
      else if op = OP_GAS then ex_push (sint (cx_Gas (ex_ctx e))) e
      else if op = OP_JUMPDEST then Inr (e, None)
      else otherwise)"

text \<open>The immediate bytes of a PUSH, clipped at the end of the code.\<close>

definition ex_push_data :: "nat \<Rightarrow> Executor \<Rightarrow> op_result" where
  "ex_push_data sz e =
     (let start = cx_PC (ex_ctx e) + 1;
          en = start + of_nat sz;
          en = (if length (ex_code e) < unat en then of_nat (length (ex_code e)) else en)
      in go_bind (go_slice (ex_code e) (unat start) (unat en)) (\<lambda>src.
           ex_push (big_of_bytes (go_copy_at (replicate sz 0) (sz - unat (en - start)) src)) e))"

definition exec_stackops :: "OpCode \<Rightarrow> Executor \<Rightarrow> op_result \<Rightarrow> op_result" where
  "exec_stackops op e otherwise =
     (if op = OP_PUSH0 then ex_push 0 e
      else if IsPush op then ex_push_data (GetPushSize op) e
      else if IsDup op then
        go_bind (Stack_Dup (int (GetDupN op)) (ex_stack e)) (\<lambda>(s, err). Inr (set_stack s e, err))
      else if IsSwap op then
        go_bind (Stack_Swap (int (GetSwapN op)) (ex_stack e)) (\<lambda>(s, err). Inr (set_stack s e, err))
      else otherwise)"

text \<open>\<open>for i := 0; i < topicCount; i++ { topic, _ := stack.Pop(); ... }\<close>\<close>

fun pop_topics :: "nat \<Rightarrow> Executor \<Rightarrow> (Hash list \<times> Executor) go" where
  "pop_topics 0 e = Inr ([], e)"
| "pop_topics (Suc n) e = ex_pop1 e (\<lambda>topic e.
     go_bind (pop_topics n e) (\<lambda>(topics, e). Inr (BigIntToHash topic # topics, e)))"

definition exec_log :: "OpCode \<Rightarrow> Executor \<Rightarrow> op_result \<Rightarrow> op_result" where
  "exec_log op e otherwise =
     (if IsLog op then ex_pop2 e (\<lambda>offset sz e.
        ex_mem_get offset sz e (\<lambda>data e.
          go_bind (pop_topics (GetLogTopics op) e) (\<lambda>(topics, e).
            Inr (e\<lparr>ex_state := AddLog \<lparr>log_Address = cx_Address (ex_ctx e), log_Topics = topics,
                     log_Data = data\<rparr> (ex_state e)\<rparr>, None))))
      else otherwise)"

definition ex_return_data :: "Executor \<Rightarrow> EvmError option \<Rightarrow> op_result" where
  "ex_return_data e err = ex_pop2 e (\<lambda>offset sz e.
     ex_mem_get offset sz e (\<lambda>data e.
       Inr (e\<lparr>ex_ctx := (ex_ctx e)\<lparr>cx_ReturnData := data\<rparr>\<rparr>, err)))"

definition exec_halt :: "OpCode \<Rightarrow> Executor \<Rightarrow> op_result \<Rightarrow> op_result" where
  "exec_halt op e otherwise =
     (if op = OP_RETURN then ex_return_data e None
      else if op = OP_REVERT then ex_return_data e (Some ExecutionReverted)
      else if op = OP_INVALID then Inr (e, Some InvalidOpcode)
      else otherwise)"

definition executeOpCode :: "(byte list \<Rightarrow> byte list) \<Rightarrow> OpCode \<Rightarrow> Executor \<Rightarrow> op_result" where
  "executeOpCode kec op e =
     (if op = OP_STOP then Inr (e, None)
      else exec_arith op e (exec_compare op e (exec_bitwise op e (exec_hash kec op e
        (exec_env op e (exec_block op e (exec_memory op e (exec_storage op e (exec_flow op e
          (exec_stackops op e (exec_log op e (exec_halt op e
            (Inr (e, Some (UnimplementedOpcode (GetOpCodeName op))))))))))))))))"

subsection \<open>The execution loop\<close>

text \<open>Recording the trace of an instruction, and paying for it.\<close>

definition exec_trace :: "OpCodeInfo \<Rightarrow> Executor \<Rightarrow> Executor" where
  "exec_trace info e =
     (if ex_tracing e then
        e\<lparr>ex_traces := ex_traces e @
            [\<lparr>tr_PC = cx_PC (ex_ctx e), tr_OpCode = oi_Name info, tr_Gas = cx_Gas (ex_ctx e),
              tr_GasCost = oi_Gas info, tr_Depth = cx_Depth (ex_ctx e),
              tr_Stack = stackToStrings e, tr_Memory = [], tr_Error = []\<rparr>]\<rparr>
      else e)"

definition exec_charge :: "OpCodeInfo \<Rightarrow> Executor \<Rightarrow> Executor" where
  "exec_charge info e =
     e\<lparr>ex_ctx := (ex_ctx e)\<lparr>cx_Gas := cx_Gas (ex_ctx e) - oi_Gas info\<rparr>\<rparr>"

text \<open>The end of an iteration, after the instruction has returned.\<close>

definition exec_finish ::
  "OpCode \<Rightarrow> OpCodeInfo \<Rightarrow> Executor \<Rightarrow> ExecutionResult \<Rightarrow> EvmError option
     \<Rightarrow> bool \<times> Executor \<times> ExecutionResult" where
  "exec_finish op info e r err =
     (case err of
        Some x \<Rightarrow> (False, e, r\<lparr>er_Success := False, er_Error := Some x\<rparr>)
      | None \<Rightarrow>
          if oi_IsTerminal info then
            (False, e,
             (if op = OP_RETURN \<or> op = OP_REVERT then
                (let r = r\<lparr>er_ReturnData := cx_ReturnData (ex_ctx e)\<rparr>
                 in if op = OP_REVERT then r\<lparr>er_Success := False\<rparr> else r)
              else r))
          else if \<not> oi_IsJump info then
            (True, set_pc (cx_PC (ex_ctx e) + (1 + of_nat (oi_ImmSize info))) e, r)
          else (True, e, r))"

text \<open>One iteration of the loop; the flag says whether the loop goes on.\<close>

definition exec_step ::
  "(byte list \<Rightarrow> byte list) \<Rightarrow> Executor \<Rightarrow> ExecutionResult
     \<Rightarrow> (bool \<times> Executor \<times> ExecutionResult) go" where
  "exec_step kec e r =
     (let pc = cx_PC (ex_ctx e) in
      if length (ex_code e) \<le> unat pc then Inr (False, e, r)
      else
        let op = ex_code e ! unat pc in
        case GetOpCodeInfo op of
          None \<Rightarrow> Inr (False, e, r\<lparr>er_Success := False, er_Error := Some (InvalidOpcodeAt op pc)\<rparr>)
        | Some info \<Rightarrow>
            if cx_Gas (ex_ctx e) < oi_Gas info then
              Inr (False, e, r\<lparr>er_Success := False, er_Error := Some OutOfGas\<rparr>)
            else
              let e = exec_charge info (exec_trace info e);
                  r = r\<lparr>er_GasUsed := er_GasUsed r + oi_Gas info\<rparr>
              in go_bind (executeOpCode kec op e) (\<lambda>(e, err). Inr (exec_finish op info e r err)))"

end
