(* ===== verification/EvmExecute.thy ===== *)
theory EvmExecute
  imports EvmExecutor
begin

section \<open>Running bytecode: what an instruction may touch, and the execution loop\<close>

text \<open>
  \<open>op_post Q r\<close> states \<open>Q\<close> of every normal return of an instruction.  With it the
  groups of the \<open>switch\<close> are shown one by one to keep everything outside the stack, the
  memory, the return data, the program counter, the storage of the executing account and the
  log (\<open>ex_frame\<close>).  In particular no instruction changes the gas counter, so the loop, which
  pays for every instruction that lets it go on, terminates: \<open>exec_loop\<close> is a total function.
\<close>

definition op_post :: "(Executor \<Rightarrow> EvmError option \<Rightarrow> bool) \<Rightarrow> op_result \<Rightarrow> bool" where
  "op_post Q r = (case r of Inl _ \<Rightarrow> True | Inr (e, err) \<Rightarrow> Q e err)"

lemma op_post_Inl [simp, intro]: "op_post Q (Inl p)"
  by (simp add: op_post_def)

lemma op_post_Inr [simp]: "op_post Q (Inr x) = Q (fst x) (snd x)"
  by (cases x) (simp add: op_post_def)

lemma op_post_bind: "(\<And>x. m = Inr x \<Longrightarrow> op_post Q (f x)) \<Longrightarrow> op_post Q (go_bind m f)"
  by (cases m) auto

lemma op_postD: "op_post Q r \<Longrightarrow> r = Inr (e, err) \<Longrightarrow> Q e err"
  by simp

lemma op_post_push:
  assumes "Q (set_stack (v # ex_stack e) e) None"
    and "Q (set_stack (ex_stack e) e) (Some StackOverflow)"
  shows "op_post Q (ex_push v e)"
  using assms by (simp add: ex_push_def Stack_Push_def)

lemma op_post_push_ptr: "(\<And>v. p = Some v \<Longrightarrow> op_post Q (ex_push v e)) \<Longrightarrow> op_post Q (ex_push_ptr p e)"
  by (cases p) (simp_all add: ex_push_ptr_def)

lemma op_post_pop1:
  "(\<And>v s. ex_stack e = v # s \<Longrightarrow> op_post Q (k v (set_stack s e))) \<Longrightarrow> op_post Q (ex_pop1 e k)"
  by (cases "ex_stack e") (simp_all add: ex_pop1_def ex_pop_def)

lemma op_post_mem_get:
  "(\<And>data m. op_post Q (k data (set_mem m e))) \<Longrightarrow> op_post Q (ex_mem_get off sz e k)"
  unfolding ex_mem_get_def by (rule op_post_bind) (simp split: prod.split)

lemma op_post_if:
  "(c \<Longrightarrow> op_post Q a) \<Longrightarrow> (\<not> c \<Longrightarrow> op_post Q b) \<Longrightarrow> op_post Q (if c then a else b)"
  by simp

lemmas op_post_rules =
  op_post_if op_post_push op_post_push_ptr op_post_pop1 op_post_mem_get op_post_bind

subsection \<open>What an instruction leaves unchanged\<close>

text \<open>The context without the parts the instructions work on.\<close>

definition ctx_env :: "ExecutionContext \<Rightarrow> ExecutionContext" where
  "ctx_env c = c\<lparr>cx_Stack := [], cx_Memory := [], cx_ReturnData := [], cx_PC := 0\<rparr>"

definition ex_frame :: "Executor \<Rightarrow> Executor \<Rightarrow> bool" where
  "ex_frame e e' \<longleftrightarrow>
     ctx_env (ex_ctx e') = ctx_env (ex_ctx e) \<and> ex_code e' = ex_code e \<and>
     ex_traces e' = ex_traces e \<and> ex_tracing e' = ex_tracing e \<and>
     (\<forall>b. b \<noteq> cx_Address (ex_ctx e) \<longrightarrow> GetAccount (ex_state e') b = GetAccount (ex_state e) b) \<and>
     (\<forall>b. GetBalance (ex_state e') b = GetBalance (ex_state e) b) \<and>
     (\<forall>b. GetCode (ex_state e') b = GetCode (ex_state e) b) \<and>
     (\<exists>ls. GetLogs (ex_state e') = GetLogs (ex_state e) @ ls)"

lemma ctx_env_same:
  assumes "ctx_env c = ctx_env d"
  shows "cx_Gas c = cx_Gas d" "cx_Address c = cx_Address d" "cx_Depth c = cx_Depth d"
    "cx_Input c = cx_Input d" "cx_Caller c = cx_Caller d" "cx_Value c = cx_Value d"
    "cx_GasPrice c = cx_GasPrice d" "cx_BlockNumber c = cx_BlockNumber d"
    "cx_Difficulty c = cx_Difficulty d" "cx_BaseFee c = cx_BaseFee d"
    "cx_Origin c = cx_Origin d" "cx_Coinbase c = cx_Coinbase d"
    "cx_BlockTimestamp c = cx_BlockTimestamp d" "cx_BlockGasLimit c = cx_BlockGasLimit d"
  using arg_cong [OF assms, of cx_Gas] arg_cong [OF assms, of cx_Address]
    arg_cong [OF assms, of cx_Depth] arg_cong [OF assms, of cx_Input]
    arg_cong [OF assms, of cx_Caller] arg_cong [OF assms, of cx_Value]
    arg_cong [OF assms, of cx_GasPrice] arg_cong [OF assms, of cx_BlockNumber]
    arg_cong [OF assms, of cx_Difficulty] arg_cong [OF assms, of cx_BaseFee]
    arg_cong [OF assms, of cx_Origin] arg_cong [OF assms, of cx_Coinbase]
    arg_cong [OF assms, of cx_BlockTimestamp] arg_cong [OF assms, of cx_BlockGasLimit]
  by (simp_all add: ctx_env_def)

lemma ctx_env_upd [simp]:
  "ctx_env (c\<lparr>cx_Stack := s\<rparr>) = ctx_env c"
  "ctx_env (c\<lparr>cx_Memory := m\<rparr>) = ctx_env c"
  "ctx_env (c\<lparr>cx_ReturnData := d\<rparr>) = ctx_env c"
  "ctx_env (c\<lparr>cx_PC := p\<rparr>) = ctx_env c"
  by (simp_all add: ctx_env_def)

lemma ex_frame_refl [simp, intro]: "ex_frame e e"
  by (simp add: ex_frame_def)

lemma ex_frame_trans: "ex_frame e f \<Longrightarrow> ex_frame f g \<Longrightarrow> ex_frame e g"
  unfolding ex_frame_def by (force dest: ctx_env_same(2))

lemma ex_frame_set [intro]:
  assumes "ex_frame e f"
  shows "ex_frame e (set_stack s f)" "ex_frame e (set_mem m f)" "ex_frame e (set_pc p f)"
    "ctx_env c = ctx_env (ex_ctx f) \<Longrightarrow> ex_frame e (f\<lparr>ex_ctx := c\<rparr>)"
  using assms by (auto simp: ex_frame_def set_stack_def set_mem_def set_pc_def)

lemma ex_frame_SetStorage [intro]:
  assumes "ex_frame e f" and "a = cx_Address (ex_ctx f)" and "s = ex_state f"
  shows "ex_frame e (f\<lparr>ex_state := SetStorage a k v s\<rparr>)"
  using assms ctx_env_same(2) [of "ex_ctx f" "ex_ctx e"] by (auto simp: ex_frame_def)

lemma ex_frame_AddLog [intro]:
  assumes "ex_frame e f" and "s = ex_state f"
  shows "ex_frame e (f\<lparr>ex_state := AddLog l s\<rparr>)"
  using assms by (auto simp: ex_frame_def GetBalance_def GetCode_def)

lemma set_get_simps [simp]:
  "ex_ctx (set_stack s e) = (ex_ctx e)\<lparr>cx_Stack := s\<rparr>"
  "ex_ctx (set_mem m e) = (ex_ctx e)\<lparr>cx_Memory := m\<rparr>"
  "ex_ctx (set_pc p e) = (ex_ctx e)\<lparr>cx_PC := p\<rparr>"
  "ex_state (set_stack s e) = ex_state e" "ex_state (set_mem m e) = ex_state e"
  "ex_state (set_pc p e) = ex_state e"
  "ex_code (set_stack s e) = ex_code e" "ex_code (set_mem m e) = ex_code e"
  "ex_code (set_pc p e) = ex_code e"
  "ex_traces (set_stack s e) = ex_traces e" "ex_traces (set_mem m e) = ex_traces e"
  "ex_traces (set_pc p e) = ex_traces e"
  "ex_tracing (set_stack s e) = ex_tracing e" "ex_tracing (set_mem m e) = ex_tracing e"
  "ex_tracing (set_pc p e) = ex_tracing e"
  by (simp_all add: set_stack_def set_mem_def set_pc_def)

lemma set_twice [simp]:
  "set_stack s (set_stack s' e) = set_stack s e" "set_mem m (set_mem m' e) = set_mem m e"
  "set_pc p (set_pc p' e) = set_pc p e"
  by (simp_all add: set_stack_def set_mem_def set_pc_def)

lemma set_stack_same [simp]: "set_stack (ex_stack e) e = e"
  by (simp add: set_stack_def)

subsection \<open>Closed properties of the executor\<close>

text \<open>
  Every instruction other than a jump changes the executor through six kinds of updates.  A
  property of the executor closed under them is kept by every instruction; the groups of the
  \<open>switch\<close> are shown once, for any such property.
\<close>

locale op_closed =
  fixes P :: "Executor \<Rightarrow> bool"
  assumes P_stack: "P e \<Longrightarrow> P (set_stack s e)"
    and P_mem: "P e \<Longrightarrow> P (set_mem m e)"
    and P_ret: "P e \<Longrightarrow> P (e\<lparr>ex_ctx := (ex_ctx e)\<lparr>cx_ReturnData := d\<rparr>\<rparr>)"
    and P_storage: "P e \<Longrightarrow> P (e\<lparr>ex_state := SetStorage (cx_Address (ex_ctx e)) k v (ex_state e)\<rparr>)"
    and P_log: "P e \<Longrightarrow> P (e\<lparr>ex_state := AddLog l (ex_state e)\<rparr>)"
begin

abbreviation keeps :: "op_result \<Rightarrow> bool" where
  "keeps \<equiv> op_post (\<lambda>e' _. P e')"

lemma keeps_push: "P e \<Longrightarrow> keeps (ex_push v e)"
  by (rule op_post_push) (simp_all add: P_stack del: set_stack_same)

lemma keeps_push_ptr: "P e \<Longrightarrow> keeps (ex_push_ptr p e)"
  by (rule op_post_push_ptr) (rule keeps_push)

lemma keeps_pop1:
  "P e \<Longrightarrow> (\<And>v e'. P e' \<Longrightarrow> keeps (k v e')) \<Longrightarrow> keeps (ex_pop1 e k)"
  by (rule op_post_pop1) (simp add: P_stack)

lemma keeps_pop2:
  "P e \<Longrightarrow> (\<And>a b e'. P e' \<Longrightarrow> keeps (k a b e')) \<Longrightarrow> keeps (ex_pop2 e k)"
  unfolding ex_pop2_def by (intro keeps_pop1)

lemma keeps_pop3:
  "P e \<Longrightarrow> (\<And>a b c e'. P e' \<Longrightarrow> keeps (k a b c e')) \<Longrightarrow> keeps (ex_pop3 e k)"
  unfolding ex_pop3_def by (intro keeps_pop1 keeps_pop2)

lemma keeps_cmp:
  "P e \<Longrightarrow> (\<And>c e'. P e' \<Longrightarrow> keeps (k c e')) \<Longrightarrow> keeps (ex_cmp e k)"
  unfolding ex_cmp_def ex_pop_def by (auto split: prod.split intro!: op_post_bind P_stack)

lemma keeps_mem_get:
  "P e \<Longrightarrow> (\<And>data e'. P e' \<Longrightarrow> keeps (k data e')) \<Longrightarrow> keeps (ex_mem_get off sz e k)"
  by (rule op_post_mem_get) (simp add: P_mem)

lemmas keeps_rules =
  op_post_if keeps_push keeps_push_ptr keeps_pop3 keeps_pop2 keeps_pop1 keeps_cmp keeps_mem_get op_post_bind

lemmas P_updates = P_stack P_mem P_ret P_storage P_log

lemma keeps_copy_to_mem: "P e \<Longrightarrow> keeps (ex_copy_to_mem src e)"
  unfolding ex_copy_to_mem_def Let_def by (intro keeps_rules) (simp_all add: P_mem)

lemma keeps_push_data: "P e \<Longrightarrow> keeps (ex_push_data n e)"
  unfolding ex_push_data_def Let_def by (intro keeps_rules)

lemma keeps_return_data: "P e \<Longrightarrow> keeps (ex_return_data e err)"
  unfolding ex_return_data_def by (intro keeps_rules) (simp_all add: P_ret)

lemma pop_topics_keeps: "P e \<Longrightarrow> pop_topics n e = Inr (ts, e') \<Longrightarrow> P e'"
proof (induction n arbitrary: e ts e')
  case (Suc n)
  from Suc.prems(2) obtain v s us where s: "ex_stack e = v # s"
    and p: "pop_topics n (set_stack s e) = Inr (us, e')"
    by (auto simp: ex_pop1_def ex_pop_def go_bind_eq_Inr split: prod.splits)
       (cases "ex_stack e"; auto)
  from P_stack [OF Suc.prems(1)] p show ?case by (rule Suc.IH)
qed simp

lemma keeps_arith: "P e \<Longrightarrow> keeps d \<Longrightarrow> keeps (exec_arith op e d)"
  unfolding exec_arith_def Let_def if_distribR by (intro keeps_rules)

lemma keeps_compare: "P e \<Longrightarrow> keeps d \<Longrightarrow> keeps (exec_compare op e d)"
  unfolding exec_compare_def if_distribR by (intro keeps_rules)

lemma keeps_bitwise: "P e \<Longrightarrow> keeps d \<Longrightarrow> keeps (exec_bitwise op e d)"
  unfolding exec_bitwise_def if_distribR by (intro keeps_rules)

lemma keeps_hash: "P e \<Longrightarrow> keeps d \<Longrightarrow> keeps (exec_hash kec op e d)"
  unfolding exec_hash_def by (intro keeps_rules)

lemma keeps_env: "P e \<Longrightarrow> keeps d \<Longrightarrow> keeps (exec_env op e d)"
  unfolding exec_env_def Let_def by (intro keeps_copy_to_mem keeps_rules)

lemma keeps_block: "P e \<Longrightarrow> keeps d \<Longrightarrow> keeps (exec_block op e d)"
  unfolding exec_block_def ex_pop_def Let_def
  by (intro keeps_rules) (auto split: prod.split intro!: keeps_push P_stack)

lemma keeps_memory: "P e \<Longrightarrow> keeps d \<Longrightarrow> keeps (exec_memory op e d)"
  unfolding exec_memory_def
  by (intro keeps_rules) (auto simp: ex_pop_def P_mem P_stack split: prod.split)

lemma keeps_storage: "P e \<Longrightarrow> keeps d \<Longrightarrow> keeps (exec_storage op e d)"
  unfolding exec_storage_def by (intro keeps_rules) (simp_all add: P_storage)

lemma keeps_stackops: "P e \<Longrightarrow> keeps d \<Longrightarrow> keeps (exec_stackops op e d)"
  unfolding exec_stackops_def
  by (intro keeps_push_data keeps_rules) (auto split: prod.split intro: P_stack)

lemma keeps_log: "P e \<Longrightarrow> keeps d \<Longrightarrow> keeps (exec_log op e d)"
  unfolding exec_log_def
  by (intro keeps_rules) (auto split: prod.split intro!: P_log elim!: pop_topics_keeps [rotated])

lemma keeps_halt: "P e \<Longrightarrow> keeps d \<Longrightarrow> keeps (exec_halt op e d)"
  unfolding exec_halt_def by (intro keeps_return_data op_post_if) simp_all

lemma keeps_flow_no_jump:
  "P e \<Longrightarrow> keeps d \<Longrightarrow> op \<noteq> OP_JUMP \<Longrightarrow> op \<noteq> OP_JUMPI \<Longrightarrow> keeps (exec_flow op e d)"
  unfolding exec_flow_def by (intro keeps_rules) simp_all

lemmas keeps_groups =
  keeps_arith keeps_compare keeps_bitwise keeps_hash keeps_env keeps_block keeps_memory
  keeps_storage keeps_stackops keeps_log keeps_halt

lemma executeOpCode_no_jump:
  assumes "P e" and "op \<noteq> OP_JUMP" and "op \<noteq> OP_JUMPI"
    and "executeOpCode kec op e = Inr (e', err)"
  shows "P e'"
proof -
  have "keeps (executeOpCode kec op e)"
    unfolding executeOpCode_def
    by (intro op_post_if keeps_groups keeps_flow_no_jump) (simp_all add: assms)
  with assms(4) show ?thesis by simp
qed

end

text \<open>A property that does not depend on the program counter is also kept by jumps.\<close>

locale op_closed_pc = op_closed +
  assumes P_pc: "P e \<Longrightarrow> P (set_pc p e)"
begin

lemma keeps_jump: "P e \<Longrightarrow> keeps (ex_jump d e)"
  by (simp add: ex_jump_def Let_def P_pc)

lemma keeps_flow: "P e \<Longrightarrow> keeps d \<Longrightarrow> keeps (exec_flow op e d)"
  unfolding exec_flow_def by (intro keeps_jump keeps_rules) (simp_all add: P_pc)

lemma executeOpCode_keeps:
  assumes "P e" and "executeOpCode kec op e = Inr (e', err)"
  shows "P e'"
proof -
  have "keeps (executeOpCode kec op e)"
    unfolding executeOpCode_def by (intro op_post_if keeps_groups keeps_flow) (simp_all add: assms)
  with assms(2) show ?thesis by simp
qed

end

interpretation frame: op_closed_pc "ex_frame e0" for e0
  by unfold_locales (blast intro: ex_frame_set ex_frame_SetStorage ex_frame_AddLog ctx_env_upd)+

interpretation same_pc: op_closed "\<lambda>e. cx_PC (ex_ctx e) = p" for p
  by unfold_locales simp_all

lemma executeOpCode_frame:
  "executeOpCode kec op e = Inr (e', err) \<Longrightarrow> ex_frame e e'"
  by (rule frame.executeOpCode_keeps [OF ex_frame_refl])

subsection \<open>The loop\<close>

lemma exec_charge_simps [simp]:
  "ex_ctx (exec_charge i e) = (ex_ctx e)\<lparr>cx_Gas := cx_Gas (ex_ctx e) - oi_Gas i\<rparr>"
  "ex_code (exec_charge i e) = ex_code e" "ex_state (exec_charge i e) = ex_state e"
  "ex_traces (exec_charge i e) = ex_traces e" "ex_tracing (exec_charge i e) = ex_tracing e"
  by (simp_all add: exec_charge_def)

lemma exec_trace_simps [simp]:
  "ex_ctx (exec_trace i e) = ex_ctx e" "ex_code (exec_trace i e) = ex_code e"
  "ex_state (exec_trace i e) = ex_state e" "ex_tracing (exec_trace i e) = ex_tracing e"
  by (simp_all add: exec_trace_def)

text \<open>An iteration either stops before the instruction or runs it.\<close>

lemma exec_step_cases:
  assumes "exec_step kec e r = Inr (go, e', r')"
  obtains (stop) "\<not> go" "e' = e" "r' = r" "length (ex_code e) \<le> unat (cx_PC (ex_ctx e))"
  | (fail) x where "\<not> go" "e' = e" "r' = r\<lparr>er_Success := False, er_Error := Some x\<rparr>"
  | (run) op info e2 err where "unat (cx_PC (ex_ctx e)) < length (ex_code e)"
      "op = ex_code e ! unat (cx_PC (ex_ctx e))" "GetOpCodeInfo op = Some info"
      "oi_Gas info \<le> cx_Gas (ex_ctx e)"
      "executeOpCode kec op (exec_charge info (exec_trace info e)) = Inr (e2, err)"
      "(go, e', r') = exec_finish op info e2 (r\<lparr>er_GasUsed := er_GasUsed r + oi_Gas info\<rparr>) err"
  using assms unfolding exec_step_def Let_def
  by (auto split: if_splits option.splits simp: go_bind_eq_Inr not_le not_less)

lemma exec_finish_simps:
  assumes "(go, e', r') = exec_finish op info e2 r err"
  shows "go \<longleftrightarrow> err = None \<and> \<not> oi_IsTerminal info"
    and "e' = (if go \<and> \<not> oi_IsJump info
                then set_pc (cx_PC (ex_ctx e2) + (1 + of_nat (oi_ImmSize info))) e2 else e2)"
    and "er_GasUsed r' = er_GasUsed r"
    and "er_Error r' = (case err of None \<Rightarrow> er_Error r | Some x \<Rightarrow> Some x)"
    and "er_Success r' \<longleftrightarrow> er_Success r \<and> err = None \<and> \<not> (oi_IsTerminal info \<and> op = OP_REVERT)"
    and "er_ReturnData r' = (if err = None \<and> oi_IsTerminal info \<and> (op = OP_RETURN \<or> op = OP_REVERT)
           then cx_ReturnData (ex_ctx e2) else er_ReturnData r)"
  using assms by (auto simp: exec_finish_def Let_def split: option.splits if_splits)

lemma executeOpCode_gas:
  assumes "executeOpCode kec op e = Inr (e', err)"
  shows "cx_Gas (ex_ctx e') = cx_Gas (ex_ctx e)"
  using executeOpCode_frame [OF assms] by (auto simp: ex_frame_def dest: ctx_env_same(1))

lemma exec_step_gas_less:
  assumes "exec_step kec e r = Inr (True, e', r')"
  shows "unat (cx_Gas (ex_ctx e')) < unat (cx_Gas (ex_ctx e))"
  using assms
proof (cases rule: exec_step_cases)
  case (run op info e2 err)
  note fin = exec_finish_simps [OF run(6)]
  have "0 < oi_Gas info" using non_terminal_costs_gas [OF run(3)] fin(1) by simp
  moreover have "cx_Gas (ex_ctx e') = cx_Gas (ex_ctx e) - oi_Gas info"
    using executeOpCode_gas [OF run(5)] fin(2) by simp
  ultimately show ?thesis using run(4) by (simp add: unat_sub word_less_nat_alt word_le_nat_alt)
qed simp_all

lemma go_bind_cong [fundef_cong]:
  "m = n \<Longrightarrow> (\<And>x. n = Inr x \<Longrightarrow> f x = g x) \<Longrightarrow> go_bind m f = go_bind n g"
  by (cases n) auto

function exec_loop ::
  "(byte list \<Rightarrow> byte list) \<Rightarrow> Executor \<Rightarrow> ExecutionResult \<Rightarrow> (Executor \<times> ExecutionResult) go" where
  "exec_loop kec e r = go_bind (exec_step kec e r)
     (\<lambda>(goes_on, e, r). if goes_on then exec_loop kec e r else Inr (e, r))"
  by pat_completeness auto
termination
  by (relation "measure (\<lambda>(kec, e, r). unat (cx_Gas (ex_ctx e)))") (auto intro: exec_step_gas_less)

declare exec_loop.simps [simp del]

text \<open>The state and the result a run starts with.\<close>

abbreviation ex_load :: "byte list \<Rightarrow> ExecutionContext \<Rightarrow> Executor \<Rightarrow> Executor" where
  "ex_load code ctx e \<equiv> e\<lparr>ex_code := code, ex_ctx := ctx, ex_traces := []\<rparr>"

abbreviation empty_result :: ExecutionResult where
  "empty_result \<equiv>
     \<lparr>er_Success = True, er_ReturnData = [], er_GasUsed = 0, er_GasLeft = 0, er_Logs = [],
      er_Error = None\<rparr>"

definition Execute ::
  "(byte list \<Rightarrow> byte list) \<Rightarrow> byte list \<Rightarrow> ExecutionContext \<Rightarrow> Executor
     \<Rightarrow> (Executor \<times> ExecutionResult) go" where
  "Execute kec code ctx e =
     go_bind (exec_loop kec (ex_load code ctx e) empty_result)
       (\<lambda>(e, result). Inr (e, result\<lparr>er_GasLeft := cx_Gas (ex_ctx e),
                                     er_Logs := GetLogs (ex_state e)\<rparr>))"

text \<open>
  Loop rule: what holds at the start and is kept by every iteration holds at the end.
\<close>

lemma exec_loop_inv:
  assumes "exec_loop kec e r = Inr (e', r')" and "I True e r"
    and "\<And>go e r e' r'. I True e r \<Longrightarrow> exec_step kec e r = Inr (go, e', r') \<Longrightarrow> I go e' r'"
  shows "I False e' r'"
  using assms(1, 2)
proof (induction "unat (cx_Gas (ex_ctx e))" arbitrary: e r rule: less_induct)
  case less
  from less.prems(1) obtain goes_on e1 r1 where s: "exec_step kec e r = Inr (goes_on, e1, r1)"
    and rest: "(if goes_on then exec_loop kec e1 r1 else Inr (e1, r1)) = Inr (e', r')"
    by (auto simp: exec_loop.simps [of kec e r] go_bind_eq_Inr)
  have inv: "I goes_on e1 r1" using assms(3) [OF less.prems(2) s] .
  show ?case
  proof (cases goes_on)
    case True
    show ?thesis using less.hyps [OF exec_step_gas_less] s rest inv True by simp
  qed (use rest inv in simp)
qed

lemma ExecuteE:
  assumes "Execute kec code ctx e = Inr (e', res)"
  obtains r where "exec_loop kec (ex_load code ctx e) empty_result = Inr (e', r)"
    "res = r\<lparr>er_GasLeft := cx_Gas (ex_ctx e'), er_Logs := GetLogs (ex_state e')\<rparr>"
  using assms by (auto simp: Execute_def go_bind_eq_Inr)

end
