(* ===== verification/EvmRun.thy ===== *)
theory EvmRun
  imports EvmExecute
begin

section \<open>What a run of the interpreter guarantees\<close>

text \<open>
  Properties of \<open>Execute\<close> for all bytecode: the gas is accounted for exactly, the run
  touches nothing but the storage of its own account and the log, an error and a success
  exclude each other, the trace explains the gas, and control goes only to the next
  instruction or to a \<open>JUMPDEST\<close>.  The invariants of the loop are shown for one
  iteration and lifted by \<open>exec_loop_inv\<close>.
\<close>

subsection \<open>A program for the examples\<close>

text \<open>\<open>PUSH1 2; PUSH1 3; ADD; STOP\<close>, with no hash function needed.\<close>

definition demo_code :: "byte list" where
  "demo_code = [0x60, 2, 0x60, 3, 0x01, 0x00]"

definition demo_ctx :: ExecutionContext where
  "demo_ctx = NewExecutionContext\<lparr>cx_Gas := 100\<rparr>"

definition demo_exec :: Executor where
  "demo_exec = EnableTracing (NewExecutor NewStateDB)"

definition demo_kec :: "byte list \<Rightarrow> byte list" where
  "demo_kec bs = bs"

definition returns :: "'a go \<Rightarrow> bool" where
  "returns r = (case r of Inl _ \<Rightarrow> False | Inr _ \<Rightarrow> True)"

lemma returnsE: "returns r \<Longrightarrow> (\<And>x. r = Inr x \<Longrightarrow> P) \<Longrightarrow> P"
  by (cases r) (auto simp: returns_def)

lemma demo_returns: "returns (Execute demo_kec demo_code demo_ctx demo_exec)"
  by code_simp

lemma demo_run:
  obtains e' res where "Execute demo_kec demo_code demo_ctx demo_exec = Inr (e', res)"
  using demo_returns by (auto elim!: returnsE)

lemma demo_simps [simp]:
  "cx_Gas demo_ctx = 100" "cx_Address demo_ctx = zero_addr" "ex_tracing demo_exec"
  "ex_state demo_exec = NewStateDB"
  by (simp_all add: demo_ctx_def demo_exec_def NewExecutionContext_def EnableTracing_def NewExecutor_def)

subsection \<open>Gas\<close>

lemma unat_add_charge:
  fixes u c g :: u64
  assumes "unat u + unat g = G" and "G < 2 ^ 64" and "unat c \<le> unat g"
  shows "unat (u + c) = unat u + unat c"
  using assms by (intro unat_add_lem [THEN iffD1]) simp

lemma exec_step_gas:
  assumes "exec_step kec e r = Inr (goes_on, e', r')"
    and "unat (er_GasUsed r) + unat (cx_Gas (ex_ctx e)) = g" and "g < 2 ^ 64"
  shows "unat (er_GasUsed r') + unat (cx_Gas (ex_ctx e')) = g"
  using assms(1)
proof (cases rule: exec_step_cases)
  case (run op info e2 err)
  note fin = exec_finish_simps [OF run(6)]
  have gas: "cx_Gas (ex_ctx e') = cx_Gas (ex_ctx e) - oi_Gas info"
    using executeOpCode_gas [OF run(5)] fin(2) by simp
  have le: "unat (oi_Gas info) \<le> unat (cx_Gas (ex_ctx e))"
    using run(4) by (simp add: word_le_nat_alt)
  then have "unat (er_GasUsed r + oi_Gas info) = unat (er_GasUsed r) + unat (oi_Gas info)"
    by (rule unat_add_charge [OF assms(2, 3)])
  with gas le fin(3) run(4) assms(2) show ?thesis by (simp add: unat_sub)
qed (use assms in simp_all)

text \<open>C16. Gas accounting.  When a run returns, the gas it used and the gas it left add up, without
  wrapping, to the gas of the context it started with; nothing is charged twice or lost, also when
  the run fails.\<close>

theorem Execute_gas_exact:
  assumes "Execute kec code ctx e = Inr (e', res)"
  shows "unat (er_GasUsed res) + unat (er_GasLeft res) = unat (cx_Gas ctx)"
proof -
  from assms obtain r where loop: "exec_loop kec (ex_load code ctx e) empty_result = Inr (e', r)" and res: "er_GasUsed res = er_GasUsed r"
      "er_GasLeft res = cx_Gas (ex_ctx e')"
    by (rule ExecuteE) simp
  have lt: "unat (cx_Gas ctx) < 2 ^ 64" using unsigned_less [of "cx_Gas ctx"] by simp
  have "unat (er_GasUsed r) + unat (cx_Gas (ex_ctx e')) = unat (cx_Gas ctx)"
    by (rule exec_loop_inv [OF loop,
          where I = "\<lambda>_ e r. unat (er_GasUsed r) + unat (cx_Gas (ex_ctx e)) = unat (cx_Gas ctx)"])
       (simp, blast intro: exec_step_gas lt)
  with res show ?thesis by simp
qed

theorem Execute_gas_exact_witness:
  "\<exists>e' res. Execute demo_kec demo_code demo_ctx demo_exec = Inr (e', res) \<and> 
     unat (er_GasUsed res) + unat (er_GasLeft res) = 100"
proof -
  obtain e' res where run: "Execute demo_kec demo_code demo_ctx demo_exec = Inr (e', res)"
    by (rule demo_run)
  from Execute_gas_exact [OF run] show ?thesis using run by auto
qed

subsection \<open>What a run may change\<close>

lemma ex_frame_finish:
  assumes "(goes_on, e', r') = exec_finish op info e2 r err" and "ex_frame e e2"
  shows "ex_frame e e'"
  using exec_finish_simps(2) [OF assms(1)] assms(2) by (auto intro: ex_frame_set)

definition run_frame :: "Executor \<Rightarrow> Executor \<Rightarrow> bool" where
  "run_frame e e' \<longleftrightarrow>
     cx_Address (ex_ctx e') = cx_Address (ex_ctx e) \<and> ex_code e' = ex_code e \<and>
     ex_tracing e' = ex_tracing e \<and>
     (\<forall>b. b \<noteq> cx_Address (ex_ctx e) \<longrightarrow> GetAccount (ex_state e') b = GetAccount (ex_state e) b) \<and>
     (\<forall>b. GetBalance (ex_state e') b = GetBalance (ex_state e) b) \<and>
     (\<forall>b. GetCode (ex_state e') b = GetCode (ex_state e) b) \<and>
     (\<exists>ls. GetLogs (ex_state e') = GetLogs (ex_state e) @ ls)"

lemma run_frame_refl: "run_frame e e"
  by (simp add: run_frame_def)

lemma run_frame_trans: "run_frame e f \<Longrightarrow> run_frame f g \<Longrightarrow> run_frame e g"
  by (force simp: run_frame_def)

lemma exec_step_frame:
  assumes "exec_step kec e r = Inr (goes_on, e', r')"
  shows "run_frame e e'"
  using assms
proof (cases rule: exec_step_cases)
  case (run op info e2 err)
  have "ex_frame (exec_charge info (exec_trace info e)) e'"
    by (rule ex_frame_finish [OF run(6) executeOpCode_frame [OF run(5)]])
  then show ?thesis
    by (auto simp: ex_frame_def run_frame_def dest: ctx_env_same(2))
qed (simp_all add: run_frame_refl)

text \<open>C39. Isolation.  Whatever bytecode is run, the accounts of other addresses are untouched, no
  balance and no code changes, and the log is only extended; the result carries the log.\<close>

theorem Execute_isolated:
  assumes "Execute kec code ctx e = Inr (e', res)"
  shows "(\<forall>b. b \<noteq> cx_Address ctx \<longrightarrow> GetAccount (ex_state e') b = GetAccount (ex_state e) b) \<and>
    (\<forall>b. GetBalance (ex_state e') b = GetBalance (ex_state e) b) \<and>
    (\<forall>b. GetCode (ex_state e') b = GetCode (ex_state e) b) \<and>
    GetLogs (ex_state e') = er_Logs res \<and> (\<exists>ls. er_Logs res = GetLogs (ex_state e) @ ls)"
proof -
  let ?e = "ex_load code ctx e"
  from assms obtain r where loop: "exec_loop kec ?e empty_result = Inr (e', r)" and res: "er_Logs res = GetLogs (ex_state e')"
    by (rule ExecuteE) simp
  have "run_frame ?e e'"
    by (rule exec_loop_inv [OF loop, where I = "\<lambda>_ e' _. run_frame ?e e'"])
       (rule run_frame_refl, erule run_frame_trans, erule exec_step_frame)
  with res show ?thesis by (auto simp: run_frame_def)
qed

theorem Execute_isolated_witness:
  "\<exists>e' res. Execute demo_kec demo_code demo_ctx demo_exec = Inr (e', res) \<and> 
     GetAccount (ex_state e') [1] = None \<and> GetBalance (ex_state e') zero_addr = 0"
proof -
  obtain e' res where run: "Execute demo_kec demo_code demo_ctx demo_exec = Inr (e', res)"
    by (rule demo_run)
  have "[1] \<noteq> zero_addr" by code_simp
  then have "GetAccount (ex_state e') [1] = GetAccount NewStateDB [1]"
    "GetBalance (ex_state e') zero_addr = GetBalance NewStateDB zero_addr"
    using Execute_isolated [OF run] by simp_all
  with run show ?thesis by (auto simp: GetAccount_def GetBalance_def NewStateDB_def)
qed

subsection \<open>Success, errors and return data\<close>

lemma executeOpCode_REVERT: "executeOpCode kec OP_REVERT e = ex_return_data e (Some ExecutionReverted)"
  by (simp add: executeOpCode_def exec_arith_def exec_compare_def exec_bitwise_def exec_hash_def
      exec_env_def exec_block_def exec_memory_def exec_storage_def exec_flow_def exec_stackops_def
      exec_log_def exec_halt_def IsPush_def IsDup_def IsSwap_def IsLog_def Let_def)

lemma ex_return_data_err: "ex_return_data e err = Inr (e', x) \<Longrightarrow> x = err"
  by (auto simp: ex_return_data_def ex_pop2_def ex_pop1_def ex_pop_def ex_mem_get_def
      go_bind_eq_Inr split: prod.splits)

definition result_ok :: "bool \<Rightarrow> ExecutionResult \<Rightarrow> bool" where
  "result_ok goes_on r \<longleftrightarrow> (er_Success r \<longleftrightarrow> er_Error r = None) \<and> (goes_on \<longrightarrow> er_Success r) \<and>
     (goes_on \<or> \<not> er_Success r \<longrightarrow> er_ReturnData r = [])"

lemma exec_step_result:
  assumes "exec_step kec e r = Inr (goes_on, e', r')" and "result_ok True r"
  shows "result_ok goes_on r'"
  using assms(1)
proof (cases rule: exec_step_cases)
  case (run op info e2 err)
  note fin = exec_finish_simps [OF run(6)]
  have "err \<noteq> None" if "op = OP_REVERT"
    using run(5) that by (auto simp: executeOpCode_REVERT dest!: ex_return_data_err)
  with fin(1,4,5,6) assms(2) show ?thesis
    by (auto simp: result_ok_def split: option.splits)
qed (use assms in \<open>auto simp: result_ok_def\<close>)

text \<open>Results.  A run is successful exactly when it reports no error; a run that failed,
  \<open>REVERT\<close> included, returns no data; and the gas left is that of the context.\<close>

theorem Execute_result:
  assumes "Execute kec code ctx e = Inr (e', res)"
  shows "(er_Success res \<longleftrightarrow> er_Error res = None) \<and>
    (er_Success res \<or> er_ReturnData res = []) \<and> er_GasLeft res = cx_Gas (ex_ctx e')"
proof -
  from assms obtain r where loop: "exec_loop kec (ex_load code ctx e) empty_result = Inr (e', r)"
    and res: "er_Success res = er_Success r" "er_Error res = er_Error r"
      "er_ReturnData res = er_ReturnData r" "er_GasLeft res = cx_Gas (ex_ctx e')"
    by (rule ExecuteE) simp
  have "result_ok False r"
    by (rule exec_loop_inv [OF loop, where I = "\<lambda>go _ r. result_ok go r"])
       (simp add: result_ok_def, erule exec_step_result)
  with res show ?thesis by (auto simp: result_ok_def)
qed

theorem Execute_result_witness:
  "\<exists>e' res. Execute demo_kec demo_code demo_ctx demo_exec = Inr (e', res) \<and> 
     (er_Success res \<longleftrightarrow> er_Error res = None)"
proof -
  obtain e' res where run: "Execute demo_kec demo_code demo_ctx demo_exec = Inr (e', res)"
    by (rule demo_run)
  from Execute_result [OF run] show ?thesis using run by auto
qed

subsection \<open>The trace\<close>

definition trace_ok :: "bool \<Rightarrow> Executor \<Rightarrow> ExecutionResult \<Rightarrow> bool" where
  "trace_ok goes_on e r \<longleftrightarrow> ex_tracing e \<and>
     sum_list (map (\<lambda>t. unat (tr_GasCost t)) (ex_traces e)) = unat (er_GasUsed r) \<and>
     length (ex_traces e) \<le> unat (er_GasUsed r) + (if goes_on then 0 else 1)"

lemma exec_step_trace:
  assumes "exec_step kec e r = Inr (goes_on, e', r')" and "trace_ok True e r"
    and "unat (er_GasUsed r) + unat (cx_Gas (ex_ctx e)) = g" and "g < 2 ^ 64"
  shows "trace_ok goes_on e' r'"
  using assms(1)
proof (cases rule: exec_step_cases)
  case (run op info e2 err)
  note fin = exec_finish_simps [OF run(6)]
  have "ex_frame (exec_charge info (exec_trace info e)) e'"
    by (rule ex_frame_finish [OF run(6) executeOpCode_frame [OF run(5)]])
  then have tr: "ex_traces e' = ex_traces (exec_trace info e)" "ex_tracing e' = ex_tracing e"
    by (auto simp: ex_frame_def)
  have le: "unat (oi_Gas info) \<le> unat (cx_Gas (ex_ctx e))"
    using run(4) by (simp add: word_le_nat_alt)
  then have used: "unat (er_GasUsed r') = unat (er_GasUsed r) + unat (oi_Gas info)"
    using unat_add_charge [OF assms(3, 4)] fin(3) by simp
  have "goes_on \<Longrightarrow> 0 < unat (oi_Gas info)"
    using non_terminal_costs_gas [OF run(3)] fin(1) by (simp add: word_less_nat_alt)
  with tr used assms(2) show ?thesis
    by (auto simp: trace_ok_def exec_trace_def)
qed (use assms in \<open>auto simp: trace_ok_def\<close>)

text \<open>Traces.  With tracing on, the recorded costs add up to the gas used, and there are at most
  as many entries as gas units used, plus one for the instruction that ends the run.\<close>

theorem Execute_trace:
  assumes "Execute kec code ctx e = Inr (e', res)" and "ex_tracing e"
  shows "sum_list (map (\<lambda>t. unat (tr_GasCost t)) (GetTraces e')) = unat (er_GasUsed res) \<and>
    length (GetTraces e') \<le> unat (er_GasUsed res) + 1"
proof -
  from assms(1) obtain r where loop: "exec_loop kec (ex_load code ctx e) empty_result = Inr (e', r)"
    and res: "er_GasUsed res = er_GasUsed r"
    by (rule ExecuteE) simp
  let ?I = "\<lambda>go e r. trace_ok go e r \<and>
    unat (er_GasUsed r) + unat (cx_Gas (ex_ctx e)) = unat (cx_Gas ctx)"
  have lt: "unat (cx_Gas ctx) < 2 ^ 64" using unsigned_less [of "cx_Gas ctx"] by simp
  have "?I False e' r"
    by (rule exec_loop_inv [OF loop, where I = ?I])
       (simp add: trace_ok_def assms(2), blast intro: exec_step_gas exec_step_trace lt)
  with res show ?thesis by (simp add: trace_ok_def GetTraces_def)
qed

theorem Execute_trace_witness:
  "\<exists>e' res. Execute demo_kec demo_code demo_ctx demo_exec = Inr (e', res) \<and> 
     sum_list (map (\<lambda>t. unat (tr_GasCost t)) (GetTraces e')) = unat (er_GasUsed res)"
proof -
  obtain e' res where run: "Execute demo_kec demo_code demo_ctx demo_exec = Inr (e', res)"
    by (rule demo_run)
  from Execute_trace [OF run] show ?thesis using run by auto
qed

subsection \<open>Control flow\<close>

lemma ex_jump_target:
  assumes "ex_jump d e = Inr (e', None)"
  shows "unat (cx_PC (ex_ctx e')) < length (ex_code e) \<and>
    ex_code e ! unat (cx_PC (ex_ctx e')) = OP_JUMPDEST"
  using assms by (auto simp: ex_jump_def Let_def not_le split: if_splits)

lemma executeOpCode_JUMP: "executeOpCode kec OP_JUMP e = ex_pop1 e ex_jump"
  by (simp add: executeOpCode_def exec_arith_def exec_compare_def exec_bitwise_def exec_hash_def
      exec_env_def exec_block_def exec_memory_def exec_storage_def exec_flow_def Let_def)

lemma executeOpCode_JUMPI:
  "executeOpCode kec OP_JUMPI e = ex_pop2 e (\<lambda>dest cond e.
     if cond \<noteq> 0 then ex_jump dest e else Inr (set_pc (cx_PC (ex_ctx e) + 1) e, None))"
  by (simp add: executeOpCode_def exec_arith_def exec_compare_def exec_bitwise_def exec_hash_def
      exec_env_def exec_block_def exec_memory_def exec_storage_def exec_flow_def Let_def)

lemma ex_pop1E:
  assumes "ex_pop1 e k = Inr x"
  obtains v s where "ex_stack e = v # s" "k v (set_stack s e) = Inr x"
  using assms by (cases "ex_stack e") (auto simp: ex_pop1_def ex_pop_def)

lemma ex_pop2E:
  assumes "ex_pop2 e k = Inr x"
  obtains a b s where "ex_stack e = a # b # s" "k a b (set_stack s e) = Inr x"
  using assms unfolding ex_pop2_def by (auto elim!: ex_pop1E)

text \<open>C20. Control flow.  When the loop goes on, the next program counter is that of the following
  instruction, past the immediate bytes, or the instruction was a jump and the target is a byte of
  the code that holds \<open>JUMPDEST\<close>.\<close>

theorem exec_step_control_flow:
  assumes "exec_step kec e r = Inr (True, e', r')"
  shows "cx_PC (ex_ctx e') = cx_PC (ex_ctx e) + (1 + of_nat (GetPushSize (ex_code e ! unat (cx_PC (ex_ctx e))))) \<or>
    (ex_code e ! unat (cx_PC (ex_ctx e)) \<in> {OP_JUMP, OP_JUMPI} \<and>
     unat (cx_PC (ex_ctx e')) < length (ex_code e) \<and>
     ex_code e ! unat (cx_PC (ex_ctx e')) = OP_JUMPDEST)"
  using assms
proof (cases rule: exec_step_cases)
  case (run op info e2 err)
  let ?e = "exec_charge info (exec_trace info e)"
  note fin = exec_finish_simps [OF run(6)]
  have err: "err = None" using fin(1) by simp
  show ?thesis
  proof (cases "op = OP_JUMP \<or> op = OP_JUMPI")
    case True
    then have jump: "oi_IsJump info" and size: "GetPushSize op = 0"
      using GetOpCodeInfo_jump [OF run(3)] by (auto simp: GetPushSize_def IsPush_def)
    with fin(2) run(5) err have e': "executeOpCode kec op ?e = Inr (e', None)" by simp
    from True show ?thesis
    proof
      assume "op = OP_JUMP"
      with e' obtain v s where "ex_jump v (set_stack s ?e) = Inr (e', None)"
        by (auto simp: executeOpCode_JUMP elim!: ex_pop1E)
      from ex_jump_target [OF this] True run(2) show ?thesis by simp
    next
      assume "op = OP_JUMPI"
      with e' have "ex_pop2 ?e (\<lambda>dest cond e. if cond \<noteq> 0 then ex_jump dest e
          else Inr (set_pc (cx_PC (ex_ctx e) + 1) e, None)) = Inr (e', None)"
        by (simp add: executeOpCode_JUMPI)
      then obtain v s and c :: int where "(if c \<noteq> 0 then ex_jump v (set_stack s ?e)
          else Inr (set_pc (cx_PC (ex_ctx (set_stack s ?e)) + 1) (set_stack s ?e), None)) = Inr (e', None)"
        by (rule ex_pop2E)
      with ex_jump_target [of v "set_stack s ?e" e'] True run(2) size show ?thesis
        by (auto split: if_splits)
    qed
  next
    case False
    then have "\<not> oi_IsJump info" using GetOpCodeInfo_jump [OF run(3)] by simp
    moreover have "cx_PC (ex_ctx e2) = cx_PC (ex_ctx e)"
      by (rule same_pc.executeOpCode_no_jump [OF _ _ _ run(5)]) (use False in simp_all)
    ultimately show ?thesis
      using fin(2) run(2) ImmSize_GetPushSize [OF run(3)] by simp
  qed
qed simp_all

theorem exec_step_control_flow_witness:
  "\<exists>e' r'. exec_step demo_kec (ex_load demo_code demo_ctx demo_exec) empty_result = Inr (True, e', r') \<and>
     cx_PC (ex_ctx e') = 2"
proof -
  have "case exec_step demo_kec (ex_load demo_code demo_ctx demo_exec) empty_result of
      Inl _ \<Rightarrow> False | Inr (goes_on, _) \<Rightarrow> goes_on"
    by code_simp
  then obtain e' r' where s:
    "exec_step demo_kec (ex_load demo_code demo_ctx demo_exec) empty_result = Inr (True, e', r')"
    by (auto split: sum.splits)
  have "cx_PC demo_ctx = 0" "GetPushSize 0x60 = 1"
    by (simp_all add: demo_ctx_def NewExecutionContext_def GetPushSize_def IsPush_def)
  then have "cx_PC (ex_ctx e') = 2"
    using exec_step_control_flow [OF s] by (simp add: demo_code_def)
  with s show ?thesis by blast
qed


subsection \<open>A run ends\<close>

text \<open>The iterations after which the loop goes on, as a transition system measured by the gas.\<close>

definition evm_step ::
  "(byte list \<Rightarrow> byte list) \<Rightarrow> Executor \<times> ExecutionResult \<Rightarrow> Executor \<times> ExecutionResult \<Rightarrow> bool" where
  "evm_step kec s t \<longleftrightarrow> exec_step kec (fst s) (snd s) = Inr (True, t)"

abbreviation gas_left :: "Executor \<times> ExecutionResult \<Rightarrow> nat" where
  "gas_left s \<equiv> unat (cx_Gas (ex_ctx (fst s)))"

interpretation evm: measured_system "\<lambda>_. True" "evm_step kec" "\<lambda>_. True" gas_left for kec
  by unfold_locales (auto simp: evm_step_def intro: exec_step_gas_less)

lemma exec_loop_step: "evm_step kec s t \<Longrightarrow> exec_loop kec (fst s) (snd s) = exec_loop kec (fst t) (snd t)"
  by (cases t) (simp add: evm_step_def exec_loop.simps [of kec "fst s"])

text \<open>C18. Every run ends: the loop is the same as running at most as many instructions as there
  is gas and then one iteration after which it stops.\<close>

theorem exec_loop_terminates:
  "\<exists>n t. n \<le> unat (cx_Gas (ex_ctx e)) \<and> (evm_step kec ^^ n) (e, r) t \<and> (\<nexists>u. evm_step kec t u) \<and>
     exec_loop kec e r = exec_loop kec (fst t) (snd t)"
proof -
  have "\<exists>n t. (evm_step kec ^^ n) s t \<and> (\<nexists>u. evm_step kec t u) \<and>
      exec_loop kec (fst s) (snd s) = exec_loop kec (fst t) (snd t)" for s
  proof (induction "gas_left s" arbitrary: s rule: less_induct)
    case less
    show ?case
    proof (cases "\<exists>u. evm_step kec s u")
      case True
      then obtain u where u: "evm_step kec s u" ..
      then have "gas_left u < gas_left s" by (rule evm.step_rank [rotated]) simp
      from less [OF this] obtain n t where "(evm_step kec ^^ n) u t" "\<nexists>u. evm_step kec t u"
        "exec_loop kec (fst u) (snd u) = exec_loop kec (fst t) (snd t)" by blast
      with u exec_loop_step [OF u] show ?thesis by (metis relpowp_Suc_I2)
    next
      case False
      then show ?thesis by (intro exI [of _ 0] exI [of _ s]) simp
    qed
  qed
  from this [of "(e, r)"] obtain n t where n: "(evm_step kec ^^ n) (e, r) t" "\<nexists>u. evm_step kec t u"
    "exec_loop kec e r = exec_loop kec (fst t) (snd t)" by auto
  moreover have "n \<le> unat (cx_Gas (ex_ctx e))"
    using evm.run_length [OF TrueI n(1)] by simp
  ultimately show ?thesis by blast
qed

end
