(* ===== verification/EvmSafety.thy ===== *)
theory EvmSafety
  imports EvmRun
begin

section \<open>Safety of the instructions: 256-bit values, stack heights, nil pointers\<close>

text \<open>
  \<open>ex_wf\<close> is the type invariant of a running executor: every stack entry is an unsigned
  256-bit value, the stack has at most 1024 entries, the pointers of the context are not nil,
  balances and stored words are in range.  Every instruction keeps it, whatever it is.
  \<open>height_ok\<close> relates the executor to the table of operation codes: an instruction that
  finds the operands the table announces never dereferences nil, and a normal return leaves
  exactly the announced number of results.
\<close>

unbundle bit_operations_syntax

subsection \<open>Entries of the table\<close>

text \<open>
  Operands taken and results left, by family.  The table agrees with it on every entry.
\<close>

definition stack_effect :: "OpCode \<Rightarrow> nat \<times> nat" where
  "stack_effect op =
     (if IsPush op \<or> op = OP_PUSH0 then (0, 1)
      else if IsDup op then (GetDupN op, GetDupN op + 1)
      else if IsSwap op then (GetSwapN op + 1, GetSwapN op + 1)
      else if IsLog op then (GetLogTopics op + 2, 0)
      else if op \<in> set [OP_STOP, OP_JUMPDEST, OP_INVALID] then (0, 0)
      else if op \<in> set [OP_ADDMOD, OP_MULMOD, OP_CREATE] then (3, 1)
      else if op \<in> set [OP_CALL, OP_CALLCODE] then (7, 1)
      else if op \<in> set [OP_DELEGATECALL, OP_STATICCALL] then (6, 1)
      else if op = OP_CREATE2 then (4, 1)
      else if op = OP_EXTCODECOPY then (4, 0)
      else if op \<in> set [OP_CALLDATACOPY, OP_CODECOPY, OP_RETURNDATACOPY] then (3, 0)
      else if op \<in> set [OP_MSTORE, OP_MSTORE8, OP_SSTORE, OP_JUMPI, OP_RETURN, OP_REVERT]
      then (2, 0)
      else if op \<in> set [OP_POP, OP_JUMP, OP_SELFDESTRUCT] then (1, 0)
      else if op \<in> set [OP_ISZERO, OP_NOT, OP_BALANCE, OP_CALLDATALOAD, OP_EXTCODESIZE,
                 OP_EXTCODEHASH, OP_BLOCKHASH, OP_MLOAD, OP_SLOAD] then (1, 1)
      else if op \<le> OP_KECCAK256 then (2, 1)
      else (0, 1))"

lemma stack_effect_table:
  assumes "GetOpCodeInfo op = Some i"
  shows "stack_effect op = (oi_StackPop i, oi_StackPush i)"
proof -
  have "list_all (\<lambda>(op, i). stack_effect op = (oi_StackPop i, oi_StackPush i)) OpCodeInfoMap"
    by code_simp
  from OpCodeInfoMap_all [OF this assms] show ?thesis .
qed

lemma family_sizes:
  assumes "GetOpCodeInfo op = Some i"
  shows "IsPush op \<Longrightarrow> GetPushSize op \<le> 32" and "IsDup op \<Longrightarrow> 0 < GetDupN op"
proof -
  have "list_all (\<lambda>(op, i). (IsPush op \<longrightarrow> GetPushSize op \<le> 32) \<and> (IsDup op \<longrightarrow> 0 < GetDupN op))
      OpCodeInfoMap"
    by code_simp
  from OpCodeInfoMap_all [OF this assms]
  show "IsPush op \<Longrightarrow> GetPushSize op \<le> 32" "IsDup op \<Longrightarrow> 0 < GetDupN op"
    by blast+
qed

subsection \<open>The type invariant\<close>

definition stack_wf :: "Stack \<Rightarrow> bool" where
  "stack_wf s \<longleftrightarrow> list_all u256 s \<and> length s \<le> 1024"

definition ptr_wf :: "int option \<Rightarrow> bool" where
  "ptr_wf p = (case p of None \<Rightarrow> False | Some v \<Rightarrow> u256 v)"

definition ctx_wf :: "ExecutionContext \<Rightarrow> bool" where
  "ctx_wf c \<longleftrightarrow> list_all ptr_wf [cx_Value c, cx_GasPrice c, cx_BlockNumber c, cx_Difficulty c, cx_BaseFee c] \<and>
     list_all addr_wf [cx_Address c, cx_Caller c, cx_Origin c, cx_Coinbase c] \<and>
     length (cx_Input c) \<le> max_alloc \<and>
     unat (cx_BlockTimestamp c) < 2 ^ 63 \<and> unat (cx_BlockGasLimit c) < 2 ^ 63 \<and>
     unat (cx_Gas c) < 2 ^ 63"

definition db_wf :: "StateDB \<Rightarrow> bool" where
  "db_wf db \<longleftrightarrow> (\<forall>a. u256 (GetBalance db a)) \<and> (\<forall>a k. hash_wf (GetStorage db a k))"

definition ex_wf :: "Executor \<Rightarrow> bool" where
  "ex_wf e \<longleftrightarrow> stack_wf (ex_stack e) \<and> length (ex_mem e) \<le> max_alloc \<and>
     length (cx_ReturnData (ex_ctx e)) \<le> max_alloc \<and> length (ex_code e) \<le> max_alloc \<and>
     ctx_wf (ctx_env (ex_ctx e)) \<and> db_wf (ex_state e)"

subsection \<open>The executor keeps its type invariant\<close>

lemma u256_length: "n \<le> max_alloc \<Longrightarrow> u256 (int n)"
proof -
  assume "n \<le> max_alloc"
  then have "int n \<le> 2 ^ 48" by (simp add: max_alloc_def)
  also have "(2 :: int) ^ 48 < two256" by (simp add: two256_def)
  finally show ?thesis by (simp add: u256_def)
qed

lemma u256_small: "0 \<le> v \<Longrightarrow> v < 2 ^ 64 \<Longrightarrow> u256 v"
  by (simp add: u256_def two256_def)

lemma u256_sint:
  fixes w :: u64
  assumes "unat w < 2 ^ 63"
  shows "u256 (sint w)"
proof -
  have "int (unat w) < int (2 ^ 63)" using assms by (simp only: of_nat_less_iff)
  then have u: "uint w < 2 ^ 63" by simp
  have "signed_take_bit 63 (uint w) = uint w"
    by (rule signed_take_bit_int_eq_self) (use u in \<open>simp_all add: order_trans [of _ 0]\<close>)
  then have "sint w = uint w" by (simp add: sint_uint)
  with u show ?thesis by (intro u256_small) simp_all
qed

lemma stack_wf_simps [simp]:
  "stack_wf []" "stack_wf (v # s) \<longleftrightarrow> u256 v \<and> length s < 1024 \<and> stack_wf s"
  by (auto simp: stack_wf_def)

lemma ex_wf_set_stack: "ex_wf e \<Longrightarrow> stack_wf s \<Longrightarrow> ex_wf (set_stack s e)"
  by (simp add: ex_wf_def)

lemma ex_wf_stack: "ex_wf e \<Longrightarrow> stack_wf (ex_stack e)"
  by (simp add: ex_wf_def)

lemma ex_wf_set_mem: "ex_wf e \<Longrightarrow> length m \<le> max_alloc \<Longrightarrow> ex_wf (set_mem m e)"
  by (simp add: ex_wf_def)

lemma ex_wf_set_pc: "ex_wf e \<Longrightarrow> ex_wf (set_pc p e)"
  by (simp add: ex_wf_def)

lemma ex_wf_ret:
  "ex_wf e \<Longrightarrow> length d \<le> max_alloc \<Longrightarrow>
   ex_wf (e\<lparr>ex_ctx := (ex_ctx e)\<lparr>cx_ReturnData := d\<rparr>\<rparr>)"
  by (simp add: ex_wf_def)

lemma ex_wf_SetStorage:
  "ex_wf e \<Longrightarrow> hash_wf v \<Longrightarrow> ex_wf (e\<lparr>ex_state := SetStorage a k v (ex_state e)\<rparr>)"
  by (auto simp: ex_wf_def db_wf_def GetStorage_SetStorage)

lemma ex_wf_AddLog: "ex_wf e \<Longrightarrow> ex_wf (e\<lparr>ex_state := AddLog l (ex_state e)\<rparr>)"
  by (simp add: ex_wf_def db_wf_def GetBalance_def GetStorage_def)

lemma Memory_Resize_length:
  "Memory_Resize sz m = Inr m' \<Longrightarrow> length m \<le> max_alloc \<Longrightarrow> length m' \<le> max_alloc"
  by (auto simp: Memory_Resize_def Let_def go_bind_eq_Inr go_make_eq_Inr split: if_splits)

lemma Memory_Get_length:
  "Memory_Get off sz m = Inr (d, m') \<Longrightarrow> length m \<le> max_alloc \<Longrightarrow>
   length d = unat sz \<and> length d \<le> max_alloc \<and> length m' \<le> max_alloc"
  by (auto simp: Memory_Get_def go_bind_eq_Inr go_make_eq_Inr split: if_splits
      dest: Memory_Resize_length)

lemma Memory_copy_length: "Memory_copy a b v m = Inr m' \<Longrightarrow> length m' = length m"
  by (auto simp: Memory_copy_def go_bind_eq_Inr go_slice_eq_Inr)

lemma Memory_Set_length:
  "Memory_Set off sz v m = Inr m' \<Longrightarrow> length m \<le> max_alloc \<Longrightarrow> length m' \<le> max_alloc"
  by (auto simp: Memory_Set_def go_bind_eq_Inr split: if_splits
      dest: Memory_Resize_length dest!: Memory_copy_length)

lemma Memory_zero_length: "Memory_zero a b m = Inr m' \<Longrightarrow> length m' = length m"
  by (auto simp: Memory_zero_def word_le_nat_alt split: if_splits)

lemma Memory_Set32_length:
  "Memory_Set32 off v m = Inr m' \<Longrightarrow> length m \<le> max_alloc \<Longrightarrow> length m' \<le> max_alloc"
  by (auto simp: Memory_Set32_def Let_def go_bind_eq_Inr
      dest!: Memory_copy_length Memory_zero_length dest: Memory_Resize_length)

abbreviation wf_res :: "op_result \<Rightarrow> bool" where
  "wf_res \<equiv> op_post (\<lambda>e' _. ex_wf e')"

lemma wf_push: "ex_wf e \<Longrightarrow> u256 v \<Longrightarrow> wf_res (ex_push v e)"
  using ex_wf_stack [of e]
  by (simp add: ex_push_def Stack_Push_def ex_wf_set_stack)

lemma wf_push_ptr: "ex_wf e \<Longrightarrow> ptr_wf p \<Longrightarrow> wf_res (ex_push_ptr p e)"
  by (cases p) (simp_all add: ex_push_ptr_def ptr_wf_def wf_push)

lemma wf_pop1:
  assumes "ex_wf e" and "\<And>v e'. u256 v \<Longrightarrow> ex_wf e' \<Longrightarrow> cx_PC (ex_ctx e') = cx_PC (ex_ctx e) \<Longrightarrow>
    wf_res (k v e')"
  shows "wf_res (ex_pop1 e k)"
proof (rule op_post_pop1)
  fix v s assume s: "ex_stack e = v # s"
  with ex_wf_stack [OF assms(1)] have "u256 v" "stack_wf s" by simp_all
  with assms show "wf_res (k v (set_stack s e))" by (simp add: ex_wf_set_stack)
qed

lemma wf_pop2:
  "ex_wf e \<Longrightarrow> (\<And>a b e'. u256 a \<Longrightarrow> u256 b \<Longrightarrow> ex_wf e' \<Longrightarrow> cx_PC (ex_ctx e') = cx_PC (ex_ctx e) \<Longrightarrow>
    wf_res (k a b e')) \<Longrightarrow> wf_res (ex_pop2 e k)"
  unfolding ex_pop2_def by (intro wf_pop1) simp_all

lemma wf_pop3:
  "ex_wf e \<Longrightarrow> (\<And>a b c e'. u256 a \<Longrightarrow> u256 b \<Longrightarrow> u256 c \<Longrightarrow> ex_wf e' \<Longrightarrow> wf_res (k a b c e')) \<Longrightarrow>
   wf_res (ex_pop3 e k)"
  unfolding ex_pop3_def by (intro wf_pop1 wf_pop2) simp_all

lemma ex_pop_wf: "ex_wf e \<Longrightarrow> ex_wf (snd (ex_pop e))"
  using ex_wf_stack [of e]
  by (cases "ex_stack e") (simp_all add: ex_pop_def ex_wf_set_stack)

lemma wf_cmp:
  "ex_wf e \<Longrightarrow> (\<And>c e'. ex_wf e' \<Longrightarrow> wf_res (k c e')) \<Longrightarrow> wf_res (ex_cmp e k)"
  unfolding ex_cmp_def case_prod_beta by (intro op_post_bind) (simp add: ex_pop_wf)

lemma wf_mem_get:
  assumes "ex_wf e" and "\<And>d e'. length d = unat (big_uint64 sz) \<Longrightarrow> length d \<le> max_alloc \<Longrightarrow>
    ex_wf e' \<Longrightarrow> wf_res (k d e')"
  shows "wf_res (ex_mem_get off sz e k)"
  unfolding ex_mem_get_def
proof (rule op_post_bind)
  fix x assume "Memory_Get (big_uint64 off) (big_uint64 sz) (ex_mem e) = Inr x"
  moreover have "length (ex_mem e) \<le> max_alloc" using assms(1) by (simp add: ex_wf_def)
  ultimately have "length (fst x) = unat (big_uint64 sz) \<and> length (fst x) \<le> max_alloc \<and> length (snd x) \<le> max_alloc"
    by (cases x) (simp, drule (1) Memory_Get_length, simp)
  then show "wf_res (case x of (data, m) \<Rightarrow> k data (set_mem m e))"
    using assms by (cases x) (simp add: ex_wf_set_mem)
qed

lemmas wf_rules = op_post_if wf_push wf_push_ptr wf_pop3 wf_pop2 wf_pop1 wf_cmp wf_mem_get op_post_bind

lemma ex_wf_mem: "ex_wf e \<Longrightarrow> length (ex_mem e) \<le> max_alloc"
  by (simp add: ex_wf_def)

lemma wf_copy_to_mem: "ex_wf e \<Longrightarrow> wf_res (ex_copy_to_mem src e)"
  unfolding ex_copy_to_mem_def Let_def
  by (intro wf_rules) (auto intro: ex_wf_set_mem Memory_Set_length ex_wf_mem)

lemma u256_sub:
  "u256 a \<Longrightarrow> u256 b \<Longrightarrow> u256 (if a - b < 0 then a - b + (u256_mask + 1) else a - b)"
  by (auto simp: u256_def u256_mask_def)

lemma ptr_wf_exp: "u256 a \<Longrightarrow> u256 b \<Longrightarrow> ptr_wf (big_exp a b (u256_mask + 1))"
  by (simp add: big_exp_nonneg u256_nonneg ptr_wf_def u256_mask_def)

lemma wf_arith: "ex_wf e \<Longrightarrow> wf_res d \<Longrightarrow> wf_res (exec_arith op e d)"
  unfolding exec_arith_def Let_def if_distribR maxUint256_def
  by (intro wf_rules u256_sub ptr_wf_exp u256_big_div u256_big_mod) (auto simp: and_u256_mask)

lemma wf_compare: "ex_wf e \<Longrightarrow> wf_res d \<Longrightarrow> wf_res (exec_compare op e d)"
  unfolding exec_compare_def if_distribR
  by (intro wf_rules) (auto intro: u256_small)

lemma wf_bitwise: "ex_wf e \<Longrightarrow> wf_res d \<Longrightarrow> wf_res (exec_bitwise op e d)"
  unfolding exec_bitwise_def if_distribR maxUint256_def
  by (intro wf_rules) (auto simp: and_u256_mask)

lemma wf_hash:
  "\<forall>bs. length (kec bs) = 32 \<Longrightarrow> ex_wf e \<Longrightarrow> wf_res d \<Longrightarrow> wf_res (exec_hash kec op e d)"
  unfolding exec_hash_def
  by (intro wf_rules) (auto intro: u256_of_bytes)

lemma ex_wf_ctx:
  assumes "ex_wf e"
  shows "ptr_wf (cx_Value (ex_ctx e))" "ptr_wf (cx_GasPrice (ex_ctx e))"
    "ptr_wf (cx_BlockNumber (ex_ctx e))" "ptr_wf (cx_Difficulty (ex_ctx e))"
    "ptr_wf (cx_BaseFee (ex_ctx e))"
    "u256 (big_of_bytes (cx_Address (ex_ctx e)))" "u256 (big_of_bytes (cx_Caller (ex_ctx e)))"
    "u256 (big_of_bytes (cx_Origin (ex_ctx e)))" "u256 (big_of_bytes (cx_Coinbase (ex_ctx e)))"
    "u256 (sint (cx_BlockTimestamp (ex_ctx e)))" "u256 (sint (cx_BlockGasLimit (ex_ctx e)))"
    "u256 (sint (cx_Gas (ex_ctx e)))" "u256 (int (length (cx_Input (ex_ctx e))))"
    "u256 (int (length (ex_code e)))" "u256 (int (length (cx_ReturnData (ex_ctx e))))"
    "u256 (int (length (ex_mem e)))"
  using assms
  by (auto simp: ex_wf_def ctx_wf_def ctx_env_def intro: u256_address u256_sint u256_length)

lemma ex_wf_db: "ex_wf e \<Longrightarrow> u256 (GetBalance (ex_state e) a)"
  "ex_wf e \<Longrightarrow> hash_wf (GetStorage (ex_state e) a k)"
  by (simp_all add: ex_wf_def db_wf_def)

lemma wf_env: "ex_wf e \<Longrightarrow> wf_res d \<Longrightarrow> wf_res (exec_env op e d)"
  unfolding exec_env_def Let_def
  by (intro wf_copy_to_mem wf_rules) (auto intro: ex_wf_ctx ex_wf_db u256_of_bytes)

lemma ex_wf_pop: "ex_wf e \<Longrightarrow> ex_wf (snd (ex_pop e))"
  using ex_wf_stack [of e] by (cases "ex_stack e") (simp_all add: ex_pop_def ex_wf_set_stack)

lemma wf_block: "ex_wf e \<Longrightarrow> wf_res d \<Longrightarrow> wf_res (exec_block op e d)"
  unfolding exec_block_def Let_def
  by (intro wf_rules) (auto split: prod.split intro: ex_wf_ctx ex_wf_db u256_small
      intro!: wf_push dest: ex_wf_pop)

lemma wf_memory: "ex_wf e \<Longrightarrow> wf_res d \<Longrightarrow> wf_res (exec_memory op e d)"
  unfolding exec_memory_def Memory_Len_def
  by (intro wf_rules)
     (auto simp: big_uint64_def intro: ex_wf_set_mem Memory_Set_length Memory_Set32_length ex_wf_mem
       ex_wf_pop ex_wf_ctx u256_of_bytes)

lemma wf_storage: "ex_wf e \<Longrightarrow> wf_res d \<Longrightarrow> wf_res (exec_storage op e d)"
  unfolding exec_storage_def
  by (intro wf_rules) (auto intro: u256_HashToBigInt ex_wf_db ex_wf_SetStorage)

lemma wf_jump: "ex_wf e \<Longrightarrow> wf_res (ex_jump d e)"
  by (simp add: ex_jump_def Let_def ex_wf_set_pc)

lemma u256_pc:
  "ex_wf e \<Longrightarrow> unat (cx_PC (ex_ctx e)) < length (ex_code e) \<Longrightarrow> u256 (sint (cx_PC (ex_ctx e)))"
  by (rule u256_sint) (simp add: ex_wf_def max_alloc_def)

lemma wf_flow:
  "ex_wf e \<Longrightarrow> unat (cx_PC (ex_ctx e)) < length (ex_code e) \<Longrightarrow> wf_res d \<Longrightarrow>
   wf_res (exec_flow op e d)"
  unfolding exec_flow_def
  by (intro wf_jump wf_rules) (auto intro: u256_pc ex_wf_ctx ex_wf_set_pc)

lemma wf_push_data: "ex_wf e \<Longrightarrow> n \<le> 32 \<Longrightarrow> wf_res (ex_push_data n e)"
  unfolding ex_push_data_def Let_def by (intro wf_rules) (auto intro: u256_of_bytes)

lemma Stack_Dup_wf:
  "Stack_Dup n s = Inr (s', err) \<Longrightarrow> stack_wf s \<Longrightarrow> stack_wf s'"
  by (auto simp: Stack_Dup_def Stack_Push_def stack_wf_def list_all_length split: if_splits)
     (simp add: nth_Cons')

lemma Stack_Swap_wf:
  "Stack_Swap n s = Inr (s', err) \<Longrightarrow> stack_wf s \<Longrightarrow> stack_wf s'"
  by (auto simp: Stack_Swap_def stack_wf_def list_all_iff split: if_splits
      dest!: subsetD [OF set_update_subset_insert]) (cases s, auto)

lemma wf_stackops:
  "ex_wf e \<Longrightarrow> (IsPush op \<Longrightarrow> GetPushSize op \<le> 32) \<Longrightarrow> wf_res d \<Longrightarrow> wf_res (exec_stackops op e d)"
  unfolding exec_stackops_def
  by (intro wf_push_data wf_rules)
     (auto split: prod.split intro: ex_wf_set_stack Stack_Dup_wf Stack_Swap_wf ex_wf_stack)

lemma pop_topics_wf: "ex_wf e \<Longrightarrow> pop_topics n e = Inr (ts, e') \<Longrightarrow> ex_wf e'"
proof (induction n arbitrary: e ts e')
  case (Suc n)
  from Suc.prems(2) obtain v s us where s: "ex_stack e = v # s"
    and p: "pop_topics n (set_stack s e) = Inr (us, e')"
    by (auto simp: go_bind_eq_Inr elim!: ex_pop1E)
  have "ex_wf (set_stack s e)"
    using Suc.prems(1) ex_wf_stack [of e] s by (simp add: ex_wf_set_stack)
  then show ?case using p by (rule Suc.IH)
qed simp

lemma wf_log: "ex_wf e \<Longrightarrow> wf_res d \<Longrightarrow> wf_res (exec_log op e d)"
  unfolding exec_log_def
  by (intro wf_rules) (auto split: prod.split intro!: ex_wf_AddLog elim!: pop_topics_wf [rotated])

lemma wf_halt: "ex_wf e \<Longrightarrow> wf_res d \<Longrightarrow> wf_res (exec_halt op e d)"
  unfolding exec_halt_def ex_return_data_def by (intro wf_rules) (auto intro: ex_wf_ret)

lemmas wf_groups =
  wf_arith wf_compare wf_bitwise wf_hash wf_env wf_block wf_memory wf_storage wf_flow
  wf_stackops wf_log wf_halt

lemma executeOpCode_wf:
  assumes "executeOpCode kec op e = Inr (e', err)" and "ex_wf e"
    and "\<forall>bs. length (kec bs) = 32" and "GetOpCodeInfo op = Some info"
    and "unat (cx_PC (ex_ctx e)) < length (ex_code e)"
  shows "ex_wf e'"
proof -
  have "wf_res (executeOpCode kec op e)"
    unfolding executeOpCode_def
    by (intro op_post_if wf_groups) (simp_all add: assms family_sizes [OF assms(4)])
  with assms(1) show ?thesis by simp
qed

lemma exec_step_wf:
  assumes "exec_step kec e r = Inr (goes_on, e', r')" and "ex_wf e"
    and "\<forall>bs. length (kec bs) = 32"
  shows "ex_wf e'"
  using assms(1)
proof (cases rule: exec_step_cases)
  case (run op info e2 err)
  have "unat (cx_Gas (ex_ctx e) - oi_Gas info) \<le> unat (cx_Gas (ex_ctx e))"
    using run(4) by (simp add: unat_sub)
  with assms(2) have "ex_wf (exec_charge info (exec_trace info e))"
    by (simp add: ex_wf_def ctx_wf_def ctx_env_def)
  then have "ex_wf e2"
    using executeOpCode_wf [OF run(5) _ assms(3) run(3)] run(1) by simp
  then show ?thesis using exec_finish_simps(2) [OF run(6)] by (simp add: ex_wf_set_pc)
qed (use assms in simp_all)

lemma exec_step_ret:
  assumes "exec_step kec e r = Inr (goes_on, e', r')" and "ex_wf e"
    and "\<forall>bs. length (kec bs) = 32" and "length (er_ReturnData r) \<le> max_alloc"
  shows "length (er_ReturnData r') \<le> max_alloc"
  using assms(1)
proof (cases rule: exec_step_cases)
  case (run op info e2 err)
  note fin = exec_finish_simps [OF run(6)]
  have "ex_wf e'" by (rule exec_step_wf [OF assms(1-3)])
  with fin(2) have "length (cx_ReturnData (ex_ctx e2)) \<le> max_alloc"
    by (simp add: ex_wf_def split: if_splits)
  with fin(6) assms(4) show ?thesis by simp
qed (use assms in simp_all)

lemma exec_step_wf_ret:
  "ex_wf e \<and> length (er_ReturnData r) \<le> max_alloc \<Longrightarrow>
   exec_step kec e r = Inr (goes_on, e', r') \<Longrightarrow> \<forall>bs. length (kec bs) = 32 \<Longrightarrow>
   ex_wf e' \<and> length (er_ReturnData r') \<le> max_alloc"
  by (simp add: exec_step_wf exec_step_ret)

lemma demo_wf: "ex_wf (ex_load demo_code demo_ctx demo_exec)"
  by (simp add: ex_wf_def ctx_wf_def db_wf_def ctx_env_def ptr_wf_def addr_wf_def hash_wf_def demo_ctx_def
      demo_code_def NewExecutionContext_def NewStack_def NewMemory_def zero_addr_def zero_hash_def
      max_alloc_def u256_small GetBalance_def GetStorage_def GetAccount_def NewStateDB_def)

text \<open>C21. Machine words.  On a well-formed executor, after any run every stack entry is an unsigned
  256-bit value, the stack has at most 1024 entries, memory and return data stay within what can be
  allocated, and storage holds 32-byte words.\<close>

theorem Execute_words:
  assumes "Execute kec code ctx e = Inr (e', res)" and "ex_wf (ex_load code ctx e)"
    and "\<forall>bs. length (kec bs) = 32"
  shows "list_all u256 (cx_Stack (ex_ctx e')) \<and> length (cx_Stack (ex_ctx e')) \<le> 1024 \<and>
    length (cx_Memory (ex_ctx e')) \<le> max_alloc \<and> length (er_ReturnData res) \<le> max_alloc \<and>
    (\<forall>a k. hash_wf (GetStorage (ex_state e') a k))"
proof -
  from assms(1) obtain r where loop: "exec_loop kec (ex_load code ctx e) empty_result = Inr (e', r)"
    and res: "er_ReturnData res = er_ReturnData r"
    by (rule ExecuteE) simp
  let ?I = "\<lambda>_ e r. ex_wf e \<and> length (er_ReturnData r) \<le> max_alloc"
  have "?I False e' r"
    by (rule exec_loop_inv [OF loop, where I = ?I])
       (use assms(2) in simp, erule (1) exec_step_wf_ret [OF _ _ assms(3)])
  with res show ?thesis by (auto simp: ex_wf_def stack_wf_def db_wf_def)
qed

theorem Execute_words_witness:
  "\<exists>e' res. Execute (\<lambda>_. zero_hash) demo_code demo_ctx demo_exec = Inr (e', res) \<and>
     list_all u256 (cx_Stack (ex_ctx e'))"
proof -
  have "returns (Execute (\<lambda>_. zero_hash) demo_code demo_ctx demo_exec)" by code_simp
  then obtain e' res where run: "Execute (\<lambda>_. zero_hash) demo_code demo_ctx demo_exec = Inr (e', res)"
    by (auto elim!: returnsE)
  from Execute_words [OF run demo_wf] show ?thesis using run by (auto simp: zero_hash_def)
qed

subsection \<open>Stack heights and nil pointers\<close>

text \<open>
  \<open>height_ok n r\<close>: the instruction does not dereference nil, and if it returns no error the
  stack has \<open>n\<close> entries.
\<close>

definition height_ok :: "nat \<Rightarrow> op_result \<Rightarrow> bool" where
  "height_ok n r \<longleftrightarrow> r \<noteq> Inl NilDeref \<and> (\<forall>e'. r = Inr (e', None) \<longrightarrow> length (ex_stack e') = n)"

lemma height_if:
  "(c \<Longrightarrow> height_ok n a) \<Longrightarrow> (\<not> c \<Longrightarrow> height_ok n b) \<Longrightarrow> height_ok n (if c then a else b)"
  by simp

lemma height_Inr: "(err = None \<Longrightarrow> length (ex_stack e) = n) \<Longrightarrow> height_ok n (Inr (e, err))"
  by (simp add: height_ok_def)

lemma height_push: "n = Suc (length (ex_stack e)) \<Longrightarrow> height_ok n (ex_push v e)"
  by (auto simp: height_ok_def ex_push_def Stack_Push_def)

lemma height_push_ptr: "p \<noteq> None \<Longrightarrow> n = Suc (length (ex_stack e)) \<Longrightarrow> height_ok n (ex_push_ptr p e)"
  by (cases p) (simp_all add: ex_push_ptr_def height_push)

abbreviation nonneg :: "Executor \<Rightarrow> bool" where
  "nonneg e \<equiv> list_all (\<lambda>v. 0 \<le> v) (ex_stack e)"

lemma height_pop1:
  assumes "1 \<le> length (ex_stack e)" and "nonneg e"
    and "\<And>v e'. 0 \<le> v \<Longrightarrow> length (ex_stack e') = length (ex_stack e) - 1 \<Longrightarrow> nonneg e' \<Longrightarrow>
      height_ok n (k v e')"
  shows "height_ok n (ex_pop1 e k)"
  using assms by (cases "ex_stack e") (simp_all add: ex_pop1_def ex_pop_def)

lemma height_pop2:
  assumes "2 \<le> length (ex_stack e)" and "nonneg e"
    and "\<And>a b e'. 0 \<le> a \<Longrightarrow> 0 \<le> b \<Longrightarrow> length (ex_stack e') = length (ex_stack e) - 2 \<Longrightarrow>
      nonneg e' \<Longrightarrow> height_ok n (k a b e')"
  shows "height_ok n (ex_pop2 e k)"
  unfolding ex_pop2_def using assms by (intro height_pop1) auto

lemma height_pop3:
  assumes "3 \<le> length (ex_stack e)" and "nonneg e"
    and "\<And>a b c e'. length (ex_stack e') = length (ex_stack e) - 3 \<Longrightarrow> height_ok n (k a b c e')"
  shows "height_ok n (ex_pop3 e k)"
  unfolding ex_pop3_def using assms by (intro height_pop1 height_pop2) auto

lemma height_bind:
  "m \<noteq> Inl NilDeref \<Longrightarrow> (\<And>x. m = Inr x \<Longrightarrow> height_ok n (f x)) \<Longrightarrow> height_ok n (go_bind m f)"
  by (cases m) (auto simp: height_ok_def)

lemma no_nil [simp]:
  "go_make k \<noteq> Inl NilDeref" "go_slice xs a b \<noteq> Inl NilDeref"
  "Memory_Resize sz m \<noteq> Inl NilDeref" "Memory_copy p q v m \<noteq> Inl NilDeref"
  "Memory_zero p q m \<noteq> Inl NilDeref" "Stack_Dup i s \<noteq> Inl NilDeref" "Stack_Swap i s \<noteq> Inl NilDeref"
proof -
  show m: "go_make k \<noteq> Inl NilDeref" for k by (simp add: go_make_def)
  show s: "go_slice xs a b \<noteq> Inl NilDeref" by (simp add: go_slice_def)
  show "Memory_Resize sz m \<noteq> Inl NilDeref"
    by (auto simp: Memory_Resize_def go_make_def Let_def)
  show "Memory_copy p q v m \<noteq> Inl NilDeref" by (auto simp: Memory_copy_def go_slice_def)
qed (auto simp: Memory_zero_def Stack_Dup_def Stack_Swap_def)

lemma go_bind_eq_Inl:
  "go_bind m f = Inl p \<longleftrightarrow> m = Inl p \<or> (\<exists>x. m = Inr x \<and> f x = Inl p)"
  by (cases m) auto

lemma Memory_no_nil [simp]:
  "Memory_Get off sz m \<noteq> Inl NilDeref" "Memory_Set off sz v m \<noteq> Inl NilDeref"
  "Memory_Set32 off x m \<noteq> Inl NilDeref"
  by (simp_all add: Memory_Get_def Memory_Set_def Memory_Set32_def Let_def go_bind_eq_Inl)

lemma height_cmp:
  assumes "2 \<le> length (ex_stack e)"
    and "\<And>c e'. length (ex_stack e') = length (ex_stack e) - 2 \<Longrightarrow> nonneg e' \<Longrightarrow> height_ok n (k c e')"
    and "nonneg e"
  shows "height_ok n (ex_cmp e k)"
proof -
  from assms(1) obtain a b s where s: "ex_stack e = a # b # s"
    by (auto simp: Suc_le_length_iff numeral_2_eq_2)
  with assms(2,3) show ?thesis by (simp add: ex_cmp_def ex_pop_def big_cmp_def)
qed

lemma height_mem_get:
  assumes "\<And>d e'. length (ex_stack e') = length (ex_stack e) \<Longrightarrow> height_ok n (k d e')"
  shows "height_ok n (ex_mem_get off sz e k)"
  unfolding ex_mem_get_def using assms by (intro height_bind) auto

lemmas height_rules =
  height_if height_push height_push_ptr height_pop3 height_pop2 height_pop1 height_cmp height_mem_get
  height_Inr height_bind

lemma height_pop_topics:
  "n \<le> length (ex_stack e) \<Longrightarrow> pop_topics n e \<noteq> Inl NilDeref \<and>
   (\<forall>ts e'. pop_topics n e = Inr (ts, e') \<longrightarrow> length (ex_stack e') + n = length (ex_stack e))"
proof (induction n arbitrary: e)
  case (Suc n)
  then obtain v s where s: "ex_stack e = v # s" by (cases "ex_stack e") auto
  with Suc.IH [of "set_stack s e"] Suc.prems show ?case
    by (cases "pop_topics n (set_stack s e)") (auto simp: ex_pop1_def ex_pop_def)
qed simp

text \<open>The operands of the table are there, and \<open>n\<close> is the announced height.\<close>

definition heights :: "OpCode \<Rightarrow> Executor \<Rightarrow> nat \<Rightarrow> bool" where
  "heights op e n \<longleftrightarrow> fst (stack_effect op) \<le> length (ex_stack e) \<and> nonneg e \<and>
     n = length (ex_stack e) - fst (stack_effect op) + snd (stack_effect op)"

lemma heightsD:
  assumes "heights op e n"
  shows "nonneg e" and "stack_effect op = (a, b) \<Longrightarrow> a \<le> length (ex_stack e)"
    and "stack_effect op = (a, b) \<Longrightarrow> n = length (ex_stack e) - a + b"
  using assms by (auto simp: heights_def)

lemma stack_effects [simp]:
  "stack_effect OP_STOP = (0, 0)" "stack_effect OP_ADD = (2, 1)"
  "stack_effect OP_MUL = (2, 1)" "stack_effect OP_SUB = (2, 1)"
  "stack_effect OP_DIV = (2, 1)" "stack_effect OP_MOD = (2, 1)"
  "stack_effect OP_EXP = (2, 1)" "stack_effect OP_LT = (2, 1)"
  "stack_effect OP_GT = (2, 1)" "stack_effect OP_EQ = (2, 1)"
  "stack_effect OP_ISZERO = (1, 1)" "stack_effect OP_AND = (2, 1)"
  "stack_effect OP_OR = (2, 1)" "stack_effect OP_XOR = (2, 1)"
  "stack_effect OP_NOT = (1, 1)" "stack_effect OP_SHL = (2, 1)"
  "stack_effect OP_SHR = (2, 1)" "stack_effect OP_KECCAK256 = (2, 1)"
  "stack_effect OP_ADDRESS = (0, 1)" "stack_effect OP_BALANCE = (1, 1)"
  "stack_effect OP_ORIGIN = (0, 1)" "stack_effect OP_CALLER = (0, 1)"
  "stack_effect OP_CALLVALUE = (0, 1)" "stack_effect OP_CALLDATALOAD = (1, 1)"
  "stack_effect OP_CALLDATASIZE = (0, 1)" "stack_effect OP_CALLDATACOPY = (3, 0)"
  "stack_effect OP_CODESIZE = (0, 1)" "stack_effect OP_CODECOPY = (3, 0)"
  "stack_effect OP_GASPRICE = (0, 1)" "stack_effect OP_RETURNDATASIZE = (0, 1)"
  "stack_effect OP_RETURNDATACOPY = (3, 0)" "stack_effect OP_BLOCKHASH = (1, 1)"
  "stack_effect OP_COINBASE = (0, 1)" "stack_effect OP_TIMESTAMP = (0, 1)"
  "stack_effect OP_NUMBER = (0, 1)" "stack_effect OP_DIFFICULTY = (0, 1)"
  "stack_effect OP_GASLIMIT = (0, 1)" "stack_effect OP_CHAINID = (0, 1)"
  "stack_effect OP_SELFBALANCE = (0, 1)" "stack_effect OP_BASEFEE = (0, 1)"
  "stack_effect OP_POP = (1, 0)" "stack_effect OP_MLOAD = (1, 1)"
  "stack_effect OP_MSTORE = (2, 0)" "stack_effect OP_MSTORE8 = (2, 0)"
  "stack_effect OP_SLOAD = (1, 1)" "stack_effect OP_SSTORE = (2, 0)"
  "stack_effect OP_JUMP = (1, 0)" "stack_effect OP_JUMPI = (2, 0)"
  "stack_effect OP_PC = (0, 1)" "stack_effect OP_MSIZE = (0, 1)"
  "stack_effect OP_GAS = (0, 1)" "stack_effect OP_JUMPDEST = (0, 0)"
  "stack_effect OP_PUSH0 = (0, 1)" "stack_effect OP_RETURN = (2, 0)"
  "stack_effect OP_REVERT = (2, 0)" "stack_effect OP_INVALID = (0, 0)"
  by (simp_all add: stack_effect_def IsPush_def IsDup_def IsSwap_def IsLog_def word_le_nat_alt)

lemma height_copy_to_mem:
  "3 \<le> length (ex_stack e) \<Longrightarrow> nonneg e \<Longrightarrow> n = length (ex_stack e) - 3 \<Longrightarrow>
   height_ok n (ex_copy_to_mem src e)"
  unfolding ex_copy_to_mem_def Let_def by (intro height_rules) auto

lemma height_arith: "heights op e n \<Longrightarrow> height_ok n d \<Longrightarrow> height_ok n (exec_arith op e d)"
  unfolding exec_arith_def Let_def if_distribR
  by (intro height_rules) (simp_all add: heights_def big_exp_nonneg)

lemma height_compare: "heights op e n \<Longrightarrow> height_ok n d \<Longrightarrow> height_ok n (exec_compare op e d)"
  unfolding exec_compare_def if_distribR
  by (intro height_rules) (simp_all add: heights_def)

lemma height_bitwise: "heights op e n \<Longrightarrow> height_ok n d \<Longrightarrow> height_ok n (exec_bitwise op e d)"
  unfolding exec_bitwise_def if_distribR
  by (intro height_rules) (simp_all add: heights_def)

lemma height_hash: "heights op e n \<Longrightarrow> height_ok n d \<Longrightarrow> height_ok n (exec_hash kec op e d)"
  unfolding exec_hash_def by (intro height_rules) (simp_all add: heights_def)

lemma ctx_wf_ptrs:
  assumes "ctx_wf c"
  shows "cx_Value c \<noteq> None" "cx_GasPrice c \<noteq> None" "cx_BlockNumber c \<noteq> None"
    "cx_Difficulty c \<noteq> None" "cx_BaseFee c \<noteq> None"
  using assms by (auto simp: ctx_wf_def ptr_wf_def split: option.splits)

lemma height_env:
  "ctx_wf (ex_ctx e) \<Longrightarrow> heights op e n \<Longrightarrow> height_ok n d \<Longrightarrow> height_ok n (exec_env op e d)"
  unfolding exec_env_def Let_def
  by (intro height_copy_to_mem height_rules) (simp_all add: heights_def ctx_wf_ptrs)

lemma length_ex_pop: "length (ex_stack (snd (ex_pop e))) = length (ex_stack e) - 1"
  by (cases "ex_stack e") (simp_all add: ex_pop_def)

lemma height_block:
  "ctx_wf (ex_ctx e) \<Longrightarrow> heights op e n \<Longrightarrow> height_ok n d \<Longrightarrow> height_ok n (exec_block op e d)"
  unfolding exec_block_def Let_def
  by (intro height_rules)
     (simp_all add: heights_def ctx_wf_ptrs height_push length_ex_pop split: prod.split,
      use length_ex_pop [of e] in \<open>auto intro!: height_push\<close>)

lemma height_memory: "heights op e n \<Longrightarrow> height_ok n d \<Longrightarrow> height_ok n (exec_memory op e d)"
  unfolding exec_memory_def
  by (intro height_rules) (simp_all add: heights_def length_ex_pop)

lemma height_storage: "heights op e n \<Longrightarrow> height_ok n d \<Longrightarrow> height_ok n (exec_storage op e d)"
  unfolding exec_storage_def
  by (intro height_rules) (simp_all add: heights_def)

lemma height_jump: "n = length (ex_stack e) \<Longrightarrow> height_ok n (ex_jump d e)"
  by (simp add: ex_jump_def Let_def height_ok_def)

lemma height_flow: "heights op e n \<Longrightarrow> height_ok n d \<Longrightarrow> height_ok n (exec_flow op e d)"
  unfolding exec_flow_def
  by (intro height_jump height_rules) (simp_all add: heights_def)

lemma height_push_data: "n = Suc (length (ex_stack e)) \<Longrightarrow> height_ok n (ex_push_data k e)"
  unfolding ex_push_data_def Let_def by (intro height_rules) simp_all

lemma heights_family:
  assumes "heights op e n"
  shows "IsPush op \<Longrightarrow> n = Suc (length (ex_stack e))"
    and "IsDup op \<Longrightarrow> \<not> IsPush op \<Longrightarrow> GetDupN op \<le> length (ex_stack e) \<and> n = Suc (length (ex_stack e))"
    and "IsSwap op \<Longrightarrow> \<not> IsPush op \<Longrightarrow> \<not> IsDup op \<Longrightarrow>
      GetSwapN op < length (ex_stack e) \<and> n = length (ex_stack e)"
    and "IsLog op \<Longrightarrow> GetLogTopics op + 2 \<le> length (ex_stack e) \<and>
      n = length (ex_stack e) - (GetLogTopics op + 2)"
  using assms
  by (auto simp: heights_def stack_effect_def IsPush_def IsDup_def IsSwap_def IsLog_def word_le_nat_alt)

lemma height_dup:
  "k \<le> length (ex_stack e) \<Longrightarrow> n = Suc (length (ex_stack e)) \<Longrightarrow>
   height_ok n (go_bind (Stack_Dup (int k) (ex_stack e)) (\<lambda>(s, err). Inr (set_stack s e, err)))"
  by (intro height_bind) (auto simp: height_ok_def Stack_Dup_def Stack_Push_def split: if_splits)

lemma height_swap:
  "k < length (ex_stack e) \<Longrightarrow> n = length (ex_stack e) \<Longrightarrow>
   height_ok n (go_bind (Stack_Swap (int k) (ex_stack e)) (\<lambda>(s, err). Inr (set_stack s e, err)))"
  by (intro height_bind) (auto simp: height_ok_def Stack_Swap_def split: if_splits)

lemma height_stackops:
  "heights op e n \<Longrightarrow> height_ok n d \<Longrightarrow> height_ok n (exec_stackops op e d)"
  unfolding exec_stackops_def
  by (intro height_push_data height_dup height_swap height_push height_if)
     (auto simp: heights_def [of OP_PUSH0] dest: heights_family)

lemma height_log:
  assumes "heights op e n" and "height_ok n d"
  shows "height_ok n (exec_log op e d)"
proof (cases "IsLog op")
  case True
  note h = heights_family(4) [OF assms(1) True]
  have "height_ok n (ex_pop2 e (\<lambda>offset sz e. ex_mem_get offset sz e (\<lambda>data e.
      go_bind (pop_topics (GetLogTopics op) e) (\<lambda>(topics, e). Inr (f topics data e, None)))))"
    if f: "\<And>t d e. ex_stack (f t d e) = ex_stack e" for f
  proof (intro height_pop2 height_mem_get height_bind)
    fix a b :: int and e1 e2 d
    assume l: "length (ex_stack e1) = length (ex_stack e) - 2" "length (ex_stack e2) = length (ex_stack e1)"
    note t = height_pop_topics [of "GetLogTopics op" e2]
    from h l have le: "GetLogTopics op \<le> length (ex_stack e2)" by linarith
    with t show "pop_topics (GetLogTopics op) e2 \<noteq> Inl NilDeref" by simp
    fix x assume "pop_topics (GetLogTopics op) e2 = Inr x"
    with t le h l f show "height_ok n (case x of (topics, e) \<Rightarrow> Inr (f topics d e, None))"
      by (cases x) (auto simp: height_ok_def)
  qed (use h assms(1) in \<open>simp_all add: heights_def\<close>)
  then show ?thesis using True by (simp add: exec_log_def)
qed (use assms in \<open>simp add: exec_log_def\<close>)

lemma height_halt: "heights op e n \<Longrightarrow> height_ok n d \<Longrightarrow> height_ok n (exec_halt op e d)"
  unfolding exec_halt_def ex_return_data_def
  by (intro height_rules) (simp_all add: heights_def)

lemmas height_groups =
  height_arith height_compare height_bitwise height_hash height_env height_block height_memory
  height_storage height_flow height_stackops height_log height_halt

lemma ctx_wf_env [simp]: "ctx_wf (ctx_env c) = ctx_wf c"
  by (simp add: ctx_wf_def ctx_env_def)

text \<open>C37. The table of operation codes and the interpreter agree.  An instruction that finds at
  least the operands its entry announces never dereferences a nil pointer, and when it returns
  without an error it has replaced exactly the announced operands by the announced results.\<close>

theorem executeOpCode_heights:
  assumes "GetOpCodeInfo op = Some info" and "ex_wf e"
    and "oi_StackPop info \<le> length (cx_Stack (ex_ctx e))"
  shows "executeOpCode kec op e \<noteq> Inl NilDeref \<and>
    (\<forall>e'. executeOpCode kec op e = Inr (e', None) \<longrightarrow>
       length (cx_Stack (ex_ctx e')) + oi_StackPop info =
       length (cx_Stack (ex_ctx e)) + oi_StackPush info)"
proof -
  let ?n = "length (ex_stack e) - oi_StackPop info + oi_StackPush info"
  have "list_all u256 (ex_stack e)" using assms(2) by (simp add: ex_wf_def stack_wf_def)
  then have "nonneg e" by (rule list.pred_mono_strong) (rule u256_nonneg)
  then have h: "heights op e ?n"
    using assms(3) stack_effect_table [OF assms(1)] by (simp add: heights_def)
  have c: "ctx_wf (ex_ctx e)" using assms(2) by (simp add: ex_wf_def)
  have "height_ok ?n (executeOpCode kec op e)"
    unfolding executeOpCode_def
    by (intro height_if height_groups h c height_Inr) (use h in \<open>simp_all add: heights_def\<close>)
  then show ?thesis using assms(3) by (auto simp: height_ok_def)
qed

theorem executeOpCode_heights_witness:
  "executeOpCode demo_kec 0x01 (set_stack [2, 3] (ex_load demo_code demo_ctx demo_exec)) \<noteq> Inl NilDeref"
proof -
  have "GetOpCodeInfo 0x01 = Some (op_info ''ADD'' 2 1 3 0 False False)"
    by (simp add: GetOpCodeInfo_def OpCodeInfoMap_def)
  moreover have "ex_wf (set_stack [2, 3] (ex_load demo_code demo_ctx demo_exec))"
    by (intro ex_wf_set_stack demo_wf) (simp add: u256_small)
  ultimately show ?thesis
    using executeOpCode_heights [of "0x01" _ "set_stack [2, 3] (ex_load demo_code demo_ctx demo_exec)"]
    by (simp add: op_info_def)
qed

end
