(* ===== verification/EvmRefine.thy ===== *)
theory EvmRefine
  imports EvmRun
begin

section \<open>The instructions implement 256-bit machine arithmetic\<close>

text \<open>
  The specification of the pure instructions is given on \<open>256 word\<close>, where the
  operations wrap by construction.  The interpreter computes on \<open>big.Int\<close> with masks,
  sign corrections and special cases; on a stack of 256-bit values it gives the specified
  result.
\<close>

unbundle bit_operations_syntax

type_synonym u256w = "256 word"

definition word_binop :: "OpCode \<Rightarrow> (u256w \<Rightarrow> u256w \<Rightarrow> u256w) option" where
  "word_binop op = map_of
     [(OP_ADD, \<lambda>a b. a + b), (OP_MUL, \<lambda>a b. a * b), (OP_SUB, \<lambda>a b. a - b),
      (OP_DIV, \<lambda>a b. if b = 0 then 0 else a div b),
      (OP_MOD, \<lambda>a b. if b = 0 then 0 else a mod b),
      (OP_EXP, \<lambda>a b. a ^ unat b),
      (OP_LT, \<lambda>a b. if a < b then 1 else 0), (OP_GT, \<lambda>a b. if b < a then 1 else 0),
      (OP_EQ, \<lambda>a b. if a = b then 1 else 0),
      (OP_AND, \<lambda>a b. a AND b), (OP_OR, \<lambda>a b. a OR b), (OP_XOR, \<lambda>a b. a XOR b),
      (OP_SHL, \<lambda>a b. push_bit (unat a) b), (OP_SHR, \<lambda>a b. drop_bit (unat a) b)] op"

definition word_unop :: "OpCode \<Rightarrow> (u256w \<Rightarrow> u256w) option" where
  "word_unop op = map_of [(OP_ISZERO, \<lambda>a. if a = 0 then 1 else 0), (OP_NOT, \<lambda>a. NOT a)] op"

lemma ex_pop2_two [simp]:
  "ex_stack e = a # b # s \<Longrightarrow> ex_pop2 e k = k a b (set_stack s e)"
  by (simp add: ex_pop2_def ex_pop1_def ex_pop_def)

lemma ex_pop1_one [simp]: "ex_stack e = a # s \<Longrightarrow> ex_pop1 e k = k a (set_stack s e)"
  by (simp add: ex_pop1_def ex_pop_def)

lemma ex_cmp_two [simp]:
  "ex_stack e = a # b # s \<Longrightarrow>
   ex_cmp e k = k (if a < b then -1 else if a = b then 0 else 1) (set_stack s e)"
  by (simp add: ex_cmp_def ex_pop_def big_cmp_def)

lemma ex_push_room: "length (ex_stack e) < 1024 \<Longrightarrow> ex_push v e = Inr (set_stack (v # ex_stack e) e, None)"
  by (simp add: ex_push_def Stack_Push_def)

text \<open>The code of each instruction.\<close>

lemma executeOpCode_arith:
  "executeOpCode kec OP_ADD e = ex_pop2 e (\<lambda>a b. ex_push ((a + b) AND maxUint256))"
  "executeOpCode kec OP_MUL e = ex_pop2 e (\<lambda>a b. ex_push ((a * b) AND maxUint256))"
  "executeOpCode kec OP_SUB e = ex_pop2 e (\<lambda>a b.
     ex_push (if a - b < 0 then a - b + (maxUint256 + 1) else a - b))"
  "executeOpCode kec OP_DIV e = ex_pop2 e (\<lambda>a b. if b = 0 then ex_push 0 else ex_push (big_div a b))"
  "executeOpCode kec OP_MOD e = ex_pop2 e (\<lambda>a b. if b = 0 then ex_push 0 else ex_push (big_mod a b))"
  "executeOpCode kec OP_EXP e = ex_pop2 e (\<lambda>a b. ex_push_ptr (big_exp a b (maxUint256 + 1)))"
  by (simp_all add: executeOpCode_def exec_arith_def Let_def)

lemma executeOpCode_compare:
  "executeOpCode kec OP_LT e = ex_cmp e (\<lambda>c. if c < 0 then ex_push 1 else ex_push 0)"
  "executeOpCode kec OP_GT e = ex_cmp e (\<lambda>c. if c > 0 then ex_push 1 else ex_push 0)"
  "executeOpCode kec OP_EQ e = ex_cmp e (\<lambda>c. if c = 0 then ex_push 1 else ex_push 0)"
  "executeOpCode kec OP_ISZERO e = ex_pop1 e (\<lambda>a. if a = 0 then ex_push 1 else ex_push 0)"
  by (simp_all add: executeOpCode_def exec_arith_def exec_compare_def)

lemma executeOpCode_bitwise:
  "executeOpCode kec OP_AND e = ex_pop2 e (\<lambda>a b. ex_push (a AND b))"
  "executeOpCode kec OP_OR e = ex_pop2 e (\<lambda>a b. ex_push (a OR b))"
  "executeOpCode kec OP_XOR e = ex_pop2 e (\<lambda>a b. ex_push (a XOR b))"
  "executeOpCode kec OP_NOT e = ex_pop1 e (\<lambda>a. ex_push (a XOR maxUint256))"
  "executeOpCode kec OP_SHL e = ex_pop2 e (\<lambda>shift value. if 256 \<le> shift then ex_push 0
     else ex_push (push_bit (unat (big_uint64 shift)) value AND maxUint256))"
  "executeOpCode kec OP_SHR e = ex_pop2 e (\<lambda>shift value. if 256 \<le> shift then ex_push 0
     else ex_push (drop_bit (unat (big_uint64 shift)) value))"
  by (simp_all add: executeOpCode_def exec_arith_def exec_compare_def exec_bitwise_def)

text \<open>Their values on words.\<close>

lemma uint_big_shift:
  fixes a :: u256w
  assumes "uint a < 256"
  shows "unat (big_uint64 (uint a)) = unat a"
proof -
  have "int (unat a) < int 256" using assms by simp
  then have "unat a < 256" by (simp only: of_nat_less_iff)
  then have "unat a mod 2 ^ 64 = unat a" by simp
  then show ?thesis by (simp add: unat_big_uint64)
qed

lemma uint_shift_big:
  fixes a b :: u256w
  assumes "256 \<le> uint a"
  shows "push_bit (unat a) b = 0" and "drop_bit (unat a) b = 0"
proof -
  have "256 \<le> nat (uint a)" using assms by linarith
  then have n: "256 \<le> unat a" by simp
  show "push_bit (unat a) b = 0" by (rule bit_word_eqI) (use n in \<open>simp add: bit_push_bit_iff\<close>)
  show "drop_bit (unat a) b = 0"
    by (rule bit_word_eqI) (use n in \<open>auto simp: bit_drop_bit_eq dest: bit_imp_le_length\<close>)
qed

lemma sub_correction:
  fixes a b :: u256w
  shows "(if uint a - uint b < 0 then uint a - uint b + two256 else uint a - uint b) = uint (a - b)"
proof -
  have lt: "uint a < two256" "uint b < two256" by simp_all
  have "0 \<le> uint a" "0 \<le> uint b" by simp_all
  with lt have "(uint a - uint b) mod two256 =
      (if uint a - uint b < 0 then uint a - uint b + two256 else uint a - uint b)"
    by (smt (verit) mod_add_self2 mod_pos_pos_trivial)
  then show ?thesis by (simp only: uint_sub_u256)
qed

lemma two256_mask: "maxUint256 + 1 = two256"
  by (simp add: maxUint256_def u256_mask_def)

text \<open>An operand-to-result step of the interpreter.\<close>

lemma push_result:
  "length s < 1024 \<Longrightarrow> ex_push v (set_stack s e) = Inr (set_stack (v # s) e, None)"
  by (simp add: ex_push_room)

lemma arith_words:
  assumes "cx_Stack (ex_ctx e) = uint a # uint b # s" and "length s < 1024"
  shows "executeOpCode kec OP_ADD e = Inr (set_stack (uint (a + b :: u256w) # s) e, None)"
    and "executeOpCode kec OP_MUL e = Inr (set_stack (uint (a * b) # s) e, None)"
    and "executeOpCode kec OP_SUB e = Inr (set_stack (uint (a - b) # s) e, None)"
    and "executeOpCode kec OP_DIV e = Inr (set_stack (uint (if b = 0 then 0 else a div b) # s) e, None)"
    and "executeOpCode kec OP_MOD e = Inr (set_stack (uint (if b = 0 then 0 else a mod b) # s) e, None)"
    and "executeOpCode kec OP_EXP e = Inr (set_stack (uint (a ^ unat b) # s) e, None)"
proof -
  show "executeOpCode kec OP_ADD e = Inr (set_stack (uint (a + b) # s) e, None)"
    using assms by (simp add: executeOpCode_arith push_result maxUint256_def and_u256_mask uint_add_u256)
  show "executeOpCode kec OP_MUL e = Inr (set_stack (uint (a * b) # s) e, None)"
    using assms by (simp add: executeOpCode_arith push_result maxUint256_def and_u256_mask uint_mult_u256)
  show "executeOpCode kec OP_SUB e = Inr (set_stack (uint (a - b) # s) e, None)"
    using assms by (simp only: executeOpCode_arith ex_pop2_two two256_mask sub_correction push_result)
  show "executeOpCode kec OP_EXP e = Inr (set_stack (uint (a ^ unat b) # s) e, None)"
    using assms by (simp add: executeOpCode_arith ex_push_ptr_def two256_mask big_exp_nonneg
        push_result uint_power_u256)
  show "executeOpCode kec OP_DIV e = Inr (set_stack (uint (if b = 0 then 0 else a div b) # s) e, None)"
  proof (cases "b = 0")
    case False
    then have "0 < uint b" by (simp add: word_neq_0_conv uint_0_iff le_neq_trans)
    with assms False show ?thesis
      by (simp add: executeOpCode_arith push_result big_div_nonneg uint_div)
  qed (use assms in \<open>simp add: executeOpCode_arith push_result\<close>)
  show "executeOpCode kec OP_MOD e = Inr (set_stack (uint (if b = 0 then 0 else a mod b) # s) e, None)"
  proof (cases "b = 0")
    case False
    with assms show ?thesis
      by (simp add: executeOpCode_arith push_result big_mod_nonneg uint_mod uint_0_iff)
  qed (use assms in \<open>simp add: executeOpCode_arith push_result\<close>)
qed

lemma compare_words:
  assumes "cx_Stack (ex_ctx e) = uint a # uint b # s" and "length s < 1024"
  shows "executeOpCode kec OP_LT e = Inr (set_stack (uint (if a < b then 1 else 0 :: u256w) # s) e, None)"
    and "executeOpCode kec OP_GT e = Inr (set_stack (uint (if b < a then 1 else 0 :: u256w) # s) e, None)"
    and "executeOpCode kec OP_EQ e = Inr (set_stack (uint (if a = b then 1 else 0 :: u256w) # s) e, None)"
  using assms by (simp_all add: executeOpCode_compare push_result word_less_def word_uint_eq_iff)

lemma bitwise_words:
  assumes "cx_Stack (ex_ctx e) = uint a # uint b # s" and "length s < 1024"
  shows "executeOpCode kec OP_AND e = Inr (set_stack (uint (a AND b :: u256w) # s) e, None)"
    and "executeOpCode kec OP_OR e = Inr (set_stack (uint (a OR b) # s) e, None)"
    and "executeOpCode kec OP_XOR e = Inr (set_stack (uint (a XOR b) # s) e, None)"
    and "executeOpCode kec OP_SHL e = Inr (set_stack (uint (push_bit (unat a) b) # s) e, None)"
    and "executeOpCode kec OP_SHR e = Inr (set_stack (uint (drop_bit (unat a) b) # s) e, None)"
proof -
  show "executeOpCode kec OP_AND e = Inr (set_stack (uint (a AND b :: u256w) # s) e, None)"
    "executeOpCode kec OP_OR e = Inr (set_stack (uint (a OR b) # s) e, None)"
    "executeOpCode kec OP_XOR e = Inr (set_stack (uint (a XOR b) # s) e, None)"
    using assms by (simp_all add: executeOpCode_bitwise push_result uint_and uint_or uint_xor)
  show "executeOpCode kec OP_SHL e = Inr (set_stack (uint (push_bit (unat a) b) # s) e, None)"
    using assms by (cases "256 \<le> uint a") (simp_all add: executeOpCode_bitwise push_result
        uint_shift_big uint_big_shift maxUint256_def and_u256_mask flip: uint_push_bit_u256)
  show "executeOpCode kec OP_SHR e = Inr (set_stack (uint (drop_bit (unat a) b) # s) e, None)"
    using assms by (cases "256 \<le> uint a") (simp_all add: executeOpCode_bitwise push_result
        uint_shift_big uint_big_shift flip: uint_drop_bit_u256)
qed

text \<open>C3. Refinement of the two-operand instructions.  On two 256-bit values, \<open>ADD\<close>,
  \<open>MUL\<close>, \<open>SUB\<close>, \<open>DIV\<close>, \<open>MOD\<close>, \<open>EXP\<close>, the comparisons,
  the bitwise operations and the shifts leave the value of the corresponding operation on 256-bit
  machine words, and change nothing else.\<close>

theorem executeOpCode_binop:
  assumes "word_binop op = Some f" and "cx_Stack (ex_ctx e) = uint a # uint b # s" and "length s < 1024"
  shows "executeOpCode kec op e = Inr (set_stack (uint (f a b) # s) e, None)"
  using assms(1) unfolding word_binop_def map_of.simps fst_conv snd_conv
  by (auto simp only: fun_upd_apply option.inject split: if_splits
      intro: arith_words [OF assms(2,3)] compare_words [OF assms(2,3)] bitwise_words [OF assms(2,3)])

theorem executeOpCode_binop_witness:
  "executeOpCode demo_kec 0x03 (set_stack [3, 5] demo_exec) =
     Inr (set_stack [uint (3 - 5 :: 256 word)] demo_exec, None)"
  using executeOpCode_binop [of "0x03" "\<lambda>a b. a - b" "set_stack [3, 5] demo_exec" 3 5 "[]" demo_kec]
  by (simp add: word_binop_def)

text \<open>Refinement of the one-operand instructions: \<open>ISZERO\<close> and \<open>NOT\<close> on
  256-bit machine words.\<close>

theorem executeOpCode_unop:
  assumes "word_unop op = Some f" and "cx_Stack (ex_ctx e) = uint a # s" and "length s < 1024"
  shows "executeOpCode kec op e = Inr (set_stack (uint (f a) # s) e, None)"
  using assms
  by (auto simp: word_unop_def executeOpCode_compare executeOpCode_bitwise push_result uint_0_iff
      maxUint256_def uint_not_u256 split: if_splits)

theorem executeOpCode_unop_witness:
  "executeOpCode demo_kec 0x15 (set_stack [0] demo_exec) = Inr (set_stack [1] demo_exec, None)"
  using executeOpCode_unop [of "0x15" "\<lambda>a. if a = 0 then 1 else 0" "set_stack [0] demo_exec" 0 "[]" demo_kec]
  by (simp add: word_unop_def)

end
