(* ===== verification/EvmAbi.thy ===== *)
theory EvmAbi
  imports EvmVmFacts
begin

section \<open>ABI encoding: \<open>simulations/pkg/evm/abi.go\<close>\<close>

text \<open>
  The encoder and the decoder of contract calls.  The arguments of a call have type
  \<open>interface{}\<close>: \<open>abi_arg\<close> has one constructor per dynamic type the code
  distinguishes, and \<open>AOther\<close> for every other.  A string is the list of its bytes.
  The hash is the parameter \<open>kec\<close>.  \<open>big.Int.SetString\<close> leaves an unspecified value
  when it fails and the code ignores the failure: that value is the parameter \<open>junk\<close>.
\<close>

unbundle bit_operations_syntax

datatype AbiError =
    CountMismatch nat nat | ArgError nat AbiError | ExpectedBool | ExpectedString
  | UnsupportedType string | NotBigInt | NotAddress | NotBytes | BadHex

datatype abi_arg =
    ABig "int option" | AInt int | AInt64 int | AUint64 u64 | AString string
  | AAddress Address | ABytes "byte list" | ABool bool | AOther

definition bytes_of_string :: "string \<Rightarrow> byte list" where
  "bytes_of_string s = map of_char s"

definition string_of_bytes :: "byte list \<Rightarrow> string" where
  "string_of_bytes bs = map (\<lambda>b. char_of (unat b)) bs"

subsection \<open>Selectors\<close>

definition FunctionSelector :: "(byte list \<Rightarrow> byte list) \<Rightarrow> string \<Rightarrow> byte list go" where
  "FunctionSelector kec signature = go_slice (kec (bytes_of_string signature)) 0 4"

definition FunctionSelectorHex :: "(byte list \<Rightarrow> byte list) \<Rightarrow> string \<Rightarrow> string go" where
  "FunctionSelectorHex kec signature =
     go_bind (FunctionSelector kec signature) (\<lambda>s. Inr (''0x'' @ hex_encode s))"

definition EventTopic :: "(byte list \<Rightarrow> byte list) \<Rightarrow> string \<Rightarrow> byte list" where
  "EventTopic kec signature = kec (bytes_of_string signature)"

definition EventTopicHex :: "(byte list \<Rightarrow> byte list) \<Rightarrow> string \<Rightarrow> string" where
  "EventTopicHex kec signature = ''0x'' @ hex_encode (EventTopic kec signature)"

subsection \<open>Encoding\<close>

text \<open>\<open>copy(result[32-len(bytes):], bytes)\<close> on a fresh array of 32 bytes.\<close>

definition right_align :: "byte list \<Rightarrow> byte list go" where
  "right_align bs =
     (if 32 < length bs then Inl SliceBounds
      else Inr (go_copy_at (replicate 32 0) (32 - length bs) bs))"

definition EncodeUint256 :: "int option \<Rightarrow> byte list go" where
  "EncodeUint256 val =
     (case val of None \<Rightarrow> Inr (replicate 32 0) | Some v \<Rightarrow> right_align (big_bytes v))"

text \<open>\<open>for i := 31; i >= 0 && carry > 0; i-- { ... }\<close>\<close>

fun add_carry :: "nat \<Rightarrow> byte \<Rightarrow> byte list \<Rightarrow> byte list" where
  "add_carry i carry result =
     (if carry = 0 then result
      else
        let sum = result ! i + carry;
            result = result[i := sum];
            carry = (if carry \<le> sum then 0 else carry)
        in (case i of 0 \<Rightarrow> result | Suc j \<Rightarrow> add_carry j carry result))"

declare add_carry.simps [simp del]

definition EncodeInt256 :: "int option \<Rightarrow> byte list go" where
  "EncodeInt256 val =
     (case val of
        None \<Rightarrow> Inr (replicate 32 0)
      | Some v \<Rightarrow>
          if 0 \<le> v then right_align (big_bytes v)
          else
            let absBytes = big_bytes \<bar>v\<bar> in
            if 32 < length absBytes then Inl IndexOutOfRange
            else Inr (add_carry 31 1
                   (go_copy_at (replicate 32 0xFF) (32 - length absBytes) (map NOT absBytes))))"

definition EncodeAddress :: "Address \<Rightarrow> byte list" where
  "EncodeAddress addr = go_copy_at (replicate 32 0) 12 addr"

definition EncodeBool :: "bool \<Rightarrow> byte list" where
  "EncodeBool val = (let result = replicate 32 0 in if val then result[31 := 1] else result)"

definition EncodeBytes32 :: "byte list \<Rightarrow> byte list" where
  "EncodeBytes32 data =
     (let data = (if 32 < length data then take 32 data else data)
      in go_copy (replicate 32 0) data)"

definition EncodeBytes :: "byte list \<Rightarrow> byte list go" where
  "EncodeBytes data =
     go_bind (EncodeUint256 (Some (int (length data)))) (\<lambda>len.
       let paddedLen = ((length data + 31) div 32) * 32
       in Inr (len @ go_copy (replicate paddedLen 0) data))"

definition EncodeString :: "string \<Rightarrow> byte list go" where
  "EncodeString s = EncodeBytes (bytes_of_string s)"

definition EncodeUint256Array :: "int option list \<Rightarrow> byte list go" where
  "EncodeUint256Array vals =
     go_bind (EncodeUint256 (Some (int (length vals)))) (\<lambda>result.
       fold (\<lambda>val r. go_bind r (\<lambda>result. go_bind (EncodeUint256 val) (\<lambda>bs. Inr (result @ bs))))
         vals (Inr result))"

subsection \<open>Arguments\<close>

definition has_0x :: "string \<Rightarrow> bool" where
  "has_0x v \<longleftrightarrow> take 2 v = ''0x''"

definition toBigInt :: "(string \<Rightarrow> int) \<Rightarrow> abi_arg \<Rightarrow> AbiError + int option" where
  "toBigInt junk arg =
     (case arg of
        ABig v \<Rightarrow> Inr v
      | AInt v \<Rightarrow> Inr (Some v)
      | AInt64 v \<Rightarrow> Inr (Some v)
      | AUint64 v \<Rightarrow> Inr (Some (uint v))
      | AString v \<Rightarrow>
          Inr (Some (case (if has_0x v then big_set_string 16 (drop 2 v) else big_set_string 10 v) of
                 None \<Rightarrow> junk v | Some x \<Rightarrow> x))
      | _ \<Rightarrow> Inl NotBigInt)"

definition toAddress :: "abi_arg \<Rightarrow> AbiError + Address" where
  "toAddress arg =
     (case arg of
        AAddress v \<Rightarrow> Inr v
      | AString v \<Rightarrow> Inr (HexToAddress v)
      | ABytes v \<Rightarrow> Inr (fit_array 20 v)
      | _ \<Rightarrow> Inl NotAddress)"

definition toBytes :: "abi_arg \<Rightarrow> AbiError + byte list" where
  "toBytes arg =
     (case arg of
        ABytes v \<Rightarrow> Inr v
      | AString v \<Rightarrow>
          if has_0x v then
            (case hex_decode (drop 2 v) of (bs, bad) \<Rightarrow> if bad then Inl BadHex else Inr bs)
          else Inr (bytes_of_string v)
      | _ \<Rightarrow> Inl NotBytes)"

text \<open>An error of the conversion ends the encoding of the argument.\<close>

definition with_arg ::
  "(AbiError + 'a) \<Rightarrow> ('a \<Rightarrow> (AbiError + 'b) go) \<Rightarrow> (AbiError + 'b) go" where
  "with_arg r k = (case r of Inl err \<Rightarrow> Inr (Inl err) | Inr x \<Rightarrow> k x)"

definition encodeArg ::
  "(string \<Rightarrow> int) \<Rightarrow> string \<Rightarrow> abi_arg \<Rightarrow> (AbiError + byte list \<times> bool) go" where
  "encodeArg junk abiType arg =
     (if abiType \<in> set [''uint256'', ''uint128'', ''uint64'', ''uint32'', ''uint8''] then
        with_arg (toBigInt junk arg) (\<lambda>val. go_bind (EncodeUint256 val) (\<lambda>bs. Inr (Inr (bs, False))))
      else if abiType = ''int256'' then
        with_arg (toBigInt junk arg) (\<lambda>val. go_bind (EncodeInt256 val) (\<lambda>bs. Inr (Inr (bs, False))))
      else if abiType = ''address'' then
        with_arg (toAddress arg) (\<lambda>addr. Inr (Inr (EncodeAddress addr, False)))
      else if abiType = ''bool'' then
        (case arg of ABool val \<Rightarrow> Inr (Inr (EncodeBool val, False)) | _ \<Rightarrow> Inr (Inl ExpectedBool))
      else if abiType = ''bytes32'' then
        with_arg (toBytes arg) (\<lambda>data. Inr (Inr (EncodeBytes32 data, False)))
      else if abiType = ''bytes'' then
        with_arg (toBytes arg) (\<lambda>data. go_bind (EncodeBytes data) (\<lambda>bs. Inr (Inr (bs, True))))
      else if abiType = ''string'' then
        (case arg of
           AString s \<Rightarrow> go_bind (EncodeString s) (\<lambda>bs. Inr (Inr (bs, True)))
         | _ \<Rightarrow> Inr (Inl ExpectedString))
      else Inr (Inl (UnsupportedType abiType)))"

subsection \<open>Calls\<close>

text \<open>\<open>strings.Split\<close> on a one-character separator; the result is never empty.\<close>

fun split_on :: "char \<Rightarrow> string \<Rightarrow> string list" where
  "split_on sep [] = [[]]"
| "split_on sep (c # cs) =
     (if c = sep then [] # split_on sep cs
      else (case split_on sep cs of [] \<Rightarrow> [[c]] | w # ws \<Rightarrow> (c # w) # ws))"

text \<open>\<open>strings.Index\<close> and \<open>strings.LastIndex\<close> of a character, -1 when absent.\<close>

fun str_index :: "char \<Rightarrow> string \<Rightarrow> int" where
  "str_index c [] = -1"
| "str_index c (x # xs) = (if x = c then 0 else let i = str_index c xs in if i < 0 then -1 else i + 1)"

definition str_last_index :: "char \<Rightarrow> string \<Rightarrow> int" where
  "str_last_index c s =
     (let i = str_index c (rev s) in if i < 0 then -1 else int (length s) - 1 - i)"

definition parseSignatureTypes :: "string \<Rightarrow> string list" where
  "parseSignatureTypes signature =
     (let start = str_index CHR ''('' signature;
          en = str_last_index CHR '')'' signature
      in if start < 0 \<or> en < 0 \<or> en \<le> start then []
         else
           let typesStr = take (nat (en - (start + 1))) (drop (nat (start + 1)) signature)
           in if typesStr = [] then [] else split_on CHR '','' typesStr)"

text \<open>The loop over the arguments; \<open>i\<close> is the index.\<close>

fun encode_args ::
  "(string \<Rightarrow> int) \<Rightarrow> nat \<Rightarrow> nat \<Rightarrow> (string \<times> abi_arg) list \<Rightarrow> byte list \<Rightarrow> byte list
     \<Rightarrow> (AbiError + byte list \<times> byte list) go" where
  "encode_args junk headSize i [] heads tails = Inr (Inr (heads, tails))"
| "encode_args junk headSize i ((abiType, arg) # rest) heads tails =
     go_bind (encodeArg junk abiType arg) (\<lambda>r.
       case r of
         Inl err \<Rightarrow> Inr (Inl (ArgError i err))
       | Inr (encoded, isDynamic) \<Rightarrow>
           if isDynamic then
             go_bind (EncodeUint256 (Some (int (headSize + length tails)))) (\<lambda>off.
               encode_args junk headSize (i + 1) rest (heads @ off) (tails @ encoded))
           else encode_args junk headSize (i + 1) rest (heads @ encoded) tails)"

definition EncodeCall ::
  "(byte list \<Rightarrow> byte list) \<Rightarrow> (string \<Rightarrow> int) \<Rightarrow> string \<Rightarrow> abi_arg list
     \<Rightarrow> (AbiError + byte list) go" where
  "EncodeCall kec junk signature args =
     go_bind (FunctionSelector kec signature) (\<lambda>selector.
       let types = parseSignatureTypes signature in
       if length types \<noteq> length args then Inr (Inl (CountMismatch (length types) (length args)))
       else
         let headSize = length types * 32 in
         go_bind (encode_args junk headSize 0 (zip types args) [] []) (\<lambda>r.
           case r of
             Inl err \<Rightarrow> Inr (Inl err)
           | Inr (heads, tails) \<Rightarrow> Inr (Inr (selector @ heads @ tails))))"

subsection \<open>Decoding\<close>

definition DecodeUint256 :: "byte list \<Rightarrow> int" where
  "DecodeUint256 data =
     (let data = (if length data < 32
                  then go_copy_at (replicate 32 0) (32 - length data) data else data)
      in big_of_bytes (take 32 data))"

definition DecodeInt256 :: "byte list \<Rightarrow> int" where
  "DecodeInt256 data =
     (if length data < 32 then 0
      else
        let val = big_of_bytes (take 32 data)
        in if data ! 0 AND 0x80 \<noteq> 0 then val - push_bit 256 1 else val)"

definition DecodeAddress :: "byte list \<Rightarrow> Address" where
  "DecodeAddress data =
     (if 32 \<le> length data then go_copy zero_addr (take 20 (drop 12 data)) else zero_addr)"

definition DecodeBool :: "byte list \<Rightarrow> bool" where
  "DecodeBool data \<longleftrightarrow> \<not> length data < 32 \<and> data ! 31 \<noteq> 0"

definition DecodeBytes32 :: "byte list \<Rightarrow> byte list" where
  "DecodeBytes32 data =
     (if 32 \<le> length data then go_copy (replicate 32 0) (take 32 data) else replicate 32 0)"

text \<open>A Go \<open>int\<close> wraps at 64 bits.\<close>

definition int64 :: "int \<Rightarrow> int" where
  "int64 x = sint (word_of_int x :: u64)"

text \<open>The offset is a Go \<open>int\<close>; nil is the empty list.\<close>

definition DecodeBytes :: "byte list \<Rightarrow> int \<Rightarrow> byte list go" where
  "DecodeBytes data offset =
     (let start = int64 (offset + 32) in
      if int (length data) < start then Inr []
      else if offset < 0 \<or> start < offset then Inl SliceBounds
      else
        go_bind (go_slice data (nat offset) (nat start)) (\<lambda>word.
          let len = big_uint64 (DecodeUint256 word);
              en = (of_int start :: u64) + len
          in if length data < unat en then Inr []
             else
               go_bind (go_make (unat len)) (\<lambda>result.
                 go_bind (go_slice data (nat start) (unat en)) (\<lambda>src. Inr (go_copy result src)))))"

definition DecodeString :: "byte list \<Rightarrow> int \<Rightarrow> string go" where
  "DecodeString data offset = go_bind (DecodeBytes data offset) (\<lambda>bs. Inr (string_of_bytes bs))"

definition Uint64ToBytes :: "u64 \<Rightarrow> byte list" where
  "Uint64ToBytes val = map (\<lambda>i. ucast (drop_bit (56 - 8 * i) val)) [0..<8]"

end
