(* ===== verification/EvmAbiFacts.thy ===== *)
theory EvmAbiFacts
  imports EvmAbi
begin

section \<open>Decoding inverts encoding\<close>

text \<open>
  Each static type is a fixed-width codec (\<open>byte_codec\<close>); \<open>int256\<close> includes the
  byte-wise two's complement.  Dynamic values are found through the offset in the head of a
  call (\<open>EncodeCall_bytes\<close>).
\<close>

unbundle bit_operations_syntax

subsection \<open>Unsigned values\<close>

lemma right_align_ok: "length bs \<le> 32 \<Longrightarrow> right_align bs = Inr (pad_left 32 bs)"
  by (simp add: right_align_def go_copy_at_def go_copy_def pad_left_def)

lemma length_big_bytes_u256: "u256 v \<Longrightarrow> length (big_bytes v) \<le> 32"
  by (simp add: length_big_bytes_le u256_def two256_def)

lemma EncodeUint256_ok: "u256 v \<Longrightarrow> EncodeUint256 (Some v) = Inr (pad_left 32 (big_bytes v))"
  by (simp add: EncodeUint256_def right_align_ok length_big_bytes_u256)

text \<open>A value out of range is not encoded: the slice expression panics.\<close>

lemma EncodeUint256_panics: "two256 \<le> v \<Longrightarrow> EncodeUint256 (Some v) = Inl SliceBounds"
  using length_big_bytes_le [of v 32]
  by (simp add: EncodeUint256_def right_align_def two256_def not_le)

definition enc_uint :: "int \<Rightarrow> byte list" where
  "enc_uint v = projr (EncodeUint256 (Some v))"

lemma enc_uint_ok: "u256 v \<Longrightarrow> EncodeUint256 (Some v) = Inr (enc_uint v)"
  by (simp add: enc_uint_def EncodeUint256_ok)

lemma length_enc_uint: "u256 v \<Longrightarrow> length (enc_uint v) = 32"
  by (simp add: enc_uint_def EncodeUint256_ok length_big_bytes_u256)

lemma DecodeUint256_long: "length bs = 32 \<Longrightarrow> DecodeUint256 (bs @ rest) = big_of_bytes bs"
  by (simp add: DecodeUint256_def)

lemma big_of_enc_uint: "u256 v \<Longrightarrow> big_of_bytes (enc_uint v) = v"
  using big_of_bytes_bytes [of v]
  by (simp add: enc_uint_def EncodeUint256_ok big_of_bytes_def u256_nonneg)

interpretation uint_codec: byte_codec enc_uint DecodeUint256 u256 32
  by unfold_locales (simp_all add: DecodeUint256_long length_enc_uint big_of_enc_uint)

subsection \<open>Signed values\<close>

lemma add_carry_0 [simp]: "add_carry i 0 r = r"
  by (simp add: add_carry.simps)

lemma be_nat_update_take:
  "i < length r \<Longrightarrow> be_nat (take (Suc i) r) = be_nat (take i r) * 256 + unat (r ! i)"
  by (simp add: take_Suc_conv_app_nth)

lemma byte_succ:
  fixes b :: byte
  shows "unat (b + 1) = (unat b + 1) mod 256" and "b + 1 = 0 \<longleftrightarrow> unat b = 255"
proof -
  show m: "unat (b + 1) = (unat b + 1) mod 256" by (simp add: unat_word_ariths)
  have "b + 1 = 0 \<longleftrightarrow> unat (b + 1) = 0" by (simp add: unat_eq_0)
  also have "\<dots> \<longleftrightarrow> unat b = 255"
  proof (cases "unat b = 255")
    case False
    then have "unat b + 1 < 256" using unat_byte_lt [of b] by linarith
    with False show ?thesis unfolding m by simp
  qed (simp add: m)
  finally show "b + 1 = 0 \<longleftrightarrow> unat b = 255" .
qed

lemma mod_carry:
  fixes a m :: nat
  assumes "a < m"
  shows "(a * 256 + 255 + 1) mod (m * 256) = ((a + 1) mod m) * 256"
    and "q < 255 \<Longrightarrow> (a * 256 + q + 1) mod (m * 256) = a * 256 + (q + 1)"
proof -
  have "a * 256 + 255 + 1 = (a + 1) * 256" by simp
  then show "(a * 256 + 255 + 1) mod (m * 256) = ((a + 1) mod m) * 256"
    by (simp only: mult_mod_left)
  assume "q < 255"
  then have "a * 256 + q + 1 < (a + 1) * 256" by simp
  also have "\<dots> \<le> m * 256" using assms by (intro mult_le_mono1) simp
  finally show "(a * 256 + q + 1) mod (m * 256) = a * 256 + (q + 1)" by simp
qed

text \<open>The carry loop adds one modulo the size of the array.\<close>

lemma add_carry_value:
  assumes "i < length r"
  shows "length (add_carry i 1 r) = length r \<and> drop (Suc i) (add_carry i 1 r) = drop (Suc i) r \<and>
    be_nat (take (Suc i) (add_carry i 1 r)) = (be_nat (take (Suc i) r) + 1) mod 256 ^ Suc i"
  using assms
proof (induction i arbitrary: r)
  case 0
  then obtain b bs where "r = b # bs" by (cases r) auto
  then show ?case by (simp add: add_carry.simps [of 0 1] Let_def be_nat_Cons byte_succ(1))
next
  case (Suc i)
  define q where "q = r ! Suc i"
  let ?r = "r[Suc i := q + 1]"
  let ?a = "be_nat (take (Suc i) r)"
  have eq: "add_carry (Suc i) 1 r = add_carry i (if 1 \<le> q + 1 then 0 else 1) ?r"
    by (simp add: add_carry.simps [of "Suc i"] q_def)
  have split: "be_nat (take (Suc (Suc i)) xs) = be_nat (take (Suc i) xs) * 256 + unat (xs ! Suc i)"
    if "Suc i < length xs" for xs
    using that by (rule be_nat_update_take)
  have a: "?a < 256 ^ Suc i" using be_nat_lt [of "take (Suc i) r"] Suc.prems by simp
  have pow: "(256 :: nat) ^ Suc (Suc i) = 256 ^ Suc i * 256" by simp
  have old: "be_nat (take (Suc (Suc i)) r) = ?a * 256 + unat q"
    using split [of r] Suc.prems by (simp add: q_def)
  show ?case
  proof (cases "unat q = 255")
    case True
    then have z: "q + 1 = 0" using byte_succ(2) by blast
    let ?x = "add_carry i 1 ?r"
    have IH: "length ?x = length r" "drop (Suc i) ?x = drop (Suc i) ?r"
      "be_nat (take (Suc i) ?x) = (?a + 1) mod 256 ^ Suc i"
      using Suc.IH [of ?r] Suc.prems by simp_all
    have "drop (Suc (Suc i)) ?x = drop (Suc (Suc i)) r"
      using arg_cong [OF IH(2), of "drop 1"] by simp
    moreover have "?x ! Suc i = q + 1"
      using arg_cong [OF IH(2), of hd] Suc.prems IH(1) by (simp add: hd_drop_conv_nth)
    moreover have "be_nat (take (Suc (Suc i)) ?x) = (?a * 256 + unat q + 1) mod 256 ^ Suc (Suc i)"
      using split [of ?x] IH Suc.prems calculation(2) z
      unfolding True pow mod_carry(1) [OF a] by simp
    moreover have "add_carry (Suc i) 1 r = ?x" using eq z by simp
    ultimately show ?thesis using IH(1) old by simp
  next
    case False
    then have "q + 1 \<noteq> 0" using byte_succ(2) by blast
    then have "unat (q + 1) \<noteq> 0" using unat_eq_0 [of "q + 1"] by blast
    then have "1 \<le> q + 1" by (simp add: word_le_nat_alt)
    then have x: "add_carry (Suc i) 1 r = ?r" using eq by simp
    have q: "unat q < 255" using False unat_byte_lt [of q] by linarith
    then have "unat (q + 1) = unat q + 1" by (simp add: byte_succ(1))
    then have "be_nat (take (Suc (Suc i)) ?r) = ?a * 256 + (unat q + 1)"
      using split [of ?r] Suc.prems by simp
    then show ?thesis unfolding x old pow mod_carry(2) [OF a q] by simp
  qed
qed

lemma unat_not_byte: "unat (NOT (b :: byte)) = 255 - unat b"
proof -
  have "NOT b = - b - 1" by (simp add: not_eq_complement)
  moreover have "uint (- b - 1) = 255 - uint b"
  proof -
    have "(- uint b - 1) mod 256 = 255 - uint b"
    proof -
      have "0 \<le> uint b" "uint b < 256" using uint_lt2p [of b] by simp_all
      then have "(255 - uint b) mod 256 = 255 - uint b" by (intro mod_pos_pos_trivial) linarith+
      moreover have "255 - uint b = - uint b - 1 + 256" by simp
      ultimately show ?thesis by (metis mod_add_self2)
    qed
    then show ?thesis by (simp add: uint_word_ariths mod_simps)
  qed
  ultimately have "int (unat (NOT b)) = 255 - int (unat b)" by simp
  then show ?thesis by linarith
qed

lemma be_nat_map_not: "be_nat (map NOT bs) = 256 ^ length bs - 1 - be_nat bs"
proof (induction bs rule: rev_induct)
  case (snoc b bs)
  have "be_nat bs < 256 ^ length bs" by (rule be_nat_lt)
  then obtain d where d: "256 ^ length bs = be_nat bs + 1 + d" using less_iff_Suc_add by auto
  show ?case
    using snoc d unat_byte_lt [of b] by (simp add: unat_not_byte algebra_simps del: unat_byte_lt)
qed simp

lemma be_nat_ones: "be_nat (replicate k 0xFF) = 256 ^ k - 1"
proof -
  have "map NOT (replicate k (0 :: byte)) = replicate k 0xFF" by simp
  then show ?thesis using be_nat_map_not [of "replicate k 0"] by (metis be_nat_zeros diff_zero length_replicate)
qed

definition i256 :: "int \<Rightarrow> bool" where
  "i256 v \<longleftrightarrow> - (2 ^ 255) \<le> v \<and> v < 2 ^ 255"

text \<open>The encoding of a negative value is its residue modulo \<open>2 ^ 256\<close>.\<close>

lemma EncodeInt256_neg:
  assumes "- two256 < v" and "v < 0"
  obtains bs where "EncodeInt256 (Some v) = Inr bs" and "length bs = 32"
    and "big_of_bytes bs = v + two256"
proof -
  let ?ab = "big_bytes \<bar>v\<bar>"
  have len: "length ?ab \<le> 32"
    using assms by (simp add: length_big_bytes_le two256_def)
  define r where "r = go_copy_at (replicate 32 0xFF) (32 - length ?ab) (map NOT ?ab)"
  have r: "r = replicate (32 - length ?ab) 0xFF @ map NOT ?ab"
    using len by (simp add: r_def go_copy_at_def go_copy_def)
  have lr: "length r = 32" using len by (simp add: r)
  have v: "int (be_nat ?ab) = - v"
    using big_of_bytes_bytes [of "\<bar>v\<bar>"] assms(2) by (simp add: big_of_bytes_def)
  have lt: "be_nat ?ab < 256 ^ length ?ab" by (rule be_nat_lt)
  have "be_nat r = (256 ^ (32 - length ?ab) - 1) * 256 ^ length ?ab + (256 ^ length ?ab - 1 - be_nat ?ab)"
    unfolding r by (simp only: be_nat_append be_nat_ones be_nat_map_not length_map)
  also have "\<dots> = 256 ^ 32 - 1 - be_nat ?ab"
  proof -
    have p: "(256 :: nat) ^ (32 - length ?ab) * 256 ^ length ?ab = 256 ^ 32"
      using len by (simp flip: power_add)
    have "(256 :: nat) ^ length ?ab \<le> 256 ^ (32 - length ?ab) * 256 ^ length ?ab" by simp
    then show ?thesis using lt unfolding diff_mult_distrib p by simp
  qed
  finally have br: "be_nat r = 256 ^ 32 - 1 - be_nat ?ab" .
  let ?bs = "add_carry 31 1 r"
  note acv = add_carry_value [of 31 r]
  have ac1: "length ?bs = 32" using acv lr by simp
  have "Suc 31 = 32" by simp
  then have ac2: "be_nat ?bs = (be_nat r + 1) mod 256 ^ 32"
    using acv lr ac1 by (simp only: take_all order_refl)
  have "be_nat ?ab > 0" using v assms(2) by linarith
  moreover have "be_nat ?ab < 256 ^ 32"
    using lt len power_increasing [of "length ?ab" 32 "256 :: nat"] by linarith
  ultimately have "be_nat ?bs = 256 ^ 32 - be_nat ?ab"
    unfolding ac2 br by (subst mod_less) linarith+
  then have "int (be_nat ?bs) = int (256 ^ 32) - int (be_nat ?ab)"
    using \<open>be_nat ?ab < 256 ^ 32\<close> by (simp only: of_nat_diff less_imp_le)
  moreover have "two256 = int (256 ^ 32)" by (simp add: two256_def)
  ultimately have "big_of_bytes ?bs = v + two256"
    unfolding big_of_bytes_def v by linarith
  moreover have "EncodeInt256 (Some v) = Inr ?bs"
    using assms(2) len by (simp add: EncodeInt256_def Let_def r_def not_less)
  ultimately show ?thesis using ac1 that by blast
qed

text \<open>The sign bit.\<close>

lemma byte_sign: "(b :: byte) AND 0x80 \<noteq> 0 \<longleftrightarrow> 128 \<le> unat b"
proof -
  have "(b AND 2 ^ 7 = 0) = (\<not> bit b 7)" by (rule and_exp_eq_0_iff_not_bit)
  moreover have "bit (unat b) 7 = bit b 7" by (simp add: bit_unsigned_iff)
  moreover have "bit (unat b) 7 = odd (unat b div 2 ^ 7)" by (rule bit_iff_odd)
  moreover have "odd (unat b div 128) \<longleftrightarrow> 128 \<le> unat b"
  proof (cases "128 \<le> unat b")
    case True
    then have "unat b div 128 = 1"
      using unat_byte_lt [of b] by (intro div_nat_eqI) simp_all
    with True show ?thesis by simp
  qed simp
  ultimately show ?thesis by simp
qed

lemma sign_value:
  assumes "length bs = 32"
  shows "bs ! 0 AND 0x80 \<noteq> 0 \<longleftrightarrow> 2 ^ 255 \<le> big_of_bytes bs"
proof -
  obtain b r where bs: "bs = b # r" "length r = 31" using assms by (cases bs) auto
  have r: "be_nat r < 256 ^ 31" using be_nat_lt [of r] bs(2) by simp
  have v: "be_nat bs = unat b * 256 ^ 31 + be_nat r" unfolding bs(1) be_nat_Cons bs(2) ..
  have p: "(2 :: nat) ^ 255 = 128 * 256 ^ 31" by simp
  have "128 \<le> unat b \<longleftrightarrow> 2 ^ 255 \<le> be_nat bs"
  proof
    assume "128 \<le> unat b"
    then have "128 * 256 ^ 31 \<le> unat b * 256 ^ 31" by (rule mult_le_mono1)
    then show "2 ^ 255 \<le> be_nat bs" unfolding v p by linarith
  next
    assume le: "2 ^ 255 \<le> be_nat bs"
    show "128 \<le> unat b"
    proof (rule ccontr)
      assume "\<not> 128 \<le> unat b"
      then have "unat b + 1 \<le> 128" by linarith
      then have "(unat b + 1) * 256 ^ 31 \<le> 128 * 256 ^ 31" by (rule mult_le_mono1)
      with le r show False unfolding v p by (simp only: add_mult_distrib mult_1_left)
    qed
  qed
  moreover have "2 ^ 255 \<le> big_of_bytes bs \<longleftrightarrow> 2 ^ 255 \<le> be_nat bs"
    unfolding big_of_bytes_def by (metis of_nat_le_iff of_nat_numeral of_nat_power)
  ultimately show ?thesis using byte_sign [of b] bs(1) by simp
qed

lemma DecodeInt256_long:
  "length bs = 32 \<Longrightarrow> DecodeInt256 (bs @ rest) =
     (if 2 ^ 255 \<le> big_of_bytes bs then big_of_bytes bs - two256 else big_of_bytes bs)"
  using sign_value [of bs]
  by (simp add: DecodeInt256_def Let_def nth_append push_bit_eq_mult two256_def del: power_numeral)

definition enc_int :: "int \<Rightarrow> byte list" where
  "enc_int v = projr (EncodeInt256 (Some v))"

lemma enc_int_ok:
  assumes "i256 v"
  shows "EncodeInt256 (Some v) = Inr (enc_int v)" and "length (enc_int v) = 32"
    and "DecodeInt256 (enc_int v @ rest) = v"
proof -
  have "\<exists>bs. EncodeInt256 (Some v) = Inr bs \<and> length bs = 32 \<and> DecodeInt256 (bs @ rest) = v"
  proof (cases "0 \<le> v")
    case True
    have "v < 2 ^ 255" using assms by (simp add: i256_def)
    moreover have "(2 :: int) ^ 255 < two256" by (simp add: two256_def)
    ultimately have u: "u256 v" using True unfolding u256_def by linarith
    then have "EncodeInt256 (Some v) = Inr (enc_uint v)"
      using True enc_uint_ok [OF u] by (simp add: EncodeInt256_def EncodeUint256_def)
    with u \<open>v < 2 ^ 255\<close> show ?thesis
      by (intro exI [of _ "enc_uint v"] conjI)
         (simp_all add: length_enc_uint DecodeInt256_long big_of_enc_uint)
  next
    case False
    then have "v < 0" and "- (2 ^ 255) \<le> v" using assms by (simp_all add: i256_def)
    moreover have t: "two256 = 2 * 2 ^ 255" by (simp add: two256_def)
    ultimately have lo: "- two256 < v" and hi: "2 ^ 255 \<le> v + two256" by simp_all
    obtain bs where bs: "EncodeInt256 (Some v) = Inr bs" "length bs = 32" "big_of_bytes bs = v + two256"
      using EncodeInt256_neg [OF lo \<open>v < 0\<close>] by blast
    then have "DecodeInt256 (bs @ rest) = v" using hi by (simp add: DecodeInt256_long)
    with bs show ?thesis by blast
  qed
  then show "EncodeInt256 (Some v) = Inr (enc_int v)" "length (enc_int v) = 32"
    "DecodeInt256 (enc_int v @ rest) = v"
    by (auto simp: enc_int_def)
qed

interpretation int_codec: byte_codec enc_int DecodeInt256 i256 32
  by unfold_locales (simp_all add: enc_int_ok)

subsection \<open>Addresses, booleans and fixed bytes\<close>

interpretation address_codec: byte_codec EncodeAddress DecodeAddress addr_wf 32
  by unfold_locales
     (simp_all add: EncodeAddress_def DecodeAddress_def addr_wf_def go_copy_at_def go_copy_def zero_addr_def)

interpretation bool_codec: byte_codec EncodeBool DecodeBool "\<lambda>_. True" 32
  by unfold_locales (simp_all add: EncodeBool_def DecodeBool_def Let_def nth_append)

interpretation bytes32_codec: byte_codec EncodeBytes32 DecodeBytes32 hash_wf 32
  by unfold_locales (simp_all add: EncodeBytes32_def DecodeBytes32_def hash_wf_def)

text \<open>An array of numbers is its length followed by the slots.\<close>

lemma EncodeUint256Array_ok:
  assumes "list_all u256 vs" and "u256 (int (length vs))"
  shows "EncodeUint256Array (map Some vs) = Inr (enc_uint (int (length vs)) @ concat (map enc_uint vs))"
proof -
  have "fold (\<lambda>val r. go_bind r (\<lambda>result. go_bind (EncodeUint256 val) (\<lambda>bs. Inr (result @ bs))))
      (map Some vs) (Inr acc) = Inr (acc @ concat (map enc_uint vs))" for acc
    using assms(1) by (induction vs arbitrary: acc) (simp_all add: enc_uint_ok)
  then show ?thesis using assms(2) by (simp add: EncodeUint256Array_def enc_uint_ok)
qed

subsection \<open>Dynamic bytes\<close>

lemma max_alloc_u256: "n \<le> max_alloc \<Longrightarrow> u256 (int n)"
proof -
  assume "n \<le> max_alloc"
  then have "int n \<le> 2 ^ 48" by (simp add: max_alloc_def)
  also have "(2 :: int) ^ 48 < two256" by (simp add: two256_def)
  finally show ?thesis by (simp add: u256_def)
qed

definition padded :: "byte list \<Rightarrow> byte list" where
  "padded d = go_copy (replicate (((length d + 31) div 32) * 32) 0) d"

lemma padded_split: "\<exists>z. padded d = d @ z"
  by (simp add: padded_def go_copy_def)

lemma EncodeBytes_ok:
  "length d \<le> max_alloc \<Longrightarrow> EncodeBytes d = Inr (enc_uint (int (length d)) @ padded d)"
  by (simp add: EncodeBytes_def enc_uint_ok max_alloc_u256 padded_def)

lemma int64_small: "0 \<le> x \<Longrightarrow> x < 2 ^ 63 \<Longrightarrow> int64 x = x"
proof -
  assume x: "0 \<le> x" "x < 2 ^ 63"
  have "uint (word_of_int x :: u64) = x mod 2 ^ 64" by (simp add: uint_word_of_int)
  also have "\<dots> = x"
  proof (rule mod_pos_pos_trivial)
    have "(2 :: int) ^ 63 < 2 ^ 64" by simp
    with x(2) show "x < 2 ^ 64" by (rule less_trans)
  qed (rule x(1))
  finally have u: "uint (word_of_int x :: u64) = x" .
  have "signed_take_bit 63 x = x"
    by (rule signed_take_bit_int_eq_self) (use x in \<open>simp_all add: order_trans [of _ 0]\<close>)
  then show ?thesis by (simp add: int64_def sint_uint u)
qed

lemma unat_of_int_small: "k \<le> max_alloc \<Longrightarrow> unat (of_int (int k) :: u64) = k"
  by (simp add: unat_of_nat max_alloc_def)

text \<open>Decoding at the offset of an encoding gives the data, whatever surrounds it.\<close>

lemma DecodeBytes_at:
  assumes data: "data = pre @ enc_uint (int (length d)) @ d @ rest"
    and len: "length data \<le> max_alloc"
  shows "DecodeBytes data (int (length pre)) = Inr d"
proof -
  let ?n = "length pre" and ?l = "length d"
  have u: "u256 (int ?l)" using len data by (intro max_alloc_u256) simp
  note le = length_enc_uint [OF u]
  have bounds: "?n + 32 + ?l \<le> length data" using data le by simp
  have start: "int64 (int ?n + 32) = int (?n + 32)"
    using bounds len by (subst int64_small) (simp_all add: max_alloc_def)
  have wordv: "take 32 (drop ?n data) = enc_uint (int ?l)" using data le by simp
  have dl: "DecodeUint256 (enc_uint (int ?l)) = int ?l" by (rule uint_codec.dec_enc_exact [OF u])
  have ul: "unat (big_uint64 (int ?l)) = ?l"
    using bounds len by (simp add: unat_big_uint64 max_alloc_def)
  have us: "unat (of_int (int (?n + 32)) :: u64) = ?n + 32"
    by (rule unat_of_int_small) (use bounds len in linarith)
  have en: "unat ((of_int (int (?n + 32)) :: u64) + big_uint64 (int ?l)) = ?n + 32 + ?l"
    using bounds len unfolding unat_word_ariths us ul by (simp add: max_alloc_def)
  have sl1: "go_slice data (nat (int ?n)) (nat (int (?n + 32))) = Inr (enc_uint (int ?l))"
    using bounds wordv by (simp add: go_slice_def nat_add_distrib)
  have sl2: "go_slice data (nat (int (?n + 32))) (?n + 32 + ?l) = Inr d"
    using bounds data le by (simp add: go_slice_def nat_add_distrib)
  have mk: "go_make ?l = Inr (replicate ?l 0)" using bounds len by (simp add: go_make_def)
  show ?thesis
    unfolding DecodeBytes_def start Let_def
    using bounds by (simp only: sl1 dl go_bind_Inr ul en mk sl2) simp
qed

lemma EncodeUint256_length: "EncodeUint256 v = Inr bs \<Longrightarrow> length bs = 32"
  by (auto simp: EncodeUint256_def right_align_def split: option.splits if_splits)

lemma EncodeBytes_shape:
  assumes "EncodeBytes d = Inr bs"
  obtains h z where "length h = 32" and "bs = h @ d @ z" and "padded d = d @ z"
proof -
  obtain z where z: "padded d = d @ z" using padded_split by blast
  from assms obtain h where "EncodeUint256 (Some (int (length d))) = Inr h" "bs = h @ padded d"
    by (auto simp: EncodeBytes_def go_bind_eq_Inr padded_def)
  with z that show ?thesis using EncodeUint256_length by auto
qed

lemma DecodeBytes_EncodeBytes:
  assumes "EncodeBytes d = Inr bs" and "length (pre @ bs @ rest) \<le> max_alloc"
  shows "DecodeBytes (pre @ bs @ rest) (int (length pre)) = Inr d"
proof -
  obtain h z where bs: "length h = 32" "bs = h @ d @ z" "padded d = d @ z"
    using assms(1) by (rule EncodeBytes_shape)
  then have "length d \<le> max_alloc" using assms(2) by simp
  then have "bs = enc_uint (int (length d)) @ d @ z" using assms(1) EncodeBytes_ok bs(3) by simp
  then show ?thesis using DecodeBytes_at [of "pre @ bs @ rest" pre d "z @ rest"] assms(2) by simp
qed

subsection \<open>Calls\<close>

lemma EncodeUint256_InrD:
  assumes "EncodeUint256 (Some v) = Inr bs" and "0 \<le> v"
  shows "u256 v \<and> bs = enc_uint v"
proof -
  have "length (big_bytes v) \<le> 32"
    using assms(1) by (auto simp: EncodeUint256_def right_align_def split: if_splits)
  then show ?thesis
    using assms by (simp add: length_big_bytes_le u256_def two256_def enc_uint_def)
qed

lemma EncodeInt256_length: "EncodeInt256 v = Inr bs \<Longrightarrow> length bs = 32"
  using add_carry_value [of 31]
  by (auto simp: EncodeInt256_def right_align_def Let_def split: option.splits if_splits)

lemma static_length: "encodeArg junk ty arg = Inr (Inr (enc, False)) \<Longrightarrow> length enc = 32"
  by (auto simp: encodeArg_def with_arg_def go_bind_eq_Inr EncodeUint256_length EncodeInt256_length
      EncodeAddress_def EncodeBool_def EncodeBytes32_def Let_def
      split: if_splits sum.splits abi_arg.splits)

text \<open>
  The slot of argument \<open>j\<close> in the head holds its static encoding, or the offset of its
  encoding in the body.
\<close>

definition slot_ok ::
  "(string \<Rightarrow> int) \<Rightarrow> string \<times> abi_arg \<Rightarrow> byte list \<Rightarrow> nat \<Rightarrow> byte list \<Rightarrow> bool" where
  "slot_ok junk ta slot base tails \<longleftrightarrow>
     (\<exists>enc dyn. encodeArg junk (fst ta) (snd ta) = Inr (Inr (enc, dyn)) \<and>
        (dyn \<longrightarrow> (\<exists>pre post. tails = pre @ enc @ post \<and> u256 (int (base + length pre)) \<and>
                     slot = enc_uint (int (base + length pre)))) \<and>
        (\<not> dyn \<longrightarrow> slot = enc))"

lemma slot_ok_static: "encodeArg junk ty arg = Inr (Inr (enc, False)) \<Longrightarrow> slot_ok junk (ty, arg) enc base tails"
  unfolding slot_ok_def by (intro exI [of _ enc] exI [of _ False]) simp

lemma slot_ok_dynamic:
  "encodeArg junk ty arg = Inr (Inr (enc, True)) \<Longrightarrow> u256 (int base) \<Longrightarrow>
   slot_ok junk (ty, arg) (enc_uint (int base)) base (enc @ tails)"
  unfolding slot_ok_def
  by (intro exI [of _ enc] exI [of _ True] conjI impI exI [of _ "[]"] exI [of _ tails]) simp_all

lemma slot_ok_more:
  assumes "slot_ok junk ta slot (base + length t) tails"
  shows "slot_ok junk ta slot base (t @ tails)"
proof -
  have "\<exists>pre' post. t @ tails = pre' @ enc @ post \<and> u256 (int (base + length pre')) \<and>
      slot = enc_uint (int (base + length pre'))"
    if "tails = pre @ enc @ post" "u256 (int (base + length t + length pre))"
      "slot = enc_uint (int (base + length t + length pre))" for enc pre post
    by (rule exI [of _ "t @ pre"], rule exI [of _ post]) (use that in \<open>simp add: add.assoc\<close>)
  with assms show ?thesis unfolding slot_ok_def by blast
qed

lemma encode_args_layout:
  assumes "encode_args junk hs i rest heads tails = Inr (Inr (heads', tails'))"
  shows "\<exists>slots T. heads' = heads @ concat slots \<and> tails' = tails @ T \<and>
    list_all2 (\<lambda>ta slot. length slot = 32 \<and> slot_ok junk ta slot (hs + length tails) T) rest slots"
  using assms
proof (induction rest arbitrary: i heads tails)
  case (Cons ta rest)
  obtain ty arg where ta: "ta = (ty, arg)" by fastforce
  from Cons.prems ta obtain enc dyn where enc: "encodeArg junk ty arg = Inr (Inr (enc, dyn))"
    by (cases "encodeArg junk ty arg") (auto split: sum.splits)
  show ?case
  proof (cases dyn)
    case True
    with Cons.prems enc ta obtain off where off: "EncodeUint256 (Some (int (hs + length tails))) = Inr off"
      and rec: "encode_args junk hs (i + 1) rest (heads @ off) (tails @ enc) = Inr (Inr (heads', tails'))"
      by (auto simp: go_bind_eq_Inr)
    from Cons.IH [OF rec] obtain slots T where
      T: "heads' = (heads @ off) @ concat slots" "tails' = (tails @ enc) @ T"
      and sl: "list_all2 (\<lambda>ta slot. length slot = 32 \<and>
        slot_ok junk ta slot (hs + length (tails @ enc)) T) rest slots"
      by blast
    have o: "u256 (int (hs + length tails))" "off = enc_uint (int (hs + length tails))"
      using EncodeUint256_InrD [OF off] by simp_all
    have "list_all2 (\<lambda>ta slot. length slot = 32 \<and> slot_ok junk ta slot (hs + length tails) (enc @ T)) rest slots"
      using sl by (rule list_all2_mono) (simp add: slot_ok_more add.assoc)
    moreover have "slot_ok junk ta off (hs + length tails) (enc @ T)"
      unfolding ta o(2) using enc True by (intro slot_ok_dynamic o(1)) simp
    ultimately show ?thesis
      using T EncodeUint256_length [OF off]
      by (intro exI [of _ "off # slots"] exI [of _ "enc @ T"]) simp
  next
    case False
    with Cons.prems enc ta have rec: "encode_args junk hs (i + 1) rest (heads @ enc) tails = Inr (Inr (heads', tails'))"
      by simp
    from Cons.IH [OF rec] obtain slots T where
      T: "heads' = (heads @ enc) @ concat slots" "tails' = tails @ T"
      and sl: "list_all2 (\<lambda>ta slot. length slot = 32 \<and> slot_ok junk ta slot (hs + length tails) T) rest slots"
      by blast
    with False enc ta static_length slot_ok_static show ?thesis
      by (intro exI [of _ "enc # slots"] exI [of _ T]) simp
  qed
qed simp

lemma concat_slot:
  assumes "\<forall>j<length slots. length (slots ! j) = 32" and "i < length slots"
  shows "length (concat slots) = 32 * length slots \<and> (\<exists>z. drop (32 * i) (concat slots) = slots ! i @ z)"
  using assms
proof (induction slots arbitrary: i)
  case (Cons s slots)
  have s: "length s = 32" and ss: "\<forall>j<length slots. length (slots ! j) = 32"
    using Cons.prems(1) by (auto dest: spec [of _ 0] spec [of _ "Suc _"])
  show ?case
  proof (cases i)
    case 0
    have "length (concat slots) = 32 * length slots"
      using ss by (cases slots) (use Cons.IH [OF ss, of 0] in auto)
    with s 0 show ?thesis by simp
  next
    case (Suc k)
    with Cons.prems have "k < length slots" by simp
    with Cons.IH [OF ss this] s Suc show ?thesis by simp
  qed
qed simp

text \<open>The body of a call, seen from argument \<open>i\<close>.\<close>

lemma EncodeCall_slots:
  assumes "EncodeCall kec junk signature args = Inr (Inr out)"
    and "i < length args"
  obtains slots T where "drop 4 out = concat slots @ T"
    and "length slots = length args" and "length (concat slots) = 32 * length args"
    and "DecodeUint256 (drop (4 + 32 * i) out) = DecodeUint256 (slots ! i)"
    and "length (slots ! i) = 32"
    and "slot_ok junk (parseSignatureTypes signature ! i, args ! i) (slots ! i) (32 * length args) T"
    and "length (parseSignatureTypes signature) = length args"
proof -
  let ?ty = "parseSignatureTypes signature"
  from assms(1) obtain sel heads tails where
    sel: "FunctionSelector kec signature = Inr sel" and lt: "length ?ty = length args"
    and ea: "encode_args junk (length ?ty * 32) 0 (zip ?ty args) [] [] = Inr (Inr (heads, tails))"
    and out: "out = sel @ heads @ tails"
    unfolding EncodeCall_def Let_def
    by (elim go_bindE) (auto elim!: go_bindE split: if_splits sum.splits)
  from encode_args_layout [OF ea] obtain slots T where T: "heads = concat slots" "tails = T"
    and sl: "list_all2 (\<lambda>ta slot. length slot = 32 \<and> slot_ok junk ta slot (length ?ty * 32) T)
      (zip ?ty args) slots"
    by auto
  from sl lt have ls: "length slots = length args" by (auto dest: list_all2_lengthD)
  have all: "length (slots ! j) = 32 \<and> slot_ok junk (?ty ! j, args ! j) (slots ! j) (32 * length args) T"
    if "j < length args" for j
    using list_all2_nthD [OF sl, of j] that lt by (simp add: mult.commute)
  have "length sel = 4" using sel by (auto simp: FunctionSelector_def go_slice_eq_Inr)
  then have d4: "drop 4 out = concat slots @ T" using out T by simp
  obtain z where z: "drop (32 * i) (concat slots) = slots ! i @ z"
    and lc: "length (concat slots) = 32 * length args"
    using concat_slot [of slots i] all ls assms(2) by auto
  have "drop (4 + 32 * i) out = drop (32 * i) (drop 4 out)" by (simp add: add.commute)
  also have "\<dots> = slots ! i @ z @ T" unfolding d4 using z lc assms(2) by simp
  finally have "DecodeUint256 (drop (4 + 32 * i) out) = DecodeUint256 (slots ! i)"
    using all [OF assms(2)] DecodeUint256_long [of "slots ! i" "z @ T"] DecodeUint256_long [of "slots ! i" "[]"]
    by simp
  with that d4 ls lc all [OF assms(2)] lt show ?thesis by blast
qed

lemma demo_types: "parseSignatureTypes ''f(uint256,bytes)'' = [''uint256'', ''bytes'']"
  by code_simp

lemma demo_call:
  obtains out where "EncodeCall (\<lambda>_. zero_hash) (\<lambda>_. 0) ''f(uint256,bytes)'' [ABig (Some 7), ABytes [1, 2]] = Inr (Inr out)"
    and "length out = 132"
proof -
  have "case EncodeCall (\<lambda>_. zero_hash) (\<lambda>_. 0) ''f(uint256,bytes)'' [ABig (Some 7), ABytes [1, 2]] of
      Inr (Inr out) \<Rightarrow> length out = 132 | _ \<Rightarrow> False"
    by code_simp
  then show ?thesis using that by (auto split: sum.splits)
qed

text \<open>Calls, static arguments.  In an encoded call the slot of a \<open>uint256\<close> argument
  decodes to the argument.\<close>

theorem EncodeCall_uint:
  assumes "EncodeCall kec junk signature args = Inr (Inr out)" and "i < length args"
    and "parseSignatureTypes signature ! i = ''uint256''" and "args ! i = ABig (Some v)" and "0 \<le> v"
  shows "DecodeUint256 (drop (4 + 32 * i) out) = v"
proof -
  from EncodeCall_slots [OF assms(1,2)] obtain slots T where
    dec: "DecodeUint256 (drop (4 + 32 * i) out) = DecodeUint256 (slots ! i)"
    and slot: "slot_ok junk (parseSignatureTypes signature ! i, args ! i) (slots ! i) (32 * length args) T"
    by blast
  from slot assms(3,4) have "EncodeUint256 (Some v) = Inr (slots ! i)"
    by (auto simp: slot_ok_def encodeArg_def toBigInt_def with_arg_def go_bind_eq_Inr)
  with assms(5) have "u256 v \<and> slots ! i = enc_uint v" by (rule EncodeUint256_InrD [rotated])
  with dec show ?thesis by (simp add: uint_codec.dec_enc_exact)
qed

theorem EncodeCall_uint_witness:
  "\<exists>out. EncodeCall (\<lambda>_. zero_hash) (\<lambda>_. 0) ''f(uint256,bytes)'' [ABig (Some 7), ABytes [1, 2]] = Inr (Inr out) \<and>
     DecodeUint256 (drop 4 out) = 7"
proof -
  obtain out where out: "EncodeCall (\<lambda>_. zero_hash) (\<lambda>_. 0) ''f(uint256,bytes)'' [ABig (Some 7), ABytes [1, 2]] = Inr (Inr out)"
    by (rule demo_call)
  from EncodeCall_uint [OF out, of 0 7] have "DecodeUint256 (drop 4 out) = 7"
    by (simp add: demo_types)
  with out show ?thesis by blast
qed

text \<open>C32. Calls, dynamic arguments.  The slot of a \<open>bytes\<close> argument holds an offset into the
  body, and decoding the body at that offset gives the bytes of the argument.\<close>

theorem EncodeCall_bytes:
  assumes "EncodeCall kec junk signature args = Inr (Inr out)" and "i < length args"
    and "parseSignatureTypes signature ! i = ''bytes''" and "args ! i = ABytes d"
    and "length out \<le> max_alloc"
  shows "DecodeBytes (drop 4 out) (DecodeUint256 (drop (4 + 32 * i) out)) = Inr d"
proof -
  from EncodeCall_slots [OF assms(1,2)] obtain slots T where
    body: "drop 4 out = concat slots @ T" and lc: "length (concat slots) = 32 * length args"
    and dec: "DecodeUint256 (drop (4 + 32 * i) out) = DecodeUint256 (slots ! i)"
    and slot: "slot_ok junk (parseSignatureTypes signature ! i, args ! i) (slots ! i) (32 * length args) T"
    by blast
  from slot assms(3,4) obtain enc pre post where enc: "EncodeBytes d = Inr enc"
    and T: "T = pre @ enc @ post" and u: "u256 (int (32 * length args + length pre))"
    and sl: "slots ! i = enc_uint (int (32 * length args + length pre))"
    by (auto simp: slot_ok_def encodeArg_def toBytes_def with_arg_def go_bind_eq_Inr)
  have off: "DecodeUint256 (slots ! i) = int (length (concat slots @ pre))"
    unfolding sl using uint_codec.dec_enc_exact [OF u] lc by simp
  have "length ((concat slots @ pre) @ enc @ post) \<le> max_alloc"
    using assms(5) arg_cong [OF body, of length] T by simp
  from DecodeBytes_EncodeBytes [OF enc this] show ?thesis
    unfolding dec off body T by simp
qed

theorem EncodeCall_bytes_witness:
  "\<exists>out. EncodeCall (\<lambda>_. zero_hash) (\<lambda>_. 0) ''f(uint256,bytes)'' [ABig (Some 7), ABytes [1, 2]] = Inr (Inr out) \<and>
     DecodeBytes (drop 4 out) (DecodeUint256 (drop 36 out)) = Inr [1, 2]"
proof -
  obtain out where out: "EncodeCall (\<lambda>_. zero_hash) (\<lambda>_. 0) ''f(uint256,bytes)'' [ABig (Some 7), ABytes [1, 2]] = Inr (Inr out)"
    and len: "length out = 132"
    by (rule demo_call)
  from EncodeCall_bytes [OF out, of 1 "[1, 2]"] len have "DecodeBytes (drop 4 out) (DecodeUint256 (drop 36 out)) = Inr [1, 2]"
    by (simp add: demo_types max_alloc_def)
  with out show ?thesis by blast
qed

end
