(* ===== verification/GoValues.thy ===== *)
theory GoValues
  imports Complex_Main GoText
begin

section \<open>Dynamic values, floating point and JSON\<close>

text \<open>
  \<^item> \<open>f64\<close>: an IEEE double as a rational, with the values that are not numbers; the sign
    of zero is not kept.  Comparisons with \<open>NaN\<close> are false.
  \<^item> \<open>gval\<close>: the dynamic values the program stores behind \<open>interface{}\<close>.
  \<^item> \<open>json\<close>: JSON documents as trees.  Field names are compared exactly, strings are
    taken to be valid UTF-8.  \<open>Marshal\<close> fails on values that are not numbers; a number read
    back into an \<open>interface{}\<close> is a \<open>float64\<close>, and a struct comes back as a map.
\<close>

subsection \<open>Floating point\<close>

datatype f64 = NaN | NegInf | PosInf | Fin rat

fun f64_less :: "f64 \<Rightarrow> f64 \<Rightarrow> bool" where
  "f64_less NaN _ = False"
| "f64_less _ NaN = False"
| "f64_less PosInf _ = False"
| "f64_less _ NegInf = False"
| "f64_less NegInf _ = True"
| "f64_less _ PosInf = True"
| "f64_less (Fin x) (Fin y) = (x < y)"

definition f64_eq :: "f64 \<Rightarrow> f64 \<Rightarrow> bool" where
  "f64_eq x y \<longleftrightarrow> x = y \<and> x \<noteq> NaN"

text \<open>An integer as a double: exact below \<open>2 ^ 53\<close>, else the nearest, ties to even.\<close>

function excess_bits :: "int \<Rightarrow> nat" where
  "excess_bits m = (if m < 2 ^ 53 then 0 else Suc (excess_bits (m div 2)))"
  by pat_completeness auto
termination by (relation "measure nat") auto

declare excess_bits.simps [simp del]

definition f64_of_int :: "int \<Rightarrow> f64" where
  "f64_of_int n =
     (let m = \<bar>n\<bar> in
      if m < 2 ^ 53 then Fin (of_int n)
      else
        let e = excess_bits m;
            q = m div 2 ^ e; r = m mod 2 ^ e;
            q = (if 2 * r > 2 ^ e \<or> (2 * r = 2 ^ e \<and> odd q) then q + 1 else q)
        in Fin (of_int (sgn n * q * 2 ^ e)))"

lemma f64_of_int_small: "\<bar>n\<bar> < 2 ^ 53 \<Longrightarrow> f64_of_int n = Fin (of_int n)"
  by (simp add: f64_of_int_def)

subsection \<open>Dynamic values\<close>

datatype gval =
    GNil | GBool bool | GInt int | GFloat f64 | GStr string
  | GList "gval list" | GMap "(string \<times> gval) list" | GStruct "(string \<times> gval) list"

text \<open>\<open>reflect.DeepEqual\<close>.\<close>

lemma size_pair_list [termination_simp]:
  "(k, v) \<in> set kvs \<Longrightarrow> size (v :: gval) < Suc (size_list (size_prod (\<lambda>_. 0) size) kvs)"
  by (induction kvs) auto

fun deep_equal :: "gval \<Rightarrow> gval \<Rightarrow> bool" where
  "deep_equal (GList xs) (GList ys) = list_all2 deep_equal xs ys"
| "deep_equal (GMap xs) (GMap ys) \<longleftrightarrow> length xs = length ys \<and>
     list_all (\<lambda>(k, v). case map_of ys k of None \<Rightarrow> False | Some w \<Rightarrow> deep_equal v w) xs"
| "deep_equal (GStruct xs) (GStruct ys) \<longleftrightarrow> map fst xs = map fst ys \<and>
     list_all (\<lambda>(k, v). case map_of ys k of None \<Rightarrow> False | Some w \<Rightarrow> deep_equal v w) xs"
| "deep_equal (GFloat x) (GFloat y) = f64_eq x y"
| "deep_equal x y = (x = y)"

subsection \<open>JSON\<close>

datatype json =
    JNull | JBool bool | JInt int | JFlt rat | JStr string
  | JArr "json list" | JObj "(string \<times> json) list"

definition opt_map :: "('a \<Rightarrow> 'b option) \<Rightarrow> 'a list \<Rightarrow> 'b list option" where
  "opt_map f xs = those (map f xs)"

lemma opt_map_cong [fundef_cong]:
  "xs = ys \<Longrightarrow> (\<And>x. x \<in> set ys \<Longrightarrow> f x = g x) \<Longrightarrow> opt_map f xs = opt_map g ys"
  by (simp add: opt_map_def cong: map_cong)

lemma opt_map_Nil [simp]: "opt_map f [] = Some []"
  by (simp add: opt_map_def)

lemma opt_map_Cons [simp]:
  "opt_map f (x # xs) = Option.bind (f x) (\<lambda>y. map_option ((#) y) (opt_map f xs))"
  by (cases "f x") (simp_all add: opt_map_def)

lemma opt_map_map: "opt_map f (map g xs) = opt_map (f \<circ> g) xs"
  by (simp add: opt_map_def)

fun json_of :: "gval \<Rightarrow> json option" where
  "json_of GNil = Some JNull"
| "json_of (GBool b) = Some (JBool b)"
| "json_of (GInt n) = Some (JInt n)"
| "json_of (GFloat x) = (case x of Fin r \<Rightarrow> Some (JFlt r) | _ \<Rightarrow> None)"
| "json_of (GStr s) = Some (JStr s)"
| "json_of (GList xs) = map_option JArr (opt_map json_of xs)"
| "json_of (GMap kvs) = map_option JObj (opt_map (\<lambda>(k, v). map_option (Pair k) (json_of v)) kvs)"
| "json_of (GStruct kvs) = map_option JObj (opt_map (\<lambda>(k, v). map_option (Pair k) (json_of v)) kvs)"

text \<open>A later member of an object replaces an earlier one of the same name.\<close>

definition go_of_list :: "('k \<times> 'v) list \<Rightarrow> ('k, 'v) gomap" where
  "go_of_list kvs = fold (\<lambda>(k, v). go_put k v) kvs []"

lemma size_json_list [termination_simp]:
  "(k, v) \<in> set kvs \<Longrightarrow> size (v :: json) < Suc (size_list (size_prod (\<lambda>_. 0) size) kvs)"
  by (induction kvs) auto

fun gval_of :: "json \<Rightarrow> gval" where
  "gval_of JNull = GNil"
| "gval_of (JBool b) = GBool b"
| "gval_of (JInt n) = GFloat (f64_of_int n)"
| "gval_of (JFlt r) = GFloat (Fin r)"
| "gval_of (JStr s) = GStr s"
| "gval_of (JArr xs) = GList (map gval_of xs)"
| "gval_of (JObj kvs) = GMap (go_of_list (map (\<lambda>(k, v). (k, gval_of v)) kvs))"

text \<open>What a value becomes by being written and read back.\<close>

fun normal :: "gval \<Rightarrow> gval" where
  "normal GNil = GNil"
| "normal (GBool b) = GBool b"
| "normal (GInt n) = GFloat (f64_of_int n)"
| "normal (GFloat x) = GFloat x"
| "normal (GStr s) = GStr s"
| "normal (GList xs) = GList (map normal xs)"
| "normal (GMap kvs) = GMap (go_of_list (map (\<lambda>(k, v). (k, normal v)) kvs))"
| "normal (GStruct kvs) = GMap (go_of_list (map (\<lambda>(k, v). (k, normal v)) kvs))"

lemma opt_map_entries:
  assumes "opt_map (\<lambda>(k, v). map_option (Pair k) (f v)) kvs = Some js"
    and "\<And>k v j. (k, v) \<in> set kvs \<Longrightarrow> f v = Some j \<Longrightarrow> g j = h v"
  shows "map (\<lambda>(k, j). (k, g j)) js = map (\<lambda>(k, v). (k, h v)) kvs"
  using assms
proof (induction kvs arbitrary: js)
  case (Cons kv kvs)
  obtain k v where kv: "kv = (k, v)" by fastforce
  with Cons.prems(1) obtain j js' where "f v = Some j" "js = (k, j) # js'"
    "opt_map (\<lambda>(k, v). map_option (Pair k) (f v)) kvs = Some js'"
    by (auto simp: bind_eq_Some_conv)
  with Cons.IH [of js'] Cons.prems(2) kv show ?case by auto
qed simp

lemma opt_map_list:
  assumes "opt_map f xs = Some js" and "\<And>x j. x \<in> set xs \<Longrightarrow> f x = Some j \<Longrightarrow> g j = h x"
  shows "map g js = map h xs"
  using assms
proof (induction xs arbitrary: js)
  case (Cons x xs)
  from Cons.prems(1) obtain j js' where "f x = Some j" "js = j # js'" "opt_map f xs = Some js'"
    by (auto simp: bind_eq_Some_conv)
  with Cons.IH [of js'] Cons.prems(2) show ?case by auto
qed simp

lemma gval_of_json_of: "json_of v = Some j \<Longrightarrow> gval_of j = normal v"
proof (induction v arbitrary: j rule: json_of.induct)
  case (6 xs)
  then obtain js where "opt_map json_of xs = Some js" "j = JArr js" by auto
  then show ?case using opt_map_list [of json_of xs js gval_of normal] "6.IH" by simp
next
  case (7 kvs)
  then obtain js where js: "opt_map (\<lambda>(k, v). map_option (Pair k) (json_of v)) kvs = Some js" "j = JObj js"
    by auto
  then have "map (\<lambda>(k, j). (k, gval_of j)) js = map (\<lambda>(k, v). (k, normal v)) kvs"
    by (rule_tac opt_map_entries) (use "7.IH" in auto)
  then show ?case using js(2) by simp
next
  case (8 kvs)
  then obtain js where js: "opt_map (\<lambda>(k, v). map_option (Pair k) (json_of v)) kvs = Some js" "j = JObj js"
    by auto
  then have "map (\<lambda>(k, j). (k, gval_of j)) js = map (\<lambda>(k, v). (k, normal v)) kvs"
    by (rule_tac opt_map_entries) (use "8.IH" in auto)
  then show ?case using js(2) by simp
qed (auto split: f64.splits)

end
