(* ===== verification/EngineTypes.thy ===== *)
theory EngineTypes
  imports GoValues
begin

section \<open>The shared data types: \<open>simulations/pkg/types/types.go\<close>, and their JSON form\<close>

text \<open>
  A map or pointer that may be nil is an option.  A time is its nanosecond count, \<open>None\<close>
  the zero time; its JSON text is written here as the decimal count, as only the fact that
  reading inverts writing matters.  \<open>state_json\<close> and \<open>json_state\<close> are
  \<open>json.Marshal\<close> and \<open>json.Unmarshal\<close> of a \<open>State\<close>.
\<close>

type_synonym gtime = "int option"
type_synonym NodeID = string
type_synonym gdata = "(string, gval) gomap option"

abbreviation StatusIdle :: string where "StatusIdle \<equiv> ''idle''"
abbreviation StatusRunning :: string where "StatusRunning \<equiv> ''running''"
abbreviation StatusPaused :: string where "StatusPaused \<equiv> ''paused''"
abbreviation StatusStopped :: string where "StatusStopped \<equiv> ''stopped''"
abbreviation StatusError :: string where "StatusError \<equiv> ''error''"

record NodeState =
  ns_ID :: NodeID
  ns_Status :: string
  ns_Data :: gdata
  ns_IsByzantine :: bool

record State =
  st_Tick :: u64
  st_Status :: string
  st_Nodes :: "(NodeID, NodeState option) gomap option"
  st_GlobalData :: gdata
  st_UpdatedAt :: gtime

record Event =
  ev_ID :: string
  ev_Type :: string
  ev_Tick :: u64
  ev_Timestamp :: gtime
  ev_Source :: NodeID
  ev_Target :: NodeID
  ev_Data :: gdata

record Param =
  pa_Key :: string
  pa_Name :: string
  pa_Description :: string
  pa_Type :: string
  pa_Default :: gval
  pa_Min :: gval
  pa_Max :: gval
  pa_Options :: "(string \<times> gval) list"
  pa_Value :: gval

record SnapshotInfo =
  si_ID :: string
  si_Name :: string
  si_Tick :: u64
  si_CreatedAt :: gtime
  si_Size :: int

record Snapshot =
  sn_Info :: SnapshotInfo
  sn_State :: "json option"

record Description =
  de_ID :: string
  de_Name :: string
  de_Description :: string
  de_Category :: string
  de_Type :: string
  de_Capabilities :: "string list"
  de_Params :: "Param list"
  de_Version :: string

record NetworkConfig =
  nc_Latency :: int
  nc_Jitter :: int
  nc_PacketLoss :: f64
  nc_Bandwidth :: int
  nc_Partitions :: "NodeID list list"

record Config =
  cf_Module :: string
  cf_Params :: "(string, gval) gomap"
  cf_Mode :: string
  cf_NodeCount :: int
  cf_NetworkCfg :: "NetworkConfig option"

text \<open>A configuration of which only the module and the parameters are set.\<close>

definition plain_config :: "string \<Rightarrow> (string, gval) gomap \<Rightarrow> Config" where
  "plain_config m ps = \<lparr>cf_Module = m, cf_Params = ps, cf_Mode = [], cf_NodeCount = 0, cf_NetworkCfg = None\<rparr>"

lemma plain_config_simps [simp]: "cf_Module (plain_config m ps) = m" "cf_Params (plain_config m ps) = ps"
  by (simp_all add: plain_config_def)

definition zero_State :: State where
  "zero_State = \<lparr>st_Tick = 0, st_Status = [], st_Nodes = None, st_GlobalData = None,
     st_UpdatedAt = None\<rparr>"

text \<open>The literal \<open>&types.State{...}\<close> of the constructors and of \<open>Reset\<close>.\<close>

definition fresh_State :: "gtime \<Rightarrow> State" where
  "fresh_State now = \<lparr>st_Tick = 0, st_Status = StatusIdle, st_Nodes = Some [],
     st_GlobalData = Some [], st_UpdatedAt = now\<rparr>"

text \<open>Reading and writing a map that may be nil.\<close>

definition nil_get :: "('k, 'v) gomap option \<Rightarrow> 'k \<Rightarrow> 'v option" where
  "nil_get m k = (case m of None \<Rightarrow> None | Some kvs \<Rightarrow> go_get kvs k)"

definition nil_put :: "'k \<Rightarrow> 'v \<Rightarrow> ('k, 'v) gomap option \<Rightarrow> ('k, 'v) gomap option go" where
  "nil_put k v m = (case m of None \<Rightarrow> Inl NilMapWrite | Some kvs \<Rightarrow> Inr (Some (go_put k v kvs)))"

definition nil_entries :: "('k, 'v) gomap option \<Rightarrow> ('k, 'v) gomap" where
  "nil_entries m = (case m of None \<Rightarrow> [] | Some kvs \<Rightarrow> kvs)"

lemma nil_get_put:
  "nil_put k v m = Inr m' \<Longrightarrow> nil_get m' k' = (if k' = k then Some v else nil_get m k')"
  by (auto simp: nil_put_def nil_get_def split: option.splits)

subsection \<open>Writing\<close>

definition time_json :: "gtime \<Rightarrow> json" where
  "time_json t = JStr (case t of None \<Rightarrow> ''0001-01-01T00:00:00Z'' | Some n \<Rightarrow> CHR ''T'' # int_text 10 n)"

definition data_json :: "gdata \<Rightarrow> json option" where
  "data_json d = (case d of None \<Rightarrow> Some JNull | Some kvs \<Rightarrow> json_of (GMap kvs))"

definition node_json :: "NodeState option \<Rightarrow> json option" where
  "node_json n =
     (case n of
        None \<Rightarrow> Some JNull
      | Some ns \<Rightarrow> map_option (\<lambda>d. JObj [(''id'', JStr (ns_ID ns)), (''status'', JStr (ns_Status ns)),
            (''data'', d), (''is_byzantine'', JBool (ns_IsByzantine ns))]) (data_json (ns_Data ns)))"

definition nodes_json :: "(NodeID, NodeState option) gomap option \<Rightarrow> json option" where
  "nodes_json m =
     (case m of
        None \<Rightarrow> Some JNull
      | Some kvs \<Rightarrow> map_option JObj (opt_map (\<lambda>(k, n). map_option (Pair k) (node_json n)) kvs))"

definition state_json :: "State \<Rightarrow> json option" where
  "state_json s =
     Option.bind (nodes_json (st_Nodes s)) (\<lambda>nodes.
       Option.bind (data_json (st_GlobalData s)) (\<lambda>d.
         Some (JObj [(''tick'', JInt (uint (st_Tick s))), (''status'', JStr (st_Status s)),
           (''nodes'', nodes), (''global_data'', d), (''updated_at'', time_json (st_UpdatedAt s))])))"

subsection \<open>Reading\<close>

text \<open>
  The value of a field; when the name occurs more than once the last one counts.  A missing
  field and \<open>null\<close> leave the zero value.
\<close>

definition field :: "string \<Rightarrow> (string \<times> json) list \<Rightarrow> json" where
  "field name kvs = (case map_of (rev kvs) name of None \<Rightarrow> JNull | Some j \<Rightarrow> j)"

definition read_string :: "json \<Rightarrow> string option" where
  "read_string j = (case j of JNull \<Rightarrow> Some [] | JStr s \<Rightarrow> Some s | _ \<Rightarrow> None)"

definition read_bool :: "json \<Rightarrow> bool option" where
  "read_bool j = (case j of JNull \<Rightarrow> Some False | JBool b \<Rightarrow> Some b | _ \<Rightarrow> None)"

definition read_u64 :: "json \<Rightarrow> u64 option" where
  "read_u64 j =
     (case j of
        JNull \<Rightarrow> Some 0
      | JInt n \<Rightarrow> if 0 \<le> n \<and> n < 2 ^ 64 then Some (word_of_int n) else None
      | _ \<Rightarrow> None)"

definition read_time :: "json \<Rightarrow> gtime option" where
  "read_time j =
     (case j of
        JNull \<Rightarrow> Some None
      | JStr s \<Rightarrow>
          if s = ''0001-01-01T00:00:00Z'' then Some None
          else (case s of CHR ''T'' # ds \<Rightarrow> map_option Some (big_set_string 10 ds) | _ \<Rightarrow> None)
      | _ \<Rightarrow> None)"

definition read_data :: "json \<Rightarrow> gdata option" where
  "read_data j =
     (case j of
        JNull \<Rightarrow> Some None
      | JObj kvs \<Rightarrow> Some (Some (go_of_list (map (\<lambda>(k, v). (k, gval_of v)) kvs)))
      | _ \<Rightarrow> None)"

definition read_node :: "json \<Rightarrow> NodeState option option" where
  "read_node j =
     (case j of
        JNull \<Rightarrow> Some None
      | JObj kvs \<Rightarrow>
          Option.bind (read_string (field ''id'' kvs)) (\<lambda>i.
          Option.bind (read_string (field ''status'' kvs)) (\<lambda>st.
          Option.bind (read_data (field ''data'' kvs)) (\<lambda>d.
          Option.bind (read_bool (field ''is_byzantine'' kvs)) (\<lambda>b.
            Some (Some \<lparr>ns_ID = i, ns_Status = st, ns_Data = d, ns_IsByzantine = b\<rparr>)))))
      | _ \<Rightarrow> None)"

definition read_nodes :: "json \<Rightarrow> (NodeID, NodeState option) gomap option option" where
  "read_nodes j =
     (case j of
        JNull \<Rightarrow> Some None
      | JObj kvs \<Rightarrow>
          map_option (\<lambda>ns. Some (go_of_list ns)) (opt_map (\<lambda>(k, n). map_option (Pair k) (read_node n)) kvs)
      | _ \<Rightarrow> None)"

definition json_state :: "json \<Rightarrow> State option" where
  "json_state j =
     (case j of
        JNull \<Rightarrow> Some zero_State
      | JObj kvs \<Rightarrow>
          Option.bind (read_u64 (field ''tick'' kvs)) (\<lambda>t.
          Option.bind (read_string (field ''status'' kvs)) (\<lambda>st.
          Option.bind (read_nodes (field ''nodes'' kvs)) (\<lambda>ns.
          Option.bind (read_data (field ''global_data'' kvs)) (\<lambda>d.
          Option.bind (read_time (field ''updated_at'' kvs)) (\<lambda>u.
            Some \<lparr>st_Tick = t, st_Status = st, st_Nodes = ns, st_GlobalData = d, st_UpdatedAt = u\<rparr>)))))
      | _ \<Rightarrow> None)"

text \<open>
  The deep copy through JSON.  The code ignores both errors: when the state cannot be written
  nothing is read, and the copy is the zero state.
\<close>

definition copyState :: "State \<Rightarrow> State" where
  "copyState s =
     (case Option.bind (state_json s) json_state of None \<Rightarrow> zero_State | Some c \<Rightarrow> c)"

subsection \<open>Reading inverts writing, up to the normal form of dynamic values\<close>

definition normal_data :: "gdata \<Rightarrow> gdata" where
  "normal_data = map_option (\<lambda>kvs. go_of_list (map (\<lambda>(k, v). (k, normal v)) kvs))"

definition normal_node :: "NodeState \<Rightarrow> NodeState" where
  "normal_node n = n\<lparr>ns_Data := normal_data (ns_Data n)\<rparr>"

definition normal_state :: "State \<Rightarrow> State" where
  "normal_state s = s\<lparr>
     st_Nodes := map_option (\<lambda>kvs. go_of_list (map (\<lambda>(k, n). (k, map_option normal_node n)) kvs)) (st_Nodes s),
     st_GlobalData := normal_data (st_GlobalData s)\<rparr>"

lemma read_time_json: "read_time (time_json t) = Some t"
  by (cases t) (simp_all add: time_json_def read_time_def big_set_string_int_text)

lemma read_u64_json: "read_u64 (JInt (uint (w :: u64))) = Some w"
  using uint_lt2p [of w] by (simp add: read_u64_def)

lemma read_data_json: "data_json d = Some j \<Longrightarrow> read_data j = Some (normal_data d)"
proof (cases d)
  case (Some kvs)
  assume "data_json d = Some j"
  then have j: "json_of (GMap kvs) = Some j" using Some by (simp add: data_json_def)
  from gval_of_json_of [OF j] j Some show ?thesis
    by (auto simp: read_data_def normal_data_def)
qed (simp add: data_json_def read_data_def normal_data_def)

lemma read_node_json: "node_json n = Some j \<Longrightarrow> read_node j = Some (map_option normal_node n)"
  by (cases n) (auto simp: node_json_def read_node_def field_def read_string_def read_bool_def
      read_data_json normal_node_def)

lemma read_nodes_json:
  assumes "nodes_json m = Some j"
  shows "read_nodes j = Some (map_option (\<lambda>kvs. go_of_list (map (\<lambda>(k, n). (k, map_option normal_node n)) kvs)) m)"
proof (cases m)
  case (Some kvs)
  with assms obtain js where js: "opt_map (\<lambda>(k, n). map_option (Pair k) (node_json n)) kvs = Some js"
    and j: "j = JObj js"
    by (auto simp: nodes_json_def)
  have "opt_map (\<lambda>(k, n). map_option (Pair k) (read_node n)) js =
      Some (map (\<lambda>(k, n). (k, map_option normal_node n)) kvs)"
    using js
  proof (induction kvs arbitrary: js)
    case (Cons kv kvs)
    obtain k n where kv: "kv = (k, n)" by fastforce
    with Cons.prems obtain jn js' where "node_json n = Some jn" "js = (k, jn) # js'"
      "opt_map (\<lambda>(k, n). map_option (Pair k) (node_json n)) kvs = Some js'"
      by (auto simp: bind_eq_Some_conv)
    with Cons.IH [of js'] kv show ?case by (simp add: read_node_json)
  qed simp
  with j Some show ?thesis by (simp add: read_nodes_def)
qed (use assms in \<open>simp add: nodes_json_def read_nodes_def\<close>)

lemma json_state_json:
  assumes "state_json s = Some j"
  shows "json_state j = Some (normal_state s)"
proof -
  from assms obtain ns d where ns: "nodes_json (st_Nodes s) = Some ns"
    and d: "data_json (st_GlobalData s) = Some d"
    and j: "j = JObj [(''tick'', JInt (uint (st_Tick s))), (''status'', JStr (st_Status s)),
           (''nodes'', ns), (''global_data'', d), (''updated_at'', time_json (st_UpdatedAt s))]"
    by (auto simp: state_json_def bind_eq_Some_conv)
  show ?thesis
    unfolding j by (simp add: json_state_def field_def read_u64_json read_string_def
        read_nodes_json [OF ns] read_data_json [OF d] read_time_json normal_state_def)
qed

lemma normal_state_fields [simp]:
  "st_Tick (normal_state s) = st_Tick s" "st_Status (normal_state s) = st_Status s"
  "st_UpdatedAt (normal_state s) = st_UpdatedAt s"
  by (simp_all add: normal_state_def)

lemma copyState_normal: "state_json s = Some j \<Longrightarrow> copyState s = normal_state s"
  by (simp add: copyState_def json_state_json)

lemma copyState_fails: "state_json s = None \<Longrightarrow> copyState s = zero_State"
  by (simp add: copyState_def)

text \<open>Lookup in the copied maps.\<close>

lemma go_get_of_list: "distinct (map fst kvs) \<Longrightarrow> go_get (go_of_list kvs) k = map_of kvs k"
proof -
  have "go_get (fold (\<lambda>(k, v). go_put k v) kvs m) k =
      (case map_of (rev kvs) k of None \<Rightarrow> go_get m k | Some v \<Rightarrow> Some v)" for m
    by (induction kvs arbitrary: m) (auto split: option.splits simp: map_add_def)
  moreover have "distinct (map fst kvs) \<Longrightarrow> map_of (rev kvs) = map_of kvs"
    by (subst map_of_inject_set) (simp_all add: rev_map [symmetric])
  ultimately show "distinct (map fst kvs) \<Longrightarrow> go_get (go_of_list kvs) k = map_of kvs k"
    by (simp add: go_of_list_def split: option.splits)
qed

lemma go_wf_of_list [simp]: "go_wf (go_of_list kvs)"
proof -
  have "go_wf m \<Longrightarrow> go_wf (fold (\<lambda>(k, v). go_put k v) kvs m)" for m
    by (induction kvs arbitrary: m) auto
  then show ?thesis by (simp add: go_of_list_def)
qed

end
