(* ===== verification/EngineEvent.thy ===== *)
theory EngineEvent
  imports EngineTypes GoInterfaces
begin

section \<open>The event bus: \<open>simulations/pkg/engine/event.go\<close>\<close>

text \<open>
  Channels are buffered and identified by a number; the bus keeps, for every event type, the
  list of its subscribers' channels.  The channels themselves are in a store, as senders and
  receivers share them.  \<open>time.Now\<close> and \<open>uuid.New\<close> are the arguments \<open>now\<close>
  and \<open>uid\<close>.  Sending on a closed channel panics: \<open>bus_ok\<close> is the invariant that
  rules it out.
\<close>

record 'a Chan =
  ch_buf :: "'a list"
  ch_cap :: nat
  ch_closed :: bool

text \<open>\<open>select { case ch <- x: default: }\<close>\<close>

definition chan_offer :: "'a \<Rightarrow> 'a Chan \<Rightarrow> 'a Chan go" where
  "chan_offer x c =
     (if ch_closed c then Inl ClosedChannel
      else if length (ch_buf c) < ch_cap c then Inr (c\<lparr>ch_buf := ch_buf c @ [x]\<rparr>)
      else Inr c)"

text \<open>\<open>close(ch)\<close>\<close>

definition chan_close :: "'a Chan \<Rightarrow> 'a Chan go" where
  "chan_close c = (if ch_closed c then Inl ClosedChannel else Inr (c\<lparr>ch_closed := True\<rparr>))"

record EventBus =
  eb_subscribers :: "(string, nat list) gomap"
  eb_events :: "Event list"
  eb_maxEvents :: nat
  eb_chans :: "(nat, Event Chan) gomap"
  eb_next :: nat

definition NewEventBus :: EventBus where
  "NewEventBus = \<lparr>eb_subscribers = [], eb_events = [], eb_maxEvents = 10000, eb_chans = [],
     eb_next = 0\<rparr>"

definition subs_of :: "EventBus \<Rightarrow> string \<Rightarrow> nat list" where
  "subs_of eb ty = (case go_get (eb_subscribers eb) ty of None \<Rightarrow> [] | Some cs \<Rightarrow> cs)"

definition EventBus_Subscribe :: "string \<Rightarrow> EventBus \<Rightarrow> nat \<times> EventBus" where
  "EventBus_Subscribe eventType eb =
     (let ch = eb_next eb
      in (ch, eb\<lparr>eb_chans := go_put ch \<lparr>ch_buf = [], ch_cap = 100, ch_closed = False\<rparr> (eb_chans eb),
            eb_subscribers := go_put eventType (subs_of eb eventType @ [ch]) (eb_subscribers eb),
            eb_next := ch + 1\<rparr>))"

definition EventBus_SubscribeAll :: "EventBus \<Rightarrow> nat \<times> EventBus" where
  "EventBus_SubscribeAll = EventBus_Subscribe ''*''"

text \<open>An operation on the channel with a given identity.\<close>

definition on_chan ::
  "(Event Chan \<Rightarrow> Event Chan go) \<Rightarrow> nat \<Rightarrow> EventBus \<Rightarrow> EventBus go" where
  "on_chan f ch eb =
     (case go_get (eb_chans eb) ch of
        None \<Rightarrow> Inl NilDeref
      | Some c \<Rightarrow> go_bind (f c) (\<lambda>c. Inr (eb\<lparr>eb_chans := go_put ch c (eb_chans eb)\<rparr>)))"

text \<open>The first subscriber equal to the channel is removed, and the channel closed.\<close>

definition EventBus_Unsubscribe :: "string \<Rightarrow> nat \<Rightarrow> EventBus \<Rightarrow> EventBus go" where
  "EventBus_Unsubscribe eventType ch eb =
     (if ch \<in> set (subs_of eb eventType) then
        on_chan chan_close ch
          (eb\<lparr>eb_subscribers := go_put eventType (remove1 ch (subs_of eb eventType)) (eb_subscribers eb)\<rparr>)
      else Inr eb)"

definition stamp :: "string \<Rightarrow> gtime \<Rightarrow> Event \<Rightarrow> Event" where
  "stamp uid now event =
     (let event = (if ev_ID event = [] then event\<lparr>ev_ID := uid\<rparr> else event)
      in if ev_Timestamp event = None then event\<lparr>ev_Timestamp := now\<rparr> else event)"

definition bus_save :: "Event \<Rightarrow> EventBus \<Rightarrow> EventBus" where
  "bus_save event eb =
     (let events = eb_events eb @ [event]
      in if eb_maxEvents eb < length events
         then eb\<lparr>eb_events := drop (length events - eb_maxEvents eb) events\<rparr>
         else eb\<lparr>eb_events := events\<rparr>)"

text \<open>\<open>for _, ch := range subs { select { case ch <- event: default: } }\<close>\<close>

fun notify :: "Event \<Rightarrow> nat list \<Rightarrow> EventBus \<Rightarrow> EventBus go" where
  "notify event [] eb = Inr eb"
| "notify event (ch # chs) eb = go_bind (on_chan (chan_offer event) ch eb) (notify event chs)"

definition EventBus_Publish :: "string \<Rightarrow> gtime \<Rightarrow> Event \<Rightarrow> EventBus \<Rightarrow> EventBus go" where
  "EventBus_Publish uid now event eb =
     (let event = stamp uid now event; eb = bus_save event eb
      in go_bind (notify event (subs_of eb (ev_Type event)) eb) (\<lambda>eb.
           notify event (subs_of eb ''*'') eb))"

definition EventBus_GetEvents :: "u64 \<Rightarrow> EventBus \<Rightarrow> Event list" where
  "EventBus_GetEvents since eb = filter (\<lambda>event. since \<le> ev_Tick event) (eb_events eb)"

text \<open>The loop runs from the last event to the first.\<close>

fun by_type_loop :: "string \<Rightarrow> int \<Rightarrow> Event list \<Rightarrow> Event list \<Rightarrow> Event list" where
  "by_type_loop ty limit [] result = result"
| "by_type_loop ty limit (e # es) result =
     (if int (length result) < limit
      then by_type_loop ty limit es (if ev_Type e = ty then result @ [e] else result)
      else result)"

definition EventBus_GetEventsByType :: "string \<Rightarrow> int \<Rightarrow> EventBus \<Rightarrow> Event list" where
  "EventBus_GetEventsByType eventType limit eb = by_type_loop eventType limit (rev (eb_events eb)) []"

text \<open>The last \<open>limit\<close> entries of a slice; a negative limit is out of the bounds.\<close>

definition last_entries :: "int \<Rightarrow> 'a list \<Rightarrow> 'a list go" where
  "last_entries limit xs =
     (let limit = (if int (length xs) < limit then int (length xs) else limit)
      in if limit < 0 then Inl SliceBounds else Inr (drop (length xs - nat limit) xs))"

definition EventBus_GetLatestEvents :: "int \<Rightarrow> EventBus \<Rightarrow> Event list go" where
  "EventBus_GetLatestEvents limit eb = last_entries limit (eb_events eb)"

definition EventBus_Clear :: "EventBus \<Rightarrow> EventBus" where
  "EventBus_Clear eb = eb\<lparr>eb_events := []\<rparr>"

definition EventBus_Count :: "EventBus \<Rightarrow> nat" where
  "EventBus_Count eb = length (eb_events eb)"

subsection \<open>The event logger\<close>

record EventLogger =
  el_events :: "Event list"
  el_maxSize :: int
  el_chan :: nat

text \<open>
  The constructor starts a goroutine that subscribes to all events; \<open>logger_subscribe\<close> is
  its first step, and \<open>logger_pump\<close> one turn of its loop: it takes an event from the
  channel, when there is one, and logs it.
\<close>

definition logger_subscribe :: "int \<Rightarrow> EventBus \<Rightarrow> EventLogger \<times> EventBus" where
  "logger_subscribe maxSize eb =
     (case EventBus_SubscribeAll eb of
        (ch, eb) \<Rightarrow> (\<lparr>el_events = [], el_maxSize = maxSize, el_chan = ch\<rparr>, eb))"

definition EventLogger_log :: "Event \<Rightarrow> EventLogger \<Rightarrow> EventLogger" where
  "EventLogger_log event el =
     (let events = el_events el @ [event]
      in if el_maxSize el < int (length events) then el\<lparr>el_events := tl events\<rparr>
         else el\<lparr>el_events := events\<rparr>)"

definition logger_pump :: "EventLogger \<Rightarrow> EventBus \<Rightarrow> EventLogger \<times> EventBus" where
  "logger_pump el eb =
     (case go_get (eb_chans eb) (el_chan el) of
        None \<Rightarrow> (el, eb)
      | Some c \<Rightarrow>
          (case ch_buf c of
             [] \<Rightarrow> (el, eb)
           | e # es \<Rightarrow> (EventLogger_log e el,
               eb\<lparr>eb_chans := go_put (el_chan el) (c\<lparr>ch_buf := es\<rparr>) (eb_chans eb)\<rparr>)))"

definition EventLogger_GetLogs :: "int \<Rightarrow> EventLogger \<Rightarrow> Event list go" where
  "EventLogger_GetLogs limit el =
     (let limit = (if int (length (el_events el)) < limit then int (length (el_events el)) else limit)
      in if limit < 0 then Inl MakeSliceLen
         else Inr (drop (length (el_events el) - nat limit) (el_events el)))"

definition EventLogger_Filter :: "(Event \<Rightarrow> bool) \<Rightarrow> EventLogger \<Rightarrow> Event list" where
  "EventLogger_Filter filterFn el = filter filterFn (el_events el)"

subsection \<open>The buffers\<close>

lemma bus_save_events [simp]:
  "eb_events (bus_save e eb) = keep_last (eb_maxEvents eb) (eb_events eb @ [e])"
  by (simp add: bus_save_def Let_def keep_last_def)

lemma bus_save_other [simp]:
  "eb_subscribers (bus_save e eb) = eb_subscribers eb" "eb_chans (bus_save e eb) = eb_chans eb"
  "eb_maxEvents (bus_save e eb) = eb_maxEvents eb" "eb_next (bus_save e eb) = eb_next eb"
  by (simp_all add: bus_save_def Let_def)

interpretation bus_log: trimmed_log eb_events eb_maxEvents bus_save "\<lambda>_. True"
  by unfold_locales simp_all

lemma EventLogger_log_events:
  assumes "length (el_events el) \<le> nat (el_maxSize el)"
  shows "el_events (EventLogger_log e el) = keep_last (nat (el_maxSize el)) (el_events el @ [e])"
proof (cases "el_maxSize el < int (length (el_events el @ [e]))")
  case True
  then have m: "nat (el_maxSize el) = length (el_events el)" using assms by auto
  show ?thesis
    using True by (cases "el_events el") (simp_all add: EventLogger_log_def Let_def keep_last_def m)
next
  case False
  then show ?thesis by (simp add: EventLogger_log_def Let_def)
qed

lemma EventLogger_log_maxSize [simp]: "el_maxSize (EventLogger_log e el) = el_maxSize el"
  by (simp add: EventLogger_log_def Let_def)

interpretation logger: trimmed_log el_events "\<lambda>el. nat (el_maxSize el)" EventLogger_log
  "\<lambda>el. length (el_events el) \<le> nat (el_maxSize el)"
  by unfold_locales (simp_all add: EventLogger_log_events)

lemma by_type_loop_take:
  "by_type_loop ty limit es acc = acc @ take (nat limit - length acc) (filter (\<lambda>e. ev_Type e = ty) es)"
  by (induction es arbitrary: acc) (auto simp: Suc_diff_le take_Cons' not_less)

subsection \<open>No send on a closed channel\<close>

text \<open>
  Every subscribed channel exists and is open, and no channel is subscribed twice.
\<close>

definition bus_ok :: "EventBus \<Rightarrow> bool" where
  "bus_ok eb \<longleftrightarrow> go_wf (eb_subscribers eb) \<and>
     (\<forall>ty ch. ch \<in> set (subs_of eb ty) \<longrightarrow>
        (\<exists>c. go_get (eb_chans eb) ch = Some c \<and> \<not> ch_closed c) \<and> ch < eb_next eb) \<and>
     (\<forall>ty. distinct (subs_of eb ty)) \<and>
     (\<forall>ty ty' ch. ch \<in> set (subs_of eb ty) \<longrightarrow> ch \<in> set (subs_of eb ty') \<longrightarrow> ty = ty')"

lemma bus_ok_New: "bus_ok NewEventBus"
  by (simp add: bus_ok_def NewEventBus_def subs_of_def)

lemma subs_of_put:
  "subs_of (eb\<lparr>eb_subscribers := go_put ty cs (eb_subscribers eb)\<rparr>) ty' =
     (if ty' = ty then cs else subs_of eb ty')"
  by (simp add: subs_of_def)

lemma subs_of_upd [simp]:
  "subs_of (eb\<lparr>eb_chans := x\<rparr>) = subs_of eb" "subs_of (eb\<lparr>eb_next := n\<rparr>) = subs_of eb"
  "subs_of (eb\<lparr>eb_events := es\<rparr>) = subs_of eb" "subs_of (bus_save e eb) = subs_of eb"
  by (auto simp: subs_of_def fun_eq_iff)

lemma bus_ok_Subscribe: "bus_ok eb \<Longrightarrow> bus_ok (snd (EventBus_Subscribe ty eb))"
  unfolding bus_ok_def EventBus_Subscribe_def Let_def
  by (auto simp: subs_of_def less_Suc_eq split: if_splits option.splits)
     (metis less_irrefl)+

text \<open>Offering to an open channel keeps it open.\<close>

lemma chan_offer_open:
  "\<not> ch_closed c \<Longrightarrow> \<exists>c'. chan_offer x c = Inr c' \<and> \<not> ch_closed c'"
  by (simp add: chan_offer_def)

lemma bus_ok_chan:
  assumes "bus_ok eb" and "\<not> ch_closed c'"
  shows "bus_ok (eb\<lparr>eb_chans := go_put ch c' (eb_chans eb)\<rparr>)"
  using assms unfolding bus_ok_def by simp

lemma notify_ok:
  assumes "bus_ok eb" and "set chs \<subseteq> set (subs_of eb ty)"
  shows "\<exists>eb'. notify e chs eb = Inr eb' \<and> bus_ok eb' \<and> subs_of eb' = subs_of eb \<and>
    eb_events eb' = eb_events eb"
  using assms
proof (induction chs arbitrary: eb)
  case (Cons ch chs)
  from Cons.prems obtain c where c: "go_get (eb_chans eb) ch = Some c" "\<not> ch_closed c"
    unfolding bus_ok_def by (metis list.set_intros(1) subsetD)
  obtain c' where c': "chan_offer e c = Inr c'" "\<not> ch_closed c'"
    using chan_offer_open [OF c(2)] by blast
  let ?eb = "eb\<lparr>eb_chans := go_put ch c' (eb_chans eb)\<rparr>"
  have "bus_ok ?eb" using Cons.prems(1) c'(2) by (rule bus_ok_chan)
  with Cons.IH [of ?eb] Cons.prems c c' show ?case by (simp add: on_chan_def)
qed simp

lemma Publish_ok:
  assumes "bus_ok eb"
  shows "\<exists>eb'. EventBus_Publish uid now e eb = Inr eb' \<and> bus_ok eb' \<and>
    eb_events eb' = keep_last (eb_maxEvents eb) (eb_events eb @ [stamp uid now e])"
proof -
  let ?s = "bus_save (stamp uid now e) eb"
  have s: "bus_ok ?s" using assms by (simp add: bus_ok_def)
  obtain eb1 where eb1: "notify (stamp uid now e) (subs_of ?s (ev_Type (stamp uid now e))) ?s = Inr eb1"
    "bus_ok eb1" "subs_of eb1 = subs_of ?s" "eb_events eb1 = eb_events ?s"
    using notify_ok [OF s order_refl] by blast
  obtain eb2 where "notify (stamp uid now e) (subs_of eb1 ''*'') eb1 = Inr eb2"
    "bus_ok eb2" "eb_events eb2 = eb_events eb1"
    using notify_ok [OF eb1(2) order_refl] by blast
  with eb1 show ?thesis by (simp add: EventBus_Publish_def Let_def)
qed

lemma Unsubscribe_ok:
  assumes "bus_ok eb"
  shows "\<exists>eb'. EventBus_Unsubscribe ty ch eb = Inr eb' \<and> bus_ok eb' \<and> ch \<notin> set (subs_of eb' ty)"
proof (cases "ch \<in> set (subs_of eb ty)")
  case True
  then obtain c where c: "go_get (eb_chans eb) ch = Some c" "\<not> ch_closed c"
    using assms unfolding bus_ok_def by blast
  let ?eb = "eb\<lparr>eb_subscribers := go_put ty (remove1 ch (subs_of eb ty)) (eb_subscribers eb),
      eb_chans := go_put ch (c\<lparr>ch_closed := True\<rparr>) (eb_chans eb)\<rparr>"
  have sub: "subs_of ?eb ty' = (if ty' = ty then remove1 ch (subs_of eb ty) else subs_of eb ty')" for ty'
    by (simp add: subs_of_def)
  have d: "distinct (subs_of eb ty)" using assms unfolding bus_ok_def by blast
  have other: "x \<noteq> ch" if "x \<in> set (subs_of ?eb ty')" for x ty'
  proof (cases "ty' = ty")
    case False
    then show ?thesis using that True assms sub unfolding bus_ok_def by metis
  qed (use that d sub in simp)
  have "bus_ok ?eb"
    unfolding bus_ok_def
  proof (intro conjI allI impI)
    show "go_wf (eb_subscribers ?eb)" using assms by (simp add: bus_ok_def)
    show "distinct (subs_of ?eb ty')" for ty' using assms sub by (simp add: bus_ok_def)
    fix ty1 x assume x: "x \<in> set (subs_of ?eb ty1)"
    then have old: "x \<in> set (subs_of eb ty1)" using sub d by (auto split: if_splits)
    then show "\<exists>c. go_get (eb_chans ?eb) x = Some c \<and> \<not> ch_closed c"
      using assms other [OF x] unfolding bus_ok_def by simp
    show "x < eb_next ?eb" using old assms unfolding bus_ok_def by simp
    fix ty2 assume "x \<in> set (subs_of ?eb ty2)"
    then have "x \<in> set (subs_of eb ty2)" using sub d by (auto split: if_splits)
    with old show "ty1 = ty2" using assms unfolding bus_ok_def by blast
  qed
  moreover have "EventBus_Unsubscribe ty ch eb = Inr ?eb"
    using True c by (simp add: EventBus_Unsubscribe_def on_chan_def chan_close_def)
  moreover have "ch \<notin> set (subs_of ?eb ty)" using sub d by simp
  ultimately show ?thesis by blast
qed (use assms in \<open>simp add: EventBus_Unsubscribe_def\<close>)

text \<open>A receiver takes the first entry of a channel.\<close>

definition chan_take :: "nat \<Rightarrow> EventBus \<Rightarrow> EventBus" where
  "chan_take ch eb =
     (case go_get (eb_chans eb) ch of
        None \<Rightarrow> eb
      | Some c \<Rightarrow> eb\<lparr>eb_chans := go_put ch (c\<lparr>ch_buf := tl (ch_buf c)\<rparr>) (eb_chans eb)\<rparr>)"

inductive bus_step :: "EventBus \<Rightarrow> EventBus \<Rightarrow> bool" where
  subscribe: "bus_step eb (snd (EventBus_Subscribe ty eb))"
| unsubscribe: "EventBus_Unsubscribe ty ch eb = Inr eb' \<Longrightarrow> bus_step eb eb'"
| publish: "EventBus_Publish uid now e eb = Inr eb' \<Longrightarrow> bus_step eb eb'"
| receive: "bus_step eb (chan_take ch eb)"
| clear: "bus_step eb (EventBus_Clear eb)"

inductive_cases bus_stepE: "bus_step eb eb'"

lemma bus_ok_take: "bus_ok eb \<Longrightarrow> bus_ok (chan_take ch eb)"
  unfolding bus_ok_def by (auto simp: chan_take_def split: option.splits) (metis option.inject)

lemma bus_ok_step: "bus_ok eb \<Longrightarrow> bus_step eb eb' \<Longrightarrow> bus_ok eb'"
proof (erule bus_stepE)
  fix ty ch assume "bus_ok eb" "EventBus_Unsubscribe ty ch eb = Inr eb'"
  with Unsubscribe_ok [of eb ty ch] show ?thesis by auto
next
  fix uid now e assume "bus_ok eb" "EventBus_Publish uid now e eb = Inr eb'"
  with Publish_ok [of eb uid now e] show ?thesis by auto
next
  show "bus_ok eb \<Longrightarrow> eb' = EventBus_Clear eb \<Longrightarrow> bus_ok eb'"
    by (simp add: EventBus_Clear_def bus_ok_def)
qed (auto intro: bus_ok_Subscribe bus_ok_take)

interpretation bus: step_system "\<lambda>eb. eb = NewEventBus" bus_step bus_ok
  by unfold_locales (auto intro: bus_ok_New bus_ok_step)

text \<open>The bus never panics.  Whatever sequence of subscriptions, cancellations, publications
  and receptions has happened since the bus was created, publishing and unsubscribing return: no
  channel is sent on or closed after it was closed.\<close>

theorem EventBus_never_panics:
  assumes "bus_step\<^sup>*\<^sup>* NewEventBus eb"
  shows "(\<exists>eb'. EventBus_Publish uid now e eb = Inr eb') \<and>
    (\<exists>eb'. EventBus_Unsubscribe ty ch eb = Inr eb' \<and> ch \<notin> set (subs_of eb' ty))"
proof -
  have "bus_ok eb" using bus.reachable_inv [OF refl assms] .
  from Publish_ok [OF this, of uid now e] Unsubscribe_ok [OF this, of ty ch]
  show ?thesis by blast
qed

theorem EventBus_never_panics_witness:
  "\<exists>eb'. EventBus_Unsubscribe ''a'' 0 (snd (EventBus_Subscribe ''a'' NewEventBus)) = Inr eb'"
proof -
  have "bus_step\<^sup>*\<^sup>* NewEventBus (snd (EventBus_Subscribe ''a'' NewEventBus))"
    by (blast intro: bus_step.subscribe)
  from EventBus_never_panics [OF this, of _ _ _ "''a''" 0] show ?thesis by blast
qed

text \<open>Publishing a sequence of events.\<close>

fun publishes :: "(string \<times> gtime \<times> Event) list \<Rightarrow> EventBus \<Rightarrow> EventBus go" where
  "publishes [] eb = Inr eb"
| "publishes ((uid, now, e) # es) eb = go_bind (EventBus_Publish uid now e eb) (publishes es)"

lemma notify_maxEvents: "notify e chs eb = Inr eb' \<Longrightarrow> eb_maxEvents eb' = eb_maxEvents eb"
  by (induction chs arbitrary: eb)
     (auto simp: go_bind_eq_Inr on_chan_def split: option.splits)

lemma Publish_maxEvents: "EventBus_Publish uid now e eb = Inr eb' \<Longrightarrow> eb_maxEvents eb' = eb_maxEvents eb"
  by (auto simp: EventBus_Publish_def Let_def go_bind_eq_Inr dest!: notify_maxEvents)

lemma publishes_events:
  assumes "bus_ok eb" and "length (eb_events eb) \<le> eb_maxEvents eb"
  shows "\<exists>eb'. publishes es eb = Inr eb' \<and>
    eb_events eb' = keep_last (eb_maxEvents eb) (eb_events eb @ map (\<lambda>(uid, now, e). stamp uid now e) es)"
  using assms
proof (induction es arbitrary: eb)
  case (Cons u es)
  obtain uid now e where u: "u = (uid, now, e)" by (cases u) auto
  obtain eb1 where p: "EventBus_Publish uid now e eb = Inr eb1" and ok: "bus_ok eb1"
    and ev: "eb_events eb1 = keep_last (eb_maxEvents eb) (eb_events eb @ [stamp uid now e])"
    using Publish_ok [OF Cons.prems(1)] by blast
  have "length (eb_events eb1) \<le> eb_maxEvents eb1" using ev Publish_maxEvents [OF p] by simp
  with Cons.IH [OF ok] p ev u show ?case
    by (simp add: Publish_maxEvents keep_last_keep_last_append)
qed simp

text \<open>Retention.  However many events are published on a new bus, it keeps the most recent
  ten thousand, in the order of publication, each with its identity and time filled in.\<close>

theorem EventBus_retention:
  "\<exists>eb. publishes es NewEventBus = Inr eb \<and>
     eb_events eb = keep_last 10000 (map (\<lambda>(uid, now, e). stamp uid now e) es)"
  using publishes_events [OF bus_ok_New, of es] by (simp add: NewEventBus_def)

text \<open>Queries by type.  \<open>GetEventsByType\<close> gives the newest matching events first, as
  many as the limit allows.\<close>

theorem EventBus_by_type:
  "EventBus_GetEventsByType ty limit eb =
     take (nat limit) (filter (\<lambda>e. ev_Type e = ty) (rev (eb_events eb)))"
  by (simp add: EventBus_GetEventsByType_def by_type_loop_take)

end
