(* ===== verification/GoFloat.thy ===== *)
theory GoFloat
  imports GoValues
begin

section \<open>Floating-point arithmetic\<close>

text \<open>
  The operations of \<open>float64\<close>: the exact result rounded to the nearest double, ties to even,
  with gradual underflow and overflow to infinity.  Zeros have no sign here; a quotient by zero is
  taken to have the sign of the dividend.  Products and sums are rounded separately, as on amd64.
\<close>

text \<open>The length of a number in bits.\<close>

function bit_count :: "int \<Rightarrow> int" where
  "bit_count n = (if n \<le> 0 then 0 else 1 + bit_count (n div 2))"
  by pat_completeness auto
termination by (relation "measure nat") auto

declare bit_count.simps [simp del]

text \<open>The exponent \<open>e\<close> with \<open>2 ^ e \<le> a < 2 ^ (e + 1)\<close>.\<close>

definition rat_log2 :: "rat \<Rightarrow> int" where
  "rat_log2 a =
     (case quotient_of a of (p, q) \<Rightarrow>
        let k = bit_count p - bit_count q
        in if 2 powi k \<le> a then k else k - 1)"

definition round_half_even :: "rat \<Rightarrow> int" where
  "round_half_even x =
     (let n = \<lfloor>x\<rfloor>; d = x - of_int n
      in if 1 / 2 < d \<or> (d = 1 / 2 \<and> odd n) then n + 1 else n)"

definition f64_round :: "rat \<Rightarrow> f64" where
  "f64_round r =
     (if r = 0 then Fin 0
      else
        let ulp = 2 powi (max (rat_log2 \<bar>r\<bar>) (-1022) - 52);
            v = of_int (round_half_even (\<bar>r\<bar> / ulp)) * ulp
        in if 2 ^ 1024 \<le> v then (if r < 0 then NegInf else PosInf) else Fin (sgn r * v))"

definition f64_neg :: "f64 \<Rightarrow> f64" where
  "f64_neg x = (case x of NaN \<Rightarrow> NaN | NegInf \<Rightarrow> PosInf | PosInf \<Rightarrow> NegInf | Fin r \<Rightarrow> Fin (- r))"

fun f64_add :: "f64 \<Rightarrow> f64 \<Rightarrow> f64" where
  "f64_add NaN _ = NaN"
| "f64_add _ NaN = NaN"
| "f64_add (Fin x) (Fin y) = f64_round (x + y)"
| "f64_add PosInf NegInf = NaN"
| "f64_add NegInf PosInf = NaN"
| "f64_add PosInf _ = PosInf"
| "f64_add NegInf _ = NegInf"
| "f64_add _ PosInf = PosInf"
| "f64_add _ NegInf = NegInf"

definition f64_sub :: "f64 \<Rightarrow> f64 \<Rightarrow> f64" where
  "f64_sub x y = f64_add x (f64_neg y)"

definition f64_inf :: "rat \<Rightarrow> f64" where
  "f64_inf s = (if s = 0 then NaN else if s < 0 then NegInf else PosInf)"

fun f64_mul :: "f64 \<Rightarrow> f64 \<Rightarrow> f64" where
  "f64_mul NaN _ = NaN"
| "f64_mul _ NaN = NaN"
| "f64_mul (Fin x) (Fin y) = f64_round (x * y)"
| "f64_mul (Fin x) PosInf = f64_inf x"
| "f64_mul (Fin x) NegInf = f64_inf (- x)"
| "f64_mul PosInf (Fin y) = f64_inf y"
| "f64_mul NegInf (Fin y) = f64_inf (- y)"
| "f64_mul PosInf PosInf = PosInf"
| "f64_mul NegInf NegInf = PosInf"
| "f64_mul PosInf NegInf = NegInf"
| "f64_mul NegInf PosInf = NegInf"

fun f64_div :: "f64 \<Rightarrow> f64 \<Rightarrow> f64" where
  "f64_div NaN _ = NaN"
| "f64_div _ NaN = NaN"
| "f64_div (Fin x) (Fin y) = (if y = 0 then f64_inf x else f64_round (x / y))"
| "f64_div (Fin x) _ = Fin 0"
| "f64_div PosInf (Fin y) = (if y < 0 then NegInf else PosInf)"
| "f64_div NegInf (Fin y) = (if y < 0 then PosInf else NegInf)"
| "f64_div _ _ = NaN"

definition f64_abs :: "f64 \<Rightarrow> f64" where
  "f64_abs x = (case x of Fin r \<Rightarrow> Fin \<bar>r\<bar> | NegInf \<Rightarrow> PosInf | _ \<Rightarrow> x)"

definition f64_max :: "f64 \<Rightarrow> f64 \<Rightarrow> f64" where
  "f64_max x y =
     (if x = PosInf \<or> y = PosInf then PosInf
      else if x = NaN \<or> y = NaN then NaN
      else if f64_less x y then y else x)"

definition f64_min :: "f64 \<Rightarrow> f64 \<Rightarrow> f64" where
  "f64_min x y =
     (if x = NegInf \<or> y = NegInf then NegInf
      else if x = NaN \<or> y = NaN then NaN
      else if f64_less x y then x else y)"

definition f64_le :: "f64 \<Rightarrow> f64 \<Rightarrow> bool" where
  "f64_le x y \<longleftrightarrow> f64_less x y \<or> f64_eq x y"

text \<open>A decimal literal is the nearest double.\<close>

abbreviation lit :: "rat \<Rightarrow> f64" where
  "lit r \<equiv> f64_round r"

text \<open>
  The conversions cut off the fraction; out of range they give what the target machine gives,
  \<open>oob\<close>.
\<close>

definition f64_to_u64 :: "u64 \<Rightarrow> f64 \<Rightarrow> u64" where
  "f64_to_u64 oob x = (case x of Fin r \<Rightarrow> if -1 < r \<and> r < 2 ^ 64 then (if r < 0 then 0 else of_int \<lfloor>r\<rfloor>) else oob | _ \<Rightarrow> oob)"

definition f64_to_int :: "int \<Rightarrow> f64 \<Rightarrow> int" where
  "f64_to_int oob x =
     (case x of Fin r \<Rightarrow>
        (let n = (if r < 0 then \<lceil>r\<rceil> else \<lfloor>r\<rfloor>) in if - (2 ^ 63) \<le> n \<and> n < 2 ^ 63 then n else oob)
      | _ \<Rightarrow> oob)"

end
