(* ===== verification/GoFloatFacts.thy ===== *)
theory GoFloatFacts
  imports GoFloat
begin

section \<open>Rounding: properties\<close>

text \<open>
  Rounding keeps the order, leaves the numbers of 53 bits as they are and does not leave the interval
  between two of them; so bounds can be carried through floating point arithmetic.
\<close>

subsection \<open>The exponent\<close>

lemma bit_count_bounds:
  "0 < n \<Longrightarrow> 0 < bit_count n \<and> 2 powi (bit_count n - 1) \<le> (of_int n :: rat) \<and> (of_int n :: rat) < 2 powi (bit_count n)"
proof (induction n rule: bit_count.induct)
  case (1 n)
  show ?case
  proof (cases "n = 1")
    case True then show ?thesis by (simp add: bit_count.simps)
  next
    case False
    let ?m = "n div 2"
    have m: "0 < ?m" "2 * ?m \<le> n" "n < 2 * ?m + 2" using 1(2) False by auto
    then have ih: "0 < bit_count ?m" "2 powi (bit_count ?m - 1) \<le> (of_int ?m :: rat)" "(of_int ?m :: rat) < 2 powi (bit_count ?m)"
      using 1 by auto
    have b: "bit_count n = 1 + bit_count ?m" using 1(2) by (simp add: bit_count.simps [of n])
    obtain j where k: "bit_count ?m = int (Suc j)" using ih(1) by (metis gr0_implies_Suc zero_less_imp_eq_int)
    have r: "(of_int (2 ^ j) :: rat) \<le> of_int ?m" "(of_int ?m :: rat) < of_int (2 ^ Suc j)" using ih(2,3) by (simp_all add: k power_int_of_nat power_int_add)
    then have "2 ^ j \<le> ?m" "?m < 2 ^ Suc j" by (simp_all only: of_int_le_iff of_int_less_iff)
    then have "2 ^ Suc j \<le> n" "n < 2 ^ Suc (Suc j)" using m by simp_all
    then have "2 ^ Suc j \<le> (of_int n :: rat)" "(of_int n :: rat) < 2 ^ Suc (Suc j)"
      by (metis of_int_le_iff of_int_numeral of_int_power, metis of_int_less_iff of_int_numeral of_int_power)
    then show ?thesis by (simp add: b k power_int_add power_int_of_nat)
  qed
qed

lemma rat_log2_bounds:
  assumes "0 < a"
  shows "2 powi rat_log2 a \<le> a" "a < 2 powi (rat_log2 a + 1)"
proof -
  obtain p q where pq: "quotient_of a = (p, q)" by force
  have q: "0 < q" using quotient_of_denom_pos [OF pq] .
  have a: "a = of_int p / of_int q" using quotient_of_div [OF pq] .
  have p: "0 < p" using assms q by (simp add: a zero_less_divide_iff)
  note bp = bit_count_bounds [OF p] and bq = bit_count_bounds [OF q]
  define k where "k = bit_count p - bit_count q"
  have "a < 2 powi (bit_count p) / 2 powi (bit_count q - 1)"
    unfolding a using bp bq q p by (intro frac_less) simp_all
  also have "\<dots> = 2 powi (k + 1)" by (simp add: k_def algebra_simps flip: power_int_diff)
  finally have up: "a < 2 powi (k + 1)" .
  have "2 powi (k - 1) = 2 powi (bit_count p - 1) / (2 powi (bit_count q) :: rat)" by (simp add: k_def algebra_simps flip: power_int_diff)
  also have "\<dots> \<le> a" unfolding a using bp bq q p by (intro frac_le) simp_all
  finally have lo: "2 powi (k - 1) \<le> a" .
  have l: "rat_log2 a = (if 2 powi k \<le> a then k else k - 1)" by (simp add: rat_log2_def pq k_def)
  show "2 powi rat_log2 a \<le> a" "a < 2 powi (rat_log2 a + 1)" using up lo by (simp_all add: l not_le)
qed

subsection \<open>The nearest integer\<close>

lemma round_half_even_ge: "of_int n \<le> x \<Longrightarrow> n \<le> round_half_even x"
  by (auto simp: round_half_even_def Let_def le_floor_iff intro: order_trans [of _ "\<lfloor>x\<rfloor>"])

lemma round_half_even_le:
  assumes "x \<le> of_int n"
  shows "round_half_even x \<le> n"
proof (cases "x = of_int n")
  case False
  then have "\<lfloor>x\<rfloor> < n" using assms by (simp add: floor_less_iff)
  then show ?thesis by (simp add: round_half_even_def Let_def)
qed (simp add: round_half_even_def)

subsection \<open>The numbers of 53 bits\<close>

definition f64_num :: "rat \<Rightarrow> bool" where
  "f64_num v \<longleftrightarrow> (\<exists>n e. v = of_int n * 2 powi (e - 52) \<and> - 1022 \<le> e \<and> \<bar>n\<bar> \<le> 2 ^ 53)"

definition f64_ulp :: "rat \<Rightarrow> rat" where
  "f64_ulp r = 2 powi (max (rat_log2 r) (- 1022) - 52)"

definition f64_near :: "rat \<Rightarrow> rat" where
  "f64_near r = (if r = 0 then 0 else of_int (round_half_even (r / f64_ulp r)) * f64_ulp r)"

lemma f64_ulp_pos [simp]: "0 < f64_ulp r"
  by (simp add: f64_ulp_def)

lemma f64_round_near:
  "0 \<le> r \<Longrightarrow> f64_round r = (if 2 ^ 1024 \<le> f64_near r then PosInf else Fin (f64_near r))"
  by (auto simp: f64_round_def f64_near_def f64_ulp_def Let_def sgn_if)

lemma powi_multiple:
  assumes "e' \<le> (e :: int)"
  obtains N :: int where "(2 powi e :: rat) = of_int N * 2 powi e'"
proof -
  obtain m where "e - e' = int m" using assms by (metis diff_ge_0_iff_ge nonneg_int_cases)
  then have "e = int m + e'" by simp
  then have "(2 powi e :: rat) = of_int (2 ^ m) * 2 powi e'" by (simp add: power_int_add power_int_of_nat)
  then show thesis by (rule that)
qed

lemma f64_near_ge:
  assumes "f64_num v" and "v \<le> r" and "0 < r"
  shows "v \<le> f64_near r"
proof -
  let ?E = "max (rat_log2 r) (- 1022)"
  obtain n e where v: "v = of_int n * 2 powi (e - 52)" "- 1022 \<le> e" "\<bar>n\<bar> \<le> 2 ^ 53" using assms(1) by (auto simp: f64_num_def)
  have *: "v' \<le> f64_near r" if "v' = of_int N * f64_ulp r" "v' \<le> r" for v' N
  proof -
    have "of_int N \<le> r / f64_ulp r" using that by (simp add: pos_le_divide_eq)
    then have "of_int N \<le> (of_int (round_half_even (r / f64_ulp r)) :: rat)" using round_half_even_ge by simp
    then show ?thesis using that(1) assms(3) by (simp add: f64_near_def)
  qed
  show ?thesis
  proof (cases "?E \<le> e")
    case True
    then obtain N where "(2 powi (e - 52) :: rat) = of_int N * f64_ulp r" using powi_multiple [of "?E - 52" "e - 52"] unfolding f64_ulp_def by auto
    then show ?thesis using * [of v "n * N"] assms(2) v(1) by simp
  next
    case False
    have "of_int n \<le> (2 ^ 53 :: rat)" using v(3) by (metis abs_le_iff of_int_le_iff of_int_numeral of_int_power)
    then have "v \<le> 2 ^ 53 * 2 powi (e - 52)" unfolding v(1) by (intro mult_right_mono) simp_all
    also have "\<dots> = 2 powi (e + 1)" by (simp add: power_int_diff power_int_add power_int_numeral)
    also have "(2 :: rat) powi (e + 1) \<le> 2 powi ?E" using False by (intro power_int_increasing) linarith+
    also have "2 powi ?E \<le> f64_near r"
    proof (rule *)
      show "(2 powi ?E :: rat) = of_int (2 ^ 52) * f64_ulp r" by (simp add: f64_ulp_def power_int_diff power_int_numeral)
      have "?E = rat_log2 r" using False v(2) by simp
      then show "2 powi ?E \<le> r" using rat_log2_bounds(1) [OF assms(3)] by simp
    qed
    finally show ?thesis .
  qed
qed

lemma f64_near_le:
  assumes "f64_num v" and "r \<le> v" and "0 < r"
  shows "f64_near r \<le> v"
proof -
  let ?E = "max (rat_log2 r) (- 1022)"
  obtain n e where v: "v = of_int n * 2 powi (e - 52)" "- 1022 \<le> e" "\<bar>n\<bar> \<le> 2 ^ 53" using assms(1) by (auto simp: f64_num_def)
  have *: "f64_near r \<le> v'" if "v' = of_int N * f64_ulp r" "r \<le> v'" for v' N
  proof -
    have "r / f64_ulp r \<le> of_int N" using that by (simp add: pos_divide_le_eq)
    then have "(of_int (round_half_even (r / f64_ulp r)) :: rat) \<le> of_int N" using round_half_even_le by simp
    then show ?thesis using that(1) assms(3) by (simp add: f64_near_def)
  qed
  show ?thesis
  proof (cases "?E \<le> e")
    case True
    then obtain N where "(2 powi (e - 52) :: rat) = of_int N * f64_ulp r" using powi_multiple [of "?E - 52" "e - 52"] unfolding f64_ulp_def by auto
    then show ?thesis using * [of v "n * N"] assms(2) v(1) by simp
  next
    case False
    have "of_int n \<le> (2 ^ 53 :: rat)" using v(3) by (metis abs_le_iff of_int_le_iff of_int_numeral of_int_power)
    then have "v \<le> 2 ^ 53 * 2 powi (e - 52)" unfolding v(1) by (intro mult_right_mono) simp_all
    also have "\<dots> = 2 powi (e + 1)" by (simp add: power_int_diff power_int_add power_int_numeral)
    also have "(2 :: rat) powi (e + 1) \<le> 2 powi ?E" using False by (intro power_int_increasing) linarith+
    finally have "v \<le> 2 powi ?E" .
    moreover have E: "?E = rat_log2 r" using False v(2) by simp
    ultimately have "v = 2 powi ?E" using rat_log2_bounds(1) [OF assms(3)] assms(2) by simp
    then show ?thesis using * [of v "2 ^ 52"] assms(2) by (simp add: f64_ulp_def power_int_diff power_int_numeral)
  qed
qed

text \<open>A number of 53 bits is not changed.\<close>

lemma f64_near_num: "f64_num r \<Longrightarrow> 0 \<le> r \<Longrightarrow> f64_near r = r"
  using f64_near_ge [of r r] f64_near_le [of r r] by (cases "r = 0") (auto simp: f64_near_def)

lemma f64_num_int: "\<bar>n\<bar> \<le> 2 ^ 53 \<Longrightarrow> f64_num (of_int n)"
  unfolding f64_num_def by (intro exI [of _ n] exI [of _ 52]) simp

lemma f64_num_scaled: "\<bar>n\<bar> \<le> 2 ^ 53 \<Longrightarrow> - 1074 \<le> k \<Longrightarrow> f64_num (of_int n * 2 powi k)"
  unfolding f64_num_def by (intro exI [of _ n] exI [of _ "k + 52"]) simp

lemma f64_num_quarter: "\<bar>n\<bar> \<le> 2 ^ 53 \<Longrightarrow> f64_num (of_int n / 4)"
  using f64_num_scaled [of n "- 2"] by (simp add: power_int_minus field_simps)

lemma f64_num_half: "\<bar>n\<bar> \<le> 2 ^ 53 \<Longrightarrow> f64_num (of_int n / 2)"
  using f64_num_scaled [of n "- 1"] by (simp add: power_int_minus field_simps)

lemma f64_round_num: "f64_num r \<Longrightarrow> 0 \<le> r \<Longrightarrow> r < 2 ^ 1024 \<Longrightarrow> f64_round r = Fin r"
  by (simp add: f64_round_near f64_near_num)

lemma f64_round_int: "0 \<le> n \<Longrightarrow> n \<le> 2 ^ 53 \<Longrightarrow> f64_round (of_int n) = Fin (of_int n)"
proof (rule f64_round_num [OF f64_num_int])
  assume "n \<le> 2 ^ 53"
  then have "(of_int n :: rat) \<le> 2 ^ 53" by (metis of_int_le_iff of_int_numeral of_int_power)
  then show "(of_int n :: rat) < 2 ^ 1024" by (rule le_less_trans) simp
qed simp_all

text \<open>Rounding stays between two numbers of 53 bits.\<close>

lemma f64_round_between:
  assumes "f64_num a" and "f64_num b" and "0 \<le> a" and "a \<le> r" and "r \<le> b" and "b < 2 ^ 1024"
  obtains x where "f64_round r = Fin x" "a \<le> x" "x \<le> b"
proof (cases "r = 0")
  case True then show ?thesis using that [of 0] assms by (simp add: f64_round_def)
next
  case False
  then have r: "0 < r" using assms(3,4) by simp
  then have "a \<le> f64_near r" "f64_near r \<le> b" using f64_near_ge f64_near_le assms by simp_all
  then show ?thesis using that [of "f64_near r"] r assms(6) by (simp add: f64_round_near)
qed

text \<open>Rounding keeps the order.\<close>

lemma f64_near_mono:
  assumes "0 \<le> r" and "r \<le> s"
  shows "f64_near r \<le> f64_near s"
proof (cases "r = 0")
  case True
  have "f64_num 0" unfolding f64_num_def by (intro exI [of _ 0]) simp
  then show ?thesis using f64_near_ge [of 0 s] True assms by (cases "s = 0") (auto simp: f64_near_def)
next
  case False
  then have r: "0 < r" "0 < s" using assms by simp_all
  let ?E = "\<lambda>r. max (rat_log2 r) (- 1022)"
  show ?thesis
  proof (cases "?E r < ?E s")
    case True
    let ?v = "2 powi (?E r + 1) :: rat"
    have v: "f64_num ?v" using f64_num_scaled [of 1 "?E r + 1"] by simp
    have "r \<le> 2 powi (rat_log2 r + 1)" using rat_log2_bounds(2) [OF r(1)] by simp
    also have "\<dots> \<le> ?v" by (intro power_int_increasing) simp_all
    finally have "r \<le> ?v" .
    moreover have "?E r + 1 \<le> rat_log2 s" using True by linarith
    then have "?v \<le> 2 powi rat_log2 s" by (intro power_int_increasing) simp_all
    then have "?v \<le> s" using rat_log2_bounds(1) [OF r(2)] by simp
    ultimately show ?thesis using f64_near_le [OF v _ r(1)] f64_near_ge [OF v _ r(2)] by force
  next
    case False
    have "rat_log2 r \<le> rat_log2 s"
    proof (rule ccontr)
      assume "\<not> ?thesis"
      then have "(2 :: rat) powi (rat_log2 s + 1) \<le> 2 powi (rat_log2 r)" by (intro power_int_increasing) simp_all
      then show False using rat_log2_bounds(2) [OF r(2)] rat_log2_bounds(1) [OF r(1)] assms(2) by linarith
    qed
    then have "?E r = ?E s" using False by linarith
    then have u: "f64_ulp r = f64_ulp s" by (simp only: f64_ulp_def)
    have "round_half_even x \<le> round_half_even y" if "x \<le> y" for x y :: rat
    proof (cases "\<lfloor>x\<rfloor> = \<lfloor>y\<rfloor>")
      case True then show ?thesis using that by (auto simp: round_half_even_def Let_def)
    next
      case False
      then have "\<lfloor>x\<rfloor> + 1 \<le> \<lfloor>y\<rfloor>" using floor_mono [OF that] by simp
      then show ?thesis by (simp add: round_half_even_def Let_def)
    qed
    moreover have "r / f64_ulp r \<le> s / f64_ulp r" by (rule divide_right_mono [OF assms(2) less_imp_le]) simp
    ultimately have "round_half_even (r / f64_ulp r) \<le> round_half_even (s / f64_ulp r)" by blast
    then show ?thesis using r by (simp add: f64_near_def u)
  qed
qed

lemma f64_round_mono:
  assumes "0 \<le> r" and "r \<le> s" and "f64_round s = Fin y"
  obtains x where "f64_round r = Fin x" "0 \<le> x" "x \<le> y"
proof -
  have "f64_near 0 \<le> f64_near r" using f64_near_mono [of 0 r] assms(1) by simp
  then have "0 \<le> f64_near r" by (simp add: f64_near_def)
  then show ?thesis using that [of "f64_near r"] f64_near_mono [OF assms(1,2)] assms
    by (auto simp: f64_round_near split: if_splits)
qed

subsection \<open>Small numbers\<close>

lemma f64_near_0: "f64_near 0 = 0"
  by (simp add: f64_near_def)

lemma f64_near_bounds:
  assumes "f64_num b" "0 \<le> r" "r \<le> b"
  shows "0 \<le> f64_near r \<and> f64_near r \<le> b"
proof (cases "r = 0")
  case False
  have "f64_num 0" using f64_num_int [of 0] by simp
  then show ?thesis using False assms f64_near_ge [of 0 r] f64_near_le [of b r] by simp
qed (use assms in \<open>simp add: f64_near_def\<close>)

lemma f64_round_small: "0 \<le> r \<Longrightarrow> r \<le> 2 ^ 200 \<Longrightarrow> f64_round r = Fin (f64_near r)"
  using f64_near_bounds [of "2 ^ 200" r] f64_num_scaled [of 1 200] by (simp add: f64_round_near power_int_def)

lemma f64_round_neg: "r < 0 \<Longrightarrow> f64_round r = NegInf \<or> (\<exists>x \<le> 0. f64_round r = Fin x)"
proof -
  assume r: "r < 0"
  have "0 \<le> of_int (round_half_even (\<bar>r\<bar> / u)) * u" if "0 \<le> u" for u
    using round_half_even_ge [of 0 "\<bar>r\<bar> / u"] that by simp
  then show ?thesis using r by (auto simp: f64_round_def Let_def sgn_if)
qed

lemma f64_to_int_small:
  assumes "0 \<le> x" and "\<lfloor>x\<rfloor> \<le> p" and "p < 2 ^ 63"
  shows "f64_to_int oob (Fin x) = \<lfloor>x\<rfloor>"
proof -
  have "- (2 ^ 63) \<le> \<lfloor>x\<rfloor> \<and> \<lfloor>x\<rfloor> < 2 ^ 63" using assms zero_le_floor [of x] by linarith
  then show ?thesis using assms(1) unfolding f64_to_int_def Let_def by (simp only: f64.case not_less [symmetric] if_True if_False simp_thms)
qed

end
