(* ===== verification/EngineTime.thy ===== *)
theory EngineTime
  imports EngineEvent GoFloatFacts
begin

section \<open>The time controller: \<open>simulations/pkg/engine/time.go\<close>\<close>

text \<open>
  The controller's record, its operations, and the goroutines that run its loop.  A goroutine
  evaluates the stop channel each time it enters the \<open>select\<close>, and \<open>Stop\<close>
  replaces that channel: the step relation \<open>time_step\<close> interleaves the operations with the
  turns of the loops, split where the code releases the lock.  The ticker is the environment: a
  loop in its \<open>select\<close> may fire at any time.  Its interval is the base interval over the
  speed, and arming a ticker with an interval that is not positive panics.
\<close>

record TimeController =
  tc_tick :: u64
  tc_speed :: f64
  tc_paused :: bool
  tc_running :: bool
  tc_tickChan :: "u64 Chan"
  tc_stopChan :: nat
  tc_closed :: "nat list"
  tc_interval :: int

definition NewTimeController :: TimeController where
  "NewTimeController = \<lparr>tc_tick = 0, tc_speed = Fin 1, tc_paused = False, tc_running = False,
     tc_tickChan = \<lparr>ch_buf = [], ch_cap = 100, ch_closed = False\<rparr>, tc_stopChan = 0, tc_closed = [],
     tc_interval = 2500 * 1000000\<rparr>"

text \<open>The decimal literal \<open>0.1\<close> as a double.\<close>

definition f64_tenth :: f64 where
  "f64_tenth = Fin (3602879701896397 / 36028797018963968)"

text \<open>
  \<open>time.Duration(float64(tc.interval) / tc.speed)\<close>.  A quotient that is no 64-bit integer is
  converted to the least one, as on amd64.
\<close>

definition duration_oob :: int where
  "duration_oob = - (2 ^ 63)"

definition scaled_interval :: "int \<Rightarrow> f64 \<Rightarrow> int" where
  "scaled_interval interval speed = f64_to_int duration_oob (f64_div (f64_of_int interval) speed)"

definition getActualInterval :: "TimeController \<Rightarrow> int" where
  "getActualInterval tc = scaled_interval (tc_interval tc) (tc_speed tc)"

text \<open>\<open>time.NewTicker(d)\<close> and \<open>ticker.Reset(d)\<close>.\<close>

definition arm_ticker :: "int \<Rightarrow> unit go" where
  "arm_ticker d = (if 0 < d then Inr () else Inl ExplicitPanic)"

text \<open>The flag tells whether a goroutine for the loop is started.\<close>

definition TimeController_Start :: "TimeController \<Rightarrow> bool \<times> TimeController" where
  "TimeController_Start tc =
     (if tc_running tc then (False, tc)
      else (True, tc\<lparr>tc_running := True, tc_paused := False\<rparr>))"

text \<open>\<open>close(tc.stopChan); tc.stopChan = make(chan struct{})\<close>\<close>

definition TimeController_Stop :: "TimeController \<Rightarrow> TimeController go" where
  "TimeController_Stop tc =
     (if \<not> tc_running tc then Inr tc
      else if tc_stopChan tc \<in> set (tc_closed tc) then Inl ClosedChannel
      else Inr (tc\<lparr>tc_running := False, tc_closed := tc_stopChan tc # tc_closed tc,
                  tc_stopChan := tc_stopChan tc + 1\<rparr>))"

definition TimeController_Pause :: "TimeController \<Rightarrow> TimeController" where
  "TimeController_Pause tc = tc\<lparr>tc_paused := True\<rparr>"

definition TimeController_Resume :: "TimeController \<Rightarrow> TimeController" where
  "TimeController_Resume tc = tc\<lparr>tc_paused := False\<rparr>"

definition tick_once :: "TimeController \<Rightarrow> u64 \<times> TimeController" where
  "tick_once tc = (let t = tc_tick tc + 1 in (t, tc\<lparr>tc_tick := t\<rparr>))"

definition tick_offer :: "u64 \<Rightarrow> TimeController \<Rightarrow> TimeController go" where
  "tick_offer t tc = go_bind (chan_offer t (tc_tickChan tc)) (\<lambda>c. Inr (tc\<lparr>tc_tickChan := c\<rparr>))"

definition TimeController_Step :: "TimeController \<Rightarrow> TimeController go" where
  "TimeController_Step tc = (case tick_once tc of (t, tc) \<Rightarrow> tick_offer t tc)"

definition TimeController_Reset :: "TimeController \<Rightarrow> TimeController" where
  "TimeController_Reset tc = tc\<lparr>tc_tick := 0, tc_paused := False\<rparr>"

definition TimeController_GetTick :: "TimeController \<Rightarrow> u64" where
  "TimeController_GetTick tc = tc_tick tc"

definition TimeController_SetTick :: "u64 \<Rightarrow> TimeController \<Rightarrow> TimeController" where
  "TimeController_SetTick tick tc = tc\<lparr>tc_tick := tick\<rparr>"

definition clamp_speed :: "f64 \<Rightarrow> f64" where
  "clamp_speed speed =
     (let speed = (if f64_less speed f64_tenth then f64_tenth else speed)
      in if f64_less (Fin 10) speed then Fin 10 else speed)"

definition TimeController_SetSpeed :: "f64 \<Rightarrow> TimeController \<Rightarrow> TimeController" where
  "TimeController_SetSpeed speed tc = tc\<lparr>tc_speed := clamp_speed speed\<rparr>"

definition TimeController_GetSpeed :: "TimeController \<Rightarrow> f64" where
  "TimeController_GetSpeed tc = tc_speed tc"

definition TimeController_IsPaused :: "TimeController \<Rightarrow> bool" where
  "TimeController_IsPaused tc = tc_paused tc"

definition TimeController_IsRunning :: "TimeController \<Rightarrow> bool" where
  "TimeController_IsRunning tc = tc_running tc"

definition TimeController_SetInterval :: "int \<Rightarrow> TimeController \<Rightarrow> TimeController" where
  "TimeController_SetInterval interval tc = tc\<lparr>tc_interval := interval\<rparr>"

text \<open>\<open>time.Duration(tc.tick) * tc.interval\<close> in 64 bits.\<close>

definition TimeController_Elapsed :: "TimeController \<Rightarrow> int" where
  "TimeController_Elapsed tc = sint (tc_tick tc * word_of_int (tc_interval tc))"

subsection \<open>The loops\<close>

text \<open>
  Where a goroutine of \<open>run\<close> stands: about to arm its ticker and enter the
  \<open>select\<close>, waiting in it on a
  stop channel, past the ticker, past the check of the pause flag, past the increment, or gone.
\<close>

datatype loop_pc = Ready | InSelect nat | Fired | Checked bool | Ticked u64 | Exited

record TimeSys =
  ts_tc :: TimeController
  ts_loops :: "loop_pc list"

fun loop_turn :: "loop_pc \<Rightarrow> TimeController \<Rightarrow> (loop_pc \<times> TimeController) go" where
  "loop_turn Ready tc =
     go_bind (arm_ticker (getActualInterval tc)) (\<lambda>_. Inr (InSelect (tc_stopChan tc), tc))"
| "loop_turn (InSelect c) tc = Inr (Fired, tc)"
| "loop_turn Fired tc = Inr (Checked (tc_paused tc), tc)"
| "loop_turn (Checked paused) tc =
     (if paused then Inr (Ready, tc) else case tick_once tc of (t, tc) \<Rightarrow> Inr (Ticked t, tc))"
| "loop_turn (Ticked t) tc = go_bind (tick_offer t tc) (\<lambda>tc. Inr (Ready, tc))"
| "loop_turn Exited tc = Inr (Exited, tc)"

inductive time_step :: "TimeSys \<Rightarrow> TimeSys \<Rightarrow> bool" where
  start: "TimeController_Start (ts_tc s) = (spawn, tc) \<Longrightarrow>
     time_step s \<lparr>ts_tc = tc, ts_loops = (if spawn then ts_loops s @ [Ready] else ts_loops s)\<rparr>"
| stop: "TimeController_Stop (ts_tc s) = Inr tc \<Longrightarrow> time_step s (s\<lparr>ts_tc := tc\<rparr>)"
| pause: "time_step s (s\<lparr>ts_tc := TimeController_Pause (ts_tc s)\<rparr>)"
| resume: "time_step s (s\<lparr>ts_tc := TimeController_Resume (ts_tc s)\<rparr>)"
| step: "TimeController_Step (ts_tc s) = Inr tc \<Longrightarrow> time_step s (s\<lparr>ts_tc := tc\<rparr>)"
| reset: "time_step s (s\<lparr>ts_tc := TimeController_Reset (ts_tc s)\<rparr>)"
| set_tick: "time_step s (s\<lparr>ts_tc := TimeController_SetTick t (ts_tc s)\<rparr>)"
| set_speed: "time_step s (s\<lparr>ts_tc := TimeController_SetSpeed x (ts_tc s)\<rparr>)"
| set_interval: "time_step s (s\<lparr>ts_tc := TimeController_SetInterval d (ts_tc s)\<rparr>)"
| receive: "time_step s (s\<lparr>ts_tc := (ts_tc s)\<lparr>tc_tickChan :=
     (tc_tickChan (ts_tc s))\<lparr>ch_buf := tl (ch_buf (tc_tickChan (ts_tc s)))\<rparr>\<rparr>\<rparr>)"
| stopped: "i < length (ts_loops s) \<Longrightarrow> ts_loops s ! i = InSelect c \<Longrightarrow> c \<in> set (tc_closed (ts_tc s)) \<Longrightarrow>
     time_step s (s\<lparr>ts_loops := (ts_loops s)[i := Exited]\<rparr>)"
| turn: "i < length (ts_loops s) \<Longrightarrow> loop_turn (ts_loops s ! i) (ts_tc s) = Inr (pc, tc) \<Longrightarrow>
     time_step s \<lparr>ts_tc = tc, ts_loops = (ts_loops s)[i := pc]\<rparr>"

definition time_init :: TimeSys where
  "time_init = \<lparr>ts_tc = NewTimeController, ts_loops = []\<rparr>"

text \<open>
  The current stop channel is open and newer than every closed one, the tick channel is open and
  within its capacity.
\<close>

definition tc_ok :: "TimeController \<Rightarrow> bool" where
  "tc_ok tc \<longleftrightarrow> (\<forall>c \<in> set (tc_closed tc). c < tc_stopChan tc) \<and>
     \<not> ch_closed (tc_tickChan tc) \<and> ch_cap (tc_tickChan tc) = 100 \<and> length (ch_buf (tc_tickChan tc)) \<le> 100"

lemma tc_ok_New: "tc_ok NewTimeController"
  by (simp add: tc_ok_def NewTimeController_def)

lemma tc_ok_offer: "tc_ok tc \<Longrightarrow> tick_offer t tc = Inr tc' \<Longrightarrow> tc_ok tc'"
  by (auto simp: tick_offer_def chan_offer_def tc_ok_def split: if_splits)

lemma offer_returns:
  assumes "tc_ok tc"
  shows "\<exists>tc'. tick_offer t tc = Inr tc' \<and> tc_tick tc' = tc_tick tc"
  using assms by (auto simp: tick_offer_def chan_offer_def tc_ok_def)

lemma tc_ok_tick: "tc_ok tc \<Longrightarrow> tc_ok (tc\<lparr>tc_tick := t\<rparr>)"
  by (simp add: tc_ok_def)

lemma tc_ok_ops:
  assumes "tc_ok tc"
  shows "tc_ok (snd (TimeController_Start tc))" "TimeController_Stop tc = Inr tc' \<Longrightarrow> tc_ok tc'"
    "tc_ok (TimeController_Pause tc)" "tc_ok (TimeController_Resume tc)" "tc_ok (TimeController_Reset tc)"
    "tc_ok (TimeController_SetTick t tc)" "tc_ok (TimeController_SetSpeed x tc)"
    "tc_ok (TimeController_SetInterval d tc)" "TimeController_Step tc = Inr tc' \<Longrightarrow> tc_ok tc'"
    "tc_ok (tc\<lparr>tc_tickChan := (tc_tickChan tc)\<lparr>ch_buf := tl (ch_buf (tc_tickChan tc))\<rparr>\<rparr>)"
    "loop_turn pc tc = Inr (pc', tc') \<Longrightarrow> tc_ok tc'"
proof -
  show "TimeController_Step tc = Inr tc' \<Longrightarrow> tc_ok tc'"
    using tc_ok_offer [OF tc_ok_tick [OF assms]] by (simp add: TimeController_Step_def tick_once_def Let_def)
  show "loop_turn pc tc = Inr (pc', tc') \<Longrightarrow> tc_ok tc'"
    using assms tc_ok_offer [OF assms] tc_ok_tick [OF assms]
    by (cases pc) (auto simp: tick_once_def Let_def go_bind_eq_Inr split: if_splits)
  show "TimeController_Stop tc = Inr tc' \<Longrightarrow> tc_ok tc'"
    using assms by (auto simp: tc_ok_def TimeController_Stop_def less_Suc_eq split: if_splits)
qed (use assms in \<open>auto simp: tc_ok_def TimeController_Start_def TimeController_Pause_def
      TimeController_Resume_def TimeController_Reset_def TimeController_SetTick_def
      TimeController_SetSpeed_def TimeController_SetInterval_def\<close>)

lemma time_ok_step: "time_step s s' \<Longrightarrow> tc_ok (ts_tc s) \<Longrightarrow> tc_ok (ts_tc s')"
proof (induction rule: time_step.induct)
  case (start s spawn tc)
  then show ?case using tc_ok_ops(1) [of "ts_tc s"] by simp
next
  case (stop s tc)
  then show ?case using tc_ok_ops(2) by simp
next
  case (step s tc)
  then show ?case using tc_ok_ops(9) by simp
next
  case (turn i s pc tc)
  then show ?case using tc_ok_ops(11) by simp
qed (simp_all add: tc_ok_ops(3-8,10))

interpretation time: step_system "\<lambda>s. s = time_init" time_step "\<lambda>s. tc_ok (ts_tc s)"
  by unfold_locales (simp add: time_init_def tc_ok_New, rule time_ok_step)

text \<open>In every state the operations and the loops can reach, stopping and stepping return, and no
  more than 100 ticks wait in the channel.\<close>

theorem TimeController_never_panics:
  assumes "time_step\<^sup>*\<^sup>* time_init s"
  shows "(\<exists>tc. TimeController_Stop (ts_tc s) = Inr tc) \<and>
    (\<exists>tc. TimeController_Step (ts_tc s) = Inr tc \<and> tc_tick tc = tc_tick (ts_tc s) + 1) \<and>
    length (ch_buf (tc_tickChan (ts_tc s))) \<le> 100"
proof -
  have ok: "tc_ok (ts_tc s)" using time.reachable_inv [OF refl assms] .
  then have "\<exists>tc. TimeController_Stop (ts_tc s) = Inr tc"
    by (auto simp: tc_ok_def TimeController_Stop_def)
  moreover have "\<exists>tc. TimeController_Step (ts_tc s) = Inr tc \<and> tc_tick tc = tc_tick (ts_tc s) + 1"
    using offer_returns [OF tc_ok_tick [OF ok, of "tc_tick (ts_tc s) + 1"]]
    by (simp add: TimeController_Step_def tick_once_def Let_def)
  ultimately show ?thesis using ok by (simp add: tc_ok_def)
qed

theorem TimeController_never_panics_witness:
  "\<exists>tc. TimeController_Stop (snd (TimeController_Start NewTimeController)) = Inr tc"
proof -
  have "time_step time_init \<lparr>ts_tc = snd (TimeController_Start NewTimeController), ts_loops = [Ready]\<rparr>"
    using time_step.start [of time_init True]
    by (simp add: time_init_def TimeController_Start_def NewTimeController_def)
  then have "time_step\<^sup>*\<^sup>* time_init \<lparr>ts_tc = snd (TimeController_Start NewTimeController), ts_loops = [Ready]\<rparr>"
    by blast
  from TimeController_never_panics [OF this] show ?thesis by simp
qed

text \<open>The speed stays between a tenth and ten for every argument that is a number; a
  \<open>NaN\<close> passes both comparisons and is stored.\<close>

theorem SetSpeed_range:
  "case tc_speed (TimeController_SetSpeed x tc) of
     Fin r \<Rightarrow> 3602879701896397 / 36028797018963968 \<le> r \<and> r \<le> 10 | NaN \<Rightarrow> x = NaN | _ \<Rightarrow> False"
  by (cases x) (auto simp: TimeController_SetSpeed_def clamp_speed_def f64_tenth_def Let_def not_less)

text \<open>With a base interval of 2.5 seconds every speed in that range gives a positive interval, so
  the tickers are armed.\<close>

definition speed_ok :: "f64 \<Rightarrow> bool" where
  "speed_ok x \<longleftrightarrow> (case x of Fin r \<Rightarrow> 3602879701896397 / 36028797018963968 \<le> r \<and> r \<le> 10 | _ \<Rightarrow> False)"

lemma speed_ok_one [simp]: "speed_ok (Fin 1)"
  by (simp add: speed_ok_def)

lemma clamp_speed_ok: "x \<noteq> NaN \<Longrightarrow> speed_ok (clamp_speed x)"
  by (cases x) (auto simp: clamp_speed_def speed_ok_def f64_tenth_def Let_def not_less)

lemma f64_of_int_base: "f64_of_int 2500000000 = Fin 2500000000"
  by (simp add: f64_of_int_small)

lemma scaled_interval_pos:
  assumes "speed_ok x"
  shows "0 < scaled_interval 2500000000 x"
proof -
  obtain r :: rat where x: "x = Fin r" and r: "3602879701896397 / 36028797018963968 \<le> r" "r \<le> 10"
    using assms by (cases x) (auto simp: speed_ok_def)
  have pos: "0 < r" using r(1) by (rule less_le_trans [rotated]) simp
  have "2500000000 / r \<le> 2500000000 / (3602879701896397 / 36028797018963968)"
    using r(1) by (intro divide_left_mono mult_pos_pos pos) simp_all
  also have "\<dots> \<le> (2 ^ 40 :: rat)" by simp
  finally have up: "2500000000 / r \<le> 2 ^ 40" .
  have "2500000000 / 10 \<le> 2500000000 / r" using r(2) by (intro divide_left_mono mult_pos_pos pos) simp_all
  then have lo: "(1 :: rat) \<le> 2500000000 / r" by simp
  have "f64_num (of_int 1)" "f64_num (of_int (2 ^ 40))" by (rule f64_num_int, simp)+
  then obtain y where y: "f64_round (2500000000 / r) = Fin y" "1 \<le> y" "y \<le> 2 ^ 40"
    using f64_round_between [of 1 "2 ^ 40" "2500000000 / r"] up lo by auto
  have "\<lfloor>y\<rfloor> \<le> 2 ^ 40" using y(3) by (simp add: floor_le_iff)
  then have "f64_to_int duration_oob (Fin y) = \<lfloor>y\<rfloor>" using y(2) f64_to_int_small [of y "2 ^ 40"] by simp
  moreover have "1 \<le> \<lfloor>y\<rfloor>" using y(2) by simp
  ultimately show ?thesis using y(1) pos by (simp add: scaled_interval_def f64_of_int_base x)
qed

lemma arm_scaled: "speed_ok x \<Longrightarrow> arm_ticker (scaled_interval 2500000000 x) = Inr ()"
  using scaled_interval_pos by (simp add: arm_ticker_def)

text \<open>A speed that is no number ends the loop with a panic when its ticker is armed again.\<close>

theorem loop_panics_at_NaN:
  "loop_turn Ready (TimeController_SetSpeed NaN tc) = Inl ExplicitPanic"
  by (cases "f64_of_int (tc_interval tc)") (simp_all add: TimeController_SetSpeed_def clamp_speed_def f64_tenth_def getActualInterval_def
      scaled_interval_def f64_to_int_def duration_oob_def arm_ticker_def)

text \<open>\<open>Stop\<close> does not end a loop that is between two \<open>select\<close>s.  It then waits on
  the new stop channel, and a further \<open>Start\<close> runs a second loop: two loops advance the same
  clock.\<close>

theorem loop_survives_Stop:
  "\<exists>s. time_step\<^sup>*\<^sup>* time_init s \<and> tc_running (ts_tc s) \<and>
     ts_loops s = [InSelect (tc_stopChan (ts_tc s)), InSelect (tc_stopChan (ts_tc s))] \<and>
     tc_stopChan (ts_tc s) \<notin> set (tc_closed (ts_tc s))"
proof -
  let ?tc = "NewTimeController\<lparr>tc_running := True\<rparr>"
  let ?tc2 = "NewTimeController\<lparr>tc_running := False, tc_closed := [0], tc_stopChan := 1\<rparr>"
  let ?tc3 = "NewTimeController\<lparr>tc_running := True, tc_closed := [0], tc_stopChan := 1\<rparr>"
  have 1: "time_step time_init \<lparr>ts_tc = ?tc, ts_loops = [Ready]\<rparr>"
    using time_step.start [of time_init True ?tc]
    by (simp add: time_init_def TimeController_Start_def NewTimeController_def)
  have 2: "time_step \<lparr>ts_tc = ?tc, ts_loops = [Ready]\<rparr> \<lparr>ts_tc = ?tc2, ts_loops = [Ready]\<rparr>"
    using time_step.stop [of "\<lparr>ts_tc = ?tc, ts_loops = [Ready]\<rparr>" ?tc2]
    by (simp add: TimeController_Stop_def NewTimeController_def)
  have 3: "time_step \<lparr>ts_tc = ?tc2, ts_loops = [Ready]\<rparr> \<lparr>ts_tc = ?tc3, ts_loops = [Ready, Ready]\<rparr>"
    using time_step.start [of "\<lparr>ts_tc = ?tc2, ts_loops = [Ready]\<rparr>" True ?tc3]
    by (simp add: TimeController_Start_def NewTimeController_def)
  have armed: "arm_ticker (getActualInterval ?tc3) = Inr ()"
    using arm_scaled [OF speed_ok_one] by (simp add: getActualInterval_def NewTimeController_def)
  have 4: "time_step \<lparr>ts_tc = ?tc3, ts_loops = [Ready, Ready]\<rparr> \<lparr>ts_tc = ?tc3, ts_loops = [InSelect 1, Ready]\<rparr>"
    using time_step.turn [of 0 "\<lparr>ts_tc = ?tc3, ts_loops = [Ready, Ready]\<rparr>" "InSelect 1" ?tc3] armed by simp
  have 5: "time_step \<lparr>ts_tc = ?tc3, ts_loops = [InSelect 1, Ready]\<rparr> \<lparr>ts_tc = ?tc3, ts_loops = [InSelect 1, InSelect 1]\<rparr>"
    using time_step.turn [of 1 "\<lparr>ts_tc = ?tc3, ts_loops = [InSelect 1, Ready]\<rparr>" "InSelect 1" ?tc3] armed by simp
  have "time_step\<^sup>*\<^sup>* time_init \<lparr>ts_tc = ?tc3, ts_loops = [InSelect 1, InSelect 1]\<rparr>"
    using 1 2 3 4 5 by (meson rtranclp.rtrancl_into_rtrancl rtranclp.rtrancl_refl)
  then show ?thesis by (intro exI [of _ "\<lparr>ts_tc = ?tc3, ts_loops = [InSelect 1, InSelect 1]\<rparr>"]) simp
qed

end
