(* ===== verification/EngineState.thy ===== *)
theory EngineState
  imports EngineTypes GoInterfaces
begin

section \<open>The state store: \<open>simulations/pkg/engine/state.go\<close>\<close>

text \<open>
  The store keeps the current state and the most recent former ones.  States are values here:
  the pointers that \<open>GetState\<close>, \<open>GetHistory\<close> and \<open>GetNodeState\<close> hand out
  are not written through by the store's clients.  \<open>now\<close> is \<open>time.Now\<close>.
\<close>

record StateStore =
  ss_current :: "State option"
  ss_history :: "State option list"
  ss_maxHist :: nat

definition NewStateStore :: "gtime \<Rightarrow> StateStore" where
  "NewStateStore now = \<lparr>ss_current = Some (fresh_State now), ss_history = [], ss_maxHist = 1000\<rparr>"

definition StateStore_GetState :: "StateStore \<Rightarrow> State option" where
  "StateStore_GetState ss = ss_current ss"

text \<open>Appending to the history, dropping the first entry when it is too long.\<close>

definition push_history :: "State option \<Rightarrow> StateStore \<Rightarrow> StateStore" where
  "push_history s ss =
     (let h = ss_history ss @ [s]
      in if ss_maxHist ss < length h then ss\<lparr>ss_history := tl h\<rparr> else ss\<lparr>ss_history := h\<rparr>)"

definition StateStore_SetState :: "gtime \<Rightarrow> State option \<Rightarrow> StateStore \<Rightarrow> StateStore go" where
  "StateStore_SetState now state ss =
     (let ss = (if ss_current ss \<noteq> None then push_history (ss_current ss) ss else ss)
      in go_bind (go_deref state) (\<lambda>s. Inr (ss\<lparr>ss_current := Some (s\<lparr>st_UpdatedAt := now\<rparr>)\<rparr>)))"

definition StateStore_UpdateState ::
  "gtime \<Rightarrow> (State option \<Rightarrow> State option go) \<Rightarrow> StateStore \<Rightarrow> StateStore go" where
  "StateStore_UpdateState now updater ss =
     (let stateCopy = map_option copyState (ss_current ss);
          ss = push_history (ss_current ss) ss
      in go_bind (updater stateCopy) (\<lambda>c.
           go_bind (go_deref c) (\<lambda>s. Inr (ss\<lparr>ss_current := Some (s\<lparr>st_UpdatedAt := now\<rparr>)\<rparr>))))"

definition StateStore_GetHistory :: "int \<Rightarrow> StateStore \<Rightarrow> State option list go" where
  "StateStore_GetHistory limit ss =
     (let limit = (if int (length (ss_history ss)) < limit then int (length (ss_history ss)) else limit)
      in if limit < 0 then Inl MakeSliceLen
         else Inr (drop (length (ss_history ss) - nat limit) (ss_history ss)))"

text \<open>The loop runs over the history from its end.\<close>

fun find_tick :: "u64 \<Rightarrow> State option list \<Rightarrow> State option go" where
  "find_tick tick [] = Inr None"
| "find_tick tick (s # ss) =
     go_bind (go_deref s) (\<lambda>st. if st_Tick st = tick then Inr s else find_tick tick ss)"

definition StateStore_GetStateAtTick :: "u64 \<Rightarrow> StateStore \<Rightarrow> State option go" where
  "StateStore_GetStateAtTick tick ss =
     (case ss_current ss of
        Some s \<Rightarrow> if st_Tick s = tick then Inr (Some s) else find_tick tick (rev (ss_history ss))
      | None \<Rightarrow> find_tick tick (rev (ss_history ss)))"

definition StateStore_Reset :: "gtime \<Rightarrow> StateStore \<Rightarrow> StateStore" where
  "StateStore_Reset now ss = ss\<lparr>ss_current := Some (fresh_State now), ss_history := []\<rparr>"

definition StateStore_Export :: "StateStore \<Rightarrow> json option" where
  "StateStore_Export ss = (case ss_current ss of None \<Rightarrow> Some JNull | Some s \<Rightarrow> state_json s)"

text \<open>The flag is the error of \<open>json.Unmarshal\<close>.\<close>

definition StateStore_Import :: "json \<Rightarrow> StateStore \<Rightarrow> bool \<times> StateStore" where
  "StateStore_Import data ss =
     (case json_state data of None \<Rightarrow> (True, ss) | Some s \<Rightarrow> (False, ss\<lparr>ss_current := Some s\<rparr>))"

definition StateStore_GetNodeState :: "NodeID \<Rightarrow> StateStore \<Rightarrow> NodeState option" where
  "StateStore_GetNodeState nodeID ss =
     (case ss_current ss of
        None \<Rightarrow> None
      | Some s \<Rightarrow> (case nil_get (st_Nodes s) nodeID of None \<Rightarrow> None | Some n \<Rightarrow> n))"

text \<open>The state a setter works on: a new one, given by the setter, when there is none.\<close>

definition current_or :: "State \<Rightarrow> StateStore \<Rightarrow> State" where
  "current_or dflt ss = (case ss_current ss of None \<Rightarrow> dflt | Some s \<Rightarrow> s)"

definition StateStore_SetNodeState ::
  "gtime \<Rightarrow> NodeID \<Rightarrow> NodeState option \<Rightarrow> StateStore \<Rightarrow> StateStore go" where
  "StateStore_SetNodeState now nodeID nodeState ss =
     (let s = current_or (zero_State\<lparr>st_Nodes := Some []\<rparr>) ss
      in go_bind (nil_put nodeID nodeState (st_Nodes s)) (\<lambda>nodes.
           Inr (ss\<lparr>ss_current := Some (s\<lparr>st_Nodes := nodes, st_UpdatedAt := now\<rparr>)\<rparr>)))"

definition StateStore_GetGlobalData :: "string \<Rightarrow> StateStore \<Rightarrow> gval" where
  "StateStore_GetGlobalData key ss =
     (case ss_current ss of
        None \<Rightarrow> GNil
      | Some s \<Rightarrow> (case nil_get (st_GlobalData s) key of None \<Rightarrow> GNil | Some v \<Rightarrow> v))"

definition StateStore_SetGlobalData :: "gtime \<Rightarrow> string \<Rightarrow> gval \<Rightarrow> StateStore \<Rightarrow> StateStore go" where
  "StateStore_SetGlobalData now key value ss =
     (let s = current_or (zero_State\<lparr>st_GlobalData := Some []\<rparr>) ss
      in go_bind (nil_put key value (st_GlobalData s)) (\<lambda>d.
           Inr (ss\<lparr>ss_current := Some (s\<lparr>st_GlobalData := d, st_UpdatedAt := now\<rparr>)\<rparr>)))"

definition StateStore_IncrementTick :: "gtime \<Rightarrow> StateStore \<Rightarrow> u64 \<times> StateStore" where
  "StateStore_IncrementTick now ss =
     (let s = current_or zero_State ss; t = st_Tick s + 1
      in (t, ss\<lparr>ss_current := Some (s\<lparr>st_Tick := t, st_UpdatedAt := now\<rparr>)\<rparr>))"

definition StateStore_SetTick :: "gtime \<Rightarrow> u64 \<Rightarrow> StateStore \<Rightarrow> StateStore" where
  "StateStore_SetTick now tick ss =
     ss\<lparr>ss_current := Some ((current_or zero_State ss)\<lparr>st_Tick := tick, st_UpdatedAt := now\<rparr>)\<rparr>"

definition StateStore_SetStatus :: "gtime \<Rightarrow> string \<Rightarrow> StateStore \<Rightarrow> StateStore" where
  "StateStore_SetStatus now status ss =
     ss\<lparr>ss_current := Some ((current_or zero_State ss)\<lparr>st_Status := status, st_UpdatedAt := now\<rparr>)\<rparr>"

definition StateStore_Clone :: "StateStore \<Rightarrow> State option" where
  "StateStore_Clone ss = map_option copyState (ss_current ss)"

subsection \<open>Differences\<close>

record FieldDiff =
  fd_Action :: string
  fd_Old :: gval
  fd_New :: gval

record NodeDiff =
  nd_Action :: string
  nd_OldState :: "NodeState option"
  nd_NewState :: "NodeState option"
  nd_FieldDiffs :: "(string, FieldDiff) gomap option"

record StateDiff =
  sd_Tick :: "FieldDiff option"
  sd_Status :: "FieldDiff option"
  sd_Nodes :: "(string, NodeDiff) gomap option"
  sd_GlobalData :: "(string, FieldDiff) gomap option"
  sd_HasChanges :: bool

definition fd_added :: "gval \<Rightarrow> FieldDiff" where
  "fd_added v = \<lparr>fd_Action = ''added'', fd_Old = GNil, fd_New = v\<rparr>"

definition fd_removed :: "gval \<Rightarrow> FieldDiff" where
  "fd_removed v = \<lparr>fd_Action = ''removed'', fd_Old = v, fd_New = GNil\<rparr>"

definition fd_changed :: "gval \<Rightarrow> gval \<Rightarrow> FieldDiff" where
  "fd_changed old new = \<lparr>fd_Action = ''changed'', fd_Old = old, fd_New = new\<rparr>"

definition nd_added :: "NodeState option \<Rightarrow> NodeDiff" where
  "nd_added n = \<lparr>nd_Action = ''added'', nd_OldState = None, nd_NewState = n, nd_FieldDiffs = None\<rparr>"

definition nd_removed :: "NodeState option \<Rightarrow> NodeDiff" where
  "nd_removed n = \<lparr>nd_Action = ''removed'', nd_OldState = n, nd_NewState = None, nd_FieldDiffs = None\<rparr>"

text \<open>
  The two loops over maps of values: over the new map for what was added or changed, over the old
  one for what was removed.  \<open>name\<close> is the key of the entry in the result.
\<close>

definition diff_values ::
  "(string \<Rightarrow> string) \<Rightarrow> (string, gval) gomap \<Rightarrow> (string, gval) gomap \<Rightarrow> (string, FieldDiff) gomap
     \<Rightarrow> (string, FieldDiff) gomap" where
  "diff_values name old new dm =
     (let dm = fold (\<lambda>(key, newVal) d.
            case go_get old key of
              None \<Rightarrow> go_put (name key) (fd_added newVal) d
            | Some oldVal \<Rightarrow> if \<not> deep_equal oldVal newVal
                then go_put (name key) (fd_changed oldVal newVal) d else d) new dm
      in fold (\<lambda>(key, oldVal) d. case go_get new key of
            None \<Rightarrow> go_put (name key) (fd_removed oldVal) d | Some _ \<Rightarrow> d) old dm)"

definition compareNodeState :: "NodeState option \<Rightarrow> NodeState option \<Rightarrow> bool" where
  "compareNodeState a b =
     (case (a, b) of
        (None, None) \<Rightarrow> True
      | (Some a, Some b) \<Rightarrow>
          if ns_ID a \<noteq> ns_ID b \<or> ns_Status a \<noteq> ns_Status b \<or> ns_IsByzantine a \<noteq> ns_IsByzantine b
          then False
          else (case (ns_Data a, ns_Data b) of
                  (None, None) \<Rightarrow> True
                | (Some x, Some y) \<Rightarrow> deep_equal (GMap x) (GMap y)
                | _ \<Rightarrow> False)
      | _ \<Rightarrow> False)"

definition diffNodeFields ::
  "NodeState option \<Rightarrow> NodeState option \<Rightarrow> (string, FieldDiff) gomap option go" where
  "diffNodeFields oldNode newNode =
     go_bind (go_deref oldNode) (\<lambda>old. go_bind (go_deref newNode) (\<lambda>new.
       let dm = [];
           dm = (if ns_Status old \<noteq> ns_Status new
             then go_put ''status'' (fd_changed (GStr (ns_Status old)) (GStr (ns_Status new))) dm else dm);
           dm = (if ns_IsByzantine old \<noteq> ns_IsByzantine new
             then go_put ''is_byzantine'' (fd_changed (GBool (ns_IsByzantine old)) (GBool (ns_IsByzantine new))) dm
             else dm);
           dm = diff_values (\<lambda>key. ''data.'' @ key) (nil_entries (ns_Data old)) (nil_entries (ns_Data new)) dm
       in Inr (if dm = [] then None else Some dm)))"

text \<open>The loop over the new nodes; comparing the fields of a nil node panics.\<close>

fun diff_nodes ::
  "(string, NodeState option) gomap \<Rightarrow> (string, NodeState option) gomap \<Rightarrow> (string, NodeDiff) gomap
     \<Rightarrow> (string, NodeDiff) gomap go" where
  "diff_nodes old [] d = Inr d"
| "diff_nodes old ((nodeID, newNode) # rest) d =
     (case go_get old nodeID of
        None \<Rightarrow> diff_nodes old rest (go_put nodeID (nd_added newNode) d)
      | Some oldNode \<Rightarrow>
          if \<not> compareNodeState oldNode newNode then
            go_bind (diffNodeFields oldNode newNode) (\<lambda>fields.
              diff_nodes old rest (go_put nodeID \<lparr>nd_Action = ''changed'', nd_OldState = oldNode,
                nd_NewState = newNode, nd_FieldDiffs = fields\<rparr> d))
          else diff_nodes old rest d)"

definition removed_nodes ::
  "(string, NodeState option) gomap \<Rightarrow> (string, NodeState option) gomap \<Rightarrow> (string, NodeDiff) gomap
     \<Rightarrow> (string, NodeDiff) gomap" where
  "removed_nodes old new d =
     fold (\<lambda>(nodeID, oldNode) d. case go_get new nodeID of
        None \<Rightarrow> go_put nodeID (nd_removed oldNode) d | Some _ \<Rightarrow> d) old d"

definition nil_if_empty :: "('k, 'v) gomap \<Rightarrow> ('k, 'v) gomap option" where
  "nil_if_empty m = (if m = [] then None else Some m)"

definition tick_val :: "State \<Rightarrow> gval" where
  "tick_val s = GInt (uint (st_Tick s))"

definition status_val :: "State \<Rightarrow> gval" where
  "status_val s = GStr (st_Status s)"

text \<open>
  Every entry of the two result maps sets \<open>HasChanges\<close>, so the flag is computed from the
  maps at the end.  A state that appears or disappears keeps its empty \<open>GlobalData\<close> map.
\<close>

definition StateStore_Diff :: "State option \<Rightarrow> State option \<Rightarrow> StateDiff go" where
  "StateStore_Diff oldState newState =
     (case (oldState, newState) of
        (None, None) \<Rightarrow>
          Inr \<lparr>sd_Tick = None, sd_Status = None, sd_Nodes = Some [], sd_GlobalData = Some [], sd_HasChanges = False\<rparr>
      | (None, Some new) \<Rightarrow>
          Inr \<lparr>sd_Tick = Some (fd_added (tick_val new)), sd_Status = Some (fd_added (status_val new)),
               sd_Nodes = Some (map (\<lambda>(i, n). (i, nd_added n)) (nil_entries (st_Nodes new))),
               sd_GlobalData = Some [], sd_HasChanges = True\<rparr>
      | (Some old, None) \<Rightarrow>
          Inr \<lparr>sd_Tick = Some (fd_removed (tick_val old)), sd_Status = Some (fd_removed (status_val old)),
               sd_Nodes = Some (map (\<lambda>(i, n). (i, nd_removed n)) (nil_entries (st_Nodes old))),
               sd_GlobalData = Some [], sd_HasChanges = True\<rparr>
      | (Some old, Some new) \<Rightarrow>
          let tickDiff = (if st_Tick old \<noteq> st_Tick new then Some (fd_changed (tick_val old) (tick_val new)) else None);
              statusDiff = (if st_Status old \<noteq> st_Status new
                            then Some (fd_changed (status_val old) (status_val new)) else None);
              oldNodes = nil_entries (st_Nodes old); newNodes = nil_entries (st_Nodes new)
          in go_bind (diff_nodes oldNodes newNodes []) (\<lambda>nodes.
               let nodes = removed_nodes oldNodes newNodes nodes;
                   globals = diff_values (\<lambda>key. key) (nil_entries (st_GlobalData old)) (nil_entries (st_GlobalData new)) []
               in Inr \<lparr>sd_Tick = tickDiff, sd_Status = statusDiff, sd_Nodes = nil_if_empty nodes,
                       sd_GlobalData = nil_if_empty globals,
                       sd_HasChanges = (tickDiff \<noteq> None \<or> statusDiff \<noteq> None \<or> nodes \<noteq> [] \<or> globals \<noteq> [])\<rparr>))"

subsection \<open>History\<close>

lemma push_history_other [simp]:
  "ss_current (push_history s ss) = ss_current ss" "ss_maxHist (push_history s ss) = ss_maxHist ss"
  by (simp_all add: push_history_def Let_def)

lemma push_history_items:
  assumes "length (ss_history ss) \<le> ss_maxHist ss"
  shows "ss_history (push_history s ss) = keep_last (ss_maxHist ss) (ss_history ss @ [s])"
proof (cases "ss_maxHist ss < length (ss_history ss @ [s])")
  case True
  then have m: "ss_maxHist ss = length (ss_history ss)" using assms by simp
  show ?thesis
    using True by (cases "ss_history ss") (simp_all add: push_history_def Let_def keep_last_def m)
next
  case False
  then show ?thesis by (simp add: push_history_def Let_def)
qed

interpretation history: trimmed_log ss_history ss_maxHist push_history
  "\<lambda>ss. length (ss_history ss) \<le> ss_maxHist ss"
  by unfold_locales (simp_all add: push_history_items)

text \<open>A sequence of \<open>SetState\<close> calls.\<close>

fun set_states :: "(gtime \<times> State) list \<Rightarrow> StateStore \<Rightarrow> StateStore go" where
  "set_states [] ss = Inr ss"
| "set_states ((now, s) # rest) ss = go_bind (StateStore_SetState now (Some s) ss) (set_states rest)"

definition stamped :: "gtime \<times> State \<Rightarrow> State" where
  "stamped p = (snd p)\<lparr>st_UpdatedAt := fst p\<rparr>"

lemma set_states_history:
  assumes "length (ss_history ss) \<le> ss_maxHist ss" and "ss_current ss = Some c"
  shows "\<exists>ss'. set_states sts ss = Inr ss' \<and> ss_maxHist ss' = ss_maxHist ss \<and>
    ss_current ss' = Some (last (c # map stamped sts)) \<and>
    ss_history ss' = keep_last (ss_maxHist ss) (ss_history ss @ map Some (butlast (c # map stamped sts)))"
  using assms
proof (induction sts arbitrary: ss c)
  case (Cons p sts)
  obtain now s where p: "p = (now, s)" by fastforce
  let ?ss = "(push_history (Some c) ss)\<lparr>ss_current := Some (stamped p)\<rparr>"
  have set: "StateStore_SetState now (Some s) ss = Inr ?ss"
    using Cons.prems by (simp add: StateStore_SetState_def p stamped_def)
  have h: "ss_history ?ss = keep_last (ss_maxHist ss) (ss_history ss @ [Some c])"
    using push_history_items [OF Cons.prems(1)] by simp
  then have "length (ss_history ?ss) \<le> ss_maxHist ?ss" by simp
  from Cons.IH [OF this, of "stamped p"] show ?case
    using p set h by (simp add: keep_last_keep_last_append)
qed simp


text \<open>Setting states one after another on a new store never panics; the current state is the
  last one, and the history holds the 1000 states before it, oldest first.\<close>

theorem StateStore_history:
  "\<exists>ss. set_states sts (NewStateStore now) = Inr ss \<and>
     StateStore_GetState ss = Some (last (fresh_State now # map stamped sts)) \<and>
     StateStore_GetHistory 1000 ss =
       Inr (keep_last 1000 (map Some (butlast (fresh_State now # map stamped sts))))"
proof -
  obtain ss where ss: "set_states sts (NewStateStore now) = Inr ss"
    "ss_current ss = Some (last (fresh_State now # map stamped sts))"
    "ss_history ss = keep_last 1000 (map Some (butlast (fresh_State now # map stamped sts)))"
    using set_states_history [of "NewStateStore now" "fresh_State now" sts]
    by (auto simp: NewStateStore_def simp del: butlast.simps last.simps)
  then have "length (ss_history ss) \<le> 1000" by simp
  then have "StateStore_GetHistory 1000 ss = Inr (ss_history ss)"
    by (cases "1000 = int (length (ss_history ss))")
      (auto simp: StateStore_GetHistory_def Let_def)
  with ss show ?thesis by (auto simp: StateStore_GetState_def)
qed

text \<open>The search for a tick looks at the states from the most recent one.\<close>

lemma find_tick_Some:
  "find_tick tick (map Some xs) = Inr (find (\<lambda>s. st_Tick s = tick) xs)"
  by (induction xs) simp_all

lemma find_append: "find P (xs @ ys) = (case find P xs of None \<Rightarrow> find P ys | Some x \<Rightarrow> Some x)"
  by (induction xs) auto

lemma map_Some_keep_last: "keep_last n (map Some xs) = map Some (keep_last n xs)"
  by (simp add: keep_last_def drop_map)

text \<open>After setting states on a new store, asking for a tick returns the most recently set
  state with that tick among the current one and the 1000 before it, and nothing when there is
  none; it never panics.\<close>

theorem StateStore_at_tick:
  "\<exists>ss. set_states sts (NewStateStore now) = Inr ss \<and>
     StateStore_GetStateAtTick tick ss =
       Inr (find (\<lambda>s. st_Tick s = tick) (rev (keep_last 1001 (fresh_State now # map stamped sts))))"
proof -
  let ?all = "fresh_State now # map stamped sts"
  obtain ss where ss: "set_states sts (NewStateStore now) = Inr ss"
    "ss_current ss = Some (last ?all)"
    "ss_history ss = map Some (keep_last 1000 (butlast ?all))"
    using set_states_history [of "NewStateStore now" "fresh_State now" sts]
    by (auto simp: NewStateStore_def map_Some_keep_last simp del: butlast.simps last.simps)
  have all: "?all = butlast ?all @ [last ?all]"
    by (metis append_butlast_last_id list.distinct(1))
  have snoc: "rev (keep_last 1001 (xs @ [x])) = x # rev (keep_last 1000 xs)" for xs and x :: State
    by (simp add: keep_last_def)
  have "rev (keep_last 1001 ?all) = last ?all # rev (keep_last 1000 (butlast ?all))"
    by (subst all) (rule snoc)
  then have "StateStore_GetStateAtTick tick ss = Inr (find (\<lambda>s. st_Tick s = tick) (rev (keep_last 1001 ?all)))"
    using ss(2,3) by (simp add: StateStore_GetStateAtTick_def rev_map find_tick_Some
        del: butlast.simps last.simps)
  with ss(1) show ?thesis by blast
qed

subsection \<open>What a difference says\<close>

definition value_diff :: "gval option \<Rightarrow> gval option \<Rightarrow> FieldDiff option" where
  "value_diff old new =
     (case (old, new) of
        (None, None) \<Rightarrow> None
      | (None, Some w) \<Rightarrow> Some (fd_added w)
      | (Some v, None) \<Rightarrow> Some (fd_removed v)
      | (Some v, Some w) \<Rightarrow> if deep_equal v w then None else Some (fd_changed v w))"

lemma go_get_Cons: "go_get ((k, v) # m) x = (if x = k then Some v else go_get m x)"
  by (simp add: go_get_def)

lemma fold_puts:
  assumes "go_wf m" and "inj name"
  shows "go_get (fold (\<lambda>(k, v) d. case f k v of None \<Rightarrow> d | Some e \<Rightarrow> go_put (name k) e d) m d) (name k) =
    (case go_get m k of None \<Rightarrow> go_get d (name k)
     | Some v \<Rightarrow> (case f k v of None \<Rightarrow> go_get d (name k) | Some e \<Rightarrow> Some e))"
  using assms
proof (induction m arbitrary: d)
  case (Cons kv m)
  obtain k' v' where kv: "kv = (k', v')" by fastforce
  with Cons.prems(1) have wf: "go_wf m" and k': "go_get m k' = None"
    by (auto simp: go_wf_def go_keys_def go_get_None_iff)
  from Cons.prems(2) have "name k = name k' \<longleftrightarrow> k = k'" by (simp add: inj_eq)
  with Cons.IH [OF wf Cons.prems(2)] k' show ?case
    by (cases "k = k'") (auto simp: kv go_get_Cons split: option.splits)
qed simp

lemmas fold_puts_id = fold_puts [of _ "\<lambda>k. k", simplified]

lemma diff_values_fold:
  "diff_values name old new d =
     fold (\<lambda>(k, v) d. case (if go_get new k = None then Some (fd_removed v) else None) of
         None \<Rightarrow> d | Some e \<Rightarrow> go_put (name k) e d) old
       (fold (\<lambda>(k, w) d. case value_diff (go_get old k) (Some w) of
         None \<Rightarrow> d | Some e \<Rightarrow> go_put (name k) e d) new d)"
proof -
  have 1: "(\<lambda>(k, v) d. case go_get new k of None \<Rightarrow> go_put (name k) (fd_removed v) d | Some _ \<Rightarrow> d) =
      (\<lambda>(k, v) d. case (if go_get new k = None then Some (fd_removed v) else None) of
         None \<Rightarrow> d | Some e \<Rightarrow> go_put (name k) e d)"
    by (auto simp: fun_eq_iff split: option.splits)
  have 2: "(\<lambda>(k, w) d. case go_get old k of None \<Rightarrow> go_put (name k) (fd_added w) d
        | Some v \<Rightarrow> if \<not> deep_equal v w then go_put (name k) (fd_changed v w) d else d) =
      (\<lambda>(k, w) d. case value_diff (go_get old k) (Some w) of None \<Rightarrow> d | Some e \<Rightarrow> go_put (name k) e d)"
    by (auto simp: fun_eq_iff value_diff_def split: option.splits)
  show ?thesis unfolding diff_values_def Let_def 1 2 ..
qed

lemma go_get_diff_values:
  assumes "go_wf old" and "go_wf new" and "inj name"
  shows "go_get (diff_values name old new d) (name k) =
    (case value_diff (go_get old k) (go_get new k) of None \<Rightarrow> go_get d (name k) | Some e \<Rightarrow> Some e)"
  unfolding diff_values_fold fold_puts [OF assms(1,3)] fold_puts [OF assms(2,3)]
  by (auto simp: value_diff_def split: option.splits)


definition node_diff :: "NodeState option option \<Rightarrow> NodeState option option \<Rightarrow> NodeDiff option" where
  "node_diff old new =
     (case (old, new) of
        (None, None) \<Rightarrow> None
      | (None, Some n) \<Rightarrow> Some (nd_added n)
      | (Some o', None) \<Rightarrow> Some (nd_removed o')
      | (Some o', Some n) \<Rightarrow>
          if compareNodeState o' n then None
          else (case diffNodeFields o' n of
                  Inl _ \<Rightarrow> None
                | Inr fs \<Rightarrow> Some \<lparr>nd_Action = ''changed'', nd_OldState = o', nd_NewState = n,
                    nd_FieldDiffs = fs\<rparr>))"

lemma node_diff_simps [simp]:
  "node_diff None None = None" "node_diff None (Some n) = Some (nd_added n)"
  "node_diff (Some n) None = Some (nd_removed n)"
  by (simp_all add: node_diff_def)

text \<open>No node pointer of the map is nil.\<close>

definition no_nil :: "('k, 'v option) gomap option \<Rightarrow> bool" where
  "no_nil m \<longleftrightarrow> list_all (\<lambda>(k, v). v \<noteq> None) (nil_entries m)"

lemma go_get_in_set: "go_get m k = Some v \<Longrightarrow> (k, v) \<in> set m"
  by (simp add: go_get_def map_of_SomeD)

lemma diff_nodes_fold:
  assumes "list_all (\<lambda>(k, v). v \<noteq> None) old" and "list_all (\<lambda>(k, v). v \<noteq> None) new"
  shows "diff_nodes old new d =
    Inr (fold (\<lambda>(k, n) d. case node_diff (go_get old k) (Some n) of
       None \<Rightarrow> d | Some e \<Rightarrow> go_put k e d) new d)"
  using assms(2)
proof (induction new arbitrary: d)
  case (Cons kn new)
  obtain k n where kn: "kn = (k, Some n)" using Cons.prems by (cases kn) auto
  show ?case
  proof (cases "go_get old k")
    case None
    with Cons show ?thesis by (simp add: kn node_diff_def)
  next
    case (Some o')
    with assms(1) obtain p where p: "o' = Some p"
      by (force simp: list_all_iff dest: go_get_in_set)
    obtain f where f: "diffNodeFields (Some p) (Some n) = Inr f"
      by (simp add: diffNodeFields_def Let_def)
    from Cons Some p f show ?thesis by (simp add: kn node_diff_def)
  qed
qed simp

lemma removed_nodes_fold:
  "removed_nodes old new d =
     fold (\<lambda>(k, v) d. case (if go_get new k = None then Some (nd_removed v) else None) of
         None \<Rightarrow> d | Some e \<Rightarrow> go_put k e d) old d"
proof -
  have "(\<lambda>(k, v) d. case go_get new k of None \<Rightarrow> go_put k (nd_removed v) d | Some _ \<Rightarrow> d) =
      (\<lambda>(k, v) d. case (if go_get new k = None then Some (nd_removed v) else None) of
         None \<Rightarrow> d | Some e \<Rightarrow> go_put k e d)"
    by (auto simp: fun_eq_iff split: option.splits)
  then show ?thesis by (simp add: removed_nodes_def)
qed

lemma go_get_eq_Nil: "m = [] \<longleftrightarrow> (\<forall>k. go_get m k = None)"
  by (cases m) (auto simp: go_get_Cons split: if_splits)

definition maps_wf :: "State \<Rightarrow> bool" where
  "maps_wf s \<longleftrightarrow> go_wf (nil_entries (st_Nodes s)) \<and> go_wf (nil_entries (st_GlobalData s)) \<and> no_nil (st_Nodes s)"

lemma nil_get_entries: "nil_get m k = go_get (nil_entries m) k"
  by (simp add: nil_get_def nil_entries_def split: option.split)

lemma nil_entries_if_empty [simp]: "nil_entries (nil_if_empty m) = m"
  by (simp add: nil_entries_def nil_if_empty_def)

text \<open>The difference of two states, none of whose node pointers is nil, never panics.  For
  every key it reports the entry the two values call for (added, removed, changed, or none when
  they are equal), and likewise for every node; \<open>HasChanges\<close> is set exactly when the tick,
  the status, some node or some global value differs.\<close>

theorem StateStore_Diff_spec:
  assumes "maps_wf old" and "maps_wf new"
  shows "\<exists>d. StateStore_Diff (Some old) (Some new) = Inr d \<and>
    (\<forall>k. nil_get (sd_GlobalData d) k = value_diff (nil_get (st_GlobalData old) k) (nil_get (st_GlobalData new) k)) \<and>
    (\<forall>k. nil_get (sd_Nodes d) k = node_diff (nil_get (st_Nodes old) k) (nil_get (st_Nodes new) k)) \<and>
    (sd_HasChanges d \<longleftrightarrow> st_Tick old \<noteq> st_Tick new \<or> st_Status old \<noteq> st_Status new \<or>
       (\<exists>k. value_diff (nil_get (st_GlobalData old) k) (nil_get (st_GlobalData new) k) \<noteq> None) \<or>
       (\<exists>k. node_diff (nil_get (st_Nodes old) k) (nil_get (st_Nodes new) k) \<noteq> None))"
proof -
  let ?on = "nil_entries (st_Nodes old)" and ?nn = "nil_entries (st_Nodes new)"
  let ?og = "nil_entries (st_GlobalData old)" and ?ng = "nil_entries (st_GlobalData new)"
  define globals where "globals = diff_values (\<lambda>key. key) ?og ?ng []"
  define nodes where "nodes = removed_nodes ?on ?nn (fold (\<lambda>(k, n) d. case node_diff (go_get ?on k) (Some n) of
       None \<Rightarrow> d | Some e \<Rightarrow> go_put k e d) ?nn [])"
  have wf: "go_wf ?on" "go_wf ?nn" "go_wf ?og" "go_wf ?ng"
    and nn: "list_all (\<lambda>(k, v). v \<noteq> None) ?on" "list_all (\<lambda>(k, v). v \<noteq> None) ?nn"
    using assms by (simp_all add: maps_wf_def no_nil_def)
  have g: "go_get globals k = value_diff (go_get ?og k) (go_get ?ng k)" for k
    unfolding globals_def
    using go_get_diff_values [OF wf(3,4), of "\<lambda>k. k" "[]" k] by (simp split: option.splits)
  have n: "go_get nodes k = node_diff (go_get ?on k) (go_get ?nn k)" for k
    unfolding nodes_def removed_nodes_fold fold_puts_id [OF wf(1)] fold_puts_id [OF wf(2)]
    by (auto split: option.splits)
  have "StateStore_Diff (Some old) (Some new) = Inr
      \<lparr>sd_Tick = (if st_Tick old \<noteq> st_Tick new then Some (fd_changed (tick_val old) (tick_val new)) else None),
       sd_Status = (if st_Status old \<noteq> st_Status new then Some (fd_changed (status_val old) (status_val new)) else None),
       sd_Nodes = nil_if_empty nodes, sd_GlobalData = nil_if_empty globals,
       sd_HasChanges = (st_Tick old \<noteq> st_Tick new \<or> st_Status old \<noteq> st_Status new \<or> nodes \<noteq> [] \<or> globals \<noteq> [])\<rparr>"
    by (simp add: StateStore_Diff_def Let_def diff_nodes_fold [OF nn] nodes_def globals_def)
  moreover have "nodes \<noteq> [] \<longleftrightarrow> (\<exists>k. node_diff (go_get ?on k) (go_get ?nn k) \<noteq> None)"
    "globals \<noteq> [] \<longleftrightarrow> (\<exists>k. value_diff (go_get ?og k) (go_get ?ng k) \<noteq> None)"
    by (simp_all add: go_get_eq_Nil [of nodes] go_get_eq_Nil [of globals] g n)
  ultimately show ?thesis by (auto simp: nil_get_entries g n)
qed


text \<open>Two states that differ in a node and in the type of a value.\<close>

definition demo_old :: State where
  "demo_old = (fresh_State None)\<lparr>st_Nodes := Some [(''n1'', Some \<lparr>ns_ID = ''n1'', ns_Status = ''follower'',
     ns_Data = Some [(''term'', GInt 1)], ns_IsByzantine = False\<rparr>)], st_GlobalData := Some [(''x'', GInt 1)]\<rparr>"

definition demo_new :: State where
  "demo_new = demo_old\<lparr>st_Nodes := Some [(''n1'', Some \<lparr>ns_ID = ''n1'', ns_Status = ''leader'',
     ns_Data = Some [(''term'', GInt 2)], ns_IsByzantine = False\<rparr>)], st_GlobalData := Some [(''x'', GFloat (Fin 1))]\<rparr>"

lemma demo_maps_wf: "maps_wf demo_old" "maps_wf demo_new"
  by (simp_all add: maps_wf_def no_nil_def demo_old_def demo_new_def fresh_State_def nil_entries_def
      go_wf_def go_keys_def)

theorem StateStore_Diff_spec_witness:
  "\<exists>d. StateStore_Diff (Some demo_old) (Some demo_new) = Inr d \<and> sd_HasChanges d \<and>
     nil_get (sd_GlobalData d) ''x'' = Some (fd_changed (GInt 1) (GFloat (Fin 1)))"
proof -
  have v: "value_diff (nil_get (st_GlobalData demo_old) ''x'') (nil_get (st_GlobalData demo_new) ''x'') =
      Some (fd_changed (GInt 1) (GFloat (Fin 1)))"
    by (simp add: demo_old_def demo_new_def nil_get_def go_get_def value_diff_def fresh_State_def)
  from StateStore_Diff_spec [OF demo_maps_wf] obtain d where d:
    "StateStore_Diff (Some demo_old) (Some demo_new) = Inr d"
    "\<forall>k. nil_get (sd_GlobalData d) k =
       value_diff (nil_get (st_GlobalData demo_old) k) (nil_get (st_GlobalData demo_new) k)"
    "(\<exists>k. value_diff (nil_get (st_GlobalData demo_old) k) (nil_get (st_GlobalData demo_new) k) \<noteq> None)
       \<Longrightarrow> sd_HasChanges d"
    by blast
  from d(2) v have "nil_get (sd_GlobalData d) ''x'' = Some (fd_changed (GInt 1) (GFloat (Fin 1)))"
    by (metis (no_types))
  moreover from v have "\<exists>k. value_diff (nil_get (st_GlobalData demo_old) k) (nil_get (st_GlobalData demo_new) k) \<noteq> None"
    by (metis option.distinct(1))
  then have "sd_HasChanges d" by (rule d(3))
  ultimately show ?thesis using d(1) by blast
qed

subsection \<open>Export and import\<close>

text \<open>Importing into any store what another one exported makes the exported state current:
  every field but the dynamic values is the same, and those come back in their JSON form.\<close>

theorem StateStore_export_import:
  assumes "StateStore_GetState ss = Some s" and "StateStore_Export ss = Some j"
  shows "StateStore_Import j ss' = (False, ss'\<lparr>ss_current := Some (normal_state s)\<rparr>)"
  using assms by (simp add: StateStore_GetState_def StateStore_Export_def StateStore_Import_def json_state_json)

theorem StateStore_export_import_witness:
  "StateStore_Import
     (JObj [(''tick'', JInt 7), (''status'', JStr ''idle''), (''nodes'', JObj []),
        (''global_data'', JObj [(''x'', JInt 1)]), (''updated_at'', time_json None)]) (NewStateStore None) =
   (False, (NewStateStore None)\<lparr>ss_current :=
      Some (normal_state ((fresh_State None)\<lparr>st_Tick := 7, st_GlobalData := Some [(''x'', GInt 1)]\<rparr>))\<rparr>)"
  by (rule StateStore_export_import [of "(NewStateStore None)\<lparr>ss_current :=
      Some ((fresh_State None)\<lparr>st_Tick := 7, st_GlobalData := Some [(''x'', GInt 1)]\<rparr>)\<rparr>"])
    (simp_all add: StateStore_GetState_def StateStore_Export_def state_json_def fresh_State_def
      nodes_json_def data_json_def)

text \<open>A store that imported a state document without nodes and global data has nil maps, as
  has one that updated a state JSON cannot express: the next write of a node or of a global value
  panics.\<close>

theorem StateStore_nil_maps:
  "StateStore_Import (JObj [(''tick'', JInt 0)]) ss = (False, ss\<lparr>ss_current := Some zero_State\<rparr>) \<and>
   StateStore_SetGlobalData now k v (ss\<lparr>ss_current := Some zero_State\<rparr>) = Inl NilMapWrite \<and>
   StateStore_SetNodeState now i n (ss\<lparr>ss_current := Some zero_State\<rparr>) = Inl NilMapWrite \<and>
   copyState (zero_State\<lparr>st_GlobalData := Some [(''x'', GFloat NaN)], st_Nodes := Some []\<rparr>) = zero_State"
proof -
  have "read_time JNull = Some None" "read_nodes JNull = Some None" "read_data JNull = Some None"
    by (simp_all add: read_time_def read_nodes_def read_data_def)
  then show ?thesis
    by (simp add: StateStore_Import_def json_state_def field_def read_u64_def read_string_def
        StateStore_SetGlobalData_def StateStore_SetNodeState_def current_or_def nil_put_def zero_State_def
        copyState_def state_json_def nodes_json_def data_json_def)
qed

lemma SetGlobalData_get:
  assumes "StateStore_SetGlobalData now k v ss = Inr ss'"
  shows "StateStore_GetGlobalData k' ss' = (if k' = k then v else StateStore_GetGlobalData k' ss)"
  using assms
  by (auto simp: StateStore_SetGlobalData_def go_bind_eq_Inr StateStore_GetGlobalData_def current_or_def
      zero_State_def nil_get_def nil_put_def Let_def split: option.splits)

lemma SetNodeState_get:
  assumes "StateStore_SetNodeState now i n ss = Inr ss'"
  shows "StateStore_GetNodeState i' ss' = (if i' = i then n else StateStore_GetNodeState i' ss)"
  using assms
  by (auto simp: StateStore_SetNodeState_def go_bind_eq_Inr StateStore_GetNodeState_def current_or_def
      zero_State_def nil_get_def nil_put_def Let_def split: option.splits)

text \<open>The states whose maps are there, and what keeps them there.\<close>

definition maps_there :: "StateStore \<Rightarrow> bool" where
  "maps_there ss \<longleftrightarrow> (\<exists>s. ss_current ss = Some s \<and> st_Nodes s \<noteq> None \<and> st_GlobalData s \<noteq> None)"

lemma maps_there_set:
  assumes "maps_there ss"
  shows "\<exists>ss'. StateStore_SetGlobalData now k v ss = Inr ss' \<and> maps_there ss'"
    and "\<exists>ss'. StateStore_SetNodeState now i n ss = Inr ss' \<and> maps_there ss'"
  using assms
  by (auto simp: maps_there_def StateStore_SetGlobalData_def StateStore_SetNodeState_def current_or_def
      nil_put_def Let_def)

end
