(* ===== verification/EngineSnapshot.thy ===== *)
theory EngineSnapshot
  imports EngineState
begin

section \<open>The snapshot store: \<open>simulations/pkg/engine/snapshot.go\<close>\<close>

text \<open>
  A snapshot is the JSON of a state, under a fresh identity; the store holds at most
  \<open>maxCount\<close> of them and makes room by dropping an oldest one.  The map may be nil, and
  hold nil pointers, after an import.  \<open>order\<close> is the order in which a \<open>range\<close>
  meets the snapshots, \<open>uid\<close> and \<open>now\<close> are \<open>uuid.New\<close> and
  \<open>time.Now\<close>, and \<open>textlen\<close> gives the number of bytes of a document.
\<close>

type_synonym snapmap = "(string, Snapshot option) gomap option"

record SnapshotStore =
  sp_snapshots :: snapmap
  sp_maxCount :: nat

definition NewSnapshotStore :: SnapshotStore where
  "NewSnapshotStore = \<lparr>sp_snapshots = Some [], sp_maxCount = 100\<rparr>"

text \<open>The values a \<open>range\<close> over the map meets in the given order of the keys.\<close>

definition ranged :: "('k, 'v) gomap option \<Rightarrow> 'k list \<Rightarrow> 'v list" where
  "ranged m order = List.map_filter (nil_get m) order"

text \<open>\<open>Time.Before\<close>; the zero time is before the others.\<close>

fun time_before :: "gtime \<Rightarrow> gtime \<Rightarrow> bool" where
  "time_before None (Some _) = True"
| "time_before (Some a) (Some b) = (a < b)"
| "time_before _ None = False"

abbreviation snap_time :: "Snapshot \<Rightarrow> gtime" where
  "snap_time s \<equiv> si_CreatedAt (sn_Info s)"

fun oldest_loop :: "Snapshot option list \<Rightarrow> Snapshot option \<Rightarrow> Snapshot option go" where
  "oldest_loop [] oldest = Inr oldest"
| "oldest_loop (s # ss) None = oldest_loop ss s"
| "oldest_loop (s # ss) (Some oldest) =
     go_bind (go_deref s) (\<lambda>s'.
       if time_before (snap_time s') (snap_time oldest) then oldest_loop ss (Some s')
       else oldest_loop ss (Some oldest))"

definition make_room :: "string list \<Rightarrow> SnapshotStore \<Rightarrow> SnapshotStore go" where
  "make_room order ss =
     (if sp_maxCount ss \<le> length (nil_entries (sp_snapshots ss)) then
        go_bind (oldest_loop (ranged (sp_snapshots ss) order) None) (\<lambda>oldest.
          Inr (case oldest of
                 None \<Rightarrow> ss
               | Some o' \<Rightarrow> ss\<lparr>sp_snapshots := map_option (go_del (si_ID (sn_Info o'))) (sp_snapshots ss)\<rparr>))
      else Inr ss)"

text \<open>The result is nil when the state cannot be written.\<close>

definition SnapshotStore_Save ::
  "string \<Rightarrow> gtime \<Rightarrow> (json \<Rightarrow> int) \<Rightarrow> string list \<Rightarrow> string \<Rightarrow> State option \<Rightarrow> SnapshotStore
     \<Rightarrow> (SnapshotInfo option \<times> SnapshotStore) go" where
  "SnapshotStore_Save uid now textlen order name state ss =
     (case (case state of None \<Rightarrow> Some JNull | Some s \<Rightarrow> state_json s) of
        None \<Rightarrow> Inr (None, ss)
      | Some stateData \<Rightarrow>
          go_bind (go_deref state) (\<lambda>s.
            let info = \<lparr>si_ID = uid, si_Name = name, si_Tick = st_Tick s, si_CreatedAt = now,
                        si_Size = textlen stateData\<rparr>;
                snapshot = \<lparr>sn_Info = info, sn_State = Some stateData\<rparr>
            in go_bind (make_room order ss) (\<lambda>ss.
                 go_bind (nil_put uid (Some snapshot) (sp_snapshots ss)) (\<lambda>m.
                   Inr (Some info, ss\<lparr>sp_snapshots := m\<rparr>)))))"

text \<open>\<open>json.Unmarshal\<close> of a raw message; an absent one is an error.\<close>

definition unmarshal_raw :: "json option \<Rightarrow> State option" where
  "unmarshal_raw raw = Option.bind raw json_state"

definition SnapshotStore_Load :: "string \<Rightarrow> SnapshotStore \<Rightarrow> State option go" where
  "SnapshotStore_Load i ss =
     (case nil_get (sp_snapshots ss) i of
        None \<Rightarrow> Inr None
      | Some p \<Rightarrow> go_bind (go_deref p) (\<lambda>snapshot. Inr (unmarshal_raw (sn_State snapshot))))"

fun load_loop :: "string \<Rightarrow> Snapshot option list \<Rightarrow> State option go" where
  "load_loop name [] = Inr None"
| "load_loop name (p # ps) =
     go_bind (go_deref p) (\<lambda>snapshot.
       if si_Name (sn_Info snapshot) = name then Inr (unmarshal_raw (sn_State snapshot))
       else load_loop name ps)"

definition SnapshotStore_LoadByName :: "string list \<Rightarrow> string \<Rightarrow> SnapshotStore \<Rightarrow> State option go" where
  "SnapshotStore_LoadByName order name ss = load_loop name (ranged (sp_snapshots ss) order)"

text \<open>The flag is the error.\<close>

definition SnapshotStore_Delete :: "string \<Rightarrow> SnapshotStore \<Rightarrow> bool \<times> SnapshotStore" where
  "SnapshotStore_Delete i ss =
     (case nil_get (sp_snapshots ss) i of
        None \<Rightarrow> (True, ss)
      | Some _ \<Rightarrow> (False, ss\<lparr>sp_snapshots := map_option (go_del i) (sp_snapshots ss)\<rparr>))"

fun infos_of :: "Snapshot option list \<Rightarrow> SnapshotInfo list go" where
  "infos_of [] = Inr []"
| "infos_of (p # ps) = go_bind (go_deref p) (\<lambda>s. go_bind (infos_of ps) (\<lambda>is. Inr (sn_Info s # is)))"

definition SnapshotStore_List :: "string list \<Rightarrow> SnapshotStore \<Rightarrow> SnapshotInfo list go" where
  "SnapshotStore_List order ss = infos_of (ranged (sp_snapshots ss) order)"

definition SnapshotStore_Get :: "string \<Rightarrow> SnapshotStore \<Rightarrow> SnapshotInfo option go" where
  "SnapshotStore_Get i ss =
     (case nil_get (sp_snapshots ss) i of
        None \<Rightarrow> Inr None
      | Some p \<Rightarrow> go_bind (go_deref p) (\<lambda>s. Inr (Some (sn_Info s))))"

definition SnapshotStore_Clear :: "SnapshotStore \<Rightarrow> SnapshotStore" where
  "SnapshotStore_Clear ss = ss\<lparr>sp_snapshots := Some []\<rparr>"

definition SnapshotStore_Count :: "SnapshotStore \<Rightarrow> nat" where
  "SnapshotStore_Count ss = length (nil_entries (sp_snapshots ss))"

definition abs_diff :: "u64 \<Rightarrow> u64 \<Rightarrow> u64" where
  "abs_diff a b = (if b < a then a - b else b - a)"

fun closest_loop :: "u64 \<Rightarrow> Snapshot option list \<Rightarrow> u64 \<Rightarrow> SnapshotInfo option \<Rightarrow> SnapshotInfo option go" where
  "closest_loop tick [] minDiff closest = Inr closest"
| "closest_loop tick (p # ps) minDiff closest =
     go_bind (go_deref p) (\<lambda>s.
       let diff = abs_diff (si_Tick (sn_Info s)) tick
       in if diff < minDiff then closest_loop tick ps diff (Some (sn_Info s))
          else closest_loop tick ps minDiff closest)"

definition SnapshotStore_GetByTick :: "string list \<Rightarrow> u64 \<Rightarrow> SnapshotStore \<Rightarrow> SnapshotInfo option go" where
  "SnapshotStore_GetByTick order tick ss =
     closest_loop tick (ranged (sp_snapshots ss) order) (- 1) None"

subsection \<open>The store as a document\<close>

definition info_json :: "SnapshotInfo \<Rightarrow> json" where
  "info_json i = JObj [(''id'', JStr (si_ID i)), (''name'', JStr (si_Name i)),
     (''tick'', JInt (uint (si_Tick i))), (''created_at'', time_json (si_CreatedAt i)),
     (''size'', JInt (si_Size i))]"

definition snapshot_json :: "Snapshot option \<Rightarrow> json" where
  "snapshot_json p =
     (case p of
        None \<Rightarrow> JNull
      | Some s \<Rightarrow> JObj [(''info'', info_json (sn_Info s)),
          (''state'', case sn_State s of None \<Rightarrow> JNull | Some j \<Rightarrow> j)])"

definition SnapshotStore_Export :: "SnapshotStore \<Rightarrow> json" where
  "SnapshotStore_Export ss =
     (case sp_snapshots ss of
        None \<Rightarrow> JNull
      | Some kvs \<Rightarrow> JObj (map (\<lambda>(k, p). (k, snapshot_json p)) kvs))"

definition read_i64 :: "json \<Rightarrow> int option" where
  "read_i64 j =
     (case j of
        JNull \<Rightarrow> Some 0
      | JInt n \<Rightarrow> if - (2 ^ 63) \<le> n \<and> n < 2 ^ 63 then Some n else None
      | _ \<Rightarrow> None)"

definition zero_info :: SnapshotInfo where
  "zero_info = \<lparr>si_ID = [], si_Name = [], si_Tick = 0, si_CreatedAt = None, si_Size = 0\<rparr>"

definition read_info :: "json \<Rightarrow> SnapshotInfo option" where
  "read_info j =
     (case j of
        JNull \<Rightarrow> Some zero_info
      | JObj kvs \<Rightarrow>
          Option.bind (read_string (field ''id'' kvs)) (\<lambda>i.
          Option.bind (read_string (field ''name'' kvs)) (\<lambda>n.
          Option.bind (read_u64 (field ''tick'' kvs)) (\<lambda>t.
          Option.bind (read_time (field ''created_at'' kvs)) (\<lambda>c.
          Option.bind (read_i64 (field ''size'' kvs)) (\<lambda>z.
            Some \<lparr>si_ID = i, si_Name = n, si_Tick = t, si_CreatedAt = c, si_Size = z\<rparr>)))))
      | _ \<Rightarrow> None)"

definition read_snapshot :: "json \<Rightarrow> Snapshot option option" where
  "read_snapshot j =
     (case j of
        JNull \<Rightarrow> Some None
      | JObj kvs \<Rightarrow>
          map_option (\<lambda>i. Some \<lparr>sn_Info = i, sn_State = map_of (rev kvs) ''state''\<rparr>) (read_info (field ''info'' kvs))
      | _ \<Rightarrow> None)"

definition SnapshotStore_Import :: "json \<Rightarrow> SnapshotStore \<Rightarrow> bool \<times> SnapshotStore" where
  "SnapshotStore_Import data ss =
     (case data of
        JNull \<Rightarrow> (False, ss\<lparr>sp_snapshots := None\<rparr>)
      | JObj kvs \<Rightarrow>
          (case opt_map (\<lambda>(k, j). map_option (Pair k) (read_snapshot j)) kvs of
             None \<Rightarrow> (True, ss)
           | Some ps \<Rightarrow> (False, ss\<lparr>sp_snapshots := Some (go_of_list ps)\<rparr>))
      | _ \<Rightarrow> (True, ss))"

subsection \<open>Automatic snapshots\<close>

record AutoSnapshot =
  as_interval :: u64
  as_enabled :: bool

definition NewAutoSnapshot :: "u64 \<Rightarrow> AutoSnapshot" where
  "NewAutoSnapshot interval = \<lparr>as_interval = interval, as_enabled = False\<rparr>"

definition AutoSnapshot_Enable :: "AutoSnapshot \<Rightarrow> AutoSnapshot" where
  "AutoSnapshot_Enable as' = as'\<lparr>as_enabled := True\<rparr>"

definition AutoSnapshot_Disable :: "AutoSnapshot \<Rightarrow> AutoSnapshot" where
  "AutoSnapshot_Disable as' = as'\<lparr>as_enabled := False\<rparr>"

definition AutoSnapshot_SetInterval :: "u64 \<Rightarrow> AutoSnapshot \<Rightarrow> AutoSnapshot" where
  "AutoSnapshot_SetInterval interval as' = as'\<lparr>as_interval := interval\<rparr>"

definition AutoSnapshot_Check ::
  "string \<Rightarrow> gtime \<Rightarrow> (json \<Rightarrow> int) \<Rightarrow> string list \<Rightarrow> u64 \<Rightarrow> AutoSnapshot \<Rightarrow> StateStore \<Rightarrow> SnapshotStore
     \<Rightarrow> SnapshotStore go" where
  "AutoSnapshot_Check uid now textlen order tick as' stateStore snaps =
     (if \<not> as_enabled as' \<or> as_interval as' = 0 then Inr snaps
      else if tick mod as_interval as' = 0 then
        (case StateStore_GetState stateStore of
           None \<Rightarrow> Inr snaps
         | Some s \<Rightarrow> go_bind (SnapshotStore_Save uid now textlen order (''auto_'' @ itoa (unat tick)) (Some s) snaps)
             (\<lambda>(_, snaps). Inr snaps))
      else Inr snaps)"

subsection \<open>Invariant\<close>

text \<open>Every entry is a snapshot stored under its own identity, and there are no more than allowed.\<close>

definition snap_ok :: "SnapshotStore \<Rightarrow> bool" where
  "snap_ok ss \<longleftrightarrow> (\<exists>m. sp_snapshots ss = Some m \<and> go_wf m \<and> length m \<le> sp_maxCount ss \<and>
     (\<forall>k p. go_get m k = Some p \<longrightarrow> (\<exists>s. p = Some s \<and> si_ID (sn_Info s) = k)))"

lemma snap_ok_New: "snap_ok NewSnapshotStore"
  by (simp add: snap_ok_def NewSnapshotStore_def)

lemma set_ranged:
  assumes "map_order m order"
  shows "set (ranged (Some m) order) = {v. \<exists>k. go_get m k = Some v}"
proof -
  have "set (ranged (Some m) ks) = {v. \<exists>k \<in> set ks. go_get m k = Some v}" for ks
    by (induction ks) (auto simp: ranged_def map_filter_def nil_get_def)
  with assms show ?thesis by (auto simp: map_order_def dest: go_get_Some_key)
qed

text \<open>The snapshots of a well-formed store, and the pointers a \<open>range\<close> meets.\<close>

definition snaps_of :: "SnapshotStore \<Rightarrow> Snapshot set" where
  "snaps_of ss = {s. \<exists>k. nil_get (sp_snapshots ss) k = Some (Some s)}"

lemma snap_ok_ranged:
  assumes "snap_ok ss" and "map_order (nil_entries (sp_snapshots ss)) order"
  obtains xs where "ranged (sp_snapshots ss) order = map Some xs" and "set xs = snaps_of ss"
proof -
  obtain m where m: "sp_snapshots ss = Some m"
    "\<forall>k p. go_get m k = Some p \<longrightarrow> (\<exists>s. p = Some s \<and> si_ID (sn_Info s) = k)"
    using assms(1) by (auto simp: snap_ok_def)
  have r: "set (ranged (sp_snapshots ss) order) = {v. \<exists>k. go_get m k = Some v}"
    using set_ranged [of m order] assms(2) m by (simp add: nil_entries_def)
  then have some: "\<forall>p \<in> set (ranged (sp_snapshots ss) order). \<exists>s. p = Some s" using m by blast
  then have "ranged (sp_snapshots ss) order = map Some (map the (ranged (sp_snapshots ss) order))"
    by (induction "ranged (sp_snapshots ss) order") (auto simp: map_idI)
  moreover have "set (map the (ranged (sp_snapshots ss) order)) = snaps_of ss"
    using r m some by (force simp: snaps_of_def nil_get_def image_iff)
  ultimately show thesis by (rule that)
qed

lemma snaps_of_ID: "snap_ok ss \<Longrightarrow> s \<in> snaps_of ss \<Longrightarrow> nil_get (sp_snapshots ss) (si_ID (sn_Info s)) = Some (Some s)"
  by (fastforce simp: snap_ok_def snaps_of_def nil_get_def)

lemma snap_okE:
  assumes "snap_ok ss"
  obtains m where "sp_snapshots ss = Some m" "go_wf m" "length m \<le> sp_maxCount ss"
    "\<And>k p. go_get m k = Some p \<Longrightarrow> \<exists>s. p = Some s \<and> si_ID (sn_Info s) = k"
  using assms by (auto simp: snap_ok_def)

subsection \<open>Eviction\<close>

lemma time_before_trans: "\<not> time_before b a \<Longrightarrow> \<not> time_before c b \<Longrightarrow> \<not> time_before c a"
  by (cases a; cases b; cases c) auto

lemma time_before_irrefl [simp]: "\<not> time_before a a"
  by (cases a) auto

lemma time_before_asym: "time_before a b \<Longrightarrow> \<not> time_before b a"
  by (cases a; cases b) auto

lemma oldest_loop_Some:
  "\<exists>o'. oldest_loop (map Some xs) (Some x) = Inr (Some o') \<and> o' \<in> set (x # xs) \<and>
     (\<forall>s \<in> set (x # xs). \<not> time_before (snap_time s) (snap_time o'))"
proof (induction xs arbitrary: x)
  case (Cons y ys)
  show ?case
  proof (cases "time_before (snap_time y) (snap_time x)")
    case True
    from Cons.IH [of y] obtain o' where o': "oldest_loop (map Some ys) (Some y) = Inr (Some o')"
      "o' \<in> set (y # ys)" "\<forall>s \<in> set (y # ys). \<not> time_before (snap_time s) (snap_time o')" by blast
    then have "\<not> time_before (snap_time x) (snap_time o')"
      using True time_before_asym time_before_trans by (metis list.set_intros(1))
    with True o' show ?thesis by auto
  next
    case False
    from Cons.IH [of x] obtain o' where o': "oldest_loop (map Some ys) (Some x) = Inr (Some o')"
      "o' \<in> set (x # ys)" "\<forall>s \<in> set (x # ys). \<not> time_before (snap_time s) (snap_time o')" by blast
    then have "\<not> time_before (snap_time y) (snap_time o')"
      using False time_before_trans by (metis list.set_intros(1))
    with False o' show ?thesis by auto
  qed
qed simp

lemma make_room_ok:
  assumes ok: "snap_ok ss" and order: "map_order (nil_entries (sp_snapshots ss)) order" and pos: "0 < sp_maxCount ss"
  shows "\<exists>ss' m. make_room order ss = Inr ss' \<and> snap_ok ss' \<and> sp_maxCount ss' = sp_maxCount ss \<and>
    sp_snapshots ss' = Some m \<and> length m < sp_maxCount ss \<and>
    (if SnapshotStore_Count ss < sp_maxCount ss then ss' = ss
     else \<exists>o' \<in> snaps_of ss. (\<forall>s \<in> snaps_of ss. \<not> time_before (snap_time s) (snap_time o')) \<and>
       (\<forall>k. nil_get (Some m) k = (if k = si_ID (sn_Info o') then None else nil_get (sp_snapshots ss) k)))"
proof -
  obtain m where m: "sp_snapshots ss = Some m" "go_wf m" "length m \<le> sp_maxCount ss"
    "\<And>k p. go_get m k = Some p \<Longrightarrow> \<exists>s. p = Some s \<and> si_ID (sn_Info s) = k"
    using ok by (rule snap_okE) blast
  show ?thesis
  proof (cases "sp_maxCount ss \<le> length m")
    case False
    with m ok show ?thesis
      by (simp add: make_room_def SnapshotStore_Count_def nil_entries_def)
  next
    case True
    obtain xs where xs: "ranged (sp_snapshots ss) order = map Some xs" "set xs = snaps_of ss"
      using snap_ok_ranged [OF ok order] .
    have "m \<noteq> []" using True pos by auto
    then obtain k p where "go_get m k = Some p" by (auto simp: go_get_eq_Nil)
    then have "xs \<noteq> []" using m(1) m(4) [of k p] xs(2) by (auto simp: snaps_of_def nil_get_def)
    then obtain x ys where xs': "xs = x # ys" by (cases xs) auto
    obtain o' where o': "oldest_loop (map Some xs) None = Inr (Some o')" "o' \<in> set xs"
      "\<forall>s \<in> set xs. \<not> time_before (snap_time s) (snap_time o')"
      using oldest_loop_Some [of ys x] xs' by auto
    let ?m = "go_del (si_ID (sn_Info o')) m"
    have mem: "go_get m (si_ID (sn_Info o')) = Some (Some o')"
      using snaps_of_ID [OF ok] o'(2) xs(2) m(1) by (simp add: nil_get_def)
    have len: "length ?m < sp_maxCount ss"
      using m(2,3) True pos go_get_Some_key [OF mem] by (simp add: length_go_del)
    have "make_room order ss = Inr (ss\<lparr>sp_snapshots := Some ?m\<rparr>)"
      using True m(1) o'(1) xs(1) by (simp add: make_room_def nil_entries_def)
    moreover have "snap_ok (ss\<lparr>sp_snapshots := Some ?m\<rparr>)"
      using m(2,4) len by (auto simp: snap_ok_def)
    moreover have "\<exists>o' \<in> snaps_of ss. (\<forall>s \<in> snaps_of ss. \<not> time_before (snap_time s) (snap_time o')) \<and>
       (\<forall>k. nil_get (Some ?m) k = (if k = si_ID (sn_Info o') then None else nil_get (sp_snapshots ss) k))"
      using o'(2,3) xs(2) m(1) by (auto simp: nil_get_def)
    ultimately show ?thesis using len True m(1)
      by (simp add: SnapshotStore_Count_def nil_entries_def)
  qed
qed

text \<open>Saving a state that JSON can express never panics: the snapshot
  is there afterwards and loads as the state, the store stays within its limit, and every other
  snapshot is kept, except that a full store drops one none of whose companions is older.\<close>

theorem SnapshotStore_Save_spec:
  assumes ok: "snap_ok ss" and order: "map_order (nil_entries (sp_snapshots ss)) order"
    and pos: "0 < sp_maxCount ss" and state: "state_json s = Some j"
  shows "\<exists>info ss'. SnapshotStore_Save uid now textlen order name (Some s) ss = Inr (Some info, ss') \<and>
    snap_ok ss' \<and> SnapshotStore_Load uid ss' = Inr (Some (normal_state s)) \<and>
    (if SnapshotStore_Count ss < sp_maxCount ss
     then \<forall>k. k \<noteq> uid \<longrightarrow> nil_get (sp_snapshots ss') k = nil_get (sp_snapshots ss) k
     else \<exists>o' \<in> snaps_of ss. (\<forall>s \<in> snaps_of ss. \<not> time_before (snap_time s) (snap_time o')) \<and>
       (\<forall>k. k \<noteq> uid \<longrightarrow> nil_get (sp_snapshots ss') k =
          (if k = si_ID (sn_Info o') then None else nil_get (sp_snapshots ss) k)))"
proof -
  obtain ss1 m where room: "make_room order ss = Inr ss1" "snap_ok ss1" "sp_maxCount ss1 = sp_maxCount ss"
    "sp_snapshots ss1 = Some m" "length m < sp_maxCount ss"
    "if SnapshotStore_Count ss < sp_maxCount ss then ss1 = ss
     else \<exists>o' \<in> snaps_of ss. (\<forall>s \<in> snaps_of ss. \<not> time_before (snap_time s) (snap_time o')) \<and>
       (\<forall>k. nil_get (Some m) k = (if k = si_ID (sn_Info o') then None else nil_get (sp_snapshots ss) k))"
    using make_room_ok [OF ok order pos] by blast
  let ?info = "\<lparr>si_ID = uid, si_Name = name, si_Tick = st_Tick s, si_CreatedAt = now, si_Size = textlen j\<rparr>"
  let ?m = "go_put uid (Some \<lparr>sn_Info = ?info, sn_State = Some j\<rparr>) m"
  let ?ss = "ss1\<lparr>sp_snapshots := Some ?m\<rparr>"
  have save: "SnapshotStore_Save uid now textlen order name (Some s) ss = Inr (Some ?info, ?ss)"
    using state room(1,4) by (simp add: SnapshotStore_Save_def Let_def nil_put_def)
  have "snap_ok ?ss"
    using room(2-5) by (auto simp: snap_ok_def length_go_put)
  moreover have "SnapshotStore_Load uid ?ss = Inr (Some (normal_state s))"
    using json_state_json [OF state] by (simp add: SnapshotStore_Load_def nil_get_def unmarshal_raw_def)
  moreover have "nil_get (Some ?m) k = nil_get (Some m) k" if "k \<noteq> uid" for k
    using that by (simp add: nil_get_def)
  ultimately show ?thesis
    using save room(4,6) by (intro exI [of _ ?info] exI [of _ ?ss]) (auto split: if_splits)
qed

theorem SnapshotStore_Save_spec_witness:
  "\<exists>info ss'. SnapshotStore_Save ''u'' (Some 5) (\<lambda>_. 90) [] ''first'' (Some (fresh_State None)) NewSnapshotStore =
      Inr (Some info, ss') \<and> SnapshotStore_Load ''u'' ss' = Inr (Some (normal_state (fresh_State None)))"
proof -
  have "\<exists>j. state_json (fresh_State None) = Some j"
    by (simp add: state_json_def fresh_State_def nodes_json_def data_json_def)
  then obtain j where j: "state_json (fresh_State None) = Some j" ..
  have "map_order (nil_entries (sp_snapshots NewSnapshotStore)) []" "0 < sp_maxCount NewSnapshotStore"
    by (simp_all add: NewSnapshotStore_def nil_entries_def map_order_def go_keys_def)
  from SnapshotStore_Save_spec [OF snap_ok_New this(1,2) j, of "''u''" "Some 5" "\<lambda>_. 90" "''first''"]
  show ?thesis by blast
qed


subsection \<open>The nearest snapshot\<close>

lemma uint_abs_diff: "uint (abs_diff a b) = \<bar>uint a - uint b\<bar>"
proof (cases "b < a")
  case True
  then have "uint b < uint a" by (simp add: word_less_def)
  with True show ?thesis by (simp add: abs_diff_def uint_sub_lem [THEN iffD1])
next
  case False
  then have "uint a \<le> uint b" by (simp add: word_less_def)
  with False show ?thesis by (simp add: abs_diff_def uint_sub_lem [THEN iffD1])
qed

abbreviation tick_diff :: "u64 \<Rightarrow> Snapshot \<Rightarrow> u64" where
  "tick_diff tick s \<equiv> abs_diff (si_Tick (sn_Info s)) tick"

lemma closest_loop_spec:
  "\<exists>r. closest_loop tick (map Some xs) minDiff closest = Inr r \<and>
     (if \<exists>x \<in> set xs. tick_diff tick x < minDiff
      then \<exists>x \<in> set xs. r = Some (sn_Info x) \<and> (\<forall>y \<in> set xs. tick_diff tick x \<le> tick_diff tick y)
      else r = closest)"
proof (induction xs arbitrary: minDiff closest)
  case (Cons x xs)
  let ?d = "tick_diff tick x"
  show ?case
  proof (cases "?d < minDiff")
    case True
    from Cons.IH [of ?d "Some (sn_Info x)"] obtain r where
      r: "closest_loop tick (map Some xs) ?d (Some (sn_Info x)) = Inr r"
      "if \<exists>y \<in> set xs. tick_diff tick y < ?d
       then \<exists>y \<in> set xs. r = Some (sn_Info y) \<and> (\<forall>z \<in> set xs. tick_diff tick y \<le> tick_diff tick z)
       else r = Some (sn_Info x)" by blast
    have "\<exists>y \<in> set (x # xs). r = Some (sn_Info y) \<and> (\<forall>z \<in> set (x # xs). tick_diff tick y \<le> tick_diff tick z)"
    proof (cases "\<exists>y \<in> set xs. tick_diff tick y < ?d")
      case True
      with r(2) obtain y where y: "y \<in> set xs" "r = Some (sn_Info y)"
        "\<forall>z \<in> set xs. tick_diff tick y \<le> tick_diff tick z" by auto
      from True y(3) have "tick_diff tick y \<le> ?d" by (meson le_less_trans less_imp_le)
      with y show ?thesis by auto
    next
      case False
      with r(2) have "r = Some (sn_Info x)" by simp
      with False show ?thesis by (auto simp: not_less)
    qed
    with True r(1) show ?thesis by (auto simp: Let_def)
  next
    case False
    from Cons.IH [of minDiff closest] obtain r where
      r: "closest_loop tick (map Some xs) minDiff closest = Inr r"
      "if \<exists>y \<in> set xs. tick_diff tick y < minDiff
       then \<exists>y \<in> set xs. r = Some (sn_Info y) \<and> (\<forall>z \<in> set xs. tick_diff tick y \<le> tick_diff tick z)
       else r = closest" by blast
    show ?thesis
    proof (cases "\<exists>y \<in> set xs. tick_diff tick y < minDiff")
      case True
      with r(2) obtain y where y: "y \<in> set xs" "r = Some (sn_Info y)"
        "\<forall>z \<in> set xs. tick_diff tick y \<le> tick_diff tick z" by auto
      from True y(3) False have "tick_diff tick y \<le> ?d" by (meson le_less_trans less_imp_le not_less order_trans)
      with y False r(1) True show ?thesis by (auto simp: Let_def)
    qed (use False r in \<open>auto simp: Let_def\<close>)
  qed
qed simp

text \<open>Whatever the order in which the snapshots are met, \<open>GetByTick\<close> returns one whose
  tick is nearest to the given one; it returns none only when every snapshot is at the greatest
  possible distance.\<close>

theorem SnapshotStore_GetByTick_nearest:
  assumes "snap_ok ss" and "map_order (nil_entries (sp_snapshots ss)) order"
  shows "\<exists>r. SnapshotStore_GetByTick order tick ss = Inr r \<and>
    (case r of
       None \<Rightarrow> \<forall>s \<in> snaps_of ss. \<bar>uint (si_Tick (sn_Info s)) - uint tick\<bar> = 2 ^ 64 - 1
     | Some i \<Rightarrow> \<exists>s \<in> snaps_of ss. i = sn_Info s \<and> (\<forall>t \<in> snaps_of ss.
         \<bar>uint (si_Tick (sn_Info s)) - uint tick\<bar> \<le> \<bar>uint (si_Tick (sn_Info t)) - uint tick\<bar>))"
proof -
  obtain xs where xs: "ranged (sp_snapshots ss) order = map Some xs" "set xs = snaps_of ss"
    using snap_ok_ranged [OF assms] .
  obtain r where r: "closest_loop tick (map Some xs) (- 1) None = Inr r"
    "if \<exists>x \<in> set xs. tick_diff tick x < - 1
     then \<exists>x \<in> set xs. r = Some (sn_Info x) \<and> (\<forall>y \<in> set xs. tick_diff tick x \<le> tick_diff tick y)
     else r = None"
    using closest_loop_spec [of tick xs "- 1" None] by blast
  show ?thesis
  proof (cases "\<exists>x \<in> set xs. tick_diff tick x < - 1")
    case True
    with r(2) obtain x where x: "x \<in> set xs" "r = Some (sn_Info x)"
      "\<forall>y \<in> set xs. tick_diff tick x \<le> tick_diff tick y" by auto
    with r(1) xs show ?thesis
      by (auto simp: SnapshotStore_GetByTick_def word_le_def uint_abs_diff)
  next
    case False
    then have "\<forall>x \<in> set xs. tick_diff tick x = - 1"
      using max_word_max antisym_conv2 by (metis word_order.extremum_strict word_order.not_eq_extremum)
    then have "\<forall>x \<in> set xs. uint (tick_diff tick x) = 2 ^ 64 - 1" by (simp add: unsigned_minus_1_eq_mask mask_eq_exp_minus_1)
    with False r xs show ?thesis by (simp add: SnapshotStore_GetByTick_def uint_abs_diff)
  qed
qed

definition demo_snap :: "string \<Rightarrow> u64 \<Rightarrow> Snapshot" where
  "demo_snap i t = \<lparr>sn_Info = \<lparr>si_ID = i, si_Name = i, si_Tick = t, si_CreatedAt = Some 0, si_Size = 4\<rparr>,
     sn_State = Some JNull\<rparr>"

definition demo_snaps :: SnapshotStore where
  "demo_snaps = \<lparr>sp_snapshots = Some [(''a'', Some (demo_snap ''a'' 3)), (''b'', Some (demo_snap ''b'' 9))],
     sp_maxCount = 100\<rparr>"

lemma demo_snaps_ok: "snap_ok demo_snaps"
  by (auto simp: snap_ok_def demo_snaps_def demo_snap_def go_wf_def go_keys_def go_get_Cons split: if_splits)

theorem SnapshotStore_GetByTick_nearest_witness:
  "\<exists>r. SnapshotStore_GetByTick [''b'', ''a''] 7 demo_snaps = Inr r \<and>
    (case r of
       None \<Rightarrow> \<forall>s \<in> snaps_of demo_snaps. \<bar>uint (si_Tick (sn_Info s)) - uint (7 :: u64)\<bar> = 2 ^ 64 - 1
     | Some i \<Rightarrow> \<exists>s \<in> snaps_of demo_snaps. i = sn_Info s \<and> (\<forall>t \<in> snaps_of demo_snaps.
         \<bar>uint (si_Tick (sn_Info s)) - uint (7 :: u64)\<bar> \<le> \<bar>uint (si_Tick (sn_Info t)) - uint (7 :: u64)\<bar>))"
  by (rule SnapshotStore_GetByTick_nearest [OF demo_snaps_ok])
    (auto simp: map_order_def demo_snaps_def nil_entries_def go_keys_def)

subsection \<open>Export and import\<close>

lemma go_put_new: "k \<notin> set (go_keys m) \<Longrightarrow> go_put k v m = m @ [(k, v)]"
  by (induction m) (auto simp: go_put_def go_keys_def)

lemma go_of_list_wf: "go_wf m \<Longrightarrow> go_of_list m = m"
proof -
  have "go_wf (a @ m) \<Longrightarrow> fold (\<lambda>(k, v). go_put k v) m a = a @ m" for a
    by (induction m arbitrary: a) (auto simp: go_put_new go_wf_def go_keys_def)
  from this [of "[]"] show "go_wf m \<Longrightarrow> go_of_list m = m" by (simp add: go_of_list_def)
qed

lemma read_info_json:
  assumes "- (2 ^ 63) \<le> si_Size i" and "si_Size i < 2 ^ 63"
  shows "read_info (info_json i) = Some i"
  using assms by (simp add: read_info_def info_json_def field_def read_string_def read_u64_json
      read_time_json read_i64_def)

definition writable :: "Snapshot option \<Rightarrow> bool" where
  "writable p = (case p of None \<Rightarrow> True
     | Some s \<Rightarrow> sn_State s \<noteq> None \<and> - (2 ^ 63) \<le> si_Size (sn_Info s) \<and> si_Size (sn_Info s) < 2 ^ 63)"

lemma read_snapshot_json: "writable p \<Longrightarrow> read_snapshot (snapshot_json p) = Some p"
  by (auto simp: writable_def snapshot_json_def read_snapshot_def field_def read_info_json
      split: option.splits)

text \<open>Importing the export of a store whose snapshots have a state and a 64-bit size gives
  back the same snapshots under the same identities.\<close>

theorem SnapshotStore_export_import:
  assumes "sp_snapshots ss = Some m" and "go_wf m" and "\<forall>(k, p) \<in> set m. writable p"
  shows "SnapshotStore_Import (SnapshotStore_Export ss) ss' = (False, ss'\<lparr>sp_snapshots := Some m\<rparr>)"
proof -
  have "opt_map (\<lambda>(k, j). map_option (Pair k) (read_snapshot j)) (map (\<lambda>(k, p). (k, snapshot_json p)) m) = Some m"
    using assms(3) by (induction m) (auto simp: read_snapshot_json)
  then show ?thesis
    using assms(1,2) by (simp add: SnapshotStore_Import_def SnapshotStore_Export_def go_of_list_wf)
qed

theorem SnapshotStore_export_import_witness:
  "SnapshotStore_Import (SnapshotStore_Export demo_snaps) NewSnapshotStore = (False, demo_snaps)"
proof -
  have "NewSnapshotStore\<lparr>sp_snapshots := sp_snapshots demo_snaps\<rparr> = demo_snaps"
    by (simp add: NewSnapshotStore_def demo_snaps_def)
  moreover have "SnapshotStore_Import (SnapshotStore_Export demo_snaps) NewSnapshotStore =
      (False, NewSnapshotStore\<lparr>sp_snapshots := sp_snapshots demo_snaps\<rparr>)"
    using SnapshotStore_export_import [of demo_snaps
        "[(''a'', Some (demo_snap ''a'' 3)), (''b'', Some (demo_snap ''b'' 9))]" NewSnapshotStore]
    by (simp add: demo_snaps_def go_wf_def go_keys_def writable_def demo_snap_def)
  ultimately show ?thesis by simp
qed

subsection \<open>Every operation keeps the invariant\<close>

lemma Save_ok:
  assumes "snap_ok ss" and "map_order (nil_entries (sp_snapshots ss)) order" and "0 < sp_maxCount ss"
    and "SnapshotStore_Save uid now textlen order name (Some s) ss = Inr (r, ss')"
  shows "snap_ok ss' \<and> sp_maxCount ss' = sp_maxCount ss"
proof (cases "state_json s")
  case None
  with assms show ?thesis by (simp add: SnapshotStore_Save_def)
next
  case (Some j)
  obtain ss1 m where room: "make_room order ss = Inr ss1" "snap_ok ss1" "sp_maxCount ss1 = sp_maxCount ss"
    "sp_snapshots ss1 = Some m" "length m < sp_maxCount ss"
    using make_room_ok [OF assms(1-3)] by blast
  then show ?thesis
    using assms(4) Some
    by (auto simp: SnapshotStore_Save_def Let_def nil_put_def snap_ok_def length_go_put)
qed

lemma Delete_ok: "snap_ok ss \<Longrightarrow> snap_ok (snd (SnapshotStore_Delete i ss))"
  by (auto simp: snap_ok_def SnapshotStore_Delete_def length_go_del split: option.splits)

lemma Check_ok:
  assumes "snap_ok ss" and "map_order (nil_entries (sp_snapshots ss)) order" and "0 < sp_maxCount ss"
    and "AutoSnapshot_Check uid now textlen order tick au st ss = Inr ss'"
  shows "snap_ok ss'"
  using assms Save_ok [OF assms(1-3)]
  by (auto simp: AutoSnapshot_Check_def go_bind_eq_Inr split: if_splits option.splits)

end
