(* ===== verification/EngineRegistry.thy ===== *)
theory EngineRegistry
  imports EngineSnapshot
begin

section \<open>The registry: \<open>simulations/pkg/engine/registry.go\<close>\<close>

text \<open>
  A factory is what its two methods return: a new simulator, of a type \<open>'s\<close> the registry
  does not look into, and a description.  The global functions of the file are the methods
  applied to the global registry.
\<close>

record 's SimulatorFactory =
  fa_Create :: 's
  fa_GetDescription :: Description

record 's Registry =
  rg_factories :: "(string, 's SimulatorFactory) gomap"
  rg_modules :: "(string, Description) gomap"

definition NewRegistry :: "'s Registry" where
  "NewRegistry = \<lparr>rg_factories = [], rg_modules = []\<rparr>"

text \<open>The flag is the error.\<close>

definition Registry_Register :: "string \<Rightarrow> 's SimulatorFactory \<Rightarrow> 's Registry \<Rightarrow> bool \<times> 's Registry" where
  "Registry_Register name factory r =
     (case go_get (rg_factories r) name of
        Some _ \<Rightarrow> (True, r)
      | None \<Rightarrow> (False, r\<lparr>rg_factories := go_put name factory (rg_factories r),
          rg_modules := go_put name (fa_GetDescription factory) (rg_modules r)\<rparr>))"

definition Registry_Unregister :: "string \<Rightarrow> 's Registry \<Rightarrow> 's Registry" where
  "Registry_Unregister name r =
     r\<lparr>rg_factories := go_del name (rg_factories r), rg_modules := go_del name (rg_modules r)\<rparr>"

definition Registry_Get :: "string \<Rightarrow> 's Registry \<Rightarrow> 's SimulatorFactory option" where
  "Registry_Get name r = go_get (rg_factories r) name"

definition Registry_Create :: "string \<Rightarrow> 's Registry \<Rightarrow> 's option" where
  "Registry_Create name r =
     (case go_get (rg_factories r) name of None \<Rightarrow> None | Some factory \<Rightarrow> Some (fa_Create factory))"

definition Registry_List :: "string list \<Rightarrow> 's Registry \<Rightarrow> Description list" where
  "Registry_List order r = ranged (Some (rg_modules r)) order"

definition Registry_ListByCategory :: "string list \<Rightarrow> string \<Rightarrow> 's Registry \<Rightarrow> Description list" where
  "Registry_ListByCategory order category r =
     filter (\<lambda>desc. de_Category desc = category) (ranged (Some (rg_modules r)) order)"

definition Registry_ListByType :: "string list \<Rightarrow> string \<Rightarrow> 's Registry \<Rightarrow> Description list" where
  "Registry_ListByType order componentType r =
     filter (\<lambda>desc. de_Type desc = componentType) (ranged (Some (rg_modules r)) order)"

definition Registry_GetDescription :: "string \<Rightarrow> 's Registry \<Rightarrow> Description option" where
  "Registry_GetDescription name r = go_get (rg_modules r) name"

definition Registry_Count :: "'s Registry \<Rightarrow> nat" where
  "Registry_Count r = length (rg_factories r)"

text \<open>The set of categories as a map to the empty struct; its order is a second argument.\<close>

definition category_set :: "string list \<Rightarrow> 's Registry \<Rightarrow> (string, unit) gomap" where
  "category_set order r = fold (\<lambda>desc. go_put (de_Category desc) ()) (ranged (Some (rg_modules r)) order) []"

definition Registry_Categories :: "string list \<Rightarrow> string list \<Rightarrow> 's Registry \<Rightarrow> string list" where
  "Registry_Categories order order' r = filter (\<lambda>c. go_get (category_set order r) c \<noteq> None) order'"

definition MustRegister :: "string \<Rightarrow> 's SimulatorFactory \<Rightarrow> 's Registry \<Rightarrow> 's Registry go" where
  "MustRegister name factory r =
     (case Registry_Register name factory r of (err, r) \<Rightarrow> if err then Inl ExplicitPanic else Inr r)"

text \<open>Both maps have the same names, and the description is the factory's.\<close>

definition registry_ok :: "'s Registry \<Rightarrow> bool" where
  "registry_ok r \<longleftrightarrow> go_wf (rg_factories r) \<and> go_wf (rg_modules r) \<and>
     (\<forall>n. go_get (rg_modules r) n = map_option fa_GetDescription (go_get (rg_factories r) n))"

lemma registry_ok_New: "registry_ok NewRegistry"
  by (simp add: registry_ok_def NewRegistry_def)

lemma registry_ok_Register: "registry_ok r \<Longrightarrow> registry_ok (snd (Registry_Register n f r))"
  by (auto simp: registry_ok_def Registry_Register_def split: option.splits)

lemma registry_ok_Unregister: "registry_ok r \<Longrightarrow> registry_ok (Registry_Unregister n r)"
  by (simp add: registry_ok_def Registry_Unregister_def)

text \<open>A sequence of registrations and cancellations.\<close>

datatype 's reg_op = Reg string "'s SimulatorFactory" | Unreg string

fun reg_ops :: "'s reg_op list \<Rightarrow> 's Registry \<Rightarrow> 's Registry" where
  "reg_ops [] r = r"
| "reg_ops (Reg n f # ops) r = reg_ops ops (snd (Registry_Register n f r))"
| "reg_ops (Unreg n # ops) r = reg_ops ops (Registry_Unregister n r)"

text \<open>The factory the sequence leaves under a name: the first one since the last cancellation.\<close>

fun last_factory :: "'s reg_op list \<Rightarrow> string \<Rightarrow> 's SimulatorFactory option \<Rightarrow> 's SimulatorFactory option" where
  "last_factory [] n cur = cur"
| "last_factory (Reg m f # ops) n cur = last_factory ops n (if m = n \<and> cur = None then Some f else cur)"
| "last_factory (Unreg m # ops) n cur = last_factory ops n (if m = n then None else cur)"

lemma reg_ops_facts:
  assumes "registry_ok r"
  shows "registry_ok (reg_ops ops r) \<and>
    go_get (rg_factories (reg_ops ops r)) n = last_factory ops n (go_get (rg_factories r) n)"
  using assms
proof (induction ops arbitrary: r)
  case (Cons op ops)
  show ?case
  proof (cases op)
    case (Reg m f)
    have "registry_ok (snd (Registry_Register m f r))" using Cons.prems by (rule registry_ok_Register)
    with Cons.IH show ?thesis
      by (auto simp: Reg Registry_Register_def split: option.splits)
  next
    case (Unreg m)
    have "registry_ok (Registry_Unregister m r)" using Cons.prems by (rule registry_ok_Unregister)
    with Cons.IH show ?thesis by (auto simp: Unreg Registry_Unregister_def)
  qed
qed simp

text \<open>After any sequence of registrations and cancellations on a new registry, looking a name
  up gives the factory first registered under it since its last cancellation, creating gives that
  factory's simulator, the description is that factory's, and listing shows one description for
  every registered name, in whatever order the map is met.\<close>

theorem Registry_lookup:
  "Registry_Get n (reg_ops ops NewRegistry) = last_factory ops n None \<and>
   Registry_Create n (reg_ops ops NewRegistry) = map_option fa_Create (last_factory ops n None) \<and>
   Registry_GetDescription n (reg_ops ops NewRegistry) = map_option fa_GetDescription (last_factory ops n None) \<and>
   (\<forall>order. map_order (rg_modules (reg_ops ops NewRegistry)) order \<longrightarrow>
      length (Registry_List order (reg_ops ops NewRegistry)) = Registry_Count (reg_ops ops NewRegistry) \<and>
      set (Registry_List order (reg_ops ops NewRegistry)) =
        {d. \<exists>m f. last_factory ops m None = Some f \<and> d = fa_GetDescription f})"
proof -
  let ?r = "reg_ops ops NewRegistry"
  have ok: "registry_ok ?r" and get: "go_get (rg_factories ?r) m = last_factory ops m None" for m
    using reg_ops_facts [OF registry_ok_New, of ops m] by (simp_all add: NewRegistry_def)
  have mods: "go_get (rg_modules ?r) m = map_option fa_GetDescription (last_factory ops m None)" for m
    using ok get by (simp add: registry_ok_def)
  have keys: "set (go_keys (rg_modules ?r)) = set (go_keys (rg_factories ?r))"
    using mods get by (auto simp: set_eq_iff) (metis go_get_None_iff map_option_is_None)+
  have "length (Registry_List order ?r) = Registry_Count ?r"
    if "map_order (rg_modules ?r) order" for order
  proof -
    have "\<forall>k \<in> set order. \<exists>d. go_get (rg_modules ?r) k = Some d"
      using that by (metis go_get_None_iff map_order_def not_Some_eq)
    then have "length (Registry_List order ?r) = length order"
      by (induction order) (auto simp: Registry_List_def ranged_def map_filter_def nil_get_def)
    also have "\<dots> = card (set (go_keys (rg_factories ?r)))"
      using that keys by (metis distinct_card map_order_def)
    also have "\<dots> = Registry_Count ?r"
      using ok by (simp add: Registry_Count_def registry_ok_def go_len_card)
    finally show ?thesis .
  qed
  then show ?thesis
    using get mods set_ranged [of "rg_modules ?r"]
    by (auto simp: Registry_Get_def Registry_Create_def Registry_GetDescription_def Registry_List_def
        split: option.split)
qed


definition demo_factory :: "nat SimulatorFactory" where
  "demo_factory = \<lparr>fa_Create = 7, fa_GetDescription = \<lparr>de_ID = ''raft'', de_Name = ''Raft'', de_Description = [],
     de_Category = ''consensus'', de_Type = ''process'', de_Capabilities = [], de_Params = [], de_Version = ''1.0.0''\<rparr>\<rparr>"

theorem Registry_lookup_witness:
  "Registry_Create ''raft'' (reg_ops [Reg ''raft'' demo_factory] NewRegistry) = Some 7 \<and>
   set (Registry_List [''raft''] (reg_ops [Reg ''raft'' demo_factory] NewRegistry)) = {fa_GetDescription demo_factory}"
proof -
  have "map_order (rg_modules (reg_ops [Reg ''raft'' demo_factory] NewRegistry)) [''raft'']"
    by (simp add: Registry_Register_def NewRegistry_def map_order_def go_keys_def go_put_def)
  then have "set (Registry_List [''raft''] (reg_ops [Reg ''raft'' demo_factory] NewRegistry)) =
      {d. \<exists>m f. last_factory [Reg ''raft'' demo_factory] m None = Some f \<and> d = fa_GetDescription f}"
    using Registry_lookup [of "''raft''" "[Reg ''raft'' demo_factory]"] by blast
  moreover have "Registry_Create ''raft'' (reg_ops [Reg ''raft'' demo_factory] NewRegistry) =
      map_option fa_Create (last_factory [Reg ''raft'' demo_factory] ''raft'' None)"
    using Registry_lookup [of "''raft''" "[Reg ''raft'' demo_factory]"] by blast
  ultimately show ?thesis by (auto simp: demo_factory_def)
qed

end
