(* ===== verification/BaseSim.thy ===== *)
theory BaseSim
  imports EngineSnapshot EngineTime
begin

section \<open>The base simulator: \<open>simulations/modules/base/simulator.go\<close>\<close>

text \<open>
  The simulator every module embeds.  A context is a number, \<open>0\<close> the nil context;
  \<open>bs_done\<close> holds those whose \<open>cancel\<close> was called.  The callback \<open>onTick\<close> is
  the module's: it is an argument of the operations that call it and works on the whole
  simulator; the code ignores its error.  A write to a nil map panics, which needs an imported
  state.  \<open>forder\<close> and \<open>aorder\<close> are the orders in which the faults and the
  attacks are met, \<open>uid\<close>, \<open>now\<close> and \<open>textlen\<close> as in the snapshot store.
  The loop of \<open>runLoop\<close> remembers the interval its ticker was armed with.
\<close>

subsection \<open>Faults and attacks: \<open>simulations/pkg/types/fault.go\<close>\<close>

record Fault =
  fl_ID :: string
  fl_Type :: string
  fl_Target :: NodeID
  fl_Params :: gdata
  fl_StartTick :: u64
  fl_Duration :: u64
  fl_Active :: bool

record Attack =
  ak_ID :: string
  ak_Type :: string
  ak_Target :: string
  ak_Params :: gdata
  ak_StartTick :: u64
  ak_Duration :: u64
  ak_Active :: bool

subsection \<open>The simulator\<close>

record BaseSimulator =
  bs_id :: string
  bs_name :: string
  bs_description :: string
  bs_category :: string
  bs_compType :: string
  bs_caps :: "string list"
  bs_params :: "(string, Param) gomap"
  bs_state :: State
  bs_events :: "Event list"
  bs_snapshots :: "(string, Snapshot) gomap"
  bs_faults :: "(string, Fault) gomap"
  bs_attacks :: "(string, Attack) gomap"
  bs_running :: bool
  bs_paused :: bool
  bs_speed :: f64
  bs_ctx :: nat
  bs_done :: "nat list"

definition defaultCapabilities :: "string \<Rightarrow> bool \<Rightarrow> string list" where
  "defaultCapabilities compType hasTick =
     (if compType = ''tool'' then [''param_panel'']
      else if compType = ''demo'' then [''param_panel'', ''state_monitor'']
      else if compType = ''process'' then
        [''param_panel'', ''state_monitor'', ''event_log'', ''snapshot''] @ (if hasTick then [''time_control''] else [])
      else if compType = ''attack'' then
        [''param_panel'', ''state_monitor'', ''event_log''] @ (if hasTick then [''time_control''] else [])
      else if compType = ''defi'' then [''param_panel'', ''state_monitor'', ''event_log'', ''snapshot'']
      else [''param_panel''])"

definition NewBaseSimulator ::
  "gtime \<Rightarrow> string \<Rightarrow> string \<Rightarrow> string \<Rightarrow> string \<Rightarrow> string \<Rightarrow> BaseSimulator" where
  "NewBaseSimulator now i name description category compType =
     \<lparr>bs_id = i, bs_name = name, bs_description = description, bs_category = category,
      bs_compType = compType, bs_caps = defaultCapabilities compType False, bs_params = [],
      bs_state = fresh_State now, bs_events = [], bs_snapshots = [], bs_faults = [], bs_attacks = [],
      bs_running = False, bs_paused = False, bs_speed = Fin 1, bs_ctx = 0, bs_done = []\<rparr>"

text \<open>The flag tells whether the callback is not nil.\<close>

definition SetOnTick :: "bool \<Rightarrow> BaseSimulator \<Rightarrow> BaseSimulator" where
  "SetOnTick hasTick s = s\<lparr>bs_caps := defaultCapabilities (bs_compType s) hasTick\<rparr>"

subsection \<open>What the simulator writes into the global data\<close>

definition put_global :: "string \<Rightarrow> gval \<Rightarrow> BaseSimulator \<Rightarrow> BaseSimulator go" where
  "put_global key value s =
     go_bind (nil_put key value (st_GlobalData (bs_state s))) (\<lambda>d.
       Inr (s\<lparr>bs_state := (bs_state s)\<lparr>st_GlobalData := d\<rparr>\<rparr>))"

fun put_globals :: "(string \<times> gval) list \<Rightarrow> BaseSimulator \<Rightarrow> BaseSimulator go" where
  "put_globals [] s = Inr s"
| "put_globals ((k, v) # kvs) s = go_bind (put_global k v s) (put_globals kvs)"

definition utf8 :: "nat list \<Rightarrow> string" where
  "utf8 = map char_of"

text \<open>
  The label of the kind, then the text of the summary: type so-and-so acts on target so-and-so.
\<close>

definition label_fault :: string where
  "label_fault = utf8 [230, 149, 133, 233, 154, 156, 232, 129, 148, 229, 138, 168]"

definition label_attack :: string where
  "label_attack = utf8 [230, 148, 187, 229, 135, 187, 232, 129, 148, 229, 138, 168]"

definition summary_text :: "nat list \<Rightarrow> string \<Rightarrow> string \<Rightarrow> string" where
  "summary_text kind ty target =
     utf8 kind @ utf8 [231, 177, 187, 229, 158, 139, 32] @ ty @
     utf8 [32, 229, 189, 147, 229, 137, 141, 228, 189, 156, 231, 148, 168, 228, 186, 142, 32] @ target @
     utf8 [227, 128, 130]"

text \<open>A \<open>DisturbanceSnapshot\<close>, as the fields its JSON form shows.\<close>

definition disturbance ::
  "string \<Rightarrow> string \<Rightarrow> string \<Rightarrow> string \<Rightarrow> string \<Rightarrow> string \<Rightarrow> gdata \<Rightarrow> u64 \<Rightarrow> gval" where
  "disturbance i kind ty target label summary params duration =
     GStruct ([(''id'', GStr i), (''kind'', GStr kind), (''type'', GStr ty), (''target'', GStr target),
       (''label'', GStr label), (''summary'', GStr summary)] @
       (if nil_entries params = [] then [] else [(''params'', GMap (nil_entries params))]) @
       (if duration = 0 then [] else [(''duration'', GInt (uint duration))]))"

definition fault_entry :: "Fault \<Rightarrow> gval" where
  "fault_entry f = disturbance (fl_ID f) ''fault'' (fl_Type f) (fl_Target f) label_fault
     (summary_text [230, 149, 133, 233, 154, 156] (fl_Type f) (fl_Target f)) (fl_Params f) (fl_Duration f)"

definition attack_entry :: "Attack \<Rightarrow> gval" where
  "attack_entry a = disturbance (ak_ID a) ''attack'' (ak_Type a) (ak_Target a) label_attack
     (summary_text [230, 148, 187, 229, 135, 187] (ak_Type a) (ak_Target a)) (ak_Params a) (ak_Duration a)"

definition active_faults :: "string list \<Rightarrow> BaseSimulator \<Rightarrow> Fault list" where
  "active_faults forder s = filter fl_Active (ranged (Some (bs_faults s)) forder)"

definition active_attacks :: "string list \<Rightarrow> BaseSimulator \<Rightarrow> Attack list" where
  "active_attacks aorder s = filter ak_Active (ranged (Some (bs_attacks s)) aorder)"

definition syncDisturbanceStateLocked ::
  "string list \<Rightarrow> string list \<Rightarrow> BaseSimulator \<Rightarrow> BaseSimulator go" where
  "syncDisturbanceStateLocked forder aorder s =
     (let activeFaults = map fault_entry (active_faults forder s);
          activeAttacks = map attack_entry (active_attacks aorder s)
      in put_globals [(''active_faults'', GList activeFaults), (''active_attacks'', GList activeAttacks),
           (''fault_count'', GInt (int (length activeFaults))),
           (''attack_overlay_count'', GInt (int (length activeAttacks)))] s)"

definition clearTeachingStateLocked :: "BaseSimulator \<Rightarrow> BaseSimulator go" where
  "clearTeachingStateLocked =
     put_globals [(''linked_effects'', GList []), (''linked_effect_count'', GInt 0), (''process_feedback'', GNil)]"

definition SetLinkedEffects :: "gval list \<Rightarrow> BaseSimulator \<Rightarrow> BaseSimulator go" where
  "SetLinkedEffects effects =
     put_globals [(''linked_effects'', GList effects), (''linked_effect_count'', GInt (int (length effects)))]"

definition SetProcessFeedback :: "gval \<Rightarrow> BaseSimulator \<Rightarrow> BaseSimulator go" where
  "SetProcessFeedback feedback = put_global ''process_feedback'' feedback"

definition ClearTeachingState :: "BaseSimulator \<Rightarrow> BaseSimulator go" where
  "ClearTeachingState = clearTeachingStateLocked"

subsection \<open>Life cycle\<close>

definition set_param_value :: "string \<times> gval \<Rightarrow> (string, Param) gomap \<Rightarrow> (string, Param) gomap" where
  "set_param_value kv params =
     (case go_get params (fst kv) of
        None \<Rightarrow> params
      | Some param \<Rightarrow> go_put (fst kv) (param\<lparr>pa_Value := snd kv\<rparr>) params)"

definition Base_Init :: "string list \<Rightarrow> string list \<Rightarrow> Config \<Rightarrow> BaseSimulator \<Rightarrow> BaseSimulator go" where
  "Base_Init forder aorder config s =
     (let s = s\<lparr>bs_params := fold set_param_value (cf_Params config) (bs_params s)\<rparr>
      in go_bind (syncDisturbanceStateLocked forder aorder s) clearTeachingStateLocked)"

definition set_status :: "string \<Rightarrow> BaseSimulator \<Rightarrow> BaseSimulator" where
  "set_status st s = s\<lparr>bs_state := (bs_state s)\<lparr>st_Status := st\<rparr>\<rparr>"

text \<open>The flag tells whether a goroutine for the loop is started.\<close>

definition Base_Start :: "BaseSimulator \<Rightarrow> bool \<times> BaseSimulator" where
  "Base_Start s =
     (if bs_running s then (False, s)
      else (True, set_status StatusRunning
              (s\<lparr>bs_ctx := bs_ctx s + 1, bs_running := True, bs_paused := False\<rparr>)))"

text \<open>\<open>time.Duration(float64(2500*time.Millisecond) / s.speed)\<close>\<close>

definition loop_interval :: "BaseSimulator \<Rightarrow> int" where
  "loop_interval s = scaled_interval (2500 * 1000000) (bs_speed s)"

text \<open>\<open>runLoop\<close> up to its loop: the interval the ticker is armed with.\<close>

definition runLoop_arm :: "BaseSimulator \<Rightarrow> int go" where
  "runLoop_arm s = go_bind (arm_ticker (loop_interval s)) (\<lambda>_. Inr (loop_interval s))"

text \<open>
  One turn of \<open>runLoop\<close> after the ticker fired: the tick, then the callback, outside the
  lock; then the ticker is armed again when the interval has changed.
\<close>

definition advance :: "gtime \<Rightarrow> BaseSimulator \<Rightarrow> u64 \<times> BaseSimulator" where
  "advance now s =
     (let tick = st_Tick (bs_state s) + 1
      in (tick, s\<lparr>bs_state := (bs_state s)\<lparr>st_Tick := tick, st_UpdatedAt := now\<rparr>\<rparr>))"

type_synonym tick_fn = "(u64 \<Rightarrow> BaseSimulator \<Rightarrow> BaseSimulator go) option"

definition call_tick :: "tick_fn \<Rightarrow> u64 \<times> BaseSimulator \<Rightarrow> BaseSimulator go" where
  "call_tick onTick p = (case onTick of None \<Rightarrow> Inr (snd p) | Some f \<Rightarrow> f (fst p) (snd p))"

definition runLoop_turn :: "tick_fn \<Rightarrow> gtime \<Rightarrow> int \<Rightarrow> BaseSimulator \<Rightarrow> (int \<times> BaseSimulator) go" where
  "runLoop_turn onTick now interval s =
     go_bind (if bs_paused s then Inr s else call_tick onTick (advance now s)) (\<lambda>s.
       if loop_interval s \<noteq> interval then go_bind (runLoop_arm s) (\<lambda>interval. Inr (interval, s))
       else Inr (interval, s))"

definition Base_Stop :: "BaseSimulator \<Rightarrow> BaseSimulator" where
  "Base_Stop s =
     (if \<not> bs_running s then s
      else
        let s = (if bs_ctx s \<noteq> 0 then s\<lparr>bs_done := bs_ctx s # bs_done s\<rparr> else s)
        in set_status StatusStopped (s\<lparr>bs_running := False\<rparr>))"

definition Base_Reset :: "gtime \<Rightarrow> BaseSimulator \<Rightarrow> BaseSimulator go" where
  "Base_Reset now s =
     go_bind (syncDisturbanceStateLocked [] []
        (s\<lparr>bs_state := fresh_State now, bs_events := [], bs_faults := [], bs_attacks := []\<rparr>))
       clearTeachingStateLocked"

definition Base_Pause :: "BaseSimulator \<Rightarrow> BaseSimulator" where
  "Base_Pause s = set_status StatusPaused (s\<lparr>bs_paused := True\<rparr>)"

definition Base_Resume :: "BaseSimulator \<Rightarrow> BaseSimulator" where
  "Base_Resume s = set_status StatusRunning (s\<lparr>bs_paused := False\<rparr>)"

definition Base_Step :: "tick_fn \<Rightarrow> gtime \<Rightarrow> BaseSimulator \<Rightarrow> (State \<times> BaseSimulator) go" where
  "Base_Step onTick now s =
     go_bind (call_tick onTick (advance now s)) (\<lambda>s. Inr (copyState (bs_state s), s))"

definition Base_SetSpeed :: "f64 \<Rightarrow> BaseSimulator \<Rightarrow> BaseSimulator" where
  "Base_SetSpeed multiplier s = s\<lparr>bs_speed := clamp_speed multiplier\<rparr>"

definition Base_Seek :: "gtime \<Rightarrow> u64 \<Rightarrow> BaseSimulator \<Rightarrow> BaseSimulator" where
  "Base_Seek now tick s = s\<lparr>bs_state := (bs_state s)\<lparr>st_Tick := tick, st_UpdatedAt := now\<rparr>\<rparr>"

definition Base_GetState :: "BaseSimulator \<Rightarrow> State" where
  "Base_GetState s = copyState (bs_state s)"

subsection \<open>Events\<close>

definition Base_GetEvents :: "u64 \<Rightarrow> BaseSimulator \<Rightarrow> Event list" where
  "Base_GetEvents since s = filter (\<lambda>e. since \<le> ev_Tick e) (bs_events s)"

definition EmitEvent ::
  "string \<Rightarrow> gtime \<Rightarrow> string \<Rightarrow> NodeID \<Rightarrow> NodeID \<Rightarrow> gdata \<Rightarrow> BaseSimulator \<Rightarrow> BaseSimulator" where
  "EmitEvent uid now eventType source target data s =
     (let event = \<lparr>ev_ID = uid, ev_Type = eventType, ev_Tick = st_Tick (bs_state s), ev_Timestamp = now,
            ev_Source = source, ev_Target = target, ev_Data = data\<rparr>;
          events = bs_events s @ [event]
      in if 10000 < length events then s\<lparr>bs_events := drop (length events - 10000) events\<rparr>
         else s\<lparr>bs_events := events\<rparr>)"

subsection \<open>State and snapshots\<close>

definition Base_ExportState :: "BaseSimulator \<Rightarrow> json option" where
  "Base_ExportState s = state_json (bs_state s)"

text \<open>The flag is the error.\<close>

definition Base_ImportState :: "json \<Rightarrow> BaseSimulator \<Rightarrow> bool \<times> BaseSimulator" where
  "Base_ImportState data s =
     (case json_state data of None \<Rightarrow> (True, s) | Some st \<Rightarrow> (False, s\<lparr>bs_state := st\<rparr>))"

definition Base_SaveSnapshot ::
  "string \<Rightarrow> gtime \<Rightarrow> (json \<Rightarrow> int) \<Rightarrow> string \<Rightarrow> BaseSimulator \<Rightarrow> bool \<times> BaseSimulator" where
  "Base_SaveSnapshot uid now textlen name s =
     (case state_json (bs_state s) of
        None \<Rightarrow> (True, s)
      | Some stateData \<Rightarrow>
          let info = \<lparr>si_ID = uid, si_Name = name, si_Tick = st_Tick (bs_state s), si_CreatedAt = now,
                      si_Size = textlen stateData\<rparr>
          in (False, s\<lparr>bs_snapshots := go_put uid \<lparr>sn_Info = info, sn_State = Some stateData\<rparr> (bs_snapshots s)\<rparr>))"

fun load_first :: "string \<Rightarrow> Snapshot list \<Rightarrow> BaseSimulator \<Rightarrow> bool \<times> BaseSimulator" where
  "load_first name [] s = (True, s)"
| "load_first name (snap # snaps) s =
     (if si_Name (sn_Info snap) = name then
        (case unmarshal_raw (sn_State snap) of
           None \<Rightarrow> (True, s)
         | Some st \<Rightarrow> (False, s\<lparr>bs_state := st\<rparr>))
      else load_first name snaps s)"

definition Base_LoadSnapshot :: "string list \<Rightarrow> string \<Rightarrow> BaseSimulator \<Rightarrow> bool \<times> BaseSimulator" where
  "Base_LoadSnapshot order name s = load_first name (ranged (Some (bs_snapshots s)) order) s"

definition Base_ListSnapshots :: "string list \<Rightarrow> BaseSimulator \<Rightarrow> SnapshotInfo list" where
  "Base_ListSnapshots order s = map sn_Info (ranged (Some (bs_snapshots s)) order)"

subsection \<open>Parameters\<close>

definition Base_GetParams :: "BaseSimulator \<Rightarrow> (string, Param) gomap" where
  "Base_GetParams s = bs_params s"

definition Base_SetParam :: "string \<Rightarrow> gval \<Rightarrow> BaseSimulator \<Rightarrow> bool \<times> BaseSimulator" where
  "Base_SetParam key value s =
     (case go_get (bs_params s) key of
        None \<Rightarrow> (True, s)
      | Some param \<Rightarrow> (False, s\<lparr>bs_params := go_put key (param\<lparr>pa_Value := value\<rparr>) (bs_params s)\<rparr>))"

definition AddParam :: "Param \<Rightarrow> BaseSimulator \<Rightarrow> BaseSimulator" where
  "AddParam param s = s\<lparr>bs_params := go_put (pa_Key param) param (bs_params s)\<rparr>"

subsection \<open>Faults and attacks\<close>

definition Base_InjectFault ::
  "string \<Rightarrow> string list \<Rightarrow> string list \<Rightarrow> Fault option \<Rightarrow> BaseSimulator \<Rightarrow> BaseSimulator go" where
  "Base_InjectFault uid forder aorder fault s =
     go_bind (go_deref fault) (\<lambda>f.
       let f = (if fl_ID f = [] then f\<lparr>fl_ID := uid\<rparr> else f);
           f = f\<lparr>fl_StartTick := st_Tick (bs_state s), fl_Active := True\<rparr>
       in syncDisturbanceStateLocked forder aorder (s\<lparr>bs_faults := go_put (fl_ID f) f (bs_faults s)\<rparr>))"

definition Base_RemoveFault ::
  "string list \<Rightarrow> string list \<Rightarrow> string \<Rightarrow> BaseSimulator \<Rightarrow> (bool \<times> BaseSimulator) go" where
  "Base_RemoveFault forder aorder faultID s =
     (case go_get (bs_faults s) faultID of
        None \<Rightarrow> Inr (True, s)
      | Some _ \<Rightarrow> go_bind (syncDisturbanceStateLocked forder aorder (s\<lparr>bs_faults := go_del faultID (bs_faults s)\<rparr>))
          (\<lambda>s. Inr (False, s)))"

definition Base_ClearFaults :: "string list \<Rightarrow> BaseSimulator \<Rightarrow> BaseSimulator go" where
  "Base_ClearFaults aorder s = syncDisturbanceStateLocked [] aorder (s\<lparr>bs_faults := []\<rparr>)"

definition GetActiveFaults :: "string list \<Rightarrow> BaseSimulator \<Rightarrow> Fault list" where
  "GetActiveFaults forder s = active_faults forder s"

definition Base_InjectAttack ::
  "string \<Rightarrow> string list \<Rightarrow> string list \<Rightarrow> Attack option \<Rightarrow> BaseSimulator \<Rightarrow> BaseSimulator go" where
  "Base_InjectAttack uid forder aorder attack s =
     go_bind (go_deref attack) (\<lambda>a.
       let a = (if ak_ID a = [] then a\<lparr>ak_ID := uid\<rparr> else a);
           a = a\<lparr>ak_StartTick := st_Tick (bs_state s), ak_Active := True\<rparr>
       in syncDisturbanceStateLocked forder aorder (s\<lparr>bs_attacks := go_put (ak_ID a) a (bs_attacks s)\<rparr>))"

definition Base_RemoveAttack ::
  "string list \<Rightarrow> string list \<Rightarrow> string \<Rightarrow> BaseSimulator \<Rightarrow> (bool \<times> BaseSimulator) go" where
  "Base_RemoveAttack forder aorder attackID s =
     (case go_get (bs_attacks s) attackID of
        None \<Rightarrow> Inr (True, s)
      | Some _ \<Rightarrow> go_bind (syncDisturbanceStateLocked forder aorder (s\<lparr>bs_attacks := go_del attackID (bs_attacks s)\<rparr>))
          (\<lambda>s. Inr (False, s)))"

definition Base_ClearAttacks :: "string list \<Rightarrow> BaseSimulator \<Rightarrow> BaseSimulator go" where
  "Base_ClearAttacks forder s = syncDisturbanceStateLocked forder [] (s\<lparr>bs_attacks := []\<rparr>)"

definition GetActiveAttacks :: "string list \<Rightarrow> BaseSimulator \<Rightarrow> Attack list" where
  "GetActiveAttacks aorder s = active_attacks aorder s"

subsection \<open>Description, nodes and global data\<close>

definition Base_GetType :: "BaseSimulator \<Rightarrow> string" where
  "Base_GetType s = bs_compType s"

definition Base_GetCapabilities :: "BaseSimulator \<Rightarrow> string list" where
  "Base_GetCapabilities s = bs_caps s"

definition Base_GetDescription :: "string list \<Rightarrow> BaseSimulator \<Rightarrow> Description" where
  "Base_GetDescription order s =
     \<lparr>de_ID = bs_id s, de_Name = bs_name s, de_Description = bs_description s, de_Category = bs_category s,
      de_Type = bs_compType s, de_Capabilities = bs_caps s, de_Params = ranged (Some (bs_params s)) order,
      de_Version = ''1.0.0''\<rparr>"

definition Base_SetNodeState :: "NodeID \<Rightarrow> NodeState option \<Rightarrow> BaseSimulator \<Rightarrow> BaseSimulator go" where
  "Base_SetNodeState nodeID state s =
     go_bind (nil_put nodeID state (st_Nodes (bs_state s))) (\<lambda>nodes.
       Inr (s\<lparr>bs_state := (bs_state s)\<lparr>st_Nodes := nodes\<rparr>\<rparr>))"

definition ClearNodeStates :: "BaseSimulator \<Rightarrow> BaseSimulator" where
  "ClearNodeStates s = s\<lparr>bs_state := (bs_state s)\<lparr>st_Nodes := Some []\<rparr>\<rparr>"

definition Base_GetNodeState :: "NodeID \<Rightarrow> BaseSimulator \<Rightarrow> NodeState option" where
  "Base_GetNodeState nodeID s = (case nil_get (st_Nodes (bs_state s)) nodeID of None \<Rightarrow> None | Some n \<Rightarrow> n)"

definition Base_SetGlobalData :: "string \<Rightarrow> gval \<Rightarrow> BaseSimulator \<Rightarrow> BaseSimulator go" where
  "Base_SetGlobalData key value = put_global key value"

definition Base_GetGlobalData :: "string \<Rightarrow> BaseSimulator \<Rightarrow> gval" where
  "Base_GetGlobalData key s = (case nil_get (st_GlobalData (bs_state s)) key of None \<Rightarrow> GNil | Some v \<Rightarrow> v)"

end
