(* ===== verification/EngineCore.thy ===== *)
theory EngineCore
  imports EngineEvent EngineTime EngineRegistry BaseSim
begin

section \<open>The engine: \<open>simulations/pkg/engine/engine.go\<close>\<close>

text \<open>
  The engine holds one active simulator, behind the interface \<open>Simulator\<close>: the record
  \<open>SimOps\<close> of the methods it calls, each with its error as a flag.  \<open>ExecuteAction\<close>
  is there only when the simulator handles actions.  What a method gets from its environment (the
  time, fresh identities, the order of a map) is fixed by whoever builds the record.  An engine
  operation returns the error, if any, and the engine; \<open>uid\<close> and \<open>now\<close> go to the
  event it publishes.  The goroutine that \<open>timeCtrl.Start\<close> spawns is the loop of
  \<open>EngineTime\<close>.  A panic of a goroutine ends the process: the ticker a loop arms at its start,
  and again after a change of the speed, is put at the call that starts it or sets the speed.
\<close>

record 's SimOps =
  so_Init :: "Config \<Rightarrow> 's \<Rightarrow> (bool \<times> 's) go"
  so_Start :: "'s \<Rightarrow> (bool \<times> 's) go"
  so_Stop :: "'s \<Rightarrow> (bool \<times> 's) go"
  so_Reset :: "'s \<Rightarrow> (bool \<times> 's) go"
  so_Pause :: "'s \<Rightarrow> (bool \<times> 's) go"
  so_Resume :: "'s \<Rightarrow> (bool \<times> 's) go"
  so_Step :: "'s \<Rightarrow> ((bool \<times> State option) \<times> 's) go"
  so_SetSpeed :: "f64 \<Rightarrow> 's \<Rightarrow> (bool \<times> 's) go"
  so_GetState :: "'s \<Rightarrow> State option"
  so_GetEvents :: "u64 \<Rightarrow> 's \<Rightarrow> Event list"
  so_ExportState :: "'s \<Rightarrow> json option"
  so_ImportState :: "json \<Rightarrow> 's \<Rightarrow> (bool \<times> 's) go"
  so_SaveSnapshot :: "string \<Rightarrow> 's \<Rightarrow> (bool \<times> 's) go"
  so_LoadSnapshot :: "string \<Rightarrow> 's \<Rightarrow> (bool \<times> 's) go"
  so_ListSnapshots :: "'s \<Rightarrow> SnapshotInfo list"
  so_GetParams :: "'s \<Rightarrow> (string, Param) gomap"
  so_SetParam :: "string \<Rightarrow> gval \<Rightarrow> 's \<Rightarrow> (bool \<times> 's) go"
  so_InjectFault :: "Fault option \<Rightarrow> 's \<Rightarrow> (bool \<times> 's) go"
  so_RemoveFault :: "string \<Rightarrow> 's \<Rightarrow> (bool \<times> 's) go"
  so_InjectAttack :: "Attack option \<Rightarrow> 's \<Rightarrow> (bool \<times> 's) go"
  so_RemoveAttack :: "string \<Rightarrow> 's \<Rightarrow> (bool \<times> 's) go"
  so_ClearFaults :: "'s \<Rightarrow> (bool \<times> 's) go"
  so_ClearAttacks :: "'s \<Rightarrow> (bool \<times> 's) go"
  so_ExecuteAction :: "(string \<Rightarrow> (string, gval) gomap \<Rightarrow> 's \<Rightarrow> (bool \<times> 's) go) option"
  so_GetDescription :: "'s \<Rightarrow> Description"

datatype engine_err =
    NoActive | SimulatorNotFound string | SimError | InitFailed | ExportFailed | ImportFailed
  | MarshalFailed | NoCustomActions | SnapshotNotFound string

record 's Engine =
  en_active :: "'s option"
  en_reg :: "'s Registry"
  en_eventBus :: EventBus
  en_timeCtrl :: TimeController
  en_stateStore :: StateStore
  en_snapStore :: SnapshotStore
  en_config :: Config
  en_status :: string

type_synonym 's engine_res = "(engine_err option \<times> 's Engine) go"

definition NewEngine :: "gtime \<Rightarrow> 's Engine" where
  "NewEngine now = \<lparr>en_active = None, en_reg = NewRegistry, en_eventBus = NewEventBus,
     en_timeCtrl = NewTimeController, en_stateStore = NewStateStore now, en_snapStore = NewSnapshotStore,
     en_config = (plain_config [] []), en_status = StatusIdle\<rparr>"

definition Engine_Register :: "string \<Rightarrow> 's SimulatorFactory \<Rightarrow> 's Engine \<Rightarrow> 's Engine" where
  "Engine_Register name factory e = e\<lparr>en_reg := snd (Registry_Register name factory (en_reg e))\<rparr>"

definition Engine_ListSimulators :: "string list \<Rightarrow> 's Engine \<Rightarrow> Description list" where
  "Engine_ListSimulators order e = Registry_List order (en_reg e)"

text \<open>\<open>e.eventBus.Publish(types.Event{...})\<close>\<close>

definition engine_event :: "string \<Rightarrow> u64 \<Rightarrow> gdata \<Rightarrow> Event" where
  "engine_event ty tick data = \<lparr>ev_ID = [], ev_Type = ty, ev_Tick = tick, ev_Timestamp = None,
     ev_Source = [], ev_Target = [], ev_Data = data\<rparr>"

definition publish :: "string \<Rightarrow> gtime \<Rightarrow> Event \<Rightarrow> 's Engine \<Rightarrow> 's engine_res" where
  "publish uid now ev e =
     go_bind (EventBus_Publish uid now ev (en_eventBus e)) (\<lambda>eb. Inr (None, e\<lparr>en_eventBus := eb\<rparr>))"

text \<open>The check for an active simulator, and a call of one of its methods.\<close>

definition with_active :: "'s Engine \<Rightarrow> ('s \<Rightarrow> 's engine_res) \<Rightarrow> 's engine_res" where
  "with_active e f = (case en_active e of None \<Rightarrow> Inr (Some NoActive, e) | Some s \<Rightarrow> f s)"

definition sim_call ::
  "(bool \<times> 's) go \<Rightarrow> engine_err \<Rightarrow> 's Engine \<Rightarrow> ('s Engine \<Rightarrow> 's engine_res) \<Rightarrow> 's engine_res" where
  "sim_call m err e k =
     go_bind m (\<lambda>(failed, s).
       let e = e\<lparr>en_active := Some s\<rparr> in if failed then Inr (Some err, e) else k e)"

definition done_ok :: "'s Engine \<Rightarrow> 's engine_res" where
  "done_ok e = Inr (None, e)"

definition Engine_Init :: "string \<Rightarrow> gtime \<Rightarrow> 's SimOps \<Rightarrow> Config \<Rightarrow> 's Engine \<Rightarrow> 's engine_res" where
  "Engine_Init uid now ops config e =
     (case Registry_Get (cf_Module config) (en_reg e) of
        None \<Rightarrow> Inr (Some (SimulatorNotFound (cf_Module config)), e)
      | Some factory \<Rightarrow>
          let e = e\<lparr>en_active := Some (fa_Create factory), en_config := config\<rparr>
          in sim_call (so_Init ops config (fa_Create factory)) InitFailed e (\<lambda>e.
               publish uid now (engine_event ''engine.initialized'' 0
                 (Some [(''module'', GStr (cf_Module config))])) (e\<lparr>en_status := StatusIdle\<rparr>)))"

text \<open>The ticker of the controller's loop.\<close>

definition arm_controller :: "bool \<Rightarrow> TimeController \<Rightarrow> TimeController go" where
  "arm_controller loop tc = (if loop then go_bind (arm_ticker (getActualInterval tc)) (\<lambda>_. Inr tc) else Inr tc)"

definition Engine_Start :: "string \<Rightarrow> gtime \<Rightarrow> 's SimOps \<Rightarrow> 's Engine \<Rightarrow> 's engine_res" where
  "Engine_Start uid now ops e =
     with_active e (\<lambda>s. sim_call (so_Start ops s) SimError e (\<lambda>e.
       let started = TimeController_Start (en_timeCtrl e)
       in go_bind (arm_controller (fst started) (snd started)) (\<lambda>tc.
            publish uid now (engine_event ''engine.started'' 0 None)
              (e\<lparr>en_status := StatusRunning, en_timeCtrl := tc\<rparr>))))"

text \<open>Stopping without a simulator is not an error.\<close>

definition Engine_Stop :: "string \<Rightarrow> gtime \<Rightarrow> 's SimOps \<Rightarrow> 's Engine \<Rightarrow> 's engine_res" where
  "Engine_Stop uid now ops e =
     (case en_active e of
        None \<Rightarrow> Inr (None, e)
      | Some s \<Rightarrow> sim_call (so_Stop ops s) SimError e (\<lambda>e.
          go_bind (TimeController_Stop (en_timeCtrl e)) (\<lambda>tc.
            publish uid now (engine_event ''engine.stopped'' 0 None)
              (e\<lparr>en_status := StatusStopped, en_timeCtrl := tc\<rparr>))))"

definition Engine_Pause :: "string \<Rightarrow> gtime \<Rightarrow> 's SimOps \<Rightarrow> 's Engine \<Rightarrow> 's engine_res" where
  "Engine_Pause uid now ops e =
     with_active e (\<lambda>s. sim_call (so_Pause ops s) SimError e (\<lambda>e.
       publish uid now (engine_event ''engine.paused'' 0 None)
         (e\<lparr>en_status := StatusPaused, en_timeCtrl := TimeController_Pause (en_timeCtrl e)\<rparr>)))"

definition Engine_Resume :: "string \<Rightarrow> gtime \<Rightarrow> 's SimOps \<Rightarrow> 's Engine \<Rightarrow> 's engine_res" where
  "Engine_Resume uid now ops e =
     with_active e (\<lambda>s. sim_call (so_Resume ops s) SimError e (\<lambda>e.
       publish uid now (engine_event ''engine.resumed'' 0 None)
         (e\<lparr>en_status := StatusRunning, en_timeCtrl := TimeController_Resume (en_timeCtrl e)\<rparr>)))"

definition Engine_Step ::
  "string \<Rightarrow> gtime \<Rightarrow> 's SimOps \<Rightarrow> 's Engine \<Rightarrow> (State option \<times> engine_err option \<times> 's Engine) go" where
  "Engine_Step uid now ops e =
     (case en_active e of
        None \<Rightarrow> Inr (None, Some NoActive, e)
      | Some s \<Rightarrow>
          go_bind (so_Step ops s) (\<lambda>((failed, state), s).
            let e = e\<lparr>en_active := Some s\<rparr>
            in if failed then Inr (None, Some SimError, e)
               else go_bind (TimeController_Step (en_timeCtrl e)) (\<lambda>tc.
                 go_bind (go_deref state) (\<lambda>st.
                   go_bind (publish uid now (engine_event ''engine.step'' (st_Tick st) None)
                       (e\<lparr>en_timeCtrl := tc\<rparr>)) (\<lambda>(err, e). Inr (state, err, e))))))"

definition Engine_Reset :: "string \<Rightarrow> gtime \<Rightarrow> 's SimOps \<Rightarrow> 's Engine \<Rightarrow> 's engine_res" where
  "Engine_Reset uid now ops e =
     with_active e (\<lambda>s. sim_call (so_Reset ops s) SimError e (\<lambda>e.
       publish uid now (engine_event ''engine.reset'' 0 None)
         (e\<lparr>en_status := StatusIdle, en_timeCtrl := TimeController_Reset (en_timeCtrl e)\<rparr>)))"

text \<open>
  The switch: export the state of the old simulator, stop it (its error is ignored), create and
  initialise the new one, import the state.  The parts follow the sections of the function.
\<close>

definition switch_save :: "'s SimOps \<Rightarrow> bool \<Rightarrow> 's Engine \<Rightarrow> json option option" where
  "switch_save ops preserveState e =
     (case en_active e of
        Some s \<Rightarrow> if preserveState then map_option Some (so_ExportState ops s) else Some None
      | None \<Rightarrow> Some None)"

definition switch_stop :: "'s SimOps \<Rightarrow> 's Engine \<Rightarrow> 's Engine go" where
  "switch_stop ops e =
     (case en_active e of
        None \<Rightarrow> Inr e
      | Some s \<Rightarrow> go_bind (so_Stop ops s) (\<lambda>(_, s). Inr (e\<lparr>en_active := Some s\<rparr>)))"

definition switch_restore ::
  "'s SimOps \<Rightarrow> json option \<Rightarrow> 's Engine \<Rightarrow> ('s Engine \<Rightarrow> 's engine_res) \<Rightarrow> 's engine_res" where
  "switch_restore ops saved e k =
     (case saved of
        None \<Rightarrow> k e
      | Some data \<Rightarrow> with_active e (\<lambda>s. sim_call (so_ImportState ops data s) ImportFailed e k))"

definition Engine_Switch ::
  "string \<Rightarrow> gtime \<Rightarrow> 's SimOps \<Rightarrow> string \<Rightarrow> bool \<Rightarrow> 's Engine \<Rightarrow> 's engine_res" where
  "Engine_Switch uid now ops moduleName preserveState e =
     (case switch_save ops preserveState e of
        None \<Rightarrow> Inr (Some ExportFailed, e)
      | Some savedState \<Rightarrow>
          go_bind (switch_stop ops e) (\<lambda>e.
            case Registry_Get moduleName (en_reg e) of
              None \<Rightarrow> Inr (Some (SimulatorNotFound moduleName), e)
            | Some factory \<Rightarrow>
                let e = e\<lparr>en_active := Some (fa_Create factory),
                          en_config := (en_config e)\<lparr>cf_Module := moduleName\<rparr>\<rparr>
                in sim_call (so_Init ops (en_config e) (fa_Create factory)) InitFailed e (\<lambda>e.
                     switch_restore ops savedState e (\<lambda>e.
                       publish uid now (engine_event ''engine.switched'' 0 (Some [(''module'', GStr moduleName)]))
                         (e\<lparr>en_status := StatusIdle\<rparr>)))))"

definition Engine_GetState :: "'s SimOps \<Rightarrow> 's Engine \<Rightarrow> State option" where
  "Engine_GetState ops e = (case en_active e of None \<Rightarrow> None | Some s \<Rightarrow> so_GetState ops s)"

definition Engine_GetEvents :: "'s SimOps \<Rightarrow> u64 \<Rightarrow> 's Engine \<Rightarrow> Event list" where
  "Engine_GetEvents ops since e = (case en_active e of None \<Rightarrow> [] | Some s \<Rightarrow> so_GetEvents ops since s)"

definition Engine_GetParams :: "'s SimOps \<Rightarrow> 's Engine \<Rightarrow> (string, Param) gomap option" where
  "Engine_GetParams ops e = (case en_active e of None \<Rightarrow> None | Some s \<Rightarrow> Some (so_GetParams ops s))"

definition Engine_SetParam :: "'s SimOps \<Rightarrow> string \<Rightarrow> gval \<Rightarrow> 's Engine \<Rightarrow> 's engine_res" where
  "Engine_SetParam ops key value e =
     with_active e (\<lambda>s. sim_call (so_SetParam ops key value s) SimError e done_ok)"

definition Engine_SetSpeed :: "'s SimOps \<Rightarrow> f64 \<Rightarrow> 's Engine \<Rightarrow> 's engine_res" where
  "Engine_SetSpeed ops multiplier e =
     with_active e (\<lambda>s.
       go_bind (arm_controller (tc_running (en_timeCtrl e)) (TimeController_SetSpeed multiplier (en_timeCtrl e))) (\<lambda>tc.
         sim_call (so_SetSpeed ops multiplier s) SimError (e\<lparr>en_timeCtrl := tc\<rparr>) done_ok))"

definition Engine_InjectFault :: "'s SimOps \<Rightarrow> Fault option \<Rightarrow> 's Engine \<Rightarrow> 's engine_res" where
  "Engine_InjectFault ops fault e =
     with_active e (\<lambda>s. sim_call (so_InjectFault ops fault s) SimError e done_ok)"

definition Engine_RemoveFault :: "'s SimOps \<Rightarrow> string \<Rightarrow> 's Engine \<Rightarrow> 's engine_res" where
  "Engine_RemoveFault ops faultID e =
     with_active e (\<lambda>s. sim_call (so_RemoveFault ops faultID s) SimError e done_ok)"

definition Engine_InjectAttack :: "'s SimOps \<Rightarrow> Attack option \<Rightarrow> 's Engine \<Rightarrow> 's engine_res" where
  "Engine_InjectAttack ops attack e =
     with_active e (\<lambda>s. sim_call (so_InjectAttack ops attack s) SimError e done_ok)"

definition Engine_RemoveAttack :: "'s SimOps \<Rightarrow> string \<Rightarrow> 's Engine \<Rightarrow> 's engine_res" where
  "Engine_RemoveAttack ops attackID e =
     with_active e (\<lambda>s. sim_call (so_RemoveAttack ops attackID s) SimError e done_ok)"

definition Engine_ExecuteAction ::
  "'s SimOps \<Rightarrow> string \<Rightarrow> (string, gval) gomap \<Rightarrow> 's Engine \<Rightarrow> 's engine_res" where
  "Engine_ExecuteAction ops action params e =
     with_active e (\<lambda>s.
       case so_ExecuteAction ops of
         None \<Rightarrow> Inr (Some NoCustomActions, e)
       | Some handler \<Rightarrow> sim_call (handler action params s) SimError e done_ok)"

definition Engine_SaveSnapshot :: "'s SimOps \<Rightarrow> string \<Rightarrow> 's Engine \<Rightarrow> 's engine_res" where
  "Engine_SaveSnapshot ops name e =
     with_active e (\<lambda>s. sim_call (so_SaveSnapshot ops name s) SimError e done_ok)"

definition Engine_LoadSnapshot :: "'s SimOps \<Rightarrow> string \<Rightarrow> 's Engine \<Rightarrow> 's engine_res" where
  "Engine_LoadSnapshot ops name e =
     with_active e (\<lambda>s. sim_call (so_LoadSnapshot ops name s) SimError e done_ok)"

definition Engine_ListSnapshots :: "'s SimOps \<Rightarrow> 's Engine \<Rightarrow> SnapshotInfo list" where
  "Engine_ListSnapshots ops e = (case en_active e of None \<Rightarrow> [] | Some s \<Rightarrow> so_ListSnapshots ops s)"

definition Engine_DeleteSnapshot :: "string \<Rightarrow> 's Engine \<Rightarrow> 's engine_res" where
  "Engine_DeleteSnapshot i e =
     (case SnapshotStore_Delete i (en_snapStore e) of
        (failed, ss) \<Rightarrow> Inr (if failed then Some (SnapshotNotFound i) else None, e\<lparr>en_snapStore := ss\<rparr>))"

definition Engine_ExportState :: "'s SimOps \<Rightarrow> 's Engine \<Rightarrow> engine_err + json" where
  "Engine_ExportState ops e =
     (case en_active e of
        None \<Rightarrow> Inl NoActive
      | Some s \<Rightarrow> (case so_ExportState ops s of None \<Rightarrow> Inl SimError | Some j \<Rightarrow> Inr j))"

definition Engine_ImportState :: "'s SimOps \<Rightarrow> gval \<Rightarrow> 's Engine \<Rightarrow> 's engine_res" where
  "Engine_ImportState ops data e =
     with_active e (\<lambda>s.
       case json_of data of
         None \<Rightarrow> Inr (Some MarshalFailed, e)
       | Some jsonData \<Rightarrow> sim_call (so_ImportState ops jsonData s) SimError e done_ok)"

definition Engine_ClearFaults :: "'s SimOps \<Rightarrow> 's Engine \<Rightarrow> 's engine_res" where
  "Engine_ClearFaults ops e = with_active e (\<lambda>s. sim_call (so_ClearFaults ops s) SimError e done_ok)"

definition Engine_ClearAttacks :: "'s SimOps \<Rightarrow> 's Engine \<Rightarrow> 's engine_res" where
  "Engine_ClearAttacks ops e = with_active e (\<lambda>s. sim_call (so_ClearAttacks ops s) SimError e done_ok)"

definition Engine_GetDescription :: "'s SimOps \<Rightarrow> 's Engine \<Rightarrow> Description option" where
  "Engine_GetDescription ops e = map_option (so_GetDescription ops) (en_active e)"

definition Engine_GetStatus :: "'s Engine \<Rightarrow> string" where
  "Engine_GetStatus e = en_status e"

subsection \<open>The base simulator as a \<open>Simulator\<close>\<close>

text \<open>What the environment answers during one call.\<close>

record Env =
  env_uid :: string
  env_now :: gtime
  env_len :: "json \<Rightarrow> int"
  env_forder :: "string list"
  env_aorder :: "string list"
  env_sorder :: "string list"
  env_porder :: "string list"
  env_onTick :: tick_fn

definition no_err :: "'s go \<Rightarrow> (bool \<times> 's) go" where
  "no_err m = go_bind m (\<lambda>s. Inr (False, s))"

text \<open>The ticker of the simulator's loop.\<close>

definition arm_sim :: "bool \<Rightarrow> BaseSimulator \<Rightarrow> BaseSimulator go" where
  "arm_sim loop s = (if loop then go_bind (runLoop_arm s) (\<lambda>_. Inr s) else Inr s)"

definition base_ops :: "Env \<Rightarrow> BaseSimulator SimOps" where
  "base_ops v = \<lparr>
     so_Init = (\<lambda>c s. no_err (Base_Init (env_forder v) (env_aorder v) c s)),
     so_Start = (\<lambda>s. no_err (let started = Base_Start s in arm_sim (fst started) (snd started))),
     so_Stop = (\<lambda>s. Inr (False, Base_Stop s)),
     so_Reset = (\<lambda>s. no_err (Base_Reset (env_now v) s)),
     so_Pause = (\<lambda>s. Inr (False, Base_Pause s)),
     so_Resume = (\<lambda>s. Inr (False, Base_Resume s)),
     so_Step = (\<lambda>s. go_bind (Base_Step (env_onTick v) (env_now v) s) (\<lambda>(st, s). Inr ((False, Some st), s))),
     so_SetSpeed = (\<lambda>x s. no_err (arm_sim (bs_running s) (Base_SetSpeed x s))),
     so_GetState = (\<lambda>s. Some (Base_GetState s)),
     so_GetEvents = Base_GetEvents,
     so_ExportState = Base_ExportState,
     so_ImportState = (\<lambda>j s. Inr (Base_ImportState j s)),
     so_SaveSnapshot = (\<lambda>n s. Inr (Base_SaveSnapshot (env_uid v) (env_now v) (env_len v) n s)),
     so_LoadSnapshot = (\<lambda>n s. Inr (Base_LoadSnapshot (env_sorder v) n s)),
     so_ListSnapshots = Base_ListSnapshots (env_sorder v),
     so_GetParams = Base_GetParams,
     so_SetParam = (\<lambda>k x s. Inr (Base_SetParam k x s)),
     so_InjectFault = (\<lambda>f s. no_err (Base_InjectFault (env_uid v) (env_forder v) (env_aorder v) f s)),
     so_RemoveFault = Base_RemoveFault (env_forder v) (env_aorder v),
     so_InjectAttack = (\<lambda>a s. no_err (Base_InjectAttack (env_uid v) (env_forder v) (env_aorder v) a s)),
     so_RemoveAttack = Base_RemoveAttack (env_forder v) (env_aorder v),
     so_ClearFaults = (\<lambda>s. no_err (Base_ClearFaults (env_aorder v) s)),
     so_ClearAttacks = (\<lambda>s. no_err (Base_ClearAttacks (env_forder v) s)),
     so_ExecuteAction = None,
     so_GetDescription = Base_GetDescription (env_porder v)\<rparr>"

end
