(* ===== verification/BaseSimFacts.thy ===== *)
theory BaseSimFacts
  imports BaseSim "HOL-Library.Multiset"
begin

section \<open>The base simulator: properties\<close>

text \<open>
  The steps of a simulator that keep its picture of the disturbances, the invariant they
  preserve, snapshots, events, and where the life cycle goes wrong.
\<close>

subsection \<open>Writing global data\<close>

lemma put_globals_Some:
  assumes "st_GlobalData (bs_state s) = Some d"
  shows "put_globals kvs s =
    Inr (s\<lparr>bs_state := (bs_state s)\<lparr>st_GlobalData := Some (fold (\<lambda>(k, v). go_put k v) kvs d)\<rparr>\<rparr>)"
  using assms
proof (induction kvs arbitrary: s d)
  case (Cons kv kvs)
  obtain k v where kv: "kv = (k, v)" by fastforce
  let ?s = "s\<lparr>bs_state := (bs_state s)\<lparr>st_GlobalData := Some (go_put k v d)\<rparr>\<rparr>"
  have "put_global k v s = Inr ?s" using Cons.prems by (simp add: put_global_def nil_put_def)
  then show ?case using Cons.IH [of ?s "go_put k v d"] kv by simp
qed simp

lemma put_globals_None: "st_GlobalData (bs_state s) = None \<Longrightarrow> kvs \<noteq> [] \<Longrightarrow> put_globals kvs s = Inl NilMapWrite"
  by (cases kvs) (auto simp: put_global_def nil_put_def)

text \<open>A write of global data changes nothing else.\<close>

lemma put_globals_frame:
  assumes "put_globals kvs s = Inr s'"
  shows "\<exists>g. s' = s\<lparr>bs_state := (bs_state s)\<lparr>st_GlobalData := g\<rparr>\<rparr> \<and>
    (\<forall>k. nil_get g k = (case map_of (rev kvs) k of None \<Rightarrow> nil_get (st_GlobalData (bs_state s)) k | Some v \<Rightarrow> Some v)) \<and>
    (st_GlobalData (bs_state s) \<noteq> None \<longrightarrow> g \<noteq> None)"
proof (cases "st_GlobalData (bs_state s)")
  case None
  with assms have "kvs = []" using put_globals_None by (metis Inr_not_Inl)
  moreover have "s\<lparr>bs_state := (bs_state s)\<lparr>st_GlobalData := None\<rparr>\<rparr> = s"
    using None by (intro BaseSimulator.equality State.equality) simp_all
  moreover have "s' = s" using assms calculation(1) by simp
  ultimately show ?thesis using None by (intro exI [of _ None]) simp
next
  case (Some d)
  have "go_get (fold (\<lambda>(k, v). go_put k v) kvs d) k =
      (case map_of (rev kvs) k of None \<Rightarrow> go_get d k | Some v \<Rightarrow> Some v)" for k
    by (induction kvs arbitrary: d) (auto split: option.splits simp: map_add_def)
  then show ?thesis
    using assms by (auto simp: put_globals_Some [OF Some] Some nil_get_def split: option.splits)
qed

lemma put_globals_single: "put_globals [kv] s = put_global (fst kv) (snd kv) s"
  by (cases kv; cases "put_global (fst kv) (snd kv) s") simp_all

declare put_globals.simps [simp del]

subsection \<open>The disturbances shown are the ones in force\<close>

text \<open>The four entries the code derives from the two maps.\<close>

definition displays :: "Fault list \<Rightarrow> Attack list \<Rightarrow> BaseSimulator \<Rightarrow> bool" where
  "displays fs as s \<longleftrightarrow>
     Base_GetGlobalData ''active_faults'' s = GList (map fault_entry fs) \<and>
     Base_GetGlobalData ''active_attacks'' s = GList (map attack_entry as) \<and>
     Base_GetGlobalData ''fault_count'' s = GInt (int (length fs)) \<and>
     Base_GetGlobalData ''attack_overlay_count'' s = GInt (int (length as))"

abbreviation derived_keys :: "string set" where
  "derived_keys \<equiv> {''active_faults'', ''active_attacks'', ''fault_count'', ''attack_overlay_count''}"

definition base_ok :: "BaseSimulator \<Rightarrow> bool" where
  "base_ok s \<longleftrightarrow> st_GlobalData (bs_state s) \<noteq> None \<and> st_Nodes (bs_state s) \<noteq> None \<and>
     go_wf (bs_faults s) \<and> go_wf (bs_attacks s) \<and>
     (\<exists>fo ao. map_order (bs_faults s) fo \<and> map_order (bs_attacks s) ao \<and>
        displays (active_faults fo s) (active_attacks ao s) s)"

lemma sync_result:
  assumes "st_GlobalData (bs_state s) \<noteq> None"
  obtains g where "syncDisturbanceStateLocked fo ao s = Inr (s\<lparr>bs_state := (bs_state s)\<lparr>st_GlobalData := g\<rparr>\<rparr>)"
    and "g \<noteq> None"
    and "displays (active_faults fo s) (active_attacks ao s) (s\<lparr>bs_state := (bs_state s)\<lparr>st_GlobalData := g\<rparr>\<rparr>)"
proof -
  obtain d where d: "st_GlobalData (bs_state s) = Some d" using assms by auto
  show thesis
    by (rule that [of "Some (fold (\<lambda>(k, v). go_put k v)
        [(''active_faults'', GList (map fault_entry (active_faults fo s))),
         (''active_attacks'', GList (map attack_entry (active_attacks ao s))),
         (''fault_count'', GInt (int (length (active_faults fo s)))),
         (''attack_overlay_count'', GInt (int (length (active_attacks ao s))))] d)"])
      (simp_all add: syncDisturbanceStateLocked_def Let_def put_globals_Some [OF d] displays_def
        Base_GetGlobalData_def nil_get_def)
qed

lemma active_upd [simp]:
  "active_faults fo (s\<lparr>bs_state := x\<rparr>) = active_faults fo s"
  "active_attacks ao (s\<lparr>bs_state := x\<rparr>) = active_attacks ao s"
  by (simp_all add: active_faults_def active_attacks_def)

text \<open>Synchronising establishes the invariant from its first part.\<close>

lemma sync_ok:
  assumes "syncDisturbanceStateLocked fo ao s = Inr s'"
    and "st_GlobalData (bs_state s) \<noteq> None" and "st_Nodes (bs_state s) \<noteq> None"
    and "go_wf (bs_faults s)" and "go_wf (bs_attacks s)"
    and "map_order (bs_faults s') fo" and "map_order (bs_attacks s') ao"
  shows "base_ok s'"
proof -
  obtain g where "s' = s\<lparr>bs_state := (bs_state s)\<lparr>st_GlobalData := g\<rparr>\<rparr>" "g \<noteq> None"
    "displays (active_faults fo s) (active_attacks ao s) s'"
    using sync_result [OF assms(2), of fo ao] assms(1) by (metis Inr_inject)
  with assms(3-7) show ?thesis by (auto simp: base_ok_def)
qed

lemma InjectFault_runs:
  assumes "st_GlobalData (bs_state s) \<noteq> None"
  shows "\<exists>s'. Base_InjectFault uid fo ao (Some f) s = Inr s'"
proof -
  have "\<exists>s'. syncDisturbanceStateLocked fo ao (s\<lparr>bs_faults := m\<rparr>) = Inr s'" for m
    by (rule sync_result [of "s\<lparr>bs_faults := m\<rparr>" fo ao]) (use assms in simp, blast)
  then show ?thesis by (simp add: Base_InjectFault_def Let_def)
qed

text \<open>An update that leaves the maps and the derived entries alone keeps the invariant.\<close>

lemma base_ok_frame:
  assumes "base_ok s"
    and "bs_faults s' = bs_faults s" and "bs_attacks s' = bs_attacks s"
    and "st_GlobalData (bs_state s') \<noteq> None" and "st_Nodes (bs_state s') \<noteq> None"
    and "\<And>k. k \<in> derived_keys \<Longrightarrow>
      nil_get (st_GlobalData (bs_state s')) k = nil_get (st_GlobalData (bs_state s)) k"
  shows "base_ok s'"
proof -
  have "active_faults fo s' = active_faults fo s" "active_attacks ao s' = active_attacks ao s" for fo ao
    using assms(2,3) by (simp_all add: active_faults_def active_attacks_def)
  moreover have "displays fs as s' = displays fs as s" for fs as
    using assms(6) by (simp add: displays_def Base_GetGlobalData_def)
  ultimately show ?thesis using assms(1-5) by (simp add: base_ok_def)
qed

lemma put_globals_ok:
  assumes "put_globals kvs s = Inr s'" and "base_ok s" and "derived_keys \<inter> set (map fst kvs) = {}"
  shows "base_ok s'"
proof -
  obtain g where g: "s' = s\<lparr>bs_state := (bs_state s)\<lparr>st_GlobalData := g\<rparr>\<rparr>"
    "\<forall>k. nil_get g k = (case map_of (rev kvs) k of None \<Rightarrow> nil_get (st_GlobalData (bs_state s)) k | Some v \<Rightarrow> Some v)"
    "st_GlobalData (bs_state s) \<noteq> None \<longrightarrow> g \<noteq> None"
    using put_globals_frame [OF assms(1)] by blast
  have "map_of (rev kvs) k = None" if "k \<in> derived_keys" for k
    using that assms(3) by (simp only: map_of_eq_None_iff set_rev rev_map [symmetric] set_map) blast
  with g assms(2) show ?thesis
    by (intro base_ok_frame [OF assms(2)]) (auto simp: base_ok_def)
qed

inductive base_step :: "BaseSimulator \<Rightarrow> BaseSimulator \<Rightarrow> bool" where
  inject_fault: "Base_InjectFault uid fo ao (Some f) s = Inr s' \<Longrightarrow>
     map_order (bs_faults s') fo \<Longrightarrow> map_order (bs_attacks s') ao \<Longrightarrow> base_step s s'"
| remove_fault: "Base_RemoveFault fo ao i s = Inr (e, s') \<Longrightarrow>
     map_order (bs_faults s') fo \<Longrightarrow> map_order (bs_attacks s') ao \<Longrightarrow> base_step s s'"
| clear_faults: "Base_ClearFaults ao s = Inr s' \<Longrightarrow> map_order (bs_attacks s') ao \<Longrightarrow> base_step s s'"
| inject_attack: "Base_InjectAttack uid fo ao (Some a) s = Inr s' \<Longrightarrow>
     map_order (bs_faults s') fo \<Longrightarrow> map_order (bs_attacks s') ao \<Longrightarrow> base_step s s'"
| remove_attack: "Base_RemoveAttack fo ao i s = Inr (e, s') \<Longrightarrow>
     map_order (bs_faults s') fo \<Longrightarrow> map_order (bs_attacks s') ao \<Longrightarrow> base_step s s'"
| clear_attacks: "Base_ClearAttacks fo s = Inr s' \<Longrightarrow> map_order (bs_faults s') fo \<Longrightarrow> base_step s s'"
| reset: "Base_Reset now s = Inr s' \<Longrightarrow> base_step s s'"
| init: "Base_Init fo ao cfg s = Inr s' \<Longrightarrow>
     map_order (bs_faults s') fo \<Longrightarrow> map_order (bs_attacks s') ao \<Longrightarrow> base_step s s'"
| start: "base_step s (snd (Base_Start s))"
| stop: "base_step s (Base_Stop s)"
| pause: "base_step s (Base_Pause s)"
| resume: "base_step s (Base_Resume s)"
| step: "Base_Step None now s = Inr (st, s') \<Longrightarrow> base_step s s'"
| tick: "runLoop_turn None now interval s = Inr (interval', s') \<Longrightarrow> base_step s s'"
| seek: "base_step s (Base_Seek now t s)"
| speed: "base_step s (Base_SetSpeed x s)"
| emit: "base_step s (EmitEvent uid now ty src tgt data s)"
| save: "base_step s (snd (Base_SaveSnapshot uid now len n s))"
| set_param: "base_step s (snd (Base_SetParam k v s))"
| add_param: "base_step s (AddParam p s)"
| set_node: "Base_SetNodeState i n s = Inr s' \<Longrightarrow> base_step s s'"
| clear_nodes: "base_step s (ClearNodeStates s)"
| set_global: "Base_SetGlobalData k v s = Inr s' \<Longrightarrow> k \<notin> derived_keys \<Longrightarrow> base_step s s'"
| effects: "SetLinkedEffects es s = Inr s' \<Longrightarrow> base_step s s'"
| feedback: "SetProcessFeedback v s = Inr s' \<Longrightarrow> base_step s s'"
| teaching: "ClearTeachingState s = Inr s' \<Longrightarrow> base_step s s'"

lemma sync_frame:
  assumes "syncDisturbanceStateLocked fo ao s = Inr s'"
  shows "bs_faults s' = bs_faults s \<and> bs_attacks s' = bs_attacks s \<and> st_Nodes (bs_state s') = st_Nodes (bs_state s)"
  using put_globals_frame assms unfolding syncDisturbanceStateLocked_def Let_def by fastforce

lemma map_order_Nil [simp]: "map_order [] ks \<longleftrightarrow> ks = []"
  by (auto simp: map_order_def go_keys_def)

lemma clear_ok: "clearTeachingStateLocked s = Inr s' \<Longrightarrow> base_ok s \<Longrightarrow> base_ok s'"
  unfolding clearTeachingStateLocked_def by (rule put_globals_ok) auto

lemma clear_frame: "clearTeachingStateLocked s = Inr s' \<Longrightarrow> bs_faults s' = bs_faults s \<and> bs_attacks s' = bs_attacks s"
  using put_globals_frame unfolding clearTeachingStateLocked_def by fastforce

lemma base_ok_simple:
  assumes "base_ok s"
  shows "base_ok (snd (Base_Start s))" "base_ok (Base_Stop s)" "base_ok (Base_Pause s)"
    "base_ok (Base_Resume s)" "base_ok (Base_Seek now t s)" "base_ok (Base_SetSpeed x s)"
    "base_ok (EmitEvent uid now ty src tgt data s)" "base_ok (snd (Base_SaveSnapshot uid now len n s))"
    "base_ok (snd (Base_SetParam k v s))" "base_ok (AddParam p s)" "base_ok (ClearNodeStates s)"
  by (rule base_ok_frame [OF assms]; use assms in \<open>auto simp: base_ok_def Base_Start_def set_status_def
      Base_Stop_def Base_Pause_def Base_Resume_def Base_Seek_def Base_SetSpeed_def EmitEvent_def
      Base_SaveSnapshot_def Base_SetParam_def AddParam_def ClearNodeStates_def Let_def split: option.splits\<close>)+

lemma base_ok_step: "base_step s s' \<Longrightarrow> base_ok s \<Longrightarrow> base_ok s'"
proof (induction rule: base_step.induct)
  case (inject_fault uid fo ao f s s')
  from inject_fault.hyps(1) show ?case
    by (auto simp: Base_InjectFault_def Let_def intro!: sync_ok [OF _ _ _ _ _ inject_fault.hyps(2,3)])
      (use inject_fault.prems in \<open>simp_all add: base_ok_def\<close>)
next
  case (remove_fault fo ao i s e s')
  show ?case
  proof (cases "go_get (bs_faults s) i")
    case None
    with remove_fault show ?thesis by (simp add: Base_RemoveFault_def)
  next
    case (Some f)
    with remove_fault.hyps(1) have "syncDisturbanceStateLocked fo ao (s\<lparr>bs_faults := go_del i (bs_faults s)\<rparr>) = Inr s'"
      by (auto simp: Base_RemoveFault_def go_bind_eq_Inr)
    then show ?thesis
      by (rule sync_ok) (use remove_fault in \<open>simp_all add: base_ok_def\<close>)
  qed
next
  case (clear_faults ao s s')
  then have sync: "syncDisturbanceStateLocked [] ao (s\<lparr>bs_faults := []\<rparr>) = Inr s'"
    by (simp add: Base_ClearFaults_def)
  show ?case
    by (rule sync_ok [OF sync]) (use clear_faults sync_frame [OF sync] in \<open>simp_all add: base_ok_def\<close>)
next
  case (inject_attack uid fo ao a s s')
  from inject_attack.hyps(1) show ?case
    by (auto simp: Base_InjectAttack_def Let_def intro!: sync_ok [OF _ _ _ _ _ inject_attack.hyps(2,3)])
      (use inject_attack.prems in \<open>simp_all add: base_ok_def\<close>)
next
  case (remove_attack fo ao i s e s')
  show ?case
  proof (cases "go_get (bs_attacks s) i")
    case None
    with remove_attack show ?thesis by (simp add: Base_RemoveAttack_def)
  next
    case (Some f)
    with remove_attack.hyps(1) have "syncDisturbanceStateLocked fo ao (s\<lparr>bs_attacks := go_del i (bs_attacks s)\<rparr>) = Inr s'"
      by (auto simp: Base_RemoveAttack_def go_bind_eq_Inr)
    then show ?thesis
      by (rule sync_ok) (use remove_attack in \<open>simp_all add: base_ok_def\<close>)
  qed
next
  case (clear_attacks fo s s')
  then have sync: "syncDisturbanceStateLocked fo [] (s\<lparr>bs_attacks := []\<rparr>) = Inr s'"
    by (simp add: Base_ClearAttacks_def)
  show ?case
    by (rule sync_ok [OF sync]) (use clear_attacks sync_frame [OF sync] in \<open>simp_all add: base_ok_def\<close>)
next
  case (reset now s s')
  then obtain s1 where s1: "syncDisturbanceStateLocked [] []
      (s\<lparr>bs_state := fresh_State now, bs_events := [], bs_faults := [], bs_attacks := []\<rparr>) = Inr s1"
    "clearTeachingStateLocked s1 = Inr s'"
    by (auto simp: Base_Reset_def go_bind_eq_Inr)
  have "base_ok s1"
    by (rule sync_ok [OF s1(1)]) (use sync_frame [OF s1(1)] in \<open>simp_all add: fresh_State_def\<close>)
  with s1(2) show ?case by (rule clear_ok)
next
  case (init fo ao cfg s s')
  then obtain s1 where s1: "syncDisturbanceStateLocked fo ao
      (s\<lparr>bs_params := fold set_param_value (cf_Params cfg) (bs_params s)\<rparr>) = Inr s1"
    "clearTeachingStateLocked s1 = Inr s'"
    by (auto simp: Base_Init_def Let_def go_bind_eq_Inr)
  have "base_ok s1"
    by (rule sync_ok [OF s1(1)])
      (use init.prems init.hyps(2,3) clear_frame [OF s1(2)] in \<open>simp_all add: base_ok_def\<close>)
  with s1(2) show ?case by (rule clear_ok)
next
  case (set_global k v s s')
  then have "put_globals [(k, v)] s = Inr s'" by (simp add: Base_SetGlobalData_def put_globals_single)
  then show ?case by (rule put_globals_ok) (use set_global in auto)
next
  case (effects es s s')
  then show ?case unfolding SetLinkedEffects_def by (auto intro: put_globals_ok)
next
  case (feedback v s s')
  then have "put_globals [(''process_feedback'', v)] s = Inr s'" by (simp add: SetProcessFeedback_def put_globals_single)
  then show ?case by (rule put_globals_ok) (use feedback in auto)
next
  case (teaching s s')
  then show ?case unfolding ClearTeachingState_def by (blast intro: clear_ok)
next
  case (set_node i n s s')
  then show ?case
    by (auto simp: Base_SetNodeState_def go_bind_eq_Inr nil_put_def split: option.splits
        intro!: base_ok_frame [OF set_node.prems]) (auto simp: base_ok_def)
next
  case (step now s st s')
  then show ?case
    by (intro base_ok_frame [OF step.prems]) (auto simp: Base_Step_def call_tick_def advance_def Let_def base_ok_def)
next
  case (tick now interval s interval' s')
  then show ?case
    by (intro base_ok_frame [OF tick.prems])
      (auto simp: runLoop_turn_def call_tick_def advance_def Let_def base_ok_def go_bind_eq_Inr split: if_splits)
qed (simp_all only: base_ok_simple)

lemma Init_runs:
  assumes "st_GlobalData (bs_state s) \<noteq> None"
  shows "\<exists>s'. Base_Init fo ao cfg s = Inr s'"
proof -
  let ?s = "s\<lparr>bs_params := fold set_param_value (cf_Params cfg) (bs_params s)\<rparr>"
  obtain g where g: "syncDisturbanceStateLocked fo ao ?s = Inr (?s\<lparr>bs_state := (bs_state ?s)\<lparr>st_GlobalData := g\<rparr>\<rparr>)" "g \<noteq> None"
    using sync_result [of ?s fo ao] assms by auto
  then obtain d where "st_GlobalData (bs_state (?s\<lparr>bs_state := (bs_state ?s)\<lparr>st_GlobalData := g\<rparr>\<rparr>)) = Some d" by auto
  from put_globals_Some [OF this] g(1) show ?thesis
    by (simp add: Base_Init_def Let_def clearTeachingStateLocked_def)
qed

lemma base_ok_New: "Base_Init [] [] cfg (NewBaseSimulator now i n d c t) = Inr s \<Longrightarrow> base_ok s"
proof -
  assume "Base_Init [] [] cfg (NewBaseSimulator now i n d c t) = Inr s"
  then obtain s1 where s1: "syncDisturbanceStateLocked [] [] ((NewBaseSimulator now i n d c t)
      \<lparr>bs_params := fold set_param_value (cf_Params cfg) (bs_params (NewBaseSimulator now i n d c t))\<rparr>) = Inr s1"
    "clearTeachingStateLocked s1 = Inr s"
    by (auto simp: Base_Init_def Let_def go_bind_eq_Inr)
  have "base_ok s1"
    by (rule sync_ok [OF s1(1)])
      (use sync_frame [OF s1(1)] in \<open>simp_all add: NewBaseSimulator_def fresh_State_def\<close>)
  with s1(2) show "base_ok s" by (rule clear_ok)
qed

definition base_init :: "BaseSimulator \<Rightarrow> bool" where
  "base_init s \<longleftrightarrow> (\<exists>cfg now i n d c t. Base_Init [] [] cfg (NewBaseSimulator now i n d c t) = Inr s)"

interpretation base: step_system base_init base_step base_ok
  by unfold_locales (auto simp: base_init_def intro: base_ok_New base_ok_step)

lemma map_order_perm:
  assumes "map_order m a" and "map_order m b"
  shows "mset a = mset b"
  using assms by (metis map_order_def set_eq_iff_mset_eq_distinct)

lemma length_ranged_perm:
  assumes "mset a = mset b"
  shows "length (filter P (ranged m a)) = length (filter P (ranged m b))"
proof -
  have "mset (map f (filter Q a)) = mset (map f (filter Q b))" for f :: "'a \<Rightarrow> 'b" and Q
    using assms by (metis mset_filter mset_map)
  then have "mset (ranged m a) = mset (ranged m b)" by (simp add: ranged_def map_filter_def)
  then show ?thesis by (metis mset_filter size_mset)
qed


definition demo_fault :: Fault where
  "demo_fault = \<lparr>fl_ID = ''f1'', fl_Type = ''crash'', fl_Target = ''n1'', fl_Params = None, fl_StartTick = 0,
     fl_Duration = 5, fl_Active = False\<rparr>"

definition demo_base :: BaseSimulator where
  "demo_base = NewBaseSimulator None ''raft'' ''Raft'' [] ''consensus'' ''process''"



subsection \<open>Snapshots\<close>

lemma load_first_unique:
  assumes "sn \<in> set sns" and "si_Name (sn_Info sn) = n" and "\<forall>x \<in> set sns. si_Name (sn_Info x) = n \<longrightarrow> x = sn"
    and "unmarshal_raw (sn_State sn) = Some st"
  shows "load_first n sns s = (False, s\<lparr>bs_state := st\<rparr>)"
  using assms(1,3)
proof (induction sns)
  case (Cons x sns)
  show ?case
  proof (cases "si_Name (sn_Info x) = n")
    case True
    with Cons.prems(2) assms(4) show ?thesis by auto
  next
    case False
    with Cons assms(2) show ?thesis by auto
  qed
qed simp

text \<open>A snapshot saved under a name no other one has restores the state it was taken of,
  whatever happened to the simulator in between, as long as its snapshots were left alone: the
  state comes back with its dynamic values in JSON form, and nothing else of the simulator
  changes.\<close>

theorem Base_snapshot_restore:
  assumes "state_json (bs_state s) = Some j"
    and "\<forall>k sn. go_get (bs_snapshots s) k = Some sn \<longrightarrow> si_Name (sn_Info sn) \<noteq> n"
    and "bs_snapshots s' = bs_snapshots (snd (Base_SaveSnapshot uid now len n s))"
    and "map_order (bs_snapshots s') order"
  shows "Base_LoadSnapshot order n s' = (False, s'\<lparr>bs_state := normal_state (bs_state s)\<rparr>)"
proof -
  let ?sn = "\<lparr>sn_Info = \<lparr>si_ID = uid, si_Name = n, si_Tick = st_Tick (bs_state s), si_CreatedAt = now,
      si_Size = len j\<rparr>, sn_State = Some j\<rparr>"
  have m: "bs_snapshots s' = go_put uid ?sn (bs_snapshots s)"
    using assms(1,3) by (simp add: Base_SaveSnapshot_def Let_def)
  have r: "set (ranged (Some (bs_snapshots s')) order) =
      {v. \<exists>k. go_get (go_put uid ?sn (bs_snapshots s)) k = Some v}"
    using set_ranged [OF assms(4)] unfolding m .
  have "load_first n (ranged (Some (bs_snapshots s')) order) s' = (False, s'\<lparr>bs_state := normal_state (bs_state s)\<rparr>)"
  proof (rule load_first_unique [of ?sn])
    show "?sn \<in> set (ranged (Some (bs_snapshots s')) order)" unfolding r by (auto intro: exI [of _ uid])
    show "\<forall>x \<in> set (ranged (Some (bs_snapshots s')) order). si_Name (sn_Info x) = n \<longrightarrow> x = ?sn"
      unfolding r using assms(2) by (auto split: if_splits)
    show "unmarshal_raw (sn_State ?sn) = Some (normal_state (bs_state s))"
      using json_state_json [OF assms(1)] by (simp add: unmarshal_raw_def)
  qed simp
  then show ?thesis by (simp add: Base_LoadSnapshot_def)
qed

theorem Base_snapshot_restore_witness:
  "snd (Base_LoadSnapshot [''u''] ''a''
      (Base_Seek None 9 (snd (Base_SaveSnapshot ''u'' None (\<lambda>_. 0) ''a'' demo_base)))) =
   (Base_Seek None 9 (snd (Base_SaveSnapshot ''u'' None (\<lambda>_. 0) ''a'' demo_base)))
      \<lparr>bs_state := normal_state (bs_state demo_base)\<rparr>"
proof -
  have "\<exists>j. state_json (bs_state demo_base) = Some j"
    by (simp add: demo_base_def NewBaseSimulator_def state_json_def fresh_State_def nodes_json_def data_json_def)
  then obtain j where j: "state_json (bs_state demo_base) = Some j" ..
  let ?s = "Base_Seek None 9 (snd (Base_SaveSnapshot ''u'' None (\<lambda>_. 0) ''a'' demo_base))"
  have "bs_snapshots demo_base = []" by (simp add: demo_base_def NewBaseSimulator_def)
  moreover have same: "bs_snapshots ?s = bs_snapshots (snd (Base_SaveSnapshot ''u'' None (\<lambda>_. 0) ''a'' demo_base))"
    by (simp add: Base_Seek_def)
  ultimately have "map_order (bs_snapshots ?s) [''u'']"
    "\<forall>k sn. go_get (bs_snapshots demo_base) k = Some sn \<longrightarrow> si_Name (sn_Info sn) \<noteq> ''a''"
    using j by (simp_all add: Base_SaveSnapshot_def Let_def map_order_def go_keys_def go_put_def)
  from Base_snapshot_restore [OF j this(2) same this(1)] show ?thesis by simp
qed

subsection \<open>Events\<close>

text \<open>What is emitted, with its identity and time.\<close>

type_synonym emission = "string \<times> gtime \<times> string \<times> NodeID \<times> NodeID \<times> gdata"

definition emit :: "emission \<Rightarrow> BaseSimulator \<Rightarrow> BaseSimulator" where
  "emit e s = (case e of (uid, now, ty, src, tgt, data) \<Rightarrow> EmitEvent uid now ty src tgt data s)"

definition emitted :: "u64 \<Rightarrow> emission \<Rightarrow> Event" where
  "emitted tick e = (case e of (uid, now, ty, src, tgt, data) \<Rightarrow>
     \<lparr>ev_ID = uid, ev_Type = ty, ev_Tick = tick, ev_Timestamp = now, ev_Source = src, ev_Target = tgt, ev_Data = data\<rparr>)"

lemma emit_state: "bs_state (emit e s) = bs_state s"
  by (cases e) (simp add: emit_def EmitEvent_def Let_def)

lemma emits_state: "bs_state (fold emit es s) = bs_state s"
  by (induction es arbitrary: s) (simp_all add: emit_state)

text \<open>The log of a simulator, as the locale of the logs that are trimmed sees it: the entries
  carry the tick at which they were emitted.\<close>

definition push_event :: "Event \<Rightarrow> BaseSimulator \<Rightarrow> BaseSimulator" where
  "push_event e s = s\<lparr>bs_events := keep_last 10000 (bs_events s @ [e])\<rparr>"

interpretation base_events: trimmed_log bs_events "\<lambda>_. 10000" push_event "\<lambda>_. True"
  by unfold_locales (simp_all add: push_event_def)

lemma emit_push: "emit e s = push_event (emitted (st_Tick (bs_state s)) e) s"
  by (cases e) (simp add: emit_def EmitEvent_def emitted_def push_event_def keep_last_def Let_def)

lemma emits_push: "fold emit es s = fold push_event (map (emitted (st_Tick (bs_state s))) es) s"
proof (induction es arbitrary: s)
  case (Cons e es)
  have "st_Tick (bs_state (push_event x s)) = st_Tick (bs_state s)" for x
    by (simp add: push_event_def)
  with Cons [of "emit e s"] show ?case by (simp add: emit_push)
qed simp

text \<open>A simulator that has emitted events at one tick, on top of those it had, answers a query
  with the most recent ten thousand of them, in order, from the tick asked for on.\<close>

theorem Base_events_retained:
  assumes "length (bs_events s) \<le> 10000"
  shows "Base_GetEvents since (fold emit es s) =
    filter (\<lambda>e. since \<le> ev_Tick e) (keep_last 10000 (bs_events s @ map (emitted (st_Tick (bs_state s))) es))"
  using base_events.items_pushes [of s "map (emitted (st_Tick (bs_state s))) es"] assms
  by (simp add: Base_GetEvents_def emits_push)

theorem Base_events_retained_witness:
  "Base_GetEvents 0 (fold emit [(''u'', None, ''tick'', ''n1'', [], None)] demo_base) =
   keep_last 10000 [emitted 0 (''u'', None, ''tick'', ''n1'', [], None)]"
  using Base_events_retained [of demo_base 0 "[(''u'', None, ''tick'', ''n1'', [], None)]"]
  by (simp add: demo_base_def NewBaseSimulator_def fresh_State_def)

subsection \<open>Where the life cycle goes wrong\<close>

text \<open>A simulator that was never started reports that it is running after being paused and
  resumed: no loop was started, no context exists, and stopping it changes nothing.\<close>

theorem Base_Resume_unstarted:
  "let s = Base_Resume (Base_Pause (NewBaseSimulator now i n d c t))
   in st_Status (bs_state s) = StatusRunning \<and> \<not> bs_running s \<and> bs_ctx s = 0 \<and> Base_Stop s = s"
  by (simp add: Base_Resume_def Base_Pause_def set_status_def NewBaseSimulator_def Base_Stop_def Let_def)

text \<open>Importing a state document that has no global data succeeds and leaves a nil map: the
  next injection, initialisation or global write panics, on every simulator.\<close>

theorem Base_Import_nil_map:
  "\<exists>s'. Base_ImportState (JObj [(''tick'', JInt 3)]) s = (False, s') \<and>
     Base_InjectFault uid fo ao (Some f) s' = Inl NilMapWrite \<and>
     Base_Init fo ao cfg s' = Inl NilMapWrite \<and>
     Base_SetGlobalData k v s' = Inl NilMapWrite"
proof -
  let ?s = "s\<lparr>bs_state := zero_State\<lparr>st_Tick := 3\<rparr>\<rparr>"
  have "read_time JNull = Some None" "read_nodes JNull = Some None" "read_data JNull = Some None"
    by (simp_all add: read_time_def read_nodes_def read_data_def)
  then have imp: "Base_ImportState (JObj [(''tick'', JInt 3)]) s = (False, ?s)"
    by (simp add: Base_ImportState_def json_state_def field_def read_u64_def read_string_def zero_State_def)
  have nil: "st_GlobalData (bs_state ?s) = None" by (simp add: zero_State_def)
  have sync: "syncDisturbanceStateLocked fo ao s1 = Inl NilMapWrite"
    if "st_GlobalData (bs_state s1) = None" for s1 fo ao
    unfolding syncDisturbanceStateLocked_def Let_def by (rule put_globals_None [OF that]) simp
  have "Base_InjectFault uid fo ao (Some f) ?s = Inl NilMapWrite"
    using nil by (simp add: Base_InjectFault_def Let_def sync)
  moreover have "Base_Init fo ao cfg ?s = Inl NilMapWrite"
    using nil by (simp add: Base_Init_def Let_def sync)
  moreover have "Base_SetGlobalData k v ?s = Inl NilMapWrite"
    using nil by (simp add: Base_SetGlobalData_def put_global_def nil_put_def)
  ultimately show ?thesis using imp by blast
qed

end
