(* ===== verification/EngineFacts.thy ===== *)
theory EngineFacts
  imports EngineCore BaseSimFacts
begin

section \<open>The engine: properties\<close>

text \<open>
  The commands an API client can send, and the status they leave.
\<close>

datatype cmd =
    CInit Config | CStart | CStop | CPause | CResume | CStep | CReset | CSwitch string bool
  | CSetParam string gval | CSetSpeed f64 | CInjectFault Fault | CRemoveFault string
  | CInjectAttack Attack | CRemoveAttack string | CClearFaults | CClearAttacks
  | CSave string | CLoad string | CDelete string | CImport gval

fun engine_run :: "string \<Rightarrow> gtime \<Rightarrow> 's SimOps \<Rightarrow> cmd \<Rightarrow> 's Engine \<Rightarrow> 's engine_res" where
  "engine_run uid now ops (CInit c) e = Engine_Init uid now ops c e"
| "engine_run uid now ops CStart e = Engine_Start uid now ops e"
| "engine_run uid now ops CStop e = Engine_Stop uid now ops e"
| "engine_run uid now ops CPause e = Engine_Pause uid now ops e"
| "engine_run uid now ops CResume e = Engine_Resume uid now ops e"
| "engine_run uid now ops CStep e = go_bind (Engine_Step uid now ops e) (\<lambda>(_, err, e). Inr (err, e))"
| "engine_run uid now ops CReset e = Engine_Reset uid now ops e"
| "engine_run uid now ops (CSwitch m p) e = Engine_Switch uid now ops m p e"
| "engine_run uid now ops (CSetParam k v) e = Engine_SetParam ops k v e"
| "engine_run uid now ops (CSetSpeed x) e = Engine_SetSpeed ops x e"
| "engine_run uid now ops (CInjectFault f) e = Engine_InjectFault ops (Some f) e"
| "engine_run uid now ops (CRemoveFault i) e = Engine_RemoveFault ops i e"
| "engine_run uid now ops (CInjectAttack a) e = Engine_InjectAttack ops (Some a) e"
| "engine_run uid now ops (CRemoveAttack i) e = Engine_RemoveAttack ops i e"
| "engine_run uid now ops CClearFaults e = Engine_ClearFaults ops e"
| "engine_run uid now ops CClearAttacks e = Engine_ClearAttacks ops e"
| "engine_run uid now ops (CSave n) e = Engine_SaveSnapshot ops n e"
| "engine_run uid now ops (CLoad n) e = Engine_LoadSnapshot ops n e"
| "engine_run uid now ops (CDelete i) e = Engine_DeleteSnapshot i e"
| "engine_run uid now ops (CImport d) e = Engine_ImportState ops d e"

lemmas engine_ops_defs = Engine_Init_def Engine_Start_def Engine_Stop_def Engine_Pause_def Engine_Resume_def
  Engine_Step_def Engine_Reset_def Engine_SetParam_def Engine_SetSpeed_def
  Engine_InjectFault_def Engine_RemoveFault_def Engine_InjectAttack_def Engine_RemoveAttack_def
  Engine_ClearFaults_def Engine_ClearAttacks_def Engine_SaveSnapshot_def Engine_LoadSnapshot_def
  Engine_DeleteSnapshot_def Engine_ImportState_def

text \<open>A sequence of commands, each with its identity, time and methods.\<close>

fun engine_runs :: "(string \<times> gtime \<times> 's SimOps \<times> cmd) list \<Rightarrow> 's Engine \<Rightarrow> 's Engine go" where
  "engine_runs [] e = Inr e"
| "engine_runs ((uid, now, ops, c) # cs) e = go_bind (engine_run uid now ops c e) (\<lambda>(_, e). engine_runs cs e)"

subsection \<open>How a command returns\<close>

lemma publish_Inr:
  "publish uid now ev e = Inr (err, e') \<longleftrightarrow>
     (\<exists>eb. EventBus_Publish uid now ev (en_eventBus e) = Inr eb \<and> err = None \<and> e' = e\<lparr>en_eventBus := eb\<rparr>)"
  by (auto simp: publish_def go_bind_eq_Inr)

lemma with_active_Inr:
  "with_active e f = Inr (err, e') \<longleftrightarrow>
     (en_active e = None \<and> err = Some NoActive \<and> e' = e) \<or> (\<exists>s. en_active e = Some s \<and> f s = Inr (err, e'))"
  by (auto simp: with_active_def split: option.splits)

lemma sim_call_Inr:
  "sim_call m er e k = Inr (err, e') \<longleftrightarrow>
     (\<exists>s. m = Inr (True, s) \<and> err = Some er \<and> e' = e\<lparr>en_active := Some s\<rparr>) \<or>
     (\<exists>s. m = Inr (False, s) \<and> k (e\<lparr>en_active := Some s\<rparr>) = Inr (err, e'))"
  by (auto simp: sim_call_def go_bind_eq_Inr Let_def split: if_splits)

lemmas returns = publish_Inr with_active_Inr sim_call_Inr go_bind_eq_Inr

lemma switch_restore_Inr:
  "switch_restore ops saved e k = Inr (err, e') \<longleftrightarrow>
     (saved = None \<and> k e = Inr (err, e')) \<or>
     (\<exists>data. saved = Some data \<and> with_active e (\<lambda>s. sim_call (so_ImportState ops data s) ImportFailed e k) = Inr (err, e'))"
  by (auto simp: switch_restore_def split: option.splits)

lemma switch_stop_Inr:
  "switch_stop ops e = Inr e' \<longleftrightarrow>
     (en_active e = None \<and> e' = e) \<or>
     (\<exists>s f s'. en_active e = Some s \<and> so_Stop ops s = Inr (f, s') \<and> e' = e\<lparr>en_active := Some s'\<rparr>)"
  by (auto simp: switch_stop_def go_bind_eq_Inr split: option.splits)

lemma Switch_cases:
  assumes "Engine_Switch uid now ops m p e = Inr (err, e')"
  obtains (export) "err = Some ExportFailed" "e' = e"
  | (unknown) e1 where "switch_stop ops e = Inr e1" "err = Some (SimulatorNotFound m)" "e' = e1"
      "Registry_Get m (en_reg e1) = None"
  | (call) saved e1 f where "switch_save ops p e = Some saved" "switch_stop ops e = Inr e1"
      "Registry_Get m (en_reg e1) = Some f"
      "sim_call (so_Init ops ((en_config e1)\<lparr>cf_Module := m\<rparr>) (fa_Create f)) InitFailed
         (e1\<lparr>en_active := Some (fa_Create f), en_config := (en_config e1)\<lparr>cf_Module := m\<rparr>\<rparr>) (\<lambda>e.
           switch_restore ops saved e (\<lambda>e.
             publish uid now (engine_event ''engine.switched'' 0 (Some [(''module'', GStr m)]))
               (e\<lparr>en_status := StatusIdle\<rparr>))) = Inr (err, e')"
proof (cases "switch_save ops p e")
  case None
  with assms export show ?thesis by (simp add: Engine_Switch_def)
next
  case (Some saved)
  with assms obtain e1 where e1: "switch_stop ops e = Inr e1"
    by (cases "switch_stop ops e") (auto simp: Engine_Switch_def)
  show ?thesis
  proof (cases "Registry_Get m (en_reg e1)")
    case None
    with assms Some e1 unknown show ?thesis by (simp add: Engine_Switch_def)
  next
    case (Some f)
    with assms \<open>switch_save ops p e = Some saved\<close> e1 call show ?thesis
      by (simp add: Engine_Switch_def Let_def)
  qed
qed

subsection \<open>The life cycle the engine reports\<close>

text \<open>The abstract state machine: the status a command leads to.\<close>

fun status_after :: "cmd \<Rightarrow> string \<Rightarrow> string" where
  "status_after (CInit _) _ = StatusIdle"
| "status_after CStart _ = StatusRunning"
| "status_after CStop _ = StatusStopped"
| "status_after CPause _ = StatusPaused"
| "status_after CResume _ = StatusRunning"
| "status_after CReset _ = StatusIdle"
| "status_after (CSwitch _ _) _ = StatusIdle"
| "status_after _ st = st"

text \<open>C17. The engine implements the state machine of the life cycle, whatever its simulators do:
  a command that reports no error moves the status as the machine does, except that stopping an
  engine without a simulator changes nothing; a command that reports an error leaves the status
  as it was.\<close>

theorem Engine_status_refines:
  assumes "engine_run uid now ops c e = Inr (err, e')"
  shows "Engine_GetStatus e' =
    (if err = None \<and> \<not> (c = CStop \<and> en_active e = None) then status_after c (Engine_GetStatus e)
     else Engine_GetStatus e)"
proof (cases c)
  case (CSwitch m p)
  with assms have "Engine_Switch uid now ops m p e = Inr (err, e')" by simp
  then show ?thesis
  proof (cases rule: Switch_cases)
    case (call saved e1 f)
    then show ?thesis
      by (auto simp: CSwitch Engine_GetStatus_def returns switch_restore_Inr switch_stop_Inr)
  qed (auto simp: Engine_GetStatus_def switch_stop_Inr)
qed (use assms in \<open>auto simp: engine_ops_defs returns Engine_GetStatus_def done_ok_def Let_def
      split: option.splits if_splits prod.splits\<close>)


definition demo_desc :: Description where
  "demo_desc = Base_GetDescription [] demo_base"

definition demo_env :: Env where
  "demo_env = \<lparr>env_uid = ''u'', env_now = None, env_len = (\<lambda>_. 0), env_forder = [], env_aorder = [],
     env_sorder = [], env_porder = [], env_onTick = None\<rparr>"

lemma demo_arms:
  "arm_sim (fst (Base_Start demo_base)) (snd (Base_Start demo_base)) = Inr (snd (Base_Start demo_base))"
  "arm_controller (fst (TimeController_Start NewTimeController)) (snd (TimeController_Start NewTimeController)) =
     Inr (snd (TimeController_Start NewTimeController))"
  using arm_scaled [OF speed_ok_one]
  by (simp_all add: arm_sim_def arm_controller_def runLoop_arm_def loop_interval_def getActualInterval_def
      Base_Start_def TimeController_Start_def demo_base_def NewBaseSimulator_def NewTimeController_def set_status_def)

theorem Engine_status_refines_witness:
  "\<exists>e. engine_run ''u'' None (base_ops demo_env) CStart ((NewEngine None)\<lparr>en_active := Some demo_base\<rparr>) = Inr (None, e) \<and>
     Engine_GetStatus e = StatusRunning"
proof -
  let ?e = "(NewEngine None)\<lparr>en_active := Some demo_base\<rparr>"
  have "\<exists>e. engine_run ''u'' None (base_ops demo_env) CStart ?e = Inr (None, e)"
    using Publish_ok [OF bus_ok_New, of "''u''" None "engine_event ''engine.started'' 0 None"]
    by (auto simp: Engine_Start_def with_active_def sim_call_def base_ops_def no_err_def publish_def NewEngine_def
        Let_def demo_arms)
  then obtain e where e: "engine_run ''u'' None (base_ops demo_env) CStart ?e = Inr (None, e)" ..
  from Engine_status_refines [OF e] e show ?thesis by simp
qed

subsection \<open>A command the engine never carries out\<close>

lemma run_snapStore:
  assumes "engine_run uid now ops c e = Inr (err, e')" and "sp_snapshots (en_snapStore e) = Some []"
  shows "en_snapStore e' = en_snapStore e"
proof (cases c)
  case (CSwitch m p)
  with assms(1) have "Engine_Switch uid now ops m p e = Inr (err, e')" by simp
  then show ?thesis
  proof (cases rule: Switch_cases)
    case (call saved e1 f)
    then show ?thesis
      by (auto simp: returns switch_restore_Inr switch_stop_Inr)
  qed (auto simp: switch_stop_Inr)
next
  case (CDelete i)
  with assms show ?thesis
    by (auto simp: Engine_DeleteSnapshot_def SnapshotStore_Delete_def nil_get_def)
qed (use assms in \<open>auto simp: engine_ops_defs returns done_ok_def Let_def
      split: option.splits if_splits prod.splits\<close>)

lemma runs_snapStore:
  "engine_runs cs e = Inr e' \<Longrightarrow> sp_snapshots (en_snapStore e) = Some [] \<Longrightarrow> en_snapStore e' = en_snapStore e"
proof (induction cs arbitrary: e)
  case (Cons c cs)
  obtain uid now ops c' where c: "c = (uid, now, ops, c')" by (cases c) auto
  with Cons.prems(1) obtain err e1 where e1: "engine_run uid now ops c' e = Inr (err, e1)"
    "engine_runs cs e1 = Inr e'"
    by (auto simp: go_bind_eq_Inr)
  from run_snapStore [OF e1(1) Cons.prems(2)] Cons.IH [OF e1(2)] Cons.prems(2) show ?case by simp
qed simp

lemma Register_other [simp]:
  "en_snapStore (Engine_Register n f e) = en_snapStore e" "en_eventBus (Engine_Register n f e) = en_eventBus e"
  "en_timeCtrl (Engine_Register n f e) = en_timeCtrl e" "en_active (Engine_Register n f e) = en_active e"
  by (simp_all add: Engine_Register_def)

definition register_all :: "(string \<times> 's SimulatorFactory) list \<Rightarrow> 's Engine \<Rightarrow> 's Engine" where
  "register_all = fold (\<lambda>(n, f). Engine_Register n f)"

lemma register_all_other [simp]:
  "en_snapStore (register_all regs e) = en_snapStore e" "en_eventBus (register_all regs e) = en_eventBus e"
  "en_timeCtrl (register_all regs e) = en_timeCtrl e" "en_active (register_all regs e) = en_active e"
  by (induction regs arbitrary: e) (auto simp: register_all_def)

text \<open>Snapshots cannot be deleted through the engine.  They are saved in the active simulator,
  but \<open>DeleteSnapshot\<close> looks in the engine's own store, which nothing fills: after any commands
  on a new engine, whatever simulators are registered, it reports that the snapshot does not
  exist.\<close>

theorem Engine_DeleteSnapshot_fails:
  assumes "engine_runs cs (register_all regs (NewEngine t)) = Inr e"
  shows "Engine_DeleteSnapshot i e = Inr (Some (SnapshotNotFound i), e)"
proof -
  have "sp_snapshots (en_snapStore (register_all regs (NewEngine t))) = Some []"
    by (simp add: NewEngine_def NewSnapshotStore_def)
  with runs_snapStore [OF assms] have "sp_snapshots (en_snapStore e) = Some []" by simp
  then show ?thesis by (simp add: Engine_DeleteSnapshot_def SnapshotStore_Delete_def nil_get_def)
qed

text \<open>A run that saves a snapshot, and then asks for its deletion.\<close>

definition demo_engine_run :: "BaseSimulator Engine go" where
  "demo_engine_run = engine_runs [(''e1'', None, base_ops demo_env, CInit (plain_config ''raft'' [])),
       (''e2'', None, base_ops demo_env, CSave ''first'')]
      (register_all [(''raft'', \<lparr>fa_Create = demo_base, fa_GetDescription = demo_desc\<rparr>)] (NewEngine None))"

definition demo_saved :: bool where
  "demo_saved = (case demo_engine_run of Inl _ \<Rightarrow> False
     | Inr e \<Rightarrow> (case en_active e of None \<Rightarrow> False | Some s \<Rightarrow> map fst (bs_snapshots s) = [''u'']))"

lemma demo_saved: demo_saved
  by code_simp

theorem Engine_DeleteSnapshot_fails_witness:
  "\<exists>e s. demo_engine_run = Inr e \<and> en_active e = Some s \<and> map fst (bs_snapshots s) = [''u''] \<and>
     Engine_DeleteSnapshot ''u'' e = Inr (Some (SnapshotNotFound ''u''), e)"
proof -
  obtain e s where e: "demo_engine_run = Inr e" "en_active e = Some s" "map fst (bs_snapshots s) = [''u'']"
    using demo_saved by (auto simp: demo_saved_def split: sum.splits option.splits)
  show ?thesis
    by (intro exI conjI) (fact e, fact e, fact e, rule Engine_DeleteSnapshot_fails [OF e(1) [unfolded demo_engine_run_def]])
qed

end
