(* ===== verification/EngineSafety.thy ===== *)
theory EngineSafety
  imports EngineFacts
begin

section \<open>No sequence of commands panics\<close>

text \<open>
  The contract \<open>simulator\<close>, under which the engine never panics, and the base simulator as
  one that meets it.
\<close>

text \<open>The controller of an engine: nothing changes its base interval, and its speed is in range.\<close>

definition clock_ok :: "TimeController \<Rightarrow> bool" where
  "clock_ok tc \<longleftrightarrow> tc_ok tc \<and> tc_interval tc = 2500000000 \<and> speed_ok (tc_speed tc)"

lemma clock_ok_New: "clock_ok NewTimeController"
  by (simp add: clock_ok_def tc_ok_New) (simp add: NewTimeController_def)

lemma clock_Stop_returns:
  assumes "clock_ok tc"
  shows "\<exists>tc'. TimeController_Stop tc = Inr tc' \<and> clock_ok tc'"
proof -
  have "\<exists>tc'. TimeController_Stop tc = Inr tc'"
    using assms by (auto simp: clock_ok_def tc_ok_def TimeController_Stop_def)
  then obtain tc' where tc': "TimeController_Stop tc = Inr tc'" ..
  moreover have "tc_interval tc' = tc_interval tc \<and> tc_speed tc' = tc_speed tc"
    using tc' by (auto simp: TimeController_Stop_def split: if_splits)
  ultimately show ?thesis using tc_ok_ops(2) assms by (auto simp: clock_ok_def)
qed

lemma clock_Step_returns:
  assumes "clock_ok tc"
  shows "\<exists>tc'. TimeController_Step tc = Inr tc' \<and> clock_ok tc'"
proof -
  have ok: "tc_ok tc" using assms by (simp add: clock_ok_def)
  then obtain tc' where tc': "TimeController_Step tc = Inr tc'"
    using offer_returns [OF tc_ok_tick [OF ok, of "tc_tick tc + 1"]]
    by (auto simp: TimeController_Step_def tick_once_def Let_def)
  moreover have "tc_interval tc' = tc_interval tc \<and> tc_speed tc' = tc_speed tc"
    using tc' by (auto simp: TimeController_Step_def tick_once_def tick_offer_def Let_def go_bind_eq_Inr)
  ultimately show ?thesis using tc_ok_ops(9) [OF ok] assms by (auto simp: clock_ok_def)
qed

lemma clock_ok_ops:
  assumes "clock_ok tc"
  shows "clock_ok (TimeController_Pause tc)" "clock_ok (TimeController_Resume tc)"
    "clock_ok (TimeController_Reset tc)" "clock_ok (snd (TimeController_Start tc))"
    "x \<noteq> NaN \<Longrightarrow> clock_ok (TimeController_SetSpeed x tc)"
proof -
  show "x \<noteq> NaN \<Longrightarrow> clock_ok (TimeController_SetSpeed x tc)"
    using assms tc_ok_ops(7) by (simp add: clock_ok_def) (simp add: TimeController_SetSpeed_def clamp_speed_ok)
qed (use assms tc_ok_ops(1,3-5) in \<open>simp_all add: clock_ok_def\<close>,
  simp_all add: TimeController_Pause_def TimeController_Resume_def TimeController_Reset_def TimeController_Start_def)

lemma arm_clock: "clock_ok tc \<Longrightarrow> arm_controller loop tc = Inr tc"
  by (simp add: arm_controller_def getActualInterval_def clock_ok_def arm_scaled)

text \<open>A method call that returns, and leaves the simulator in order.\<close>

definition returns_ok :: "('s \<Rightarrow> bool) \<Rightarrow> (bool \<times> 's) go \<Rightarrow> bool" where
  "returns_ok ok m \<longleftrightarrow> (\<exists>e s. m = Inr (e, s) \<and> ok s)"

text \<open>
  The contract of the simulators: in an environment that is in order, no method panics and each
  keeps the simulator in order; what it exports can be imported.
\<close>

locale simulator =
  fixes ops :: "'e \<Rightarrow> 's SimOps"
    and env_ok :: "'e \<Rightarrow> bool"
    and ok :: "'s \<Rightarrow> bool"
    and good_doc :: "json \<Rightarrow> bool"
  assumes lifecycle: "env_ok v \<Longrightarrow> ok s \<Longrightarrow> returns_ok ok (so_Init (ops v) c s) \<and> returns_ok ok (so_Start (ops v) s) \<and>
      returns_ok ok (so_Stop (ops v) s) \<and> returns_ok ok (so_Reset (ops v) s) \<and>
      returns_ok ok (so_Pause (ops v) s) \<and> returns_ok ok (so_Resume (ops v) s)"
    and step: "env_ok v \<Longrightarrow> ok s \<Longrightarrow> \<exists>st s'. so_Step (ops v) s = Inr ((False, Some st), s') \<and> ok s'"
    and speed: "env_ok v \<Longrightarrow> ok s \<Longrightarrow> x \<noteq> NaN \<Longrightarrow> returns_ok ok (so_SetSpeed (ops v) x s)"
    and settings: "env_ok v \<Longrightarrow> ok s \<Longrightarrow> returns_ok ok (so_SetParam (ops v) k val s)"
    and snapshots: "env_ok v \<Longrightarrow> ok s \<Longrightarrow> returns_ok ok (so_SaveSnapshot (ops v) n s) \<and> returns_ok ok (so_LoadSnapshot (ops v) n s)"
    and faults: "env_ok v \<Longrightarrow> ok s \<Longrightarrow> returns_ok ok (so_InjectFault (ops v) (Some f) s) \<and>
      returns_ok ok (so_RemoveFault (ops v) i s) \<and> returns_ok ok (so_ClearFaults (ops v) s)"
    and attacks: "env_ok v \<Longrightarrow> ok s \<Longrightarrow> returns_ok ok (so_InjectAttack (ops v) (Some a) s) \<and>
      returns_ok ok (so_RemoveAttack (ops v) i s) \<and> returns_ok ok (so_ClearAttacks (ops v) s)"
    and export: "ok s \<Longrightarrow> so_ExportState (ops v) s = Some j \<Longrightarrow> good_doc j"
    and import_doc: "env_ok v \<Longrightarrow> ok s \<Longrightarrow> good_doc j \<Longrightarrow> returns_ok ok (so_ImportState (ops v) j s)"

text \<open>The engine's own invariant, over that of its simulators.\<close>

definition engine_ok :: "('s \<Rightarrow> bool) \<Rightarrow> 's Engine \<Rightarrow> bool" where
  "engine_ok ok e \<longleftrightarrow> bus_ok (en_eventBus e) \<and> clock_ok (en_timeCtrl e) \<and>
     (\<forall>s. en_active e = Some s \<longrightarrow> ok s) \<and>
     (\<forall>n f. Registry_Get n (en_reg e) = Some f \<longrightarrow> ok (fa_Create f))"

text \<open>A document that is imported is good, a speed is a number.\<close>

definition cmd_ok :: "(json \<Rightarrow> bool) \<Rightarrow> cmd \<Rightarrow> bool" where
  "cmd_ok good_doc c =
     (case c of
        CImport d \<Rightarrow> (case json_of d of None \<Rightarrow> True | Some j \<Rightarrow> good_doc j)
      | CSetSpeed x \<Rightarrow> x \<noteq> NaN
      | _ \<Rightarrow> True)"

definition engine_returns :: "('s \<Rightarrow> bool) \<Rightarrow> 's engine_res \<Rightarrow> bool" where
  "engine_returns ok m \<longleftrightarrow> (\<exists>err e. m = Inr (err, e) \<and> engine_ok ok e)"

lemma publish_returns: "engine_ok ok e \<Longrightarrow> engine_returns ok (publish uid now ev e)"
  using Publish_ok [of "en_eventBus e" uid now ev]
  by (auto simp: engine_returns_def engine_ok_def publish_def)

lemma done_returns: "engine_ok ok e \<Longrightarrow> engine_returns ok (done_ok e)"
  by (simp add: engine_returns_def done_ok_def)

lemma sim_call_returns:
  assumes "returns_ok ok m" and "engine_ok ok e"
    and "\<And>e'. engine_ok ok e' \<Longrightarrow> en_timeCtrl e' = en_timeCtrl e \<Longrightarrow> engine_returns ok (k e')"
  shows "engine_returns ok (sim_call m er e k)"
proof -
  obtain b s where m: "m = Inr (b, s)" "ok s" using assms(1) by (auto simp: returns_ok_def)
  then have "engine_ok ok (e\<lparr>en_active := Some s\<rparr>)" using assms(2) by (simp add: engine_ok_def)
  with m assms(3) [OF this] show ?thesis by (auto simp: sim_call_def engine_returns_def Let_def)
qed

lemma with_active_returns:
  assumes "engine_ok ok e" and "\<And>s. en_active e = Some s \<Longrightarrow> ok s \<Longrightarrow> engine_returns ok (f s)"
  shows "engine_returns ok (with_active e f)"
  using assms by (auto simp: with_active_def engine_ok_def engine_returns_def split: option.split)

lemma engine_ok_status [simp]: "engine_ok ok (e\<lparr>en_status := st\<rparr>) = engine_ok ok e"
  by (simp add: engine_ok_def)

lemma engine_ok_tc: "engine_ok ok e \<Longrightarrow> clock_ok tc \<Longrightarrow> engine_ok ok (e\<lparr>en_timeCtrl := tc\<rparr>)"
  by (simp add: engine_ok_def)

lemma engine_ok_clock: "engine_ok ok e \<Longrightarrow> clock_ok (en_timeCtrl e)"
  by (simp add: engine_ok_def)

context simulator
begin

lemmas calls = lifecycle settings snapshots faults attacks

text \<open>The operations that make one call and then publish.\<close>

lemma lifecycle_returns:
  assumes "engine_ok ok e" and "env_ok v"
  shows "engine_returns ok (Engine_Start uid now (ops v) e)" "engine_returns ok (Engine_Pause uid now (ops v) e)"
    "engine_returns ok (Engine_Resume uid now (ops v) e)" "engine_returns ok (Engine_Reset uid now (ops v) e)"
  unfolding Engine_Start_def Engine_Pause_def Engine_Resume_def Engine_Reset_def Let_def
  by (rule with_active_returns [OF assms(1)], rule sim_call_returns,
      use lifecycle [OF assms(2)] in blast, rule assms,
      use assms in \<open>simp add: engine_ok_tc engine_ok_clock clock_ok_ops arm_clock publish_returns\<close>)+

lemma simple_returns:
  assumes "engine_ok ok e" and "env_ok v"
  shows "engine_returns ok (Engine_SetParam (ops v) k x e)"
    "engine_returns ok (Engine_InjectFault (ops v) (Some f) e)" "engine_returns ok (Engine_RemoveFault (ops v) i e)"
    "engine_returns ok (Engine_InjectAttack (ops v) (Some a) e)" "engine_returns ok (Engine_RemoveAttack (ops v) i e)"
    "engine_returns ok (Engine_ClearFaults (ops v) e)" "engine_returns ok (Engine_ClearAttacks (ops v) e)"
    "engine_returns ok (Engine_SaveSnapshot (ops v) n e)" "engine_returns ok (Engine_LoadSnapshot (ops v) n e)"
  unfolding Engine_SetParam_def Engine_InjectFault_def Engine_RemoveFault_def Engine_InjectAttack_def
    Engine_RemoveAttack_def Engine_ClearFaults_def Engine_ClearAttacks_def Engine_SaveSnapshot_def Engine_LoadSnapshot_def
  by (rule with_active_returns [OF assms(1)], rule sim_call_returns, use calls [OF assms(2)] in blast,
      rule assms, erule done_returns)+

lemma speed_returns:
  assumes "engine_ok ok e" and "env_ok v" and "x \<noteq> NaN"
  shows "engine_returns ok (Engine_SetSpeed (ops v) x e)"
proof -
  let ?tc = "TimeController_SetSpeed x (en_timeCtrl e)"
  have tc: "clock_ok ?tc" using assms(1,3) by (simp add: engine_ok_clock clock_ok_ops(5))
  then have e: "engine_ok ok (e\<lparr>en_timeCtrl := ?tc\<rparr>)" using assms(1) by (simp add: engine_ok_tc)
  show ?thesis
    unfolding Engine_SetSpeed_def arm_clock [OF tc] go_bind_Inr
    by (intro with_active_returns [OF assms(1)] sim_call_returns)
      (use speed [OF assms(2) _ assms(3)] e in \<open>blast intro: done_returns\<close>)+
qed

lemma stop_returns:
  assumes "engine_ok ok e" and "env_ok v"
  shows "engine_returns ok (Engine_Stop uid now (ops v) e)"
proof (cases "en_active e")
  case None
  with assms(1) show ?thesis by (simp add: Engine_Stop_def engine_returns_def)
next
  case (Some s)
  then have s: "ok s" using assms(1) by (simp add: engine_ok_def)
  have stop: "engine_returns ok (go_bind (TimeController_Stop (en_timeCtrl e')) (\<lambda>tc.
      publish uid now ev (e'\<lparr>en_status := StatusStopped, en_timeCtrl := tc\<rparr>)))"
    if e': "engine_ok ok e'" for e' ev
  proof -
    have "clock_ok (en_timeCtrl e')" using e' by (rule engine_ok_clock)
    then obtain tc where tc: "TimeController_Stop (en_timeCtrl e') = Inr tc" "clock_ok tc"
      using clock_Stop_returns by blast
    have "engine_ok ok (e'\<lparr>en_status := StatusStopped, en_timeCtrl := tc\<rparr>)"
      using e' tc(2) by (simp add: engine_ok_def)
    with tc(1) show ?thesis by (simp add: publish_returns)
  qed
  show ?thesis
    unfolding Engine_Stop_def Some option.case
    by (rule sim_call_returns) (use lifecycle [OF assms(2) s] assms(1) stop in blast)+
qed

lemma step_returns:
  assumes "engine_ok ok e" and "env_ok v"
  shows "engine_returns ok (go_bind (Engine_Step uid now (ops v) e) (\<lambda>(_, err, e). Inr (err, e)))"
proof (cases "en_active e")
  case None
  with assms(1) show ?thesis by (simp add: Engine_Step_def engine_returns_def)
next
  case (Some s)
  then have "ok s" using assms(1) by (simp add: engine_ok_def)
  then obtain st s' where st: "so_Step (ops v) s = Inr ((False, Some st), s')" "ok s'"
    using step [OF assms(2)] by blast
  obtain tc where tc: "TimeController_Step (en_timeCtrl e) = Inr tc" "clock_ok tc"
    using clock_Step_returns [OF engine_ok_clock [OF assms(1)]] by blast
  have "engine_ok ok (e\<lparr>en_active := Some s', en_timeCtrl := tc\<rparr>)"
    using assms(1) st(2) tc(2) by (simp add: engine_ok_def)
  from publish_returns [OF this] obtain err e1 where
    "publish uid now (engine_event ''engine.step'' (st_Tick st) None) (e\<lparr>en_active := Some s', en_timeCtrl := tc\<rparr>) =
       Inr (err, e1)" "engine_ok ok e1"
    unfolding engine_returns_def by blast
  with Some st(1) tc(1) show ?thesis by (simp add: Engine_Step_def engine_returns_def Let_def)
qed

lemma init_returns:
  assumes "engine_ok ok e" and "env_ok v"
  shows "engine_returns ok (Engine_Init uid now (ops v) c e)"
proof (cases "Registry_Get (cf_Module c) (en_reg e)")
  case None
  with assms(1) show ?thesis by (simp add: Engine_Init_def engine_returns_def)
next
  case (Some f)
  then have f: "ok (fa_Create f)" using assms(1) by (simp add: engine_ok_def)
  then have e: "engine_ok ok (e\<lparr>en_active := Some (fa_Create f), en_config := c\<rparr>)"
    using assms(1) by (simp add: engine_ok_def)
  show ?thesis
    unfolding Engine_Init_def Some option.case Let_def
    by (rule sim_call_returns) (use lifecycle [OF assms(2) f] e in \<open>auto intro!: publish_returns\<close>)
qed

lemma switch_returns:
  assumes "engine_ok ok e" and "env_ok v"
  shows "engine_returns ok (Engine_Switch uid now (ops v) m p e)"
proof (cases "switch_save (ops v) p e")
  case None
  with assms(1) show ?thesis by (simp add: Engine_Switch_def engine_returns_def)
next
  case saved: (Some saved)
  then have doc: "good_doc j" if "saved = Some j" for j
    using that assms(1) export by (auto simp: switch_save_def engine_ok_def split: option.splits if_splits)
  obtain e1 where e1: "switch_stop (ops v) e = Inr e1" "engine_ok ok e1"
  proof (cases "en_active e")
    case (Some s)
    then obtain b s' where "so_Stop (ops v) s = Inr (b, s')" "ok s'"
      using lifecycle [OF assms(2), of s] assms(1) unfolding engine_ok_def returns_ok_def by metis
    with Some assms(1) show thesis by (intro that) (auto simp: switch_stop_def engine_ok_def)
  qed (use assms(1) that in \<open>simp add: switch_stop_def\<close>)
  show ?thesis
  proof (cases "Registry_Get m (en_reg e1)")
    case None
    with saved e1 show ?thesis by (simp add: Engine_Switch_def engine_returns_def)
  next
    case (Some f)
    let ?e = "e1\<lparr>en_active := Some (fa_Create f), en_config := (en_config e1)\<lparr>cf_Module := m\<rparr>\<rparr>"
    have f: "ok (fa_Create f)" and e: "engine_ok ok ?e" using Some e1(2) by (auto simp: engine_ok_def)
    have pub: "engine_returns ok (publish uid now ev (e'\<lparr>en_status := StatusIdle\<rparr>))" if "engine_ok ok e'" for e' ev
      using that by (simp add: publish_returns)
    have "engine_returns ok (switch_restore (ops v) saved e' (\<lambda>e. publish uid now ev (e\<lparr>en_status := StatusIdle\<rparr>)))"
      if e': "engine_ok ok e'" for e' ev
    proof (cases saved)
      case None
      with pub [OF e'] show ?thesis by (simp add: switch_restore_def)
    next
      case (Some j)
      show ?thesis
        unfolding switch_restore_def Some option.case
        by (intro with_active_returns [OF e'] sim_call_returns [OF _ e'] import_doc [OF assms(2) _ doc [OF Some]] pub)
    qed
    then have "engine_returns ok (sim_call (so_Init (ops v) (en_config ?e) (fa_Create f)) InitFailed ?e (\<lambda>e.
        switch_restore (ops v) saved e (\<lambda>e. publish uid now
          (engine_event ''engine.switched'' 0 (Some [(''module'', GStr m)])) (e\<lparr>en_status := StatusIdle\<rparr>))))"
      using lifecycle [OF assms(2) f] e by (intro sim_call_returns) blast+
    with saved e1(1) Some show ?thesis by (simp add: Engine_Switch_def Let_def)
  qed
qed

lemma run_returns:
  assumes "engine_ok ok e" and "env_ok v" and "cmd_ok good_doc c"
  shows "engine_returns ok (engine_run uid now (ops v) c e)"
proof (cases c)
  case CStep
  with step_returns [OF assms(1,2)] show ?thesis by (simp only: engine_run.simps)
next
  case (CDelete i)
  with assms(1) show ?thesis
    by (simp add: Engine_DeleteSnapshot_def engine_returns_def engine_ok_def split: prod.splits)
next
  case (CSetSpeed x)
  with speed_returns [OF assms(1,2)] assms(3) show ?thesis by (simp add: cmd_ok_def)
next
  case (CImport d)
  have "engine_returns ok (with_active e (\<lambda>s. case json_of d of None \<Rightarrow> Inr (Some MarshalFailed, e)
      | Some j \<Rightarrow> sim_call (so_ImportState (ops v) j s) SimError e done_ok))"
  proof (rule with_active_returns [OF assms(1)], goal_cases)
    case (1 s)
    show ?case
    proof (cases "json_of d")
      case None
      with assms(1) show ?thesis by (simp add: engine_returns_def)
    next
      case (Some j)
      then have "good_doc j" using assms(3) CImport by (simp add: cmd_ok_def)
      with Some 1 assms(1,2) show ?thesis
        by (simp add: sim_call_returns [OF import_doc] done_returns)
    qed
  qed
  with CImport show ?thesis by (simp add: Engine_ImportState_def)
qed (simp_all add: assms lifecycle_returns simple_returns stop_returns step_returns
      init_returns switch_returns)

lemma runs_return:
  assumes "engine_ok ok e" and "list_all (\<lambda>(uid, now, v, c). env_ok v \<and> cmd_ok good_doc c) cs"
  shows "\<exists>e'. engine_runs (map (\<lambda>(uid, now, v, c). (uid, now, ops v, c)) cs) e = Inr e' \<and> engine_ok ok e'"
  using assms
proof (induction cs arbitrary: e)
  case (Cons x cs)
  obtain uid now v c where x: "x = (uid, now, v, c)" by (cases x) auto
  then obtain err e1 where "engine_run uid now (ops v) c e = Inr (err, e1)" "engine_ok ok e1"
    using run_returns [OF Cons.prems(1), of v c uid now] Cons.prems(2) by (auto simp: engine_returns_def)
  with Cons x show ?case by simp
qed simp

end


subsection \<open>The base simulator meets the contract\<close>

definition state_maps :: "State \<Rightarrow> bool" where
  "state_maps st \<longleftrightarrow> st_Nodes st \<noteq> None \<and> st_GlobalData st \<noteq> None"

text \<open>A document whose import gives the state its two maps.\<close>

definition full_doc :: "json \<Rightarrow> bool" where
  "full_doc j \<longleftrightarrow> (case json_state j of None \<Rightarrow> True | Some st \<Rightarrow> state_maps st)"

definition base_safe :: "BaseSimulator \<Rightarrow> bool" where
  "base_safe s \<longleftrightarrow> state_maps (bs_state s) \<and> speed_ok (bs_speed s) \<and>
     (\<forall>k sn. go_get (bs_snapshots s) k = Some sn \<longrightarrow>
        (\<forall>st. unmarshal_raw (sn_State sn) = Some st \<longrightarrow> state_maps st))"

text \<open>The callback of the environment keeps simulators safe.\<close>

definition env_safe :: "Env \<Rightarrow> bool" where
  "env_safe v \<longleftrightarrow> (\<forall>f t s. env_onTick v = Some f \<longrightarrow> base_safe s \<longrightarrow> (\<exists>s'. f t s = Inr s' \<and> base_safe s'))"

lemma state_maps_upd [simp]:
  "state_maps (st\<lparr>st_Tick := t\<rparr>) = state_maps st" "state_maps (st\<lparr>st_Status := x\<rparr>) = state_maps st"
  "state_maps (st\<lparr>st_UpdatedAt := now\<rparr>) = state_maps st"
  by (simp_all add: state_maps_def)

lemma state_maps_normal [simp]: "state_maps (normal_state st) = state_maps st"
  by (simp add: state_maps_def normal_state_def normal_data_def)

lemma state_maps_fresh [simp]: "state_maps (fresh_State now)"
  by (simp add: state_maps_def fresh_State_def)

lemma full_doc_export: "state_maps st \<Longrightarrow> state_json st = Some j \<Longrightarrow> full_doc j"
  by (simp add: full_doc_def json_state_json)

lemma put_globals_safe:
  assumes "base_safe s"
  shows "\<exists>s'. put_globals kvs s = Inr s' \<and> base_safe s'"
proof -
  obtain d where "st_GlobalData (bs_state s) = Some d"
    using assms by (auto simp: base_safe_def state_maps_def)
  from put_globals_Some [OF this] assms show ?thesis by (simp add: base_safe_def state_maps_def)
qed

lemma sync_safe: "base_safe s \<Longrightarrow> \<exists>s'. syncDisturbanceStateLocked fo ao s = Inr s' \<and> base_safe s'"
  unfolding syncDisturbanceStateLocked_def Let_def by (rule put_globals_safe)

lemma clear_safe: "base_safe s \<Longrightarrow> \<exists>s'. clearTeachingStateLocked s = Inr s' \<and> base_safe s'"
  unfolding clearTeachingStateLocked_def by (rule put_globals_safe)

text \<open>Updates that do not touch the state's maps or the snapshots.\<close>

lemma base_safe_upd [simp]:
  "base_safe (s\<lparr>bs_params := p\<rparr>) = base_safe s" "base_safe (s\<lparr>bs_events := es\<rparr>) = base_safe s"
  "base_safe (s\<lparr>bs_faults := fs\<rparr>) = base_safe s" "base_safe (s\<lparr>bs_attacks := as\<rparr>) = base_safe s"
  "base_safe (s\<lparr>bs_running := b\<rparr>) = base_safe s" "base_safe (s\<lparr>bs_paused := b\<rparr>) = base_safe s"
  "base_safe (s\<lparr>bs_ctx := n\<rparr>) = base_safe s"
  "base_safe (s\<lparr>bs_done := l\<rparr>) = base_safe s"
  by (simp_all add: base_safe_def)

lemma base_safe_state: "base_safe s \<Longrightarrow> state_maps st \<Longrightarrow> base_safe (s\<lparr>bs_state := st\<rparr>)"
  by (simp add: base_safe_def)

lemma base_safe_maps: "base_safe s \<Longrightarrow> state_maps (bs_state s)"
  by (simp add: base_safe_def)

lemma base_safe_status: "base_safe s \<Longrightarrow> base_safe (set_status st s)"
  by (simp add: set_status_def base_safe_state base_safe_maps)

lemma Init_safe:
  assumes "base_safe s"
  shows "\<exists>s'. Base_Init fo ao c s = Inr s' \<and> base_safe s'"
proof -
  obtain s1 where s1: "syncDisturbanceStateLocked fo ao (s\<lparr>bs_params := fold set_param_value (cf_Params c) (bs_params s)\<rparr>) = Inr s1"
    "base_safe s1"
    using sync_safe [of "s\<lparr>bs_params := fold set_param_value (cf_Params c) (bs_params s)\<rparr>" fo ao] assms by auto
  with clear_safe [OF s1(2)] show ?thesis by (auto simp: Base_Init_def Let_def)
qed

lemma Reset_safe:
  assumes "base_safe s"
  shows "\<exists>s'. Base_Reset now s = Inr s' \<and> base_safe s'"
proof -
  let ?s = "s\<lparr>bs_state := fresh_State now, bs_events := [], bs_faults := [], bs_attacks := []\<rparr>"
  have "base_safe ?s" using assms by (simp add: base_safe_def)
  then obtain s1 where s1: "syncDisturbanceStateLocked [] [] ?s = Inr s1" "base_safe s1"
    using sync_safe by blast
  with clear_safe [OF s1(2)] show ?thesis by (auto simp: Base_Reset_def)
qed

lemma Step_safe:
  assumes "env_safe v" and "base_safe s"
  shows "\<exists>st s'. Base_Step (env_onTick v) now s = Inr (st, s') \<and> base_safe s'"
proof -
  have "base_safe (snd (advance now s))"
    using assms(2) by (simp add: advance_def Let_def base_safe_state base_safe_maps)
  then have "\<exists>s'. call_tick (env_onTick v) (advance now s) = Inr s' \<and> base_safe s'"
    using assms(1) unfolding env_safe_def call_tick_def by (cases "env_onTick v") auto
  then show ?thesis by (auto simp: Base_Step_def)
qed

lemma load_first_safe:
  assumes "base_safe s" and "\<And>sn st. sn \<in> set sns \<Longrightarrow> unmarshal_raw (sn_State sn) = Some st \<Longrightarrow> state_maps st"
  shows "base_safe (snd (load_first n sns s))"
  using assms(2)
proof (induction sns)
  case (Cons sn sns)
  have "state_maps st" if "unmarshal_raw (sn_State sn) = Some st" for st
    using Cons.prems [of sn st] that by simp
  with Cons assms(1) show ?case by (auto simp: base_safe_state split: option.splits)
qed (simp add: assms(1))

lemma Load_safe:
  assumes "base_safe s"
  shows "base_safe (snd (Base_LoadSnapshot order n s))"
  unfolding Base_LoadSnapshot_def
proof (rule load_first_safe [OF assms])
  fix sn st assume "sn \<in> set (ranged (Some (bs_snapshots s)) order)" "unmarshal_raw (sn_State sn) = Some st"
  then show "state_maps st"
    using assms by (auto simp: base_safe_def ranged_def map_filter_def nil_get_def)
qed

lemma Save_safe: "base_safe s \<Longrightarrow> base_safe (snd (Base_SaveSnapshot uid now len n s))"
  by (auto simp: Base_SaveSnapshot_def base_safe_def Let_def unmarshal_raw_def json_state_json
      split: option.splits)

lemma returns_ok_Inr [simp]: "returns_ok ok (Inr (b, s)) = ok s"
  by (simp add: returns_ok_def)

lemma arm_sim_safe: "base_safe s \<Longrightarrow> arm_sim loop s = Inr s"
  by (simp add: arm_sim_def runLoop_arm_def loop_interval_def base_safe_def arm_scaled)

lemma Start_safe: "base_safe s \<Longrightarrow> base_safe (snd (Base_Start s))"
  by (auto simp: Base_Start_def intro!: base_safe_status)

lemma SetSpeed_safe: "base_safe s \<Longrightarrow> x \<noteq> NaN \<Longrightarrow> base_safe (Base_SetSpeed x s)"
  by (simp add: base_safe_def Base_SetSpeed_def clamp_speed_ok)

lemma no_err_safe: "\<exists>s'. m = Inr s' \<and> base_safe s' \<Longrightarrow> returns_ok base_safe (no_err m)"
  by (auto simp: no_err_def returns_ok_def)

lemma sync_then:
  "base_safe s \<Longrightarrow> returns_ok base_safe (go_bind (syncDisturbanceStateLocked fo ao s) (\<lambda>s. Inr (False, s)))"
  using sync_safe [of s fo ao] by (auto simp: returns_ok_def)

interpretation base_sim: simulator base_ops env_safe base_safe full_doc
proof unfold_locales
  fix v s c assume v: "env_safe v" and s: "base_safe s"
  show "returns_ok base_safe (so_Init (base_ops v) c s) \<and> returns_ok base_safe (so_Start (base_ops v) s) \<and>
      returns_ok base_safe (so_Stop (base_ops v) s) \<and> returns_ok base_safe (so_Reset (base_ops v) s) \<and>
      returns_ok base_safe (so_Pause (base_ops v) s) \<and> returns_ok base_safe (so_Resume (base_ops v) s)"
    using s by (auto simp: base_ops_def Let_def arm_sim_safe Start_safe intro: no_err_safe Init_safe Reset_safe)
      (auto simp: returns_ok_def Base_Stop_def Base_Pause_def Base_Resume_def Let_def intro!: base_safe_status)
  show "\<exists>st s'. so_Step (base_ops v) s = Inr ((False, Some st), s') \<and> base_safe s'"
    using Step_safe [OF v s, of "env_now v"] by (auto simp: base_ops_def)
  fix x k val
  show "x \<noteq> NaN \<Longrightarrow> returns_ok base_safe (so_SetSpeed (base_ops v) x s)"
    using s by (auto simp: base_ops_def arm_sim_safe SetSpeed_safe intro: no_err_safe)
  show "returns_ok base_safe (so_SetParam (base_ops v) k val s)"
    using s by (auto simp: base_ops_def returns_ok_def Base_SetParam_def split: option.split)
  fix n
  show "returns_ok base_safe (so_SaveSnapshot (base_ops v) n s) \<and> returns_ok base_safe (so_LoadSnapshot (base_ops v) n s)"
    using Save_safe [OF s] Load_safe [OF s] by (auto simp: base_ops_def returns_ok_def) (metis prod.collapse)+
  fix f i
  show "returns_ok base_safe (so_InjectFault (base_ops v) (Some f) s) \<and>
      returns_ok base_safe (so_RemoveFault (base_ops v) i s) \<and> returns_ok base_safe (so_ClearFaults (base_ops v) s)"
    using s by (auto simp: base_ops_def Base_InjectFault_def Base_RemoveFault_def Base_ClearFaults_def Let_def
        intro!: no_err_safe sync_safe sync_then split: option.split)
  fix a
  show "returns_ok base_safe (so_InjectAttack (base_ops v) (Some a) s) \<and>
      returns_ok base_safe (so_RemoveAttack (base_ops v) i s) \<and> returns_ok base_safe (so_ClearAttacks (base_ops v) s)"
    using s by (auto simp: base_ops_def Base_InjectAttack_def Base_RemoveAttack_def Base_ClearAttacks_def Let_def
        intro!: no_err_safe sync_safe sync_then split: option.split)
  fix j
  show "full_doc j \<Longrightarrow> returns_ok base_safe (so_ImportState (base_ops v) j s)"
    using s by (auto simp: base_ops_def returns_ok_def Base_ImportState_def full_doc_def base_safe_state split: option.splits)
next
  fix s v j assume "base_safe s" "so_ExportState (base_ops v) s = Some j"
  then show "full_doc j" by (auto simp: base_ops_def Base_ExportState_def intro: full_doc_export base_safe_maps)
qed

lemma Registry_Get_register_all:
  "Registry_Get n (en_reg (register_all regs e)) = Some f \<Longrightarrow>
     f \<in> snd ` set regs \<or> Registry_Get n (en_reg e) = Some f"
proof (induction regs arbitrary: e)
  case (Cons r regs)
  obtain m g where r: "r = (m, g)" by fastforce
  have "Registry_Get n (en_reg (register_all regs (Engine_Register m g e))) = Some f"
    using Cons.prems r by (simp add: register_all_def)
  from Cons.IH [OF this] r show ?case
    by (auto simp: Engine_Register_def Registry_Get_def Registry_Register_def split: option.splits if_splits)
qed (simp add: register_all_def)

lemma engine_ok_New:
  assumes "list_all (\<lambda>(n, f). ok (fa_Create f)) regs"
  shows "engine_ok ok (register_all regs (NewEngine t))"
proof -
  have "ok (fa_Create f)" if "Registry_Get n (en_reg (register_all regs (NewEngine t))) = Some f" for n f
    using Registry_Get_register_all [OF that] assms
    by (auto simp: Registry_Get_def NewEngine_def NewRegistry_def list_all_iff)
  then show ?thesis by (simp add: engine_ok_def NewEngine_def bus_ok_New clock_ok_New)
qed

text \<open>C1. No sequence of commands makes the engine panic.  With base simulators registered, whose
  callbacks return normally and leave the simulator's maps and speed in order, every sequence of
  commands on a new engine (initialise, start, stop, pause, resume, step, reset, switch,
  parameters, speed, faults, attacks, snapshots) runs to its end, and the tickers of the loops are
  armed with a positive interval, as long as the imported documents have nodes and global data and
  no speed is \<open>NaN\<close> (a document of JSON, as the requests carry it, has none).\<close>

theorem Engine_never_panics:
  assumes "list_all (\<lambda>(n, f). base_safe (fa_Create f)) regs"
    and "list_all (\<lambda>(uid, now, v, c). env_safe v \<and> cmd_ok full_doc c) cs"
  shows "\<exists>e. engine_runs (map (\<lambda>(uid, now, v, c). (uid, now, base_ops v, c)) cs)
      (register_all regs (NewEngine t)) = Inr e"
  using base_sim.runs_return [OF engine_ok_New [OF assms(1)] assms(2)] by blast

lemma demo_env_safe: "env_safe demo_env"
  by (simp add: env_safe_def demo_env_def)

lemma demo_base_safe: "base_safe demo_base"
  by (simp add: base_safe_def demo_base_def NewBaseSimulator_def)

theorem Engine_never_panics_witness:
  "\<exists>e. engine_runs [(''a'', None, base_ops demo_env, CInit (plain_config ''raft'' [])),
        (''b'', None, base_ops demo_env, CStart), (''s'', None, base_ops demo_env, CSetSpeed (Fin 20)),
        (''c'', None, base_ops demo_env, CInjectFault demo_fault),
        (''d'', None, base_ops demo_env, CStep), (''e'', None, base_ops demo_env, CSwitch ''raft'' True)]
      (register_all [(''raft'', \<lparr>fa_Create = demo_base, fa_GetDescription = demo_desc\<rparr>)] (NewEngine None)) = Inr e"
  using Engine_never_panics [of "[(''raft'', \<lparr>fa_Create = demo_base, fa_GetDescription = demo_desc\<rparr>)]"
      "[(''a'', None, demo_env, CInit (plain_config ''raft'' [])), (''b'', None, demo_env, CStart), (''s'', None, demo_env, CSetSpeed (Fin 20)),
        (''c'', None, demo_env, CInjectFault demo_fault), (''d'', None, demo_env, CStep),
        (''e'', None, demo_env, CSwitch ''raft'' True)]" None]
  by (simp add: demo_env_safe demo_base_safe cmd_ok_def del: engine_runs.simps)

subsection \<open>Switching simulators\<close>

text \<open>Switching with the state preserved carries the state over: the new simulator, freshly
  created and initialised, ends up in the state the old one was in, its dynamic values in JSON
  form, and the engine is idle.\<close>

theorem Engine_Switch_preserves:
  assumes "en_active e = Some s" and "state_json (bs_state s) = Some j"
    and "Registry_Get m (en_reg e) = Some f" and "base_safe (fa_Create f)" and "bus_ok (en_eventBus e)"
  shows "\<exists>e' s'. Engine_Switch uid now (base_ops v) m True e = Inr (None, e') \<and>
    en_active e' = Some s' \<and> bs_state s' = normal_state (bs_state s) \<and> Engine_GetStatus e' = StatusIdle"
proof -
  let ?e = "e\<lparr>en_active := Some (Base_Stop s)\<rparr>"
  let ?cfg = "(en_config e)\<lparr>cf_Module := m\<rparr>"
  obtain s1 where s1: "Base_Init (env_forder v) (env_aorder v) ?cfg (fa_Create f) = Inr s1"
    using Init_safe [OF assms(4)] by blast
  have imp: "Base_ImportState j s1 = (False, s1\<lparr>bs_state := normal_state (bs_state s)\<rparr>)"
    using json_state_json [OF assms(2)] by (simp add: Base_ImportState_def)
  obtain eb where "EventBus_Publish uid now (engine_event ''engine.switched'' 0 (Some [(''module'', GStr m)]))
      (en_eventBus e) = Inr eb"
    using Publish_ok [OF assms(5)] by blast
  with assms(1-3) s1 imp show ?thesis
    by (simp add: Engine_Switch_def switch_save_def switch_stop_def switch_restore_def base_ops_def Let_def
        Base_ExportState_def sim_call_def no_err_def with_active_def publish_def Engine_GetStatus_def)
qed

definition demo_engine :: "BaseSimulator Engine" where
  "demo_engine = (register_all [(''b'', \<lparr>fa_Create = demo_base, fa_GetDescription = demo_desc\<rparr>)] (NewEngine None))
     \<lparr>en_active := Some (Base_Seek (Some 1) 7 demo_base)\<rparr>"

theorem Engine_Switch_preserves_witness:
  "\<exists>e' s'. Engine_Switch ''u'' None (base_ops demo_env) ''b'' True demo_engine = Inr (None, e') \<and>
    en_active e' = Some s' \<and> st_Tick (bs_state s') = 7"
proof -
  let ?s = "Base_Seek (Some 1) 7 demo_base"
  have "\<exists>j. state_json (bs_state ?s) = Some j"
    by (simp add: Base_Seek_def demo_base_def NewBaseSimulator_def state_json_def fresh_State_def
        nodes_json_def data_json_def)
  then obtain j where j: "state_json (bs_state ?s) = Some j" ..
  have reg: "Registry_Get ''b'' (en_reg demo_engine) = Some \<lparr>fa_Create = demo_base, fa_GetDescription = demo_desc\<rparr>"
    by (simp add: demo_engine_def register_all_def Engine_Register_def NewEngine_def NewRegistry_def
        Registry_Register_def Registry_Get_def)
  have "en_active demo_engine = Some ?s" "bus_ok (en_eventBus demo_engine)"
    by (simp_all add: demo_engine_def NewEngine_def bus_ok_New)
  from Engine_Switch_preserves [OF this(1) j reg _ this(2), of "''u''" None demo_env] show ?thesis
    by (auto simp: demo_base_safe Base_Seek_def)
qed

text \<open>Switching to a module nobody registered fails after it has stopped the simulator that was
  active, while the engine goes on reporting the status it had.\<close>

theorem Engine_Switch_unknown:
  assumes "en_active e = Some s" and "Registry_Get m (en_reg e) = None"
  shows "Engine_Switch uid now (base_ops v) m False e =
    Inr (Some (SimulatorNotFound m), e\<lparr>en_active := Some (Base_Stop s)\<rparr>) \<and>
    Engine_GetStatus (e\<lparr>en_active := Some (Base_Stop s)\<rparr>) = Engine_GetStatus e"
  using assms by (simp add: Engine_Switch_def switch_save_def switch_stop_def base_ops_def Engine_GetStatus_def)

theorem Engine_Switch_unknown_witness:
  "\<exists>e. Engine_Switch ''u'' None (base_ops demo_env) ''x'' False demo_engine = Inr (Some (SimulatorNotFound ''x''), e)"
proof -
  have "Registry_Get ''x'' (en_reg demo_engine) = None"
    by (simp add: demo_engine_def register_all_def Engine_Register_def NewEngine_def NewRegistry_def
        Registry_Register_def Registry_Get_def)
  moreover have "en_active demo_engine = Some (Base_Seek (Some 1) 7 demo_base)" by (simp add: demo_engine_def)
  ultimately show ?thesis using Engine_Switch_unknown by blast
qed

end
