(* ===== verification/SimCalls.thy ===== *)
theory SimCalls
  imports EngineSafety GoFloat
begin

section \<open>What a module asks of its base simulator\<close>

text \<open>
  The modules embed a base simulator and report to it: they emit events, set global data and node
  states.  A module's operation returns its calls in order, and \<open>perform\<close> carries one out on
  the base simulator, with the identity and the time it gets.  \<open>CallTeaching\<close> is the helper
  that publishes linked effects and the feedback on the process; its two explanatory texts are
  left out.
\<close>

datatype base_call =
    CallEmit string NodeID NodeID gdata
  | CallGlobal string gval
  | CallNode NodeID NodeState
  | CallTeaching string f64 "(string \<times> gval) list"

text \<open>
  The packages of modules publish the linked effects in the same way, with the severity of a fault
  and the blocking flag their own.
\<close>

record effect_style =
  es_severity :: string
  es_blocking :: bool

definition consensus_style :: effect_style where
  "consensus_style = \<lparr>es_severity = ''high'', es_blocking = False\<rparr>"

definition blockchain_style :: effect_style where
  "blockchain_style = \<lparr>es_severity = ''medium'', es_blocking = False\<rparr>"

definition defi_style :: effect_style where
  "defi_style = \<lparr>es_severity = ''medium'', es_blocking = False\<rparr>"

definition crosschain_style :: effect_style where
  "crosschain_style = \<lparr>es_severity = ''high'', es_blocking = True\<rparr>"

definition network_style :: effect_style where
  "network_style = \<lparr>es_severity = ''medium'', es_blocking = False\<rparr>"

text \<open>An effect, as the fields that JSON shows, without the summary.\<close>

definition linked_effect :: "bool \<Rightarrow> string \<Rightarrow> string \<Rightarrow> string \<Rightarrow> string \<Rightarrow> string \<Rightarrow> string \<Rightarrow> gval" where
  "linked_effect blocking scope severity kind i ty target =
     GStruct ((if i = [] then [] else [(''id'', GStr i)]) @ [(''scope'', GStr scope)] @
       (if target = [] then [] else [(''target'', GStr target)]) @ [(''severity'', GStr severity)] @
       (if blocking then [(''blocking'', GBool True)] else []) @
       [(''metrics'', GMap [(''kind'', GStr kind), (''type'', GStr ty)])])"

definition buildLinkedEffects ::
  "effect_style \<Rightarrow> string \<Rightarrow> string list \<Rightarrow> string list \<Rightarrow> BaseSimulator \<Rightarrow> gval list" where
  "buildLinkedEffects st scope forder aorder s =
     map (\<lambda>f. linked_effect (es_blocking st) scope (es_severity st) ''fault'' (fl_ID f) (fl_Type f) (fl_Target f))
       (GetActiveFaults forder s) @
     map (\<lambda>a. linked_effect (es_blocking st) scope ''high'' ''attack'' (ak_ID a) (ak_Type a) (ak_Target a))
       (GetActiveAttacks aorder s)"

definition setTeachingState ::
  "effect_style \<Rightarrow> string \<Rightarrow> string list \<Rightarrow> string list \<Rightarrow> string \<Rightarrow> f64 \<Rightarrow> (string \<times> gval) list \<Rightarrow>
   BaseSimulator \<Rightarrow> BaseSimulator go" where
  "setTeachingState st scope forder aorder stage progress result s =
     go_bind (SetLinkedEffects (buildLinkedEffects st scope forder aorder s) s)
       (SetProcessFeedback (GStruct [(''stage'', GStr stage), (''progress'', GFloat progress), (''result'', GMap result)]))"

text \<open>What a call gets from its surroundings: an identity, the time, the orders of the maps.\<close>

record call_env =
  ce_uid :: string
  ce_now :: gtime
  ce_forder :: "string list"
  ce_aorder :: "string list"

definition perform :: "effect_style \<Rightarrow> string \<Rightarrow> call_env \<Rightarrow> base_call \<Rightarrow> BaseSimulator \<Rightarrow> BaseSimulator go" where
  "perform st scope v c s =
     (case c of
        CallEmit ty src tgt data \<Rightarrow> Inr (EmitEvent (ce_uid v) (ce_now v) ty src tgt data s)
      | CallGlobal k x \<Rightarrow> Base_SetGlobalData k x s
      | CallNode i n \<Rightarrow> Base_SetNodeState i (Some n) s
      | CallTeaching stage progress result \<Rightarrow>
          setTeachingState st scope (ce_forder v) (ce_aorder v) stage progress result s)"

text \<open>A list of calls, in order.\<close>

fun perform_all ::
  "effect_style \<Rightarrow> string \<Rightarrow> (nat \<Rightarrow> call_env) \<Rightarrow> base_call list \<Rightarrow> BaseSimulator \<Rightarrow> BaseSimulator go" where
  "perform_all st scope v [] s = Inr s"
| "perform_all st scope v (c # cs) s =
     go_bind (perform st scope (v (length cs)) c s) (perform_all st scope v cs)"

text \<open>No report of a module panics on a base simulator that is in order, and it stays so.\<close>

lemma perform_safe:
  assumes "base_safe s"
  shows "\<exists>s'. perform st scope v c s = Inr s' \<and> base_safe s'"
proof (cases c)
  case (CallEmit ty src tgt data)
  with assms show ?thesis by (simp add: perform_def EmitEvent_def Let_def)
next
  case (CallGlobal k x)
  with put_globals_safe [OF assms, of "[(k, x)]"] show ?thesis
    by (simp add: perform_def Base_SetGlobalData_def put_globals_single)
next
  case (CallNode i n)
  with assms show ?thesis
    by (auto simp: perform_def Base_SetNodeState_def nil_put_def base_safe_def state_maps_def)
next
  case (CallTeaching stage progress result)
  obtain s1 where s1: "SetLinkedEffects (buildLinkedEffects st scope (ce_forder v) (ce_aorder v) s) s = Inr s1" "base_safe s1"
    using put_globals_safe [OF assms] unfolding SetLinkedEffects_def by blast
  from put_globals_safe [OF s1(2), of "[(''process_feedback'', x)]" for x] s1(1) CallTeaching show ?thesis
    by (auto simp: perform_def setTeachingState_def SetProcessFeedback_def put_globals_single)
qed

lemma perform_all_safe: "base_safe s \<Longrightarrow> \<exists>s'. perform_all st scope v cs s = Inr s' \<and> base_safe s'"
proof (induction cs arbitrary: s)
  case (Cons c cs)
  obtain t where "perform st scope (v (length cs)) c s = Inr t" "base_safe t"
    using perform_safe [OF Cons.prems] by blast
  with Cons.IH [of t] show ?case by simp
qed simp

subsection \<open>Parameters of actions\<close>

text \<open>An index into a slice, and a function over a slice.\<close>

definition go_index :: "'a list \<Rightarrow> nat \<Rightarrow> 'a go" where
  "go_index xs i = (if i < length xs then Inr (xs ! i) else Inl IndexOutOfRange)"

fun go_map :: "('a \<Rightarrow> 'b go) \<Rightarrow> 'a list \<Rightarrow> 'b list go" where
  "go_map f [] = Inr []"
| "go_map f (x # xs) = go_bind (f x) (\<lambda>y. go_bind (go_map f xs) (\<lambda>ys. Inr (y # ys)))"

text \<open>A string parameter, or the default when it is missing, empty or no string.\<close>

definition text_param :: "string \<Rightarrow> string \<Rightarrow> (string, gval) gomap \<Rightarrow> string" where
  "text_param key dflt params =
     (case go_get params key of Some (GStr t) \<Rightarrow> (if t \<noteq> [] then t else dflt) | _ \<Rightarrow> dflt)"

definition int_param :: "int \<Rightarrow> string \<Rightarrow> int \<Rightarrow> (string, gval) gomap \<Rightarrow> int" where
  "int_param oob key dflt params = (case go_get params key of Some (GFloat x) \<Rightarrow> f64_to_int oob x | _ \<Rightarrow> dflt)"

end
