(* ===== verification/Raft.thy ===== *)
theory Raft
  imports SimCalls
begin

section \<open>Raft: \<open>simulations/modules/consensus/raft.go\<close>\<close>

text \<open>
  The nodes, the single queue of messages, and the handlers.  \<open>rs_calls\<close> collects the calls
  to the base simulator.  The identity and the time of a message, which nothing reads, are left
  out; a message carries a copy of the log entries, where the code shares the array of the
  sender's log.  \<open>rnd\<close> gives the random part of an election timeout.
\<close>

datatype RaftRole = Follower | Candidate | Leader

fun role_text :: "RaftRole \<Rightarrow> string" where
  "role_text Follower = ''follower''"
| "role_text Candidate = ''candidate''"
| "role_text Leader = ''leader''"

record RaftLogEntry =
  re_Term :: u64
  re_Index :: u64
  re_Command :: gval

record RaftNode =
  rn_ID :: NodeID
  rn_Role :: RaftRole
  rn_Term :: u64
  rn_VotedFor :: NodeID
  rn_Log :: "RaftLogEntry list"
  rn_CommitIndex :: u64
  rn_LastApplied :: u64
  rn_NextIndex :: "(NodeID, u64) gomap"
  rn_MatchIndex :: "(NodeID, u64) gomap"
  rn_VotesGranted :: int
  rn_ElectionTimeout :: int
  rn_HeartbeatTimeout :: int
  rn_TimeoutCounter :: int
  rn_IsOnline :: bool

datatype RaftMsgType = RequestVote | RequestVoteReply | AppendEntries | AppendEntriesReply

record RaftMessage =
  rm_Type :: RaftMsgType
  rm_Term :: u64
  rm_From :: NodeID
  rm_To :: NodeID
  rm_LeaderID :: NodeID
  rm_PrevLogIndex :: u64
  rm_PrevLogTerm :: u64
  rm_Entries :: "RaftLogEntry list"
  rm_LeaderCommit :: u64
  rm_LastLogIndex :: u64
  rm_LastLogTerm :: u64
  rm_VoteGranted :: bool
  rm_Success :: bool

record RaftSimulator =
  rs_nodes :: "(NodeID, RaftNode) gomap"
  rs_nodeList :: "NodeID list"
  rs_nodeCount :: int
  rs_leaderID :: NodeID
  rs_queue :: "RaftMessage list"
  rs_calls :: "base_call list"

text \<open>A message with the fields that every kind has, the others zero.\<close>

definition raft_msg :: "RaftMsgType \<Rightarrow> u64 \<Rightarrow> NodeID \<Rightarrow> NodeID \<Rightarrow> RaftMessage" where
  "raft_msg ty term from to = \<lparr>rm_Type = ty, rm_Term = term, rm_From = from, rm_To = to, rm_LeaderID = [],
     rm_PrevLogIndex = 0, rm_PrevLogTerm = 0, rm_Entries = [], rm_LeaderCommit = 0, rm_LastLogIndex = 0,
     rm_LastLogTerm = 0, rm_VoteGranted = False, rm_Success = False\<rparr>"

definition NewRaftSimulator :: RaftSimulator where
  "NewRaftSimulator = \<lparr>rs_nodes = [], rs_nodeList = [], rs_nodeCount = 0, rs_leaderID = [], rs_queue = [],
     rs_calls = []\<rparr>"

abbreviation node_of :: "RaftSimulator \<Rightarrow> NodeID \<Rightarrow> RaftNode option" where
  "node_of s i \<equiv> go_get (rs_nodes s) i"

definition put_node :: "NodeID \<Rightarrow> RaftNode \<Rightarrow> RaftSimulator \<Rightarrow> RaftSimulator" where
  "put_node i n s = s\<lparr>rs_nodes := go_put i n (rs_nodes s)\<rparr>"

definition send :: "RaftMessage \<Rightarrow> RaftSimulator \<Rightarrow> RaftSimulator" where
  "send msg s = s\<lparr>rs_queue := rs_queue s @ [msg]\<rparr>"

definition call :: "base_call \<Rightarrow> RaftSimulator \<Rightarrow> RaftSimulator" where
  "call c s = s\<lparr>rs_calls := rs_calls s @ [c]\<rparr>"

abbreviation u64_val :: "u64 \<Rightarrow> gval" where
  "u64_val w \<equiv> GInt (uint w)"

definition randomElectionTimeout :: "nat \<Rightarrow> int" where
  "randomElectionTimeout r = 15 + int (r mod 16)"

text \<open>The value of a numeric map at a missing key is zero.\<close>

definition num_at :: "(NodeID, u64) gomap \<Rightarrow> NodeID \<Rightarrow> u64" where
  "num_at m i = (case go_get m i of None \<Rightarrow> 0 | Some n \<Rightarrow> n)"

definition updateNodeState :: "NodeID \<Rightarrow> RaftSimulator \<Rightarrow> RaftSimulator" where
  "updateNodeState nodeID s =
     (case node_of s nodeID of
        None \<Rightarrow> s
      | Some node \<Rightarrow> call (CallNode nodeID \<lparr>ns_ID = nodeID, ns_Status = role_text (rn_Role node),
          ns_Data = Some [(''term'', u64_val (rn_Term node)), (''voted_for'', GStr (rn_VotedFor node)),
            (''last_log_index'', GInt (int (length (rn_Log node)))), (''log_length'', GInt (int (length (rn_Log node)))),
            (''commit_index'', u64_val (rn_CommitIndex node)), (''votes_granted'', GInt (rn_VotesGranted node)),
            (''next_index'', GMap (map (\<lambda>(i, n). (i, u64_val n)) (rn_NextIndex node))),
            (''match_index'', GMap (map (\<lambda>(i, n). (i, u64_val n)) (rn_MatchIndex node))),
            (''is_online'', GBool (rn_IsOnline node))],
          ns_IsByzantine = False\<rparr>) s)"

text \<open>The order of the calls over the map of nodes does not matter: they set different nodes.\<close>

definition updateAllNodeStates :: "RaftSimulator \<Rightarrow> RaftSimulator" where
  "updateAllNodeStates s = fold updateNodeState (go_keys (rs_nodes s)) s"

text \<open>The index and the term of the last entry of a log.\<close>

definition last_index :: "RaftLogEntry list \<Rightarrow> u64" where
  "last_index lg = of_nat (length lg)"

definition last_term :: "RaftLogEntry list \<Rightarrow> u64" where
  "last_term lg = (if lg = [] then 0 else re_Term (last lg))"

subsection \<open>Initialisation\<close>

definition node_name :: "nat \<Rightarrow> NodeID" where
  "node_name i = ''node-'' @ itoa i"

definition fresh_node :: "NodeID \<Rightarrow> nat \<Rightarrow> RaftNode" where
  "fresh_node i r = \<lparr>rn_ID = i, rn_Role = Follower, rn_Term = 0, rn_VotedFor = [], rn_Log = [],
     rn_CommitIndex = 0, rn_LastApplied = 0, rn_NextIndex = [], rn_MatchIndex = [], rn_VotesGranted = 0,
     rn_ElectionTimeout = randomElectionTimeout r, rn_HeartbeatTimeout = 5, rn_TimeoutCounter = 0,
     rn_IsOnline = True\<rparr>"

definition add_node :: "(nat \<Rightarrow> nat) \<Rightarrow> nat \<Rightarrow> RaftSimulator \<Rightarrow> RaftSimulator" where
  "add_node rnd i s =
     (let nodeID = node_name i;
          s = put_node nodeID (fresh_node nodeID (rnd i)) s
      in updateNodeState nodeID (s\<lparr>rs_nodeList := rs_nodeList s @ [nodeID]\<rparr>))"

text \<open>
  The part after the base simulator's own initialisation, for the number of nodes the
  configuration gives.  A negative number makes \<open>make\<close> panic.
\<close>

definition Raft_Init :: "(nat \<Rightarrow> nat) \<Rightarrow> int \<Rightarrow> RaftSimulator \<Rightarrow> RaftSimulator go" where
  "Raft_Init rnd nodeCount s =
     (if nodeCount < 0 then Inl MakeSliceLen
      else
        let s = fold (add_node rnd) [0..<nat nodeCount]
              (s\<lparr>rs_nodeCount := nodeCount, rs_nodes := [], rs_nodeList := [], rs_leaderID := [], rs_queue := []\<rparr>)
        in Inr (fold call
             [CallGlobal ''term'' (GInt 0), CallGlobal ''leader'' (GStr []), CallGlobal ''request_count'' (GInt 0),
              CallGlobal ''committed_count'' (GInt 0), CallGlobal ''committee_size'' (GInt nodeCount),
              CallGlobal ''current_actor'' (GStr []), CallGlobal ''result_height'' (GInt 0),
              CallTeaching ''raft_idle'' (Fin 0)
                [(''term'', GInt 0), (''leader'', GStr []), (''result_height'', GInt 0)]] s))"

subsection \<open>Elections\<close>

definition request_vote :: "NodeID \<Rightarrow> RaftNode \<Rightarrow> NodeID \<Rightarrow> RaftSimulator \<Rightarrow> RaftSimulator" where
  "request_vote nodeID node targetID s =
     (if targetID = nodeID then s
      else call (CallEmit ''request_vote'' nodeID targetID (Some [(''term'', u64_val (rn_Term node))]))
        (send ((raft_msg RequestVote (rn_Term node) nodeID targetID)
          \<lparr>rm_LastLogIndex := last_index (rn_Log node), rm_LastLogTerm := last_term (rn_Log node)\<rparr>) s))"

definition startElection :: "nat \<Rightarrow> NodeID \<Rightarrow> RaftSimulator \<Rightarrow> RaftSimulator" where
  "startElection r nodeID s =
     (case node_of s nodeID of
        None \<Rightarrow> s
      | Some node \<Rightarrow>
          let node = node\<lparr>rn_Term := rn_Term node + 1, rn_Role := Candidate, rn_VotedFor := nodeID,
                rn_VotesGranted := 1, rn_TimeoutCounter := 0, rn_ElectionTimeout := randomElectionTimeout r\<rparr>
          in fold (request_vote nodeID node) (rs_nodeList s)
               (call (CallEmit ''election_started'' nodeID [] (Some [(''term'', u64_val (rn_Term node))]))
                 (put_node nodeID node s)))"

definition step_down :: "u64 \<Rightarrow> RaftNode \<Rightarrow> RaftNode" where
  "step_down term node = node\<lparr>rn_Term := term, rn_Role := Follower, rn_VotedFor := []\<rparr>"

text \<open>The candidate's log is at least as up to date as the voter's.\<close>

definition up_to_date :: "RaftMessage \<Rightarrow> RaftNode \<Rightarrow> bool" where
  "up_to_date msg node \<longleftrightarrow> last_term (rn_Log node) < rm_LastLogTerm msg \<or>
     (rm_LastLogTerm msg = last_term (rn_Log node) \<and> last_index (rn_Log node) \<le> rm_LastLogIndex msg)"

definition handleRequestVote :: "RaftMessage \<Rightarrow> RaftSimulator \<Rightarrow> RaftSimulator" where
  "handleRequestVote msg s =
     (case node_of s (rm_To msg) of
        None \<Rightarrow> s
      | Some node \<Rightarrow>
          let node = (if rn_Term node < rm_Term msg then step_down (rm_Term msg) node else node);
              voteGranted = (rn_Term node \<le> rm_Term msg \<and>
                (rn_VotedFor node = [] \<or> rn_VotedFor node = rm_From msg) \<and> up_to_date msg node);
              node = (if voteGranted then node\<lparr>rn_VotedFor := rm_From msg, rn_TimeoutCounter := 0\<rparr> else node);
              reply = (raft_msg RequestVoteReply (rn_Term node) (rm_To msg) (rm_From msg))\<lparr>rm_VoteGranted := voteGranted\<rparr>
          in call (CallEmit ''vote_response'' (rm_To msg) (rm_From msg)
                 (Some [(''term'', u64_val (rn_Term node)), (''vote_granted'', GBool voteGranted)]))
               (send reply (put_node (rm_To msg) node s)))"

subsection \<open>Heartbeats\<close>

definition append_msg :: "NodeID \<Rightarrow> RaftNode \<Rightarrow> NodeID \<Rightarrow> RaftMessage go" where
  "append_msg leaderID leader targetID =
     (let next = num_at (rn_NextIndex leader) targetID;
          prevLogIndex = next - 1
      in go_bind (if 0 < prevLogIndex \<and> sint prevLogIndex \<le> int (length (rn_Log leader))
             then go_bind (go_index (rn_Log leader) (unat (prevLogIndex - 1))) (\<lambda>e. Inr (re_Term e)) else Inr 0)
           (\<lambda>prevLogTerm.
         go_bind (if sint next \<le> int (length (rn_Log leader))
             then go_slice (rn_Log leader) (unat (next - 1)) (length (rn_Log leader)) else Inr [])
           (\<lambda>entries.
         Inr ((raft_msg AppendEntries (rn_Term leader) leaderID targetID)
           \<lparr>rm_LeaderID := leaderID, rm_PrevLogIndex := prevLogIndex, rm_PrevLogTerm := prevLogTerm,
            rm_Entries := entries, rm_LeaderCommit := rn_CommitIndex leader\<rparr>))))"

fun heartbeat_loop :: "NodeID \<Rightarrow> RaftNode \<Rightarrow> NodeID list \<Rightarrow> RaftSimulator \<Rightarrow> RaftSimulator go" where
  "heartbeat_loop leaderID leader [] s = Inr s"
| "heartbeat_loop leaderID leader (targetID # rest) s =
     (if targetID = leaderID then heartbeat_loop leaderID leader rest s
      else go_bind (append_msg leaderID leader targetID) (\<lambda>msg.
        heartbeat_loop leaderID leader rest
          (call (CallEmit ''append_entries'' leaderID targetID
              (Some [(''term'', u64_val (rn_Term leader)), (''entry_count'', GInt (int (length (rm_Entries msg))))]))
            (send msg s))))"

definition sendHeartbeats :: "NodeID \<Rightarrow> RaftSimulator \<Rightarrow> RaftSimulator go" where
  "sendHeartbeats leaderID s =
     (case node_of s leaderID of
        None \<Rightarrow> Inr s
      | Some leader \<Rightarrow> if rn_Role leader \<noteq> Leader then Inr s
          else heartbeat_loop leaderID leader (rs_nodeList s) s)"

definition becomeLeader :: "NodeID \<Rightarrow> RaftSimulator \<Rightarrow> RaftSimulator go" where
  "becomeLeader nodeID s =
     (case node_of s nodeID of
        None \<Rightarrow> Inr s
      | Some node \<Rightarrow>
          let node = node\<lparr>rn_Role := Leader, rn_TimeoutCounter := 0,
                rn_NextIndex := fold (\<lambda>i. go_put i (last_index (rn_Log node) + 1)) (rs_nodeList s) (rn_NextIndex node),
                rn_MatchIndex := fold (\<lambda>i. go_put i 0) (rs_nodeList s) (rn_MatchIndex node)\<rparr>
          in sendHeartbeats nodeID
               (fold call [CallGlobal ''leader'' (GStr nodeID), CallGlobal ''term'' (u64_val (rn_Term node)),
                  CallGlobal ''current_actor'' (GStr nodeID),
                  CallEmit ''leader_elected'' nodeID [] (Some [(''term'', u64_val (rn_Term node))])]
                 ((put_node nodeID node s)\<lparr>rs_leaderID := nodeID\<rparr>)))"

definition handleRequestVoteReply :: "RaftMessage \<Rightarrow> RaftSimulator \<Rightarrow> RaftSimulator go" where
  "handleRequestVoteReply msg s =
     (case node_of s (rm_To msg) of
        None \<Rightarrow> Inr s
      | Some node \<Rightarrow>
          if rn_Role node \<noteq> Candidate then Inr s
          else if rn_Term node < rm_Term msg then Inr (put_node (rm_To msg) (step_down (rm_Term msg) node) s)
          else if rm_VoteGranted msg \<and> rm_Term msg = rn_Term node then
            let node = node\<lparr>rn_VotesGranted := rn_VotesGranted node + 1\<rparr>;
                s = put_node (rm_To msg) node s
            in if rs_nodeCount s div 2 < rn_VotesGranted node then becomeLeader (rm_To msg) s else Inr s
          else Inr s)"

subsection \<open>Replication\<close>

definition dropPendingAppendEntries :: "NodeID \<Rightarrow> RaftSimulator \<Rightarrow> RaftSimulator" where
  "dropPendingAppendEntries leaderID s =
     s\<lparr>rs_queue := filter (\<lambda>msg. \<not> (rm_Type msg = AppendEntries \<and> rm_From msg = leaderID)) (rs_queue s)\<rparr>"

text \<open>Whether the entry before the new ones is the same in the receiver's log.\<close>

definition prev_matches :: "RaftMessage \<Rightarrow> RaftNode \<Rightarrow> bool go" where
  "prev_matches msg node =
     (if rm_PrevLogIndex msg = 0 then Inr True
      else if sint (rm_PrevLogIndex msg) \<le> int (length (rn_Log node)) then
        go_bind (go_index (rn_Log node) (unat (rm_PrevLogIndex msg - 1))) (\<lambda>e. Inr (re_Term e = rm_PrevLogTerm msg))
      else Inr False)"

definition accept_entries :: "RaftMessage \<Rightarrow> RaftNode \<Rightarrow> RaftNode go" where
  "accept_entries msg node =
     go_bind (if rm_Entries msg = [] then Inr (rn_Log node)
         else go_bind (go_slice (rn_Log node) 0 (unat (rm_PrevLogIndex msg))) (\<lambda>prefix. Inr (prefix @ rm_Entries msg)))
       (\<lambda>lg. Inr (node\<lparr>rn_Log := lg,
          rn_CommitIndex := (if rn_CommitIndex node < rm_LeaderCommit msg then
             (if rm_LeaderCommit msg < last_index lg then rm_LeaderCommit msg else last_index lg)
           else rn_CommitIndex node)\<rparr>))"

definition handleAppendEntries :: "RaftMessage \<Rightarrow> RaftSimulator \<Rightarrow> RaftSimulator go" where
  "handleAppendEntries msg s =
     (case node_of s (rm_To msg) of
        None \<Rightarrow> Inr s
      | Some node \<Rightarrow>
          go_bind (if rn_Term node \<le> rm_Term msg then
              let node = (step_down (rm_Term msg) node)\<lparr>rn_TimeoutCounter := 0\<rparr>
              in go_bind (prev_matches msg node) (\<lambda>ok.
                   if ok then go_bind (accept_entries msg node) (\<lambda>node. Inr (True, node)) else Inr (False, node))
            else Inr (False, node))
          (\<lambda>(success, node).
            Inr (send ((raft_msg AppendEntriesReply (rn_Term node) (rm_To msg) (rm_From msg))\<lparr>rm_Success := success\<rparr>)
                  (put_node (rm_To msg) node s))))"

definition replicated_on :: "NodeID \<Rightarrow> u64 \<Rightarrow> RaftNode \<Rightarrow> NodeID list \<Rightarrow> int" where
  "replicated_on self idx node ids =
     1 + int (length (filter (\<lambda>i. i \<noteq> self \<and> idx \<le> num_at (rn_MatchIndex node) i) ids))"

definition handleAppendEntriesReply :: "RaftMessage \<Rightarrow> RaftSimulator \<Rightarrow> RaftSimulator go" where
  "handleAppendEntriesReply msg s =
     (case node_of s (rm_To msg) of
        None \<Rightarrow> Inr s
      | Some node \<Rightarrow>
          if rn_Role node \<noteq> Leader then Inr s
          else if rn_Term node < rm_Term msg then
            Inr (fold call [CallGlobal ''leader'' (GStr []), CallGlobal ''current_actor'' (GStr [])]
              ((put_node (rm_To msg) (step_down (rm_Term msg) node) s)\<lparr>rs_leaderID := []\<rparr>))
          else if rm_Success msg then
            let latestIndex = last_index (rn_Log node);
                node = node\<lparr>rn_NextIndex := go_put (rm_From msg) (latestIndex + 1) (rn_NextIndex node),
                  rn_MatchIndex := go_put (rm_From msg) latestIndex (rn_MatchIndex node)\<rparr>
            in if 0 < latestIndex \<and> rs_nodeCount s div 2 < replicated_on (rm_To msg) latestIndex node (rs_nodeList s) \<and>
                  rn_CommitIndex node < latestIndex
               then sendHeartbeats (rm_To msg) (dropPendingAppendEntries (rm_To msg)
                 (fold call [CallGlobal ''committed_count'' (GInt (sint latestIndex)),
                    CallGlobal ''result_height'' (GInt (sint latestIndex))]
                   (put_node (rm_To msg) (node\<lparr>rn_CommitIndex := latestIndex\<rparr>) s)))
               else Inr (put_node (rm_To msg) node s)
          else if 1 < num_at (rn_NextIndex node) (rm_From msg) then
            Inr (put_node (rm_To msg) (node\<lparr>rn_NextIndex :=
              go_put (rm_From msg) (num_at (rn_NextIndex node) (rm_From msg) - 1) (rn_NextIndex node)\<rparr>) s)
          else Inr s)"

subsection \<open>Ticks\<close>

definition processMessages :: "RaftSimulator \<Rightarrow> RaftSimulator go" where
  "processMessages s =
     (case rs_queue s of
        [] \<Rightarrow> Inr s
      | msg # rest \<Rightarrow>
          let s = s\<lparr>rs_queue := rest\<rparr>
          in case node_of s (rm_To msg) of
               None \<Rightarrow> Inr s
             | Some targetNode \<Rightarrow>
                 if \<not> rn_IsOnline targetNode then Inr s
                 else case rm_Type msg of
                        RequestVote \<Rightarrow> Inr (handleRequestVote msg s)
                      | RequestVoteReply \<Rightarrow> handleRequestVoteReply msg s
                      | AppendEntries \<Rightarrow> handleAppendEntries msg s
                      | AppendEntriesReply \<Rightarrow> handleAppendEntriesReply msg s)"

definition node_tick :: "(NodeID \<Rightarrow> nat) \<Rightarrow> NodeID \<Rightarrow> RaftSimulator \<Rightarrow> RaftSimulator go" where
  "node_tick rnd nodeID s =
     go_bind (go_deref (node_of s nodeID)) (\<lambda>node.
       if \<not> rn_IsOnline node then Inr s
       else
         let node = node\<lparr>rn_TimeoutCounter := rn_TimeoutCounter node + 1\<rparr>;
             s = put_node nodeID node s
         in if rn_Role node \<noteq> Leader then
              Inr (if rn_ElectionTimeout node \<le> rn_TimeoutCounter node then startElection (rnd nodeID) nodeID s else s)
            else if rn_HeartbeatTimeout node \<le> rn_TimeoutCounter node then
              go_bind (sendHeartbeats nodeID s) (\<lambda>s.
                go_bind (go_deref (node_of s nodeID)) (\<lambda>node.
                  Inr (put_node nodeID (node\<lparr>rn_TimeoutCounter := 0\<rparr>) s)))
            else Inr s)"

fun tick_loop :: "(NodeID \<Rightarrow> nat) \<Rightarrow> NodeID list \<Rightarrow> RaftSimulator \<Rightarrow> RaftSimulator go" where
  "tick_loop rnd [] s = Inr s"
| "tick_loop rnd (i # is) s = go_bind (node_tick rnd i s) (tick_loop rnd is)"

definition Raft_onTick :: "(NodeID \<Rightarrow> nat) \<Rightarrow> RaftSimulator \<Rightarrow> RaftSimulator go" where
  "Raft_onTick rnd s =
     go_bind (processMessages s) (\<lambda>s.
       go_bind (tick_loop rnd (rs_nodeList s) s) (\<lambda>s. Inr (updateAllNodeStates s)))"

subsection \<open>Requests and actions\<close>

datatype raft_err = NoLeader | LeaderNotFound | NoLeaderToFail | UnsupportedAction string

definition SubmitCommand :: "gval \<Rightarrow> RaftSimulator \<Rightarrow> (raft_err option \<times> RaftSimulator) go" where
  "SubmitCommand command s =
     (if rs_leaderID s = [] then Inr (Some NoLeader, s)
      else
        case node_of s (rs_leaderID s) of
          None \<Rightarrow> Inr (Some LeaderNotFound, s)
        | Some leader \<Rightarrow>
            let entry = \<lparr>re_Term = rn_Term leader, re_Index = last_index (rn_Log leader) + 1, re_Command = command\<rparr>;
                s = put_node (rs_leaderID s) (leader\<lparr>rn_Log := rn_Log leader @ [entry]\<rparr>) s;
                s = fold call [CallEmit ''command_submitted'' (rs_leaderID s) []
                    (Some [(''index'', u64_val (re_Index entry)), (''command'', command)]),
                  CallGlobal ''request_count'' (u64_val (re_Index entry)),
                  CallGlobal ''current_actor'' (GStr (rs_leaderID s))] s
            in go_bind (sendHeartbeats (rs_leaderID s) (dropPendingAppendEntries (rs_leaderID s) s)) (\<lambda>s. Inr (None, s)))"

definition SetNodeOnline :: "NodeID \<Rightarrow> bool \<Rightarrow> RaftSimulator \<Rightarrow> RaftSimulator" where
  "SetNodeOnline nodeID online s =
     (case node_of s nodeID of
        None \<Rightarrow> s
      | Some node \<Rightarrow>
          let s = put_node nodeID (node\<lparr>rn_IsOnline := online\<rparr>) s;
              s = (if \<not> online \<and> rs_leaderID s = nodeID
                   then fold call [CallGlobal ''leader'' (GStr []), CallGlobal ''current_actor'' (GStr [])]
                     (s\<lparr>rs_leaderID := []\<rparr>)
                   else s)
          in call (CallEmit ''node_status_changed'' nodeID [] (Some [(''online'', GBool online)])) s)"

text \<open>The result is the error or the status in the feedback.\<close>

definition Raft_ExecuteAction ::
  "nat \<Rightarrow> string \<Rightarrow> (string, gval) gomap \<Rightarrow> RaftSimulator \<Rightarrow> ((raft_err + string) \<times> RaftSimulator) go" where
  "Raft_ExecuteAction r action params s =
     (if action = ''submit_command'' then
        go_bind (SubmitCommand (GStr (text_param ''command'' ''set x=1'' params)) s) (\<lambda>(err, s).
          case err of
            Some e \<Rightarrow> Inr (Inl e, s)
          | None \<Rightarrow> Inr (Inr ''command_submitted'', updateAllNodeStates s))
      else if action = ''trigger_election'' then
        Inr (Inr ''election_triggered'', updateAllNodeStates (startElection r (text_param ''target'' ''node-0'' params) s))
      else if action = ''simulate_leader_failure'' then
        if rs_leaderID s = [] then Inr (Inl NoLeaderToFail, s)
        else Inr (Inr ''leader_failed'', updateAllNodeStates (SetNodeOnline (rs_leaderID s) False s))
      else if action = ''restore_node'' then
        Inr (Inr ''node_restored'', updateAllNodeStates (SetNodeOnline (text_param ''target'' ''node-0'' params) True s))
      else Inr (Inl (UnsupportedAction action), s))"

end
