(* ===== verification/RaftInv.thy ===== *)
theory RaftInv
  imports Raft
begin

section \<open>Raft: the invariant of a cluster\<close>

text \<open>
  \<open>raft_inv N\<close> bounds terms, logs and next indices by \<open>N\<close>, which every step raises by
  at most the size of the cluster plus one, so that nothing wraps around; it says that the entry at
  position \<open>k\<close> of a log carries index \<open>k + 1\<close>, and that a leader has a next index for
  every node.
\<close>

definition indexed :: "nat \<Rightarrow> RaftLogEntry list \<Rightarrow> bool" where
  "indexed p es \<longleftrightarrow> (\<forall>k < length es. re_Index (es ! k) = of_nat (p + k + 1))"

definition node_ok :: "nat \<Rightarrow> NodeID list \<Rightarrow> RaftNode \<Rightarrow> bool" where
  "node_ok N ids n \<longleftrightarrow> unat (rn_Term n) \<le> N \<and> length (rn_Log n) \<le> N \<and> indexed 0 (rn_Log n) \<and>
     (\<forall>i v. go_get (rn_NextIndex n) i = Some v \<longrightarrow> 0 < v \<and> unat v \<le> N + 1) \<and>
     (rn_Role n = Leader \<longrightarrow> (\<forall>i \<in> set ids. go_get (rn_NextIndex n) i \<noteq> None))"

definition msg_ok :: "nat \<Rightarrow> RaftMessage \<Rightarrow> bool" where
  "msg_ok N m \<longleftrightarrow> unat (rm_Term m) \<le> N \<and> unat (rm_PrevLogIndex m) + length (rm_Entries m) \<le> N \<and>
     indexed (unat (rm_PrevLogIndex m)) (rm_Entries m)"

definition raft_inv :: "nat \<Rightarrow> RaftSimulator \<Rightarrow> bool" where
  "raft_inv N s \<longleftrightarrow> (\<forall>i \<in> set (rs_nodeList s). node_of s i \<noteq> None) \<and>
     (\<forall>i n. node_of s i = Some n \<longrightarrow> node_ok N (rs_nodeList s) n) \<and> list_all (msg_ok N) (rs_queue s)"

text \<open>What one operation may do: the nodes stay, and no term falls.\<close>

definition raft_le :: "RaftSimulator \<Rightarrow> RaftSimulator \<Rightarrow> bool" where
  "raft_le s s' \<longleftrightarrow> rs_nodeList s' = rs_nodeList s \<and>
     (\<forall>i n. node_of s i = Some n \<longrightarrow> (\<exists>n'. node_of s' i = Some n' \<and> rn_Term n \<le> rn_Term n'))"

definition raft_goes :: "nat \<Rightarrow> RaftSimulator \<Rightarrow> RaftSimulator go \<Rightarrow> bool" where
  "raft_goes N s m \<longleftrightarrow> (\<exists>s'. m = Inr s' \<and> raft_inv N s' \<and> raft_le s s')"

lemma raft_le_refl [simp]: "raft_le s s"
  by (auto simp: raft_le_def)

lemma raft_le_trans: "raft_le s t \<Longrightarrow> raft_le t u \<Longrightarrow> raft_le s u"
proof -
  assume st: "raft_le s t" and tu: "raft_le t u"
  have "\<exists>n''. node_of u i = Some n'' \<and> rn_Term n \<le> rn_Term n''" if n: "node_of s i = Some n" for i n
  proof -
    from st n obtain n1 where n1: "node_of t i = Some n1" "rn_Term n \<le> rn_Term n1"
      unfolding raft_le_def by blast
    with tu obtain n2 where "node_of u i = Some n2" "rn_Term n1 \<le> rn_Term n2" unfolding raft_le_def by blast
    with n1(2) show ?thesis by (blast intro: order_trans)
  qed
  with st tu show ?thesis by (simp add: raft_le_def)
qed

lemma raft_goes_Inr [simp]: "raft_goes N s (Inr s') \<longleftrightarrow> raft_inv N s' \<and> raft_le s s'"
  by (auto simp: raft_goes_def)

lemma raft_goes_bind:
  "raft_goes N s m \<Longrightarrow> (\<And>t. raft_inv N t \<Longrightarrow> raft_le s t \<Longrightarrow> raft_goes M t (f t)) \<Longrightarrow> raft_goes M s (go_bind m f)"
proof -
  assume m: "raft_goes N s m" and f: "\<And>t. raft_inv N t \<Longrightarrow> raft_le s t \<Longrightarrow> raft_goes M t (f t)"
  from m obtain t where t: "m = Inr t" "raft_inv N t" "raft_le s t" by (auto simp: raft_goes_def)
  from f [OF t(2,3)] obtain u where "f t = Inr u" "raft_inv M u" "raft_le t u" by (auto simp: raft_goes_def)
  with t raft_le_trans [of s t u] show ?thesis by (simp add: raft_goes_def)
qed

lemma raft_goes_from: "raft_le s t \<Longrightarrow> raft_goes N t m \<Longrightarrow> raft_goes N s m"
  by (auto simp: raft_goes_def intro: raft_le_trans)

lemma node_ok_mono: "node_ok N ids n \<Longrightarrow> N \<le> M \<Longrightarrow> node_ok M ids n"
  by (fastforce simp: node_ok_def)

lemma msg_ok_mono: "msg_ok N m \<Longrightarrow> N \<le> M \<Longrightarrow> msg_ok M m"
  by (auto simp: msg_ok_def)

lemma raft_inv_mono: "raft_inv N s \<Longrightarrow> N \<le> M \<Longrightarrow> raft_inv M s"
  by (auto simp: raft_inv_def list_all_iff intro: node_ok_mono msg_ok_mono)

subsection \<open>The small steps\<close>

text \<open>Calls to the base simulator and the recorded leader are not part of the invariant.\<close>

lemma call_simps [simp]:
  "raft_inv N (call c s) = raft_inv N s" "raft_le s (call c t) = raft_le s t"
  "rs_nodes (call c s) = rs_nodes s" "rs_nodeList (call c s) = rs_nodeList s"
  "rs_leaderID (call c s) = rs_leaderID s" "rs_nodeCount (call c s) = rs_nodeCount s" "rs_queue (call c s) = rs_queue s"
  by (simp_all add: call_def raft_inv_def raft_le_def)

lemma calls_simps [simp]:
  "raft_inv N (fold call cs s) = raft_inv N s" "raft_le s (fold call cs t) = raft_le s t"
  "rs_nodes (fold call cs t) = rs_nodes t" "rs_nodeList (fold call cs t) = rs_nodeList t"
  "rs_leaderID (fold call cs t) = rs_leaderID t" "rs_nodeCount (fold call cs t) = rs_nodeCount t"
  by (induction cs arbitrary: s t) auto

lemma raft_le_from_call [simp]: "raft_le (call c s) t = raft_le s t"
  by (simp add: call_def raft_le_def)

lemma leader_simps [simp]:
  "raft_inv N (s\<lparr>rs_leaderID := i\<rparr>) = raft_inv N s" "raft_le s (t\<lparr>rs_leaderID := i\<rparr>) = raft_le s t"
  by (simp_all add: raft_inv_def raft_le_def)

lemma updateNodeState_simps [simp]:
  "raft_inv N (updateNodeState i s) = raft_inv N s" "raft_le s (updateNodeState i t) = raft_le s t"
  by (simp_all add: updateNodeState_def split: option.split)

lemma updateAll_simps [simp]:
  "raft_inv N (updateAllNodeStates s) = raft_inv N s" "raft_le s (updateAllNodeStates t) = raft_le s t"
proof -
  have "raft_inv N (fold updateNodeState is s) = raft_inv N s" "raft_le s (fold updateNodeState is t) = raft_le s t" for "is"
    by (induction "is" arbitrary: s t) auto
  then show "raft_inv N (updateAllNodeStates s) = raft_inv N s" "raft_le s (updateAllNodeStates t) = raft_le s t"
    by (simp_all add: updateAllNodeStates_def)
qed

lemma send_simps [simp]:
  "rs_nodes (send m s) = rs_nodes s" "rs_nodeList (send m s) = rs_nodeList s"
  "raft_le s (send m t) = raft_le s t"
  by (simp_all add: send_def raft_le_def)

lemma raft_inv_send [simp]: "raft_inv N (send m s) \<longleftrightarrow> raft_inv N s \<and> msg_ok N m"
  by (auto simp: send_def raft_inv_def)

lemma put_node_simps [simp]:
  "rs_nodeList (put_node i n s) = rs_nodeList s" "rs_queue (put_node i n s) = rs_queue s"
  "rs_nodes (put_node i n s) = go_put i n (rs_nodes s)" "rs_leaderID (put_node i n s) = rs_leaderID s"
  "rs_nodeCount (put_node i n s) = rs_nodeCount s"
  by (simp_all add: put_node_def)

lemma raft_inv_put: "raft_inv N s \<Longrightarrow> node_ok N (rs_nodeList s) n \<Longrightarrow> raft_inv N (put_node i n s)"
  by (auto simp: raft_inv_def split: if_splits)

lemma raft_le_put: "node_of s i = Some m \<Longrightarrow> rn_Term m \<le> rn_Term n \<Longrightarrow> raft_le s (put_node i n s)"
  by (auto simp: raft_le_def)

lemma raft_inv_node: "raft_inv N s \<Longrightarrow> node_of s i = Some n \<Longrightarrow> node_ok N (rs_nodeList s) n"
  by (simp add: raft_inv_def)

lemma raft_inv_pop: "raft_inv N s \<Longrightarrow> rs_queue s = m # q \<Longrightarrow> raft_inv N (s\<lparr>rs_queue := q\<rparr>) \<and> msg_ok N m"
  by (auto simp: raft_inv_def)

lemma raft_le_queue [simp]: "raft_le s (t\<lparr>rs_queue := q\<rparr>) = raft_le s t"
  by (simp add: raft_le_def)

lemma drop_simps [simp]:
  "raft_le s (dropPendingAppendEntries i t) = raft_le s t" "rs_nodes (dropPendingAppendEntries i t) = rs_nodes t"
  "rs_nodeList (dropPendingAppendEntries i t) = rs_nodeList t"
  by (simp_all add: dropPendingAppendEntries_def raft_le_def)

lemma raft_inv_drop: "raft_inv N s \<Longrightarrow> raft_inv N (dropPendingAppendEntries i s)"
  by (auto simp: raft_inv_def dropPendingAppendEntries_def list_all_iff)

lemma indexed_Nil [simp]: "indexed p []"
  by (simp add: indexed_def)

lemma msg_ok_raft_msg [simp]: "msg_ok N (raft_msg ty t f i) \<longleftrightarrow> unat t \<le> N"
  by (simp add: msg_ok_def raft_msg_def)

lemma msg_ok_upd [simp]:
  "msg_ok N (m\<lparr>rm_LastLogIndex := a\<rparr>) = msg_ok N m" "msg_ok N (m\<lparr>rm_LastLogTerm := b\<rparr>) = msg_ok N m"
  "msg_ok N (m\<lparr>rm_VoteGranted := c\<rparr>) = msg_ok N m" "msg_ok N (m\<lparr>rm_Success := d\<rparr>) = msg_ok N m"
  by (simp_all add: msg_ok_def)

lemma node_ok_upd [simp]:
  "node_ok N ids (n\<lparr>rn_VotedFor := v\<rparr>) = node_ok N ids n" "node_ok N ids (n\<lparr>rn_VotesGranted := g\<rparr>) = node_ok N ids n"
  "node_ok N ids (n\<lparr>rn_TimeoutCounter := c\<rparr>) = node_ok N ids n" "node_ok N ids (n\<lparr>rn_CommitIndex := ci\<rparr>) = node_ok N ids n"
  "node_ok N ids (n\<lparr>rn_MatchIndex := m\<rparr>) = node_ok N ids n" "node_ok N ids (n\<lparr>rn_IsOnline := b\<rparr>) = node_ok N ids n"
  "node_ok N ids (n\<lparr>rn_ElectionTimeout := et\<rparr>) = node_ok N ids n"
  by (simp_all add: node_ok_def)

lemma step_down_ok: "node_ok N ids n \<Longrightarrow> unat t \<le> N \<Longrightarrow> node_ok N ids (step_down t n)"
  by (simp add: node_ok_def step_down_def)

subsection \<open>Elections\<close>

lemma request_votes_inv:
  assumes "raft_inv N s" and "unat (rn_Term node) \<le> N"
  shows "raft_inv N (fold (request_vote i node) is s) \<and> raft_le s (fold (request_vote i node) is s)"
  using assms
proof (induction "is" arbitrary: s)
  case (Cons j js)
  have "raft_inv N (request_vote i node j s)" "raft_le s (request_vote i node j s)"
    using Cons.prems by (simp_all add: request_vote_def)
  with Cons.IH [of "request_vote i node j s"] Cons.prems(2) show ?case by (auto intro: raft_le_trans)
qed simp

lemma unat_Suc_le: "unat (w :: u64) \<le> N \<Longrightarrow> N < 2 ^ 62 \<Longrightarrow> unat (w + 1) = unat w + 1 \<and> w \<le> w + 1"
proof -
  assume "unat w \<le> N" "N < 2 ^ 62"
  then have lt: "unat w + 1 < 2 ^ 64" by simp
  then have "unat (w + 1) = unat w + 1" by (simp add: unat_word_ariths)
  then show ?thesis by (simp add: word_le_nat_alt)
qed

lemma startElection_inv:
  assumes "raft_inv N s" and "N < 2 ^ 62"
  shows "raft_goes (Suc N) s (Inr (startElection r i s))"
proof (cases "node_of s i")
  case None
  with assms show ?thesis by (auto simp: startElection_def intro: raft_inv_mono)
next
  case (Some n)
  let ?n = "n\<lparr>rn_Term := rn_Term n + 1, rn_Role := Candidate, rn_VotedFor := i, rn_VotesGranted := 1,
      rn_TimeoutCounter := 0, rn_ElectionTimeout := randomElectionTimeout r\<rparr>"
  let ?s = "call (CallEmit ''election_started'' i [] (Some [(''term'', u64_val (rn_Term ?n))])) (put_node i ?n s)"
  have ok: "node_ok N (rs_nodeList s) n" using assms(1) Some by (rule raft_inv_node)
  then have t: "unat (rn_Term n + 1) = unat (rn_Term n) + 1" "rn_Term n \<le> rn_Term n + 1"
    using unat_Suc_le [OF _ assms(2), of "rn_Term n"] by (auto simp: node_ok_def)
  from ok t(1) have "node_ok (Suc N) (rs_nodeList s) ?n" by (fastforce simp: node_ok_def)
  then have "raft_inv (Suc N) (put_node i ?n s)"
    using raft_inv_mono [OF assms(1), of "Suc N"] by (intro raft_inv_put) simp_all
  moreover have "raft_le s (put_node i ?n s)" using Some t(2) by (intro raft_le_put) simp_all
  moreover have t': "unat (rn_Term ?n) \<le> Suc N" using ok t(1) by (simp add: node_ok_def)
  ultimately have "raft_inv (Suc N) ?s" "raft_le s ?s" by simp_all
  with request_votes_inv [of "Suc N" ?s ?n i "rs_nodeList s"] t' Some raft_le_trans [of s ?s]
  show ?thesis by (simp add: startElection_def Let_def)
qed

lemma handleRequestVote_inv:
  assumes "raft_inv N s" and "msg_ok N m"
  shows "raft_goes N s (Inr (handleRequestVote m s))"
proof (cases "node_of s (rm_To m)")
  case (Some n)
  define n1 where "n1 = (if rn_Term n < rm_Term m then step_down (rm_Term m) n else n)"
  have ok: "node_ok N (rs_nodeList s) n" using assms(1) Some by (rule raft_inv_node)
  then have ok1: "node_ok N (rs_nodeList s) n1" and le: "rn_Term n \<le> rn_Term n1"
    using assms(2) by (auto simp: n1_def msg_ok_def step_down_ok) (simp add: step_down_def)
  then have "unat (rn_Term n1) \<le> N" by (simp add: node_ok_def)
  with ok1 le assms Some show ?thesis
    unfolding handleRequestVote_def
    by (auto simp: Let_def n1_def [symmetric] intro!: raft_inv_put raft_le_put)
qed (use assms in \<open>simp add: handleRequestVote_def\<close>)

subsection \<open>Heartbeats\<close>

lemma go_get_put_all: "go_get (fold (\<lambda>i. go_put i v) is m) k = (if k \<in> set is then Some v else go_get m k)"
  by (induction "is" arbitrary: m) auto

lemma sint_small:
  assumes "unat (w :: u64) < 2 ^ 63"
  shows "sint w = int (unat w)"
proof -
  have "int (unat w) < int (2 ^ 63)" using assms by (simp only: of_nat_less_iff)
  then have "int (unat w) < 2 ^ 63" by simp
  then have "signed_take_bit 63 (int (unat w)) = int (unat w)"
    by (intro signed_take_bit_int_eq_self) (simp_all add: order_trans [OF _ uint_ge_0])
  then show ?thesis by (simp add: sint_uint)
qed

lemma indexed_drop: "indexed p es \<Longrightarrow> indexed (p + n) (drop n es)"
  by (auto simp: indexed_def add.commute add.left_commute)

lemma indexed_append: "indexed p (es @ fs) \<longleftrightarrow> indexed p es \<and> indexed (p + length es) fs"
proof
  assume l: "indexed p (es @ fs)"
  show "indexed p es \<and> indexed (p + length es) fs"
    using l indexed_drop [OF l, of "length es"]
    by (auto simp: indexed_def nth_append split: if_splits)
next
  assume "indexed p es \<and> indexed (p + length es) fs"
  then show "indexed p (es @ fs)" by (auto simp: indexed_def nth_append)
qed

lemma indexed_take: "indexed p es \<Longrightarrow> indexed p (take n es)"
  by (simp add: indexed_def)

text \<open>The next index of a leader for a node of the cluster, and the message it makes.\<close>

lemma append_msg_ok:
  assumes ok: "node_ok N ids n" and L: "rn_Role n = Leader" and j: "j \<in> set ids" and N: "N < 2 ^ 62"
  shows "\<exists>m. append_msg i n j = Inr m \<and> msg_ok N m"
proof -
  from ok L j obtain v where v: "go_get (rn_NextIndex n) j = Some v" "0 < v" "unat v \<le> N + 1"
    by (fastforce simp: node_ok_def)
  define k where "k = unat v - 1"
  have vk: "unat v = Suc k" "k \<le> N" using v(2,3) by (auto simp: k_def word_less_nat_alt)
  have pk: "unat (v - 1) = k" using vk v(2) by (simp add: unat_sub word_le_nat_alt)
  have s1: "sint v = int (Suc k)" using vk N by (simp add: sint_small)
  have s2: "sint (v - 1) = int k" using pk vk(2) N by (simp add: sint_small)
  have "0 < v - 1 \<longleftrightarrow> 0 < k" by (simp add: word_less_nat_alt pk)
  moreover have "unat (v - 1 - 1) = k - 1" if "0 < k"
    using that pk unat_minus_one [of "v - 1"] by fastforce
  ultimately have "\<exists>t. (if 0 < v - 1 \<and> sint (v - 1) \<le> int (length (rn_Log n))
       then go_bind (go_index (rn_Log n) (unat (v - 1 - 1))) (\<lambda>e. Inr (re_Term e)) else Inr 0) = Inr t"
    by (auto simp: s2 go_index_def)
  then obtain t where t: "(if 0 < v - 1 \<and> sint (v - 1) \<le> int (length (rn_Log n))
       then go_bind (go_index (rn_Log n) (unat (v - 1 - 1))) (\<lambda>e. Inr (re_Term e)) else Inr 0) = Inr t" ..
  have e: "(if sint v \<le> int (length (rn_Log n)) then go_slice (rn_Log n) k (length (rn_Log n)) else Inr [])
     = (Inr (drop k (rn_Log n)) :: RaftLogEntry list go)"
    by (auto simp: s1 go_slice_def)
  have fits: "k + (length (rn_Log n) - k) \<le> N" if "sint v \<le> int (length (rn_Log n))"
    using that s1 ok by (simp add: node_ok_def)
  show ?thesis
    using ok vk pk t e indexed_drop [of 0 "rn_Log n" k]
    by (simp add: append_msg_def num_at_def v(1) Let_def msg_ok_def raft_msg_def node_ok_def split del: if_split)
      (cases "sint v \<le> int (length (rn_Log n))"; use fits in simp)
qed

lemma heartbeat_loop_inv:
  assumes "raft_inv N s" and "node_ok N ids n" and "rn_Role n = Leader" and "N < 2 ^ 62" and "set js \<subseteq> set ids"
  shows "raft_goes N s (heartbeat_loop i n js s)"
  using assms(1,5)
proof (induction js arbitrary: s)
  case (Cons j js)
  obtain m where m: "append_msg i n j = Inr m" "msg_ok N m"
    using append_msg_ok [OF assms(2,3) _ assms(4), of j i] Cons.prems(2) by auto
  from Cons.prems m(2) have "raft_goes N (call c (send m s)) (heartbeat_loop i n js (call c (send m s)))" for c
    by (intro Cons.IH) simp_all
  from raft_goes_from [OF _ this, of s] Cons m(1) show ?case by simp
qed simp

lemma sendHeartbeats_inv:
  assumes "raft_inv N s" and "N < 2 ^ 62"
  shows "raft_goes N s (sendHeartbeats i s)"
  using assms by (auto simp: sendHeartbeats_def intro!: heartbeat_loop_inv raft_inv_node split: option.split)

lemma last_index_bound:
  assumes "node_ok N ids n" and "N < 2 ^ 62"
  shows "unat (last_index (rn_Log n)) = length (rn_Log n)" and "unat (last_index (rn_Log n) + 1) = Suc (length (rn_Log n))"
    and "0 < last_index (rn_Log n) + 1"
proof -
  from assms have l: "Suc (length (rn_Log n)) < 2 ^ 64" by (simp add: node_ok_def)
  then show u: "unat (last_index (rn_Log n)) = length (rn_Log n)" by (simp add: last_index_def unat_of_nat)
  with l show u1: "unat (last_index (rn_Log n) + 1) = Suc (length (rn_Log n))" by (simp add: unat_word_ariths)
  show "0 < last_index (rn_Log n) + 1" using u1 by (simp add: word_less_nat_alt del: unat_1)
qed

lemma becomeLeader_inv:
  assumes "raft_inv N s" and "N < 2 ^ 62"
  shows "raft_goes N s (becomeLeader i s)"
proof (cases "node_of s i")
  case (Some n)
  let ?n = "n\<lparr>rn_Role := Leader, rn_TimeoutCounter := 0,
      rn_NextIndex := fold (\<lambda>i. go_put i (last_index (rn_Log n) + 1)) (rs_nodeList s) (rn_NextIndex n),
      rn_MatchIndex := fold (\<lambda>i. go_put i 0) (rs_nodeList s) (rn_MatchIndex n)\<rparr>"
  have ok: "node_ok N (rs_nodeList s) n" using assms(1) Some by (rule raft_inv_node)
  then have "node_ok N (rs_nodeList s) ?n"
    using last_index_bound [OF ok assms(2)] by (auto simp: node_ok_def go_get_put_all)
  with assms(1) have "raft_inv N (put_node i ?n s)" by (rule raft_inv_put)
  moreover have "raft_le s (put_node i ?n s)" by (rule raft_le_put [OF Some]) simp
  ultimately show ?thesis
    using Some assms(2) by (auto simp: becomeLeader_def Let_def intro!: raft_goes_from [OF _ sendHeartbeats_inv])
qed (use assms in \<open>simp add: becomeLeader_def\<close>)

lemma put_goes:
  assumes "raft_inv N s" and "node_of s i = Some n" and "node_ok N (rs_nodeList s) n'" and "rn_Term n \<le> rn_Term n'"
  shows "raft_inv N (put_node i n' s)" and "raft_le s (put_node i n' s)"
  using assms by (auto intro: raft_inv_put raft_le_put)

lemma handleRequestVoteReply_inv:
  assumes "raft_inv N s" and "msg_ok N m" and "N < 2 ^ 62"
  shows "raft_goes N s (handleRequestVoteReply m s)"
proof (cases "node_of s (rm_To m)")
  case (Some n)
  let ?n = "n\<lparr>rn_VotesGranted := rn_VotesGranted n + 1\<rparr>"
  have ok: "node_ok N (rs_nodeList s) n" using assms(1) Some by (rule raft_inv_node)
  have g: "raft_inv N (put_node (rm_To m) ?n s)" "raft_le s (put_node (rm_To m) ?n s)"
    using put_goes [OF assms(1) Some, of ?n] ok by simp_all
  have d: "raft_inv N (put_node (rm_To m) (step_down (rm_Term m) n) s)"
      "raft_le s (put_node (rm_To m) (step_down (rm_Term m) n) s)" if "rn_Term n < rm_Term m"
    using put_goes [OF assms(1) Some, of "step_down (rm_Term m) n"] step_down_ok [OF ok] assms(2) that
    by (simp_all add: msg_ok_def step_down_def)
  show ?thesis
    using Some g d assms(1) raft_goes_from [OF g(2) becomeLeader_inv [OF g(1) assms(3)]]
    by (auto simp: handleRequestVoteReply_def Let_def)
qed (use assms in \<open>simp add: handleRequestVoteReply_def\<close>)

subsection \<open>Replication\<close>

lemma prev_matches_ok:
  assumes "unat (rm_PrevLogIndex m) \<le> N" and "N < 2 ^ 62"
  shows "\<exists>b. prev_matches m n = Inr b \<and> (b \<longrightarrow> unat (rm_PrevLogIndex m) \<le> length (rn_Log n))"
proof -
  let ?p = "rm_PrevLogIndex m"
  have s: "sint ?p = int (unat ?p)" using assms by (simp add: sint_small)
  show ?thesis
  proof (cases "?p = 0 \<or> length (rn_Log n) < unat ?p")
    case False
    moreover from this have "unat ?p \<noteq> 0" by (simp add: unat_eq_0)
    ultimately have "unat (?p - 1) < length (rn_Log n)" by (auto simp: unat_minus_one)
    moreover have "sint ?p \<le> int (length (rn_Log n))" using False by (simp only: s of_nat_le_iff) simp
    ultimately show ?thesis using False by (simp add: prev_matches_def go_index_def)
  next
    case True
    moreover have "\<not> sint ?p \<le> int (length (rn_Log n))" if "length (rn_Log n) < unat ?p"
      using that by (simp only: s of_nat_le_iff not_le)
    ultimately show ?thesis by (cases "?p = 0") (auto simp: prev_matches_def)
  qed
qed

lemma accept_entries_ok:
  assumes ok: "node_ok N ids n" and m: "msg_ok N m" and p: "unat (rm_PrevLogIndex m) \<le> length (rn_Log n)"
  shows "\<exists>n'. accept_entries m n = Inr n' \<and> node_ok N ids n' \<and> rn_Term n' = rn_Term n"
proof (cases "rm_Entries m = []")
  case True
  with ok show ?thesis by (auto simp: accept_entries_def)
next
  case False
  from p indexed_take [of 0 "rn_Log n" "unat (rm_PrevLogIndex m)"] ok m
  have "indexed 0 (take (unat (rm_PrevLogIndex m)) (rn_Log n) @ rm_Entries m)"
    by (simp add: indexed_append node_ok_def msg_ok_def min_absorb2)
  with False ok m p show ?thesis
    by (simp add: accept_entries_def go_slice_def node_ok_def msg_ok_def min_absorb2)
qed

lemma handleAppendEntries_inv:
  assumes "raft_inv N s" and "msg_ok N m" and "N < 2 ^ 62"
  shows "raft_goes N s (handleAppendEntries m s)"
proof (cases "node_of s (rm_To m)")
  case (Some n)
  let ?n = "(step_down (rm_Term m) n)\<lparr>rn_TimeoutCounter := 0\<rparr>"
  have ok: "node_ok N (rs_nodeList s) n" using assms(1) Some by (rule raft_inv_node)
  have t: "unat (rm_Term m) \<le> N" and p: "unat (rm_PrevLogIndex m) \<le> N"
    using assms(2) by (simp_all add: msg_ok_def)
  have ok': "node_ok N (rs_nodeList s) ?n" using step_down_ok [OF ok t] by simp
  obtain b where b: "prev_matches m ?n = Inr b" "b \<longrightarrow> unat (rm_PrevLogIndex m) \<le> length (rn_Log ?n)"
    using prev_matches_ok [OF p assms(3)] by blast
  have "\<exists>r n'. (if rn_Term n \<le> rm_Term m then go_bind (prev_matches m ?n) (\<lambda>ok.
        if ok then go_bind (accept_entries m ?n) (\<lambda>node. Inr (True, node)) else Inr (False, ?n))
      else Inr (False, n)) = Inr (r, n') \<and> node_ok N (rs_nodeList s) n' \<and> rn_Term n \<le> rn_Term n'"
  proof (cases "rn_Term n \<le> rm_Term m \<and> b")
    case True
    then obtain n' where "accept_entries m ?n = Inr n'" "node_ok N (rs_nodeList s) n'" "rn_Term n' = rm_Term m"
      using accept_entries_ok [OF ok' assms(2)] b(2) by (auto simp: step_down_def)
    with True b(1) show ?thesis by (intro exI [of _ True] exI [of _ n']) simp
  next
    case False
    with b(1) ok ok' show ?thesis by (auto simp: step_down_def)
  qed
  then obtain r n' where e: "(if rn_Term n \<le> rm_Term m then go_bind (prev_matches m ?n) (\<lambda>ok.
        if ok then go_bind (accept_entries m ?n) (\<lambda>node. Inr (True, node)) else Inr (False, ?n))
      else Inr (False, n)) = Inr (r, n')" and g: "node_ok N (rs_nodeList s) n'" "rn_Term n \<le> rn_Term n'"
    by blast
  from g(1) have "unat (rn_Term n') \<le> N" by (simp add: node_ok_def)
  then show ?thesis
    using Some e put_goes [OF assms(1) Some g] unfolding handleAppendEntries_def Let_def by (simp split del: if_split)
qed (use assms in \<open>simp add: handleAppendEntries_def\<close>)

lemma handleAppendEntriesReply_inv:
  assumes "raft_inv N s" and "msg_ok N m" and "N < 2 ^ 62"
  shows "raft_goes N s (handleAppendEntriesReply m s)"
proof (cases "node_of s (rm_To m)")
  case (Some n)
  let ?l = "last_index (rn_Log n)"
  let ?n = "n\<lparr>rn_NextIndex := go_put (rm_From m) (?l + 1) (rn_NextIndex n),
      rn_MatchIndex := go_put (rm_From m) ?l (rn_MatchIndex n)\<rparr>"
  have ok: "node_ok N (rs_nodeList s) n" using assms(1) Some by (rule raft_inv_node)
  have ok1: "node_ok N (rs_nodeList s) ?n"
    using ok last_index_bound [OF ok assms(3)] by (auto simp: node_ok_def)
  note g = put_goes [OF assms(1) Some]
  have d: "node_ok N (rs_nodeList s) (step_down (rm_Term m) n)" "rn_Term n < rm_Term m \<Longrightarrow> rn_Term n \<le> rn_Term (step_down (rm_Term m) n)"
    using step_down_ok [OF ok] assms(2) by (simp_all add: msg_ok_def step_down_def)
  have dec: "node_ok N (rs_nodeList s) (n\<lparr>rn_NextIndex := go_put j (num_at (rn_NextIndex n) j - 1) (rn_NextIndex n)\<rparr>)"
    if j: "1 < num_at (rn_NextIndex n) j" for j
  proof -
    from j obtain v where v: "go_get (rn_NextIndex n) j = Some v" "1 < v"
      by (auto simp: num_at_def split: option.splits)
    from v(2) have v1: "1 < unat v" by (simp add: word_less_nat_alt)
    then have "unat (v - 1) = unat v - 1" by (intro unat_minus_one) auto
    moreover have "unat v \<le> N + 1" using v(1) ok by (fastforce simp: node_ok_def)
    ultimately have "0 < v - 1 \<and> unat (v - 1) \<le> N + 1" using v1 by (simp add: word_less_nat_alt)
    with v(1) ok show ?thesis by (simp add: node_ok_def num_at_def)
  qed
  let ?c = "n\<lparr>rn_NextIndex := go_put (rm_From m) (?l + 1) (rn_NextIndex n),
      rn_MatchIndex := go_put (rm_From m) ?l (rn_MatchIndex n), rn_CommitIndex := ?l\<rparr>"
  have ok2: "node_ok N (rs_nodeList s) ?c" using ok1 by (simp add: node_ok_def)
  have hb: "raft_goes N s (sendHeartbeats (rm_To m) (dropPendingAppendEntries (rm_To m) (fold call cs (put_node (rm_To m) ?c s))))" for cs
    using g [OF ok2] assms(3)
    by (intro raft_goes_from [OF _ sendHeartbeats_inv]) (auto intro: raft_inv_drop simp del: fold_Cons fold_Nil)
  have "rn_Term n < rm_Term m \<Longrightarrow> raft_goes N s (Inr (put_node (rm_To m) (step_down (rm_Term m) n) s))"
      "1 < num_at (rn_NextIndex n) j \<Longrightarrow> raft_goes N s (Inr (put_node (rm_To m)
         (n\<lparr>rn_NextIndex := go_put j (num_at (rn_NextIndex n) j - 1) (rn_NextIndex n)\<rparr>) s))"
      "raft_goes N s (Inr (put_node (rm_To m) ?n s))" for j
    using g [OF d(1) d(2)] g [OF dec] g [OF ok1] by simp_all
  with hb Some assms(1) show ?thesis
    by (simp add: handleAppendEntriesReply_def Let_def del: fold_Cons fold_Nil)
qed (use assms in \<open>simp add: handleAppendEntriesReply_def\<close>)

subsection \<open>Ticks, requests and actions\<close>

lemma processMessages_inv:
  assumes "raft_inv N s" and "N < 2 ^ 62"
  shows "raft_goes N s (processMessages s)"
proof (cases "rs_queue s")
  case (Cons m q)
  let ?s = "s\<lparr>rs_queue := q\<rparr>"
  have s: "raft_inv N ?s" "msg_ok N m" using raft_inv_pop [OF assms(1) Cons] by simp_all
  have "raft_goes N ?s (Inr (handleRequestVote m ?s))" "raft_goes N ?s (handleRequestVoteReply m ?s)"
      "raft_goes N ?s (handleAppendEntries m ?s)" "raft_goes N ?s (handleAppendEntriesReply m ?s)"
    using s assms(2)
    by (intro handleRequestVote_inv handleRequestVoteReply_inv handleAppendEntries_inv handleAppendEntriesReply_inv; simp)+
  then have "raft_goes N s (Inr (handleRequestVote m ?s))" "raft_goes N s (handleRequestVoteReply m ?s)"
      "raft_goes N s (handleAppendEntries m ?s)" "raft_goes N s (handleAppendEntriesReply m ?s)"
    by (auto intro: raft_goes_from [of s ?s] simp del: raft_goes_Inr)
  with s(1) Cons show ?thesis
    by (auto simp: processMessages_def Let_def split: option.split RaftMsgType.split simp del: raft_goes_Inr)
      (auto simp: raft_goes_def)
qed (use assms in \<open>simp add: processMessages_def\<close>)

lemma node_tick_inv:
  assumes "raft_inv N s" and "N < 2 ^ 62" and "i \<in> set (rs_nodeList s)"
  shows "raft_goes (Suc N) s (node_tick rnd i s)"
proof -
  from assms(1,3) obtain n where Some: "node_of s i = Some n" by (auto simp: raft_inv_def)
  let ?n = "n\<lparr>rn_TimeoutCounter := rn_TimeoutCounter n + 1\<rparr>"
  let ?s = "put_node i ?n s"
  have ok: "node_ok N (rs_nodeList s) n" using assms(1) Some by (rule raft_inv_node)
  have g: "raft_inv N ?s" "raft_le s ?s"
    using put_goes [OF assms(1) Some, of ?n] ok by simp_all
  have up: "raft_inv (Suc N) t" if "raft_inv N t" for t using raft_inv_mono [OF that] by simp
  have e: "raft_goes (Suc N) s (Inr (startElection r i ?s))" for r
    using raft_goes_from [OF g(2) startElection_inv [OF g(1) assms(2)]] .
  have "raft_goes (Suc N) ?s (go_bind (sendHeartbeats i ?s) (\<lambda>s. go_bind (go_deref (node_of s i)) (\<lambda>node.
      Inr (put_node i (node\<lparr>rn_TimeoutCounter := 0\<rparr>) s))))"
  proof (rule raft_goes_bind [OF sendHeartbeats_inv [OF g(1) assms(2)]])
    fix t assume t: "raft_inv N t" "raft_le ?s t"
    then obtain n' where n': "node_of t i = Some n'"
      unfolding raft_le_def by (metis go_get_put put_node_simps(3))
    from put_goes [OF t(1) n', of "n'\<lparr>rn_TimeoutCounter := 0\<rparr>"] raft_inv_node [OF t(1) n']
    show "raft_goes (Suc N) t (go_bind (go_deref (node_of t i)) (\<lambda>node. Inr (put_node i (node\<lparr>rn_TimeoutCounter := 0\<rparr>) t)))"
      by (simp add: n' up)
  qed
  from raft_goes_from [OF g(2) this] e g up assms(1) Some show ?thesis
    by (simp add: node_tick_def Let_def)
qed

lemma tick_loop_inv:
  assumes "raft_inv N s" and "N + length is < 2 ^ 62" and "set is \<subseteq> set (rs_nodeList s)"
  shows "raft_goes (N + length is) s (tick_loop rnd is s)"
  using assms
proof (induction "is" arbitrary: N s)
  case (Cons i js)
  have "raft_goes (Suc N) s (node_tick rnd i s)" using Cons.prems by (intro node_tick_inv) simp_all
  then show ?case
  proof (simp only: tick_loop.simps, rule raft_goes_bind)
    fix t assume t: "raft_inv (Suc N) t" "raft_le s t"
    then have "set js \<subseteq> set (rs_nodeList t)" using Cons.prems(3) by (simp add: raft_le_def)
    with Cons.IH [OF t(1)] Cons.prems(2) show "raft_goes (N + length (i # js)) t (tick_loop rnd js t)" by simp
  qed
qed simp

lemma onTick_inv:
  assumes "raft_inv N s" and "N + length (rs_nodeList s) < 2 ^ 62"
  shows "raft_goes (N + length (rs_nodeList s)) s (Raft_onTick rnd s)"
  unfolding Raft_onTick_def
proof (rule raft_goes_bind [OF processMessages_inv [OF assms(1)]])
  fix t assume t: "raft_inv N t" "raft_le s t"
  have l: "rs_nodeList t = rs_nodeList s" using t(2) by (simp add: raft_le_def)
  show "raft_goes (N + length (rs_nodeList s)) t (go_bind (tick_loop rnd (rs_nodeList t) t) (\<lambda>s. Inr (updateAllNodeStates s)))"
    by (rule raft_goes_bind [where N = "N + length (rs_nodeList s)"]) (use t(1) l assms(2) in \<open>auto intro: tick_loop_inv [of N t "rs_nodeList t", simplified l]\<close>)
qed (use assms in simp)

lemma SetNodeOnline_inv:
  assumes "raft_inv N s"
  shows "raft_inv N (SetNodeOnline i b s) \<and> raft_le s (SetNodeOnline i b s)"
  using assms put_goes [OF assms] raft_inv_node [OF assms]
  by (auto simp: SetNodeOnline_def Let_def split: option.split)

lemma SubmitCommand_inv:
  assumes "raft_inv N s" and "Suc N < 2 ^ 62"
  shows "\<exists>r s'. SubmitCommand c s = Inr (r, s') \<and> raft_inv (Suc N) s' \<and> raft_le s s'"
proof (cases "rs_leaderID s = [] \<or> node_of s (rs_leaderID s) = None")
  case True
  have "raft_inv (Suc N) s" using raft_inv_mono [OF assms(1)] by simp
  with True show ?thesis by (auto simp: SubmitCommand_def)
next
  case False
  then obtain n where Some: "node_of s (rs_leaderID s) = Some n" and ne: "rs_leaderID s \<noteq> []" by auto
  let ?e = "\<lparr>re_Term = rn_Term n, re_Index = last_index (rn_Log n) + 1, re_Command = c\<rparr>"
  let ?n = "n\<lparr>rn_Log := rn_Log n @ [?e]\<rparr>"
  have ok: "node_ok N (rs_nodeList s) n" using assms(1) Some by (rule raft_inv_node)
  have up: "raft_inv (Suc N) s" using raft_inv_mono [OF assms(1)] by simp
  have "indexed 0 (rn_Log n @ [?e])"
    using ok by (auto simp: node_ok_def indexed_append) (simp_all add: indexed_def last_index_def)
  then have "node_ok (Suc N) (rs_nodeList s) ?n" using ok by (fastforce simp: node_ok_def)
  note g = put_goes [OF up Some this]
  have "raft_goes (Suc N) s (sendHeartbeats i (dropPendingAppendEntries i (fold call cs (put_node (rs_leaderID s) ?n s))))" for i cs
    using g assms(2)
    by (intro raft_goes_from [OF _ sendHeartbeats_inv]) (auto intro: raft_inv_drop simp del: fold_Cons fold_Nil)
  then obtain s' where "sendHeartbeats (rs_leaderID s) (dropPendingAppendEntries (rs_leaderID s)
      (fold call [CallEmit ''command_submitted'' (rs_leaderID s) []
          (Some [(''index'', u64_val (re_Index ?e)), (''command'', c)]),
        CallGlobal ''request_count'' (u64_val (re_Index ?e)),
        CallGlobal ''current_actor'' (GStr (rs_leaderID s))] (put_node (rs_leaderID s) ?n s))) = Inr s'"
      "raft_inv (Suc N) s'" "raft_le s s'"
    unfolding raft_goes_def by blast
  with Some ne show ?thesis by (simp add: SubmitCommand_def Let_def)
qed

lemma ExecuteAction_inv:
  assumes "raft_inv N s" and "Suc N < 2 ^ 62"
  shows "\<exists>r s'. Raft_ExecuteAction rnd a ps s = Inr (r, s') \<and> raft_inv (Suc N) s' \<and> raft_le s s'"
proof -
  have up: "raft_inv (Suc N) t" if "raft_inv N t" for t using raft_inv_mono [OF that] by simp
  obtain r s' where "SubmitCommand (GStr (text_param ''command'' ''set x=1'' ps)) s = Inr (r, s')" "raft_inv (Suc N) s'" "raft_le s s'"
    using SubmitCommand_inv [OF assms] by blast
  moreover have "raft_goes (Suc N) s (Inr (startElection rnd i s))" for i
    using assms by (intro startElection_inv) simp_all
  moreover have "raft_inv (Suc N) (SetNodeOnline i b s) \<and> raft_le s (SetNodeOnline i b s)" for i b
    using SetNodeOnline_inv [OF assms(1)] up by blast
  ultimately show ?thesis
    using up [OF assms(1)] by (auto simp: Raft_ExecuteAction_def split: option.split)
qed

lemma add_nodes_inv:
  "raft_inv 0 s \<Longrightarrow> (\<forall>i n. node_of s i = Some n \<longrightarrow> rn_Role n \<noteq> Leader) \<Longrightarrow>
   raft_inv 0 (fold (add_node rnd) is s) \<and> rs_nodeList (fold (add_node rnd) is s) = rs_nodeList s @ map node_name is"
proof (induction "is" arbitrary: s)
  case (Cons i js)
  let ?s = "add_node rnd i s"
  have node: "node_of ?s k = (if k = node_name i then Some (fresh_node (node_name i) (rnd i)) else node_of s k)" for k
    by (simp add: add_node_def Let_def updateNodeState_def)
  have l: "rs_nodeList ?s = rs_nodeList s @ [node_name i]" "rs_queue ?s = rs_queue s"
    by (simp_all add: add_node_def Let_def updateNodeState_def)
  have "node_ok 0 ids (fresh_node (node_name i) (rnd i))" for ids by (simp add: node_ok_def fresh_node_def)
  moreover have "node_ok 0 (rs_nodeList ?s) n" if "node_of s k = Some n" for k n
    using Cons.prems that by (auto simp: raft_inv_def node_ok_def)
  moreover have "node_of s k \<noteq> None" if "k \<in> set (rs_nodeList s)" for k
    using Cons.prems(1) that by (simp add: raft_inv_def)
  ultimately have "raft_inv 0 ?s" using Cons.prems(1) by (auto simp: raft_inv_def node l)
  moreover have "\<forall>k n. node_of ?s k = Some n \<longrightarrow> rn_Role n \<noteq> Leader"
    using Cons.prems(2) by (simp add: node fresh_node_def)
  ultimately show ?case using Cons.IH [of ?s] l by simp
qed simp

lemma Init_inv:
  assumes "0 \<le> n"
  shows "\<exists>s'. Raft_Init rnd n s = Inr s' \<and> raft_inv 0 s' \<and> length (rs_nodeList s') = nat n"
proof -
  let ?s = "s\<lparr>rs_nodeCount := n, rs_nodes := [], rs_nodeList := [], rs_leaderID := [], rs_queue := []\<rparr>"
  have "raft_inv 0 ?s" by (simp add: raft_inv_def)
  from add_nodes_inv [OF this, of rnd "[0..<nat n]"] assms show ?thesis
    by (auto simp: Raft_Init_def Let_def simp del: fold_Cons fold_Nil)
qed

end
