(* ===== verification/RaftFacts.thy ===== *)
theory RaftFacts
  imports RaftInv
begin

section \<open>Raft: properties\<close>

text \<open>
  The steps of a cluster, the invariant that keeps every step from panicking and the terms from
  falling, what a vote requires, and two runs in which the guarantees of Raft are lost.
\<close>

datatype raft_cmd =
    RTick "NodeID \<Rightarrow> nat" | RAction nat string "(string, gval) gomap" | ROnline NodeID bool

fun raft_exec :: "raft_cmd \<Rightarrow> RaftSimulator \<Rightarrow> RaftSimulator go" where
  "raft_exec (RTick rnd) s = Raft_onTick rnd s"
| "raft_exec (RAction r a ps) s = go_bind (Raft_ExecuteAction r a ps s) (\<lambda>(_, s). Inr s)"
| "raft_exec (ROnline i b) s = Inr (SetNodeOnline i b s)"

fun raft_execs :: "raft_cmd list \<Rightarrow> RaftSimulator \<Rightarrow> RaftSimulator go" where
  "raft_execs [] s = Inr s"
| "raft_execs (c # cs) s = go_bind (raft_exec c s) (raft_execs cs)"

subsection \<open>Every run is safe\<close>

lemma raft_exec_inv:
  assumes "raft_inv N s" and "N + length (rs_nodeList s) + 1 < 2 ^ 62"
  shows "raft_goes (N + (length (rs_nodeList s) + 1)) s (raft_exec c s)"
proof (cases c)
  case (RTick rnd)
  from onTick_inv [OF assms(1), of rnd] assms(2) RTick show ?thesis
    by (auto simp: raft_goes_def elim!: raft_inv_mono)
next
  case (RAction r a ps)
  from ExecuteAction_inv [OF assms(1), of r a ps] assms(2) RAction show ?thesis
    by (auto simp: raft_goes_def elim!: raft_inv_mono)
next
  case (ROnline i b)
  from SetNodeOnline_inv [OF assms(1), of i b] ROnline show ?thesis
    by (auto elim!: raft_inv_mono)
qed

lemma raft_execs_inv:
  assumes "raft_inv N s" and "N + length cs * (length (rs_nodeList s) + 1) < 2 ^ 62"
  shows "raft_goes (N + length cs * (length (rs_nodeList s) + 1)) s (raft_execs cs s)"
  using assms
proof (induction cs arbitrary: N s)
  case (Cons c cs)
  let ?k = "length (rs_nodeList s) + 1"
  have "raft_goes (N + ?k) s (raft_exec c s)" using Cons.prems by (intro raft_exec_inv) simp_all
  then show ?case
  proof (simp only: raft_execs.simps, rule raft_goes_bind)
    fix t assume t: "raft_inv (N + ?k) t" "raft_le s t"
    have l: "length (rs_nodeList t) + 1 = ?k" using t(2) by (simp add: raft_le_def)
    have "N + ?k + length cs * ?k = N + length (c # cs) * ?k" by simp
    with Cons.IH [OF t(1)] Cons.prems(2) l
    show "raft_goes (N + length (c # cs) * ?k) t (raft_execs cs t)" by (simp only:)
  qed
qed simp

text \<open>C12. A cluster of \<open>n\<close> nodes never panics: whatever ticks, actions and failures it is
  given, in whatever order, every index into a log is in range, as long as the counters have room;
  and it stays in order, so that the entry at position \<open>k\<close> of every log carries index
  \<open>k + 1\<close> and every leader has a next index for every node.\<close>

theorem Raft_never_panics:
  assumes "length cs * (n + 1) < 2 ^ 62"
  shows "\<exists>s. go_bind (Raft_Init rnd (int n) s0) (raft_execs cs) = Inr s \<and> raft_inv (length cs * (n + 1)) s"
proof -
  obtain s1 where s1: "Raft_Init rnd (int n) s0 = Inr s1" "raft_inv 0 s1" "length (rs_nodeList s1) = n"
    using Init_inv [of "int n" rnd s0] by auto
  from raft_execs_inv [OF s1(2), of cs] s1 assms show ?thesis by (auto simp: raft_goes_def)
qed

theorem Raft_never_panics_witness:
  "\<exists>s. go_bind (Raft_Init (\<lambda>_. 15) (int 3) NewRaftSimulator)
       (raft_execs [RAction 0 ''trigger_election'' [], RTick (\<lambda>_. 15), RAction 0 ''submit_command'' []]) = Inr s \<and>
     raft_inv (length [RAction 0 ''trigger_election'' [], RTick (\<lambda>_. 15), RAction 0 ''submit_command'' []] * (3 + 1)) s"
  by (rule Raft_never_panics) simp

text \<open>The term of a node never falls and the node never disappears, over any run of a
  cluster in order, while the counters have room.\<close>

theorem Raft_terms_monotone:
  assumes "raft_inv N s" and "N + length cs * (length (rs_nodeList s) + 1) < 2 ^ 62"
    and "raft_execs cs s = Inr s'" and "node_of s i = Some n"
  shows "\<exists>n'. node_of s' i = Some n' \<and> rn_Term n \<le> rn_Term n'"
  using raft_execs_inv [OF assms(1,2)] assms(3,4) unfolding raft_goes_def raft_le_def by auto

theorem Raft_terms_monotone_witness:
  "\<exists>n'. node_of (the (case raft_execs [ROnline ''a'' False] (put_node ''a'' (fresh_node ''a'' 1) NewRaftSimulator)
         of Inr s \<Rightarrow> Some s | _ \<Rightarrow> None)) ''a'' = Some n' \<and> rn_Term (fresh_node ''a'' 1) \<le> rn_Term n'"
  by (rule Raft_terms_monotone [of 0 "put_node ''a'' (fresh_node ''a'' 1) NewRaftSimulator" "[ROnline ''a'' False]"])
    (auto simp: raft_inv_def node_ok_def fresh_node_def NewRaftSimulator_def)

subsection \<open>Votes\<close>

text \<open>
  The two operations that vote: a node answers a vote request, and a node that starts an election
  votes for itself.  The votes are read off the messages sent: a granted reply is a vote of its
  sender for its receiver, and a vote request tells that its sender has voted for itself.
\<close>

datatype vote_event = Ask RaftMessage | Elect nat NodeID

fun vote_step :: "vote_event \<Rightarrow> RaftSimulator \<Rightarrow> RaftSimulator" where
  "vote_step (Ask m) s = handleRequestVote m s"
| "vote_step (Elect r i) s = startElection r i s"

fun named :: "vote_event \<Rightarrow> bool" where
  "named (Ask m) \<longleftrightarrow> rm_From m \<noteq> []"
| "named (Elect r i) \<longleftrightarrow> i \<noteq> []"

fun event_term :: "vote_event \<Rightarrow> u64" where
  "event_term (Ask m) = rm_Term m"
| "event_term (Elect r i) = 0"

definition vote_of :: "RaftMessage \<Rightarrow> (NodeID \<times> u64 \<times> NodeID) option" where
  "vote_of m =
     (if rm_Type m = RequestVote then Some (rm_From m, rm_Term m, rm_From m)
      else if rm_Type m = RequestVoteReply \<and> rm_VoteGranted m then Some (rm_From m, rm_Term m, rm_To m)
      else None)"

abbreviation sent_since :: "nat \<Rightarrow> RaftSimulator \<Rightarrow> RaftMessage set" where
  "sent_since k s \<equiv> set (drop k (rs_queue s))"

definition terms_le :: "nat \<Rightarrow> RaftSimulator \<Rightarrow> bool" where
  "terms_le B s \<longleftrightarrow> (\<forall>i n. node_of s i = Some n \<longrightarrow> unat (rn_Term n) \<le> B)"

text \<open>A vote sent is remembered by its voter, until the voter is in a later term.\<close>

definition remembered :: "RaftSimulator \<Rightarrow> NodeID \<times> u64 \<times> NodeID \<Rightarrow> bool" where
  "remembered s = (\<lambda>(v, t, c). c \<noteq> [] \<and>
     (\<exists>n. node_of s v = Some n \<and> t \<le> rn_Term n \<and> (rn_Term n = t \<longrightarrow> rn_VotedFor n = c)))"

definition vote_inv :: "nat \<Rightarrow> nat \<Rightarrow> RaftSimulator \<Rightarrow> bool" where
  "vote_inv k B s \<longleftrightarrow> k \<le> length (rs_queue s) \<and> terms_le B s \<and>
     (\<forall>m \<in> sent_since k s. \<forall>x. vote_of m = Some x \<longrightarrow> remembered s x) \<and>
     (\<forall>m1 \<in> sent_since k s. \<forall>m2 \<in> sent_since k s. \<forall>v t c1 c2.
        vote_of m1 = Some (v, t, c1) \<longrightarrow> vote_of m2 = Some (v, t, c2) \<longrightarrow> c1 = c2)"

text \<open>An operation that writes one node back and sends messages whose votes are the one this node has
  now cast keeps the invariant, if a vote already cast in the term stays.\<close>

lemma vote_inv_put:
  assumes inv: "vote_inv k B s" and n: "node_of s i = Some n"
    and nodes: "rs_nodes s' = go_put i n' (rs_nodes s)" and queue: "rs_queue s' = rs_queue s @ ms"
    and votes: "\<And>m x. m \<in> set ms \<Longrightarrow> vote_of m = Some x \<Longrightarrow> x = (i, rn_Term n', rn_VotedFor n') \<and> rn_VotedFor n' \<noteq> []"
    and up: "rn_Term n \<le> rn_Term n'"
    and keep: "rn_Term n' = rn_Term n \<Longrightarrow> rn_VotedFor n \<noteq> [] \<Longrightarrow> rn_VotedFor n' = rn_VotedFor n"
    and B: "B \<le> B'" "unat (rn_Term n') \<le> B'"
  shows "vote_inv k B' s'"
proof -
  have sent: "sent_since k s' = sent_since k s \<union> set ms"
    using inv queue by (simp add: vote_inv_def)
  have terms: "terms_le B' s'"
    using inv B nodes by (auto simp: vote_inv_def terms_le_def go_get_put intro: order_trans)
  have old: "remembered s' x" if "m \<in> sent_since k s" "vote_of m = Some x" for m x
  proof -
    obtain v t c where x: "x = (v, t, c)" by (cases x)
    have r: "remembered s x" using inv that unfolding vote_inv_def by blast
    show ?thesis
    proof (cases "v = i")
      case True
      with r n x have c: "c \<noteq> []" "t \<le> rn_Term n" "rn_Term n = t \<longrightarrow> rn_VotedFor n = c"
        by (auto simp: remembered_def)
      have "rn_VotedFor n' = c" if "rn_Term n' = t"
      proof -
        have "rn_Term n = t" using that up c(2) by (intro antisym) simp_all
        with c keep that show ?thesis by simp
      qed
      with c(1,2) up True x nodes show ?thesis by (auto simp: remembered_def go_get_put intro: order_trans)
    qed (use r x nodes in \<open>auto simp: remembered_def go_get_put\<close>)
  qed
  have new: "remembered s' x" if "m \<in> set ms" "vote_of m = Some x" for m x
    using votes [OF that] nodes by (auto simp: remembered_def go_get_put)
  have all: "remembered s' x" if "m \<in> sent_since k s'" "vote_of m = Some x" for m x
    using that old new unfolding sent by blast
  have same: "c1 = c2" if "m1 \<in> sent_since k s'" "m2 \<in> set ms" "vote_of m1 = Some (v, t, c1)"
    "vote_of m2 = Some (v, t, c2)" for m1 m2 v t c1 c2
  proof -
    have "v = i" "t = rn_Term n'" "c2 = rn_VotedFor n'" using votes [OF that(2,4)] by simp_all
    with all [OF that(1,3)] nodes show ?thesis by (auto simp: remembered_def go_get_put)
  qed
  have "c1 = c2" if "m1 \<in> sent_since k s'" "m2 \<in> sent_since k s'" "vote_of m1 = Some (v, t, c1)"
    "vote_of m2 = Some (v, t, c2)" for m1 m2 v t c1 c2
  proof (cases "m1 \<in> set ms \<or> m2 \<in> set ms")
    case True
    then show ?thesis using same [OF that(1) _ that(3,4)] same [OF that(2) _ that(4,3)] by blast
  next
    case False
    with that sent have "m1 \<in> sent_since k s" "m2 \<in> sent_since k s" by blast+
    with inv that(3,4) show ?thesis unfolding vote_inv_def by blast
  qed
  moreover have "k \<le> length (rs_queue s')" using inv queue by (simp add: vote_inv_def)
  ultimately show ?thesis using all terms unfolding vote_inv_def by blast
qed

lemma vote_inv_mono: "vote_inv k B s \<Longrightarrow> B \<le> B' \<Longrightarrow> vote_inv k B' s"
  unfolding vote_inv_def terms_le_def by (elim conjE) (intro conjI allI impI; meson order_trans)

lemma handleRequestVote_votes:
  assumes "vote_inv k B s" and "rm_From m \<noteq> []" and "unat (rm_Term m) \<le> B"
  shows "vote_inv k B (handleRequestVote m s)"
proof (cases "node_of s (rm_To m)")
  case (Some n)
  define n1 where "n1 = (if rn_Term n < rm_Term m then step_down (rm_Term m) n else n)"
  define g where "g \<longleftrightarrow> rn_Term n1 \<le> rm_Term m \<and> (rn_VotedFor n1 = [] \<or> rn_VotedFor n1 = rm_From m) \<and> up_to_date m n1"
  define n' where "n' = (if g then n1\<lparr>rn_VotedFor := rm_From m, rn_TimeoutCounter := 0\<rparr> else n1)"
  define reply where "reply = (raft_msg RequestVoteReply (rn_Term n') (rm_To m) (rm_From m))\<lparr>rm_VoteGranted := g\<rparr>"
  have h: "rs_nodes (handleRequestVote m s) = go_put (rm_To m) n' (rs_nodes s)"
    "rs_queue (handleRequestVote m s) = rs_queue s @ [reply]"
    unfolding handleRequestVote_def Let_def Some option.case n1_def [symmetric] g_def [symmetric] n'_def [symmetric]
    by (simp_all add: reply_def send_def put_node_def)
  have t: "rn_Term n \<le> rn_Term n'" "unat (rn_Term n') \<le> B"
    using assms Some by (auto simp: n'_def n1_def step_down_def vote_inv_def terms_le_def)
  have v: "rn_Term n' = rn_Term n \<Longrightarrow> rn_VotedFor n \<noteq> [] \<Longrightarrow> rn_VotedFor n' = rn_VotedFor n"
    by (auto simp: n'_def n1_def g_def step_down_def split: if_splits)
  have r: "x = (rm_To m, rn_Term n', rn_VotedFor n') \<and> rn_VotedFor n' \<noteq> []"
    if "q \<in> set [reply]" "vote_of q = Some x" for q x
    using that assms(2) by (auto simp: reply_def vote_of_def raft_msg_def n'_def split: if_splits)
  show ?thesis by (rule vote_inv_put [OF assms(1) Some h r t(1) v order_refl t(2)])
qed (use assms in \<open>simp add: handleRequestVote_def\<close>)

text \<open>A vote is given only to a candidate whose log is at least as up to date as the voter's.\<close>

lemma handleRequestVote_up_to_date:
  assumes "node_of s (rm_To m) = Some n" and "rm_VoteGranted (last (rs_queue (handleRequestVote m s)))"
  shows "up_to_date m n"
  using assms
  by (auto simp: handleRequestVote_def Let_def send_def call_def put_node_def raft_msg_def step_down_def
      up_to_date_def split: if_splits)

lemma request_vote_sends:
  "\<exists>ms. rs_queue (request_vote i n j s) = rs_queue s @ ms \<and> rs_nodes (request_vote i n j s) = rs_nodes s \<and>
        (\<forall>m \<in> set ms. vote_of m = Some (i, rn_Term n, i))"
  by (cases "j = i") (simp_all add: request_vote_def send_def vote_of_def raft_msg_def)

lemma request_votes:
  "\<exists>ms. rs_queue (fold (request_vote i n) ids s) = rs_queue s @ ms \<and>
        rs_nodes (fold (request_vote i n) ids s) = rs_nodes s \<and>
        (\<forall>m \<in> set ms. vote_of m = Some (i, rn_Term n, i))"
proof (induction ids arbitrary: s)
  case (Cons j ids)
  let ?s = "request_vote i n j s"
  obtain ms where ms: "rs_queue ?s = rs_queue s @ ms" "rs_nodes ?s = rs_nodes s"
    "\<forall>m \<in> set ms. vote_of m = Some (i, rn_Term n, i)"
    using request_vote_sends by blast
  obtain ns where "rs_queue (fold (request_vote i n) ids ?s) = rs_queue ?s @ ns"
    "rs_nodes (fold (request_vote i n) ids ?s) = rs_nodes ?s" "\<forall>m \<in> set ns. vote_of m = Some (i, rn_Term n, i)"
    using Cons.IH by blast
  with ms show ?case by (intro exI [of _ "ms @ ns"]) auto
qed simp

lemma startElection_votes:
  assumes "vote_inv k B s" and "i \<noteq> []" and "Suc B < 2 ^ 64"
  shows "vote_inv k (Suc B) (startElection r i s)"
proof (cases "node_of s i")
  case (Some n)
  define n' where "n' = n\<lparr>rn_Term := rn_Term n + 1, rn_Role := Candidate, rn_VotedFor := i, rn_VotesGranted := 1,
    rn_TimeoutCounter := 0, rn_ElectionTimeout := randomElectionTimeout r\<rparr>"
  define s1 where "s1 = call (CallEmit ''election_started'' i [] (Some [(''term'', u64_val (rn_Term n'))])) (put_node i n' s)"
  have e: "startElection r i s = fold (request_vote i n') (rs_nodeList s) s1"
    using Some by (simp add: startElection_def n'_def s1_def Let_def)
  obtain ms where h: "rs_queue (startElection r i s) = rs_queue s1 @ ms"
    "rs_nodes (startElection r i s) = rs_nodes s1" "\<forall>m \<in> set ms. vote_of m = Some (i, rn_Term n', i)"
    unfolding e using request_votes by blast
  have "unat (rn_Term n) \<le> B" using assms(1) Some by (simp add: vote_inv_def terms_le_def)
  with assms(3) have u: "unat (rn_Term n') = Suc (unat (rn_Term n))"
    by (simp add: n'_def unat_word_ariths)
  show ?thesis
  proof (rule vote_inv_put [OF assms(1) Some])
    show "rs_nodes (startElection r i s) = go_put i n' (rs_nodes s)"
      and "rs_queue (startElection r i s) = rs_queue s @ ms"
      using h by (simp_all add: s1_def put_node_def)
    show "rn_Term n \<le> rn_Term n'" by (simp add: word_le_nat_alt u)
    show "unat (rn_Term n') \<le> Suc B" using u \<open>unat (rn_Term n) \<le> B\<close> by simp
    show "rn_VotedFor n' = rn_VotedFor n" if "rn_Term n' = rn_Term n" using that u by simp
    show "x = (i, rn_Term n', rn_VotedFor n') \<and> rn_VotedFor n' \<noteq> []" if "m \<in> set ms" "vote_of m = Some x" for m x
      using that h(3) assms(2) by (auto simp: n'_def)
  qed simp
next
  case None
  then show ?thesis using vote_inv_mono [OF assms(1), of "Suc B"] by (simp add: startElection_def)
qed

lemma votes_inv:
  assumes "vote_inv k B s" and "\<forall>e \<in> set es. named e \<and> unat (event_term e) \<le> B" and "B + length es < 2 ^ 64"
  shows "vote_inv k (B + length es) (fold vote_step es s)"
  using assms
proof (induction es arbitrary: B s)
  case (Cons e es)
  have "vote_inv k (Suc B) (vote_step e s)"
  proof (cases e)
    case (Ask m)
    with Cons.prems have "vote_inv k B (vote_step e s)" by (simp add: handleRequestVote_votes)
    then show ?thesis by (rule vote_inv_mono) simp
  qed (use Cons.prems in \<open>simp add: startElection_votes\<close>)
  moreover have "\<forall>e \<in> set es. named e \<and> unat (event_term e) \<le> Suc B" using Cons.prems(2) by (auto intro: le_SucI)
  ultimately show ?case using Cons.IH [of "Suc B" "vote_step e s"] Cons.prems(3) by simp
qed simp

text \<open>C30. One vote in a term.  Whatever vote requests a cluster answers and whatever elections its nodes
  start, in any order, no node votes for two candidates in one term: two votes sent by one node in
  one term, granted replies or its own candidacy, are for the same candidate.  The candidates have
  names, and the terms have room to grow.  (A heartbeat handled in between can break this, see
  below.)\<close>

theorem Raft_one_vote:
  assumes "terms_le B s" and "\<forall>e \<in> set es. named e \<and> unat (event_term e) \<le> B" and "B + length es < 2 ^ 64"
    and "m1 \<in> sent_since (length (rs_queue s)) (fold vote_step es s)"
    and "m2 \<in> sent_since (length (rs_queue s)) (fold vote_step es s)"
    and "vote_of m1 = Some (v, t, c1)" and "vote_of m2 = Some (v, t, c2)"
  shows "c1 = c2"
proof -
  have "vote_inv (length (rs_queue s)) B s" using assms(1) by (simp add: vote_inv_def)
  from votes_inv [OF this assms(2,3)] assms(4-7) show ?thesis unfolding vote_inv_def by blast
qed

definition vote_demo :: "NodeID \<Rightarrow> RaftMessage" where
  "vote_demo i = raft_msg RequestVote 1 i ''a''"

definition voter_demo :: RaftSimulator where
  "voter_demo = put_node ''a'' (fresh_node ''a'' 1) NewRaftSimulator"

definition voted_demo :: RaftSimulator where
  "voted_demo = fold vote_step [Ask (vote_demo ''b''), Ask (vote_demo ''c'')] voter_demo"

lemma voted_demo_queue:
  "length (rs_queue voted_demo) = 2" "rs_queue voter_demo = []"
  "vote_of (rs_queue voted_demo ! 0) = Some (''a'', 1, ''b'')"
  by code_simp+

text \<open>The node a, asked by b and then by c, votes for b and so not for c.\<close>

theorem Raft_one_vote_witness:
  "vote_of (rs_queue voted_demo ! 0) = Some (''a'', 1, ''b'') \<and>
   vote_of (rs_queue voted_demo ! 1) \<noteq> Some (''a'', 1, ''c'')"
proof -
  let ?es = "[Ask (vote_demo ''b''), Ask (vote_demo ''c'')]"
  have t: "terms_le 1 voter_demo" by (auto simp: terms_le_def voter_demo_def fresh_node_def put_node_def NewRaftSimulator_def)
  have e: "\<forall>e \<in> set ?es. named e \<and> unat (event_term e) \<le> 1" by (simp add: vote_demo_def raft_msg_def)
  have q: "rs_queue voted_demo ! k \<in> sent_since (length (rs_queue voter_demo)) (fold vote_step ?es voter_demo)"
    if "k < 2" for k
    using that unfolding voted_demo_def [symmetric] by (simp add: voted_demo_queue)
  have "(''b'' :: string) = ''c''" if "vote_of (rs_queue voted_demo ! 1) = Some (''a'', 1, ''c'')"
    by (rule Raft_one_vote [OF t e _ q q voted_demo_queue(3) that]) simp_all
  then show ?thesis using voted_demo_queue(3) by auto
qed

subsection \<open>Two runs\<close>

abbreviation tick :: raft_cmd where
  "tick \<equiv> RTick (\<lambda>_. 15)"

abbreviation elect :: "NodeID \<Rightarrow> raft_cmd" where
  "elect i \<equiv> RAction 15 ''trigger_election'' [(''target'', GStr i)]"

definition run_two_leaders :: "RaftSimulator go" where
  "run_two_leaders = go_bind (Raft_Init (\<lambda>_. 15) 3 NewRaftSimulator)
     (raft_execs ([ROnline ''node-1'' False, elect ''node-0''] @ replicate 4 tick @
        [ROnline ''node-1'' True, elect ''node-1''] @ replicate 6 tick))"

definition leaders_of :: "RaftSimulator \<Rightarrow> (NodeID \<times> u64) list" where
  "leaders_of s = map (\<lambda>(i, n). (i, rn_Term n)) (filter (\<lambda>(i, n). rn_Role n = Leader) (rs_nodes s))"

text \<open>Two leaders in one term.  A follower forgets its vote when it receives a heartbeat of the
  same term, and then votes for another candidate of that term: a cluster of three nodes reaches a
  state with two leaders of term one.\<close>

theorem Raft_two_leaders:
  "map_sum id leaders_of run_two_leaders = Inr [(''node-0'', 1), (''node-1'', 1)]"
  by code_simp

definition run_commit :: "RaftSimulator go" where
  "run_commit = go_bind (Raft_Init (\<lambda>_. 15) 3 NewRaftSimulator)
     (raft_execs ([elect ''node-0''] @ replicate 6 tick @ [RAction 0 ''submit_command'' []] @ [tick]))"

definition commits_of :: "RaftSimulator \<Rightarrow> (NodeID \<times> u64 \<times> nat) list" where
  "commits_of s = map (\<lambda>(i, n). (i, rn_CommitIndex n, length (rn_Log n))) (rs_nodes s)"

text \<open>A commit without replication.  The reply to a heartbeat that carried no entries is counted
  as holding the whole log of the leader: a cluster of three nodes reaches a state in which the
  leader has committed an entry that is in no other log.\<close>

theorem Raft_commits_unreplicated:
  "map_sum id commits_of run_commit = Inr [(''node-0'', 1, 1), (''node-1'', 0, 0), (''node-2'', 0, 0)]"
  by code_simp

end
