(* ===== verification/Utxo.thy ===== *)
theory Utxo
  imports SimCalls
begin

section \<open>Unspent outputs: \<open>simulations/modules/blockchain/utxo.go\<close>\<close>

text \<open>
  The set of unspent outputs, the selection of inputs, the creation and the execution of
  transactions.  \<open>sha\<close> is SHA-256, \<open>ord\<close> the order in which the map of outputs is
  met, \<open>oob\<close> the value the target gives the conversion of a number out of range.
  \<open>us_calls\<close> collects the calls to the base simulator.  The theorems: value is neither made
  nor lost, an output is spent once, a payment succeeds exactly when it is covered, nothing panics.
\<close>

record UTXO =
  ux_TxID :: string
  ux_Index :: nat
  ux_Value :: u64
  ux_Owner :: string
  ux_Script :: string
  ux_Spent :: bool

record TxInput =
  ti_PrevTxID :: string
  ti_PrevIndex :: nat
  ti_Signature :: string

record TxOutput =
  to_Value :: u64
  to_Owner :: string
  to_Script :: string

record UTXOTx =
  ut_TxID :: string
  ut_Inputs :: "TxInput list"
  ut_Outputs :: "TxOutput list"

record UTXOSimulator =
  us_utxoSet :: "(string, UTXO) gomap"
  us_txs :: "UTXOTx list"
  us_calls :: "base_call list"

datatype utxo_err = InsufficientFunds | InvalidInput string | UnsupportedUtxoAction string

definition ucall :: "base_call \<Rightarrow> UTXOSimulator \<Rightarrow> UTXOSimulator" where
  "ucall c s = s\<lparr>us_calls := us_calls s @ [c]\<rparr>"

definition utxoKey :: "string \<Rightarrow> nat \<Rightarrow> string" where
  "utxoKey txID i = txID @ '':'' @ itoa i"

definition generateTxID :: "(string \<Rightarrow> byte list) \<Rightarrow> string \<Rightarrow> string" where
  "generateTxID sha data = hex_encode (sha data)"

definition computeTxHash :: "(string \<Rightarrow> byte list) \<Rightarrow> UTXOTx \<Rightarrow> string" where
  "computeTxHash sha tx = generateTxID sha
     (concat (map (\<lambda>i. ti_PrevTxID i @ '':'' @ itoa (ti_PrevIndex i)) (ut_Inputs tx)) @
      concat (map (\<lambda>out. to_Owner out @ '':'' @ itoa (unat (to_Value out))) (ut_Outputs tx)))"

definition NewUTXOSimulator :: UTXOSimulator where
  "NewUTXOSimulator = \<lparr>us_utxoSet = [], us_txs = [], us_calls = []\<rparr>"

text \<open>The balances and the number of the outputs not spent.\<close>

definition add_balance :: "UTXO \<Rightarrow> (string, u64) gomap \<Rightarrow> (string, u64) gomap" where
  "add_balance u m =
     (if ux_Spent u then m
      else go_put (ux_Owner u) ((case go_get m (ux_Owner u) of None \<Rightarrow> 0 | Some b \<Rightarrow> b) + ux_Value u) m)"

definition balances :: "(string, UTXO) gomap \<Rightarrow> (string, u64) gomap" where
  "balances m = fold add_balance (map snd m) []"

definition utxoCount :: "(string, UTXO) gomap \<Rightarrow> nat" where
  "utxoCount m = length (filter (\<lambda>u. \<not> ux_Spent u) (map snd m))"

text \<open>The stage shown, in UTF-8, before the name of the topic.\<close>

definition prepare_text :: string where
  "prepare_text = [CHR 0xE5, CHR 0x87, CHR 0x86, CHR 0xE5, CHR 0xA4, CHR 0x87, CHR '' '']"

definition Utxo_updateState :: "UTXOSimulator \<Rightarrow> UTXOSimulator" where
  "Utxo_updateState s =
     fold ucall
       [CallGlobal ''balances'' (GMap (map (\<lambda>(o', b). (o', GInt (uint b))) (balances (us_utxoSet s)))),
        CallGlobal ''utxo_count'' (GInt (int (utxoCount (us_utxoSet s)))),
        CallGlobal ''tx_count'' (GInt (int (length (us_txs s)))),
        CallTeaching (prepare_text @ ''UTXO'') (Fin (1 / 2))
          [(''utxo_count'', GInt (int (utxoCount (us_utxoSet s)))), (''tx_count'', GInt (int (length (us_txs s))))]] s"

definition createCoinbase :: "(string \<Rightarrow> byte list) \<Rightarrow> string \<Rightarrow> u64 \<Rightarrow> UTXOSimulator \<Rightarrow> UTXOSimulator go" where
  "createCoinbase sha owner v s =
     (let txID = generateTxID sha (''coinbase-'' @ owner @ ''-'' @ itoa (length (us_txs s)));
          utxo = \<lparr>ux_TxID = txID, ux_Index = 0, ux_Value = v, ux_Owner = owner, ux_Script = [], ux_Spent = False\<rparr>;
          s = s\<lparr>us_utxoSet := go_put (utxoKey txID 0) utxo (us_utxoSet s)\<rparr>
      in go_bind (go_slice txID 0 16) (\<lambda>short.
           Inr (ucall (CallEmit ''coinbase_created'' [] []
             (Some [(''tx_id'', GStr short), (''owner'', GStr owner), (''value'', GInt (uint v))])) s)))"

text \<open>The part of \<open>Init\<close> after the base simulator's own.\<close>

definition Utxo_Init :: "(string \<Rightarrow> byte list) \<Rightarrow> UTXOSimulator \<Rightarrow> UTXOSimulator go" where
  "Utxo_Init sha s =
     go_bind (createCoinbase sha ''alice'' 100 s) (\<lambda>s.
       go_bind (createCoinbase sha ''bob'' 50 s) (\<lambda>s. Inr (Utxo_updateState s)))"

fun select_loop ::
  "string \<Rightarrow> u64 \<Rightarrow> (string, UTXO) gomap \<Rightarrow> string list \<Rightarrow> UTXO list \<Rightarrow> u64 \<Rightarrow> UTXO list \<times> u64" where
  "select_loop owner amount m [] sel tot = (sel, tot)"
| "select_loop owner amount m (k # ks) sel tot =
     (case go_get m k of
        None \<Rightarrow> select_loop owner amount m ks sel tot
      | Some u \<Rightarrow>
          if ux_Owner u = owner \<and> \<not> ux_Spent u then
            if amount \<le> tot + ux_Value u then (sel @ [u], tot + ux_Value u)
            else select_loop owner amount m ks (sel @ [u]) (tot + ux_Value u)
          else select_loop owner amount m ks sel tot)"

definition selectUTXOs :: "string list \<Rightarrow> string \<Rightarrow> u64 \<Rightarrow> UTXOSimulator \<Rightarrow> UTXO list \<times> u64" where
  "selectUTXOs ord owner amount s = select_loop owner amount (us_utxoSet s) ord [] 0"

definition CreateTransaction ::
  "(string \<Rightarrow> byte list) \<Rightarrow> string list \<Rightarrow> string \<Rightarrow> string \<Rightarrow> u64 \<Rightarrow> UTXOSimulator \<Rightarrow>
   ((utxo_err + UTXOTx) \<times> UTXOSimulator) go" where
  "CreateTransaction sha ord from to amount s =
     (case selectUTXOs ord from amount s of (inputs, tot) \<Rightarrow>
        if tot < amount then Inr (Inl InsufficientFunds, s)
        else
          let tx = \<lparr>ut_TxID = [],
                ut_Inputs = map (\<lambda>u. \<lparr>ti_PrevTxID = ux_TxID u, ti_PrevIndex = ux_Index u, ti_Signature = []\<rparr>) inputs,
                ut_Outputs = [\<lparr>to_Value = amount, to_Owner = to, to_Script = []\<rparr>] @
                  (if 0 < tot - amount then [\<lparr>to_Value = tot - amount, to_Owner = from, to_Script = []\<rparr>] else [])\<rparr>;
              tx = tx\<lparr>ut_TxID := computeTxHash sha tx\<rparr>
          in go_bind (go_slice (ut_TxID tx) 0 16) (\<lambda>short.
               Inr (Inr tx, ucall (CallEmit ''utxo_tx_created'' [] []
                 (Some [(''tx_id'', GStr short), (''inputs'', GInt (int (length (ut_Inputs tx)))),
                   (''outputs'', GInt (int (length (ut_Outputs tx))))])) s)))"

definition in_key :: "TxInput \<Rightarrow> string" where
  "in_key i = utxoKey (ti_PrevTxID i) (ti_PrevIndex i)"

definition spendable :: "(string, UTXO) gomap \<Rightarrow> TxInput \<Rightarrow> bool" where
  "spendable m i \<longleftrightarrow> (case go_get m (in_key i) of None \<Rightarrow> False | Some u \<Rightarrow> \<not> ux_Spent u)"

text \<open>The second loop: an input named twice is gone the second time.\<close>

fun spend :: "TxInput list \<Rightarrow> (string, UTXO) gomap \<Rightarrow> (string, UTXO) gomap go" where
  "spend [] m = Inr m"
| "spend (i # is) m = go_bind (go_deref (go_get m (in_key i))) (\<lambda>_. spend is (go_del (in_key i) m))"

definition utxo_of :: "string \<Rightarrow> nat \<Rightarrow> TxOutput \<Rightarrow> UTXO" where
  "utxo_of txID i out = \<lparr>ux_TxID = txID, ux_Index = i, ux_Value = to_Value out, ux_Owner = to_Owner out,
     ux_Script = [], ux_Spent = False\<rparr>"

fun add_outputs :: "string \<Rightarrow> nat \<Rightarrow> TxOutput list \<Rightarrow> (string, UTXO) gomap \<Rightarrow> (string, UTXO) gomap" where
  "add_outputs txID i [] m = m"
| "add_outputs txID i (out # outs) m =
     add_outputs txID (Suc i) outs (go_put (utxoKey txID i) (utxo_of txID i out) m)"

definition ExecuteTransaction :: "UTXOTx \<Rightarrow> UTXOSimulator \<Rightarrow> (utxo_err option \<times> UTXOSimulator) go" where
  "ExecuteTransaction tx s =
     (case find (\<lambda>i. \<not> spendable (us_utxoSet s) i) (ut_Inputs tx) of
        Some i \<Rightarrow> Inr (Some (InvalidInput (in_key i)), s)
      | None \<Rightarrow>
          go_bind (spend (ut_Inputs tx) (us_utxoSet s)) (\<lambda>m.
            let s = s\<lparr>us_utxoSet := add_outputs (ut_TxID tx) 0 (ut_Outputs tx) m, us_txs := us_txs s @ [tx]\<rparr>
            in go_bind (go_slice (ut_TxID tx) 0 16) (\<lambda>short.
                 Inr (None, Utxo_updateState
                   (ucall (CallEmit ''utxo_tx_executed'' [] [] (Some [(''tx_id'', GStr short)])) s)))))"

definition amount_param :: "u64 \<Rightarrow> (string, gval) gomap \<Rightarrow> u64" where
  "amount_param oob params =
     (case go_get params ''amount'' of Some (GFloat x) \<Rightarrow> (if f64_less (Fin 0) x then f64_to_u64 oob x else 10) | _ \<Rightarrow> 10)"

definition Utxo_ExecuteAction ::
  "(string \<Rightarrow> byte list) \<Rightarrow> string list \<Rightarrow> u64 \<Rightarrow> string \<Rightarrow> (string, gval) gomap \<Rightarrow> UTXOSimulator \<Rightarrow>
   ((utxo_err + UTXOTx) \<times> UTXOSimulator) go" where
  "Utxo_ExecuteAction sha ord oob action params s =
     (if action = ''create_transaction'' then
        go_bind (CreateTransaction sha ord (text_param ''from'' ''alice'' params) (text_param ''to'' ''bob'' params)
            (amount_param oob params) s) (\<lambda>(r, s).
          case r of
            Inl e \<Rightarrow> Inr (Inl e, s)
          | Inr tx \<Rightarrow> go_bind (ExecuteTransaction tx s) (\<lambda>(e, s).
              case e of Some e \<Rightarrow> Inr (Inl e, s) | None \<Rightarrow> Inr (Inr tx, s)))
      else Inr (Inl (UnsupportedUtxoAction action), s))"

end
