(* ===== verification/UtxoFacts.thy ===== *)
theory UtxoFacts
  imports Utxo "HOL-Library.Sublist"
begin

section \<open>Unspent outputs: properties\<close>

text \<open>What the outputs of the owners in \<open>P\<close> are worth together.\<close>

definition u_worth :: "(string \<Rightarrow> bool) \<Rightarrow> UTXO \<Rightarrow> nat" where
  "u_worth P u = (if P (ux_Owner u) then unat (ux_Value u) else 0)"

definition worth :: "(string \<Rightarrow> bool) \<Rightarrow> (string, UTXO) gomap \<Rightarrow> nat" where
  "worth P m = sum_list (map (\<lambda>(k, u). u_worth P u) m)"

abbreviation supply_of :: "(string, UTXO) gomap \<Rightarrow> nat" where
  "supply_of \<equiv> worth (\<lambda>_. True)"

text \<open>An output is filed under its own key, none is spent, and all together fit a machine word.\<close>

definition utxo_ok :: "(string, UTXO) gomap \<Rightarrow> bool" where
  "utxo_ok m \<longleftrightarrow> go_wf m \<and> list_all (\<lambda>(k, u). k = utxoKey (ux_TxID u) (ux_Index u) \<and> \<not> ux_Spent u) m \<and>
     supply_of m < 2 ^ 64"

text \<open>The identity is not that of a transaction in the set: the hash has not collided.\<close>

definition fresh_id :: "string \<Rightarrow> (string, UTXO) gomap \<Rightarrow> bool" where
  "fresh_id t m \<longleftrightarrow> list_all (\<lambda>(k, u). ux_TxID u \<noteq> t) m"

subsection \<open>Keys\<close>

lemma itoa_no_colon: "CHR '':'' \<notin> set (itoa n)"
proof
  assume "CHR '':'' \<in> set (itoa n)"
  then obtain d where d: "d \<in> set (nat_digits 10 n)" "hex_digit d = CHR '':''"
    by (auto simp: itoa_def int_text_def)
  from nat_digits_lt [OF _ d(1)] have "d < 16" by simp
  with hex_val_digit [OF this] d(2) show False by (simp add: hex_val_def)
qed

lemma utxoKey_inj: "utxoKey t i = utxoKey t' i' \<longleftrightarrow> t = t' \<and> i = i'"
proof
  assume "utxoKey t i = utxoKey t' i'"
  then have "rev (itoa i) @ CHR '':'' # rev t = rev (itoa i') @ CHR '':'' # rev t'"
    by (simp add: utxoKey_def) (metis append_Cons append_assoc append_eq_append_conv2 rev.simps(2) rev_append rev_rev_ident append_Nil)
  then have "takeWhile (\<lambda>c. c \<noteq> CHR '':'') (rev (itoa i) @ CHR '':'' # rev t) =
      takeWhile (\<lambda>c. c \<noteq> CHR '':'') (rev (itoa i') @ CHR '':'' # rev t')" by simp
  then have "rev (itoa i) = rev (itoa i')"
    using itoa_no_colon [of i] itoa_no_colon [of i'] by (subst (asm) (1 2) takeWhile_append2) auto
  with \<open>utxoKey t i = utxoKey t' i'\<close> show "t = t' \<and> i = i'"
    by (simp add: utxoKey_def itoa_inj)
qed simp

subsection \<open>Worth\<close>

lemma worth_Nil [simp]: "worth P [] = 0"
  by (simp add: worth_def)

lemma worth_Cons [simp]: "worth P ((k, u) # m) = u_worth P u + worth P m"
  by (simp add: worth_def)

lemma go_wf_Cons: "go_wf ((k, u) # m) \<longleftrightarrow> go_get m k = None \<and> go_wf m"
  by (auto simp: go_wf_def go_keys_def go_get_None_iff)

lemma worth_put_new: "go_get m k = None \<Longrightarrow> worth P (go_put k u m) = worth P m + u_worth P u"
  by (induction m) (auto simp: go_put_def go_get_def worth_def split: if_splits)

lemma go_del_absent: "go_get m k = None \<Longrightarrow> go_del k m = m"
  by (induction m) (auto simp: go_del_def go_get_def split: if_splits)

lemma worth_del: "go_wf m \<Longrightarrow> go_get m k = Some u \<Longrightarrow> worth P m = u_worth P u + worth P (go_del k m)"
proof (induction m)
  case (Cons kv m)
  obtain k' u' where kv: "kv = (k', u')" by fastforce
  show ?case
  proof (cases "k' = k")
    case True
    with Cons.prems kv show ?thesis using go_del_absent [of m k]
      by (simp add: go_wf_Cons) (simp add: go_get_def go_del_def worth_def)
  next
    case False
    with Cons.prems kv have "worth P m = u_worth P u + worth P (go_del k m)"
      by (intro Cons.IH) (auto simp: go_wf_Cons go_get_def)
    with False kv show ?thesis by (simp add: go_del_def worth_def)
  qed
qed simp

lemma worth_le: "worth P m \<le> supply_of m"
  by (induction m) (auto simp: u_worth_def)

subsection \<open>Spending and adding outputs\<close>

definition keyed :: "(string, UTXO) gomap \<Rightarrow> bool" where
  "keyed m \<longleftrightarrow> go_wf m \<and> (\<forall>k u. go_get m k = Some u \<longrightarrow> k = utxoKey (ux_TxID u) (ux_Index u) \<and> \<not> ux_Spent u)"

lemma utxo_ok_keyed: "utxo_ok m \<longleftrightarrow> keyed m \<and> supply_of m < 2 ^ 64"
  by (auto simp: utxo_ok_def keyed_def list_all_iff go_get_def go_wf_def go_keys_def map_of_eq_Some_iff
      dest!: map_of_SomeD)

lemma keyed_del: "keyed m \<Longrightarrow> keyed (go_del k m)"
  by (auto simp: keyed_def)

lemma keyed_put: "keyed m \<Longrightarrow> keyed (go_put (utxoKey t i) (utxo_of t i out) m)"
  by (auto simp: keyed_def utxo_of_def)

lemma spend_ok:
  assumes "keyed m" and "distinct (map in_key is)" and "\<And>i. i \<in> set is \<Longrightarrow> spendable m i"
  shows "\<exists>m'. spend is m = Inr m' \<and> keyed m' \<and> (\<forall>k. go_get m' k = (if k \<in> in_key ` set is then None else go_get m k)) \<and>
     worth P m = sum_list (map (\<lambda>i. u_worth P (the (go_get m (in_key i)))) is) + worth P m'"
  using assms
proof (induction "is" arbitrary: m)
  case (Cons i js)
  let ?m = "go_del (in_key i) m"
  from Cons.prems(3) [of i] obtain u where u: "go_get m (in_key i) = Some u"
    by (auto simp: spendable_def split: option.splits)
  have other: "in_key j \<noteq> in_key i" if "j \<in> set js" for j
    using Cons.prems(2) that by (metis distinct.simps(2) image_eqI list.map(2) list.set_map)
  have sp: "spendable ?m j" if "j \<in> set js" for j
    using Cons.prems(3) [of j] other [OF that] that by (simp add: spendable_def)
  obtain m' where m': "spend js ?m = Inr m'" "keyed m'"
      "\<forall>k. go_get m' k = (if k \<in> in_key ` set js then None else go_get ?m k)"
      "worth P ?m = sum_list (map (\<lambda>j. u_worth P (the (go_get ?m (in_key j)))) js) + worth P m'"
    using Cons.IH [OF keyed_del [OF Cons.prems(1)] _ sp] Cons.prems(2) by auto
  have eq: "map (\<lambda>j. u_worth P (the (go_get ?m (in_key j)))) js = map (\<lambda>j. u_worth P (the (go_get m (in_key j)))) js"
    using other by (intro map_cong) auto
  have w: "worth P m = u_worth P u + worth P ?m"
    using Cons.prems(1) u by (intro worth_del) (simp_all add: keyed_def)
  have "worth P m = sum_list (map (\<lambda>i. u_worth P (the (go_get m (in_key i)))) (i # js)) + worth P m'"
    using w m'(4) u by (simp only: eq list.map sum_list.Cons option.sel add.assoc)
  then show ?case using m'(1-3) u by (intro exI [of _ m']) auto
qed simp

text \<open>An identity that is not in the set gives keys that are not.\<close>

definition absent :: "string \<Rightarrow> nat \<Rightarrow> (string, UTXO) gomap \<Rightarrow> bool" where
  "absent t i m \<longleftrightarrow> (\<forall>j \<ge> i. go_get m (utxoKey t j) = None)"

lemma fresh_absent: "keyed m \<Longrightarrow> fresh_id t m \<Longrightarrow> absent t 0 m"
proof -
  assume k: "keyed m" and f: "fresh_id t m"
  have "go_get m (utxoKey t j) = None" for j
  proof (rule ccontr)
    assume "go_get m (utxoKey t j) \<noteq> None"
    then obtain u where u: "go_get m (utxoKey t j) = Some u" by blast
    with k have "utxoKey t j = utxoKey (ux_TxID u) (ux_Index u)" unfolding keyed_def by blast
    then have "ux_TxID u = t" by (simp add: utxoKey_inj)
    moreover from u have "(utxoKey t j, u) \<in> set m" unfolding go_get_def by (rule map_of_SomeD)
    ultimately show False using f by (fastforce simp: fresh_id_def list_all_iff)
  qed
  then show ?thesis by (simp add: absent_def)
qed

lemma absent_put: "absent t i m \<Longrightarrow> absent t (Suc i) (go_put (utxoKey t i) u m)"
  by (auto simp: absent_def utxoKey_inj)

lemma add_outputs_ok:
  "keyed m \<Longrightarrow> absent t i m \<Longrightarrow> keyed (add_outputs t i outs m) \<and>
    worth P (add_outputs t i outs m) = worth P m + sum_list (map (\<lambda>out. if P (to_Owner out) then unat (to_Value out) else 0) outs)"
proof (induction outs arbitrary: i m)
  case (Cons out outs)
  let ?m = "go_put (utxoKey t i) (utxo_of t i out) m"
  have "worth P ?m = worth P m + u_worth P (utxo_of t i out)"
    using Cons.prems by (intro worth_put_new) (simp add: absent_def)
  with Cons.IH [of ?m "Suc i"] Cons.prems show ?case
    by (simp add: keyed_put absent_put u_worth_def) (simp add: utxo_of_def)
qed simp

subsection \<open>Selection\<close>

definition owned :: "string \<Rightarrow> (string, UTXO) gomap \<Rightarrow> string \<Rightarrow> bool" where
  "owned owner m k \<longleftrightarrow> (case go_get m k of None \<Rightarrow> False | Some u \<Rightarrow> ux_Owner u = owner \<and> \<not> ux_Spent u)"

abbreviation val_at :: "(string, UTXO) gomap \<Rightarrow> string \<Rightarrow> u64" where
  "val_at m k \<equiv> ux_Value (the (go_get m k))"

lemma select_loop_spec:
  "select_loop owner amount m ks sel t = (sel', t') \<Longrightarrow>
   \<exists>ks'. sel' = sel @ map (\<lambda>k. the (go_get m k)) ks' \<and> subseq ks' ks \<and> list_all (owned owner m) ks' \<and>
     t' = t + sum_list (map (val_at m) ks') \<and> (amount \<le> t' \<or> ks' = filter (owned owner m) ks)"
proof (induction ks arbitrary: sel t)
  case (Cons k ks)
  show ?case
  proof (cases "owned owner m k")
    case True
    then obtain u where u: "go_get m k = Some u" "ux_Owner u = owner" "\<not> ux_Spent u"
      by (auto simp: owned_def split: option.splits)
    show ?thesis
    proof (cases "amount \<le> t + ux_Value u")
      case le: True
      with Cons.prems u True show ?thesis by (intro exI [of _ "[k]"]) auto
    next
      case False
      with Cons.prems u have "select_loop owner amount m ks (sel @ [u]) (t + ux_Value u) = (sel', t')" by simp
      from Cons.IH [OF this] obtain ks' where "sel' = (sel @ [u]) @ map (\<lambda>k. the (go_get m k)) ks'" "subseq ks' ks"
          "list_all (owned owner m) ks'" "t' = t + ux_Value u + sum_list (map (val_at m) ks')"
          "amount \<le> t' \<or> ks' = filter (owned owner m) ks" by blast
      with u True show ?thesis by (intro exI [of _ "k # ks'"]) (auto simp: add.assoc)
    qed
  next
    case False
    with Cons.prems have "select_loop owner amount m ks sel t = (sel', t')"
      by (auto simp: owned_def split: option.splits)
    from Cons.IH [OF this] False show ?thesis by (auto intro: list_emb_Cons)
  qed
qed auto

text \<open>The sum over any order of the map, and a sum of words that does not overflow.\<close>

lemma worth_order:
  assumes "go_wf m" and "map_order m ks"
  shows "worth P m = sum_list (map (\<lambda>k. u_worth P (the (go_get m k))) ks)"
proof -
  have "worth P m = sum_list (map (\<lambda>k. u_worth P (the (go_get m k))) (go_keys m))"
    unfolding worth_def go_keys_def map_map
    using assms(1) by (intro arg_cong [where f = sum_list] map_cong) (auto simp: go_get_def go_wf_def go_keys_def)
  also have "\<dots> = sum (\<lambda>k. u_worth P (the (go_get m k))) (set ks)"
    using assms by (simp add: sum_list_distinct_conv_sum_set go_wf_def map_order_def)
  also have "\<dots> = sum_list (map (\<lambda>k. u_worth P (the (go_get m k))) ks)"
    using assms(2) by (simp add: sum_list_distinct_conv_sum_set map_order_def)
  finally show ?thesis .
qed

lemma unat_sum_list: "sum_list (map unat ws) < 2 ^ 64 \<Longrightarrow> unat (sum_list (ws :: u64 list)) = sum_list (map unat ws)"
proof (induction ws)
  case (Cons w ws)
  then have "unat (sum_list ws) = sum_list (map unat ws)" by simp
  with Cons.prems show ?case by (simp add: unat_word_ariths)
qed simp

lemma sum_list_subseq: "subseq xs ys \<Longrightarrow> sum_list (map f xs) \<le> (sum_list (map f ys) :: nat)"
  by (induction rule: list_emb.induct) auto

text \<open>What the selection yields when nothing is spent and the order is that of the map.\<close>

lemma select_spec:
  assumes ok: "utxo_ok m" and ord: "map_order m ord" and sel: "select_loop owner amount m ord [] 0 = (inputs, t)"
  obtains ks where "inputs = map (\<lambda>k. the (go_get m k)) ks" and "distinct ks" and "list_all (owned owner m) ks"
    and "unat t = sum_list (map (\<lambda>k. unat (val_at m k)) ks)"
    and "amount \<le> t \<longleftrightarrow> unat amount \<le> worth (\<lambda>x. x = owner) m"
proof -
  let ?w = "\<lambda>k. u_worth (\<lambda>x. x = owner) (the (go_get m k))"
  from select_loop_spec [OF sel] obtain ks where ks: "inputs = map (\<lambda>k. the (go_get m k)) ks" "subseq ks ord"
      "list_all (owned owner m) ks" "t = sum_list (map (val_at m) ks)" "amount \<le> t \<or> ks = filter (owned owner m) ord"
    by auto
  have keyed: "keyed m" and lt: "supply_of m < 2 ^ 64" using ok by (simp_all add: utxo_ok_keyed)
  have w: "worth (\<lambda>x. x = owner) m = sum_list (map ?w ord)"
    using keyed ord by (intro worth_order) (simp_all add: keyed_def)
  have sum: "sum_list (map (\<lambda>k. unat (val_at m k)) ks) = sum_list (map ?w ks)"
    using ks(3) by (intro arg_cong [where f = sum_list] map_cong)
      (auto simp: list_all_iff owned_def u_worth_def split: option.splits)
  have le: "sum_list (map ?w ks) \<le> worth (\<lambda>x. x = owner) m"
    unfolding w by (rule sum_list_subseq [OF ks(2)])
  have u: "unat t = sum_list (map ?w ks)"
    using unat_sum_list [of "map (val_at m) ks"] sum le worth_le [of "\<lambda>x. x = owner" m] lt
    by (simp add: ks(4) o_def)
  have "sum_list (map ?w (filter (owned owner m) ord)) = worth (\<lambda>x. x = owner) m"
    unfolding w sum_list_map_filter' using keyed ord
    by (intro arg_cong [where f = sum_list] map_cong)
      (auto simp: owned_def u_worth_def keyed_def map_order_def go_get_None_iff split: option.splits)
  with ks(5) le u have iff: "amount \<le> t \<longleftrightarrow> unat amount \<le> worth (\<lambda>x. x = owner) m"
    by (auto simp: word_le_nat_alt)
  have "distinct ks" using ks(2) ord by (metis distinct_nthsI map_order_def subseq_conv_nths)
  with ks u sum iff show ?thesis by (intro that [of ks]) simp_all
qed

subsection \<open>Payments\<close>

lemma hex_short: "(\<And>x. length (sha x) = 32) \<Longrightarrow> go_slice (generateTxID sha d) 0 16 = Inr (take 16 (generateTxID sha d))"
  by (simp add: generateTxID_def go_slice_def)

lemma calls_keep [simp]: "us_utxoSet (ucall c s) = us_utxoSet s" "us_txs (ucall c s) = us_txs s"
  "us_utxoSet (Utxo_updateState s) = us_utxoSet s"
  by (simp_all add: ucall_def Utxo_updateState_def)

text \<open>Spending the outputs filed under \<open>ks\<close>, all of one owner.\<close>

abbreviation input_of :: "UTXO \<Rightarrow> TxInput" where
  "input_of u \<equiv> \<lparr>ti_PrevTxID = ux_TxID u, ti_PrevIndex = ux_Index u, ti_Signature = []\<rparr>"

lemma spend_selected:
  assumes keyed: "keyed m" and ks: "distinct ks" "list_all (owned from m) ks" "unat t = sum_list (map (\<lambda>k. unat (val_at m k)) ks)"
    and is_def: "is = map input_of (map (\<lambda>k. the (go_get m k)) ks)"
  shows "find (\<lambda>i. \<not> spendable m i) is = None" and "\<exists>m'. spend is m = Inr m' \<and> keyed m' \<and>
     (\<forall>k. go_get m' k = (if k \<in> set ks then None else go_get m k)) \<and>
     (\<forall>P. worth P m = (if P from then unat t else 0) + worth P m')"
proof -
  have key: "in_key (input_of (the (go_get m k))) = k" and own: "\<exists>u. go_get m k = Some u \<and> ux_Owner u = from \<and> \<not> ux_Spent u"
    if "k \<in> set ks" for k
    using that ks(2) keyed by (fastforce simp: list_all_iff owned_def keyed_def in_key_def split: option.splits)+
  have keys: "map in_key is = ks" unfolding is_def map_map by (rule map_idI) (simp add: key)
  have sp: "spendable m i" if "i \<in> set is" for i
  proof -
    have "in_key i \<in> set (map in_key is)" using that by simp
    then have "in_key i \<in> set ks" by (simp only: keys)
    from own [OF this] show ?thesis by (auto simp: spendable_def)
  qed
  then show "find (\<lambda>i. \<not> spendable m i) is = None" by (simp add: find_None_iff)
  have d: "distinct (map in_key is)" by (simp only: keys ks(1))
  obtain m' where m': "spend is m = Inr m'" using spend_ok [OF keyed d sp] by blast
  have "sum_list (map (\<lambda>i. u_worth P (the (go_get m (in_key i)))) is) = (if P from then unat t else 0)" for P
  proof -
    have "sum_list (map (\<lambda>i. u_worth P (the (go_get m (in_key i)))) is) =
        sum_list (map (\<lambda>k. u_worth P (the (go_get m k))) (map in_key is))" by (simp add: o_def)
    also have "\<dots> = sum_list (map (\<lambda>k. if P from then unat (val_at m k) else 0) ks)"
      unfolding keys by (intro arg_cong [where f = sum_list] map_cong) (auto dest!: own simp: u_worth_def)
    finally show ?thesis by (simp add: ks(3))
  qed
  moreover have "in_key ` set is = set ks" by (simp only: set_map [symmetric] keys)
  ultimately show "\<exists>m'. spend is m = Inr m' \<and> keyed m' \<and> (\<forall>k. go_get m' k = (if k \<in> set ks then None else go_get m k)) \<and>
      (\<forall>P. worth P m = (if P from then unat t else 0) + worth P m')"
    using spend_ok [OF keyed d sp] m' by fastforce
qed

text \<open>A payment the selection covers goes through, and what it moves.\<close>

lemma payment_ok:
  assumes sha: "\<And>x. length (sha x) = 32" and ok: "utxo_ok (us_utxoSet s)" and ord: "map_order (us_utxoSet s) ord"
    and cov: "unat amount \<le> worth (\<lambda>x. x = from) (us_utxoSet s)"
  shows "\<exists>tx s1. CreateTransaction sha ord from to amount s = Inr (Inr tx, s1) \<and> us_utxoSet s1 = us_utxoSet s \<and>
    (fresh_id (ut_TxID tx) (us_utxoSet s) \<longrightarrow> (\<exists>s'. ExecuteTransaction tx s1 = Inr (None, s') \<and> utxo_ok (us_utxoSet s') \<and>
      (\<forall>P. worth P (us_utxoSet s') + (if P from then unat amount else 0) =
            worth P (us_utxoSet s) + (if P to then unat amount else 0))))"
proof -
  let ?m = "us_utxoSet s"
  obtain inputs t where sel: "selectUTXOs ord from amount s = (inputs, t)" by fastforce
  then have "select_loop from amount ?m ord [] 0 = (inputs, t)" by (simp add: selectUTXOs_def)
  from select_spec [OF ok ord this] obtain ks where ks: "inputs = map (\<lambda>k. the (go_get ?m k)) ks" "distinct ks"
      "list_all (owned from ?m) ks" "unat t = sum_list (map (\<lambda>k. unat (val_at ?m k)) ks)"
      "amount \<le> t \<longleftrightarrow> unat amount \<le> worth (\<lambda>x. x = from) ?m" by blast
  have le: "amount \<le> t" using ks(5) cov by simp
  let ?outs = "[\<lparr>to_Value = amount, to_Owner = to, to_Script = []\<rparr>] @
      (if 0 < t - amount then [\<lparr>to_Value = t - amount, to_Owner = from, to_Script = []\<rparr>] else [])"
  define tx0 where "tx0 = \<lparr>ut_TxID = [], ut_Inputs = map input_of inputs, ut_Outputs = ?outs\<rparr>"
  define tx where "tx = tx0\<lparr>ut_TxID := computeTxHash sha tx0\<rparr>"
  have tx: "ut_Inputs tx = map input_of inputs" "ut_Outputs tx = ?outs" "ut_TxID tx = computeTxHash sha tx0"
    by (simp_all add: tx_def tx0_def)
  have short: "go_slice (ut_TxID tx) 0 16 = Inr (take 16 (ut_TxID tx))"
    unfolding tx computeTxHash_def by (rule hex_short [OF sha])
  have create: "\<exists>s1. CreateTransaction sha ord from to amount s = Inr (Inr tx, s1) \<and> us_utxoSet s1 = ?m"
    using le sel short by (simp add: CreateTransaction_def Let_def tx_def tx0_def)
  have keyed: "keyed ?m" using ok by (simp add: utxo_ok_keyed)
  note spent = spend_selected [OF keyed ks(2-4), of "ut_Inputs tx"]
  have find: "find (\<lambda>i. \<not> spendable ?m i) (ut_Inputs tx) = None" by (rule spent(1)) (simp add: tx ks(1))
  obtain m' where m': "spend (ut_Inputs tx) ?m = Inr m'" "keyed m'"
      "\<forall>k. go_get m' k = (if k \<in> set ks then None else go_get ?m k)"
      "worth P ?m = (if P from then unat t else 0) + worth P m'" for P
    using spent(2) by (auto simp: tx ks(1))
  have "\<exists>s'. ExecuteTransaction tx s1 = Inr (None, s') \<and> utxo_ok (us_utxoSet s') \<and>
      (\<forall>P. worth P (us_utxoSet s') + (if P from then unat amount else 0) =
            worth P ?m + (if P to then unat amount else 0))"
    if fresh: "fresh_id (ut_TxID tx) ?m" and s1: "us_utxoSet s1 = ?m" for s1
  proof -
    have "absent (ut_TxID tx) 0 m'" using fresh_absent [OF keyed fresh] m'(3) by (simp add: absent_def)
    note add = add_outputs_ok [OF m'(2) this]
    have "unat (t - amount) = unat t - unat amount" "unat amount \<le> unat t"
      using le by (simp_all add: unat_sub word_le_nat_alt)
    then have outs: "sum_list (map (\<lambda>out. if P (to_Owner out) then unat (to_Value out) else 0) (ut_Outputs tx)) +
        (if P from then unat amount else 0) = (if P to then unat amount else 0) + (if P from then unat t else 0)" for P
      using le unfolding tx by (auto simp: word_less_nat_alt)
    have w: "worth P (add_outputs (ut_TxID tx) 0 (ut_Outputs tx) m') + (if P from then unat amount else 0) =
        worth P ?m + (if P to then unat amount else 0)" for P
      using add [of "ut_Outputs tx" P] outs [of P] m'(4) [of P] by simp
    then have "utxo_ok (add_outputs (ut_TxID tx) 0 (ut_Outputs tx) m')"
      using add ok w [of "\<lambda>_. True"] by (simp add: utxo_ok_keyed)
    then show ?thesis using m'(1) w s1 short find by (simp add: ExecuteTransaction_def Let_def)
  qed
  with create show ?thesis by blast
qed

lemma payment_made:
  assumes "\<And>x. length (sha x) = 32" and "utxo_ok (us_utxoSet s)" and "map_order (us_utxoSet s) ord"
    and "unat amount \<le> worth (\<lambda>x. x = from) (us_utxoSet s)"
    and "\<And>tx s1. CreateTransaction sha ord from to amount s = Inr (Inr tx, s1) \<Longrightarrow> fresh_id (ut_TxID tx) (us_utxoSet s)"
  obtains tx s1 s' where "CreateTransaction sha ord from to amount s = Inr (Inr tx, s1)" and "ExecuteTransaction tx s1 = Inr (None, s')"
    and "utxo_ok (us_utxoSet s')" and "\<forall>P. worth P (us_utxoSet s') + (if P from then unat amount else 0) =
            worth P (us_utxoSet s) + (if P to then unat amount else 0)"
proof -
  obtain tx s1 where tx: "CreateTransaction sha ord from to amount s = Inr (Inr tx, s1)"
      "fresh_id (ut_TxID tx) (us_utxoSet s) \<longrightarrow> (\<exists>s'. ExecuteTransaction tx s1 = Inr (None, s') \<and> utxo_ok (us_utxoSet s') \<and>
      (\<forall>P. worth P (us_utxoSet s') + (if P from then unat amount else 0) =
            worth P (us_utxoSet s) + (if P to then unat amount else 0)))"
    using payment_ok [where sha = sha and to = to, OF assms(1-4)] by blast
  from tx(2) assms(5) [OF tx(1)] that [OF tx(1)] show ?thesis by blast
qed

lemma payment_refused:
  assumes "utxo_ok (us_utxoSet s)" and "map_order (us_utxoSet s) ord" and "\<not> unat amount \<le> worth (\<lambda>x. x = from) (us_utxoSet s)"
  shows "CreateTransaction sha ord from to amount s = Inr (Inl InsufficientFunds, s)"
proof -
  obtain inputs t where sel: "selectUTXOs ord from amount s = (inputs, t)" by fastforce
  then have "select_loop from amount (us_utxoSet s) ord [] 0 = (inputs, t)" by (simp add: selectUTXOs_def)
  from select_spec [OF assms(1,2) this] assms(3) have "t < amount" by (auto simp: linorder_not_le [symmetric])
  with sel show ?thesis by (simp add: CreateTransaction_def)
qed

text \<open>C24. A payment is made exactly when the payer's outputs cover it, in whatever order the outputs
  are met, and it never panics.  When it is made and its identity is new, every group of owners is worth
  what it was before, less the amount if the payer belongs to it, plus the amount if the payee does; so
  no value is made or lost.  When it is refused the outputs are as before.\<close>

theorem Utxo_payment:
  assumes "\<And>x. length (sha x) = 32" and "utxo_ok (us_utxoSet s)" and "map_order (us_utxoSet s) ord"
    and "\<And>tx s1. CreateTransaction sha ord (text_param ''from'' ''alice'' ps) (text_param ''to'' ''bob'' ps) (amount_param oob ps) s =
       Inr (Inr tx, s1) \<Longrightarrow> fresh_id (ut_TxID tx) (us_utxoSet s)"
  shows "\<exists>r s'. Utxo_ExecuteAction sha ord oob ''create_transaction'' ps s = Inr (r, s') \<and> utxo_ok (us_utxoSet s') \<and>
    (let from = text_param ''from'' ''alice'' ps; to = text_param ''to'' ''bob'' ps; amount = unat (amount_param oob ps) in
     if amount \<le> worth (\<lambda>x. x = from) (us_utxoSet s)
     then (\<exists>tx. r = Inr tx) \<and> (\<forall>P. worth P (us_utxoSet s') + (if P from then amount else 0) =
        worth P (us_utxoSet s) + (if P to then amount else 0))
     else r = Inl InsufficientFunds \<and> us_utxoSet s' = us_utxoSet s)"
proof (cases "unat (amount_param oob ps) \<le> worth (\<lambda>x. x = text_param ''from'' ''alice'' ps) (us_utxoSet s)")
  case True
  let ?f = "text_param ''from'' ''alice'' ps" and ?t = "text_param ''to'' ''bob'' ps" and ?n = "amount_param oob ps"
  obtain tx s1 s' where "CreateTransaction sha ord ?f ?t ?n s = Inr (Inr tx, s1)" "ExecuteTransaction tx s1 = Inr (None, s')"
      "utxo_ok (us_utxoSet s')" "\<forall>P. worth P (us_utxoSet s') + (if P ?f then unat ?n else 0) =
        worth P (us_utxoSet s) + (if P ?t then unat ?n else 0)"
    by (rule payment_made [OF assms(1-3) True assms(4)])
  with True show ?thesis by (simp add: Utxo_ExecuteAction_def Let_def)
next
  case False
  from payment_refused [OF assms(2,3) False, of sha "text_param ''to'' ''bob'' ps"] False assms(2) show ?thesis
    by (simp add: Utxo_ExecuteAction_def Let_def)
qed

definition zero_sha :: "string \<Rightarrow> byte list" where
  "zero_sha _ = replicate 32 0"

definition utxo_demo :: UTXOSimulator where
  "utxo_demo = NewUTXOSimulator\<lparr>us_utxoSet := [(utxoKey ''a'' 0,
     \<lparr>ux_TxID = ''a'', ux_Index = 0, ux_Value = 100, ux_Owner = ''alice'', ux_Script = [], ux_Spent = False\<rparr>)]\<rparr>"

lemma created_id:
  "CreateTransaction sha ord f t n s = Inr (Inr tx, s1) \<Longrightarrow> \<exists>d. ut_TxID tx = generateTxID sha d"
  by (auto simp: CreateTransaction_def Let_def computeTxHash_def go_bind_eq_Inr split: prod.splits if_splits)

lemma utxo_demo_fresh:
  assumes "CreateTransaction zero_sha ord f t n utxo_demo = Inr (Inr tx, s1)"
  shows "fresh_id (ut_TxID tx) (us_utxoSet utxo_demo)"
proof -
  from created_id [OF assms] have "length (ut_TxID tx) = 64" by (auto simp: generateTxID_def zero_sha_def)
  then have "ut_TxID tx \<noteq> ''a''" by auto
  then show ?thesis by (simp add: fresh_id_def utxo_demo_def)
qed

theorem Utxo_payment_witness:
  "\<exists>r s'. Utxo_ExecuteAction zero_sha [utxoKey ''a'' 0] 0 ''create_transaction'' [] utxo_demo = Inr (r, s') \<and> utxo_ok (us_utxoSet s') \<and>
    (let from = text_param ''from'' ''alice'' []; to = text_param ''to'' ''bob'' []; amount = unat (amount_param 0 []) in
     if amount \<le> worth (\<lambda>x. x = from) (us_utxoSet utxo_demo)
     then (\<exists>tx. r = Inr tx) \<and> (\<forall>P. worth P (us_utxoSet s') + (if P from then amount else 0) =
        worth P (us_utxoSet utxo_demo) + (if P to then amount else 0))
     else r = Inl InsufficientFunds \<and> us_utxoSet s' = us_utxoSet utxo_demo)"
proof (rule Utxo_payment)
  fix tx s1 assume "CreateTransaction zero_sha [utxoKey ''a'' 0] (text_param ''from'' ''alice'' []) (text_param ''to'' ''bob'' [])
      (amount_param 0 []) utxo_demo = Inr (Inr tx, s1)"
  then show "fresh_id (ut_TxID tx) (us_utxoSet utxo_demo)" by (rule utxo_demo_fresh)
qed (auto simp: zero_sha_def utxo_ok_def utxo_demo_def go_wf_def go_keys_def map_order_def u_worth_def)

subsection \<open>An output is spent once\<close>

lemma spend_gone: "spend is m = Inr m' \<Longrightarrow> k \<in> in_key ` set is \<or> go_get m k = None \<Longrightarrow> go_get m' k = None"
  by (induction "is" arbitrary: m) (auto simp: go_bind_eq_Inr)

lemma add_outputs_other: "(\<And>j. k \<noteq> utxoKey t j) \<Longrightarrow> go_get (add_outputs t i outs m) k = go_get m k"
  by (induction outs arbitrary: i m) auto

text \<open>No double spend.  Once a transaction is executed, every transaction that names one of its
  inputs is refused, and leaves the outputs as they are; a transaction does not name its own outputs.\<close>

theorem Utxo_no_double_spend:
  assumes "ExecuteTransaction tx s = Inr (None, s')" and "i \<in> set (ut_Inputs tx)" and "i \<in> set (ut_Inputs tx2)"
    and "ti_PrevTxID i \<noteq> ut_TxID tx"
  shows "\<exists>k. ExecuteTransaction tx2 s' = Inr (Some (InvalidInput k), s')"
proof -
  from assms(1) obtain m' where m': "spend (ut_Inputs tx) (us_utxoSet s) = Inr m'"
      "us_utxoSet s' = add_outputs (ut_TxID tx) 0 (ut_Outputs tx) m'"
    by (auto simp: ExecuteTransaction_def Let_def go_bind_eq_Inr split: option.splits)
  have "go_get m' (in_key i) = None" using spend_gone [OF m'(1)] assms(2) by blast
  then have "go_get (us_utxoSet s') (in_key i) = None"
    using assms(4) by (simp add: m'(2) add_outputs_other in_key_def utxoKey_inj)
  then have "\<not> spendable (us_utxoSet s') i" by (simp add: spendable_def)
  then obtain j where "find (\<lambda>i. \<not> spendable (us_utxoSet s') i) (ut_Inputs tx2) = Some j"
    using assms(3) by (cases "find (\<lambda>i. \<not> spendable (us_utxoSet s') i) (ut_Inputs tx2)") (auto simp: find_None_iff)
  then show ?thesis by (simp add: ExecuteTransaction_def)
qed

definition spend_demo :: UTXOTx where
  "spend_demo = \<lparr>ut_TxID = replicate 16 CHR ''x'', ut_Inputs = [\<lparr>ti_PrevTxID = ''a'', ti_PrevIndex = 0, ti_Signature = []\<rparr>],
     ut_Outputs = []\<rparr>"

theorem Utxo_no_double_spend_witness:
  "\<exists>k. ExecuteTransaction spend_demo (snd (projr (ExecuteTransaction spend_demo utxo_demo))) =
     Inr (Some (InvalidInput k), snd (projr (ExecuteTransaction spend_demo utxo_demo)))"
proof (rule Utxo_no_double_spend [of spend_demo utxo_demo _ "\<lparr>ti_PrevTxID = ''a'', ti_PrevIndex = 0, ti_Signature = []\<rparr>"])
  show "ExecuteTransaction spend_demo utxo_demo = Inr (None, snd (projr (ExecuteTransaction spend_demo utxo_demo)))"
    by (simp add: ExecuteTransaction_def spend_demo_def utxo_demo_def spendable_def in_key_def go_get_def go_slice_def)
qed (simp_all add: spend_demo_def numeral_eq_Suc)

subsection \<open>The money supply\<close>

text \<open>An action whose transaction, if any, has a new identity.\<close>

definition utxo_step :: "(string \<Rightarrow> byte list) \<Rightarrow> UTXOSimulator \<Rightarrow> UTXOSimulator \<Rightarrow> bool" where
  "utxo_step sha s s' \<longleftrightarrow> (\<exists>ord oob a ps r. map_order (us_utxoSet s) ord \<and> Utxo_ExecuteAction sha ord oob a ps s = Inr (r, s') \<and>
     (\<forall>tx s1. CreateTransaction sha ord (text_param ''from'' ''alice'' ps) (text_param ''to'' ''bob'' ps) (amount_param oob ps) s =
       Inr (Inr tx, s1) \<longrightarrow> fresh_id (ut_TxID tx) (us_utxoSet s)))"

definition utxo_start :: "(string \<Rightarrow> byte list) \<Rightarrow> UTXOSimulator \<Rightarrow> bool" where
  "utxo_start sha s \<longleftrightarrow> (\<forall>x. length (sha x) = 32) \<and> sha ''coinbase-alice-0'' \<noteq> sha ''coinbase-bob-0'' \<and>
     Utxo_Init sha NewUTXOSimulator = Inr s"

definition utxo_inv :: "(string \<Rightarrow> byte list) \<Rightarrow> UTXOSimulator \<Rightarrow> bool" where
  "utxo_inv sha s \<longleftrightarrow> (\<forall>x. length (sha x) = 32) \<and> utxo_ok (us_utxoSet s) \<and> supply_of (us_utxoSet s) = 150"

lemma coinbase_ok:
  assumes "\<forall>x. length (sha x) = 32" and "us_txs s = []"
  shows "\<exists>s'. createCoinbase sha owner v s = Inr s' \<and> us_txs s' = [] \<and> us_utxoSet s' =
    (let t = generateTxID sha (''coinbase-'' @ owner @ ''-0'') in
     go_put (utxoKey t 0) (utxo_of t 0 \<lparr>to_Value = v, to_Owner = owner, to_Script = []\<rparr>) (us_utxoSet s))"
proof -
  have "itoa 0 = ''0''" by (simp add: itoa_def int_text_def nat_digits.simps hex_digit_def)
  with assms show ?thesis
    by (simp add: createCoinbase_def Let_def hex_short utxo_of_def)
qed

lemma utxo_init:
  assumes init: "Utxo_Init sha NewUTXOSimulator = Inr s" and len: "\<forall>x. length (sha x) = 32"
    and ne: "sha ''coinbase-alice-0'' \<noteq> sha ''coinbase-bob-0''"
  shows "utxo_inv sha s"
proof -
  let ?a = "generateTxID sha ''coinbase-alice-0''" and ?b = "generateTxID sha ''coinbase-bob-0''"
  have ab: "?a \<noteq> ?b" using ne unfolding generateTxID_def by (metis fst_conv hex_decode_encode)
  obtain s1 where s1: "createCoinbase sha ''alice'' 100 NewUTXOSimulator = Inr s1" "us_txs s1 = []"
      "us_utxoSet s1 = go_put (utxoKey ?a 0) (utxo_of ?a 0 \<lparr>to_Value = 100, to_Owner = ''alice'', to_Script = []\<rparr>) []"
    using coinbase_ok [OF len, of NewUTXOSimulator "''alice''" 100] by (auto simp: NewUTXOSimulator_def Let_def)
  obtain s2 where s2: "createCoinbase sha ''bob'' 50 s1 = Inr s2"
      "us_utxoSet s2 = go_put (utxoKey ?b 0) (utxo_of ?b 0 \<lparr>to_Value = 50, to_Owner = ''bob'', to_Script = []\<rparr>) (us_utxoSet s1)"
    using coinbase_ok [OF len s1(2), of "''bob''" 50] by (auto simp: Let_def)
  have "us_utxoSet s = us_utxoSet s2" using init s1(1) s2(1) by (auto simp: Utxo_Init_def)
  moreover have "keyed (us_utxoSet s2)" unfolding s2(2) s1(3) by (intro keyed_put) (simp add: keyed_def)
  moreover have "supply_of (us_utxoSet s2) = 150"
    unfolding s2(2) s1(3) using ab by (simp add: worth_put_new utxoKey_inj u_worth_def utxo_of_def)
  ultimately show ?thesis using len by (simp add: utxo_inv_def utxo_ok_keyed)
qed

interpretation utxo: step_system "utxo_start sha" "utxo_step sha" "utxo_inv sha" for sha
proof unfold_locales
  fix s assume "utxo_start sha s"
  then show "utxo_inv sha s"
    by (auto simp: utxo_start_def dest!: utxo_init)
next
  fix s t assume inv: "utxo_inv sha s" and "utxo_step sha s t"
  then obtain ord oob a ps r where st: "map_order (us_utxoSet s) ord" "Utxo_ExecuteAction sha ord oob a ps s = Inr (r, t)"
      "\<And>tx s1. CreateTransaction sha ord (text_param ''from'' ''alice'' ps) (text_param ''to'' ''bob'' ps) (amount_param oob ps) s =
       Inr (Inr tx, s1) \<Longrightarrow> fresh_id (ut_TxID tx) (us_utxoSet s)"
    unfolding utxo_step_def by blast
  show "utxo_inv sha t"
  proof (cases "a = ''create_transaction''")
    case True
    let ?f = "text_param ''from'' ''alice'' ps" and ?t = "text_param ''to'' ''bob'' ps" and ?n = "amount_param oob ps"
    from inv have i: "\<And>x. length (sha x) = 32" "utxo_ok (us_utxoSet s)" "supply_of (us_utxoSet s) = 150"
      by (simp_all add: utxo_inv_def)
    show ?thesis
    proof (cases "unat ?n \<le> worth (\<lambda>x. x = ?f) (us_utxoSet s)")
      case cov: True
      obtain tx s1 s2 where c: "CreateTransaction sha ord ?f ?t ?n s = Inr (Inr tx, s1)" "ExecuteTransaction tx s1 = Inr (None, s2)"
          "utxo_ok (us_utxoSet s2)" and w: "\<forall>P. worth P (us_utxoSet s2) + (if P ?f then unat ?n else 0) =
            worth P (us_utxoSet s) + (if P ?t then unat ?n else 0)"
        by (rule payment_made [OF i(1,2) st(1) cov st(3)])
      from spec [OF w, of "\<lambda>_. True"] have "supply_of (us_utxoSet s2) = supply_of (us_utxoSet s)" by simp
      with c st(2) True i show ?thesis by (simp add: Utxo_ExecuteAction_def utxo_inv_def)
    next
      case False
      from payment_refused [OF i(2) st(1) False, of sha ?t] st(2) True i show ?thesis
        by (simp add: Utxo_ExecuteAction_def utxo_inv_def)
    qed
  next
    case False
    with st inv show ?thesis by (auto simp: Utxo_ExecuteAction_def utxo_inv_def)
  qed
qed

text \<open>C6. The money supply is constant: from the initial state, over any sequence of actions in which
  the hash does not collide, the outputs are worth 150 together, each filed under its own key.\<close>

theorem Utxo_supply_constant:
  assumes "\<forall>x. length (sha x) = 32" and "sha ''coinbase-alice-0'' \<noteq> sha ''coinbase-bob-0''"
    and "Utxo_Init sha NewUTXOSimulator = Inr s" and "(utxo_step sha)\<^sup>*\<^sup>* s t"
  shows "worth (\<lambda>_. True) (us_utxoSet t) = 150 \<and> utxo_ok (us_utxoSet t)"
  using utxo.reachable_inv [of sha s t] assms by (simp add: utxo_start_def utxo_inv_def)

definition length_sha :: "string \<Rightarrow> byte list" where
  "length_sha x = of_nat (length x) # replicate 31 0"

theorem Utxo_supply_constant_witness:
  "worth (\<lambda>_. True) (us_utxoSet (projr (Utxo_Init length_sha NewUTXOSimulator))) = 150 \<and>
     utxo_ok (us_utxoSet (projr (Utxo_Init length_sha NewUTXOSimulator)))"
proof (rule Utxo_supply_constant [of length_sha])
  show "Utxo_Init length_sha NewUTXOSimulator = Inr (projr (Utxo_Init length_sha NewUTXOSimulator))"
    by (simp add: Utxo_Init_def createCoinbase_def Let_def hex_short length_sha_def)
qed (simp_all add: length_sha_def)

end
