(* ===== verification/MerkleTree.thy ===== *)
theory MerkleTree
  imports Utxo
begin

section \<open>Merkle trees: \<open>simulations/modules/blockchain/merkle_tree.go\<close>\<close>

text \<open>
  Leaves, the levels of the tree, the path of a leaf and its verification.  \<open>sha\<close> is
  SHA-256.  Nodes are not changed once they are made, so that the sharing of nodes between levels
  does not matter and a node holds its two children.
\<close>

datatype MerkleNode = MerkleNode (mn_Hash: string) (mn_children: "(MerkleNode \<times> MerkleNode) option")
  (mn_Data: string) (mn_IsLeaf: bool) (mn_Level: nat) (mn_Index: nat)

record MerkleProof =
  mp_LeafHash :: string
  mp_LeafIndex :: nat
  mp_Siblings :: "string list"
  mp_Directions :: "string list"
  mp_Root :: string

record MerkleTreeSimulator =
  mt_leaves :: "MerkleNode list"
  mt_root :: "MerkleNode option"
  mt_levels :: "MerkleNode list list"
  mt_lastProof :: "MerkleProof option"
  mt_lastProofVerified :: bool
  mt_calls :: "base_call list"

definition NewMerkleTreeSimulator :: MerkleTreeSimulator where
  "NewMerkleTreeSimulator = \<lparr>mt_leaves = [], mt_root = None, mt_levels = [], mt_lastProof = None,
     mt_lastProofVerified = False, mt_calls = []\<rparr>"

definition mcall :: "base_call \<Rightarrow> MerkleTreeSimulator \<Rightarrow> MerkleTreeSimulator" where
  "mcall c s = s\<lparr>mt_calls := mt_calls s @ [c]\<rparr>"

definition hashData :: "(string \<Rightarrow> byte list) \<Rightarrow> string \<Rightarrow> string" where
  "hashData sha data = hex_encode (sha data)"

definition hashPair :: "(string \<Rightarrow> byte list) \<Rightarrow> string \<Rightarrow> string \<Rightarrow> string" where
  "hashPair sha l r = hex_encode (sha (l @ r))"

text \<open>What is shown of a node and of a proof.\<close>

definition node_gval :: "MerkleNode \<Rightarrow> gval go" where
  "node_gval n = go_bind (go_slice (mn_Hash n) 0 16) (\<lambda>h.
     Inr (GMap [(''hash'', GStr h), (''index'', GInt (int (mn_Index n))), (''is_leaf'', GBool (mn_IsLeaf n))]))"

definition proof_gval :: "MerkleProof \<Rightarrow> gval" where
  "proof_gval p = GStruct [(''leaf_hash'', GStr (mp_LeafHash p)), (''leaf_index'', GInt (int (mp_LeafIndex p))),
     (''siblings'', GList (map GStr (mp_Siblings p))), (''directions'', GList (map GStr (mp_Directions p))),
     (''root'', GStr (mp_Root p))]"

definition root_hash :: "MerkleTreeSimulator \<Rightarrow> string" where
  "root_hash s = (case mt_root s of None \<Rightarrow> [] | Some r \<Rightarrow> mn_Hash r)"

text \<open>The stage shown: the tree structure is being prepared.\<close>

definition tree_stage :: string where
  "tree_stage = [CHR 0xE5, CHR 0x87, CHR 0x86, CHR 0xE5, CHR 0xA4, CHR 0x87, CHR 0xE6, CHR 0xA0, CHR 0x91,
     CHR 0xE7, CHR 0xBB, CHR 0x93, CHR 0xE6, CHR 0x9E, CHR 0x84]"

definition Merkle_updateState :: "MerkleTreeSimulator \<Rightarrow> MerkleTreeSimulator go" where
  "Merkle_updateState s =
     (let s = fold mcall [CallGlobal ''root_hash'' (GStr (root_hash s)), CallGlobal ''leaf_count'' (GInt (int (length (mt_leaves s)))),
            CallGlobal ''tree_height'' (GInt (int (length (mt_levels s))))] s
      in go_bind (go_map (go_map node_gval) (mt_levels s)) (\<lambda>tree.
           Inr (fold mcall
             ([CallGlobal ''tree_structure'' (GList (map GList tree))] @
              (case mt_lastProof s of
                 Some p \<Rightarrow> [CallGlobal ''latest_proof'' (proof_gval p),
                   CallGlobal ''last_verification'' (GMap [(''valid'', GBool (mt_lastProofVerified s))])]
               | None \<Rightarrow> [CallGlobal ''latest_proof'' GNil, CallGlobal ''last_verification'' GNil]) @
              [CallTeaching tree_stage (Fin (1 / 2)) [(''leaf_count'', GInt (int (length (mt_leaves s)))),
                 (''tree_height'', GInt (int (length (mt_levels s)))), (''root_hash'', GStr (root_hash s))]]) s)))"

definition Merkle_Init :: "MerkleTreeSimulator \<Rightarrow> MerkleTreeSimulator go" where
  "Merkle_Init s = Merkle_updateState s"

subsection \<open>Building\<close>

definition parent :: "(string \<Rightarrow> byte list) \<Rightarrow> nat \<Rightarrow> nat \<Rightarrow> MerkleNode \<Rightarrow> MerkleNode \<Rightarrow> MerkleNode" where
  "parent sha level i l r = MerkleNode (hashPair sha (mn_Hash l) (mn_Hash r)) (Some (l, r)) [] False level i"

text \<open>A level from the one below: the last node of an odd level is its own partner.\<close>

fun next_level :: "(string \<Rightarrow> byte list) \<Rightarrow> nat \<Rightarrow> nat \<Rightarrow> MerkleNode list \<Rightarrow> MerkleNode list" where
  "next_level sha level i [] = []"
| "next_level sha level i [l] = [parent sha level i l l]"
| "next_level sha level i (l # r # ns) = parent sha level i l r # next_level sha level (Suc i) ns"

lemma length_next_level: "length (next_level sha level i ns) = (length ns + 1) div 2"
  by (induction sha level i ns rule: next_level.induct) simp_all

function build_levels :: "(string \<Rightarrow> byte list) \<Rightarrow> nat \<Rightarrow> MerkleNode list \<Rightarrow> MerkleNode list list" where
  "build_levels sha level ns =
     (if 1 < length ns then ns # build_levels sha (Suc level) (next_level sha level 0 ns) else [ns])"
  by pat_completeness auto
termination by (relation "measure (\<lambda>(_, _, ns). length ns)") (auto simp: length_next_level)

declare build_levels.simps [simp del]

definition rebuildTree :: "(string \<Rightarrow> byte list) \<Rightarrow> MerkleTreeSimulator \<Rightarrow> MerkleTreeSimulator go" where
  "rebuildTree sha s =
     (if mt_leaves s = [] then Merkle_updateState (s\<lparr>mt_root := None, mt_levels := []\<rparr>)
      else
        let ls = build_levels sha 1 (mt_leaves s)
        in Merkle_updateState (s\<lparr>mt_levels := ls, mt_root := Some (hd (last ls))\<rparr>))"

definition AddLeaf :: "(string \<Rightarrow> byte list) \<Rightarrow> string \<Rightarrow> MerkleTreeSimulator \<Rightarrow> MerkleTreeSimulator go" where
  "AddLeaf sha data s =
     (let h = hashData sha data;
          leaf = MerkleNode h None data True 0 (length (mt_leaves s));
          s = s\<lparr>mt_leaves := mt_leaves s @ [leaf]\<rparr>
      in go_bind (go_slice h 0 16) (\<lambda>short.
           rebuildTree sha (mcall (CallEmit ''leaf_added'' [] []
             (Some [(''data'', GStr data), (''hash'', GStr short), (''index'', GInt (int (mn_Index leaf)))])) s)))"

subsection \<open>Proofs\<close>

definition path_step :: "MerkleNode list \<Rightarrow> nat \<Rightarrow> (string \<times> string) go" where
  "path_step ns idx =
     (if even idx then
        go_bind (go_index ns (if idx + 1 < length ns then idx + 1 else idx)) (\<lambda>n. Inr (mn_Hash n, ''right''))
      else go_bind (go_index ns (idx - 1)) (\<lambda>n. Inr (mn_Hash n, ''left'')))"

text \<open>The siblings with their directions, level by level, without the last.\<close>

fun proof_path :: "MerkleNode list list \<Rightarrow> nat \<Rightarrow> (string \<times> string) list go" where
  "proof_path (ns # ms # ls) idx =
     go_bind (path_step ns idx) (\<lambda>st. go_bind (proof_path (ms # ls) (idx div 2)) (\<lambda>rest. Inr (st # rest)))"
| "proof_path _ idx = Inr []"

definition GetProof :: "int \<Rightarrow> MerkleTreeSimulator \<Rightarrow> (MerkleProof option \<times> MerkleTreeSimulator) go" where
  "GetProof leafIndex s =
     (if leafIndex < 0 \<or> int (length (mt_leaves s)) \<le> leafIndex then Inr (None, s)
      else case mt_root s of
        None \<Rightarrow> Inr (None, s)
      | Some rt \<Rightarrow>
          go_bind (proof_path (mt_levels s) (nat leafIndex)) (\<lambda>path.
            let p = \<lparr>mp_LeafHash = mn_Hash (mt_leaves s ! nat leafIndex), mp_LeafIndex = nat leafIndex,
                  mp_Siblings = map fst path, mp_Directions = map snd path, mp_Root = mn_Hash rt\<rparr>;
                s = mcall (CallEmit ''proof_generated'' [] []
                  (Some [(''leaf_index'', GInt leafIndex), (''proof_length'', GInt (int (length path)))])) s
            in go_bind (Merkle_updateState (s\<lparr>mt_lastProof := Some p, mt_lastProofVerified := False\<rparr>)) (\<lambda>s.
                 Inr (Some p, s))))"

fun climb :: "(string \<Rightarrow> byte list) \<Rightarrow> string \<Rightarrow> (string \<times> string) list \<Rightarrow> string" where
  "climb sha h [] = h"
| "climb sha h ((sib, dir) # path) =
     climb sha (if dir = ''left'' then hashPair sha sib h else hashPair sha h sib) path"

definition VerifyProof ::
  "(string \<Rightarrow> byte list) \<Rightarrow> MerkleProof option \<Rightarrow> MerkleTreeSimulator \<Rightarrow> (bool \<times> MerkleTreeSimulator) go" where
  "VerifyProof sha pr s =
     (case pr of
        None \<Rightarrow> Inr (False, s)
      | Some p \<Rightarrow>
          if length (mp_Siblings p) \<noteq> length (mp_Directions p) then Inr (False, s)
          else
            let h = climb sha (mp_LeafHash p) (zip (mp_Siblings p) (mp_Directions p));
                valid = (h = mp_Root p)
            in go_bind (go_slice h 0 16) (\<lambda>short.
                 let s = mcall (CallEmit ''proof_verified'' [] []
                       (Some [(''valid'', GBool valid), (''computed_root'', GStr short)])) s
                 in go_bind (Merkle_updateState (s\<lparr>mt_lastProof := Some p, mt_lastProofVerified := valid\<rparr>)) (\<lambda>s.
                      Inr (valid, s))))"

subsection \<open>Actions\<close>

datatype merkle_result = LeafAdded nat | NoSuchLeaf | ProofMade MerkleProof | NoProof | Verified bool | TreeReset

text \<open>The result, or nothing for an action that is not known.\<close>

definition Merkle_ExecuteAction ::
  "(string \<Rightarrow> byte list) \<Rightarrow> int \<Rightarrow> string \<Rightarrow> (string, gval) gomap \<Rightarrow> MerkleTreeSimulator \<Rightarrow>
   (merkle_result option \<times> MerkleTreeSimulator) go" where
  "Merkle_ExecuteAction sha oob action params s =
     (if action = ''add_leaf'' then
        go_bind (AddLeaf sha (text_param ''data'' ''transaction:alice->bob:10'' params) s) (\<lambda>s.
          Inr (Some (LeafAdded (length (mt_leaves s))), s))
      else if action = ''generate_proof'' then
        go_bind (GetProof (int_param oob ''leaf_index'' 0 params) s) (\<lambda>(p, s).
          Inr (Some (case p of None \<Rightarrow> NoSuchLeaf | Some p \<Rightarrow> ProofMade p), s))
      else if action = ''verify_proof'' then
        (if mt_lastProof s = None then Inr (Some NoProof, s)
         else go_bind (VerifyProof sha (mt_lastProof s) s) (\<lambda>(valid, s). Inr (Some (Verified valid), s)))
      else if action = ''reset_tree'' then
        go_bind (Merkle_updateState (s\<lparr>mt_leaves := [], mt_root := None, mt_levels := [], mt_lastProof := None,
            mt_lastProofVerified := False\<rparr>)) (\<lambda>s. Inr (Some TreeReset, s))
      else Inr (None, s))"

end
