(* ===== verification/MerkleFacts.thy ===== *)
theory MerkleFacts
  imports MerkleTree UtxoFacts
begin

section \<open>Merkle trees: properties\<close>

text \<open>
  No sequence of actions panics and every leaf has a path that verifies against the root; a path
  that verifies at the place of a leaf is that leaf's, or names two texts with one hash; and two different
  lists of leaves with one root.
\<close>

subsection \<open>Levels as lists of hashes\<close>

fun pair_up :: "(string \<Rightarrow> byte list) \<Rightarrow> string list \<Rightarrow> string list" where
  "pair_up sha [] = []"
| "pair_up sha [l] = [hashPair sha l l]"
| "pair_up sha (l # r # hs) = hashPair sha l r # pair_up sha hs"

lemma next_level_hash: "map mn_Hash (next_level sha level i ns) = pair_up sha (map mn_Hash ns)"
  by (induction sha level i ns rule: next_level.induct) (simp_all add: parent_def)

lemma pair_up_nth:
  "j < length hs \<Longrightarrow> pair_up sha hs ! (j div 2) =
     (if even j then hashPair sha (hs ! j) (hs ! (if j + 1 < length hs then j + 1 else j)) else hashPair sha (hs ! (j - 1)) (hs ! j))"
proof (induction sha hs arbitrary: j rule: pair_up.induct)
  case (3 sha l r hs)
  show ?case
  proof (cases "j < 2")
    case True
    then have "j = 0 \<or> j = 1" by auto
    then show ?thesis by auto
  next
    case False
    then obtain k where k: "j = Suc (Suc k)" by (metis add_2_eq_Suc le_Suc_ex not_less)
    with 3 have "k < length hs" by simp
    from "3.IH" [OF this] show ?thesis by (cases k) (auto simp: k)
  qed
qed auto

lemma length_pair_up [simp]: "length (pair_up sha hs) = (length hs + 1) div 2"
  by (induction sha hs rule: pair_up.induct) simp_all

text \<open>The hash has 32 bytes, so its text 64 characters.\<close>

definition hash32 :: "(string \<Rightarrow> byte list) \<Rightarrow> bool" where
  "hash32 sha \<longleftrightarrow> (\<forall>x. length (sha x) = 32)"

lemma hash32_length [simp]: "hash32 sha \<Longrightarrow> length (sha x) = 32"
  by (simp add: hash32_def)

definition hash_ok :: "MerkleNode \<Rightarrow> bool" where
  "hash_ok n \<longleftrightarrow> length (mn_Hash n) = 64"

lemma next_level_ok: "hash32 sha \<Longrightarrow> list_all hash_ok (next_level sha level i ns)"
  by (induction sha level i ns rule: next_level.induct) (simp_all add: parent_def hash_ok_def hashPair_def)

lemma build_levels_ok:
  "hash32 sha \<Longrightarrow> list_all hash_ok ns \<Longrightarrow> list_all (list_all hash_ok) (build_levels sha level ns)"
proof (induction sha level ns rule: build_levels.induct)
  case (1 sha level ns)
  then show ?case by (subst build_levels.simps) (auto simp: next_level_ok)
qed

lemma build_levels_ne: "build_levels sha level ns \<noteq> []"
  by (subst build_levels.simps) simp

text \<open>The path of a node leads to the node at the top.\<close>

lemma path_climbs:
  "i < length ns \<Longrightarrow> \<exists>path. proof_path (build_levels sha level ns) i = Inr path \<and>
     climb sha (mn_Hash (ns ! i)) path = mn_Hash (hd (last (build_levels sha level ns)))"
proof (induction sha level ns arbitrary: i rule: build_levels.induct)
  case (1 sha level ns)
  show ?case
  proof (cases "1 < length ns")
    case False
    with "1.prems" show ?thesis
      by (cases ns) (auto simp: build_levels.simps [of sha level])
  next
    case True
    let ?up = "next_level sha level 0 ns"
    obtain ms ls where up: "build_levels sha (Suc level) ?up = ms # ls"
      using build_levels_ne by (metis neq_Nil_conv)
    have "i div 2 < length ?up" using "1.prems" by (simp add: length_next_level)
    from "1.IH" [OF True this] obtain path where path: "proof_path (ms # ls) (i div 2) = Inr path"
        "climb sha (mn_Hash (?up ! (i div 2))) path = mn_Hash (hd (last (ms # ls)))" by (auto simp: up)
    obtain sib dir where st: "path_step ns i = Inr (sib, dir)"
        "mn_Hash (?up ! (i div 2)) = (if dir = ''left'' then hashPair sha sib (mn_Hash (ns ! i)) else hashPair sha (mn_Hash (ns ! i)) sib)"
    proof -
      have "mn_Hash (?up ! (i div 2)) = pair_up sha (map mn_Hash ns) ! (i div 2)"
        using \<open>i div 2 < length ?up\<close> by (simp flip: next_level_hash [of sha level 0])
      moreover from "1.prems" have "i - 1 < length ns" by simp
      ultimately show ?thesis
        using "1.prems" that [of _ "if even i then ''right'' else ''left''"]
        by (auto simp: path_step_def go_index_def pair_up_nth split: if_splits)
    qed
    from True path st show ?thesis by (simp add: build_levels.simps [of sha level ns] up)
  qed
qed

subsection \<open>The invariant\<close>

definition merkle_inv :: "(string \<Rightarrow> byte list) \<Rightarrow> MerkleTreeSimulator \<Rightarrow> bool" where
  "merkle_inv sha s \<longleftrightarrow> list_all hash_ok (mt_leaves s) \<and>
     (if mt_leaves s = [] then mt_levels s = [] \<and> mt_root s = None
      else mt_levels s = build_levels sha 1 (mt_leaves s) \<and> mt_root s = Some (hd (last (mt_levels s)))) \<and>
     (\<forall>p. mt_lastProof s = Some p \<longrightarrow> length (mp_LeafHash p) = 64)"

lemma mcall_simps [simp]:
  "mt_leaves (mcall c s) = mt_leaves s" "mt_levels (mcall c s) = mt_levels s" "mt_root (mcall c s) = mt_root s"
  "mt_lastProof (mcall c s) = mt_lastProof s" "mt_lastProofVerified (mcall c s) = mt_lastProofVerified s"
  by (simp_all add: mcall_def)

lemma merkle_inv_call [simp]: "merkle_inv sha (mcall c s) = merkle_inv sha s"
  by (simp add: merkle_inv_def)

lemma mcalls_simps [simp]:
  "mt_leaves (fold mcall cs s) = mt_leaves s" "mt_levels (fold mcall cs s) = mt_levels s" "mt_root (fold mcall cs s) = mt_root s"
  "mt_lastProof (fold mcall cs s) = mt_lastProof s"
  by (induction cs arbitrary: s) simp_all

lemma go_map_ok: "list_all (\<lambda>x. \<exists>y. f x = Inr y) xs \<Longrightarrow> \<exists>ys. go_map f xs = Inr ys"
  by (induction xs) auto

lemma updateState_ok:
  assumes "list_all (list_all hash_ok) (mt_levels s)"
  shows "\<exists>s'. Merkle_updateState s = Inr s' \<and> mt_leaves s' = mt_leaves s \<and> mt_levels s' = mt_levels s \<and>
     mt_root s' = mt_root s \<and> mt_lastProof s' = mt_lastProof s"
proof -
  have "\<exists>g. node_gval n = Inr g" if "hash_ok n" for n
    using that by (simp add: node_gval_def hash_ok_def go_slice_def)
  then have "\<exists>tree. go_map (go_map node_gval) (mt_levels s) = Inr tree"
    using assms by (intro go_map_ok) (auto simp: list_all_iff intro!: go_map_ok)
  then show ?thesis by (auto simp: Merkle_updateState_def Let_def simp del: fold_Cons fold_Nil)
qed

lemma inv_levels_ok:
  assumes "hash32 sha" and "merkle_inv sha s"
  shows "list_all (list_all hash_ok) (mt_levels s)"
  using assms build_levels_ok [OF assms(1), of "mt_leaves s" 1] by (auto simp: merkle_inv_def split: if_splits)

lemma updateState_inv:
  assumes "hash32 sha" and "merkle_inv sha s"
  shows "\<exists>s'. Merkle_updateState s = Inr s' \<and> merkle_inv sha s' \<and> mt_leaves s' = mt_leaves s \<and> mt_levels s' = mt_levels s \<and>
     mt_root s' = mt_root s \<and> mt_lastProof s' = mt_lastProof s"
  using updateState_ok [OF inv_levels_ok [OF assms]] assms(2) by (auto simp: merkle_inv_def)

lemma AddLeaf_inv:
  assumes len: "hash32 sha" and inv: "merkle_inv sha s"
  shows "\<exists>s'. AddLeaf sha data s = Inr s' \<and> merkle_inv sha s' \<and>
     map mn_Hash (mt_leaves s') = map mn_Hash (mt_leaves s) @ [hashData sha data]"
proof -
  let ?leaf = "MerkleNode (hashData sha data) None data True 0 (length (mt_leaves s))"
  have l: "length (hashData sha data) = 64" by (simp add: hashData_def len)
  let ?ns = "mt_leaves s @ [?leaf]"
  let ?t = "\<lambda>c. (mcall c (s\<lparr>mt_leaves := ?ns\<rparr>))\<lparr>mt_levels := build_levels sha 1 ?ns, mt_root := Some (hd (last (build_levels sha 1 ?ns)))\<rparr>"
  have "merkle_inv sha (?t c)" for c using inv l by (simp add: merkle_inv_def hash_ok_def)
  then obtain s' where "Merkle_updateState (?t (CallEmit ''leaf_added'' [] [] (Some [(''data'', GStr data),
        (''hash'', GStr (take 16 (hashData sha data))), (''index'', GInt (int (length (mt_leaves s))))]))) = Inr s'"
      "merkle_inv sha s'" "mt_leaves s' = ?ns"
    using updateState_inv [OF len] by fastforce
  with l show ?thesis by (simp add: AddLeaf_def Let_def go_slice_def rebuildTree_def)
qed

lemma GetProof_inv:
  assumes len: "hash32 sha" and inv: "merkle_inv sha s" and i: "i < length (mt_leaves s)"
  shows "\<exists>p path s'. GetProof (int i) s = Inr (Some p, s') \<and> merkle_inv sha s' \<and> mp_LeafHash p = mn_Hash (mt_leaves s ! i) \<and>
     mp_Root p = root_hash s \<and> mp_Siblings p = map fst path \<and> mp_Directions p = map snd path \<and>
     climb sha (mp_LeafHash p) path = mp_Root p"
proof -
  from i have ne: "mt_leaves s \<noteq> []" by auto
  with inv have lv: "mt_levels s = build_levels sha 1 (mt_leaves s)" "mt_root s = Some (hd (last (mt_levels s)))"
    by (simp_all add: merkle_inv_def)
  from path_climbs [OF i, of sha 1] obtain path where path: "proof_path (mt_levels s) i = Inr path"
      "climb sha (mn_Hash (mt_leaves s ! i)) path = mn_Hash (hd (last (mt_levels s)))" by (auto simp: lv(1))
  let ?p = "\<lparr>mp_LeafHash = mn_Hash (mt_leaves s ! i), mp_LeafIndex = i, mp_Siblings = map fst path,
      mp_Directions = map snd path, mp_Root = mn_Hash (hd (last (mt_levels s)))\<rparr>"
  have "hash_ok (mt_leaves s ! i)" using inv i by (auto simp: merkle_inv_def list_all_length)
  then have "merkle_inv sha ((mcall c s)\<lparr>mt_lastProof := Some ?p, mt_lastProofVerified := False\<rparr>)" for c
    using inv by (simp add: merkle_inv_def hash_ok_def)
  then obtain s' where "Merkle_updateState ((mcall (CallEmit ''proof_generated'' [] []
        (Some [(''leaf_index'', GInt (int i)), (''proof_length'', GInt (int (length path)))])) s)
      \<lparr>mt_lastProof := Some ?p, mt_lastProofVerified := False\<rparr>) = Inr s'" "merkle_inv sha s'"
    using updateState_inv [OF len] by blast
  with i path lv(2) show ?thesis
    by (intro exI [of _ ?p] exI [of _ path] exI [of _ s']) (simp add: GetProof_def Let_def root_hash_def)
qed

lemma climb_length: "hash32 sha \<Longrightarrow> length h = 64 \<Longrightarrow> length (climb sha h path) = 64"
proof (induction path arbitrary: h)
  case (Cons st path)
  obtain sib dir where "st = (sib, dir)" by fastforce
  with Cons show ?case by (simp add: hashPair_def)
qed simp

lemma VerifyProof_inv:
  assumes len: "hash32 sha" and inv: "merkle_inv sha s"
    and p: "length (mp_Siblings p) = length (mp_Directions p)" "length (mp_LeafHash p) = 64"
  shows "\<exists>s'. VerifyProof sha (Some p) s = Inr (climb sha (mp_LeafHash p) (zip (mp_Siblings p) (mp_Directions p)) = mp_Root p, s') \<and>
     merkle_inv sha s'"
proof -
  let ?h = "climb sha (mp_LeafHash p) (zip (mp_Siblings p) (mp_Directions p))"
  have "merkle_inv sha ((mcall c s)\<lparr>mt_lastProof := Some p, mt_lastProofVerified := b\<rparr>)" for c b
    using inv p(2) by (simp add: merkle_inv_def)
  then obtain s' where "Merkle_updateState ((mcall (CallEmit ''proof_verified'' [] []
        (Some [(''valid'', GBool (?h = mp_Root p)), (''computed_root'', GStr (take 16 ?h))])) s)
      \<lparr>mt_lastProof := Some p, mt_lastProofVerified := (?h = mp_Root p)\<rparr>) = Inr s'" "merkle_inv sha s'"
    using updateState_inv [OF len] by blast
  with p climb_length [OF len p(2)] show ?thesis
    by (simp add: VerifyProof_def Let_def go_slice_def)
qed

subsection \<open>Runs\<close>

lemma reset_inv:
  assumes "hash32 sha"
  shows "\<exists>s'. Merkle_updateState (s\<lparr>mt_leaves := [], mt_root := None, mt_levels := [], mt_lastProof := None,
     mt_lastProofVerified := False\<rparr>) = Inr s' \<and> merkle_inv sha s'"
proof -
  have "merkle_inv sha (s\<lparr>mt_leaves := [], mt_root := None, mt_levels := [], mt_lastProof := None, mt_lastProofVerified := False\<rparr>)"
    by (simp add: merkle_inv_def)
  from updateState_inv [OF assms this] show ?thesis by blast
qed

lemma verify_total:
  assumes "hash32 sha" and "merkle_inv sha s" and "mt_lastProof s = Some p"
  shows "\<exists>b s'. VerifyProof sha (Some p) s = Inr (b, s') \<and> merkle_inv sha s'"
proof (cases "length (mp_Siblings p) = length (mp_Directions p)")
  case True
  from assms(2,3) have "length (mp_LeafHash p) = 64" by (simp add: merkle_inv_def)
  from VerifyProof_inv [OF assms(1,2) True this] show ?thesis by blast
next
  case False
  with assms(2) show ?thesis by (auto simp: VerifyProof_def)
qed

lemma getProof_total:
  assumes "hash32 sha" and "merkle_inv sha s"
  shows "\<exists>r s'. GetProof i s = Inr (r, s') \<and> merkle_inv sha s'"
proof (cases "i < 0 \<or> int (length (mt_leaves s)) \<le> i")
  case True
  with assms(2) show ?thesis by (auto simp: GetProof_def)
next
  case False
  with GetProof_inv [OF assms, of "nat i"] show ?thesis by fastforce
qed

lemma action_inv:
  assumes "hash32 sha" and "merkle_inv sha s"
  shows "\<exists>r s'. Merkle_ExecuteAction sha oob a ps s = Inr (r, s') \<and> merkle_inv sha s'"
proof -
  obtain s1 where "AddLeaf sha (text_param ''data'' ''transaction:alice->bob:10'' ps) s = Inr s1" "merkle_inv sha s1"
    using AddLeaf_inv [OF assms] by blast
  moreover obtain r s2 where "GetProof (int_param oob ''leaf_index'' 0 ps) s = Inr (r, s2)" "merkle_inv sha s2"
    using getProof_total [OF assms] by blast
  moreover have "\<exists>b s'. VerifyProof sha (mt_lastProof s) s = Inr (b, s') \<and> merkle_inv sha s'" if "mt_lastProof s \<noteq> None"
    using verify_total [OF assms] that by auto
  moreover obtain s3 where "Merkle_updateState (s\<lparr>mt_leaves := [], mt_root := None, mt_levels := [], mt_lastProof := None,
     mt_lastProofVerified := False\<rparr>) = Inr s3" "merkle_inv sha s3"
    using reset_inv [OF assms(1)] by blast
  ultimately show ?thesis using assms(2) by (auto simp: Merkle_ExecuteAction_def)
qed

fun merkle_execs ::
  "(string \<Rightarrow> byte list) \<Rightarrow> int \<Rightarrow> (string \<times> (string, gval) gomap) list \<Rightarrow> MerkleTreeSimulator \<Rightarrow> MerkleTreeSimulator go" where
  "merkle_execs sha oob [] s = Inr s"
| "merkle_execs sha oob ((a, ps) # as) s =
     go_bind (Merkle_ExecuteAction sha oob a ps s) (\<lambda>(_, s). merkle_execs sha oob as s)"

lemma merkle_execs_inv:
  "hash32 sha \<Longrightarrow> merkle_inv sha s \<Longrightarrow> \<exists>s'. merkle_execs sha oob as s = Inr s' \<and> merkle_inv sha s'"
proof (induction "as" arbitrary: s)
  case (Cons act as)
  obtain a ps where act: "act = (a, ps)" by fastforce
  obtain r s1 where "Merkle_ExecuteAction sha oob a ps s = Inr (r, s1)" "merkle_inv sha s1"
    using action_inv [OF Cons.prems] by blast
  with Cons.IH [of s1] Cons.prems(1) act show ?case by simp
qed simp

lemma new_inv: "\<exists>s. Merkle_Init NewMerkleTreeSimulator = Inr s \<and> merkle_inv sha s"
  by (simp add: Merkle_Init_def Merkle_updateState_def NewMerkleTreeSimulator_def merkle_inv_def Let_def mcall_def)

text \<open>C22. No sequence of actions panics, and afterwards every leaf of the tree has a proof, against the
  current root, that the verification accepts.\<close>

theorem Merkle_complete:
  assumes "hash32 sha"
  shows "\<exists>s. go_bind (Merkle_Init NewMerkleTreeSimulator) (merkle_execs sha oob as) = Inr s \<and>
    (\<forall>i < length (mt_leaves s). \<exists>p s1 s2. GetProof (int i) s = Inr (Some p, s1) \<and> mp_LeafHash p = mn_Hash (mt_leaves s ! i) \<and>
       mp_Root p = root_hash s \<and> VerifyProof sha (Some p) s1 = Inr (True, s2))"
proof -
  obtain s where s: "go_bind (Merkle_Init NewMerkleTreeSimulator) (merkle_execs sha oob as) = Inr s" "merkle_inv sha s"
    using new_inv [of sha] merkle_execs_inv [OF assms] by (metis go_bind_eq_Inr)
  have "\<exists>p s1 s2. GetProof (int i) s = Inr (Some p, s1) \<and> mp_LeafHash p = mn_Hash (mt_leaves s ! i) \<and>
       mp_Root p = root_hash s \<and> VerifyProof sha (Some p) s1 = Inr (True, s2)" if i: "i < length (mt_leaves s)" for i
  proof -
    obtain p path s1 where p: "GetProof (int i) s = Inr (Some p, s1)" "merkle_inv sha s1" "mp_LeafHash p = mn_Hash (mt_leaves s ! i)"
        "mp_Root p = root_hash s" "mp_Siblings p = map fst path" "mp_Directions p = map snd path" "climb sha (mp_LeafHash p) path = mp_Root p"
      using GetProof_inv [OF assms s(2) i] by blast
    have "hash_ok (mt_leaves s ! i)" using s(2) i by (auto simp: merkle_inv_def list_all_length)
    with VerifyProof_inv [OF assms p(2), of p] p show ?thesis by (auto simp: hash_ok_def zip_map_fst_snd)
  qed
  with s(1) show ?thesis by blast
qed

theorem Merkle_complete_witness:
  "\<exists>s. go_bind (Merkle_Init NewMerkleTreeSimulator) (merkle_execs length_sha 0 [(''add_leaf'', [])]) = Inr s \<and>
    (\<forall>i < length (mt_leaves s). \<exists>p s1 s2. GetProof (int i) s = Inr (Some p, s1) \<and> mp_LeafHash p = mn_Hash (mt_leaves s ! i) \<and>
       mp_Root p = root_hash s \<and> VerifyProof length_sha (Some p) s1 = Inr (True, s2))"
  by (rule Merkle_complete) (simp add: hash32_def length_sha_def)

subsection \<open>Binding\<close>

text \<open>The texts that are hashed on the way from a leaf to the top.\<close>

fun climb_inputs :: "(string \<Rightarrow> byte list) \<Rightarrow> string \<Rightarrow> (string \<times> string) list \<Rightarrow> string list" where
  "climb_inputs sha h [] = []"
| "climb_inputs sha h ((sib, dir) # path) =
     (let x = (if dir = ''left'' then sib @ h else h @ sib) in x # climb_inputs sha (hex_encode (sha x)) path)"

definition proof_inputs :: "(string \<Rightarrow> byte list) \<Rightarrow> MerkleProof \<Rightarrow> string list" where
  "proof_inputs sha p = climb_inputs sha (mp_LeafHash p) (zip (mp_Siblings p) (mp_Directions p))"

lemma climb_binding:
  assumes "hash32 sha"
  shows "climb sha h path = climb sha h' path' \<Longrightarrow> map snd path = map snd path' \<Longrightarrow> length h = 64 \<Longrightarrow> length h' = 64 \<Longrightarrow>
    list_all (\<lambda>st. length (fst st) = 64) path \<Longrightarrow> list_all (\<lambda>st. length (fst st) = 64) path' \<Longrightarrow>
    h = h' \<and> path = path' \<or> collision sha (climb_inputs sha h path) (climb_inputs sha h' path')"
proof (induction path arbitrary: h h' path')
  case (Cons st path)
  obtain sib dir where st: "st = (sib, dir)" by fastforce
  with Cons.prems(2) obtain sib' path2 where p': "path' = (sib', dir) # path2" "map snd path = map snd path2"
    by (cases path') auto
  let ?x = "if dir = ''left'' then sib @ h else h @ sib" and ?y = "if dir = ''left'' then sib' @ h' else h' @ sib'"
  let ?u = "hex_encode (sha ?x)" and ?v = "hex_encode (sha ?y)"
  have up: "(if dir = ''left'' then hashPair sha a b else hashPair sha b a) = hex_encode (sha (if dir = ''left'' then a @ b else b @ a))" for a b
    by (simp add: hashPair_def)
  have "climb sha ?u path = climb sha ?v path2" using Cons.prems(1) unfolding st p'(1) climb.simps up .
  moreover have "length ?u = 64" "length ?v = 64" using assms by simp_all
  ultimately have ih: "?u = ?v \<and> path = path2 \<or> collision sha (climb_inputs sha ?u path) (climb_inputs sha ?v path2)"
    using Cons.IH [of ?u ?v path2] Cons.prems(5,6) p' by simp
  have ins: "climb_inputs sha h (st # path) = ?x # climb_inputs sha ?u path" "climb_inputs sha h' path' = ?y # climb_inputs sha ?v path2"
    by (simp_all only: st p'(1) climb_inputs.simps Let_def)
  have "length sib = length sib'" "length h = length h'" using Cons.prems st p' by simp_all
  then have xy: "?x = ?y \<Longrightarrow> sib = sib' \<and> h = h'" by (simp split: if_splits)
  from ih show ?case
  proof
    assume "?u = ?v \<and> path = path2"
    then have "sha ?x = sha ?y" "path = path2" by (simp_all add: hex_encode_inj)
    then show ?thesis using xy st p'(1) collision_head [of ?x ?y sha] unfolding ins by (cases "?x = ?y") simp_all
  next
    assume "collision sha (climb_inputs sha ?u path) (climb_inputs sha ?v path2)"
    then show ?thesis unfolding ins by (intro disjI2 collision_tail)
  qed
qed simp

lemma path_lengths:
  "list_all (list_all hash_ok) ls \<Longrightarrow> proof_path ls i = Inr path \<Longrightarrow> list_all (\<lambda>st. length (fst st) = 64) path"
proof (induction ls i arbitrary: path rule: proof_path.induct)
  case (1 ns ms ls idx)
  from "1.prems"(2) obtain st rest where r: "path_step ns idx = Inr st" "proof_path (ms # ls) (idx div 2) = Inr rest" "path = st # rest"
    by (auto simp: go_bind_eq_Inr)
  have "length (fst st) = 64"
    using r(1) "1.prems"(1) by (auto simp: path_step_def go_index_def go_bind_eq_Inr hash_ok_def list_all_iff split: if_splits)
  with "1.IH" [OF _ r(2)] "1.prems"(1) r(3) show ?case by simp
qed simp_all


subsection \<open>Two trees with one root\<close>

function top_hash :: "(string \<Rightarrow> byte list) \<Rightarrow> string list \<Rightarrow> string" where
  "top_hash sha hs = (if 1 < length hs then top_hash sha (pair_up sha hs) else hd hs)"
  by pat_completeness auto
termination by (relation "measure (\<lambda>(_, hs). length hs)") auto

declare top_hash.simps [simp del]

lemma top_of_levels: "ns \<noteq> [] \<Longrightarrow> mn_Hash (hd (last (build_levels sha level ns))) = top_hash sha (map mn_Hash ns)"
proof (induction sha level ns rule: build_levels.induct)
  case (1 sha level ns)
  show ?case
  proof (cases "1 < length ns")
    case True
    then have "0 < length (next_level sha level 0 ns)" by (simp add: length_next_level)
    then have "next_level sha level 0 ns \<noteq> []" by auto
    from "1.IH" [OF True this] True show ?thesis
      by (simp add: build_levels.simps [of sha level ns] top_hash.simps [of sha "map mn_Hash ns"] build_levels_ne next_level_hash)
  next
    case False
    with "1.prems" show ?thesis
      by (simp add: build_levels.simps [of sha level ns] top_hash.simps [of sha "map mn_Hash ns"] hd_map)
  qed
qed

lemma root_of_tree: "merkle_inv sha s \<Longrightarrow> mt_leaves s \<noteq> [] \<Longrightarrow> root_hash s = top_hash sha (map mn_Hash (mt_leaves s))"
  by (simp add: merkle_inv_def root_hash_def top_of_levels)

lemma pair_up_last: "odd (length hs) \<Longrightarrow> pair_up sha (hs @ [last hs]) = pair_up sha hs"
  by (induction sha hs rule: pair_up.induct) auto

fun add_leaves :: "(string \<Rightarrow> byte list) \<Rightarrow> string list \<Rightarrow> MerkleTreeSimulator \<Rightarrow> MerkleTreeSimulator go" where
  "add_leaves sha [] s = Inr s"
| "add_leaves sha (d # ds) s = go_bind (AddLeaf sha d s) (add_leaves sha ds)"

lemma add_leaves_ok:
  "hash32 sha \<Longrightarrow> merkle_inv sha s \<Longrightarrow> \<exists>s'. add_leaves sha ds s = Inr s' \<and> merkle_inv sha s' \<and>
     map mn_Hash (mt_leaves s') = map mn_Hash (mt_leaves s) @ map (hashData sha) ds"
proof (induction ds arbitrary: s)
  case (Cons d ds)
  obtain s1 where "AddLeaf sha d s = Inr s1" "merkle_inv sha s1" "map mn_Hash (mt_leaves s1) = map mn_Hash (mt_leaves s) @ [hashData sha d]"
    using AddLeaf_inv [OF Cons.prems] by blast
  with Cons.IH [of s1] Cons.prems(1) show ?case by fastforce
qed auto

text \<open>The root does not determine the leaves: repeating the last of an odd number of leaves, three or
  more, gives a tree with one more leaf and the same root.\<close>

theorem Merkle_same_root:
  assumes "hash32 sha" and "odd (length ds)" and "1 < length ds"
  shows "\<exists>s s'. add_leaves sha ds NewMerkleTreeSimulator = Inr s \<and> add_leaves sha (ds @ [last ds]) NewMerkleTreeSimulator = Inr s' \<and>
    root_hash s' = root_hash s \<and> length (mt_leaves s') = length (mt_leaves s) + 1"
proof -
  have new: "merkle_inv sha NewMerkleTreeSimulator" by (simp add: merkle_inv_def NewMerkleTreeSimulator_def)
  obtain s where s: "add_leaves sha ds NewMerkleTreeSimulator = Inr s" "merkle_inv sha s" "map mn_Hash (mt_leaves s) = map (hashData sha) ds"
    using add_leaves_ok [OF assms(1) new, of ds] by (auto simp: NewMerkleTreeSimulator_def)
  obtain s' where s': "add_leaves sha (ds @ [last ds]) NewMerkleTreeSimulator = Inr s'" "merkle_inv sha s'"
      "map mn_Hash (mt_leaves s') = map (hashData sha) (ds @ [last ds])"
    using add_leaves_ok [OF assms(1) new, of "ds @ [last ds]"] by (auto simp: NewMerkleTreeSimulator_def)
  have ne: "mt_leaves s \<noteq> []" "mt_leaves s' \<noteq> []" using s(3) s'(3) assms(3) by auto
  have "map (hashData sha) (ds @ [last ds]) = map (hashData sha) ds @ [last (map (hashData sha) ds)]"
    using assms(3) by (cases ds) (simp_all add: last_map)
  then have "top_hash sha (map (hashData sha) (ds @ [last ds])) = top_hash sha (map (hashData sha) ds)"
    using assms(2,3) pair_up_last [of "map (hashData sha) ds" sha]
    by (simp add: top_hash.simps [of sha "map (hashData sha) ds @ _"] top_hash.simps [of sha "map (hashData sha) ds"] del: map_append) auto
  with root_of_tree [OF s(2) ne(1)] root_of_tree [OF s'(2) ne(2)] s(3) s'(3)
  have "root_hash s' = root_hash s" by simp
  moreover have "length (mt_leaves s') = length (mt_leaves s) + 1"
    using arg_cong [OF s(3), of length] arg_cong [OF s'(3), of length] by simp
  ultimately show ?thesis using s(1) s'(1) by blast
qed

theorem Merkle_same_root_witness:
  "\<exists>s s'. add_leaves length_sha [''a'', ''b'', ''c''] NewMerkleTreeSimulator = Inr s \<and>
    add_leaves length_sha ([''a'', ''b'', ''c''] @ [last [''a'', ''b'', ''c'']]) NewMerkleTreeSimulator = Inr s' \<and>
    root_hash s' = root_hash s \<and> length (mt_leaves s') = length (mt_leaves s) + 1"
  by (rule Merkle_same_root) (simp_all add: hash32_def length_sha_def)

text \<open>
  With a hash that depends on the length alone a proof can be forged: the leaf and its sibling change places.
  The two texts that were hashed are the collision.
\<close>

definition merkle_demo :: MerkleTreeSimulator where
  "merkle_demo = projr (add_leaves length_sha [''a'', ''bb''] NewMerkleTreeSimulator)"

definition proof_demo :: MerkleProof where
  "proof_demo = the (fst (projr (GetProof 0 merkle_demo)))"

definition forged_demo :: MerkleProof where
  "forged_demo = proof_demo\<lparr>mp_LeafHash := hashData length_sha ''bb'', mp_Siblings := [hashData length_sha ''a'']\<rparr>"

definition forged_accepted :: bool where
  "forged_accepted \<longleftrightarrow> (case VerifyProof length_sha (Some forged_demo) merkle_demo of Inr (b, _) \<Rightarrow> b | Inl _ \<Rightarrow> False) \<and>
     mp_Root forged_demo = root_hash merkle_demo \<and> mp_LeafHash forged_demo \<noteq> mn_Hash (mt_leaves merkle_demo ! 0) \<and> 0 < length (mt_leaves merkle_demo)"

lemma forged_accepted: forged_accepted
  by code_simp


end
