(* ===== verification/Mempool.thy ===== *)
theory Mempool
  imports Utxo
begin

section \<open>The transaction pool: \<open>simulations/modules/blockchain/mempool.go\<close>\<close>

text \<open>
  Adding, replacing, evicting and packing.  \<open>h\<close> is the identity a new transaction gets,
  \<open>ord\<close> an order in which a map is met, and \<open>ranked\<close> the pending identities as
  \<open>sort.Slice\<close> leaves them, which is not determined among equal prices.
\<close>

record MempoolTx =
  mx_Hash :: string
  mx_From :: string
  mx_To :: string
  mx_Value :: u64
  mx_GasPrice :: u64
  mx_GasLimit :: u64
  mx_Nonce :: u64
  mx_Pending :: bool

record MempoolSimulator =
  po_pendingTxs :: "(string, MempoolTx) gomap"
  po_queuedTxs :: "(string, MempoolTx) gomap"
  po_nonces :: "(string, u64) gomap"
  po_maxPoolSize :: int
  po_minGasPrice :: u64
  po_calls :: "base_call list"

datatype mempool_err = GasPriceTooLow | TxNotFound | PriceBumpTooLow | UnsupportedMempoolAction string

definition NewMempoolSimulator :: MempoolSimulator where
  "NewMempoolSimulator = \<lparr>po_pendingTxs = [], po_queuedTxs = [], po_nonces = [], po_maxPoolSize = 100, po_minGasPrice = 1,
     po_calls = []\<rparr>"

definition pcall :: "base_call \<Rightarrow> MempoolSimulator \<Rightarrow> MempoolSimulator" where
  "pcall c s = s\<lparr>po_calls := po_calls s @ [c]\<rparr>"

text \<open>The stage shown: the pool is being prepared.\<close>

definition pool_stage :: string where
  "pool_stage = [CHR 0xE5, CHR 0x87, CHR 0x86, CHR 0xE5, CHR 0xA4, CHR 0x87, CHR 0xE4, CHR 0xBA, CHR 0xA4,
     CHR 0xE6, CHR 0x98, CHR 0x93, CHR 0xE6, CHR 0xB1, CHR 0xA0]"

definition Mempool_updateState :: "MempoolSimulator \<Rightarrow> MempoolSimulator" where
  "Mempool_updateState s =
     (let counts = [(''pending_count'', GInt (int (length (po_pendingTxs s)))), (''queued_count'', GInt (int (length (po_queuedTxs s))))]
      in pcall (CallTeaching pool_stage (Fin (1 / 2)) counts)
        (fold (\<lambda>(k, v). pcall (CallGlobal k v))
          (counts @ [(''max_pool_size'', GInt (po_maxPoolSize s)), (''min_gas_price'', GInt (uint (po_minGasPrice s)))]) s))"

text \<open>The part of \<open>Init\<close> after the base simulator's own; the pools are kept.\<close>

definition Mempool_Init :: "int \<Rightarrow> u64 \<Rightarrow> (string, gval) gomap \<Rightarrow> MempoolSimulator \<Rightarrow> MempoolSimulator" where
  "Mempool_Init oob uoob params s =
     Mempool_updateState (s\<lparr>po_maxPoolSize := int_param oob ''max_pool_size'' (po_maxPoolSize s) params,
       po_minGasPrice := (case go_get params ''min_gas_price'' of Some (GFloat x) \<Rightarrow> f64_to_u64 uoob x | _ \<Rightarrow> po_minGasPrice s),
       po_nonces := [(''alice'', 0), (''bob'', 0), (''charlie'', 0)]\<rparr>)"

subsection \<open>Eviction\<close>

fun lowest_loop :: "(string, MempoolTx) gomap \<Rightarrow> string list \<Rightarrow> string \<Rightarrow> u64 \<Rightarrow> string \<times> u64" where
  "lowest_loop m [] lowest price = (lowest, price)"
| "lowest_loop m (k # ks) lowest price =
     (case go_get m k of
        None \<Rightarrow> lowest_loop m ks lowest price
      | Some tx \<Rightarrow> if mx_GasPrice tx < price then lowest_loop m ks k (mx_GasPrice tx) else lowest_loop m ks lowest price)"

definition evictLowPriceTx :: "string list \<Rightarrow> MempoolSimulator \<Rightarrow> MempoolSimulator" where
  "evictLowPriceTx ord s =
     (case lowest_loop (po_pendingTxs s) ord [] (- 1) of (lowest, price) \<Rightarrow>
        if lowest = [] then s
        else pcall (CallEmit ''tx_evicted'' [] [] (Some [(''hash'', GStr lowest), (''gas_price'', GInt (uint price))]))
          (s\<lparr>po_pendingTxs := go_del lowest (po_pendingTxs s)\<rparr>))"

subsection \<open>Adding and replacing\<close>

definition nonce_of :: "string \<Rightarrow> MempoolSimulator \<Rightarrow> u64" where
  "nonce_of a s = (case go_get (po_nonces s) a of None \<Rightarrow> 0 | Some n \<Rightarrow> n)"

definition AddTransaction ::
  "string \<Rightarrow> string list \<Rightarrow> string \<Rightarrow> string \<Rightarrow> u64 \<Rightarrow> u64 \<Rightarrow> u64 \<Rightarrow> MempoolSimulator \<Rightarrow> (mempool_err + MempoolTx) \<times> MempoolSimulator" where
  "AddTransaction h ord from to v gasPrice gasLimit s =
     (if gasPrice < po_minGasPrice s then (Inl GasPriceTooLow, s)
      else
        let s = (if po_maxPoolSize s \<le> int (length (po_pendingTxs s) + length (po_queuedTxs s)) then evictLowPriceTx ord s else s);
            tx = \<lparr>mx_Hash = h, mx_From = from, mx_To = to, mx_Value = v, mx_GasPrice = gasPrice, mx_GasLimit = gasLimit,
              mx_Nonce = nonce_of from s, mx_Pending = True\<rparr>;
            s = s\<lparr>po_pendingTxs := go_put h tx (po_pendingTxs s), po_nonces := go_put from (nonce_of from s + 1) (po_nonces s)\<rparr>
        in (Inr tx, Mempool_updateState (pcall (CallEmit ''tx_added'' [] []
             (Some [(''hash'', GStr h), (''from'', GStr from), (''gas_price'', GInt (uint gasPrice))])) s)))"

text \<open>The price must rise by more than a tenth; the product is taken modulo \<open>2 ^ 64\<close>.\<close>

definition ReplaceTx :: "string \<Rightarrow> string \<Rightarrow> u64 \<Rightarrow> MempoolSimulator \<Rightarrow> (mempool_err + MempoolTx) \<times> MempoolSimulator" where
  "ReplaceTx h oldHash newGasPrice s =
     (case go_get (po_pendingTxs s) oldHash of
        None \<Rightarrow> (Inl TxNotFound, s)
      | Some old \<Rightarrow>
          if newGasPrice \<le> mx_GasPrice old * 110 div 100 then (Inl PriceBumpTooLow, s)
          else
            let tx = old\<lparr>mx_Hash := h, mx_GasPrice := newGasPrice, mx_Pending := True\<rparr>
            in (Inr tx, Mempool_updateState (pcall (CallEmit ''tx_replaced'' [] []
                 (Some [(''old_hash'', GStr oldHash), (''new_hash'', GStr h), (''new_gas_price'', GInt (uint newGasPrice))]))
                 (s\<lparr>po_pendingTxs := go_put h tx (go_del oldHash (po_pendingTxs s))\<rparr>))))"

subsection \<open>Packing\<close>

definition price_at :: "(string, MempoolTx) gomap \<Rightarrow> string \<Rightarrow> u64" where
  "price_at m k = (case go_get m k of None \<Rightarrow> 0 | Some tx \<Rightarrow> mx_GasPrice tx)"

text \<open>A possible result of sorting the pending transactions by falling price.\<close>

definition by_price :: "(string, MempoolTx) gomap \<Rightarrow> string list \<Rightarrow> bool" where
  "by_price m ks \<longleftrightarrow> map_order m ks \<and> sorted_wrt (\<lambda>a b. price_at m b \<le> price_at m a) ks"

definition packBlock :: "string list \<Rightarrow> MempoolSimulator \<Rightarrow> MempoolSimulator" where
  "packBlock ranked s =
     (let n = min 5 (length ranked);
          hashes = map (\<lambda>k. mx_Hash (the (go_get (po_pendingTxs s) k))) (take n ranked)
      in pcall (CallEmit ''block_packed'' [] [] (Some [(''tx_count'', GInt (int n))]))
        (s\<lparr>po_pendingTxs := fold go_del hashes (po_pendingTxs s)\<rparr>))"

definition promote :: "string \<Rightarrow> MempoolSimulator \<Rightarrow> MempoolSimulator" where
  "promote k s =
     (case go_get (po_queuedTxs s) k of
        None \<Rightarrow> s
      | Some tx \<Rightarrow> if mx_Nonce tx = nonce_of (mx_From tx) s
          then s\<lparr>po_queuedTxs := go_del k (po_queuedTxs s), po_pendingTxs := go_put k (tx\<lparr>mx_Pending := True\<rparr>) (po_pendingTxs s)\<rparr>
          else s)"

definition promoteQueuedTxs :: "string list \<Rightarrow> MempoolSimulator \<Rightarrow> MempoolSimulator" where
  "promoteQueuedTxs ord s = fold promote ord s"

definition Mempool_onTick :: "string list \<Rightarrow> string list \<Rightarrow> u64 \<Rightarrow> MempoolSimulator \<Rightarrow> MempoolSimulator" where
  "Mempool_onTick ranked ord tick s =
     (let s = (if tick mod 10 = 0 \<and> po_pendingTxs s \<noteq> [] then packBlock ranked s else s)
      in Mempool_updateState (promoteQueuedTxs ord s))"

definition maxUint64 :: "u64 \<Rightarrow> u64 \<Rightarrow> u64" where
  "maxUint64 a b = (if b < a then a else b)"

text \<open>The result is the error or the number of pending transactions.\<close>

definition Mempool_ExecuteAction ::
  "string \<Rightarrow> string list \<Rightarrow> string list \<Rightarrow> string \<Rightarrow> MempoolSimulator \<Rightarrow> (mempool_err + nat) \<times> MempoolSimulator" where
  "Mempool_ExecuteAction h ranked ord action s =
     (if action = ''add_transaction'' then
        (case AddTransaction h ord ''alice'' ''bob'' 10 (maxUint64 (po_minGasPrice s) 1) 21000 s of
           (Inl e, s) \<Rightarrow> (Inl e, s)
         | (Inr tx, s) \<Rightarrow> (Inr (length (po_pendingTxs s)), s))
      else if action = ''pack_block'' then
        let s = Mempool_updateState (promoteQueuedTxs ord (packBlock ranked s)) in (Inr (length (po_pendingTxs s)), s)
      else (Inl (UnsupportedMempoolAction action), s))"

end
