(* ===== verification/MempoolFacts.thy ===== *)
theory MempoolFacts
  imports Mempool
begin

section \<open>The transaction pool: properties\<close>

text \<open>
  A block takes the best paid transactions, the pool keeps its size, and a replacement must pay a
  tenth more, unless the product wraps around.
\<close>

text \<open>Every transaction is filed under its own, non-empty identity, and none offers the greatest price there is.\<close>

definition pool_ok :: "MempoolSimulator \<Rightarrow> bool" where
  "pool_ok s \<longleftrightarrow> go_wf (po_pendingTxs s) \<and> po_queuedTxs s = [] \<and>
     list_all (\<lambda>(k, tx). k = mx_Hash tx \<and> k \<noteq> [] \<and> mx_GasPrice tx < - 1) (po_pendingTxs s)"

lemma pool_entry: "pool_ok s \<Longrightarrow> go_get (po_pendingTxs s) k = Some tx \<Longrightarrow> k = mx_Hash tx \<and> k \<noteq> [] \<and> mx_GasPrice tx < - 1"
  by (auto simp: pool_ok_def list_all_iff go_get_def dest: map_of_SomeD)

lemma pool_okI: "go_wf (po_pendingTxs s) \<Longrightarrow> po_queuedTxs s = [] \<Longrightarrow>
    (\<And>k tx. go_get (po_pendingTxs s) k = Some tx \<Longrightarrow> k = mx_Hash tx \<and> k \<noteq> [] \<and> mx_GasPrice tx < - 1) \<Longrightarrow> pool_ok s"
  unfolding pool_ok_def list_all_iff go_get_def go_wf_def go_keys_def by (auto simp: map_of_eq_Some_iff)

lemma pcall_simps [simp]:
  "po_pendingTxs (pcall c s) = po_pendingTxs s" "po_queuedTxs (pcall c s) = po_queuedTxs s" "po_nonces (pcall c s) = po_nonces s"
  "po_maxPoolSize (pcall c s) = po_maxPoolSize s" "po_minGasPrice (pcall c s) = po_minGasPrice s"
  by (simp_all add: pcall_def)

lemma pool_update_simps [simp]:
  "po_pendingTxs (Mempool_updateState s) = po_pendingTxs s" "po_queuedTxs (Mempool_updateState s) = po_queuedTxs s"
  "po_nonces (Mempool_updateState s) = po_nonces s" "po_maxPoolSize (Mempool_updateState s) = po_maxPoolSize s"
  by (simp_all add: Mempool_updateState_def Let_def)

subsection \<open>Packing\<close>

lemma fold_del: "go_get (fold go_del ks m) k = (if k \<in> set ks then None else go_get m k)"
  by (induction ks arbitrary: m) auto

lemma go_wf_fold_del: "go_wf m \<Longrightarrow> go_wf (fold go_del ks m)"
  by (induction ks arbitrary: m) auto

lemma packed_hashes:
  assumes "pool_ok s" and "map_order (po_pendingTxs s) ks"
  shows "map (\<lambda>k. mx_Hash (the (go_get (po_pendingTxs s) k))) (take n ks) = take n ks"
proof (rule map_idI)
  fix k assume "k \<in> set (take n ks)"
  then have "k \<in> set (go_keys (po_pendingTxs s))" using assms(2) by (auto simp: map_order_def dest: in_set_takeD)
  then obtain tx where "go_get (po_pendingTxs s) k = Some tx" by (metis go_get_None_iff not_None_eq)
  with pool_entry [OF assms(1) this] show "mx_Hash (the (go_get (po_pendingTxs s) k)) = k" by simp
qed

text \<open>A block takes exactly the five best paid pending transactions, or all of them if there are fewer, and
  leaves the others: none that is left pays more than one that is taken, however equal prices are ordered.\<close>

theorem Mempool_pack_best:
  assumes "pool_ok s" and "by_price (po_pendingTxs s) ks"
  shows "\<exists>taken. length taken = min 5 (length (po_pendingTxs s)) \<and> distinct taken \<and>
    (\<forall>k. go_get (po_pendingTxs (packBlock ks s)) k = (if k \<in> set taken then None else go_get (po_pendingTxs s) k)) \<and>
    (\<forall>k \<in> set taken. \<forall>j. j \<notin> set taken \<longrightarrow> price_at (po_pendingTxs s) j \<le> price_at (po_pendingTxs s) k)"
proof -
  let ?m = "po_pendingTxs s" and ?n = "min 5 (length ks)"
  have ord: "map_order ?m ks" and sort: "sorted_wrt (\<lambda>a b. price_at ?m b \<le> price_at ?m a) ks"
    using assms(2) by (simp_all add: by_price_def)
  have "length ks = length ?m"
    using ord assms(1) by (metis distinct_card go_len_card map_order_def pool_ok_def)
  moreover have "price_at ?m j \<le> price_at ?m k" if "k \<in> set (take ?n ks)" "j \<notin> set (take ?n ks)" for k j
  proof (cases "j \<in> set ks")
    case True
    then have "j \<in> set (drop ?n ks)" using that(2) by (metis Un_iff append_take_drop_id set_append)
    moreover have "sorted_wrt (\<lambda>a b. price_at ?m b \<le> price_at ?m a) (take ?n ks @ drop ?n ks)" using sort by simp
    ultimately show ?thesis using that(1) by (auto simp only: sorted_wrt_append)
  next
    case False
    then have "go_get ?m j = None" using ord by (simp add: map_order_def go_get_None_iff)
    then show ?thesis by (simp add: price_at_def)
  qed
  ultimately show ?thesis
    using ord packed_hashes [OF assms(1) ord, of ?n]
    by (intro exI [of _ "take ?n ks"]) (simp add: packBlock_def Let_def fold_del map_order_def)
qed

definition pool_demo :: MempoolSimulator where
  "pool_demo = NewMempoolSimulator\<lparr>po_pendingTxs := [(''a'', \<lparr>mx_Hash = ''a'', mx_From = ''alice'', mx_To = ''bob'', mx_Value = 1,
     mx_GasPrice = 3, mx_GasLimit = 21000, mx_Nonce = 0, mx_Pending = True\<rparr>)]\<rparr>"

lemma pool_demo_ok: "pool_ok pool_demo"
  by (simp add: pool_ok_def pool_demo_def NewMempoolSimulator_def go_wf_def go_keys_def)

theorem Mempool_pack_best_witness:
  "\<exists>taken. length taken = min 5 (length (po_pendingTxs pool_demo)) \<and> distinct taken \<and>
    (\<forall>k. go_get (po_pendingTxs (packBlock [''a''] pool_demo)) k = (if k \<in> set taken then None else go_get (po_pendingTxs pool_demo) k)) \<and>
    (\<forall>k \<in> set taken. \<forall>j. j \<notin> set taken \<longrightarrow> price_at (po_pendingTxs pool_demo) j \<le> price_at (po_pendingTxs pool_demo) k)"
  by (rule Mempool_pack_best [OF pool_demo_ok]) (simp add: by_price_def map_order_def pool_demo_def go_keys_def)

subsection \<open>The size of the pool\<close>

lemma lowest_loop_found:
  "lowest_loop m ks l p = (l', p') \<Longrightarrow> (\<exists>k \<in> set ks. \<exists>tx. go_get m k = Some tx \<and> mx_GasPrice tx < p) \<Longrightarrow>
    go_get m l' \<noteq> None"
proof (induction ks arbitrary: l p)
  case (Cons k ks)
  show ?case
  proof (cases "\<exists>tx. go_get m k = Some tx \<and> mx_GasPrice tx < p")
    case True
    then obtain tx where tx: "go_get m k = Some tx" "mx_GasPrice tx < p" by blast
    with Cons.prems(1) have r: "lowest_loop m ks k (mx_GasPrice tx) = (l', p')" by simp
    show ?thesis
    proof (cases "\<exists>j \<in> set ks. \<exists>t. go_get m j = Some t \<and> mx_GasPrice t < mx_GasPrice tx")
      case True
      with Cons.IH [OF r] show ?thesis by blast
    next
      case False
      then have "lowest_loop m ks k (mx_GasPrice tx) = (k, mx_GasPrice tx)"
        by (induction ks) (auto split: option.split)
      with r tx show ?thesis by simp
    qed
  next
    case False
    with Cons.prems have "lowest_loop m ks l p = (l', p')" "\<exists>k \<in> set ks. \<exists>tx. go_get m k = Some tx \<and> mx_GasPrice tx < p"
      by (auto split: option.splits)
    then show ?thesis by (rule Cons.IH)
  qed
qed simp

lemma evict_ok:
  assumes "pool_ok s" and "map_order (po_pendingTxs s) ord" and "po_pendingTxs s \<noteq> []"
  shows "pool_ok (evictLowPriceTx ord s) \<and> length (po_pendingTxs (evictLowPriceTx ord s)) = length (po_pendingTxs s) - 1 \<and>
    po_maxPoolSize (evictLowPriceTx ord s) = po_maxPoolSize s \<and> (\<forall>k. go_get (po_pendingTxs s) k = None \<longrightarrow>
      go_get (po_pendingTxs (evictLowPriceTx ord s)) k = None)"
proof -
  obtain k tx m where e: "po_pendingTxs s = (k, tx) # m" using assms(3) by (metis list.exhaust surj_pair)
  then have get: "go_get (po_pendingTxs s) k = Some tx" by (simp add: go_get_def)
  obtain l p where l: "lowest_loop (po_pendingTxs s) ord [] (- 1) = (l, p)" by fastforce
  have "k \<in> set ord" using assms(2) e by (simp add: map_order_def go_keys_def)
  with lowest_loop_found [OF l] get pool_entry [OF assms(1) get] have in_pool: "go_get (po_pendingTxs s) l \<noteq> None" by blast
  then have "l \<noteq> []" using pool_entry [OF assms(1)] by fastforce
  with l have after: "po_pendingTxs (evictLowPriceTx ord s) = go_del l (po_pendingTxs s)"
    and others: "po_queuedTxs (evictLowPriceTx ord s) = po_queuedTxs s" "po_maxPoolSize (evictLowPriceTx ord s) = po_maxPoolSize s"
    by (simp_all add: evictLowPriceTx_def)
  have wf: "go_wf (po_pendingTxs s)" and empty: "po_queuedTxs s = []" using assms(1) by (simp_all add: pool_ok_def)
  have "pool_ok (evictLowPriceTx ord s)"
    by (rule pool_okI) (auto simp: after others wf empty split: if_splits dest: pool_entry [OF assms(1)])
  with after others in_pool wf show ?thesis by (auto simp: length_go_del go_get_None_iff)
qed

text \<open>Adding a transaction whose price is accepted puts it into the pool under its own identity; a pool that is
  full gives up one of its transactions for it, so the pool never grows beyond its maximal size (or what it
  already held, where the maximum was lowered).\<close>

theorem Mempool_size_bounded:
  assumes "pool_ok s" and "map_order (po_pendingTxs s) ord" and "po_minGasPrice s \<le> p" and "p < - 1"
    and "h \<noteq> []" and "go_get (po_pendingTxs s) h = None"
  shows "\<exists>tx s'. AddTransaction h ord from to v p g s = (Inr tx, s') \<and> pool_ok s' \<and> go_get (po_pendingTxs s') h = Some tx \<and>
    int (length (po_pendingTxs s')) \<le> max (max 1 (po_maxPoolSize s)) (int (length (po_pendingTxs s)))"
proof -
  define s1 where "s1 = (if po_maxPoolSize s \<le> int (length (po_pendingTxs s) + length (po_queuedTxs s)) then evictLowPriceTx ord s else s)"
  have empty: "po_queuedTxs s = []" using assms(1) by (simp add: pool_ok_def)
  have s1: "pool_ok s1 \<and> go_get (po_pendingTxs s1) h = None \<and>
      int (length (po_pendingTxs s1)) + 1 \<le> max (max 1 (po_maxPoolSize s)) (int (length (po_pendingTxs s)))"
  proof (cases "po_maxPoolSize s \<le> int (length (po_pendingTxs s)) \<and> po_pendingTxs s \<noteq> []")
    case True
    with evict_ok [OF assms(1,2)] assms(6) show ?thesis by (auto simp: s1_def empty)
  next
    case False
    moreover have "evictLowPriceTx ord s = s" if "po_pendingTxs s = []"
      using assms(2) that by (simp add: evictLowPriceTx_def map_order_def go_keys_def)
    ultimately show ?thesis using assms(1,6) by (auto simp: s1_def empty)
  qed
  then have wf: "go_wf (po_pendingTxs s1)" and q: "po_queuedTxs s1 = []" by (simp_all add: pool_ok_def)
  define tx where "tx = \<lparr>mx_Hash = h, mx_From = from, mx_To = to, mx_Value = v, mx_GasPrice = p, mx_GasLimit = g,
    mx_Nonce = nonce_of from s1, mx_Pending = True\<rparr>"
  define s' where "s' = snd (AddTransaction h ord from to v p g s)"
  have price: "\<not> p < po_minGasPrice s" using assms(3) by (simp only: not_less)
  have r: "AddTransaction h ord from to v p g s = (Inr tx, s')"
    unfolding s'_def AddTransaction_def s1_def [symmetric] if_not_P [OF price] Let_def tx_def snd_conv ..
  have s': "po_pendingTxs s' = go_put h tx (po_pendingTxs s1)" "po_queuedTxs s' = []"
    unfolding s'_def AddTransaction_def s1_def [symmetric] if_not_P [OF price] Let_def tx_def snd_conv by (simp_all add: q)
  have tx: "mx_Hash tx = h" "mx_GasPrice tx = p" by (simp_all add: tx_def)
  have "pool_ok s'"
    by (rule pool_okI) (use s1 wf s' tx assms(4,5) in \<open>auto split: if_splits dest: pool_entry\<close>)
  moreover have "length (po_pendingTxs s') = length (po_pendingTxs s1) + 1"
    using s1 s' wf by (simp add: length_go_put go_get_None_iff)
  ultimately show ?thesis using r s' s1 by auto
qed

theorem Mempool_size_bounded_witness:
  "\<exists>tx s'. AddTransaction ''b'' [''a''] ''bob'' ''alice'' 1 9 21000 (pool_demo\<lparr>po_maxPoolSize := 1\<rparr>) = (Inr tx, s') \<and> pool_ok s' \<and>
    go_get (po_pendingTxs s') ''b'' = Some tx \<and>
    int (length (po_pendingTxs s')) \<le> max (max 1 (po_maxPoolSize (pool_demo\<lparr>po_maxPoolSize := 1\<rparr>)))
      (int (length (po_pendingTxs (pool_demo\<lparr>po_maxPoolSize := 1\<rparr>))))"
  by (rule Mempool_size_bounded)
    (simp_all add: pool_ok_def pool_demo_def NewMempoolSimulator_def go_wf_def go_keys_def map_order_def go_get_def)

subsection \<open>Replacing\<close>

lemma bump_no_wrap:
  fixes p q :: u64
  assumes "110 * unat p < 2 ^ 64"
  shows "q \<le> p * 110 div 100 \<longleftrightarrow> 100 * unat q \<le> 110 * unat p"
proof -
  have "unat (p * 110) = 110 * unat p" using assms by (simp add: unat_word_ariths)
  then have "unat (p * 110 div 100) = 110 * unat p div 100" by (simp add: unat_div)
  then show ?thesis by (simp add: word_le_nat_alt less_eq_div_iff_mult_less_eq mult.commute)
qed

text \<open>As long as 110 times the old price fits in 64 bits, a pending transaction is replaced exactly
  when the new price is more than a tenth above the old one; the old identity then leaves the pool, the new
  one enters it with the sender, receiver, value and nonce kept, and a refused replacement changes nothing.\<close>

theorem Mempool_replace:
  assumes "go_get (po_pendingTxs s) k = Some old" and "110 * unat (mx_GasPrice old) < 2 ^ 64" and "h \<noteq> k"
  shows "if 110 * unat (mx_GasPrice old) < 100 * unat p
    then \<exists>s'. ReplaceTx h k p s = (Inr (old\<lparr>mx_Hash := h, mx_GasPrice := p, mx_Pending := True\<rparr>), s') \<and>
      (\<forall>j. go_get (po_pendingTxs s') j = (if j = h then Some (old\<lparr>mx_Hash := h, mx_GasPrice := p, mx_Pending := True\<rparr>)
        else if j = k then None else go_get (po_pendingTxs s) j)) \<and> po_nonces s' = po_nonces s
    else ReplaceTx h k p s = (Inl PriceBumpTooLow, s)"
  using assms(1,3) bump_no_wrap [OF assms(2), of p] by (auto simp: ReplaceTx_def Let_def)

theorem Mempool_replace_witness:
  "\<exists>s'. ReplaceTx ''b'' ''a'' 4 pool_demo = (Inr ((the (go_get (po_pendingTxs pool_demo) ''a''))\<lparr>mx_Hash := ''b'', mx_GasPrice := 4,
    mx_Pending := True\<rparr>), s') \<and> go_get (po_pendingTxs s') ''a'' = None"
  using Mempool_replace [of pool_demo "''a''" "the (go_get (po_pendingTxs pool_demo) ''a'')" "''b''" 4]
  by (auto simp: pool_demo_def NewMempoolSimulator_def go_get_def)

text \<open>The product of the price bump wraps around: a pending transaction that pays 167697673397359561 per unit of
  gas can be replaced by one that pays 1.\<close>

theorem Mempool_replace_wraps:
  fixes s :: MempoolSimulator
  assumes "go_get (po_pendingTxs s) k = Some old" and "mx_GasPrice old = 167697673397359561"
  shows "\<exists>s' tx. ReplaceTx h k 1 s = (Inr tx, s') \<and> mx_GasPrice tx = 1 \<and> go_get (po_pendingTxs s') h = Some tx"
  using assms by (simp add: ReplaceTx_def Let_def)

theorem Mempool_replace_wraps_witness:
  "\<exists>s' tx. ReplaceTx ''b'' ''a'' 1 (pool_demo\<lparr>po_pendingTxs := [(''a'', \<lparr>mx_Hash = ''a'', mx_From = ''alice'', mx_To = ''bob'',
    mx_Value = 1, mx_GasPrice = 167697673397359561, mx_GasLimit = 21000, mx_Nonce = 0, mx_Pending = True\<rparr>)]\<rparr>) = (Inr tx, s') \<and>
    mx_GasPrice tx = 1 \<and> go_get (po_pendingTxs s') ''b'' = Some tx"
  by (rule Mempool_replace_wraps) (auto simp: go_get_def)

end
