(* ===== verification/SimText.thy ===== *)
theory SimText
  imports SimCalls "HOL-Library.List_Lexorder" "HOL-Library.Char_ord"
begin

section \<open>Texts, times and amounts of the modules\<close>

text \<open>
  What several modules use of Go's library: amounts as \<open>big.Int\<close>, the bytes of a string, strings
  in order, durations and their texts.  A duration is a signed 64-bit number of nanoseconds.
\<close>

subsection \<open>Amounts\<close>

text \<open>The digits of a number are computed in the type \<open>int\<close>.\<close>

function int_digits :: "int \<Rightarrow> int \<Rightarrow> nat list" where
  "int_digits b n = (if n < b \<or> b < 2 then [nat n] else int_digits b (n div b) @ [nat (n mod b)])"
  by pat_completeness auto
termination
  by (relation "measure (\<lambda>(b, n). nat n)") (auto simp: nat_mono_iff int_div_less_self)

declare int_digits.simps [simp del]

lemma int_digits_nat: "int_digits (int b) (int n) = nat_digits b n"
proof (induction b n rule: nat_digits.induct)
  case (1 b n)
  have "int n div int b = int (n div b)" "nat (int n mod int b) = n mod b" by (simp_all add: zdiv_int flip: zmod_int)
  with 1 show ?case
    by (subst int_digits.simps, subst nat_digits.simps) auto
qed

lemma int_text_code [code]:
  "int_text b x = (if x < 0 then ''-'' else []) @ map hex_digit (int_digits (int b) \<bar>x\<bar>)"
  using int_digits_nat [of b "nat \<bar>x\<bar>"] by (simp add: int_text_def)

text \<open>\<open>Div\<close> panics on a zero divisor; \<open>Int64\<close> keeps the low 64 bits.\<close>

definition go_big_div :: "int \<Rightarrow> int \<Rightarrow> int go" where
  "go_big_div x y = (if y = 0 then Inl DivideByZero else Inr (big_div x y))"

definition f64_of_big :: "int \<Rightarrow> f64" where
  "f64_of_big x = f64_of_int (sint (word_of_int x :: u64))"

definition big_text :: "int \<Rightarrow> gval" where
  "big_text x = GStr (int_text 10 x)"

text \<open>A fee rate in percent, in units of a hundred thousandth.\<close>

definition fee_units :: "int \<Rightarrow> f64 \<Rightarrow> int" where
  "fee_units oob fee = f64_to_int oob (f64_mul fee (Fin 1000))"

text \<open>A fee at such a rate is a part of the amount.\<close>

lemma fee_bounds: "0 \<le> x \<Longrightarrow> 0 \<le> f \<Longrightarrow> f \<le> 100000 \<Longrightarrow> 0 \<le> big_div (x * f) 100000 \<and> big_div (x * f) 100000 \<le> (x :: int)"
proof -
  assume x: "0 \<le> x" and f: "0 \<le> f" "f \<le> 100000"
  have "x * f div 100000 \<le> x * 100000 div 100000" using x f by (intro zdiv_mono1 mult_left_mono) auto
  then show ?thesis using x f by (simp add: big_div_nonneg pos_imp_zdiv_nonneg_iff)
qed

subsection \<open>Strings\<close>

definition str_bytes :: "string \<Rightarrow> byte list" where
  "str_bytes = map of_char"

text \<open>A text given by its bytes in UTF-8.\<close>

definition byte_text :: "nat list \<Rightarrow> string" where
  "byte_text bs = map char_of bs"


text \<open>\<open>sort.Strings\<close>.\<close>

definition sort_strings :: "string list \<Rightarrow> string list" where
  "sort_strings = sort"

lemma set_sort_strings [simp]: "set (sort_strings xs) = set xs"
  by (simp add: sort_strings_def)

lemma length_sort_strings [simp]: "length (sort_strings xs) = length xs"
  by (simp add: sort_strings_def)

lemma distinct_sort_strings [simp]: "distinct (sort_strings xs) = distinct xs"
  by (simp add: sort_strings_def)

subsection \<open>Durations\<close>

definition second :: int where
  "second = 1000000000"

definition hour :: int where
  "hour = 3600000000000"

text \<open>
  \<open>Sub\<close> of two times saturates.  The zero time is the start of the year 1, the others count from
  1970.
\<close>

definition time_nanos :: "gtime \<Rightarrow> int" where
  "time_nanos t = (case t of None \<Rightarrow> - 62135596800 * second | Some n \<Rightarrow> n)"

definition time_sub :: "gtime \<Rightarrow> gtime \<Rightarrow> int" where
  "time_sub t u = max (- (2 ^ 63)) (min (2 ^ 63 - 1) (time_nanos t - time_nanos u))"

text \<open>\<open>Duration.String\<close>: a fraction without the zeros at its end, below a second in a smaller unit.\<close>

definition fraction_text :: "int \<Rightarrow> nat \<Rightarrow> string" where
  "fraction_text v k =
     (let ds = rev (dropWhile ((=) (CHR ''0'')) (rev (map (\<lambda>i. hex_digit (nat (v div 10 ^ i mod 10))) (rev [0..<k]))))
      in if ds = [] then [] else CHR ''.'' # ds)"

definition scaled_text :: "int \<Rightarrow> nat \<Rightarrow> string" where
  "scaled_text v k = int_text 10 (v div 10 ^ k) @ fraction_text v k"

definition duration_text :: "int \<Rightarrow> string" where
  "duration_text d =
     (let u = \<bar>d\<bar>; sign = (if d < 0 then ''-'' else []); s = u div second
      in if u = 0 then ''0s''
         else if u < 1000 then sign @ int_text 10 u @ ''ns''
         else if u < 1000000 then sign @ scaled_text u 3 @ [char_of (0xC2 :: nat), char_of (0xB5 :: nat), CHR ''s'']
         else if u < second then sign @ scaled_text u 6 @ ''ms''
         else sign @ (if s < 3600 then [] else int_text 10 (s div 3600) @ ''h'') @
           (if s < 60 then [] else int_text 10 (s div 60 mod 60) @ ''m'') @
           int_text 10 (s mod 60) @ fraction_text u 9 @ ''s'')"

text \<open>A number of hours as a duration, which is a signed 64-bit number of nanoseconds.\<close>

definition hours :: "int \<Rightarrow> f64 \<Rightarrow> int" where
  "hours oob x = sint (word_of_int (f64_to_int oob x * hour) :: u64)"

definition hours_param :: "int \<Rightarrow> string \<Rightarrow> int \<Rightarrow> (string, gval) gomap \<Rightarrow> int" where
  "hours_param oob key dflt params = (case go_get params key of Some (GFloat x) \<Rightarrow> hours oob x | _ \<Rightarrow> dflt)"

subsection \<open>Base 64 and base 32\<close>

text \<open>
  Three bytes are four digits of six bits; two bytes are three digits, one byte two, and \<open>pad\<close> fills
  the last group when there is such a character.
\<close>

definition std64 :: string where
  "std64 = ''ABCDEFGHIJKLMNOPQRSTUVWXYZabcdefghijklmnopqrstuvwxyz0123456789+/''"

definition url64 :: string where
  "url64 = ''ABCDEFGHIJKLMNOPQRSTUVWXYZabcdefghijklmnopqrstuvwxyz0123456789-_''"

definition std32 :: string where
  "std32 = ''ABCDEFGHIJKLMNOPQRSTUVWXYZ234567''"

fun encode64 :: "string \<Rightarrow> bool \<Rightarrow> byte list \<Rightarrow> string" where
  "encode64 al pad [] = []"
| "encode64 al pad [a] = [al ! (unat a div 4), al ! (unat a mod 4 * 16)] @ (if pad then ''=='' else [])"
| "encode64 al pad [a, b] =
     [al ! (unat a div 4), al ! (unat a mod 4 * 16 + unat b div 16), al ! (unat b mod 16 * 4)] @ (if pad then ''='' else [])"
| "encode64 al pad (a # b # c # bs) =
     [al ! (unat a div 4), al ! (unat a mod 4 * 16 + unat b div 16), al ! (unat b mod 16 * 4 + unat c div 64), al ! (unat c mod 64)] @
     encode64 al pad bs"

text \<open>The position of a character.\<close>

fun index_of :: "string \<Rightarrow> char \<Rightarrow> nat option" where
  "index_of [] c = None"
| "index_of (d # ds) c = (if d = c then Some 0 else map_option Suc (index_of ds c))"

text \<open>The decoder with padding; line ends are skipped and the bits of the last digit that are not used are ignored.\<close>

fun quads64 :: "string \<Rightarrow> string \<Rightarrow> byte list option" where
  "quads64 al [] = Some []"
| "quads64 al (p # q # r # s # cs) =
     (case (index_of al p, index_of al q) of
        (Some x, Some y) \<Rightarrow>
          if r = CHR ''='' \<and> s = CHR ''='' \<and> cs = [] then Some [of_nat (x * 4 + y div 16)]
          else
            (case index_of al r of
               None \<Rightarrow> None
             | Some z \<Rightarrow>
                 if s = CHR ''='' \<and> cs = [] then Some [of_nat (x * 4 + y div 16), of_nat (y mod 16 * 16 + z div 4)]
                 else
                   (case (index_of al s, quads64 al cs) of
                      (Some t, Some bs) \<Rightarrow>
                        Some ([of_nat (x * 4 + y div 16), of_nat (y mod 16 * 16 + z div 4), of_nat (z mod 4 * 64 + t)] @ bs)
                    | _ \<Rightarrow> None))
      | _ \<Rightarrow> None)"
| "quads64 al _ = None"

definition decode64 :: "string \<Rightarrow> string \<Rightarrow> byte list option" where
  "decode64 al cs = quads64 al (filter (\<lambda>c. c \<noteq> CHR 0x0A \<and> c \<noteq> CHR 0x0D) cs)"

text \<open>Five bytes are eight digits of five bits; an incomplete group is filled with zero bytes and then with padding.\<close>

definition group32 :: "byte list \<Rightarrow> string" where
  "group32 bs =
     (let v = foldl (\<lambda>n b. n * 256 + uint b) 0 (bs @ replicate (5 - length bs) 0);
          digits = map (\<lambda>i. std32 ! nat (v div 32 ^ i mod 32)) [7, 6, 5, 4, 3, 2, 1, 0];
          used = (8 * length bs + 4) div 5
      in take used digits @ replicate (8 - used) (CHR ''=''))"

fun encode32 :: "byte list \<Rightarrow> string" where
  "encode32 [] = []"
| "encode32 (a # b # c # d # e # bs) = group32 [a, b, c, d, e] @ encode32 bs"
| "encode32 bs = group32 bs"

subsection \<open>Runes\<close>

text \<open>
  A \<open>range\<close> over a string decodes UTF-8.  A byte that starts no valid sequence gives the replacement
  rune and one byte is passed over.
\<close>

definition is_cont :: "nat \<Rightarrow> bool" where
  "is_cont b \<longleftrightarrow> 128 \<le> b \<and> b < 192"

definition rune_error :: nat where
  "rune_error = 65533"

fun decode_rune :: "nat list \<Rightarrow> nat \<times> nat" where
  "decode_rune [] = (rune_error, 1)"
| "decode_rune (a # bs) =
     (if a < 128 then (a, 1)
      else case bs of
        b # bs' \<Rightarrow>
          if 194 \<le> a \<and> a < 224 \<and> is_cont b then ((a - 192) * 64 + (b - 128), 2)
          else (case bs' of
            c # bs'' \<Rightarrow>
              if 224 \<le> a \<and> a < 240 \<and> is_cont b \<and> is_cont c \<and> (a = 224 \<longrightarrow> 160 \<le> b) \<and> (a = 237 \<longrightarrow> b < 160)
              then ((a - 224) * 4096 + (b - 128) * 64 + (c - 128), 3)
              else (case bs'' of
                d # _ \<Rightarrow>
                  if 240 \<le> a \<and> a < 245 \<and> is_cont b \<and> is_cont c \<and> is_cont d \<and> (a = 240 \<longrightarrow> 144 \<le> b) \<and> (a = 244 \<longrightarrow> b < 144)
                  then ((a - 240) * 262144 + (b - 128) * 4096 + (c - 128) * 64 + (d - 128), 4)
                  else (rune_error, 1)
              | [] \<Rightarrow> (rune_error, 1))
          | [] \<Rightarrow> (rune_error, 1))
      | [] \<Rightarrow> (rune_error, 1))"

lemma decode_rune_width: "0 < snd (decode_rune bs)"
  by (induction bs rule: decode_rune.induct) (auto split: list.splits)

function runes_of :: "nat list \<Rightarrow> nat list" where
  "runes_of bs = (if bs = [] then [] else fst (decode_rune bs) # runes_of (drop (snd (decode_rune bs)) bs))"
  by pat_completeness auto
termination by (relation "measure length") (use decode_rune_width in \<open>auto simp: not_le\<close>)

declare runes_of.simps [simp del]

lemma runes_ascii: "list_all (\<lambda>b. b < 128) bs \<Longrightarrow> runes_of bs = bs"
  by (induction bs) (simp_all add: runes_of.simps)

definition go_runes :: "string \<Rightarrow> nat list" where
  "go_runes s = runes_of (map of_char s)"

subsection \<open>Two decimals\<close>

text \<open>\<open>%.2f\<close>: the exact value rounded, ties to even.\<close>

definition fixed2 :: "f64 \<Rightarrow> string" where
  "fixed2 x =
     (case x of
        NaN \<Rightarrow> ''NaN'' | PosInf \<Rightarrow> ''+Inf'' | NegInf \<Rightarrow> ''-Inf''
      | Fin r \<Rightarrow>
          (let n = round_half_even (\<bar>r\<bar> * 100)
           in (if r < 0 then ''-'' else []) @ int_text 10 (n div 100) @ ''.'' @ [hex_digit (nat (n div 10 mod 10)), hex_digit (nat (n mod 10))]))"

end
