(* ===== verification/Amm.thy ===== *)
theory Amm
  imports SimText
begin

section \<open>The automated market maker: \<open>simulations/modules/defi/amm.go\<close>\<close>

text \<open>
  The pool with its reserves as \<open>big.Int\<close>, the three curves, swaps and liquidity.  The prices
  shown are floating point and do not feed back into the reserves, except in the stable curve.
  \<open>oob\<close> is what the target gives a conversion out of range.  The times of the liquidity
  actions are an argument.
\<close>

datatype AMMType = ConstantProduct | ConstantSum | StableSwap | Concentrated | OtherType string

fun amm_type_of :: "string \<Rightarrow> AMMType" where
  "amm_type_of t =
     (if t = ''constant_product'' then ConstantProduct else if t = ''constant_sum'' then ConstantSum
      else if t = ''stable_swap'' then StableSwap else if t = ''concentrated'' then Concentrated else OtherType t)"

fun amm_type_text :: "AMMType \<Rightarrow> string" where
  "amm_type_text ConstantProduct = ''constant_product''"
| "amm_type_text ConstantSum = ''constant_sum''"
| "amm_type_text StableSwap = ''stable_swap''"
| "amm_type_text Concentrated = ''concentrated''"
| "amm_type_text (OtherType t) = t"

record PoolState =
  pl_TokenA :: string
  pl_TokenB :: string
  pl_ReserveA :: int
  pl_ReserveB :: int
  pl_TotalLPShares :: int
  pl_Fee :: f64
  pl_K :: int
  pl_Price :: f64
  pl_VolumeUSD :: int
  pl_FeesCollected :: int

record SwapResult =
  sr_TokenIn :: string
  sr_TokenOut :: string
  sr_AmountIn :: int
  sr_AmountOut :: int
  sr_Fee :: int
  sr_PriceImpact :: f64
  sr_EffectivePrice :: f64
  sr_SpotPriceBefore :: f64
  sr_SpotPriceAfter :: f64
  sr_Slippage :: f64

record LiquidityAction =
  la_Type :: string
  la_AmountA :: int
  la_AmountB :: int
  la_LPShares :: int
  la_Timestamp :: gtime

record AMMSimulator =
  am_pool :: PoolState
  am_ammType :: AMMType
  am_swapHistory :: "SwapResult list"
  am_lpActions :: "LiquidityAction list"
  am_amplifier :: f64
  am_calls :: "base_call list"

definition acall :: "base_call \<Rightarrow> AMMSimulator \<Rightarrow> AMMSimulator" where
  "acall c s = s\<lparr>am_calls := am_calls s @ [c]\<rparr>"

subsection \<open>What is shown\<close>

definition Amm_updateState :: "AMMSimulator \<Rightarrow> AMMSimulator" where
  "Amm_updateState s =
     (let p = am_pool s in
      fold acall
       [CallGlobal ''amm_type'' (GStr (amm_type_text (am_ammType s))), CallGlobal ''reserve_a'' (big_text (pl_ReserveA p)),
        CallGlobal ''reserve_b'' (big_text (pl_ReserveB p)), CallGlobal ''price'' (GFloat (pl_Price p)),
        CallGlobal ''fee_percent'' (GFloat (pl_Fee p)), CallGlobal ''constant_product'' (big_text (pl_K p)),
        CallGlobal ''total_lp'' (big_text (pl_TotalLPShares p)),
        CallGlobal ''swap_count'' (GInt (int (length (am_swapHistory s))))] s)"

definition syncTeachingState :: "AMMSimulator \<Rightarrow> AMMSimulator" where
  "syncTeachingState s =
     (let p = am_pool s;
          progress = (if am_lpActions s \<noteq> [] then 100 else if am_swapHistory s \<noteq> [] then 75 else 0)
      in acall (CallTeaching ''amm_repricing'' (Fin progress)
           [(''price'', GFloat (pl_Price p)), (''reserve_a'', big_text (pl_ReserveA p)), (''reserve_b'', big_text (pl_ReserveB p)),
            (''swap_count'', GInt (int (length (am_swapHistory s)))), (''lp_actions'', GInt (int (length (am_lpActions s))))]) s)"

subsection \<open>Initialisation, after the base simulator's own\<close>

text \<open>A number among the parameters, and a text; another kind of value is ignored.\<close>

definition float_param :: "string \<Rightarrow> (string, gval) gomap \<Rightarrow> f64 option" where
  "float_param key params = (case go_get params key of Some (GFloat x) \<Rightarrow> Some x | _ \<Rightarrow> None)"

definition Amm_Init :: "int \<Rightarrow> (string, gval) gomap \<Rightarrow> AMMSimulator \<Rightarrow> AMMSimulator" where
  "Amm_Init oob params s =
     (let liq = (case float_param ''initial_liquidity'' params of None \<Rightarrow> 1000000 | Some x \<Rightarrow> f64_to_int oob x);
          fee = (case float_param ''fee_percent'' params of None \<Rightarrow> lit (3 / 10) | Some x \<Rightarrow> x);
          ty = (case go_get params ''amm_type'' of Some (GStr t) \<Rightarrow> amm_type_of t | _ \<Rightarrow> ConstantProduct)
      in syncTeachingState (Amm_updateState (s\<lparr>am_ammType := ty, am_amplifier := Fin 100, am_swapHistory := [], am_lpActions := [],
           am_pool := \<lparr>pl_TokenA = ''ETH'', pl_TokenB = ''USDC'', pl_ReserveA = liq, pl_ReserveB = liq, pl_TotalLPShares = liq,
             pl_Fee = fee, pl_K = liq * liq, pl_Price = f64_div (f64_of_big liq) (f64_of_big liq), pl_VolumeUSD = 0,
             pl_FeesCollected = 0\<rparr>\<rparr>)))"

subsection \<open>The curves\<close>

definition calculateConstantProduct :: "int \<Rightarrow> int \<Rightarrow> int \<Rightarrow> int go" where
  "calculateConstantProduct reserveIn reserveOut amountIn = go_big_div (reserveOut * amountIn) (reserveIn + amountIn)"

text \<open>The two Newton iterations of the stable curve, at most 255 rounds, for two coins (\<open>math.Pow(2, 2)\<close> is 4).\<close>

definition d_step :: "f64 \<Rightarrow> f64 \<Rightarrow> f64 \<Rightarrow> f64 \<Rightarrow> f64" where
  "d_step A x0 x1 D =
     (let n = Fin 2; Ann = f64_mul A (Fin 4); sm = f64_add (f64_add (Fin 0) x0) x1;
          Dp = f64_div (f64_mul (f64_div (f64_mul D D) (f64_mul x0 n)) D) (f64_mul x1 n);
          num = f64_mul (f64_add (f64_div (f64_mul Ann sm) A) (f64_mul Dp n)) D;
          den = f64_add (f64_mul (f64_sub (f64_div Ann A) (Fin 1)) D) (f64_mul (f64_add n (Fin 1)) Dp)
      in f64_div num den)"

fun d_loop :: "nat \<Rightarrow> f64 \<Rightarrow> f64 \<Rightarrow> f64 \<Rightarrow> f64 \<Rightarrow> f64" where
  "d_loop 0 A x0 x1 D = D"
| "d_loop (Suc k) A x0 x1 D =
     (let D' = d_step A x0 x1 D
      in if f64_le (f64_abs (f64_sub D' D)) (Fin 1) then D' else d_loop k A x0 x1 D')"

definition calculateD :: "f64 \<Rightarrow> f64 \<Rightarrow> f64 \<Rightarrow> f64" where
  "calculateD x0 x1 A =
     (let sm = f64_add (f64_add (Fin 0) x0) x1 in if f64_eq sm (Fin 0) then Fin 0 else d_loop 255 A x0 x1 sm)"

fun y_loop :: "nat \<Rightarrow> f64 \<Rightarrow> f64 \<Rightarrow> f64 \<Rightarrow> f64 \<Rightarrow> f64" where
  "y_loop 0 c b D y = y"
| "y_loop (Suc k) c b D y =
     (let y' = f64_div (f64_add (f64_mul y y) c) (f64_sub (f64_add (f64_mul (Fin 2) y) b) D)
      in if f64_le (f64_abs (f64_sub y' y)) (Fin 1) then y' else y_loop k c b D y')"

definition calculateY :: "f64 \<Rightarrow> f64 \<Rightarrow> f64 \<Rightarrow> f64" where
  "calculateY x D A =
     (let Ann = f64_mul A (Fin 4);
          c = f64_div (f64_mul (f64_mul D D) D) (f64_mul (f64_mul (Fin 4) x) Ann);
          b = f64_add x (f64_div D Ann)
      in y_loop 255 c b D D)"

definition calculateStableSwap :: "int \<Rightarrow> f64 \<Rightarrow> int \<Rightarrow> int \<Rightarrow> int \<Rightarrow> int" where
  "calculateStableSwap oob A reserveIn reserveOut amountIn =
     (let x0 = f64_of_big reserveIn; x1 = f64_of_big reserveOut; D = calculateD x0 x1 A;
          y = calculateY (f64_add x0 (f64_of_big amountIn)) D A;
          out = f64_sub x1 y
      in f64_to_int oob (if f64_less out (Fin 0) then Fin 0 else out))"

definition amount_out :: "int \<Rightarrow> AMMSimulator \<Rightarrow> int \<Rightarrow> int \<Rightarrow> int \<Rightarrow> int go" where
  "amount_out oob s reserveIn reserveOut amountIn =
     (case am_ammType s of
        ConstantSum \<Rightarrow> Inr amountIn
      | StableSwap \<Rightarrow> Inr (calculateStableSwap oob (am_amplifier s) reserveIn reserveOut amountIn)
      | _ \<Rightarrow> calculateConstantProduct reserveIn reserveOut amountIn)"

subsection \<open>Swaps\<close>

definition tiny :: f64 where
  "tiny = lit (1 / 1000000)"

definition percent_off :: "f64 \<Rightarrow> f64 \<Rightarrow> f64" where
  "percent_off x ref = f64_mul (f64_div (f64_abs (f64_sub x ref)) (f64_max ref tiny)) (Fin 100)"

definition Swap :: "int \<Rightarrow> string \<Rightarrow> int \<Rightarrow> AMMSimulator \<Rightarrow> (SwapResult \<times> AMMSimulator) go" where
  "Swap oob tokenIn amountIn s =
     (let p = am_pool s;
          fromA = (tokenIn = pl_TokenA p);
          reserveIn = (if fromA then pl_ReserveA p else pl_ReserveB p);
          reserveOut = (if fromA then pl_ReserveB p else pl_ReserveA p);
          tokenOut = (if fromA then pl_TokenB p else pl_TokenA p);
          before = f64_div (f64_of_big reserveOut) (f64_of_big reserveIn);
          fee = big_div (amountIn * fee_units oob (pl_Fee p)) 100000
      in go_bind (amount_out oob s reserveIn reserveOut (amountIn - fee)) (\<lambda>out.
           let p = (if fromA then p\<lparr>pl_ReserveA := pl_ReserveA p + amountIn, pl_ReserveB := pl_ReserveB p - out\<rparr>
                    else p\<lparr>pl_ReserveB := pl_ReserveB p + amountIn, pl_ReserveA := pl_ReserveA p - out\<rparr>);
               price = f64_div (f64_of_big (pl_ReserveB p)) (f64_of_big (pl_ReserveA p));
               p = p\<lparr>pl_FeesCollected := pl_FeesCollected p + fee, pl_K := pl_ReserveA p * pl_ReserveB p, pl_Price := price\<rparr>;
               before = (if tokenIn = pl_TokenB p then f64_div (Fin 1) before else before);
               aft = (if tokenIn = pl_TokenB p then f64_div (Fin 1) price else price);
               effective = f64_div (f64_of_big amountIn) (f64_max (f64_of_big out) (Fin 1));
               impact = percent_off aft before;
               slippage = percent_off effective before;
               result = \<lparr>sr_TokenIn = tokenIn, sr_TokenOut = tokenOut, sr_AmountIn = amountIn, sr_AmountOut = out, sr_Fee = fee,
                 sr_PriceImpact = impact, sr_EffectivePrice = effective, sr_SpotPriceBefore = before, sr_SpotPriceAfter = aft,
                 sr_Slippage = slippage\<rparr>;
               s = acall (CallEmit ''swap_executed'' [] [] (Some
                 [(''token_in'', GStr tokenIn), (''token_out'', GStr tokenOut), (''amount_in'', big_text amountIn),
                  (''amount_out'', big_text out), (''fee'', big_text fee), (''price_impact_percent'', GFloat impact),
                  (''slippage_percent'', GFloat slippage)])) (s\<lparr>am_pool := p, am_swapHistory := am_swapHistory s @ [result]\<rparr>)
           in Inr (result, syncTeachingState (Amm_updateState s))))"

subsection \<open>Liquidity\<close>

text \<open>\<open>Sqrt\<close> is the integer square root, two bits at a time, and panics on a negative number.\<close>

function isqrt :: "int \<Rightarrow> int" where
  "isqrt n =
     (if n \<le> 0 then 0
      else let r = 2 * isqrt (n div 4) in if (r + 1) * (r + 1) \<le> n then r + 1 else r)"
  by pat_completeness auto
termination by (relation "measure nat") auto

declare isqrt.simps [simp del]

lemma isqrt_spec: "0 \<le> n \<Longrightarrow> 0 \<le> isqrt n \<and> isqrt n * isqrt n \<le> n \<and> n < (isqrt n + 1) * (isqrt n + 1)"
proof (induction n rule: isqrt.induct)
  case (1 n)
  show ?case
  proof (cases "n = 0")
    case True
    then show ?thesis by (simp add: isqrt.simps)
  next
    case False
    define q where "q = isqrt (n div 4)"
    from 1 False have q: "0 \<le> q" "q * q \<le> n div 4" "n div 4 < (q + 1) * (q + 1)" by (simp_all add: q_def)
    have "4 * (n div 4) \<le> n" by presburger
    with q(2) have lo: "(2 * q) * (2 * q) \<le> n" by (simp add: algebra_simps)
    have "n < 4 * (n div 4) + 4" by presburger
    with q(3) have hi: "n < (2 * q + 2) * (2 * q + 2)" by (simp add: algebra_simps)
    have e: "isqrt n = (if (2 * q + 1) * (2 * q + 1) \<le> n then 2 * q + 1 else 2 * q)"
      using 1(2) False by (simp add: isqrt.simps [of n] q_def Let_def)
    show ?thesis using q(1) lo hi by (auto simp: e algebra_simps)
  qed
qed

definition go_big_sqrt :: "int \<Rightarrow> int go" where
  "go_big_sqrt x = (if x < 0 then Inl ExplicitPanic else Inr (isqrt x))"

definition lp_shares :: "PoolState \<Rightarrow> int \<Rightarrow> int \<Rightarrow> int go" where
  "lp_shares p amountA amountB =
     (if pl_TotalLPShares p = 0 then go_big_sqrt (amountA * amountB)
      else go_bind (go_big_div (amountA * pl_TotalLPShares p) (pl_ReserveA p)) (\<lambda>shareA.
        go_bind (go_big_div (amountB * pl_TotalLPShares p) (pl_ReserveB p)) (\<lambda>shareB.
          Inr (if shareA < shareB then shareA else shareB))))"

definition note_liquidity :: "string \<Rightarrow> string \<Rightarrow> gtime \<Rightarrow> int \<Rightarrow> int \<Rightarrow> int \<Rightarrow> PoolState \<Rightarrow> AMMSimulator \<Rightarrow> AMMSimulator" where
  "note_liquidity ty ev now a b shares p s =
     syncTeachingState (Amm_updateState (acall (CallEmit ev [] [] (Some [(''amount_a'', big_text a), (''amount_b'', big_text b),
         (''lp_shares'', big_text shares)]))
       (s\<lparr>am_pool := p, am_lpActions := am_lpActions s @ [\<lparr>la_Type = ty, la_AmountA = a, la_AmountB = b, la_LPShares = shares,
         la_Timestamp = now\<rparr>]\<rparr>)))"

definition AddLiquidity :: "gtime \<Rightarrow> int \<Rightarrow> int \<Rightarrow> AMMSimulator \<Rightarrow> AMMSimulator go" where
  "AddLiquidity now amountA amountB s =
     go_bind (lp_shares (am_pool s) amountA amountB) (\<lambda>shares.
       let p = am_pool s;
           p = p\<lparr>pl_ReserveA := pl_ReserveA p + amountA, pl_ReserveB := pl_ReserveB p + amountB,
             pl_TotalLPShares := pl_TotalLPShares p + shares\<rparr>;
           p = p\<lparr>pl_K := pl_ReserveA p * pl_ReserveB p\<rparr>
       in Inr (note_liquidity ''add'' ''liquidity_added'' now amountA amountB shares p s))"

definition RemoveLiquidity :: "gtime \<Rightarrow> int \<Rightarrow> AMMSimulator \<Rightarrow> AMMSimulator go" where
  "RemoveLiquidity now shares s =
     (let p = am_pool s in
      go_bind (go_big_div (shares * pl_ReserveA p) (pl_TotalLPShares p)) (\<lambda>amountA.
        go_bind (go_big_div (shares * pl_ReserveB p) (pl_TotalLPShares p)) (\<lambda>amountB.
          let p = p\<lparr>pl_ReserveA := pl_ReserveA p - amountA, pl_ReserveB := pl_ReserveB p - amountB,
                pl_TotalLPShares := pl_TotalLPShares p - shares\<rparr>;
              p = p\<lparr>pl_K := pl_ReserveA p * pl_ReserveB p\<rparr>
          in Inr (note_liquidity ''remove'' ''liquidity_removed'' now amountA amountB shares p s))))"

subsection \<open>Actions\<close>

text \<open>The result is the status in the feedback, or nothing for an action that is not known.\<close>

definition Amm_ExecuteAction ::
  "int \<Rightarrow> gtime \<Rightarrow> string \<Rightarrow> (string, gval) gomap \<Rightarrow> AMMSimulator \<Rightarrow> (string option \<times> AMMSimulator) go" where
  "Amm_ExecuteAction oob now action params s =
     (if action = ''swap'' then
        go_bind (Swap oob (text_param ''token_in'' ''ETH'' params) (int_param oob ''amount_in'' 10000 params) s) (\<lambda>(_, s).
          Inr (Some ''swap_completed'', Amm_updateState s))
      else if action = ''add_liquidity'' then
        go_bind (AddLiquidity now (int_param oob ''amount_a'' 20000 params) (int_param oob ''amount_b'' 20000 params) s) (\<lambda>s.
          Inr (Some ''liquidity_added'', Amm_updateState s))
      else if action = ''remove_liquidity'' then
        go_bind (RemoveLiquidity now (int_param oob ''lp_shares'' 10000 params) s) (\<lambda>s.
          Inr (Some ''liquidity_removed'', Amm_updateState s))
      else Inr (None, s))"

end
