(* ===== verification/AmmFacts.thy ===== *)
theory AmmFacts
  imports Amm
begin

section \<open>The automated market maker: properties\<close>

text \<open>
  For a pool with a product curve, positive reserves and shares and a fee between nothing and
  everything: every operation returns, and what a share is worth, the product of the reserves over
  the square of the number of shares, never falls.  Liquidity taken out is at most what was put in.
  The sum curve can leave a negative reserve, and a pool without shares panics.
\<close>

definition product_curve :: "AMMSimulator \<Rightarrow> bool" where
  "product_curve s \<longleftrightarrow> am_ammType s \<noteq> ConstantSum \<and> am_ammType s \<noteq> StableSwap"

definition amm_ok :: "int \<Rightarrow> AMMSimulator \<Rightarrow> bool" where
  "amm_ok oob s \<longleftrightarrow> product_curve s \<and> 0 < pl_ReserveA (am_pool s) \<and> 0 < pl_ReserveB (am_pool s) \<and>
     0 < pl_TotalLPShares (am_pool s) \<and> 0 \<le> fee_units oob (pl_Fee (am_pool s)) \<and> fee_units oob (pl_Fee (am_pool s)) \<le> 100000"

text \<open>What a share is worth, and that it did not fall.\<close>

definition share_value :: "AMMSimulator \<Rightarrow> rat" where
  "share_value s = of_int (pl_ReserveA (am_pool s) * pl_ReserveB (am_pool s)) / of_int (pl_TotalLPShares (am_pool s) ^ 2)"

definition worth_le :: "PoolState \<Rightarrow> PoolState \<Rightarrow> bool" where
  "worth_le p p' \<longleftrightarrow> pl_ReserveA p * pl_ReserveB p * pl_TotalLPShares p' ^ 2 \<le> pl_ReserveA p' * pl_ReserveB p' * pl_TotalLPShares p ^ 2"

lemma worth_le_value:
  assumes "0 < pl_TotalLPShares (am_pool s)" and "0 < pl_TotalLPShares (am_pool t)" and "worth_le (am_pool s) (am_pool t)"
  shows "share_value s \<le> share_value t"
proof -
  have "(of_int (pl_ReserveA (am_pool s) * pl_ReserveB (am_pool s) * pl_TotalLPShares (am_pool t) ^ 2) :: rat) \<le>
      of_int (pl_ReserveA (am_pool t) * pl_ReserveB (am_pool t) * pl_TotalLPShares (am_pool s) ^ 2)"
    using assms(3) by (simp only: worth_le_def of_int_le_iff)
  with assms(1,2) show ?thesis by (simp add: share_value_def frac_le_eq divide_simps mult.commute)
qed

subsection \<open>Reporting leaves the pool alone\<close>

lemma acall_simps [simp]: "am_pool (acall c s) = am_pool s" "am_ammType (acall c s) = am_ammType s"
  "am_lpActions (acall c s) = am_lpActions s" "am_swapHistory (acall c s) = am_swapHistory s" "am_amplifier (acall c s) = am_amplifier s"
  by (simp_all add: acall_def)

lemma report_simps [simp]:
  "am_pool (Amm_updateState s) = am_pool s" "am_ammType (Amm_updateState s) = am_ammType s" "am_lpActions (Amm_updateState s) = am_lpActions s"
  "am_pool (syncTeachingState s) = am_pool s" "am_ammType (syncTeachingState s) = am_ammType s" "am_lpActions (syncTeachingState s) = am_lpActions s"
  by (simp_all add: Amm_updateState_def syncTeachingState_def Let_def)

lemma note_simps [simp]:
  "am_pool (note_liquidity ty ev now a b n p s) = p" "am_ammType (note_liquidity ty ev now a b n p s) = am_ammType s"
  "am_lpActions (note_liquidity ty ev now a b n p s) = am_lpActions s @
     [\<lparr>la_Type = ty, la_AmountA = a, la_AmountB = b, la_LPShares = n, la_Timestamp = now\<rparr>]"
  by (simp_all add: note_liquidity_def)

subsection \<open>The arithmetic\<close>

lemma div_mult_le: "0 < b \<Longrightarrow> a div b * b \<le> (a :: int)"
  by (simp add: minus_mod_eq_div_mult [symmetric])

text \<open>A trade along the product curve.\<close>

lemma product_trade:
  fixes i :: int
  assumes "0 < i" and "0 < out" and "0 \<le> n" and "n \<le> x" and q_def: "q = big_div (out * n) (i + n)"
  shows "0 \<le> q" and "q < out" and "i * out \<le> (i + x) * (out - q)"
proof -
  have q: "q = out * n div (i + n)" unfolding q_def using assms(1-4) by (intro big_div_nonneg) auto
  show "0 \<le> q" using assms(1-4) by (simp add: q pos_imp_zdiv_nonneg_iff)
  have le: "q * (i + n) \<le> out * n" unfolding q using assms(1-4) by (intro div_mult_le) simp
  have "out * n < out * (i + n)" using assms(1-4) by simp
  with le have "q * (i + n) < out * (i + n)" by linarith
  then show lt: "q < out" using assms(1-4) by (simp add: mult_less_cancel_right)
  have "i * out \<le> (i + n) * (out - q)" using le by (simp add: algebra_simps)
  also have "\<dots> \<le> (i + x) * (out - q)" using assms(1-4) lt by (intro mult_right_mono) auto
  finally show "i * out \<le> (i + x) * (out - q)" .
qed

lemma mult_pair_mono: "0 \<le> a \<Longrightarrow> 0 \<le> b \<Longrightarrow> a \<le> c \<Longrightarrow> b \<le> d \<Longrightarrow> a * b \<le> c * (d :: int)"
  by (rule mult_mono) auto

text \<open>Each reserve grows at least in proportion to the shares, so the product does at least as their square.\<close>

lemma worth_pair:
  fixes A :: int
  assumes "0 < A" "0 < B" "0 \<le> L'" "A * L' \<le> A' * L" and "B * L' \<le> B' * L"
  shows "A * B * L' ^ 2 \<le> A' * B' * L ^ 2"
proof -
  have "(A * L') * (B * L') \<le> (A' * L) * (B' * L)" by (rule mult_pair_mono) (use assms in simp_all)
  then show ?thesis by (simp add: power2_eq_square algebra_simps)
qed

subsection \<open>The operations\<close>

lemma amount_out_product: "product_curve s \<Longrightarrow> amount_out oob s i out n = calculateConstantProduct i out n"
  by (cases "am_ammType s") (auto simp: amount_out_def product_curve_def)

lemma Swap_ok:
  assumes ok: "amm_ok oob s" and x: "0 \<le> x"
  shows "\<exists>r s'. Swap oob t x s = Inr (r, s') \<and> amm_ok oob s' \<and> worth_le (am_pool s) (am_pool s') \<and> 0 \<le> sr_AmountOut r \<and>
    sr_AmountOut r < (if t = pl_TokenA (am_pool s) then pl_ReserveB (am_pool s) else pl_ReserveA (am_pool s))"
proof -
  let ?p = "am_pool s"
  let ?i = "if t = pl_TokenA ?p then pl_ReserveA ?p else pl_ReserveB ?p"
  let ?o = "if t = pl_TokenA ?p then pl_ReserveB ?p else pl_ReserveA ?p"
  let ?fee = "big_div (x * fee_units oob (pl_Fee ?p)) 100000"
  define q where "q = big_div (?o * (x - ?fee)) (?i + (x - ?fee))"
  have pos: "0 < ?i" "0 < ?o" using ok by (simp_all add: amm_ok_def)
  have fee: "0 \<le> ?fee" "?fee \<le> x" using fee_bounds [OF x] ok by (simp_all add: amm_ok_def)
  have tr: "0 \<le> q" "q < ?o" "?i * ?o \<le> (?i + x) * (?o - q)"
    using product_trade [OF pos, of "x - ?fee" x q] fee unfolding q_def by simp_all
  have "amount_out oob s ?i ?o (x - ?fee) = Inr q"
    using ok pos fee unfolding q_def by (simp add: amount_out_product amm_ok_def calculateConstantProduct_def go_big_div_def)
  with tr x ok show ?thesis
    unfolding Swap_def Let_def
    by (cases "t = pl_TokenA ?p") (auto simp: amm_ok_def product_curve_def worth_le_def mult.commute mult.left_commute intro!: mult_left_mono)
qed

lemma AddLiquidity_ok:
  assumes ok: "amm_ok oob s" and ab: "0 \<le> a" "0 \<le> b"
  shows "\<exists>n s'. lp_shares (am_pool s) a b = Inr n \<and> 0 \<le> n \<and> n * pl_ReserveA (am_pool s) \<le> a * pl_TotalLPShares (am_pool s) \<and>
    n * pl_ReserveB (am_pool s) \<le> b * pl_TotalLPShares (am_pool s) \<and> AddLiquidity now a b s = Inr s' \<and>
    pl_ReserveA (am_pool s') = pl_ReserveA (am_pool s) + a \<and> pl_ReserveB (am_pool s') = pl_ReserveB (am_pool s) + b \<and>
    pl_TotalLPShares (am_pool s') = pl_TotalLPShares (am_pool s) + n \<and> am_lpActions s' = am_lpActions s @
      [\<lparr>la_Type = ''add'', la_AmountA = a, la_AmountB = b, la_LPShares = n, la_Timestamp = now\<rparr>] \<and>
    amm_ok oob s' \<and> worth_le (am_pool s) (am_pool s')"
proof -
  let ?p = "am_pool s"
  let ?A = "pl_ReserveA ?p" and ?B = "pl_ReserveB ?p" and ?L = "pl_TotalLPShares ?p"
  define n where "n = min (a * ?L div ?A) (b * ?L div ?B)"
  have pos: "0 < ?A" "0 < ?B" "0 < ?L" using ok by (simp_all add: amm_ok_def)
  have shares: "lp_shares ?p a b = Inr n"
    using pos ab by (simp add: lp_shares_def go_big_div_def big_div_nonneg n_def min_def)
  have n0: "0 \<le> n" using pos ab by (simp add: n_def pos_imp_zdiv_nonneg_iff)
  have "n * ?A \<le> a * ?L div ?A * ?A" "n * ?B \<le> b * ?L div ?B * ?B" using pos by (simp_all add: n_def mult_right_mono)
  then have nA: "n * ?A \<le> a * ?L" and nB: "n * ?B \<le> b * ?L"
    using div_mult_le [OF pos(1), of "a * ?L"] div_mult_le [OF pos(2), of "b * ?L"] by linarith+
  then have "?A * (?L + n) \<le> (?A + a) * ?L" "?B * (?L + n) \<le> (?B + b) * ?L" by (simp_all add: algebra_simps)
  then have "?A * ?B * (?L + n) ^ 2 \<le> (?A + a) * (?B + b) * ?L ^ 2" using pos n0 by (intro worth_pair) auto
  with shares n0 nA nB ok ab show ?thesis
    by (simp add: AddLiquidity_def Let_def worth_le_def amm_ok_def product_curve_def)
qed

lemma RemoveLiquidity_ok:
  assumes ok: "amm_ok oob s" and n: "0 \<le> n" "n < pl_TotalLPShares (am_pool s)"
  shows "\<exists>x y s'. RemoveLiquidity now n s = Inr s' \<and> x = n * pl_ReserveA (am_pool s) div pl_TotalLPShares (am_pool s) \<and>
    y = n * pl_ReserveB (am_pool s) div pl_TotalLPShares (am_pool s) \<and>
    am_lpActions s' = am_lpActions s @
      [\<lparr>la_Type = ''remove'', la_AmountA = x, la_AmountB = y, la_LPShares = n, la_Timestamp = now\<rparr>] \<and>
    amm_ok oob s' \<and> worth_le (am_pool s) (am_pool s')"
proof -
  let ?p = "am_pool s"
  let ?A = "pl_ReserveA ?p" and ?B = "pl_ReserveB ?p" and ?L = "pl_TotalLPShares ?p"
  define x where "x = n * ?A div ?L"
  define y where "y = n * ?B div ?L"
  have pos: "0 < ?A" "0 < ?B" "0 < ?L" using ok by (simp_all add: amm_ok_def)
  have div: "go_big_div (n * ?A) ?L = Inr x" "go_big_div (n * ?B) ?L = Inr y"
    using pos n by (simp_all add: go_big_div_def big_div_nonneg x_def y_def)
  have "x * ?L \<le> n * ?A" "y * ?L \<le> n * ?B" unfolding x_def y_def using pos(3) by (simp_all only: div_mult_le)
  then have A: "?A * (?L - n) \<le> (?A - x) * ?L" and B: "?B * (?L - n) \<le> (?B - y) * ?L" by (simp_all add: algebra_simps)
  have "0 < ?A * (?L - n)" "0 < ?B * (?L - n)" using pos n by simp_all
  with A B have "0 < (?A - x) * ?L" "0 < (?B - y) * ?L" by linarith+
  then have left: "x < ?A" "y < ?B" using pos(3) by (simp_all add: zero_less_mult_iff)
  have "?A * ?B * (?L - n) ^ 2 \<le> (?A - x) * (?B - y) * ?L ^ 2" using pos n A B by (intro worth_pair) auto
  with div left ok n show ?thesis
    by (simp add: RemoveLiquidity_def Let_def worth_le_def amm_ok_def product_curve_def x_def y_def)
qed

subsection \<open>Runs\<close>

text \<open>A trade of any size, liquidity put in, and liquidity taken out that leaves a share behind.\<close>

inductive amm_step :: "int \<Rightarrow> AMMSimulator \<Rightarrow> AMMSimulator \<Rightarrow> bool" for oob :: int where
  step_swap: "0 \<le> x \<Longrightarrow> Swap oob t x s = Inr (r, s') \<Longrightarrow> amm_step oob s s'"
| step_add: "0 \<le> a \<Longrightarrow> 0 \<le> b \<Longrightarrow> AddLiquidity now a b s = Inr s' \<Longrightarrow> amm_step oob s s'"
| step_remove: "0 \<le> n \<Longrightarrow> n < pl_TotalLPShares (am_pool s) \<Longrightarrow> RemoveLiquidity now n s = Inr s' \<Longrightarrow> amm_step oob s s'"
| step_action: "Amm_ExecuteAction oob now action params s = Inr (r, s') \<Longrightarrow>
    0 \<le> int_param oob ''amount_in'' 10000 params \<Longrightarrow>
    0 \<le> int_param oob ''amount_a'' 20000 params \<Longrightarrow> 0 \<le> int_param oob ''amount_b'' 20000 params \<Longrightarrow>
    0 \<le> int_param oob ''lp_shares'' 10000 params \<Longrightarrow>
    int_param oob ''lp_shares'' 10000 params < pl_TotalLPShares (am_pool s) \<Longrightarrow> amm_step oob s s'"

lemma amm_ok_report [simp]: "amm_ok oob (Amm_updateState s) = amm_ok oob s"
  by (simp add: amm_ok_def product_curve_def)

lemma amm_step_ok: "amm_step oob s s' \<Longrightarrow> amm_ok oob s \<Longrightarrow> amm_ok oob s' \<and> worth_le (am_pool s) (am_pool s')"
proof (induction rule: amm_step.induct)
  case (step_swap x t s r s')
  with Swap_ok [of oob s x t] show ?case by auto
next
  case (step_add a b now s s')
  with AddLiquidity_ok [of oob s a b now] show ?case by auto
next
  case (step_remove n s now s')
  with RemoveLiquidity_ok [of oob s n now] show ?case by auto
next
  case (step_action now action params s r s')
  let ?x = "int_param oob ''amount_in'' 10000 params" and ?t = "text_param ''token_in'' ''ETH'' params"
  let ?a = "int_param oob ''amount_a'' 20000 params" and ?b = "int_param oob ''amount_b'' 20000 params"
  let ?n = "int_param oob ''lp_shares'' 10000 params"
  note run = step_action.hyps(1)
  show ?case
  proof (cases "action \<in> {''swap'', ''add_liquidity'', ''remove_liquidity''}")
    case True
    then obtain t where "s' = Amm_updateState t" "amm_ok oob t" "worth_le (am_pool s) (am_pool t)"
      using Swap_ok [OF step_action.prems step_action.hyps(2), of ?t]
        AddLiquidity_ok [OF step_action.prems step_action.hyps(3,4), of now]
        RemoveLiquidity_ok [OF step_action.prems step_action.hyps(5,6), of now] run
      by (auto simp: Amm_ExecuteAction_def)
    then show ?thesis by simp
  next
    case False
    with run step_action.prems show ?thesis by (simp add: Amm_ExecuteAction_def worth_le_def)
  qed
qed

definition amm_inv :: "int \<Rightarrow> rat \<Rightarrow> AMMSimulator \<Rightarrow> bool" where
  "amm_inv oob v s \<longleftrightarrow> amm_ok oob s \<and> v \<le> share_value s"

interpretation amm: step_system "amm_inv oob v" "amm_step oob" "amm_inv oob v" for oob v
proof unfold_locales
  fix s t assume "amm_inv oob v s" and st: "amm_step oob s t"
  then have s: "amm_ok oob s" "v \<le> share_value s" by (simp_all add: amm_inv_def)
  from amm_step_ok [OF st s(1)] have t: "amm_ok oob t" "worth_le (am_pool s) (am_pool t)" by simp_all
  with s have "share_value s \<le> share_value t" by (intro worth_le_value) (simp_all add: amm_ok_def)
  with s t show "amm_inv oob v t" by (simp add: amm_inv_def)
qed

text \<open>C4. What a share is worth never falls.  In a pool on the product curve with positive reserves and shares and
  a fee from 0 to 100000 hundred-thousandths, over any sequence of trades, deposits and withdrawals, called
  directly or as actions, whose amounts are not negative and where every withdrawal leaves a share, the pool
  stays in order, and the product of the reserves over the square of the number of shares is at least what it
  was; when the number of shares is the same, the product.  A negative amount, which the actions do not refuse,
  can lower it (see below).\<close>

theorem Amm_share_value:
  assumes "amm_ok oob s" and "(amm_step oob)\<^sup>*\<^sup>* s t"
  shows "amm_ok oob t \<and> share_value s \<le> share_value t \<and>
    (pl_TotalLPShares (am_pool t) = pl_TotalLPShares (am_pool s) \<longrightarrow>
     pl_ReserveA (am_pool s) * pl_ReserveB (am_pool s) \<le> pl_ReserveA (am_pool t) * pl_ReserveB (am_pool t))"
proof -
  have "amm_inv oob (share_value s) t" using amm.steps_inv [OF assms(2), of "share_value s"] assms(1) by (simp add: amm_inv_def)
  then have t: "amm_ok oob t" "share_value s \<le> share_value t" by (simp_all add: amm_inv_def)
  moreover have "pl_ReserveA (am_pool s) * pl_ReserveB (am_pool s) \<le> pl_ReserveA (am_pool t) * pl_ReserveB (am_pool t)"
    if "pl_TotalLPShares (am_pool t) = pl_TotalLPShares (am_pool s)"
    using t(2) that assms(1) by (simp add: share_value_def amm_ok_def divide_le_cancel del: of_int_mult)
  ultimately show ?thesis by blast
qed

definition amm_demo :: AMMSimulator where
  "amm_demo = \<lparr>am_pool = \<lparr>pl_TokenA = ''ETH'', pl_TokenB = ''USDC'', pl_ReserveA = 1000, pl_ReserveB = 1000, pl_TotalLPShares = 1000,
     pl_Fee = Fin 0, pl_K = 1000000, pl_Price = Fin 1, pl_VolumeUSD = 0, pl_FeesCollected = 0\<rparr>, am_ammType = ConstantProduct,
     am_swapHistory = [], am_lpActions = [], am_amplifier = Fin 100, am_calls = []\<rparr>"

lemma amm_demo_ok: "amm_ok 0 amm_demo"
  by (simp add: amm_ok_def amm_demo_def product_curve_def fee_units_def f64_round_def f64_to_int_def)

theorem Amm_share_value_witness:
  "\<exists>t. amm_ok 0 t \<and> share_value amm_demo \<le> share_value t \<and>
    (pl_TotalLPShares (am_pool t) = pl_TotalLPShares (am_pool amm_demo) \<longrightarrow>
     pl_ReserveA (am_pool amm_demo) * pl_ReserveB (am_pool amm_demo) \<le> pl_ReserveA (am_pool t) * pl_ReserveB (am_pool t))"
proof -
  obtain r t where "Swap 0 ''ETH'' 10 amm_demo = Inr (r, t)" using Swap_ok [OF amm_demo_ok, of 10 "''ETH''"] by auto
  then have "amm_step 0 amm_demo t" by (intro step_swap [of 10]) simp_all
  then have "(amm_step 0)\<^sup>*\<^sup>* amm_demo t" by blast
  from Amm_share_value [OF amm_demo_ok this] show ?thesis by blast
qed

text \<open>The amount of a swap is not checked: at a fee of 0.3 percent a swap of minus 5000 takes 5000 out of one
  reserve and pays 5010 into the other, and the product falls.\<close>

theorem Amm_negative_amount:
  assumes "product_curve s" and "fee_units oob (pl_Fee (am_pool s)) = 300" and "t = pl_TokenA (am_pool s)"
    and "pl_ReserveA (am_pool s) = 1000000" and "pl_ReserveB (am_pool s) = 1000000"
  shows "\<exists>r s'. Swap oob t (- 5000) s = Inr (r, s') \<and> pl_ReserveA (am_pool s') = 995000 \<and>
    pl_ReserveB (am_pool s') = 1005010 \<and>
    pl_ReserveA (am_pool s') * pl_ReserveB (am_pool s') < pl_ReserveA (am_pool s) * pl_ReserveB (am_pool s)"
proof -
  have "amount_out oob s 1000000 1000000 (- 4985) = Inr (- 5010)"
    using assms(1) by (simp add: amount_out_product calculateConstantProduct_def go_big_div_def big_div_def)
  moreover have "big_div (- 1500000) 100000 = - 15" by (simp add: big_div_def)
  ultimately show ?thesis unfolding Swap_def Let_def using assms(2-) by simp
qed

text \<open>On the product curve a trade of any non-negative amount returns and pays out less than the whole
  reserve, deposits return, and so does every withdrawal that leaves a share.\<close>

theorem Amm_never_panics:
  assumes "amm_ok oob s" and "0 \<le> x" and "0 \<le> a" and "0 \<le> b" and "0 \<le> n" and "n < pl_TotalLPShares (am_pool s)"
  shows "(\<exists>r s'. Swap oob t x s = Inr (r, s') \<and> 0 \<le> sr_AmountOut r \<and>
      sr_AmountOut r < (if t = pl_TokenA (am_pool s) then pl_ReserveB (am_pool s) else pl_ReserveA (am_pool s))) \<and>
    (\<exists>s'. AddLiquidity now a b s = Inr s') \<and> (\<exists>s'. RemoveLiquidity now n s = Inr s')"
  using Swap_ok [OF assms(1,2), of t] AddLiquidity_ok [OF assms(1,3,4), of now] RemoveLiquidity_ok [OF assms(1,5,6), of now] by blast

theorem Amm_never_panics_witness:
  "(\<exists>r s'. Swap 0 ''ETH'' 10 amm_demo = Inr (r, s') \<and> 0 \<le> sr_AmountOut r \<and>
      sr_AmountOut r < (if ''ETH'' = pl_TokenA (am_pool amm_demo) then pl_ReserveB (am_pool amm_demo) else pl_ReserveA (am_pool amm_demo))) \<and>
    (\<exists>s'. AddLiquidity None 10 20 amm_demo = Inr s') \<and> (\<exists>s'. RemoveLiquidity None 5 amm_demo = Inr s')"
  by (rule Amm_never_panics [OF amm_demo_ok]) (simp_all add: amm_demo_def)

text \<open>Liquidity makes a round trip at no gain: the shares a deposit makes give back, when they are
  withdrawn, no more of either token than was deposited.\<close>

theorem Amm_liquidity_roundtrip:
  assumes "amm_ok oob s" and "0 \<le> a" and "0 \<le> b"
  shows "\<exists>s1 s2. AddLiquidity now a b s = Inr s1 \<and> RemoveLiquidity now' (la_LPShares (last (am_lpActions s1))) s1 = Inr s2 \<and>
    la_AmountA (last (am_lpActions s2)) \<le> a \<and> la_AmountB (last (am_lpActions s2)) \<le> b"
proof -
  let ?p = "am_pool s"
  let ?A = "pl_ReserveA ?p" and ?B = "pl_ReserveB ?p" and ?L = "pl_TotalLPShares ?p"
  obtain n s1 where n: "0 \<le> n" "n * ?A \<le> a * ?L" "n * ?B \<le> b * ?L" and s1: "AddLiquidity now a b s = Inr s1" "amm_ok oob s1"
      "pl_ReserveA (am_pool s1) = ?A + a" "pl_ReserveB (am_pool s1) = ?B + b" "pl_TotalLPShares (am_pool s1) = ?L + n"
      "la_LPShares (last (am_lpActions s1)) = n"
    using AddLiquidity_ok [OF assms, of now] by fastforce
  have L: "0 < ?L" using assms(1) by (simp add: amm_ok_def)
  then have "n < pl_TotalLPShares (am_pool s1)" by (simp add: s1(5))
  from RemoveLiquidity_ok [OF s1(2) n(1) this, of now'] obtain s2 where s2: "RemoveLiquidity now' n s1 = Inr s2"
      "la_AmountA (last (am_lpActions s2)) = n * (?A + a) div (?L + n)" "la_AmountB (last (am_lpActions s2)) = n * (?B + b) div (?L + n)"
    by (auto simp: s1)
  have "n * (?A + a) \<le> a * (?L + n)" "n * (?B + b) \<le> b * (?L + n)" using n by (simp_all add: algebra_simps)
  then have "n * (?A + a) div (?L + n) \<le> a * (?L + n) div (?L + n)" "n * (?B + b) div (?L + n) \<le> b * (?L + n) div (?L + n)"
    using L n(1) by (simp_all only: zdiv_mono1 add_pos_nonneg)
  then show ?thesis using s1(1,6) s2 L n(1) by auto
qed

theorem Amm_liquidity_roundtrip_witness:
  "\<exists>s1 s2. AddLiquidity None 10 20 amm_demo = Inr s1 \<and> RemoveLiquidity None (la_LPShares (last (am_lpActions s1))) s1 = Inr s2 \<and>
    la_AmountA (last (am_lpActions s2)) \<le> 10 \<and> la_AmountB (last (am_lpActions s2)) \<le> 20"
  by (rule Amm_liquidity_roundtrip [OF amm_demo_ok]) simp_all

subsection \<open>Where it fails\<close>

text \<open>The sum curve is not guarded by the reserve: a trade worth more, after the fee, than the other
  reserve is carried out and leaves that reserve negative.\<close>

theorem Amm_sum_overdraws:
  assumes "am_ammType s = ConstantSum" and "t = pl_TokenA (am_pool s)"
    and "pl_ReserveB (am_pool s) < x - big_div (x * fee_units oob (pl_Fee (am_pool s))) 100000"
  shows "\<exists>r s'. Swap oob t x s = Inr (r, s') \<and> pl_ReserveB (am_pool s') < 0"
  using assms by (simp add: Swap_def Let_def amount_out_def)

theorem Amm_sum_overdraws_witness:
  "\<exists>r s'. Swap 0 ''ETH'' 2000 (amm_demo\<lparr>am_ammType := ConstantSum\<rparr>) = Inr (r, s') \<and> pl_ReserveB (am_pool s') < 0"
  by (rule Amm_sum_overdraws) (simp_all add: amm_demo_def fee_units_def f64_round_def f64_to_int_def big_div_def)

lemma RemoveLiquidity_returns: "pl_TotalLPShares (am_pool s) \<noteq> 0 \<Longrightarrow> \<exists>s'. RemoveLiquidity now n s = Inr s'"
  by (simp add: RemoveLiquidity_def Let_def go_big_div_def)

text \<open>When the last share is withdrawn, the next withdrawal divides by zero and panics, whatever its amount.\<close>

theorem Amm_empty_panics:
  assumes "amm_ok oob s" and "RemoveLiquidity now (pl_TotalLPShares (am_pool s)) s = Inr s'"
  shows "RemoveLiquidity now' n s' = Inl DivideByZero"
proof -
  have "pl_TotalLPShares (am_pool s') = 0"
    using assms(2) by (auto simp: RemoveLiquidity_def Let_def go_bind_eq_Inr)
  then show ?thesis by (simp add: RemoveLiquidity_def Let_def go_big_div_def)
qed

theorem Amm_empty_panics_witness:
  "RemoveLiquidity None 1 (projr (RemoveLiquidity None (pl_TotalLPShares (am_pool amm_demo)) amm_demo)) = Inl DivideByZero"
proof (rule Amm_empty_panics [OF amm_demo_ok])
  have "pl_TotalLPShares (am_pool amm_demo) \<noteq> 0" by (simp add: amm_demo_def)
  then obtain s' where "RemoveLiquidity None (pl_TotalLPShares (am_pool amm_demo)) amm_demo = Inr s'"
    using RemoveLiquidity_returns by blast
  then show "RemoveLiquidity None (pl_TotalLPShares (am_pool amm_demo)) amm_demo =
      Inr (projr (RemoveLiquidity None (pl_TotalLPShares (am_pool amm_demo)) amm_demo))" by simp
qed

end
