(* ===== verification/AtomicSwap.thy ===== *)
theory AtomicSwap
  imports SimText
begin

section \<open>Atomic swaps: \<open>simulations/modules/crosschain/atomic_swap.go\<close>\<close>

text \<open>
  Hash time-locked contracts and the swaps built from two of them.  A contract is an object that the
  table of contracts and a swap share, so the state has a heap of contracts, and the table and the
  swaps hold addresses.  \<open>sha\<close> is SHA-256.  The clock is an argument, in nanoseconds; the
  readings within the creation, the claim or the refund of a contract are taken to be one.  The
  offers and the explanations, which nothing else reads, are left out.
\<close>

datatype HTLCState = Pending | Locked | Claimed | Refunded | Expired

record HTLCContract =
  hc_ID :: string
  hc_ContractAddr :: string
  hc_Sender :: string
  hc_Recipient :: string
  hc_Amount :: int
  hc_Token :: string
  hc_HashLock :: string
  hc_TimeLock :: int
  hc_Secret :: string
  hc_State :: HTLCState
  hc_Chain :: string
  hc_TxHash :: string
  hc_ClaimTxHash :: string
  hc_RefundTxHash :: string
  hc_CreatedAt :: gtime
  hc_ClaimedAt :: gtime
  hc_RefundedAt :: gtime

record SwapRecord =
  sw_ID :: string
  sw_Initiator :: string
  sw_Participant :: string
  sw_InitiatorHTLC :: nat
  sw_ParticipantHTLC :: "nat option"
  sw_InitiatorAsset :: string
  sw_ParticipantAsset :: string
  sw_InitiatorAmount :: int
  sw_ParticipantAmount :: int
  sw_ExchangeRate :: f64
  sw_State :: HTLCState
  sw_Secret :: string
  sw_SecretHash :: string
  sw_CreatedAt :: gtime
  sw_CompletedAt :: gtime

record AtomicSwapSimulator =
  as_heap :: "HTLCContract list"
  as_htlcs :: "(string, nat) gomap"
  as_swaps :: "(string, SwapRecord) gomap"
  as_initiatorLock :: int
  as_participantLock :: int
  as_completedSwaps :: int
  as_totalVolume :: int
  as_calls :: "base_call list"

datatype swap_err =
    BadAmount | BadHashLock | NoHTLC | NotLocked HTLCState | HTLCExpired | BadSecret | TimeLockNotDue
  | NoSwap | AlreadyParticipating | SwapNotPending HTLCState | NoParticipantHTLC | SwapNotLocked HTLCState
  | UnsupportedSwapAction string

definition scall :: "base_call \<Rightarrow> AtomicSwapSimulator \<Rightarrow> AtomicSwapSimulator" where
  "scall c s = s\<lparr>as_calls := as_calls s @ [c]\<rparr>"

definition Swap_updateState :: "AtomicSwapSimulator \<Rightarrow> AtomicSwapSimulator" where
  "Swap_updateState s =
     (let facts = [(''htlc_count'', GInt (int (length (as_htlcs s)))), (''swap_count'', GInt (int (length (as_swaps s)))),
            (''completed_swaps'', GInt (as_completedSwaps s)), (''total_volume'', GStr (int_text 10 (as_totalVolume s)))]
      in scall (CallTeaching ''atomic_swap'' (Fin 0) facts) (fold (\<lambda>(k, v). scall (CallGlobal k v)) facts s))"

subsection \<open>Initialisation, after the base simulator's own\<close>

text \<open>The quotient of integers is cut off towards zero.\<close>

definition half :: "int \<Rightarrow> int" where
  "half x = (if x < 0 then - ((- x) div 2) else x div 2)"

definition Swap_Init :: "int \<Rightarrow> (string, gval) gomap \<Rightarrow> AtomicSwapSimulator \<Rightarrow> AtomicSwapSimulator" where
  "Swap_Init oob params s =
     (let i = hours_param oob ''initiator_lock_hours'' (48 * hour) params;
          p = hours_param oob ''participant_lock_hours'' (24 * hour) params;
          p = (if i \<le> p then half i else p)
      in Swap_updateState (s\<lparr>as_initiatorLock := i, as_participantLock := p, as_htlcs := [], as_swaps := [],
           as_completedSwaps := 0, as_totalVolume := 0\<rparr>))"

subsection \<open>Secrets\<close>

text \<open>The linear congruential generator, seeded with the clock.\<close>

fun secret_bytes :: "nat \<Rightarrow> u64 \<Rightarrow> byte list" where
  "secret_bytes 0 seed = []"
| "secret_bytes (Suc k) seed =
     (let seed = seed * 1103515245 + 12345 in ucast (drop_bit 16 seed) # secret_bytes k seed)"

definition GenerateSecret :: "(byte list \<Rightarrow> byte list) \<Rightarrow> int \<Rightarrow> string \<times> string" where
  "GenerateSecret sha now =
     (let bs = secret_bytes 32 (word_of_int now) in (hex_encode bs, hex_encode (sha bs)))"

definition VerifySecret :: "(byte list \<Rightarrow> byte list) \<Rightarrow> string \<Rightarrow> string \<Rightarrow> bool" where
  "VerifySecret sha secret hashLock =
     (case hex_decode secret of (bs, bad) \<Rightarrow> \<not> bad \<and> hex_encode (sha bs) = hashLock)"

subsection \<open>Contracts\<close>

definition CreateHTLC ::
  "(byte list \<Rightarrow> byte list) \<Rightarrow> int \<Rightarrow> string \<Rightarrow> string \<Rightarrow> string \<Rightarrow> string \<Rightarrow> int \<Rightarrow> string \<Rightarrow> int \<Rightarrow>
   AtomicSwapSimulator \<Rightarrow> ((swap_err + nat) \<times> AtomicSwapSimulator) go" where
  "CreateHTLC sha now sender recipient chain token amount hashLock duration s =
     (if amount \<le> 0 then Inr (Inl BadAmount, s)
      else if length hashLock \<noteq> 64 then Inr (Inl BadHashLock, s)
      else
        go_bind (go_slice hashLock 0 16) (\<lambda>short.
          let h = sha (str_bytes (sender @ ''-'' @ chain @ ''-'' @ short @ ''-'' @ int_text 10 now));
              i = ''htlc-'' @ hex_encode (take 8 h);
              contractAddr = ''0x'' @ hex_encode (take 20 (drop 8 h));
              htlc = \<lparr>hc_ID = i, hc_ContractAddr = contractAddr, hc_Sender = sender, hc_Recipient = recipient,
                hc_Amount = amount, hc_Token = token, hc_HashLock = hashLock, hc_TimeLock = now + duration, hc_Secret = [],
                hc_State = Locked, hc_Chain = chain, hc_TxHash = ''0x'' @ hex_encode h, hc_ClaimTxHash = [],
                hc_RefundTxHash = [], hc_CreatedAt = Some now, hc_ClaimedAt = None, hc_RefundedAt = None\<rparr>;
              a = length (as_heap s);
              s = s\<lparr>as_heap := as_heap s @ [htlc], as_htlcs := go_put i a (as_htlcs s)\<rparr>;
              s = scall (CallEmit ''htlc_created'' [] [] (Some [(''htlc_id'', GStr i), (''sender'', GStr sender),
                (''recipient'', GStr recipient), (''chain'', GStr chain), (''token'', GStr token),
                (''amount'', GStr (int_text 10 amount)), (''hash_lock'', GStr (short @ ''...'')),
                (''time_lock'', GInt (hc_TimeLock htlc)), (''contract_addr'', GStr contractAddr)])) s
          in Inr (Inr a, Swap_updateState s)))"

text \<open>The contract at an address, and its update in place.\<close>

definition put_htlc :: "nat \<Rightarrow> HTLCContract \<Rightarrow> AtomicSwapSimulator \<Rightarrow> AtomicSwapSimulator" where
  "put_htlc a h s = s\<lparr>as_heap := (as_heap s)[a := h]\<rparr>"

definition ClaimHTLC ::
  "(byte list \<Rightarrow> byte list) \<Rightarrow> int \<Rightarrow> string \<Rightarrow> string \<Rightarrow> AtomicSwapSimulator \<Rightarrow> (swap_err option \<times> AtomicSwapSimulator) go" where
  "ClaimHTLC sha now htlcID secret s =
     (case go_get (as_htlcs s) htlcID of
        None \<Rightarrow> Inr (Some NoHTLC, s)
      | Some a \<Rightarrow>
          go_bind (go_index (as_heap s) a) (\<lambda>h.
            if hc_State h \<noteq> Locked then Inr (Some (NotLocked (hc_State h)), s)
            else if hc_TimeLock h < now then Inr (Some HTLCExpired, put_htlc a (h\<lparr>hc_State := Expired\<rparr>) s)
            else if \<not> VerifySecret sha secret (hc_HashLock h) then Inr (Some BadSecret, s)
            else
              let tx = ''0x'' @ hex_encode (sha (str_bytes (htlcID @ ''-claim-'' @ int_text 10 now)));
                  s = put_htlc a (h\<lparr>hc_Secret := secret, hc_State := Claimed, hc_ClaimedAt := Some now, hc_ClaimTxHash := tx\<rparr>) s
              in go_bind (go_slice secret 0 16) (\<lambda>short.
                   Inr (None, Swap_updateState (scall (CallEmit ''htlc_claimed'' [] [] (Some [(''htlc_id'', GStr htlcID),
                     (''recipient'', GStr (hc_Recipient h)), (''secret'', GStr (short @ ''...'')),
                     (''amount'', GStr (int_text 10 (hc_Amount h))), (''claim_tx_hash'', GStr tx)])) s)))))"

definition RefundHTLC ::
  "(byte list \<Rightarrow> byte list) \<Rightarrow> int \<Rightarrow> string \<Rightarrow> AtomicSwapSimulator \<Rightarrow> (swap_err option \<times> AtomicSwapSimulator) go" where
  "RefundHTLC sha now htlcID s =
     (case go_get (as_htlcs s) htlcID of
        None \<Rightarrow> Inr (Some NoHTLC, s)
      | Some a \<Rightarrow>
          go_bind (go_index (as_heap s) a) (\<lambda>h.
            if hc_State h \<noteq> Locked \<and> hc_State h \<noteq> Expired then Inr (Some (NotLocked (hc_State h)), s)
            else if now < hc_TimeLock h then Inr (Some TimeLockNotDue, s)
            else
              let tx = ''0x'' @ hex_encode (sha (str_bytes (htlcID @ ''-refund-'' @ int_text 10 now)))
              in Inr (None, Swap_updateState (scall (CallEmit ''htlc_refunded'' [] [] (Some [(''htlc_id'', GStr htlcID),
                   (''sender'', GStr (hc_Sender h)), (''amount'', GStr (int_text 10 (hc_Amount h))), (''refund_tx_hash'', GStr tx)]))
                 (put_htlc a (h\<lparr>hc_State := Refunded, hc_RefundedAt := Some now, hc_RefundTxHash := tx\<rparr>) s)))))"

subsection \<open>Swaps\<close>

definition InitiateSwap ::
  "(byte list \<Rightarrow> byte list) \<Rightarrow> int \<Rightarrow> string \<Rightarrow> string \<Rightarrow> string \<Rightarrow> string \<Rightarrow> int \<Rightarrow> string \<Rightarrow> string \<Rightarrow> int \<Rightarrow>
   AtomicSwapSimulator \<Rightarrow> ((swap_err + string \<times> string) \<times> AtomicSwapSimulator) go" where
  "InitiateSwap sha now initiator participant iChain iToken iAmount pChain pToken pAmount s =
     (case GenerateSecret sha now of (secret, hashLock) \<Rightarrow>
        go_bind (CreateHTLC sha now initiator participant iChain iToken iAmount hashLock (as_initiatorLock s) s) (\<lambda>(r, s).
          case r of
            Inl e \<Rightarrow> Inr (Inl e, s)
          | Inr a \<Rightarrow>
              go_bind (go_slice hashLock 0 16) (\<lambda>short.
                let i = ''swap-'' @ hex_encode (take 8 (sha (str_bytes (initiator @ ''-'' @ participant @ ''-'' @ int_text 10 now))));
                    swap = \<lparr>sw_ID = i, sw_Initiator = initiator, sw_Participant = participant, sw_InitiatorHTLC = a,
                      sw_ParticipantHTLC = None, sw_InitiatorAsset = iToken @ '' on '' @ iChain,
                      sw_ParticipantAsset = pToken @ '' on '' @ pChain, sw_InitiatorAmount = iAmount, sw_ParticipantAmount = pAmount,
                      sw_ExchangeRate = f64_div (f64_of_big pAmount) (f64_of_big iAmount), sw_State = Pending, sw_Secret = [],
                      sw_SecretHash = hashLock, sw_CreatedAt = Some now, sw_CompletedAt = None\<rparr>;
                    s = s\<lparr>as_swaps := go_put i swap (as_swaps s)\<rparr>;
                    s = scall (CallEmit ''swap_initiated'' [] [] (Some [(''swap_id'', GStr i), (''initiator'', GStr initiator),
                      (''participant'', GStr participant), (''initiator_asset'', GStr (sw_InitiatorAsset swap)),
                      (''participant_asset'', GStr (sw_ParticipantAsset swap)), (''initiator_amount'', GStr (int_text 10 iAmount)),
                      (''participant_amount'', GStr (int_text 10 pAmount)), (''hash_lock'', GStr (short @ ''...''))])) s
                in Inr (Inr (i, secret), Swap_updateState s))))"

definition ParticipateSwap ::
  "(byte list \<Rightarrow> byte list) \<Rightarrow> int \<Rightarrow> string \<Rightarrow> string \<Rightarrow> string \<Rightarrow> int \<Rightarrow> AtomicSwapSimulator \<Rightarrow>
   (swap_err option \<times> AtomicSwapSimulator) go" where
  "ParticipateSwap sha now swapID chain token amount s =
     (case go_get (as_swaps s) swapID of
        None \<Rightarrow> Inr (Some NoSwap, s)
      | Some swap \<Rightarrow>
          if sw_ParticipantHTLC swap \<noteq> None then Inr (Some AlreadyParticipating, s)
          else if sw_State swap \<noteq> Pending then Inr (Some (SwapNotPending (sw_State swap)), s)
          else
            go_bind (CreateHTLC sha now (sw_Participant swap) (sw_Initiator swap) chain token amount (sw_SecretHash swap)
                (as_participantLock s) s) (\<lambda>(r, s).
              case r of
                Inl e \<Rightarrow> Inr (Some e, s)
              | Inr a \<Rightarrow>
                  go_bind (go_index (as_heap s) a) (\<lambda>h.
                    let s = s\<lparr>as_swaps := go_put swapID (swap\<lparr>sw_ParticipantHTLC := Some a, sw_State := Locked\<rparr>) (as_swaps s)\<rparr>;
                        s = scall (CallEmit ''swap_participated'' [] [] (Some [(''swap_id'', GStr swapID),
                          (''participant'', GStr (sw_Participant swap)), (''htlc_id'', GStr (hc_ID h)), (''chain'', GStr chain),
                          (''amount'', GStr (int_text 10 amount))])) s
                    in Inr (None, Swap_updateState s))))"

text \<open>The two claims read the clock one after the other; the text of the duration is left out.\<close>

definition CompleteSwap ::
  "(byte list \<Rightarrow> byte list) \<Rightarrow> int \<Rightarrow> int \<Rightarrow> string \<Rightarrow> string \<Rightarrow> AtomicSwapSimulator \<Rightarrow> (swap_err option \<times> AtomicSwapSimulator) go" where
  "CompleteSwap sha now now' swapID secret s =
     (case go_get (as_swaps s) swapID of
        None \<Rightarrow> Inr (Some NoSwap, s)
      | Some swap \<Rightarrow>
          case sw_ParticipantHTLC swap of
            None \<Rightarrow> Inr (Some NoParticipantHTLC, s)
          | Some b \<Rightarrow>
              if sw_State swap \<noteq> Locked then Inr (Some (SwapNotLocked (sw_State swap)), s)
              else
                go_bind (go_index (as_heap s) b) (\<lambda>ph.
                  go_bind (ClaimHTLC sha now (hc_ID ph) secret s) (\<lambda>(e, s).
                    case e of
                      Some e \<Rightarrow> Inr (Some e, s)
                    | None \<Rightarrow>
                        go_bind (go_index (as_heap s) (sw_InitiatorHTLC swap)) (\<lambda>ih.
                          go_bind (ClaimHTLC sha now' (hc_ID ih) secret s) (\<lambda>(e, s).
                            case e of
                              Some e \<Rightarrow> Inr (Some e, s)
                            | None \<Rightarrow>
                                let s = s\<lparr>as_swaps := go_put swapID (swap\<lparr>sw_Secret := secret, sw_State := Claimed,
                                        sw_CompletedAt := Some now'\<rparr>) (as_swaps s),
                                      as_completedSwaps := as_completedSwaps s + 1,
                                      as_totalVolume := as_totalVolume s + sw_InitiatorAmount swap + sw_ParticipantAmount swap\<rparr>;
                                    s = scall (CallEmit ''swap_completed'' [] [] (Some [(''swap_id'', GStr swapID),
                                      (''initiator'', GStr (sw_Initiator swap)), (''participant'', GStr (sw_Participant swap))])) s
                                in Inr (None, Swap_updateState s))))))"

definition Swap_ExecuteAction ::
  "(byte list \<Rightarrow> byte list) \<Rightarrow> int \<Rightarrow> string \<Rightarrow> AtomicSwapSimulator \<Rightarrow>
   ((swap_err + string \<times> string) \<times> AtomicSwapSimulator) go" where
  "Swap_ExecuteAction sha now action s =
     (if action = ''initiate_swap'' then
        InitiateSwap sha now ''alice'' ''bob'' ''bitcoin'' ''BTC'' 1 ''litecoin'' ''LTC'' 10 s
      else Inr (Inl (UnsupportedSwapAction action), s))"

end
