(* ===== verification/AtomicSwapFacts.thy ===== *)
theory AtomicSwapFacts
  imports AtomicSwap
begin

section \<open>Atomic swaps: properties\<close>

text \<open>
  The life of a contract over any sequence of operations, that completing a swap is all or nothing
  when the second claim comes before the initiator's lock runs out, and what happens when it does not.
\<close>

subsection \<open>The life of a contract\<close>

definition htlc_ok :: "(byte list \<Rightarrow> byte list) \<Rightarrow> HTLCContract \<Rightarrow> bool" where
  "htlc_ok sha h \<longleftrightarrow> 0 < hc_Amount h \<and> length (hc_HashLock h) = 64 \<and>
     (case hc_State h of
        Claimed \<Rightarrow> VerifySecret sha (hc_Secret h) (hc_HashLock h) \<and> (\<exists>t \<le> hc_TimeLock h. hc_ClaimedAt h = Some t) \<and> hc_RefundedAt h = None
      | Refunded \<Rightarrow> hc_ClaimedAt h = None \<and> (\<exists>t \<ge> hc_TimeLock h. hc_RefundedAt h = Some t)
      | Pending \<Rightarrow> False
      | _ \<Rightarrow> hc_ClaimedAt h = None \<and> hc_RefundedAt h = None)"

text \<open>The terms do not change, and a contract that is claimed or refunded stays as it is.\<close>

definition htlc_goes :: "HTLCContract \<Rightarrow> HTLCContract \<Rightarrow> bool" where
  "htlc_goes h h' \<longleftrightarrow> hc_ID h' = hc_ID h \<and> hc_Sender h' = hc_Sender h \<and> hc_Recipient h' = hc_Recipient h \<and>
     hc_Amount h' = hc_Amount h \<and> hc_HashLock h' = hc_HashLock h \<and> hc_TimeLock h' = hc_TimeLock h \<and>
     (hc_State h = Claimed \<or> hc_State h = Refunded \<longrightarrow> h' = h)"

lemma htlc_goes_refl [simp]: "htlc_goes h h"
  by (simp add: htlc_goes_def)

lemma htlc_goes_trans: "htlc_goes h h' \<Longrightarrow> htlc_goes h' h'' \<Longrightarrow> htlc_goes h h''"
  by (auto simp: htlc_goes_def)

definition heap_goes :: "(byte list \<Rightarrow> byte list) \<Rightarrow> AtomicSwapSimulator \<Rightarrow> AtomicSwapSimulator \<Rightarrow> bool" where
  "heap_goes sha s t \<longleftrightarrow> (list_all (htlc_ok sha) (as_heap s) \<longrightarrow> list_all (htlc_ok sha) (as_heap t)) \<and>
     length (as_heap s) \<le> length (as_heap t) \<and> (\<forall>a < length (as_heap s). htlc_goes (as_heap s ! a) (as_heap t ! a))"

lemma heap_goes_refl [simp]: "heap_goes sha s s"
  by (simp add: heap_goes_def)

lemma heap_goes_trans: "heap_goes sha s t \<Longrightarrow> heap_goes sha t u \<Longrightarrow> heap_goes sha s u"
  by (auto simp: heap_goes_def intro: htlc_goes_trans dest: order_trans)

subsection \<open>Reports\<close>

lemma scall_simps [simp]:
  "as_heap (scall c s) = as_heap s" "as_htlcs (scall c s) = as_htlcs s" "as_swaps (scall c s) = as_swaps s"
  by (simp_all add: scall_def)

lemma update_simps [simp]:
  "as_heap (Swap_updateState s) = as_heap s" "as_htlcs (Swap_updateState s) = as_htlcs s" "as_swaps (Swap_updateState s) = as_swaps s"
  by (simp_all add: Swap_updateState_def Let_def)

lemma put_htlc_simps [simp]:
  "as_heap (put_htlc a h s) = (as_heap s)[a := h]" "as_htlcs (put_htlc a h s) = as_htlcs s" "as_swaps (put_htlc a h s) = as_swaps s"
  by (simp_all add: put_htlc_def)

lemma heap_goes_put:
  assumes "a < length (as_heap s)" and "htlc_goes (as_heap s ! a) h" and "htlc_ok sha (as_heap s ! a) \<Longrightarrow> htlc_ok sha h"
  shows "heap_goes sha s (put_htlc a h s)"
  using assms by (auto simp: heap_goes_def list_all_length nth_list_update)

lemma heap_goes_simps [simp]:
  "heap_goes sha s (scall c t) = heap_goes sha s t" "heap_goes sha s (Swap_updateState t) = heap_goes sha s t"
  "heap_goes sha s (t\<lparr>as_swaps := w\<rparr>) = heap_goes sha s t"
  "heap_goes sha s (t\<lparr>as_swaps := w, as_completedSwaps := c', as_totalVolume := v\<rparr>) = heap_goes sha s t"
  by (simp_all add: heap_goes_def)

lemma go_index_eq: "go_index xs i = Inr x \<longleftrightarrow> i < length xs \<and> x = xs ! i"
  by (auto simp: go_index_def)

subsection \<open>The operations\<close>

lemma CreateHTLC_goes:
  "CreateHTLC sha now sd rc ch tk n hl d s = Inr (r, t) \<Longrightarrow> heap_goes sha s t"
  by (auto simp: CreateHTLC_def Let_def go_bind_eq_Inr heap_goes_def nth_append htlc_ok_def split: if_splits)

lemma ClaimHTLC_goes: "ClaimHTLC sha now i secret s = Inr (r, t) \<Longrightarrow> heap_goes sha s t"
  by (auto simp: ClaimHTLC_def Let_def go_bind_eq_Inr go_index_eq split: option.splits if_splits
      intro!: heap_goes_put simp: htlc_goes_def htlc_ok_def)

lemma RefundHTLC_goes: "RefundHTLC sha now i s = Inr (r, t) \<Longrightarrow> heap_goes sha s t"
  by (auto simp: RefundHTLC_def Let_def go_bind_eq_Inr go_index_eq split: option.splits if_splits
      intro!: heap_goes_put simp: htlc_goes_def htlc_ok_def)

lemma InitiateSwap_goes:
  assumes "InitiateSwap sha now a b c d n e f m s = Inr (r, t)"
  shows "heap_goes sha s t"
proof -
  from assms obtain q s1 where q: "CreateHTLC sha now a b c d n (snd (GenerateSecret sha now)) (as_initiatorLock s) s = Inr (q, s1)"
    by (auto simp: InitiateSwap_def go_bind_eq_Inr split: prod.splits)
  with assms CreateHTLC_goes [OF q] show ?thesis
    by (cases q) (auto simp: InitiateSwap_def Let_def go_bind_eq_Inr split: prod.splits)
qed

lemma ParticipateSwap_goes:
  assumes "ParticipateSwap sha now i c tk n s = Inr (r, t)"
  shows "heap_goes sha s t"
proof (cases "\<exists>sw q s1. go_get (as_swaps s) i = Some sw \<and>
    CreateHTLC sha now (sw_Participant sw) (sw_Initiator sw) c tk n (sw_SecretHash sw) (as_participantLock s) s = Inr (q, s1)")
  case True
  then obtain sw q s1 where q: "go_get (as_swaps s) i = Some sw"
      "CreateHTLC sha now (sw_Participant sw) (sw_Initiator sw) c tk n (sw_SecretHash sw) (as_participantLock s) s = Inr (q, s1)" by blast
  with assms CreateHTLC_goes [OF q(2)] show ?thesis
    by (cases q) (auto simp: ParticipateSwap_def Let_def go_bind_eq_Inr split: if_splits)
next
  case False
  with assms show ?thesis
    by (auto simp: ParticipateSwap_def go_bind_eq_Inr split: option.splits if_splits)
qed

lemma CompleteSwap_goes:
  "CompleteSwap sha now now' i secret s = Inr (r, t) \<Longrightarrow> heap_goes sha s t"
  by (auto simp: CompleteSwap_def Let_def go_bind_eq_Inr split: prod.splits option.splits if_splits
      dest!: ClaimHTLC_goes intro: heap_goes_trans)

subsection \<open>Runs\<close>

inductive swap_step :: "(byte list \<Rightarrow> byte list) \<Rightarrow> AtomicSwapSimulator \<Rightarrow> AtomicSwapSimulator \<Rightarrow> bool" for sha where
  do_create: "CreateHTLC sha now sd rc ch tk n hl d s = Inr (r, t) \<Longrightarrow> swap_step sha s t"
| do_claim: "ClaimHTLC sha now i secret s = Inr (e, t) \<Longrightarrow> swap_step sha s t"
| do_refund: "RefundHTLC sha now i s = Inr (e, t) \<Longrightarrow> swap_step sha s t"
| do_initiate: "InitiateSwap sha now a b c d n f g m s = Inr (w, t) \<Longrightarrow> swap_step sha s t"
| do_participate: "ParticipateSwap sha now i c tk n s = Inr (e, t) \<Longrightarrow> swap_step sha s t"
| do_complete: "CompleteSwap sha now now' i secret s = Inr (e, t) \<Longrightarrow> swap_step sha s t"

lemma swap_step_goes: "swap_step sha s t \<Longrightarrow> heap_goes sha s t"
  by (induction rule: swap_step.induct)
    (auto dest: CreateHTLC_goes ClaimHTLC_goes RefundHTLC_goes InitiateSwap_goes ParticipateSwap_goes CompleteSwap_goes)

interpretation htlc: step_system "\<lambda>s. heap_goes sha s0 s" "swap_step sha" "\<lambda>s. heap_goes sha s0 s" for sha s0
  by unfold_locales (auto dest: swap_step_goes intro: heap_goes_trans)

text \<open>C5. The life of a contract, over any sequence of creations, claims, refunds and swap operations, at any
  times: a contract is claimed only with a text whose hash is its lock and no later than its time lock, and
  refunded only at its time lock or later, never both; its parties, amount and locks never change, and once
  claimed or refunded it stays exactly as it is.\<close>

theorem Swap_contract_life:
  assumes "list_all (htlc_ok sha) (as_heap s)" and "(swap_step sha)\<^sup>*\<^sup>* s t"
  shows "list_all (htlc_ok sha) (as_heap t) \<and>
    (\<forall>a < length (as_heap s). a < length (as_heap t) \<and> htlc_goes (as_heap s ! a) (as_heap t ! a))"
  using htlc.reachable_inv [of sha s s t] assms by (auto simp: heap_goes_def)

definition id_sha :: "byte list \<Rightarrow> byte list" where
  "id_sha bs = take 32 (bs @ replicate 32 0)"

definition swap_demo_new :: AtomicSwapSimulator where
  "swap_demo_new = \<lparr>as_heap = [], as_htlcs = [], as_swaps = [], as_initiatorLock = 48, as_participantLock = 24, as_completedSwaps = 0,
     as_totalVolume = 0, as_calls = []\<rparr>"

theorem Swap_contract_life_witness:
  "\<exists>t :: AtomicSwapSimulator. as_heap t \<noteq> [] \<and> list_all (htlc_ok id_sha) (as_heap t) \<and>
    (\<forall>a < length (as_heap swap_demo_new). a < length (as_heap t) \<and> htlc_goes (as_heap swap_demo_new ! a) (as_heap t ! a))"
proof -
  obtain r t where t: "CreateHTLC id_sha 0 ''a'' ''b'' ''c'' ''d'' 1 (replicate 64 CHR ''0'') 5 swap_demo_new = Inr (r, t)" "as_heap t \<noteq> []"
    by (simp add: CreateHTLC_def Let_def go_slice_def)
  have "(swap_step id_sha)\<^sup>*\<^sup>* swap_demo_new t" using do_create [OF t(1)] by blast
  moreover have "list_all (htlc_ok id_sha) (as_heap swap_demo_new)" by (simp add: swap_demo_new_def)
  ultimately show ?thesis using Swap_contract_life [of id_sha swap_demo_new t] t(2) by blast
qed

subsection \<open>Secrets\<close>

text \<open>A generated secret opens its own lock, whatever the clock said and whatever the hash.\<close>

theorem Swap_secret_opens:
  "VerifySecret sha (fst (GenerateSecret sha now)) (snd (GenerateSecret sha now))"
  by (simp add: GenerateSecret_def VerifySecret_def Let_def)

subsection \<open>All or nothing\<close>

text \<open>A contract that the table of contracts knows under its identity and that is still locked.\<close>

definition live :: "AtomicSwapSimulator \<Rightarrow> nat \<Rightarrow> bool" where
  "live s a \<longleftrightarrow> a < length (as_heap s) \<and> go_get (as_htlcs s) (hc_ID (as_heap s ! a)) = Some a \<and> hc_State (as_heap s ! a) = Locked"

text \<open>A swap whose two contracts, at \<open>a\<close> and \<open>b\<close>, are in place and have the same lock.\<close>

definition swap_ready :: "AtomicSwapSimulator \<Rightarrow> string \<Rightarrow> nat \<Rightarrow> nat \<Rightarrow> bool" where
  "swap_ready s i a b \<longleftrightarrow> (\<exists>w. go_get (as_swaps s) i = Some w \<and> sw_State w = Locked \<and> sw_InitiatorHTLC w = a \<and>
     sw_ParticipantHTLC w = Some b) \<and> a \<noteq> b \<and> live s a \<and> live s b \<and> hc_HashLock (as_heap s ! b) = hc_HashLock (as_heap s ! a)"

lemma claim_live:
  assumes "live s a" and "16 \<le> length secret"
  shows "(if hc_TimeLock (as_heap s ! a) < now
     then ClaimHTLC sha now (hc_ID (as_heap s ! a)) secret s = Inr (Some HTLCExpired, put_htlc a ((as_heap s ! a)\<lparr>hc_State := Expired\<rparr>) s)
     else if \<not> VerifySecret sha secret (hc_HashLock (as_heap s ! a))
     then ClaimHTLC sha now (hc_ID (as_heap s ! a)) secret s = Inr (Some BadSecret, s)
     else \<exists>h t. ClaimHTLC sha now (hc_ID (as_heap s ! a)) secret s = Inr (None, t) \<and> as_heap t = (as_heap s)[a := h] \<and>
       hc_State h = Claimed \<and> hc_Secret h = secret \<and> as_htlcs t = as_htlcs s \<and> as_swaps t = as_swaps s)"
  using assms by (auto simp: live_def ClaimHTLC_def go_index_def Let_def go_slice_def)

lemma live_update: "live s a \<Longrightarrow> a \<noteq> b \<Longrightarrow> as_heap t = (as_heap s)[b := h] \<Longrightarrow> as_htlcs t = as_htlcs s \<Longrightarrow> live t a"
  by (simp add: live_def)

text \<open>C38. Completing a swap is all or nothing, as long as the initiator's contract has not run out at the
  second claim: either both contracts are claimed with the secret, or neither is and the initiator's is
  still locked.\<close>

theorem Swap_atomic:
  assumes "swap_ready s i a b" and "now' \<le> hc_TimeLock (as_heap s ! a)" and "16 \<le> length secret"
  shows "\<exists>e t. CompleteSwap sha now now' i secret s = Inr (e, t) \<and>
    (if e = None then hc_State (as_heap t ! a) = Claimed \<and> hc_State (as_heap t ! b) = Claimed \<and>
        hc_Secret (as_heap t ! a) = secret \<and> hc_Secret (as_heap t ! b) = secret
     else hc_State (as_heap t ! a) = Locked \<and> hc_State (as_heap t ! b) \<noteq> Claimed)"
proof -
  obtain w where w: "go_get (as_swaps s) i = Some w" "sw_State w = Locked" "sw_InitiatorHTLC w = a" "sw_ParticipantHTLC w = Some b"
      "a \<noteq> b" "live s a" "live s b" "hc_HashLock (as_heap s ! b) = hc_HashLock (as_heap s ! a)"
    using assms(1) unfolding swap_ready_def by blast
  have lens: "a < length (as_heap s)" "b < length (as_heap s)" and st: "hc_State (as_heap s ! a) = Locked" "hc_State (as_heap s ! b) = Locked"
    using w by (simp_all add: live_def)
  note cb = claim_live [OF w(7) assms(3), of now sha]
  show ?thesis
  proof (cases "hc_TimeLock (as_heap s ! b) < now \<or> \<not> VerifySecret sha secret (hc_HashLock (as_heap s ! a))")
    case True
    with cb w lens st show ?thesis by (auto simp: CompleteSwap_def go_index_def split: if_splits)
  next
    case False
    with cb w(8) obtain h t where t: "ClaimHTLC sha now (hc_ID (as_heap s ! b)) secret s = Inr (None, t)" "as_heap t = (as_heap s)[b := h]"
        "hc_State h = Claimed" "hc_Secret h = secret" "as_htlcs t = as_htlcs s" "as_swaps t = as_swaps s" by auto
    have same: "as_heap t ! a = as_heap s ! a" using t(2) w(5) by simp
    from claim_live [OF live_update [OF w(6,5) t(2,5)] assms(3), of now' sha] assms(2) False
    obtain h' u where u: "ClaimHTLC sha now' (hc_ID (as_heap t ! a)) secret t = Inr (None, u)" "as_heap u = (as_heap t)[a := h']"
        "hc_State h' = Claimed" "hc_Secret h' = secret" by (auto simp: same)
    with w t lens show ?thesis by (simp add: CompleteSwap_def go_index_def Let_def)
  qed
qed

text \<open>Nothing makes the participant's lock the shorter one: when it is not, and the initiator's contract
  has run out, completing the swap claims the participant's contract and then fails, and the initiator is
  refunded, so that one side has both assets.\<close>

theorem Swap_not_atomic:
  assumes "swap_ready s i a b" and "now \<le> hc_TimeLock (as_heap s ! b)" and "hc_TimeLock (as_heap s ! a) < now'"
    and "16 \<le> length secret" and "VerifySecret sha secret (hc_HashLock (as_heap s ! a))" and "now' \<le> later"
  shows "\<exists>t u. CompleteSwap sha now now' i secret s = Inr (Some HTLCExpired, t) \<and> hc_State (as_heap t ! b) = Claimed \<and>
    RefundHTLC sha later (hc_ID (as_heap s ! a)) t = Inr (None, u) \<and> hc_State (as_heap u ! a) = Refunded \<and>
    hc_State (as_heap u ! b) = Claimed"
proof -
  obtain w where w: "go_get (as_swaps s) i = Some w" "sw_State w = Locked" "sw_InitiatorHTLC w = a" "sw_ParticipantHTLC w = Some b"
      "a \<noteq> b" "live s a" "live s b" "hc_HashLock (as_heap s ! b) = hc_HashLock (as_heap s ! a)"
    using assms(1) unfolding swap_ready_def by blast
  have lens: "a < length (as_heap s)" "b < length (as_heap s)" using w by (simp_all add: live_def)
  from claim_live [OF w(7) assms(4), of now sha] assms(2,5) w(8) obtain h t where t:
      "ClaimHTLC sha now (hc_ID (as_heap s ! b)) secret s = Inr (None, t)" "as_heap t = (as_heap s)[b := h]"
      "hc_State h = Claimed" "as_htlcs t = as_htlcs s" by auto
  have same: "as_heap t ! a = as_heap s ! a" using t(2) w(5) by simp
  let ?t = "put_htlc a ((as_heap t ! a)\<lparr>hc_State := Expired\<rparr>) t"
  have "ClaimHTLC sha now' (hc_ID (as_heap t ! a)) secret t = Inr (Some HTLCExpired, ?t)"
    using claim_live [OF live_update [OF w(6,5) t(2,4)] assms(4), of now' sha] assms(3) by (simp add: same)
  then have "CompleteSwap sha now now' i secret s = Inr (Some HTLCExpired, ?t)"
    using w t(1,2) lens by (simp add: CompleteSwap_def go_index_def)
  moreover have "go_get (as_htlcs ?t) (hc_ID (as_heap s ! a)) = Some a" using w(6) t(4) by (simp add: live_def)
  ultimately show ?thesis
    using t(2,3) lens w(5) assms(3,6) same by (simp add: RefundHTLC_def go_index_def Let_def)
qed

definition swap_demo :: AtomicSwapSimulator where
  "swap_demo = (let lock = hex_encode (id_sha (replicate 32 7));
      h = \<lparr>hc_ID = ''a'', hc_ContractAddr = [], hc_Sender = ''alice'', hc_Recipient = ''bob'', hc_Amount = 1, hc_Token = ''BTC'',
        hc_HashLock = lock, hc_TimeLock = 48, hc_Secret = [], hc_State = Locked, hc_Chain = [], hc_TxHash = [], hc_ClaimTxHash = [],
        hc_RefundTxHash = [], hc_CreatedAt = Some 0, hc_ClaimedAt = None, hc_RefundedAt = None\<rparr>;
      w = \<lparr>sw_ID = ''s'', sw_Initiator = ''alice'', sw_Participant = ''bob'', sw_InitiatorHTLC = 0, sw_ParticipantHTLC = Some 1,
        sw_InitiatorAsset = [], sw_ParticipantAsset = [], sw_InitiatorAmount = 1, sw_ParticipantAmount = 10, sw_ExchangeRate = Fin 10,
        sw_State = Locked, sw_Secret = [], sw_SecretHash = lock, sw_CreatedAt = Some 0, sw_CompletedAt = None\<rparr>
    in swap_demo_new\<lparr>as_heap := [h, h\<lparr>hc_ID := ''b'', hc_Sender := ''bob'', hc_Recipient := ''alice'', hc_Amount := 10, hc_TimeLock := 54\<rparr>],
      as_htlcs := [(''a'', 0), (''b'', 1)], as_swaps := [(''s'', w)]\<rparr>)"

lemma swap_demo_ready: "swap_ready swap_demo ''s'' 0 1"
  by (simp add: swap_ready_def swap_demo_def Let_def live_def go_get_def)

lemma swap_demo_locks: "hc_TimeLock (as_heap swap_demo ! 0) = 48" "hc_TimeLock (as_heap swap_demo ! 1) = 54"
  "hc_HashLock (as_heap swap_demo ! 0) = hex_encode (id_sha (replicate 32 7))"
  by (simp_all add: swap_demo_def Let_def)

theorem Swap_atomic_witness:
  "\<exists>e t. CompleteSwap id_sha 10 11 ''s'' (hex_encode (replicate 32 7)) swap_demo = Inr (e, t) \<and>
    (if e = None then hc_State (as_heap t ! 0) = Claimed \<and> hc_State (as_heap t ! 1) = Claimed \<and>
        hc_Secret (as_heap t ! 0) = hex_encode (replicate 32 7) \<and> hc_Secret (as_heap t ! 1) = hex_encode (replicate 32 7)
     else hc_State (as_heap t ! 0) = Locked \<and> hc_State (as_heap t ! 1) \<noteq> Claimed)"
  by (rule Swap_atomic [OF swap_demo_ready]) (simp_all add: swap_demo_locks)

theorem Swap_not_atomic_witness:
  "\<exists>t u. CompleteSwap id_sha 50 50 ''s'' (hex_encode (replicate 32 7)) swap_demo = Inr (Some HTLCExpired, t) \<and> hc_State (as_heap t ! 1) = Claimed \<and>
    RefundHTLC id_sha 51 (hc_ID (as_heap swap_demo ! 0)) t = Inr (None, u) \<and> hc_State (as_heap u ! 0) = Refunded \<and>
    hc_State (as_heap u ! 1) = Claimed"
  by (rule Swap_not_atomic [OF swap_demo_ready]) (simp_all only: swap_demo_locks, simp_all add: VerifySecret_def)

end
