(* ===== verification/Transport.thy ===== *)
theory Transport
  imports EngineEvent GoFloat
begin

section \<open>The simulated network: \<open>simulations/pkg/transport/simulated.go\<close> and \<open>transport.go\<close>\<close>

text \<open>
  The transport delivers through goroutines, one per message, that sleep, look the receiver up,
  offer the message to its inbox and then count.  A node's channel is an object that the table of
  nodes and the goroutines share, so the state has a heap of them and the table holds addresses; the
  goroutines are part of the state.  \<open>uid\<close> is \<open>uuid.New\<close>, \<open>roll\<close> the random number
  drawn, \<open>len\<close> the length of the JSON text of a message, which only the statistics use.  The
  operations and the locked sections of a goroutine are atomic.  The context and the
  inbox of a base node, which nothing reads, are left out.
\<close>

record Message =
  mg_ID :: string
  mg_Type :: string
  mg_From :: NodeID
  mg_To :: NodeID
  mg_Payload :: "byte list"
  mg_Timestamp :: gtime
  mg_Tick :: u64

record Broadcast =
  bc_ID :: string
  bc_Type :: string
  bc_From :: NodeID
  bc_Payload :: "byte list"
  bc_Timestamp :: gtime
  bc_Tick :: u64

record NodeTransportStats =
  nt_Sent :: u64
  nt_Received :: u64
  nt_Dropped :: u64
  nt_AvgLatency :: int

record TransportStats =
  tt_MessagesSent :: u64
  tt_MessagesReceived :: u64
  tt_MessagesDropped :: u64
  tt_BytesSent :: u64
  tt_BytesReceived :: u64
  tt_AvgLatency :: int
  tt_NodeStats :: "(NodeID, NodeTransportStats) gomap"

record TransportConfig =
  tg_Mode :: string
  tg_DefaultLatency :: int
  tg_DefaultLoss :: f64
  tg_BufferSize :: int
  tg_NodeAddresses :: "(NodeID, string) gomap"

record nodeChannel =
  nc_inbox :: "Message Chan"
  nc_online :: bool

text \<open>Where the goroutine of a message stands: asleep, about to look the receiver up, in front of
  its inbox, delivered or turned away and about to count, gone.\<close>

datatype flight = Asleep int Message | Looking Message | AtInbox nat Message | Delivered Message | TurnedAway | Gone

record SimulatedTransport =
  tr_heap :: "nodeChannel list"
  tr_nodes :: "(NodeID, nat) gomap"
  tr_latencies :: "(string, int) gomap"
  tr_packetLoss :: "(string, f64) gomap"
  tr_partitions :: "NodeID list list"
  tr_config :: TransportConfig
  tr_stats :: TransportStats
  tr_running :: bool
  tr_flights :: "flight list"

definition no_node_stats :: NodeTransportStats where
  "no_node_stats = \<lparr>nt_Sent = 0, nt_Received = 0, nt_Dropped = 0, nt_AvgLatency = 0\<rparr>"

definition no_stats :: "(NodeID, NodeTransportStats) gomap \<Rightarrow> TransportStats" where
  "no_stats ns = \<lparr>tt_MessagesSent = 0, tt_MessagesReceived = 0, tt_MessagesDropped = 0, tt_BytesSent = 0,
     tt_BytesReceived = 0, tt_AvgLatency = 0, tt_NodeStats = ns\<rparr>"

definition NewSimulatedTransport :: "TransportConfig \<Rightarrow> SimulatedTransport" where
  "NewSimulatedTransport config =
     (let config = (if tg_BufferSize config = 0 then config\<lparr>tg_BufferSize := 1000\<rparr> else config)
      in \<lparr>tr_heap = [], tr_nodes = [], tr_latencies = [], tr_packetLoss = [], tr_partitions = [], tr_config = config,
        tr_stats = no_stats [], tr_running = False, tr_flights = []\<rparr>)"

definition Transport_Start :: "SimulatedTransport \<Rightarrow> SimulatedTransport" where
  "Transport_Start t = t\<lparr>tr_running := True\<rparr>"

subsection \<open>Nodes\<close>

definition close_inbox :: "nat \<Rightarrow> SimulatedTransport \<Rightarrow> SimulatedTransport go" where
  "close_inbox a t =
     (if a < length (tr_heap t) then
        go_bind (chan_close (nc_inbox (tr_heap t ! a))) (\<lambda>c.
          Inr (t\<lparr>tr_heap := (tr_heap t)[a := (tr_heap t ! a)\<lparr>nc_inbox := c\<rparr>]\<rparr>))
      else Inl NilDeref)"

fun close_inboxes :: "nat list \<Rightarrow> SimulatedTransport \<Rightarrow> SimulatedTransport go" where
  "close_inboxes [] t = Inr t"
| "close_inboxes (a # as) t = go_bind (close_inbox a t) (close_inboxes as)"

text \<open>\<open>ord\<close>: the order in which the table of nodes is met.\<close>

definition Transport_Stop :: "NodeID list \<Rightarrow> SimulatedTransport \<Rightarrow> SimulatedTransport go" where
  "Transport_Stop ord t =
     close_inboxes (map (\<lambda>n. the (go_get (tr_nodes t) n)) ord) (t\<lparr>tr_running := False\<rparr>)"

definition put_node_stats :: "NodeID \<Rightarrow> NodeTransportStats \<Rightarrow> TransportStats \<Rightarrow> TransportStats" where
  "put_node_stats n x st = st\<lparr>tt_NodeStats := go_put n x (tt_NodeStats st)\<rparr>"

definition AddNode :: "NodeID \<Rightarrow> SimulatedTransport \<Rightarrow> SimulatedTransport go" where
  "AddNode n t =
     (if go_get (tr_nodes t) n \<noteq> None then Inr t
      else if tg_BufferSize (tr_config t) < 0 then Inl MakeSliceLen
      else Inr (t\<lparr>tr_heap := tr_heap t @ [\<lparr>nc_inbox = \<lparr>ch_buf = [], ch_cap = nat (tg_BufferSize (tr_config t)), ch_closed = False\<rparr>,
              nc_online = True\<rparr>],
            tr_nodes := go_put n (length (tr_heap t)) (tr_nodes t),
            tr_stats := put_node_stats n no_node_stats (tr_stats t)\<rparr>))"

definition RemoveNode :: "NodeID \<Rightarrow> SimulatedTransport \<Rightarrow> SimulatedTransport go" where
  "RemoveNode n t =
     (case go_get (tr_nodes t) n of
        None \<Rightarrow> Inr t
      | Some a \<Rightarrow> go_bind (close_inbox a t) (\<lambda>t.
          Inr (t\<lparr>tr_nodes := go_del n (tr_nodes t),
            tr_stats := (tr_stats t)\<lparr>tt_NodeStats := go_del n (tt_NodeStats (tr_stats t))\<rparr>\<rparr>)))"

definition GetNodes :: "NodeID list \<Rightarrow> SimulatedTransport \<Rightarrow> NodeID list" where
  "GetNodes ord t = ord"

definition Transport_SetNodeOnline :: "NodeID \<Rightarrow> bool \<Rightarrow> SimulatedTransport \<Rightarrow> SimulatedTransport" where
  "Transport_SetNodeOnline n online t =
     (case go_get (tr_nodes t) n of
        None \<Rightarrow> t
      | Some a \<Rightarrow> t\<lparr>tr_heap := (tr_heap t)[a := (tr_heap t ! a)\<lparr>nc_online := online\<rparr>]\<rparr>)"

definition IsNodeOnline :: "NodeID \<Rightarrow> SimulatedTransport \<Rightarrow> bool" where
  "IsNodeOnline n t = (case go_get (tr_nodes t) n of None \<Rightarrow> False | Some a \<Rightarrow> nc_online (tr_heap t ! a))"

subsection \<open>The network's faults\<close>

definition link_key :: "NodeID \<Rightarrow> NodeID \<Rightarrow> string" where
  "link_key from to = from @ ''->'' @ to"

definition SetLatency :: "NodeID \<Rightarrow> NodeID \<Rightarrow> int \<Rightarrow> SimulatedTransport \<Rightarrow> SimulatedTransport" where
  "SetLatency from to latency t = t\<lparr>tr_latencies := go_put (link_key from to) latency (tr_latencies t)\<rparr>"

definition SetPacketLoss :: "NodeID \<Rightarrow> NodeID \<Rightarrow> f64 \<Rightarrow> SimulatedTransport \<Rightarrow> SimulatedTransport" where
  "SetPacketLoss from to rate t = t\<lparr>tr_packetLoss := go_put (link_key from to) rate (tr_packetLoss t)\<rparr>"

definition CreatePartition :: "NodeID list list \<Rightarrow> SimulatedTransport \<Rightarrow> SimulatedTransport" where
  "CreatePartition groups t = t\<lparr>tr_partitions := groups\<rparr>"

definition HealPartition :: "SimulatedTransport \<Rightarrow> SimulatedTransport" where
  "HealPartition t = t\<lparr>tr_partitions := []\<rparr>"

text \<open>The group of a node as the loop finds it: the last one that lists it.\<close>

fun group_loop :: "NodeID \<Rightarrow> nat \<Rightarrow> NodeID list list \<Rightarrow> nat option \<Rightarrow> nat option" where
  "group_loop n i [] g = g"
| "group_loop n i (ns # nss) g = group_loop n (Suc i) nss (if n \<in> set ns then Some i else g)"

definition isPartitioned :: "NodeID \<Rightarrow> NodeID \<Rightarrow> SimulatedTransport \<Rightarrow> bool" where
  "isPartitioned from to t =
     (case (group_loop from 0 (tr_partitions t) None, group_loop to 0 (tr_partitions t) None) of
        (Some i, Some j) \<Rightarrow> i \<noteq> j
      | _ \<Rightarrow> False)"

subsection \<open>Sending\<close>

definition count_dropped :: "SimulatedTransport \<Rightarrow> SimulatedTransport" where
  "count_dropped t = t\<lparr>tr_stats := (tr_stats t)\<lparr>tt_MessagesDropped := tt_MessagesDropped (tr_stats t) + 1\<rparr>\<rparr>"

definition bump_node :: "(NodeTransportStats \<Rightarrow> NodeTransportStats) \<Rightarrow> NodeID \<Rightarrow> SimulatedTransport \<Rightarrow> SimulatedTransport" where
  "bump_node f n t =
     (case go_get (tt_NodeStats (tr_stats t)) n of
        None \<Rightarrow> t
      | Some x \<Rightarrow> t\<lparr>tr_stats := put_node_stats n (f x) (tr_stats t)\<rparr>)"

definition Transport_Send :: "string \<Rightarrow> f64 \<Rightarrow> Message \<Rightarrow> SimulatedTransport \<Rightarrow> SimulatedTransport" where
  "Transport_Send uid roll msg t =
     (if \<not> tr_running t \<or> \<not> IsNodeOnline (mg_To msg) t then t
      else if isPartitioned (mg_From msg) (mg_To msg) t then count_dropped t
      else
        let k = link_key (mg_From msg) (mg_To msg);
            lost = (case go_get (tr_packetLoss t) k of None \<Rightarrow> False | Some loss \<Rightarrow> f64_less roll loss)
        in if lost then bump_node (\<lambda>x. x\<lparr>nt_Dropped := nt_Dropped x + 1\<rparr>) (mg_From msg) (count_dropped t)
           else
             let msg = (if mg_ID msg = [] then msg\<lparr>mg_ID := uid\<rparr> else msg);
                 latency = (case go_get (tr_latencies t) k of None \<Rightarrow> tg_DefaultLatency (tr_config t) | Some l \<Rightarrow> l)
             in t\<lparr>tr_flights := tr_flights t @ [if 0 < latency then Asleep latency msg else Looking msg]\<rparr>)"

definition unicast :: "Broadcast \<Rightarrow> string \<Rightarrow> NodeID \<Rightarrow> Message" where
  "unicast b i n = \<lparr>mg_ID = i @ ''-'' @ n, mg_Type = bc_Type b, mg_From = bc_From b, mg_To = n, mg_Payload = bc_Payload b,
     mg_Timestamp = bc_Timestamp b, mg_Tick = 0\<rparr>"

text \<open>Other goroutines may run between the sends; here the sends come one after the other.\<close>

definition Transport_Broadcast :: "string \<Rightarrow> NodeID list \<Rightarrow> (NodeID \<Rightarrow> f64) \<Rightarrow> Broadcast \<Rightarrow> SimulatedTransport \<Rightarrow> SimulatedTransport" where
  "Transport_Broadcast uid ord roll b t =
     (let i = (if bc_ID b = [] then uid else bc_ID b)
      in fold (\<lambda>n. Transport_Send uid (roll n) (unicast b i n)) (filter (\<lambda>n. n \<noteq> bc_From b) ord) t)"

text \<open>The channel a node receives on, if the node is known.\<close>

definition Receive :: "NodeID \<Rightarrow> SimulatedTransport \<Rightarrow> nat option" where
  "Receive n t = go_get (tr_nodes t) n"

definition ResetStats :: "NodeID list \<Rightarrow> SimulatedTransport \<Rightarrow> SimulatedTransport" where
  "ResetStats ord t = t\<lparr>tr_stats := no_stats (fold (\<lambda>n. go_put n no_node_stats) ord [])\<rparr>"

subsection \<open>The goroutine of a message\<close>

definition count_sent :: "(Message \<Rightarrow> u64) \<Rightarrow> Message \<Rightarrow> SimulatedTransport \<Rightarrow> SimulatedTransport" where
  "count_sent len msg t =
     (let t = t\<lparr>tr_stats := (tr_stats t)\<lparr>tt_MessagesSent := tt_MessagesSent (tr_stats t) + 1\<rparr>\<rparr>;
          t = bump_node (\<lambda>x. x\<lparr>nt_Sent := nt_Sent x + 1\<rparr>) (mg_From msg) t;
          t = bump_node (\<lambda>x. x\<lparr>nt_Received := nt_Received x + 1\<rparr>) (mg_To msg) t
      in t\<lparr>tr_stats := (tr_stats t)\<lparr>tt_BytesSent := tt_BytesSent (tr_stats t) + len msg\<rparr>\<rparr>)"

fun flight_turn :: "(Message \<Rightarrow> u64) \<Rightarrow> flight \<Rightarrow> SimulatedTransport \<Rightarrow> (flight \<times> SimulatedTransport) go" where
  "flight_turn len (Asleep l msg) t = Inr (Looking msg, t)"
| "flight_turn len (Looking msg) t =
     (case go_get (tr_nodes t) (mg_To msg) of None \<Rightarrow> Inr (Gone, t) | Some a \<Rightarrow> Inr (AtInbox a msg, t))"
| "flight_turn len (AtInbox a msg) t =
     (let nc = tr_heap t ! a
      in if \<not> nc_online nc then Inr (Gone, t)
         else go_bind (chan_offer msg (nc_inbox nc)) (\<lambda>c.
           Inr (if length (ch_buf (nc_inbox nc)) < ch_cap (nc_inbox nc) then Delivered msg else TurnedAway,
             t\<lparr>tr_heap := (tr_heap t)[a := nc\<lparr>nc_inbox := c\<rparr>]\<rparr>)))"
| "flight_turn len (Delivered msg) t = Inr (Gone, count_sent len msg t)"
| "flight_turn len TurnedAway t = Inr (Gone, count_dropped t)"
| "flight_turn len Gone t = Inr (Gone, t)"

text \<open>The goroutine at a position takes its turn.\<close>

definition turn_at :: "(Message \<Rightarrow> u64) \<Rightarrow> nat \<Rightarrow> SimulatedTransport \<Rightarrow> SimulatedTransport go" where
  "turn_at len i t =
     go_bind (flight_turn len (tr_flights t ! i) t) (\<lambda>(f, t). Inr (t\<lparr>tr_flights := (tr_flights t)[i := f]\<rparr>))"

text \<open>A receiver takes the next message from an inbox; a closed and empty inbox gives nil.\<close>

definition take_message :: "nat \<Rightarrow> SimulatedTransport \<Rightarrow> (Message option \<times> SimulatedTransport) option" where
  "take_message a t =
     (let nc = tr_heap t ! a
      in case ch_buf (nc_inbox nc) of
           m # ms \<Rightarrow> Some (Some m, t\<lparr>tr_heap := (tr_heap t)[a := nc\<lparr>nc_inbox := (nc_inbox nc)\<lparr>ch_buf := ms\<rparr>\<rparr>]\<rparr>)
         | [] \<Rightarrow> if ch_closed (nc_inbox nc) then Some (None, t) else None)"

subsection \<open>The base node\<close>

record 'e BaseNode =
  bn_id :: NodeID
  bn_handlers :: "(string, Message \<Rightarrow> 'e option) gomap"

definition NewBaseNode :: "NodeID \<Rightarrow> 'e BaseNode" where
  "NewBaseNode i = \<lparr>bn_id = i, bn_handlers = []\<rparr>"

definition RegisterHandler :: "string \<Rightarrow> (Message \<Rightarrow> 'e option) \<Rightarrow> 'e BaseNode \<Rightarrow> 'e BaseNode" where
  "RegisterHandler ty h n = n\<lparr>bn_handlers := go_put ty h (bn_handlers n)\<rparr>"

definition BaseNode_Send :: "gtime \<Rightarrow> string \<Rightarrow> f64 \<Rightarrow> NodeID \<Rightarrow> string \<Rightarrow> byte list \<Rightarrow> 'e BaseNode \<Rightarrow> SimulatedTransport \<Rightarrow> SimulatedTransport" where
  "BaseNode_Send now uid roll to ty payload n =
     Transport_Send uid roll \<lparr>mg_ID = [], mg_Type = ty, mg_From = bn_id n, mg_To = to, mg_Payload = payload, mg_Timestamp = now, mg_Tick = 0\<rparr>"

definition BaseNode_Broadcast ::
  "gtime \<Rightarrow> string \<Rightarrow> NodeID list \<Rightarrow> (NodeID \<Rightarrow> f64) \<Rightarrow> string \<Rightarrow> byte list \<Rightarrow> 'e BaseNode \<Rightarrow> SimulatedTransport \<Rightarrow> SimulatedTransport" where
  "BaseNode_Broadcast now uid ord roll ty payload n =
     Transport_Broadcast uid ord roll \<lparr>bc_ID = [], bc_Type = ty, bc_From = bn_id n, bc_Payload = payload, bc_Timestamp = now, bc_Tick = 0\<rparr>"

text \<open>The message is a pointer: nil when it came from a closed inbox.\<close>

definition ProcessMessage :: "Message option \<Rightarrow> 'e BaseNode \<Rightarrow> 'e option go" where
  "ProcessMessage msg n = go_bind (go_deref msg) (\<lambda>m.
     case go_get (bn_handlers n) (mg_Type m) of None \<Rightarrow> Inr None | Some h \<Rightarrow> Inr (h m))"

text \<open>One turn of the loop of \<open>Start\<close> when there is something to receive; nothing when it blocks.\<close>

definition BaseNode_turn :: "'e BaseNode \<Rightarrow> SimulatedTransport \<Rightarrow> SimulatedTransport go option" where
  "BaseNode_turn n t =
     Option.bind (Receive (bn_id n) t) (\<lambda>a.
       map_option (\<lambda>(m, t). go_bind (ProcessMessage m n) (\<lambda>_. Inr t)) (take_message a t))"

end
