(* ===== verification/TransportFacts.thy ===== *)
theory TransportFacts
  imports Transport "HOL-Library.Multiset"
begin

section \<open>The simulated network: properties\<close>

text \<open>
  While a partition stands no message is added between the sides it separates, in any history of the
  network; without closing nothing panics; stopping leaves closed inboxes behind on which everything
  that is still under way panics.
\<close>

text \<open>Every node has an inbox of its own, which is open and within its capacity.\<close>

definition net_ok :: "SimulatedTransport \<Rightarrow> bool" where
  "net_ok t \<longleftrightarrow> 0 \<le> tg_BufferSize (tr_config t) \<and>
     (\<forall>n a. go_get (tr_nodes t) n = Some a \<longrightarrow> a < length (tr_heap t)) \<and>
     (\<forall>n n' a. go_get (tr_nodes t) n = Some a \<longrightarrow> go_get (tr_nodes t) n' = Some a \<longrightarrow> n = n') \<and>
     (\<forall>a < length (tr_heap t). \<not> ch_closed (nc_inbox (tr_heap t ! a)) \<and>
       length (ch_buf (nc_inbox (tr_heap t ! a))) \<le> ch_cap (nc_inbox (tr_heap t ! a))) \<and>
     (\<forall>a m. AtInbox a m \<in> set (tr_flights t) \<longrightarrow> a < length (tr_heap t))"

text \<open>The operations that close nothing, the goroutines and the receivers.\<close>

inductive net_step :: "(Message \<Rightarrow> u64) \<Rightarrow> SimulatedTransport \<Rightarrow> SimulatedTransport \<Rightarrow> bool" for len where
  start: "net_step len t (Transport_Start t)"
| add: "AddNode n t = Inr t' \<Longrightarrow> net_step len t t'"
| online: "net_step len t (Transport_SetNodeOnline n b t)"
| latency: "net_step len t (SetLatency from to l t)"
| loss: "net_step len t (SetPacketLoss from to x t)"
| part: "net_step len t (CreatePartition groups t)"
| heal: "net_step len t (HealPartition t)"
| send: "net_step len t (Transport_Send uid roll m t)"
| bcast: "net_step len t (Transport_Broadcast uid ord rolls b t)"
| reset: "net_step len t (ResetStats ord t)"
| turn: "i < length (tr_flights t) \<Longrightarrow> turn_at len i t = Inr t' \<Longrightarrow> net_step len t t'"
| receive: "a < length (tr_heap t) \<Longrightarrow> take_message a t = Some (m, t') \<Longrightarrow> net_step len t t'"

inductive_cases net_stepE: "net_step len t t'"

lemma count_simps [simp]:
  "tr_heap (count_dropped t) = tr_heap t" "tr_nodes (count_dropped t) = tr_nodes t" "tr_flights (count_dropped t) = tr_flights t"
  "tr_partitions (count_dropped t) = tr_partitions t" "tr_config (count_dropped t) = tr_config t"
  "tr_heap (bump_node f n t) = tr_heap t" "tr_nodes (bump_node f n t) = tr_nodes t" "tr_flights (bump_node f n t) = tr_flights t"
  "tr_partitions (bump_node f n t) = tr_partitions t" "tr_config (bump_node f n t) = tr_config t"
  "tr_heap (count_sent len m t) = tr_heap t" "tr_nodes (count_sent len m t) = tr_nodes t" "tr_flights (count_sent len m t) = tr_flights t"
  "tr_partitions (count_sent len m t) = tr_partitions t" "tr_config (count_sent len m t) = tr_config t"
  by (simp_all add: count_dropped_def bump_node_def count_sent_def Let_def split: option.splits)

text \<open>A send changes nothing but the statistics, unless it starts a goroutine for its message, and
  then the two ends were not separated.\<close>

definition same_net :: "SimulatedTransport \<Rightarrow> SimulatedTransport \<Rightarrow> bool" where
  "same_net t t' \<longleftrightarrow> tr_heap t' = tr_heap t \<and> tr_nodes t' = tr_nodes t \<and> tr_partitions t' = tr_partitions t \<and> tr_config t' = tr_config t"

lemma Send_cases:
  "same_net t (Transport_Send uid roll m t) \<and>
   (tr_flights (Transport_Send uid roll m t) = tr_flights t \<or>
    (\<exists>m' f. (f = Looking m' \<or> (\<exists>l. f = Asleep l m')) \<and> mg_From m' = mg_From m \<and> mg_To m' = mg_To m \<and>
      tr_flights (Transport_Send uid roll m t) = tr_flights t @ [f] \<and> \<not> isPartitioned (mg_From m) (mg_To m) t))"
  by (auto simp: same_net_def Transport_Send_def Let_def)

lemma net_ok_flight:
  assumes "net_ok t" and "same_net t t'" and "tr_flights t' = tr_flights t @ fs" and "\<forall>a m. AtInbox a m \<notin> set fs"
  shows "net_ok t'"
  using assms by (auto simp: net_ok_def same_net_def)

lemma Send_ok: "net_ok t \<Longrightarrow> net_ok (Transport_Send uid roll m t)"
  using Send_cases [of t uid roll m] net_ok_flight [of t "Transport_Send uid roll m t" "[]"]
  by (auto intro: net_ok_flight)

lemma sends_ok: "net_ok t \<Longrightarrow> net_ok (fold (\<lambda>n. Transport_Send uid (r n) (u n)) ns t)"
  by (induction ns arbitrary: t) (simp_all add: Send_ok)

lemma net_ok_put:
  assumes "net_ok t" and "a < length (tr_heap t) \<longrightarrow> \<not> ch_closed (nc_inbox nc) \<and> length (ch_buf (nc_inbox nc)) \<le> ch_cap (nc_inbox nc)"
  shows "net_ok (t\<lparr>tr_heap := (tr_heap t)[a := nc]\<rparr>)"
  using assms by (cases "a < length (tr_heap t)") (auto simp: net_ok_def nth_list_update)

lemma net_ok_flights:
  assumes "net_ok t" and "\<forall>a m. f = AtInbox a m \<longrightarrow> a < length (tr_heap t)"
  shows "net_ok (t\<lparr>tr_flights := (tr_flights t)[i := f]\<rparr>)"
  using assms by (auto simp: net_ok_def dest!: set_update_subset_insert [THEN subsetD])

lemma net_ok_inbox: "net_ok t \<Longrightarrow> a < length (tr_heap t) \<Longrightarrow>
    \<not> ch_closed (nc_inbox (tr_heap t ! a)) \<and> length (ch_buf (nc_inbox (tr_heap t ! a))) \<le> ch_cap (nc_inbox (tr_heap t ! a))"
  by (simp add: net_ok_def)

lemma net_ok_same: "net_ok t \<Longrightarrow> same_net t t' \<Longrightarrow> tr_flights t' = tr_flights t \<Longrightarrow> net_ok t'"
  by (simp add: net_ok_def same_net_def)

lemma flight_turn_ok:
  assumes "net_ok t" and "i < length (tr_flights t)"
  shows "\<exists>t'. turn_at len i t = Inr t' \<and> net_ok t'"
proof (cases "tr_flights t ! i")
  case (AtInbox a m)
  have a: "a < length (tr_heap t)" using assms AtInbox by (metis net_ok_def nth_mem)
  note ib = net_ok_inbox [OF assms(1) a]
  have put: "net_ok (t\<lparr>tr_heap := (tr_heap t)[a := nc]\<rparr>)"
    if "\<not> ch_closed (nc_inbox nc)" "length (ch_buf (nc_inbox nc)) \<le> ch_cap (nc_inbox nc)" for nc
    using net_ok_put [OF assms(1)] that by blast
  show ?thesis
  proof (cases "nc_online (tr_heap t ! a) \<and> length (ch_buf (nc_inbox (tr_heap t ! a))) < ch_cap (nc_inbox (tr_heap t ! a))")
    case True
    with AtInbox ib show ?thesis
      using net_ok_flights [OF put [of "(tr_heap t ! a)\<lparr>nc_inbox := (nc_inbox (tr_heap t ! a))\<lparr>ch_buf := ch_buf (nc_inbox (tr_heap t ! a)) @ [m]\<rparr>\<rparr>"], of "Delivered m" i]
      by (simp add: turn_at_def chan_offer_def Let_def)
  next
    case False
    with AtInbox ib show ?thesis
      using net_ok_flights [OF assms(1), of Gone i] net_ok_flights [OF assms(1), of TurnedAway i]
      by (auto simp: turn_at_def chan_offer_def Let_def)
  qed
next
  case (Looking m)
  have "a < length (tr_heap t)" if "go_get (tr_nodes t) n = Some a" for n a using assms(1) that by (auto simp: net_ok_def)
  with Looking net_ok_flights [OF assms(1)] show ?thesis by (simp add: turn_at_def split: option.split)
next
  case (Delivered m)
  have "net_ok (count_sent len m t)" by (rule net_ok_same [OF assms(1)]) (simp_all add: same_net_def)
  from net_ok_flights [OF this, of Gone i] Delivered show ?thesis by (simp add: turn_at_def)
next
  case TurnedAway
  have "net_ok (count_dropped t)" by (rule net_ok_same [OF assms(1)]) (simp_all add: same_net_def)
  from net_ok_flights [OF this, of Gone i] TurnedAway show ?thesis by (simp add: turn_at_def)
qed (use net_ok_flights [OF assms(1)] in \<open>simp_all add: turn_at_def\<close>)

lemma AddNode_ok:
  assumes "net_ok t"
  shows "\<exists>t'. AddNode n t = Inr t' \<and> net_ok t'"
proof (cases "go_get (tr_nodes t) n")
  case None
  have below: "go_get (tr_nodes t) k \<noteq> Some (length (tr_heap t))" for k using assms by (auto simp: net_ok_def)
  have cfg: "0 \<le> tg_BufferSize (tr_config t)" using assms by (simp add: net_ok_def)
  then have r: "AddNode n t = Inr (t\<lparr>tr_heap := tr_heap t @ [\<lparr>nc_inbox = \<lparr>ch_buf = [], ch_cap = nat (tg_BufferSize (tr_config t)), ch_closed = False\<rparr>,
              nc_online = True\<rparr>],
            tr_nodes := go_put n (length (tr_heap t)) (tr_nodes t),
            tr_stats := put_node_stats n no_node_stats (tr_stats t)\<rparr>)" (is "_ = Inr ?t")
    using None by (simp add: AddNode_def)
  have "net_ok ?t"
    using assms below unfolding net_ok_def by (auto simp: nth_append less_Suc_eq split: if_splits)
  with r show ?thesis by blast
qed (use assms in \<open>simp add: AddNode_def\<close>)

lemma net_ok_step:
  assumes "net_step len t t'" and "net_ok t"
  shows "net_ok t'"
  using assms
proof (cases rule: net_step.cases)
  case (add n)
  then show ?thesis using AddNode_ok [OF assms(2), of n] by auto
next
  case (online n b)
  then show ?thesis using assms(2) net_ok_put [OF assms(2)] net_ok_inbox [OF assms(2)]
    by (auto simp: Transport_SetNodeOnline_def split: option.splits)
next
  case (send uid roll m)
  then show ?thesis using assms(2) by (simp add: Send_ok)
next
  case (bcast uid ord rolls b)
  then show ?thesis using assms(2) by (simp add: Transport_Broadcast_def Let_def sends_ok)
next
  case (turn i)
  then show ?thesis using flight_turn_ok [OF assms(2), of i len] by auto
next
  case (receive a m)
  then show ?thesis using net_ok_put [OF assms(2), of a] net_ok_inbox [OF assms(2), of a]
    by (auto simp: take_message_def Let_def split: list.splits if_splits)
qed (simp_all add: net_ok_def Transport_Start_def SetLatency_def SetPacketLoss_def CreatePartition_def HealPartition_def ResetStats_def)

interpretation net: step_system net_ok "net_step len" net_ok for len
  by unfold_locales (auto intro: net_ok_step)

text \<open>As long as nothing is stopped or removed, no goroutine of the network panics, in any interleaving
  of sends, deliveries and receptions; every inbox stays within its capacity.\<close>

theorem Transport_never_panics:
  assumes "0 \<le> tg_BufferSize config" and "(net_step len)\<^sup>*\<^sup>* (NewSimulatedTransport config) t"
  shows "(\<forall>i < length (tr_flights t). \<exists>t'. turn_at len i t = Inr t') \<and> (\<forall>n. \<exists>t'. AddNode n t = Inr t') \<and>
    (\<forall>a < length (tr_heap t). length (ch_buf (nc_inbox (tr_heap t ! a))) \<le> ch_cap (nc_inbox (tr_heap t ! a)))"
proof -
  have "net_ok (NewSimulatedTransport config)" using assms(1) by (simp add: net_ok_def NewSimulatedTransport_def Let_def)
  then have ok: "net_ok t" using net.steps_inv [OF assms(2)] by blast
  show ?thesis using flight_turn_ok [OF ok] AddNode_ok [OF ok] net_ok_inbox [OF ok] by blast
qed

subsection \<open>A partition that stands\<close>

text \<open>All the steps: those that close nothing, the removal of a node and the stop.\<close>

inductive any_step :: "(Message \<Rightarrow> u64) \<Rightarrow> SimulatedTransport \<Rightarrow> SimulatedTransport \<Rightarrow> bool" for len where
  net: "net_step len t t' \<Longrightarrow> any_step len t t'"
| remove: "RemoveNode n t = Inr t' \<Longrightarrow> any_step len t t'"
| stop: "Transport_Stop ord t = Inr t' \<Longrightarrow> any_step len t t'"

text \<open>The steps while the partition stands.\<close>

definition standing_step :: "(Message \<Rightarrow> u64) \<Rightarrow> SimulatedTransport \<Rightarrow> SimulatedTransport \<Rightarrow> bool" where
  "standing_step len t t' \<longleftrightarrow> any_step len t t' \<and> tr_partitions t' = tr_partitions t"

text \<open>The messages under way and those that wait in an inbox, with their multiplicity.\<close>

fun carried :: "flight \<Rightarrow> Message multiset" where
  "carried (Asleep l m) = {#m#}"
| "carried (Looking m) = {#m#}"
| "carried (AtInbox a m) = {#m#}"
| "carried _ = {#}"

definition waiting :: "nodeChannel \<Rightarrow> Message multiset" where
  "waiting nc = mset (ch_buf (nc_inbox nc))"

definition traffic :: "SimulatedTransport \<Rightarrow> Message multiset" where
  "traffic t = (\<Sum>f \<leftarrow> tr_flights t. carried f) + (\<Sum>nc \<leftarrow> tr_heap t. waiting nc)"

lemma waiting_upd [simp]:
  "waiting (nc\<lparr>nc_online := b\<rparr>) = waiting nc"
  "waiting (nc\<lparr>nc_inbox := c\<rparr>) = mset (ch_buf c)"
  by (simp_all add: waiting_def)

lemma upd_nth: "j < length xs \<Longrightarrow> xs[i := x] ! j = (if j = i then x else xs ! j)"
  by (cases "i = j") auto

lemma sum_upd:
  fixes f :: "'a \<Rightarrow> 'b multiset"
  assumes "i < length xs"
  shows "(\<Sum>x \<leftarrow> xs[i := y]. f x) + f (xs ! i) = (\<Sum>x \<leftarrow> xs. f x) + f y"
proof -
  have "(\<Sum>x \<leftarrow> xs. f x) = (\<Sum>x \<leftarrow> take i xs @ xs ! i # drop (Suc i) xs. f x)"
    using id_take_nth_drop [OF assms] by simp
  then show ?thesis by (simp add: upd_conv_take_nth_drop [OF assms])
qed

lemma sum_upd_le:
  fixes f :: "'a \<Rightarrow> 'b multiset"
  assumes "i < length xs \<Longrightarrow> f y \<subseteq># f (xs ! i) + A"
  shows "(\<Sum>x \<leftarrow> xs[i := y]. f x) \<subseteq># (\<Sum>x \<leftarrow> xs. f x) + A"
proof (cases "i < length xs")
  case True
  have "(\<Sum>x \<leftarrow> xs[i := y]. f x) + f (xs ! i) \<subseteq># (\<Sum>x \<leftarrow> xs. f x) + (f (xs ! i) + A)"
    unfolding sum_upd [OF True] by (rule subset_mset.add_left_mono [OF assms [OF True]])
  then have "(\<Sum>x \<leftarrow> xs[i := y]. f x) + f (xs ! i) \<subseteq># ((\<Sum>x \<leftarrow> xs. f x) + A) + f (xs ! i)" by (simp only: ac_simps)
  then show ?thesis by (simp only: subset_mset.add_le_cancel_right)
qed (simp add: list_update_beyond)

text \<open>The nodes a partition separates.\<close>

definition apart :: "NodeID list list \<Rightarrow> NodeID \<Rightarrow> NodeID \<Rightarrow> bool" where
  "apart P m n \<longleftrightarrow> (case (group_loop m 0 P None, group_loop n 0 P None) of (Some i, Some j) \<Rightarrow> i \<noteq> j | _ \<Rightarrow> False)"

lemma isPartitioned_apart: "isPartitioned m n t = apart (tr_partitions t) m n"
  by (simp add: isPartitioned_def apart_def)

text \<open>The part of the traffic between nodes that a partition separates, and steps that add nothing to it.\<close>

definition crossing :: "NodeID list list \<Rightarrow> SimulatedTransport \<Rightarrow> Message multiset" where
  "crossing P t = filter_mset (\<lambda>m. apart P (mg_From m) (mg_To m)) (traffic t)"

definition no_more :: "NodeID list list \<Rightarrow> SimulatedTransport \<Rightarrow> SimulatedTransport \<Rightarrow> bool" where
  "no_more P t t' \<longleftrightarrow> crossing P t' \<subseteq># crossing P t"

lemma no_more_refl [simp]: "no_more P t t"
  by (simp add: no_more_def)

lemma no_more_trans: "no_more P t t' \<Longrightarrow> no_more P t' t'' \<Longrightarrow> no_more P t t''"
  unfolding no_more_def by (rule subset_mset.order_trans)

lemma no_more_le: "traffic t' \<subseteq># traffic t \<Longrightarrow> no_more P t t'"
  unfolding no_more_def crossing_def by (rule multiset_filter_mono)

lemma no_more_same: "tr_heap t' = tr_heap t \<Longrightarrow> tr_flights t' = tr_flights t \<Longrightarrow> no_more P t t'"
  by (simp add: no_more_le traffic_def)

lemma heap_le: "(a < length (tr_heap t) \<Longrightarrow> waiting nc \<subseteq># waiting (tr_heap t ! a)) \<Longrightarrow> traffic (t\<lparr>tr_heap := (tr_heap t)[a := nc]\<rparr>) \<subseteq># traffic t"
  using sum_upd_le [of a "tr_heap t" waiting nc "{#}"] by (simp add: traffic_def)

lemma Send_no_more:
  assumes "P = tr_partitions t"
  shows "no_more P t (Transport_Send uid roll m t)"
proof -
  have net: "same_net t (Transport_Send uid roll m t)" using Send_cases by blast
  consider (same) "tr_flights (Transport_Send uid roll m t) = tr_flights t"
    | (flies) m' f where "f = Looking m' \<or> (\<exists>l. f = Asleep l m')" "mg_From m' = mg_From m" "mg_To m' = mg_To m"
        "tr_flights (Transport_Send uid roll m t) = tr_flights t @ [f]" "\<not> isPartitioned (mg_From m) (mg_To m) t"
    using Send_cases [of t uid roll m] by blast
  then show ?thesis
  proof cases
    case same
    with net show ?thesis by (simp add: no_more_same same_net_def)
  next
    case flies
    have "carried f = {#m'#}" using flies(1) by auto
    then have "traffic (Transport_Send uid roll m t) = traffic t + {#m'#}"
      using net flies(4) by (simp add: traffic_def same_net_def)
    moreover have "\<not> apart P (mg_From m') (mg_To m')" using flies(2,3,5) assms by (simp add: isPartitioned_apart)
    ultimately show ?thesis by (simp add: no_more_def crossing_def)
  qed
qed

lemma sends_no_more:
  "P = tr_partitions t \<Longrightarrow> no_more P t (fold (\<lambda>n. Transport_Send uid (r n) (u n)) ns t)"
proof (induction ns arbitrary: t)
  case (Cons n ns)
  have "tr_partitions (Transport_Send uid (r n) (u n) t) = tr_partitions t"
    using Send_cases [of t uid "r n" "u n"] by (simp add: same_net_def)
  with Cons.IH [of "Transport_Send uid (r n) (u n) t"] no_more_trans [OF Send_no_more [OF Cons.prems]] Cons.prems
  show ?case by simp
qed simp

lemma flights_le:
  assumes "i < length (tr_flights t)" and "carried f \<subseteq># carried (tr_flights t ! i)" and "tr_heap t' = tr_heap t"
    and "tr_flights t' = tr_flights t"
  shows "traffic (t'\<lparr>tr_flights := (tr_flights t')[i := f]\<rparr>) \<subseteq># traffic t"
  using sum_upd_le [of i "tr_flights t" carried f "{#}"] assms by (simp add: traffic_def)

lemma turn_le:
  assumes "i < length (tr_flights t)" and "turn_at len i t = Inr t'"
  shows "traffic t' \<subseteq># traffic t"
proof (cases "tr_flights t ! i")
  case (AtInbox a m)
  let ?nc = "tr_heap t ! a"
  show ?thesis
  proof (cases "nc_online ?nc \<and> length (ch_buf (nc_inbox ?nc)) < ch_cap (nc_inbox ?nc)")
    case True
    let ?h = "(tr_heap t)[a := ?nc\<lparr>nc_inbox := (nc_inbox ?nc)\<lparr>ch_buf := ch_buf (nc_inbox ?nc) @ [m]\<rparr>\<rparr>]"
    let ?f = "(tr_flights t)[i := Delivered m]"
    have t': "t' = t\<lparr>tr_heap := ?h, tr_flights := ?f\<rparr>"
      using assms(2) AtInbox True by (simp add: turn_at_def chan_offer_def Let_def split: if_splits)
    have f: "(\<Sum>f \<leftarrow> ?f. carried f) + {#m#} = (\<Sum>f \<leftarrow> tr_flights t. carried f)"
      using sum_upd [OF assms(1), of carried "Delivered m"] AtInbox by simp
    have h: "(\<Sum>nc \<leftarrow> ?h. waiting nc) \<subseteq># (\<Sum>nc \<leftarrow> tr_heap t. waiting nc) + {#m#}"
      by (rule sum_upd_le) (simp add: waiting_def)
    have "(\<Sum>f \<leftarrow> ?f. carried f) + (\<Sum>nc \<leftarrow> ?h. waiting nc)
        \<subseteq># (\<Sum>f \<leftarrow> ?f. carried f) + ((\<Sum>nc \<leftarrow> tr_heap t. waiting nc) + {#m#})"
      using h by (rule subset_mset.add_left_mono)
    also have "\<dots> = traffic t" unfolding traffic_def f [symmetric] by (simp add: ac_simps)
    finally show ?thesis by (simp add: t' traffic_def)
  next
    case False
    then have "t' = t\<lparr>tr_flights := (tr_flights t)[i := Gone]\<rparr> \<or>
        t' = t\<lparr>tr_heap := (tr_heap t)[a := ?nc], tr_flights := (tr_flights t)[i := TurnedAway]\<rparr>"
      using assms(2) AtInbox by (auto simp: turn_at_def chan_offer_def Let_def go_bind_eq_Inr split: if_splits)
    moreover have "(tr_heap t)[a := ?nc] = tr_heap t" by simp
    ultimately show ?thesis
      using flights_le [OF assms(1), of Gone t] flights_le [OF assms(1), of TurnedAway t] by auto
  qed
next
  case (Looking m)
  then have "t' = t\<lparr>tr_flights := (tr_flights t)[i := Gone]\<rparr> \<or>
      (\<exists>a. t' = t\<lparr>tr_flights := (tr_flights t)[i := AtInbox a m]\<rparr>)"
    using assms(2) by (auto simp: turn_at_def split: option.splits)
  then show ?thesis using Looking flights_le [OF assms(1), of _ t] by auto
next
  case (Delivered m)
  then show ?thesis using assms(2) flights_le [OF assms(1), of Gone "count_sent len m t"] by (auto simp: turn_at_def)
next
  case TurnedAway
  then show ?thesis using assms(2) flights_le [OF assms(1), of Gone "count_dropped t"] by (auto simp: turn_at_def)
qed (use assms(2) flights_le [OF assms(1), of _ t] in \<open>auto simp: turn_at_def\<close>)

lemma take_message_cases:
  assumes "take_message a t = Some (m, t')"
  obtains "t' = t"
    | x ms where "ch_buf (nc_inbox (tr_heap t ! a)) = x # ms"
        "t' = t\<lparr>tr_heap := (tr_heap t)[a := (tr_heap t ! a)\<lparr>nc_inbox := (nc_inbox (tr_heap t ! a))\<lparr>ch_buf := ms\<rparr>\<rparr>]\<rparr>"
  using assms by (auto simp: take_message_def Let_def split: list.splits if_splits)

text \<open>Closing an inbox keeps what waits in it, and what is under way.\<close>

lemma close_inbox_result:
  assumes "close_inbox a t = Inr t'"
  shows "a < length (tr_heap t) \<and>
    t' = t\<lparr>tr_heap := (tr_heap t)[a := (tr_heap t ! a)\<lparr>nc_inbox := (nc_inbox (tr_heap t ! a))\<lparr>ch_closed := True\<rparr>\<rparr>]\<rparr>"
  using assms by (auto simp: close_inbox_def chan_close_def go_bind_eq_Inr split: if_splits)

lemma close_inbox_le: "close_inbox a t = Inr t' \<Longrightarrow> traffic t' \<subseteq># traffic t"
  using close_inbox_result [of a t t'] heap_le [of a t] by (auto simp: waiting_def)

lemma close_inboxes_le: "close_inboxes as t = Inr t' \<Longrightarrow> traffic t' \<subseteq># traffic t"
proof (induction as arbitrary: t)
  case (Cons a as)
  then obtain t1 where "close_inbox a t = Inr t1" "close_inboxes as t1 = Inr t'" by (auto simp: go_bind_eq_Inr)
  with Cons.IH close_inbox_le show ?case by (metis subset_mset.order_trans)
qed simp

lemma step_no_more:
  assumes "any_step len t t'" and P: "P = tr_partitions t"
  shows "no_more P t t'"
  using assms(1)
proof cases
  case net
  then show ?thesis
  proof (cases rule: net_step.cases)
    case (add n)
    then show ?thesis by (auto simp: AddNode_def traffic_def waiting_def intro!: no_more_le split: if_splits)
  next
    case (online n b)
    have "traffic (t\<lparr>tr_heap := (tr_heap t)[a := (tr_heap t ! a)\<lparr>nc_online := b\<rparr>]\<rparr>) \<subseteq># traffic t" for a
      by (rule heap_le) simp
    with online show ?thesis by (auto simp: Transport_SetNodeOnline_def no_more_le split: option.split)
  next
    case (send uid roll m)
    with Send_no_more [OF P] show ?thesis by simp
  next
    case (bcast uid ord rolls b)
    with sends_no_more [OF P] show ?thesis by (simp add: Transport_Broadcast_def Let_def split del: if_split)
  next
    case (turn i)
    with turn_le show ?thesis by (blast intro: no_more_le)
  next
    case (receive a m)
    from receive(2) show ?thesis
    proof (cases rule: take_message_cases)
      case (2 x ms)
      then have "waiting ((tr_heap t ! a)\<lparr>nc_inbox := (nc_inbox (tr_heap t ! a))\<lparr>ch_buf := ms\<rparr>\<rparr>) \<subseteq># waiting (tr_heap t ! a)"
        by (simp add: waiting_def)
      then show ?thesis unfolding 2(2) by (intro no_more_le heap_le)
    qed simp
  qed (simp_all add: Transport_Start_def SetLatency_def SetPacketLoss_def CreatePartition_def HealPartition_def ResetStats_def no_more_same)
next
  case (remove n)
  then show ?thesis
  proof (cases "go_get (tr_nodes t) n")
    case (Some a)
    with remove obtain t1 where t1: "close_inbox a t = Inr t1" "tr_heap t' = tr_heap t1" "tr_flights t' = tr_flights t1"
      by (auto simp: RemoveNode_def go_bind_eq_Inr)
    show ?thesis using no_more_trans [OF no_more_le [OF close_inbox_le [OF t1(1)]] no_more_same [OF t1(2,3)]] .
  qed (simp add: RemoveNode_def)
next
  case (stop ord)
  then have "traffic t' \<subseteq># traffic (t\<lparr>tr_running := False\<rparr>)" unfolding Transport_Stop_def by (rule close_inboxes_le)
  then show ?thesis by (intro no_more_le) (simp add: traffic_def)
qed

interpretation standing: step_system "\<lambda>s. s = t" "standing_step len" "\<lambda>s. tr_partitions s = tr_partitions t \<and> no_more (tr_partitions t) t s" for t len
  by unfold_locales (auto simp: standing_step_def dest!: step_no_more [OF _ sym] intro: no_more_trans)

text \<open>A message waits in the inbox of the node it is for, and stands in front of no other.\<close>

definition well_addressed :: "SimulatedTransport \<Rightarrow> bool" where
  "well_addressed t \<longleftrightarrow>
     (\<forall>n a. go_get (tr_nodes t) n = Some a \<longrightarrow> a < length (tr_heap t)) \<and>
     (\<forall>n n' a. go_get (tr_nodes t) n = Some a \<longrightarrow> go_get (tr_nodes t) n' = Some a \<longrightarrow> n = n') \<and>
     (\<forall>a m. AtInbox a m \<in> set (tr_flights t) \<longrightarrow> a < length (tr_heap t)) \<and>
     (\<forall>a m n. AtInbox a m \<in> set (tr_flights t) \<longrightarrow> go_get (tr_nodes t) n = Some a \<longrightarrow> mg_To m = n) \<and>
     (\<forall>n a m. go_get (tr_nodes t) n = Some a \<longrightarrow> m \<in> set (ch_buf (nc_inbox (tr_heap t ! a))) \<longrightarrow> mg_To m = n)"

lemma addressed_inbox:
  "well_addressed t \<Longrightarrow> go_get (tr_nodes t) n = Some a \<Longrightarrow> m \<in> set (ch_buf (nc_inbox (tr_heap t ! a))) \<Longrightarrow> mg_To m = n"
  by (simp add: well_addressed_def)

lemma addressed_flights:
  assumes "well_addressed t"
    and "\<And>a m. f = AtInbox a m \<Longrightarrow> a < length (tr_heap t) \<and> (\<forall>n. go_get (tr_nodes t) n = Some a \<longrightarrow> mg_To m = n)"
  shows "well_addressed (t\<lparr>tr_flights := (tr_flights t)[i := f]\<rparr>)"
  using assms unfolding well_addressed_def by (auto dest!: set_update_subset_insert [THEN subsetD])

lemma addressed_heap:
  assumes "well_addressed t"
    and "\<And>n m. go_get (tr_nodes t) n = Some a \<Longrightarrow> m \<in> set (ch_buf (nc_inbox nc)) \<Longrightarrow> mg_To m = n"
  shows "well_addressed (t\<lparr>tr_heap := (tr_heap t)[a := nc]\<rparr>)"
proof -
  have "a' < length (tr_heap t)" if "go_get (tr_nodes t) n = Some a'" for n a'
    using assms(1) that by (auto simp: well_addressed_def)
  with assms show ?thesis unfolding well_addressed_def by (auto simp: upd_nth split: if_splits)
qed

lemma addressed_same:
  assumes "well_addressed t" and "tr_heap t' = tr_heap t" and "tr_nodes t' = tr_nodes t"
    and "set (tr_flights t') \<subseteq> insert f (set (tr_flights t))" and "\<And>a m. f \<noteq> AtInbox a m"
  shows "well_addressed t'"
proof -
  have "AtInbox a m \<in> set (tr_flights t)" if "AtInbox a m \<in> set (tr_flights t')" for a m
    using assms(4,5) that by (metis insert_iff subsetD)
  with assms(1) show ?thesis unfolding well_addressed_def assms(2,3) by blast
qed

lemma addressed_eq:
  "well_addressed t \<Longrightarrow> tr_heap t' = tr_heap t \<Longrightarrow> tr_nodes t' = tr_nodes t \<Longrightarrow> tr_flights t' = tr_flights t \<Longrightarrow> well_addressed t'"
  by (simp add: well_addressed_def)

lemma Send_addressed: "well_addressed t \<Longrightarrow> well_addressed (Transport_Send uid roll m t)"
proof -
  assume ok: "well_addressed t"
  consider (same) "tr_flights (Transport_Send uid roll m t) = tr_flights t"
    | (flies) m' f where "f = Looking m' \<or> (\<exists>l. f = Asleep l m')" "tr_flights (Transport_Send uid roll m t) = tr_flights t @ [f]"
    using Send_cases [of t uid roll m] by blast
  then show ?thesis
  proof cases
    case same
    with Send_cases [of t uid roll m] show ?thesis by (auto simp: same_net_def intro: addressed_eq [OF ok])
  next
    case flies
    with Send_cases [of t uid roll m] show ?thesis
      by (intro addressed_same [OF ok, of _ f]) (auto simp: same_net_def)
  qed
qed

lemma sends_addressed: "well_addressed t \<Longrightarrow> well_addressed (fold (\<lambda>n. Transport_Send uid (r n) (u n)) ns t)"
  by (induction ns arbitrary: t) (simp_all add: Send_addressed)

lemma turn_addressed:
  assumes "well_addressed t" and "i < length (tr_flights t)" and "turn_at len i t = Inr t'"
  shows "well_addressed t'"
proof (cases "tr_flights t ! i")
  case (AtInbox a m)
  then have m: "go_get (tr_nodes t) n = Some a \<Longrightarrow> mg_To m = n" for n
    using assms(1,2) unfolding well_addressed_def by (metis nth_mem)
  obtain nc f where t': "t' = (t\<lparr>tr_heap := (tr_heap t)[a := nc]\<rparr>)\<lparr>tr_flights := (tr_flights t)[i := f]\<rparr>"
    and f: "\<And>a m. f \<noteq> AtInbox a m" and nc: "set (ch_buf (nc_inbox nc)) \<subseteq> insert m (set (ch_buf (nc_inbox (tr_heap t ! a))))"
  proof (cases "nc_online (tr_heap t ! a)")
    case True
    with AtInbox assms(3) show thesis
      by (intro that [of "if length (ch_buf (nc_inbox (tr_heap t ! a))) < ch_cap (nc_inbox (tr_heap t ! a)) then Delivered m else TurnedAway"
            "(tr_heap t ! a)\<lparr>nc_inbox := (case chan_offer m (nc_inbox (tr_heap t ! a)) of Inr c \<Rightarrow> c)\<rparr>"])
        (auto simp: turn_at_def chan_offer_def Let_def split: if_splits)
  next
    case False
    with AtInbox assms(3) show thesis
      by (intro that [of Gone "tr_heap t ! a"]) (auto simp: turn_at_def Let_def)
  qed
  have "well_addressed (t\<lparr>tr_heap := (tr_heap t)[a := nc]\<rparr>)"
    by (rule addressed_heap [OF assms(1)]) (use nc m addressed_inbox [OF assms(1)] in blast)
  from addressed_flights [OF this, of f i] f show ?thesis by (simp add: t')
next
  case (Looking m)
  have "a < length (tr_heap t)" "\<And>n'. go_get (tr_nodes t) n' = Some a \<Longrightarrow> n = n'" if "go_get (tr_nodes t) n = Some a" for n a
    using assms(1) that unfolding well_addressed_def by blast+
  with Looking assms(3) show ?thesis
    by (auto simp: turn_at_def intro!: addressed_flights [OF assms(1)] split: option.splits)
next
  case (Delivered m)
  have "well_addressed (count_sent len m t)" by (rule addressed_eq [OF assms(1)]) simp_all
  from addressed_flights [OF this, of Gone i] Delivered assms(3) show ?thesis by (auto simp: turn_at_def)
next
  case TurnedAway
  have "well_addressed (count_dropped t)" by (rule addressed_eq [OF assms(1)]) simp_all
  from addressed_flights [OF this, of Gone i] TurnedAway assms(3) show ?thesis by (auto simp: turn_at_def)
qed (use addressed_flights [OF assms(1)] assms(3) in \<open>auto simp: turn_at_def\<close>)

lemma AddNode_addressed:
  assumes "well_addressed t" and "AddNode n t = Inr t'"
  shows "well_addressed t'"
proof (cases "go_get (tr_nodes t) n")
  case None
  have below: "go_get (tr_nodes t) k \<noteq> Some (length (tr_heap t))" for k using assms(1) by (auto simp: well_addressed_def)
  have flights: "AtInbox (length (tr_heap t)) m \<notin> set (tr_flights t)" for m using assms(1) by (auto simp: well_addressed_def)
  obtain nc st where "t' = t\<lparr>tr_heap := tr_heap t @ [nc], tr_nodes := go_put n (length (tr_heap t)) (tr_nodes t), tr_stats := st\<rparr>"
      "ch_buf (nc_inbox nc) = []"
    using assms(2) None by (auto simp: AddNode_def split: if_splits)
  with assms(1) below flights show ?thesis
    unfolding well_addressed_def by (auto simp: nth_append less_Suc_eq split: if_splits)
qed (use assms in \<open>simp add: AddNode_def\<close>)

lemma close_addressed: "close_inbox a t = Inr t' \<Longrightarrow> well_addressed t \<Longrightarrow> well_addressed t' \<and> tr_nodes t' = tr_nodes t"
  using close_inbox_result [of a t t'] by (auto intro!: addressed_heap dest: addressed_inbox)

lemma closes_addressed: "close_inboxes as t = Inr t' \<Longrightarrow> well_addressed t \<Longrightarrow> well_addressed t'"
  by (induction as arbitrary: t) (auto simp: go_bind_eq_Inr dest: close_addressed)

lemma addressed_step:
  assumes "any_step len t t'" and ok: "well_addressed t"
  shows "well_addressed t'"
  using assms(1)
proof cases
  case net
  then show ?thesis
  proof (cases rule: net_step.cases)
    case (add n)
    with AddNode_addressed [OF ok] show ?thesis by blast
  next
    case (online n b)
    with ok show ?thesis
      by (auto simp: Transport_SetNodeOnline_def intro!: addressed_heap dest: addressed_inbox split: option.split)
  next
    case (send uid roll m)
    with Send_addressed [OF ok] show ?thesis by simp
  next
    case (bcast uid ord rolls b)
    with sends_addressed [OF ok] show ?thesis by (simp add: Transport_Broadcast_def Let_def split del: if_split)
  next
    case (turn i)
    with turn_addressed [OF ok] show ?thesis by blast
  next
    case (receive a m)
    from receive(2) show ?thesis
    proof (cases rule: take_message_cases)
      case (2 x ms)
      show ?thesis unfolding 2(2)
        by (rule addressed_heap [OF ok]) (use 2(1) addressed_inbox [OF ok] in simp)
    qed (use ok in simp)
  qed (simp_all add: Transport_Start_def SetLatency_def SetPacketLoss_def CreatePartition_def HealPartition_def ResetStats_def
      addressed_eq [OF ok])
next
  case (remove n)
  show ?thesis
  proof (cases "go_get (tr_nodes t) n")
    case (Some a)
    with remove obtain t1 where t1: "close_inbox a t = Inr t1" "tr_nodes t' = go_del n (tr_nodes t1)"
        "tr_heap t' = tr_heap t1" "tr_flights t' = tr_flights t1"
      by (auto simp: RemoveNode_def go_bind_eq_Inr)
    have "go_get (go_del n (tr_nodes t1)) k = Some b \<Longrightarrow> go_get (tr_nodes t1) k = Some b" for k b
      by (cases "k = n") simp_all
    with close_addressed [OF t1(1) ok] show ?thesis unfolding well_addressed_def t1(2-4) by blast
  qed (use remove ok in \<open>simp add: RemoveNode_def\<close>)
next
  case (stop ord)
  have "well_addressed (t\<lparr>tr_running := False\<rparr>)" by (rule addressed_eq [OF ok]) simp_all
  with stop closes_addressed show ?thesis unfolding Transport_Stop_def by blast
qed

interpretation any: step_system "\<lambda>s. s = NewSimulatedTransport config" "any_step len" well_addressed for config len
  by unfold_locales (simp add: well_addressed_def NewSimulatedTransport_def Let_def go_get_def, rule addressed_step)

lemma standing_any: "(standing_step len)\<^sup>*\<^sup>* t t' \<Longrightarrow> (any_step len)\<^sup>*\<^sup>* t t'"
  by (rule rtranclp_mono [THEN predicate2D, rotated]) (auto simp: standing_step_def)

text \<open>C8. A partition holds for what is sent while it stands.  In any history of the network, the removal of
  nodes and the stop included, take a stretch in which the partition is not changed: the messages between
  separated nodes that are under way or wait in an inbox at its end were all, with their multiplicity, under
  way or waiting at its beginning; the stretch adds none.  What is under way when a partition is made is still
  delivered.  And at every time a node's inbox holds only messages to that node.\<close>

theorem Transport_partition_holds:
  assumes "(any_step len)\<^sup>*\<^sup>* (NewSimulatedTransport config) t" and "(standing_step len)\<^sup>*\<^sup>* t t'"
  shows "filter_mset (\<lambda>m. isPartitioned (mg_From m) (mg_To m) t') (traffic t') \<subseteq># traffic t \<and>
    (\<forall>n a m. go_get (tr_nodes t') n = Some a \<longrightarrow> m \<in> set (ch_buf (nc_inbox (tr_heap t' ! a))) \<longrightarrow> mg_To m = n)"
proof -
  have st: "tr_partitions t' = tr_partitions t" "no_more (tr_partitions t) t t'"
    using standing.reachable_inv [OF refl assms(2)] by simp_all
  have "crossing (tr_partitions t) t \<subseteq># traffic t" by (simp add: crossing_def)
  then have "filter_mset (\<lambda>m. isPartitioned (mg_From m) (mg_To m) t') (traffic t') \<subseteq># traffic t"
    using st unfolding no_more_def crossing_def isPartitioned_apart by (metis subset_mset.order_trans)
  moreover have "well_addressed t'"
    using any.reachable_inv [OF refl rtranclp_trans [OF assms(1) standing_any [OF assms(2)]]] .
  ultimately show ?thesis by (blast dest: addressed_inbox)
qed

definition net_demo :: SimulatedTransport where
  "net_demo = \<lparr>tr_heap = [\<lparr>nc_inbox = \<lparr>ch_buf = [], ch_cap = 2, ch_closed = False\<rparr>, nc_online = True\<rparr>], tr_nodes = [(''b'', 0)],
     tr_latencies = [], tr_packetLoss = [], tr_partitions = [[''b'', ''c''], [''a'']],
     tr_config = \<lparr>tg_Mode = [], tg_DefaultLatency = 0, tg_DefaultLoss = Fin 0, tg_BufferSize = 2, tg_NodeAddresses = []\<rparr>,
     tr_stats = no_stats [], tr_running = True, tr_flights = []\<rparr>"

definition message_demo :: Message where
  "message_demo = \<lparr>mg_ID = ''1'', mg_Type = ''x'', mg_From = ''c'', mg_To = ''b'', mg_Payload = [], mg_Timestamp = None, mg_Tick = 0\<rparr>"

theorem Transport_never_panics_witness:
  "\<exists>t. (net_step (\<lambda>_. 0))\<^sup>*\<^sup>* (NewSimulatedTransport (tr_config net_demo)) t \<and> tr_running t \<and> (\<forall>n. \<exists>t'. AddNode n t = Inr t')"
proof -
  have cfg: "0 \<le> tg_BufferSize (tr_config net_demo)" by (simp add: net_demo_def)
  have "(net_step (\<lambda>_. 0))\<^sup>*\<^sup>* (NewSimulatedTransport (tr_config net_demo)) (Transport_Start (NewSimulatedTransport (tr_config net_demo)))"
    by (blast intro: net_step.start)
  moreover have "tr_running (Transport_Start (NewSimulatedTransport (tr_config net_demo)))" by (simp add: Transport_Start_def)
  ultimately show ?thesis using Transport_never_panics [OF cfg] by blast
qed

text \<open>A message from \<open>a\<close> is under way when the partition is made; then \<open>a\<close> sends another
  one, which is dropped, and \<open>c\<close>, of the same side as \<open>b\<close>, sends one, which flies.\<close>

definition crossing_message :: Message where
  "crossing_message = message_demo\<lparr>mg_ID := ''0'', mg_From := ''a''\<rparr>"

definition before_demo :: SimulatedTransport where
  "before_demo = (case AddNode ''b'' (Transport_Start (NewSimulatedTransport (tr_config net_demo))) of Inr t \<Rightarrow>
     CreatePartition [[''b'', ''c''], [''a'']] (Transport_Send [] (Fin 0) crossing_message t))"

definition after_demo :: SimulatedTransport where
  "after_demo = Transport_Send [] (Fin 0) message_demo
     (Transport_Send [] (Fin 0) (crossing_message\<lparr>mg_ID := ''2''\<rparr>) before_demo)"

lemmas demo_defs = before_demo_def AddNode_def Transport_Start_def NewSimulatedTransport_def net_demo_def crossing_message_def
  message_demo_def Transport_Send_def IsNodeOnline_def isPartitioned_def CreatePartition_def

lemma before_demo_result:
  "before_demo = net_demo\<lparr>tr_flights := [Looking crossing_message], tr_stats := no_stats [(''b'', no_node_stats)]\<rparr>"
  by (simp add: demo_defs Let_def go_get_def go_put_def put_node_stats_def no_stats_def)

lemma after_demo_result:
  "after_demo = count_dropped (before_demo\<lparr>tr_flights := [Looking crossing_message, Looking message_demo]\<rparr>)"
  unfolding after_demo_def before_demo_result
  by (simp add: demo_defs count_dropped_def Let_def go_get_def)

lemma before_demo_reached: "(any_step len)\<^sup>*\<^sup>* (NewSimulatedTransport (tr_config net_demo)) before_demo"
proof -
  let ?t0 = "NewSimulatedTransport (tr_config net_demo)"
  have "\<exists>t. AddNode ''b'' (Transport_Start ?t0) = Inr t"
    by (simp add: AddNode_def Transport_Start_def NewSimulatedTransport_def net_demo_def go_get_def)
  then obtain t where t: "AddNode ''b'' (Transport_Start ?t0) = Inr t" ..
  have "any_step len ?t0 (Transport_Start ?t0)" "any_step len (Transport_Start ?t0) t"
    "any_step len t (Transport_Send [] (Fin 0) crossing_message t)"
    "any_step len (Transport_Send [] (Fin 0) crossing_message t) before_demo"
    unfolding before_demo_def t sum.case by (blast intro: any_step.net net_step.intros t)+
  then show ?thesis by (meson converse_rtranclp_into_rtranclp rtranclp.rtrancl_refl)
qed

lemma after_demo_reached: "(standing_step len)\<^sup>*\<^sup>* before_demo after_demo"
proof -
  let ?t = "Transport_Send [] (Fin 0) (crossing_message\<lparr>mg_ID := ''2''\<rparr>) before_demo"
  have same: "tr_partitions (Transport_Send uid r m t) = tr_partitions t" for uid r m t
    using Send_cases [of t uid r m] by (simp add: same_net_def)
  have "standing_step len before_demo ?t" "standing_step len ?t after_demo"
    unfolding after_demo_def standing_step_def by (simp_all add: same any_step.net net_step.send)
  then show ?thesis by (meson converse_rtranclp_into_rtranclp rtranclp.rtrancl_refl)
qed

theorem Transport_partition_holds_witness:
  "filter_mset (\<lambda>m. isPartitioned (mg_From m) (mg_To m) after_demo) (traffic after_demo) \<subseteq># traffic before_demo \<and>
   traffic before_demo = {#crossing_message#} \<and> traffic after_demo = {#crossing_message, message_demo#} \<and>
   tt_MessagesDropped (tr_stats after_demo) = 1"
proof (intro conjI)
  show "filter_mset (\<lambda>m. isPartitioned (mg_From m) (mg_To m) after_demo) (traffic after_demo) \<subseteq># traffic before_demo"
    using Transport_partition_holds [OF before_demo_reached after_demo_reached] by blast
qed (simp_all add: after_demo_result before_demo_result, simp_all add: traffic_def net_demo_def waiting_def count_dropped_def no_stats_def)

subsection \<open>Stopping\<close>

lemma close_inboxes_ok:
  assumes "distinct as" and "\<forall>a \<in> set as. a < length (tr_heap t) \<and> \<not> ch_closed (nc_inbox (tr_heap t ! a))"
  shows "\<exists>t'. close_inboxes as t = Inr t' \<and> tr_nodes t' = tr_nodes t \<and> tr_flights t' = tr_flights t \<and>
    length (tr_heap t') = length (tr_heap t) \<and>
    (\<forall>a < length (tr_heap t). tr_heap t' ! a = (if a \<in> set as then (tr_heap t ! a)\<lparr>nc_inbox := (nc_inbox (tr_heap t ! a))\<lparr>ch_closed := True\<rparr>\<rparr>
      else tr_heap t ! a))"
  using assms
proof (induction as arbitrary: t)
  case (Cons a as)
  let ?t = "t\<lparr>tr_heap := (tr_heap t)[a := (tr_heap t ! a)\<lparr>nc_inbox := (nc_inbox (tr_heap t ! a))\<lparr>ch_closed := True\<rparr>\<rparr>]\<rparr>"
  have r: "close_inbox a t = Inr ?t" using Cons.prems by (simp add: close_inbox_def chan_close_def)
  have "\<forall>b \<in> set as. b < length (tr_heap ?t) \<and> \<not> ch_closed (nc_inbox (tr_heap ?t ! b))"
    using Cons.prems by (auto simp: upd_nth)
  from Cons.IH [OF _ this] Cons.prems(1) obtain t' where t': "close_inboxes as ?t = Inr t'" "tr_nodes t' = tr_nodes t"
      "tr_flights t' = tr_flights t" "length (tr_heap t') = length (tr_heap t)"
      "\<forall>b < length (tr_heap t). tr_heap t' ! b = (if b \<in> set as then (tr_heap ?t ! b)\<lparr>nc_inbox := (nc_inbox (tr_heap ?t ! b))\<lparr>ch_closed := True\<rparr>\<rparr>
        else tr_heap ?t ! b)" by auto
  then show ?case using r Cons.prems by (auto simp: upd_nth)
qed simp

text \<open>After the transport was stopped the inboxes stay in the table, closed: a message that stands at an
  inbox panics the program, stopping again panics, and a node that finds its inbox empty reads nil and
  panics.\<close>

theorem Transport_Stop_breaks:
  assumes "net_ok t" and "map_order (tr_nodes t) ord" and "go_get (tr_nodes t) n = Some a" and "nc_online (tr_heap t ! a)"
  shows "\<exists>t'. Transport_Stop ord t = Inr t' \<and>
    (\<forall>i m. i < length (tr_flights t) \<longrightarrow> tr_flights t ! i = AtInbox a m \<longrightarrow> turn_at len i t' = Inl ClosedChannel) \<and>
    Transport_Stop ord t' = Inl ClosedChannel \<and>
    (ch_buf (nc_inbox (tr_heap t ! a)) = [] \<longrightarrow> BaseNode_turn (NewBaseNode n) t' = Some (Inl NilDeref))"
proof -
  let ?as = "map (\<lambda>n. the (go_get (tr_nodes t) n)) ord"
  have known: "k \<in> set ord \<Longrightarrow> \<exists>b. go_get (tr_nodes t) k = Some b" for k
    using assms(2) by (metis go_get_None_iff map_order_def not_None_eq)
  have below: "b < length (tr_heap t)" if "go_get (tr_nodes t) k = Some b" for k b using assms(1) that by (auto simp: net_ok_def)
  have inj: "inj_on (\<lambda>n. the (go_get (tr_nodes t) n)) (set ord)"
  proof (rule inj_onI)
    fix k k' assume "k \<in> set ord" "k' \<in> set ord" and same: "the (go_get (tr_nodes t) k) = the (go_get (tr_nodes t) k')"
    then obtain b b' where "go_get (tr_nodes t) k = Some b" "go_get (tr_nodes t) k' = Some b'" using known by blast
    with same assms(1) show "k = k'" by (simp add: net_ok_def)
  qed
  then have dist: "distinct ?as" using assms(2) by (simp add: distinct_map map_order_def)
  have open_as: "\<forall>b \<in> set ?as. b < length (tr_heap (t\<lparr>tr_running := False\<rparr>)) \<and> \<not> ch_closed (nc_inbox (tr_heap (t\<lparr>tr_running := False\<rparr>) ! b))"
  proof
    fix b assume "b \<in> set ?as"
    then obtain k where "k \<in> set ord" "b = the (go_get (tr_nodes t) k)" by auto
    then have "go_get (tr_nodes t) k = Some b" using known by fastforce
    then show "b < length (tr_heap (t\<lparr>tr_running := False\<rparr>)) \<and> \<not> ch_closed (nc_inbox (tr_heap (t\<lparr>tr_running := False\<rparr>) ! b))"
      using below net_ok_inbox [OF assms(1)] by simp
  qed
  obtain t' where t': "Transport_Stop ord t = Inr t'" "tr_nodes t' = tr_nodes t" "tr_flights t' = tr_flights t" "length (tr_heap t') = length (tr_heap t)"
      "\<forall>b < length (tr_heap t). tr_heap t' ! b = (if b \<in> set ?as then (tr_heap t ! b)\<lparr>nc_inbox := (nc_inbox (tr_heap t ! b))\<lparr>ch_closed := True\<rparr>\<rparr>
        else tr_heap t ! b)"
    using close_inboxes_ok [OF dist open_as] by (auto simp: Transport_Stop_def)
  have n: "n \<in> set ord" using assms(2,3) by (metis go_get_Some_key map_order_def)
  then have a: "a \<in> set ?as" using assms(3) by force
  have closed: "tr_heap t' ! a = (tr_heap t ! a)\<lparr>nc_inbox := (nc_inbox (tr_heap t ! a))\<lparr>ch_closed := True\<rparr>\<rparr>"
    using t'(5) a below [OF assms(3)] by simp
  have "Transport_Stop ord t' = Inl ClosedChannel"
  proof (cases ord)
    case (Cons k ks)
    then obtain b where b: "go_get (tr_nodes t) k = Some b" "b \<in> set ?as" using known [of k] by force
    then show ?thesis using Cons t' below [OF b(1)] by (simp add: Transport_Stop_def close_inbox_def chan_close_def)
  qed (use n in simp)
  moreover have "BaseNode_turn (NewBaseNode n) t' = Some (Inl NilDeref)" if "ch_buf (nc_inbox (tr_heap t ! a)) = []"
    using that closed assms(3) t'(2)
    by (simp add: BaseNode_turn_def NewBaseNode_def Receive_def take_message_def ProcessMessage_def)
  moreover have "turn_at len i t' = Inl ClosedChannel" if "tr_flights t ! i = AtInbox a m" for i m
    using that closed assms(4) t'(3) by (simp add: turn_at_def chan_offer_def)
  ultimately show ?thesis using t'(1) by blast
qed

theorem Transport_Stop_breaks_witness:
  "\<exists>t'. Transport_Stop [''b''] (net_demo\<lparr>tr_flights := [AtInbox 0 message_demo]\<rparr>) = Inr t' \<and> turn_at (\<lambda>_. 0) 0 t' = Inl ClosedChannel"
proof -
  let ?t = "net_demo\<lparr>tr_flights := [AtInbox 0 message_demo]\<rparr>"
  have ok: "net_ok ?t" by (simp add: net_ok_def net_demo_def go_get_def)
  have ord: "map_order (tr_nodes ?t) [''b'']" by (simp add: map_order_def net_demo_def go_keys_def)
  have n: "go_get (tr_nodes ?t) ''b'' = Some 0" "nc_online (tr_heap ?t ! 0)" by (simp_all add: net_demo_def go_get_def)
  from Transport_Stop_breaks [OF ok ord n, of "\<lambda>_. 0"] show ?thesis by auto
qed

end
