(* ===== verification/Pbft.thy ===== *)
theory Pbft
  imports SimCalls
begin

section \<open>Practical Byzantine fault tolerance: \<open>simulations/modules/consensus/pbft.go\<close>\<close>

text \<open>
  The nodes, the single queue of messages, the three phases and the change of view.
  \<open>sha\<close> is SHA-256, \<open>ord\<close> the order in which the map of nodes is met.
  \<open>pb_calls\<close> collects the calls to the base simulator.  The identity and the time of a
  message, which nothing reads, are left out.
\<close>

datatype PBFTState = PIdle | PPrePrepare | PPrepare | PCommit | PReply

fun pstate_text :: "PBFTState \<Rightarrow> string" where
  "pstate_text PIdle = ''idle''"
| "pstate_text PPrePrepare = ''pre_prepare''"
| "pstate_text PPrepare = ''prepare''"
| "pstate_text PCommit = ''commit''"
| "pstate_text PReply = ''reply''"

record PBFTMessage =
  pm_Type :: string
  pm_View :: u64
  pm_Sequence :: u64
  pm_Digest :: string
  pm_From :: NodeID
  pm_To :: NodeID
  pm_Request :: string

record PBFTNode =
  pn_ID :: NodeID
  pn_IsPrimary :: bool
  pn_View :: u64
  pn_Sequence :: u64
  pn_State :: PBFTState
  pn_IsByzantine :: bool
  pn_ByzBehavior :: string
  pn_PrepareCount :: "(string, int) gomap"
  pn_CommitCount :: "(string, int) gomap"
  pn_CommittedSeq :: u64
  pn_MessageLog :: "PBFTMessage list"

record PBFTSimulator =
  pb_nodes :: "(NodeID, PBFTNode) gomap"
  pb_nodeList :: "NodeID list"
  pb_nodeCount :: int
  pb_faultCount :: int
  pb_currentView :: u64
  pb_currentSeq :: u64
  pb_pendingReqs :: "PBFTMessage list"
  pb_queue :: "PBFTMessage list"
  pb_committed :: "string list"
  pb_calls :: "base_call list"

definition NewPBFTSimulator :: PBFTSimulator where
  "NewPBFTSimulator = \<lparr>pb_nodes = [], pb_nodeList = [], pb_nodeCount = 0, pb_faultCount = 0, pb_currentView = 0, pb_currentSeq = 0,
     pb_pendingReqs = [], pb_queue = [], pb_committed = [], pb_calls = []\<rparr>"

definition bcall :: "base_call \<Rightarrow> PBFTSimulator \<Rightarrow> PBFTSimulator" where
  "bcall c s = s\<lparr>pb_calls := pb_calls s @ [c]\<rparr>"

definition put_pnode :: "NodeID \<Rightarrow> PBFTNode \<Rightarrow> PBFTSimulator \<Rightarrow> PBFTSimulator" where
  "put_pnode i n s = s\<lparr>pb_nodes := go_put i n (pb_nodes s)\<rparr>"

definition ignores :: "PBFTNode \<Rightarrow> bool" where
  "ignores n \<longleftrightarrow> pn_IsByzantine n \<and> pn_ByzBehavior n = ''ignore''"

definition equivocates :: "PBFTNode \<Rightarrow> bool" where
  "equivocates n \<longleftrightarrow> pn_IsByzantine n \<and> pn_ByzBehavior n = ''equivocate''"

text \<open>A count, zero for a digest not in the map, and the count raised by one.\<close>

definition votes_for :: "(string, int) gomap \<Rightarrow> string \<Rightarrow> int" where
  "votes_for m d = (case go_get m d of None \<Rightarrow> 0 | Some n \<Rightarrow> n)"

definition add_vote :: "string \<Rightarrow> (string, int) gomap \<Rightarrow> (string, int) gomap" where
  "add_vote d m = go_put d (votes_for m d + 1) m"

definition most_votes :: "(string, int) gomap \<Rightarrow> int" where
  "most_votes m = fold (\<lambda>(d, n) x. if x < n then n else x) m 0"

definition computeDigest :: "(string \<Rightarrow> byte list) \<Rightarrow> string \<Rightarrow> string" where
  "computeDigest sha data = hex_encode (sha data)"

text \<open>The view is converted to a signed number, and the remainder takes its sign.\<close>

definition getPrimaryID :: "PBFTSimulator \<Rightarrow> NodeID go" where
  "getPrimaryID s =
     (if pb_nodeList s = [] then Inr []
      else let v = sint (pb_currentView s)
           in if v < 0 \<and> (- v) mod int (length (pb_nodeList s)) \<noteq> 0 then Inl IndexOutOfRange
              else go_index (pb_nodeList s) (nat (v mod int (length (pb_nodeList s)))))"

subsection \<open>What is shown\<close>

definition stage_progress :: "PBFTState \<Rightarrow> f64" where
  "stage_progress st = (case st of PPrePrepare \<Rightarrow> Fin 25 | PPrepare \<Rightarrow> Fin 50 | PCommit \<Rightarrow> Fin 75 | PReply \<Rightarrow> Fin 100 | PIdle \<Rightarrow> Fin 0)"

definition Pbft_syncTeachingState :: "PBFTSimulator \<Rightarrow> PBFTSimulator go" where
  "Pbft_syncTeachingState s =
     go_bind (getPrimaryID s) (\<lambda>primaryID.
       let st = (case go_get (pb_nodes s) primaryID of None \<Rightarrow> PIdle | Some p \<Rightarrow> pn_State p)
       in Inr (bcall (CallTeaching (pstate_text st) (stage_progress st)
            [(''current_actor'', GStr primaryID), (''result_height'', GInt (int (length (pb_committed s)))),
             (''request_count'', GInt (uint (pb_currentSeq s))), (''committed_count'', GInt (int (length (pb_committed s))))]) s))"

definition show_node :: "NodeID \<Rightarrow> PBFTSimulator \<Rightarrow> PBFTSimulator" where
  "show_node i s =
     (case go_get (pb_nodes s) i of
        None \<Rightarrow> s
      | Some n \<Rightarrow> bcall (CallNode i \<lparr>ns_ID = i, ns_Status = pstate_text (pn_State n),
          ns_Data = Some [(''is_primary'', GBool (pn_IsPrimary n)), (''view'', GInt (uint (pn_View n))), (''sequence'', GInt (uint (pn_Sequence n))),
            (''last_log_index'', GInt (int (length (pn_MessageLog n)))), (''log_length'', GInt (int (length (pn_MessageLog n)))),
            (''committed_seq'', GInt (uint (pn_CommittedSeq n))), (''prepare_count'', GInt (most_votes (pn_PrepareCount n))),
            (''commit_count'', GInt (most_votes (pn_CommitCount n)))],
          ns_IsByzantine = pn_IsByzantine n\<rparr>) s)"

definition updateNodeStates :: "NodeID list \<Rightarrow> PBFTSimulator \<Rightarrow> PBFTSimulator go" where
  "updateNodeStates ord s = Pbft_syncTeachingState (fold show_node ord s)"

subsection \<open>Initialisation, after the base simulator's own\<close>

definition pbft_name :: "nat \<Rightarrow> NodeID" where
  "pbft_name i = ''node-'' @ itoa i"

definition fresh_pnode :: "int \<Rightarrow> nat \<Rightarrow> PBFTNode" where
  "fresh_pnode byzantineCount i = \<lparr>pn_ID = pbft_name i, pn_IsPrimary = (i = 0), pn_View = 0, pn_Sequence = 0, pn_State = PIdle,
     pn_IsByzantine = (int i < byzantineCount), pn_ByzBehavior = [], pn_PrepareCount = [], pn_CommitCount = [], pn_CommittedSeq = 0,
     pn_MessageLog = []\<rparr>"

definition add_pnode :: "int \<Rightarrow> nat \<Rightarrow> PBFTSimulator \<Rightarrow> PBFTSimulator" where
  "add_pnode byzantineCount i s =
     (let n = fresh_pnode byzantineCount i;
          s = put_pnode (pbft_name i) n s
      in bcall (CallNode (pbft_name i) \<lparr>ns_ID = pbft_name i, ns_Status = pstate_text PIdle,
           ns_Data = Some [(''is_primary'', GBool (pn_IsPrimary n)), (''view'', GInt 0), (''sequence'', GInt 0), (''committed_seq'', GInt 0)],
           ns_IsByzantine = pn_IsByzantine n\<rparr>) (s\<lparr>pb_nodeList := pb_nodeList s @ [pbft_name i]\<rparr>))"

text \<open>A negative number of nodes makes \<open>make\<close> panic.\<close>

definition Pbft_Init :: "int \<Rightarrow> int \<Rightarrow> NodeID list \<Rightarrow> PBFTSimulator \<Rightarrow> PBFTSimulator go" where
  "Pbft_Init nodeCount byzantineCount ord s =
     (if nodeCount < 0 then Inl MakeSliceLen
      else
        let f = (if nodeCount = 0 then 0 else (nodeCount - 1) div 3);
            s = fold (add_pnode byzantineCount) [0..<nat nodeCount]
              (s\<lparr>pb_nodeCount := nodeCount, pb_faultCount := f, pb_currentView := 0, pb_currentSeq := 0, pb_nodes := [], pb_nodeList := [],
                 pb_queue := [], pb_pendingReqs := [], pb_committed := []\<rparr>)
        in go_bind (getPrimaryID s) (\<lambda>primaryID.
             updateNodeStates ord (fold bcall
               [CallGlobal ''view'' (GInt 0), CallGlobal ''sequence'' (GInt 0), CallGlobal ''node_count'' (GInt nodeCount),
                CallGlobal ''fault_tolerance'' (GInt f), CallGlobal ''request_count'' (GInt 0), CallGlobal ''committed_count'' (GInt 0),
                CallGlobal ''current_actor'' (GStr primaryID), CallGlobal ''committee_size'' (GInt nodeCount),
                CallGlobal ''result_height'' (GInt 0)] s)))"

subsection \<open>The phases\<close>

definition queueMessage :: "PBFTMessage \<Rightarrow> NodeID \<Rightarrow> PBFTSimulator \<Rightarrow> PBFTSimulator" where
  "queueMessage msg target s = s\<lparr>pb_queue := pb_queue s @ [msg\<lparr>pm_To := target\<rparr>]\<rparr>"

definition phase_data :: "PBFTMessage \<Rightarrow> gdata" where
  "phase_data m = Some [(''view'', GInt (uint (pm_View m))), (''sequence'', GInt (uint (pm_Sequence m))), (''digest'', GStr (pm_Digest m))]"

definition handlePrePrepare :: "NodeID \<Rightarrow> PBFTMessage \<Rightarrow> PBFTSimulator \<Rightarrow> PBFTSimulator" where
  "handlePrePrepare primaryID req s =
     (case go_get (pb_nodes s) primaryID of
        None \<Rightarrow> s
      | Some primary \<Rightarrow>
          if \<not> pn_IsPrimary primary \<or> ignores primary then s
          else
            let m = \<lparr>pm_Type = ''PRE-PREPARE'', pm_View = pb_currentView s, pm_Sequence = pm_Sequence req, pm_Digest = pm_Digest req,
                  pm_From = primaryID, pm_To = [], pm_Request = pm_Request req\<rparr>;
                primary = primary\<lparr>pn_State := PPrePrepare, pn_Sequence := pm_Sequence req,
                  pn_PrepareCount := go_put (pm_Digest req) 1 (pn_PrepareCount primary), pn_CommitCount := [],
                  pn_MessageLog := pn_MessageLog primary @ [m]\<rparr>;
                s = fold (queueMessage m) (filter (\<lambda>i. i \<noteq> primaryID) (pb_nodeList s)) (put_pnode primaryID primary s)
            in bcall (CallEmit ''pre_prepare'' primaryID [] (phase_data m)) s)"

definition submitRequest :: "(string \<Rightarrow> byte list) \<Rightarrow> string \<Rightarrow> PBFTSimulator \<Rightarrow> PBFTSimulator go" where
  "submitRequest sha data s =
     (let s = s\<lparr>pb_currentSeq := pb_currentSeq s + 1\<rparr>;
          req = \<lparr>pm_Type = ''REQUEST'', pm_View = 0, pm_Sequence = pb_currentSeq s, pm_Digest = computeDigest sha data, pm_From = [],
            pm_To = [], pm_Request = data\<rparr>;
          s = bcall (CallGlobal ''request_count'' (GInt (uint (pb_currentSeq s)))) (s\<lparr>pb_pendingReqs := pb_pendingReqs s @ [req]\<rparr>)
      in go_bind (getPrimaryID s) (\<lambda>primaryID.
           Inr (handlePrePrepare primaryID req (fold bcall
             [CallGlobal ''current_actor'' (GStr primaryID),
              CallEmit ''client_request'' [] primaryID
                (Some [(''sequence'', GInt (uint (pb_currentSeq s))), (''digest'', GStr (pm_Digest req))])] s))))"

definition handlePrepare :: "(string \<Rightarrow> byte list) \<Rightarrow> NodeID \<Rightarrow> PBFTMessage \<Rightarrow> PBFTSimulator \<Rightarrow> PBFTSimulator" where
  "handlePrepare sha nodeID pp s =
     (case go_get (pb_nodes s) nodeID of
        None \<Rightarrow> s
      | Some node \<Rightarrow>
          let m = \<lparr>pm_Type = ''PREPARE'', pm_View = pm_View pp, pm_Sequence = pm_Sequence pp,
                pm_Digest = (if equivocates node then computeDigest sha ''fake'' else pm_Digest pp), pm_From = nodeID, pm_To = [], pm_Request = []\<rparr>;
              node = node\<lparr>pn_State := PPrepare, pn_Sequence := pm_Sequence pp, pn_PrepareCount := add_vote (pm_Digest pp) (pn_PrepareCount node),
                pn_MessageLog := pn_MessageLog node @ [m]\<rparr>
          in bcall (CallEmit ''prepare'' nodeID [] (phase_data m)) (queueMessage m [] (put_pnode nodeID node s)))"

definition handleCommit :: "NodeID \<Rightarrow> PBFTMessage \<Rightarrow> PBFTSimulator \<Rightarrow> PBFTSimulator" where
  "handleCommit nodeID prepare s =
     (case go_get (pb_nodes s) nodeID of
        None \<Rightarrow> s
      | Some node \<Rightarrow>
          let m = \<lparr>pm_Type = ''COMMIT'', pm_View = pm_View prepare, pm_Sequence = pm_Sequence prepare, pm_Digest = pm_Digest prepare,
                pm_From = nodeID, pm_To = [], pm_Request = []\<rparr>;
              node = node\<lparr>pn_State := PCommit, pn_Sequence := pm_Sequence prepare, pn_CommitCount := add_vote (pm_Digest prepare) (pn_CommitCount node),
                pn_MessageLog := pn_MessageLog node @ [m]\<rparr>
          in bcall (CallEmit ''commit'' nodeID [] (phase_data m)) (queueMessage m [] (put_pnode nodeID node s)))"

definition handlePrepareReceive :: "NodeID \<Rightarrow> PBFTMessage \<Rightarrow> PBFTSimulator \<Rightarrow> PBFTSimulator" where
  "handlePrepareReceive nodeID prepare s =
     (case go_get (pb_nodes s) nodeID of
        None \<Rightarrow> s
      | Some node \<Rightarrow>
          let node = (if pn_State node = PPrePrepare then node\<lparr>pn_State := PPrepare\<rparr> else node);
              node = (if pn_Sequence node < pm_Sequence prepare then node\<lparr>pn_Sequence := pm_Sequence prepare\<rparr> else node);
              node = node\<lparr>pn_PrepareCount := add_vote (pm_Digest prepare) (pn_PrepareCount node)\<rparr>;
              s = put_pnode nodeID node s
          in if 2 * pb_faultCount s + 1 \<le> votes_for (pn_PrepareCount node) (pm_Digest prepare) \<and> pn_State node = PPrepare
             then handleCommit nodeID prepare s else s)"

definition handleReply :: "NodeID \<Rightarrow> PBFTMessage \<Rightarrow> PBFTSimulator \<Rightarrow> PBFTSimulator" where
  "handleReply nodeID commit s =
     (case go_get (pb_nodes s) nodeID of
        None \<Rightarrow> s
      | Some node \<Rightarrow>
          let s = (if pm_Digest commit \<in> set (pb_committed s) then s
                else let s = s\<lparr>pb_committed := pb_committed s @ [pm_Digest commit]\<rparr>;
                         n = GInt (int (length (pb_committed s)))
                     in fold bcall [CallGlobal ''committed_count'' n, CallGlobal ''result_height'' n,
                          CallEmit ''committed'' nodeID [] (Some [(''sequence'', GInt (uint (pm_Sequence commit))), (''digest'', GStr (pm_Digest commit))])] s);
              node = node\<lparr>pn_State := PIdle, pn_Sequence := pm_Sequence commit, pn_CommittedSeq := pm_Sequence commit,
                pn_PrepareCount := [], pn_CommitCount := []\<rparr>
          in (put_pnode nodeID node s)\<lparr>pb_pendingReqs := tl (pb_pendingReqs s)\<rparr>)"

definition handleCommitReceive :: "NodeID \<Rightarrow> PBFTMessage \<Rightarrow> PBFTSimulator \<Rightarrow> PBFTSimulator" where
  "handleCommitReceive nodeID commit s =
     (case go_get (pb_nodes s) nodeID of
        None \<Rightarrow> s
      | Some node \<Rightarrow>
          let node = (if pn_Sequence node < pm_Sequence commit then node\<lparr>pn_Sequence := pm_Sequence commit\<rparr> else node);
              node = node\<lparr>pn_CommitCount := add_vote (pm_Digest commit) (pn_CommitCount node)\<rparr>;
              s = put_pnode nodeID node s
          in if 2 * pb_faultCount s + 1 \<le> votes_for (pn_CommitCount node) (pm_Digest commit) \<and> pn_State node = PCommit
             then handleReply nodeID commit s else s)"

definition deliverMessage :: "(string \<Rightarrow> byte list) \<Rightarrow> PBFTMessage \<Rightarrow> NodeID \<Rightarrow> PBFTSimulator \<Rightarrow> PBFTSimulator" where
  "deliverMessage sha msg nodeID s =
     (case go_get (pb_nodes s) nodeID of
        None \<Rightarrow> s
      | Some node \<Rightarrow>
          if ignores node then s
          else
            let s = put_pnode nodeID (node\<lparr>pn_MessageLog := pn_MessageLog node @ [msg]\<rparr>) s
            in if pm_Type msg = ''PRE-PREPARE'' then handlePrepare sha nodeID msg s
               else if pm_Type msg = ''PREPARE'' then handlePrepareReceive nodeID msg s
               else if pm_Type msg = ''COMMIT'' then handleCommitReceive nodeID msg s
               else s)"

definition processMessageQueue :: "(string \<Rightarrow> byte list) \<Rightarrow> PBFTSimulator \<Rightarrow> PBFTSimulator" where
  "processMessageQueue sha s =
     (case pb_queue s of
        [] \<Rightarrow> s
      | msg # rest \<Rightarrow>
          let s = s\<lparr>pb_queue := rest\<rparr>
          in if pm_To msg \<noteq> [] then deliverMessage sha msg (pm_To msg) s
             else fold (deliverMessage sha msg) (filter (\<lambda>i. i \<noteq> pm_From msg) (pb_nodeList s)) s)"

text \<open>\<open>v\<close>: the value of the parameter \<open>auto_request\<close>.\<close>

definition auto_request :: "gval \<Rightarrow> bool" where
  "auto_request v = (case v of GBool b \<Rightarrow> b | _ \<Rightarrow> True)"

definition Pbft_onTick :: "(string \<Rightarrow> byte list) \<Rightarrow> NodeID list \<Rightarrow> gval \<Rightarrow> u64 \<Rightarrow> PBFTSimulator \<Rightarrow> PBFTSimulator go" where
  "Pbft_onTick sha ord v tick s =
     (let s = processMessageQueue sha s
      in go_bind (if auto_request v \<and> (tick = 1 \<or> tick mod 4 = 0) \<and> pb_pendingReqs s = []
             then submitRequest sha (''request-'' @ itoa (unat tick)) s else Inr s)
           (updateNodeStates ord))"

subsection \<open>Views, faults and actions\<close>

definition new_view :: "u64 \<Rightarrow> PBFTNode \<Rightarrow> PBFTNode" where
  "new_view v n = n\<lparr>pn_View := v, pn_IsPrimary := False\<rparr>"

definition make_primary :: "NodeID \<Rightarrow> PBFTSimulator \<Rightarrow> PBFTSimulator" where
  "make_primary p s = (case go_get (pb_nodes s) p of None \<Rightarrow> s | Some n \<Rightarrow> put_pnode p (n\<lparr>pn_IsPrimary := True\<rparr>) s)"

definition TriggerViewChange :: "PBFTSimulator \<Rightarrow> PBFTSimulator go" where
  "TriggerViewChange s =
     (let v = pb_currentView s + 1;
          s = bcall (CallGlobal ''view'' (GInt (uint v))) (s\<lparr>pb_currentView := v\<rparr>);
          s = s\<lparr>pb_nodes := map (\<lambda>(i, n). (i, new_view v n)) (pb_nodes s)\<rparr>
      in go_bind (getPrimaryID s) (\<lambda>p.
           Inr (bcall (CallEmit ''view_change'' [] [] (Some [(''new_view'', GInt (uint v)), (''new_primary'', GStr p)]))
             (make_primary p (bcall (CallGlobal ''current_actor'' (GStr p)) s)))))"

text \<open>What follows the base simulator's own \<open>InjectFault\<close> when it succeeds.\<close>

definition Pbft_InjectFault :: "NodeID list \<Rightarrow> Fault \<Rightarrow> PBFTSimulator \<Rightarrow> PBFTSimulator go" where
  "Pbft_InjectFault ord fault s =
     (case go_get (pb_nodes s) (fl_Target fault) of
        None \<Rightarrow> Inr s
      | Some node \<Rightarrow>
          let node = node\<lparr>pn_IsByzantine := True,
                pn_ByzBehavior := (case nil_get (fl_Params fault) ''behavior'' of Some (GStr b) \<Rightarrow> b | _ \<Rightarrow> pn_ByzBehavior node)\<rparr>
          in go_bind (updateNodeStates ord (put_pnode (fl_Target fault) node s)) (\<lambda>s.
               Inr (bcall (CallEmit ''fault_injected'' (fl_Target fault) []
                 (Some [(''fault_type'', GStr (fl_Type fault)), (''behavior'', GStr (pn_ByzBehavior node))])) s)))"

datatype pbft_err = UnsupportedPbftAction string

definition Pbft_ExecuteAction ::
  "(string \<Rightarrow> byte list) \<Rightarrow> NodeID list \<Rightarrow> int \<Rightarrow> string \<Rightarrow> (string, gval) gomap \<Rightarrow> PBFTSimulator \<Rightarrow> (pbft_err option \<times> PBFTSimulator) go" where
  "Pbft_ExecuteAction sha ord now action params s =
     (if action = ''submit_request'' then
        go_bind (submitRequest sha (text_param ''payload'' (''manual-request-'' @ int_text 10 now) params) s) (\<lambda>s.
          go_bind (updateNodeStates ord s) (\<lambda>s. Inr (None, s)))
      else if action = ''trigger_view_change'' then
        go_bind (TriggerViewChange s) (\<lambda>s. go_bind (updateNodeStates ord s) (\<lambda>s. Inr (None, s)))
      else Inr (Some (UnsupportedPbftAction action), s))"

end
