(* ===== verification/PbftFacts.thy ===== *)
theory PbftFacts
  imports Pbft
begin

section \<open>Practical Byzantine fault tolerance: properties\<close>

text \<open>
  What is committed is backed by quorums of messages, in every run; a cluster without faults
  commits; a cluster of four with one silent node does not, although it should.
\<close>

subsection \<open>Quorums\<close>

definition prepares :: "string \<Rightarrow> PBFTMessage list \<Rightarrow> nat" where
  "prepares d ms = length (filter (\<lambda>m. (pm_Type m = ''PRE-PREPARE'' \<or> pm_Type m = ''PREPARE'') \<and> pm_Digest m = d) ms)"

definition commits :: "string \<Rightarrow> PBFTMessage list \<Rightarrow> nat" where
  "commits d ms = length (filter (\<lambda>m. pm_Type m = ''COMMIT'' \<and> pm_Digest m = d) ms)"

lemma prepares_simps [simp]: "prepares d [] = 0" "prepares d (xs @ ys) = prepares d xs + prepares d ys"
  by (simp_all add: prepares_def)

lemma commits_simps [simp]: "commits d [] = 0" "commits d (xs @ ys) = commits d xs + commits d ys"
  by (simp_all add: commits_def)

text \<open>A COMMIT message is backed when its sender has received a quorum for its digest.\<close>

definition backed :: "PBFTSimulator \<Rightarrow> PBFTMessage \<Rightarrow> bool" where
  "backed s m \<longleftrightarrow> (pm_Type m = ''COMMIT'' \<longrightarrow> (\<exists>n. go_get (pb_nodes s) (pm_From m) = Some n \<and>
     2 * pb_faultCount s + 1 \<le> int (prepares (pm_Digest m) (pn_MessageLog n))))"

definition counted :: "PBFTNode \<Rightarrow> bool" where
  "counted n \<longleftrightarrow> (\<forall>d. votes_for (pn_PrepareCount n) d \<le> int (prepares d (pn_MessageLog n)) \<and>
     votes_for (pn_CommitCount n) d \<le> int (commits d (pn_MessageLog n)))"

definition pbft_inv :: "PBFTSimulator \<Rightarrow> bool" where
  "pbft_inv s \<longleftrightarrow>
     (\<forall>i n. go_get (pb_nodes s) i = Some n \<longrightarrow> counted n \<and> (\<forall>m \<in> set (pn_MessageLog n). backed s m)) \<and>
     (\<forall>m \<in> set (pb_queue s). backed s m) \<and>
     (\<forall>d \<in> set (pb_committed s). \<exists>i n. go_get (pb_nodes s) i = Some n \<and> 2 * pb_faultCount s + 1 \<le> int (commits d (pn_MessageLog n)))"

lemma votes_simps [simp]: "votes_for [] d = 0" "votes_for (go_put e n m) d = (if d = e then n else votes_for m d)"
  by (simp_all add: votes_for_def)

lemma add_vote_simps [simp]: "votes_for (add_vote e m) d = votes_for m d + (if d = e then 1 else 0)"
  by (simp add: add_vote_def)

lemma bcall_simps [simp]: "pb_nodes (bcall c s) = pb_nodes s" "pb_queue (bcall c s) = pb_queue s" "pb_committed (bcall c s) = pb_committed s"
  "pb_faultCount (bcall c s) = pb_faultCount s" "pb_nodeList (bcall c s) = pb_nodeList s" "pb_currentView (bcall c s) = pb_currentView s"
  "pb_currentSeq (bcall c s) = pb_currentSeq s" "pb_pendingReqs (bcall c s) = pb_pendingReqs s"
  by (simp_all add: bcall_def)

lemma put_pnode_simps [simp]: "pb_nodes (put_pnode i n s) = go_put i n (pb_nodes s)" "pb_queue (put_pnode i n s) = pb_queue s"
  "pb_committed (put_pnode i n s) = pb_committed s" "pb_faultCount (put_pnode i n s) = pb_faultCount s"
  "pb_nodeList (put_pnode i n s) = pb_nodeList s" "pb_currentView (put_pnode i n s) = pb_currentView s"
  by (simp_all add: put_pnode_def)

lemma queue_simps [simp]: "pb_nodes (queueMessage m t s) = pb_nodes s" "pb_queue (queueMessage m t s) = pb_queue s @ [m\<lparr>pm_To := t\<rparr>]"
  "pb_committed (queueMessage m t s) = pb_committed s" "pb_faultCount (queueMessage m t s) = pb_faultCount s"
  "pb_nodeList (queueMessage m t s) = pb_nodeList s"
  by (simp_all add: queueMessage_def)

lemma backed_same: "pb_nodes t = pb_nodes s \<Longrightarrow> pb_faultCount t = pb_faultCount s \<Longrightarrow> backed t m = backed s m"
  by (simp add: backed_def)

lemma backed_other [simp]: "pm_Type m \<noteq> ''COMMIT'' \<Longrightarrow> backed s m"
  by (simp add: backed_def)

lemma backed_to [simp]: "backed s (m\<lparr>pm_To := t\<rparr>) = backed s m"
  by (simp add: backed_def)

lemma inv_same: "pbft_inv s \<Longrightarrow> pb_nodes t = pb_nodes s \<Longrightarrow> pb_faultCount t = pb_faultCount s \<Longrightarrow> pb_queue t = pb_queue s \<Longrightarrow>
    pb_committed t = pb_committed s \<Longrightarrow> pbft_inv t"
  by (simp add: pbft_inv_def backed_same [of t s])

lemma inv_bcall [simp]: "pbft_inv (bcall c s) = pbft_inv s"
  by (auto elim: inv_same)

lemma inv_queue: "pbft_inv s \<Longrightarrow> backed s m \<Longrightarrow> pbft_inv (queueMessage m t s)"
  by (auto simp: pbft_inv_def backed_same [of "queueMessage m t s" s])

lemma inv_queues: "pbft_inv s \<Longrightarrow> backed s m \<Longrightarrow> pbft_inv (fold (queueMessage m) ts s)"
  by (induction ts arbitrary: s) (simp_all add: inv_queue backed_same [of "queueMessage m t s" s for t s])

text \<open>A node whose log grows.\<close>

lemma backed_grow:
  assumes "go_get (pb_nodes s) i = Some n" and "pn_MessageLog n' = pn_MessageLog n @ ms" and "backed s m"
  shows "backed (put_pnode i n' s) m"
  using assms by (auto simp: backed_def)

lemma inv_grow:
  assumes "pbft_inv s" and "go_get (pb_nodes s) i = Some n" and "pn_MessageLog n' = pn_MessageLog n @ ms" and "counted n'"
    and "\<forall>m \<in> set ms. backed (put_pnode i n' s) m"
  shows "pbft_inv (put_pnode i n' s)"
  unfolding pbft_inv_def
proof (intro conjI allI impI ballI)
  fix j k assume "go_get (pb_nodes (put_pnode i n' s)) j = Some k"
  then show "counted k" using assms(1,4) by (auto simp: pbft_inv_def split: if_splits)
next
  fix j k m assume "go_get (pb_nodes (put_pnode i n' s)) j = Some k" "m \<in> set (pn_MessageLog k)"
  then show "backed (put_pnode i n' s) m"
    using assms(1,2,3,5) backed_grow [OF assms(2,3)] by (auto simp: pbft_inv_def split: if_splits)
next
  fix m assume "m \<in> set (pb_queue (put_pnode i n' s))"
  then show "backed (put_pnode i n' s) m" using assms(1) backed_grow [OF assms(2,3)] by (auto simp: pbft_inv_def)
next
  fix d assume "d \<in> set (pb_committed (put_pnode i n' s))"
  then obtain j k where j: "go_get (pb_nodes s) j = Some k" "2 * pb_faultCount s + 1 \<le> int (commits d (pn_MessageLog k))"
    using assms(1) by (auto simp: pbft_inv_def)
  show "\<exists>j k. go_get (pb_nodes (put_pnode i n' s)) j = Some k \<and> 2 * pb_faultCount (put_pnode i n' s) + 1 \<le> int (commits d (pn_MessageLog k))"
    using j assms(2,3) by (cases "j = i") (auto intro: exI [of _ j])
qed

lemma inv_counted: "pbft_inv s \<Longrightarrow> go_get (pb_nodes s) i = Some n \<Longrightarrow> counted n"
  by (simp add: pbft_inv_def)

lemma handlePrePrepare_inv: "pbft_inv s \<Longrightarrow> pbft_inv (handlePrePrepare p req s)"
proof (cases "go_get (pb_nodes s) p")
  case (Some n)
  assume inv: "pbft_inv s"
  let ?m = "\<lparr>pm_Type = ''PRE-PREPARE'', pm_View = pb_currentView s, pm_Sequence = pm_Sequence req, pm_Digest = pm_Digest req,
                  pm_From = p, pm_To = [], pm_Request = pm_Request req\<rparr>"
  let ?n = "n\<lparr>pn_State := PPrePrepare, pn_Sequence := pm_Sequence req,
                  pn_PrepareCount := go_put (pm_Digest req) 1 (pn_PrepareCount n), pn_CommitCount := [],
                  pn_MessageLog := pn_MessageLog n @ [?m]\<rparr>"
  have "counted ?n" using inv_counted [OF inv Some] by (auto simp: counted_def prepares_def)
  then have "pbft_inv (put_pnode p ?n s)" by (intro inv_grow [OF inv Some, of ?n "[?m]"]) simp_all
  then show ?thesis using Some inv by (simp add: handlePrePrepare_def Let_def inv_queues)
qed (simp add: handlePrePrepare_def)

lemma handlePrepare_inv:
  assumes "pbft_inv s" and "go_get (pb_nodes s) i = Some n"
    and "votes_for (pn_PrepareCount n) (pm_Digest pp) < int (prepares (pm_Digest pp) (pn_MessageLog n))"
  shows "pbft_inv (handlePrepare sha i pp s)"
proof -
  let ?m = "\<lparr>pm_Type = ''PREPARE'', pm_View = pm_View pp, pm_Sequence = pm_Sequence pp,
                pm_Digest = (if equivocates n then computeDigest sha ''fake'' else pm_Digest pp), pm_From = i, pm_To = [], pm_Request = []\<rparr>"
  let ?n = "n\<lparr>pn_State := PPrepare, pn_Sequence := pm_Sequence pp, pn_PrepareCount := add_vote (pm_Digest pp) (pn_PrepareCount n),
                pn_MessageLog := pn_MessageLog n @ [?m]\<rparr>"
  have "counted ?n" using inv_counted [OF assms(1,2)] assms(3) by (auto simp: counted_def add_increasing2)
  then have "pbft_inv (put_pnode i ?n s)" by (intro inv_grow [OF assms(1,2), of ?n "[?m]"]) simp_all
  then show ?thesis using assms(2) by (simp add: handlePrepare_def Let_def inv_queue)
qed

lemma handleCommit_inv:
  assumes "pbft_inv s" and "go_get (pb_nodes s) i = Some n"
    and "2 * pb_faultCount s + 1 \<le> votes_for (pn_PrepareCount n) (pm_Digest p)"
  shows "pbft_inv (handleCommit i p s)"
proof -
  let ?m = "\<lparr>pm_Type = ''COMMIT'', pm_View = pm_View p, pm_Sequence = pm_Sequence p, pm_Digest = pm_Digest p,
                pm_From = i, pm_To = [], pm_Request = []\<rparr>"
  let ?n = "n\<lparr>pn_State := PCommit, pn_Sequence := pm_Sequence p, pn_CommitCount := add_vote (pm_Digest p) (pn_CommitCount n),
                pn_MessageLog := pn_MessageLog n @ [?m]\<rparr>"
  have c: "counted n" using inv_counted [OF assms(1,2)] .
  then have "counted ?n" by (auto simp: counted_def commits_def prepares_def)
  moreover have b: "backed (put_pnode i ?n s) ?m"
    using c assms(3) order_trans [OF assms(3)] by (simp add: backed_def counted_def prepares_def [of _ "[?m]"])
  ultimately have "pbft_inv (put_pnode i ?n s)" by (intro inv_grow [OF assms(1,2), of ?n "[?m]"]) simp_all
  then show ?thesis using assms(2) b by (simp add: handleCommit_def Let_def inv_queue)
qed

lemma handlePrepareReceive_inv:
  assumes "pbft_inv s" and "go_get (pb_nodes s) i = Some n"
    and "votes_for (pn_PrepareCount n) (pm_Digest p) < int (prepares (pm_Digest p) (pn_MessageLog n))"
  shows "pbft_inv (handlePrepareReceive i p s)"
proof -
  define n1 where "n1 = (if pn_State n = PPrePrepare then n\<lparr>pn_State := PPrepare\<rparr> else n)"
  define n2 where "n2 = (if pn_Sequence n1 < pm_Sequence p then n1\<lparr>pn_Sequence := pm_Sequence p\<rparr> else n1)"
  define n' where "n' = n2\<lparr>pn_PrepareCount := add_vote (pm_Digest p) (pn_PrepareCount n2)\<rparr>"
  have n': "pn_MessageLog n' = pn_MessageLog n @ []" "pn_PrepareCount n' = add_vote (pm_Digest p) (pn_PrepareCount n)"
      "pn_CommitCount n' = pn_CommitCount n" by (simp_all add: n'_def n2_def n1_def)
  have r: "handlePrepareReceive i p s = (if 2 * pb_faultCount s + 1 \<le> votes_for (pn_PrepareCount n') (pm_Digest p) \<and> pn_State n' = PPrepare
             then handleCommit i p (put_pnode i n' s) else put_pnode i n' s)"
    unfolding handlePrepareReceive_def assms(2) option.case Let_def n1_def [symmetric] n2_def [symmetric] n'_def [symmetric] by simp
  have "counted n'" using inv_counted [OF assms(1,2)] assms(3) n' by (auto simp: counted_def)
  then have "pbft_inv (put_pnode i n' s)" by (intro inv_grow [OF assms(1,2) n'(1)]) simp_all
  then show ?thesis unfolding r using handleCommit_inv [of "put_pnode i n' s" i n' p] by simp
qed

lemma handleReply_inv:
  assumes "pbft_inv s" and "go_get (pb_nodes s) i = Some n"
    and "2 * pb_faultCount s + 1 \<le> votes_for (pn_CommitCount n) (pm_Digest c)"
  shows "pbft_inv (handleReply i c s)"
proof -
  have cn: "counted n" using inv_counted [OF assms(1,2)] .
  let ?s = "s\<lparr>pb_committed := pb_committed s @ [pm_Digest c]\<rparr>"
  have "\<exists>i n. go_get (pb_nodes s) i = Some n \<and> 2 * pb_faultCount s + 1 \<le> int (commits (pm_Digest c) (pn_MessageLog n))"
    using cn assms(2,3) by (intro exI [of _ i] exI [of _ n]) (auto simp: counted_def intro: order_trans)
  then have "pbft_inv ?s" using assms(1) by (auto simp: pbft_inv_def backed_same [of ?s s])
  moreover define t where "t = (if pm_Digest c \<in> set (pb_committed s) then s
    else let s = s\<lparr>pb_committed := pb_committed s @ [pm_Digest c]\<rparr>; n = GInt (int (length (pb_committed s)))
      in fold bcall [CallGlobal ''committed_count'' n, CallGlobal ''result_height'' n, CallEmit ''committed'' i []
        (Some [(''sequence'', GInt (uint (pm_Sequence c))), (''digest'', GStr (pm_Digest c))])] s)"
  ultimately have t: "pbft_inv t" "pb_nodes t = pb_nodes s" using assms(1) by (simp_all add: Let_def)
  let ?n = "n\<lparr>pn_State := PIdle, pn_Sequence := pm_Sequence c, pn_CommittedSeq := pm_Sequence c, pn_PrepareCount := [], pn_CommitCount := []\<rparr>"
  have "pbft_inv (put_pnode i ?n t)" by (rule inv_grow [of t i n ?n "[]"]) (use t assms(2) in \<open>simp_all add: counted_def\<close>)
  then have "pbft_inv ((put_pnode i ?n t)\<lparr>pb_pendingReqs := tl (pb_pendingReqs t)\<rparr>)" by (rule inv_same) simp_all
  then show ?thesis unfolding handleReply_def assms(2) option.case t_def [symmetric] by (simp add: Let_def)
qed

lemma handleCommitReceive_inv:
  assumes "pbft_inv s" and "go_get (pb_nodes s) i = Some n"
    and "votes_for (pn_CommitCount n) (pm_Digest c) < int (commits (pm_Digest c) (pn_MessageLog n))"
  shows "pbft_inv (handleCommitReceive i c s)"
proof -
  define n2 where "n2 = (if pn_Sequence n < pm_Sequence c then n\<lparr>pn_Sequence := pm_Sequence c\<rparr> else n)"
  define n' where "n' = n2\<lparr>pn_CommitCount := add_vote (pm_Digest c) (pn_CommitCount n2)\<rparr>"
  have n': "pn_MessageLog n' = pn_MessageLog n @ []" "pn_CommitCount n' = add_vote (pm_Digest c) (pn_CommitCount n)"
      "pn_PrepareCount n' = pn_PrepareCount n" by (simp_all add: n'_def n2_def)
  have r: "handleCommitReceive i c s = (if 2 * pb_faultCount s + 1 \<le> votes_for (pn_CommitCount n') (pm_Digest c) \<and> pn_State n' = PCommit
             then handleReply i c (put_pnode i n' s) else put_pnode i n' s)"
    unfolding handleCommitReceive_def assms(2) option.case Let_def n2_def [symmetric] n'_def [symmetric] by simp
  have "counted n'" using inv_counted [OF assms(1,2)] assms(3) n' by (auto simp: counted_def)
  then have "pbft_inv (put_pnode i n' s)" by (intro inv_grow [OF assms(1,2) n'(1)]) simp_all
  then show ?thesis unfolding r using handleReply_inv [of "put_pnode i n' s" i n' c] by simp
qed

lemma deliverMessage_inv:
  assumes "pbft_inv s" and "backed s m"
  shows "pbft_inv (deliverMessage sha m i s)"
proof (cases "go_get (pb_nodes s) i")
  case (Some n)
  let ?n = "n\<lparr>pn_MessageLog := pn_MessageLog n @ [m]\<rparr>"
  have c: "counted n" using inv_counted [OF assms(1) Some] .
  then have "counted ?n" by (auto simp: counted_def add_increasing2)
  then have inv: "pbft_inv (put_pnode i ?n s)"
    using backed_grow [OF Some, of ?n "[m]"] assms(2) by (intro inv_grow [OF assms(1) Some, of ?n "[m]"]) simp_all
  have more: "pm_Type m = ''PRE-PREPARE'' \<or> pm_Type m = ''PREPARE'' \<Longrightarrow>
      votes_for (pn_PrepareCount ?n) (pm_Digest m) < int (prepares (pm_Digest m) (pn_MessageLog ?n))"
    "pm_Type m = ''COMMIT'' \<Longrightarrow> votes_for (pn_CommitCount ?n) (pm_Digest m) < int (commits (pm_Digest m) (pn_MessageLog ?n))"
    using c [unfolded counted_def, THEN spec, of "pm_Digest m"] by (auto simp: prepares_def [of _ "[m]"] commits_def [of _ "[m]"])
  show ?thesis
    using Some assms(1) handlePrepare_inv [OF inv _ more(1)] handlePrepareReceive_inv [OF inv _ more(1)] handleCommitReceive_inv [OF inv _ more(2)] inv
    by (simp add: deliverMessage_def Let_def)
qed (use assms in \<open>simp add: deliverMessage_def\<close>)

text \<open>A message stays backed while others are delivered: logs only grow, and the threshold stays.\<close>

definition pbft_grows :: "PBFTSimulator \<Rightarrow> PBFTSimulator \<Rightarrow> bool" where
  "pbft_grows s t \<longleftrightarrow> pb_faultCount t = pb_faultCount s \<and>
     (\<forall>i n. go_get (pb_nodes s) i = Some n \<longrightarrow> (\<exists>n' ms. go_get (pb_nodes t) i = Some n' \<and> pn_MessageLog n' = pn_MessageLog n @ ms))"

lemma grows_same: "pb_nodes t = pb_nodes s \<Longrightarrow> pb_faultCount t = pb_faultCount s \<Longrightarrow> pbft_grows s t"
  by (auto simp: pbft_grows_def)

lemma grows_trans:
  assumes "pbft_grows s t" and "pbft_grows t u"
  shows "pbft_grows s u"
  unfolding pbft_grows_def
proof (intro conjI allI impI)
  show "pb_faultCount u = pb_faultCount s" using assms by (simp add: pbft_grows_def)
  fix i n assume "go_get (pb_nodes s) i = Some n"
  then obtain n' ms where n': "go_get (pb_nodes t) i = Some n'" "pn_MessageLog n' = pn_MessageLog n @ ms"
    using assms(1) unfolding pbft_grows_def by blast
  then obtain n'' ms' where "go_get (pb_nodes u) i = Some n''" "pn_MessageLog n'' = pn_MessageLog n' @ ms'"
    using assms(2) unfolding pbft_grows_def by blast
  with n'(2) show "\<exists>n' ms. go_get (pb_nodes u) i = Some n' \<and> pn_MessageLog n' = pn_MessageLog n @ ms" by simp
qed

lemma grows_put: "go_get (pb_nodes s) i = Some n \<Longrightarrow> pn_MessageLog n' = pn_MessageLog n @ ms \<Longrightarrow> pbft_grows s (put_pnode i n' s)"
  by (auto simp: pbft_grows_def)

lemma grows_put_bcall [simp]: "pbft_grows s (bcall c t) = pbft_grows s t" "pbft_grows s (queueMessage m a t) = pbft_grows s t"
  by (simp_all add: pbft_grows_def)

lemma grows_refl [simp]: "pbft_grows s s"
  by (rule grows_same) simp_all

lemma backed_grows: "pbft_grows s t \<Longrightarrow> backed s m \<Longrightarrow> backed t m"
  unfolding pbft_grows_def backed_def by fastforce

lemma handlers_grow:
  "pbft_grows s (handlePrepare sha i m s)" "pbft_grows s (handleCommit i m s)" "pbft_grows s (handleReply i m s)"
proof -
  show "pbft_grows s (handlePrepare sha i m s)" by (auto simp: handlePrepare_def Let_def intro: grows_put split: option.split)
  show "pbft_grows s (handleCommit i m s)" by (auto simp: handleCommit_def Let_def intro: grows_put split: option.split)
  have "pbft_grows s ((put_pnode i n' t)\<lparr>pb_pendingReqs := ps\<rparr>)"
    if "go_get (pb_nodes s) i = Some n" "pn_MessageLog n' = pn_MessageLog n @ []" "pb_nodes t = pb_nodes s" "pb_faultCount t = pb_faultCount s"
    for n n' t ps
    using that by (auto simp: pbft_grows_def)
  then show "pbft_grows s (handleReply i m s)" by (auto simp: handleReply_def Let_def split: option.split)
qed

lemma receive_grow: "pbft_grows s (handlePrepareReceive i m s)" "pbft_grows s (handleCommitReceive i m s)"
proof -
  have 1: "pbft_grows s (handleCommit i m (put_pnode i n' s))" "pbft_grows s (handleReply i m (put_pnode i n' s))" "pbft_grows s (put_pnode i n' s)"
    if "go_get (pb_nodes s) i = Some n" "pn_MessageLog n' = pn_MessageLog n @ []" for n n'
    using grows_trans [OF grows_put [OF that]] handlers_grow that by (blast intro: grows_put)+
  show "pbft_grows s (handlePrepareReceive i m s)" by (auto simp: handlePrepareReceive_def Let_def intro!: 1 split: option.split)
  show "pbft_grows s (handleCommitReceive i m s)" by (auto simp: handleCommitReceive_def Let_def intro!: 1 split: option.split)
qed

lemma deliver_grows: "pbft_grows s (deliverMessage sha m i s)"
proof (cases "go_get (pb_nodes s) i")
  case (Some n)
  have "pbft_grows s (put_pnode i (n\<lparr>pn_MessageLog := pn_MessageLog n @ [m]\<rparr>) s)" by (rule grows_put [OF Some, of _ "[m]"]) simp
  with Some show ?thesis
    using grows_trans [OF _ handlers_grow(1)] grows_trans [OF _ receive_grow(1)] grows_trans [OF _ receive_grow(2)]
    by (simp add: deliverMessage_def Let_def)
qed (simp add: deliverMessage_def)

lemma deliver_all_inv: "pbft_inv s \<Longrightarrow> backed s m \<Longrightarrow> pbft_inv (fold (deliverMessage sha m) is s)"
  by (induction "is" arbitrary: s) (auto intro: deliverMessage_inv backed_grows deliver_grows)

lemma process_inv: "pbft_inv s \<Longrightarrow> pbft_inv (processMessageQueue sha s)"
proof (cases "pb_queue s")
  case (Cons m q)
  assume inv: "pbft_inv s"
  then have "backed s m" "pbft_inv (s\<lparr>pb_queue := q\<rparr>)" using Cons by (auto simp: pbft_inv_def backed_same [of "s\<lparr>pb_queue := q\<rparr>" s])
  then show ?thesis using Cons backed_same [of "s\<lparr>pb_queue := q\<rparr>" s]
    by (simp add: processMessageQueue_def Let_def deliverMessage_inv deliver_all_inv)
qed (simp add: processMessageQueue_def)

lemma sync_inv: "Pbft_syncTeachingState s = Inr t \<Longrightarrow> pbft_inv t = pbft_inv s \<and> pb_faultCount t = pb_faultCount s \<and> pb_nodes t = pb_nodes s"
  by (auto simp: Pbft_syncTeachingState_def go_bind_eq_Inr Let_def)

lemma show_simps [simp]: "pbft_inv (show_node i s) = pbft_inv s" "pb_faultCount (show_node i s) = pb_faultCount s" "pb_nodes (show_node i s) = pb_nodes s"
  by (simp_all add: show_node_def split: option.split)

lemma shows_simps [simp]: "pbft_inv (fold show_node is s) = pbft_inv s" "pb_faultCount (fold show_node is s) = pb_faultCount s"
    "pb_nodes (fold show_node is s) = pb_nodes s"
  by (induction "is" arbitrary: s) simp_all

lemma update_inv: "updateNodeStates ord s = Inr t \<Longrightarrow> pbft_inv t = pbft_inv s \<and> pb_faultCount t = pb_faultCount s"
  using sync_inv [of "fold show_node ord s" t] by (simp add: updateNodeStates_def)

lemma submit_inv:
  assumes "submitRequest sha d s = Inr t" and "pbft_inv s"
  shows "pbft_inv t \<and> pb_faultCount t = pb_faultCount s"
proof -
  have base: "pbft_inv (s\<lparr>pb_currentSeq := q, pb_pendingReqs := r\<rparr>)" for q r by (rule inv_same [OF assms(2)]) simp_all
  have "pb_faultCount (fold (queueMessage m) ts v) = pb_faultCount v" for m ts v by (induction ts arbitrary: v) simp_all
  then have "pb_faultCount (handlePrePrepare p req u) = pb_faultCount u" for p req u
    by (simp add: handlePrePrepare_def Let_def split: option.split)
  then show ?thesis
    using assms(1) by (auto simp: submitRequest_def Let_def go_bind_eq_Inr intro!: handlePrePrepare_inv base)
qed

text \<open>A tick, an action or a fault, at any time.\<close>

inductive pbft_step :: "(string \<Rightarrow> byte list) \<Rightarrow> PBFTSimulator \<Rightarrow> PBFTSimulator \<Rightarrow> bool" for sha where
  tick: "Pbft_onTick sha ord v k s = Inr t \<Longrightarrow> pbft_step sha s t"
| action: "Pbft_ExecuteAction sha ord now a ps s = Inr (r, t) \<Longrightarrow> pbft_step sha s t"
| fault: "Pbft_InjectFault ord f s = Inr t \<Longrightarrow> pbft_step sha s t"

lemma process_fault_count: "pb_faultCount (processMessageQueue sha s) = pb_faultCount s"
proof -
  have 1: "pb_faultCount (deliverMessage sha m i s) = pb_faultCount s" for m i s using deliver_grows [of s sha m i] by (simp add: pbft_grows_def)
  have "pb_faultCount (fold (deliverMessage sha m) is s) = pb_faultCount s" for m "is" s by (induction "is" arbitrary: s) (simp_all add: 1)
  with 1 show ?thesis by (simp add: processMessageQueue_def Let_def split: list.split)
qed

lemma get_map: "go_get (map (\<lambda>(i, n). (i, f n)) m) i = map_option f (go_get m i)"
  unfolding go_get_def by (induction m) auto

lemma new_view_simps [simp]: "pn_MessageLog (new_view v n) = pn_MessageLog n" "counted (new_view v n) = counted n"
  by (simp_all add: new_view_def counted_def)

lemma inv_new_view:
  assumes "pbft_inv s" and "pb_nodes t = map (\<lambda>(i, n). (i, new_view v n)) (pb_nodes s)" and "pb_faultCount t = pb_faultCount s"
    and "pb_queue t = pb_queue s" and "pb_committed t = pb_committed s"
  shows "pbft_inv t"
proof -
  have "backed t m = backed s m" for m by (auto simp: backed_def assms(2,3) get_map)
  then show ?thesis using assms(1) unfolding pbft_inv_def assms(2-5) get_map by fastforce
qed

lemma make_primary_inv: "pbft_inv s \<Longrightarrow> pbft_inv (make_primary p s)"
proof (cases "go_get (pb_nodes s) p")
  case (Some n)
  assume inv: "pbft_inv s"
  then show ?thesis using Some inv_counted [OF inv Some]
    by (simp add: make_primary_def) (rule inv_grow [OF inv Some, of _ "[]"], simp_all add: counted_def)
qed (simp add: make_primary_def)

lemma view_change_inv:
  assumes "TriggerViewChange s = Inr t" and "pbft_inv s"
  shows "pbft_inv t \<and> pb_faultCount t = pb_faultCount s"
proof -
  have "pbft_inv (s\<lparr>pb_currentView := w, pb_calls := cs, pb_nodes := map (\<lambda>(i, n). (i, new_view v n)) (pb_nodes s)\<rparr>)" for w v cs
    by (rule inv_new_view [OF assms(2), where v = v]) simp_all
  moreover have "pb_faultCount (make_primary p u) = pb_faultCount u" for p u by (simp add: make_primary_def split: option.split)
  ultimately show ?thesis using assms(1)
    by (auto simp: TriggerViewChange_def Let_def go_bind_eq_Inr bcall_def [of _ "s\<lparr>pb_currentView := _\<rparr>"] intro!: make_primary_inv)
qed

lemma pbft_step_inv:
  assumes "pbft_step sha s t" and "pbft_inv s"
  shows "pbft_inv t \<and> pb_faultCount t = pb_faultCount s"
  using assms
proof (cases rule: pbft_step.cases)
  case (tick ord v k)
  let ?s = "processMessageQueue sha s"
  obtain u where u: "(if auto_request v \<and> (k = 1 \<or> k mod 4 = 0) \<and> pb_pendingReqs ?s = [] then submitRequest sha (''request-'' @ itoa (unat k)) ?s else Inr ?s) = Inr u"
      "updateNodeStates ord u = Inr t"
    using tick by (auto simp: Pbft_onTick_def Let_def go_bind_eq_Inr)
  have "pbft_inv u \<and> pb_faultCount u = pb_faultCount s"
    using u(1) submit_inv [of sha "''request-'' @ itoa (unat k)" ?s u] process_inv [OF assms(2), of sha] process_fault_count [of sha s] by (auto split: if_splits)
  then show ?thesis using update_inv [OF u(2)] by simp
next
  case (action ord now a ps r)
  have "pbft_inv t \<and> pb_faultCount t = pb_faultCount s" if "updateNodeStates ord u = Inr t" "pbft_inv u \<and> pb_faultCount u = pb_faultCount s" for u
    using update_inv [OF that(1)] that(2) by simp
  with action assms(2) submit_inv view_change_inv show ?thesis
    unfolding Pbft_ExecuteAction_def by (auto simp: go_bind_eq_Inr split: if_splits)
next
  case (fault ord f)
  show ?thesis
  proof (cases "go_get (pb_nodes s) (fl_Target f)")
    case (Some n)
    have "pbft_inv (put_pnode (fl_Target f) (n\<lparr>pn_IsByzantine := True, pn_ByzBehavior := b\<rparr>) s)" for b
      using inv_counted [OF assms(2) Some] by (intro inv_grow [OF assms(2) Some, of _ "[]"]) (simp_all add: counted_def)
    then show ?thesis using Some fault update_inv by (fastforce simp: Pbft_InjectFault_def Let_def go_bind_eq_Inr)
  qed (use fault assms(2) in \<open>simp add: Pbft_InjectFault_def\<close>)
qed

interpretation pbft: step_system "\<lambda>s. pbft_inv s \<and> pb_faultCount s = f" "pbft_step sha" "\<lambda>s. pbft_inv s \<and> pb_faultCount s = f" for f sha
  by unfold_locales (use pbft_step_inv in auto)

text \<open>After the initialisation nothing was received or counted.\<close>

definition pbft_blank :: "PBFTSimulator \<Rightarrow> bool" where
  "pbft_blank s \<longleftrightarrow> pb_queue s = [] \<and> pb_committed s = [] \<and>
     (\<forall>i n. go_get (pb_nodes s) i = Some n \<longrightarrow> pn_MessageLog n = [] \<and> pn_PrepareCount n = [] \<and> pn_CommitCount n = [])"

lemma blank_inv: "pbft_blank s \<Longrightarrow> pbft_inv s"
  by (simp add: pbft_blank_def pbft_inv_def counted_def)

lemma add_nodes_blank: "pbft_blank s \<Longrightarrow> pbft_blank (fold (add_pnode b) is s) \<and> pb_faultCount (fold (add_pnode b) is s) = pb_faultCount s"
proof (induction "is" arbitrary: s)
  case (Cons i js)
  have "pbft_blank (add_pnode b i s)"
    using Cons.prems by (auto simp: pbft_blank_def add_pnode_def Let_def fresh_pnode_def bcall_def put_pnode_def split: if_splits)
  moreover have "pb_faultCount (add_pnode b i s) = pb_faultCount s" by (simp add: add_pnode_def Let_def)
  ultimately show ?case using Cons.IH [of "add_pnode b i s"] by simp
qed simp

lemma Pbft_Init_inv:
  assumes "Pbft_Init n b ord s0 = Inr s" and "0 < n"
  shows "pbft_inv s \<and> pb_faultCount s = (n - 1) div 3"
proof -
  define v where "v = s0\<lparr>pb_nodeCount := n, pb_faultCount := (n - 1) div 3, pb_currentView := 0, pb_currentSeq := 0,
    pb_nodes := [], pb_nodeList := [], pb_queue := [], pb_pendingReqs := [], pb_committed := []\<rparr>"
  define u where "u = fold (add_pnode b) [0..<nat n] v"
  have "pbft_blank v" by (simp add: pbft_blank_def v_def)
  from add_nodes_blank [OF this] have u: "pbft_blank u \<and> pb_faultCount u = (n - 1) div 3" by (simp add: u_def v_def)
  obtain w where "updateNodeStates ord w = Inr s" "pbft_inv w = pbft_inv u" "pb_faultCount w = pb_faultCount u"
    using assms by (auto simp: Pbft_Init_def Let_def go_bind_eq_Inr v_def [symmetric] u_def [symmetric])
  from update_inv [OF this(1)] this(2,3) u blank_inv show ?thesis by simp
qed

text \<open>C7. Quorum certificates.  In every run of a cluster of n nodes, with any ticks, requests, faults and view
  changes, a digest that is committed has been received by some node in at least 2f+1 COMMIT messages, where
  f is the number of faults n nodes tolerate, and every such message comes from a node that has received the
  digest in at least 2f+1 PRE-PREPARE and PREPARE messages.\<close>

theorem Pbft_quorum:
  assumes "Pbft_Init n b ord s0 = Inr s" and "0 < n" and "(pbft_step sha)\<^sup>*\<^sup>* s t" and "d \<in> set (pb_committed t)"
  shows "\<exists>i node. go_get (pb_nodes t) i = Some node \<and> 2 * ((n - 1) div 3) + 1 \<le> int (commits d (pn_MessageLog node)) \<and>
    (\<forall>m \<in> set (pn_MessageLog node). pm_Type m = ''COMMIT'' \<longrightarrow> (\<exists>sender. go_get (pb_nodes t) (pm_From m) = Some sender \<and>
       2 * ((n - 1) div 3) + 1 \<le> int (prepares (pm_Digest m) (pn_MessageLog sender))))"
proof -
  have "pbft_inv t \<and> pb_faultCount t = (n - 1) div 3" using pbft.steps_inv [OF assms(3)] Pbft_Init_inv [OF assms(1,2)] by blast
  then show ?thesis using assms(4) unfolding pbft_inv_def backed_def by metis
qed

subsection \<open>Runs\<close>

datatype pbft_cmd = PTick | PRequest string | PFault NodeID string

definition pbft_exec :: "(string \<Rightarrow> byte list) \<Rightarrow> pbft_cmd \<Rightarrow> PBFTSimulator \<Rightarrow> PBFTSimulator go" where
  "pbft_exec sha c s =
     (case c of
        PTick \<Rightarrow> Pbft_onTick sha [] (GBool False) 1 s
      | PRequest d \<Rightarrow> map_sum id snd (Pbft_ExecuteAction sha [] 0 ''submit_request'' [(''payload'', GStr d)] s)
      | PFault i b \<Rightarrow> Pbft_InjectFault [] \<lparr>fl_ID = ''f'', fl_Type = ''byzantine'', fl_Target = i, fl_Params = Some [(''behavior'', GStr b)],
          fl_StartTick = 0, fl_Duration = 0, fl_Active = True\<rparr> s)"

fun pbft_execs :: "(string \<Rightarrow> byte list) \<Rightarrow> pbft_cmd list \<Rightarrow> PBFTSimulator \<Rightarrow> PBFTSimulator go" where
  "pbft_execs sha [] s = Inr s"
| "pbft_execs sha (c # cs) s = go_bind (pbft_exec sha c s) (pbft_execs sha cs)"

definition pbft_run :: "int \<Rightarrow> pbft_cmd list \<Rightarrow> PBFTSimulator go" where
  "pbft_run n cs = go_bind (Pbft_Init n 0 [] NewPBFTSimulator) (pbft_execs (\<lambda>x. [of_nat (length x)]) cs)"

text \<open>What is committed, the number of messages in the queue, and the sequence each node has committed.\<close>

definition pbft_result :: "PBFTSimulator \<Rightarrow> string list \<times> nat \<times> (NodeID \<times> u64) list" where
  "pbft_result s = (pb_committed s, length (pb_queue s), map (\<lambda>(i, n). (i, pn_CommittedSeq n)) (pb_nodes s))"

lemma pbft_exec_step: "pbft_exec sha c s = Inr t \<Longrightarrow> pbft_step sha s t"
proof (cases c)
  case (PRequest d)
  assume "pbft_exec sha c s = Inr t"
  then obtain r where "Pbft_ExecuteAction sha [] 0 ''submit_request'' [(''payload'', GStr d)] s = Inr (r, t)"
    using PRequest by (cases "Pbft_ExecuteAction sha [] 0 ''submit_request'' [(''payload'', GStr d)] s") (auto simp: pbft_exec_def)
  then show ?thesis by (rule pbft_step.action)
qed (auto simp: pbft_exec_def intro: pbft_step.intros)

lemma pbft_execs_steps: "pbft_execs sha cs s = Inr t \<Longrightarrow> (pbft_step sha)\<^sup>*\<^sup>* s t"
proof (induction cs arbitrary: s)
  case (Cons c cs)
  then obtain u where "pbft_exec sha c s = Inr u" "(pbft_step sha)\<^sup>*\<^sup>* u t" by (auto simp: go_bind_eq_Inr)
  then show ?case by (meson converse_rtranclp_into_rtranclp pbft_exec_step)
qed simp

lemma demo_commits: "map_sum id pb_committed (pbft_run 4 (PRequest ''abc'' # replicate 11 PTick)) = Inr [''03'']"
  by code_simp

theorem Pbft_quorum_witness:
  "\<exists>(t :: PBFTSimulator) i (node :: PBFTNode). ''03'' \<in> set (pb_committed t) \<and> go_get (pb_nodes t) i = Some node \<and> 3 \<le> int (commits ''03'' (pn_MessageLog node))"
proof -
  obtain t where t: "pbft_run 4 (PRequest ''abc'' # replicate 11 PTick) = Inr t" "pb_committed t = [''03'']"
    using demo_commits by (cases "pbft_run 4 (PRequest ''abc'' # replicate 11 PTick)") auto
  then obtain s where s: "Pbft_Init 4 0 [] NewPBFTSimulator = Inr s" "pbft_execs (\<lambda>x. [of_nat (length x)]) (PRequest ''abc'' # replicate 11 PTick) s = Inr t"
    unfolding pbft_run_def by (auto simp only: go_bind_eq_Inr)
  have "''03'' \<in> set (pb_committed t)" using t(2) by simp
  moreover have "(0 :: int) < 4" by simp
  ultimately obtain i node where "go_get (pb_nodes t) i = Some node" "3 \<le> int (commits ''03'' (pn_MessageLog node))"
    using Pbft_quorum [OF s(1) _ pbft_execs_steps [OF s(2)], of "''03''"] by auto
  with \<open>''03'' \<in> set (pb_committed t)\<close> show ?thesis by blast
qed

text \<open>A run: a cluster of four correct nodes commits a request at every node.\<close>

theorem Pbft_commits:
  "map_sum id pbft_result (pbft_run 4 (PRequest ''abc'' # replicate 11 PTick)) =
    Inr ([''03''], 0, [(''node-0'', 1), (''node-1'', 1), (''node-2'', 1), (''node-3'', 1)])"
  by code_simp

text \<open>A cluster of four nodes should tolerate one fault, but does not: when one node is silent, every message
  is delivered and nothing is committed, as no node counts its own PREPARE.\<close>

theorem Pbft_fault_stalls:
  "map_sum id pbft_result (pbft_run 4 ([PFault ''node-3'' ''ignore'', PRequest ''abc''] @ replicate 9 PTick)) =
    Inr ([], 0, [(''node-0'', 0), (''node-1'', 0), (''node-2'', 0), (''node-3'', 0)])"
  by code_simp

end
