(* ===== verification/Bridge.thy ===== *)
theory Bridge
  imports SimText
begin

section \<open>Bridges: \<open>simulations/modules/crosschain/bridge.go\<close>\<close>

text \<open>
  A bridge between chains: transactions that lock on one chain, are confirmed, signed by validators
  and mint on the other, and pools that pay out at once.  Transactions, pools and validators are
  objects that only their tables hold, so the tables hold their values, except the liquidity of a
  pool: the two sides of an initial pool are one \<open>big.Int\<close>, so \<open>br_bigs\<close> is the store of these
  numbers and the pools hold indices into it.  The clock is an argument; the readings within one
  operation are taken to be one.  The texts that explain are left out.
\<close>

datatype BridgeType = BridgeLockMint | BridgeBurnUnlock | BridgeLiquidity | BridgeNative | OtherBridge string

fun bridge_type_of :: "string \<Rightarrow> BridgeType" where
  "bridge_type_of t =
     (if t = ''lock_mint'' then BridgeLockMint else if t = ''burn_unlock'' then BridgeBurnUnlock
      else if t = ''liquidity'' then BridgeLiquidity else if t = ''native'' then BridgeNative else OtherBridge t)"

fun bridge_type_text :: "BridgeType \<Rightarrow> string" where
  "bridge_type_text BridgeLockMint = ''lock_mint''"
| "bridge_type_text BridgeBurnUnlock = ''burn_unlock''"
| "bridge_type_text BridgeLiquidity = ''liquidity''"
| "bridge_type_text BridgeNative = ''native''"
| "bridge_type_text (OtherBridge t) = t"

datatype BridgeTxStatus =
    BridgeTxPending | BridgeTxConfirmed | BridgeTxSigned | BridgeTxExecuted | BridgeTxCompleted
  | BridgeTxFailed | BridgeTxChallenged

fun tx_status_text :: "BridgeTxStatus \<Rightarrow> string" where
  "tx_status_text BridgeTxPending = ''pending''"
| "tx_status_text BridgeTxConfirmed = ''confirmed''"
| "tx_status_text BridgeTxSigned = ''signed''"
| "tx_status_text BridgeTxExecuted = ''executed''"
| "tx_status_text BridgeTxCompleted = ''completed''"
| "tx_status_text BridgeTxFailed = ''failed''"
| "tx_status_text BridgeTxChallenged = ''challenged''"

record BridgeTransaction =
  bt_ID :: string
  bt_User :: string
  bt_SourceChain :: string
  bt_DestChain :: string
  bt_Token :: string
  bt_WrappedToken :: string
  bt_Amount :: int
  bt_Fee :: int
  bt_Status :: BridgeTxStatus
  bt_SourceTxHash :: string
  bt_DestTxHash :: string
  bt_Confirmations :: int
  bt_RequiredConfirm :: int
  bt_Signatures :: "string list"
  bt_RequiredSigs :: int
  bt_MerkleProof :: "string list"
  bt_ChallengeEnd :: gtime
  bt_CreatedAt :: gtime
  bt_ConfirmedAt :: gtime
  bt_CompletedAt :: gtime

record BridgePool =
  bp_ID :: string
  bp_Token :: string
  bp_SourceChain :: string
  bp_DestChain :: string
  bp_SourceLocked :: int
  bp_DestMinted :: int
  bp_SourceLiquidity :: nat
  bp_DestLiquidity :: nat
  bp_FeePercent :: f64
  bp_TotalVolume :: int
  bp_TxCount :: int

record BridgeValidator =
  bv_Address :: string
  bv_PublicKey :: string
  bv_Stake :: int
  bv_VotingPower :: f64
  bv_IsActive :: bool
  bv_SignedCount :: int
  bv_MissedCount :: int
  bv_SlashedAmt :: int
  bv_JoinedAt :: gtime
  bv_LastActiveAt :: gtime

record ChainConfig =
  cc_ChainID :: string
  cc_ChainName :: string
  cc_ChainType :: string
  cc_BlockTime :: int
  cc_Finality :: int
  cc_BridgeContract :: string
  cc_NativeToken :: string
  cc_GasPrice :: int

record BridgeSimulator =
  br_bigs :: "int list"
  br_bridgeType :: BridgeType
  br_securityModel :: string
  br_transactions :: "(string, BridgeTransaction) gomap"
  br_pools :: "(string, BridgePool) gomap"
  br_validators :: "(string, BridgeValidator) gomap"
  br_chains :: "(string, ChainConfig) gomap"
  br_requiredSigs :: int
  br_confirmations :: int
  br_challengePeriod :: int
  br_totalBridged :: int
  br_totalFees :: int
  br_calls :: "base_call list"

text \<open>
  What the bridge uses of its surroundings: SHA-256, the text of a time in the local zone, the
  transactions from the newest to the oldest (those of one instant in any order), and the value of a
  conversion out of range.
\<close>

record bridge_env =
  be_sha :: "byte list \<Rightarrow> byte list"
  be_stamp :: "int \<Rightarrow> string"
  be_recent :: "(string, BridgeTransaction) gomap \<Rightarrow> BridgeTransaction list"
  be_oob :: int

datatype bridge_err =
    NoSourceChain | NoDestChain | NoBridgeTx | TxNotPending BridgeTxStatus | TxNotReady BridgeTxStatus | NoValidator
  | ValidatorInactive | AlreadySigned | TooFewSignatures nat int | ChallengeOpen | NoLiquidityPool | LowLiquidity
  | UnsupportedBridgeAction string

definition brcall :: "base_call \<Rightarrow> BridgeSimulator \<Rightarrow> BridgeSimulator" where
  "brcall c s = s\<lparr>br_calls := br_calls s @ [c]\<rparr>"

definition pool_key :: "string \<Rightarrow> string \<Rightarrow> string \<Rightarrow> string" where
  "pool_key token src dst = token @ ''-'' @ src @ ''-'' @ dst"

definition NewBridgeSimulator :: BridgeSimulator where
  "NewBridgeSimulator = \<lparr>br_bigs = [], br_bridgeType = OtherBridge [], br_securityModel = [], br_transactions = [],
     br_pools = [], br_validators = [], br_chains = [], br_requiredSigs = 0, br_confirmations = 0, br_challengePeriod = 0,
     br_totalBridged = 0, br_totalFees = 0, br_calls = []\<rparr>"

subsection \<open>What is shown\<close>

definition time_text :: "bridge_env \<Rightarrow> gtime \<Rightarrow> gval" where
  "time_text v t = GStr (case t of None \<Rightarrow> [] | Some n \<Rightarrow> be_stamp v n)"

definition show_tx :: "bridge_env \<Rightarrow> BridgeTransaction \<Rightarrow> gval" where
  "show_tx v tx =
     GMap [(''id'', GStr (bt_ID tx)), (''user'', GStr (bt_User tx)), (''source_chain'', GStr (bt_SourceChain tx)),
       (''dest_chain'', GStr (bt_DestChain tx)), (''token'', GStr (bt_Token tx)), (''wrapped_token'', GStr (bt_WrappedToken tx)),
       (''amount'', big_text (bt_Amount tx)), (''fee'', big_text (bt_Fee tx)), (''status'', GStr (tx_status_text (bt_Status tx))),
       (''confirmations'', GInt (bt_Confirmations tx)), (''required_confirm'', GInt (bt_RequiredConfirm tx)),
       (''signatures'', GInt (int (length (bt_Signatures tx)))), (''required_sigs'', GInt (bt_RequiredSigs tx)),
       (''source_tx_hash'', GStr (bt_SourceTxHash tx)), (''dest_tx_hash'', GStr (bt_DestTxHash tx)),
       (''challenge_end'', time_text v (bt_ChallengeEnd tx)), (''created_at'', GStr (be_stamp v (time_nanos (bt_CreatedAt tx)))),
       (''confirmed_at'', time_text v (bt_ConfirmedAt tx)), (''completed_at'', time_text v (bt_CompletedAt tx)),
       (''merkle_proof_count'', GInt (int (length (bt_MerkleProof tx))))]"

definition buildRecentTransactions :: "bridge_env \<Rightarrow> BridgeSimulator \<Rightarrow> gval list" where
  "buildRecentTransactions v s = map (show_tx v) (take 5 (be_recent v (br_transactions s)))"

definition big_at :: "BridgeSimulator \<Rightarrow> nat \<Rightarrow> int" where
  "big_at s a = (if a < length (br_bigs s) then br_bigs s ! a else 0)"

definition show_pool :: "BridgeSimulator \<Rightarrow> BridgePool \<Rightarrow> gval" where
  "show_pool s p =
     GMap [(''id'', GStr (bp_ID p)), (''token'', GStr (bp_Token p)), (''source_chain'', GStr (bp_SourceChain p)),
       (''dest_chain'', GStr (bp_DestChain p)), (''source_locked'', big_text (bp_SourceLocked p)),
       (''dest_minted'', big_text (bp_DestMinted p)), (''source_liquidity'', big_text (big_at s (bp_SourceLiquidity p))),
       (''dest_liquidity'', big_text (big_at s (bp_DestLiquidity p))), (''fee_percent'', GFloat (bp_FeePercent p)),
       (''total_volume'', big_text (bp_TotalVolume p)), (''tx_count'', GInt (bp_TxCount p))]"

text \<open>The entries of a table in the order of their keys, the first \<open>n\<close> of them.\<close>

definition first_entries :: "nat \<Rightarrow> (string, 'a) gomap \<Rightarrow> (string \<times> 'a) list" where
  "first_entries n m = map (\<lambda>k. (k, the (go_get m k))) (take n (sort_strings (go_keys m)))"

definition buildPoolSnapshots :: "BridgeSimulator \<Rightarrow> gval list" where
  "buildPoolSnapshots s = map (\<lambda>(k, p). show_pool s p) (first_entries 6 (br_pools s))"

definition buildValidatorOverview :: "BridgeSimulator \<Rightarrow> gval list" where
  "buildValidatorOverview s =
     map (\<lambda>(k, w). GMap [(''name'', GStr k), (''address'', GStr (bv_Address w)), (''stake'', big_text (bv_Stake w)),
         (''voting_power'', GFloat (bv_VotingPower w)), (''is_active'', GBool (bv_IsActive w)),
         (''signed_count'', GInt (bv_SignedCount w)), (''missed_count'', GInt (bv_MissedCount w)),
         (''slashed_amount'', big_text (bv_SlashedAmt w))])
       (first_entries 7 (br_validators s))"

definition buildChainOverview :: "BridgeSimulator \<Rightarrow> gval list" where
  "buildChainOverview s =
     map (\<lambda>(k, c). GMap [(''chain_id'', GStr (cc_ChainID c)), (''chain_name'', GStr (cc_ChainName c)),
         (''chain_type'', GStr (cc_ChainType c)), (''block_time'', GStr (duration_text (cc_BlockTime c))),
         (''finality_blocks'', GInt (cc_Finality c)), (''bridge_contract'', GStr (cc_BridgeContract c)),
         (''native_token'', GStr (cc_NativeToken c)), (''gas_price'', big_text (cc_GasPrice c))])
       (first_entries (length (br_chains s)) (br_chains s))"

text \<open>The stage and the progress follow the newest transaction.\<close>

definition bridge_stage :: "BridgeTransaction list \<Rightarrow> string \<times> rat" where
  "bridge_stage txs =
     (case txs of
        [] \<Rightarrow> (''idle'', 0)
      | tx # _ \<Rightarrow> (tx_status_text (bt_Status tx), if bt_Status tx = BridgeTxCompleted then 100 else 75))"

definition Bridge_updateState :: "bridge_env \<Rightarrow> BridgeSimulator \<Rightarrow> BridgeSimulator" where
  "Bridge_updateState v s =
     (case bridge_stage (take 5 (be_recent v (br_transactions s))) of (stage, progress) \<Rightarrow>
        fold brcall
         [CallGlobal ''bridge_type'' (GStr (bridge_type_text (br_bridgeType s))),
          CallGlobal ''security_model'' (GStr (br_securityModel s)),
          CallGlobal ''transaction_count'' (GInt (int (length (br_transactions s)))),
          CallGlobal ''pool_count'' (GInt (int (length (br_pools s)))),
          CallGlobal ''validator_count'' (GInt (int (length (br_validators s)))),
          CallGlobal ''chain_count'' (GInt (int (length (br_chains s)))),
          CallGlobal ''total_bridged'' (big_text (br_totalBridged s)),
          CallGlobal ''recent_transactions'' (GList (buildRecentTransactions v s)),
          CallGlobal ''bridge_pools'' (GList (buildPoolSnapshots s)),
          CallGlobal ''validator_overview'' (GList (buildValidatorOverview s)),
          CallGlobal ''chain_overview'' (GList (buildChainOverview s)),
          CallTeaching stage (Fin progress)
            [(''bridge_type'', GStr (bridge_type_text (br_bridgeType s))), (''security_model'', GStr (br_securityModel s)),
             (''transaction_count'', GInt (int (length (br_transactions s)))), (''total_bridged'', big_text (br_totalBridged s))]] s)"

subsection \<open>Initialisation, after the base simulator's own\<close>

definition initial_chains :: "(string, ChainConfig) gomap" where
  "initial_chains =
     [(''ethereum'', \<lparr>cc_ChainID = ''1'', cc_ChainName = ''Ethereum'', cc_ChainType = ''EVM'', cc_BlockTime = 12 * second,
        cc_Finality = 12, cc_BridgeContract = ''0x1234567890abcdef'', cc_NativeToken = ''ETH'', cc_GasPrice = 30000000000\<rparr>),
      (''polygon'', \<lparr>cc_ChainID = ''137'', cc_ChainName = ''Polygon'', cc_ChainType = ''EVM'', cc_BlockTime = 2 * second,
        cc_Finality = 256, cc_BridgeContract = ''0xabcdef1234567890'', cc_NativeToken = ''MATIC'', cc_GasPrice = 100000000000\<rparr>),
      (''arbitrum'', \<lparr>cc_ChainID = ''42161'', cc_ChainName = ''Arbitrum One'', cc_ChainType = ''EVM-L2'',
        cc_BlockTime = 250000000, cc_Finality = 1, cc_BridgeContract = ''0x2345678901abcdef'', cc_NativeToken = ''ETH'',
        cc_GasPrice = 100000000\<rparr>),
      (''optimism'', \<lparr>cc_ChainID = ''10'', cc_ChainName = ''Optimism'', cc_ChainType = ''EVM-L2'', cc_BlockTime = 2 * second,
        cc_Finality = 1, cc_BridgeContract = ''0x3456789012abcdef'', cc_NativeToken = ''ETH'', cc_GasPrice = 1000000\<rparr>),
      (''bsc'', \<lparr>cc_ChainID = ''56'', cc_ChainName = ''BNB Chain'', cc_ChainType = ''EVM'', cc_BlockTime = 3 * second,
        cc_Finality = 15, cc_BridgeContract = ''0x4567890123abcdef'', cc_NativeToken = ''BNB'', cc_GasPrice = 5000000000\<rparr>)]"

definition initializeChains :: "BridgeSimulator \<Rightarrow> BridgeSimulator" where
  "initializeChains s = s\<lparr>br_chains := initial_chains\<rparr>"

definition ether :: int where
  "ether = 1000000000000000000"

text \<open>One number for both sides of the pool.\<close>

definition initial_pool :: "string \<times> string \<times> string \<times> int \<times> int \<times> f64 \<Rightarrow> BridgeSimulator \<Rightarrow> BridgeSimulator" where
  "initial_pool p s =
     (case p of (token, src, dst, locked, liq, fee) \<Rightarrow>
        let key = pool_key token src dst; a = length (br_bigs s)
        in s\<lparr>br_bigs := br_bigs s @ [liq * ether],
             br_pools := go_put key \<lparr>bp_ID = key, bp_Token = token, bp_SourceChain = src, bp_DestChain = dst,
               bp_SourceLocked = locked * ether, bp_DestMinted = locked * ether, bp_SourceLiquidity = a, bp_DestLiquidity = a,
               bp_FeePercent = fee, bp_TotalVolume = 0, bp_TxCount = 0\<rparr> (br_pools s)\<rparr>)"

definition pool_table :: "(string \<times> string \<times> string \<times> int \<times> int \<times> f64) list" where
  "pool_table =
     [(''ETH'', ''ethereum'', ''polygon'', 1000, 500, lit (1 / 10)),
      (''ETH'', ''ethereum'', ''arbitrum'', 2000, 800, lit (1 / 20)),
      (''ETH'', ''ethereum'', ''optimism'', 1500, 600, lit (1 / 20)),
      (''USDC'', ''ethereum'', ''polygon'', 5000000, 2000000, lit (1 / 20)),
      (''USDC'', ''ethereum'', ''arbitrum'', 8000000, 3000000, lit (3 / 100))]"

definition initializePools :: "BridgeSimulator \<Rightarrow> BridgeSimulator" where
  "initializePools s = fold initial_pool pool_table s"

definition validator_table :: "(string \<times> int) list" where
  "validator_table =
     [(''Guardian-1'', 100000), (''Guardian-2'', 80000), (''Guardian-3'', 75000), (''Guardian-4'', 70000),
      (''Guardian-5'', 65000), (''Guardian-6'', 60000), (''Guardian-7'', 55000)]"

definition initial_validator :: "bridge_env \<Rightarrow> int \<Rightarrow> string \<times> int \<Rightarrow> BridgeSimulator \<Rightarrow> BridgeSimulator" where
  "initial_validator v now w s =
     (case w of (name, stake) \<Rightarrow>
        let h = be_sha v (str_bytes name); total = sum_list (map snd validator_table)
        in s\<lparr>br_validators := go_put name \<lparr>bv_Address = ''0x'' @ hex_encode (take 20 h), bv_PublicKey = hex_encode h,
             bv_Stake = stake * ether, bv_VotingPower = f64_div (f64_of_int stake) (f64_of_int total), bv_IsActive = True,
             bv_SignedCount = 0, bv_MissedCount = 0, bv_SlashedAmt = 0, bv_JoinedAt = Some (now - 720 * hour),
             bv_LastActiveAt = Some now\<rparr> (br_validators s)\<rparr>)"

definition initializeValidators :: "bridge_env \<Rightarrow> int \<Rightarrow> BridgeSimulator \<Rightarrow> BridgeSimulator" where
  "initializeValidators v now s = fold (initial_validator v now) validator_table s"

text \<open>A text among the parameters of the initialisation; an empty one counts, another kind of value does not.\<close>

definition plain_text :: "string \<Rightarrow> string \<Rightarrow> (string, gval) gomap \<Rightarrow> string" where
  "plain_text key dflt params = (case go_get params key of Some (GStr t) \<Rightarrow> t | _ \<Rightarrow> dflt)"

definition Bridge_Init :: "bridge_env \<Rightarrow> int \<Rightarrow> (string, gval) gomap \<Rightarrow> BridgeSimulator \<Rightarrow> BridgeSimulator" where
  "Bridge_Init v now params s =
     (let s = s\<lparr>br_bridgeType := bridge_type_of (plain_text ''bridge_type'' ''lock_mint'' params),
            br_securityModel := plain_text ''security_model'' ''multisig'' params,
            br_confirmations := int_param (be_oob v) ''required_confirmations'' 12 params,
            br_requiredSigs := int_param (be_oob v) ''required_signatures'' 5 params,
            br_challengePeriod := 168 * hour, br_transactions := [], br_pools := [], br_validators := [], br_chains := [],
            br_totalBridged := 0, br_totalFees := 0\<rparr>
      in Bridge_updateState v (initializeValidators v now (initializePools (initializeChains s))))"

subsection \<open>Explanations\<close>

definition ExplainSecurityModels :: "BridgeSimulator \<Rightarrow> gval" where
  "ExplainSecurityModels s =
     GMap [(''multisig'', GMap [(''threshold'', GStr (int_text 10 (br_requiredSigs s) @ ''/'' @ itoa (length (br_validators s))))]),
       (''optimistic'', GMap [(''challenge_period'', GStr (duration_text (br_challengePeriod s)))]),
       (''zkproof'', GMap []), (''lightclient'', GMap [])]"

subsection \<open>The life of a transaction\<close>

text \<open>\<open>SourceLocked\<close>, \<open>TotalVolume\<close>, \<open>TxCount\<close> of the pool of a new transaction.\<close>

definition lock_in_pool :: "int \<Rightarrow> BridgePool \<Rightarrow> BridgePool" where
  "lock_in_pool amount p =
     p\<lparr>bp_SourceLocked := bp_SourceLocked p + amount, bp_TotalVolume := bp_TotalVolume p + amount, bp_TxCount := bp_TxCount p + 1\<rparr>"

text \<open>The pool of a route, made when there is none yet; then it has two numbers of its own.\<close>

definition ensure_pool :: "string \<Rightarrow> string \<Rightarrow> string \<Rightarrow> BridgeSimulator \<Rightarrow> BridgePool \<times> BridgeSimulator" where
  "ensure_pool token src dst s =
     (let key = pool_key token src dst; a = length (br_bigs s) in
      case go_get (br_pools s) key of
        Some p \<Rightarrow> (p, s)
      | None \<Rightarrow>
          let p = \<lparr>bp_ID = key, bp_Token = token, bp_SourceChain = src, bp_DestChain = dst, bp_SourceLocked = 0,
                bp_DestMinted = 0, bp_SourceLiquidity = a, bp_DestLiquidity = a + 1, bp_FeePercent = lit (1 / 10),
                bp_TotalVolume = 0, bp_TxCount = 0\<rparr>
          in (p, s\<lparr>br_bigs := br_bigs s @ [0, 0], br_pools := go_put key p (br_pools s)\<rparr>))"

definition pool_fee :: "bridge_env \<Rightarrow> BridgePool \<Rightarrow> int \<Rightarrow> int" where
  "pool_fee v p amount = big_div (amount * fee_units (be_oob v) (bp_FeePercent p)) 100000"

definition bridge_hash :: "bridge_env \<Rightarrow> int \<Rightarrow> string \<Rightarrow> string \<Rightarrow> string \<Rightarrow> byte list" where
  "bridge_hash v now user src dst = be_sha v (str_bytes (user @ ''-'' @ src @ ''-'' @ dst @ ''-'' @ int_text 10 now))"

definition bridge_id :: "byte list \<Rightarrow> string" where
  "bridge_id h = ''bridge-'' @ hex_encode (take 8 h)"

definition new_tx ::
  "int \<Rightarrow> byte list \<Rightarrow> string \<Rightarrow> string \<Rightarrow> string \<Rightarrow> string \<Rightarrow> int \<Rightarrow> int \<Rightarrow> ChainConfig \<Rightarrow> BridgeSimulator \<Rightarrow> BridgeTransaction" where
  "new_tx now h user src dst token amount fee chain s =
     \<lparr>bt_ID = bridge_id h, bt_User = user, bt_SourceChain = src, bt_DestChain = dst, bt_Token = token,
       bt_WrappedToken = ''w'' @ token, bt_Amount = amount, bt_Fee = fee, bt_Status = BridgeTxPending,
       bt_SourceTxHash = ''0x'' @ hex_encode h, bt_DestTxHash = [], bt_Confirmations = 0,
       bt_RequiredConfirm = cc_Finality chain, bt_Signatures = [], bt_RequiredSigs = br_requiredSigs s, bt_MerkleProof = [],
       bt_ChallengeEnd = (if br_securityModel s = ''optimistic'' then Some (now + br_challengePeriod s) else None),
       bt_CreatedAt = Some now, bt_ConfirmedAt = None, bt_CompletedAt = None\<rparr>"

definition InitiateBridge ::
  "bridge_env \<Rightarrow> int \<Rightarrow> string \<Rightarrow> string \<Rightarrow> string \<Rightarrow> string \<Rightarrow> int \<Rightarrow> BridgeSimulator \<Rightarrow>
   (bridge_err + string) \<times> BridgeSimulator" where
  "InitiateBridge v now user src dst token amount s =
     (case go_get (br_chains s) src of
        None \<Rightarrow> (Inl NoSourceChain, s)
      | Some chain \<Rightarrow>
          if go_get (br_chains s) dst = None then (Inl NoDestChain, s)
          else
            case ensure_pool token src dst s of (p, s) \<Rightarrow>
              let fee = pool_fee v p amount;
                  h = bridge_hash v now user src dst;
                  i = bridge_id h;
                  tx = new_tx now h user src dst token amount fee chain s;
                  s = s\<lparr>br_transactions := go_put i tx (br_transactions s),
                    br_pools := go_put (pool_key token src dst) (lock_in_pool amount p) (br_pools s),
                    br_totalBridged := br_totalBridged s + amount, br_totalFees := br_totalFees s + fee\<rparr>;
                  s = brcall (CallEmit ''bridge_initiated'' [] [] (Some [(''tx_id'', GStr i), (''user'', GStr user),
                    (''source_chain'', GStr src), (''dest_chain'', GStr dst), (''token'', GStr token),
                    (''amount'', big_text amount), (''fee'', big_text fee),
                    (''required_confirmations'', GInt (cc_Finality chain))])) s
              in (Inr i, Bridge_updateState v s))"

definition put_tx :: "string \<Rightarrow> BridgeTransaction \<Rightarrow> BridgeSimulator \<Rightarrow> BridgeSimulator" where
  "put_tx i tx s = s\<lparr>br_transactions := go_put i tx (br_transactions s)\<rparr>"

definition ConfirmTransaction ::
  "bridge_env \<Rightarrow> int \<Rightarrow> string \<Rightarrow> int \<Rightarrow> BridgeSimulator \<Rightarrow> bridge_err option \<times> BridgeSimulator" where
  "ConfirmTransaction v now txID confirmations s =
     (case go_get (br_transactions s) txID of
        None \<Rightarrow> (Some NoBridgeTx, s)
      | Some tx \<Rightarrow>
          if bt_Status tx \<noteq> BridgeTxPending then (Some (TxNotPending (bt_Status tx)), s)
          else
            let tx = tx\<lparr>bt_Confirmations := confirmations\<rparr>;
                s = (if bt_RequiredConfirm tx \<le> confirmations
                     then brcall (CallEmit ''bridge_confirmed'' [] [] (Some [(''tx_id'', GStr txID), (''confirmations'', GInt confirmations)]))
                       (put_tx txID (tx\<lparr>bt_Status := BridgeTxConfirmed, bt_ConfirmedAt := Some now\<rparr>) s)
                     else put_tx txID tx s)
            in (None, Bridge_updateState v s))"

definition sign_tx :: "string \<Rightarrow> BridgeTransaction \<Rightarrow> BridgeTransaction" where
  "sign_tx name tx =
     (let sigs = bt_Signatures tx @ [name]
      in tx\<lparr>bt_Signatures := sigs,
           bt_Status := (if bt_RequiredSigs tx \<le> int (length sigs) then BridgeTxSigned else bt_Status tx)\<rparr>)"

definition SignTransaction ::
  "bridge_env \<Rightarrow> int \<Rightarrow> string \<Rightarrow> string \<Rightarrow> BridgeSimulator \<Rightarrow> (bridge_err option \<times> BridgeSimulator) go" where
  "SignTransaction v now txID name s =
     (case go_get (br_transactions s) txID of
        None \<Rightarrow> Inr (Some NoBridgeTx, s)
      | Some tx \<Rightarrow>
          if bt_Status tx \<noteq> BridgeTxConfirmed \<and> bt_Status tx \<noteq> BridgeTxSigned then Inr (Some (TxNotReady (bt_Status tx)), s)
          else
            case go_get (br_validators s) name of
              None \<Rightarrow> Inr (Some NoValidator, s)
            | Some w \<Rightarrow>
                if \<not> bv_IsActive w then Inr (Some ValidatorInactive, s)
                else if name \<in> set (bt_Signatures tx) then Inr (Some AlreadySigned, s)
                else
                  let sig = hex_encode (be_sha v (str_bytes (txID @ ''-'' @ name @ ''-'' @ int_text 10 now)));
                      tx = sign_tx name tx;
                      w = w\<lparr>bv_SignedCount := bv_SignedCount w + 1, bv_LastActiveAt := Some now\<rparr>;
                      s = (put_tx txID tx s)\<lparr>br_validators := go_put name w (br_validators s)\<rparr>
                  in go_bind (go_slice sig 0 16) (\<lambda>short.
                       Inr (None, Bridge_updateState v (brcall (CallEmit ''bridge_signed'' [] [] (Some [(''tx_id'', GStr txID),
                         (''validator'', GStr name), (''signature'', GStr (short @ ''...'')),
                         (''signatures'', GInt (int (length (bt_Signatures tx)))), (''required'', GInt (bt_RequiredSigs tx))])) s))))"

definition complete_tx :: "string \<Rightarrow> int \<Rightarrow> BridgeTransaction \<Rightarrow> BridgeTransaction" where
  "complete_tx dest now tx = tx\<lparr>bt_DestTxHash := dest, bt_Status := BridgeTxCompleted, bt_CompletedAt := Some now\<rparr>"

definition mint_in_pool :: "BridgeTransaction \<Rightarrow> BridgeSimulator \<Rightarrow> BridgeSimulator" where
  "mint_in_pool tx s =
     (let key = pool_key (bt_Token tx) (bt_SourceChain tx) (bt_DestChain tx) in
      case go_get (br_pools s) key of
        None \<Rightarrow> s
      | Some p \<Rightarrow>
          s\<lparr>br_pools := go_put key (p\<lparr>bp_DestMinted := bp_DestMinted p + (bt_Amount tx - bt_Fee tx)\<rparr>) (br_pools s)\<rparr>)"

definition ExecuteBridge ::
  "bridge_env \<Rightarrow> int \<Rightarrow> string \<Rightarrow> BridgeSimulator \<Rightarrow> bridge_err option \<times> BridgeSimulator" where
  "ExecuteBridge v now txID s =
     (case go_get (br_transactions s) txID of
        None \<Rightarrow> (Some NoBridgeTx, s)
      | Some tx \<Rightarrow>
          if br_securityModel s = ''multisig'' \<and> bt_Status tx \<noteq> BridgeTxSigned
          then (Some (TooFewSignatures (length (bt_Signatures tx)) (bt_RequiredSigs tx)), s)
          else if br_securityModel s = ''optimistic'' \<and> now < time_nanos (bt_ChallengeEnd tx) then (Some ChallengeOpen, s)
          else
            let dest = ''0x'' @ hex_encode (be_sha v (str_bytes (txID @ ''-dest-'' @ int_text 10 now)));
                tx' = complete_tx dest now tx;
                s = put_tx txID tx' (mint_in_pool tx s);
                s = brcall (CallEmit ''bridge_completed'' [] [] (Some [(''tx_id'', GStr txID), (''dest_tx_hash'', GStr dest),
                  (''duration'', GStr (duration_text (time_sub (bt_CompletedAt tx') (bt_CreatedAt tx')))),
                  (''net_amount'', big_text (bt_Amount tx' - bt_Fee tx'))])) s
            in (None, Bridge_updateState v s))"

subsection \<open>Whole flows\<close>

text \<open>
  The calls of a flow read the clock one after another: \<open>now k\<close> is the reading of the call \<open>k\<close>.
  A result that was not checked is dropped, as in the code.
\<close>

fun confirm_all :: "bridge_env \<Rightarrow> (nat \<Rightarrow> int) \<Rightarrow> string \<Rightarrow> nat list \<Rightarrow> BridgeSimulator \<Rightarrow> BridgeSimulator" where
  "confirm_all v now txID [] s = s"
| "confirm_all v now txID (i # is) s = confirm_all v now txID is (snd (ConfirmTransaction v (now i) txID (int i) s))"

fun sign_all ::
  "bridge_env \<Rightarrow> (nat \<Rightarrow> int) \<Rightarrow> nat \<Rightarrow> string \<Rightarrow> string list \<Rightarrow> BridgeSimulator \<Rightarrow> BridgeSimulator go" where
  "sign_all v now k txID [] s = Inr s"
| "sign_all v now k txID (w # ws) s =
     go_bind (SignTransaction v (now k) txID w s) (\<lambda>(_, s). sign_all v now (Suc k) txID ws s)"

definition tx_of :: "BridgeSimulator \<Rightarrow> string \<Rightarrow> BridgeTransaction go" where
  "tx_of s i = go_deref (go_get (br_transactions s) i)"

definition status_of :: "BridgeTransaction \<Rightarrow> string \<times> gval" where
  "status_of tx = (''status'', GStr (tx_status_text (bt_Status tx)))"

definition SimulateLockMintFlow ::
  "bridge_env \<Rightarrow> (nat \<Rightarrow> int) \<Rightarrow> string \<Rightarrow> int \<Rightarrow> BridgeSimulator \<Rightarrow> (gval \<times> BridgeSimulator) go" where
  "SimulateLockMintFlow v now user amount s =
     (case InitiateBridge v (now 0) user ''ethereum'' ''polygon'' ''ETH'' amount s of
        (Inl e, s) \<Rightarrow> Inl NilDeref
      | (Inr i, s) \<Rightarrow>
          go_bind (tx_of s i) (\<lambda>tx1.
          go_bind (go_deref (go_get (br_chains s) ''ethereum'')) (\<lambda>chain.
            let n = nat (cc_Finality chain); s = confirm_all v now i [1..<Suc n] s in
            go_bind (tx_of s i) (\<lambda>tx2.
              let names = take (nat (br_requiredSigs s)) (sort_strings (go_keys (br_validators s))) in
              go_bind (sign_all v now (Suc n) i names s) (\<lambda>s.
              go_bind (tx_of s i) (\<lambda>tx3.
                let s = snd (ExecuteBridge v (now (Suc n + length names)) i s) in
                go_bind (tx_of s i) (\<lambda>tx4.
                  Inr (GMap [(''tx_id'', GStr i), (''user'', GStr user), (''amount'', big_text amount),
                    (''fee'', big_text (bt_Fee tx4)), (''net_amount'', big_text (bt_Amount tx4 - bt_Fee tx4)),
                    (''duration'', GStr (duration_text (time_sub (bt_CompletedAt tx4) (bt_CreatedAt tx4)))),
                    (''steps'', GList
                      [GMap [(''step'', GInt 1), (''tx_id'', GStr i), status_of tx1],
                       GMap [(''step'', GInt 2), (''confirmations'', GInt (cc_Finality chain)), status_of tx2],
                       GMap [(''step'', GInt 3), (''signatures'', GInt (int (length (bt_Signatures tx3)))), status_of tx3],
                       GMap [(''step'', GInt 4), (''dest_tx_hash'', GStr (bt_DestTxHash tx4)), status_of tx4]])], s))))))))"

text \<open>
  The immediate payment from a pool.  The two updates go to the store, where the two sides may be
  one number.
\<close>

definition SimulateLiquidityBridgeFlow ::
  "bridge_env \<Rightarrow> string \<Rightarrow> int \<Rightarrow> BridgeSimulator \<Rightarrow> ((bridge_err + gval) \<times> BridgeSimulator) go" where
  "SimulateLiquidityBridgeFlow v user amount s =
     (let key = pool_key ''ETH'' ''ethereum'' ''arbitrum'' in
      case go_get (br_pools s) key of
        None \<Rightarrow> Inr (Inl NoLiquidityPool, s)
      | Some p \<Rightarrow>
          go_bind (go_index (br_bigs s) (bp_DestLiquidity p)) (\<lambda>available.
            if available < amount then Inr (Inl LowLiquidity, s)
            else
              let fee = pool_fee v p amount; net = amount - fee in
              go_bind (go_index (br_bigs s) (bp_SourceLiquidity p)) (\<lambda>source.
                let bigs = (br_bigs s)[bp_SourceLiquidity p := source + amount] in
                go_bind (go_index bigs (bp_DestLiquidity p)) (\<lambda>dest.
                  Inr (Inr (GMap [(''mode'', GStr ''liquidity_bridge''), (''pool'', GStr key), (''amount'', big_text amount),
                      (''fee'', big_text fee), (''net_amount'', big_text net), (''instant'', GBool True),
                      (''steps'', GList
                        [GMap [(''step'', GInt 1), (''available'', big_text available), (''required'', big_text amount)],
                         GMap [(''step'', GInt 2), (''amount'', big_text amount), (''fee'', big_text fee)],
                         GMap [(''step'', GInt 3), (''net_amount'', big_text net), (''instant'', GBool True)],
                         GMap [(''step'', GInt 4)]])]),
                    s\<lparr>br_bigs := bigs[bp_DestLiquidity p := dest - net]\<rparr>)))))"

subsection \<open>Inspection\<close>

definition GetBridgeStats :: "BridgeSimulator \<Rightarrow> gval" where
  "GetBridgeStats s =
     (let txs = map snd (br_transactions s); pools = map snd (br_pools s);
          pending = filter (\<lambda>tx. bt_Status tx \<in> {BridgeTxPending, BridgeTxConfirmed, BridgeTxSigned}) txs;
          completed = filter (\<lambda>tx. bt_Status tx = BridgeTxCompleted) txs
      in GMap [(''bridge_type'', GStr (bridge_type_text (br_bridgeType s))), (''security_model'', GStr (br_securityModel s)),
           (''total_bridged'', big_text (br_totalBridged s)), (''total_fees'', big_text (br_totalFees s)),
           (''total_locked'', big_text (sum_list (map bp_SourceLocked pools))),
           (''total_minted'', big_text (sum_list (map bp_DestMinted pools))), (''pending_txs'', GInt (int (length pending))),
           (''completed_txs'', GInt (int (length completed))), (''pool_count'', GInt (int (length pools))),
           (''validator_count'', GInt (int (length (br_validators s)))),
           (''active_validators'', GInt (int (length (filter (bv_IsActive \<circ> snd) (br_validators s))))),
           (''required_sigs'', GInt (br_requiredSigs s)), (''chain_count'', GInt (int (length (br_chains s))))])"

definition GetPoolInfo :: "string \<Rightarrow> BridgeSimulator \<Rightarrow> gval option" where
  "GetPoolInfo poolID s = map_option (show_pool s) (go_get (br_pools s) poolID)"

text \<open>The two times are values here, not texts; they are left out.\<close>

definition GetTransactionInfo :: "string \<Rightarrow> BridgeSimulator \<Rightarrow> gval option" where
  "GetTransactionInfo txID s =
     map_option (\<lambda>tx. GMap [(''id'', GStr (bt_ID tx)), (''user'', GStr (bt_User tx)), (''source_chain'', GStr (bt_SourceChain tx)),
       (''dest_chain'', GStr (bt_DestChain tx)), (''token'', GStr (bt_Token tx)), (''wrapped_token'', GStr (bt_WrappedToken tx)),
       (''amount'', big_text (bt_Amount tx)), (''fee'', big_text (bt_Fee tx)), (''status'', GStr (tx_status_text (bt_Status tx))),
       (''source_tx_hash'', GStr (bt_SourceTxHash tx)), (''dest_tx_hash'', GStr (bt_DestTxHash tx)),
       (''confirmations'', GInt (bt_Confirmations tx)), (''required_confirm'', GInt (bt_RequiredConfirm tx)),
       (''signatures'', GInt (int (length (bt_Signatures tx)))), (''required_sigs'', GInt (bt_RequiredSigs tx))])
     (go_get (br_transactions s) txID)"

subsection \<open>Actions\<close>

text \<open>An amount must be positive, or the default is taken.\<close>

definition bridgeAmountParam :: "int \<Rightarrow> string \<Rightarrow> int \<Rightarrow> (string, gval) gomap \<Rightarrow> int" where
  "bridgeAmountParam oob key dflt params =
     (case go_get params key of
        Some (GFloat x) \<Rightarrow> (if f64_less (Fin 0) x then f64_to_int oob x else dflt)
      | Some (GInt n) \<Rightarrow> (if 0 < n then n else dflt)
      | _ \<Rightarrow> dflt)"

text \<open>The result is the status in the feedback with the data, or an error.\<close>

definition Bridge_ExecuteAction ::
  "bridge_env \<Rightarrow> (nat \<Rightarrow> int) \<Rightarrow> string \<Rightarrow> (string, gval) gomap \<Rightarrow> BridgeSimulator \<Rightarrow>
   ((bridge_err + string \<times> gval) \<times> BridgeSimulator) go" where
  "Bridge_ExecuteAction v now action params s =
     (let user = text_param ''user'' ''student'' params; amount = bridgeAmountParam (be_oob v) ''amount'' 1 params in
      if action = ''simulate_lock_mint'' then
        go_bind (SimulateLockMintFlow v now user amount s) (\<lambda>(r, s).
          Inr (Inr (''lock_mint_completed'', r), Bridge_updateState v s))
      else if action = ''simulate_liquidity_bridge'' then
        go_bind (SimulateLiquidityBridgeFlow v user amount s) (\<lambda>(r, s).
          case r of
            Inl e \<Rightarrow> Inr (Inl e, s)
          | Inr g \<Rightarrow> Inr (Inr (''liquidity_bridge_completed'', g), Bridge_updateState v s))
      else if action = ''reset_bridge'' then
        Inr (Inr (''bridge_reset'', GNil), Bridge_Init v (now 0)
          [(''bridge_type'', GStr (bridge_type_text (br_bridgeType s))), (''security_model'', GStr (br_securityModel s)),
           (''required_confirmations'', GFloat (f64_of_int (br_confirmations s))),
           (''required_signatures'', GFloat (f64_of_int (br_requiredSigs s)))] s)
      else Inr (Inl (UnsupportedBridgeAction action), s))"

end
