(* ===== verification/BridgeFacts.thy ===== *)
theory BridgeFacts
  imports Bridge
begin

section \<open>Bridges: properties\<close>

text \<open>
  Under the multi-signature model what is minted is backed by what is locked and a completed transfer
  has its confirmations and signatures; what the flow does; and what the other models and the shared
  liquidity allow.
\<close>

subsection \<open>Reports\<close>

lemma brcall_simps [simp]:
  "br_bigs (brcall c s) = br_bigs s" "br_securityModel (brcall c s) = br_securityModel s"
  "br_transactions (brcall c s) = br_transactions s" "br_pools (brcall c s) = br_pools s"
  "br_validators (brcall c s) = br_validators s" "br_chains (brcall c s) = br_chains s"
  "br_requiredSigs (brcall c s) = br_requiredSigs s"
  by (simp_all add: brcall_def)

lemma bridge_update_simps [simp]:
  "br_bigs (Bridge_updateState v s) = br_bigs s" "br_securityModel (Bridge_updateState v s) = br_securityModel s"
  "br_transactions (Bridge_updateState v s) = br_transactions s" "br_pools (Bridge_updateState v s) = br_pools s"
  "br_validators (Bridge_updateState v s) = br_validators s" "br_chains (Bridge_updateState v s) = br_chains s"
  "br_requiredSigs (Bridge_updateState v s) = br_requiredSigs s"
  by (simp_all add: Bridge_updateState_def split: prod.splits)

subsection \<open>The fee rates\<close>

text \<open>The three rates as doubles, times 1000, are whole numbers.\<close>

lemma tenth_log: "rat_log2 (1 / 10) = -4" "rat_log2 (450359962737049625 / 4503599627370496) = 6"
proof -
  have "quotient_of (1 / 10) = (1, 10)" "quotient_of (450359962737049625 / 4503599627370496) = (450359962737049625, 4503599627370496)" by code_simp+
  moreover have "bit_count 1 = 1" "bit_count 10 = 4"
    "bit_count 450359962737049625 = 59" "bit_count 4503599627370496 = 53" by code_simp+
  ultimately show "rat_log2 (1 / 10) = -4" "rat_log2 (450359962737049625 / 4503599627370496) = 6" by (simp_all add: rat_log2_def power_int_def power_divide)
qed

lemma tenth_units: "fee_units oob (lit (1 / 10)) = 100"
proof -
  have "\<lfloor>36028797018963968 / 5 :: rat\<rfloor> = 7205759403792793" "\<lfloor>450359962737049625 / 64 :: rat\<rfloor> = 7036874417766400" by (simp_all add: floor_eq_iff)
  then show ?thesis
    by (simp add: fee_units_def f64_to_int_def f64_round_def tenth_log power_int_def round_half_even_def Let_def power_divide)
qed

lemma twentieth_log: "rat_log2 (1 / 20) = -5" "rat_log2 (450359962737049625 / 9007199254740992) = 5"
proof -
  have "quotient_of (1 / 20) = (1, 20)" "quotient_of (450359962737049625 / 9007199254740992) = (450359962737049625, 9007199254740992)" by code_simp+
  moreover have "bit_count 1 = 1" "bit_count 20 = 5"
    "bit_count 450359962737049625 = 59" "bit_count 9007199254740992 = 54" by code_simp+
  ultimately show "rat_log2 (1 / 20) = -5" "rat_log2 (450359962737049625 / 9007199254740992) = 5" by (simp_all add: rat_log2_def power_int_def power_divide)
qed

lemma twentieth_units: "fee_units oob (lit (1 / 20)) = 50"
proof -
  have "\<lfloor>36028797018963968 / 5 :: rat\<rfloor> = 7205759403792793" "\<lfloor>450359962737049625 / 64 :: rat\<rfloor> = 7036874417766400" by (simp_all add: floor_eq_iff)
  then show ?thesis
    by (simp add: fee_units_def f64_to_int_def f64_round_def twentieth_log power_int_def round_half_even_def Let_def power_divide)
qed

lemma three_log: "rat_log2 (3 / 100) = -6" "rat_log2 (135107988821114875 / 4503599627370496) = 4"
proof -
  have "quotient_of (3 / 100) = (3, 100)" "quotient_of (135107988821114875 / 4503599627370496) = (135107988821114875, 4503599627370496)" by code_simp+
  moreover have "bit_count 3 = 2" "bit_count 100 = 7"
    "bit_count 135107988821114875 = 57" "bit_count 4503599627370496 = 53" by code_simp+
  ultimately show "rat_log2 (3 / 100) = -6" "rat_log2 (135107988821114875 / 4503599627370496) = 4" by (simp_all add: rat_log2_def power_int_def power_divide)
qed

lemma three_units: "fee_units oob (lit (3 / 100)) = 30"
proof -
  have "\<lfloor>216172782113783808 / 25 :: rat\<rfloor> = 8646911284551352" "\<lfloor>135107988821114875 / 16 :: rat\<rfloor> = 8444249301319679" by (simp_all add: floor_eq_iff)
  then show ?thesis
    by (simp add: fee_units_def f64_to_int_def f64_round_def three_log power_int_def round_half_even_def Let_def power_divide)
qed

subsection \<open>The books\<close>

definition tx_key :: "BridgeTransaction \<Rightarrow> string" where
  "tx_key tx = pool_key (bt_Token tx) (bt_SourceChain tx) (bt_DestChain tx)"

text \<open>What an open transaction may still mint in a pool, and the sum of these.\<close>

definition claim :: "string \<Rightarrow> BridgeTransaction \<Rightarrow> int" where
  "claim k tx = (if tx_key tx = k \<and> bt_Status tx \<noteq> BridgeTxCompleted then bt_Amount tx - bt_Fee tx else 0)"

definition claims :: "string \<Rightarrow> (string, BridgeTransaction) gomap \<Rightarrow> int" where
  "claims k m = sum_list (map (claim k \<circ> snd) m)"

lemma claims_Nil [simp]: "claims k [] = 0"
  by (simp add: claims_def)

lemma claims_put:
  "claims k (go_put i tx m) =
     claims k m + claim k tx - (case go_get m i of None \<Rightarrow> 0 | Some old \<Rightarrow> claim k old)"
  by (induction m) (auto simp: go_put_def go_get_def claims_def)

definition tx_ok :: "int \<Rightarrow> string set \<Rightarrow> BridgeTransaction \<Rightarrow> bool" where
  "tx_ok n names tx \<longleftrightarrow> bt_Fee tx \<le> bt_Amount tx \<and> bt_RequiredSigs tx = n \<and>
     distinct (bt_Signatures tx) \<and> set (bt_Signatures tx) \<subseteq> names \<and>
     (bt_Status tx \<in> {BridgeTxConfirmed, BridgeTxSigned, BridgeTxCompleted} \<longrightarrow> bt_RequiredConfirm tx \<le> bt_Confirmations tx) \<and>
     (bt_Status tx \<in> {BridgeTxSigned, BridgeTxCompleted} \<longrightarrow> n \<le> int (length (bt_Signatures tx)))"

definition bridge_pool_ok :: "bridge_env \<Rightarrow> nat \<Rightarrow> int \<Rightarrow> BridgePool \<Rightarrow> bool" where
  "bridge_pool_ok v n c p \<longleftrightarrow> bp_DestMinted p + c \<le> bp_SourceLocked p \<and>
     0 \<le> fee_units (be_oob v) (bp_FeePercent p) \<and> fee_units (be_oob v) (bp_FeePercent p) \<le> 100000 \<and>
     bp_SourceLiquidity p < n \<and> bp_DestLiquidity p < n"

definition bridge_inv :: "bridge_env \<Rightarrow> BridgeSimulator \<Rightarrow> bool" where
  "bridge_inv v s \<longleftrightarrow> br_securityModel s = ''multisig'' \<and> br_chains s = initial_chains \<and> go_wf (br_transactions s) \<and>
     (\<forall>i tx. go_get (br_transactions s) i = Some tx \<longrightarrow> tx_ok (br_requiredSigs s) (set (go_keys (br_validators s))) tx) \<and>
     (\<forall>k p. go_get (br_pools s) k = Some p \<longrightarrow> bridge_pool_ok v (length (br_bigs s)) (claims k (br_transactions s)) p) \<and>
     (\<forall>k. go_get (br_pools s) k = None \<longrightarrow> claims k (br_transactions s) \<le> 0)"

lemma bridge_inv_reports [simp]:
  "bridge_inv v (brcall c s) = bridge_inv v s" "bridge_inv v (Bridge_updateState v' s) = bridge_inv v s"
  by (simp_all add: bridge_inv_def)

lemma claims_le:
  "go_get m i = Some tx \<Longrightarrow> claim k tx' \<le> claim k tx \<Longrightarrow> claims k (go_put i tx' m) \<le> claims k m"
  by (simp add: claims_put)

lemma bridge_pool_ok_mono: "bridge_pool_ok v n c p \<Longrightarrow> c' \<le> c \<Longrightarrow> bridge_pool_ok v n c' p"
  by (simp add: bridge_pool_ok_def)

text \<open>A transaction that advances, and does not claim more than before.\<close>

lemma bridge_inv_put_tx:
  assumes inv: "bridge_inv v s" and tx: "go_get (br_transactions s) i = Some tx"
    and ok: "tx_ok (br_requiredSigs s) (set (go_keys (br_validators s))) tx'" and less: "\<And>k. claim k tx' \<le> claim k tx"
  shows "bridge_inv v (put_tx i tx' s)"
proof -
  have le: "claims k (go_put i tx' (br_transactions s)) \<le> claims k (br_transactions s)" for k
    using tx less by (rule claims_le)
  show ?thesis
    using inv ok unfolding bridge_inv_def put_tx_def
    by (auto intro: bridge_pool_ok_mono [OF _ le] order_trans [OF le])
qed

lemma bridge_tx_ok:
  "bridge_inv v s \<Longrightarrow> go_get (br_transactions s) i = Some tx \<Longrightarrow> tx_ok (br_requiredSigs s) (set (go_keys (br_validators s))) tx"
  by (simp add: bridge_inv_def)

lemma Confirm_inv:
  assumes "bridge_inv v s"
  shows "bridge_inv v (snd (ConfirmTransaction v' now i n s))"
proof (cases "go_get (br_transactions s) i")
  case (Some tx)
  note ok = bridge_tx_ok [OF assms Some]
  show ?thesis
    using Some ok
    by (auto simp: ConfirmTransaction_def Let_def assms tx_ok_def claim_def tx_key_def
        intro!: bridge_inv_put_tx [OF assms Some])
qed (simp add: ConfirmTransaction_def assms)

lemma validator_inv:
  assumes "bridge_inv v s" and "go_get (br_validators s) k = Some w"
  shows "bridge_inv v (s\<lparr>br_validators := go_put k w' (br_validators s)\<rparr>)"
  using assms go_get_Some_key [OF assms(2)] by (simp add: bridge_inv_def insert_absorb)

text \<open>What signing does when it does anything.\<close>

lemma Sign_effect:
  assumes "SignTransaction v now i name s = Inr (r, t)"
  obtains (same) "t = s" "r \<noteq> None"
  | (signed) tx w c where "go_get (br_transactions s) i = Some tx" "go_get (br_validators s) name = Some w" "r = None"
      "bt_Status tx = BridgeTxConfirmed \<or> bt_Status tx = BridgeTxSigned" "name \<notin> set (bt_Signatures tx)"
      "t = Bridge_updateState v (brcall c ((put_tx i (sign_tx name tx) s)\<lparr>br_validators :=
         go_put name (w\<lparr>bv_SignedCount := bv_SignedCount w + 1, bv_LastActiveAt := Some now\<rparr>) (br_validators s)\<rparr>))"
proof (cases "go_get (br_transactions s) i")
  case tx: (Some tx)
  show ?thesis
  proof (cases "go_get (br_validators s) name")
    case w: (Some w)
    show ?thesis
      using assms tx w
      by (auto simp: SignTransaction_def go_bind_eq_Inr Let_def intro: same signed [OF tx w] split: if_splits)
  qed (use assms tx in \<open>auto simp: SignTransaction_def intro: same split: if_splits\<close>)
qed (use assms in \<open>auto simp: SignTransaction_def intro: same\<close>)

lemma sign_tx_ok:
  assumes "tx_ok n names tx" and "bt_Status tx = BridgeTxConfirmed \<or> bt_Status tx = BridgeTxSigned"
    and "name \<notin> set (bt_Signatures tx)" and "name \<in> names"
  shows "tx_ok n names (sign_tx name tx)" and "claim k (sign_tx name tx) \<le> claim k tx"
  using assms by (auto simp: tx_ok_def sign_tx_def claim_def tx_key_def Let_def)

lemma Sign_inv:
  assumes "bridge_inv v s" and "SignTransaction v' now i name s = Inr (r, t)"
  shows "bridge_inv v t"
  using assms(2)
proof (cases rule: Sign_effect)
  case (signed tx w c)
  note ok = sign_tx_ok [OF bridge_tx_ok [OF assms(1) signed(1)] signed(4,5) go_get_Some_key [OF signed(2)]]
  have "bridge_inv v (put_tx i (sign_tx name tx) s)" by (rule bridge_inv_put_tx [OF assms(1) signed(1) ok])
  moreover have "br_validators (put_tx i (sign_tx name tx) s) = br_validators s" by (simp add: put_tx_def)
  ultimately show ?thesis
    using validator_inv [of v "put_tx i (sign_tx name tx) s" name w] signed(2) by (simp add: signed(6))
qed (simp add: assms(1))

text \<open>Execution moves the claim of the transaction into the minted amount.\<close>

lemma mint_simps [simp]:
  "br_bigs (mint_in_pool tx s) = br_bigs s" "br_securityModel (mint_in_pool tx s) = br_securityModel s"
  "br_transactions (mint_in_pool tx s) = br_transactions s" "br_validators (mint_in_pool tx s) = br_validators s"
  "br_chains (mint_in_pool tx s) = br_chains s" "br_requiredSigs (mint_in_pool tx s) = br_requiredSigs s"
  by (simp_all add: mint_in_pool_def Let_def split: option.splits)

lemma mint_pools:
  "go_get (br_pools (mint_in_pool tx s)) k =
     (case go_get (br_pools s) k of
        None \<Rightarrow> None
      | Some p \<Rightarrow> Some (if k = tx_key tx then p\<lparr>bp_DestMinted := bp_DestMinted p + (bt_Amount tx - bt_Fee tx)\<rparr> else p))"
  by (auto simp: mint_in_pool_def Let_def tx_key_def split: option.splits)

lemma complete_inv:
  assumes inv: "bridge_inv v s" and tx: "go_get (br_transactions s) i = Some tx" and st: "bt_Status tx = BridgeTxSigned"
  shows "bridge_inv v (put_tx i (complete_tx dest now tx) (mint_in_pool tx s))"
proof -
  let ?tx = "complete_tx dest now tx"
  note ok = bridge_tx_ok [OF inv tx]
  have ok': "tx_ok (br_requiredSigs s) (set (go_keys (br_validators s))) ?tx"
    using ok st by (simp add: tx_ok_def complete_tx_def)
  have c: "claims k (go_put i ?tx (br_transactions s)) =
      claims k (br_transactions s) - (if k = tx_key tx then bt_Amount tx - bt_Fee tx else 0)" for k
    using tx st by (simp add: claims_put) (simp add: claim_def complete_tx_def tx_key_def)
  have fee: "bt_Fee tx \<le> bt_Amount tx" using ok by (simp add: tx_ok_def)
  show ?thesis
    unfolding bridge_inv_def put_tx_def
  proof (intro conjI allI impI, goal_cases)
    case (5 k p)
    then show ?case
      using inv by (auto simp: mint_pools c bridge_inv_def bridge_pool_ok_def split: option.splits if_splits)
  next
    case (6 k)
    then have "claims k (br_transactions s) \<le> 0" using inv by (auto simp: mint_pools bridge_inv_def split: option.splits)
    then show ?case using fee by (auto simp: c)
  qed (use inv ok' in \<open>auto simp: bridge_inv_def split: if_splits\<close>)
qed

lemma Execute_inv:
  assumes "bridge_inv v s"
  shows "bridge_inv v (snd (ExecuteBridge v' now i s))"
proof (cases "go_get (br_transactions s) i")
  case (Some tx)
  with complete_inv [OF assms Some] assms show ?thesis
    by (auto simp: ExecuteBridge_def Let_def bridge_inv_def [of v s])
qed (simp add: ExecuteBridge_def assms)

text \<open>A new transaction claims no more than it locks.\<close>

lemma ensure_pool_simps [simp]:
  "br_securityModel (snd (ensure_pool token src dst s)) = br_securityModel s"
  "br_transactions (snd (ensure_pool token src dst s)) = br_transactions s"
  "br_validators (snd (ensure_pool token src dst s)) = br_validators s"
  "br_chains (snd (ensure_pool token src dst s)) = br_chains s"
  "br_requiredSigs (snd (ensure_pool token src dst s)) = br_requiredSigs s"
  by (simp_all add: ensure_pool_def Let_def split: option.splits)

lemma bridge_pool_ok_more: "bridge_pool_ok v n c p \<Longrightarrow> bridge_pool_ok v (Suc (Suc n)) c p"
  by (simp add: bridge_pool_ok_def)

lemma new_bridge_pool_ok:
  "c \<le> 0 \<Longrightarrow> bridge_pool_ok v (Suc (Suc n)) c \<lparr>bp_ID = i, bp_Token = token, bp_SourceChain = src, bp_DestChain = dst, bp_SourceLocked = 0,
     bp_DestMinted = 0, bp_SourceLiquidity = n, bp_DestLiquidity = Suc n, bp_FeePercent = lit (1 / 10),
     bp_TotalVolume = 0, bp_TxCount = 0\<rparr>"
  by (simp add: bridge_pool_ok_def tenth_units)

lemma ensure_pool_inv:
  assumes "bridge_inv v s" and "ensure_pool token src dst s = (p, t)"
  shows "bridge_inv v t" and "go_get (br_pools t) (pool_key token src dst) = Some p"
proof -
  show "bridge_inv v t"
  proof (cases "go_get (br_pools s) (pool_key token src dst)")
    case None
    then have "claims (pool_key token src dst) (br_transactions s) \<le> 0" using assms(1) by (simp add: bridge_inv_def)
    note new = new_bridge_pool_ok [OF this]
    show ?thesis
      unfolding bridge_inv_def
    proof (intro conjI allI impI, goal_cases)
      case (5 k q)
      then show ?case
        using assms None new [of v "length (br_bigs s)"] bridge_pool_ok_more [of v "length (br_bigs s)" _ q]
        by (auto simp: ensure_pool_def bridge_inv_def Let_def split: if_splits)
    qed (use assms None in \<open>auto simp: ensure_pool_def bridge_inv_def Let_def split: if_splits\<close>)
  qed (use assms in \<open>simp add: ensure_pool_def Let_def\<close>)
  show "go_get (br_pools t) (pool_key token src dst) = Some p"
    using assms(2) by (auto simp: ensure_pool_def Let_def split: option.splits)
qed

lemma pool_fee_bounds: "bridge_pool_ok v n c p \<Longrightarrow> 0 \<le> amount \<Longrightarrow> 0 \<le> pool_fee v p amount \<and> pool_fee v p amount \<le> amount"
  unfolding bridge_pool_ok_def pool_fee_def by (auto dest: fee_bounds)

lemma lock_inv:
  assumes inv: "bridge_inv v s" and p: "go_get (br_pools s) (tx_key tx) = Some p"
    and tx: "bt_Amount tx = amount" "bt_Fee tx = pool_fee v p amount" "bt_RequiredSigs tx = br_requiredSigs s"
      "bt_Status tx = BridgeTxPending" "bt_Signatures tx = []"
    and amount: "0 \<le> amount"
  shows "bridge_inv v (s\<lparr>br_transactions := go_put i tx (br_transactions s),
     br_pools := go_put (tx_key tx) (lock_in_pool amount p) (br_pools s), br_totalBridged := x, br_totalFees := y\<rparr>)"
proof -
  have pok: "bridge_pool_ok v (length (br_bigs s)) (claims k (br_transactions s)) p" if "k = tx_key tx" for k
    using inv p that by (simp add: bridge_inv_def)
  note fee = pool_fee_bounds [OF pok [OF refl] amount]
  have nonneg: "0 \<le> claim k old" if "go_get (br_transactions s) j = Some old" for k j old
    using bridge_tx_ok [OF inv that] by (simp add: claim_def tx_ok_def)
  have le: "claims k (go_put i tx (br_transactions s)) \<le> claims k (br_transactions s) + (if k = tx_key tx then amount else 0)" for k
  proof -
    have "claim k tx \<le> (if k = tx_key tx then amount else 0)" using tx fee by (auto simp: claim_def)
    moreover have "0 \<le> (case go_get (br_transactions s) i of None \<Rightarrow> 0 | Some old \<Rightarrow> claim k old)"
      using nonneg by (simp split: option.splits)
    ultimately show ?thesis by (simp add: claims_put)
  qed
  have new: "bridge_pool_ok v (length (br_bigs s)) (claims (tx_key tx) (go_put i tx (br_transactions s))) (lock_in_pool amount p)"
    using pok [OF refl] le [of "tx_key tx"] by (simp add: bridge_pool_ok_def lock_in_pool_def)
  have old: "claims k (go_put i tx (br_transactions s)) \<le> claims k (br_transactions s)" if "k \<noteq> tx_key tx" for k
    using le [of k] that by simp
  have txok: "tx_ok (br_requiredSigs s) (set (go_keys (br_validators s))) tx" using tx fee by (simp add: tx_ok_def)
  show ?thesis
    unfolding bridge_inv_def
  proof (intro conjI allI impI, goal_cases)
    case (5 k q)
    then show ?case using inv new by (auto simp: bridge_inv_def split: if_splits intro: bridge_pool_ok_mono [OF _ old])
  next
    case (6 k)
    then show ?case using inv by (auto simp: bridge_inv_def split: if_splits intro: order_trans [OF old])
  qed (use inv txok in \<open>auto simp: bridge_inv_def split: if_splits\<close>)
qed

lemma tx_key_new [simp]: "tx_key (new_tx now h user src dst token amount fee chain s) = pool_key token src dst"
  by (simp add: tx_key_def new_tx_def)

lemma Initiate_inv:
  assumes "bridge_inv v s" and "0 \<le> amount"
  shows "bridge_inv v (snd (InitiateBridge v now user src dst token amount s))"
proof -
  obtain p u where e: "ensure_pool token src dst s = (p, u)" by force
  note u = ensure_pool_inv [OF assms(1) e]
  have "bridge_inv v (u\<lparr>br_transactions := go_put i tx (br_transactions u),
     br_pools := go_put (pool_key token src dst) (lock_in_pool amount p) (br_pools u), br_totalBridged := x, br_totalFees := y\<rparr>)"
    if "tx = new_tx now h user src dst token amount (pool_fee v p amount) chain u" for i tx h chain x y
    using lock_inv [where s = u and tx = tx and i = i and x = x and y = y] u assms(2) that by (simp add: new_tx_def tx_key_def)
  then show ?thesis
    using assms(1) by (auto simp: InitiateBridge_def e Let_def split: option.splits)
qed

subsection \<open>Initial states\<close>

lemma initial_pool_simps [simp]:
  "br_securityModel (initial_pool p s) = br_securityModel s" "br_transactions (initial_pool p s) = br_transactions s"
  "br_validators (initial_pool p s) = br_validators s" "br_chains (initial_pool p s) = br_chains s"
  "br_requiredSigs (initial_pool p s) = br_requiredSigs s"
  by (simp_all add: initial_pool_def Let_def split: prod.splits)

lemma initial_validator_simps [simp]:
  "br_securityModel (initial_validator v now w s) = br_securityModel s"
  "br_transactions (initial_validator v now w s) = br_transactions s"
  "br_pools (initial_validator v now w s) = br_pools s" "br_bigs (initial_validator v now w s) = br_bigs s"
  "br_chains (initial_validator v now w s) = br_chains s" "br_requiredSigs (initial_validator v now w s) = br_requiredSigs s"
  by (simp_all add: initial_validator_def Let_def split: prod.splits)

text \<open>Before the first transaction the order of the set-up does not matter.\<close>

lemma initial_pool_inv:
  assumes "bridge_inv v s" and "br_transactions s = []"
    and "0 \<le> fee_units (be_oob v) fee" and "fee_units (be_oob v) fee \<le> 100000"
  shows "bridge_inv v (initial_pool (token, src, dst, locked, liq, fee) s)"
proof -
  show ?thesis
    unfolding bridge_inv_def
  proof (intro conjI allI impI, goal_cases)
    case (5 k q)
    then show ?case
      using assms by (auto simp: initial_pool_def bridge_inv_def Let_def bridge_pool_ok_def intro: less_SucI split: if_splits)
  qed (use assms in \<open>auto simp: initial_pool_def bridge_inv_def Let_def split: if_splits\<close>)
qed

lemma initial_validator_inv:
  assumes "bridge_inv v s" and "br_transactions s = []"
  shows "bridge_inv v (initial_validator v now w s)"
  using assms by (auto simp: bridge_inv_def initial_validator_def Let_def split: prod.splits)

lemma initial_validators_inv:
  "bridge_inv v s \<Longrightarrow> br_transactions s = [] \<Longrightarrow> bridge_inv v (fold (initial_validator v now) ws s)"
  by (induction ws arbitrary: s) (simp_all add: initial_validator_inv)

lemma bridge_inv_empty:
  "br_securityModel s = ''multisig'' \<Longrightarrow> br_chains s = initial_chains \<Longrightarrow> br_transactions s = [] \<Longrightarrow> br_pools s = [] \<Longrightarrow>
   bridge_inv v s"
  by (simp add: bridge_inv_def)

lemma initializePools_inv:
  assumes "br_securityModel s = ''multisig''" and "br_chains s = initial_chains" and "br_transactions s = []" and "br_pools s = []"
  shows "bridge_inv v (initializePools s)" and "br_transactions (initializePools s) = []"
  using assms
  by (simp_all add: initializePools_def pool_table_def initial_pool_inv bridge_inv_empty tenth_units twentieth_units three_units)

lemma Bridge_Init_inv:
  assumes "plain_text ''security_model'' ''multisig'' params = ''multisig''"
  shows "bridge_inv v (Bridge_Init v now params s)"
  using assms
  by (simp add: Bridge_Init_def Let_def initializeValidators_def initial_validators_inv initializePools_inv initializeChains_def)

subsection \<open>Flows and actions\<close>

lemma confirm_all_inv: "bridge_inv v s \<Longrightarrow> bridge_inv v (confirm_all v now i is s)"
  by (induction "is" arbitrary: s) (simp_all add: Confirm_inv)

lemma sign_all_inv: "sign_all v now k i ws s = Inr t \<Longrightarrow> bridge_inv v s \<Longrightarrow> bridge_inv v t"
  by (induction ws arbitrary: k s) (auto simp: go_bind_eq_Inr split: prod.splits intro: Sign_inv)

lemma LockMint_inv:
  assumes "SimulateLockMintFlow v now user amount s = Inr (r, t)" and "bridge_inv v s" and "0 \<le> amount"
  shows "bridge_inv v t"
proof -
  obtain i u where u: "InitiateBridge v (now 0) user ''ethereum'' ''polygon'' ''ETH'' amount s = (Inr i, u)"
    using assms(1) by (auto simp: SimulateLockMintFlow_def split: prod.splits sum.splits)
  then have "bridge_inv v u" using Initiate_inv [OF assms(2,3)] by (metis snd_conv)
  then show ?thesis
    using assms(1) u
    by (auto simp: SimulateLockMintFlow_def go_bind_eq_Inr Let_def intro!: Execute_inv elim: sign_all_inv intro: confirm_all_inv)
qed

lemma Liquidity_inv:
  assumes "SimulateLiquidityBridgeFlow v user amount s = Inr (r, t)" and "bridge_inv v s"
  shows "bridge_inv v t"
  using assms by (auto simp: SimulateLiquidityBridgeFlow_def go_bind_eq_Inr Let_def bridge_inv_def split: option.splits if_splits)

lemma Action_inv:
  assumes "Bridge_ExecuteAction v now action params s = Inr (r, t)" and "bridge_inv v s"
    and "0 \<le> bridgeAmountParam (be_oob v) ''amount'' 1 params"
  shows "bridge_inv v t"
proof -
  have reset: "bridge_inv v (Bridge_Init v now' [(''bridge_type'', GStr a), (''security_model'', GStr (br_securityModel s)), x, y] s)" for now' a x y
    using assms(2) by (intro Bridge_Init_inv) (simp add: plain_text_def go_get_def bridge_inv_def)
  consider (mint) user amount r' u where "SimulateLockMintFlow v now user amount s = Inr (r', u)" "t = Bridge_updateState v u" "0 \<le> amount"
  | (liquidity) user amount r' u where "SimulateLiquidityBridgeFlow v user amount s = Inr (r', u)" "t = u \<or> t = Bridge_updateState v u"
  | (reset) a x y where
      "t = Bridge_Init v (now 0) [(''bridge_type'', GStr a), (''security_model'', GStr (br_securityModel s)), x, y] s"
  | (none) "t = s"
    using assms(1,3) unfolding Bridge_ExecuteAction_def Let_def
    by (auto simp: go_bind_eq_Inr split: if_splits) (auto split: sum.split_asm)
  then show ?thesis
    by cases (use assms(2) in \<open>auto simp: reset intro: LockMint_inv dest: Liquidity_inv\<close>)
qed

text \<open>One call from outside.  An amount is not negative.\<close>

inductive bridge_step :: "bridge_env \<Rightarrow> BridgeSimulator \<Rightarrow> BridgeSimulator \<Rightarrow> bool" for v where
  step_initiate: "0 \<le> amount \<Longrightarrow> bridge_step v s (snd (InitiateBridge v now user src dst token amount s))"
| step_confirm: "bridge_step v s (snd (ConfirmTransaction v now i n s))"
| step_sign: "SignTransaction v now i name s = Inr (r, t) \<Longrightarrow> bridge_step v s t"
| step_execute: "bridge_step v s (snd (ExecuteBridge v now i s))"
| step_action: "Bridge_ExecuteAction v clock action params s = Inr (r, t) \<Longrightarrow>
    0 \<le> bridgeAmountParam (be_oob v) ''amount'' 1 params \<Longrightarrow> bridge_step v s t"

definition bridge_init :: "bridge_env \<Rightarrow> BridgeSimulator \<Rightarrow> bool" where
  "bridge_init v s \<longleftrightarrow> (\<exists>now params u. plain_text ''security_model'' ''multisig'' params = ''multisig'' \<and> s = Bridge_Init v now params u)"

lemma bridge_step_inv: "bridge_step v s t \<Longrightarrow> bridge_inv v s \<Longrightarrow> bridge_inv v t"
  by (induction rule: bridge_step.induct) (auto intro: Initiate_inv Confirm_inv Sign_inv Execute_inv Action_inv)

interpretation bridge: step_system "bridge_init v" "bridge_step v" "bridge_inv v" for v
  by unfold_locales (auto simp: bridge_init_def Bridge_Init_inv intro: bridge_step_inv)

lemma claims_nonneg:
  assumes "bridge_inv v s"
  shows "0 \<le> claims k (br_transactions s)"
proof -
  have "0 \<le> claim k tx" if "(i, tx) \<in> set (br_transactions s)" for i tx
  proof -
    from that assms have "go_get (br_transactions s) i = Some tx"
      by (simp add: bridge_inv_def go_get_def go_wf_def go_keys_def)
    then show ?thesis using bridge_tx_ok [OF assms] by (auto simp: claim_def tx_ok_def)
  qed
  then show ?thesis unfolding claims_def by (intro sum_list_nonneg) auto
qed

subsection \<open>What the flow does\<close>

text \<open>The confirmations one after the other, and the signatures of validators that are active.\<close>

lemma put_tx_simps [simp]:
  "br_bigs (put_tx i tx s) = br_bigs s" "br_securityModel (put_tx i tx s) = br_securityModel s"
  "br_transactions (put_tx i tx s) = go_put i tx (br_transactions s)" "br_pools (put_tx i tx s) = br_pools s"
  "br_validators (put_tx i tx s) = br_validators s" "br_chains (put_tx i tx s) = br_chains s"
  "br_requiredSigs (put_tx i tx s) = br_requiredSigs s"
  by (simp_all add: put_tx_def)

lemma Confirm_simps [simp]:
  "br_securityModel (snd (ConfirmTransaction v now i n s)) = br_securityModel s"
  "br_pools (snd (ConfirmTransaction v now i n s)) = br_pools s"
  "br_validators (snd (ConfirmTransaction v now i n s)) = br_validators s"
  "br_requiredSigs (snd (ConfirmTransaction v now i n s)) = br_requiredSigs s"
  by (simp_all add: ConfirmTransaction_def Let_def split: option.splits)

lemma confirm_all_simps [simp]:
  "br_securityModel (confirm_all v now i is s) = br_securityModel s" "br_pools (confirm_all v now i is s) = br_pools s"
  "br_validators (confirm_all v now i is s) = br_validators s" "br_requiredSigs (confirm_all v now i is s) = br_requiredSigs s"
  by (induction "is" arbitrary: s) simp_all

lemma confirm_all_confirms:
  assumes "go_get (br_transactions s) i = Some tx" and "bt_Status tx = BridgeTxPending" and "bt_RequiredConfirm tx = int n"
    and "0 < k" and "k \<le> n"
  shows "go_get (br_transactions (confirm_all v now i [k..<Suc n] s)) i =
    Some (tx\<lparr>bt_Confirmations := int n, bt_Status := BridgeTxConfirmed, bt_ConfirmedAt := Some (now n)\<rparr>)"
  using assms
proof (induction "n - k" arbitrary: k s tx)
  case 0
  then show ?case by (simp add: ConfirmTransaction_def Let_def)
next
  case (Suc d)
  let ?s = "snd (ConfirmTransaction v (now k) i (int k) s)"
  have "go_get (br_transactions ?s) i = Some (tx\<lparr>bt_Confirmations := int k\<rparr>)"
    using Suc.prems Suc.hyps(2) by (simp add: ConfirmTransaction_def Let_def)
  moreover have "[k..<Suc n] = k # [Suc k..<Suc n]" using Suc.hyps(2) by (intro upt_conv_Cons) simp
  ultimately show ?case using Suc.hyps(1) [of "Suc k" ?s "tx\<lparr>bt_Confirmations := int k\<rparr>"] Suc.prems Suc.hyps(2) by simp
qed

definition may_sign :: "BridgeSimulator \<Rightarrow> string list \<Rightarrow> bool" where
  "may_sign s names \<longleftrightarrow> distinct names \<and> (\<forall>n \<in> set names. \<exists>w. go_get (br_validators s) n = Some w \<and> bv_IsActive w)"

text \<open>The state a list of signatures leaves; the last one decides the status.\<close>

definition signed :: "string list \<Rightarrow> BridgeTransaction \<Rightarrow> BridgeTransaction" where
  "signed names tx = fold sign_tx names tx"

lemma Sign_signs:
  assumes "\<And>x. length (be_sha v x) = 32" and "go_get (br_transactions s) i = Some tx"
    and "bt_Status tx = BridgeTxConfirmed \<or> bt_Status tx = BridgeTxSigned"
    and "go_get (br_validators s) n = Some w" and "bv_IsActive w" and "n \<notin> set (bt_Signatures tx)"
  obtains t where "SignTransaction v now i n s = Inr (None, t)" "go_get (br_transactions t) i = Some (sign_tx n tx)"
    "br_pools t = br_pools s" "br_securityModel t = br_securityModel s"
    "br_validators t = go_put n (w\<lparr>bv_SignedCount := bv_SignedCount w + 1, bv_LastActiveAt := Some now\<rparr>) (br_validators s)"
  using assms by (auto simp: SignTransaction_def Let_def go_slice_def)

lemma sign_tx_status: "bt_Status tx = BridgeTxConfirmed \<or> bt_Status tx = BridgeTxSigned \<Longrightarrow>
    bt_Status (sign_tx n tx) = BridgeTxConfirmed \<or> bt_Status (sign_tx n tx) = BridgeTxSigned"
  by (simp add: sign_tx_def Let_def)

lemma sign_all_signs:
  assumes "\<And>x. length (be_sha v x) = 32" and "go_get (br_transactions s) i = Some tx"
    and "bt_Status tx = BridgeTxConfirmed \<or> bt_Status tx = BridgeTxSigned"
    and "may_sign s names" and "set names \<inter> set (bt_Signatures tx) = {}"
  shows "\<exists>t. sign_all v now k i names s = Inr t \<and> go_get (br_transactions t) i = Some (signed names tx) \<and>
    br_pools t = br_pools s \<and> br_securityModel t = br_securityModel s"
  using assms(2-5)
proof (induction names arbitrary: s tx k)
  case (Cons n ns)
  from Cons.prems(3) obtain w where w: "go_get (br_validators s) n = Some w" "bv_IsActive w" by (auto simp: may_sign_def)
  from Cons.prems(4) have n: "n \<notin> set (bt_Signatures tx)" by simp
  obtain t where t: "SignTransaction v (now k) i n s = Inr (None, t)" "go_get (br_transactions t) i = Some (sign_tx n tx)"
    "br_pools t = br_pools s" "br_securityModel t = br_securityModel s"
    "br_validators t = go_put n (w\<lparr>bv_SignedCount := bv_SignedCount w + 1, bv_LastActiveAt := Some (now k)\<rparr>) (br_validators s)"
    by (rule Sign_signs [OF assms(1) Cons.prems(1,2) w n])
  have "may_sign t ns" using Cons.prems(3) by (auto simp: may_sign_def t(5) w)
  moreover have "set ns \<inter> set (bt_Signatures (sign_tx n tx)) = {}"
    using Cons.prems(3,4) by (auto simp: may_sign_def sign_tx_def Let_def)
  ultimately show ?case
    using Cons.IH [OF t(2) sign_tx_status [OF Cons.prems(2)], of "Suc k"] t by (simp add: signed_def)
qed (simp add: signed_def)

text \<open>A transaction that waits for \<open>r\<close> signatures and gets those of the first \<open>r\<close> of seven validators.\<close>

lemma signed_effect:
  assumes "bt_RequiredSigs tx = r"
  shows "bt_Signatures (signed names tx) = bt_Signatures tx @ names" and "bt_Amount (signed names tx) = bt_Amount tx"
    and "bt_Fee (signed names tx) = bt_Fee tx" and "tx_key (signed names tx) = tx_key tx" and "bt_RequiredSigs (signed names tx) = r"
    and "bt_Status (signed names tx) =
      (if names \<noteq> [] \<and> r \<le> int (length (bt_Signatures tx @ names)) then BridgeTxSigned else bt_Status tx)"
  using assms
proof (induction names rule: rev_induct)
  case (snoc n ns)
  { case 1 then show ?case using snoc by (simp add: signed_def sign_tx_def Let_def) }
  { case 2 then show ?case using snoc by (simp add: signed_def sign_tx_def Let_def) }
  { case 3 then show ?case using snoc by (simp add: signed_def sign_tx_def Let_def) }
  { case 4 then show ?case using snoc by (simp add: signed_def sign_tx_def Let_def tx_key_def) }
  { case 5 then show ?case using snoc by (simp add: signed_def sign_tx_def Let_def) }
  { case 6 then show ?case using snoc by (auto simp: signed_def sign_tx_def Let_def) }
qed (simp_all add: signed_def)

definition guardians :: "string list" where
  "guardians = map fst validator_table"

lemma sorted_guardians: "sort_strings guardians = guardians"
  by code_simp

lemma distinct_guardians: "distinct guardians" "length guardians = 7"
  by (simp_all add: guardians_def validator_table_def)

lemma Init_validators:
  "go_keys (br_validators (Bridge_Init v now params s)) = guardians"
  "\<forall>n \<in> set guardians. \<exists>w. go_get (br_validators (Bridge_Init v now params s)) n = Some w \<and> bv_IsActive w"
  by (simp_all add: Bridge_Init_def Let_def initializeValidators_def initial_validator_def validator_table_def guardians_def
      initializePools_def pool_table_def initial_pool_def initializeChains_def go_put_def go_keys_def go_get_def)

lemma Init_simps:
  "br_chains (Bridge_Init v now params s) = initial_chains" "br_transactions (Bridge_Init v now params s) = []"
  "br_securityModel (Bridge_Init v now params s) = plain_text ''security_model'' ''multisig'' params"
  by (simp_all add: Bridge_Init_def Let_def initializeValidators_def validator_table_def
      initializePools_def pool_table_def initializeChains_def)

lemma Init_pool:
  "\<exists>p. go_get (br_pools (Bridge_Init v now params s)) (pool_key ''ETH'' ''ethereum'' ''polygon'') = Some p \<and>
     bp_FeePercent p = lit (1 / 10) \<and> bp_SourceLocked p = 1000 * ether \<and> bp_DestMinted p = 1000 * ether"
  by (simp add: Bridge_Init_def Let_def initializeValidators_def validator_table_def
      initializePools_def pool_table_def initializeChains_def initial_pool_def pool_key_def)

lemma Initiate_new:
  assumes "go_get (br_chains s) src = Some chain" and "go_get (br_chains s) dst \<noteq> None"
    and "go_get (br_pools s) (pool_key token src dst) = Some p"
  obtains i h t where "InitiateBridge v now user src dst token amount s = (Inr i, t)"
    "go_get (br_transactions t) i = Some (new_tx now h user src dst token amount (pool_fee v p amount) chain s)"
    "go_get (br_pools t) (pool_key token src dst) = Some (lock_in_pool amount p)"
    "br_validators t = br_validators s" "br_securityModel t = br_securityModel s" "br_requiredSigs t = br_requiredSigs s"
    "br_chains t = br_chains s"
  using assms by (auto simp: InitiateBridge_def ensure_pool_def Let_def)

lemma confirm_all_chains [simp]: "br_chains (confirm_all v now i is s) = br_chains s"
  by (induction "is" arbitrary: s) (simp_all add: ConfirmTransaction_def Let_def split: option.splits)

lemma lock_mint_flow:
  assumes sha: "\<And>x. length (be_sha v x) = 32"
    and multi: "plain_text ''security_model'' ''multisig'' params = ''multisig''"
    and s: "s = Bridge_Init v start params s0"
    and ok_def: "ok = (1 \<le> br_requiredSigs s \<and> br_requiredSigs s \<le> 7)"
  shows "\<exists>g t i tx p. SimulateLockMintFlow v now user amount s = Inr (g, t) \<and> go_get (br_transactions t) i = Some tx \<and>
    bt_Status tx = (if ok then BridgeTxCompleted else BridgeTxConfirmed) \<and>
    go_get (br_pools t) (pool_key ''ETH'' ''ethereum'' ''polygon'') = Some p \<and>
    bp_SourceLocked p = 1000 * ether + amount \<and>
    bp_DestMinted p = 1000 * ether + (if ok then amount - big_div (amount * 100) 100000 else 0)"
proof -
  let ?key = "pool_key ''ETH'' ''ethereum'' ''polygon''" and ?r = "br_requiredSigs s"
  obtain eth where eth: "go_get initial_chains ''ethereum'' = Some eth" "go_get initial_chains ''polygon'' \<noteq> None" "cc_Finality eth = 12"
    by (simp add: initial_chains_def go_get_def)
  note chains = Init_simps(1) [of v start params s0, folded s]
  obtain p where p: "go_get (br_pools s) ?key = Some p" "bp_FeePercent p = lit (1 / 10)" "bp_SourceLocked p = 1000 * ether"
      "bp_DestMinted p = 1000 * ether"
    using Init_pool [of v start params s0] s by auto
  define fee where "fee = pool_fee v p amount"
  have fee: "fee = big_div (amount * 100) 100000" by (simp add: fee_def pool_fee_def p(2) tenth_units)
  obtain i h t1 where t1: "InitiateBridge v (now 0) user ''ethereum'' ''polygon'' ''ETH'' amount s = (Inr i, t1)"
    "go_get (br_transactions t1) i = Some (new_tx (now 0) h user ''ethereum'' ''polygon'' ''ETH'' amount fee eth s)"
    "go_get (br_pools t1) ?key = Some (lock_in_pool amount p)"
    "br_validators t1 = br_validators s" "br_securityModel t1 = br_securityModel s" "br_requiredSigs t1 = ?r" "br_chains t1 = br_chains s"
    using Initiate_new [of s "''ethereum''" eth "''polygon''" "''ETH''" p v "now 0" user amount] eth p chains unfolding fee_def by metis
  let ?tx = "new_tx (now 0) h user ''ethereum'' ''polygon'' ''ETH'' amount fee eth s"
  let ?t2 = "confirm_all v now i [1..<13] t1" and ?names = "take (nat ?r) guardians"
  define tx2 where "tx2 = ?tx\<lparr>bt_Confirmations := 12, bt_Status := BridgeTxConfirmed, bt_ConfirmedAt := Some (now 12)\<rparr>"
  have t2: "go_get (br_transactions ?t2) i = Some tx2"
    using confirm_all_confirms [OF t1(2), of 12 1 v now] eth(3) unfolding tx2_def by (simp add: new_tx_def)
  have tx2: "bt_Status tx2 = BridgeTxConfirmed" "bt_Signatures tx2 = []" "bt_RequiredSigs tx2 = ?r" "bt_Amount tx2 = amount"
      "bt_Fee tx2 = fee" "tx_key tx2 = ?key"
    by (simp_all add: tx2_def new_tx_def tx_key_def)
  have keys: "go_keys (br_validators t1) = guardians"
    using Init_validators(1) [of v start params s0] by (simp add: t1 s)
  have "may_sign ?t2 ?names"
    using Init_validators(2) [of v start params s0] unfolding may_sign_def
    by (auto simp: t1 s distinct_guardians dest: in_set_takeD)
  then obtain t3 where t3: "sign_all v now 13 i ?names ?t2 = Inr t3" "go_get (br_transactions t3) i = Some (signed ?names tx2)"
      "br_pools t3 = br_pools ?t2" "br_securityModel t3 = br_securityModel ?t2"
    using sign_all_signs [OF sha t2, of ?names now 13] tx2(1,2) by auto
  define tx3 where "tx3 = signed ?names tx2"
  note eff = signed_effect [OF tx2(3), of ?names, folded tx3_def]
  have len: "length ?names = min (nat ?r) 7" by (simp add: distinct_guardians)
  have st: "bt_Status tx3 = (if ok then BridgeTxSigned else BridgeTxConfirmed)"
    using eff(6) len tx2(1,2) by (auto simp: ok_def split: if_splits)
  note tx3 = t3(2) [folded tx3_def]
  have pools: "br_pools t3 = br_pools t1" "br_securityModel t3 = ''multisig''" using multi by (simp_all add: t3 t1 s Init_simps)
  define t4 where "t4 = snd (ExecuteBridge v (now (13 + length ?names)) i t3)"
  have key: "pool_key (bt_Token tx3) (bt_SourceChain tx3) (bt_DestChain tx3) = ?key" using eff(4) tx2(6) by (simp add: tx_key_def)
  obtain tx4 where tx4: "go_get (br_transactions t4) i = Some tx4" "bt_Status tx4 = (if ok then BridgeTxCompleted else BridgeTxConfirmed)"
    using tx3 st pools(2) by (cases ok) (auto simp: t4_def ExecuteBridge_def Let_def complete_tx_def)
  obtain p4 where p4: "go_get (br_pools t4) ?key = Some p4" "bp_SourceLocked p4 = 1000 * ether + amount"
      "bp_DestMinted p4 = 1000 * ether + (if ok then amount - fee else 0)"
    using tx3 st pools t1(3) p eff(2,3) tx2(4,5)
    by (cases ok) (auto simp: t4_def ExecuteBridge_def Let_def mint_in_pool_def key lock_in_pool_def)
  have "\<exists>g. SimulateLockMintFlow v now user amount s = Inr (g, t4)"
    using t1(1,2,6,7) chains eth t2 t3(1) tx3 tx4(1) keys
    by (simp add: SimulateLockMintFlow_def tx_of_def t4_def Let_def sorted_guardians del: upt_Suc)
  with tx4 p4 show ?thesis unfolding fee by metis
qed

subsection \<open>A concrete bridge\<close>

definition bridge_demo_env :: bridge_env where
  "bridge_demo_env = \<lparr>be_sha = (\<lambda>_. replicate 32 0), be_stamp = int_text 10, be_recent = map snd, be_oob = 0\<rparr>"

definition demo_bridge :: BridgeSimulator where
  "demo_bridge = Bridge_Init bridge_demo_env 0 [] NewBridgeSimulator"

lemma demo_sha: "length (be_sha bridge_demo_env x) = 32"
  by (simp add: bridge_demo_env_def)

lemma demo_multisig: "plain_text ''security_model'' ''multisig'' [] = ''multisig''"
  by (simp add: plain_text_def)

lemma demo_sigs: "br_requiredSigs demo_bridge = 5"
  by (simp add: demo_bridge_def Bridge_Init_def Let_def initializeValidators_def validator_table_def
      initializePools_def pool_table_def initializeChains_def int_param_def)

lemma bridge_demo_run:
  "\<exists>t i tx p. (bridge_step bridge_demo_env)\<^sup>*\<^sup>* demo_bridge t \<and> go_get (br_transactions t) i = Some tx \<and> bt_Status tx = BridgeTxCompleted \<and>
     go_get (br_pools t) (pool_key ''ETH'' ''ethereum'' ''polygon'') = Some p \<and> bp_DestMinted p = 1000 * ether + 999"
proof -
  let ?ps = "[(''amount'', GInt 1000)]"
  obtain g t i tx p where t: "SimulateLockMintFlow bridge_demo_env (\<lambda>_. 0) ''student'' 1000 demo_bridge = Inr (g, t)"
    "go_get (br_transactions t) i = Some tx" "bt_Status tx = BridgeTxCompleted"
    "go_get (br_pools t) (pool_key ''ETH'' ''ethereum'' ''polygon'') = Some p" "bp_DestMinted p = 1000 * ether + 999"
    using lock_mint_flow [OF demo_sha demo_multisig demo_bridge_def refl, of "\<lambda>_. 0" "''student''" 1000]
    by (auto simp: demo_sigs big_div_def)
  have "Bridge_ExecuteAction bridge_demo_env (\<lambda>_. 0) ''simulate_lock_mint'' ?ps demo_bridge =
      Inr (Inr (''lock_mint_completed'', g), Bridge_updateState bridge_demo_env t)"
    by (simp add: Bridge_ExecuteAction_def bridgeAmountParam_def text_param_def go_get_def t(1))
  then have "bridge_step bridge_demo_env demo_bridge (Bridge_updateState bridge_demo_env t)"
    by (rule step_action) (simp add: bridgeAmountParam_def go_get_def)
  with t show ?thesis
    by (intro exI [of _ "Bridge_updateState bridge_demo_env t"] exI [of _ i] exI [of _ tx] exI [of _ p] conjI r_into_rtranclp) simp_all
qed

subsection \<open>Properties\<close>

text \<open>C2. Under the multi-signature model every pool is backed: over any run of calls with amounts that are not negative,
  what a pool has minted and what its open transactions may still mint is never more than what it has locked.
  An amount of an action is meant here after its conversion to an integer, which makes a number beyond the 64-bit
  range negative: such an amount is excluded.\<close>

theorem Bridge_backed:
  assumes "plain_text ''security_model'' ''multisig'' params = ''multisig''"
    and "(bridge_step v)\<^sup>*\<^sup>* (Bridge_Init v now params s) t" and "go_get (br_pools t) k = Some p"
  shows "bp_DestMinted p + claims k (br_transactions t) \<le> bp_SourceLocked p \<and> 0 \<le> claims k (br_transactions t)"
proof -
  have "bridge_inv v t"
    by (rule bridge.reachable_inv [OF _ assms(2)]) (use assms(1) in \<open>auto simp: bridge_init_def\<close>)
  then show ?thesis
    using assms(3) claims_nonneg by (auto simp: bridge_inv_def bridge_pool_ok_def)
qed

theorem Bridge_backed_witness:
  "\<exists>(t :: BridgeSimulator) (p :: BridgePool). go_get (br_pools t) (pool_key ''ETH'' ''ethereum'' ''polygon'') = Some p \<and> bp_DestMinted p = 1000 * ether + 999 \<and>
    bp_DestMinted p + claims (pool_key ''ETH'' ''ethereum'' ''polygon'') (br_transactions t) \<le> bp_SourceLocked p"
proof -
  obtain t p where t: "(bridge_step bridge_demo_env)\<^sup>*\<^sup>* demo_bridge t"
    "go_get (br_pools t) (pool_key ''ETH'' ''ethereum'' ''polygon'') = Some p" "bp_DestMinted p = 1000 * ether + 999"
    using bridge_demo_run by blast
  with Bridge_backed [OF demo_multisig t(1) [unfolded demo_bridge_def] t(2)] show ?thesis by blast
qed

text \<open>C13. Under the multi-signature model a transaction completes only with the confirmations that the source chain asks for
  and with the signatures of enough different validators.\<close>

theorem Bridge_quorum:
  assumes "plain_text ''security_model'' ''multisig'' params = ''multisig''"
    and "(bridge_step v)\<^sup>*\<^sup>* (Bridge_Init v now params s) t" and "go_get (br_transactions t) i = Some tx"
    and "bt_Status tx = BridgeTxCompleted"
  shows "bt_RequiredConfirm tx \<le> bt_Confirmations tx \<and> distinct (bt_Signatures tx) \<and>
    set (bt_Signatures tx) \<subseteq> set (go_keys (br_validators t)) \<and> br_requiredSigs t \<le> int (length (bt_Signatures tx))"
proof -
  have "bridge_inv v t"
    by (rule bridge.reachable_inv [OF _ assms(2)]) (use assms(1) in \<open>auto simp: bridge_init_def\<close>)
  from bridge_tx_ok [OF this assms(3)] assms(4) show ?thesis by (simp add: tx_ok_def)
qed

theorem Bridge_quorum_witness:
  "\<exists>(t :: BridgeSimulator) i tx. go_get (br_transactions t) i = Some tx \<and> bt_Status tx = BridgeTxCompleted \<and>
    bt_RequiredConfirm tx \<le> bt_Confirmations tx \<and> distinct (bt_Signatures tx) \<and> br_requiredSigs t \<le> int (length (bt_Signatures tx))"
proof -
  obtain t i tx where t: "(bridge_step bridge_demo_env)\<^sup>*\<^sup>* demo_bridge t" "go_get (br_transactions t) i = Some tx"
    "bt_Status tx = BridgeTxCompleted"
    using bridge_demo_run by blast
  with Bridge_quorum [OF demo_multisig t(1) [unfolded demo_bridge_def] t(2,3)] show ?thesis by blast
qed

text \<open>C23. Under the multi-signature model, from the initial state, the lock-and-mint flow always returns; it locks the amount, and it completes the
  transaction and mints the amount without the fee of 0.1 percent just when between 1 and 7 signatures are required: the
  parameter allows up to 21, but there are 7 validators.\<close>

theorem Bridge_lock_mint:
  assumes sha: "\<And>x. length (be_sha v x) = 32"
    and multi: "plain_text ''security_model'' ''multisig'' params = ''multisig''"
    and s: "s = Bridge_Init v start params s0"
    and ok_def: "ok = (1 \<le> br_requiredSigs s \<and> br_requiredSigs s \<le> 7)"
  shows "\<exists>g t i tx p. SimulateLockMintFlow v now user amount s = Inr (g, t) \<and> go_get (br_transactions t) i = Some tx \<and>
    bt_Status tx = (if ok then BridgeTxCompleted else BridgeTxConfirmed) \<and>
    go_get (br_pools t) (pool_key ''ETH'' ''ethereum'' ''polygon'') = Some p \<and>
    bp_SourceLocked p = 1000 * ether + amount \<and>
    bp_DestMinted p = 1000 * ether + (if ok then amount - big_div (amount * 100) 100000 else 0)"
  by (rule lock_mint_flow [OF assms])

theorem Bridge_lock_mint_witness:
  "\<exists>g t i tx. SimulateLockMintFlow bridge_demo_env int ''bob'' 1000 demo_bridge = Inr (g, t) \<and>
    go_get (br_transactions t) i = Some tx \<and> bt_Status tx = BridgeTxCompleted"
proof -
  have "(1 \<le> br_requiredSigs demo_bridge \<and> br_requiredSigs demo_bridge \<le> 7) = True" by (simp add: demo_sigs)
  with Bridge_lock_mint [OF demo_sha demo_multisig demo_bridge_def refl, of int "''bob''" 1000] show ?thesis
    by (metis (no_types, lifting))
qed

subsection \<open>The other security models\<close>

lemma Execute_unguarded:
  assumes "br_securityModel s \<noteq> ''multisig''" and "br_securityModel s \<noteq> ''optimistic''"
    and "go_get (br_transactions s) i = Some tx" and "go_get (br_pools s) (tx_key tx) = Some p"
  shows "\<exists>dest. ExecuteBridge v now i s = (None, snd (ExecuteBridge v now i s)) \<and>
    br_securityModel (snd (ExecuteBridge v now i s)) = br_securityModel s \<and>
    go_get (br_transactions (snd (ExecuteBridge v now i s))) i = Some (complete_tx dest now tx) \<and>
    go_get (br_pools (snd (ExecuteBridge v now i s))) (tx_key tx) =
      Some (p\<lparr>bp_DestMinted := bp_DestMinted p + (bt_Amount tx - bt_Fee tx)\<rparr>)"
  using assms by (auto simp: ExecuteBridge_def Let_def mint_pools)

text \<open>Under the models \<open>zkproof\<close> and \<open>lightclient\<close> nothing is verified: a transaction in any state, whether it has
  confirmations or not and whether it was executed before or not, executes, and mints its amount without the fee every time.\<close>

theorem Bridge_replay:
  assumes "br_securityModel s \<noteq> ''multisig''" and "br_securityModel s \<noteq> ''optimistic''"
    and "go_get (br_transactions s) i = Some tx"
    and "go_get (br_pools s) (pool_key (bt_Token tx) (bt_SourceChain tx) (bt_DestChain tx)) = Some p"
  shows "\<exists>q. go_get (br_pools (((\<lambda>s. snd (ExecuteBridge v now i s)) ^^ n) s))
      (pool_key (bt_Token tx) (bt_SourceChain tx) (bt_DestChain tx)) = Some q \<and>
    bp_DestMinted q = bp_DestMinted p + int n * (bt_Amount tx - bt_Fee tx) \<and> bp_SourceLocked q = bp_SourceLocked p"
  using assms
proof (induction n arbitrary: s tx p)
  case (Suc n)
  let ?s = "snd (ExecuteBridge v now i s)"
  obtain dest where "br_securityModel ?s = br_securityModel s" "go_get (br_transactions ?s) i = Some (complete_tx dest now tx)"
      "go_get (br_pools ?s) (tx_key tx) = Some (p\<lparr>bp_DestMinted := bp_DestMinted p + (bt_Amount tx - bt_Fee tx)\<rparr>)"
    using Execute_unguarded [OF Suc.prems(1-3) Suc.prems(4) [folded tx_key_def], of v now] by blast
  with Suc.IH [of ?s "complete_tx dest now tx"] Suc.prems show ?case
    by (simp add: complete_tx_def tx_key_def funpow_Suc_right algebra_simps del: funpow.simps(2))
qed simp

definition zk_bridge :: BridgeSimulator where
  "zk_bridge = snd (InitiateBridge bridge_demo_env 0 ''eve'' ''ethereum'' ''polygon'' ''ETH'' 1000
     (Bridge_Init bridge_demo_env 0 [(''security_model'', GStr ''zkproof'')] NewBridgeSimulator))"

theorem Bridge_replay_witness:
  "\<exists>i q. go_get (br_pools (((\<lambda>s. snd (ExecuteBridge bridge_demo_env 0 i s)) ^^ 5) zk_bridge)) (pool_key ''ETH'' ''ethereum'' ''polygon'') = Some q \<and>
    bp_SourceLocked q = 1000 * ether + 1000 \<and> bp_DestMinted q = 1000 * ether + 5 * 999"
proof -
  let ?s = "Bridge_Init bridge_demo_env 0 [(''security_model'', GStr ''zkproof'')] NewBridgeSimulator"
  let ?eth = "the (go_get initial_chains ''ethereum'')"
  have eth: "go_get (br_chains ?s) ''ethereum'' = Some ?eth" "go_get (br_chains ?s) ''polygon'' \<noteq> None"
    by (simp_all add: Init_simps initial_chains_def go_get_def)
  obtain p where p: "go_get (br_pools ?s) (pool_key ''ETH'' ''ethereum'' ''polygon'') = Some p" "bp_FeePercent p = lit (1 / 10)"
      "bp_SourceLocked p = 1000 * ether" "bp_DestMinted p = 1000 * ether"
    using Init_pool by blast
  obtain i h t where t: "InitiateBridge bridge_demo_env 0 ''eve'' ''ethereum'' ''polygon'' ''ETH'' 1000 ?s = (Inr i, t)"
    "go_get (br_transactions t) i =
       Some (new_tx 0 h ''eve'' ''ethereum'' ''polygon'' ''ETH'' 1000 (pool_fee bridge_demo_env p 1000) ?eth ?s)"
    "go_get (br_pools t) (pool_key ''ETH'' ''ethereum'' ''polygon'') = Some (lock_in_pool 1000 p)" "br_securityModel t = br_securityModel ?s"
    by (rule Initiate_new [OF eth p(1)])
  have z: "zk_bridge = t" by (simp add: zk_bridge_def t(1))
  have m: "br_securityModel t = ''zkproof''" by (simp add: t(4) Init_simps plain_text_def go_get_def)
  have "\<exists>q. go_get (br_pools (((\<lambda>s. snd (ExecuteBridge bridge_demo_env 0 i s)) ^^ 5) t)) (pool_key ''ETH'' ''ethereum'' ''polygon'') = Some q \<and>
      bp_DestMinted q = bp_DestMinted (lock_in_pool 1000 p) + int 5 * (1000 - pool_fee bridge_demo_env p 1000) \<and>
      bp_SourceLocked q = bp_SourceLocked (lock_in_pool 1000 p)"
    using Bridge_replay [OF _ _ t(2), where p = "lock_in_pool 1000 p" and v = bridge_demo_env and now = 0 and n = 5] t(3) m by (simp add: new_tx_def)
  then show ?thesis by (auto simp: z lock_in_pool_def p pool_fee_def tenth_units big_div_def)
qed

subsection \<open>The shared liquidity\<close>

text \<open>The two sides of an initial pool are one number: after a payment of the liquidity flow both sides show the liquidity
  raised by the fee, while the source should have gained the amount and the destination should have paid out the rest.\<close>

theorem Bridge_liquidity_alias:
  assumes "amount \<le> 800 * ether" and "s = Bridge_Init v start params NewBridgeSimulator"
  shows "\<exists>g t p. SimulateLiquidityBridgeFlow v user amount s = Inr (Inr g, t) \<and>
    go_get (br_pools t) (pool_key ''ETH'' ''ethereum'' ''arbitrum'') = Some p \<and>
    big_at t (bp_SourceLiquidity p) = 800 * ether + big_div (amount * 50) 100000 \<and>
    big_at t (bp_DestLiquidity p) = 800 * ether + big_div (amount * 50) 100000"
proof -
  let ?key = "pool_key ''ETH'' ''ethereum'' ''arbitrum''"
  obtain p where p: "go_get (br_pools s) ?key = Some p" "bp_SourceLiquidity p = 1" "bp_DestLiquidity p = 1" "bp_FeePercent p = lit (1 / 20)"
    by (simp add: assms(2) Bridge_Init_def Let_def initializeValidators_def validator_table_def NewBridgeSimulator_def
        initializePools_def pool_table_def initializeChains_def initial_pool_def pool_key_def)
  have "br_bigs s ! 1 = 800 * ether" "1 < length (br_bigs s)"
    by (simp_all add: assms(2) Bridge_Init_def Let_def initializeValidators_def validator_table_def NewBridgeSimulator_def
        initializePools_def pool_table_def initializeChains_def initial_pool_def)
  with p assms(1) show ?thesis
    by (simp add: SimulateLiquidityBridgeFlow_def Let_def go_index_def big_at_def pool_fee_def twentieth_units)
qed

theorem Bridge_liquidity_alias_witness:
  "\<exists>g t p. SimulateLiquidityBridgeFlow bridge_demo_env ''bob'' ether demo_bridge = Inr (Inr g, t) \<and>
    go_get (br_pools t) (pool_key ''ETH'' ''ethereum'' ''arbitrum'') = Some p \<and>
    ether * 800 < big_at t (bp_SourceLiquidity p) \<and> big_at t (bp_SourceLiquidity p) = big_at t (bp_DestLiquidity p)"
proof -
  have "ether \<le> 800 * ether" and "ether * 800 < 800 * ether + big_div (ether * 50) 100000" by (simp_all add: ether_def big_div_def)
  with Bridge_liquidity_alias [OF _ demo_bridge_def, where amount = ether and user = "''bob''"] show ?thesis by auto
qed

end
