(* ===== verification/ChainTypes.thy ===== *)
theory ChainTypes
  imports SimText
begin

section \<open>Chain data types: \<open>simulations/pkg/types\<close>\<close>

text \<open>
  Addresses, hashes, accounts, transactions and their pool, blocks and chains, and the bounded
  message queue (\<open>account.go\<close>, \<open>transaction.go\<close>, \<open>block.go\<close>, \<open>message.go\<close>).  A fixed array is a list
  of bytes of that length.  The objects are held by their tables alone, so the tables hold values.
  \<open>sha\<close> is SHA-256 and \<open>text_of\<close> the text of a JSON value; balances are \<open>big.Int\<close>.
\<close>

type_synonym Address = "byte list"
type_synonym Hash = "byte list"

subsection \<open>Addresses and hashes\<close>

definition EmptyAddress :: Address where
  "EmptyAddress = replicate 20 0"

definition EmptyHash :: Hash where
  "EmptyHash = replicate 32 0"

text \<open>The results of the two readers are an array and an error flag; the array is empty on an error.\<close>

definition AddressFromHex :: "string \<Rightarrow> Address \<times> bool" where
  "AddressFromHex s =
     (let s = (if 2 \<le> length s \<and> take 2 s = ''0x'' then drop 2 s else s) in
      case hex_decode s of (b, bad) \<Rightarrow> if bad then (EmptyAddress, True) else (go_copy EmptyAddress b, False))"

definition Address_String :: "Address \<Rightarrow> string" where
  "Address_String a = ''0x'' @ hex_encode a"

definition Address_IsEmpty :: "Address \<Rightarrow> bool" where
  "Address_IsEmpty a \<longleftrightarrow> a = EmptyAddress"

definition Address_MarshalJSON :: "Address \<Rightarrow> json" where
  "Address_MarshalJSON a = JStr (Address_String a)"

text \<open>Reading into an address: the new address and an error flag; \<open>null\<close> is read as an empty text.\<close>

definition Address_UnmarshalJSON :: "json \<Rightarrow> Address \<Rightarrow> Address \<times> bool" where
  "Address_UnmarshalJSON j a =
     (case (case j of JStr s \<Rightarrow> Some s | JNull \<Rightarrow> Some [] | _ \<Rightarrow> None) of
        None \<Rightarrow> (a, True)
      | Some s \<Rightarrow> (case AddressFromHex s of (b, bad) \<Rightarrow> if bad then (a, True) else (b, False)))"

definition HashFromHex :: "string \<Rightarrow> Hash \<times> bool" where
  "HashFromHex s = (case hex_decode s of (b, bad) \<Rightarrow> if bad then (EmptyHash, True) else (go_copy EmptyHash b, False))"

definition Hash_String :: "Hash \<Rightarrow> string" where
  "Hash_String h = hex_encode h"

definition Hash_IsEmpty :: "Hash \<Rightarrow> bool" where
  "Hash_IsEmpty h \<longleftrightarrow> h = EmptyHash"

definition Hash_MarshalJSON :: "Hash \<Rightarrow> json" where
  "Hash_MarshalJSON h = JStr (Hash_String h)"

text \<open>A hash is read over the old one, and keeps what a shorter text does not reach.\<close>

definition Hash_UnmarshalJSON :: "json \<Rightarrow> Hash \<Rightarrow> Hash \<times> bool" where
  "Hash_UnmarshalJSON j h =
     (case (case j of JStr s \<Rightarrow> Some s | JNull \<Rightarrow> Some [] | _ \<Rightarrow> None) of
        None \<Rightarrow> (h, True)
      | Some s \<Rightarrow> (case hex_decode s of (b, bad) \<Rightarrow> if bad then (h, True) else (go_copy h b, False)))"

subsection \<open>Accounts\<close>

record ChainAccount =
  ac_Address :: Address
  ac_Balance :: int
  ac_Nonce :: u64
  ac_CodeHash :: Hash
  ac_Storage :: "(Hash, Hash) gomap"

type_synonym AccountState = "(Address, ChainAccount) gomap"

definition NewChainAccount :: "Address \<Rightarrow> ChainAccount" where
  "NewChainAccount addr = \<lparr>ac_Address = addr, ac_Balance = 0, ac_Nonce = 0, ac_CodeHash = EmptyHash, ac_Storage = []\<rparr>"

definition ChainAccount_IsContract :: "ChainAccount \<Rightarrow> bool" where
  "ChainAccount_IsContract a \<longleftrightarrow> \<not> Hash_IsEmpty (ac_CodeHash a)"

definition NewAccountState :: AccountState where
  "NewAccountState = []"

text \<open>Every access makes the account when it is missing.\<close>

definition AccountState_GetAccount :: "Address \<Rightarrow> AccountState \<Rightarrow> ChainAccount \<times> AccountState" where
  "AccountState_GetAccount addr s =
     (case go_get s addr of
        Some a \<Rightarrow> (a, s)
      | None \<Rightarrow> (NewChainAccount addr, go_put addr (NewChainAccount addr) s))"

definition upd_account :: "Address \<Rightarrow> (ChainAccount \<Rightarrow> ChainAccount) \<Rightarrow> AccountState \<Rightarrow> AccountState" where
  "upd_account addr f s = (case AccountState_GetAccount addr s of (a, s) \<Rightarrow> go_put addr (f a) s)"

definition AccountState_GetBalance :: "Address \<Rightarrow> AccountState \<Rightarrow> int \<times> AccountState" where
  "AccountState_GetBalance addr s = (case AccountState_GetAccount addr s of (a, s) \<Rightarrow> (ac_Balance a, s))"

definition AccountState_SetBalance :: "Address \<Rightarrow> int \<Rightarrow> AccountState \<Rightarrow> AccountState" where
  "AccountState_SetBalance addr balance = upd_account addr (\<lambda>a. a\<lparr>ac_Balance := balance\<rparr>)"

definition AddBalance :: "Address \<Rightarrow> int \<Rightarrow> AccountState \<Rightarrow> AccountState" where
  "AddBalance addr amount = upd_account addr (\<lambda>a. a\<lparr>ac_Balance := ac_Balance a + amount\<rparr>)"

definition SubBalance :: "Address \<Rightarrow> int \<Rightarrow> AccountState \<Rightarrow> bool \<times> AccountState" where
  "SubBalance addr amount s =
     (case AccountState_GetAccount addr s of (a, s) \<Rightarrow>
        if ac_Balance a < amount then (False, s)
        else (True, go_put addr (a\<lparr>ac_Balance := ac_Balance a - amount\<rparr>) s))"

definition GetNonce :: "Address \<Rightarrow> AccountState \<Rightarrow> u64 \<times> AccountState" where
  "GetNonce addr s = (case AccountState_GetAccount addr s of (a, s) \<Rightarrow> (ac_Nonce a, s))"

definition SetNonce :: "Address \<Rightarrow> u64 \<Rightarrow> AccountState \<Rightarrow> AccountState" where
  "SetNonce addr nonce = upd_account addr (\<lambda>a. a\<lparr>ac_Nonce := nonce\<rparr>)"

definition IncrementNonce :: "Address \<Rightarrow> AccountState \<Rightarrow> AccountState" where
  "IncrementNonce addr = upd_account addr (\<lambda>a. a\<lparr>ac_Nonce := ac_Nonce a + 1\<rparr>)"

definition Transfer :: "Address \<Rightarrow> Address \<Rightarrow> int \<Rightarrow> AccountState \<Rightarrow> bool \<times> AccountState" where
  "Transfer from dest amount s =
     (case SubBalance from amount s of (ok, s) \<Rightarrow> if ok then (True, AddBalance dest amount s) else (False, s))"

subsection \<open>Signatures and wallets\<close>

record Signature =
  sg_R :: "byte list"
  sg_S :: "byte list"
  sg_V :: byte

definition Signature_IsEmpty :: "Signature \<Rightarrow> bool" where
  "Signature_IsEmpty s \<longleftrightarrow> sg_R s = [] \<and> sg_S s = []"

record KeyPair =
  kp_PrivateKey :: "byte list"
  kp_PublicKey :: "byte list"
  kp_Address :: Address

record Wallet =
  wa_Keys :: "KeyPair list"
  wa_Current :: int

definition NewWallet :: Wallet where
  "NewWallet = \<lparr>wa_Keys = [], wa_Current = 0\<rparr>"

definition CurrentKey :: "Wallet \<Rightarrow> KeyPair option go" where
  "CurrentKey w =
     (if wa_Keys w = [] then Inr None
      else if wa_Current w < 0 then Inl IndexOutOfRange
      else go_bind (go_index (wa_Keys w) (nat (wa_Current w))) (\<lambda>k. Inr (Some k)))"

subsection \<open>Transactions\<close>

record Transaction =
  tr_Hash :: Hash
  tr_From :: Address
  tr_To :: Address
  tr_Value :: int
  tr_Nonce :: u64
  tr_GasPrice :: int
  tr_GasLimit :: u64
  tr_Data :: "byte list option"
  tr_Signature :: Signature
  tr_Timestamp :: gtime

datatype TxType = TxTypeTransfer | TxTypeContract | TxTypeDeploy

text \<open>A slice of bytes in JSON: \<open>null\<close>, or the text in base 64.\<close>

definition bytes_json :: "byte list option \<Rightarrow> json" where
  "bytes_json b = (case b of None \<Rightarrow> JNull | Some bs \<Rightarrow> JStr (encode64 std64 True bs))"

definition Transaction_CalculateHash :: "(byte list \<Rightarrow> Hash) \<Rightarrow> (json \<Rightarrow> byte list) \<Rightarrow> Transaction \<Rightarrow> Hash" where
  "Transaction_CalculateHash sha text_of tx =
     sha (text_of (JObj [(''from'', Address_MarshalJSON (tr_From tx)), (''to'', Address_MarshalJSON (tr_To tx)),
       (''value'', JInt (tr_Value tx)), (''nonce'', JInt (uint (tr_Nonce tx))), (''gas_price'', JInt (tr_GasPrice tx)),
       (''gas_limit'', JInt (uint (tr_GasLimit tx))), (''data'', bytes_json (tr_Data tx))]))"

definition NewTransaction ::
  "(byte list \<Rightarrow> Hash) \<Rightarrow> (json \<Rightarrow> byte list) \<Rightarrow> int \<Rightarrow> Address \<Rightarrow> Address \<Rightarrow> int \<Rightarrow> u64 \<Rightarrow> byte list option \<Rightarrow> Transaction" where
  "NewTransaction sha text_of now from dest val nonce data =
     (let tx = \<lparr>tr_Hash = EmptyHash, tr_From = from, tr_To = dest, tr_Value = val, tr_Nonce = nonce, tr_GasPrice = 1000000000,
            tr_GasLimit = 21000, tr_Data = data, tr_Signature = \<lparr>sg_R = [], sg_S = [], sg_V = 0\<rparr>, tr_Timestamp = Some now\<rparr>
      in tx\<lparr>tr_Hash := Transaction_CalculateHash sha text_of tx\<rparr>)"

definition Transaction_Type :: "Transaction \<Rightarrow> TxType" where
  "Transaction_Type tx =
     (if Address_IsEmpty (tr_To tx) then TxTypeDeploy
      else if (case tr_Data tx of None \<Rightarrow> False | Some bs \<Rightarrow> 0 < length bs) then TxTypeContract
      else TxTypeTransfer)"

text \<open>The limit is converted to a signed number.\<close>

definition GasCost :: "Transaction \<Rightarrow> int" where
  "GasCost tx = tr_GasPrice tx * sint (tr_GasLimit tx)"

subsection \<open>The pool of transactions\<close>

record TxPool =
  tp_Pending :: "(Address, Transaction list) gomap"
  tp_Queued :: "(Address, Transaction list) gomap"

definition NewTxPool :: TxPool where
  "NewTxPool = \<lparr>tp_Pending = [], tp_Queued = []\<rparr>"

definition go_list :: "('k, 'a list) gomap \<Rightarrow> 'k \<Rightarrow> 'a list" where
  "go_list m k = (case go_get m k of None \<Rightarrow> [] | Some xs \<Rightarrow> xs)"

definition TxPool_Add :: "Transaction \<Rightarrow> TxPool \<Rightarrow> TxPool" where
  "TxPool_Add tx p = p\<lparr>tp_Pending := go_put (tr_From tx) (go_list (tp_Pending p) (tr_From tx) @ [tx]) (tp_Pending p)\<rparr>"

text \<open>The loops over the senders, in the order \<open>ord\<close> of the map, and over the transactions of each.\<close>

fun take_pending :: "int \<Rightarrow> Transaction list \<Rightarrow> Transaction list \<Rightarrow> Transaction list" where
  "take_pending limit txs [] = txs"
| "take_pending limit txs (tx # rest) =
     (let txs = txs @ [tx] in if limit \<le> int (length txs) then txs else take_pending limit txs rest)"

definition GetPending :: "int \<Rightarrow> Address list \<Rightarrow> TxPool \<Rightarrow> Transaction list" where
  "GetPending limit ord p = take_pending limit [] (concat (map (go_list (tp_Pending p)) ord))"

fun drop_hash :: "Hash \<Rightarrow> Transaction list \<Rightarrow> Transaction list option" where
  "drop_hash h [] = None"
| "drop_hash h (tx # txs) = (if tr_Hash tx = h then Some txs else map_option ((#) tx) (drop_hash h txs))"

fun remove_from :: "Hash \<Rightarrow> Address list \<Rightarrow> TxPool \<Rightarrow> TxPool" where
  "remove_from h [] p = p"
| "remove_from h (a # as) p =
     (case drop_hash h (go_list (tp_Pending p) a) of
        Some txs \<Rightarrow> p\<lparr>tp_Pending := go_put a txs (tp_Pending p)\<rparr>
      | None \<Rightarrow> remove_from h as p)"

definition TxPool_Remove :: "Hash \<Rightarrow> Address list \<Rightarrow> TxPool \<Rightarrow> TxPool" where
  "TxPool_Remove h ord p = remove_from h ord p"

subsection \<open>Blocks\<close>

record BlockHeader =
  bh_Version :: "32 word"
  bh_PrevBlockHash :: Hash
  bh_MerkleRoot :: Hash
  bh_StateRoot :: Hash
  bh_Timestamp :: gtime
  bh_Height :: u64
  bh_Difficulty :: u64
  bh_Nonce :: u64
  bh_Miner :: Address
  bh_GasLimit :: u64
  bh_GasUsed :: u64
  bh_ExtraData :: "byte list option"

record Block =
  bk_Header :: BlockHeader
  bk_Transactions :: "Transaction list"
  bk_Hash :: Hash

definition Block_CalculateHash :: "(byte list \<Rightarrow> Hash) \<Rightarrow> (json \<Rightarrow> byte list) \<Rightarrow> Block \<Rightarrow> Hash" where
  "Block_CalculateHash sha text_of b =
     (let h = bk_Header b in
      sha (text_of (JObj [(''version'', JInt (uint (bh_Version h))), (''prev_block_hash'', Hash_MarshalJSON (bh_PrevBlockHash h)),
        (''merkle_root'', Hash_MarshalJSON (bh_MerkleRoot h)), (''state_root'', Hash_MarshalJSON (bh_StateRoot h)),
        (''timestamp'', time_json (bh_Timestamp h)), (''height'', JInt (uint (bh_Height h))),
        (''difficulty'', JInt (uint (bh_Difficulty h))), (''nonce'', JInt (uint (bh_Nonce h))),
        (''miner'', Address_MarshalJSON (bh_Miner h)), (''gas_limit'', JInt (uint (bh_GasLimit h))),
        (''gas_used'', JInt (uint (bh_GasUsed h))), (''extra_data'', bytes_json (bh_ExtraData h))])))"

text \<open>One level of the tree: the last hash of an odd level is paired with itself.\<close>

fun pair_level :: "(byte list \<Rightarrow> Hash) \<Rightarrow> Hash list \<Rightarrow> Hash list" where
  "pair_level sha [] = []"
| "pair_level sha [a] = [sha (a @ a)]"
| "pair_level sha (a # b # hs) = sha (a @ b) # pair_level sha hs"

lemma length_pair_level: "length (pair_level sha hs) = (length hs + 1) div 2"
  by (induction sha hs rule: pair_level.induct) simp_all

function merkle_levels :: "(byte list \<Rightarrow> Hash) \<Rightarrow> Hash list \<Rightarrow> Hash list" where
  "merkle_levels sha hs = (if length hs \<le> 1 then hs else merkle_levels sha (pair_level sha hs))"
  by pat_completeness auto
termination by (relation "measure (length \<circ> snd)") (auto simp: length_pair_level)

declare merkle_levels.simps [simp del]

definition CalculateMerkleRoot :: "(byte list \<Rightarrow> Hash) \<Rightarrow> Transaction list \<Rightarrow> Hash go" where
  "CalculateMerkleRoot sha txs =
     (if txs = [] then Inr EmptyHash else go_index (merkle_levels sha (map tr_Hash txs)) 0)"

definition NewBlock ::
  "(byte list \<Rightarrow> Hash) \<Rightarrow> (json \<Rightarrow> byte list) \<Rightarrow> int \<Rightarrow> Hash \<Rightarrow> u64 \<Rightarrow> Transaction list \<Rightarrow> Address \<Rightarrow> Block go" where
  "NewBlock sha text_of now prevHash height txs miner =
     go_bind (CalculateMerkleRoot sha txs) (\<lambda>root.
       let header = \<lparr>bh_Version = 1, bh_PrevBlockHash = prevHash, bh_MerkleRoot = root, bh_StateRoot = EmptyHash,
             bh_Timestamp = Some now, bh_Height = height, bh_Difficulty = 0, bh_Nonce = 0, bh_Miner = miner,
             bh_GasLimit = 30000000, bh_GasUsed = 0, bh_ExtraData = None\<rparr>;
           b = \<lparr>bk_Header = header, bk_Transactions = txs, bk_Hash = EmptyHash\<rparr>
       in Inr (b\<lparr>bk_Hash := Block_CalculateHash sha text_of b\<rparr>))"

definition GenesisBlock :: "(byte list \<Rightarrow> Hash) \<Rightarrow> (json \<Rightarrow> byte list) \<Rightarrow> Block" where
  "GenesisBlock sha text_of =
     (let header = \<lparr>bh_Version = 1, bh_PrevBlockHash = EmptyHash, bh_MerkleRoot = EmptyHash, bh_StateRoot = EmptyHash,
            bh_Timestamp = Some 0, bh_Height = 0, bh_Difficulty = 1, bh_Nonce = 0, bh_Miner = EmptyAddress,
            bh_GasLimit = 30000000, bh_GasUsed = 0, bh_ExtraData = None\<rparr>;
          b = \<lparr>bk_Header = header, bk_Transactions = [], bk_Hash = EmptyHash\<rparr>
      in b\<lparr>bk_Hash := Block_CalculateHash sha text_of b\<rparr>)"

subsection \<open>The chain\<close>

record Chain =
  ch_Blocks :: "Block list"
  ch_BlockByHash :: "(Hash, Block) gomap"
  ch_Height :: u64

definition NewChain :: "(byte list \<Rightarrow> Hash) \<Rightarrow> (json \<Rightarrow> byte list) \<Rightarrow> Chain" where
  "NewChain sha text_of =
     (let g = GenesisBlock sha text_of in \<lparr>ch_Blocks = [g], ch_BlockByHash = [(bk_Hash g, g)], ch_Height = 0\<rparr>)"

definition AddBlock :: "Block \<Rightarrow> Chain \<Rightarrow> Chain" where
  "AddBlock b c = c\<lparr>ch_Blocks := ch_Blocks c @ [b], ch_BlockByHash := go_put (bk_Hash b) b (ch_BlockByHash c),
     ch_Height := bh_Height (bk_Header b)\<rparr>"

definition GetBlock :: "Hash \<Rightarrow> Chain \<Rightarrow> Block option" where
  "GetBlock h c = go_get (ch_BlockByHash c) h"

definition GetBlockByHeight :: "u64 \<Rightarrow> Chain \<Rightarrow> Block option go" where
  "GetBlockByHeight height c =
     (if ch_Height c < height then Inr None
      else go_bind (go_index (ch_Blocks c) (unat height)) (\<lambda>b. Inr (Some b)))"

definition LatestBlock :: "Chain \<Rightarrow> Block option" where
  "LatestBlock c = (if ch_Blocks c = [] then None else Some (last (ch_Blocks c)))"

subsection \<open>The message queue\<close>

record 'm MessageQueue =
  mq_messages :: "'m list"
  mq_size :: int

text \<open>A negative capacity panics.\<close>

definition NewMessageQueue :: "int \<Rightarrow> 'm MessageQueue go" where
  "NewMessageQueue n = (if n < 0 then Inl MakeSliceLen else Inr \<lparr>mq_messages = [], mq_size = n\<rparr>)"

definition MessageQueue_Push :: "'m \<Rightarrow> 'm MessageQueue \<Rightarrow> bool \<times> 'm MessageQueue" where
  "MessageQueue_Push m q =
     (if mq_size q \<le> int (length (mq_messages q)) then (False, q) else (True, q\<lparr>mq_messages := mq_messages q @ [m]\<rparr>))"

definition MessageQueue_Pop :: "'m MessageQueue \<Rightarrow> 'm option \<times> 'm MessageQueue" where
  "MessageQueue_Pop q =
     (case mq_messages q of [] \<Rightarrow> (None, q) | m # ms \<Rightarrow> (Some m, q\<lparr>mq_messages := ms\<rparr>))"

definition MessageQueue_Len :: "'m MessageQueue \<Rightarrow> int" where
  "MessageQueue_Len q = int (length (mq_messages q))"

definition MessageQueue_IsEmpty :: "'m MessageQueue \<Rightarrow> bool" where
  "MessageQueue_IsEmpty q \<longleftrightarrow> mq_messages q = []"

end
