(* ===== verification/ChainTypesFacts.thy ===== *)
theory ChainTypesFacts
  imports ChainTypes
begin

section \<open>Chain data types: properties\<close>

text \<open>
  The texts of addresses and hashes, transfers between accounts, the Merkle root against a definition
  by positions, and the chain by height.
\<close>

subsection \<open>Texts\<close>

lemma go_copy_full: "length b = length a \<Longrightarrow> go_copy a b = b"
  by simp

text \<open>An address and a hash are read back from their text and from their JSON.\<close>

theorem Hash_text_roundtrip:
  assumes "length a = 20" and "length h = 32" and "length h' = 32"
  shows "AddressFromHex (Address_String a) = (a, False) \<and> HashFromHex (Hash_String h) = (h, False) \<and>
    Address_UnmarshalJSON (Address_MarshalJSON a) a' = (a, False) \<and> Hash_UnmarshalJSON (Hash_MarshalJSON h) h' = (h, False)"
  using assms
  by (simp add: AddressFromHex_def Address_String_def HashFromHex_def Hash_String_def Address_UnmarshalJSON_def
      Address_MarshalJSON_def Hash_UnmarshalJSON_def Hash_MarshalJSON_def EmptyAddress_def EmptyHash_def)

theorem Hash_text_roundtrip_witness:
  "AddressFromHex (Address_String (replicate 20 171)) = (replicate 20 171, False) \<and>
   HashFromHex (Hash_String (replicate 32 7)) = (replicate 32 7, False)"
  using Hash_text_roundtrip [of "replicate 20 171" "replicate 32 7" "replicate 32 9"] by simp

subsection \<open>Accounts\<close>

definition balance :: "AccountState \<Rightarrow> Address \<Rightarrow> int" where
  "balance s a = (case go_get s a of None \<Rightarrow> 0 | Some acc \<Rightarrow> ac_Balance acc)"

definition total_balance :: "AccountState \<Rightarrow> int" where
  "total_balance s = sum_list (map (ac_Balance \<circ> snd) s)"

lemma total_balance_put: "total_balance (go_put a acc s) = total_balance s + ac_Balance acc - balance s a"
  by (induction s) (auto simp: total_balance_def balance_def go_put_def go_get_def)

lemma balance_put [simp]: "balance (go_put a acc s) b = (if b = a then ac_Balance acc else balance s b)"
  by (simp add: balance_def)

lemma AccountState_GetAccount_effect:
  assumes "AccountState_GetAccount a s = (acc, t)"
  shows "ac_Balance acc = balance s a" "total_balance t = total_balance s" "balance t = balance s"
  using assms by (auto simp: AccountState_GetAccount_def balance_def NewChainAccount_def total_balance_put fun_eq_iff split: option.splits if_splits)

lemma upd_account_effect:
  assumes "\<And>acc. ac_Balance (f acc) = ac_Balance acc + x"
  shows "total_balance (upd_account a f s) = total_balance s + x"
    and "balance (upd_account a f s) b = balance s b + (if b = a then x else 0)"
proof -
  obtain acc t where e: "AccountState_GetAccount a s = (acc, t)" by force
  note eff = AccountState_GetAccount_effect [OF e]
  show "total_balance (upd_account a f s) = total_balance s + x" using eff assms by (simp add: upd_account_def e total_balance_put)
  show "balance (upd_account a f s) b = balance s b + (if b = a then x else 0)" using eff assms by (simp add: upd_account_def e)
qed

lemma SubBalance_effect:
  assumes "SubBalance a x s = (ok, t)"
  shows "ok \<longleftrightarrow> x \<le> balance s a" "total_balance t = total_balance s - (if ok then x else 0)"
    "balance t b = balance s b - (if ok \<and> b = a then x else 0)"
proof -
  obtain acc u where e: "AccountState_GetAccount a s = (acc, u)" by force
  note eff = AccountState_GetAccount_effect [OF e]
  show "ok \<longleftrightarrow> x \<le> balance s a" "total_balance t = total_balance s - (if ok then x else 0)"
    "balance t b = balance s b - (if ok \<and> b = a then x else 0)"
    using assms eff by (auto simp: SubBalance_def e total_balance_put split: if_splits)
qed

text \<open>A transfer succeeds just when the sender has the amount, it moves the amount, it changes no other balance, and it
  leaves the sum of all balances; this holds for a negative amount as well, which takes from the receiver.\<close>

theorem Transfer_moves:
  "case Transfer from dest x s of (ok, t) \<Rightarrow>
     (ok \<longleftrightarrow> x \<le> balance s from) \<and> total_balance t = total_balance s \<and>
     (\<forall>a. balance t a = balance s a - (if ok \<and> a = from then x else 0) + (if ok \<and> a = dest then x else 0))"
proof -
  obtain ok u where e: "SubBalance from x s = (ok, u)" by force
  note eff = SubBalance_effect [OF e]
  have add: "total_balance (AddBalance dest x u) = total_balance u + x" "balance (AddBalance dest x u) a = balance u a + (if a = dest then x else 0)" for a
    unfolding AddBalance_def by (rule upd_account_effect; simp)+
  show ?thesis using eff add by (simp add: Transfer_def e)
qed

subsection \<open>The pool of transactions\<close>

lemma take_pending_take:
  "take_pending limit acc xs = acc @ take (nat (max 1 (limit - int (length acc)))) xs"
proof (induction xs arbitrary: acc)
  case (Cons x xs)
  show ?case
  proof (cases "limit \<le> int (length acc) + 1")
    case False
    then have "nat (max 1 (limit - int (length acc))) = Suc (nat (max 1 (limit - int (length (acc @ [x])))))" by simp
    with False Cons [of "acc @ [x]"] show ?thesis by (simp add: Let_def)
  next
    case True
    then have "max 1 (limit - int (length acc)) = 1" by simp
    with True show ?thesis by (simp add: Let_def)
  qed
qed simp

text \<open>The pending transactions are the first ones, sender by sender and in the order of arrival; at most the limit, but one
  when the limit is zero or less.\<close>

theorem GetPending_takes:
  "GetPending limit ord p = take (nat (max 1 limit)) (concat (map (go_list (tp_Pending p)) ord))"
  by (simp add: GetPending_def take_pending_take)

subsection \<open>The Merkle root\<close>

text \<open>The tree by positions: how many hashes a level has, the hash at a position, and the number of levels above the leaves.\<close>

fun level_width :: "nat \<Rightarrow> nat \<Rightarrow> nat" where
  "level_width n 0 = n"
| "level_width n (Suc j) = (level_width n j + 1) div 2"

fun node_at :: "(byte list \<Rightarrow> Hash) \<Rightarrow> Hash list \<Rightarrow> nat \<Rightarrow> nat \<Rightarrow> Hash" where
  "node_at sha hs 0 i = hs ! i"
| "node_at sha hs (Suc j) i =
     sha (node_at sha hs j (2 * i) @ node_at sha hs j (min (2 * i + 1) (level_width (length hs) j - 1)))"

fun tree_height :: "nat \<Rightarrow> nat" where
  "tree_height n = (if n \<le> 1 then 0 else Suc (tree_height ((n + 1) div 2)))"

declare tree_height.simps [simp del]

lemma pair_level_nth:
  "i < length (pair_level sha hs) \<Longrightarrow> pair_level sha hs ! i = sha (hs ! (2 * i) @ hs ! min (2 * i + 1) (length hs - 1))"
proof (induction sha hs arbitrary: i rule: pair_level.induct)
  case (3 sha a b hs)
  show ?case
  proof (cases i)
    case (Suc k)
    with 3 have "k < length (pair_level sha hs)" by simp
    moreover from this have "hs \<noteq> []" by auto
    ultimately show ?thesis using 3(1) Suc by (cases "2 * k + 1 \<le> length hs - 1") (auto simp: min_def nth_Cons')
  qed simp
qed simp_all

lemma level_width_pair: "level_width ((n + 1) div 2) j = level_width n (Suc j)"
  by (induction j) simp_all

lemma level_width_pos: "0 < n \<Longrightarrow> 0 < level_width n j"
  by (induction j) auto

lemma node_at_pair:
  "i < level_width (length hs) (Suc j) \<Longrightarrow> node_at sha (pair_level sha hs) j i = node_at sha hs (Suc j) i"
proof (induction j arbitrary: i)
  case 0
  then show ?case by (simp add: pair_level_nth length_pair_level)
next
  case (Suc j)
  let ?w = "level_width (length hs) (Suc j)"
  have "2 * i < ?w" "min (2 * i + 1) (?w - 1) < ?w" using Suc.prems by auto
  moreover have "level_width (length (pair_level sha hs)) j = ?w" by (simp only: length_pair_level level_width_pair)
  ultimately show ?case using Suc.IH by (simp only: node_at.simps(2) [of sha _ "Suc j"] node_at.simps(2) [of sha "pair_level sha hs"])
qed

lemma merkle_levels_node:
  "hs \<noteq> [] \<Longrightarrow> merkle_levels sha hs = [node_at sha hs (tree_height (length hs)) 0]"
proof (induction sha hs rule: merkle_levels.induct)
  case (1 sha hs)
  show ?case
  proof (cases "length hs \<le> 1")
    case True
    with 1(2) obtain h where "hs = [h]" by (cases hs) auto
    then show ?thesis by (simp add: merkle_levels.simps tree_height.simps)
  next
    case False
    let ?ps = "pair_level sha hs"
    have "0 < length ?ps" using False by (simp add: length_pair_level)
    with 1(1) False have "merkle_levels sha ?ps = [node_at sha ?ps (tree_height (length ?ps)) 0]" by auto
    moreover have "node_at sha ?ps (tree_height (length ?ps)) 0 = node_at sha hs (Suc (tree_height (length ?ps))) 0"
      using False by (intro node_at_pair level_width_pos) auto
    moreover have "tree_height (length hs) = Suc (tree_height (length ?ps))"
      using False by (simp add: length_pair_level tree_height.simps [of "length hs"])
    ultimately show ?thesis using False by (simp add: merkle_levels.simps [of sha hs])
  qed
qed

text \<open>C19. The loop over levels computes the tree by positions: its root is the node over all leaves, where the partner of a
  last node without one is that node itself.\<close>

theorem CalculateMerkleRoot_positions:
  "CalculateMerkleRoot sha txs =
     Inr (if txs = [] then EmptyHash else node_at sha (map tr_Hash txs) (tree_height (length txs)) 0)"
  by (simp add: CalculateMerkleRoot_def merkle_levels_node go_index_def)

subsection \<open>The chain\<close>

lemma AddBlocks:
  "ch_Blocks (fold AddBlock bs c) = ch_Blocks c @ bs"
  "ch_Height (fold AddBlock bs c) = (if bs = [] then ch_Height c else bh_Height (bk_Header (last bs)))"
  by (induction bs arbitrary: c) (simp_all add: AddBlock_def)

text \<open>When the blocks come with the heights 1, 2, 3 and so on, every height up to the last gives its block and a greater one
  gives none.\<close>

theorem Chain_by_height:
  assumes "\<And>i. i < length bs \<Longrightarrow> unat (bh_Height (bk_Header (bs ! i))) = i + 1"
  shows "GetBlockByHeight h (fold AddBlock bs (NewChain sha text_of)) =
    Inr (if unat h \<le> length bs then Some ((GenesisBlock sha text_of # bs) ! unat h) else None)"
proof -
  let ?c = "fold AddBlock bs (NewChain sha text_of)"
  have "unat (ch_Height ?c) = length bs"
    using assms [of "length bs - 1"] by (cases "bs = []") (simp_all add: AddBlocks NewChain_def Let_def last_conv_nth)
  then have "ch_Height ?c < h \<longleftrightarrow> length bs < unat h" by (simp add: word_less_nat_alt)
  then show ?thesis by (auto simp: GetBlockByHeight_def go_index_def AddBlocks NewChain_def Let_def)
qed

theorem Chain_by_height_witness:
  "\<exists>b :: Block. GetBlockByHeight 1 (fold AddBlock [b] (NewChain (\<lambda>x. x) (\<lambda>_. []))) = Inr (Some b)"
proof -
  define b :: Block where "b = \<lparr>bk_Header = (bk_Header (GenesisBlock (\<lambda>x. x) (\<lambda>_. [])))\<lparr>bh_Height := 1\<rparr>, bk_Transactions = [], bk_Hash = [1]\<rparr>"
  have "GetBlockByHeight 1 (fold AddBlock [b] (NewChain (\<lambda>x. x) (\<lambda>_. []))) =
      Inr (if unat (1 :: u64) \<le> length [b] then Some ((GenesisBlock (\<lambda>x. x) (\<lambda>_. []) # [b]) ! unat (1 :: u64)) else None)"
    by (rule Chain_by_height) (simp add: b_def)
  then show ?thesis by (intro exI [of _ b]) simp
qed

text \<open>Nothing checks the height of a block that is added: one that skips a height makes the chain panic when it is asked
  for that height.\<close>

theorem Chain_gap_panics:
  assumes "length (ch_Blocks c) < unat (bh_Height (bk_Header b))"
  shows "GetBlockByHeight (bh_Height (bk_Header b)) (AddBlock b c) = Inl IndexOutOfRange"
  using assms by (simp add: GetBlockByHeight_def AddBlock_def go_index_def)

theorem Chain_gap_panics_witness:
  "\<exists>b :: Block. GetBlockByHeight 5 (AddBlock b (NewChain (\<lambda>x. x) (\<lambda>_. []))) = Inl IndexOutOfRange"
proof -
  define b :: Block where "b = \<lparr>bk_Header = (bk_Header (GenesisBlock (\<lambda>x. x) (\<lambda>_. [])))\<lparr>bh_Height := 5\<rparr>, bk_Transactions = [], bk_Hash = [1]\<rparr>"
  have "GetBlockByHeight (bh_Height (bk_Header b)) (AddBlock b (NewChain (\<lambda>x. x) (\<lambda>_. []))) = Inl IndexOutOfRange"
    by (rule Chain_gap_panics) (simp add: b_def NewChain_def Let_def)
  then show ?thesis by (auto simp: b_def)
qed

end
