(* ===== verification/Encoding.thy ===== *)
theory Encoding
  imports SimText
begin

section \<open>Encodings: \<open>simulations/modules/crypto/encoding.go\<close>\<close>

text \<open>
  Hexadecimal, base 64, base 58 and base 32.  Base 58 is written out in the code as long division
  over a buffer; the others are the standard library's.  The time is an argument.
\<close>

record EncodedData =
  ed_ID :: string
  ed_Original :: string
  ed_Encoding :: string
  ed_Encoded :: string
  ed_ByteLength :: int
  ed_EncodedLen :: int
  ed_Expansion :: f64
  ed_Timestamp :: gtime

record EncodingRecord =
  er_ID :: string
  er_Type :: string
  er_Encoding :: string
  er_Success :: bool
  er_Timestamp :: gtime

record EncodingSimulator =
  es_history :: "EncodedData list"
  es_records :: "EncodingRecord list"
  es_calls :: "base_call list"

datatype encoding_err = BadHex | BadBase64 | BadBase58 nat | UnsupportedEncodingAction string

definition ecall :: "base_call \<Rightarrow> EncodingSimulator \<Rightarrow> EncodingSimulator" where
  "ecall c s = s\<lparr>es_calls := es_calls s @ [c]\<rparr>"

definition NewEncodingSimulator :: EncodingSimulator where
  "NewEncodingSimulator = \<lparr>es_history = [], es_records = [], es_calls = []\<rparr>"

definition crypto_style :: effect_style where
  "crypto_style = \<lparr>es_severity = ''medium'', es_blocking = False\<rparr>"

definition truncateString :: "string \<Rightarrow> nat \<Rightarrow> string" where
  "truncateString s n = (if length s \<le> n then s else take n s @ ''...'')"

definition expansion_text :: "EncodedData \<Rightarrow> gval" where
  "expansion_text d = GStr (fixed2 (ed_Expansion d) @ ''x'')"

definition Encoding_updateState :: "EncodingSimulator \<Rightarrow> EncodingSimulator" where
  "Encoding_updateState s =
     (let counts = [(''history_count'', GInt (int (length (es_history s)))), (''record_count'', GInt (int (length (es_records s))))];
          recent = map (\<lambda>d. GMap [(''id'', GStr (ed_ID d)), (''encoding'', GStr (ed_Encoding d)), (''expansion'', expansion_text d)])
            (keep_last 5 (es_history s))
      in fold ecall (map (\<lambda>(k, v). CallGlobal k v) counts @
           [CallGlobal ''recent_history'' (GList recent), CallTeaching (byte_text [229, 135, 134, 229, 164, 135, 231, 188, 150, 231, 160, 129]) (lit (4 / 10)) counts]) s)"

definition Encoding_Init :: "EncodingSimulator \<Rightarrow> EncodingSimulator" where
  "Encoding_Init s = Encoding_updateState s"

subsection \<open>Base 58\<close>

definition base58Alphabet :: string where
  "base58Alphabet = ''123456789ABCDEFGHJKLMNPQRSTUVWXYZabcdefghijkmnopqrstuvwxyz''"

text \<open>
  One pass over the buffer, from its last digit to its first: the digits times \<open>m\<close> plus the carry, in
  the base \<open>b\<close>.  What is carried out of the buffer is lost.
\<close>

fun mul_add :: "nat \<Rightarrow> nat \<Rightarrow> nat \<Rightarrow> nat list \<Rightarrow> nat list \<times> nat" where
  "mul_add m b carry [] = ([], carry)"
| "mul_add m b carry (d # ds) =
     (case mul_add m b carry ds of (ds', carry) \<Rightarrow>
        let carry = carry + m * d in ((carry mod b) # ds', carry div b))"

definition long_digits :: "nat \<Rightarrow> nat \<Rightarrow> nat list \<Rightarrow> nat list \<Rightarrow> nat list" where
  "long_digits m b inp out = fold (\<lambda>c out. fst (mul_add m b c out)) inp out"

definition base58Encode :: "byte list \<Rightarrow> string" where
  "base58Encode inp =
     (let ns = map unat inp;
          zeros = length (takeWhile ((=) 0) ns);
          out = long_digits 256 58 ns (replicate (length inp * 138 div 100 + 1) 0)
      in if inp = [] then []
         else replicate zeros (CHR ''1'') @ map (\<lambda>d. base58Alphabet ! d) (dropWhile ((=) 0) out))"

text \<open>The position of a character is looked up by the low byte of its rune.\<close>

definition rune_digit :: "nat \<Rightarrow> nat option" where
  "rune_digit r = index_of base58Alphabet (char_of (r mod 256))"

definition note_record :: "int \<Rightarrow> string \<Rightarrow> string \<Rightarrow> bool \<Rightarrow> EncodingSimulator \<Rightarrow> EncodingSimulator" where
  "note_record now ty enc ok s =
     s\<lparr>es_records := es_records s @ [\<lparr>er_ID = ''rec-'' @ itoa (length (es_records s) + 1), er_Type = ty, er_Encoding = enc,
       er_Success = ok, er_Timestamp = Some now\<rparr>]\<rparr>"

definition first_bad_rune :: "nat list \<Rightarrow> nat option" where
  "first_bad_rune rs = List.find (\<lambda>r. rune_digit r = None) rs"

definition DecodeBase58 :: "int \<Rightarrow> string \<Rightarrow> EncodingSimulator \<Rightarrow> (encoding_err + byte list) \<times> EncodingSimulator" where
  "DecodeBase58 now encoded s =
     (let rs = go_runes encoded;
          zeros = length (takeWhile ((=) 49) rs);
          out = long_digits 58 256 (map (\<lambda>r. the (rune_digit r)) rs) (replicate (length encoded * 733 div 1000 + 1) 0)
      in if encoded = [] then (Inr [], s)
         else case first_bad_rune rs of
           Some r \<Rightarrow> (Inl (BadBase58 r), s)
         | None \<Rightarrow> (Inr (replicate zeros 0 @ map of_nat (dropWhile ((=) 0) out)), note_record now ''decode'' ''base58'' True s))"

subsection \<open>Operations\<close>

text \<open>The result of an encoder, and its place in the history.\<close>

definition encoded_data :: "int \<Rightarrow> string \<Rightarrow> string \<Rightarrow> string \<Rightarrow> EncodingSimulator \<Rightarrow> EncodedData" where
  "encoded_data now data enc encoded s =
     \<lparr>ed_ID = ''enc-'' @ itoa (length (es_history s) + 1), ed_Original = data, ed_Encoding = enc, ed_Encoded = encoded,
       ed_ByteLength = int (length data), ed_EncodedLen = int (length encoded),
       ed_Expansion = f64_div (f64_of_int (int (length encoded))) (f64_of_int (int (length data))), ed_Timestamp = Some now\<rparr>"

text \<open>The encoders with a record (hexadecimal, base 64, base 58), and those without one.\<close>

definition encode_recorded :: "int \<Rightarrow> string \<Rightarrow> string \<Rightarrow> string \<Rightarrow> EncodingSimulator \<Rightarrow> EncodedData \<times> EncodingSimulator" where
  "encode_recorded now enc encoded data s =
     (let r = encoded_data now data enc encoded s;
          s = note_record now ''encode'' enc True (s\<lparr>es_history := es_history s @ [r]\<rparr>)
      in (r, Encoding_updateState (ecall (CallEmit ''encoded'' [] [] (Some [(''encoding'', GStr enc), (''expansion'', expansion_text r),
           (''result'', GStr (truncateString encoded 32))])) s)))"

definition encode_plain :: "int \<Rightarrow> string \<Rightarrow> string \<Rightarrow> string \<Rightarrow> EncodingSimulator \<Rightarrow> EncodedData \<times> EncodingSimulator" where
  "encode_plain now enc encoded data s =
     (let r = encoded_data now data enc encoded s
      in (r, Encoding_updateState (ecall (CallEmit ''encoded'' [] [] (Some [(''encoding'', GStr enc), (''expansion'', expansion_text r)]))
           (s\<lparr>es_history := es_history s @ [r]\<rparr>))))"

definition EncodeHex :: "int \<Rightarrow> string \<Rightarrow> EncodingSimulator \<Rightarrow> EncodedData \<times> EncodingSimulator" where
  "EncodeHex now data = encode_recorded now ''hex'' (hex_encode (str_bytes data)) data"

definition EncodeBase64 :: "int \<Rightarrow> string \<Rightarrow> EncodingSimulator \<Rightarrow> EncodedData \<times> EncodingSimulator" where
  "EncodeBase64 now data = encode_recorded now ''base64'' (encode64 std64 True (str_bytes data)) data"

definition EncodeBase64URL :: "int \<Rightarrow> string \<Rightarrow> EncodingSimulator \<Rightarrow> EncodedData \<times> EncodingSimulator" where
  "EncodeBase64URL now data = encode_plain now ''base64url'' (encode64 url64 False (str_bytes data)) data"

definition EncodeBase58 :: "int \<Rightarrow> string \<Rightarrow> EncodingSimulator \<Rightarrow> EncodedData \<times> EncodingSimulator" where
  "EncodeBase58 now data = encode_recorded now ''base58'' (base58Encode (str_bytes data)) data"

definition EncodeBase32 :: "int \<Rightarrow> string \<Rightarrow> EncodingSimulator \<Rightarrow> EncodedData \<times> EncodingSimulator" where
  "EncodeBase32 now data = encode_plain now ''base32'' (encode32 (str_bytes data)) data"

definition byte_string :: "byte list \<Rightarrow> string" where
  "byte_string = map (\<lambda>b. char_of (unat b))"

definition DecodeHex :: "int \<Rightarrow> string \<Rightarrow> EncodingSimulator \<Rightarrow> (encoding_err + string) \<times> EncodingSimulator" where
  "DecodeHex now encoded s =
     (case hex_decode encoded of (bs, bad) \<Rightarrow>
        if bad then (Inl BadHex, note_record now ''decode'' ''hex'' False s)
        else (Inr (byte_string bs), ecall (CallEmit ''decoded'' [] [] (Some [(''encoding'', GStr ''hex''),
          (''result'', GStr (truncateString (byte_string bs) 32))])) (note_record now ''decode'' ''hex'' True s)))"

definition DecodeBase64 :: "int \<Rightarrow> string \<Rightarrow> EncodingSimulator \<Rightarrow> (encoding_err + string) \<times> EncodingSimulator" where
  "DecodeBase64 now encoded s =
     (case decode64 std64 encoded of
        None \<Rightarrow> (Inl BadBase64, s)
      | Some bs \<Rightarrow> (Inr (byte_string bs), note_record now ''decode'' ''base64'' True s))"

definition CompareEncodings :: "int \<Rightarrow> string \<Rightarrow> EncodingSimulator \<Rightarrow> (string \<times> EncodedData) list \<times> EncodingSimulator" where
  "CompareEncodings now data s =
     (case EncodeHex now data s of (h, s) \<Rightarrow>
      case EncodeBase64 now data s of (b64, s) \<Rightarrow>
      case EncodeBase58 now data s of (b58, s) \<Rightarrow>
      case EncodeBase32 now data s of (b32, s) \<Rightarrow>
        ([(''hex'', h), (''base64'', b64), (''base58'', b58), (''base32'', b32)],
         ecall (CallEmit ''encoding_compared'' [] [] (Some [(''original_length'', GInt (int (length data))),
           (''hex_expansion'', expansion_text h), (''base64_expansion'', expansion_text b64),
           (''base58_expansion'', expansion_text b58), (''base32_expansion'', expansion_text b32)])) s))"

text \<open>The result is what was encoded, by name.\<close>

definition Encoding_ExecuteAction ::
  "int \<Rightarrow> string \<Rightarrow> (string, gval) gomap \<Rightarrow> EncodingSimulator \<Rightarrow>
   (encoding_err + (string \<times> EncodedData) list) \<times> EncodingSimulator" where
  "Encoding_ExecuteAction now action params s =
     (let data = text_param ''data'' ''ChainSpace'' params in
      if action = ''encode_base64'' then
        (case EncodeBase64 now data s of (r, s) \<Rightarrow> (Inr [(''encoded'', r)], s))
      else if action = ''compare_encodings'' then
        (case CompareEncodings now data s of (rs, s) \<Rightarrow> (Inr rs, s))
      else (Inl (UnsupportedEncodingAction action), s))"

end
