(* ===== verification/Digits.thy ===== *)
theory Digits
  imports GoText
begin

section \<open>Digits and their value\<close>

text \<open>
  The value of digits in a base, the first one the highest: what it is bounded by, and that digits
  without leading zeros are determined by it.
\<close>

lemma dval_Nil [simp]: "digits_value b [] = 0"
  by (simp add: digits_value_def)

lemma dval_snoc [simp]: "digits_value b (ds @ [d]) = digits_value b ds * b + d"
  by (simp add: digits_value_def)

lemma dval_Cons: "digits_value b (d # ds) = d * b ^ length ds + digits_value b ds"
  by (induction ds rule: rev_induct) (simp_all add: digits_value_def algebra_simps)

lemma dval_less: "list_all (\<lambda>d. d < b) ds \<Longrightarrow> digits_value b ds < b ^ length ds"
proof (induction ds)
  case (Cons d ds)
  then have "d * b ^ length ds + digits_value b ds < (d + 1) * b ^ length ds" by simp
  also have "\<dots> \<le> b * b ^ length ds" using Cons.prems by (intro mult_right_mono) auto
  finally show ?case by (simp add: dval_Cons)
qed simp

lemma dval_zeros [simp]: "digits_value b (replicate k 0 @ ds) = digits_value b ds"
  by (induction k) (simp_all add: dval_Cons)

lemma dval_replicate [simp]: "digits_value b (replicate k 0) = 0"
  using dval_zeros [of b k "[]"] by simp

lemma dval_dropWhile [simp]: "digits_value b (dropWhile ((=) 0) ds) = digits_value b ds"
  by (induction ds) (simp_all add: dval_Cons)

text \<open>Digits without a leading zero are determined by their value.\<close>

lemma dval_mod_div:
  assumes "d < b"
  shows "(digits_value b ds * b + d) div b = digits_value b ds" "(digits_value b ds * b + d) mod b = d"
  using assms by simp_all

lemma dval_pos: "list_all (\<lambda>d. d < b) ds \<Longrightarrow> ds \<noteq> [] \<Longrightarrow> hd ds \<noteq> 0 \<Longrightarrow> 0 < b \<Longrightarrow> 0 < digits_value b ds"
  by (cases ds) (simp_all add: dval_Cons)

definition lead_ok :: "nat list \<Rightarrow> bool" where
  "lead_ok ds \<longleftrightarrow> (ds \<noteq> [] \<longrightarrow> hd ds \<noteq> 0)"

lemma dval_inj:
  assumes "list_all (\<lambda>d. d < b) xs" and "list_all (\<lambda>d. d < b) ys" and "lead_ok xs" and "lead_ok ys" and "digits_value b xs = digits_value b ys"
  shows "xs = ys"
  using assms
proof (induction xs arbitrary: ys rule: rev_induct)
  case Nil
  show ?case
  proof (rule ccontr)
    assume "[] \<noteq> ys"
    moreover have "0 < b" using Nil(2) calculation by (cases ys) auto
    ultimately show False using Nil dval_pos [of b ys] by (simp add: lead_ok_def)
  qed
next
  case (snoc x xs)
  have b: "0 < b" "x < b" using snoc.prems(1) by auto
  show ?case
  proof (cases ys rule: rev_cases)
    case Nil
    with snoc.prems dval_pos [of b "xs @ [x]"] b show ?thesis by (simp add: lead_ok_def)
  next
    case (snoc zs z)
    have z: "z < b" using \<open>list_all (\<lambda>d. d < b) ys\<close> snoc by simp
    have "digits_value b xs * b + x = digits_value b zs * b + z" using \<open>digits_value b (xs @ [x]) = digits_value b ys\<close> snoc by simp
    then have "digits_value b xs = digits_value b zs" "x = z" using dval_mod_div [OF b(2)] dval_mod_div [OF z] by metis+
    moreover have "lead_ok xs" "lead_ok zs" using snoc.prems(3,4) snoc by (auto simp: lead_ok_def hd_append)
    ultimately show ?thesis using snoc.IH [of zs] snoc.prems(1,2) snoc by simp
  qed
qed

lemma lead_ok_dropWhile [simp]: "lead_ok (dropWhile ((=) 0) ds)"
  using hd_dropWhile [of "(=) 0" ds] by (auto simp: lead_ok_def)

lemma dropWhile_all: "list_all P ds \<Longrightarrow> list_all P (dropWhile Q ds)"
  by (induction ds) simp_all

text \<open>The value is small exactly when the digits before the last ones are zeros.\<close>

lemma dval_append: "digits_value b (xs @ ys) = digits_value b xs * b ^ length ys + digits_value b ys"
  by (induction ys rule: rev_induct) (simp_all add: algebra_simps flip: append_assoc)

lemma dval_zero_iff: "0 < b \<Longrightarrow> digits_value b ds = 0 \<longleftrightarrow> list_all ((=) 0) ds"
  by (induction ds) (auto simp: dval_Cons)

lemma dval_small_iff:
  assumes "list_all (\<lambda>d. d < b) ds" and "0 < b" and "k \<le> length ds"
  shows "digits_value b ds < b ^ (length ds - k) \<longleftrightarrow> list_all ((=) 0) (take k ds)"
proof -
  let ?x = "digits_value b (take k ds)" and ?y = "digits_value b (drop k ds)"
  have y: "?y < b ^ (length ds - k)"
    using dval_less [of b "drop k ds"] assms by (auto simp: list_all_iff dest: in_set_dropD)
  have v: "digits_value b ds = ?x * b ^ (length ds - k) + ?y" using dval_append [of b "take k ds" "drop k ds"] by simp
  show ?thesis
  proof (cases "?x = 0")
    case True
    then have "digits_value b ds < b ^ (length ds - k)" using v y by simp
    then show ?thesis using True dval_zero_iff [OF assms(2), of "take k ds"] by simp
  next
    case False
    then have "b ^ (length ds - k) \<le> ?x * b ^ (length ds - k)" by simp
    then show ?thesis using v False dval_zero_iff [OF assms(2), of "take k ds"] by linarith
  qed
qed

end
