(* ===== verification/EncodingFacts.thy ===== *)
theory EncodingFacts
  imports Encoding Digits
begin

section \<open>Encodings: properties\<close>

text \<open>
  What is encoded in base 58 or base 64 is decoded again, the buffers of base 58 are long enough for
  every input, and a character that is not in the alphabet can pass.
\<close>

subsection \<open>Long division over a buffer\<close>

lemma mul_add_value:
  assumes "0 < b" and "mul_add m b c ds = (ds', c')"
  shows "length ds' = length ds" "list_all (\<lambda>d. d < b) ds'" "digits_value b ds' + c' * b ^ length ds = m * digits_value b ds + c"
  using assms(2)
proof (induction ds arbitrary: ds' c')
  case (Cons d ds)
  { case 1 with Cons show ?case by (auto simp: Let_def split: prod.splits) }
  { case 2 with Cons assms(1) show ?case by (auto simp: Let_def split: prod.splits) }
  { case 3
    obtain es e where e: "mul_add m b c ds = (es, e)" by force
    note ih = Cons(1,3) [OF e]
    define q where "q = e + m * d"
    have r: "ds' = (q mod b) # es" "c' = q div b" using 3 e by (auto simp: Let_def q_def)
    obtain q1 q2 where q: "q div b = q1" "q mod b = q2" "q = b * q1 + q2" by (metis mult_div_mod_eq)
    have "digits_value b ds' + c' * b ^ length (d # ds) = q * b ^ length ds + digits_value b es"
      using ih(1) unfolding r q(1,2) by (simp add: q(3) dval_Cons algebra_simps)
    also have "\<dots> = m * d * b ^ length ds + (digits_value b es + e * b ^ length ds)" by (simp add: q_def algebra_simps)
    also have "\<dots> = m * digits_value b (d # ds) + c" using ih(2) by (simp add: dval_Cons algebra_simps)
    finally show ?case . }
qed simp_all

text \<open>While the value fits, nothing is carried out of the buffer.\<close>

lemma long_digits_value:
  assumes "1 < b" and "0 < m" and "list_all (\<lambda>d. d < b) out" and "(digits_value b out) * m ^ length inp + digits_value m inp < b ^ length out"
  shows "length (long_digits m b inp out) = length out \<and> list_all (\<lambda>d. d < b) (long_digits m b inp out) \<and>
    digits_value b (long_digits m b inp out) = digits_value b out * m ^ length inp + digits_value m inp"
  using assms(3,4)
proof (induction inp arbitrary: out)
  case (Cons c inp)
  obtain ds e where e: "mul_add m b c out = (ds, e)" by force
  have b: "0 < b" using assms(1) by simp
  note v = mul_add_value [OF b e]
  let ?x = "m * digits_value b out + c"
  have split: "digits_value b out * m ^ length (c # inp) + digits_value m (c # inp) = ?x * m ^ length inp + digits_value m inp"
    by (simp add: dval_Cons algebra_simps)
  have "?x \<le> ?x * m ^ length inp" using assms(2) by simp
  with Cons.prems(2) split have "?x < b ^ length out" by linarith
  with v(3) have "e * b ^ length out < 1 * b ^ length out" by linarith
  then have "e = 0" by (simp only: mult_less_cancel2) simp
  with v(3) have "digits_value b ds = ?x" by simp
  with Cons.IH [of ds] Cons.prems(2) v split e show ?case by (simp add: long_digits_def)
qed (simp add: long_digits_def)

subsection \<open>The buffers are long enough\<close>

lemma power_root: "(x :: nat) ^ k \<le> y ^ k \<Longrightarrow> 0 < k \<Longrightarrow> x \<le> y"
  using power_mono_iff [of x y k] by simp

text \<open>A comparison of one pair of powers carries over to every length.\<close>

lemma power_scale:
  assumes "(x :: nat) ^ k \<le> y ^ m" and "0 < k" and "1 \<le> y" and "m * n \<le> k * l"
  shows "x ^ n \<le> y ^ l"
proof (rule power_root)
  have "(x ^ n) ^ k = (x ^ k) ^ n" by (simp add: mult.commute flip: power_mult)
  also have "\<dots> \<le> (y ^ m) ^ n" using assms(1) by (rule power_mono) simp
  also have "\<dots> = y ^ (m * n)" by (simp add: power_mult)
  also have "\<dots> \<le> y ^ (k * l)" using assms(4,3) by (rule power_increasing)
  finally show "(x ^ n) ^ k \<le> (y ^ l) ^ k" by (simp add: mult.commute flip: power_mult)
qed (rule assms(2))

lemma buffer_encode: "(256 :: nat) ^ n \<le> 58 ^ (n * 138 div 100 + 1)"
proof (rule power_scale)
  show "(256 :: nat) ^ 8 \<le> 58 ^ 11" by simp
  obtain q where q: "n * 138 div 100 = q" by blast
  have "n * 138 < q * 100 + 100" using dividend_less_div_times [of 100 "n * 138"] by (simp only: q) simp
  then show "11 * n \<le> 8 * (n * 138 div 100 + 1)" unfolding q by simp
qed simp_all

lemma buffer_decode: "(58 :: nat) ^ n \<le> 256 ^ (n * 733 div 1000 + 1)"
proof (rule power_scale)
  show "(58 :: nat) ^ 86 \<le> 256 ^ 63" by simp
  obtain q where q: "n * 733 div 1000 = q" by blast
  have "n * 733 < q * 1000 + 1000" using dividend_less_div_times [of 1000 "n * 733"] by (simp only: q) simp
  then show "63 * n \<le> 86 * (n * 733 div 1000 + 1)" unfolding q by simp
qed simp_all

subsection \<open>Base 58\<close>

lemma alphabet_props: "distinct base58Alphabet" "length base58Alphabet = 58" "list_all (\<lambda>c. of_char c < (128 :: nat)) base58Alphabet"
  by (simp_all add: base58Alphabet_def)

lemma index_of_nth: "distinct xs \<Longrightarrow> i < length xs \<Longrightarrow> index_of xs (xs ! i) = Some i"
  by (induction xs arbitrary: i) (auto simp: nth_Cons split: nat.splits)

lemma index_of_less: "index_of xs c = Some i \<Longrightarrow> i < length xs \<and> xs ! i = c"
  by (induction xs arbitrary: i) (auto split: if_splits)

lemma rune_digit_nth [simp]: "d < 58 \<Longrightarrow> rune_digit (of_char (base58Alphabet ! d)) = Some d"
  using alphabet_props by (simp add: rune_digit_def index_of_nth list_all_length)

lemma rune_digit_less: "rune_digit r = Some d \<Longrightarrow> d < 58"
  using index_of_less alphabet_props(2) by (fastforce simp: rune_digit_def)

lemma one_digit [simp]: "d < 58 \<Longrightarrow> of_char (base58Alphabet ! d) = (49 :: nat) \<longleftrightarrow> d = 0"
proof -
  have "rune_digit 49 = Some 0" by code_simp
  then show "d < 58 \<Longrightarrow> ?thesis" using rune_digit_nth [of d] by (cases "d = 0") (auto simp: base58Alphabet_def)
qed

lemma unat_bytes: "list_all (\<lambda>d. d < 256) (map unat (bs :: byte list))"
  by (auto simp: list_all_iff)

text \<open>The text of digits is read as the same digits.\<close>

definition digits_text :: "nat list \<Rightarrow> string" where
  "digits_text ds = map (\<lambda>d. base58Alphabet ! d) ds"

lemma digits_text_runes: "list_all (\<lambda>d. d < 58) ds \<Longrightarrow> go_runes (digits_text ds) = map of_char (digits_text ds)"
  using alphabet_props unfolding go_runes_def digits_text_def by (intro runes_ascii) (auto simp: list_all_iff)

lemma digits_text_read: "list_all (\<lambda>d. d < 58) ds \<Longrightarrow> map (\<lambda>r. the (rune_digit r)) (map of_char (digits_text ds)) = ds"
  by (induction ds) (simp_all add: digits_text_def)

lemma digits_text_ok: "list_all (\<lambda>d. d < 58) ds \<Longrightarrow> first_bad_rune (map of_char (digits_text ds)) = None"
  by (auto simp: first_bad_rune_def digits_text_def find_None_iff list_all_iff)

lemma leading_ones: "list_all (\<lambda>d. d < 58) ds \<Longrightarrow> takeWhile ((=) 49) (map of_char (digits_text ds)) = replicate (length (takeWhile ((=) 0) ds)) (49 :: nat)"
proof (induction ds)
  case (Cons d ds)
  then show ?case using one_digit [of d] by (auto simp: digits_text_def)
qed (simp add: digits_text_def)

lemma takeWhile_zeros: "replicate (length (takeWhile ((=) (0 :: nat)) ds)) 0 @ dropWhile ((=) 0) ds = ds"
  by (induction ds) auto

text \<open>A conversion into a buffer of zeros that is long enough keeps the value.\<close>

lemma convert_value:
  assumes "1 < b" and "1 < m" and "list_all (\<lambda>d. d < m) ds" and "m ^ length ds \<le> b ^ l"
  shows "list_all (\<lambda>d. d < b) (long_digits m b ds (replicate l 0))" "digits_value b (long_digits m b ds (replicate l 0)) = digits_value m ds"
  using long_digits_value [of b m "replicate l 0" ds] dval_less [OF assms(3)] assms by (auto simp: list_all_iff)

lemma takeWhile_lead: "lead_ok ds \<Longrightarrow> takeWhile ((=) 0) (replicate z 0 @ ds) = replicate z 0"
  by (cases ds) (auto simp: lead_ok_def takeWhile_append)

lemma base58Encode_digits:
  assumes "bs \<noteq> []"
  obtains ds where "base58Encode bs = digits_text (replicate (length (takeWhile ((=) 0) (map unat bs))) 0 @ ds)"
    "list_all (\<lambda>d. d < 58) ds" "lead_ok ds" "digits_value 58 ds = digits_value 256 (map unat bs)"
proof -
  let ?l = "length bs * 138 div 100 + 1" and ?ns = "map unat bs"
  have ns: "list_all (\<lambda>d. d < 256) ?ns" by (rule unat_bytes)
  have le: "256 ^ length ?ns \<le> (58 :: nat) ^ ?l" using buffer_encode [of "length bs"] by (simp only: length_map)
  note v = convert_value [OF _ _ ns le, simplified]
  show thesis
  proof (rule that)
    show "base58Encode bs = digits_text (replicate (length (takeWhile ((=) 0) ?ns)) 0 @ dropWhile ((=) 0) (long_digits 256 58 ?ns (replicate ?l 0)))"
      using assms by (simp add: base58Encode_def digits_text_def base58Alphabet_def Let_def)
  qed (use v in \<open>simp_all add: dropWhile_all\<close>)
qed

text \<open>What a text of digits decodes to.\<close>

lemma DecodeBase58_digits:
  assumes "ds \<noteq> []" and "list_all (\<lambda>d. d < 58) ds"
  obtains ns where "fst (DecodeBase58 now (digits_text ds) s) = Inr (replicate (length (takeWhile ((=) 0) ds)) 0 @ map of_nat ns)"
    "list_all (\<lambda>d. d < 256) ns" "lead_ok ns" "digits_value 256 ns = digits_value 58 ds"
proof -
  let ?l = "length ds * 733 div 1000 + 1"
  note v = convert_value [OF _ _ assms(2) buffer_decode, simplified]
  show thesis
  proof (rule that)
    show "fst (DecodeBase58 now (digits_text ds) s) =
      Inr (replicate (length (takeWhile ((=) 0) ds)) 0 @ map of_nat (dropWhile ((=) 0) (long_digits 58 256 ds (replicate ?l 0))))"
      using assms digits_text_ok [OF assms(2)] digits_text_read [OF assms(2)] leading_ones [OF assms(2)]
      by (simp add: DecodeBase58_def Let_def digits_text_runes) (simp add: digits_text_def)
  qed (use v in \<open>simp_all add: dropWhile_all\<close>)
qed

text \<open>C31. 
  What is encoded in base 58 is decoded again, for every sequence of bytes: the buffers are long
  enough, and the leading zeros are kept.
\<close>

theorem Base58_roundtrip: "fst (DecodeBase58 now (base58Encode bs) s) = Inr bs"
proof (cases "bs = []")
  case False
  let ?ns = "map unat bs"
  let ?z = "length (takeWhile ((=) 0) ?ns)"
  obtain ds where ds: "base58Encode bs = digits_text (replicate ?z 0 @ ds)" "list_all (\<lambda>d. d < 58) ds" "lead_ok ds"
    "digits_value 58 ds = digits_value 256 ?ns" by (rule base58Encode_digits [OF False])
  have all: "list_all (\<lambda>d. d < 58) (replicate ?z 0 @ ds)" using ds(2) by (auto simp: list_all_iff)
  have ne: "replicate ?z 0 @ ds \<noteq> []"
  proof
    assume "replicate ?z 0 @ ds = []"
    then have "?z = 0" "digits_value 256 ?ns = 0" using ds(4) by simp_all
    moreover have "list_all (\<lambda>d. d < 256) ?ns" by (rule unat_bytes)
    ultimately show False using dval_pos [of 256 ?ns] False by (cases bs) (auto split: if_splits)
  qed
  obtain ms where ms: "fst (DecodeBase58 now (base58Encode bs) s) =
      Inr (replicate (length (takeWhile ((=) 0) (replicate ?z 0 @ ds))) 0 @ map of_nat ms)"
    "list_all (\<lambda>d. d < 256) ms" "lead_ok ms" "digits_value 256 ms = digits_value 58 (replicate ?z 0 @ ds)"
    unfolding ds(1) by (rule DecodeBase58_digits [OF ne all])
  have "list_all (\<lambda>d. d < 256) ?ns" by (rule unat_bytes)
  then have "ms = dropWhile ((=) 0) ?ns" using ms ds(4) by (intro dval_inj [where b = 256]) (simp_all add: dropWhile_all)
  then have "fst (DecodeBase58 now (base58Encode bs) s) = Inr (map of_nat (replicate ?z 0 @ dropWhile ((=) 0) ?ns))"
    using ms(1) takeWhile_lead [OF ds(3), of ?z] by simp
  then show ?thesis unfolding takeWhile_zeros by (simp add: comp_def)
qed (simp add: base58Encode_def DecodeBase58_def)

subsection \<open>Base 64\<close>

lemma index_std64: "i < 64 \<Longrightarrow> index_of std64 (std64 ! i) = Some i"
  by (rule index_of_nth) (simp_all add: std64_def)

lemma std64_plain: "i < 64 \<Longrightarrow> std64 ! i \<noteq> CHR ''='' \<and> std64 ! i \<noteq> CHR 0x0A \<and> std64 ! i \<noteq> CHR 0x0D"
proof -
  have "list_all (\<lambda>c. c \<noteq> CHR ''='' \<and> c \<noteq> CHR 0x0A \<and> c \<noteq> CHR 0x0D) std64" by code_simp
  then show "i < 64 \<Longrightarrow> ?thesis" by (simp add: list_all_length std64_def)
qed
text \<open>Six bits and the rest of a byte, put together again.\<close>

lemma sextets:
  fixes a b c :: nat
  assumes "a < 256" "b < 256" "c < 256"
  shows "a div 4 < 64" "a mod 4 * 16 + b div 16 < 64" "a mod 4 * 16 < 64" "b mod 16 * 4 + c div 64 < 64" "b mod 16 * 4 < 64" "c mod 64 < 64"
    and "a div 4 * 4 + (a mod 4 * 16 + b div 16) div 16 = a" "a div 4 * 4 + (a mod 4 * 16) div 16 = a"
    and "(a mod 4 * 16 + b div 16) mod 16 * 16 + (b mod 16 * 4 + c div 64) div 4 = b"
    and "(a mod 4 * 16 + b div 16) mod 16 * 16 + (b mod 16 * 4) div 4 = b"
    and "(b mod 16 * 4 + c div 64) mod 4 * 64 + c mod 64 = c"
proof -
  have q: "b div 16 < 16" "c div 64 < 4" "a mod 4 < 4" "b mod 16 < 16" using assms by (simp_all add: less_mult_imp_div_less)
  show "a div 4 < 64" "a mod 4 * 16 + b div 16 < 64" "a mod 4 * 16 < 64" "b mod 16 * 4 + c div 64 < 64" "b mod 16 * 4 < 64" "c mod 64 < 64"
    using q assms by (simp_all add: less_mult_imp_div_less)
  show "a div 4 * 4 + (a mod 4 * 16 + b div 16) div 16 = a" "a div 4 * 4 + (a mod 4 * 16) div 16 = a"
    "(a mod 4 * 16 + b div 16) mod 16 * 16 + (b mod 16 * 4 + c div 64) div 4 = b"
    "(a mod 4 * 16 + b div 16) mod 16 * 16 + (b mod 16 * 4) div 4 = b"
    "(b mod 16 * 4 + c div 64) mod 4 * 64 + c mod 64 = c"
    using q by simp_all
qed

lemma byte_sextets:
  fixes a b c :: byte
  shows "unat a div 4 < 64" "unat a mod 4 * 16 + unat b div 16 < 64" "unat a mod 4 * 16 < 64" "unat b mod 16 * 4 + unat c div 64 < 64"
    "unat b mod 16 * 4 < 64" "unat c mod 64 < 64"
  by (rule sextets [of "unat a" "unat b" "unat c"]; simp)+

lemma encode64_plain: "list_all (\<lambda>c. c \<noteq> CHR 0x0A \<and> c \<noteq> CHR 0x0D) (encode64 std64 True bs)"
proof (induction std64 True bs rule: encode64.induct)
  case (2 a) then show ?case using std64_plain [OF byte_sextets(1)] std64_plain [OF byte_sextets(3)] by simp
next
  case (3 a b) then show ?case
    using std64_plain [OF byte_sextets(1)] std64_plain [OF byte_sextets(2)] std64_plain [OF byte_sextets(5)] by simp
next
  case (4 a b c bs) then show ?case
    using std64_plain [OF byte_sextets(1)] std64_plain [OF byte_sextets(2)] std64_plain [OF byte_sextets(4)]
      std64_plain [OF byte_sextets(6)] by simp
qed simp

lemma quads64_four:
  assumes "index_of al p = Some x" "index_of al q = Some y" "index_of al r = Some z" "index_of al s = Some t"
    and "r \<noteq> CHR ''=''" "s \<noteq> CHR ''=''" "quads64 al cs = Some bs"
    and "x * 4 + y div 16 = unat a" "y mod 16 * 16 + z div 4 = unat b" "z mod 4 * 64 + t = unat c"
  shows "quads64 al (p # q # r # s # cs) = Some (a # b # c # bs)"
  using assms(1-7) unfolding assms(8-10) [symmetric]
  by (simp add: assms(8-10) del: of_nat_add of_nat_mult)

lemma quads64_encode: "quads64 std64 (encode64 std64 True bs) = Some bs"
proof (induction std64 True bs rule: encode64.induct)
  case (4 a b c bs)
  have b: "unat a < 256" "unat b < 256" "unat c < 256" by simp_all
  show ?case unfolding encode64.simps append.simps
    by (rule quads64_four) (use 4 index_std64 [OF byte_sextets(1)] index_std64 [OF byte_sextets(2)] index_std64 [OF byte_sextets(4)]
      index_std64 [OF byte_sextets(6)] std64_plain [OF byte_sextets(4)] std64_plain [OF byte_sextets(6)] sextets [OF b]
      in \<open>simp_all only: simp_thms\<close>)
next
  case (2 a)
  have b: "unat a < 256" "unat a < 256" "unat a < 256" by simp_all
  have "of_nat (unat a div 4 * 4 + (unat a mod 4 * 16) div 16) = a" by (simp only: sextets [OF b]) simp
  then show ?case using index_std64 [OF byte_sextets(1)] index_std64 [OF byte_sextets(3)] by simp
next
  case (3 a b)
  have b: "unat a < 256" "unat b < 256" "unat b < 256" by simp_all
  have "of_nat (unat a div 4 * 4 + (unat a mod 4 * 16 + unat b div 16) div 16) = a"
    "of_nat ((unat a mod 4 * 16 + unat b div 16) mod 16 * 16 + (unat b mod 16 * 4) div 4) = b" by (simp_all only: sextets [OF b]) simp_all
  then show ?case using index_std64 [OF byte_sextets(1)] index_std64 [OF byte_sextets(2)] index_std64 [OF byte_sextets(5)]
    std64_plain [OF byte_sextets(5)] by simp
qed simp

text \<open>
  Base 64 as it is used for data, and decoded: every sequence of bytes comes back, whatever its
  length, with the padding.
\<close>

theorem Base64_roundtrip: "decode64 std64 (encode64 std64 True bs) = Some bs"
proof -
  have "filter (\<lambda>c. c \<noteq> CHR 0x0A \<and> c \<noteq> CHR 0x0D) (encode64 std64 True bs) = encode64 std64 True bs"
    using encode64_plain [of bs] by (simp add: filter_id_conv list_all_iff)
  then show ?thesis by (simp add: decode64_def quads64_encode)
qed

text \<open>A rune of two bytes that is no digit is taken for one: its low byte is the one of \<open>'1'\<close>.\<close>

lemma Base58_alias: "fst (DecodeBase58 now [CHR 0xC4, CHR 0xB1] s) = Inr []"
  by code_simp

end
