(* ===== verification/StateChannel.thy ===== *)
theory StateChannel
  imports SimText
begin

section \<open>State channels: \<open>simulations/modules/crosschain/state_channel.go\<close>\<close>

text \<open>
  A channel holds two balances that are updated off the chain and settled when it is closed; a close
  can be challenged with another update.  The clock is read once in an operation; it, SHA-256 and
  the text of a time are arguments.
\<close>

datatype ChannelState = ChannelStateOpen | ChannelStateActive | ChannelStateDisputed | ChannelStateClosing | ChannelStateClosed

fun channel_state_text :: "ChannelState \<Rightarrow> string" where
  "channel_state_text ChannelStateOpen = ''open''"
| "channel_state_text ChannelStateActive = ''active''"
| "channel_state_text ChannelStateDisputed = ''disputed''"
| "channel_state_text ChannelStateClosing = ''closing''"
| "channel_state_text ChannelStateClosed = ''closed''"

record StateChannel =
  cn_ChannelID :: string
  cn_Participant1 :: string
  cn_Participant2 :: string
  cn_Balance1 :: int
  cn_Balance2 :: int
  cn_TotalDeposit :: int
  cn_Nonce :: u64
  cn_State :: ChannelState
  cn_LastUpdate :: gtime
  cn_DisputeDeadline :: gtime
  cn_OpenTxHash :: string
  cn_CloseTxHash :: string
  cn_CreatedAt :: gtime

record ChannelUpdate =
  cu_UpdateID :: string
  cu_ChannelID :: string
  cu_Nonce :: u64
  cu_Balance1 :: int
  cu_Balance2 :: int
  cu_Signature1 :: string
  cu_Signature2 :: string
  cu_Timestamp :: gtime

record PaymentRoute =
  py_RouteID :: string
  py_From :: string
  py_To :: string
  py_Amount :: int
  py_Hops :: "string list"
  py_TotalFee :: int
  py_Success :: bool

record DisputeRecord =
  dr_DisputeID :: string
  dr_ChannelID :: string
  dr_Challenger :: string
  dr_SubmittedNonce :: u64
  dr_ChallengePeriod :: int
  dr_Deadline :: gtime
  dr_Resolved :: bool
  dr_Winner :: string

record StateChannelSimulator =
  sx_channels :: "(string, StateChannel) gomap"
  sx_updates :: "(string, ChannelUpdate list) gomap"
  sx_disputes :: "(string, DisputeRecord) gomap"
  sx_routes :: "(string, PaymentRoute) gomap"
  sx_challengePeriod :: int
  sx_totalVolume :: int
  sx_totalFees :: int
  sx_calls :: "base_call list"

record channel_env =
  cv_sha :: "byte list \<Rightarrow> byte list"
  cv_stamp :: "int \<Rightarrow> string"
  cv_oob :: int

datatype channel_err =
    NoChannel | NotUpdatable ChannelState | WrongSum int int | NotParticipant string | NotClosing ChannelState
  | ChallengeOver | StaleNonce u64 u64 | UnsupportedChannelAction string

definition chcall :: "base_call \<Rightarrow> StateChannelSimulator \<Rightarrow> StateChannelSimulator" where
  "chcall c s = s\<lparr>sx_calls := sx_calls s @ [c]\<rparr>"

definition NewStateChannelSimulator :: StateChannelSimulator where
  "NewStateChannelSimulator = \<lparr>sx_channels = [], sx_updates = [], sx_disputes = [], sx_routes = [], sx_challengePeriod = 0,
     sx_totalVolume = 0, sx_totalFees = 0, sx_calls = []\<rparr>"

definition Channel_updateState :: "StateChannelSimulator \<Rightarrow> StateChannelSimulator" where
  "Channel_updateState s =
     (let shown = [(''channel_count'', GInt (int (length (sx_channels s)))), (''total_volume'', big_text (sx_totalVolume s))]
      in fold chcall (map (\<lambda>(k, v). CallGlobal k v) shown @ [CallTeaching ''state_channel'' (Fin 0) shown]) s)"

definition Channel_Init :: "channel_env \<Rightarrow> (string, gval) gomap \<Rightarrow> StateChannelSimulator \<Rightarrow> StateChannelSimulator" where
  "Channel_Init v params s =
     Channel_updateState (s\<lparr>sx_challengePeriod := hours_param (cv_oob v) ''challenge_period_hours'' (24 * hour) params,
       sx_channels := [], sx_updates := [], sx_disputes := [], sx_routes := [], sx_totalVolume := 0, sx_totalFees := 0\<rparr>)"

text \<open>Of the explanation, the part that depends on the state.\<close>

definition ExplainStateChannel :: "StateChannelSimulator \<Rightarrow> string" where
  "ExplainStateChannel s = duration_text (sx_challengePeriod s)"

subsection \<open>Operations\<close>

definition put_channel :: "string \<Rightarrow> StateChannel \<Rightarrow> StateChannelSimulator \<Rightarrow> StateChannelSimulator" where
  "put_channel k c s = s\<lparr>sx_channels := go_put k c (sx_channels s)\<rparr>"

definition channel_hash :: "channel_env \<Rightarrow> int \<Rightarrow> string \<Rightarrow> string \<Rightarrow> byte list" where
  "channel_hash v now p1 p2 = cv_sha v (str_bytes (p1 @ ''-'' @ p2 @ ''-'' @ int_text 10 now))"

definition channel_id :: "channel_env \<Rightarrow> int \<Rightarrow> string \<Rightarrow> string \<Rightarrow> string" where
  "channel_id v now p1 p2 = ''channel-'' @ hex_encode (take 8 (channel_hash v now p1 p2))"

definition new_channel :: "channel_env \<Rightarrow> int \<Rightarrow> string \<Rightarrow> string \<Rightarrow> int \<Rightarrow> int \<Rightarrow> StateChannel" where
  "new_channel v now p1 p2 d1 d2 =
     \<lparr>cn_ChannelID = channel_id v now p1 p2, cn_Participant1 = p1, cn_Participant2 = p2, cn_Balance1 = d1, cn_Balance2 = d2,
       cn_TotalDeposit = d1 + d2, cn_Nonce = 0, cn_State = ChannelStateOpen, cn_LastUpdate = Some now, cn_DisputeDeadline = None,
       cn_OpenTxHash = ''0x'' @ hex_encode (channel_hash v now p1 p2), cn_CloseTxHash = [], cn_CreatedAt = Some now\<rparr>"

definition OpenChannel ::
  "channel_env \<Rightarrow> int \<Rightarrow> string \<Rightarrow> string \<Rightarrow> int \<Rightarrow> int \<Rightarrow> StateChannelSimulator \<Rightarrow> StateChannel \<times> StateChannelSimulator" where
  "OpenChannel v now p1 p2 d1 d2 s =
     (let c = new_channel v now p1 p2 d1 d2; k = cn_ChannelID c;
          s = (put_channel k c s)\<lparr>sx_updates := go_put k [] (sx_updates s)\<rparr>
      in (c, Channel_updateState (chcall (CallEmit ''channel_opened'' [] [] (Some [(''channel_id'', GStr k), (''participant1'', GStr p1),
           (''participant2'', GStr p2), (''deposit1'', big_text d1), (''deposit2'', big_text d2), (''total'', big_text (d1 + d2))])) s)))"

definition updates_of :: "string \<Rightarrow> StateChannelSimulator \<Rightarrow> ChannelUpdate list" where
  "updates_of k s = (case go_get (sx_updates s) k of None \<Rightarrow> [] | Some us \<Rightarrow> us)"

definition new_update :: "channel_env \<Rightarrow> int \<Rightarrow> string \<Rightarrow> u64 \<Rightarrow> int \<Rightarrow> int \<Rightarrow> ChannelUpdate" where
  "new_update v now k nonce b1 b2 =
     (let h = cv_sha v (str_bytes (k @ ''-'' @ int_text 10 (uint nonce) @ ''-'' @ int_text 10 now))
      in \<lparr>cu_UpdateID = ''update-'' @ hex_encode (take 8 h), cu_ChannelID = k, cu_Nonce = nonce, cu_Balance1 = b1, cu_Balance2 = b2,
           cu_Signature1 = hex_encode (take 16 h), cu_Signature2 = hex_encode (drop 16 h), cu_Timestamp = Some now\<rparr>)"

text \<open>The volume is counted after the new balance has been stored.\<close>

definition UpdateChannel ::
  "channel_env \<Rightarrow> int \<Rightarrow> string \<Rightarrow> int \<Rightarrow> int \<Rightarrow> StateChannelSimulator \<Rightarrow> (channel_err + ChannelUpdate) \<times> StateChannelSimulator" where
  "UpdateChannel v now k b1 b2 s =
     (case go_get (sx_channels s) k of
        None \<Rightarrow> (Inl NoChannel, s)
      | Some c \<Rightarrow>
          if cn_State c \<noteq> ChannelStateOpen \<and> cn_State c \<noteq> ChannelStateActive then (Inl (NotUpdatable (cn_State c)), s)
          else if b1 + b2 \<noteq> cn_TotalDeposit c then (Inl (WrongSum (b1 + b2) (cn_TotalDeposit c)), s)
          else
            let c = c\<lparr>cn_Nonce := cn_Nonce c + 1, cn_Balance1 := b1, cn_Balance2 := b2, cn_State := ChannelStateActive,
                  cn_LastUpdate := Some now\<rparr>;
                u = new_update v now k (cn_Nonce c) b1 b2;
                s = (put_channel k c s)\<lparr>sx_updates := go_put k (updates_of k s @ [u]) (sx_updates s)\<rparr>;
                s = s\<lparr>sx_totalVolume := sx_totalVolume s + \<bar>b1 - cn_Balance1 c\<bar>\<rparr>
            in (Inr u, Channel_updateState (chcall (CallEmit ''channel_updated'' [] [] (Some [(''channel_id'', GStr k),
                 (''nonce'', GInt (uint (cn_Nonce c))), (''balance1'', big_text b1), (''balance2'', big_text b2),
                 (''offchain'', GBool True)])) s)))"

definition InitiateClose ::
  "channel_env \<Rightarrow> int \<Rightarrow> string \<Rightarrow> string \<Rightarrow> StateChannelSimulator \<Rightarrow> channel_err option \<times> StateChannelSimulator" where
  "InitiateClose v now k initiator s =
     (case go_get (sx_channels s) k of
        None \<Rightarrow> (Some NoChannel, s)
      | Some c \<Rightarrow>
          if initiator \<noteq> cn_Participant1 c \<and> initiator \<noteq> cn_Participant2 c then (Some (NotParticipant initiator), s)
          else
            let deadline = now + sx_challengePeriod s;
                c = c\<lparr>cn_State := ChannelStateClosing, cn_DisputeDeadline := Some deadline\<rparr>
            in (None, Channel_updateState (chcall (CallEmit ''channel_closing'' [] [] (Some [(''channel_id'', GStr k),
                 (''initiator'', GStr initiator), (''submitted_nonce'', GInt (uint (cn_Nonce c))), (''balance1'', big_text (cn_Balance1 c)),
                 (''balance2'', big_text (cn_Balance2 c)), (''dispute_deadline'', GStr (cv_stamp v deadline))])) (put_channel k c s))))"

definition new_dispute :: "int \<Rightarrow> string \<Rightarrow> string \<Rightarrow> u64 \<Rightarrow> int \<Rightarrow> DisputeRecord" where
  "new_dispute now k challenger nonce period =
     \<lparr>dr_DisputeID = ''dispute-'' @ k @ ''-'' @ int_text 10 now, dr_ChannelID = k, dr_Challenger = challenger, dr_SubmittedNonce = nonce,
       dr_ChallengePeriod = period, dr_Deadline = Some (now + period), dr_Resolved = False, dr_Winner = []\<rparr>"

definition ChallengeClose ::
  "channel_env \<Rightarrow> int \<Rightarrow> string \<Rightarrow> string \<Rightarrow> ChannelUpdate \<Rightarrow> StateChannelSimulator \<Rightarrow> channel_err option \<times> StateChannelSimulator" where
  "ChallengeClose v now k challenger u s =
     (case go_get (sx_channels s) k of
        None \<Rightarrow> (Some NoChannel, s)
      | Some c \<Rightarrow>
          if cn_State c \<noteq> ChannelStateClosing then (Some (NotClosing (cn_State c)), s)
          else if time_nanos (cn_DisputeDeadline c) < now then (Some ChallengeOver, s)
          else if cu_Nonce u \<le> cn_Nonce c then (Some (StaleNonce (cu_Nonce u) (cn_Nonce c)), s)
          else
            let deadline = now + sx_challengePeriod s;
                c = c\<lparr>cn_Nonce := cu_Nonce u, cn_Balance1 := cu_Balance1 u, cn_Balance2 := cu_Balance2 u,
                  cn_State := ChannelStateDisputed, cn_DisputeDeadline := Some deadline\<rparr>;
                s = (put_channel k c s)\<lparr>sx_disputes := go_put k (new_dispute now k challenger (cu_Nonce u) (sx_challengePeriod s)) (sx_disputes s)\<rparr>
            in (None, Channel_updateState (chcall (CallEmit ''channel_challenged'' [] [] (Some [(''channel_id'', GStr k),
                 (''challenger'', GStr challenger), (''new_nonce'', GInt (uint (cu_Nonce u))), (''new_balance1'', big_text (cu_Balance1 u)),
                 (''new_balance2'', big_text (cu_Balance2 u)), (''new_deadline'', GStr (cv_stamp v deadline))])) s)))"

definition resolve :: "string \<Rightarrow> StateChannelSimulator \<Rightarrow> StateChannelSimulator" where
  "resolve k s =
     (case go_get (sx_disputes s) k of
        None \<Rightarrow> s
      | Some d \<Rightarrow> s\<lparr>sx_disputes := go_put k (d\<lparr>dr_Resolved := True, dr_Winner := ''honest_party''\<rparr>) (sx_disputes s)\<rparr>)"

definition FinalizeClose ::
  "channel_env \<Rightarrow> int \<Rightarrow> string \<Rightarrow> StateChannelSimulator \<Rightarrow> channel_err option \<times> StateChannelSimulator" where
  "FinalizeClose v now k s =
     (case go_get (sx_channels s) k of
        None \<Rightarrow> (Some NoChannel, s)
      | Some c \<Rightarrow>
          if cn_State c \<noteq> ChannelStateClosing \<and> cn_State c \<noteq> ChannelStateDisputed then (Some (NotClosing (cn_State c)), s)
          else
            let h = ''0x'' @ hex_encode (cv_sha v (str_bytes (k @ ''-close-'' @ int_text 10 now)));
                c = c\<lparr>cn_State := ChannelStateClosed, cn_CloseTxHash := h\<rparr>
            in (None, Channel_updateState (chcall (CallEmit ''channel_closed'' [] [] (Some [(''channel_id'', GStr k),
                 (''final_nonce'', GInt (uint (cn_Nonce c))), (''final_balance1'', big_text (cn_Balance1 c)),
                 (''final_balance2'', big_text (cn_Balance2 c)), (''close_tx_hash'', GStr h)])) (resolve k (put_channel k c s)))))"

subsection \<open>The scripted life of a channel\<close>

definition eth :: int where
  "eth = 1000000000000000000"

text \<open>Five updates, each at its own time.\<close>

fun update_times :: "channel_env \<Rightarrow> (nat \<Rightarrow> int) \<Rightarrow> string \<Rightarrow> nat list \<Rightarrow> StateChannelSimulator \<Rightarrow> StateChannelSimulator" where
  "update_times v clock k [] s = s"
| "update_times v clock k (i # is) s =
     update_times v clock k is (snd (UpdateChannel v (clock i) k (10 * eth - int i * eth) (10 * eth + int i * eth) s))"

definition balances_text :: "StateChannel \<Rightarrow> gval" where
  "balances_text c = GStr (''Alice: '' @ int_text 10 (cn_Balance1 c) @ '', Bob: '' @ int_text 10 (cn_Balance2 c))"

text \<open>The channel at hand; the code holds a pointer to it.\<close>

definition channel_at :: "string \<Rightarrow> StateChannelSimulator \<Rightarrow> StateChannel \<Rightarrow> StateChannel" where
  "channel_at k s c = (case go_get (sx_channels s) k of None \<Rightarrow> c | Some c \<Rightarrow> c)"

definition SimulateChannelLifecycle ::
  "channel_env \<Rightarrow> (nat \<Rightarrow> int) \<Rightarrow> StateChannelSimulator \<Rightarrow> gval \<times> StateChannelSimulator" where
  "SimulateChannelLifecycle v clock s =
     (case OpenChannel v (clock 0) ''Alice'' ''Bob'' (10 * eth) (10 * eth) s of (c, s) \<Rightarrow>
        let k = cn_ChannelID c;
            s2 = update_times v clock k [1, 2, 3, 4, 5] s; c2 = channel_at k s2 c;
            s3 = snd (InitiateClose v (clock 6) k ''Alice'' s2); c3 = channel_at k s3 c;
            s4 = snd (FinalizeClose v (clock 7) k s3); c4 = channel_at k s4 c;
            steps =
              [[(''channel_id'', GStr k), (''deposits'', GStr ''Alice: 10 ETH, Bob: 10 ETH''), (''onchain'', GBool True)],
               [(''nonce'', GInt (uint (cn_Nonce c2))), (''balance'', balances_text c2), (''offchain'', GBool True), (''instant'', GBool True)],
               [(''submitted_state'', GStr (''nonce='' @ int_text 10 (uint (cn_Nonce c3)))),
                (''challenge_period'', GStr (duration_text (sx_challengePeriod s3))), (''onchain'', GBool True)],
               [(''deadline'', GStr (cv_stamp v (time_nanos (cn_DisputeDeadline c3))))],
               [(''final_balance'', balances_text c4), (''onchain'', GBool True)]]
        in (GMap [(''channel_id'', GStr k), (''total_transactions'', GInt (uint (cn_Nonce c4))), (''onchain_txs'', GInt 2),
              (''steps'', GList (map (\<lambda>(i, st). GMap ((''step'', GInt (int i)) # st)) (enumerate 1 steps))),
              (''summary'', GMap [(''offchain_txs'', GInt (uint (cn_Nonce c4)))])], s4))"

subsection \<open>What is shown\<close>

definition GetChannelInfo :: "channel_env \<Rightarrow> string \<Rightarrow> StateChannelSimulator \<Rightarrow> gval option" where
  "GetChannelInfo v k s =
     map_option (\<lambda>c. GMap [(''channel_id'', GStr (cn_ChannelID c)), (''participant1'', GStr (cn_Participant1 c)),
         (''participant2'', GStr (cn_Participant2 c)), (''balance1'', big_text (cn_Balance1 c)), (''balance2'', big_text (cn_Balance2 c)),
         (''total_deposit'', big_text (cn_TotalDeposit c)), (''nonce'', GInt (uint (cn_Nonce c))),
         (''state'', GStr (channel_state_text (cn_State c))), (''update_count'', GInt (int (length (updates_of k s)))),
         (''created_at'', GStr (cv_stamp v (time_nanos (cn_CreatedAt c)))), (''last_update'', GStr (cv_stamp v (time_nanos (cn_LastUpdate c))))])
       (go_get (sx_channels s) k)"

definition Channel_GetStatistics :: "StateChannelSimulator \<Rightarrow> gval" where
  "Channel_GetStatistics s =
     (let closed = length (filter (\<lambda>(k, c). cn_State c = ChannelStateClosed) (sx_channels s))
      in GMap [(''total_channels'', GInt (int (length (sx_channels s)))), (''open_channels'', GInt (int (length (sx_channels s) - closed))),
           (''closed_channels'', GInt (int closed)), (''total_updates'', GInt (int (sum_list (map (\<lambda>(k, us). length us) (sx_updates s))))),
           (''total_disputes'', GInt (int (length (sx_disputes s)))), (''total_volume'', big_text (sx_totalVolume s)),
           (''challenge_period'', GStr (duration_text (sx_challengePeriod s)))])"

definition Channel_ExecuteAction ::
  "channel_env \<Rightarrow> int \<Rightarrow> string \<Rightarrow> StateChannelSimulator \<Rightarrow> (channel_err + gval) \<times> StateChannelSimulator" where
  "Channel_ExecuteAction v now action s =
     (if action = ''open_channel'' then
        (case OpenChannel v now ''alice'' ''bob'' 10 10 s of (c, s) \<Rightarrow> (Inr (GMap [(''channel_id'', GStr (cn_ChannelID c))]), s))
      else (Inl (UnsupportedChannelAction action), s))"

end
