(* ===== verification/StateChannelFacts.thy ===== *)
theory StateChannelFacts
  imports StateChannel
begin

section \<open>State channels: properties\<close>

text \<open>
  While only recorded updates are submitted the balances of every channel add up to its deposit and no
  challenge is ever accepted; an update that was never recorded can set any balances.
\<close>

subsection \<open>What the operations change\<close>

lemma fold_chcall [simp]:
  "sx_channels (fold chcall cs s) = sx_channels s" "sx_updates (fold chcall cs s) = sx_updates s"
  "sx_disputes (fold chcall cs s) = sx_disputes s" "sx_totalVolume (fold chcall cs s) = sx_totalVolume s"
  "sx_challengePeriod (fold chcall cs s) = sx_challengePeriod s"
  by (induction cs arbitrary: s) (simp_all add: chcall_def)

lemma chcall_keeps [simp]:
  "sx_channels (chcall c s) = sx_channels s" "sx_updates (chcall c s) = sx_updates s"
  "sx_disputes (chcall c s) = sx_disputes s" "sx_totalVolume (chcall c s) = sx_totalVolume s"
  "sx_challengePeriod (chcall c s) = sx_challengePeriod s"
  by (simp_all add: chcall_def)

lemma Channel_updateState_keeps [simp]:
  "sx_channels (Channel_updateState s) = sx_channels s" "sx_updates (Channel_updateState s) = sx_updates s"
  "sx_disputes (Channel_updateState s) = sx_disputes s" "sx_totalVolume (Channel_updateState s) = sx_totalVolume s"
  "sx_challengePeriod (Channel_updateState s) = sx_challengePeriod s"
  by (simp_all add: Channel_updateState_def Let_def del: fold_simps fold_append)

lemma put_channel_keeps [simp]:
  "sx_channels (put_channel k c s) = go_put k c (sx_channels s)" "sx_updates (put_channel k c s) = sx_updates s"
  "sx_disputes (put_channel k c s) = sx_disputes s" "sx_totalVolume (put_channel k c s) = sx_totalVolume s"
  "sx_challengePeriod (put_channel k c s) = sx_challengePeriod s"
  by (simp_all add: put_channel_def)

lemma resolve_keeps [simp]:
  "sx_channels (resolve k s) = sx_channels s" "sx_updates (resolve k s) = sx_updates s"
  "sx_totalVolume (resolve k s) = sx_totalVolume s" "sx_challengePeriod (resolve k s) = sx_challengePeriod s"
  by (simp_all add: resolve_def split: option.splits)

lemma updates_of_keeps [simp]: "updates_of k (chcall c s) = updates_of k s" "updates_of k (Channel_updateState s) = updates_of k s"
  "updates_of k (put_channel k' c' s) = updates_of k s" "updates_of k (resolve k' s) = updates_of k s"
  by (simp_all add: updates_of_def)

lemma updates_of_put [simp]: "updates_of k (s\<lparr>sx_updates := go_put k' us m\<rparr>) = (if k = k' then us else updates_of k (s\<lparr>sx_updates := m\<rparr>))"
  by (simp add: updates_of_def)

lemma updates_of_upd [simp]: "updates_of k (sx_totalVolume_update f s) = updates_of k s" "updates_of k (sx_disputes_update g s) = updates_of k s"
  by (simp_all add: updates_of_def)

subsection \<open>The invariant\<close>

text \<open>
  The recorded updates of a channel are numbered from 1 and divide the same deposit; the channel has
  the number of the last one, as long as there are fewer than \<open>2 ^ 64\<close>.
\<close>

definition channel_ok :: "StateChannel \<Rightarrow> ChannelUpdate list \<Rightarrow> bool" where
  "channel_ok c us \<longleftrightarrow> cn_Balance1 c + cn_Balance2 c = cn_TotalDeposit c \<and>
     list_all (\<lambda>u. cu_Balance1 u + cu_Balance2 u = cn_TotalDeposit c) us \<and>
     (length us < 2 ^ 64 \<longrightarrow> cn_Nonce c = of_nat (length us) \<and> (\<forall>i < length us. cu_Nonce (us ! i) = of_nat (Suc i)))"

definition channels_ok :: "StateChannelSimulator \<Rightarrow> bool" where
  "channels_ok s \<longleftrightarrow> sx_totalVolume s = 0 \<and> (\<forall>k c. go_get (sx_channels s) k = Some c \<longrightarrow> channel_ok c (updates_of k s))"

lemma channel_ok_cong:
  "cn_Balance1 c' = cn_Balance1 c \<Longrightarrow> cn_Balance2 c' = cn_Balance2 c \<Longrightarrow> cn_TotalDeposit c' = cn_TotalDeposit c \<Longrightarrow>
   cn_Nonce c' = cn_Nonce c \<Longrightarrow> channel_ok c' us = channel_ok c us"
  by (simp add: channel_ok_def)

text \<open>A recorded update is never newer than its channel.\<close>

lemma channel_ok_nonce:
  assumes "channel_ok c us" and "length us < 2 ^ 64" and "u \<in> set us"
  shows "cu_Nonce u \<le> cn_Nonce c"
proof -
  obtain i where i: "i < length us" "u = us ! i" using assms(3) by (auto simp: in_set_conv_nth)
  then have "cu_Nonce u = of_nat (Suc i)" "cn_Nonce c = of_nat (length us)" using assms by (simp_all add: channel_ok_def)
  moreover have "unat (of_nat (Suc i) :: u64) \<le> unat (of_nat (length us) :: u64)"
    using i assms(2) by (simp add: unat_of_nat del: of_nat_Suc)
  ultimately show ?thesis by (simp add: word_le_nat_alt)
qed

lemma channels_okI:
  assumes "channels_ok s" and "sx_channels s' = go_put k c (sx_channels s)" and "sx_totalVolume s' = sx_totalVolume s"
    and "\<And>j. j \<noteq> k \<Longrightarrow> updates_of j s' = updates_of j s" and "channel_ok c (updates_of k s')"
  shows "channels_ok s'"
  using assms by (auto simp: channels_ok_def)

lemma new_channel_fields [simp]:
  "cn_ChannelID (new_channel v now p1 p2 d1 d2) = channel_id v now p1 p2"
  "cn_Participant1 (new_channel v now p1 p2 d1 d2) = p1" "cn_Participant2 (new_channel v now p1 p2 d1 d2) = p2"
  "cn_Balance1 (new_channel v now p1 p2 d1 d2) = d1" "cn_Balance2 (new_channel v now p1 p2 d1 d2) = d2"
  "cn_TotalDeposit (new_channel v now p1 p2 d1 d2) = d1 + d2" "cn_Nonce (new_channel v now p1 p2 d1 d2) = 0"
  "cn_State (new_channel v now p1 p2 d1 d2) = ChannelStateOpen"
  by (simp_all add: new_channel_def)

lemma OpenChannel_effect:
  "sx_channels (snd (OpenChannel v now p1 p2 d1 d2 s)) = go_put (channel_id v now p1 p2) (new_channel v now p1 p2 d1 d2) (sx_channels s)"
  "sx_totalVolume (snd (OpenChannel v now p1 p2 d1 d2 s)) = sx_totalVolume s"
  "updates_of j (snd (OpenChannel v now p1 p2 d1 d2 s)) = (if j = channel_id v now p1 p2 then [] else updates_of j s)"
  by (simp_all add: OpenChannel_def Let_def updates_of_def)

lemma OpenChannel_ok: "channels_ok s \<Longrightarrow> channels_ok (snd (OpenChannel v now p1 p2 d1 d2 s))"
  by (rule channels_okI [OF _ OpenChannel_effect(1,2)]) (simp_all add: OpenChannel_effect(3) channel_ok_def)

lemma UpdateChannel_accepts:
  fixes now :: int and v :: channel_env
  assumes "go_get (sx_channels s) k = Some c" and "cn_State c = ChannelStateOpen \<or> cn_State c = ChannelStateActive"
    and "b1 + b2 = cn_TotalDeposit c"
  defines "c' \<equiv> c\<lparr>cn_Nonce := cn_Nonce c + 1, cn_Balance1 := b1, cn_Balance2 := b2, cn_State := ChannelStateActive, cn_LastUpdate := Some now\<rparr>"
    and "s' \<equiv> snd (UpdateChannel v now k b1 b2 s)"
  shows "sx_channels s' = go_put k c' (sx_channels s)" "sx_totalVolume s' = sx_totalVolume s"
    "updates_of j s' = (if j = k then updates_of k s @ [new_update v now k (cn_Nonce c + 1) b1 b2] else updates_of j s)"
    "sx_challengePeriod s' = sx_challengePeriod s"
  using assms(1-3) by (auto simp: UpdateChannel_def Let_def updates_of_def c'_def s'_def)

lemma UpdateChannel_refuses:
  "\<not> (\<exists>c. go_get (sx_channels s) k = Some c \<and> (cn_State c = ChannelStateOpen \<or> cn_State c = ChannelStateActive) \<and> b1 + b2 = cn_TotalDeposit c) \<Longrightarrow>
   snd (UpdateChannel v now k b1 b2 s) = s"
  by (auto simp: UpdateChannel_def Let_def split: option.splits)

lemma UpdateChannel_ok:
  assumes "channels_ok s"
  shows "channels_ok (snd (UpdateChannel v now k b1 b2 s))"
proof (cases "\<exists>c. go_get (sx_channels s) k = Some c \<and> (cn_State c = ChannelStateOpen \<or> cn_State c = ChannelStateActive) \<and> b1 + b2 = cn_TotalDeposit c")
  case True
  then obtain c where c: "go_get (sx_channels s) k = Some c" "cn_State c = ChannelStateOpen \<or> cn_State c = ChannelStateActive"
    "b1 + b2 = cn_TotalDeposit c" by blast
  let ?c = "c\<lparr>cn_Nonce := cn_Nonce c + 1, cn_Balance1 := b1, cn_Balance2 := b2, cn_State := ChannelStateActive, cn_LastUpdate := Some now\<rparr>"
  have "channel_ok c (updates_of k s)" using assms c(1) by (simp add: channels_ok_def)
  then have "channel_ok ?c (updates_of k s @ [new_update v now k (cn_Nonce c + 1) b1 b2])"
    using c(3) by (auto simp: channel_ok_def new_update_def Let_def nth_append less_Suc_eq)
  then show ?thesis using UpdateChannel_accepts(3) [OF c]
    by (intro channels_okI [OF assms UpdateChannel_accepts(1,2) [OF c]]) simp_all
qed (use assms UpdateChannel_refuses in auto)

definition closing :: "int \<Rightarrow> StateChannel \<Rightarrow> StateChannel" where
  "closing deadline c = c\<lparr>cn_State := ChannelStateClosing, cn_DisputeDeadline := Some deadline\<rparr>"

lemma InitiateClose_accepts:
  fixes now :: int and v :: channel_env
  assumes "go_get (sx_channels s) k = Some c" and "p = cn_Participant1 c \<or> p = cn_Participant2 c"
  defines "s' \<equiv> snd (InitiateClose v now k p s)"
  shows "fst (InitiateClose v now k p s) = None" "sx_channels s' = go_put k (closing (now + sx_challengePeriod s) c) (sx_channels s)"
    "sx_totalVolume s' = sx_totalVolume s" "updates_of j s' = updates_of j s" "sx_challengePeriod s' = sx_challengePeriod s"
  using assms(1,2) by (auto simp: InitiateClose_def Let_def closing_def s'_def)

lemma InitiateClose_refuses:
  "\<not> (\<exists>c. go_get (sx_channels s) k = Some c \<and> (p = cn_Participant1 c \<or> p = cn_Participant2 c)) \<Longrightarrow> snd (InitiateClose v now k p s) = s"
  by (auto simp: InitiateClose_def split: option.splits)

lemma InitiateClose_ok:
  assumes "channels_ok s"
  shows "channels_ok (snd (InitiateClose v now k p s))"
proof (cases "\<exists>c. go_get (sx_channels s) k = Some c \<and> (p = cn_Participant1 c \<or> p = cn_Participant2 c)")
  case True
  then obtain c where c: "go_get (sx_channels s) k = Some c" "p = cn_Participant1 c \<or> p = cn_Participant2 c" by blast
  then have "channel_ok (closing d c) (updates_of k s)" for d using assms by (simp add: channels_ok_def channel_ok_def closing_def)
  then show ?thesis using InitiateClose_accepts(4) [OF c]
    by (intro channels_okI [OF assms InitiateClose_accepts(2,3) [OF c]]) simp_all
qed (use assms InitiateClose_refuses in auto)

definition closed_with :: "string \<Rightarrow> StateChannel \<Rightarrow> StateChannel" where
  "closed_with h c = c\<lparr>cn_State := ChannelStateClosed, cn_CloseTxHash := h\<rparr>"

lemma FinalizeClose_accepts:
  fixes now :: int and v :: channel_env
  assumes "go_get (sx_channels s) k = Some c" and "cn_State c = ChannelStateClosing \<or> cn_State c = ChannelStateDisputed"
  defines "s' \<equiv> snd (FinalizeClose v now k s)"
  shows "fst (FinalizeClose v now k s) = None"
    "sx_channels s' = go_put k (closed_with (''0x'' @ hex_encode (cv_sha v (str_bytes (k @ ''-close-'' @ int_text 10 now)))) c) (sx_channels s)"
    "sx_totalVolume s' = sx_totalVolume s" "updates_of j s' = updates_of j s"
    "sx_disputes s' = sx_disputes (resolve k s)"
  using assms(1,2) by (auto simp: FinalizeClose_def Let_def closed_with_def s'_def resolve_def split: option.splits)

lemma FinalizeClose_refuses:
  "\<not> (\<exists>c. go_get (sx_channels s) k = Some c \<and> (cn_State c = ChannelStateClosing \<or> cn_State c = ChannelStateDisputed)) \<Longrightarrow>
   snd (FinalizeClose v now k s) = s"
  by (auto simp: FinalizeClose_def split: option.splits)

lemma FinalizeClose_ok:
  assumes "channels_ok s"
  shows "channels_ok (snd (FinalizeClose v now k s))"
proof (cases "\<exists>c. go_get (sx_channels s) k = Some c \<and> (cn_State c = ChannelStateClosing \<or> cn_State c = ChannelStateDisputed)")
  case True
  then obtain c where c: "go_get (sx_channels s) k = Some c" "cn_State c = ChannelStateClosing \<or> cn_State c = ChannelStateDisputed" by blast
  then have "channel_ok (closed_with h c) (updates_of k s)" for h using assms by (simp add: channels_ok_def channel_ok_def closed_with_def)
  then show ?thesis using FinalizeClose_accepts(4) [OF c]
    by (intro channels_okI [OF assms FinalizeClose_accepts(2,3) [OF c]]) simp_all
qed (use assms FinalizeClose_refuses in auto)

definition disputed :: "int \<Rightarrow> ChannelUpdate \<Rightarrow> StateChannel \<Rightarrow> StateChannel" where
  "disputed deadline u c = c\<lparr>cn_Nonce := cu_Nonce u, cn_Balance1 := cu_Balance1 u, cn_Balance2 := cu_Balance2 u,
     cn_State := ChannelStateDisputed, cn_DisputeDeadline := Some deadline\<rparr>"

lemma ChallengeClose_accepts:
  fixes now :: int and v :: channel_env and ch :: string
  assumes "go_get (sx_channels s) k = Some c" and "cn_State c = ChannelStateClosing" and "now \<le> time_nanos (cn_DisputeDeadline c)"
    and "cn_Nonce c < cu_Nonce u"
  defines "s' \<equiv> snd (ChallengeClose v now k ch u s)"
  shows "fst (ChallengeClose v now k ch u s) = None" "sx_channels s' = go_put k (disputed (now + sx_challengePeriod s) u c) (sx_channels s)"
    "sx_totalVolume s' = sx_totalVolume s" "updates_of j s' = updates_of j s"
    "sx_disputes s' = go_put k (new_dispute now k ch (cu_Nonce u) (sx_challengePeriod s)) (sx_disputes s)"
  using assms(1-4) by (auto simp: ChallengeClose_def Let_def disputed_def s'_def not_le)

lemma ChallengeClose_refuses:
  "\<not> (\<exists>c. go_get (sx_channels s) k = Some c \<and> cn_State c = ChannelStateClosing \<and> now \<le> time_nanos (cn_DisputeDeadline c) \<and>
    cn_Nonce c < cu_Nonce u) \<Longrightarrow> fst (ChallengeClose v now k ch u s) \<noteq> None \<and> snd (ChallengeClose v now k ch u s) = s"
  by (auto simp: ChallengeClose_def split: option.splits)

text \<open>A recorded update is refused, so a challenge with one changes nothing.\<close>

lemma ChallengeClose_stale:
  assumes "channels_ok s" and "u \<in> set (updates_of k s)" and "length (updates_of k s) < 2 ^ 64"
  shows "fst (ChallengeClose v now k ch u s) \<noteq> None \<and> snd (ChallengeClose v now k ch u s) = s"
proof (rule ChallengeClose_refuses, rule notI)
  assume "\<exists>c. go_get (sx_channels s) k = Some c \<and> cn_State c = ChannelStateClosing \<and> now \<le> time_nanos (cn_DisputeDeadline c) \<and>
    cn_Nonce c < cu_Nonce u"
  then obtain c where "go_get (sx_channels s) k = Some c" "cn_Nonce c < cu_Nonce u" by blast
  then show False using channel_ok_nonce [OF _ assms(3,2)] assms(1) by (fastforce simp: channels_ok_def)
qed

lemma ChallengeClose_ok:
  assumes "channels_ok s" and "u \<in> set (updates_of k s)"
  shows "channels_ok (snd (ChallengeClose v now k ch u s))"
proof (cases "length (updates_of k s) < 2 ^ 64 \<or> \<not> (\<exists>c. go_get (sx_channels s) k = Some c \<and> cn_State c = ChannelStateClosing \<and>
    now \<le> time_nanos (cn_DisputeDeadline c) \<and> cn_Nonce c < cu_Nonce u)")
  case True
  then have "snd (ChallengeClose v now k ch u s) = s" using ChallengeClose_stale [OF assms] ChallengeClose_refuses by blast
  then show ?thesis using assms(1) by simp
next
  case False
  then obtain c where c: "go_get (sx_channels s) k = Some c" "cn_State c = ChannelStateClosing" "now \<le> time_nanos (cn_DisputeDeadline c)"
    "cn_Nonce c < cu_Nonce u" and l: "\<not> length (updates_of k s) < 2 ^ 64" by blast
  then have "channel_ok (disputed d u c) (updates_of k s)" for d
    using assms l by (auto simp: channels_ok_def channel_ok_def disputed_def list_all_iff)
  then show ?thesis using ChallengeClose_accepts(4) [OF c]
    by (intro channels_okI [OF assms(1) ChallengeClose_accepts(2,3) [OF c]]) simp_all
qed

text \<open>The runs in which only recorded updates are submitted.\<close>

inductive channel_run :: "channel_env \<Rightarrow> StateChannelSimulator \<Rightarrow> bool" for v where
  init: "channel_run v (Channel_Init v params s)"
| opened: "channel_run v s \<Longrightarrow> channel_run v (snd (OpenChannel v now p1 p2 d1 d2 s))"
| updated: "channel_run v s \<Longrightarrow> channel_run v (snd (UpdateChannel v now k b1 b2 s))"
| closing: "channel_run v s \<Longrightarrow> channel_run v (snd (InitiateClose v now k i s))"
| challenged: "channel_run v s \<Longrightarrow> u \<in> set (updates_of k s) \<Longrightarrow> channel_run v (snd (ChallengeClose v now k ch u s))"
| finalized: "channel_run v s \<Longrightarrow> channel_run v (snd (FinalizeClose v now k s))"
| lifecycle: "channel_run v s \<Longrightarrow> channel_run v (snd (SimulateChannelLifecycle v clock s))"
| action: "channel_run v s \<Longrightarrow> channel_run v (snd (Channel_ExecuteAction v now a s))"

lemma update_times_ok: "channels_ok s \<Longrightarrow> channels_ok (update_times v clock k is s)"
  by (induction "is" arbitrary: s) (simp_all add: UpdateChannel_ok)

lemma channel_run_ok: "channel_run v s \<Longrightarrow> channels_ok s"
proof (induction rule: channel_run.induct)
  case (lifecycle s clock)
  then show ?case
    by (simp add: SimulateChannelLifecycle_def Let_def case_prod_unfold OpenChannel_ok UpdateChannel_ok InitiateClose_ok FinalizeClose_ok)
qed (simp_all add: OpenChannel_ok UpdateChannel_ok InitiateClose_ok ChallengeClose_ok FinalizeClose_ok Channel_ExecuteAction_def
      case_prod_unfold Channel_Init_def channels_ok_def [of "Channel_updateState _"])

text \<open>C15. 
  In every run in which only recorded updates are submitted, the two balances of every channel, open
  or closed, add up to its deposit; and the volume that is shown stays zero, whatever is paid.
\<close>

theorem Channel_conserved:
  assumes "channel_run v s" and "go_get (sx_channels s) k = Some c"
  shows "cn_Balance1 c + cn_Balance2 c = cn_TotalDeposit c \<and> sx_totalVolume s = 0"
  using channel_run_ok [OF assms(1)] assms(2) by (simp add: channels_ok_def channel_ok_def)

text \<open>
  A close always submits the last state: in such a run every recorded update of a channel is refused
  as a challenge, at any time, and nothing changes, as long as fewer than \<open>2 ^ 64\<close> were recorded.
\<close>

theorem Channel_close_latest:
  assumes "channel_run v s" and "u \<in> set (updates_of k s)" and "length (updates_of k s) < 2 ^ 64"
  shows "fst (ChallengeClose v' now k ch u s) \<noteq> None \<and> snd (ChallengeClose v' now k ch u s) = s"
  by (rule ChallengeClose_stale [OF channel_run_ok [OF assms(1)] assms(2,3)])

subsection \<open>What is not checked\<close>

text \<open>C36. 
  An update that nobody has signed or recorded is accepted as a challenge when its number is higher: it
  need not keep the deposit.  The channel is then closed with its balances, without waiting for the
  period of the challenge, and the dispute is settled in favour of the honest party.
\<close>

theorem Channel_forged_update:
  assumes "go_get (sx_channels s) k = Some c" and "p = cn_Participant1 c \<or> p = cn_Participant2 c"
    and "cn_Nonce c < cu_Nonce u" and "0 \<le> sx_challengePeriod s"
  shows "\<exists>s1 s2 s3 c' d. InitiateClose v now k p s = (None, s1) \<and> ChallengeClose v now k ch u s1 = (None, s2) \<and>
    FinalizeClose v now k s2 = (None, s3) \<and> go_get (sx_channels s3) k = Some c' \<and> cn_State c' = ChannelStateClosed \<and>
    cn_Balance1 c' = cu_Balance1 u \<and> cn_Balance2 c' = cu_Balance2 u \<and> cn_TotalDeposit c' = cn_TotalDeposit c \<and>
    go_get (sx_disputes s3) k = Some d \<and> dr_Challenger d = ch \<and> dr_Winner d = ''honest_party''"
proof -
  let ?s1 = "snd (InitiateClose v now k p s)"
  let ?s2 = "snd (ChallengeClose v now k ch u ?s1)"
  let ?s3 = "snd (FinalizeClose v now k ?s2)"
  let ?c1 = "closing (now + sx_challengePeriod s) c" and ?c2 = "disputed (now + sx_challengePeriod ?s1) u (closing (now + sx_challengePeriod s) c)"
  note i = InitiateClose_accepts [OF assms(1,2), where v = v and now = now]
  have c1: "go_get (sx_channels ?s1) k = Some ?c1" by (simp add: i(2))
  have "cn_State ?c1 = ChannelStateClosing" "now \<le> time_nanos (cn_DisputeDeadline ?c1)" "cn_Nonce ?c1 < cu_Nonce u"
    using assms(3,4) by (simp_all add: closing_def time_nanos_def)
  note h = ChallengeClose_accepts [OF c1 this, where v = v and ch = ch]
  have c2: "go_get (sx_channels ?s2) k = Some ?c2" by (simp add: h(2))
  have "cn_State ?c2 = ChannelStateClosing \<or> cn_State ?c2 = ChannelStateDisputed" by (simp add: disputed_def)
  note f = FinalizeClose_accepts [OF c2 this, where v = v and now = now]
  show ?thesis
    by (rule exI [of _ ?s1], rule exI [of _ ?s2], rule exI [of _ ?s3])
      (simp add: prod_eq_iff i(1) h(1) f(1,2,5) h(5) resolve_def new_dispute_def closed_with_def disputed_def closing_def)
qed

subsection \<open>The scripted life\<close>

lemma update_times_effect:
  assumes "go_get (sx_channels s) k = Some c" and "cn_State c = ChannelStateOpen \<or> cn_State c = ChannelStateActive"
    and "cn_TotalDeposit c = 20 * eth" and "is \<noteq> []"
  shows "\<exists>c'. go_get (sx_channels (update_times v clock k is s)) k = Some c' \<and> cn_State c' = ChannelStateActive \<and>
    cn_Participant1 c' = cn_Participant1 c \<and> cn_Nonce c' = cn_Nonce c + of_nat (length is) \<and>
    cn_Balance1 c' = 10 * eth - int (last is) * eth \<and> cn_Balance2 c' = 10 * eth + int (last is) * eth \<and>
    length (updates_of k (update_times v clock k is s)) = length (updates_of k s) + length is"
  using assms
proof (induction "is" arbitrary: s c)
  case (Cons i "is")
  let ?s = "snd (UpdateChannel v (clock i) k (10 * eth - int i * eth) (10 * eth + int i * eth) s)"
  let ?c = "c\<lparr>cn_Nonce := cn_Nonce c + 1, cn_Balance1 := 10 * eth - int i * eth, cn_Balance2 := 10 * eth + int i * eth,
    cn_State := ChannelStateActive, cn_LastUpdate := Some (clock i)\<rparr>"
  have "10 * eth - int i * eth + (10 * eth + int i * eth) = cn_TotalDeposit c" using Cons.prems(3) by simp
  note u = UpdateChannel_accepts [OF Cons.prems(1,2) this, where v = v and now = "clock i"]
  have c: "go_get (sx_channels ?s) k = Some ?c" by (simp add: u(1))
  show ?case
  proof (cases "is = []")
    case True then show ?thesis using c by (simp add: u(3))
  next
    case False
    then show ?thesis using Cons.IH [OF c] Cons.prems(3) by (fastforce simp: u(3))
  qed
qed simp

text \<open>
  The scripted life opens a channel between Alice and Bob, pays five times and closes it: it ends with
  the number 5, five recorded updates and the balances 5 and 15, in any state it starts from.
\<close>

theorem Channel_lifecycle:
  "\<exists>c. go_get (sx_channels (snd (SimulateChannelLifecycle v clock s))) (channel_id v (clock 0) ''Alice'' ''Bob'') = Some c \<and>
     cn_State c = ChannelStateClosed \<and> cn_Nonce c = 5 \<and> cn_Balance1 c = 5 * eth \<and> cn_Balance2 c = 15 * eth \<and>
     length (updates_of (channel_id v (clock 0) ''Alice'' ''Bob'') (snd (SimulateChannelLifecycle v clock s))) = 5"
proof -
  let ?k = "channel_id v (clock 0) ''Alice'' ''Bob''"
  let ?s1 = "snd (OpenChannel v (clock 0) ''Alice'' ''Bob'' (10 * eth) (10 * eth) s)"
  obtain s2 where s2: "update_times v clock ?k [1, 2, 3, 4, 5] ?s1 = s2" by blast
  let ?s3 = "snd (InitiateClose v (clock 6) ?k ''Alice'' s2)"
  have k: "cn_ChannelID (fst (OpenChannel v (clock 0) ''Alice'' ''Bob'' (10 * eth) (10 * eth) s)) = ?k"
    by (simp add: OpenChannel_def Let_def)
  then have out: "snd (SimulateChannelLifecycle v clock s) = snd (FinalizeClose v (clock 7) ?k ?s3)"
    by (simp only: SimulateChannelLifecycle_def Let_def case_prod_unfold snd_conv s2)
  have "go_get (sx_channels ?s1) ?k = Some (new_channel v (clock 0) ''Alice'' ''Bob'' (10 * eth) (10 * eth))"
    by (simp add: OpenChannel_effect)
  from update_times_effect [OF this, of "[1, 2, 3, 4, 5]" v clock] obtain c where
    c: "go_get (sx_channels s2) ?k = Some c" "cn_Participant1 c = ''Alice''" "cn_Nonce c = 5" "cn_Balance1 c = 5 * eth" "cn_Balance2 c = 15 * eth"
      "length (updates_of ?k s2) = 5"
    unfolding s2 by (auto simp: OpenChannel_effect)
  have "''Alice'' = cn_Participant1 c \<or> ''Alice'' = cn_Participant2 c" using c(2) by simp
  note i = InitiateClose_accepts [OF c(1) this, where v = v and now = "clock 6"]
  have c3: "go_get (sx_channels ?s3) ?k = Some (closing (clock 6 + sx_challengePeriod s2) c)" by (simp add: i(2))
  have "cn_State (closing d c) = ChannelStateClosing \<or> cn_State (closing d c) = ChannelStateDisputed" for d by (simp add: closing_def)
  note f = FinalizeClose_accepts [OF c3 this, where v = v and now = "clock 7"]
  show ?thesis unfolding out f(2) using c by (simp add: f(4) i(4) closed_with_def closing_def)
qed

subsection \<open>Examples\<close>

definition sample_channel_env :: channel_env where
  "sample_channel_env = \<lparr>cv_sha = (\<lambda>bs. take 32 (bs @ replicate 32 0)), cv_stamp = (\<lambda>_. []), cv_oob = 0\<rparr>"

abbreviation (input) "sample_opened \<equiv> snd (OpenChannel sample_channel_env 5 ''a'' ''b'' 10 10 (Channel_Init sample_channel_env [] NewStateChannelSimulator))"
abbreviation (input) "sample_id \<equiv> channel_id sample_channel_env 5 ''a'' ''b''"
abbreviation (input) "sample_channel \<equiv> new_channel sample_channel_env 5 ''a'' ''b'' 10 10"
abbreviation (input) "sample_updated \<equiv> snd (UpdateChannel sample_channel_env 6 sample_id 3 17 sample_opened)"

lemma sample_get: "go_get (sx_channels sample_opened) sample_id = Some sample_channel"
  by (simp add: OpenChannel_effect)

lemma sample_update: "updates_of sample_id sample_updated = [new_update sample_channel_env 6 sample_id 1 3 17]"
    "go_get (sx_channels sample_updated) sample_id = Some (sample_channel\<lparr>cn_Nonce := 1, cn_Balance1 := 3, cn_Balance2 := 17,
      cn_State := ChannelStateActive, cn_LastUpdate := Some 6\<rparr>)"
  using UpdateChannel_accepts [OF sample_get, where ?b1.0 = 3 and ?b2.0 = 17 and now = 6 and v = sample_channel_env] by (simp_all add: OpenChannel_effect)

lemma sample_run: "channel_run sample_channel_env sample_updated"
  by (intro channel_run.intros)

theorem Channel_conserved_witness:
  "\<exists>c. go_get (sx_channels sample_updated) sample_id = Some c \<and> cn_Balance1 c + cn_Balance2 c = cn_TotalDeposit c \<and>
    sx_totalVolume sample_updated = 0"
  using Channel_conserved [OF sample_run sample_update(2)] sample_update(2) by blast

theorem Channel_close_latest_witness:
  "fst (ChallengeClose sample_channel_env 7 sample_id ''b'' (new_update sample_channel_env 6 sample_id 1 3 17) sample_updated) \<noteq> None"
  by (rule conjunct1 [OF Channel_close_latest [OF sample_run]]) (simp_all add: sample_update)

text \<open>Twice the deposit is paid out to the challenger.\<close>

theorem Channel_forged_update_witness:
  "let u = new_update sample_channel_env 6 sample_id 9 0 40;
       s1 = snd (InitiateClose sample_channel_env 7 sample_id ''a'' sample_opened);
       s2 = snd (ChallengeClose sample_channel_env 7 sample_id ''b'' u s1);
       s3 = snd (FinalizeClose sample_channel_env 7 sample_id s2)
   in \<exists>c'. go_get (sx_channels s3) sample_id = Some c' \<and> cn_State c' = ChannelStateClosed \<and>
        cn_Balance1 c' + cn_Balance2 c' = 40 \<and> cn_TotalDeposit c' = 20"
proof -
  let ?u = "new_update sample_channel_env 6 sample_id 9 0 40"
  have n: "cn_Nonce sample_channel < cu_Nonce ?u" "cu_Balance1 ?u + cu_Balance2 ?u = 40" by (simp_all add: new_update_def Let_def)
  have p: "0 \<le> sx_challengePeriod sample_opened"
    by (simp add: OpenChannel_def Let_def Channel_Init_def hours_param_def hour_def)
  have a: "''a'' = cn_Participant1 sample_channel \<or> ''a'' = cn_Participant2 sample_channel" by simp
  obtain s1 s2 s3 c' where
    s: "InitiateClose sample_channel_env 7 sample_id ''a'' sample_opened = (None, s1)"
      "ChallengeClose sample_channel_env 7 sample_id ''b'' ?u s1 = (None, s2)"
      "FinalizeClose sample_channel_env 7 sample_id s2 = (None, s3)" and
    c: "go_get (sx_channels s3) sample_id = Some c'" "cn_State c' = ChannelStateClosed" "cn_Balance1 c' = cu_Balance1 ?u"
      "cn_Balance2 c' = cu_Balance2 ?u" "cn_TotalDeposit c' = cn_TotalDeposit sample_channel"
    using Channel_forged_update [OF sample_get a n(1) p, where v = sample_channel_env and now = 7 and ch = "''b''"] by blast
  show ?thesis unfolding Let_def s snd_conv using c n(2) by (intro exI [of _ c']) simp
qed

end
