(* ===== verification/Mining.thy ===== *)
theory Mining
  imports SimText
begin

section \<open>Mining, difficulty and gas: \<open>mining.go\<close>, \<open>difficulty.go\<close>, \<open>gas.go\<close> of \<open>simulations/modules/blockchain\<close>\<close>

text \<open>
  The search for a nonce, the adjustment of the difficulty and the meter of gas.  SHA-256, the clock and
  the value of a conversion out of range are arguments.
\<close>

subsection \<open>Mining\<close>

record MiningSimulator =
  mi_blockData :: string
  mi_difficulty :: u64
  mi_nonce :: u64
  mi_targetHash :: string
  mi_currentHash :: string
  mi_found :: bool
  mi_attempts :: u64
  mi_startTime :: gtime
  mi_calls :: "base_call list"

datatype mining_err = UnsupportedMiningAction string

definition micall :: "base_call \<Rightarrow> MiningSimulator \<Rightarrow> MiningSimulator" where
  "micall c s = s\<lparr>mi_calls := mi_calls s @ [c]\<rparr>"

definition NewMiningSimulator :: MiningSimulator where
  "NewMiningSimulator = \<lparr>mi_blockData = [], mi_difficulty = 4, mi_nonce = 0, mi_targetHash = [], mi_currentHash = [],
     mi_found = False, mi_attempts = 0, mi_startTime = None, mi_calls = []\<rparr>"

text \<open>
  \<open>Lsh(1, 256 - 4 d)\<close>: the count of bits is a 64-bit number and wraps around when \<open>d\<close> exceeds 64; then
  the slice of words would be too long.
\<close>

definition mining_target :: "u64 \<Rightarrow> int go" where
  "mining_target d = (let e = unat (256 - d * 4) in if 2 ^ 51 \<le> e then Inl MakeSliceLen else Inr (2 ^ e))"

definition pad_hex :: "nat \<Rightarrow> int \<Rightarrow> string" where
  "pad_hex w v = (let t = int_text 16 v in replicate (w - length t) (CHR ''0'') @ t)"

definition computeTarget :: "MiningSimulator \<Rightarrow> MiningSimulator go" where
  "computeTarget s = go_bind (mining_target (mi_difficulty s)) (\<lambda>t. Inr (s\<lparr>mi_targetHash := pad_hex 64 t\<rparr>))"

definition Mining_updateState :: "MiningSimulator \<Rightarrow> MiningSimulator go" where
  "Mining_updateState s =
     (let s = fold micall [CallGlobal ''difficulty'' (GInt (uint (mi_difficulty s))), CallGlobal ''nonce'' (GInt (uint (mi_nonce s))),
            CallGlobal ''attempts'' (GInt (uint (mi_attempts s))), CallGlobal ''current_hash'' (GStr (mi_currentHash s))] s
      in go_bind (go_slice (mi_targetHash s) 0 16) (\<lambda>t.
           Inr (fold micall [CallGlobal ''target_hash'' (GStr t), CallGlobal ''found'' (GBool (mi_found s)),
             CallTeaching (byte_text [229, 135, 134, 229, 164, 135, 230, 140, 150, 231, 159, 191]) (Fin (1 / 2))
               [(''difficulty'', GInt (uint (mi_difficulty s))), (''attempts'', GInt (uint (mi_attempts s))), (''found'', GBool (mi_found s))]] s)))"

definition u64_param :: "u64 \<Rightarrow> string \<Rightarrow> u64 \<Rightarrow> (string, gval) gomap \<Rightarrow> u64" where
  "u64_param oob key dflt params = (case go_get params key of Some (GFloat x) \<Rightarrow> f64_to_u64 oob x | _ \<Rightarrow> dflt)"

definition Mining_Init :: "u64 \<Rightarrow> (string, gval) gomap \<Rightarrow> MiningSimulator \<Rightarrow> MiningSimulator go" where
  "Mining_Init oob params s =
     go_bind (computeTarget (s\<lparr>mi_difficulty := u64_param oob ''difficulty'' (mi_difficulty s) params, mi_blockData := ''Block Data Example''\<rparr>))
       Mining_updateState"

definition mining_hash :: "(string \<Rightarrow> byte list) \<Rightarrow> string \<Rightarrow> u64 \<Rightarrow> string" where
  "mining_hash sha data nonce = hex_encode (sha (data @ itoa (unat nonce)))"

definition meetsTarget :: "u64 \<Rightarrow> string \<Rightarrow> bool go" where
  "meetsTarget d hash = go_bind (mining_target d) (\<lambda>t.
     Inr ((case big_set_string 16 hash of None \<Rightarrow> 0 | Some h \<Rightarrow> h) < t))"

text \<open>At most \<open>n\<close> more attempts.\<close>

fun mining_loop :: "(string \<Rightarrow> byte list) \<Rightarrow> nat \<Rightarrow> MiningSimulator \<Rightarrow> MiningSimulator go" where
  "mining_loop sha 0 s = Inr s"
| "mining_loop sha (Suc n) s =
     (let nonce = mi_nonce s + 1; hash = mining_hash sha (mi_blockData s) nonce;
          s = s\<lparr>mi_nonce := nonce, mi_attempts := mi_attempts s + 1, mi_currentHash := hash\<rparr>
      in go_bind (meetsTarget (mi_difficulty s) hash) (\<lambda>ok.
           if ok then go_bind (go_slice hash 0 16) (\<lambda>h.
             Inr (micall (CallEmit ''block_found'' [] [] (Some [(''nonce'', GInt (uint nonce)), (''hash'', GStr h),
               (''attempts'', GInt (uint (mi_attempts s)))])) (s\<lparr>mi_found := True\<rparr>)))
           else mining_loop sha n s))"

definition Mining_onTick :: "(string \<Rightarrow> byte list) \<Rightarrow> MiningSimulator \<Rightarrow> MiningSimulator go" where
  "Mining_onTick sha s = (if mi_found s then Inr s else go_bind (mining_loop sha 100 s) Mining_updateState)"

definition StartMining :: "int \<Rightarrow> string \<Rightarrow> MiningSimulator \<Rightarrow> MiningSimulator" where
  "StartMining now data s =
     micall (CallEmit ''mining_started'' [] [] (Some [(''block_data'', GStr data), (''difficulty'', GInt (uint (mi_difficulty s)))]))
       (s\<lparr>mi_blockData := data, mi_nonce := 0, mi_attempts := 0, mi_found := False, mi_startTime := Some now\<rparr>)"

text \<open>The part before the base simulator's own.\<close>

definition Mining_Reset :: "MiningSimulator \<Rightarrow> MiningSimulator go" where
  "Mining_Reset s = Mining_updateState (s\<lparr>mi_nonce := 0, mi_attempts := 0, mi_found := False\<rparr>)"

definition Mining_ExecuteAction ::
  "int \<Rightarrow> string \<Rightarrow> (string, gval) gomap \<Rightarrow> MiningSimulator \<Rightarrow> (mining_err + string) \<times> MiningSimulator" where
  "Mining_ExecuteAction now action params s =
     (if action = ''start_mining'' then
        let data = text_param ''block_data'' ''Block Data Example'' params in (Inr data, StartMining now data s)
      else (Inl (UnsupportedMiningAction action), s))"

subsection \<open>Difficulty\<close>

record DifficultyBlock =
  db_Height :: u64
  db_Difficulty :: u64
  db_Timestamp :: int
  db_BlockTime :: int

record DifficultySimulator =
  df_blocks :: "DifficultyBlock list"
  df_targetBlockTime :: int
  df_adjustInterval :: int
  df_currentDiff :: u64
  df_calls :: "base_call list"

record difficulty_env =
  de_u64 :: u64
  de_int :: int
  de_stamp :: "int \<Rightarrow> string"

datatype difficulty_err = UnsupportedDifficultyAction string

definition dfcall :: "base_call \<Rightarrow> DifficultySimulator \<Rightarrow> DifficultySimulator" where
  "dfcall c s = s\<lparr>df_calls := df_calls s @ [c]\<rparr>"

definition NewDifficultySimulator :: DifficultySimulator where
  "NewDifficultySimulator = \<lparr>df_blocks = [], df_targetBlockTime = 10, df_adjustInterval = 10, df_currentDiff = 1000, df_calls = []\<rparr>"

definition show_dblock :: "difficulty_env \<Rightarrow> DifficultyBlock \<Rightarrow> gval" where
  "show_dblock v b = GStruct [(''height'', GInt (uint (db_Height b))), (''difficulty'', GInt (uint (db_Difficulty b))),
     (''timestamp'', GStr (de_stamp v (db_Timestamp b))), (''block_time'', GInt (db_BlockTime b))]"

definition Difficulty_updateState :: "difficulty_env \<Rightarrow> DifficultySimulator \<Rightarrow> DifficultySimulator" where
  "Difficulty_updateState v s =
     fold dfcall
       ([CallGlobal ''current_difficulty'' (GInt (uint (df_currentDiff s))), CallGlobal ''block_count'' (GInt (int (length (df_blocks s)))),
         CallGlobal ''target_block_time'' (GInt (df_targetBlockTime s)), CallGlobal ''adjust_interval'' (GInt (df_adjustInterval s))] @
        (if df_blocks s = [] then []
         else [CallGlobal ''latest_height'' (GInt (uint (db_Height (last (df_blocks s))))),
               CallGlobal ''latest_block_time'' (GInt (db_BlockTime (last (df_blocks s))))]) @
        [CallGlobal ''recent_blocks'' (GList (map (show_dblock v) (keep_last 20 (df_blocks s)))),
         CallTeaching (byte_text [229, 135, 134, 229, 164, 135, 233, 154, 190, 229, 186, 166, 232, 176, 131, 230, 149, 180]) (Fin (1 / 2))
           [(''current_difficulty'', GInt (uint (df_currentDiff s))), (''block_count'', GInt (int (length (df_blocks s))))]]) s"

definition Difficulty_Init :: "difficulty_env \<Rightarrow> int \<Rightarrow> (string, gval) gomap \<Rightarrow> DifficultySimulator \<Rightarrow> DifficultySimulator" where
  "Difficulty_Init v now params s =
     Difficulty_updateState v (s\<lparr>df_targetBlockTime := int_param (de_int v) ''target_block_time'' (df_targetBlockTime s) params,
       df_adjustInterval := int_param (de_int v) ''adjust_interval'' (df_adjustInterval s) params,
       df_blocks := [\<lparr>db_Height = 0, db_Difficulty = df_currentDiff s, db_Timestamp = now, db_BlockTime = 0\<rparr>]\<rparr>)"

text \<open>The quotient and the remainder of integers, cut off towards zero.\<close>

definition quo :: "int \<Rightarrow> int \<Rightarrow> int" where
  "quo a b = sgn a * sgn b * (\<bar>a\<bar> div \<bar>b\<bar>)"

definition rem :: "int \<Rightarrow> int \<Rightarrow> int" where
  "rem a b = a - quo a b * b"

text \<open>\<open>Duration.Seconds\<close>\<close>

definition duration_seconds :: "int \<Rightarrow> f64" where
  "duration_seconds d = f64_add (f64_of_int (quo d second)) (f64_div (f64_of_int (rem d second)) (Fin 1000000000))"

text \<open>The limits of the ratio, and the new difficulty.\<close>

definition difficulty_ratio :: "f64 \<Rightarrow> f64 \<Rightarrow> f64" where
  "difficulty_ratio expected actual = f64_max (Fin (1 / 4)) (f64_min (Fin 4) (f64_div expected actual))"

definition next_difficulty :: "u64 \<Rightarrow> u64 \<Rightarrow> f64 \<Rightarrow> u64" where
  "next_difficulty oob d ratio =
     (let d' = f64_to_u64 oob (f64_mul (f64_of_int (uint d)) ratio) in if d' < 1 then 1 else d')"

definition adjustDifficulty :: "difficulty_env \<Rightarrow> DifficultySimulator \<Rightarrow> DifficultySimulator go" where
  "adjustDifficulty v s =
     (let n = int (length (df_blocks s)) in
      if n < df_adjustInterval s then Inr s
      else go_bind (go_index (df_blocks s) (nat (n - df_adjustInterval s))) (\<lambda>b.
        let actual = duration_seconds (time_sub (Some (db_Timestamp (last (df_blocks s)))) (Some (db_Timestamp b)));
            expected = f64_mul (f64_of_int (df_adjustInterval s)) (f64_of_int (df_targetBlockTime s));
            ratio = difficulty_ratio expected actual; d = next_difficulty (de_u64 v) (df_currentDiff s) ratio
        in Inr (dfcall (CallEmit ''difficulty_adjusted'' [] [] (Some [(''old_difficulty'', GInt (uint (df_currentDiff s))),
             (''new_difficulty'', GInt (uint d)), (''ratio'', GFloat ratio), (''actual_time'', GFloat actual),
             (''expected_time'', GFloat expected)])) (s\<lparr>df_currentDiff := d\<rparr>))))"

text \<open>The time of a block, drawn from the clock around the target; 64-bit integers.\<close>

definition block_seconds :: "difficulty_env \<Rightarrow> int \<Rightarrow> int \<Rightarrow> int" where
  "block_seconds v now target =
     (let variance = f64_mul (f64_of_int target) (Fin (1 / 2));
          x = f64_div (f64_mul (f64_mul (Fin 2) variance) (f64_of_int (rem now 1000))) (Fin 1000);
          actual = sint (word_of_int (target + f64_to_int (de_int v) (f64_sub x variance)) :: u64)
      in if actual < 1 then 1 else actual)"

definition next_block :: "u64 \<Rightarrow> int \<Rightarrow> DifficultyBlock \<Rightarrow> DifficultyBlock" where
  "next_block d secs b = \<lparr>db_Height = db_Height b + 1, db_Difficulty = d,
     db_Timestamp = db_Timestamp b + sint (word_of_int (secs * second) :: u64), db_BlockTime = secs\<rparr>"

definition mineBlock :: "difficulty_env \<Rightarrow> int \<Rightarrow> DifficultySimulator \<Rightarrow> DifficultySimulator go" where
  "mineBlock v now s =
     (if df_blocks s = [] then Inl IndexOutOfRange
      else
        let secs = block_seconds v now (df_targetBlockTime s);
            b = next_block (df_currentDiff s) secs (last (df_blocks s));
            s = s\<lparr>df_blocks := df_blocks s @ [b]\<rparr>
        in if df_adjustInterval s = 0 then Inl DivideByZero
           else go_bind (if rem (int (length (df_blocks s))) (df_adjustInterval s) = 0 then adjustDifficulty v s else Inr s) (\<lambda>s.
             Inr (Difficulty_updateState v (dfcall (CallEmit ''block_mined'' [] [] (Some [(''height'', GInt (uint (db_Height b))),
               (''difficulty'', GInt (uint (db_Difficulty b))), (''block_time'', GInt secs)])) s))))"

definition Difficulty_onTick :: "difficulty_env \<Rightarrow> int \<Rightarrow> u64 \<Rightarrow> DifficultySimulator \<Rightarrow> DifficultySimulator go" where
  "Difficulty_onTick v now tick s = (if tick mod 5 = 0 then mineBlock v now s else Inr s)"

definition Difficulty_ExecuteAction ::
  "difficulty_env \<Rightarrow> int \<Rightarrow> string \<Rightarrow> DifficultySimulator \<Rightarrow> ((difficulty_err + u64 \<times> nat) \<times> DifficultySimulator) go" where
  "Difficulty_ExecuteAction v now action s =
     (if action = ''mine_block'' then go_bind (mineBlock v now s) (\<lambda>s. Inr (Inr (df_currentDiff s, length (df_blocks s)), s))
      else Inr (Inl (UnsupportedDifficultyAction action), s))"

subsection \<open>Gas\<close>

record GasOperation =
  gp_Name :: string
  gp_GasCost :: u64
  gp_Category :: string

record GasSimulator =
  gs_operations :: "(string, GasOperation) gomap"
  gs_gasPrice :: u64
  gs_gasLimit :: u64
  gs_gasUsed :: u64
  gs_execHistory :: "gval list"
  gs_calls :: "base_call list"

datatype gas_err = UnknownGasOperation string | OutOfGas | UnsupportedGasAction string

definition gscall :: "base_call \<Rightarrow> GasSimulator \<Rightarrow> GasSimulator" where
  "gscall c s = s\<lparr>gs_calls := gs_calls s @ [c]\<rparr>"

definition NewGasSimulator :: GasSimulator where
  "NewGasSimulator = \<lparr>gs_operations = [], gs_gasPrice = 20, gs_gasLimit = 100000, gs_gasUsed = 0, gs_execHistory = [], gs_calls = []\<rparr>"

definition gas_operations :: "(string, GasOperation) gomap" where
  "gas_operations = map (\<lambda>(n, c, g). (n, \<lparr>gp_Name = n, gp_GasCost = c, gp_Category = g\<rparr>))
     [(''ADD'', 3, ''arithmetic''), (''MUL'', 5, ''arithmetic''), (''SUB'', 3, ''arithmetic''), (''DIV'', 5, ''arithmetic''),
      (''SLOAD'', 800, ''storage''), (''SSTORE'', 20000, ''storage''), (''CALL'', 700, ''call''), (''CREATE'', 32000, ''contract''),
      (''TRANSFER'', 21000, ''transfer''), (''LOG'', 375, ''log'')]"

definition Gas_updateState :: "GasSimulator \<Rightarrow> GasSimulator" where
  "Gas_updateState s =
     fold gscall
       [CallGlobal ''gas_price'' (GInt (uint (gs_gasPrice s))), CallGlobal ''gas_limit'' (GInt (uint (gs_gasLimit s))),
        CallGlobal ''gas_used'' (GInt (uint (gs_gasUsed s))), CallGlobal ''gas_remaining'' (GInt (uint (gs_gasLimit s - gs_gasUsed s))),
        CallGlobal ''operations'' (GMap (map (\<lambda>(k, op). (k, GStruct [(''name'', GStr (gp_Name op)), (''gas_cost'', GInt (uint (gp_GasCost op))),
          (''category'', GStr (gp_Category op))])) (gs_operations s))),
        CallGlobal ''exec_history'' (GList (gs_execHistory s)),
        CallTeaching (byte_text [229, 135, 134, 229, 164, 135, 32, 71, 97, 115, 32, 232, 174, 161, 232, 180, 185]) (lit (45 / 100))
          [(''gas_used'', GInt (uint (gs_gasUsed s))), (''gas_limit'', GInt (uint (gs_gasLimit s))), (''gas_price'', GInt (uint (gs_gasPrice s)))]] s"

definition Gas_Init :: "u64 \<Rightarrow> (string, gval) gomap \<Rightarrow> GasSimulator \<Rightarrow> GasSimulator" where
  "Gas_Init oob params s =
     Gas_updateState (s\<lparr>gs_gasPrice := u64_param oob ''gas_price'' (gs_gasPrice s) params,
       gs_gasLimit := u64_param oob ''gas_limit'' (gs_gasLimit s) params, gs_operations := gas_operations\<rparr>)"

definition history_entry :: "string \<Rightarrow> u64 \<Rightarrow> u64 \<Rightarrow> gval" where
  "history_entry name cost eth = GMap [(''operation'', GStr name), (''gas_cost'', GInt (uint cost)), (''eth_cost'', GInt (uint eth))]"

definition ExecuteOperation :: "string \<Rightarrow> GasSimulator \<Rightarrow> gas_err option \<times> GasSimulator" where
  "ExecuteOperation name s =
     (case go_get (gs_operations s) name of
        None \<Rightarrow> (Some (UnknownGasOperation name), s)
      | Some op \<Rightarrow>
          if gs_gasLimit s < gs_gasUsed s + gp_GasCost op then
            (Some OutOfGas, gscall (CallEmit ''out_of_gas'' [] [] (Some [(''operation'', GStr name), (''required'', GInt (uint (gp_GasCost op))),
              (''remaining'', GInt (uint (gs_gasLimit s - gs_gasUsed s)))])) s)
          else
            let s = s\<lparr>gs_gasUsed := gs_gasUsed s + gp_GasCost op,
                  gs_execHistory := gs_execHistory s @ [history_entry name (gp_GasCost op) (gp_GasCost op * gs_gasPrice s)]\<rparr>
            in (None, Gas_updateState (gscall (CallEmit ''operation_executed'' [] [] (Some [(''operation'', GStr name),
                 (''gas_cost'', GInt (uint (gp_GasCost op))), (''gas_used'', GInt (uint (gs_gasUsed s)))])) s)))"

definition EstimateGas :: "string list \<Rightarrow> GasSimulator \<Rightarrow> u64" where
  "EstimateGas names s =
     fold (\<lambda>name total. case go_get (gs_operations s) name of None \<Rightarrow> total | Some op \<Rightarrow> total + gp_GasCost op) names 0"

text \<open>The part before the base simulator's own.\<close>

definition Gas_Reset :: "GasSimulator \<Rightarrow> GasSimulator" where
  "Gas_Reset s = Gas_updateState (s\<lparr>gs_gasUsed := 0, gs_execHistory := []\<rparr>)"

definition Gas_ExecuteAction :: "string \<Rightarrow> (string, gval) gomap \<Rightarrow> GasSimulator \<Rightarrow> (gas_err + string \<times> u64) \<times> GasSimulator" where
  "Gas_ExecuteAction action params s =
     (if action = ''execute_operation'' then
        let name = text_param ''operation'' ''SSTORE'' params in
        (case ExecuteOperation name s of
           (Some e, s) \<Rightarrow> (Inl e, s)
         | (None, s) \<Rightarrow> (Inr (name, gs_gasUsed s), s))
      else (Inl (UnsupportedGasAction action), s))"

end
