(* ===== verification/MiningFacts.thy ===== *)
theory MiningFacts
  imports Mining Digits GoFloatFacts
begin

section \<open>Mining, difficulty and gas: properties\<close>

text \<open>
  A hash meets the target just when it starts with enough zeros; the search finds the first nonce that
  does.  The difficulty changes at most by a factor of four, and by that factor in every block when it
  is adjusted in every block.  The meter never passes the limit.
\<close>

subsection \<open>The target\<close>

lemma hex_encode_digits:
  "hex_encode bs = map hex_digit (concat (map (\<lambda>b. [unat b div 16, unat b mod 16]) bs))"
  by (induction bs) simp_all

lemma hex_digits_less: "list_all (\<lambda>d. d < 16) (concat (map (\<lambda>b. [unat b div 16, unat b mod 16]) (bs :: byte list)))"
  by (auto simp: list_all_iff div_less_iff_less_mult)

lemma hex_digit_zero: "d < 16 \<Longrightarrow> hex_digit d = CHR ''0'' \<longleftrightarrow> d = 0"
  using hex_digit_inj [of d 0] by (auto simp: hex_digit_def)

lemma big_set_string_digits:
  assumes "list_all (\<lambda>d. d < 16) ds" and "ds \<noteq> []"
  shows "big_set_string 16 (map hex_digit ds) = Some (int (digits_value 16 ds))"
proof -
  have v: "map (\<lambda>c. case hex_val c of None \<Rightarrow> 0 | Some d \<Rightarrow> d) (map hex_digit ds) = ds"
    using assms(1) by (induction ds) simp_all
  have l: "list_all (\<lambda>c. case hex_val c of None \<Rightarrow> False | Some d \<Rightarrow> d < 16) (map hex_digit ds)"
    using assms(1) by (induction ds) simp_all
  have "case map hex_digit ds of [] \<Rightarrow> True | c # cs \<Rightarrow> c \<noteq> CHR ''-'' \<and> c \<noteq> CHR ''+''"
    using assms by (cases ds) (auto simp: hex_digit_no_sign)
  then show ?thesis using assms(2) v l by (cases ds) (auto simp: big_set_string_def Let_def)
qed

lemma mining_target_ok: "d \<le> 64 \<Longrightarrow> mining_target d = Inr (2 ^ (256 - 4 * unat d))"
proof -
  assume "d \<le> 64"
  then have u: "unat d \<le> 64" by (simp add: word_le_nat_alt)
  have "unat (d * 4) = unat d * 4" using u by (simp add: unat_word_ariths)
  then have "unat (256 - d * 4) = 256 - 4 * unat d" using u by (subst unat_sub) (simp_all add: word_le_nat_alt)
  then show ?thesis by (simp add: mining_target_def Let_def)
qed

text \<open>
  With a hash of 32 bytes and a difficulty of at most 64, a hash is below the target just when it starts
  with as many zeros as the difficulty says.
\<close>

theorem Mining_leading_zeros:
  assumes "length bs = 32" and "d \<le> 64"
  shows "meetsTarget d (hex_encode bs) = Inr (take (unat d) (hex_encode bs) = replicate (unat d) (CHR ''0''))"
proof -
  let ?ds = "concat (map (\<lambda>b. [unat b div 16, unat b mod 16]) bs)"
  have len: "length ?ds = 64" using length_hex_encode [of bs] assms(1) by (simp add: hex_encode_digits)
  have u: "unat d \<le> 64" using assms(2) by (simp add: word_le_nat_alt)
  have "(16 :: nat) ^ (64 - unat d) = 2 ^ (4 * (64 - unat d))" by (simp add: power_mult)
  also have "4 * (64 - unat d) = 256 - 4 * unat d" using u by simp
  finally have p: "(16 :: nat) ^ (64 - unat d) = 2 ^ (256 - 4 * unat d)" .
  have "int (digits_value 16 ?ds) < 2 ^ (256 - 4 * unat d) \<longleftrightarrow> digits_value 16 ?ds < 16 ^ (64 - unat d)"
    unfolding p by (rule of_nat_less_numeral_power_cancel_iff)
  also have "\<dots> \<longleftrightarrow> list_all ((=) 0) (take (unat d) ?ds)"
    using dval_small_iff [OF hex_digits_less, of "unat d" bs] u len by simp
  also have "\<dots> \<longleftrightarrow> map hex_digit (take (unat d) ?ds) = replicate (unat d) (CHR ''0'')"
  proof -
    have "list_all (\<lambda>d. d < 16) (take (unat d) ?ds)" using hex_digits_less [of bs] in_set_takeD [of _ "unat d" ?ds] unfolding list_all_iff by blast
    moreover have "list_all (\<lambda>d. d < 16) xs \<Longrightarrow> list_all ((=) 0) xs \<longleftrightarrow> map hex_digit xs = replicate (length xs) (CHR ''0'')" for xs
      by (induction xs) (auto simp: hex_digit_zero)
    ultimately show ?thesis using u len by simp
  qed
  finally have eq: "int (digits_value 16 ?ds) < 2 ^ (256 - 4 * unat d) \<longleftrightarrow> map hex_digit (take (unat d) ?ds) = replicate (unat d) (CHR ''0'')" .
  have "?ds \<noteq> []" using len by (metis list.size(3) zero_neq_numeral)
  then have "big_set_string 16 (hex_encode bs) = Some (int (digits_value 16 ?ds))"
    unfolding hex_encode_digits by (rule big_set_string_digits [OF hex_digits_less])
  then show ?thesis using eq by (simp only: meetsTarget_def mining_target_ok [OF assms(2)] go_bind_def sum.case option.case hex_encode_digits take_map)
qed

theorem Mining_leading_zeros_witness:
  "meetsTarget 3 (hex_encode ([0, 15] @ replicate 30 255)) = Inr True"
proof -
  have "replicate 3 x = [x, x, x]" for x :: char by (simp add: numeral_3_eq_3)
  then show ?thesis using Mining_leading_zeros [of "[0, 15] @ replicate 30 255" 3] by (simp add: hex_digit_def)
qed

subsection \<open>The search\<close>

definition nonce_hits :: "(string \<Rightarrow> byte list) \<Rightarrow> u64 \<Rightarrow> string \<Rightarrow> nat \<Rightarrow> bool" where
  "nonce_hits sha d data m \<longleftrightarrow> take (unat d) (mining_hash sha data (of_nat m)) = replicate (unat d) (CHR ''0'')"

fun mining_ticks :: "(string \<Rightarrow> byte list) \<Rightarrow> nat \<Rightarrow> MiningSimulator \<Rightarrow> MiningSimulator go" where
  "mining_ticks sha 0 s = Inr s"
| "mining_ticks sha (Suc n) s = go_bind (Mining_onTick sha s) (mining_ticks sha n)"

text \<open>What is known after the nonces up to \<open>k\<close> were tried, or one of them was found.\<close>

definition searched :: "(string \<Rightarrow> byte list) \<Rightarrow> u64 \<Rightarrow> string \<Rightarrow> nat \<Rightarrow> MiningSimulator \<Rightarrow> bool" where
  "searched sha d data k s \<longleftrightarrow> mi_difficulty s = d \<and> mi_blockData s = data \<and> 16 \<le> length (mi_targetHash s) \<and>
     (if mi_found s then 0 < unat (mi_nonce s) \<and> unat (mi_nonce s) \<le> k \<and> nonce_hits sha d data (unat (mi_nonce s)) \<and>
        (\<forall>m. 0 < m \<and> m < unat (mi_nonce s) \<longrightarrow> \<not> nonce_hits sha d data m)
      else unat (mi_nonce s) = k \<and> (\<forall>m. 0 < m \<and> m \<le> k \<longrightarrow> \<not> nonce_hits sha d data m))"

lemma micall_keeps [simp]:
  "mi_found (micall c s) = mi_found s" "mi_nonce (micall c s) = mi_nonce s" "mi_difficulty (micall c s) = mi_difficulty s"
  "mi_blockData (micall c s) = mi_blockData s" "mi_targetHash (micall c s) = mi_targetHash s"
  by (simp_all add: micall_def)

lemma searched_micall [simp]: "searched sha d data k (micall c s) = searched sha d data k s"
  by (simp add: searched_def)

lemma Mining_updateState_searched:
  assumes "searched sha d data k s"
  shows "\<exists>s'. Mining_updateState s = Inr s' \<and> searched sha d data k s'"
  using assms by (auto simp: Mining_updateState_def Let_def go_slice_def go_bind_def searched_def)

lemma mining_loop_searched:
  assumes "\<And>x. length (sha x) = 32" and "d \<le> 64" and "searched sha d data k s" and "\<not> mi_found s" and "k + n < 2 ^ 64"
  shows "\<exists>s'. mining_loop sha n s = Inr s' \<and> searched sha d data (k + n) s'"
  using assms(3-5)
proof (induction n arbitrary: s k)
  case (Suc n)
  let ?nonce = "mi_nonce s + 1"
  let ?hash = "mining_hash sha data ?nonce"
  let ?s = "s\<lparr>mi_nonce := ?nonce, mi_attempts := mi_attempts s + 1, mi_currentHash := ?hash\<rparr>"
  have s: "mi_difficulty s = d" "mi_blockData s = data" "16 \<le> length (mi_targetHash s)" "unat (mi_nonce s) = k"
    "\<And>m. 0 < m \<Longrightarrow> m \<le> k \<Longrightarrow> \<not> nonce_hits sha d data m"
    using Suc.prems(1,2) by (auto simp: searched_def)
  have u: "unat ?nonce = Suc k" using s(4) Suc.prems(3) by (simp add: unat_word_ariths)
  have nonce: "of_nat (Suc k) = ?nonce" unfolding u [symmetric] by simp
  have m: "meetsTarget d ?hash = Inr (nonce_hits sha d data (Suc k))"
    using Mining_leading_zeros [of "sha (data @ itoa (unat ?nonce))" d] assms(1,2) unfolding nonce_hits_def nonce by (simp add: mining_hash_def)
  have len: "16 \<le> length ?hash" using assms(1) by (simp add: mining_hash_def)
  show ?case
  proof (cases "nonce_hits sha d data (Suc k)")
    case True
    then show ?thesis using m s u len by (auto simp: Let_def go_bind_def go_slice_def searched_def less_Suc_eq_le)
  next
    case False
    then have "searched sha d data (Suc k) ?s" using s u Suc.prems(2) by (auto simp: searched_def le_Suc_eq)
    moreover have "\<not> mi_found ?s" using Suc.prems(2) by simp
    moreover have "Suc k + n < 2 ^ 64" using Suc.prems(3) by simp
    ultimately obtain s' where "mining_loop sha n ?s = Inr s'" "searched sha d data (Suc k + n) s'" using Suc.IH by blast
    then show ?thesis using False m s(1,2) by (simp add: Let_def go_bind_def)
  qed
qed (use assms in auto)

lemma searched_found: "searched sha d data k s \<Longrightarrow> mi_found s \<Longrightarrow> k \<le> k' \<Longrightarrow> searched sha d data k' s"
  by (auto simp: searched_def)

lemma mining_ticks_searched:
  assumes "\<And>x. length (sha x) = 32" and "d \<le> 64" and "searched sha d data k s" and "k + 100 * n < 2 ^ 64"
  shows "\<exists>s'. mining_ticks sha n s = Inr s' \<and> searched sha d data (k + 100 * n) s'"
  using assms(3,4)
proof (induction n arbitrary: s k)
  case (Suc n)
  have "\<exists>s1. Mining_onTick sha s = Inr s1 \<and> searched sha d data (k + 100) s1"
  proof (cases "mi_found s")
    case True
    then show ?thesis using searched_found [OF Suc.prems(1) True] by (simp add: Mining_onTick_def)
  next
    case False
    have "k + 100 < 2 ^ 64" using Suc.prems(2) by simp
    with mining_loop_searched [OF assms(1,2) Suc.prems(1) False] obtain s1 where
      "mining_loop sha 100 s = Inr s1" "searched sha d data (k + 100) s1" by blast
    then show ?thesis using Mining_updateState_searched False by (simp add: Mining_onTick_def go_bind_def)
  qed
  then obtain s1 where s1: "Mining_onTick sha s = Inr s1" "searched sha d data (k + 100) s1" by blast
  have "k + 100 + 100 * n < 2 ^ 64" using Suc.prems(2) by simp
  then show ?case using Suc.IH [OF s1(2)] s1(1) by (simp add: go_bind_def algebra_simps)
qed auto

text \<open>C29. 
  Mining: after \<open>n\<close> ticks of a search that was started anew, a nonce was found just when one of the first
  \<open>100 n\<close> numbers hits the target, and then it is the least; nothing panics.
\<close>

theorem Mining_search:
  assumes "\<And>x. length (sha x) = 32" and "mi_difficulty s \<le> 64" and "16 \<le> length (mi_targetHash s)" and "100 * n < 2 ^ 64"
  shows "\<exists>s'. mining_ticks sha n (StartMining now data s) = Inr s' \<and>
    (mi_found s' \<longleftrightarrow> (\<exists>m. 0 < m \<and> m \<le> 100 * n \<and> nonce_hits sha (mi_difficulty s) data m)) \<and>
    (mi_found s' \<longrightarrow> unat (mi_nonce s') = (LEAST m. 0 < m \<and> nonce_hits sha (mi_difficulty s) data m))"
proof -
  let ?d = "mi_difficulty s"
  have "searched sha ?d data 0 (StartMining now data s)" using assms(3) by (simp add: searched_def StartMining_def)
  from mining_ticks_searched [OF assms(1,2) this, of n] assms(4) obtain s' where
    s': "mining_ticks sha n (StartMining now data s) = Inr s'" "searched sha ?d data (100 * n) s'" by auto
  have "mi_found s' \<longleftrightarrow> (\<exists>m. 0 < m \<and> m \<le> 100 * n \<and> nonce_hits sha ?d data m)"
    using s'(2) by (auto simp: searched_def split: if_splits)
  moreover have "unat (mi_nonce s') = (LEAST m. 0 < m \<and> nonce_hits sha ?d data m)" if "mi_found s'"
    using s'(2) that by (intro Least_equality [symmetric]) (auto simp: searched_def not_less [symmetric])
  ultimately show ?thesis using s'(1) by blast
qed

text \<open>With a hash that ends its input with zeros the first nonce is found.\<close>

definition blank_sha :: "string \<Rightarrow> byte list" where
  "blank_sha _ = replicate 32 0"

theorem Mining_search_witness:
  "\<exists>s'. mining_ticks blank_sha 1 (StartMining 0 ''x'' (NewMiningSimulator\<lparr>mi_targetHash := replicate 64 (CHR ''0'')\<rparr>)) = Inr s' \<and> mi_found s'"
proof -
  have "take 4 (hex_encode (replicate 32 0)) = replicate 4 (CHR ''0'')" by code_simp
  then have "nonce_hits blank_sha 4 ''x'' 1" by (simp add: nonce_hits_def mining_hash_def blank_sha_def)
  then show ?thesis
    using Mining_search [of blank_sha "NewMiningSimulator\<lparr>mi_targetHash := replicate 64 (CHR ''0'')\<rparr>" 1 0 "''x''"]
    by (auto simp: blank_sha_def NewMiningSimulator_def)
qed

subsection \<open>The difficulty\<close>

lemma f64_round_not_NaN [simp]: "f64_round r \<noteq> NaN"
  by (simp add: f64_round_def Let_def)

lemma quo_bounds:
  assumes "0 < b"
  shows "\<bar>quo a b\<bar> = \<bar>a\<bar> div b" "\<bar>rem a b\<bar> < b"
proof -
  show q: "\<bar>quo a b\<bar> = \<bar>a\<bar> div b" using assms by (cases "a = 0") (simp_all add: quo_def abs_mult pos_imp_zdiv_nonneg_iff)
  have "rem a b = sgn a * (\<bar>a\<bar> - \<bar>a\<bar> div b * b)" using assms by (simp add: rem_def quo_def right_diff_distrib sgn_mult_abs mult.assoc)
  also have "\<bar>a\<bar> - \<bar>a\<bar> div b * b = \<bar>a\<bar> mod b" by (simp add: minus_div_mult_eq_mod)
  finally have "\<bar>rem a b\<bar> \<le> \<bar>a\<bar> mod b" using assms by (cases "a = 0") (simp_all add: abs_mult pos_mod_sign)
  then show "\<bar>rem a b\<bar> < b" using pos_mod_bound [OF assms, of "\<bar>a\<bar>"] by linarith
qed

lemma duration_seconds_not_NaN:
  assumes "\<bar>d\<bar> \<le> 2 ^ 63"
  shows "duration_seconds d \<noteq> NaN"
proof -
  have s: "0 < second" by (simp add: second_def)
  have "\<bar>d\<bar> div second \<le> 2 ^ 63 div second" using assms s by (intro zdiv_mono1) simp_all
  also have "\<dots> < 2 ^ 53" by (simp add: second_def)
  finally have "\<bar>quo d second\<bar> < 2 ^ 53" by (simp add: quo_bounds [OF s])
  moreover have "\<bar>rem d second\<bar> < 2 ^ 53" using quo_bounds(2) [OF s, of d] by (simp add: second_def)
  ultimately obtain x y where "f64_of_int (quo d second) = Fin x" "f64_of_int (rem d second) = Fin y" using f64_of_int_small by blast
  then show ?thesis by (cases "f64_round (y / 1000000000)") (simp_all add: duration_seconds_def)
qed

lemma difficulty_ratio_range:
  assumes "0 < e" and "a \<noteq> NaN"
  shows "\<exists>r. difficulty_ratio (Fin e) a = Fin r \<and> 1 / 4 \<le> r \<and> r \<le> 4"
proof -
  have "f64_div (Fin e) a \<noteq> NaN" using assms by (cases a) (auto simp: f64_inf_def)
  then show ?thesis
  proof (cases "f64_div (Fin e) a")
    case (Fin x)
    then show ?thesis
      by (intro exI [of _ "if 4 \<le> x then 4 else if 1 / 4 < x then x else 1 / 4"]) (simp add: difficulty_ratio_def f64_min_def f64_max_def)
  next
    case NegInf then show ?thesis by (intro exI [of _ "1 / 4"]) (simp add: difficulty_ratio_def f64_min_def f64_max_def)
  next
    case PosInf then show ?thesis by (intro exI [of _ 4]) (simp add: difficulty_ratio_def f64_min_def f64_max_def)
  qed simp
qed

lemma unat_of_int_u64: "0 \<le> z \<Longrightarrow> z < 2 ^ 64 \<Longrightarrow> unat (of_int z :: u64) = nat z"
  by (simp add: unat_eq_nat_uint uint_word_of_int take_bit_int_eq_self)

lemma next_difficulty_bounds:
  assumes "unat d \<le> 2 ^ 51" and "1 / 4 \<le> r" and "r \<le> 4"
  shows "unat d div 4 \<le> unat (next_difficulty oob d (Fin r))" "unat (next_difficulty oob d (Fin r)) \<le> max 1 (4 * unat d)"
proof -
  have "int (unat d) \<le> 2 ^ 51" using assms(1) by (simp only: of_nat_le_numeral_power_cancel_iff)
  moreover obtain n where nat_n: "unat d = n" by blast
  moreover have n: "uint d = int n" by (simp add: nat_n uint_nat)
  ultimately have u: "int n \<le> 2 ^ 51" "0 \<le> int n" by simp_all
  have "(2 :: int) ^ 53 = 4 * 2 ^ 51" by simp
  then have u4: "\<bar>int n\<bar> \<le> 2 ^ 53" "\<bar>4 * int n\<bar> \<le> 2 ^ 53" using u by linarith+
  let ?a = "of_int (int n) / 4 :: rat" and ?b = "of_int (4 * int n) :: rat"
  have "of_int (int n) * (1 / 4) \<le> of_int (int n) * r" "of_int (int n) * r \<le> of_int (int n) * 4" by (rule mult_left_mono [OF assms(2)] mult_left_mono [OF assms(3)]; simp)+
  then have "?a \<le> of_int (int n) * r" "of_int (int n) * r \<le> ?b" by simp_all
  moreover have "f64_num ?a" "f64_num ?b" by (blast intro: f64_num_quarter f64_num_int u4)+
  moreover have "?b < 2 ^ 1024"
  proof -
    have "?b \<le> of_int (2 ^ 53)" using u4(2) by (simp only: of_int_le_iff abs_le_iff)
    also have "(of_int (2 ^ 53) :: rat) < 2 ^ 1024" by simp
    finally show ?thesis .
  qed
  ultimately obtain x where x: "f64_round (of_int (int n) * r) = Fin x" "?a \<le> x" "x \<le> ?b"
    using f64_round_between [of ?a ?b "of_int (int n) * r"] u(2) by auto
  have z: "int n div 4 \<le> \<lfloor>x\<rfloor>" "\<lfloor>x\<rfloor> \<le> 4 * int n"
  proof -
    have "of_int (int n div 4) \<le> (of_int (int n) / 4 :: rat)" using floor_divide_of_int_eq [of "int n" 4, where 'a = rat] by (metis of_int_floor_le of_int_numeral)
    then show "int n div 4 \<le> \<lfloor>x\<rfloor>" using x(2) by (simp add: le_floor_iff)
    show "\<lfloor>x\<rfloor> \<le> 4 * int n" using floor_mono [OF x(3)] by (simp only: floor_of_int)
  qed
  moreover have "0 \<le> int n div 4" "(2 :: int) ^ 53 < 2 ^ 64" by simp_all
  ultimately have f: "0 \<le> \<lfloor>x\<rfloor>" "\<lfloor>x\<rfloor> < 2 ^ 64" using u4(2) by linarith+
  then have "0 \<le> x" "x < 2 ^ 64" by (simp_all only: floor_less_iff zero_le_floor of_int_power of_int_numeral)
  moreover have "f64_of_int (uint d) = Fin (of_int (int n))" unfolding n using u by (intro f64_of_int_small) simp
  ultimately have "f64_to_u64 oob (f64_mul (f64_of_int (uint d)) (Fin r)) = of_int \<lfloor>x\<rfloor>" using x(1) by (simp add: f64_to_u64_def)
  moreover have "unat (of_int \<lfloor>x\<rfloor> :: u64) = nat \<lfloor>x\<rfloor>" using f by (rule unat_of_int_u64)
  ultimately have nd: "unat (next_difficulty oob d (Fin r)) = max 1 (nat \<lfloor>x\<rfloor>)"
    using f(1) by (simp add: next_difficulty_def Let_def word_less_nat_alt max_def not_less le_nat_iff)
  have "int (n div 4) = int n div 4" "int (4 * n) = 4 * int n" by (simp_all add: zdiv_int)
  then show "unat d div 4 \<le> unat (next_difficulty oob d (Fin r))" "unat (next_difficulty oob d (Fin r)) \<le> max 1 (4 * unat d)"
    using z unfolding nd nat_n by linarith+
qed

text \<open>What is adjusted, when the settings are in their ranges.\<close>

lemma adjustDifficulty_effect:
  assumes "adjustDifficulty v s = Inr s'" and "df_adjustInterval s \<le> int (length (df_blocks s))"
    and "0 < df_adjustInterval s" and "df_adjustInterval s \<le> 2 ^ 20" and "0 < df_targetBlockTime s" and "df_targetBlockTime s \<le> 2 ^ 20"
  defines "b \<equiv> df_blocks s ! nat (int (length (df_blocks s)) - df_adjustInterval s)"
  defines "actual \<equiv> duration_seconds (time_sub (Some (db_Timestamp (last (df_blocks s)))) (Some (db_Timestamp b)))"
  defines "e \<equiv> of_int (df_adjustInterval s * df_targetBlockTime s)"
  shows "df_currentDiff s' = next_difficulty (de_u64 v) (df_currentDiff s) (difficulty_ratio (Fin e) actual)" "0 < e" "actual \<noteq> NaN"
proof -
  have le: "df_adjustInterval s * df_targetBlockTime s \<le> 2 ^ 20 * 2 ^ 20" using assms(3-6) by (intro mult_mono) simp_all
  then have "f64_mul (f64_of_int (df_adjustInterval s)) (f64_of_int (df_targetBlockTime s)) = Fin e"
    using assms(3-6) f64_round_int [of "df_adjustInterval s * df_targetBlockTime s"] by (simp add: f64_of_int_small e_def)
  then show "df_currentDiff s' = next_difficulty (de_u64 v) (df_currentDiff s) (difficulty_ratio (Fin e) actual)"
    using assms(1-3) by (auto simp: adjustDifficulty_def Let_def go_bind_eq_Inr go_index_def dfcall_def b_def actual_def not_less split: if_splits)
  show "0 < e" using assms(3,5) by (simp add: e_def)
  show "actual \<noteq> NaN" unfolding actual_def by (rule duration_seconds_not_NaN) (auto simp: time_sub_def)
qed

text \<open>
  With an interval and a target of at most \<open>2 ^ 20\<close> and a difficulty of at most \<open>2 ^ 51\<close>, an adjustment
  neither divides the difficulty by more than four nor multiplies it by more, whatever times the blocks
  have, and it stays positive.
\<close>

theorem Difficulty_step_bounded:
  assumes "adjustDifficulty v s = Inr s'" and "df_adjustInterval s \<le> int (length (df_blocks s))"
    and "0 < df_adjustInterval s" and "df_adjustInterval s \<le> 2 ^ 20" and "0 < df_targetBlockTime s" and "df_targetBlockTime s \<le> 2 ^ 20"
    and "unat (df_currentDiff s) \<le> 2 ^ 51"
  shows "unat (df_currentDiff s) div 4 \<le> unat (df_currentDiff s') \<and> unat (df_currentDiff s') \<le> max 1 (4 * unat (df_currentDiff s)) \<and>
    0 < unat (df_currentDiff s')"
proof -
  note e = adjustDifficulty_effect [OF assms(1-6)]
  obtain r where r: "df_currentDiff s' = next_difficulty (de_u64 v) (df_currentDiff s) (Fin r)" "1 / 4 \<le> r" "r \<le> 4"
    using e(1) difficulty_ratio_range [OF e(2,3)] by metis
  have "0 < unat (next_difficulty oob d x)" for oob d x
    by (simp add: next_difficulty_def Let_def word_less_nat_alt not_less)
  then show ?thesis using next_difficulty_bounds [OF assms(7) r(2,3)] by (simp add: r(1))
qed

text \<open>Ten blocks of one second each, with a target of ten seconds.\<close>

definition fast_blocks :: DifficultySimulator where
  "fast_blocks = NewDifficultySimulator\<lparr>df_blocks := map (\<lambda>i. \<lparr>db_Height = of_nat i, db_Difficulty = 1000, db_Timestamp = int i * second,
     db_BlockTime = 1\<rparr>) [0..<10]\<rparr>"

theorem Difficulty_step_bounded_witness:
  "\<exists>s'. adjustDifficulty \<lparr>de_u64 = 0, de_int = 0, de_stamp = \<lambda>_. []\<rparr> fast_blocks = Inr s' \<and> 250 \<le> unat (df_currentDiff s') \<and> unat (df_currentDiff s') \<le> 4000"
proof -
  have "df_blocks fast_blocks \<noteq> []" "length (df_blocks fast_blocks) = 10" "df_adjustInterval fast_blocks = 10" "df_targetBlockTime fast_blocks = 10"
    "unat (df_currentDiff fast_blocks) = 1000" by (simp_all add: fast_blocks_def NewDifficultySimulator_def)
  moreover from this obtain s' where "adjustDifficulty \<lparr>de_u64 = 0, de_int = 0, de_stamp = \<lambda>_. []\<rparr> fast_blocks = Inr s'"
    by (simp add: adjustDifficulty_def Let_def go_bind_def go_index_def)
  ultimately show ?thesis using Difficulty_step_bounded [of _ fast_blocks s'] by (intro exI [of _ s']) simp
qed

text \<open>
  When the difficulty is adjusted after every block, the block is compared with itself: no time has
  passed, and the difficulty is multiplied by four, whatever times the blocks take.
\<close>

theorem Difficulty_every_block:
  assumes "adjustDifficulty v s = Inr s'" and "df_blocks s \<noteq> []" and "df_adjustInterval s = 1"
    and "0 < df_targetBlockTime s" and "df_targetBlockTime s \<le> 2 ^ 20" and "0 < unat (df_currentDiff s)" and "unat (df_currentDiff s) \<le> 2 ^ 51"
  shows "unat (df_currentDiff s') = 4 * unat (df_currentDiff s)"
proof -
  let ?n = "length (df_blocks s)" and ?d = "df_currentDiff s"
  have n: "nat (int ?n - 1) = ?n - 1" "1 \<le> int ?n" using assms(2) by (cases "df_blocks s"; simp)+
  note e = adjustDifficulty_effect [OF assms(1), unfolded assms(3), OF n(2) _ _ assms(4,5)]
  have "df_blocks s ! nat (int ?n - 1) = last (df_blocks s)" using assms(2) by (simp add: n(1) last_conv_nth)
  then have "duration_seconds (time_sub (Some (db_Timestamp (last (df_blocks s)))) (Some (db_Timestamp (df_blocks s ! nat (int ?n - 1))))) = Fin 0"
    by (simp add: time_sub_def duration_seconds_def quo_def rem_def f64_of_int_small f64_round_def)
  then have d: "df_currentDiff s' = next_difficulty (de_u64 v) ?d (Fin 4)"
    using e(1,2) by (simp add: difficulty_ratio_def f64_inf_def f64_min_def f64_max_def)
  have "int (unat ?d) \<le> 2 ^ 51" using assms(7) by (simp only: of_nat_le_numeral_power_cancel_iff)
  moreover obtain n where n: "uint ?d = int n" "unat ?d = n" by (simp add: uint_nat)
  ultimately have u: "int n \<le> 2 ^ 51" by simp
  then have "f64_mul (f64_of_int (uint ?d)) (Fin 4) = Fin (of_int (4 * int n))"
    using f64_round_int [of "4 * int n"] by (simp add: n f64_of_int_small mult.commute)
  moreover have "(of_int (4 * int n) :: rat) < of_int (2 ^ 64)" using u by (simp only: of_int_less_iff) simp
  moreover have "\<lfloor>4 * (of_nat n :: rat)\<rfloor> = 4 * int n" using floor_of_int [of "4 * int n", where 'a = rat] by simp
  ultimately have "f64_to_u64 (de_u64 v) (f64_mul (f64_of_int (uint ?d)) (Fin 4)) = of_int (4 * int n)"
    by (auto simp: f64_to_u64_def)
  moreover have "unat (of_int (4 * int n) :: u64) = 4 * n" using u by (subst unat_of_int_u64) simp_all
  ultimately show ?thesis using assms(6) by (simp add: d n(2) next_difficulty_def Let_def word_less_nat_alt)
qed

subsection \<open>The meter\<close>

lemma gscall_keeps [simp]:
  "gs_operations (gscall c s) = gs_operations s" "gs_gasPrice (gscall c s) = gs_gasPrice s"
  "gs_gasLimit (gscall c s) = gs_gasLimit s" "gs_gasUsed (gscall c s) = gs_gasUsed s"
  "gs_execHistory (gscall c s) = gs_execHistory s"
  by (simp_all add: gscall_def)

lemma gscall_fold [simp]:
  "gs_operations (fold gscall cs s) = gs_operations s" "gs_gasPrice (fold gscall cs s) = gs_gasPrice s"
  "gs_gasLimit (fold gscall cs s) = gs_gasLimit s" "gs_gasUsed (fold gscall cs s) = gs_gasUsed s"
  "gs_execHistory (fold gscall cs s) = gs_execHistory s"
  by (induction cs arbitrary: s) (simp_all add: gscall_def)

lemma Gas_updateState_keeps [simp]:
  "gs_operations (Gas_updateState s) = gs_operations s" "gs_gasPrice (Gas_updateState s) = gs_gasPrice s"
  "gs_gasLimit (Gas_updateState s) = gs_gasLimit s" "gs_gasUsed (Gas_updateState s) = gs_gasUsed s"
  "gs_execHistory (Gas_updateState s) = gs_execHistory s"
  by (simp_all add: Gas_updateState_def del: fold_simps)

definition gas_of_entry :: "gval \<Rightarrow> int" where
  "gas_of_entry e = (case e of GMap kvs \<Rightarrow> (case map_of kvs ''gas_cost'' of Some (GInt c) \<Rightarrow> c | _ \<Rightarrow> 0) | _ \<Rightarrow> 0)"

text \<open>The meter shows the sum of the history and is within the limit, which leaves room for one more operation.\<close>

definition gas_ok :: "GasSimulator \<Rightarrow> bool" where
  "gas_ok s \<longleftrightarrow> gs_operations s = gas_operations \<and> unat (gs_gasUsed s) \<le> unat (gs_gasLimit s) \<and> unat (gs_gasLimit s) + 32000 < 2 ^ 64 \<and>
     uint (gs_gasUsed s) = sum_list (map gas_of_entry (gs_execHistory s))"

lemma gas_cost_bound: "go_get gas_operations name = Some op \<Longrightarrow> unat (gp_GasCost op) \<le> 32000"
  by (auto simp: gas_operations_def go_get_def split: if_splits)

text \<open>
  From such a state any sequence of operations leads to such a state; an operation that is known is
  refused just when it would exceed the limit, and then it changes nothing.
\<close>

lemma gas_add:
  assumes "gas_ok s" and "go_get (gs_operations s) name = Some op"
  shows "unat (gs_gasUsed s + gp_GasCost op) = unat (gs_gasUsed s) + unat (gp_GasCost op)"
proof -
  have "unat (gs_gasUsed s) + unat (gp_GasCost op) < 2 ^ 64" using assms gas_cost_bound [of name op] by (auto simp: gas_ok_def)
  then show ?thesis by (simp add: unat_word_ariths)
qed

lemma ExecuteOperation_gas_ok:
  assumes "gas_ok s"
  shows "gas_ok (snd (ExecuteOperation name s))"
proof (cases "go_get (gs_operations s) name")
  case None then show ?thesis using assms by (simp add: ExecuteOperation_def)
next
  case (Some op)
  note a = gas_add [OF assms Some]
  show ?thesis
  proof (cases "gs_gasLimit s < gs_gasUsed s + gp_GasCost op")
    case True then show ?thesis using assms Some by (simp add: ExecuteOperation_def gas_ok_def)
  next
    case False
    have "uint (gs_gasUsed s + gp_GasCost op) = uint (gs_gasUsed s) + uint (gp_GasCost op)"
      by (metis a of_nat_add uint_nat)
    then show ?thesis using assms Some False a
      by (auto simp: ExecuteOperation_def gas_ok_def Let_def word_less_nat_alt gas_of_entry_def history_entry_def)
  qed
qed

theorem Gas_meter:
  assumes "gas_ok s"
  shows "gas_ok (fold (\<lambda>name s. snd (ExecuteOperation name s)) names s) \<and>
    (\<forall>op. go_get gas_operations name = Some op \<longrightarrow>
       (fst (ExecuteOperation name s) = Some OutOfGas \<longleftrightarrow> unat (gs_gasLimit s) < unat (gs_gasUsed s) + unat (gp_GasCost op)) \<and>
       (fst (ExecuteOperation name s) \<noteq> None \<longrightarrow> gs_gasUsed (snd (ExecuteOperation name s)) = gs_gasUsed s))"
proof
  show "gas_ok (fold (\<lambda>name s. snd (ExecuteOperation name s)) names s)"
    using assms by (induction names arbitrary: s) (simp_all add: ExecuteOperation_gas_ok)
  have "gs_operations s = gas_operations" using assms by (simp add: gas_ok_def)
  then show "\<forall>op. go_get gas_operations name = Some op \<longrightarrow>
       (fst (ExecuteOperation name s) = Some OutOfGas \<longleftrightarrow> unat (gs_gasLimit s) < unat (gs_gasUsed s) + unat (gp_GasCost op)) \<and>
       (fst (ExecuteOperation name s) \<noteq> None \<longrightarrow> gs_gasUsed (snd (ExecuteOperation name s)) = gs_gasUsed s)"
    using gas_add [OF assms, of name] by (auto simp: ExecuteOperation_def Let_def word_less_nat_alt)
qed

theorem Gas_meter_witness:
  "gas_ok (fold (\<lambda>name s. snd (ExecuteOperation name s)) [''SSTORE'', ''CREATE'', ''TRANSFER'', ''CREATE''] (Gas_Reset (Gas_Init 0 [] NewGasSimulator)))"
proof -
  have "gas_ok (Gas_Reset (Gas_Init 0 [] NewGasSimulator))"
    by (simp add: gas_ok_def Gas_Reset_def Gas_Init_def u64_param_def NewGasSimulator_def)
  then show ?thesis by (rule conjunct1 [OF Gas_meter])
qed

text \<open>A new initialisation can lower the limit below what has been used; what remains then wraps around.\<close>

lemma Gas_Init_keeps_usage: "gs_gasUsed (Gas_Init oob params s) = gs_gasUsed s"
  by (simp add: Gas_Init_def)

end
