(* ===== verification/Accounts.thy ===== *)
theory Accounts
  imports SimText
begin

section \<open>Accounts: \<open>wallet.go\<close>, \<open>transaction.go\<close>, \<open>state_trie.go\<close> of \<open>simulations/modules/blockchain\<close>\<close>

text \<open>
  A wallet with keys and balances, signed transactions that pay gas, and a tree of accounts.  SHA-256, a
  generated pair of keys and the order in which a map is met are arguments.
\<close>

subsection \<open>The wallet\<close>

record WalletAccount =
  wa_Name :: string
  wa_Address :: string
  wa_PublicKey :: string
  wa_PrivateKey :: string
  wa_Balance :: u64

record WalletSimulator =
  ws_accounts :: "(string, WalletAccount) gomap"
  ws_calls :: "base_call list"

datatype wallet_err = KeyError | NoAccount | LowBalance | UnsupportedWalletAction string

definition wcall :: "base_call \<Rightarrow> WalletSimulator \<Rightarrow> WalletSimulator" where
  "wcall c s = s\<lparr>ws_calls := ws_calls s @ [c]\<rparr>"

definition NewWalletSimulator :: WalletSimulator where
  "NewWalletSimulator = \<lparr>ws_accounts = [], ws_calls = []\<rparr>"

definition show_account :: "WalletAccount \<Rightarrow> gval" where
  "show_account a = GMap [(''name'', GStr (wa_Name a)), (''address'', GStr (wa_Address a)), (''balance'', GInt (uint (wa_Balance a)))]"

definition Wallet_updateState :: "string list \<Rightarrow> WalletSimulator \<Rightarrow> WalletSimulator" where
  "Wallet_updateState ord s =
     fold wcall
       [CallGlobal ''accounts'' (GList (map show_account (List.map_filter (go_get (ws_accounts s)) ord))),
        CallGlobal ''account_count'' (GInt (int (length (ws_accounts s)))),
        CallTeaching (byte_text [229, 135, 134, 229, 164, 135, 233, 146, 177, 229, 140, 133]) (lit (45 / 100))
          [(''account_count'', GInt (int (length (ws_accounts s))))]] s"

text \<open>The keys, private and public, are those the library generates; there may be none.\<close>

definition CreateAccount ::
  "(byte list \<Rightarrow> byte list) \<Rightarrow> string list \<Rightarrow> (byte list \<times> byte list) option \<Rightarrow> string \<Rightarrow> WalletSimulator \<Rightarrow>
   (wallet_err + WalletAccount) \<times> WalletSimulator" where
  "CreateAccount sha ord keys name s =
     (case keys of
        None \<Rightarrow> (Inl KeyError, s)
      | Some (priv, pub) \<Rightarrow>
          let a = \<lparr>wa_Name = name, wa_Address = ''0x'' @ hex_encode (take 20 (sha pub)), wa_PublicKey = hex_encode pub,
                wa_PrivateKey = hex_encode priv, wa_Balance = 0\<rparr>
          in (Inr a, Wallet_updateState ord (wcall (CallEmit ''account_created'' [] [] (Some [(''name'', GStr name),
               (''address'', GStr (wa_Address a))])) (s\<lparr>ws_accounts := go_put name a (ws_accounts s)\<rparr>))))"

text \<open>\<open>s.accounts[name].Balance = v\<close>\<close>

definition set_balance :: "string \<Rightarrow> u64 \<Rightarrow> WalletSimulator \<Rightarrow> WalletSimulator go" where
  "set_balance name v s =
     (case go_get (ws_accounts s) name of
        None \<Rightarrow> Inl NilDeref
      | Some a \<Rightarrow> Inr (s\<lparr>ws_accounts := go_put name (a\<lparr>wa_Balance := v\<rparr>) (ws_accounts s)\<rparr>))"

definition Wallet_Init ::
  "(byte list \<Rightarrow> byte list) \<Rightarrow> string list \<Rightarrow> (byte list \<times> byte list) option \<Rightarrow> (byte list \<times> byte list) option \<Rightarrow> WalletSimulator \<Rightarrow>
   WalletSimulator go" where
  "Wallet_Init sha ord k1 k2 s =
     (let s = snd (CreateAccount sha ord k1 ''alice'' s); s = snd (CreateAccount sha ord k2 ''bob'' s)
      in go_bind (set_balance ''alice'' 1000 s) (\<lambda>s. go_bind (set_balance ''bob'' 500 s) (\<lambda>s. Inr (Wallet_updateState ord s))))"

definition wallet_signature :: "(byte list \<Rightarrow> byte list) \<Rightarrow> WalletAccount \<Rightarrow> string \<Rightarrow> string" where
  "wallet_signature sha a msg = hex_encode (sha (sha (str_bytes msg) @ fst (hex_decode (wa_PrivateKey a))))"

definition SignMessage ::
  "(byte list \<Rightarrow> byte list) \<Rightarrow> string \<Rightarrow> string \<Rightarrow> WalletSimulator \<Rightarrow> (wallet_err + string) \<times> WalletSimulator" where
  "SignMessage sha name msg s =
     (case go_get (ws_accounts s) name of
        None \<Rightarrow> (Inl NoAccount, s)
      | Some a \<Rightarrow> (Inr (wallet_signature sha a msg), wcall (CallEmit ''message_signed'' [] [] (Some [(''account'', GStr name),
          (''message_hash'', GStr (hex_encode (take 16 (sha (str_bytes msg)))))])) s))"

definition VerifySignature ::
  "(byte list \<Rightarrow> byte list) \<Rightarrow> string \<Rightarrow> string \<Rightarrow> string \<Rightarrow> WalletSimulator \<Rightarrow> bool \<times> WalletSimulator" where
  "VerifySignature sha name msg sig s =
     (case go_get (ws_accounts s) name of
        None \<Rightarrow> (False, s)
      | Some a \<Rightarrow>
          let valid = (sig = wallet_signature sha a msg)
          in (valid, wcall (CallEmit ''signature_verified'' [] [] (Some [(''account'', GStr name), (''valid'', GBool valid)])) s))"

text \<open>Both accounts may be the same object.\<close>

definition Wallet_Transfer :: "string list \<Rightarrow> string \<Rightarrow> string \<Rightarrow> u64 \<Rightarrow> WalletSimulator \<Rightarrow> (wallet_err option \<times> WalletSimulator) go" where
  "Wallet_Transfer ord from to amount s =
     (case (go_get (ws_accounts s) from, go_get (ws_accounts s) to) of
        (Some a, Some _) \<Rightarrow>
          if wa_Balance a < amount then Inr (Some LowBalance, s)
          else go_bind (set_balance from (wa_Balance a - amount) s) (\<lambda>s.
            case go_get (ws_accounts s) to of
              None \<Rightarrow> Inl NilDeref
            | Some b \<Rightarrow> go_bind (set_balance to (wa_Balance b + amount) s) (\<lambda>s.
                Inr (None, Wallet_updateState ord (wcall (CallEmit ''transfer'' [] [] (Some [(''from'', GStr from), (''to'', GStr to),
                  (''amount'', GInt (uint amount))])) s))))
      | _ \<Rightarrow> Inr (Some NoAccount, s))"

text \<open>A positive amount among the parameters.\<close>

definition positive_param :: "u64 \<Rightarrow> string \<Rightarrow> (string, gval) gomap \<Rightarrow> u64" where
  "positive_param oob key params =
     (case go_get params key of Some (GFloat x) \<Rightarrow> (if f64_less (Fin 0) x then f64_to_u64 oob x else 10) | _ \<Rightarrow> 10)"

definition Wallet_ExecuteAction ::
  "(byte list \<Rightarrow> byte list) \<Rightarrow> string list \<Rightarrow> u64 \<Rightarrow> (byte list \<times> byte list) option \<Rightarrow> string \<Rightarrow> (string, gval) gomap \<Rightarrow> WalletSimulator \<Rightarrow>
   ((wallet_err + WalletAccount option) \<times> WalletSimulator) go" where
  "Wallet_ExecuteAction sha ord oob keys action params s =
     (if action = ''create_account'' then
        let name = text_param ''name'' (''account-'' @ itoa (length (ws_accounts s) + 1)) params in
        (case CreateAccount sha ord keys name s of
           (Inl e, s) \<Rightarrow> Inr (Inl e, s)
         | (Inr a, s) \<Rightarrow> Inr (Inr (Some a), s))
      else if action = ''transfer'' then
        go_bind (Wallet_Transfer ord (text_param ''from'' ''alice'' params) (text_param ''to'' ''bob'' params)
            (positive_param oob ''amount'' params) s) (\<lambda>(e, s).
          case e of Some e \<Rightarrow> Inr (Inl e, s) | None \<Rightarrow> Inr (Inr None, s))
      else Inr (Inl (UnsupportedWalletAction action), s))"

subsection \<open>Transactions\<close>

record DemoTransaction =
  dt_Hash :: string
  dt_From :: string
  dt_To :: string
  dt_Value :: u64
  dt_Nonce :: u64
  dt_GasPrice :: u64
  dt_GasLimit :: u64
  dt_Data :: string
  dt_Signature :: string
  dt_Timestamp :: gtime

record TransactionSimulator =
  tz_transactions :: "DemoTransaction list"
  tz_accounts :: "(string, u64) gomap"
  tz_nonces :: "(string, u64) gomap"
  tz_calls :: "base_call list"

datatype tx_err = TxLowBalance | NotSigned | BadNonce | UnsupportedTxAction string

definition tzcall :: "base_call \<Rightarrow> TransactionSimulator \<Rightarrow> TransactionSimulator" where
  "tzcall c s = s\<lparr>tz_calls := tz_calls s @ [c]\<rparr>"

definition NewTransactionSimulator :: TransactionSimulator where
  "NewTransactionSimulator = \<lparr>tz_transactions = [], tz_accounts = [], tz_nonces = [], tz_calls = []\<rparr>"

text \<open>A missing entry counts as zero.\<close>

definition u64_at :: "(string, u64) gomap \<Rightarrow> string \<Rightarrow> u64" where
  "u64_at m k = (case go_get m k of None \<Rightarrow> 0 | Some v \<Rightarrow> v)"

definition u64_map :: "(string, u64) gomap \<Rightarrow> gval" where
  "u64_map m = GMap (map (\<lambda>(k, v). (k, GInt (uint v))) m)"

definition Tx_updateState :: "TransactionSimulator \<Rightarrow> TransactionSimulator" where
  "Tx_updateState s =
     fold tzcall
       [CallGlobal ''accounts'' (u64_map (tz_accounts s)), CallGlobal ''nonces'' (u64_map (tz_nonces s)),
        CallGlobal ''tx_count'' (GInt (int (length (tz_transactions s)))),
        CallTeaching (byte_text [229, 135, 134, 229, 164, 135, 228, 186, 164, 230, 152, 147]) (lit (45 / 100))
          [(''tx_count'', GInt (int (length (tz_transactions s)))), (''account_count'', GInt (int (length (tz_accounts s))))]] s"

definition Tx_Init :: "TransactionSimulator \<Rightarrow> TransactionSimulator" where
  "Tx_Init s = Tx_updateState (s\<lparr>tz_accounts := [(''alice'', 1000), (''bob'', 500), (''charlie'', 300)],
     tz_nonces := [(''alice'', 0), (''bob'', 0), (''charlie'', 0)]\<rparr>)"

definition tx_cost :: "DemoTransaction \<Rightarrow> u64" where
  "tx_cost tx = dt_Value tx + dt_GasPrice tx * dt_GasLimit tx"

definition Tx_computeTxHash :: "(byte list \<Rightarrow> byte list) \<Rightarrow> DemoTransaction \<Rightarrow> string" where
  "Tx_computeTxHash sha tx = hex_encode (sha (str_bytes (dt_From tx @ dt_To tx @ itoa (unat (dt_Value tx)) @ itoa (unat (dt_Nonce tx)) @
     itoa (unat (dt_GasPrice tx)) @ itoa (unat (dt_GasLimit tx)) @ dt_Data tx)))"

definition Tx_CreateTransaction ::
  "(byte list \<Rightarrow> byte list) \<Rightarrow> int \<Rightarrow> string \<Rightarrow> string \<Rightarrow> u64 \<Rightarrow> u64 \<Rightarrow> u64 \<Rightarrow> string \<Rightarrow> TransactionSimulator \<Rightarrow>
   ((tx_err + DemoTransaction) \<times> TransactionSimulator) go" where
  "Tx_CreateTransaction sha now from to amount gasPrice gasLimit data s =
     (let tx = \<lparr>dt_Hash = [], dt_From = from, dt_To = to, dt_Value = amount, dt_Nonce = u64_at (tz_nonces s) from, dt_GasPrice = gasPrice,
            dt_GasLimit = gasLimit, dt_Data = data, dt_Signature = [], dt_Timestamp = Some now\<rparr>;
          tx = tx\<lparr>dt_Hash := Tx_computeTxHash sha tx\<rparr>
      in if u64_at (tz_accounts s) from < amount + gasPrice * gasLimit then Inr (Inl TxLowBalance, s)
         else go_bind (go_slice (dt_Hash tx) 0 16) (\<lambda>h.
           Inr (Inr tx, tzcall (CallEmit ''tx_created'' [] [] (Some [(''hash'', GStr h), (''from'', GStr from), (''to'', GStr to),
             (''value'', GInt (uint amount))])) s)))"

definition Tx_SignTransaction ::
  "(byte list \<Rightarrow> byte list) \<Rightarrow> DemoTransaction \<Rightarrow> string \<Rightarrow> TransactionSimulator \<Rightarrow> (DemoTransaction \<times> TransactionSimulator) go" where
  "Tx_SignTransaction sha tx key s =
     (let tx = tx\<lparr>dt_Signature := hex_encode (sha (str_bytes (dt_Hash tx @ ''-'' @ key @ ''-'' @ dt_From tx)))\<rparr>
      in go_bind (go_slice (dt_Hash tx) 0 16) (\<lambda>h. go_bind (go_slice (dt_Signature tx) 0 16) (\<lambda>g.
           Inr (tx, tzcall (CallEmit ''tx_signed'' [] [] (Some [(''hash'', GStr h), (''signature'', GStr g)])) s))))"

definition Tx_ExecuteTransaction :: "DemoTransaction \<Rightarrow> TransactionSimulator \<Rightarrow> (tx_err option \<times> TransactionSimulator) go" where
  "Tx_ExecuteTransaction tx s =
     (if dt_Signature tx = [] then Inr (Some NotSigned, s)
      else if u64_at (tz_nonces s) (dt_From tx) \<noteq> dt_Nonce tx then Inr (Some BadNonce, s)
      else if u64_at (tz_accounts s) (dt_From tx) < tx_cost tx then Inr (Some TxLowBalance, s)
      else
        let m = go_put (dt_From tx) (u64_at (tz_accounts s) (dt_From tx) - tx_cost tx) (tz_accounts s);
            m = go_put (dt_To tx) (u64_at m (dt_To tx) + dt_Value tx) m;
            s = s\<lparr>tz_accounts := m, tz_nonces := go_put (dt_From tx) (u64_at (tz_nonces s) (dt_From tx) + 1) (tz_nonces s),
              tz_transactions := tz_transactions s @ [tx]\<rparr>
        in go_bind (go_slice (dt_Hash tx) 0 16) (\<lambda>h.
             Inr (None, Tx_updateState (tzcall (CallEmit ''tx_executed'' [] [] (Some [(''hash'', GStr h), (''from'', GStr (dt_From tx)),
               (''to'', GStr (dt_To tx)), (''value'', GInt (uint (dt_Value tx)))])) s))))"

definition Tx_ExecuteAction ::
  "(byte list \<Rightarrow> byte list) \<Rightarrow> u64 \<Rightarrow> int \<Rightarrow> string \<Rightarrow> (string, gval) gomap \<Rightarrow> TransactionSimulator \<Rightarrow>
   ((tx_err + DemoTransaction) \<times> TransactionSimulator) go" where
  "Tx_ExecuteAction sha oob now action params s =
     (if action = ''create_transaction'' then
        let from = text_param ''from'' ''alice'' params; to = text_param ''to'' ''bob'' params; amount = positive_param oob ''value'' params in
        go_bind (Tx_CreateTransaction sha now from to amount 1 21000 [] s) (\<lambda>(r, s).
          case r of
            Inl e \<Rightarrow> Inr (Inl e, s)
          | Inr tx \<Rightarrow> go_bind (Tx_SignTransaction sha tx (from @ ''-private-key'') s) (\<lambda>(tx, s).
              go_bind (Tx_ExecuteTransaction tx s) (\<lambda>(e, s).
                case e of Some e \<Rightarrow> Inr (Inl e, s) | None \<Rightarrow> Inr (Inr tx, s))))
      else Inr (Inl (UnsupportedTxAction action), s))"

subsection \<open>The tree of accounts\<close>

record TrieAccount =
  ta_balance :: u64
  ta_nonce :: u64
  ta_codeHash :: string

datatype TrieNode = TrieNode (tn_Hash: string) (tn_Type: string) (tn_Key: string) (tn_Value: "TrieAccount option")
  (tn_Children: "(string \<times> TrieNode) list")

record StateTrieSimulator =
  st_root :: "TrieNode option"
  st_accounts :: "(string, TrieAccount) gomap"
  st_calls :: "base_call list"

datatype trie_err = UnsupportedTrieAction string

definition trcall :: "base_call \<Rightarrow> StateTrieSimulator \<Rightarrow> StateTrieSimulator" where
  "trcall c s = s\<lparr>st_calls := st_calls s @ [c]\<rparr>"

definition NewStateTrieSimulator :: StateTrieSimulator where
  "NewStateTrieSimulator = \<lparr>st_root = None, st_accounts = [], st_calls = []\<rparr>"

text \<open>The text of a value under \<open>%v\<close>; the keys of a map are sorted.\<close>

definition value_text :: "TrieAccount option \<Rightarrow> string" where
  "value_text v =
     (case v of
        None \<Rightarrow> ''<nil>''
      | Some a \<Rightarrow> ''map[balance:'' @ itoa (unat (ta_balance a)) @ '' codeHash:'' @ ta_codeHash a @ '' nonce:'' @ itoa (unat (ta_nonce a)) @
          '' storageRoot:]'')"

definition hashNode :: "(byte list \<Rightarrow> byte list) \<Rightarrow> TrieNode \<Rightarrow> string" where
  "hashNode sha n = hex_encode (take 16 (sha (str_bytes (tn_Type n @ ''-'' @ tn_Key n @ ''-'' @ value_text (tn_Value n)))))"

definition with_hash :: "(byte list \<Rightarrow> byte list) \<Rightarrow> TrieNode \<Rightarrow> TrieNode" where
  "with_hash sha n = TrieNode (hashNode sha n) (tn_Type n) (tn_Key n) (tn_Value n) (tn_Children n)"

definition insertToTrie ::
  "(byte list \<Rightarrow> byte list) \<Rightarrow> string \<Rightarrow> TrieAccount \<Rightarrow> StateTrieSimulator \<Rightarrow> StateTrieSimulator go" where
  "insertToTrie sha key a s =
     (case st_root s of
        None \<Rightarrow> Inl NilDeref
      | Some r \<Rightarrow> go_bind (go_slice key 0 4) (\<lambda>k.
          let leaf = with_hash sha (TrieNode [] ''leaf'' key (Some a) [])
          in Inr (s\<lparr>st_root := Some (with_hash sha (TrieNode (tn_Hash r) (tn_Type r) (tn_Key r) (tn_Value r) (go_put k leaf (tn_Children r))))\<rparr>)))"

definition show_trie_account :: "TrieAccount \<Rightarrow> gval" where
  "show_trie_account a = GMap [(''balance'', GInt (uint (ta_balance a))), (''nonce'', GInt (uint (ta_nonce a))),
     (''codeHash'', GStr (ta_codeHash a)), (''storageRoot'', GStr [])]"

definition trie_root_hash :: "StateTrieSimulator \<Rightarrow> string" where
  "trie_root_hash s = (case st_root s of None \<Rightarrow> [] | Some r \<Rightarrow> tn_Hash r)"

definition Trie_updateState :: "StateTrieSimulator \<Rightarrow> StateTrieSimulator" where
  "Trie_updateState s =
     fold trcall
       [CallGlobal ''root_hash'' (GStr (trie_root_hash s)), CallGlobal ''account_count'' (GInt (int (length (st_accounts s)))),
        CallGlobal ''accounts'' (GMap (map (\<lambda>(k, a). (k, show_trie_account a)) (st_accounts s))),
        CallTeaching (byte_text [229, 135, 134, 229, 164, 135, 231, 138, 182, 230, 128, 129, 230, 160, 145]) (lit (45 / 100))
          [(''account_count'', GInt (int (length (st_accounts s)))), (''root_hash'', GStr (trie_root_hash s))]] s"

definition SetAccount ::
  "(byte list \<Rightarrow> byte list) \<Rightarrow> string \<Rightarrow> u64 \<Rightarrow> u64 \<Rightarrow> string \<Rightarrow> StateTrieSimulator \<Rightarrow> StateTrieSimulator go" where
  "SetAccount sha addr balance nonce codeHash s =
     (let a = \<lparr>ta_balance = balance, ta_nonce = nonce, ta_codeHash = codeHash\<rparr>;
          s = s\<lparr>st_accounts := go_put addr a (st_accounts s)\<rparr>
      in go_bind (insertToTrie sha addr a s) (\<lambda>s. Inr (Trie_updateState (trcall (CallEmit ''account_set'' [] []
           (Some [(''address'', GStr addr), (''balance'', GInt (uint balance))])) s))))"

definition Trie_GetAccount :: "string \<Rightarrow> StateTrieSimulator \<Rightarrow> TrieAccount option" where
  "Trie_GetAccount addr s = go_get (st_accounts s) addr"

definition Trie_Init :: "(byte list \<Rightarrow> byte list) \<Rightarrow> StateTrieSimulator \<Rightarrow> StateTrieSimulator go" where
  "Trie_Init sha s =
     (let s = s\<lparr>st_root := Some (TrieNode [] ''branch'' [] None [])\<rparr>
      in go_bind (SetAccount sha ''0x1234'' 1000 0 [] s) (SetAccount sha ''0x5678'' 500 0 []))"

definition Trie_ExecuteAction ::
  "(byte list \<Rightarrow> byte list) \<Rightarrow> u64 \<Rightarrow> string \<Rightarrow> (string, gval) gomap \<Rightarrow> StateTrieSimulator \<Rightarrow>
   ((trie_err + string \<times> u64) \<times> StateTrieSimulator) go" where
  "Trie_ExecuteAction sha oob action params s =
     (if action = ''set_account'' then
        let addr = text_param ''address'' ''0x9999'' params;
            balance = (case go_get params ''balance'' of Some (GFloat x) \<Rightarrow> (if f64_le (Fin 0) x then f64_to_u64 oob x else 100) | _ \<Rightarrow> 100)
        in go_bind (SetAccount sha addr balance 0 [] s) (\<lambda>s. Inr (Inr (addr, balance), s))
      else Inr (Inl (UnsupportedTrieAction action), s))"

end
