(* ===== verification/AccountsFacts.thy ===== *)
theory AccountsFacts
  imports Accounts
begin

section \<open>Accounts: properties\<close>

text \<open>
  A transfer of the wallet moves value and keeps the total; a signature fits its message unless the hash
  collides.  A transaction is executed once, and what it costs can wrap around.  The root of the tree of
  accounts never changes.
\<close>

subsection \<open>The wallet\<close>

lemma sum_go_put:
  "go_get m k = Some old \<Longrightarrow> f old + sum_list (map (\<lambda>(k, x). f x) (go_put k v m)) = f v + sum_list (map (\<lambda>(k, x). (f x :: 'b :: comm_monoid_add)) m)"
  by (induction m) (auto simp: go_get_def go_put_def add_ac split: if_splits)

definition wallet_total :: "WalletSimulator \<Rightarrow> u64" where
  "wallet_total s = sum_list (map (\<lambda>(k, a). wa_Balance a) (ws_accounts s))"

lemma fold_wcall [simp]: "ws_accounts (fold wcall cs s) = ws_accounts s"
  by (induction cs arbitrary: s) (simp_all add: wcall_def)

lemma wcall_keeps [simp]: "ws_accounts (wcall c s) = ws_accounts s"
  by (simp add: wcall_def)

lemma Wallet_updateState_keeps [simp]: "ws_accounts (Wallet_updateState ord s) = ws_accounts s"
  by (simp add: Wallet_updateState_def)

lemma set_balance_total:
  assumes "set_balance k v s = Inr s'" and "go_get (ws_accounts s) k = Some a"
  shows "wallet_total s' = wallet_total s - wa_Balance a + v"
    "ws_accounts s' = go_put k (a\<lparr>wa_Balance := v\<rparr>) (ws_accounts s)"
proof -
  show p: "ws_accounts s' = go_put k (a\<lparr>wa_Balance := v\<rparr>) (ws_accounts s)" using assms by (auto simp: set_balance_def)
  show "wallet_total s' = wallet_total s - wa_Balance a + v"
    using sum_go_put [OF assms(2), of wa_Balance "a\<lparr>wa_Balance := v\<rparr>"] unfolding wallet_total_def p by (simp add: algebra_simps)
qed

text \<open>
  A transfer never panics.  It succeeds just when both accounts are there and the first one has the
  amount; then the sender's balance falls by the amount and the receiver's grows by it, unless they are
  the same account, which then keeps its balance.  The total, as the 64-bit number that it is, stays the
  same, and a transfer that fails changes nothing.
\<close>

theorem Wallet_transfer:
  "\<exists>e s'. Wallet_Transfer ord from to amount s = Inr (e, s') \<and> wallet_total s' = wallet_total s \<and> (e \<noteq> None \<longrightarrow> s' = s) \<and>
     (e = None \<longleftrightarrow> (\<exists>a b. go_get (ws_accounts s) from = Some a \<and> go_get (ws_accounts s) to = Some b \<and> amount \<le> wa_Balance a)) \<and>
     (\<forall>a b. e = None \<and> go_get (ws_accounts s) from = Some a \<and> go_get (ws_accounts s) to = Some b \<longrightarrow>
        map_option wa_Balance (go_get (ws_accounts s') from) = Some (if from = to then wa_Balance a else wa_Balance a - amount) \<and>
        map_option wa_Balance (go_get (ws_accounts s') to) = Some (if from = to then wa_Balance a else wa_Balance b + amount))"
proof (cases "\<exists>a b. go_get (ws_accounts s) from = Some a \<and> go_get (ws_accounts s) to = Some b \<and> amount \<le> wa_Balance a")
  case False
  then show ?thesis by (auto simp: Wallet_Transfer_def not_le split: option.splits)
next
  case True
  then obtain a b where a: "go_get (ws_accounts s) from = Some a" "go_get (ws_accounts s) to = Some b" "amount \<le> wa_Balance a" by blast
  obtain s1 where s1: "set_balance from (wa_Balance a - amount) s = Inr s1" using a(1) by (simp add: set_balance_def)
  note t1 = set_balance_total [OF s1 a(1)]
  let ?b = "if from = to then a\<lparr>wa_Balance := wa_Balance a - amount\<rparr> else b"
  have b: "go_get (ws_accounts s1) to = Some ?b" using a(2) by (simp add: t1(2))
  obtain s2 where s2: "set_balance to (wa_Balance ?b + amount) s1 = Inr s2" using b by (simp add: set_balance_def)
  note t2 = set_balance_total [OF s2 b]
  have "\<not> wa_Balance a < amount" using a(3) by simp
  then have r: "Wallet_Transfer ord from to amount s = Inr (None, Wallet_updateState ord (wcall (CallEmit ''transfer'' [] [] (Some [(''from'', GStr from), (''to'', GStr to),
                  (''amount'', GInt (uint amount))])) s2))"
    using a(1,2) s1 b s2 by (simp add: Wallet_Transfer_def go_bind_def)
  have "wallet_total s2 = wallet_total s" using t1(1) t2(1) by simp
  then show ?thesis unfolding r using a by (auto simp: wallet_total_def t2(2) t1(2))
qed

lemma unat_of_char_byte: "unat (of_char c :: byte) = of_char c"
proof -
  have "unat (of_nat (of_char c :: nat) :: byte) = of_char c" by (simp only: unat_of_nat) (simp add: take_bit_eq_mod)
  then show ?thesis by (simp only: of_nat_of_char)
qed

lemma str_bytes_inj: "str_bytes x = str_bytes y \<longleftrightarrow> x = y"
proof
  assume "str_bytes x = str_bytes y"
  then show "x = y"
  proof (induction x arbitrary: y)
    case (Cons c x)
    then obtain d z where y: "y = d # z" "(of_char c :: byte) = of_char d" "str_bytes x = str_bytes z" by (cases y) (auto simp: str_bytes_def)
    have "of_char c = (of_char d :: nat)" using arg_cong [OF y(2), where f = unat] by (simp add: unat_of_char_byte)
    then show ?case using Cons.IH [OF y(3)] y(1) by simp
  qed (auto simp: str_bytes_def)
qed simp

text \<open>
  What an account has signed is accepted; and a signature that is accepted for two messages of one account
  shows two inputs with the same hash.
\<close>

theorem Wallet_signature:
  "(\<forall>sig. fst (SignMessage sha name msg s) = Inr sig \<longrightarrow> fst (VerifySignature sha name msg sig s)) \<and>
   (fst (VerifySignature sha name msg sig s) \<and> fst (VerifySignature sha name msg' sig s) \<and> msg \<noteq> msg' \<longrightarrow>
     (\<exists>x y. x \<noteq> y \<and> length (sha x) = length (sha y) \<and> sha x = sha y))"
proof
  show "\<forall>sig. fst (SignMessage sha name msg s) = Inr sig \<longrightarrow> fst (VerifySignature sha name msg sig s)"
    by (auto simp: SignMessage_def VerifySignature_def Let_def split: option.splits)
  show "fst (VerifySignature sha name msg sig s) \<and> fst (VerifySignature sha name msg' sig s) \<and> msg \<noteq> msg' \<longrightarrow>
     (\<exists>x y. x \<noteq> y \<and> length (sha x) = length (sha y) \<and> sha x = sha y)"
  proof
    assume v: "fst (VerifySignature sha name msg sig s) \<and> fst (VerifySignature sha name msg' sig s) \<and> msg \<noteq> msg'"
    then obtain a where "wallet_signature sha a msg = wallet_signature sha a msg'"
      by (auto simp: VerifySignature_def Let_def split: option.splits)
    then have h: "sha (sha (str_bytes msg) @ p) = sha (sha (str_bytes msg') @ p)" if "p = fst (hex_decode (wa_PrivateKey a))" for p
      using that arg_cong [of _ _ hex_decode] unfolding wallet_signature_def by (metis fst_conv hex_decode_encode)
    show "\<exists>x y. x \<noteq> y \<and> length (sha x) = length (sha y) \<and> sha x = sha y"
    proof (cases "sha (str_bytes msg) = sha (str_bytes msg')")
      case True then show ?thesis using v str_bytes_inj by metis
    next
      case False then show ?thesis using h [OF refl] by (metis append_same_eq)
    qed
  qed
qed

subsection \<open>Transactions\<close>

lemma fold_tzcall [simp]:
  "tz_accounts (fold tzcall cs s) = tz_accounts s" "tz_nonces (fold tzcall cs s) = tz_nonces s" "tz_transactions (fold tzcall cs s) = tz_transactions s"
  by (induction cs arbitrary: s) (simp_all add: tzcall_def)

lemma tzcall_keeps [simp]:
  "tz_accounts (tzcall c s) = tz_accounts s" "tz_nonces (tzcall c s) = tz_nonces s" "tz_transactions (tzcall c s) = tz_transactions s"
  by (simp_all add: tzcall_def)

lemma Tx_updateState_keeps [simp]:
  "tz_accounts (Tx_updateState s) = tz_accounts s" "tz_nonces (Tx_updateState s) = tz_nonces s" "tz_transactions (Tx_updateState s) = tz_transactions s"
  by (simp_all add: Tx_updateState_def del: fold_simps)

lemma u64_at_put [simp]: "u64_at (go_put k v m) j = (if j = k then v else u64_at m j)"
  by (simp add: u64_at_def)

lemma Tx_ExecuteTransaction_effect:
  assumes "Tx_ExecuteTransaction tx s = Inr (None, s')"
  shows "dt_Signature tx \<noteq> []" "u64_at (tz_nonces s) (dt_From tx) = dt_Nonce tx" "tx_cost tx \<le> u64_at (tz_accounts s) (dt_From tx)"
    "tz_nonces s' = go_put (dt_From tx) (dt_Nonce tx + 1) (tz_nonces s)" "tz_transactions s' = tz_transactions s @ [tx]"
    "dt_From tx \<noteq> dt_To tx \<Longrightarrow> u64_at (tz_accounts s') k =
       (if k = dt_From tx then u64_at (tz_accounts s) k - tx_cost tx else if k = dt_To tx then u64_at (tz_accounts s) k + dt_Value tx
        else u64_at (tz_accounts s) k)"
    "dt_From tx = dt_To tx \<Longrightarrow> u64_at (tz_accounts s') k =
       (if k = dt_From tx then u64_at (tz_accounts s) k - tx_cost tx + dt_Value tx else u64_at (tz_accounts s) k)"
  using assms by (auto simp: Tx_ExecuteTransaction_def Let_def go_bind_eq_Inr not_less split: if_splits)

text \<open>Transactions executed in a row.\<close>

fun execute_all :: "DemoTransaction list \<Rightarrow> TransactionSimulator \<Rightarrow> TransactionSimulator go" where
  "execute_all [] s = Inr s"
| "execute_all (tx # txs) s = go_bind (Tx_ExecuteTransaction tx s) (\<lambda>(e, s). execute_all txs s)"

lemma Tx_ExecuteTransaction_nonce:
  assumes "Tx_ExecuteTransaction tx s = Inr (e, s')" and "unat (u64_at (tz_nonces s) k) < 2 ^ 64 - 1"
  shows "unat (u64_at (tz_nonces s) k) \<le> unat (u64_at (tz_nonces s') k) \<and> unat (u64_at (tz_nonces s') k) \<le> Suc (unat (u64_at (tz_nonces s) k))"
proof (cases e)
  case None
  note n = Tx_ExecuteTransaction_effect [OF assms(1) [unfolded None]]
  show ?thesis
  proof (cases "k = dt_From tx")
    case True
    then have "unat (dt_Nonce tx + 1) = Suc (unat (dt_Nonce tx))" using assms(2) n(2) by (simp add: unat_word_ariths)
    then show ?thesis using True n(2,4) by simp
  qed (simp add: n(4))
next
  case (Some _)
  then have "s' = s" using assms(1) by (auto simp: Tx_ExecuteTransaction_def Let_def go_bind_eq_Inr split: if_splits)
  then show ?thesis by simp
qed

lemma execute_all_nonce:
  assumes "execute_all txs s = Inr s'" and "unat (u64_at (tz_nonces s) k) + length txs < 2 ^ 64"
  shows "unat (u64_at (tz_nonces s) k) \<le> unat (u64_at (tz_nonces s') k)"
  using assms
proof (induction txs arbitrary: s)
  case (Cons tx txs)
  then obtain e s1 where s1: "Tx_ExecuteTransaction tx s = Inr (e, s1)" "execute_all txs s1 = Inr s'" by (auto simp: go_bind_eq_Inr)
  have "unat (u64_at (tz_nonces s) k) \<le> unat (u64_at (tz_nonces s1) k) \<and> unat (u64_at (tz_nonces s1) k) \<le> Suc (unat (u64_at (tz_nonces s) k))"
    by (rule Tx_ExecuteTransaction_nonce [OF s1(1)]) (use Cons.prems(2) in simp)
  then show ?case using Cons.IH [OF s1(2)] Cons.prems(2) by simp
qed simp

text \<open>C28. 
  A transaction that was executed is refused from then on, whatever else was executed in between: its
  sender's number only grows, as long as it has not wrapped around.
\<close>

theorem Tx_no_replay:
  assumes "Tx_ExecuteTransaction tx s = Inr (None, s1)" and "execute_all txs s1 = Inr s2" and "unat (dt_Nonce tx) + 1 + length txs < 2 ^ 64"
  shows "Tx_ExecuteTransaction tx s2 = Inr (Some BadNonce, s2)"
proof -
  note e = Tx_ExecuteTransaction_effect [OF assms(1)]
  have n: "unat (u64_at (tz_nonces s1) (dt_From tx)) = Suc (unat (dt_Nonce tx))" using assms(3) by (simp add: e(4) unat_word_ariths)
  have "unat (u64_at (tz_nonces s1) (dt_From tx)) \<le> unat (u64_at (tz_nonces s2) (dt_From tx))"
    by (rule execute_all_nonce [OF assms(2)]) (use n assms(3) in simp)
  then have "u64_at (tz_nonces s2) (dt_From tx) \<noteq> dt_Nonce tx" using n by auto
  then show ?thesis using e(1) by (simp add: Tx_ExecuteTransaction_def)
qed

definition sample_tx :: "u64 \<Rightarrow> DemoTransaction" where
  "sample_tx v = \<lparr>dt_Hash = replicate 64 (CHR ''a''), dt_From = ''alice'', dt_To = ''bob'', dt_Value = v, dt_Nonce = 0, dt_GasPrice = 1,
     dt_GasLimit = 100, dt_Data = [], dt_Signature = ''s'', dt_Timestamp = None\<rparr>"

theorem Tx_no_replay_witness:
  "\<exists>s1. Tx_ExecuteTransaction (sample_tx 10) (Tx_Init NewTransactionSimulator) = Inr (None, s1) \<and>
     Tx_ExecuteTransaction (sample_tx 10) s1 = Inr (Some BadNonce, s1)"
proof -
  have "\<exists>s1. Tx_ExecuteTransaction (sample_tx 10) (Tx_Init NewTransactionSimulator) = Inr (None, s1)"
    by (simp add: Tx_ExecuteTransaction_def sample_tx_def Tx_Init_def NewTransactionSimulator_def u64_at_def go_get_def tx_cost_def Let_def
        go_bind_def go_slice_def)
  then obtain s1 where s1: "Tx_ExecuteTransaction (sample_tx 10) (Tx_Init NewTransactionSimulator) = Inr (None, s1)" by blast
  have "Tx_ExecuteTransaction (sample_tx 10) s1 = Inr (Some BadNonce, s1)"
    by (rule Tx_no_replay [OF s1, of "[]"]) (simp_all add: sample_tx_def)
  then show ?thesis using s1 by blast
qed

text \<open>
  The cost is a 64-bit number and wraps around: with a price and a limit of gas that make it small, a
  payment of almost \<open>2 ^ 64\<close> is covered by a balance of 1000, and the receiver gets it.
\<close>

lemma Tx_cost_wraps:
  "\<exists>s'. Tx_ExecuteTransaction (sample_tx (- 100)) (Tx_Init NewTransactionSimulator) = Inr (None, s') \<and>
     u64_at (tz_accounts s') ''alice'' = 1000 \<and> u64_at (tz_accounts s') ''bob'' = 400"
proof -
  have p: "u64_at (tz_nonces (Tx_Init s)) ''alice'' = 0" "u64_at (tz_accounts (Tx_Init s)) ''alice'' = 1000"
    "u64_at (tz_accounts (Tx_Init s)) ''bob'' = 500" for s
    by (simp_all add: Tx_Init_def u64_at_def go_get_def)
  show ?thesis by (simp add: Tx_ExecuteTransaction_def sample_tx_def tx_cost_def Let_def go_bind_def go_slice_def p)
qed

text \<open>
  The action pays 21000 for gas, but no account that the initialisation makes has more than 1000: it is
  refused for every sender and receiver, unless the amount is so large that the cost wraps around.
\<close>

theorem Tx_action_refused:
  assumes "unat (positive_param oob ''value'' params) + 21000 < 2 ^ 64"
  shows "Tx_ExecuteAction sha oob now ''create_transaction'' params (Tx_Init s) = Inr (Inl TxLowBalance, Tx_Init s)"
proof -
  let ?amount = "positive_param oob ''value'' params"
  have sum: "unat (?amount + 21000) = unat ?amount + 21000" using assms by (simp add: unat_word_ariths)
  have le: "unat (u64_at (tz_accounts (Tx_Init s)) from) \<le> 1000" for "from"
    by (simp add: Tx_Init_def u64_at_def go_get_def)
  have "u64_at (tz_accounts (Tx_Init s)) from < ?amount + 21000" for "from"
  proof -
    have "unat (u64_at (tz_accounts (Tx_Init s)) from) \<le> 1000" by (fact le)
    then show ?thesis unfolding word_less_nat_alt sum by linarith
  qed
  then show ?thesis by (simp add: Tx_ExecuteAction_def Tx_CreateTransaction_def Let_def go_bind_def)
qed

theorem Tx_action_refused_witness:
  "Tx_ExecuteAction (\<lambda>_. []) 0 0 ''create_transaction'' [] (Tx_Init NewTransactionSimulator) = Inr (Inl TxLowBalance, Tx_Init NewTransactionSimulator)"
  by (rule Tx_action_refused) (simp add: positive_param_def)

subsection \<open>The tree of accounts\<close>

lemma fold_trcall [simp]: "st_root (fold trcall cs s) = st_root s" "st_accounts (fold trcall cs s) = st_accounts s"
  by (induction cs arbitrary: s) (simp_all add: trcall_def)

lemma trcall_keeps [simp]: "st_root (trcall c s) = st_root s" "st_accounts (trcall c s) = st_accounts s"
  by (simp_all add: trcall_def)

lemma Trie_updateState_keeps [simp]: "st_root (Trie_updateState s) = st_root s" "st_accounts (Trie_updateState s) = st_accounts s"
  by (simp_all add: Trie_updateState_def del: fold_simps)

definition bare_root :: "(byte list \<Rightarrow> byte list) \<Rightarrow> StateTrieSimulator \<Rightarrow> bool" where
  "bare_root sha s \<longleftrightarrow> (\<exists>r. st_root s = Some r \<and> tn_Type r = ''branch'' \<and> tn_Key r = [] \<and> tn_Value r = None)"

lemma SetAccount_root:
  assumes "bare_root sha s" and "SetAccount sha addr b n c s = Inr s'"
  shows "bare_root sha s'" "trie_root_hash s' = hex_encode (take 16 (sha (str_bytes ''branch--<nil>'')))"
  using assms by (auto simp: bare_root_def SetAccount_def insertToTrie_def Let_def go_bind_eq_Inr with_hash_def hashNode_def
      trie_root_hash_def value_text_def)

fun set_accounts :: "(byte list \<Rightarrow> byte list) \<Rightarrow> (string \<times> u64 \<times> u64 \<times> string) list \<Rightarrow> StateTrieSimulator \<Rightarrow> StateTrieSimulator go" where
  "set_accounts sha [] s = Inr s"
| "set_accounts sha ((addr, b, n, c) # as) s = go_bind (SetAccount sha addr b n c s) (set_accounts sha as)"

text \<open>
  The hash of the root is made of the fields of the root alone, not of its children: after the
  initialisation and any changes of accounts it is the same.
\<close>

theorem Trie_root_constant:
  assumes "Trie_Init sha s = Inr s1" and "set_accounts sha as s1 = Inr s2"
  shows "trie_root_hash s2 = hex_encode (take 16 (sha (str_bytes ''branch--<nil>'')))"
proof -
  obtain s0 where s0: "SetAccount sha ''0x1234'' 1000 0 [] (s\<lparr>st_root := Some (TrieNode [] ''branch'' [] None [])\<rparr>) = Inr s0"
    "SetAccount sha ''0x5678'' 500 0 [] s0 = Inr s1" using assms(1) by (auto simp: Trie_Init_def Let_def go_bind_eq_Inr)
  have "bare_root sha (s\<lparr>st_root := Some (TrieNode [] ''branch'' [] None [])\<rparr>)" by (simp add: bare_root_def)
  then have "bare_root sha s0" using SetAccount_root(1) s0(1) by blast
  then have "bare_root sha s1 \<and> trie_root_hash s1 = hex_encode (take 16 (sha (str_bytes ''branch--<nil>'')))" using SetAccount_root [OF _ s0(2)] by blast
  then show ?thesis using assms(2)
  proof (induction "as" arbitrary: s1)
    case (Cons a "as")
    obtain addr b n c where a: "a = (addr, b, n, c)" by (cases a)
    then obtain s3 where "SetAccount sha addr b n c s1 = Inr s3" "set_accounts sha as s3 = Inr s2" using Cons.prems(2) by (auto simp: go_bind_eq_Inr)
    then show ?case using Cons.IH Cons.prems(1) SetAccount_root by blast
  qed simp
qed

theorem Trie_root_constant_witness:
  "\<exists>s1 s2. Trie_Init (\<lambda>_. []) NewStateTrieSimulator = Inr s1 \<and> set_accounts (\<lambda>_. []) [(''0x1234'', 7, 1, [])] s1 = Inr s2 \<and>
     trie_root_hash s2 = [] \<and> map_option ta_balance (Trie_GetAccount ''0x1234'' s2) = Some 7"
proof -
  have "\<exists>s1 s2. Trie_Init (\<lambda>_. []) NewStateTrieSimulator = Inr s1 \<and> set_accounts (\<lambda>_. []) [(''0x1234'', 7, 1, [])] s1 = Inr s2 \<and>
     map_option ta_balance (Trie_GetAccount ''0x1234'' s2) = Some 7"
    by (simp add: Trie_Init_def SetAccount_def insertToTrie_def Let_def go_bind_def go_slice_def NewStateTrieSimulator_def Trie_GetAccount_def)
  then show ?thesis using Trie_root_constant [of "\<lambda>_. []" NewStateTrieSimulator _ "[(''0x1234'', 7, 1, [])]"] by fastforce
qed

end
