(* ===== verification/ChainViews.thy ===== *)
theory ChainViews
  imports SimText
begin

section \<open>Views of a chain: \<open>light_client.go\<close>, \<open>block_structure.go\<close>, \<open>chain_sync.go\<close> of \<open>simulations/modules/blockchain\<close>\<close>

text \<open>
  A client that keeps headers and checks proofs, a block that is edited and mined, and nodes that copy a
  chain from each other.  SHA-256, the clock, random numbers and the order of a map are arguments.
\<close>

subsection \<open>The light client\<close>

record LightHeader =
  lh_Hash :: string
  lh_ParentHash :: string
  lh_Height :: u64
  lh_StateRoot :: string
  lh_TxRoot :: string

record SPVProof =
  sp_TxHash :: string
  sp_BlockHash :: string
  sp_BlockHeight :: u64
  sp_MerklePath :: "string list"
  sp_Directions :: "string list"

record LightClientSimulator =
  lc_headers :: "LightHeader list"
  lc_trustedRoot :: string
  lc_verifiedTxs :: "string list"
  lc_calls :: "base_call list"

datatype light_err = InvalidParent | InvalidHeight | InvalidHeaderHash | UnsupportedLightAction string

definition lcall :: "base_call \<Rightarrow> LightClientSimulator \<Rightarrow> LightClientSimulator" where
  "lcall c s = s\<lparr>lc_calls := lc_calls s @ [c]\<rparr>"

definition NewLightClientSimulator :: LightClientSimulator where
  "NewLightClientSimulator = \<lparr>lc_headers = [], lc_trustedRoot = [], lc_verifiedTxs = [], lc_calls = []\<rparr>"

definition text_hash :: "(string \<Rightarrow> byte list) \<Rightarrow> string \<Rightarrow> string" where
  "text_hash sha data = hex_encode (sha data)"

definition hashHeader :: "(string \<Rightarrow> byte list) \<Rightarrow> LightHeader \<Rightarrow> string" where
  "hashHeader sha h = text_hash sha (lh_ParentHash h @ itoa (unat (lh_Height h)) @ lh_StateRoot h @ lh_TxRoot h)"

definition Light_updateState :: "LightClientSimulator \<Rightarrow> LightClientSimulator" where
  "Light_updateState s =
     fold lcall
       ([CallGlobal ''header_count'' (GInt (int (length (lc_headers s)))),
         CallGlobal ''latest_height'' (GInt (int (length (lc_headers s)) - 1)),
         CallGlobal ''verified_tx_count'' (GInt (int (length (lc_verifiedTxs s))))] @
        (if lc_headers s = [] then [] else [CallGlobal ''latest_hash'' (GStr (lh_Hash (last (lc_headers s))))]) @
        [CallTeaching (byte_text [229, 135, 134, 229, 164, 135, 232, 189, 187, 229, 174, 162, 230, 136, 183, 231, 171, 175]) (Fin (1 / 2))
          [(''header_count'', GInt (int (length (lc_headers s)))), (''verified_tx_count'', GInt (int (length (lc_verifiedTxs s))))]]) s"

text \<open>The header that comes after another one, in the demonstration.\<close>

definition next_header :: "(string \<Rightarrow> byte list) \<Rightarrow> u64 \<Rightarrow> LightHeader \<Rightarrow> LightHeader" where
  "next_header sha height parent =
     (let h = \<lparr>lh_Hash = [], lh_ParentHash = lh_Hash parent, lh_Height = height, lh_StateRoot = text_hash sha (''state-'' @ itoa (unat height)),
            lh_TxRoot = text_hash sha (''tx-'' @ itoa (unat height))\<rparr>
      in h\<lparr>lh_Hash := hashHeader sha h\<rparr>)"

definition genesis_header :: "(string \<Rightarrow> byte list) \<Rightarrow> LightHeader" where
  "genesis_header sha = \<lparr>lh_Hash = ''genesis'', lh_ParentHash = [], lh_Height = 0, lh_StateRoot = text_hash sha ''state-0'',
     lh_TxRoot = text_hash sha ''tx-0''\<rparr>"

fun first_headers :: "(string \<Rightarrow> byte list) \<Rightarrow> nat \<Rightarrow> LightHeader list" where
  "first_headers sha 0 = [genesis_header sha]"
| "first_headers sha (Suc n) = (let hs = first_headers sha n in hs @ [next_header sha (of_nat (Suc n)) (last hs)])"

definition Light_Init :: "(string \<Rightarrow> byte list) \<Rightarrow> LightClientSimulator \<Rightarrow> LightClientSimulator" where
  "Light_Init sha s = Light_updateState (s\<lparr>lc_headers := first_headers sha 10, lc_trustedRoot := ''genesis''\<rparr>)"

definition SyncHeader :: "(string \<Rightarrow> byte list) \<Rightarrow> LightHeader \<Rightarrow> LightClientSimulator \<Rightarrow> (light_err option \<times> LightClientSimulator) go" where
  "SyncHeader sha h s =
     (if lc_headers s \<noteq> [] \<and> lh_ParentHash h \<noteq> lh_Hash (last (lc_headers s)) then Inr (Some InvalidParent, s)
      else if lc_headers s \<noteq> [] \<and> lh_Height h \<noteq> lh_Height (last (lc_headers s)) + 1 then Inr (Some InvalidHeight, s)
      else if lh_Hash h \<noteq> hashHeader sha h then Inr (Some InvalidHeaderHash, s)
      else go_bind (go_slice (lh_Hash h) 0 16) (\<lambda>t.
        Inr (None, Light_updateState (lcall (CallEmit ''header_synced'' [] [] (Some [(''height'', GInt (uint (lh_Height h))), (''hash'', GStr t)]))
          (s\<lparr>lc_headers := lc_headers s @ [h]\<rparr>)))))"

text \<open>The hash that a path leads to; every step has a direction of its own.\<close>

fun spv_climb :: "(string \<Rightarrow> byte list) \<Rightarrow> string list \<Rightarrow> string list \<Rightarrow> string \<Rightarrow> string go" where
  "spv_climb sha [] ds cur = Inr cur"
| "spv_climb sha (sib # path) [] cur = Inl IndexOutOfRange"
| "spv_climb sha (sib # path) (d # ds) cur = spv_climb sha path ds (text_hash sha (if d = ''left'' then sib @ cur else cur @ sib))"

definition VerifySPVProof :: "(string \<Rightarrow> byte list) \<Rightarrow> SPVProof \<Rightarrow> LightClientSimulator \<Rightarrow> (bool \<times> LightClientSimulator) go" where
  "VerifySPVProof sha p s =
     (case find (\<lambda>h. lh_Hash h = sp_BlockHash p) (lc_headers s) of
        None \<Rightarrow> Inr (False, lcall (CallEmit ''spv_verify_failed'' [] [] (Some [(''reason'', GStr ''block not found'')])) s)
      | Some h \<Rightarrow> go_bind (spv_climb sha (sp_MerklePath p) (sp_Directions p) (sp_TxHash p)) (\<lambda>cur.
          let valid = (cur = lh_TxRoot h); s = (if valid then s\<lparr>lc_verifiedTxs := lc_verifiedTxs s @ [sp_TxHash p]\<rparr> else s)
          in go_bind (go_slice (sp_TxHash p) 0 16) (\<lambda>t.
               Inr (valid, Light_updateState (lcall (CallEmit ''spv_verified'' [] [] (Some [(''tx_hash'', GStr t), (''valid'', GBool valid),
                 (''block_height'', GInt (uint (lh_Height h)))])) s)))))"

text \<open>The height is compared as a signed number.\<close>

definition GetHeaderByHeight :: "u64 \<Rightarrow> LightClientSimulator \<Rightarrow> LightHeader option go" where
  "GetHeaderByHeight height s =
     (if sint height < int (length (lc_headers s)) then go_bind (go_index (lc_headers s) (unat height)) (\<lambda>h. Inr (Some h)) else Inr None)"

definition Light_ExecuteAction ::
  "(string \<Rightarrow> byte list) \<Rightarrow> string \<Rightarrow> LightClientSimulator \<Rightarrow> ((light_err + LightHeader) \<times> LightClientSimulator) go" where
  "Light_ExecuteAction sha action s =
     (if action = ''sync_next_header'' then
        if lc_headers s = [] then Inl IndexOutOfRange
        else
          let h = next_header sha (lh_Height (last (lc_headers s)) + 1) (last (lc_headers s)) in
          go_bind (SyncHeader sha h s) (\<lambda>(e, s). Inr (case e of Some e \<Rightarrow> Inl e | None \<Rightarrow> Inr h, s))
      else Inr (Inl (UnsupportedLightAction action), s))"

subsection \<open>The structure of a block\<close>

text \<open>A time is a number of nanoseconds since 1970.\<close>

record DemoBlock =
  bl_Version :: "32 word"
  bl_PrevBlockHash :: string
  bl_MerkleRoot :: string
  bl_Timestamp :: int
  bl_Difficulty :: "32 word"
  bl_Nonce :: u64
  bl_Hash :: string
  bl_Transactions :: "string list"

record BlockStructureSimulator =
  bk_currentBlock :: "DemoBlock option"
  bk_chain :: "DemoBlock list"
  bk_calls :: "base_call list"

datatype block_err = UnknownField string | UnsupportedBlockAction string

definition bkcall :: "base_call \<Rightarrow> BlockStructureSimulator \<Rightarrow> BlockStructureSimulator" where
  "bkcall c s = s\<lparr>bk_calls := bk_calls s @ [c]\<rparr>"

definition NewBlockStructureSimulator :: BlockStructureSimulator where
  "NewBlockStructureSimulator = \<lparr>bk_currentBlock = None, bk_chain = [], bk_calls = []\<rparr>"

definition unix_seconds :: "int \<Rightarrow> int" where
  "unix_seconds t = t div second"

definition computeBlockHash :: "(string \<Rightarrow> byte list) \<Rightarrow> DemoBlock \<Rightarrow> string" where
  "computeBlockHash sha b = text_hash sha (itoa (unat (bl_Version b)) @ bl_PrevBlockHash b @ bl_MerkleRoot b @
     int_text 10 (unix_seconds (bl_Timestamp b)) @ itoa (unat (bl_Difficulty b)) @ itoa (unat (bl_Nonce b)))"

text \<open>One level of the tree; a last hash on its own is paired with itself.\<close>

fun text_level :: "(string \<Rightarrow> byte list) \<Rightarrow> string list \<Rightarrow> string list" where
  "text_level sha (a # b # hs) = text_hash sha (a @ b) # text_level sha hs"
| "text_level sha [a] = [text_hash sha (a @ a)]"
| "text_level sha [] = []"

lemma length_text_level: "length (text_level sha hs) = (length hs + 1) div 2"
  by (induction sha hs rule: text_level.induct) simp_all

function text_root :: "(string \<Rightarrow> byte list) \<Rightarrow> string list \<Rightarrow> string" where
  "text_root sha hs = (if 1 < length hs then text_root sha (text_level sha hs) else hd hs)"
  by pat_completeness auto
termination by (relation "measure (\<lambda>(sha, hs). length hs)") (auto simp: length_text_level)

declare text_root.simps [simp del]

definition zero_text :: string where
  "zero_text = replicate 64 (CHR ''0'')"

definition computeMerkleRoot :: "(string \<Rightarrow> byte list) \<Rightarrow> string list \<Rightarrow> string" where
  "computeMerkleRoot sha txs = (if txs = [] then zero_text else text_root sha (map (text_hash sha) txs))"

text \<open>A block without transactions, with its root and its hash.\<close>

definition empty_block :: "(string \<Rightarrow> byte list) \<Rightarrow> string \<Rightarrow> int \<Rightarrow> 32 word \<Rightarrow> DemoBlock" where
  "empty_block sha prev t d =
     (let b = \<lparr>bl_Version = 1, bl_PrevBlockHash = prev, bl_MerkleRoot = computeMerkleRoot sha [], bl_Timestamp = t, bl_Difficulty = d,
            bl_Nonce = 0, bl_Hash = [], bl_Transactions = []\<rparr>
      in b\<lparr>bl_Hash := computeBlockHash sha b\<rparr>)"

definition createGenesisBlock :: "(string \<Rightarrow> byte list) \<Rightarrow> DemoBlock" where
  "createGenesisBlock sha = empty_block sha zero_text 0 1"

definition createNewBlock :: "(string \<Rightarrow> byte list) \<Rightarrow> int \<Rightarrow> DemoBlock \<Rightarrow> DemoBlock" where
  "createNewBlock sha now prev = empty_block sha (bl_Hash prev) now 4"

definition show_block :: "DemoBlock \<Rightarrow> gval" where
  "show_block b = GStruct [(''version'', GInt (uint (bl_Version b))), (''prev_block_hash'', GStr (bl_PrevBlockHash b)),
     (''merkle_root'', GStr (bl_MerkleRoot b)), (''timestamp'', GInt (bl_Timestamp b)), (''difficulty'', GInt (uint (bl_Difficulty b))),
     (''nonce'', GInt (uint (bl_Nonce b))), (''hash'', GStr (bl_Hash b)), (''transactions'', GList (map GStr (bl_Transactions b)))]"

text \<open>The fields, without their descriptions.\<close>

definition block_field :: "string \<Rightarrow> gval \<Rightarrow> bool \<Rightarrow> gval" where
  "block_field name v editable = GStruct [(''name'', GStr name), (''value'', v), (''editable'', GBool editable)]"

definition block_fields :: "DemoBlock \<Rightarrow> gval" where
  "block_fields b = GList [block_field ''version'' (GInt (uint (bl_Version b))) True, block_field ''prev_block_hash'' (GStr (bl_PrevBlockHash b)) True,
     block_field ''merkle_root'' (GStr (bl_MerkleRoot b)) False, block_field ''timestamp'' (GInt (unix_seconds (bl_Timestamp b))) True,
     block_field ''difficulty'' (GInt (uint (bl_Difficulty b))) True, block_field ''nonce'' (GInt (uint (bl_Nonce b))) True,
     block_field ''hash'' (GStr (bl_Hash b)) False]"

definition Block_updateState :: "BlockStructureSimulator \<Rightarrow> BlockStructureSimulator go" where
  "Block_updateState s = go_bind (go_deref (bk_currentBlock s)) (\<lambda>b.
     Inr (fold bkcall
       [CallGlobal ''current_block'' (show_block b), CallGlobal ''chain_length'' (GInt (int (length (bk_chain s)))),
        CallGlobal ''fields'' (block_fields b),
        CallTeaching (byte_text [229, 135, 134, 229, 164, 135, 229, 140, 186, 229, 157, 151]) (Fin (1 / 2))
          [(''chain_length'', GInt (int (length (bk_chain s)))), (''tx_count'', GInt (int (length (bl_Transactions b)))), (''hash'', GStr (bl_Hash b))]] s))"

definition Block_Init :: "(string \<Rightarrow> byte list) \<Rightarrow> int \<Rightarrow> BlockStructureSimulator \<Rightarrow> BlockStructureSimulator go" where
  "Block_Init sha now s =
     (let g = createGenesisBlock sha
      in Block_updateState (s\<lparr>bk_chain := [g], bk_currentBlock := Some (createNewBlock sha now g)\<rparr>))"

text \<open>
  What the conversions of the library give: the text of a value under \<open>%v\<close>, the number that a scan of
  a text with \<open>%f\<close> leaves, and numbers out of the range of a type.
\<close>

record block_env =
  ke_text :: "gval \<Rightarrow> string"
  ke_scan :: "string \<Rightarrow> f64"
  ke_u32 :: "32 word"
  ke_u64 :: u64
  ke_int :: int

definition parseStringField :: "block_env \<Rightarrow> gval \<Rightarrow> string" where
  "parseStringField v value = (case value of GStr t \<Rightarrow> t | _ \<Rightarrow> ke_text v value)"

definition parseNumericField :: "block_env \<Rightarrow> gval \<Rightarrow> f64" where
  "parseNumericField v value = (case value of GFloat x \<Rightarrow> x | GInt n \<Rightarrow> f64_of_int n | GStr t \<Rightarrow> ke_scan v t | _ \<Rightarrow> Fin 0)"

definition f64_to_u32 :: "32 word \<Rightarrow> f64 \<Rightarrow> 32 word" where
  "f64_to_u32 oob x = (case x of Fin r \<Rightarrow> if -1 < r \<and> r < 2 ^ 32 then (if r < 0 then 0 else of_int \<lfloor>r\<rfloor>) else oob | _ \<Rightarrow> oob)"

definition set_field :: "block_env \<Rightarrow> string \<Rightarrow> gval \<Rightarrow> DemoBlock \<Rightarrow> DemoBlock option" where
  "set_field v fld value b =
     (if fld = ''version'' then Some (b\<lparr>bl_Version := f64_to_u32 (ke_u32 v) (parseNumericField v value)\<rparr>)
      else if fld = ''prev_block_hash'' then Some (b\<lparr>bl_PrevBlockHash := parseStringField v value\<rparr>)
      else if fld = ''timestamp'' then Some (b\<lparr>bl_Timestamp := f64_to_int (ke_int v) (parseNumericField v value) * second\<rparr>)
      else if fld = ''difficulty'' then Some (b\<lparr>bl_Difficulty := f64_to_u32 (ke_u32 v) (parseNumericField v value)\<rparr>)
      else if fld = ''nonce'' then Some (b\<lparr>bl_Nonce := f64_to_u64 (ke_u64 v) (parseNumericField v value)\<rparr>)
      else None)"

definition SetField :: "(string \<Rightarrow> byte list) \<Rightarrow> block_env \<Rightarrow> string \<Rightarrow> gval \<Rightarrow> BlockStructureSimulator \<Rightarrow>
   (block_err option \<times> BlockStructureSimulator) go" where
  "SetField sha v fld value s =
     go_bind (go_deref (bk_currentBlock s)) (\<lambda>b0.
       case set_field v fld value b0 of
         None \<Rightarrow> Inr (Some (UnknownField fld), s)
       | Some b \<Rightarrow>
           let b' = b\<lparr>bl_Hash := computeBlockHash sha b\<rparr> in
           go_bind (go_slice (bl_Hash b) 0 16) (\<lambda>old. go_bind (go_slice (bl_Hash b') 0 16) (\<lambda>new.
             go_bind (Block_updateState (bkcall (CallEmit ''field_changed'' [] [] (Some [(''field'', GStr fld), (''value'', value),
               (''old_hash'', GStr old), (''new_hash'', GStr new)])) (s\<lparr>bk_currentBlock := Some b'\<rparr>))) (\<lambda>s. Inr (None, s)))))"

definition Block_AddTransaction :: "(string \<Rightarrow> byte list) \<Rightarrow> string \<Rightarrow> BlockStructureSimulator \<Rightarrow> BlockStructureSimulator go" where
  "Block_AddTransaction sha tx s =
     go_bind (go_deref (bk_currentBlock s)) (\<lambda>b0.
       let b = b0\<lparr>bl_Transactions := bl_Transactions b0 @ [tx]\<rparr>;
           b = b\<lparr>bl_MerkleRoot := computeMerkleRoot sha (bl_Transactions b)\<rparr>;
           b = b\<lparr>bl_Hash := computeBlockHash sha b\<rparr>
       in go_bind (go_slice (bl_MerkleRoot b0) 0 16) (\<lambda>om. go_bind (go_slice (bl_MerkleRoot b) 0 16) (\<lambda>nm.
            go_bind (go_slice (bl_Hash b0) 0 16) (\<lambda>oh. go_bind (go_slice (bl_Hash b) 0 16) (\<lambda>nh.
              Block_updateState (bkcall (CallEmit ''transaction_added'' [] [] (Some [(''tx'', GStr tx), (''old_merkle'', GStr om),
                (''new_merkle'', GStr nm), (''old_hash'', GStr oh), (''new_hash'', GStr nh)])) (s\<lparr>bk_currentBlock := Some b\<rparr>)))))))"

definition meets_difficulty :: "DemoBlock \<Rightarrow> bool" where
  "meets_difficulty b \<longleftrightarrow> unat (bl_Difficulty b) \<le> length (bl_Hash b) \<and>
     take (unat (bl_Difficulty b)) (bl_Hash b) = replicate (unat (bl_Difficulty b)) (CHR ''0'')"

definition try_nonce :: "(string \<Rightarrow> byte list) \<Rightarrow> u64 \<Rightarrow> DemoBlock \<Rightarrow> DemoBlock" where
  "try_nonce sha i b = (let b = b\<lparr>bl_Nonce := i\<rparr> in b\<lparr>bl_Hash := computeBlockHash sha b\<rparr>)"

text \<open>At most \<open>n\<close> more numbers, from \<open>i\<close> on: whether one was found, and the block.\<close>

fun mine_loop :: "(string \<Rightarrow> byte list) \<Rightarrow> nat \<Rightarrow> u64 \<Rightarrow> DemoBlock \<Rightarrow> bool \<times> DemoBlock" where
  "mine_loop sha 0 i b = (False, b)"
| "mine_loop sha (Suc n) i b =
     (let b = try_nonce sha i b in if meets_difficulty b then (True, b) else mine_loop sha n (i + 1) b)"

definition MineBlock :: "(string \<Rightarrow> byte list) \<Rightarrow> int \<Rightarrow> BlockStructureSimulator \<Rightarrow> (bool \<times> BlockStructureSimulator) go" where
  "MineBlock sha now s =
     go_bind (go_deref (bk_currentBlock s)) (\<lambda>b0.
       case mine_loop sha 1000000 0 b0 of
         (False, b) \<Rightarrow> Inr (False, s\<lparr>bk_currentBlock := Some b\<rparr>)
       | (True, b) \<Rightarrow>
           go_bind (Block_updateState (bkcall (CallEmit ''block_mined'' [] [] (Some [(''nonce'', GInt (uint (bl_Nonce b))), (''hash'', GStr (bl_Hash b))]))
             (s\<lparr>bk_chain := bk_chain s @ [b], bk_currentBlock := Some (createNewBlock sha now b)\<rparr>))) (\<lambda>s. Inr (True, s)))"

definition Block_ExecuteAction ::
  "(string \<Rightarrow> byte list) \<Rightarrow> block_env \<Rightarrow> int \<Rightarrow> string \<Rightarrow> (string, gval) gomap \<Rightarrow> BlockStructureSimulator \<Rightarrow>
   ((block_err + bool) \<times> BlockStructureSimulator) go" where
  "Block_ExecuteAction sha v now action params s =
     (if action = ''add_transaction'' then
        go_bind (Block_AddTransaction sha (text_param ''tx'' (''tx-'' @ int_text 10 now) params) s) (\<lambda>s. Inr (Inr True, s))
      else if action = ''mine_block'' then go_bind (MineBlock sha now s) (\<lambda>(ok, s). Inr (Inr ok, s))
      else if action = ''set_field'' then
        go_bind (SetField sha v (text_param ''field'' ''nonce'' params) (case go_get params ''value'' of None \<Rightarrow> GNil | Some x \<Rightarrow> x) s) (\<lambda>(e, s).
          Inr (case e of Some e \<Rightarrow> Inl e | None \<Rightarrow> Inr True, s))
      else Inr (Inl (UnsupportedBlockAction action), s))"

subsection \<open>Synchronising a chain\<close>

text \<open>
  The blocks of a node share an array with the chain; what is appended to them is the block that the chain
  has at that place, so that a list per node shows the same.
\<close>

record SyncNode =
  sy_ID :: NodeID
  sy_ChainHeight :: u64
  sy_SyncStatus :: string
  sy_Peers :: "NodeID list"
  sy_Blocks :: "string list"

record ChainSyncSimulator =
  cs_nodes :: "(NodeID, SyncNode) gomap"
  cs_nodeList :: "NodeID list"
  cs_canonicalChain :: "string list"
  cs_calls :: "base_call list"

datatype sync_err = UnsupportedSyncAction string

definition cscall :: "base_call \<Rightarrow> ChainSyncSimulator \<Rightarrow> ChainSyncSimulator" where
  "cscall c s = s\<lparr>cs_calls := cs_calls s @ [c]\<rparr>"

definition NewChainSyncSimulator :: ChainSyncSimulator where
  "NewChainSyncSimulator = \<lparr>cs_nodes = [], cs_nodeList = [], cs_canonicalChain = [], cs_calls = []\<rparr>"

definition show_sync_node :: "NodeID \<Rightarrow> ChainSyncSimulator \<Rightarrow> ChainSyncSimulator" where
  "show_sync_node i s =
     (case go_get (cs_nodes s) i of
        None \<Rightarrow> s
      | Some n \<Rightarrow> cscall (CallNode i \<lparr>ns_ID = i, ns_Status = sy_SyncStatus n,
          ns_Data = Some [(''chain_height'', GInt (uint (sy_ChainHeight n))), (''peer_count'', GInt (int (length (sy_Peers n))))],
          ns_IsByzantine = False\<rparr>) s)"

definition Sync_updateAllStates :: "NodeID list \<Rightarrow> ChainSyncSimulator \<Rightarrow> ChainSyncSimulator" where
  "Sync_updateAllStates ord s =
     fold cscall
       [CallGlobal ''canonical_height'' (GInt (int (length (cs_canonicalChain s)) - 1)), CallGlobal ''node_count'' (GInt (int (length (cs_nodes s)))),
        CallTeaching (byte_text [229, 135, 134, 229, 164, 135, 229, 144, 140, 230, 173, 165]) (Fin (1 / 2))
          [(''canonical_height'', GInt (int (length (cs_canonicalChain s)) - 1)), (''node_count'', GInt (int (length (cs_nodes s))))]]
       (fold show_sync_node ord s)"

definition sync_name :: "nat \<Rightarrow> NodeID" where
  "sync_name i = ''node-'' @ itoa i"

definition first_chain :: "string list" where
  "first_chain = ''genesis'' # map (\<lambda>i. ''block-'' @ itoa i) [1..<11]"

text \<open>The height of a new node is drawn below the length of the chain.\<close>

definition add_sync_node :: "(nat \<Rightarrow> nat) \<Rightarrow> nat \<Rightarrow> ChainSyncSimulator \<Rightarrow> ChainSyncSimulator" where
  "add_sync_node rnd i s =
     (let h = rnd i mod length (cs_canonicalChain s);
          n = \<lparr>sy_ID = sync_name i, sy_ChainHeight = of_nat h, sy_SyncStatus = ''syncing'', sy_Peers = [],
            sy_Blocks = take (h + 1) (cs_canonicalChain s)\<rparr>
      in s\<lparr>cs_nodes := go_put (sync_name i) n (cs_nodes s), cs_nodeList := cs_nodeList s @ [sync_name i]\<rparr>)"

text \<open>Every other node of the list is a peer if its coin says so.\<close>

definition add_peers :: "(NodeID \<Rightarrow> nat \<Rightarrow> bool) \<Rightarrow> NodeID list \<Rightarrow> SyncNode \<Rightarrow> SyncNode" where
  "add_peers coin ids n =
     n\<lparr>sy_Peers := sy_Peers n @ map snd (filter (\<lambda>(k, p). p \<noteq> sy_ID n \<and> coin (sy_ID n) k) (enumerate 0 ids))\<rparr>"

definition Sync_Init ::
  "int \<Rightarrow> (nat \<Rightarrow> nat) \<Rightarrow> (NodeID \<Rightarrow> nat \<Rightarrow> bool) \<Rightarrow> NodeID list \<Rightarrow> (string, gval) gomap \<Rightarrow> ChainSyncSimulator \<Rightarrow> ChainSyncSimulator" where
  "Sync_Init oob rnd coin ord params s =
     (let count = (case go_get params ''node_count'' of Some (GFloat x) \<Rightarrow> f64_to_int oob x | _ \<Rightarrow> 5);
          s = fold (add_sync_node rnd) [0..<nat count] (s\<lparr>cs_canonicalChain := first_chain\<rparr>)
      in Sync_updateAllStates ord (s\<lparr>cs_nodes := map (\<lambda>(i, n). (i, add_peers coin (cs_nodeList s) n)) (cs_nodes s)\<rparr>))"

text \<open>A node copies one block from a peer, drawn among its peers, that is higher.\<close>

definition sync_advance :: "string \<Rightarrow> SyncNode \<Rightarrow> SyncNode" where
  "sync_advance b n = n\<lparr>sy_Blocks := sy_Blocks n @ [b], sy_ChainHeight := sy_ChainHeight n + 1, sy_SyncStatus := ''syncing''\<rparr>"

definition note_synced :: "string list \<Rightarrow> SyncNode \<Rightarrow> SyncNode" where
  "note_synced chain n = (if sy_ChainHeight n = of_int (int (length chain) - 1) then n\<lparr>sy_SyncStatus := ''synced''\<rparr> else n)"

definition syncNode :: "nat \<Rightarrow> NodeID \<Rightarrow> SyncNode \<Rightarrow> ChainSyncSimulator \<Rightarrow> ChainSyncSimulator go" where
  "syncNode pick i n s =
     (if sy_Peers n = [] then Inr s
      else
        let p = sy_Peers n ! (pick mod length (sy_Peers n)); chain = cs_canonicalChain s; h = sy_ChainHeight n + 1 in
        case go_get (cs_nodes s) p of
          None \<Rightarrow> Inr s
        | Some peer \<Rightarrow>
            if sy_ChainHeight n < sy_ChainHeight peer \<and> sint h < int (length chain) then
              go_bind (go_index chain (unat h)) (\<lambda>b.
                Inr (cscall (CallEmit ''block_synced'' (sy_ID n) p (Some [(''block'', GStr b), (''height'', GInt (uint h))]))
                  (s\<lparr>cs_nodes := go_put i (note_synced chain (sync_advance b n)) (cs_nodes s)\<rparr>)))
            else Inr (s\<lparr>cs_nodes := go_put i (note_synced chain n) (cs_nodes s)\<rparr>))"

text \<open>One round over the list of nodes; \<open>rnd\<close> gives the choice for every place of the list.\<close>

fun sync_round :: "(nat \<Rightarrow> nat) \<Rightarrow> nat \<Rightarrow> NodeID list \<Rightarrow> ChainSyncSimulator \<Rightarrow> ChainSyncSimulator go" where
  "sync_round rnd k [] s = Inr s"
| "sync_round rnd k (i # is) s =
     go_bind (go_deref (go_get (cs_nodes s) i)) (\<lambda>n.
       go_bind (if sy_ChainHeight n < of_int (int (length (cs_canonicalChain s)) - 1) then syncNode (rnd k) i n s else Inr s)
         (sync_round rnd (k + 1) is))"

definition Sync_onTick :: "(nat \<Rightarrow> nat) \<Rightarrow> NodeID list \<Rightarrow> u64 \<Rightarrow> ChainSyncSimulator \<Rightarrow> ChainSyncSimulator go" where
  "Sync_onTick rnd ord tick s =
     go_bind (sync_round rnd 0 (cs_nodeList s) s) (\<lambda>s.
       let n = length (cs_canonicalChain s); b = ''block-'' @ itoa n;
           s = (if tick mod 20 = 0 then
                  cscall (CallEmit ''new_block'' [] [] (Some [(''block'', GStr b), (''height'', GInt (int n))]))
                    (s\<lparr>cs_canonicalChain := cs_canonicalChain s @ [b]\<rparr>)
                else s)
       in Inr (Sync_updateAllStates ord s))"

definition Sync_ExecuteAction ::
  "(nat \<Rightarrow> nat) \<Rightarrow> NodeID list \<Rightarrow> string \<Rightarrow> ChainSyncSimulator \<Rightarrow> (sync_err option \<times> ChainSyncSimulator) go" where
  "Sync_ExecuteAction rnd ord action s =
     (if action = ''sync_round'' then go_bind (sync_round rnd 0 (cs_nodeList s) s) (\<lambda>s. Inr (None, Sync_updateAllStates ord s))
      else Inr (Some (UnsupportedSyncAction action), s))"

end
