(* ===== verification/ChainViewsFacts.thy ===== *)
theory ChainViewsFacts
  imports ChainViews
begin

section \<open>Views of a chain: properties\<close>

text \<open>
  The headers of the light client are a chain to which the last hash commits, and what a proof shows.  The
  blocks that were mined are consistent.  Nodes hold prefixes of the chain, and never pass the highest of
  them.
\<close>

lemma text_hash_eq: "text_hash sha x = text_hash sha y \<longleftrightarrow> sha x = sha y"
  by (simp add: text_hash_def hex_encode_inj)

lemma length_text_hash: "length (sha x) = 32 \<Longrightarrow> length (text_hash sha x) = 64"
  by (simp add: text_hash_def)

subsection \<open>The light client\<close>

text \<open>Each header follows the one before it.\<close>

definition follows :: "(string \<Rightarrow> byte list) \<Rightarrow> LightHeader \<Rightarrow> LightHeader \<Rightarrow> bool" where
  "follows sha p h \<longleftrightarrow> lh_ParentHash h = lh_Hash p \<and> lh_Height h = lh_Height p + 1 \<and> lh_Hash h = hashHeader sha h"

definition header_chain :: "(string \<Rightarrow> byte list) \<Rightarrow> LightHeader list \<Rightarrow> bool" where
  "header_chain sha hs \<longleftrightarrow> hs \<noteq> [] \<and> hd hs = genesis_header sha \<and> (\<forall>i. Suc i < length hs \<longrightarrow> follows sha (hs ! i) (hs ! Suc i))"

lemma header_chain_snoc:
  "header_chain sha (hs @ [h]) \<longleftrightarrow> (if hs = [] then h = genesis_header sha else header_chain sha hs \<and> follows sha (last hs) h)"
proof (cases "hs = []")
  case False
  then obtain n where n: "length hs = Suc n" by (cases hs) auto
  have "(\<forall>i. Suc i < length (hs @ [h]) \<longrightarrow> follows sha ((hs @ [h]) ! i) ((hs @ [h]) ! Suc i)) \<longleftrightarrow>
      (\<forall>i. Suc i < length hs \<longrightarrow> follows sha (hs ! i) (hs ! Suc i)) \<and> follows sha (last hs) h"
    using False n by (auto simp: nth_append last_conv_nth less_Suc_eq)
  then show ?thesis using False by (simp add: header_chain_def)
qed (simp add: header_chain_def)

lemma follows_next_header: "follows sha p (next_header sha (lh_Height p + 1) p)"
  by (simp add: follows_def next_header_def hashHeader_def Let_def)

lemma first_headers_chain: "header_chain sha (first_headers sha n) \<and> lh_Height (last (first_headers sha n)) = of_nat n"
proof (induction n)
  case 0
  show ?case by (simp add: header_chain_def genesis_header_def)
next
  case (Suc n)
  let ?hs = "first_headers sha n"
  have e: "(of_nat (Suc n) :: u64) = lh_Height (last ?hs) + 1" using Suc.IH by simp
  have "?hs \<noteq> []" using Suc.IH by (simp add: header_chain_def)
  then show ?case using Suc.IH follows_next_header [of sha "last ?hs"]
    by (simp del: of_nat_Suc add: Let_def header_chain_snoc e) (simp add: next_header_def Let_def)
qed

lemma fold_lcall [simp]: "lc_headers (fold lcall cs s) = lc_headers s" "lc_verifiedTxs (fold lcall cs s) = lc_verifiedTxs s"
  by (induction cs arbitrary: s) (simp_all add: lcall_def)

lemma lcall_keeps [simp]: "lc_headers (lcall c s) = lc_headers s" "lc_verifiedTxs (lcall c s) = lc_verifiedTxs s"
  by (simp_all add: lcall_def)

lemma Light_updateState_keeps [simp]:
  "lc_headers (Light_updateState s) = lc_headers s" "lc_verifiedTxs (Light_updateState s) = lc_verifiedTxs s"
  by (simp_all add: Light_updateState_def del: fold_simps fold_append)

datatype light_step = LSync LightHeader | LVerify SPVProof | LAction string

fun light_do :: "(string \<Rightarrow> byte list) \<Rightarrow> light_step \<Rightarrow> LightClientSimulator \<Rightarrow> LightClientSimulator go" where
  "light_do sha (LSync h) s = go_bind (SyncHeader sha h s) (\<lambda>(e, s). Inr s)"
| "light_do sha (LVerify p) s = go_bind (VerifySPVProof sha p s) (\<lambda>(b, s). Inr s)"
| "light_do sha (LAction a) s = go_bind (Light_ExecuteAction sha a s) (\<lambda>(e, s). Inr s)"

fun light_run :: "(string \<Rightarrow> byte list) \<Rightarrow> light_step list \<Rightarrow> LightClientSimulator \<Rightarrow> LightClientSimulator go" where
  "light_run sha [] s = Inr s"
| "light_run sha (x # xs) s = go_bind (light_do sha x s) (light_run sha xs)"

lemma SyncHeader_cases:
  assumes "SyncHeader sha h s = Inr (e, s')"
  shows "(e \<noteq> None \<and> s' = s) \<or>
    (e = None \<and> lc_headers s' = lc_headers s @ [h] \<and> lc_verifiedTxs s' = lc_verifiedTxs s \<and> (lc_headers s \<noteq> [] \<longrightarrow> follows sha (last (lc_headers s)) h))"
  using assms by (auto simp: SyncHeader_def go_bind_eq_Inr follows_def split: if_splits)

lemma VerifySPVProof_cases:
  assumes "VerifySPVProof sha p s = Inr (b, s')"
  shows "lc_headers s' = lc_headers s"
    "b \<longleftrightarrow> (\<exists>h. find (\<lambda>h. lh_Hash h = sp_BlockHash p) (lc_headers s) = Some h \<and>
       spv_climb sha (sp_MerklePath p) (sp_Directions p) (sp_TxHash p) = Inr (lh_TxRoot h))"
    "lc_verifiedTxs s' = lc_verifiedTxs s @ (if b then [sp_TxHash p] else [])"
proof -
  note d = assms [unfolded VerifySPVProof_def Let_def]
  consider (none) "find (\<lambda>h. lh_Hash h = sp_BlockHash p) (lc_headers s) = None"
    | (some) h c t where "find (\<lambda>h. lh_Hash h = sp_BlockHash p) (lc_headers s) = Some h"
        "spv_climb sha (sp_MerklePath p) (sp_Directions p) (sp_TxHash p) = Inr c" "go_slice (sp_TxHash p) 0 16 = Inr t"
    using d by (auto simp: go_bind_eq_Inr split: option.splits)
  then have "lc_headers s' = lc_headers s \<and> (b \<longleftrightarrow> (\<exists>h. find (\<lambda>h. lh_Hash h = sp_BlockHash p) (lc_headers s) = Some h \<and>
       spv_climb sha (sp_MerklePath p) (sp_Directions p) (sp_TxHash p) = Inr (lh_TxRoot h))) \<and>
    lc_verifiedTxs s' = lc_verifiedTxs s @ (if b then [sp_TxHash p] else [])"
  proof cases
    case some
    then show ?thesis using d by (cases "c = lh_TxRoot h") auto
  qed (use d in auto)
  then show "lc_headers s' = lc_headers s"
    "b \<longleftrightarrow> (\<exists>h. find (\<lambda>h. lh_Hash h = sp_BlockHash p) (lc_headers s) = Some h \<and>
       spv_climb sha (sp_MerklePath p) (sp_Directions p) (sp_TxHash p) = Inr (lh_TxRoot h))"
    "lc_verifiedTxs s' = lc_verifiedTxs s @ (if b then [sp_TxHash p] else [])"
    by blast+
qed

lemma light_do_chain:
  assumes "light_do sha x s = Inr s'" and "header_chain sha (lc_headers s)"
  shows "header_chain sha (lc_headers s') \<and> (\<exists>hs. lc_headers s' = lc_headers s @ hs)"
proof -
  have ne: "lc_headers s \<noteq> []" using assms(2) by (simp add: header_chain_def)
  have sync: "header_chain sha (lc_headers s1) \<and> (\<exists>hs. lc_headers s1 = lc_headers s @ hs)" if "SyncHeader sha h s = Inr (e, s1)" for h e s1
    using SyncHeader_cases [OF that] assms(2) ne by (auto simp: header_chain_snoc)
  show ?thesis
  proof (cases x)
    case (LSync h)
    then show ?thesis using assms(1) sync by (auto simp: go_bind_eq_Inr)
  next
    case (LVerify p)
    then show ?thesis using assms VerifySPVProof_cases(1) by (auto simp: go_bind_eq_Inr)
  next
    case (LAction a)
    then show ?thesis using assms sync by (auto simp: go_bind_eq_Inr Light_ExecuteAction_def Let_def split: if_splits)
  qed
qed

lemma light_run_chain:
  "light_run sha xs s = Inr s' \<Longrightarrow> header_chain sha (lc_headers s) \<Longrightarrow> header_chain sha (lc_headers s') \<and> (\<exists>hs. lc_headers s' = lc_headers s @ hs)"
proof (induction xs arbitrary: s)
  case (Cons x xs)
  then obtain s1 where s1: "light_do sha x s = Inr s1" "light_run sha xs s1 = Inr s'" by (auto simp: go_bind_eq_Inr)
  show ?case using light_do_chain [OF s1(1) Cons.prems(2)] Cons.IH [OF s1(2)] by (metis append_assoc)
qed simp

lemma Light_Init_chain: "header_chain sha (lc_headers (Light_Init sha s))"
  using first_headers_chain by (simp add: Light_Init_def)

text \<open>The text that is hashed for a header.\<close>

definition header_input :: "LightHeader \<Rightarrow> string" where
  "header_input h = lh_ParentHash h @ itoa (unat (lh_Height h)) @ lh_StateRoot h @ lh_TxRoot h"

lemma hashHeader_input: "hashHeader sha h = text_hash sha (header_input h)"
  by (simp add: hashHeader_def header_input_def)

lemma chain_commits:
  assumes "\<And>x. length (sha x) = 32" and "header_chain sha (as @ [a])" and "header_chain sha (bs @ [b])" and "length as = length bs"
    and "lh_Hash a = lh_Hash b"
  shows "map lh_Hash as = map lh_Hash bs \<and> lh_Height a = lh_Height b \<and> map header_input (as @ [a]) = map header_input (bs @ [b]) \<or>
    collision sha (map header_input (as @ [a])) (map header_input (bs @ [b]))"
  using assms(2-)
proof (induction "as" arbitrary: a bs b rule: rev_induct)
  case Nil
  then show ?case by (simp add: header_chain_def)
next
  case (snoc p as')
  then obtain bs' q where bs: "bs = bs' @ [q]" "length as' = length bs'" by (cases bs rule: rev_cases) auto
  have c: "header_chain sha (as' @ [p])" "header_chain sha (bs' @ [q])" "follows sha p a" "follows sha q b"
    using snoc.prems(1,2) unfolding bs by (simp_all only: header_chain_snoc [of sha "_ @ [_]"] append_is_Nil_conv list.simps if_False simp_thms last_snoc)
  have same: "sha (header_input a) = sha (header_input b)"
    using snoc.prems(4) c(3,4) by (simp add: follows_def hashHeader_input text_hash_eq)
  show ?case
  proof (cases "header_input a = header_input b")
    case False
    then have "collision sha [header_input a] [header_input b]" using same by (simp add: collision_def)
    then have "collision sha (map header_input ((as' @ [p]) @ [a])) (map header_input (bs @ [b]))" by (rule collision_mono) simp_all
    then show ?thesis ..
  next
    case True
    have len: "length (lh_Hash h) = (if hs = [] then 7 else 64)" if "header_chain sha (hs @ [h])" for hs h
      using that assms(1) by (auto simp: header_chain_snoc genesis_header_def follows_def hashHeader_def length_text_hash split: if_splits)
    have "length (lh_Hash p) = length (lh_Hash q)" using len [OF c(1)] len [OF c(2)] bs(2) by auto
    then have pq: "lh_Hash p = lh_Hash q" using True c(3,4) by (simp add: follows_def header_input_def)
    from snoc.IH [OF c(1,2) bs(2) pq] show ?thesis
    proof
      assume "map lh_Hash as' = map lh_Hash bs' \<and> lh_Height p = lh_Height q \<and> map header_input (as' @ [p]) = map header_input (bs' @ [q])"
      then show ?thesis using pq c(3,4) True unfolding bs by (auto simp: follows_def)
    next
      assume "collision sha (map header_input (as' @ [p])) (map header_input (bs' @ [q]))"
      then have "collision sha (map header_input ((as' @ [p]) @ [a])) (map header_input (bs @ [b]))"
        unfolding bs by (rule collision_mono) auto
      then show ?thesis ..
    qed
  qed
qed

text \<open>C25. 
  The hash of the last header commits to the whole chain: two clients with chains of one length and the same
  last hash have the same hashes everywhere, and the same texts were hashed for them, or a text that was hashed
  for a header of one chain has the same SHA-256 hash as a different one of the other.  The clients can be in
  any state that headers, proofs and actions lead to.
\<close>

theorem Light_tip_commits:
  assumes "\<And>x. length (sha x) = 32"
    and "light_run sha xs (Light_Init sha s) = Inr s1" and "light_run sha ys (Light_Init sha t) = Inr t1"
    and "length (lc_headers s1) = length (lc_headers t1)" and "lh_Hash (last (lc_headers s1)) = lh_Hash (last (lc_headers t1))"
  shows "map lh_Hash (lc_headers s1) = map lh_Hash (lc_headers t1) \<and> map header_input (lc_headers s1) = map header_input (lc_headers t1) \<or>
    collision sha (map header_input (lc_headers s1)) (map header_input (lc_headers t1))"
proof -
  have c: "header_chain sha (lc_headers s1)" "header_chain sha (lc_headers t1)"
    using light_run_chain Light_Init_chain assms(2,3) by blast+
  then obtain as' a bs' b where e: "lc_headers s1 = as' @ [a]" "lc_headers t1 = bs' @ [b]" by (metis append_butlast_last_id header_chain_def)
  have "map lh_Hash as' = map lh_Hash bs' \<and> lh_Height a = lh_Height b \<and> map header_input (as' @ [a]) = map header_input (bs' @ [b]) \<or>
      collision sha (map header_input (as' @ [a])) (map header_input (bs' @ [b]))"
    by (rule chain_commits) (use assms(1,4,5) c in \<open>simp_all add: e\<close>)
  then show ?thesis using assms(5) by (simp add: e) blast
qed

text \<open>The headers that the client has, and what proofs were accepted.\<close>

theorem Light_headers:
  assumes "light_run sha xs (Light_Init sha s) = Inr s'"
  shows "\<exists>hs. lc_headers s' = first_headers sha 10 @ hs \<and> header_chain sha (lc_headers s')"
  using light_run_chain [OF assms Light_Init_chain] by (simp add: Light_Init_def)

text \<open>The texts that are hashed to check a proof.\<close>

fun spv_inputs :: "(string \<Rightarrow> byte list) \<Rightarrow> string list \<Rightarrow> string list \<Rightarrow> string \<Rightarrow> string list" where
  "spv_inputs sha (sib # p) (d # ds) x =
     (let y = (if d = ''left'' then sib @ x else x @ sib) in y # spv_inputs sha p ds (text_hash sha y))"
| "spv_inputs sha _ _ x = []"

lemma spv_climb_binding:
  assumes "spv_climb sha p ds x = Inr r" and "spv_climb sha q ds y = Inr r" and "length p = length q" and "length x = length y"
    and "\<And>x. length (sha x) = 32"
  shows "x = y \<or> collision sha (spv_inputs sha p ds x) (spv_inputs sha q ds y)"
  using assms(1-4)
proof (induction p arbitrary: q ds x y)
  case (Cons sib p)
  obtain sib' q' where q: "q = sib' # q'" "length p = length q'" using Cons.prems(3) by (cases q) auto
  obtain d ds' where ds: "ds = d # ds'" using Cons.prems(1) by (cases ds) auto
  let ?a = "if d = ''left'' then sib @ x else x @ sib" and ?b = "if d = ''left'' then sib' @ y else y @ sib'"
  let ?u = "text_hash sha ?a" and ?v = "text_hash sha ?b"
  have ins: "spv_inputs sha (sib # p) ds x = ?a # spv_inputs sha p ds' ?u" "spv_inputs sha q ds y = ?b # spv_inputs sha q' ds' ?v"
    by (simp_all only: q(1) ds spv_inputs.simps Let_def)
  have "?u = ?v \<or> collision sha (spv_inputs sha p ds' ?u) (spv_inputs sha q' ds' ?v)"
    by (rule Cons.IH) (use Cons.prems(1,2) q assms(5) ds in \<open>simp_all add: length_text_hash\<close>)
  then show ?case
  proof
    assume "?u = ?v"
    then have same: "sha ?a = sha ?b" by (simp only: text_hash_eq)
    show ?thesis
    proof (cases "?a = ?b")
      case True
      then have "x = y" using Cons.prems(4) by (cases "d = ''left''") (auto simp: append_eq_append_conv)
      then show ?thesis ..
    next
      case False
      then show ?thesis unfolding ins by (intro disjI2 collision_head same)
    qed
  next
    assume "collision sha (spv_inputs sha p ds' ?u) (spv_inputs sha q' ds' ?v)"
    then show ?thesis unfolding ins by (intro disjI2 collision_tail)
  qed
qed simp

text \<open>
  A proof binds the transaction to the block: two accepted proofs for one block, with the same directions
  and paths of one length, are for the same transaction, if the names of the transactions have one length
  and no text that is hashed to check one of them has the hash of a different one for the other.
\<close>

theorem SPV_binding:
  assumes "\<And>x. length (sha x) = 32" and "VerifySPVProof sha p s = Inr (True, s1)" and "VerifySPVProof sha q s = Inr (True, s2)"
    and "sp_BlockHash p = sp_BlockHash q" and "sp_Directions p = sp_Directions q" and "length (sp_MerklePath p) = length (sp_MerklePath q)"
    and "length (sp_TxHash p) = length (sp_TxHash q)"
  shows "sp_TxHash p = sp_TxHash q \<or>
    collision sha (spv_inputs sha (sp_MerklePath p) (sp_Directions p) (sp_TxHash p)) (spv_inputs sha (sp_MerklePath q) (sp_Directions q) (sp_TxHash q))"
proof -
  obtain h where "find (\<lambda>h. lh_Hash h = sp_BlockHash p) (lc_headers s) = Some h"
      "spv_climb sha (sp_MerklePath p) (sp_Directions p) (sp_TxHash p) = Inr (lh_TxRoot h)"
    using VerifySPVProof_cases(2) [OF assms(2)] by blast
  moreover obtain k where "find (\<lambda>h. lh_Hash h = sp_BlockHash q) (lc_headers s) = Some k"
      "spv_climb sha (sp_MerklePath q) (sp_Directions q) (sp_TxHash q) = Inr (lh_TxRoot k)"
    using VerifySPVProof_cases(2) [OF assms(3)] by blast
  ultimately show ?thesis using spv_climb_binding [OF _ _ assms(6,7,1)] assms(4,5) by auto
qed

text \<open>
  Any inner node of the tree, not only a leaf, is accepted as a transaction: a proof without its first step
  is a proof for the hash that the step leads to.
\<close>

theorem SPV_inner_node:
  assumes "\<And>x. length (sha x) = 32" and "VerifySPVProof sha p s = Inr (True, s1)" and "sp_MerklePath p \<noteq> []"
  shows "\<exists>q s2. VerifySPVProof sha q s = Inr (True, s2) \<and> length (sp_MerklePath q) < length (sp_MerklePath p) \<and>
    last (lc_verifiedTxs s2) = text_hash sha (if hd (sp_Directions p) = ''left'' then hd (sp_MerklePath p) @ sp_TxHash p else sp_TxHash p @ hd (sp_MerklePath p))"
proof -
  obtain h where h: "find (\<lambda>h. lh_Hash h = sp_BlockHash p) (lc_headers s) = Some h"
      "spv_climb sha (sp_MerklePath p) (sp_Directions p) (sp_TxHash p) = Inr (lh_TxRoot h)"
    using VerifySPVProof_cases(2) [OF assms(2)] by blast
  obtain sib path where m: "sp_MerklePath p = sib # path" using assms(3) by (cases "sp_MerklePath p") auto
  obtain d ds where d: "sp_Directions p = d # ds" using h(2) m by (cases "sp_Directions p") auto
  let ?tx = "text_hash sha (if d = ''left'' then sib @ sp_TxHash p else sp_TxHash p @ sib)"
  let ?q = "p\<lparr>sp_TxHash := ?tx, sp_MerklePath := path, sp_Directions := ds\<rparr>"
  have "spv_climb sha path ds ?tx = Inr (lh_TxRoot h)" using h(2) m d by simp
  moreover have "length ?tx = 64" using assms(1) by (simp add: length_text_hash)
  ultimately obtain s2 where s2: "VerifySPVProof sha ?q s = Inr (True, s2)" using h(1) by (simp add: VerifySPVProof_def Let_def go_bind_def go_slice_def)
  show ?thesis using s2 VerifySPVProof_cases(3) [OF s2] m d by (intro exI [of _ ?q] exI [of _ s2]) simp
qed


text \<open>A chain whose client takes the next header of the demonstration, with a hash that is always the same.\<close>

definition const_sha :: "string \<Rightarrow> byte list" where
  "const_sha x = 0 # replicate 31 0"

lemma length_const_sha [simp]: "length (const_sha x) = 32"
  by (simp add: const_sha_def)

lemma Light_next_header:
  assumes "header_chain sha (lc_headers s)" and "\<And>x. length (sha x) = 32"
  shows "\<exists>h s'. Light_ExecuteAction sha ''sync_next_header'' s = Inr (Inr h, s') \<and> lc_headers s' = lc_headers s @ [h]"
proof -
  let ?h = "next_header sha (lh_Height (last (lc_headers s)) + 1) (last (lc_headers s))"
  have "lc_headers s \<noteq> []" using assms(1) by (simp add: header_chain_def)
  moreover have "length (lh_Hash ?h) = 64" using follows_next_header [of sha "last (lc_headers s)"] assms(2)
    by (simp add: follows_def hashHeader_def length_text_hash)
  ultimately show ?thesis using follows_next_header [of sha "last (lc_headers s)"]
    by (simp add: Light_ExecuteAction_def SyncHeader_def follows_def Let_def go_bind_def go_slice_def)
qed

text \<open>Two clients take different headers, whose hashes are the same.\<close>

theorem Light_tip_commits_witness:
  "\<exists>h s1 t1. light_run const_sha [LAction ''sync_next_header''] (Light_Init const_sha NewLightClientSimulator) = Inr s1 \<and>
     light_run const_sha [LSync h] (Light_Init const_sha NewLightClientSimulator) = Inr t1 \<and>
     lc_headers s1 \<noteq> lc_headers t1 \<and> collision const_sha (map header_input (lc_headers s1)) (map header_input (lc_headers t1))"
proof -
  let ?s = "Light_Init const_sha NewLightClientSimulator"
  obtain h s1 where s: "Light_ExecuteAction const_sha ''sync_next_header'' ?s = Inr (Inr h, s1)" "lc_headers s1 = lc_headers ?s @ [h]"
    using Light_next_header [OF Light_Init_chain [of const_sha]] by (metis length_const_sha)
  then have r: "light_run const_sha [LAction ''sync_next_header''] ?s = Inr s1" by (simp add: go_bind_def)
  have chain: "header_chain const_sha (lc_headers ?s @ [h])" using light_run_chain [OF r Light_Init_chain] s(2) by simp
  have ne: "lc_headers ?s \<noteq> []" using Light_Init_chain [of const_sha NewLightClientSimulator] by (simp add: header_chain_def)
  let ?h = "h\<lparr>lh_TxRoot := CHR ''x'' # lh_TxRoot h\<rparr>"
  have same: "hashHeader const_sha ?h = hashHeader const_sha h" by (simp add: hashHeader_def text_hash_def const_sha_def)
  have f: "follows const_sha (last (lc_headers ?s)) ?h" using chain ne same by (simp add: header_chain_snoc follows_def)
  have "length (lh_Hash ?h) = 64" using chain ne by (simp add: header_chain_snoc follows_def hashHeader_def length_text_hash)
  then obtain t1 where t: "light_run const_sha [LSync ?h] ?s = Inr t1" "lc_headers t1 = lc_headers ?s @ [?h]"
    using f ne by (simp add: SyncHeader_def follows_def Let_def go_bind_def go_slice_def)
  have "header_input h \<noteq> header_input ?h" by (simp add: header_input_def)
  then have "map header_input (lc_headers s1) \<noteq> map header_input (lc_headers t1)" by (simp add: s(2) t(2))
  moreover have "length (lc_headers s1) = length (lc_headers t1)" "lh_Hash (last (lc_headers s1)) = lh_Hash (last (lc_headers t1))"
    by (simp_all add: s(2) t(2))
  ultimately show ?thesis using Light_tip_commits [OF length_const_sha r t(1)] r t(1) by metis
qed

theorem Light_headers_witness:
  "\<exists>s1 hs. light_run const_sha [LAction ''sync_next_header''] (Light_Init const_sha NewLightClientSimulator) = Inr s1 \<and>
     lc_headers s1 = first_headers const_sha 10 @ hs \<and> hs \<noteq> []"
proof -
  obtain h s1 where s: "Light_ExecuteAction const_sha ''sync_next_header'' (Light_Init const_sha NewLightClientSimulator) = Inr (Inr h, s1)"
      "lc_headers s1 = lc_headers (Light_Init const_sha NewLightClientSimulator) @ [h]"
    using Light_next_header [OF Light_Init_chain [of const_sha]] by (metis length_const_sha)
  then have r: "light_run const_sha [LAction ''sync_next_header''] (Light_Init const_sha NewLightClientSimulator) = Inr s1" by (simp add: go_bind_def)
  then show ?thesis using Light_headers [OF r] s(2) by (auto simp: Light_Init_def)
qed

definition sample_proof :: SPVProof where
  "sample_proof = \<lparr>sp_TxHash = replicate 64 (CHR ''a''), sp_BlockHash = ''genesis'', sp_BlockHeight = 0, sp_MerklePath = [''b''], sp_Directions = [''left'']\<rparr>"

lemma sample_proof_accepted: "\<exists>s1. VerifySPVProof const_sha sample_proof (Light_Init const_sha NewLightClientSimulator) = Inr (True, s1)"
proof -
  have "\<exists>hs. first_headers const_sha n = genesis_header const_sha # hs" for n by (induction n) (auto simp: Let_def)
  then obtain hs where "lc_headers (Light_Init const_sha NewLightClientSimulator) = genesis_header const_sha # hs" by (auto simp: Light_Init_def)
  then show ?thesis by (simp add: VerifySPVProof_def sample_proof_def genesis_header_def text_hash_def const_sha_def Let_def go_bind_def go_slice_def)
qed

theorem SPV_binding_witness:
  "\<exists>s1. VerifySPVProof const_sha sample_proof (Light_Init const_sha NewLightClientSimulator) = Inr (True, s1) \<and>
     (\<forall>q s2. VerifySPVProof const_sha q (Light_Init const_sha NewLightClientSimulator) = Inr (True, s2) \<longrightarrow>
        q = sample_proof\<lparr>sp_TxHash := replicate 64 (CHR ''c'')\<rparr> \<longrightarrow>
        collision const_sha (spv_inputs const_sha (sp_MerklePath sample_proof) (sp_Directions sample_proof) (sp_TxHash sample_proof))
          (spv_inputs const_sha (sp_MerklePath q) (sp_Directions q) (sp_TxHash q)))"
proof -
  obtain s1 where s1: "VerifySPVProof const_sha sample_proof (Light_Init const_sha NewLightClientSimulator) = Inr (True, s1)"
    using sample_proof_accepted by blast
  show ?thesis
  proof (intro exI [of _ s1] conjI allI impI s1)
    fix q s2 assume q: "VerifySPVProof const_sha q (Light_Init const_sha NewLightClientSimulator) = Inr (True, s2)"
      and e: "q = sample_proof\<lparr>sp_TxHash := replicate 64 (CHR ''c'')\<rparr>"
    have ne: "sp_TxHash sample_proof \<noteq> sp_TxHash q" unfolding e by (simp add: sample_proof_def)
    have eqs: "sp_BlockHash sample_proof = sp_BlockHash q" "sp_Directions sample_proof = sp_Directions q"
      "length (sp_MerklePath sample_proof) = length (sp_MerklePath q)" "length (sp_TxHash sample_proof) = length (sp_TxHash q)"
      unfolding e by (simp_all add: sample_proof_def)
    show "collision const_sha (spv_inputs const_sha (sp_MerklePath sample_proof) (sp_Directions sample_proof) (sp_TxHash sample_proof))
          (spv_inputs const_sha (sp_MerklePath q) (sp_Directions q) (sp_TxHash q))"
      using SPV_binding [OF length_const_sha s1 q eqs] ne by blast
  qed
qed

theorem SPV_inner_node_witness:
  "\<exists>q s2. VerifySPVProof const_sha q (Light_Init const_sha NewLightClientSimulator) = Inr (True, s2) \<and> sp_MerklePath q = []"
proof -
  have ne: "sp_MerklePath sample_proof \<noteq> []" by (simp add: sample_proof_def)
  obtain s1 where "VerifySPVProof const_sha sample_proof (Light_Init const_sha NewLightClientSimulator) = Inr (True, s1)" using sample_proof_accepted by blast
  then obtain q s2 where "VerifySPVProof const_sha q (Light_Init const_sha NewLightClientSimulator) = Inr (True, s2)"
      "length (sp_MerklePath q) < length (sp_MerklePath sample_proof)"
    using SPV_inner_node [OF _ _ ne, of const_sha] length_const_sha by blast
  then show ?thesis by (auto simp: sample_proof_def)
qed

subsection \<open>The structure of a block\<close>

text \<open>The root is that of the transactions, and the hash that of the fields.\<close>

definition block_ok :: "(string \<Rightarrow> byte list) \<Rightarrow> DemoBlock \<Rightarrow> bool" where
  "block_ok sha b \<longleftrightarrow> bl_Hash b = computeBlockHash sha b \<and> bl_MerkleRoot b = computeMerkleRoot sha (bl_Transactions b)"

definition blocks_inv :: "(string \<Rightarrow> byte list) \<Rightarrow> BlockStructureSimulator \<Rightarrow> bool" where
  "blocks_inv sha s \<longleftrightarrow> bk_chain s \<noteq> [] \<and> (\<forall>b\<in>set (bk_chain s). block_ok sha b) \<and> (\<forall>b\<in>set (tl (bk_chain s)). meets_difficulty b) \<and>
     (\<exists>b. bk_currentBlock s = Some b \<and> block_ok sha b)"

lemma computeBlockHash_cong [simp]:
  "computeBlockHash sha (b\<lparr>bl_Hash := h\<rparr>) = computeBlockHash sha b" "computeBlockHash sha (b\<lparr>bl_Transactions := ts\<rparr>) = computeBlockHash sha b"
  by (simp_all add: computeBlockHash_def)

lemma empty_block_ok: "block_ok sha (empty_block sha p t d)"
  by (simp add: block_ok_def empty_block_def computeBlockHash_def Let_def)

lemma fold_bkcall [simp]: "bk_chain (fold bkcall cs s) = bk_chain s" "bk_currentBlock (fold bkcall cs s) = bk_currentBlock s"
  by (induction cs arbitrary: s) (simp_all add: bkcall_def)

lemma bkcall_keeps [simp]: "bk_chain (bkcall c s) = bk_chain s" "bk_currentBlock (bkcall c s) = bk_currentBlock s"
  by (simp_all add: bkcall_def)

lemma Block_updateState_eq:
  "Block_updateState s = Inr s' \<Longrightarrow> bk_chain s' = bk_chain s \<and> bk_currentBlock s' = bk_currentBlock s"
  by (auto simp: Block_updateState_def go_bind_eq_Inr)

lemma Block_updateState_ok: "bk_currentBlock s = Some b \<Longrightarrow> \<exists>s'. Block_updateState s = Inr s'"
  by (simp add: Block_updateState_def)

lemma try_nonce_simps [simp]:
  "try_nonce sha i (try_nonce sha j b) = try_nonce sha i b" "bl_MerkleRoot (try_nonce sha i b) = bl_MerkleRoot b"
  "bl_Transactions (try_nonce sha i b) = bl_Transactions b" "bl_Nonce (try_nonce sha i b) = i"
  "bl_PrevBlockHash (try_nonce sha i b) = bl_PrevBlockHash b"
  by (simp_all add: try_nonce_def computeBlockHash_def Let_def)

lemma try_nonce_ok: "block_ok sha b \<Longrightarrow> block_ok sha (try_nonce sha i b)"
  by (simp add: block_ok_def) (simp add: try_nonce_def computeBlockHash_def Let_def)

text \<open>The loop finds the first number that meets the difficulty, if there is one in its range.\<close>

lemma mine_loop_spec:
  "case mine_loop sha n i b of
     (True, b') \<Rightarrow> \<exists>k<n. b' = try_nonce sha (i + of_nat k) b \<and> meets_difficulty b' \<and> (\<forall>j<k. \<not> meets_difficulty (try_nonce sha (i + of_nat j) b))
   | (False, b') \<Rightarrow> (\<forall>j<n. \<not> meets_difficulty (try_nonce sha (i + of_nat j) b)) \<and> b' = (if n = 0 then b else try_nonce sha (i + of_nat (n - 1)) b)"
proof (induction n arbitrary: i b)
  case (Suc n)
  let ?b = "try_nonce sha i b"
  show ?case
  proof (cases "meets_difficulty ?b")
    case True
    then show ?thesis by (auto simp: Let_def intro!: exI [of _ 0])
  next
    case False
    have r: "mine_loop sha (Suc n) i b = mine_loop sha n (i + 1) ?b" using False by (simp add: Let_def)
    have s: "i + 1 + of_nat j = i + of_nat (Suc j)" for j :: nat by simp
    have a: "(\<forall>j<Suc m. P j) \<longleftrightarrow> P 0 \<and> (\<forall>j<m. P (Suc j))" for m and P :: "nat \<Rightarrow> bool" by (auto simp: less_Suc_eq_0_disj)
    show ?thesis
    proof (cases "mine_loop sha n (i + 1) ?b")
      case (Pair found b')
      note I = Suc.IH [of "i + 1" ?b, unfolded Pair prod.case]
      show ?thesis
      proof (cases found)
        case True
        then obtain k where k: "k < n" "b' = try_nonce sha (i + of_nat (Suc k)) b" "meets_difficulty b'"
            "\<forall>j<k. \<not> meets_difficulty (try_nonce sha (i + of_nat (Suc j)) b)"
          using I unfolding s by auto
        have "\<forall>j<Suc k. \<not> meets_difficulty (try_nonce sha (i + of_nat j) b)" unfolding a using k(4) False by simp
        then show ?thesis using k True unfolding r Pair by (auto simp del: of_nat_Suc intro!: exI [of _ "Suc k"])
      next
        case f: False
        then have k: "\<forall>j<n. \<not> meets_difficulty (try_nonce sha (i + of_nat (Suc j)) b)"
            "b' = (if n = 0 then ?b else try_nonce sha (i + of_nat (Suc (n - 1))) b)"
          using I unfolding s by auto
        have "\<forall>j<Suc n. \<not> meets_difficulty (try_nonce sha (i + of_nat j) b)" unfolding a using k(1) False by simp
        then show ?thesis using k(2) f unfolding r Pair by (auto simp del: of_nat_Suc)
      qed
    qed
  qed
qed simp


text \<open>What is done to the block.\<close>

datatype block_step = BSet block_env string gval | BAdd string | BMine int | BAction block_env int string "(string, gval) gomap"

fun block_do :: "(string \<Rightarrow> byte list) \<Rightarrow> block_step \<Rightarrow> BlockStructureSimulator \<Rightarrow> BlockStructureSimulator go" where
  "block_do sha (BSet v f x) s = go_bind (SetField sha v f x s) (\<lambda>(e, s). Inr s)"
| "block_do sha (BAdd tx) s = Block_AddTransaction sha tx s"
| "block_do sha (BMine now) s = go_bind (MineBlock sha now s) (\<lambda>(e, s). Inr s)"
| "block_do sha (BAction v now a ps) s = go_bind (Block_ExecuteAction sha v now a ps s) (\<lambda>(e, s). Inr s)"

fun block_run :: "(string \<Rightarrow> byte list) \<Rightarrow> block_step list \<Rightarrow> BlockStructureSimulator \<Rightarrow> BlockStructureSimulator go" where
  "block_run sha [] s = Inr s"
| "block_run sha (x # xs) s = go_bind (block_do sha x s) (block_run sha xs)"

lemma set_field_keeps: "set_field v f x b = Some b' \<Longrightarrow> bl_Hash b' = bl_Hash b \<and> bl_MerkleRoot b' = bl_MerkleRoot b \<and> bl_Transactions b' = bl_Transactions b"
  by (auto simp: set_field_def split: if_splits)

lemma length_text_level_hash:
  assumes "\<And>x. length (sha x) = 32" and "h \<in> set (text_level sha hs)"
  shows "length h = 64"
  using assms by (induction sha hs rule: text_level.induct) (auto simp: length_text_hash)

lemma length_text_root:
  assumes "\<And>x. length (sha x) = 32" and "hs \<noteq> []" and "\<forall>h\<in>set hs. length h = 64"
  shows "length (text_root sha hs) = 64"
  using assms(2,3)
proof (induction hs rule: measure_induct_rule [of length])
  case (less hs)
  show ?case
  proof (cases "1 < length hs")
    case True
    then have "text_level sha hs \<noteq> []" "length (text_level sha hs) < length hs" using length_text_level [of sha hs] by auto
    moreover have "\<forall>h\<in>set (text_level sha hs). length h = 64" by (intro ballI length_text_level_hash) (use assms(1) in auto)
    ultimately have "length (text_root sha (text_level sha hs)) = 64" using less.IH by blast
    then show ?thesis using True by (simp add: text_root.simps [of sha hs])
  qed (use less.prems in \<open>simp add: text_root.simps\<close>)
qed

lemma length_computeMerkleRoot: "(\<And>x. length (sha x) = 32) \<Longrightarrow> length (computeMerkleRoot sha txs) = 64"
  by (auto simp: computeMerkleRoot_def zero_text_def length_text_hash intro!: length_text_root)

lemma SetField_inv:
  assumes "blocks_inv sha s" and "\<And>x. length (sha x) = 32"
  shows "\<exists>e s'. SetField sha v f x s = Inr (e, s') \<and> blocks_inv sha s'"
proof -
  obtain b0 where b: "bk_currentBlock s = Some b0" "block_ok sha b0" using assms(1) by (auto simp: blocks_inv_def)
  show ?thesis
  proof (cases "set_field v f x b0")
    case None
    then show ?thesis using assms(1) b by (simp add: SetField_def go_bind_def)
  next
    case (Some b1)
    let ?b = "b1\<lparr>bl_Hash := computeBlockHash sha b1\<rparr>"
    have k: "block_ok sha ?b" "length (bl_Hash b1) = 64" "length (bl_Hash ?b) = 64"
      using set_field_keeps [OF Some] b(2) assms(2) by (simp_all add: block_ok_def) (simp_all add: computeBlockHash_def length_text_hash)
    obtain old new where sl: "go_slice (bl_Hash b1) 0 16 = Inr old" "go_slice (bl_Hash ?b) 0 16 = Inr new" using k by (simp add: go_slice_def)
    let ?s = "bkcall (CallEmit ''field_changed'' [] [] (Some [(''field'', GStr f), (''value'', x), (''old_hash'', GStr old),
      (''new_hash'', GStr new)])) (s\<lparr>bk_currentBlock := Some ?b\<rparr>)"
    obtain s' where s': "Block_updateState ?s = Inr s'" using Block_updateState_ok [of ?s ?b] by auto
    have "blocks_inv sha s'" using Block_updateState_eq [OF s'] assms(1) k(1) by (simp add: blocks_inv_def)
    moreover have "SetField sha v f x s = Inr (None, s')" using Some b(1) sl s' by (simp add: SetField_def Let_def)
    ultimately show ?thesis by blast
  qed
qed

lemma Block_AddTransaction_inv:
  assumes "blocks_inv sha s" and "\<And>x. length (sha x) = 32"
  shows "\<exists>s'. Block_AddTransaction sha tx s = Inr s' \<and> blocks_inv sha s'"
proof -
  obtain b0 where b: "bk_currentBlock s = Some b0" "block_ok sha b0" using assms(1) by (auto simp: blocks_inv_def)
  let ?m = "computeMerkleRoot sha (bl_Transactions b0 @ [tx])"
  let ?b1 = "b0\<lparr>bl_Transactions := bl_Transactions b0 @ [tx], bl_MerkleRoot := ?m\<rparr>"
  let ?b = "?b1\<lparr>bl_Hash := computeBlockHash sha ?b1\<rparr>"
  have k: "block_ok sha ?b" by (simp add: block_ok_def computeBlockHash_def)
  have l: "length (bl_MerkleRoot b0) = 64" "length (bl_Hash b0) = 64" "length ?m = 64" "length (bl_Hash ?b) = 64"
    using b(2) assms(2) by (simp_all add: block_ok_def length_computeMerkleRoot) (simp_all add: computeBlockHash_def length_text_hash)
  obtain om nm oh nh where sl: "go_slice (bl_MerkleRoot b0) 0 16 = Inr om" "go_slice ?m 0 16 = Inr nm" "go_slice (bl_Hash b0) 0 16 = Inr oh"
      "go_slice (bl_Hash ?b) 0 16 = Inr nh" using l by (simp add: go_slice_def)
  let ?s = "bkcall (CallEmit ''transaction_added'' [] [] (Some [(''tx'', GStr tx), (''old_merkle'', GStr om), (''new_merkle'', GStr nm),
    (''old_hash'', GStr oh), (''new_hash'', GStr nh)])) (s\<lparr>bk_currentBlock := Some ?b\<rparr>)"
  obtain s' where s': "Block_updateState ?s = Inr s'" using Block_updateState_ok [of ?s ?b] by auto
  have "blocks_inv sha s'" using Block_updateState_eq [OF s'] assms(1) k by (simp add: blocks_inv_def)
  moreover have "Block_AddTransaction sha tx s = Inr s'" using b(1) sl s' by (simp add: Block_AddTransaction_def Let_def)
  ultimately show ?thesis by blast
qed

lemma MineBlock_inv:
  assumes "blocks_inv sha s" and "MineBlock sha now s = Inr (ok, s')"
  shows "blocks_inv sha s'"
proof -
  obtain b0 where b: "bk_currentBlock s = Some b0" "block_ok sha b0" using assms(1) by (auto simp: blocks_inv_def)
  obtain found b1 where m: "mine_loop sha 1000000 0 b0 = (found, b1)" by (cases "mine_loop sha 1000000 0 b0")
  note sp = mine_loop_spec [where sha = sha and n = 1000000 and i = 0 and b = b0, unfolded m prod.case]
  show ?thesis
  proof (cases found)
    case False
    then have "block_ok sha b1" using sp try_nonce_ok [OF b(2)] by auto
    then show ?thesis using assms b(1) m False by (auto simp: MineBlock_def blocks_inv_def)
  next
    case True
    then have k: "block_ok sha b1" "meets_difficulty b1" using sp try_nonce_ok [OF b(2)] by auto
    have "bk_chain s' = bk_chain s @ [b1] \<and> bk_currentBlock s' = Some (createNewBlock sha now b1)"
      using assms(2) b(1) m True by (auto simp: MineBlock_def go_bind_eq_Inr dest!: Block_updateState_eq)
    then show ?thesis using assms(1) k by (auto simp: blocks_inv_def createNewBlock_def empty_block_ok)
  qed
qed

lemma MineBlock_ok: "bk_currentBlock s = Some b \<Longrightarrow> \<exists>ok s'. MineBlock sha now s = Inr (ok, s')"
proof -
  assume b: "bk_currentBlock s = Some b"
  obtain found b1 where m: "mine_loop sha 1000000 0 b = (found, b1)" by (cases "mine_loop sha 1000000 0 b")
  let ?s = "bkcall (CallEmit ''block_mined'' [] [] (Some [(''nonce'', GInt (uint (bl_Nonce b1))), (''hash'', GStr (bl_Hash b1))]))
    (s\<lparr>bk_chain := bk_chain s @ [b1], bk_currentBlock := Some (createNewBlock sha now b1)\<rparr>)"
  obtain s' where "Block_updateState ?s = Inr s'" using Block_updateState_ok [of ?s] by auto
  then show ?thesis using b m by (cases found) (auto simp: MineBlock_def)
qed

text \<open>C27. 
  Nothing panics, and whatever is done, every block of the chain has the root of its transactions and the
  hash of its fields, and every mined one meets the difficulty that it states; so does the block that is
  edited, but for the difficulty.
\<close>

theorem Blocks_consistent:
  assumes "\<And>x. length (sha x) = 32"
  shows "\<exists>s0 s1. Block_Init sha now s = Inr s0 \<and> block_run sha xs s0 = Inr s1 \<and> blocks_inv sha s1"
proof -
  let ?s = "s\<lparr>bk_chain := [createGenesisBlock sha], bk_currentBlock := Some (createNewBlock sha now (createGenesisBlock sha))\<rparr>"
  obtain s0 where s0: "Block_Init sha now s = Inr s0" "Block_updateState ?s = Inr s0" using Block_updateState_ok [of ?s] by (auto simp: Block_Init_def Let_def)
  have i0: "blocks_inv sha s0" using Block_updateState_eq [OF s0(2)] by (simp add: blocks_inv_def createGenesisBlock_def createNewBlock_def empty_block_ok)
  have mine: "\<exists>ok s'. MineBlock sha now s = Inr (ok, s') \<and> blocks_inv sha s'" if "blocks_inv sha s" for s now
  proof -
    obtain b where "bk_currentBlock s = Some b" using \<open>blocks_inv sha s\<close> by (auto simp: blocks_inv_def)
    then show ?thesis using MineBlock_ok MineBlock_inv [OF that] by blast
  qed
  have step: "\<exists>s'. block_do sha x s = Inr s' \<and> blocks_inv sha s'" if i: "blocks_inv sha s" for x s
  proof (cases x)
    case (BSet v f y)
    then show ?thesis using SetField_inv [OF i assms, of v f y] by (auto simp: go_bind_def)
  next
    case (BAdd tx)
    then show ?thesis using Block_AddTransaction_inv [OF i assms] by simp
  next
    case (BMine t)
    then show ?thesis using mine [OF i, of t] by (auto simp: go_bind_def)
  next
    case (BAction v t a ps)
    note A = Block_AddTransaction_inv [OF i assms, of "text_param ''tx'' (''tx-'' @ int_text 10 t) ps"]
    note S = SetField_inv [OF i assms, of v "text_param ''field'' ''nonce'' ps" "case go_get ps ''value'' of None \<Rightarrow> GNil | Some x \<Rightarrow> x"]
    consider "a = ''add_transaction''" | "a = ''mine_block''" | "a = ''set_field''" | "a \<notin> {''add_transaction'', ''mine_block'', ''set_field''}" by blast
    then show ?thesis
    proof cases
      case 1
      then show ?thesis using A unfolding BAction by (auto simp: Block_ExecuteAction_def)
    next
      case 2
      then show ?thesis using mine [OF i, of t] unfolding BAction by (auto simp: Block_ExecuteAction_def)
    next
      case 3
      then show ?thesis using S unfolding BAction by (auto simp: Block_ExecuteAction_def)
    next
      case 4
      then show ?thesis using i unfolding BAction by (simp add: Block_ExecuteAction_def)
    qed
  qed
  have "\<exists>s1. block_run sha xs s = Inr s1 \<and> blocks_inv sha s1" if "blocks_inv sha s" for xs s
    using that
  proof (induction xs arbitrary: s)
    case (Cons x xs)
    then show ?case using step [OF Cons.prems, of x] by (auto simp: go_bind_def)
  qed simp
  then show ?thesis using s0(1) i0 by blast
qed

theorem Blocks_consistent_witness:
  "\<exists>s0 s1. Block_Init const_sha 0 NewBlockStructureSimulator = Inr s0 \<and> block_run const_sha [BAdd ''a'', BAdd ''b'', BMine 5] s0 = Inr s1 \<and> blocks_inv const_sha s1"
  by (rule Blocks_consistent) simp

text \<open>
  Mining takes the first number below a million that meets the difficulty, and says so just when there is
  one; the block that follows states the hash of the block that was mined.
\<close>

theorem Block_mine:
  assumes "bk_currentBlock s = Some b"
  shows "\<exists>ok s'. MineBlock sha now s = Inr (ok, s') \<and>
    (ok \<longleftrightarrow> (\<exists>k<1000000. meets_difficulty (try_nonce sha (of_nat k) b))) \<and>
    (ok = False \<or> (\<exists>k<1000000. bk_chain s' = bk_chain s @ [try_nonce sha (of_nat k) b] \<and> meets_difficulty (try_nonce sha (of_nat k) b) \<and>
        (\<forall>j<k. \<not> meets_difficulty (try_nonce sha (of_nat j) b)) \<and>
        map_option bl_PrevBlockHash (bk_currentBlock s') = Some (bl_Hash (try_nonce sha (of_nat k) b))))"
proof -
  obtain ok s' where r: "MineBlock sha now s = Inr (ok, s')" using MineBlock_ok [OF assms] by blast
  obtain found b1 where m: "mine_loop sha 1000000 0 b = (found, b1)" by (cases "mine_loop sha 1000000 0 b")
  note sp = mine_loop_spec [where sha = sha and n = 1000000 and i = 0 and b = b, unfolded m prod.case]
  have f: "ok = found" using r assms m by (cases found) (auto simp: MineBlock_def go_bind_eq_Inr)
  show ?thesis
  proof (cases found)
    case False
    then show ?thesis using r f sp by auto
  next
    case True
    then obtain k where k: "k < 1000000" "b1 = try_nonce sha (of_nat k) b" "meets_difficulty b1" "\<forall>j<k. \<not> meets_difficulty (try_nonce sha (of_nat j) b)"
      using sp by auto
    have "bk_chain s' = bk_chain s @ [b1] \<and> bk_currentBlock s' = Some (createNewBlock sha now b1)"
      using r assms m True by (auto simp: MineBlock_def go_bind_eq_Inr dest!: Block_updateState_eq)
    then show ?thesis using r f True k by (auto simp: createNewBlock_def empty_block_def Let_def)
  qed
qed

theorem Block_mine_witness:
  "\<exists>s s'. bk_currentBlock s = Some (empty_block const_sha [] 0 1) \<and> MineBlock const_sha 7 s = Inr (True, s')"
proof -
  let ?b = "empty_block const_sha [] 0 1" let ?s = "NewBlockStructureSimulator\<lparr>bk_currentBlock := Some ?b\<rparr>"
  have "meets_difficulty (try_nonce const_sha (of_nat 0) ?b)"
    by (simp add: meets_difficulty_def try_nonce_def empty_block_def computeBlockHash_def text_hash_def const_sha_def hex_digit_def Let_def)
  then have ex: "\<exists>k<1000000. meets_difficulty (try_nonce const_sha (of_nat k) ?b)" by (intro exI [of _ 0]) simp
  have cur: "bk_currentBlock ?s = Some ?b" by simp
  obtain ok s' where "MineBlock const_sha 7 ?s = Inr (ok, s')" "ok \<longleftrightarrow> (\<exists>k<1000000. meets_difficulty (try_nonce const_sha (of_nat k) ?b))"
    using Block_mine [OF cur, of const_sha 7] by blast
  then have "MineBlock const_sha 7 ?s = Inr (True, s')" using ex by simp
  then show ?thesis using cur by blast
qed

text \<open>
  A block can be mined that does not state the hash of the one before it: the field is set to any text,
  and with a difficulty of zero any hash will do.
\<close>

theorem Block_unlinked:
  assumes "\<And>x. length (sha x) = 32"
  shows "\<exists>s0 s1. Block_Init sha now s = Inr s0 \<and>
    block_run sha [BSet v ''prev_block_hash'' (GStr t), BSet v ''difficulty'' (GFloat (Fin 0)), BMine now'] s0 = Inr s1 \<and>
    map bl_PrevBlockHash (bk_chain s1) = [zero_text, t]"
proof -
  let ?g = "createGenesisBlock sha"
  let ?i = "s\<lparr>bk_chain := [?g], bk_currentBlock := Some (createNewBlock sha now ?g)\<rparr>"
  obtain s0 where i0: "Block_updateState ?i = Inr s0" using Block_updateState_ok [of ?i] by auto
  have s0: "Block_Init sha now s = Inr s0" "bk_chain s0 = [?g]" "bk_currentBlock s0 = Some (createNewBlock sha now ?g)"
    using i0 Block_updateState_eq [OF i0] by (simp_all add: Block_Init_def Let_def)
  have set: "\<exists>s'. SetField sha v f x s = Inr (None, s') \<and> bk_chain s' = bk_chain s \<and> bk_currentBlock s' = Some (b'\<lparr>bl_Hash := computeBlockHash sha b'\<rparr>)"
    if "bk_currentBlock s = Some b" "set_field v f x b = Some b'" "length (bl_Hash b) = 64" for s b b' f x
  proof -
    have l: "length (bl_Hash b') = 64" "length (computeBlockHash sha b') = 64"
      using set_field_keeps [OF that(2)] that(3) assms by (simp_all add: computeBlockHash_def length_text_hash)
    then obtain old new where sl: "go_slice (bl_Hash b') 0 16 = Inr old" "go_slice (computeBlockHash sha b') 0 16 = Inr new" by (simp add: go_slice_def)
    let ?s = "bkcall (CallEmit ''field_changed'' [] [] (Some [(''field'', GStr f), (''value'', x), (''old_hash'', GStr old),
      (''new_hash'', GStr new)])) (s\<lparr>bk_currentBlock := Some (b'\<lparr>bl_Hash := computeBlockHash sha b'\<rparr>)\<rparr>)"
    obtain s' where "Block_updateState ?s = Inr s'" using Block_updateState_ok [of ?s] by auto
    then show ?thesis using that sl by (auto simp: SetField_def Let_def dest: Block_updateState_eq)
  qed
  let ?b0 = "createNewBlock sha now ?g"
  have h0: "length (bl_Hash ?b0) = 64" using assms by (simp add: createNewBlock_def empty_block_def computeBlockHash_def length_text_hash Let_def)
  have f1: "set_field v ''prev_block_hash'' (GStr t) ?b0 = Some (?b0\<lparr>bl_PrevBlockHash := t\<rparr>)" by (simp add: set_field_def parseStringField_def)
  obtain s1 b1 where s1: "SetField sha v ''prev_block_hash'' (GStr t) s0 = Inr (None, s1)" "bk_chain s1 = [?g]" "bk_currentBlock s1 = Some b1"
      "bl_PrevBlockHash b1 = t" "length (bl_Hash b1) = 64"
    using set [OF s0(3) f1 h0] s0(2) assms by (auto simp: computeBlockHash_def length_text_hash)
  have f2: "set_field v ''difficulty'' (GFloat (Fin 0)) b1 = Some (b1\<lparr>bl_Difficulty := 0\<rparr>)"
    by (simp add: set_field_def parseNumericField_def f64_to_u32_def)
  obtain s2 b2 where s2: "SetField sha v ''difficulty'' (GFloat (Fin 0)) s1 = Inr (None, s2)" "bk_chain s2 = [?g]" "bk_currentBlock s2 = Some b2"
      "bl_PrevBlockHash b2 = t" "bl_Difficulty b2 = 0"
    using set [OF s1(3) f2 s1(5)] s1(2,4) by auto
  have m: "mine_loop sha 1000000 0 b2 = (True, try_nonce sha 0 b2)"
    using mine_loop.simps(2) [of sha 999999 0 b2] s2(5) by (simp add: Let_def meets_difficulty_def try_nonce_def)
  obtain ok s3 where s3: "MineBlock sha now' s2 = Inr (ok, s3)" using MineBlock_ok [OF s2(3)] by blast
  then have "bk_chain s3 = [?g, try_nonce sha 0 b2]" using s2(2,3) m by (auto simp: MineBlock_def go_bind_eq_Inr dest!: Block_updateState_eq)
  moreover have "bl_PrevBlockHash ?g = zero_text" by (simp add: createGenesisBlock_def empty_block_def Let_def)
  ultimately show ?thesis using s0(1) s1(1) s2(1,4) s3 by auto
qed

theorem Block_unlinked_witness:
  "\<exists>s0 s1. Block_Init const_sha 0 NewBlockStructureSimulator = Inr s0 \<and>
    block_run const_sha [BSet \<lparr>ke_text = (\<lambda>_. []), ke_scan = (\<lambda>_. Fin 0), ke_u32 = 0, ke_u64 = 0, ke_int = 0\<rparr> ''prev_block_hash'' (GStr ''x''),
      BSet \<lparr>ke_text = (\<lambda>_. []), ke_scan = (\<lambda>_. Fin 0), ke_u32 = 0, ke_u64 = 0, ke_int = 0\<rparr> ''difficulty'' (GFloat (Fin 0)), BMine 9] s0 = Inr s1 \<and>
    map bl_PrevBlockHash (bk_chain s1) = [zero_text, ''x'']"
  by (rule Block_unlinked) simp


subsection \<open>Synchronising a chain\<close>

text \<open>Every node holds the start of the chain, as far as its height says, and no height is above \<open>M\<close>.\<close>

definition sync_inv :: "nat \<Rightarrow> ChainSyncSimulator \<Rightarrow> bool" where
  "sync_inv M s \<longleftrightarrow> cs_canonicalChain s \<noteq> [] \<and> length (cs_canonicalChain s) < 2 ^ 63 \<and>
     (\<forall>i n. go_get (cs_nodes s) i = Some n \<longrightarrow> unat (sy_ChainHeight n) < length (cs_canonicalChain s) \<and>
        sy_Blocks n = take (unat (sy_ChainHeight n) + 1) (cs_canonicalChain s) \<and> unat (sy_ChainHeight n) \<le> M) \<and>
     (\<forall>i\<in>set (cs_nodeList s). go_get (cs_nodes s) i \<noteq> None)"

lemma fold_cscall [simp]:
  "cs_nodes (fold cscall cs s) = cs_nodes s" "cs_nodeList (fold cscall cs s) = cs_nodeList s" "cs_canonicalChain (fold cscall cs s) = cs_canonicalChain s"
  by (induction cs arbitrary: s) (simp_all add: cscall_def)

lemma cscall_keeps [simp]:
  "cs_nodes (cscall c s) = cs_nodes s" "cs_nodeList (cscall c s) = cs_nodeList s" "cs_canonicalChain (cscall c s) = cs_canonicalChain s"
  by (simp_all add: cscall_def)

lemma fold_show_sync_node [simp]:
  "cs_nodes (fold show_sync_node ord s) = cs_nodes s" "cs_nodeList (fold show_sync_node ord s) = cs_nodeList s"
  "cs_canonicalChain (fold show_sync_node ord s) = cs_canonicalChain s"
  by (induction ord arbitrary: s) (simp_all add: show_sync_node_def split: option.splits)

lemma Sync_updateAllStates_keeps [simp]:
  "cs_nodes (Sync_updateAllStates ord s) = cs_nodes s" "cs_nodeList (Sync_updateAllStates ord s) = cs_nodeList s"
  "cs_canonicalChain (Sync_updateAllStates ord s) = cs_canonicalChain s"
  by (simp_all add: Sync_updateAllStates_def)

lemma note_synced_simps [simp]: "sy_ChainHeight (note_synced ch n) = sy_ChainHeight n" "sy_Blocks (note_synced ch n) = sy_Blocks n"
  by (simp_all add: note_synced_def)

lemma sync_advance_simps [simp]: "sy_ChainHeight (sync_advance b n) = sy_ChainHeight n + 1" "sy_Blocks (sync_advance b n) = sy_Blocks n @ [b]"
  by (simp_all add: sync_advance_def)

lemma unat_height_Suc:
  assumes "h < (g :: u64)"
  shows "unat (h + 1) = Suc (unat h)"
proof -
  have "unat h < unat g" using assms by (simp add: word_less_nat_alt)
  moreover have "unat g < 2 ^ LENGTH(64)" by (rule unsigned_less)
  ultimately show ?thesis by (simp add: unat_word_ariths)
qed

lemma sync_inv_put:
  assumes "sync_inv M s" and "unat (sy_ChainHeight n) < length (cs_canonicalChain s)" and "unat (sy_ChainHeight n) \<le> M"
    and "sy_Blocks n = take (unat (sy_ChainHeight n) + 1) (cs_canonicalChain s)"
  shows "sync_inv M (s\<lparr>cs_nodes := go_put i n (cs_nodes s)\<rparr>)"
  using assms by (auto simp: sync_inv_def)

lemma sint_height:
  assumes "unat (h :: u64) < 2 ^ 63"
  shows "sint h = int (unat h)"
proof -
  have "int (unat h) < int (2 ^ 63)" using assms by (simp only: of_nat_less_iff)
  then have "uint h < 2 ^ 63" by simp
  then have "signed_take_bit 63 (uint h) = uint h" by (intro signed_take_bit_int_eq_self) (simp_all add: order_trans [of _ 0])
  then show ?thesis by (simp add: sint_uint)
qed

lemma syncNode_inv:
  assumes inv: "sync_inv M s" and n: "go_get (cs_nodes s) i = Some n"
  shows "\<exists>s'. syncNode pick i n s = Inr s' \<and> sync_inv M s' \<and> cs_nodeList s' = cs_nodeList s \<and> cs_canonicalChain s' = cs_canonicalChain s"
proof (cases "sy_Peers n = []")
  case False
  let ?p = "sy_Peers n ! (pick mod length (sy_Peers n))" let ?ch = "cs_canonicalChain s"
  have hn: "unat (sy_ChainHeight n) < length ?ch" "sy_Blocks n = take (unat (sy_ChainHeight n) + 1) ?ch" "unat (sy_ChainHeight n) \<le> M"
    and len: "length ?ch < 2 ^ 63" using inv n by (auto simp: sync_inv_def)
  show ?thesis
  proof (cases "go_get (cs_nodes s) ?p")
    case (Some peer)
    show ?thesis
    proof (cases "sy_ChainHeight n < sy_ChainHeight peer \<and> sint (sy_ChainHeight n + 1) < int (length ?ch)")
      case True
      note u = unat_height_Suc [OF conjunct1 [OF True]]
      have "unat (sy_ChainHeight n + 1) < 2 ^ 63" using hn(1) len u by linarith
      then have l: "unat (sy_ChainHeight n + 1) < length ?ch" using conjunct2 [OF True] sint_height by (simp only: of_nat_less_iff)
      have "unat (sy_ChainHeight peer) \<le> M" using inv Some by (auto simp: sync_inv_def)
      then have m: "unat (sy_ChainHeight n + 1) \<le> M" using True u by (simp add: word_less_nat_alt)
      let ?b = "?ch ! unat (sy_ChainHeight n + 1)"
      have "sy_Blocks n @ [?b] = take (unat (sy_ChainHeight n + 1) + 1) ?ch" using l u hn(2) by (simp add: take_Suc_conv_app_nth)
      then have "sync_inv M (s\<lparr>cs_nodes := go_put i (note_synced ?ch (sync_advance ?b n)) (cs_nodes s)\<rparr>)"
        by (intro sync_inv_put [OF inv]) (use l m in simp_all)
      then show ?thesis using False Some True l by (simp add: syncNode_def Let_def go_index_def sync_inv_def)
    next
      case f: False
      have "sync_inv M (s\<lparr>cs_nodes := go_put i (note_synced ?ch n) (cs_nodes s)\<rparr>)" by (intro sync_inv_put [OF inv]) (use hn in simp_all)
      then show ?thesis using False Some f by (auto simp: syncNode_def Let_def)
    qed
  qed (use False inv in \<open>simp add: syncNode_def Let_def\<close>)
qed (use inv in \<open>simp add: syncNode_def\<close>)

lemma sync_round_inv:
  assumes "sync_inv M s" and "set is \<subseteq> set (cs_nodeList s)"
  shows "\<exists>s'. sync_round rnd k is s = Inr s' \<and> sync_inv M s' \<and> cs_nodeList s' = cs_nodeList s \<and> cs_canonicalChain s' = cs_canonicalChain s"
  using assms
proof (induction "is" arbitrary: s k)
  case (Cons i "is")
  obtain n where n: "go_get (cs_nodes s) i = Some n" using Cons.prems by (auto simp: sync_inv_def)
  have "\<exists>s1. (if c then syncNode (rnd k) i n s else Inr s) = Inr s1 \<and> sync_inv M s1 \<and> cs_nodeList s1 = cs_nodeList s \<and>
      cs_canonicalChain s1 = cs_canonicalChain s" for c
    using syncNode_inv [OF Cons.prems(1) n, of "rnd k"] Cons.prems(1) by (cases c) auto
  then obtain s1 where s1: "(if sy_ChainHeight n < of_int (int (length (cs_canonicalChain s)) - 1) then syncNode (rnd k) i n s else Inr s) = Inr s1"
      "sync_inv M s1" "cs_nodeList s1 = cs_nodeList s" "cs_canonicalChain s1 = cs_canonicalChain s"
    by blast
  obtain s2 where "sync_round rnd (k + 1) is s1 = Inr s2 \<and> sync_inv M s2 \<and> cs_nodeList s2 = cs_nodeList s1 \<and> cs_canonicalChain s2 = cs_canonicalChain s1"
    using Cons.IH [OF s1(2), of "k + 1"] Cons.prems(2) s1(3) by auto
  then show ?case using n s1 by simp
qed simp

datatype sync_step = STick "nat \<Rightarrow> nat" "NodeID list" u64 | SRound "nat \<Rightarrow> nat" "NodeID list"

fun sync_do :: "sync_step \<Rightarrow> ChainSyncSimulator \<Rightarrow> ChainSyncSimulator go" where
  "sync_do (STick rnd ord tick) s = Sync_onTick rnd ord tick s"
| "sync_do (SRound rnd ord) s = go_bind (Sync_ExecuteAction rnd ord ''sync_round'' s) (\<lambda>(e, s). Inr s)"

fun sync_run :: "sync_step list \<Rightarrow> ChainSyncSimulator \<Rightarrow> ChainSyncSimulator go" where
  "sync_run [] s = Inr s"
| "sync_run (x # xs) s = go_bind (sync_do x s) (sync_run xs)"

lemma sync_inv_extend:
  assumes "sync_inv M s" and "length (cs_canonicalChain s) + 1 < 2 ^ 63"
  shows "sync_inv M (s\<lparr>cs_canonicalChain := cs_canonicalChain s @ [b]\<rparr>)"
  using assms by (fastforce simp: sync_inv_def)

lemma sync_do_inv:
  assumes "sync_inv M s" and "length (cs_canonicalChain s) + 1 < 2 ^ 63"
  shows "\<exists>s'. sync_do x s = Inr s' \<and> sync_inv M s' \<and> length (cs_canonicalChain s') \<le> length (cs_canonicalChain s) + 1"
proof -
  have r: "\<exists>s'. sync_round rnd 0 (cs_nodeList s) s = Inr s' \<and> sync_inv M s' \<and> cs_canonicalChain s' = cs_canonicalChain s" for rnd
    using sync_round_inv [OF assms(1) order_refl] by blast
  have calls: "sync_inv M (Sync_updateAllStates ord t) = sync_inv M t" "sync_inv M (cscall c t) = sync_inv M t" for ord c t by (simp_all add: sync_inv_def)
  have ext: "sync_inv M t \<Longrightarrow> cs_canonicalChain t = cs_canonicalChain s \<Longrightarrow> sync_inv M (t\<lparr>cs_canonicalChain := cs_canonicalChain s @ [b]\<rparr>)" for t b
    using sync_inv_extend [of M t b] assms(2) by simp
  show ?thesis
  proof (cases x)
    case (STick rnd ord tick)
    then show ?thesis using r [of rnd] assms(2) ext by (auto simp: Sync_onTick_def Let_def calls)
  next
    case (SRound rnd ord)
    then show ?thesis using r [of rnd] by (auto simp: Sync_ExecuteAction_def calls)
  qed
qed

lemma sync_run_inv:
  assumes "sync_inv M s" and "length (cs_canonicalChain s) + length xs < 2 ^ 63"
  shows "\<exists>s'. sync_run xs s = Inr s' \<and> sync_inv M s'"
  using assms
proof (induction xs arbitrary: s)
  case (Cons x xs)
  obtain s1 where s1: "sync_do x s = Inr s1" "sync_inv M s1" "length (cs_canonicalChain s1) \<le> length (cs_canonicalChain s) + 1"
    using sync_do_inv [OF Cons.prems(1), of x] Cons.prems(2) by auto
  then show ?case using Cons.IH [OF s1(2)] Cons.prems(2) by simp
qed simp


lemma first_chain_length: "length first_chain = 11"
  by (simp add: first_chain_def)

lemma add_sync_node_inv:
  assumes "cs_canonicalChain s = first_chain"
    and "\<forall>i n. go_get (cs_nodes s) i = Some n \<longrightarrow> unat (sy_ChainHeight n) \<le> 10 \<and> sy_Blocks n = take (unat (sy_ChainHeight n) + 1) first_chain"
    and "\<forall>i\<in>set (cs_nodeList s). go_get (cs_nodes s) i \<noteq> None"
  shows "cs_canonicalChain (fold (add_sync_node rnd) is s) = first_chain \<and>
    (\<forall>i n. go_get (cs_nodes (fold (add_sync_node rnd) is s)) i = Some n \<longrightarrow> unat (sy_ChainHeight n) \<le> 10 \<and>
      sy_Blocks n = take (unat (sy_ChainHeight n) + 1) first_chain) \<and>
    (\<forall>i\<in>set (cs_nodeList (fold (add_sync_node rnd) is s)). go_get (cs_nodes (fold (add_sync_node rnd) is s)) i \<noteq> None)"
  using assms
proof (induction "is" arbitrary: s)
  case (Cons i "is")
  have b: "rnd i mod 11 < 11" by simp
  then have u: "unat (of_nat (rnd i mod 11) :: u64) = rnd i mod 11" by (simp add: unat_of_nat take_bit_nat_eq_self)
  have b: "rnd i mod 11 \<le> 10" using b by linarith
  show ?case unfolding fold_simps
    by (rule Cons.IH) (use Cons.prems in \<open>auto simp: add_sync_node_def Let_def first_chain_length u b\<close>)
qed simp

lemma go_get_map: "go_get (map (\<lambda>(i, n). (i, f n)) m) k = map_option f (go_get m k)"
  by (induction m) (auto simp: go_get_def)

lemma Sync_Init_inv: "sync_inv 10 (Sync_Init oob rnd coin ord ps NewChainSyncSimulator)"
proof -
  let ?s = "fold (add_sync_node rnd) [0..<nat (case go_get ps ''node_count'' of Some (GFloat x) \<Rightarrow> f64_to_int oob x | _ \<Rightarrow> 5)]
    (NewChainSyncSimulator\<lparr>cs_canonicalChain := first_chain\<rparr>)"
  have i: "cs_canonicalChain ?s = first_chain \<and>
    (\<forall>i n. go_get (cs_nodes ?s) i = Some n \<longrightarrow> unat (sy_ChainHeight n) \<le> 10 \<and> sy_Blocks n = take (unat (sy_ChainHeight n) + 1) first_chain) \<and>
    (\<forall>i\<in>set (cs_nodeList ?s). go_get (cs_nodes ?s) i \<noteq> None)"
    by (rule add_sync_node_inv) (simp_all add: NewChainSyncSimulator_def)
  have l: "first_chain \<noteq> []" "length first_chain < 2 ^ 63" using first_chain_length by auto
  show ?thesis using i l unfolding Sync_Init_def Let_def sync_inv_def
    by (fastforce simp: go_get_map add_peers_def first_chain_length)
qed

text \<open>C26. 
  From the initialisation on, with any choices, nothing panics and every node holds the start of the chain
  up to its height.  But no node ever passes the height of 10 that the chain has at first: a block is
  copied only from a peer that has it, and the blocks that come later are given to no node.
\<close>

theorem Sync_prefix:
  assumes "length xs + 11 < 2 ^ 63"
  shows "\<exists>s. sync_run xs (Sync_Init oob rnd coin ord ps NewChainSyncSimulator) = Inr s \<and>
    (\<forall>i n. go_get (cs_nodes s) i = Some n \<longrightarrow> unat (sy_ChainHeight n) < length (cs_canonicalChain s) \<and>
       sy_Blocks n = take (unat (sy_ChainHeight n) + 1) (cs_canonicalChain s) \<and> unat (sy_ChainHeight n) \<le> 10)"
proof -
  have c: "cs_canonicalChain (Sync_Init oob rnd coin ord ps NewChainSyncSimulator) = first_chain"
    using add_sync_node_inv [of "NewChainSyncSimulator\<lparr>cs_canonicalChain := first_chain\<rparr>"]
    by (simp add: Sync_Init_def Let_def NewChainSyncSimulator_def)
  show ?thesis using sync_run_inv [OF Sync_Init_inv, of oob rnd coin ord ps xs] assms unfolding c sync_inv_def first_chain_length by auto
qed

theorem Sync_prefix_witness:
  "\<exists>s. sync_run [STick (\<lambda>_. 0) [] 20, SRound (\<lambda>_. 1) []] (Sync_Init 0 (\<lambda>i. i) (\<lambda>_ _. True) [] [] NewChainSyncSimulator) = Inr s \<and>
    (\<forall>i n. go_get (cs_nodes s) i = Some n \<longrightarrow> unat (sy_ChainHeight n) < length (cs_canonicalChain s) \<and>
       sy_Blocks n = take (unat (sy_ChainHeight n) + 1) (cs_canonicalChain s) \<and> unat (sy_ChainHeight n) \<le> 10)"
  by (rule Sync_prefix) simp

end
