(* ===== verification/ContestData.thy ===== *)
theory ContestData
  imports SimText
begin

section \<open>Contests: \<open>model/contest.go\<close> and \<open>repository/contest_repository.go\<close> of \<open>backend/internal\<close>\<close>

text \<open>
  The rows and the queries that contests, teams and scores use. A table is the list of its rows in the order
  of their identities, each with the mark that GORM sets when it deletes a row; rows are never taken out, so
  the next identity is the number of rows plus one. A query is a filter of the rows that are not deleted; a
  table joined by hand is not filtered. Unique indexes, as the schema declares them, count deleted rows, and a
  column with a default gets it when the row is created with the zero of its type. A query that the schema
  allows does not fail: a lost connection, or a text that the database refuses, such as one with a zero byte,
  is left out, so that here a submission is always stored (\<open>SubmitFlag\<close> ignores the error of
  storing it, after it has added the score). The descriptions, rules, covers and levels of contests, and
  battles, are left out too. Identities, counts and points are numbers, far from the bounds of their columns.
\<close>

subsection \<open>Tables\<close>

type_synonym 'a table = "('a \<times> bool) list"

definition present :: "'a table \<Rightarrow> 'a list" where
  "present t = map fst (filter (\<lambda>(r, d). \<not> d) t)"

definition all_rows :: "'a table \<Rightarrow> 'a list" where
  "all_rows t = map fst t"

definition next_id :: "'a table \<Rightarrow> nat" where
  "next_id t = length t + 1"

definition insert_row :: "'a \<Rightarrow> 'a table \<Rightarrow> 'a table" where
  "insert_row r t = t @ [(r, False)]"

definition update_rows :: "('a \<Rightarrow> bool) \<Rightarrow> ('a \<Rightarrow> 'a) \<Rightarrow> 'a table \<Rightarrow> 'a table" where
  "update_rows p f t = map (\<lambda>(r, d). if \<not> d \<and> p r then (f r, d) else (r, d)) t"

definition delete_rows :: "('a \<Rightarrow> bool) \<Rightarrow> 'a table \<Rightarrow> 'a table" where
  "delete_rows p t = map (\<lambda>(r, d). (r, d \<or> p r)) t"

text \<open>A number or a flag whose zero stands for the default of its column.\<close>

definition or_default :: "int \<Rightarrow> int \<Rightarrow> int" where
  "or_default dflt x = (if x = 0 then dflt else x)"

definition flag_default_true :: "bool \<Rightarrow> bool" where
  "flag_default_true b = (if \<not> b then True else b)"

subsection \<open>Rows\<close>

record Contest =
  ct_ID :: nat
  ct_SchoolID :: "nat option"
  ct_CreatorID :: nat
  ct_Title :: string
  ct_Type :: string
  ct_StartTime :: int
  ct_EndTime :: int
  ct_RegistrationStart :: "int option"
  ct_RegistrationEnd :: "int option"
  ct_Status :: string
  ct_IsPublic :: bool
  ct_MaxParticipants :: int
  ct_TeamMinSize :: int
  ct_TeamMaxSize :: int
  ct_DynamicScore :: bool
  ct_FirstBloodBonus :: int

record Challenge =
  ch_ID :: nat
  ch_BasePoints :: int
  ch_MinPoints :: int
  ch_DecayFactor :: f64
  ch_FlagTemplate :: string
  ch_FlagType :: string
  ch_FlagRegex :: string
  ch_FlagSecret :: string
  ch_SolveCount :: int
  ch_AttemptCount :: int

record ContestChallenge =
  cc_ContestID :: nat
  cc_ChallengeID :: nat
  cc_Points :: int
  cc_CurrentPoints :: int
  cc_SortOrder :: int
  cc_IsVisible :: bool

record Team =
  tm_ID :: nat
  tm_ContestID :: nat
  tm_Name :: string
  tm_Token :: string
  tm_LeaderID :: nat
  tm_SchoolID :: "nat option"
  tm_Status :: string

record TeamMember =
  mb_TeamID :: nat
  mb_UserID :: nat
  mb_Role :: string

record ContestSubmission =
  su_ContestID :: nat
  su_ChallengeID :: nat
  su_UserID :: nat
  su_TeamID :: "nat option"
  su_Flag :: string
  su_IsCorrect :: bool
  su_Points :: int
  su_SubmittedAt :: int
  su_IP :: string

record ContestScore =
  sc_ID :: nat
  sc_ContestID :: nat
  sc_TeamID :: "nat option"
  sc_UserID :: nat
  sc_TotalScore :: int
  sc_SolveCount :: int
  sc_LastSolveAt :: int
  sc_Rank :: int
  sc_FirstBloodCount :: int

record ContestDb =
  d_contests :: "Contest table"
  d_challenges :: "Challenge table"
  d_contestChallenges :: "ContestChallenge table"
  d_teams :: "Team table"
  d_members :: "TeamMember table"
  d_submissions :: "ContestSubmission table"
  d_scores :: "ContestScore table"

definition empty_db :: ContestDb where
  "empty_db = \<lparr>d_contests = [], d_challenges = [], d_contestChallenges = [], d_teams = [], d_members = [], d_submissions = [], d_scores = []\<rparr>"

subsection \<open>The status of a contest\<close>

definition CurrentStatusAt :: "int \<Rightarrow> Contest \<Rightarrow> string" where
  "CurrentStatusAt now c =
     (if ct_Status c = ''draft'' then ''draft''
      else if now < ct_StartTime c then ''published''
      else if \<not> now < ct_EndTime c then ''ended''
      else ''ongoing'')"

definition MatchesStatusAt :: "string \<Rightarrow> int \<Rightarrow> Contest \<Rightarrow> bool" where
  "MatchesStatusAt status now c \<longleftrightarrow> status = [] \<or> CurrentStatusAt now c = status"

definition IsOngoing :: "int \<Rightarrow> Contest \<Rightarrow> bool" where
  "IsOngoing now c \<longleftrightarrow> CurrentStatusAt now c = ''ongoing''"

definition IsRegistrationOpen :: "int \<Rightarrow> Contest \<Rightarrow> bool" where
  "IsRegistrationOpen now c \<longleftrightarrow>
     (case ct_RegistrationStart c of Some t \<Rightarrow> \<not> now < t | None \<Rightarrow> True) \<and>
     (case ct_RegistrationEnd c of Some t \<Rightarrow> \<not> t < now | None \<Rightarrow> True) \<and>
     CurrentStatusAt now c = ''published''"

subsection \<open>Contests and challenges\<close>

text \<open>\<open>dynamic_score\<close> is true by default, so that it cannot be created as false.\<close>

definition contest_Create :: "Contest \<Rightarrow> ContestDb \<Rightarrow> Contest \<times> ContestDb" where
  "contest_Create c db =
     (let c = c\<lparr>ct_ID := next_id (d_contests db), ct_TeamMinSize := or_default 1 (ct_TeamMinSize c), ct_TeamMaxSize := or_default 1 (ct_TeamMaxSize c),
            ct_DynamicScore := flag_default_true (ct_DynamicScore c)\<rparr>
      in (c, db\<lparr>d_contests := insert_row c (d_contests db)\<rparr>))"

definition contest_Update :: "Contest \<Rightarrow> ContestDb \<Rightarrow> ContestDb" where
  "contest_Update c db = db\<lparr>d_contests := update_rows (\<lambda>r. ct_ID r = ct_ID c) (\<lambda>_. c) (d_contests db)\<rparr>"

definition contest_Delete :: "nat \<Rightarrow> ContestDb \<Rightarrow> ContestDb" where
  "contest_Delete i db = db\<lparr>d_contests := delete_rows (\<lambda>r. ct_ID r = i) (d_contests db)\<rparr>"

definition contest_GetByID :: "nat \<Rightarrow> ContestDb \<Rightarrow> Contest option" where
  "contest_GetByID i db = find (\<lambda>r. ct_ID r = i) (present (d_contests db))"

definition challenge_GetByID :: "nat \<Rightarrow> ContestDb \<Rightarrow> Challenge option" where
  "challenge_GetByID i db = find (\<lambda>r. ch_ID r = i) (present (d_challenges db))"

definition IncrementSolveCount :: "nat \<Rightarrow> ContestDb \<Rightarrow> ContestDb" where
  "IncrementSolveCount i db =
     db\<lparr>d_challenges := update_rows (\<lambda>r. ch_ID r = i) (\<lambda>r. r\<lparr>ch_SolveCount := ch_SolveCount r + 1\<rparr>) (d_challenges db)\<rparr>"

definition IncrementAttemptCount :: "nat \<Rightarrow> ContestDb \<Rightarrow> ContestDb" where
  "IncrementAttemptCount i db =
     db\<lparr>d_challenges := update_rows (\<lambda>r. ch_ID r = i) (\<lambda>r. r\<lparr>ch_AttemptCount := ch_AttemptCount r + 1\<rparr>) (d_challenges db)\<rparr>"

definition is_cc :: "nat \<Rightarrow> nat \<Rightarrow> ContestChallenge \<Rightarrow> bool" where
  "is_cc contestID challengeID r \<longleftrightarrow> cc_ContestID r = contestID \<and> cc_ChallengeID r = challengeID"

text \<open>A contest and a challenge are unique together; \<open>is_visible\<close> is true by default.\<close>

definition cc_Create :: "ContestChallenge \<Rightarrow> ContestDb \<Rightarrow> (ContestChallenge \<times> ContestDb) option" where
  "cc_Create r db =
     (if \<exists>q\<in>set (all_rows (d_contestChallenges db)). is_cc (cc_ContestID r) (cc_ChallengeID r) q then None
      else
        let r = r\<lparr>cc_Points := or_default 100 (cc_Points r), cc_CurrentPoints := or_default 100 (cc_CurrentPoints r),
              cc_IsVisible := flag_default_true (cc_IsVisible r)\<rparr>
        in Some (r, db\<lparr>d_contestChallenges := insert_row r (d_contestChallenges db)\<rparr>))"

definition cc_Delete :: "nat \<Rightarrow> nat \<Rightarrow> ContestDb \<Rightarrow> ContestDb" where
  "cc_Delete contestID challengeID db = db\<lparr>d_contestChallenges := delete_rows (is_cc contestID challengeID) (d_contestChallenges db)\<rparr>"

text \<open>The row, with its challenge when that is not deleted.\<close>

definition cc_GetByID :: "nat \<Rightarrow> nat \<Rightarrow> ContestDb \<Rightarrow> (ContestChallenge \<times> Challenge option) option" where
  "cc_GetByID contestID challengeID db =
     (case find (is_cc contestID challengeID) (present (d_contestChallenges db)) of
        None \<Rightarrow> None
      | Some r \<Rightarrow> Some (r, challenge_GetByID challengeID db))"

definition cc_ListByContest :: "nat \<Rightarrow> bool \<Rightarrow> ContestDb \<Rightarrow> ContestChallenge list" where
  "cc_ListByContest contestID visibleOnly db =
     sort_key cc_SortOrder (filter (\<lambda>r. cc_ContestID r = contestID \<and> (visibleOnly \<longrightarrow> cc_IsVisible r)) (present (d_contestChallenges db)))"

definition UpdateCurrentPoints :: "nat \<Rightarrow> nat \<Rightarrow> int \<Rightarrow> ContestDb \<Rightarrow> ContestDb" where
  "UpdateCurrentPoints contestID challengeID points db =
     db\<lparr>d_contestChallenges := update_rows (is_cc contestID challengeID) (\<lambda>r. r\<lparr>cc_CurrentPoints := points\<rparr>) (d_contestChallenges db)\<rparr>"

subsection \<open>Teams\<close>

definition team_Create :: "Team \<Rightarrow> ContestDb \<Rightarrow> (Team \<times> ContestDb) option" where
  "team_Create t db =
     (if tm_Token t \<in> set (map tm_Token (all_rows (d_teams db))) then None
      else let t = t\<lparr>tm_ID := next_id (d_teams db)\<rparr> in Some (t, db\<lparr>d_teams := insert_row t (d_teams db)\<rparr>))"

definition team_GetByID :: "nat \<Rightarrow> ContestDb \<Rightarrow> Team option" where
  "team_GetByID i db = find (\<lambda>t. tm_ID t = i) (present (d_teams db))"

definition GetByToken :: "string \<Rightarrow> ContestDb \<Rightarrow> Team option" where
  "GetByToken token db = find (\<lambda>t. tm_Token t = token) (present (d_teams db))"

text \<open>The members are joined by hand, so that those who left are among them.\<close>

definition GetUserTeam :: "nat \<Rightarrow> nat \<Rightarrow> ContestDb \<Rightarrow> Team option" where
  "GetUserTeam contestID userID db =
     find (\<lambda>t. tm_ContestID t = contestID \<and> (\<exists>m\<in>set (all_rows (d_members db)). mb_TeamID m = tm_ID t \<and> mb_UserID m = userID)) (present (d_teams db))"

definition CountMembers :: "nat \<Rightarrow> ContestDb \<Rightarrow> nat" where
  "CountMembers teamID db = length (filter (\<lambda>m. mb_TeamID m = teamID) (present (d_members db)))"

definition in_contest :: "nat \<Rightarrow> ContestDb \<Rightarrow> TeamMember \<Rightarrow> bool" where
  "in_contest contestID db m \<longleftrightarrow> (\<exists>t\<in>set (all_rows (d_teams db)). tm_ID t = mb_TeamID m \<and> tm_ContestID t = contestID)"

definition CountParticipants :: "nat \<Rightarrow> ContestDb \<Rightarrow> nat" where
  "CountParticipants contestID db = length (filter (in_contest contestID db) (present (d_members db)))"

text \<open>A team and a user are unique together.\<close>

definition member_Create :: "TeamMember \<Rightarrow> ContestDb \<Rightarrow> ContestDb option" where
  "member_Create m db =
     (if \<exists>q\<in>set (all_rows (d_members db)). mb_TeamID q = mb_TeamID m \<and> mb_UserID q = mb_UserID m then None
      else Some (db\<lparr>d_members := insert_row m (d_members db)\<rparr>))"

definition member_Delete :: "nat \<Rightarrow> nat \<Rightarrow> ContestDb \<Rightarrow> ContestDb" where
  "member_Delete teamID userID db = db\<lparr>d_members := delete_rows (\<lambda>m. mb_TeamID m = teamID \<and> mb_UserID m = userID) (d_members db)\<rparr>"

definition IsInAnyTeam :: "nat \<Rightarrow> nat \<Rightarrow> ContestDb \<Rightarrow> bool" where
  "IsInAnyTeam contestID userID db \<longleftrightarrow> (\<exists>m\<in>set (present (d_members db)). mb_UserID m = userID \<and> in_contest contestID db m)"

subsection \<open>Submissions\<close>

definition submission_Create :: "ContestSubmission \<Rightarrow> ContestDb \<Rightarrow> ContestDb" where
  "submission_Create s db = db\<lparr>d_submissions := insert_row s (d_submissions db)\<rparr>"

definition solves :: "nat \<Rightarrow> nat \<Rightarrow> ContestDb \<Rightarrow> ContestSubmission list" where
  "solves contestID challengeID db =
     filter (\<lambda>s. su_ContestID s = contestID \<and> su_ChallengeID s = challengeID \<and> su_IsCorrect s) (present (d_submissions db))"

definition by_team_or_user :: "nat option \<Rightarrow> nat \<Rightarrow> ContestSubmission \<Rightarrow> bool" where
  "by_team_or_user teamID userID s = (case teamID of Some t \<Rightarrow> su_TeamID s = Some t | None \<Rightarrow> su_UserID s = userID)"

definition HasSolved :: "nat \<Rightarrow> nat \<Rightarrow> nat option \<Rightarrow> nat \<Rightarrow> ContestDb \<Rightarrow> bool" where
  "HasSolved contestID challengeID teamID userID db \<longleftrightarrow> 0 < length (filter (by_team_or_user teamID userID) (solves contestID challengeID db))"

definition GetFirstBlood :: "nat \<Rightarrow> nat \<Rightarrow> ContestDb \<Rightarrow> ContestSubmission option" where
  "GetFirstBlood contestID challengeID db =
     (case sort_key su_SubmittedAt (solves contestID challengeID db) of [] \<Rightarrow> None | s # _ \<Rightarrow> Some s)"

definition GetCorrectSubmission :: "nat \<Rightarrow> nat \<Rightarrow> nat option \<Rightarrow> nat \<Rightarrow> ContestDb \<Rightarrow> ContestSubmission option" where
  "GetCorrectSubmission contestID challengeID teamID userID db =
     (case sort_key su_SubmittedAt (filter (by_team_or_user teamID userID) (solves contestID challengeID db)) of [] \<Rightarrow> None | s # _ \<Rightarrow> Some s)"

definition CountSolves :: "nat \<Rightarrow> nat \<Rightarrow> ContestDb \<Rightarrow> nat" where
  "CountSolves contestID challengeID db = length (solves contestID challengeID db)"

subsection \<open>Scores\<close>

definition is_score :: "nat \<Rightarrow> nat option \<Rightarrow> nat \<Rightarrow> ContestScore \<Rightarrow> bool" where
  "is_score contestID teamID userID r \<longleftrightarrow> sc_ContestID r = contestID \<and>
     (case teamID of Some t \<Rightarrow> sc_TeamID r = Some t | None \<Rightarrow> sc_UserID r = userID \<and> sc_TeamID r = None)"

definition GetByTeamOrUser :: "nat \<Rightarrow> nat option \<Rightarrow> nat \<Rightarrow> ContestDb \<Rightarrow> ContestScore option" where
  "GetByTeamOrUser contestID teamID userID db = find (is_score contestID teamID userID) (present (d_scores db))"

text \<open>An update of the rows there are, or the first row.\<close>

definition AddScore :: "int \<Rightarrow> nat \<Rightarrow> nat option \<Rightarrow> nat \<Rightarrow> int \<Rightarrow> ContestDb \<Rightarrow> ContestDb" where
  "AddScore now contestID teamID userID points db =
     (if filter (is_score contestID teamID userID) (present (d_scores db)) \<noteq> [] then
        db\<lparr>d_scores := update_rows (is_score contestID teamID userID)
             (\<lambda>r. r\<lparr>sc_TotalScore := sc_TotalScore r + points, sc_SolveCount := sc_SolveCount r + 1, sc_LastSolveAt := now\<rparr>) (d_scores db)\<rparr>
      else
        db\<lparr>d_scores := insert_row \<lparr>sc_ID = next_id (d_scores db), sc_ContestID = contestID, sc_TeamID = teamID, sc_UserID = userID,
             sc_TotalScore = points, sc_SolveCount = 1, sc_LastSolveAt = now, sc_Rank = 0, sc_FirstBloodCount = 0\<rparr> (d_scores db)\<rparr>)"

text \<open>The order of the board: by score, then by the last solution; \<open>tie\<close> decides among equals, as the database may.\<close>

definition board_order :: "(nat \<Rightarrow> nat) \<Rightarrow> ContestScore list \<Rightarrow> ContestScore list" where
  "board_order tie rs = sort_key (\<lambda>r. - sc_TotalScore r) (sort_key sc_LastSolveAt (sort_key (\<lambda>r. tie (sc_ID r)) rs))"

definition position_of :: "nat \<Rightarrow> ContestScore list \<Rightarrow> nat" where
  "position_of i rs = length (takeWhile (\<lambda>r. sc_ID r \<noteq> i) rs)"

definition UpdateRanks :: "(nat \<Rightarrow> nat) \<Rightarrow> nat \<Rightarrow> ContestDb \<Rightarrow> ContestDb" where
  "UpdateRanks tie contestID db =
     (let b = board_order tie (filter (\<lambda>r. sc_ContestID r = contestID) (all_rows (d_scores db)))
      in db\<lparr>d_scores := map (\<lambda>(r, d). (if sc_ContestID r = contestID then r\<lparr>sc_Rank := int (position_of (sc_ID r) b) + 1\<rparr> else r, d)) (d_scores db)\<rparr>)"

text \<open>A page has at most a hundred rows.\<close>

definition paginate :: "int \<Rightarrow> int \<Rightarrow> 'a list \<Rightarrow> 'a list" where
  "paginate page pageSize rs =
     (let page = (if page \<le> 0 then 1 else page); size = (if pageSize \<le> 0 then 10 else pageSize); size = (if 100 < size then 100 else size)
      in take (nat size) (drop (nat ((page - 1) * size)) rs))"

definition score_GetScoreboard :: "(nat \<Rightarrow> nat) \<Rightarrow> nat \<Rightarrow> int \<Rightarrow> int \<Rightarrow> ContestDb \<Rightarrow> ContestScore list" where
  "score_GetScoreboard tie contestID page pageSize db =
     paginate page pageSize (board_order tie (filter (\<lambda>r. sc_ContestID r = contestID) (present (d_scores db))))"

end
