(* ===== verification/ContestService.thy ===== *)
theory ContestService
  imports ContestData
begin

section \<open>Contests: \<open>contest_admin_service.go\<close>, \<open>contest_support.go\<close>, \<open>contest_team_service.go\<close>, \<open>contest_challenge_service.go\<close>, \<open>contest_score_service.go\<close> of \<open>backend/internal/service\<close>\<close>

text \<open>
  Who may see and manage a contest, its teams, its challenges and its scores.  A request sees one time.  The
  library's regular expressions, SHA-256, the validation of a flag by a chain, fresh invite codes and the
  order of equal scores are arguments.
\<close>

datatype contest_err = ErrContestNotFound | ErrNoPermission | ErrPermissionDenied | ErrInvalidParams | ErrRegistrationClosed | ErrContestEnded
  | ErrContestNotOngoing | ErrContestNotStarted | ErrAlreadyInTeam | ErrTeamNotFound | ErrTeamFull | ErrChallengeNotFound | ErrDatabaseError

type_synonym 'a reply = "(contest_err + 'a) \<times> ContestDb"

subsection \<open>Permissions\<close>

text \<open>Who asks: an identity, a school, or 0, and a role.\<close>

record caller =
  cl_UserID :: nat
  cl_SchoolID :: nat
  cl_Role :: string

definition contestCanAccess :: "caller \<Rightarrow> Contest \<Rightarrow> bool" where
  "contestCanAccess u c \<longleftrightarrow>
     (if cl_Role u = ''platform_admin'' then True
      else case ct_SchoolID c of
        None \<Rightarrow> True
      | Some school \<Rightarrow> if ct_IsPublic c then True else if cl_SchoolID u = 0 then False else school = cl_SchoolID u)"

definition contestCanManage :: "caller \<Rightarrow> Contest \<Rightarrow> bool" where
  "contestCanManage u c \<longleftrightarrow>
     (if cl_Role u = ''platform_admin'' then True
      else if ct_SchoolID c = None \<or> cl_SchoolID u = 0 \<or> ct_SchoolID c \<noteq> Some (cl_SchoolID u) then False
      else if cl_Role u = ''school_admin'' then True
      else cl_Role u = ''teacher'' \<and> ct_CreatorID c = cl_UserID u)"

definition contestCanView :: "int \<Rightarrow> caller \<Rightarrow> Contest \<Rightarrow> bool" where
  "contestCanView now u c \<longleftrightarrow>
     (if \<not> contestCanAccess u c then False
      else if CurrentStatusAt now c \<noteq> ''draft'' then True
      else contestCanManage u c)"

definition ensureContestRegistrationOpen :: "int \<Rightarrow> Contest \<Rightarrow> contest_err option" where
  "ensureContestRegistrationOpen now c =
     (if CurrentStatusAt now c \<noteq> ''published'' then Some ErrInvalidParams
      else if \<not> IsRegistrationOpen now c then Some ErrRegistrationClosed
      else None)"

definition validateContestRegistrationWindow :: "int \<Rightarrow> int option \<Rightarrow> int option \<Rightarrow> contest_err option" where
  "validateContestRegistrationWindow start rs re =
     (if (case rs of Some r \<Rightarrow> start < r | None \<Rightarrow> False) then Some ErrInvalidParams
      else if (case re of Some r \<Rightarrow> start < r | None \<Rightarrow> False) then Some ErrInvalidParams
      else if (case (rs, re) of (Some r, Some q) \<Rightarrow> q < r | _ \<Rightarrow> False) then Some ErrInvalidParams
      else None)"

definition ensureContestOngoing :: "int \<Rightarrow> Contest \<Rightarrow> contest_err option" where
  "ensureContestOngoing now c =
     (if CurrentStatusAt now c = ''ended'' then Some ErrContestEnded
      else if CurrentStatusAt now c = ''ongoing'' then None
      else Some ErrContestNotOngoing)"

text \<open>The contest, if it is there and the caller may see it; or manage it.\<close>

definition visible_contest :: "int \<Rightarrow> caller \<Rightarrow> nat \<Rightarrow> ContestDb \<Rightarrow> contest_err + Contest" where
  "visible_contest now u i db =
     (case contest_GetByID i db of
        None \<Rightarrow> Inl ErrContestNotFound
      | Some c \<Rightarrow> if contestCanView now u c then Inr c else Inl ErrContestNotFound)"

definition managed_contest :: "caller \<Rightarrow> nat \<Rightarrow> ContestDb \<Rightarrow> contest_err + Contest" where
  "managed_contest u i db =
     (case contest_GetByID i db of
        None \<Rightarrow> Inl ErrContestNotFound
      | Some c \<Rightarrow> if contestCanManage u c then Inr c else Inl ErrNoPermission)"

subsection \<open>The life of a contest\<close>

definition transitionContestStatus :: "Contest \<Rightarrow> string \<Rightarrow> ContestDb \<Rightarrow> unit reply" where
  "transitionContestStatus c target db =
     (if target = ''published'' then
        if ct_Status c \<noteq> ''draft'' then (Inl ErrInvalidParams, db)
        else (Inr (), contest_Update (c\<lparr>ct_Status := target\<rparr>) db)
      else (Inl ErrInvalidParams, db))"

definition PublishContest :: "caller \<Rightarrow> nat \<Rightarrow> ContestDb \<Rightarrow> unit reply" where
  "PublishContest u i db =
     (case managed_contest u i db of
        Inl e \<Rightarrow> (Inl e, db)
      | Inr c \<Rightarrow> if ct_Status c \<noteq> ''draft'' then (Inl ErrInvalidParams, db) else transitionContestStatus c ''published'' db)"

definition DeleteContest :: "caller \<Rightarrow> nat \<Rightarrow> ContestDb \<Rightarrow> unit reply" where
  "DeleteContest u i db =
     (case managed_contest u i db of
        Inl e \<Rightarrow> (Inl e, db)
      | Inr c \<Rightarrow> if ct_Status c \<noteq> ''draft'' then (Inl ErrInvalidParams, db) else (Inr (), contest_Delete i db))"

text \<open>
  Making a contest that is not a battle: what the request gives, with its times read.  The school is that of
  the creator, if any.
\<close>

definition CreateContest :: "nat \<Rightarrow> nat option \<Rightarrow> Contest \<Rightarrow> ContestDb \<Rightarrow> Contest reply" where
  "CreateContest creatorID schoolID req db =
     (if \<not> ct_StartTime req < ct_EndTime req then (Inl ErrInvalidParams, db)
      else
        let c = req\<lparr>ct_CreatorID := creatorID, ct_SchoolID := schoolID, ct_Status := ''draft'',
              ct_TeamMinSize := (if ct_TeamMinSize req = 0 then 1 else ct_TeamMinSize req),
              ct_TeamMaxSize := (if ct_TeamMaxSize req = 0 then 1 else ct_TeamMaxSize req)\<rparr>
        in case validateContestRegistrationWindow (ct_StartTime c) (ct_RegistrationStart c) (ct_RegistrationEnd c) of
             Some e \<Rightarrow> (Inl e, db)
           | None \<Rightarrow> (case contest_Create c db of (c, db) \<Rightarrow> (Inr c, db)))"

text \<open>
  A change of a contest: what the request gives, each part if it is given; \<open>Some None\<close> is a text
  that is no time.  The size of the teams can be changed whatever the status of the contest and the members
  of its teams.
\<close>

record contest_edit =
  ce_Status :: string
  ce_Title :: string
  ce_StartTime :: "int option option"
  ce_EndTime :: "int option option"
  ce_RegistrationStart :: "int option option"
  ce_RegistrationEnd :: "int option option"
  ce_IsPublic :: "bool option"
  ce_MaxParticipants :: "int option"
  ce_TeamMinSize :: "int option"
  ce_TeamMaxSize :: "int option"
  ce_DynamicScore :: "bool option"
  ce_FirstBloodBonus :: "int option"

definition edited :: "'a option \<Rightarrow> 'a \<Rightarrow> 'a" where
  "edited new old = (case new of None \<Rightarrow> old | Some x \<Rightarrow> x)"

definition edit_settings :: "contest_edit \<Rightarrow> Contest \<Rightarrow> Contest" where
  "edit_settings req c = c\<lparr>ct_IsPublic := edited (ce_IsPublic req) (ct_IsPublic c),
     ct_MaxParticipants := edited (ce_MaxParticipants req) (ct_MaxParticipants c),
     ct_TeamMinSize := edited (ce_TeamMinSize req) (ct_TeamMinSize c),
     ct_TeamMaxSize := edited (ce_TeamMaxSize req) (ct_TeamMaxSize c),
     ct_DynamicScore := edited (ce_DynamicScore req) (ct_DynamicScore c),
     ct_FirstBloodBonus := edited (ce_FirstBloodBonus req) (ct_FirstBloodBonus c)\<rparr>"

definition given_time :: "int option option \<Rightarrow> contest_err + int option" where
  "given_time t = (case t of None \<Rightarrow> Inr None | Some None \<Rightarrow> Inl ErrInvalidParams | Some (Some x) \<Rightarrow> Inr (Some x))"

definition edit_contest :: "contest_edit \<Rightarrow> Contest \<Rightarrow> contest_err + Contest" where
  "edit_contest req c =
     (let c = (if ce_Title req = [] then c else c\<lparr>ct_Title := ce_Title req\<rparr>) in
      case (given_time (ce_StartTime req), given_time (ce_EndTime req)) of
        (Inr st, Inr en) \<Rightarrow>
          (let c = c\<lparr>ct_StartTime := edited st (ct_StartTime c), ct_EndTime := edited en (ct_EndTime c)\<rparr> in
           if \<not> ct_StartTime c < ct_EndTime c then Inl ErrInvalidParams
           else case (given_time (ce_RegistrationStart req), given_time (ce_RegistrationEnd req)) of
             (Inr rs, Inr re) \<Rightarrow>
               (let c = c\<lparr>ct_RegistrationStart := edited (map_option Some rs) (ct_RegistrationStart c),
                      ct_RegistrationEnd := edited (map_option Some re) (ct_RegistrationEnd c)\<rparr> in
                case validateContestRegistrationWindow (ct_StartTime c) (ct_RegistrationStart c) (ct_RegistrationEnd c) of
                  Some e \<Rightarrow> Inl e
                | None \<Rightarrow> Inr (edit_settings req c))
           | _ \<Rightarrow> Inl ErrInvalidParams)
      | _ \<Rightarrow> Inl ErrInvalidParams)"

definition UpdateContest :: "caller \<Rightarrow> nat \<Rightarrow> contest_edit \<Rightarrow> ContestDb \<Rightarrow> Contest reply" where
  "UpdateContest u i req db =
     (case managed_contest u i db of
        Inl e \<Rightarrow> (Inl e, db)
      | Inr c \<Rightarrow>
          if ce_Status req \<noteq> [] then (Inl ErrInvalidParams, db)
          else case edit_contest req c of
            Inl e \<Rightarrow> (Inl e, db)
          | Inr c \<Rightarrow> (Inr c, contest_Update c db))"

subsection \<open>Challenges of a contest\<close>

definition editable_status :: "Contest \<Rightarrow> bool" where
  "editable_status c \<longleftrightarrow> ct_Status c = ''draft'' \<or> ct_Status c = ''published''"

definition AddChallengeToContest :: "caller \<Rightarrow> nat \<Rightarrow> nat \<Rightarrow> int \<Rightarrow> int \<Rightarrow> bool \<Rightarrow> ContestDb \<Rightarrow> ContestChallenge reply" where
  "AddChallengeToContest u contestID challengeID points order visible db =
     (case managed_contest u contestID db of
        Inl e \<Rightarrow> (Inl e, db)
      | Inr c \<Rightarrow>
          if \<not> editable_status c then (Inl ErrInvalidParams, db)
          else case challenge_GetByID challengeID db of
            None \<Rightarrow> (Inl ErrInvalidParams, db)
          | Some ch \<Rightarrow>
              let p = (if points = 0 then ch_BasePoints ch else points) in
              (case cc_Create \<lparr>cc_ContestID = contestID, cc_ChallengeID = challengeID, cc_Points = p, cc_CurrentPoints = p, cc_SortOrder = order,
                    cc_IsVisible = visible\<rparr> db of
                 None \<Rightarrow> (Inl ErrDatabaseError, db)
               | Some (r, db) \<Rightarrow> (Inr r, db)))"

definition RemoveChallengeFromContest :: "caller \<Rightarrow> nat \<Rightarrow> nat \<Rightarrow> ContestDb \<Rightarrow> unit reply" where
  "RemoveChallengeFromContest u contestID challengeID db =
     (case managed_contest u contestID db of
        Inl e \<Rightarrow> (Inl e, db)
      | Inr c \<Rightarrow> if \<not> editable_status c then (Inl ErrInvalidParams, db) else (Inr (), cc_Delete contestID challengeID db))"

subsection \<open>Teams\<close>

definition new_member :: "nat \<Rightarrow> nat \<Rightarrow> string \<Rightarrow> TeamMember" where
  "new_member teamID userID role = \<lparr>mb_TeamID = teamID, mb_UserID = userID, mb_Role = role\<rparr>"

text \<open>The error of a creation is ignored here.\<close>

definition try_member :: "TeamMember \<Rightarrow> ContestDb \<Rightarrow> ContestDb" where
  "try_member m db = (case member_Create m db of None \<Rightarrow> db | Some db \<Rightarrow> db)"

definition found_team :: "Team \<Rightarrow> ContestDb \<Rightarrow> Team reply" where
  "found_team t db =
     (case team_Create t db of
        None \<Rightarrow> (Inl ErrDatabaseError, db)
      | Some (t, db) \<Rightarrow> (Inr t, try_member (new_member (tm_ID t) (tm_LeaderID t) ''leader'') db))"

definition CreateTeam :: "string \<Rightarrow> int \<Rightarrow> caller \<Rightarrow> nat option \<Rightarrow> nat \<Rightarrow> string \<Rightarrow> ContestDb \<Rightarrow> Team reply" where
  "CreateTeam code now u schoolID contestID name db =
     (case visible_contest now u contestID db of
        Inl e \<Rightarrow> (Inl e, db)
      | Inr c \<Rightarrow>
          case ensureContestRegistrationOpen now c of
            Some e \<Rightarrow> (Inl e, db)
          | None \<Rightarrow>
              if ct_TeamMaxSize c \<le> 1 then (Inl ErrInvalidParams, db)
              else if IsInAnyTeam contestID (cl_UserID u) db then (Inl ErrAlreadyInTeam, db)
              else found_team \<lparr>tm_ID = 0, tm_ContestID = contestID, tm_Name = name, tm_Token = code, tm_LeaderID = cl_UserID u, tm_SchoolID = schoolID,
                tm_Status = ''active''\<rparr> db)"

definition JoinTeam :: "int \<Rightarrow> nat \<Rightarrow> string \<Rightarrow> ContestDb \<Rightarrow> unit reply" where
  "JoinTeam now userID code db =
     (case GetByToken code db of
        None \<Rightarrow> (Inl ErrTeamNotFound, db)
      | Some t \<Rightarrow>
          if IsInAnyTeam (tm_ContestID t) userID db then (Inl ErrAlreadyInTeam, db)
          else case contest_GetByID (tm_ContestID t) db of
            None \<Rightarrow> (Inl ErrContestNotFound, db)
          | Some c \<Rightarrow>
              case ensureContestRegistrationOpen now c of
                Some e \<Rightarrow> (Inl e, db)
              | None \<Rightarrow>
                  if ct_TeamMaxSize c \<le> 1 then (Inl ErrInvalidParams, db)
                  else if ct_TeamMaxSize c \<le> int (CountMembers (tm_ID t) db) then (Inl ErrTeamFull, db)
                  else case member_Create (new_member (tm_ID t) userID ''member'') db of
                    None \<Rightarrow> (Inl ErrDatabaseError, db)
                  | Some db \<Rightarrow> (Inr (), db))"

definition singlePlayerTeamName :: "nat \<Rightarrow> string" where
  "singlePlayerTeamName userID = ''player_'' @ itoa userID"

definition RegisterContest :: "string \<Rightarrow> int \<Rightarrow> caller \<Rightarrow> nat \<Rightarrow> ContestDb \<Rightarrow> unit reply" where
  "RegisterContest code now u contestID db =
     (case visible_contest now u contestID db of
        Inl e \<Rightarrow> (Inl e, db)
      | Inr c \<Rightarrow>
          case ensureContestRegistrationOpen now c of
            Some e \<Rightarrow> (Inl e, db)
          | None \<Rightarrow>
              if 0 < ct_MaxParticipants c \<and> ct_MaxParticipants c \<le> int (CountParticipants contestID db) then (Inl ErrTeamFull, db)
              else if IsInAnyTeam contestID (cl_UserID u) db then (Inl ErrAlreadyInTeam, db)
              else if ct_TeamMaxSize c = 1 then
                (case found_team \<lparr>tm_ID = 0, tm_ContestID = contestID, tm_Name = singlePlayerTeamName (cl_UserID u), tm_Token = code,
                      tm_LeaderID = cl_UserID u, tm_SchoolID = None, tm_Status = ''active''\<rparr> db of
                   (Inl e, db) \<Rightarrow> (Inl e, db)
                 | (Inr _, db) \<Rightarrow> (Inr (), db))
              else (Inr (), db))"

definition LeaveTeam :: "nat \<Rightarrow> nat \<Rightarrow> ContestDb \<Rightarrow> unit reply" where
  "LeaveTeam userID teamID db =
     (case team_GetByID teamID db of
        None \<Rightarrow> (Inl ErrTeamNotFound, db)
      | Some t \<Rightarrow> if tm_LeaderID t = userID then (Inl ErrPermissionDenied, db) else (Inr (), member_Delete teamID userID db))"

text \<open>Without a contest there is no limit.\<close>

definition InviteTeamMember :: "nat \<Rightarrow> nat \<Rightarrow> nat \<Rightarrow> ContestDb \<Rightarrow> unit reply" where
  "InviteTeamMember userID teamID invited db =
     (case team_GetByID teamID db of
        None \<Rightarrow> (Inl ErrTeamNotFound, db)
      | Some t \<Rightarrow>
          if tm_LeaderID t \<noteq> userID then (Inl ErrPermissionDenied, db)
          else if IsInAnyTeam (tm_ContestID t) invited db then (Inl ErrAlreadyInTeam, db)
          else if (case contest_GetByID (tm_ContestID t) db of Some c \<Rightarrow> ct_TeamMaxSize c \<le> int (CountMembers teamID db) | None \<Rightarrow> False) then (Inl ErrTeamFull, db)
          else case member_Create (new_member teamID invited ''member'') db of
            None \<Rightarrow> (Inl ErrDatabaseError, db)
          | Some db \<Rightarrow> (Inr (), db))"

definition RemoveTeamMember :: "nat \<Rightarrow> nat \<Rightarrow> nat \<Rightarrow> ContestDb \<Rightarrow> unit reply" where
  "RemoveTeamMember userID teamID memberID db =
     (case team_GetByID teamID db of
        None \<Rightarrow> (Inl ErrTeamNotFound, db)
      | Some t \<Rightarrow>
          if tm_LeaderID t \<noteq> userID then (Inl ErrPermissionDenied, db)
          else if memberID = userID then (Inl ErrInvalidParams, db)
          else (Inr (), member_Delete teamID memberID db))"

subsection \<open>Flags\<close>

record flag_env =
  fe_sha :: "byte list \<Rightarrow> byte list"
  fe_regex :: "string \<Rightarrow> string \<Rightarrow> bool"
  fe_service :: "Challenge \<Rightarrow> string \<Rightarrow> bool"
  fe_int :: int
  fe_tie :: "nat \<Rightarrow> nat"

definition generateDynamicFlag :: "flag_env \<Rightarrow> Challenge \<Rightarrow> nat \<Rightarrow> string" where
  "generateDynamicFlag v ch userID =
     ''flag{'' @ hex_encode (take 16 (fe_sha v (str_bytes (ch_FlagSecret ch @ '':'' @ itoa userID @ '':'' @ itoa (ch_ID ch))))) @ ''}''"

definition validateFlag :: "flag_env \<Rightarrow> Challenge \<Rightarrow> string \<Rightarrow> nat \<Rightarrow> bool" where
  "validateFlag v ch flag userID \<longleftrightarrow>
     (if ch_FlagType ch = ''static'' then ch_FlagTemplate ch = flag
      else if ch_FlagType ch = ''dynamic'' then generateDynamicFlag v ch userID = flag
      else if ch_FlagType ch = ''regex'' then (if ch_FlagRegex ch \<noteq> [] then fe_regex v (ch_FlagRegex ch) flag else ch_FlagTemplate ch = flag)
      else if ch_FlagType ch = ''service'' then fe_service v ch flag
      else ch_FlagTemplate ch = flag)"

text \<open>The points after so many solutions.\<close>

definition dynamic_points :: "int \<Rightarrow> int \<Rightarrow> int \<Rightarrow> f64 \<Rightarrow> nat \<Rightarrow> int" where
  "dynamic_points oob points minPoints decay n =
     (let base = f64_of_int points;
          least = (if 0 < minPoints then f64_min base (f64_of_int minPoints) else base)
      in f64_to_int oob (f64_max least (f64_sub base (f64_mul (f64_mul decay (f64_of_int (int n))) base))))"

definition updateDynamicScore :: "flag_env \<Rightarrow> nat \<Rightarrow> nat \<Rightarrow> ContestChallenge \<Rightarrow> Challenge \<Rightarrow> ContestDb \<Rightarrow> ContestDb" where
  "updateDynamicScore v contestID challengeID cc ch db =
     UpdateCurrentPoints contestID challengeID
       (dynamic_points (fe_int v) (cc_Points cc) (ch_MinPoints ch) (ch_DecayFactor ch) (CountSolves contestID challengeID db)) db"

subsection \<open>Submitting a flag\<close>

text \<open>
  What is read before the first write: the contest, the team, whether the challenge is solved, and whether
  the flag is right.  A deleted challenge of a contest is a nil pointer.
\<close>

record verdict =
  ve_contest :: Contest
  ve_team :: nat
  ve_cc :: ContestChallenge
  ve_challenge :: Challenge
  ve_correct :: bool

datatype checked = Refused contest_err | AlreadySolved | Judged verdict

definition submit_check :: "flag_env \<Rightarrow> int \<Rightarrow> caller \<Rightarrow> nat \<Rightarrow> nat \<Rightarrow> string \<Rightarrow> ContestDb \<Rightarrow> checked go" where
  "submit_check v now u contestID challengeID flag db =
     (case visible_contest now u contestID db of
        Inl e \<Rightarrow> Inr (Refused e)
      | Inr c \<Rightarrow>
          case ensureContestOngoing now c of
            Some e \<Rightarrow> Inr (Refused e)
          | None \<Rightarrow>
              case GetUserTeam contestID (cl_UserID u) db of
                None \<Rightarrow> Inr (Refused ErrPermissionDenied)
              | Some t \<Rightarrow>
                  if HasSolved contestID challengeID (Some (tm_ID t)) (cl_UserID u) db then Inr AlreadySolved
                  else case cc_GetByID contestID challengeID db of
                    None \<Rightarrow> Inr (Refused ErrChallengeNotFound)
                  | Some (cc, ch) \<Rightarrow>
                      go_bind (go_deref ch) (\<lambda>ch. Inr (Judged \<lparr>ve_contest = c, ve_team = tm_ID t, ve_cc = cc, ve_challenge = ch,
                        ve_correct = validateFlag v ch flag (cl_UserID u)\<rparr>)))"

definition award_points :: "nat \<Rightarrow> nat \<Rightarrow> verdict \<Rightarrow> ContestDb \<Rightarrow> int" where
  "award_points contestID challengeID r db =
     (if \<not> ve_correct r then 0
      else cc_CurrentPoints (ve_cc r) +
        (if GetFirstBlood contestID challengeID db = None \<and> 0 < ct_FirstBloodBonus (ve_contest r) then ct_FirstBloodBonus (ve_contest r) else 0))"

text \<open>What is written then: points, score, ranks, the submission and the counts.\<close>

definition submit_award :: "flag_env \<Rightarrow> int \<Rightarrow> nat \<Rightarrow> string \<Rightarrow> nat \<Rightarrow> nat \<Rightarrow> string \<Rightarrow> verdict \<Rightarrow> ContestDb \<Rightarrow> int \<times> ContestDb" where
  "submit_award v now userID ip contestID challengeID flag r db =
     (let points = award_points contestID challengeID r db;
          db = (if ve_correct r then
                  let db = (if ct_DynamicScore (ve_contest r) then updateDynamicScore v contestID challengeID (ve_cc r) (ve_challenge r) db else db)
                  in UpdateRanks (fe_tie v) contestID (AddScore now contestID (Some (ve_team r)) userID points db)
                else db);
          db = submission_Create \<lparr>su_ContestID = contestID, su_ChallengeID = challengeID, su_UserID = userID, su_TeamID = Some (ve_team r), su_Flag = flag,
            su_IsCorrect = ve_correct r, su_Points = points, su_SubmittedAt = now, su_IP = ip\<rparr> db;
          db = IncrementAttemptCount challengeID db;
          db = (if ve_correct r then IncrementSolveCount challengeID db else db)
      in (points, db))"

subsection \<open>The board\<close>

record ScoreboardEntry =
  se_Rank :: int
  se_TeamID :: "nat option"
  se_TeamName :: string
  se_UserID :: nat
  se_DisplayName :: string
  se_TotalScore :: int
  se_SolveCount :: int
  se_LastSolveAt :: int
  se_FirstBloodCount :: int

text \<open>The rank of a row that has none is its place; \<open>users\<close> gives the display names of the users there are.\<close>

definition board_entry :: "(nat \<Rightarrow> string option) \<Rightarrow> ContestDb \<Rightarrow> nat \<Rightarrow> ContestScore \<Rightarrow> ScoreboardEntry" where
  "board_entry users db i r =
     (let team = (case sc_TeamID r of None \<Rightarrow> None | Some t \<Rightarrow> team_GetByID t db)
      in \<lparr>se_Rank = (if sc_Rank r = 0 then int i + 1 else sc_Rank r),
           se_TeamID = map_option tm_ID team, se_TeamName = (case team of None \<Rightarrow> [] | Some t \<Rightarrow> tm_Name t),
           se_UserID = (case users (sc_UserID r) of None \<Rightarrow> 0 | Some _ \<Rightarrow> sc_UserID r),
           se_DisplayName = (case users (sc_UserID r) of None \<Rightarrow> [] | Some name \<Rightarrow> name),
           se_TotalScore = sc_TotalScore r, se_SolveCount = sc_SolveCount r, se_LastSolveAt = sc_LastSolveAt r,
           se_FirstBloodCount = sc_FirstBloodCount r\<rparr>)"

definition loadScoreboardList :: "(nat \<Rightarrow> string option) \<Rightarrow> (nat \<Rightarrow> nat) \<Rightarrow> nat \<Rightarrow> ContestDb \<Rightarrow> ScoreboardEntry list" where
  "loadScoreboardList users tie contestID db =
     map (\<lambda>(i, r). board_entry users db i r) (enumerate 0 (score_GetScoreboard tie contestID 1 100 db))"

text \<open>My entry is the first one of my team, or mine when I have no team; without one, rank and score are 0.\<close>

definition my_entry :: "caller \<Rightarrow> nat \<Rightarrow> ContestDb \<Rightarrow> ScoreboardEntry list \<Rightarrow> int \<times> int" where
  "my_entry u contestID db es =
     (let team = (if 0 < cl_UserID u then map_option tm_ID (GetUserTeam contestID (cl_UserID u) db) else None);
          mine = (\<lambda>e. case team of Some t \<Rightarrow> se_TeamID e = Some t | None \<Rightarrow> se_UserID e = cl_UserID u)
      in case find mine es of None \<Rightarrow> (0, 0) | Some e \<Rightarrow> (se_Rank e, se_TotalScore e))"

text \<open>The cache of the boards holds what was loaded last, until a right flag or a short time takes it out.\<close>

type_synonym board_cache = "nat \<Rightarrow> ScoreboardEntry list option"

definition GetScoreboard ::
  "(nat \<Rightarrow> string option) \<Rightarrow> (nat \<Rightarrow> nat) \<Rightarrow> int \<Rightarrow> caller \<Rightarrow> nat \<Rightarrow> ContestDb \<Rightarrow> board_cache \<Rightarrow>
   (contest_err + ScoreboardEntry list \<times> int \<times> int) \<times> board_cache" where
  "GetScoreboard users tie now u contestID db cache =
     (case visible_contest now u contestID db of
        Inl e \<Rightarrow> (Inl e, cache)
      | Inr c \<Rightarrow>
          (case cache contestID of
             Some es \<Rightarrow> (Inr (es, my_entry u contestID db es), cache)
           | None \<Rightarrow> let es = loadScoreboardList users tie contestID db in (Inr (es, my_entry u contestID db es), cache(contestID \<mapsto> es))))"

definition invalidateScoreboardCache :: "nat \<Rightarrow> board_cache \<Rightarrow> board_cache" where
  "invalidateScoreboardCache contestID cache = cache(contestID := None)"

text \<open>Whether the flag was right, and the points.  A right flag takes the board of the contest out of the cache.\<close>

definition SubmitFlag ::
  "flag_env \<Rightarrow> int \<Rightarrow> string \<Rightarrow> caller \<Rightarrow> nat \<Rightarrow> nat \<Rightarrow> string \<Rightarrow> ContestDb \<Rightarrow> board_cache \<Rightarrow> ((bool \<times> int) reply \<times> board_cache) go" where
  "SubmitFlag v now ip u contestID challengeID flag db cache =
     go_bind (submit_check v now u contestID challengeID flag db) (\<lambda>r.
       case r of
         Refused e \<Rightarrow> Inr ((Inl e, db), cache)
       | AlreadySolved \<Rightarrow> Inr ((Inr (False, 0), db), cache)
       | Judged r \<Rightarrow> (case submit_award v now (cl_UserID u) ip contestID challengeID flag r db of
           (points, db) \<Rightarrow> Inr ((Inr (ve_correct r, points), db), if ve_correct r then invalidateScoreboardCache contestID cache else cache)))"

end
