(* ===== verification/ContestFacts.thy ===== *)
theory ContestFacts
  imports ContestService GoFloatFacts
begin

section \<open>Contests: properties\<close>

text \<open>
  While requests are handled one after another, the scores are what the solved challenges gave.
\<close>

subsection \<open>Tables\<close>

lemma present_insert [simp]: "present (insert_row r t) = present t @ [r]"
  by (simp add: present_def insert_row_def)

lemma all_rows_insert [simp]: "all_rows (insert_row r t) = all_rows t @ [r]"
  by (simp add: all_rows_def insert_row_def)

lemma present_update: "present (update_rows p f t) = map (\<lambda>r. if p r then f r else r) (present t)"
  by (induction t) (auto simp: present_def update_rows_def)

lemma all_rows_delete [simp]: "all_rows (delete_rows p t) = all_rows t"
  by (induction t) (auto simp: all_rows_def delete_rows_def)

lemma present_delete: "present (delete_rows p t) = filter (\<lambda>r. \<not> p r) (present t)"
  by (induction t) (auto simp: present_def delete_rows_def)

lemma present_subset: "set (present t) \<subseteq> set (all_rows t)"
  by (auto simp: present_def all_rows_def)

lemma present_Nil [simp]: "present [] = []" "all_rows [] = []"
  by (simp_all add: present_def all_rows_def)

text \<open>Identities are given in order.\<close>

definition ids_ok :: "('a \<Rightarrow> nat) \<Rightarrow> 'a table \<Rightarrow> bool" where
  "ids_ok f t \<longleftrightarrow> map f (all_rows t) = [1..<length t + 1]"

lemma ids_ok_insert: "ids_ok f t \<Longrightarrow> f r = next_id t \<Longrightarrow> ids_ok f (insert_row r t)"
  by (simp add: ids_ok_def next_id_def) (simp add: insert_row_def)

lemma ids_ok_distinct: "ids_ok f t \<Longrightarrow> distinct (map f (all_rows t))"
  by (simp add: ids_ok_def)

lemma ids_ok_less: "ids_ok f t \<Longrightarrow> r \<in> set (all_rows t) \<Longrightarrow> f r < next_id t"
proof -
  assume i: "ids_ok f t" and "r \<in> set (all_rows t)"
  then have "f r \<in> set (map f (all_rows t))" by simp
  then show ?thesis unfolding i [unfolded ids_ok_def] by (auto simp: next_id_def)
qed

lemma ids_ok_inj: "ids_ok f t \<Longrightarrow> r \<in> set (all_rows t) \<Longrightarrow> q \<in> set (all_rows t) \<Longrightarrow> f r = f q \<Longrightarrow> r = q"
  using ids_ok_distinct [of f t] by (auto simp: distinct_map dest: inj_onD)

lemma find_live:
  assumes "ids_ok f t"
  shows "find (\<lambda>r. f r = i) (present t) = Some r \<longleftrightarrow> r \<in> set (present t) \<and> f r = i"
proof
  assume "find (\<lambda>r. f r = i) (present t) = Some r"
  then show "r \<in> set (present t) \<and> f r = i" by (auto simp: find_Some_iff)
next
  assume r: "r \<in> set (present t) \<and> f r = i"
  then obtain q where q: "find (\<lambda>r. f r = i) (present t) = Some q" by (metis (mono_tags, lifting) find_None_iff not_Some_eq)
  then have "q \<in> set (present t)" "f q = i" by (auto simp: find_Some_iff)
  then have "q = r" using r ids_ok_inj [OF assms] present_subset by fastforce
  then show "find (\<lambda>r. f r = i) (present t) = Some r" using q by simp
qed

subsection \<open>Status and permissions\<close>

text \<open>
  A published contest goes through three states as the time passes, never back; and a draft is seen only by
  those who may manage it.
\<close>

definition status_number :: "string \<Rightarrow> nat" where
  "status_number s = (if s = ''draft'' then 0 else if s = ''published'' then 1 else if s = ''ongoing'' then 2 else 3)"

theorem Contest_status_forward:
  assumes "now \<le> later" and "ct_StartTime c < ct_EndTime c"
  shows "status_number (CurrentStatusAt now c) \<le> status_number (CurrentStatusAt later c) \<and>
    (IsRegistrationOpen now c \<longrightarrow> \<not> IsOngoing now c) \<and>
    (contestCanView now u c \<and> CurrentStatusAt now c = ''draft'' \<longrightarrow> contestCanManage u c)"
  using assms by (auto simp: CurrentStatusAt_def status_number_def IsRegistrationOpen_def IsOngoing_def contestCanView_def)

definition sample_contest :: Contest where
  "sample_contest = \<lparr>ct_ID = 0, ct_SchoolID = None, ct_CreatorID = 0, ct_Title = ''spring'', ct_Type = ''jeopardy'', ct_StartTime = 10,
     ct_EndTime = 20, ct_RegistrationStart = None, ct_RegistrationEnd = None, ct_Status = ''published'', ct_IsPublic = True, ct_MaxParticipants = 0,
     ct_TeamMinSize = 1, ct_TeamMaxSize = 2, ct_DynamicScore = True, ct_FirstBloodBonus = 5\<rparr>"

theorem Contest_status_forward_witness:
  "status_number (CurrentStatusAt 5 sample_contest) \<le> status_number (CurrentStatusAt 15 sample_contest) \<and> IsRegistrationOpen 5 sample_contest"
  using Contest_status_forward [of 5 15 sample_contest "\<lparr>cl_UserID = 1, cl_SchoolID = 0, cl_Role = ''student''\<rparr>"]
  by (simp add: sample_contest_def IsRegistrationOpen_def CurrentStatusAt_def)

subsection \<open>Points\<close>

text \<open>What is left of the points after so many solutions, without the minimum.\<close>

definition decayed :: "int \<Rightarrow> rat \<Rightarrow> nat \<Rightarrow> rat" where
  "decayed p d n = (let z = f64_near (f64_near (d * of_nat n) * of_int p) in if z \<le> of_int p then f64_near (of_int p - z) else 0)"

lemma rat_le_int: "x \<le> y \<Longrightarrow> (of_int x :: rat) \<le> of_int y"
  by simp

lemma f64_num_2_106: "f64_num (2 ^ 106)" "f64_num (2 ^ 53)"
  using f64_num_scaled [of 1 106] f64_num_scaled [of 1 53] by (simp_all add: power_int_def)

lemma dynamic_points_eq:
  assumes p: "0 \<le> p" "p < 2 ^ 53" and m: "m < 2 ^ 53" and d: "0 \<le> d" "d \<le> 1" and n: "n < 2 ^ 53"
  shows "dynamic_points oob p m (Fin d) n = \<lfloor>max (of_int (if 0 < m then min p m else p)) (decayed p d n)\<rfloor>"
proof -
  define l where "l = (if 0 < m then min p m else p)"
  have l: "0 \<le> l" "l \<le> p" using p by (auto simp: l_def)
  have pr: "(0 :: rat) \<le> of_int p" "(of_int p :: rat) \<le> 2 ^ 53" using p rat_le_int [of p "2 ^ 53"] by simp_all
  have nr: "f64_of_int (int n) = Fin (of_nat n)" using n by (simp add: f64_of_int_def)
  have "(of_nat n :: rat) \<le> of_nat (2 ^ 53)" unfolding of_nat_le_iff using n by simp
  then have "(of_nat n :: rat) \<le> 2 ^ 53" by simp
  then have "d * of_nat n \<le> 1 * (2 ^ 53 :: rat)" using d by (intro mult_mono) simp_all
  then have dn: "0 \<le> d * of_nat n" "d * of_nat n \<le> (2 ^ 53 :: rat)" using d by simp_all
  let ?a = "f64_near (d * of_nat n)"
  have a: "0 \<le> ?a" "?a \<le> 2 ^ 53" using f64_near_bounds [OF f64_num_2_106(2) dn] by simp_all
  have "?a * of_int p \<le> 2 ^ 53 * 2 ^ 53" using a pr by (intro mult_mono) simp_all
  then have ap: "0 \<le> ?a * of_int p" "?a * of_int p \<le> 2 ^ 106" using a pr by simp_all
  let ?z = "f64_near (?a * of_int p)"
  have z: "0 \<le> ?z" "?z \<le> 2 ^ 106" using f64_near_bounds [OF f64_num_2_106(1) ap] by simp_all
  have pb: "f64_of_int p = Fin (of_int p)" using p by (simp add: f64_of_int_def)
  have mul: "f64_mul (f64_mul (Fin d) (f64_of_int (int n))) (f64_of_int p) = Fin ?z"
    using dn ap by (simp add: nr pb f64_round_small)
  have least: "(if 0 < m then f64_min (f64_of_int p) (f64_of_int m) else f64_of_int p) = Fin (of_int l)"
    using p m by (auto simp: l_def f64_min_def min_def pb) (simp_all add: f64_of_int_def)
  have "of_int l \<le> (2 ^ 53 :: rat)" using l p rat_le_int [of l "2 ^ 53"] by simp
  have y: "decayed p d n \<le> of_int p" "decayed p d n = (if ?z \<le> of_int p then f64_near (of_int p - ?z) else 0)"
    using f64_near_bounds [OF f64_num_int [of p], of "of_int p - ?z"] z p by (auto simp: decayed_def Let_def)
  have "f64_max (Fin (of_int l)) (f64_sub (Fin (of_int p)) (Fin ?z)) = Fin (max (of_int l) (decayed p d n))"
  proof (cases "?z \<le> of_int p")
    case True
    then have "f64_round (of_int p - ?z) = Fin (f64_near (of_int p - ?z))" using pr z by (intro f64_round_small) simp_all
    then show ?thesis using True by (auto simp: f64_sub_def f64_neg_def y(2) f64_max_def)
  next
    case False
    then have "f64_round (of_int p - ?z) = NegInf \<or> (\<exists>x \<le> 0. f64_round (of_int p - ?z) = Fin x)" by (intro f64_round_neg) simp
    then show ?thesis using False l by (auto simp: f64_sub_def f64_neg_def y(2) f64_max_def)
  qed
  then have "dynamic_points oob p m (Fin d) n = f64_to_int oob (Fin (max (of_int l) (decayed p d n)))"
    unfolding dynamic_points_def Let_def mul least by (simp only: pb)
  moreover have "max (of_int l) (decayed p d n) \<le> of_int p" using y(1) l by simp
  then have "\<lfloor>max (of_int l) (decayed p d n)\<rfloor> \<le> p" by (simp add: floor_le_iff)
  moreover have "0 \<le> max (of_int l) (decayed p d n)" using l by (simp add: le_max_iff_disj)
  ultimately show ?thesis using f64_to_int_small [of "max (of_int l) (decayed p d n)" p] p(2) unfolding l_def [symmetric] by simp
qed

lemma decayed_none: "0 \<le> p \<Longrightarrow> p \<le> 2 ^ 53 \<Longrightarrow> decayed p d 0 = of_int p"
  by (simp add: decayed_def f64_near_num f64_num_int f64_near_0)

lemma decayed_mono:
  assumes "0 \<le> p" and "0 \<le> d" and "n \<le> k"
  shows "decayed p d k \<le> decayed p d n"
proof -
  let ?z = "\<lambda>n. f64_near (f64_near (d * of_nat n) * of_int p)"
  have "0 \<le> d * of_nat n" "d * of_nat n \<le> d * of_nat k" using assms by (simp_all add: mult_left_mono)
  then have "f64_near (d * of_nat n) \<le> f64_near (d * of_nat k)" "0 \<le> f64_near (d * of_nat n)"
    using f64_near_mono [of 0 "d * of_nat n"] by (simp_all add: f64_near_mono f64_near_0)
  then have z: "?z n \<le> ?z k" using assms(1) by (intro f64_near_mono [OF mult_nonneg_nonneg mult_right_mono]) simp_all
  have nn: "0 \<le> f64_near r" if "0 \<le> r" for r using f64_near_mono [of 0 r] that by (simp add: f64_near_0)
  show ?thesis using z nn [of "of_int p - ?z n"] f64_near_mono [of "of_int p - ?z k" "of_int p - ?z n"] by (auto simp: decayed_def Let_def)
qed

lemma decayed_le: "0 \<le> p \<Longrightarrow> p \<le> 2 ^ 53 \<Longrightarrow> 0 \<le> d \<Longrightarrow> decayed p d n \<le> of_int p"
  using decayed_mono [of p d 0 n] by (simp add: decayed_none)

text \<open>C35. 
  With a decay between 0 and 1, and points and solutions that a double holds exactly, the points of a challenge
  never rise with the number of solutions; they stay between the minimum, or all the points when there is no
  minimum, and all the points, and without solutions they are all the points.
\<close>

theorem Contest_points:
  assumes "0 \<le> p" and "p < 2 ^ 53" and "m < 2 ^ 53" and "0 \<le> d" and "d \<le> 1" and "n \<le> k" and "k < 2 ^ 53"
  shows "dynamic_points oob p m (Fin d) k \<le> dynamic_points oob p m (Fin d) n \<and>
    (if 0 < m then min p m else p) \<le> dynamic_points oob p m (Fin d) k \<and> dynamic_points oob p m (Fin d) 0 = p \<and>
    dynamic_points oob p m (Fin d) k \<le> p"
proof -
  let ?l = "if 0 < m then min p m else p"
  have e: "dynamic_points oob p m (Fin d) i = \<lfloor>max (of_int ?l) (decayed p d i)\<rfloor>" if "i \<le> k" for i
    using assms that by (intro dynamic_points_eq) simp_all
  have l: "?l \<le> p" by simp
  have p: "(of_int ?l :: rat) \<le> of_int p" unfolding of_int_le_iff by (rule l)
  have "decayed p d k \<le> decayed p d n" using decayed_mono assms by simp
  then have a: "\<lfloor>max (of_int ?l) (decayed p d k)\<rfloor> \<le> \<lfloor>max (of_int ?l) (decayed p d n)\<rfloor>" by (intro floor_mono max.mono) simp_all
  have b: "?l \<le> \<lfloor>max (of_int ?l) (decayed p d k)\<rfloor>" unfolding le_floor_iff by simp
  have c: "max (of_int ?l) (decayed p d 0) = of_int p" using assms p by (simp add: decayed_none max_def)
  have "\<lfloor>max (of_int ?l) (decayed p d k)\<rfloor> \<le> \<lfloor>of_int p :: rat\<rfloor>" using p decayed_le [of p d k] assms by (intro floor_mono) simp
  then have h: "\<lfloor>max (of_int ?l) (decayed p d k)\<rfloor> \<le> p" by (simp only: floor_of_int)
  have z: "\<lfloor>max (of_int ?l) (decayed p d 0)\<rfloor> = p" unfolding c by (rule floor_of_int)
  show ?thesis unfolding e [OF order_refl] e [OF assms(6)] e [OF le0] by (intro conjI a b z h)
qed

theorem Contest_points_witness:
  "dynamic_points 0 100 10 (Fin (1 / 2)) 3 \<le> dynamic_points 0 100 10 (Fin (1 / 2)) 1 \<and> 10 \<le> dynamic_points 0 100 10 (Fin (1 / 2)) 3"
  using Contest_points [of 100 10 "1 / 2" 1 3 0] by (simp del: One_nat_def)

subsection \<open>Requests in a row\<close>

datatype contest_op =
    OpCreate nat "nat option" Contest
  | OpPublish caller nat
  | OpUpdate caller nat contest_edit
  | OpDelete caller nat
  | OpAdd caller nat nat int int bool
  | OpDrop caller nat nat
  | OpTeam string int caller "nat option" nat string
  | OpJoin int nat string
  | OpRegister string int caller nat
  | OpLeave nat nat
  | OpInvite nat nat nat
  | OpKick nat nat nat

fun contest_do :: "contest_op \<Rightarrow> ContestDb \<Rightarrow> ContestDb" where
  "contest_do (OpCreate u s c) db = snd (CreateContest u s c db)"
| "contest_do (OpPublish u i) db = snd (PublishContest u i db)"
| "contest_do (OpUpdate u i e) db = snd (UpdateContest u i e db)"
| "contest_do (OpDelete u i) db = snd (DeleteContest u i db)"
| "contest_do (OpAdd u i c p n v) db = snd (AddChallengeToContest u i c p n v db)"
| "contest_do (OpDrop u i c) db = snd (RemoveChallengeFromContest u i c db)"
| "contest_do (OpTeam code now u s i name) db = snd (CreateTeam code now u s i name db)"
| "contest_do (OpJoin now u code) db = snd (JoinTeam now u code db)"
| "contest_do (OpRegister code now u i) db = snd (RegisterContest code now u i db)"
| "contest_do (OpLeave u t) db = snd (LeaveTeam u t db)"
| "contest_do (OpInvite u t w) db = snd (InviteTeamMember u t w db)"
| "contest_do (OpKick u t w) db = snd (RemoveTeamMember u t w db)"

text \<open>
  With flags, boards and the cache, which may lose a board at any time.  The tie break and the users are
  those of the run.
\<close>

datatype contest_step =
    StOp contest_op
  | StFlag flag_env int string caller nat nat string
  | StBoard int caller nat
  | StExpire nat

fun step_do :: "(nat \<Rightarrow> string option) \<Rightarrow> (nat \<Rightarrow> nat) \<Rightarrow> contest_step \<Rightarrow> ContestDb \<times> board_cache \<Rightarrow> (ContestDb \<times> board_cache) go" where
  "step_do users tie (StOp x) (db, cache) = Inr (contest_do x db, cache)"
| "step_do users tie (StFlag v now ip u i c flag) (db, cache) =
     go_bind (SubmitFlag (v\<lparr>fe_tie := tie\<rparr>) now ip u i c flag db cache) (\<lambda>((r, db), cache). Inr (db, cache))"
| "step_do users tie (StBoard now u i) (db, cache) = Inr (db, snd (GetScoreboard users tie now u i db cache))"
| "step_do users tie (StExpire i) (db, cache) = Inr (db, cache(i := None))"

fun contest_run :: "(nat \<Rightarrow> string option) \<Rightarrow> (nat \<Rightarrow> nat) \<Rightarrow> contest_step list \<Rightarrow> ContestDb \<times> board_cache \<Rightarrow> (ContestDb \<times> board_cache) go" where
  "contest_run users tie [] s = Inr s"
| "contest_run users tie (x # xs) s = go_bind (step_do users tie x s) (contest_run users tie xs)"

text \<open>No contest and no team yet; the challenges are there.\<close>

definition start_state :: "Challenge table \<Rightarrow> ContestDb \<times> board_cache" where
  "start_state chs = (empty_db\<lparr>d_challenges := chs\<rparr>, \<lambda>_. None)"

lemma contest_run_inv:
  assumes "\<And>x s s'. x \<in> set xs \<Longrightarrow> P s \<Longrightarrow> step_do users tie x s = Inr s' \<Longrightarrow> P s'"
  shows "P s \<Longrightarrow> contest_run users tie xs s = Inr s' \<Longrightarrow> P s'"
  using assms
proof (induction xs arbitrary: s)
  case (Cons x xs)
  then obtain s1 where "step_do users tie x s = Inr s1" "contest_run users tie xs s1 = Inr s'" by (auto simp: go_bind_eq_Inr)
  moreover have "P s1" using Cons.prems(1,3) calculation(1) by (meson list.set_intros(1))
  ultimately show ?case using Cons.IH [of s1] Cons.prems(3) by (meson list.set_intros(2))
qed simp

text \<open>What a request can do to the tables.\<close>

definition tables_kept :: "ContestDb \<Rightarrow> ContestDb \<Rightarrow> bool" where
  "tables_kept db db' \<longleftrightarrow> d_submissions db' = d_submissions db \<and> d_scores db' = d_scores db"

lemma try_member_kept: "d_submissions (try_member m db) = d_submissions db \<and> d_scores (try_member m db) = d_scores db \<and>
    d_teams (try_member m db) = d_teams db \<and> d_contests (try_member m db) = d_contests db"
  by (auto simp: try_member_def member_Create_def split: option.splits)

lemma contest_do_keeps: "tables_kept db (contest_do x db)"
  by (cases x) (auto simp: tables_kept_def CreateContest_def contest_Create_def PublishContest_def transitionContestStatus_def contest_Update_def UpdateContest_def
      DeleteContest_def contest_Delete_def AddChallengeToContest_def cc_Create_def RemoveChallengeFromContest_def cc_Delete_def CreateTeam_def
      found_team_def team_Create_def try_member_kept JoinTeam_def member_Create_def RegisterContest_def LeaveTeam_def member_Delete_def InviteTeamMember_def
      RemoveTeamMember_def Let_def split: option.splits sum.splits if_splits prod.splits)

subsection \<open>Scores\<close>

text \<open>The right submissions of a team in a contest.\<close>

definition paid :: "nat \<Rightarrow> nat \<Rightarrow> ContestDb \<Rightarrow> ContestSubmission list" where
  "paid c t db = filter (\<lambda>s. su_ContestID s = c \<and> su_TeamID s = Some t \<and> su_IsCorrect s) (present (d_submissions db))"

text \<open>The score and the number of solutions that a team has, if it has any.\<close>

definition held :: "nat \<Rightarrow> nat \<Rightarrow> ContestDb \<Rightarrow> (int \<times> int) option" where
  "held c t db = map_option (\<lambda>r. (sc_TotalScore r, sc_SolveCount r)) (find (is_score c (Some t) 0) (present (d_scores db)))"

definition score_keys :: "ContestDb \<Rightarrow> (nat \<times> nat option) list" where
  "score_keys db = map (\<lambda>r. (sc_ContestID r, sc_TeamID r)) (present (d_scores db))"

text \<open>
  Each contest and team has at most one score, and it says what was paid.  No challenge was paid twice to a
  team, and what was wrong was paid nothing.
\<close>

definition scores_ok :: "ContestDb \<Rightarrow> bool" where
  "scores_ok db \<longleftrightarrow>
     distinct (score_keys db) \<and>
     (\<forall>c t. held c t db = (if paid c t db = [] then None else Some (sum_list (map su_Points (paid c t db)), int (length (paid c t db))))) \<and>
     (\<forall>c t. distinct (map su_ChallengeID (paid c t db))) \<and>
     (\<forall>s\<in>set (present (d_submissions db)). \<not> su_IsCorrect s \<longrightarrow> su_Points s = 0)"

lemma is_score_user: "is_score c (Some t) u = is_score c (Some t) 0"
  by (simp add: is_score_def fun_eq_iff)

lemma find_filter: "find p xs = (case filter p xs of [] \<Rightarrow> None | x # _ \<Rightarrow> Some x)"
  by (induction xs) auto

lemma HasSolved_paid: "HasSolved c h (Some t) u db \<longleftrightarrow> h \<in> su_ChallengeID ` set (paid c t db)"
  by (auto simp: HasSolved_def solves_def paid_def by_team_or_user_def length_greater_0_conv filter_empty_conv)

text \<open>What the award does to the tables of scores and submissions.\<close>

lemma increments_keep [simp]:
  "d_scores (IncrementSolveCount i db) = d_scores db" "d_submissions (IncrementSolveCount i db) = d_submissions db"
  "d_scores (IncrementAttemptCount i db) = d_scores db" "d_submissions (IncrementAttemptCount i db) = d_submissions db"
  "d_scores (UpdateCurrentPoints c h p db) = d_scores db" "d_submissions (UpdateCurrentPoints c h p db) = d_submissions db"
  "d_scores (updateDynamicScore v c h cc ch db) = d_scores db" "d_submissions (updateDynamicScore v c h cc ch db) = d_submissions db"
  by (simp_all add: IncrementSolveCount_def IncrementAttemptCount_def UpdateCurrentPoints_def updateDynamicScore_def)

lemma AddScore_keeps [simp]: "d_submissions (AddScore now c t u p db) = d_submissions db"
  by (simp add: AddScore_def)

lemma UpdateRanks_keeps [simp]: "d_submissions (UpdateRanks tie c db) = d_submissions db"
  by (simp add: UpdateRanks_def Let_def)

text \<open>A change of the ranks alone.\<close>

definition same_but_rank :: "ContestScore table \<Rightarrow> ContestScore table \<Rightarrow> bool" where
  "same_but_rank t t' \<longleftrightarrow> map (\<lambda>(r, d). (r\<lparr>sc_Rank := 0\<rparr>, d)) t' = map (\<lambda>(r, d). (r\<lparr>sc_Rank := 0\<rparr>, d)) t"

lemma UpdateRanks_rank: "same_but_rank (d_scores db) (d_scores (UpdateRanks tie c db))"
  by (auto simp: same_but_rank_def UpdateRanks_def Let_def)

lemma same_but_rank_live:
  assumes "same_but_rank t t'"
  shows "map (\<lambda>r. r\<lparr>sc_Rank := 0\<rparr>) (present t') = map (\<lambda>r. r\<lparr>sc_Rank := 0\<rparr>) (present t)"
    "map (\<lambda>r. r\<lparr>sc_Rank := 0\<rparr>) (all_rows t') = map (\<lambda>r. r\<lparr>sc_Rank := 0\<rparr>) (all_rows t)" "length t' = length t"
proof -
  have l: "map (\<lambda>r. r\<lparr>sc_Rank := 0\<rparr>) (present t) = present (map (\<lambda>(r, d). (r\<lparr>sc_Rank := 0\<rparr>, d)) t)"
    "map (\<lambda>r. r\<lparr>sc_Rank := 0\<rparr>) (all_rows t) = all_rows (map (\<lambda>(r, d). (r\<lparr>sc_Rank := 0\<rparr>, d)) t)" for t
    by (induction t) (auto simp: present_def all_rows_def)
  show "map (\<lambda>r. r\<lparr>sc_Rank := 0\<rparr>) (present t') = map (\<lambda>r. r\<lparr>sc_Rank := 0\<rparr>) (present t)"
    "map (\<lambda>r. r\<lparr>sc_Rank := 0\<rparr>) (all_rows t') = map (\<lambda>r. r\<lparr>sc_Rank := 0\<rparr>) (all_rows t)"
    unfolding l using assms by (simp_all add: same_but_rank_def)
  show "length t' = length t" using arg_cong [OF assms [unfolded same_but_rank_def], of length] by simp
qed


lemma find_map_view:
  assumes "map g xs = map g ys" and "\<And>x. p x = p' (g x)" and "\<And>x. h x = h' (g x)"
  shows "map_option h (find p xs) = map_option h (find p ys)"
proof -
  have "map_option h (find p zs) = map_option h' (find p' (map g zs))" for zs by (induction zs) (simp_all add: assms(2,3))
  then show ?thesis using assms(1) by simp
qed

lemma held_UpdateRanks [simp]: "held c t (UpdateRanks tie i db) = held c t db"
  unfolding held_def
  by (rule find_map_view [OF same_but_rank_live(1) [OF UpdateRanks_rank], where p' = "is_score c (Some t) 0"
        and h' = "\<lambda>r. (sc_TotalScore r, sc_SolveCount r)"]) (simp_all add: is_score_def)

lemma keys_UpdateRanks [simp]: "score_keys (UpdateRanks tie i db) = score_keys db"
proof -
  have "map (\<lambda>r. (sc_ContestID r, sc_TeamID r)) (map (\<lambda>r. r\<lparr>sc_Rank := 0\<rparr>) rs) = map (\<lambda>r. (sc_ContestID r, sc_TeamID r)) rs" for rs by simp
  then show ?thesis unfolding score_keys_def using same_but_rank_live(1) [OF UpdateRanks_rank] by metis
qed

lemma held_AddScore:
  "held c t (AddScore now c0 (Some t0) u p db) =
     (if c = c0 \<and> t = t0 then Some (case held c t db of None \<Rightarrow> (p, 1) | Some (x, n) \<Rightarrow> (x + p, n + 1)) else held c t db)"
proof -
  let ?q = "is_score c0 (Some t0) u" let ?f = "\<lambda>r. r\<lparr>sc_TotalScore := sc_TotalScore r + p, sc_SolveCount := sc_SolveCount r + 1, sc_LastSolveAt := now\<rparr>"
  have q: "is_score c (Some t) 0 r \<longleftrightarrow> (if c = c0 \<and> t = t0 then ?q r else is_score c (Some t) 0 r \<and> \<not> ?q r)" for r
    by (auto simp: is_score_def)
  have f: "is_score c (Some t) 0 (if ?q r then ?f r else r) = is_score c (Some t) 0 r" for r by (simp add: is_score_def)
  show ?thesis
  proof (cases "filter ?q (present (d_scores db)) = []")
    case True
    then have n: "find ?q (present (d_scores db)) = None" by (simp add: find_filter)
    show ?thesis
    proof (cases "c = c0 \<and> t = t0")
      case c: True
      then have "find (is_score c (Some t) 0) (present (d_scores db)) = None" using n q by (simp add: is_score_user [of c0 t0 u])
      then show ?thesis using True c by (simp add: held_def AddScore_def find_append) (simp add: is_score_def)
    next
      case False
      then show ?thesis using True by (simp add: held_def AddScore_def find_append) (auto simp: is_score_def split: option.splits)
    qed
  next
    case False
    have m: "find (is_score c (Some t) 0) (map (\<lambda>r. if ?q r then ?f r else r) rs) =
        map_option (\<lambda>r. if ?q r then ?f r else r) (find (is_score c (Some t) 0) rs)" for rs
      by (induction rs) (simp_all add: f)
    have a: "held c t (AddScore now c0 (Some t0) u p db) = map_option (\<lambda>r. (sc_TotalScore r, sc_SolveCount r))
        (map_option (\<lambda>r. if ?q r then ?f r else r) (find (is_score c (Some t) 0) (present (d_scores db))))"
      using False by (simp add: held_def AddScore_def present_update m del: map_option.comp option.map_comp)
    show ?thesis
    proof (cases "find (is_score c (Some t) 0) (present (d_scores db))")
      case None
      then have "\<not> (c = c0 \<and> t = t0)" using False q by (auto simp: find_None_iff filter_empty_conv)
      then show ?thesis using a None by (auto simp: held_def)
    next
      case (Some r)
      then have "is_score c (Some t) 0 r" by (auto simp: find_Some_iff)
      then show ?thesis using a Some q [of r] by (auto simp: held_def)
    qed
  qed
qed

lemma keys_AddScore:
  "score_keys (AddScore now c0 (Some t0) u p db) = score_keys db @ (if held c0 t0 db = None then [(c0, Some t0)] else [])"
proof -
  have e: "held c0 t0 db = None \<longleftrightarrow> filter (is_score c0 (Some t0) u) (present (d_scores db)) = []"
    by (simp add: held_def find_filter is_score_user [of c0 t0 u] split: list.splits)
  show ?thesis by (simp add: e AddScore_def score_keys_def present_update if_distrib cong: if_cong)
qed

lemma held_None_key: "held c t db = None \<longleftrightarrow> (c, Some t) \<notin> set (score_keys db)"
  by (auto simp: held_def score_keys_def find_None_iff is_score_def)

lemma paid_submission:
  "paid c t (submission_Create s db) = paid c t db @ (if su_ContestID s = c \<and> su_TeamID s = Some t \<and> su_IsCorrect s then [s] else [])"
  by (simp add: paid_def submission_Create_def)

lemma scores_ok_submission:
  assumes ok: "scores_ok db" and s: "su_ContestID s = c0" "su_TeamID s = Some t0"
    and wrong: "\<not> su_IsCorrect s \<Longrightarrow> su_Points s = 0 \<and> d_scores db' = d_scores db"
    and right: "su_IsCorrect s \<Longrightarrow> \<not> HasSolved c0 (su_ChallengeID s) (Some t0) w db \<and>
      (\<exists>now u tie. d_scores db' = d_scores (UpdateRanks tie c0 (AddScore now c0 (Some t0) u (su_Points s) db)))"
    and subs: "d_submissions db' = insert_row s (d_submissions db)"
  shows "scores_ok db'"
proof -
  have paid: "paid c t db' = paid c t db @ (if c0 = c \<and> t0 = t \<and> su_IsCorrect s then [s] else [])" for c t
    using s by (simp add: paid_def subs)
  have heldq: "held c t db' = held c t d" "score_keys db' = score_keys d" if "d_scores db' = d_scores d" for c t d
    using that by (simp_all add: held_def score_keys_def)
  show ?thesis
  proof (cases "su_IsCorrect s")
    case False
    then show ?thesis using ok wrong heldq [of db] by (auto simp: scores_ok_def paid subs)
  next
    case True
    then obtain now u tie where d: "d_scores db' = d_scores (UpdateRanks tie c0 (AddScore now c0 (Some t0) u (su_Points s) db))"
      and n: "su_ChallengeID s \<notin> su_ChallengeID ` set (paid c0 t0 db)" using right HasSolved_paid by blast
    note h = heldq [OF d]
    have "held c t db' = (if paid c t db' = [] then None else Some (sum_list (map su_Points (paid c t db')), int (length (paid c t db'))))" for c t
      using ok True unfolding h held_UpdateRanks held_AddScore paid scores_ok_def by simp
    moreover have "distinct (score_keys db)" using ok by (simp add: scores_ok_def)
    then have "distinct (score_keys db')" using held_None_key [of c0 t0 db] unfolding h keys_UpdateRanks keys_AddScore by auto
    moreover have "distinct (map su_ChallengeID (paid c t db'))" for c t using ok n True by (auto simp: paid scores_ok_def)
    moreover have "\<forall>s\<in>set (present (d_submissions db')). \<not> su_IsCorrect s \<longrightarrow> su_Points s = 0" using ok True by (auto simp: subs scores_ok_def)
    ultimately show ?thesis by (simp add: scores_ok_def)
  qed
qed


lemma submit_check_judged:
  assumes "submit_check v now u c h flag db = Inr (Judged r)"
  shows "\<not> HasSolved c h (Some (ve_team r)) (cl_UserID u) db" "\<exists>t. GetUserTeam c (cl_UserID u) db = Some t \<and> tm_ID t = ve_team r"
    "ve_correct r = validateFlag v (ve_challenge r) flag (cl_UserID u)" "contest_GetByID c db = Some (ve_contest r)"
    "IsOngoing now (ve_contest r)"
  using assms by (auto simp: submit_check_def visible_contest_def ensureContestOngoing_def IsOngoing_def go_bind_eq_Inr
      split: sum.splits option.splits if_splits)

lemma scores_cong:
  assumes "d_scores db' = d_scores db"
  shows "d_scores (AddScore now c t u p db') = d_scores (AddScore now c t u p db)"
    "d_scores (UpdateRanks tie c db') = d_scores (UpdateRanks tie c db)"
  using assms by (simp_all add: AddScore_def UpdateRanks_def Let_def score_GetScoreboard_def)

lemma submission_Create_scores [simp]: "d_scores (submission_Create s db) = d_scores db"
  "d_submissions (submission_Create s db) = insert_row s (d_submissions db)"
  by (simp_all add: submission_Create_def)

lemma submit_award_scores:
  "d_submissions (snd (submit_award v now u ip c h flag r db)) =
     insert_row \<lparr>su_ContestID = c, su_ChallengeID = h, su_UserID = u, su_TeamID = Some (ve_team r), su_Flag = flag,
       su_IsCorrect = ve_correct r, su_Points = award_points c h r db, su_SubmittedAt = now, su_IP = ip\<rparr> (d_submissions db)"
  "d_scores (snd (submit_award v now u ip c h flag r db)) =
     (if ve_correct r then d_scores (UpdateRanks (fe_tie v) c (AddScore now c (Some (ve_team r)) u (award_points c h r db) db)) else d_scores db)"
  by (auto simp: submit_award_def Let_def intro!: scores_cong)

lemma award_points_wrong: "\<not> ve_correct r \<Longrightarrow> award_points c h r db = 0"
  by (simp add: award_points_def)

lemma submit_award_ok:
  assumes "scores_ok db" and "submit_check v now u c h flag db = Inr (Judged r)"
  shows "scores_ok (snd (submit_award v' now' u' ip c h flag' r db))"
proof (rule scores_ok_submission [OF assms(1) _ _ _ _ submit_award_scores(1)])
  let ?s = "\<lparr>su_ContestID = c, su_ChallengeID = h, su_UserID = u', su_TeamID = Some (ve_team r), su_Flag = flag', su_IsCorrect = ve_correct r,
    su_Points = award_points c h r db, su_SubmittedAt = now', su_IP = ip\<rparr>"
  let ?db = "snd (submit_award v' now' u' ip c h flag' r db)"
  show "su_Points ?s = 0 \<and> d_scores ?db = d_scores db" if "\<not> su_IsCorrect ?s"
    using that award_points_wrong [of r c h db] by (simp add: submit_award_scores(2))
  show "\<not> HasSolved c (su_ChallengeID ?s) (Some (ve_team r)) (cl_UserID u) db \<and>
      (\<exists>now u tie. d_scores ?db = d_scores (UpdateRanks tie c (AddScore now c (Some (ve_team r)) u (su_Points ?s) db)))" if "su_IsCorrect ?s"
    using that submit_check_judged(1) [OF assms(2)] by (auto simp: submit_award_scores(2))
qed simp_all

lemma SubmitFlag_cases:
  assumes "SubmitFlag v now ip u c h flag db cache = Inr ((rep, db'), cache')"
  shows "db' = db \<and> cache' = cache \<or>
    (\<exists>r. submit_check v now u c h flag db = Inr (Judged r) \<and> db' = snd (submit_award v now (cl_UserID u) ip c h flag r db) \<and>
       cache' = (if ve_correct r then invalidateScoreboardCache c cache else cache))"
proof -
  obtain k where k: "submit_check v now u c h flag db = Inr k" using assms by (auto simp: SubmitFlag_def go_bind_eq_Inr)
  show ?thesis
  proof (cases k)
    case (Judged r)
    obtain p d where "submit_award v now (cl_UserID u) ip c h flag r db = (p, d)" by fastforce
    then show ?thesis using assms k Judged by (simp add: SubmitFlag_def)
  qed (use assms k in \<open>simp_all add: SubmitFlag_def\<close>)
qed

lemma tables_kept_scores_ok: "tables_kept db db' \<Longrightarrow> scores_ok db' = scores_ok db"
  by (simp add: tables_kept_def scores_ok_def score_keys_def held_def paid_def)

lemma SubmitFlag_scores_ok:
  assumes "scores_ok db" and "SubmitFlag v now ip u c h flag db cache = Inr ((rep, db'), cache')"
  shows "scores_ok db'"
  using SubmitFlag_cases [OF assms(2)] assms(1) submit_award_ok by blast

lemma step_do_scores_ok: "scores_ok (fst s) \<Longrightarrow> step_do users tie x s = Inr s' \<Longrightarrow> scores_ok (fst s')"
  using tables_kept_scores_ok [OF contest_do_keeps]
  by (cases x; cases s) (auto simp: go_bind_eq_Inr elim: SubmitFlag_scores_ok)


subsection \<open>A sample\<close>

text \<open>A contest with one challenge and a team of two, as the requests make it.\<close>

definition sample_challenge :: Challenge where
  "sample_challenge = \<lparr>ch_ID = 1, ch_BasePoints = 100, ch_MinPoints = 10, ch_DecayFactor = Fin 0, ch_FlagTemplate = ''f'', ch_FlagType = ''static'',
     ch_FlagRegex = [], ch_FlagSecret = [], ch_SolveCount = 0, ch_AttemptCount = 0\<rparr>"

definition sample_admin :: caller where
  "sample_admin = \<lparr>cl_UserID = 9, cl_SchoolID = 0, cl_Role = ''platform_admin''\<rparr>"

definition sample_student :: "nat \<Rightarrow> caller" where
  "sample_student n = \<lparr>cl_UserID = n, cl_SchoolID = 0, cl_Role = ''student''\<rparr>"

definition sample_env :: flag_env where
  "sample_env = \<lparr>fe_sha = \<lambda>x. x, fe_regex = \<lambda>_ _. False, fe_service = \<lambda>_ _. False, fe_int = 0, fe_tie = \<lambda>x. x\<rparr>"

definition sample_ops :: "contest_op list" where
  "sample_ops = [OpCreate 9 None sample_contest, OpPublish sample_admin 1, OpAdd sample_admin 1 1 0 0 True,
     OpTeam ''abc'' 5 (sample_student 1) None 1 ''red'', OpJoin 6 2 ''abc'']"

definition sample_db :: ContestDb where
  "sample_db = foldl (\<lambda>db x. contest_do x db) (fst (start_state [(sample_challenge, False)])) sample_ops"

definition sample_verdict :: verdict where
  "sample_verdict = \<lparr>ve_contest = sample_contest\<lparr>ct_ID := 1, ct_CreatorID := 9, ct_Status := ''published''\<rparr>, ve_team = 1,
     ve_cc = \<lparr>cc_ContestID = 1, cc_ChallengeID = 1, cc_Points = 100, cc_CurrentPoints = 100, cc_SortOrder = 0, cc_IsVisible = True\<rparr>,
     ve_challenge = sample_challenge, ve_correct = True\<rparr>"

lemma sample_state:
  "d_scores sample_db = []" "d_submissions sample_db = []" "GetByToken ''abc'' sample_db = team_GetByID 1 sample_db"
  "team_GetByID 1 sample_db = Some \<lparr>tm_ID = 1, tm_ContestID = 1, tm_Name = ''red'', tm_Token = ''abc'', tm_LeaderID = 1, tm_SchoolID = None, tm_Status = ''active''\<rparr>"
  "present (d_members sample_db) = [new_member 1 1 ''leader'', new_member 1 2 ''member'']"
  by code_simp+

lemma sample_requests: "contest_run users tie (map StOp sample_ops) (start_state [(sample_challenge, False)]) = Inr (sample_db, \<lambda>_. None)"
  by (simp add: sample_ops_def sample_db_def start_state_def)

lemma contest_run_append: "contest_run users tie (xs @ ys) s = go_bind (contest_run users tie xs s) (contest_run users tie ys)"
  by (induction xs arbitrary: s) (auto simp: go_bind_def split: sum.splits)

lemma sample_judged:
  "submit_check sample_env 12 (sample_student 1) 1 1 ''f'' sample_db = Inr (Judged sample_verdict)"
  "submit_check sample_env 12 (sample_student 2) 1 1 ''f'' sample_db = Inr (Judged sample_verdict)"
  by code_simp+

lemma sample_points: "award_points 1 1 sample_verdict sample_db = 105" 
  by code_simp

text \<open>The state after the right flag of the second member.\<close>

definition sample_paid_db :: ContestDb where
  "sample_paid_db = snd (submit_award sample_env 12 2 ''ip'' 1 1 ''f'' sample_verdict sample_db)"

definition sample_steps :: "contest_step list" where
  "sample_steps = map StOp sample_ops @ [StFlag sample_env 12 ''ip'' (sample_student 2) 1 1 ''f'']"

lemma sample_flag_run: "contest_run users (\<lambda>x. x) sample_steps (start_state [(sample_challenge, False)]) = Inr (sample_paid_db, \<lambda>_. None)"
proof -
  obtain p where db: "submit_award sample_env 12 2 ''ip'' 1 1 ''f'' sample_verdict sample_db = (p, sample_paid_db)"
    by (cases "submit_award sample_env 12 2 ''ip'' 1 1 ''f'' sample_verdict sample_db") (auto simp: sample_paid_db_def)
  have u: "cl_UserID (sample_student 2) = 2" "ve_correct sample_verdict" by (simp_all add: sample_student_def sample_verdict_def)
  have "SubmitFlag sample_env 12 ''ip'' (sample_student 2) 1 1 ''f'' sample_db (\<lambda>_. None) = Inr ((Inr (True, p), sample_paid_db), \<lambda>_. None)"
    using db u by (simp add: SubmitFlag_def sample_judged invalidateScoreboardCache_def fun_upd_idem del: One_nat_def)
  moreover have "sample_env\<lparr>fe_tie := \<lambda>x. x\<rparr> = sample_env" by (simp add: sample_env_def)
  ultimately show ?thesis by (simp add: sample_steps_def contest_run_append sample_requests)
qed


end
