(* ===== verification/ContestTeamFacts.thy ===== *)
theory ContestTeamFacts
  imports ContestFacts
begin

section \<open>Contests: teams, members who left, and flags at once\<close>

text \<open>
  While requests are handled one after another, a user is in one team of a contest, and teams keep to the size
  of the contest unless a request changes that size.
  A member who left still plays, and two flags at once are both paid.
\<close>

subsection \<open>Teams and members\<close>

text \<open>
  What a request can do to the contests, the teams and their members; \<open>K\<close> are contests whose team
  size stays as it is.
\<close>

definition parts :: "ContestDb \<Rightarrow> Contest table \<times> Team table \<times> TeamMember table" where
  "parts db = (d_contests db, d_teams db, d_members db)"

inductive team_change :: "nat set \<Rightarrow> ContestDb \<Rightarrow> ContestDb \<Rightarrow> bool" for K where
  Same: "parts db' = parts db \<Longrightarrow> team_change K db db'"
| Opened: "ct_ID c = next_id (d_contests db) \<Longrightarrow> parts db' = (insert_row c (d_contests db), d_teams db, d_members db) \<Longrightarrow> team_change K db db'"
| Published: "contest_GetByID (ct_ID c) db = Some c \<Longrightarrow> ct_Status c = ''draft'' \<Longrightarrow>
    parts db' = parts (contest_Update (c\<lparr>ct_Status := ''published''\<rparr>) db) \<Longrightarrow> team_change K db db'"
| Edited: "contest_GetByID (ct_ID c') db = Some c \<Longrightarrow> ct_Status c' = ct_Status c \<Longrightarrow>
    (ct_ID c' \<in> K \<Longrightarrow> ct_TeamMaxSize c' = ct_TeamMaxSize c) \<Longrightarrow> parts db' = parts (contest_Update c' db) \<Longrightarrow> team_change K db db'"
| Dropped: "contest_GetByID i db = Some c \<Longrightarrow> ct_Status c = ''draft'' \<Longrightarrow> parts db' = parts (contest_Delete i db) \<Longrightarrow> team_change K db db'"
| Founded: "contest_GetByID (tm_ContestID t) db = Some c \<Longrightarrow> ct_Status c \<noteq> ''draft'' \<Longrightarrow> 1 \<le> ct_TeamMaxSize c \<Longrightarrow>
    \<not> IsInAnyTeam (tm_ContestID t) (tm_LeaderID t) db \<Longrightarrow> tm_ID t = next_id (d_teams db) \<Longrightarrow>
    parts db' = parts (try_member (new_member (tm_ID t) (tm_LeaderID t) ''leader'') (db\<lparr>d_teams := insert_row t (d_teams db)\<rparr>)) \<Longrightarrow>
    team_change K db db'"
| Joined: "t \<in> set (present (d_teams db)) \<Longrightarrow> \<not> IsInAnyTeam (tm_ContestID t) u db \<Longrightarrow>
    (case contest_GetByID (tm_ContestID t) db of Some c \<Rightarrow> int (CountMembers (tm_ID t) db) < ct_TeamMaxSize c | None \<Rightarrow> True) \<Longrightarrow>
    parts db' = (d_contests db, d_teams db, insert_row (new_member (tm_ID t) u role) (d_members db)) \<Longrightarrow> team_change K db db'"
| Left: "t \<in> set (present (d_teams db)) \<Longrightarrow> tm_LeaderID t \<noteq> u \<Longrightarrow>
    parts db' = parts (member_Delete (tm_ID t) u db) \<Longrightarrow> team_change K db db'"

lemma parts_simps: "parts db' = parts db \<longleftrightarrow> d_contests db' = d_contests db \<and> d_teams db' = d_teams db \<and> d_members db' = d_members db"
  by (auto simp: parts_def)

lemma parts_eq: "parts db' = (c, t, m) \<longleftrightarrow> d_contests db' = c \<and> d_teams db' = t \<and> d_members db' = m"
  by (auto simp: parts_def)

lemma contest_GetByID_id: "contest_GetByID i db = Some c \<Longrightarrow> ct_ID c = i \<and> c \<in> set (present (d_contests db))"
  by (auto simp: contest_GetByID_def find_Some_iff)

lemma team_GetByID_id: "team_GetByID i db = Some t \<Longrightarrow> tm_ID t = i \<and> t \<in> set (present (d_teams db))"
  by (auto simp: team_GetByID_def find_Some_iff)

lemma GetByToken_live: "GetByToken k db = Some t \<Longrightarrow> t \<in> set (present (d_teams db))"
  by (auto simp: GetByToken_def find_Some_iff)

lemma same_change: "team_change K db db"
  by (rule Same) simp

lemma registration_not_draft: "ensureContestRegistrationOpen now c = None \<Longrightarrow> ct_Status c \<noteq> ''draft''"
  by (auto simp: ensureContestRegistrationOpen_def CurrentStatusAt_def split: if_splits)

lemma found_team_change:
  assumes "contest_GetByID (tm_ContestID t) db = Some c" and "ct_Status c \<noteq> ''draft''" and "1 \<le> ct_TeamMaxSize c"
    and "\<not> IsInAnyTeam (tm_ContestID t) (tm_LeaderID t) db"
  shows "team_change K db (snd (found_team t db))"
proof (cases "tm_Token t \<in> set (map tm_Token (all_rows (d_teams db)))")
  case True
  then show ?thesis by (simp add: found_team_def team_Create_def same_change)
next
  case False
  show ?thesis by (rule Founded [where t = "t\<lparr>tm_ID := next_id (d_teams db)\<rparr>" and c = c])
      (use False assms in \<open>simp_all add: found_team_def team_Create_def Let_def\<close>)
qed

lemma member_Create_parts: "member_Create m db = Some db' \<Longrightarrow> parts db' = (d_contests db, d_teams db, insert_row m (d_members db))"
  by (auto simp: member_Create_def parts_def split: if_splits)

lemma CreateTeam_change: "team_change K db (snd (CreateTeam code now u s i name db))"
  by (auto simp: CreateTeam_def visible_contest_def same_change split: sum.splits option.splits if_splits
      intro!: found_team_change dest: registration_not_draft)

lemma JoinTeam_change: "team_change K db (snd (JoinTeam now u code db))"
proof (cases "\<exists>db'. JoinTeam now u code db = (Inr (), db')")
  case True
  then obtain db' where j: "JoinTeam now u code db = (Inr (), db')" by blast
  then obtain t c where d: "GetByToken code db = Some t" "\<not> IsInAnyTeam (tm_ContestID t) u db"
    "contest_GetByID (tm_ContestID t) db = Some c" "int (CountMembers (tm_ID t) db) < ct_TeamMaxSize c"
    "member_Create (new_member (tm_ID t) u ''member'') db = Some db'"
    by (auto simp: JoinTeam_def split: option.splits if_splits)
  have "team_change K db db'" by (rule Joined [OF GetByToken_live [OF d(1)] d(2) _ member_Create_parts [OF d(5)]]) (use d in simp)
  then show ?thesis by (simp add: j)
next
  case False
  then have "snd (JoinTeam now u code db) = db"
    by (auto simp: JoinTeam_def split: option.splits if_splits)
  then show ?thesis by (simp add: same_change)
qed

lemma RegisterContest_change: "team_change K db (snd (RegisterContest code now u i db))"
proof -
  have "team_change K db (snd (RegisterContest code now u i db))" if c: "visible_contest now u i db = Inr c" "ct_TeamMaxSize c = 1"
      "ensureContestRegistrationOpen now c = None" "\<not> IsInAnyTeam i (cl_UserID u) db" for c
  proof -
    have "contest_GetByID i db = Some c" using c(1) by (auto simp: visible_contest_def split: option.splits if_splits)
    then have f: "team_change K db (snd (found_team \<lparr>tm_ID = 0, tm_ContestID = i, tm_Name = singlePlayerTeamName (cl_UserID u), tm_Token = code,
        tm_LeaderID = cl_UserID u, tm_SchoolID = None, tm_Status = ''active''\<rparr> db))"
      using c(4) by (intro found_team_change [where c = c] registration_not_draft [OF c(3)]) (simp_all add: c(2))
    show ?thesis using c f by (auto simp: RegisterContest_def same_change split: sum.splits prod.splits if_splits)
  qed
  then show ?thesis by (cases "visible_contest now u i db") (auto simp: RegisterContest_def same_change split: option.splits)
qed

lemma InviteTeamMember_change: "team_change K db (snd (InviteTeamMember u i w db))"
proof (cases "\<exists>db'. InviteTeamMember u i w db = (Inr (), db')")
  case True
  then obtain db' where j: "InviteTeamMember u i w db = (Inr (), db')" by blast
  then obtain t where d: "team_GetByID i db = Some t" "\<not> IsInAnyTeam (tm_ContestID t) w db"
    "case contest_GetByID (tm_ContestID t) db of Some c \<Rightarrow> int (CountMembers i db) < ct_TeamMaxSize c | None \<Rightarrow> True"
    "member_Create (new_member i w ''member'') db = Some db'"
    by (auto simp: InviteTeamMember_def split: option.splits if_splits)
  have "team_change K db db'"
    by (rule Joined [where t = t, OF _ d(2) _ member_Create_parts]) (use d team_GetByID_id [OF d(1)] in \<open>auto split: option.splits\<close>)
  then show ?thesis by (simp add: j)
next
  case False
  then have "snd (InviteTeamMember u i w db) = db"
    by (auto simp: InviteTeamMember_def split: option.splits if_splits)
  then show ?thesis by (simp add: same_change)
qed

lemma LeaveTeam_change: "team_change K db (snd (LeaveTeam u i db))" "team_change K db (snd (RemoveTeamMember u i w db))"
  by (auto simp: LeaveTeam_def RemoveTeamMember_def same_change split: option.splits dest!: team_GetByID_id intro!: Left)

lemma edited_None [simp]: "edited None x = x"
  by (simp add: edited_def)

lemma edit_contest_keeps:
  "edit_contest e c = Inr c' \<Longrightarrow> ct_ID c' = ct_ID c \<and> ct_Status c' = ct_Status c \<and>
     (ce_TeamMaxSize e = None \<longrightarrow> ct_TeamMaxSize c' = ct_TeamMaxSize c)"
  by (cases "given_time (ce_StartTime e)"; cases "given_time (ce_EndTime e)"; cases "given_time (ce_RegistrationStart e)";
      cases "given_time (ce_RegistrationEnd e)"; auto simp: edit_contest_def edit_settings_def Let_def split: if_splits option.splits)

lemma contest_changes:
  "team_change K db (snd (CreateContest n s c db))" "team_change K db (snd (PublishContest u i db))" "team_change K db (snd (DeleteContest u i db))"
  "(i \<in> K \<Longrightarrow> ce_TeamMaxSize e = None) \<Longrightarrow> team_change K db (snd (UpdateContest u i e db))"
  "team_change K db (snd (AddChallengeToContest u i ch p k b db))" "team_change K db (snd (RemoveChallengeFromContest u i ch db))"
proof -
  show "team_change K db (snd (CreateContest n s c db))"
    by (auto simp: CreateContest_def contest_Create_def Let_def same_change parts_def split: option.splits intro!: Opened)
  show "team_change K db (snd (PublishContest u i db))"
    by (auto simp: PublishContest_def managed_contest_def transitionContestStatus_def same_change split: option.splits sum.splits if_splits
        dest: contest_GetByID_id intro!: Published)
  show "team_change K db (snd (UpdateContest u i e db))" if e: "i \<in> K \<Longrightarrow> ce_TeamMaxSize e = None"
  proof (cases "\<exists>c c'. contest_GetByID i db = Some c \<and> edit_contest e c = Inr c' \<and> snd (UpdateContest u i e db) = contest_Update c' db")
    case True
    then obtain c c' where c: "contest_GetByID i db = Some c" "edit_contest e c = Inr c'" "snd (UpdateContest u i e db) = contest_Update c' db" by blast
    note k = edit_contest_keeps [OF c(2)] and i = contest_GetByID_id [OF c(1)]
    show ?thesis unfolding c(3) by (rule Edited [where c = c and c' = c']) (use c(1) k i e in auto)
  next
    case False
    then show ?thesis by (auto simp: UpdateContest_def managed_contest_def same_change split: option.splits sum.splits if_splits)
  qed
  show "team_change K db (snd (DeleteContest u i db))"
    by (auto simp: DeleteContest_def managed_contest_def same_change split: option.splits sum.splits if_splits intro!: Dropped)
  show "team_change K db (snd (AddChallengeToContest u i ch p k b db))" "team_change K db (snd (RemoveChallengeFromContest u i ch db))"
    by (auto simp: AddChallengeToContest_def RemoveChallengeFromContest_def cc_Create_def cc_Delete_def Let_def parts_def
        split: option.splits sum.splits prod.splits intro!: Same)
qed

text \<open>A request that does not change the team size of one of the contests.\<close>

fun keeps_sizes :: "nat set \<Rightarrow> contest_step \<Rightarrow> bool" where
  "keeps_sizes K (StOp (OpUpdate u i e)) \<longleftrightarrow> (i \<in> K \<longrightarrow> ce_TeamMaxSize e = None)"
| "keeps_sizes K _ \<longleftrightarrow> True"

lemma keeps_sizes_empty [simp]: "keeps_sizes {} x"
  by (cases "({} :: nat set, x)" rule: keeps_sizes.cases) auto

lemma contest_do_change: "keeps_sizes K (StOp x) \<Longrightarrow> team_change K db (contest_do x db)"
  by (cases x) (simp_all add: contest_changes CreateTeam_change JoinTeam_change RegisterContest_change InviteTeamMember_change LeaveTeam_change)

text \<open>
  Each team belongs to a contest that is open, has the leader among its members and not more members than
  the contest lets it have, if that number stays as it is; a user is in one team of a contest at most.
\<close>

lemma present_mem: "r \<in> set (present t) \<Longrightarrow> r \<in> set (all_rows t)"
  using present_subset by (rule subsetD)

lemma teams_unique: "ids_ok f t \<Longrightarrow> r \<in> set (present t) \<Longrightarrow> s \<in> set (present t) \<Longrightarrow> f r = f s \<Longrightarrow> r = s"
  by (rule ids_ok_inj [OF _ present_mem present_mem])

definition mine :: "nat \<Rightarrow> nat \<Rightarrow> ContestDb \<Rightarrow> TeamMember list" where
  "mine c u db = filter (\<lambda>m. mb_UserID m = u \<and> in_contest c db m) (present (d_members db))"

definition team_ok :: "nat set \<Rightarrow> ContestDb \<Rightarrow> Team \<Rightarrow> bool" where
  "team_ok K db t \<longleftrightarrow> (\<exists>c. contest_GetByID (tm_ContestID t) db = Some c \<and> ct_Status c \<noteq> ''draft'' \<and>
      (tm_ContestID t \<in> K \<longrightarrow> int (CountMembers (tm_ID t) db) \<le> ct_TeamMaxSize c)) \<and>
     (\<exists>m\<in>set (present (d_members db)). mb_TeamID m = tm_ID t \<and> mb_UserID m = tm_LeaderID t)"

definition teams_ok :: "nat set \<Rightarrow> ContestDb \<Rightarrow> bool" where
  "teams_ok K db \<longleftrightarrow>
     ids_ok ct_ID (d_contests db) \<and> ids_ok tm_ID (d_teams db) \<and> all_rows (d_teams db) = present (d_teams db) \<and>
     (\<forall>t\<in>set (present (d_teams db)). team_ok K db t) \<and>
     (\<forall>m\<in>set (all_rows (d_members db)). \<exists>t\<in>set (present (d_teams db)). tm_ID t = mb_TeamID m) \<and>
     (\<forall>c u. length (mine c u db) \<le> 1)"

lemma teams_ok_parts: "parts db' = parts db \<Longrightarrow> teams_ok K db' = teams_ok K db"
  by (simp add: parts_simps teams_ok_def mine_def team_ok_def in_contest_def contest_GetByID_def CountMembers_def)

lemma IsInAnyTeam_mine: "IsInAnyTeam c u db \<longleftrightarrow> mine c u db \<noteq> []"
  by (auto simp: IsInAnyTeam_def mine_def filter_empty_conv)

lemma team_ok_contests:
  assumes "team_ok K db t" and "d_members db' = d_members db" and "\<And>c. contest_GetByID (tm_ContestID t) db = Some c \<Longrightarrow> ct_Status c \<noteq> ''draft'' \<Longrightarrow>
    \<exists>c'. contest_GetByID (tm_ContestID t) db' = Some c' \<and> ct_Status c' \<noteq> ''draft'' \<and> (tm_ContestID t \<in> K \<longrightarrow> ct_TeamMaxSize c' = ct_TeamMaxSize c)"
  shows "team_ok K db' t"
  using assms by (fastforce simp: team_ok_def CountMembers_def)

text \<open>A change of the contests that leaves the open ones open, with their team sizes.\<close>

lemma teams_ok_contests:
  assumes "teams_ok K db" and "ids_ok ct_ID (d_contests db')" and p: "d_teams db' = d_teams db" "d_members db' = d_members db"
    and "\<And>i c. contest_GetByID i db = Some c \<Longrightarrow> ct_Status c \<noteq> ''draft'' \<Longrightarrow>
      \<exists>c'. contest_GetByID i db' = Some c' \<and> ct_Status c' \<noteq> ''draft'' \<and> (i \<in> K \<longrightarrow> ct_TeamMaxSize c' = ct_TeamMaxSize c)"
  shows "teams_ok K db'"
proof -
  have "mine c u db' = mine c u db" for c u by (simp add: mine_def in_contest_def p)
  then show ?thesis using assms team_ok_contests [of K db _ db'] by (simp add: teams_ok_def)
qed

lemma ids_ok_update: "ids_ok f t \<Longrightarrow> (\<And>r. p r \<Longrightarrow> f (g r) = f r) \<Longrightarrow> ids_ok f (update_rows p g t)"
proof -
  assume "\<And>r. p r \<Longrightarrow> f (g r) = f r"
  then have "map f (all_rows (update_rows p g t)) = map f (all_rows t)" "length (update_rows p g t) = length t"
    by (auto simp: all_rows_def update_rows_def)
  then show "ids_ok f t \<Longrightarrow> ids_ok f (update_rows p g t)" by (simp add: ids_ok_def)
qed

lemma ids_ok_delete: "ids_ok f t \<Longrightarrow> ids_ok f (delete_rows p t)"
  by (simp add: ids_ok_def) (simp add: delete_rows_def)

lemma find_update:
  assumes "\<And>r. p r \<Longrightarrow> f (g r) = f r" and "find (\<lambda>r. f r = i) rs = Some r" and "\<not> p r"
  shows "find (\<lambda>r. f r = i) (map (\<lambda>r. if p r then g r else r) rs) = Some r"
  using assms(2) by (induction rs) (auto simp: assms(1,3) split: if_splits)

lemma find_replace: "f r' = i \<Longrightarrow> find (\<lambda>r. f r = i) rs = Some r \<Longrightarrow> find (\<lambda>r. f r = i) (map (\<lambda>r. if f r = i then r' else r) rs) = Some r'"
  by (induction rs) (auto split: if_splits)

lemma find_keep: "find q rs = Some r \<Longrightarrow> \<not> p r \<Longrightarrow> find q (filter (\<lambda>r. \<not> p r) rs) = Some r"
  by (induction rs) (auto split: if_splits)

lemma in_contest_old:
  assumes "\<exists>s\<in>set (present (d_teams db)). tm_ID s = mb_TeamID m" and "ids_ok tm_ID (d_teams db)" and "tm_ID t = next_id (d_teams db)"
    and "d_teams db' = insert_row t (d_teams db)"
  shows "in_contest c db' m = in_contest c db m"
proof -
  obtain s where "s \<in> set (all_rows (d_teams db))" "tm_ID s = mb_TeamID m" using assms(1) present_mem by metis
  then have "tm_ID t \<noteq> mb_TeamID m" using ids_ok_less [OF assms(2)] assms(3) by fastforce
  then show ?thesis by (auto simp: in_contest_def assms(4))
qed

text \<open>A member more, who was in no team of the contest, for a team with a free place.\<close>

lemma teams_ok_member:
  assumes ok: "teams_ok K db" and t: "t \<in> set (present (d_teams db))" and free: "\<not> IsInAnyTeam (tm_ContestID t) u db"
    and place: "case contest_GetByID (tm_ContestID t) db of Some c \<Rightarrow> int (CountMembers (tm_ID t) db) < ct_TeamMaxSize c | None \<Rightarrow> True"
    and p: "parts db' = (d_contests db, d_teams db, insert_row (new_member (tm_ID t) u role) (d_members db))"
  shows "teams_ok K db'"
proof -
  note p = p [unfolded parts_eq] and o = ok [unfolded teams_ok_def]
  have i: "in_contest c db' m = in_contest c db m" for c m by (simp add: in_contest_def p)
  have n: "in_contest c db (new_member (tm_ID t) u role) \<longleftrightarrow> c = tm_ContestID t" for c
  proof -
    have "s = t" if "s \<in> set (present (d_teams db))" "tm_ID s = tm_ID t" for s using teams_unique [of tm_ID "d_teams db"] o t that by blast
    then show ?thesis using o t by (auto simp: in_contest_def new_member_def)
  qed
  have "length (mine c w db') \<le> 1" for c w
  proof (cases "c = tm_ContestID t \<and> w = u")
    case True
    then have "mine c w db = []" using free by (simp add: IsInAnyTeam_mine)
    then show ?thesis by (simp add: mine_def i p)
  next
    case False
    then have "\<not> (u = w \<and> in_contest c db (new_member (tm_ID t) u role))" using n by auto
    then have "mine c w db' = mine c w db" by (simp add: mine_def i p) (simp add: new_member_def)
    then show ?thesis using o by simp
  qed
  moreover have "team_ok K db' s" if s: "s \<in> set (present (d_teams db))" for s
  proof -
    have e: "tm_ID s = tm_ID t \<Longrightarrow> s = t" using teams_unique [of tm_ID "d_teams db"] o t s by blast
    obtain c m where c: "contest_GetByID (tm_ContestID s) db = Some c" "ct_Status c \<noteq> ''draft''" "tm_ContestID s \<in> K \<longrightarrow> int (CountMembers (tm_ID s) db) \<le> ct_TeamMaxSize c"
      "m \<in> set (present (d_members db))" "mb_TeamID m = tm_ID s" "mb_UserID m = tm_LeaderID s" using o s unfolding team_ok_def by blast
    have "contest_GetByID (tm_ContestID s) db' = Some c" using c(1) by (simp add: contest_GetByID_def p)
    moreover have "tm_ContestID s \<in> K \<longrightarrow> int (CountMembers (tm_ID s) db') \<le> ct_TeamMaxSize c"
    proof (cases "tm_ID s = tm_ID t")
      case True
      then show ?thesis using place e c(1) by (simp add: CountMembers_def p new_member_def)
    next
      case False
      then show ?thesis using c(3) by (simp add: CountMembers_def p new_member_def)
    qed
    ultimately show ?thesis using c by (auto simp: team_ok_def p)
  qed
  moreover have "\<exists>s\<in>set (present (d_teams db)). tm_ID s = mb_TeamID m" if "m \<in> set (all_rows (d_members db'))" for m
    using that o t by (auto simp: p new_member_def)
  ultimately show ?thesis using o by (simp add: teams_ok_def p)
qed


text \<open>A new team with its leader.\<close>

lemma teams_ok_found:
  assumes ok: "teams_ok K db" and c: "contest_GetByID (tm_ContestID t) db = Some c" "ct_Status c \<noteq> ''draft''" "1 \<le> ct_TeamMaxSize c"
    and free: "\<not> IsInAnyTeam (tm_ContestID t) (tm_LeaderID t) db" and new: "tm_ID t = next_id (d_teams db)"
    and p: "parts db' = parts (try_member (new_member (tm_ID t) (tm_LeaderID t) ''leader'') (db\<lparr>d_teams := insert_row t (d_teams db)\<rparr>))"
  shows "teams_ok K db'"
proof -
  note o = ok [unfolded teams_ok_def]
  have less: "tm_ID s < tm_ID t" if "s \<in> set (present (d_teams db))" for s
    unfolding new by (rule ids_ok_less [OF _ present_mem [OF that]]) (use o in blast)
  have other: "mb_TeamID m \<noteq> tm_ID t" if "m \<in> set (all_rows (d_members db))" for m
  proof -
    obtain s where "s \<in> set (present (d_teams db))" "tm_ID s = mb_TeamID m" using o \<open>m \<in> set (all_rows (d_members db))\<close> by blast
    then show ?thesis using less [of s] by simp
  qed
  have present: "mb_TeamID m \<noteq> tm_ID t" if "m \<in> set (present (d_members db))" for m by (rule other [OF present_mem [OF that]])
  let ?m = "new_member (tm_ID t) (tm_LeaderID t) ''leader''"
  have "member_Create ?m (db\<lparr>d_teams := insert_row t (d_teams db)\<rparr>) =
      Some (db\<lparr>d_teams := insert_row t (d_teams db), d_members := insert_row ?m (d_members db)\<rparr>)"
    using other by (auto simp: member_Create_def new_member_def)
  then have q: "d_contests db' = d_contests db" "d_teams db' = insert_row t (d_teams db)" "d_members db' = insert_row ?m (d_members db)"
    using p by (simp_all add: try_member_def parts_simps)
  have i: "in_contest k db' m = in_contest k db m" if "m \<in> set (present (d_members db))" for k m
  proof (rule in_contest_old [OF _ _ new q(2)])
    show "\<exists>s\<in>set (present (d_teams db)). tm_ID s = mb_TeamID m" using o present_mem [OF that] by blast
  qed (use o in blast)
  have n: "in_contest k db' (new_member (tm_ID t) (tm_LeaderID t) ''leader'') \<longleftrightarrow> k = tm_ContestID t" for k
  proof -
    have "tm_ID s \<noteq> tm_ID t" if "s \<in> set (present (d_teams db))" for s using less [OF that] by simp
    then show ?thesis using o by (auto simp: in_contest_def new_member_def q)
  qed
  have m: "mine k w db' = mine k w db @ (if k = tm_ContestID t \<and> w = tm_LeaderID t then [new_member (tm_ID t) (tm_LeaderID t) ''leader''] else [])" for k w
    using n by (auto simp: mine_def q i new_member_def cong: filter_cong)
  have "length (mine k w db') \<le> 1" for k w using o free by (simp add: m IsInAnyTeam_mine)
  moreover have "team_ok K db' s" if "s \<in> set (present (d_teams db))" for s
  proof -
    have "CountMembers (tm_ID s) db' = CountMembers (tm_ID s) db" using less [OF that] by (simp add: CountMembers_def q new_member_def)
    moreover have "contest_GetByID (tm_ContestID s) db' = contest_GetByID (tm_ContestID s) db" by (simp add: contest_GetByID_def q)
    moreover have "team_ok K db s" using o that by blast
    ultimately show ?thesis by (auto simp: team_ok_def q)
  qed
  moreover have "filter (\<lambda>m. mb_TeamID m = tm_ID t) (present (d_members db)) = []" using present by (simp add: filter_empty_conv)
  then have "CountMembers (tm_ID t) db' = 1" by (simp add: CountMembers_def q new_member_def)
  then have "team_ok K db' t" using c by (simp add: team_ok_def q contest_GetByID_def) (simp add: new_member_def)
  moreover have "ids_ok tm_ID (d_teams db')" using o new by (simp add: q ids_ok_insert)
  ultimately show ?thesis using o by (auto simp: teams_ok_def q new_member_def)
qed

text \<open>A member less, not the leader.\<close>

lemma teams_ok_leave:
  assumes ok: "teams_ok K db" and t: "t \<in> set (present (d_teams db))" and u: "tm_LeaderID t \<noteq> u" and p: "parts db' = parts (member_Delete (tm_ID t) u db)"
  shows "teams_ok K db'"
proof -
  note o = ok [unfolded teams_ok_def]
  let ?p = "\<lambda>m. mb_TeamID m = tm_ID t \<and> mb_UserID m = u"
  have q: "d_contests db' = d_contests db" "d_teams db' = d_teams db" "d_members db' = delete_rows ?p (d_members db)"
    using p by (simp_all add: member_Delete_def parts_simps)
  have "length (mine k w db') \<le> length (mine k w db)" for k w
    using length_filter_le [of "\<lambda>m. \<not> ?p m" "mine k w db"] by (simp add: mine_def in_contest_def q present_delete conj_commute)
  then have "length (mine k w db') \<le> 1" for k w using o le_trans by blast
  moreover have "team_ok K db' s" if s: "s \<in> set (present (d_teams db))" for s
  proof -
    have "tm_ID s = tm_ID t \<Longrightarrow> s = t" using teams_unique [of tm_ID "d_teams db"] o t s by blast
    then have l: "\<not> (tm_ID s = tm_ID t \<and> tm_LeaderID s = u)" using u by auto
    have "CountMembers (tm_ID s) db' \<le> CountMembers (tm_ID s) db"
      using length_filter_le [of "\<lambda>m. \<not> ?p m" "filter (\<lambda>m. mb_TeamID m = tm_ID s) (present (d_members db))"]
      by (simp add: CountMembers_def q present_delete conj_commute)
    moreover have "contest_GetByID (tm_ContestID s) db' = contest_GetByID (tm_ContestID s) db" by (simp add: contest_GetByID_def q)
    moreover obtain k m where "contest_GetByID (tm_ContestID s) db = Some k" "ct_Status k \<noteq> ''draft''" "tm_ContestID s \<in> K \<longrightarrow> int (CountMembers (tm_ID s) db) \<le> ct_TeamMaxSize k"
      "m \<in> set (present (d_members db))" "mb_TeamID m = tm_ID s" "mb_UserID m = tm_LeaderID s" using o s unfolding team_ok_def by blast
    moreover have "m \<in> set (present (d_members db'))" using l calculation by (auto simp: q present_delete)
    ultimately show ?thesis unfolding team_ok_def by (intro conjI exI [of _ k] bexI [of _ m]) (auto intro: order_trans [of _ "int (CountMembers (tm_ID s) db)"])
  qed
  ultimately show ?thesis using o by (simp add: teams_ok_def q)
qed

lemma team_change_ok: "team_change K db db' \<Longrightarrow> teams_ok K db \<Longrightarrow> teams_ok K db'"
proof (induction rule: team_change.induct)
  case (Same db' db) then show ?case using teams_ok_parts by blast
next
  case (Opened c db db')
  then have q: "d_contests db' = insert_row c (d_contests db)" "d_teams db' = d_teams db" "d_members db' = d_members db" by (simp_all add: parts_eq)
  have ids: "ids_ok ct_ID (d_contests db')" using Opened by (simp add: q teams_ok_def ids_ok_insert)
  have keep: "contest_GetByID i db' = Some k" if "contest_GetByID i db = Some k" for i k
    using that by (simp add: contest_GetByID_def q find_append)
  show ?case by (rule teams_ok_contests [OF Opened(3) ids q(2,3)]) (use keep in blast)
next
  case (Published c db db')
  then have q: "d_contests db' = update_rows (\<lambda>r. ct_ID r = ct_ID c) (\<lambda>_. c\<lparr>ct_Status := ''published''\<rparr>) (d_contests db)"
    "d_teams db' = d_teams db" "d_members db' = d_members db" by (simp_all add: contest_Update_def parts_simps)
  have ids: "ids_ok ct_ID (d_contests db')" unfolding q using Published(4) by (intro ids_ok_update) (simp_all add: teams_ok_def)
  have keep: "contest_GetByID i db' = Some k" if k: "contest_GetByID i db = Some k" "ct_Status k \<noteq> ''draft''" for i k
  proof -
    have "i \<noteq> ct_ID c"
    proof
      assume "i = ct_ID c"
      then have "k = c" using k(1) Published(1) by (simp only: option.inject)
      then show False using k(2) Published(2) by simp
    qed
    then have "ct_ID k \<noteq> ct_ID c" using contest_GetByID_id [OF k(1)] by simp
    then show ?thesis using k(1) unfolding contest_GetByID_def q present_update by (intro find_update) simp_all
  qed
  show ?case by (rule teams_ok_contests [OF Published(4) ids q(2,3)]) (use keep in blast)
next
  case (Edited c' db c db')
  then have q: "d_contests db' = update_rows (\<lambda>r. ct_ID r = ct_ID c') (\<lambda>_. c') (d_contests db)"
    "d_teams db' = d_teams db" "d_members db' = d_members db" by (simp_all add: contest_Update_def parts_simps)
  have ids: "ids_ok ct_ID (d_contests db')" unfolding q using Edited(5) by (intro ids_ok_update) (simp_all add: teams_ok_def)
  have "\<exists>k'. contest_GetByID i db' = Some k' \<and> ct_Status k' \<noteq> ''draft'' \<and> (i \<in> K \<longrightarrow> ct_TeamMaxSize k' = ct_TeamMaxSize k)"
    if k: "contest_GetByID i db = Some k" "ct_Status k \<noteq> ''draft''" for i k
  proof (cases "i = ct_ID c'")
    case True
    then have "c = k" using k(1) Edited(1) by simp
    have "contest_GetByID i db' = Some c'"
      unfolding contest_GetByID_def q present_update True
      by (rule find_replace) (use Edited(1) in \<open>simp_all add: contest_GetByID_def\<close>)
    then show ?thesis using k Edited(2,3) True \<open>c = k\<close> by simp
  next
    case False
    then have "ct_ID k \<noteq> ct_ID c'" using contest_GetByID_id [OF k(1)] by simp
    then have "contest_GetByID i db' = Some k"
      using k(1) unfolding contest_GetByID_def q present_update by (intro find_update) simp_all
    then show ?thesis using k by blast
  qed
  then show ?case by (rule teams_ok_contests [OF Edited(5) ids q(2,3)])
next
  case (Dropped j db c db')
  then have q: "d_contests db' = delete_rows (\<lambda>r. ct_ID r = j) (d_contests db)"
    "d_teams db' = d_teams db" "d_members db' = d_members db" by (simp_all add: contest_Delete_def parts_simps)
  have ids: "ids_ok ct_ID (d_contests db')" using Dropped by (simp add: q teams_ok_def ids_ok_delete)
  have keep: "contest_GetByID i db' = Some k" if k: "contest_GetByID i db = Some k" "ct_Status k \<noteq> ''draft''" for i k
  proof -
    have "ct_ID k \<noteq> j" using k Dropped(1,2) contest_GetByID_id [OF k(1)] by auto
    then show ?thesis using k(1) unfolding contest_GetByID_def q present_delete by (intro find_keep)
  qed
  show ?case by (rule teams_ok_contests [OF Dropped(4) ids q(2,3)]) (use keep in blast)
next
  case Founded show ?case by (rule teams_ok_found [OF Founded(7) Founded(1-6)])
next
  case Joined show ?case by (rule teams_ok_member [OF Joined(5) Joined(1-4)])
next
  case Left show ?case by (rule teams_ok_leave [OF Left(4) Left(1-3)])
qed


lemma submit_award_parts: "parts (snd (submit_award v now u ip c h flag r db)) = parts db"
  by (simp add: parts_def submit_award_def Let_def submission_Create_def IncrementAttemptCount_def IncrementSolveCount_def updateDynamicScore_def
      UpdateCurrentPoints_def UpdateRanks_def AddScore_def)

lemma step_do_change: "keeps_sizes K x \<Longrightarrow> step_do users tie x s = Inr s' \<Longrightarrow> team_change K (fst s) (fst s')"
  by (cases x; cases s) (auto simp: go_bind_eq_Inr same_change contest_do_change submit_award_parts dest!: SubmitFlag_cases intro: Same)

lemma start_teams_ok: "teams_ok K (fst (start_state chs))"
  by (simp add: start_state_def empty_db_def teams_ok_def ids_ok_def mine_def)

lemma contest_run_teams_ok:
  assumes "\<And>x. x \<in> set xs \<Longrightarrow> keeps_sizes K x" and "contest_run users tie xs (start_state chs) = Inr s"
  shows "teams_ok K (fst s)"
  by (rule contest_run_inv [where P = "\<lambda>s. teams_ok K (fst s)", OF team_change_ok [OF step_do_change [OF assms(1)]] start_teams_ok assms(2)])

text \<open>No request of the run changes the team size of the contest.\<close>

definition size_kept :: "contest_step list \<Rightarrow> nat \<Rightarrow> bool" where
  "size_kept xs c \<longleftrightarrow> list_all (keeps_sizes {c}) xs"

text \<open>C10. 
  From the start on, whatever is requested in a row, the changes of contests included: a team has its leader as
  a member, a user is in one team of a contest at most, and a team has no more members than its contest lets it
  have, if no request of the run changed that number for the contest.  (A change of it looks neither at the
  status of the contest nor at the teams there are, so a team can then be larger.)
\<close>

theorem Contest_teams:
  assumes "contest_run users tie xs (start_state chs) = Inr (db, cache)" and "team_GetByID i db = Some t"
  shows "(\<exists>c. contest_GetByID (tm_ContestID t) db = Some c \<and> (size_kept xs (tm_ContestID t) \<longrightarrow> int (CountMembers i db) \<le> ct_TeamMaxSize c)) \<and>
    (\<exists>m\<in>set (present (d_members db)). mb_TeamID m = i \<and> mb_UserID m = tm_LeaderID t) \<and> length (mine c u db) \<le> 1"
proof -
  let ?K = "{c. size_kept xs c}"
  have "keeps_sizes ?K x" if "x \<in> set xs" for x
    using that by (cases "(?K, x)" rule: keeps_sizes.cases) (auto simp: size_kept_def list_all_iff)
  then have ok: "teams_ok ?K db" using contest_run_teams_ok [OF _ assms(1)] by simp
  then have "team_ok ?K db t" using team_GetByID_id [OF assms(2)] by (simp add: teams_ok_def)
  then show ?thesis using ok team_GetByID_id [OF assms(2)] by (auto simp: team_ok_def teams_ok_def)
qed

theorem Contest_teams_witness:
  "\<exists>t. team_GetByID 1 sample_db = Some t \<and> int (CountMembers 1 sample_db) \<le> 2 \<and> length (mine 1 2 sample_db) \<le> 1"
proof -
  obtain t where t: "team_GetByID 1 sample_db = Some t" "tm_ContestID t = 1" using sample_state(4) by simp
  have "map_option ct_TeamMaxSize (contest_GetByID 1 sample_db) = Some 2" by code_simp
  then obtain c where c: "contest_GetByID 1 sample_db = Some c" "ct_TeamMaxSize c = 2" by auto
  have k: "size_kept (map StOp sample_ops) 1" by (simp add: size_kept_def sample_ops_def)
  show ?thesis using Contest_teams [OF sample_requests [of "\<lambda>_. Some ''ann''" "\<lambda>x. x"] t(1), where c = 1 and u = 2] k
    by (simp add: t c del: One_nat_def)
qed

text \<open>Lowering the team size of a published contest leaves its teams too large.\<close>

definition smaller :: contest_edit where
  "smaller = \<lparr>ce_Status = [], ce_Title = [], ce_StartTime = None, ce_EndTime = None, ce_RegistrationStart = None, ce_RegistrationEnd = None,
     ce_IsPublic = None, ce_MaxParticipants = None, ce_TeamMinSize = None, ce_TeamMaxSize = Some 1, ce_DynamicScore = None, ce_FirstBloodBonus = None\<rparr>"

theorem Contest_smaller_teams:
  "let db = contest_do (OpUpdate sample_admin 1 smaller) sample_db
   in map_option ct_TeamMaxSize (contest_GetByID 1 db) = Some 1 \<and> CountMembers 1 db = 2"
  by code_simp

subsection \<open>A member who left\<close>

text \<open>C34. 
  Who leaves a team keeps playing for it, as the team is found by rows that are marked as deleted, and can
  never be its member again.
\<close>

theorem Contest_left_member:
  assumes "LeaveTeam u i db = (Inr (), db')" and "team_GetByID i db = Some t" and "GetByToken (tm_Token t) db = Some t"
    and "m \<in> set (present (d_members db))" and "mb_TeamID m = i" and "mb_UserID m = u"
  shows "CountMembers i db' < CountMembers i db \<and>
    submit_check v now \<lparr>cl_UserID = u, cl_SchoolID = s, cl_Role = role\<rparr> c h flag db' =
    submit_check v now \<lparr>cl_UserID = u, cl_SchoolID = s, cl_Role = role\<rparr> c h flag db \<and>
    (\<exists>e. fst (JoinTeam now' u (tm_Token t) db') = Inl e) \<and> (\<exists>e. fst (InviteTeamMember (tm_LeaderID t) i u db') = Inl e)"
proof (intro conjI)
  have d: "db' = member_Delete i u db" using assms(1,2) by (auto simp: LeaveTeam_def split: if_splits)
  have k: "contest_GetByID j db' = contest_GetByID j db" "GetUserTeam c u db' = GetUserTeam c u db" "cc_GetByID c h db' = cc_GetByID c h db"
    "HasSolved c h w u db' = HasSolved c h w u db" "GetByToken (tm_Token t) db' = Some t" "team_GetByID i db' = Some t" for j w
    using assms(2,3) unfolding d member_Delete_def
    by (simp_all add: contest_GetByID_def GetUserTeam_def cc_GetByID_def challenge_GetByID_def HasSolved_def solves_def GetByToken_def team_GetByID_def
        cong: option.case_cong)
  show "CountMembers i db' < CountMembers i db"
  proof -
    have "m \<in> set (filter (\<lambda>m. mb_TeamID m = i) (present (d_members db)))" using assms(4,5) by simp
    then have "length (filter (\<lambda>m. \<not> (mb_TeamID m = i \<and> mb_UserID m = u)) (filter (\<lambda>m. mb_TeamID m = i) (present (d_members db)))) <
        length (filter (\<lambda>m. mb_TeamID m = i) (present (d_members db)))"
      by (rule length_filter_less) (simp add: assms(5,6))
    then show ?thesis by (simp add: d member_Delete_def CountMembers_def present_delete conj_commute)
  qed
  show "submit_check v now \<lparr>cl_UserID = u, cl_SchoolID = s, cl_Role = role\<rparr> c h flag db' =
      submit_check v now \<lparr>cl_UserID = u, cl_SchoolID = s, cl_Role = role\<rparr> c h flag db"
    unfolding submit_check_def visible_contest_def caller.select_convs k by (rule refl)
  have "m \<in> set (all_rows (d_members db'))" using present_mem [OF assms(4)] by (simp add: d member_Delete_def)
  then have n: "member_Create (new_member i u w) db' = None" for w
    using assms(5,6) by (auto simp: member_Create_def new_member_def)
  have i: "tm_ID t = i" using team_GetByID_id [OF assms(2)] by simp
  show "\<exists>e. fst (JoinTeam now' u (tm_Token t) db') = Inl e"
    by (auto simp: JoinTeam_def k(5) i n split: option.splits)
  show "\<exists>e. fst (InviteTeamMember (tm_LeaderID t) i u db') = Inl e"
    by (auto simp: InviteTeamMember_def k(6) n split: option.splits)
qed

theorem Contest_left_member_witness:
  "\<exists>db' e. LeaveTeam 2 1 sample_db = (Inr (), db') \<and> CountMembers 1 db' < CountMembers 1 sample_db \<and>
    submit_check sample_env 12 (sample_student 2) 1 1 ''f'' db' = Inr (Judged sample_verdict) \<and> fst (JoinTeam 7 2 ''abc'' db') = Inl e"
proof -
  let ?t = "\<lparr>tm_ID = 1, tm_ContestID = 1, tm_Name = ''red'', tm_Token = ''abc'', tm_LeaderID = 1, tm_SchoolID = None, tm_Status = ''active''\<rparr>"
  obtain db' where l: "LeaveTeam 2 1 sample_db = (Inr (), db')" by (simp add: LeaveTeam_def sample_state del: One_nat_def)
  have m: "new_member 1 2 ''member'' \<in> set (present (d_members sample_db))" by (simp add: sample_state)
  show ?thesis
    using Contest_left_member [OF l sample_state(4) _ m, where v = sample_env and now = 12 and s = 0 and role = "''student''" and c = 1 and h = 1
        and flag = "''f''" and now' = 7] l sample_judged(2)
    by (simp add: sample_state new_member_def sample_student_def del: One_nat_def)
qed

subsection \<open>Two flags at once\<close>

text \<open>C33. 
  Two right flags of one team that are checked before either is paid are paid both, for the same challenge.
\<close>

theorem Contest_race:
  assumes "submit_check v now u c h flag db = Inr (Judged r)" and "submit_check v now w c h flag' db = Inr (Judged q)"
    and "ve_team q = ve_team r" and "ve_correct r" and "ve_correct q"
  shows "let db1 = snd (submit_award v now (cl_UserID u) ip c h flag r db); db2 = snd (submit_award v now (cl_UserID w) ip' c h flag' q db1);
      p = award_points c h r db; p' = award_points c h q db1
    in held c (ve_team r) db2 = Some (case held c (ve_team r) db of None \<Rightarrow> (p + p', 2) | Some (x, n) \<Rightarrow> (x + (p + p'), n + 2)) \<and>
       \<not> distinct (map su_ChallengeID (paid c (ve_team r) db2))"
proof -
  let ?db1 = "snd (submit_award v now (cl_UserID u) ip c h flag r db)"
  let ?db2 = "snd (submit_award v now (cl_UserID w) ip' c h flag' q ?db1)"
  have held: "held c t (snd (submit_award v now n i c h f z d)) =
      Some (case held c t d of None \<Rightarrow> (award_points c h z d, 1) | Some (x, k) \<Rightarrow> (x + award_points c h z d, k + 1))"
    if "ve_correct z" "ve_team z = t" for n i f z d t
  proof -
    have "held c t (snd (submit_award v now n i c h f z d)) = held c t (UpdateRanks (fe_tie v) c (AddScore now c (Some t) n (award_points c h z d) d))"
      using that by (simp add: held_def submit_award_scores(2))
    then show ?thesis by (simp add: held_AddScore)
  qed
  have paid: "\<exists>s. su_ChallengeID s = h \<and> paid c t (snd (submit_award v now n i c h f z d)) = paid c t d @ [s]"
    if "ve_correct z" "ve_team z = t" for n i f z d t
    using that by (simp add: paid_def submit_award_scores(1))
  obtain s where s: "su_ChallengeID s = h" "paid c (ve_team r) ?db1 = paid c (ve_team r) db @ [s]" using paid assms(4) by blast
  obtain s' where s': "su_ChallengeID s' = h" "paid c (ve_team r) ?db2 = paid c (ve_team r) ?db1 @ [s']" using paid [OF assms(5,3)] by blast
  have "\<not> distinct (map su_ChallengeID (paid c (ve_team r) ?db2))" using s s' by simp
  moreover have "held c (ve_team r) ?db2 = Some (case held c (ve_team r) db of None \<Rightarrow>
      (award_points c h r db + award_points c h q ?db1, 2) | Some (x, n) \<Rightarrow> (x + (award_points c h r db + award_points c h q ?db1), n + 2))"
    by (simp add: held [OF assms(5,3)] held [OF assms(4) refl] split: option.split)
  ultimately show ?thesis by (simp add: Let_def)
qed

theorem Contest_race_witness:
  "held 1 1 (snd (submit_award sample_env 12 2 ''b'' 1 1 ''f'' sample_verdict (snd (submit_award sample_env 12 1 ''a'' 1 1 ''f'' sample_verdict sample_db)))) =
     Some (105 + award_points 1 1 sample_verdict (snd (submit_award sample_env 12 1 ''a'' 1 1 ''f'' sample_verdict sample_db)), 2)"
proof -
  have c: "ve_correct sample_verdict" "ve_team sample_verdict = 1" "cl_UserID (sample_student 1) = 1" "cl_UserID (sample_student 2) = 2"
    by (simp_all add: sample_verdict_def sample_student_def)
  have n: "held 1 1 sample_db = None" by (simp add: held_def sample_state)
  show ?thesis
    using Contest_race [OF sample_judged refl c(1) c(1), where ip = "''a''" and ip' = "''b''"] by (simp only: Let_def c n sample_points option.case)
qed

end
