(* ===== verification/ContestBoardFacts.thy ===== *)
theory ContestBoardFacts
  imports ContestTeamFacts
begin

section \<open>Contests: the board\<close>

text \<open>
  The cached board is the one that would be loaded, its ranks count from one, and its scores fall.
\<close>

subsection \<open>Order and places\<close>

lemma insort_map: "insort_key f (g x) (map g xs) = map g (insort_key (\<lambda>x. f (g x)) x xs)"
  by (induction xs) auto

lemma sort_map: "sort_key f (map g xs) = map g (sort_key (\<lambda>x. f (g x)) xs)"
  by (induction xs) (simp_all add: insort_map)

lemma board_order_map:
  assumes "\<And>r. sc_ID (g r) = sc_ID r" and "\<And>r. sc_LastSolveAt (g r) = sc_LastSolveAt r" and "\<And>r. sc_TotalScore (g r) = sc_TotalScore r"
  shows "board_order tie (map g rs) = map g (board_order tie rs)"
  by (simp add: board_order_def sort_map assms)

lemma board_order_set [simp]: "set (board_order tie rs) = set rs" "length (board_order tie rs) = length rs"
  by (simp_all add: board_order_def)

lemma board_order_falls: "sorted (map (\<lambda>r. - sc_TotalScore r) (board_order tie rs))"
  unfolding board_order_def by (rule sorted_sort_key)

lemma board_order_distinct: "distinct (map sc_ID (board_order tie rs)) = distinct (map sc_ID rs)"
proof -
  have "mset (map sc_ID (board_order tie rs)) = mset (map sc_ID rs)" by (simp add: board_order_def)
  then show ?thesis using mset_eq_imp_distinct_iff by blast
qed

lemma position_of_map: "(\<And>r. sc_ID (g r) = sc_ID r) \<Longrightarrow> position_of i (map g rs) = position_of i rs"
  by (simp add: position_of_def takeWhile_map comp_def)

lemma position_of_nth: "distinct (map sc_ID rs) \<Longrightarrow> i < length rs \<Longrightarrow> position_of (sc_ID (rs ! i)) rs = i"
proof -
  assume d: "distinct (map sc_ID rs)" and i: "i < length rs"
  have "takeWhile (\<lambda>r. sc_ID r \<noteq> sc_ID (rs ! i)) rs = take i rs"
  proof (rule takeWhile_eq_take_P_nth)
    show "sc_ID (rs ! j) \<noteq> sc_ID (rs ! i)" if "j < i" "j < length rs" for j
      using d i that nth_eq_iff_index_eq [of "map sc_ID rs" j i] by simp
  qed simp
  then show ?thesis using i by (simp add: position_of_def)
qed

subsection \<open>Ranks\<close>

definition scores_of :: "nat \<Rightarrow> ContestDb \<Rightarrow> ContestScore list" where
  "scores_of c db = filter (\<lambda>r. sc_ContestID r = c) (present (d_scores db))"

text \<open>The rank of each score is its place.\<close>

definition ranked :: "(nat \<Rightarrow> nat) \<Rightarrow> nat \<Rightarrow> ContestDb \<Rightarrow> bool" where
  "ranked tie c db \<longleftrightarrow> (\<forall>r\<in>set (scores_of c db). sc_Rank r = int (position_of (sc_ID r) (board_order tie (scores_of c db))) + 1)"

definition rows_ok :: "ContestDb \<Rightarrow> bool" where
  "rows_ok db \<longleftrightarrow> ids_ok sc_ID (d_scores db) \<and> all_rows (d_scores db) = present (d_scores db) \<and>
     (\<forall>r\<in>set (present (d_scores db)). \<forall>t. sc_TeamID r = Some t \<longrightarrow> team_GetByID t db \<noteq> None)"

lemma present_alt: "present t = map fst (filter (\<lambda>x. \<not> snd x) t)"
  unfolding present_def by (rule arg_cong [of _ _ "map fst"]) (simp add: case_prod_unfold)

lemma all_present: "all_rows t = present t \<longleftrightarrow> (\<forall>x\<in>set t. \<not> snd x)"
proof
  assume "all_rows t = present t"
  then have "length (filter (\<lambda>x. \<not> snd x) t) = length t" by (metis all_rows_def length_map present_alt)
  then show "\<forall>x\<in>set t. \<not> snd x" using length_filter_less [of _ t "\<lambda>x. \<not> snd x"] by fastforce
next
  assume "\<forall>x\<in>set t. \<not> snd x"
  then show "all_rows t = present t" by (simp add: all_rows_def present_alt)
qed

lemma present_map_rows:
  assumes "\<And>x. snd (g x) = snd x"
  shows "present (map g t) = map (\<lambda>r. fst (g (r, False))) (present t)"
proof -
  have "map fst (map g (filter (\<lambda>x. \<not> snd x) t)) = map (\<lambda>r. fst (g (r, False))) (map fst (filter (\<lambda>x. \<not> snd x) t))"
    by (simp add: comp_def)
  then show ?thesis by (simp add: present_alt filter_map comp_def assms)
qed

definition set_rank :: "(nat \<Rightarrow> nat) \<Rightarrow> ContestScore list \<Rightarrow> ContestScore \<Rightarrow> ContestScore" where
  "set_rank tie rs r = r\<lparr>sc_Rank := int (position_of (sc_ID r) (board_order tie rs)) + 1\<rparr>"

lemma scores_UpdateRanks:
  assumes "all_rows (d_scores db) = present (d_scores db)"
  shows "scores_of k (UpdateRanks tie c db) = (if k = c then map (set_rank tie (scores_of c db)) (scores_of c db) else scores_of k db)"
proof -
  let ?f = "set_rank tie (scores_of c db)"
  have "present (d_scores (UpdateRanks tie c db)) = map (\<lambda>r. if sc_ContestID r = c then ?f r else r) (present (d_scores db))"
    by (simp add: UpdateRanks_def Let_def assms scores_of_def [symmetric] set_rank_def present_map_rows split_beta if_distrib cong: if_cong)
  moreover have "filter (\<lambda>r. sc_ContestID r = k) (map (\<lambda>r. if sc_ContestID r = c then ?f r else r) rs) =
      (if k = c then map ?f (filter (\<lambda>r. sc_ContestID r = c) rs) else filter (\<lambda>r. sc_ContestID r = k) rs)" for rs
    by (induction rs) (auto simp: set_rank_def)
  ultimately show ?thesis by (simp add: scores_of_def)
qed

lemma ranked_UpdateRanks:
  assumes "all_rows (d_scores db) = present (d_scores db)" and "k \<noteq> c \<Longrightarrow> ranked tie k db"
  shows "ranked tie k (UpdateRanks tie c db)"
proof (cases "k = c")
  case True
  have "board_order tie (map (set_rank tie (scores_of c db)) (scores_of c db)) = map (set_rank tie (scores_of c db)) (board_order tie (scores_of c db))"
    by (rule board_order_map) (simp_all add: set_rank_def)
  then show ?thesis using True
    by (auto simp: ranked_def scores_UpdateRanks [OF assms(1)] position_of_map set_rank_def)
next
  case False
  then show ?thesis using assms(2) by (simp add: ranked_def scores_UpdateRanks [OF assms(1)])
qed

lemma scores_AddScore: "k \<noteq> c \<Longrightarrow> scores_of k (AddScore now c t u p db) = scores_of k db"
proof -
  assume k: "k \<noteq> c"
  have "filter (\<lambda>r. sc_ContestID r = k) (map (\<lambda>r. if is_score c t u r then f r else r) rs) = filter (\<lambda>r. sc_ContestID r = k) rs"
    if "\<And>r. sc_ContestID (f r) = sc_ContestID r" for f rs
    using k that by (induction rs) (auto simp: is_score_def)
  then show ?thesis using k by (simp add: AddScore_def scores_of_def present_update)
qed

lemma present_flags: "(\<forall>x\<in>set t. \<not> snd x) \<Longrightarrow> \<forall>x\<in>set (update_rows p f t). \<not> snd x" "(\<forall>x\<in>set t. \<not> snd x) \<Longrightarrow> \<forall>x\<in>set (insert_row r t). \<not> snd x"
  by (auto simp: update_rows_def insert_row_def split: if_splits)

lemma rows_AddScore:
  assumes "ids_ok sc_ID (d_scores db)" and "all_rows (d_scores db) = present (d_scores db)"
  shows "ids_ok sc_ID (d_scores (AddScore now c t u p db)) \<and> all_rows (d_scores (AddScore now c t u p db)) = present (d_scores (AddScore now c t u p db))"
proof (cases "filter (is_score c t u) (present (d_scores db)) = []")
  case True
  then show ?thesis using assms by (simp add: AddScore_def ids_ok_insert)
next
  case False
  then show ?thesis using assms(1) assms(2) [unfolded all_present] unfolding all_present
    by (simp add: AddScore_def present_flags(1) ids_ok_update)
qed

lemma rows_UpdateRanks:
  assumes "ids_ok sc_ID (d_scores db)" and "all_rows (d_scores db) = present (d_scores db)"
  shows "ids_ok sc_ID (d_scores (UpdateRanks tie c db)) \<and> all_rows (d_scores (UpdateRanks tie c db)) = present (d_scores (UpdateRanks tie c db))"
proof -
  have "map sc_ID (all_rows (d_scores (UpdateRanks tie c db))) = map sc_ID (all_rows (d_scores db))"
    "length (d_scores (UpdateRanks tie c db)) = length (d_scores db)"
    by (auto simp: UpdateRanks_def Let_def all_rows_def)
  moreover have "\<forall>x\<in>set (d_scores (UpdateRanks tie c db)). \<not> snd x"
    using assms(2) unfolding all_present by (auto simp: UpdateRanks_def Let_def)
  ultimately show ?thesis using assms(1) by (simp add: ids_ok_def all_present)
qed


subsection \<open>The cache\<close>

lemma loadScoreboardList_alt:
  "loadScoreboardList users tie c db = map (\<lambda>(i, r). board_entry users db i r) (enumerate 0 (take 100 (board_order tie (scores_of c db))))"
  by (simp add: loadScoreboardList_def score_GetScoreboard_def paginate_def scores_of_def)

lemma loadScoreboardList_cong:
  assumes "scores_of c db' = scores_of c db"
    and "\<And>r t. r \<in> set (scores_of c db) \<Longrightarrow> sc_TeamID r = Some t \<Longrightarrow> team_GetByID t db' = team_GetByID t db"
  shows "loadScoreboardList users tie c db' = loadScoreboardList users tie c db"
proof -
  let ?b = "take 100 (board_order tie (scores_of c db))"
  have e: "board_entry users db' i r = board_entry users db i r" if "r \<in> set ?b" for i r
  proof -
    have "r \<in> set (scores_of c db)" using set_take_subset [of 100 "board_order tie (scores_of c db)"] that by auto
    with assms(2) show ?thesis by (cases "sc_TeamID r") (simp_all add: board_entry_def)
  qed
  show ?thesis unfolding loadScoreboardList_alt assms(1)
  proof (rule map_cong [OF refl])
    fix p assume "p \<in> set (enumerate 0 ?b)"
    then have "snd p \<in> set (map snd (enumerate 0 ?b))" unfolding set_map by (rule imageI)
    then have "snd p \<in> set ?b" by (simp only: map_snd_enumerate)
    then show "(case p of (i, r) \<Rightarrow> board_entry users db' i r) = (case p of (i, r) \<Rightarrow> board_entry users db i r)"
      using e by (simp add: case_prod_beta)
  qed
qed

lemma teams_grow: "team_change K db db' \<Longrightarrow> team_GetByID i db = Some t \<Longrightarrow> team_GetByID i db' = Some t"
proof (induction rule: team_change.induct)
  case Founded then show ?case
    by (auto simp: try_member_def member_Create_def parts_simps team_GetByID_def find_append split: option.splits if_splits)
qed (auto simp: parts_simps parts_eq team_GetByID_def contest_Update_def contest_Delete_def member_Delete_def)

lemma AddScore_team: "r \<in> set (present (d_scores (AddScore now c (Some t) u p db))) \<Longrightarrow>
    sc_TeamID r = Some t \<or> (\<exists>q\<in>set (present (d_scores db)). sc_TeamID r = sc_TeamID q)"
  by (auto simp: AddScore_def present_update is_score_def split: if_splits)

lemma UpdateRanks_team: "r \<in> set (present (d_scores (UpdateRanks tie c db))) \<Longrightarrow> \<exists>q\<in>set (present (d_scores db)). sc_TeamID r = sc_TeamID q"
proof -
  assume "r \<in> set (present (d_scores (UpdateRanks tie c db)))"
  then have "r\<lparr>sc_Rank := 0\<rparr> \<in> set (map (\<lambda>r. r\<lparr>sc_Rank := 0\<rparr>) (present (d_scores (UpdateRanks tie c db))))" by simp
  then have "r\<lparr>sc_Rank := 0\<rparr> \<in> set (map (\<lambda>r. r\<lparr>sc_Rank := 0\<rparr>) (present (d_scores db)))"
    unfolding same_but_rank_live(1) [OF UpdateRanks_rank] .
  then obtain q where "q \<in> set (present (d_scores db))" "r\<lparr>sc_Rank := 0\<rparr> = q\<lparr>sc_Rank := 0\<rparr>" by auto
  then show ?thesis by (intro bexI [of _ q]) (auto dest: arg_cong [of _ _ sc_TeamID])
qed

text \<open>Rows and ranks, and a cache without an old board.\<close>

definition board_ok :: "(nat \<Rightarrow> string option) \<Rightarrow> (nat \<Rightarrow> nat) \<Rightarrow> ContestDb \<times> board_cache \<Rightarrow> bool" where
  "board_ok users tie s \<longleftrightarrow> rows_ok (fst s) \<and> (\<forall>c. ranked tie c (fst s)) \<and>
     (\<forall>c es. snd s c = Some es \<longrightarrow> es = loadScoreboardList users tie c (fst s))"

lemma board_ok_same_scores:
  assumes "board_ok users tie (db, cache)" and "d_scores db' = d_scores db" and "\<And>i t. team_GetByID i db = Some t \<Longrightarrow> team_GetByID i db' = Some t"
    and "\<And>c es. cache' c = Some es \<Longrightarrow> cache c = Some es"
  shows "board_ok users tie (db', cache')"
proof -
  have s: "scores_of c db' = scores_of c db" for c by (simp add: scores_of_def assms(2))
  have t: "team_GetByID t db' = team_GetByID t db" if "r \<in> set (present (d_scores db))" "sc_TeamID r = Some t" for r t
    using assms(1,3) that by (fastforce simp: board_ok_def rows_ok_def)
  have "loadScoreboardList users tie c db' = loadScoreboardList users tie c db" for c
    by (rule loadScoreboardList_cong [OF s]) (use t in \<open>auto simp: scores_of_def\<close>)
  moreover have "rows_ok db'" using assms(1,2) t by (simp add: board_ok_def rows_ok_def)
  moreover have "ranked tie c db'" for c using assms(1) by (simp add: board_ok_def ranked_def s)
  ultimately show ?thesis using assms(1,4) by (simp add: board_ok_def)
qed

lemma GetUserTeam_ByID:
  assumes "ids_ok tm_ID (d_teams db)" and "GetUserTeam c u db = Some t"
  shows "team_GetByID (tm_ID t) db = Some t"
  using assms find_live [OF assms(1)] by (auto simp: GetUserTeam_def find_Some_iff team_GetByID_def)

lemma board_ok_award:
  assumes ok: "board_ok users (fe_tie v) (db, cache)" and t: "team_GetByID (ve_team r) db \<noteq> None" and r: "ve_correct r"
  shows "board_ok users (fe_tie v) (snd (submit_award v now u ip c h flag r db), invalidateScoreboardCache c cache)"
proof -
  let ?db' = "snd (submit_award v now u ip c h flag r db)"
  let ?a = "AddScore now c (Some (ve_team r)) u (award_points c h r db) db"
  let ?u = "UpdateRanks (fe_tie v) c ?a"
  have d: "d_scores ?db' = d_scores ?u" using r by (simp add: submit_award_scores(2))
  have team: "team_GetByID i ?db' = team_GetByID i db" for i
    using submit_award_parts [of v now u ip c h flag r db] by (simp add: parts_simps team_GetByID_def)
  have o: "ids_ok sc_ID (d_scores db)" "all_rows (d_scores db) = present (d_scores db)" using ok by (simp_all add: board_ok_def rows_ok_def)
  have a: "ids_ok sc_ID (d_scores ?a)" "all_rows (d_scores ?a) = present (d_scores ?a)" using rows_AddScore [OF o] by blast+
  have s: "scores_of k ?db' = scores_of k ?u" for k by (simp add: scores_of_def d)
  have other: "scores_of k ?db' = scores_of k db" if "k \<noteq> c" for k
    using that unfolding s scores_UpdateRanks [OF a(2)] by (simp add: scores_AddScore)
  have "rows_ok ?db'"
  proof -
    have "team_GetByID i db \<noteq> None" if x: "x \<in> set (present (d_scores ?db'))" "sc_TeamID x = Some i" for x i
    proof -
      obtain q where "q \<in> set (present (d_scores ?a))" "sc_TeamID x = sc_TeamID q" using UpdateRanks_team x(1) unfolding d by blast
      then show ?thesis using AddScore_team x(2) t ok unfolding board_ok_def rows_ok_def fst_conv by (metis option.inject)
    qed
    then show ?thesis using rows_UpdateRanks [OF a] by (simp add: rows_ok_def d team)
  qed
  moreover have "ranked (fe_tie v) k ?db'" for k
  proof -
    have "ranked (fe_tie v) k ?u" using ok by (intro ranked_UpdateRanks [OF a(2)]) (simp add: board_ok_def ranked_def scores_AddScore)
    then show ?thesis by (simp add: ranked_def s)
  qed
  moreover have "loadScoreboardList users (fe_tie v) k ?db' = loadScoreboardList users (fe_tie v) k db" if "k \<noteq> c" for k
    by (rule loadScoreboardList_cong [OF other [OF that] team])
  ultimately show ?thesis using ok by (auto simp: board_ok_def invalidateScoreboardCache_def)
qed


lemma board_ok_flag:
  assumes ok: "board_ok users (fe_tie v) (db, cache)" and ids: "ids_ok tm_ID (d_teams db)"
    and s: "SubmitFlag v now ip u c h flag db cache = Inr ((rep, db'), cache')"
  shows "board_ok users (fe_tie v) (db', cache')"
  using SubmitFlag_cases [OF s]
proof (elim disjE exE conjE)
  fix r assume j: "submit_check v now u c h flag db = Inr (Judged r)" and d: "db' = snd (submit_award v now (cl_UserID u) ip c h flag r db)"
    and k: "cache' = (if ve_correct r then invalidateScoreboardCache c cache else cache)"
  obtain t where t: "GetUserTeam c (cl_UserID u) db = Some t" "tm_ID t = ve_team r" using submit_check_judged(2) [OF j] by blast
  then have team: "team_GetByID (ve_team r) db \<noteq> None" using GetUserTeam_ByID [OF ids t(1)] by simp
  show ?thesis
  proof (cases "ve_correct r")
    case True
    then show ?thesis using board_ok_award [OF ok team] by (simp add: d k)
  next
    case False
    have "team_GetByID i db' = team_GetByID i db" for i
      using submit_award_parts [of v now "cl_UserID u" ip c h flag r db] by (simp add: d parts_simps team_GetByID_def)
    moreover have "d_scores db' = d_scores db" using False by (simp add: d submit_award_scores(2))
    ultimately show ?thesis using board_ok_same_scores [OF ok, of db' cache'] False by (simp add: k)
  qed
qed (use ok in simp)

lemma board_ok_step:
  assumes "board_ok users tie s" and "teams_ok {} (fst s)" and "step_do users tie x s = Inr s'"
  shows "board_ok users tie s'"
proof (cases s)
  case (Pair db cache)
  note ok = assms(1) [unfolded Pair]
  show ?thesis
  proof (cases x)
    case (StOp y)
    have "d_scores (contest_do y db) = d_scores db" using contest_do_keeps [of db y] by (simp add: tables_kept_def)
    then show ?thesis using assms(3) Pair StOp board_ok_same_scores [OF ok _ teams_grow [OF contest_do_change [OF keeps_sizes_empty]]] by auto
  next
    case (StFlag v now ip u i c flag)
    then obtain rep db' cache' where f: "SubmitFlag (v\<lparr>fe_tie := tie\<rparr>) now ip u i c flag db cache = Inr ((rep, db'), cache')" "s' = (db', cache')"
      using assms(3) Pair by (auto simp: go_bind_eq_Inr)
    have "ids_ok tm_ID (d_teams db)" using assms(2) Pair by (simp add: teams_ok_def)
    then show ?thesis using board_ok_flag [of users "v\<lparr>fe_tie := tie\<rparr>", OF _ _ f(1)] ok f(2) by simp
  next
    case (StBoard now u i)
    then have "s' = (db, cache) \<or> s' = (db, cache(i \<mapsto> loadScoreboardList users tie i db))"
      using assms(3) Pair by (auto simp: GetScoreboard_def Let_def split: sum.splits option.splits)
    then show ?thesis using ok by (auto simp: board_ok_def split: if_splits)
  next
    case (StExpire i)
    then have "s' = (db, cache(i := None))" using assms(3) Pair by simp
    then show ?thesis using ok by (auto simp: board_ok_def split: if_splits)
  qed
qed

lemma start_board_ok: "board_ok users tie (start_state chs)"
  by (simp add: start_state_def empty_db_def board_ok_def rows_ok_def ranked_def scores_of_def ids_ok_def)

lemma contest_run_board_ok: "contest_run users tie xs (start_state chs) = Inr s \<Longrightarrow> board_ok users tie s"
  using contest_run_inv [where P = "\<lambda>s. board_ok users tie s \<and> teams_ok {} (fst s)" and users = users and tie = tie and xs = xs]
    board_ok_step team_change_ok [OF step_do_change [OF keeps_sizes_empty]] start_board_ok start_teams_ok by blast

lemma board_ranks:
  assumes "rows_ok db" and "ranked tie c db"
  shows "map se_Rank (loadScoreboardList users tie c db) = map (\<lambda>i. int i + 1) [0..<length (loadScoreboardList users tie c db)]"
    "sorted (map (\<lambda>e. - se_TotalScore e) (loadScoreboardList users tie c db))"
proof -
  let ?b = "board_order tie (scores_of c db)"
  have "distinct (map sc_ID (all_rows (d_scores db)))" using assms(1) by (intro ids_ok_distinct) (simp add: rows_ok_def)
  then have "distinct (map sc_ID (scores_of c db))"
    using assms(1) by (simp add: rows_ok_def scores_of_def distinct_map_filter)
  then have d: "distinct (map sc_ID ?b)" by (simp add: board_order_distinct)
  have r: "sc_Rank (?b ! i) = int i + 1" if "i < length ?b" for i
  proof -
    have "?b ! i \<in> set (scores_of c db)" using nth_mem [OF that] by simp
    then show ?thesis using assms(2) position_of_nth [OF d that] by (simp add: ranked_def)
  qed
  show "map se_Rank (loadScoreboardList users tie c db) = map (\<lambda>i. int i + 1) [0..<length (loadScoreboardList users tie c db)]"
    by (rule nth_equalityI) (simp_all add: loadScoreboardList_alt nth_enumerate_eq board_entry_def Let_def r)
  have "map (\<lambda>e. - se_TotalScore e) (loadScoreboardList users tie c db) = map (\<lambda>r. - sc_TotalScore r) (take 100 ?b)"
    by (rule nth_equalityI) (simp_all add: loadScoreboardList_alt nth_enumerate_eq board_entry_def Let_def)
  then show "sorted (map (\<lambda>e. - se_TotalScore e) (loadScoreboardList users tie c db))"
    using board_order_falls [of tie "scores_of c db"] by (simp add: sorted_wrt_take take_map [symmetric])
qed

text \<open>C11. 
  From the start on, whatever is requested in a row: a board in the cache is the one that would be loaded now,
  as long as the users keep their names and the database breaks ties alike, and the ranks of a board are 1, 2
  and so on, with scores that never rise.
\<close>

theorem Contest_board:
  assumes "contest_run users tie xs (start_state chs) = Inr (db, cache)"
  shows "cache c \<in> {None, Some (loadScoreboardList users tie c db)} \<and>
    map se_Rank (loadScoreboardList users tie c db) = map (\<lambda>i. int i + 1) [0..<length (loadScoreboardList users tie c db)] \<and>
    sorted (map (\<lambda>e. - se_TotalScore e) (loadScoreboardList users tie c db))"
proof -
  have ok: "board_ok users tie (db, cache)" by (rule contest_run_board_ok [OF assms])
  then show ?thesis using board_ranks [of db tie c users] by (cases "cache c") (auto simp: board_ok_def)
qed


text \<open>A right flag, and then the board that shows it.\<close>

definition red_entry :: ScoreboardEntry where
  "red_entry = \<lparr>se_Rank = 1, se_TeamID = Some 1, se_TeamName = ''red'', se_UserID = 2, se_DisplayName = ''ann'', se_TotalScore = 105,
     se_SolveCount = 1, se_LastSolveAt = 12, se_FirstBloodCount = 0\<rparr>"

lemma sample_board: "loadScoreboardList (\<lambda>_. Some ''ann'') (\<lambda>x. x) 1 sample_paid_db = [red_entry]"
proof -
  let ?db = "UpdateRanks (\<lambda>x. x) 1 (AddScore 12 1 (Some 1) 2 105 sample_db)"
  have s: "d_scores sample_paid_db = d_scores ?db"
    using submit_award_scores(2) [of sample_env 12 2 "''ip''" 1 1 "''f''" sample_verdict sample_db]
    by (simp add: sample_paid_db_def sample_points del: One_nat_def) (simp add: sample_verdict_def sample_env_def)
  have t: "d_teams sample_paid_db = d_teams sample_db" "d_teams ?db = d_teams sample_db"
    using submit_award_parts [of sample_env 12 2 "''ip''" 1 1 "''f''" sample_verdict sample_db]
    by (simp_all add: parts_simps sample_paid_db_def UpdateRanks_def AddScore_def Let_def)
  have "loadScoreboardList (\<lambda>_. Some ''ann'') (\<lambda>x. x) 1 sample_paid_db = loadScoreboardList (\<lambda>_. Some ''ann'') (\<lambda>x. x) 1 ?db"
    by (rule loadScoreboardList_cong) (simp_all only: scores_of_def s team_GetByID_def t)
  also have "\<dots> = [red_entry]" by code_simp
  finally show ?thesis .
qed

theorem Contest_board_witness:
  "\<exists>db cache. contest_run (\<lambda>_. Some ''ann'') (\<lambda>x. x) (sample_steps @ [StBoard 13 (sample_student 1) 1]) (start_state [(sample_challenge, False)]) = Inr (db, cache) \<and>
    cache 1 = Some [red_entry] \<and> loadScoreboardList (\<lambda>_. Some ''ann'') (\<lambda>x. x) 1 db = [red_entry]"
proof -
  let ?cache = "snd (GetScoreboard (\<lambda>_. Some ''ann'') (\<lambda>x. x) 13 (sample_student 1) 1 sample_paid_db (\<lambda>_. None))"
  have run: "contest_run (\<lambda>_. Some ''ann'') (\<lambda>x. x) (sample_steps @ [StBoard 13 (sample_student 1) 1]) (start_state [(sample_challenge, False)]) =
      Inr (sample_paid_db, ?cache)"
    by (simp add: contest_run_append sample_flag_run del: One_nat_def)
  have "visible_contest 13 (sample_student 1) 1 sample_db = Inr (sample_contest\<lparr>ct_ID := 1, ct_CreatorID := 9, ct_Status := ''published''\<rparr>)"
    by code_simp
  moreover have "d_contests sample_paid_db = d_contests sample_db"
    using submit_award_parts [of sample_env 12 2 "''ip''" 1 1 "''f''" sample_verdict sample_db] by (simp add: parts_simps sample_paid_db_def)
  ultimately have "?cache 1 \<noteq> None" by (simp add: GetScoreboard_def visible_contest_def contest_GetByID_def Let_def del: One_nat_def)
  then have "?cache 1 = Some [red_entry]" using Contest_board [OF run, of 1] sample_board by auto
  then show ?thesis using run sample_board by (intro exI [of _ sample_paid_db] exI [of _ ?cache] conjI)
qed

end
