(* ===== verification/Spec2Isabelle.thy ===== *)
theory Spec2Isabelle
  imports EvmSafety EvmRefine EvmAbiFacts EngineSafety RaftFacts UtxoFacts MerkleFacts MempoolFacts AmmFacts AtomicSwapFacts
    TransportFacts PbftFacts BridgeFacts ChainTypesFacts EncodingFacts StateChannelFacts MiningFacts AccountsFacts ChainViewsFacts ContestBoardFacts
begin

text \<open>
  Verification development for ChainSpace, a teaching platform for blockchains.

  The repository has a Go back end (\<open>backend/\<close>), a Go simulation service
  (\<open>simulations/\<close>) and a web front end.  The core logic is in the simulation service: an
  engine (\<open>simulations/pkg/engine\<close>) that runs one simulator at a time, simulators built
  on a base simulator (\<open>simulations/modules\<close>), and an interpreter for EVM bytecode with an
  ABI codec (\<open>simulations/pkg/evm\<close>).

  \<^bold>\<open>Foundations.\<close>  \<open>GoPrelude\<close>: panics, slices, maps and byte strings.
  \<open>GoBigInt\<close>: \<open>math/big\<close>.  \<open>GoText\<close>: hexadecimal and decimal text.
  \<open>GoValues\<close>: floating point, dynamic values and JSON.  \<open>GoInterfaces\<close>: the
  contracts shared by components, as locales, each interpreted on the components that provide it.

  \<^bold>\<open>The interpreter.\<close>  \<open>EvmVm\<close>, \<open>EvmVmFacts\<close> (\<open>vm.go\<close>: stack, memory,
  storage, state), \<open>EvmOpcodes\<close> (\<open>opcodes.go\<close>), \<open>EvmExecutor\<close> and
  \<open>EvmExecute\<close> (\<open>executor.go\<close>: one definition per group of instructions, one
  iteration of the loop, the loop).  The loop needs no fuel: every instruction that lets it go on
  costs gas.  \<open>EvmRun\<close>: gas, isolation, results, traces, control flow and termination of
  runs.  \<open>EvmSafety\<close>: stack heights and word ranges.  \<open>EvmRefine\<close>: the arithmetic
  on \<open>big.Int\<close> implements 256-bit words.  \<open>EvmAbi\<close>, \<open>EvmAbiFacts\<close>
  (\<open>abi.go\<close>): the codec and its round trips.

  \<^bold>\<open>The engine.\<close>  \<open>EngineTypes\<close> (\<open>pkg/types\<close>), \<open>EngineState\<close>
  (\<open>state.go\<close>: history, differences, export), \<open>EngineSnapshot\<close>
  (\<open>snapshot.go\<close>: eviction, lookup by tick), \<open>EngineEvent\<close> (\<open>event.go\<close>:
  channels and subscriptions), \<open>EngineTime\<close> (\<open>time.go\<close>: the controller and its
  loops, interleaved), \<open>EngineRegistry\<close> (\<open>registry.go\<close>), \<open>EngineCore\<close>
  (\<open>engine.go\<close>, over the interface of the simulators).  \<open>BaseSim\<close>,
  \<open>BaseSimFacts\<close> (\<open>modules/base/simulator.go\<close>).  \<open>EngineFacts\<close>: the
  engine implements the state machine of the life cycle.  \<open>EngineSafety\<close>: the contract
  of a simulator, met by the base simulator, under which no sequence of commands panics, the ticker of
  the clock included; a speed that is not a number, which the clamp of the speed lets through, is
  excluded there and shown to panic.

  \<^bold>\<open>Data and network.\<close>  \<open>ChainTypes\<close>, \<open>ChainTypesFacts\<close> (\<open>account.go\<close>,
  \<open>block.go\<close>, \<open>transaction.go\<close>, \<open>message.go\<close> of \<open>pkg/types\<close>: transfers move
  and conserve balances, the Merkle root is that of a tree defined by positions).  \<open>Transport\<close>,
  \<open>TransportFacts\<close> (\<open>pkg/transport\<close>: the simulated network, where every message has a
  goroutine of its own and the steps of all goroutines interleave; a partition lets no new message across while it
  stands, and nothing panics until something is stopped or removed).

  \<^bold>\<open>Modules.\<close>  \<open>SimCalls\<close>, \<open>SimText\<close>: what a module asks of its base simulator and
  of the library.
  \<open>Raft\<close> (\<open>modules/consensus/raft.go\<close>), \<open>RaftInv\<close> (the invariant of
  a cluster and its preservation by every handler), \<open>RaftFacts\<close> (no run panics, terms
  never fall, vote requests and elections leave a node one vote in a term, and two runs, with heartbeats, in which the
  guarantees of Raft are lost).
  \<open>Pbft\<close>, \<open>PbftFacts\<close> (\<open>pbft.go\<close>: what is committed has a quorum, and one silent
  node of four blocks the cluster).
  \<open>GoFloat\<close>, \<open>GoFloatFacts\<close>: rounding to 64-bit floating point and its conversions to
  integers; rounding is monotone and exact on small integers.  \<open>Digits\<close>: numbers and their digits.
  \<open>Utxo\<close>, \<open>UtxoFacts\<close> (\<open>modules/blockchain/utxo.go\<close>: the value of the
  outputs is constant, an output is spent once).  \<open>MerkleTree\<close>, \<open>MerkleFacts\<close>
  (\<open>merkle_tree.go\<close>: every leaf has a proof, and another accepted proof for its
  position names two different hashed texts with one hash).
  \<open>Mempool\<close>, \<open>MempoolFacts\<close> (\<open>mempool.go\<close>: the best paid transactions are
  packed, the pool keeps its size).  \<open>Mining\<close>, \<open>MiningFacts\<close> (\<open>mining.go\<close>,
  \<open>difficulty.go\<close>, \<open>gas.go\<close>: the first number that meets the target is found, an adjustment of the
  difficulty is bounded).  \<open>Accounts\<close>, \<open>AccountsFacts\<close> (\<open>wallet.go\<close>,
  \<open>transaction.go\<close>, \<open>state_trie.go\<close>: transfers keep the total, a transaction is executed once, the
  root of the tree of accounts never changes).  \<open>ChainViews\<close>, \<open>ChainViewsFacts\<close>
  (\<open>light_client.go\<close>, \<open>block_structure.go\<close>, \<open>chain_sync.go\<close>: what the last header and the proofs of a
  client commit to, up to two different hashed texts with one hash, mined blocks are consistent, nodes hold the start of the chain and never pass its first
  height).  \<open>Amm\<close>, \<open>AmmFacts\<close> (\<open>modules/defi/amm.go\<close>:
  the value behind a share never falls on the product curve, for amounts that are not negative).  \<open>AtomicSwap\<close>, \<open>AtomicSwapFacts\<close>
  (\<open>modules/crosschain/atomic_swap.go\<close>: the life of a contract, and when a swap is atomic).
  \<open>Bridge\<close>, \<open>BridgeFacts\<close> (\<open>bridge.go\<close>: what is minted is backed and signed under
  the multi-signature model, for amounts that are not negative, and what the other models allow).  \<open>StateChannel\<close>,
  \<open>StateChannelFacts\<close> (\<open>state_channel.go\<close>: what is in a channel, while only recorded updates are
  submitted, and what a forged one can do).  \<open>Encoding\<close>, \<open>EncodingFacts\<close>
  (\<open>modules/crypto/encoding.go\<close>: what is encoded is decoded again, with buffers that are long enough).

  \<^bold>\<open>Environment.\<close>  The time, fresh identities, the order in which a Go map is met, the
  hash function and callbacks of other modules are arguments.  A map order is constrained by
  \<open>map_order\<close> where a property needs it.

  \<^bold>\<open>The back end.\<close>  \<open>ContestData\<close> (\<open>backend/internal/model/contest.go\<close> and
  \<open>repository/contest_repository.go\<close>: contests, teams, submissions and scores as tables of rows with the mark
  of deletion, and their queries), \<open>ContestService\<close> (\<open>service/contest_*.go\<close>: permissions, the life of a
  contest and its editing, its teams and challenges, flags and points, the board and its cache).  \<open>ContestFacts\<close>: requests in a
  row and the sums of scores, the bounds of dynamic points.  \<open>ContestTeamFacts\<close>: teams within the size limit until an edit lowers it,
  members who left, and two flags at once.  \<open>ContestBoardFacts\<close>: ranks and the cached board.

  \<^bold>\<open>Not modelled.\<close>  Pointers handed out by getters and written through by callers;
  the memory limits of the machine; the text of error messages; the TCP transport; the HTTP
  and WebSocket layers; of the back end the services that orchestrate Kubernetes, chain nodes and files, and the
  queries of the other tables; failures of the database and of the cache (an insert of a submission that fails is ignored by the
  code after the score was added); the order in which the database lists teams of equal score, which is one fixed
  argument.
\<close>

end
